(* ===== verification/Js_Number.thy ===== *)
theory Js_Number
  imports Complex_Main "HOL-Library.Log_Nat"
begin

text \<open>
  ECMAScript numbers.  A JavaScript \<^verbatim>\<open>number\<close> is an IEEE 754 binary64 value; every arithmetic
  operator computes the exact result and rounds it to the nearest representable value, ties to even.
  The theory defines that rounding on exact rationals (53 bits of significand, gradual underflow at
  \<open>2 ^ -1074\<close>, overflow to an infinity at \<open>2 ^ 1024\<close>) and the operators the modelled code uses.
  The sign of a zero is not represented: no modelled operation divides by a computed zero or
  compares with \<^verbatim>\<open>Object.is\<close>.
\<close>

section \<open>Rounding a rational to binary64\<close>

definition round_half_even :: "rat \<Rightarrow> int" where
  "round_half_even x =
     (let f = \<lfloor>x\<rfloor>; d = x - of_int f
      in if d < 1 / 2 then f
         else if 1 / 2 < d then f + 1
         else if even f then f else f + 1)"

text \<open>The binary exponent of a positive rational: \<open>2 powi fexp x \<le> x < 2 powi (fexp x + 1)\<close>.\<close>

definition fexp :: "rat \<Rightarrow> int" where
  "fexp x =
     (let (p, q) = quotient_of x; k = bitlen p - bitlen q
      in if (2 :: rat) powi k \<le> x then k else k - 1)"

definition quantum_exp :: "rat \<Rightarrow> int" where
  "quantum_exp x = max (fexp \<bar>x\<bar> - 52) (- 1074)"

definition round_to :: "int \<Rightarrow> rat \<Rightarrow> rat" where
  "round_to q x = of_int (round_half_even (x / 2 powi q)) * 2 powi q"

definition round53 :: "rat \<Rightarrow> rat" where
  "round53 x = (if x = 0 then 0 else round_to (quantum_exp x) x)"

subsection \<open>Rounding at a fixed quantum\<close>

lemma round_half_even_of_int [simp]: "round_half_even (of_int n) = n"
  by (simp add: round_half_even_def)

lemma round_half_even_bounds:
  "x - 1 / 2 \<le> of_int (round_half_even x)" "of_int (round_half_even x) \<le> x + 1 / 2"
proof -
  have f: "of_int \<lfloor>x\<rfloor> \<le> x" "x < of_int \<lfloor>x\<rfloor> + 1"
    by (simp_all add: of_int_floor_le) (metis floor_less_iff less_add_one of_int_1 of_int_add)
  define d where "d = x - of_int \<lfloor>x\<rfloor>"
  have r: "round_half_even x =
      (if d < 1 / 2 then \<lfloor>x\<rfloor> else if 1 / 2 < d then \<lfloor>x\<rfloor> + 1 else if even \<lfloor>x\<rfloor> then \<lfloor>x\<rfloor> else \<lfloor>x\<rfloor> + 1)"
    unfolding round_half_even_def Let_def d_def ..
  have d: "0 \<le> d" "d < 1" "x = of_int \<lfloor>x\<rfloor> + d" using f by (simp_all add: d_def)
  show "x - 1 / 2 \<le> of_int (round_half_even x)" "of_int (round_half_even x) \<le> x + 1 / 2"
    using d by (simp_all add: r split: if_splits)
qed

lemma round_half_even_mono:
  assumes "x \<le> y"
  shows "round_half_even x \<le> round_half_even y"
proof (cases "\<lfloor>x\<rfloor> = \<lfloor>y\<rfloor>")
  case True
  then show ?thesis using assms by (auto simp: round_half_even_def Let_def)
next
  case False
  then have lt: "\<lfloor>x\<rfloor> + 1 \<le> \<lfloor>y\<rfloor>" using floor_mono[OF assms] by simp
  have "round_half_even x \<le> \<lfloor>x\<rfloor> + 1" "\<lfloor>y\<rfloor> \<le> round_half_even y"
    by (simp_all add: round_half_even_def Let_def)
  then show ?thesis using lt by linarith
qed

lemma round_half_even_minus: "round_half_even (- x) = - round_half_even x"
proof (cases "x = of_int \<lfloor>x\<rfloor>")
  case True
  have "- x = of_int (- \<lfloor>x\<rfloor>)" using True by simp
  then show ?thesis using True by (metis round_half_even_of_int)
next
  case False
  define d where "d = x - of_int \<lfloor>x\<rfloor>"
  have "of_int \<lfloor>x\<rfloor> < x" using False of_int_floor_le[of x] by linarith
  moreover have "x < of_int \<lfloor>x\<rfloor> + 1" by linarith
  ultimately have fl: "\<lfloor>- x\<rfloor> = - \<lfloor>x\<rfloor> - 1" by (intro floor_unique) simp_all
  have "- x - of_int (- \<lfloor>x\<rfloor> - 1) = 1 - d" by (simp add: d_def)
  then have "round_half_even (- x) =
      (if 1 - d < 1 / 2 then - \<lfloor>x\<rfloor> - 1 else if 1 / 2 < 1 - d then - \<lfloor>x\<rfloor>
       else if even (- \<lfloor>x\<rfloor> - 1) then - \<lfloor>x\<rfloor> - 1 else - \<lfloor>x\<rfloor>)"
    unfolding round_half_even_def Let_def fl by simp
  moreover have "round_half_even x =
      (if d < 1 / 2 then \<lfloor>x\<rfloor> else if 1 / 2 < d then \<lfloor>x\<rfloor> + 1 else if even \<lfloor>x\<rfloor> then \<lfloor>x\<rfloor> else \<lfloor>x\<rfloor> + 1)"
    unfolding round_half_even_def Let_def d_def ..
  ultimately show ?thesis by simp
qed

lemma round_to_mono: "x \<le> y \<Longrightarrow> round_to q x \<le> round_to q y"
  unfolding round_to_def
  by (intro mult_right_mono) (simp_all add: round_half_even_mono divide_right_mono)

lemma round_to_minus: "round_to q (- x) = - round_to q x"
  by (simp add: round_to_def round_half_even_minus flip: minus_divide_left)

lemma round_to_multiple: "round_to q (of_int m * 2 powi q) = of_int m * 2 powi q"
  by (simp add: round_to_def)

lemma pow2_multiple:
  assumes "q \<le> p"
  shows "of_int m * (2 :: rat) powi p = of_int (m * 2 ^ nat (p - q)) * 2 powi q"
proof -
  have "(2 :: rat) powi p = 2 powi (p - q) * 2 powi q"
    by (simp flip: power_int_add)
  also have "(2 :: rat) powi (p - q) = 2 ^ nat (p - q)"
    using assms by (simp add: power_int_def)
  finally show ?thesis by simp
qed

lemma round_to_coarser_multiple:
  assumes "q \<le> p"
  shows "round_to q (of_int m * 2 powi p) = of_int m * 2 powi p"
  unfolding pow2_multiple[OF assms] by (rule round_to_multiple)

subsection \<open>The exponent and the quantum\<close>

lemma fexp_bounds:
  assumes "0 < x"
  shows "2 powi fexp x \<le> x" "x < 2 powi (fexp x + 1)"
proof -
  obtain p q where pq: "quotient_of x = (p, q)" by (cases "quotient_of x")
  have q: "0 < q" using quotient_of_denom_pos[OF pq] .
  have x: "x = of_int p / of_int q" using quotient_of_div[OF pq] .
  have p: "0 < p" using assms q by (simp add: x zero_less_divide_iff)
  define a where "a = nat (bitlen p - 1)"
  define b where "b = nat (bitlen q - 1)"
  have bits: "bitlen p = int a + 1" "bitlen q = int b + 1"
    using bitlen_bounds[OF p] bitlen_bounds[OF q] p q
    by (simp_all add: a_def b_def bitlen_nonneg) (smt (verit) bitlen_eq_zero_iff bitlen_nonneg)+
  have pb: "2 ^ a \<le> p" "p < 2 ^ (a + 1)" and qb: "2 ^ b \<le> q" "q < 2 ^ (b + 1)"
    using bitlen_bounds[OF p] bitlen_bounds[OF q]
    by (simp_all add: bits a_def[symmetric] b_def[symmetric] nat_add_distrib)
  define k where "k = int a - int b"
  have k: "bitlen p - bitlen q = k" by (simp add: bits k_def)
  have pow: "(2 :: rat) powi k = 2 ^ a / 2 ^ b"
    by (simp add: k_def power_int_diff)
  have rp: "(2 :: rat) ^ a \<le> of_int p" "of_int p < (2 :: rat) ^ (a + 1)"
    and rq: "(2 :: rat) ^ b \<le> of_int q" "of_int q < (2 :: rat) ^ (b + 1)"
    using pb qb by (metis of_int_le_iff of_int_less_iff of_int_numeral of_int_power)+
  have up: "x < 2 * 2 powi k"
  proof -
    have "of_int p / of_int q < (2 * 2 ^ a) / (2 :: rat) ^ b"
      using rp rq q p by (intro frac_less) simp_all
    then show ?thesis by (simp add: x pow)
  qed
  have low: "2 powi k / 2 \<le> x"
  proof -
    have "(2 :: rat) ^ a / (2 * 2 ^ b) \<le> of_int p / of_int q"
      using rp rq q p by (intro frac_le) simp_all
    then show ?thesis by (simp add: x pow)
  qed
  have f: "fexp x = (if (2 :: rat) powi k \<le> x then k else k - 1)"
    by (simp add: fexp_def pq k Let_def)
  show "2 powi fexp x \<le> x" "x < 2 powi (fexp x + 1)"
    using up low by (auto simp: f power_int_add power_int_diff mult.commute)
qed

lemma pow2_less_imp: "(2 :: rat) powi a < 2 powi b \<Longrightarrow> a < b"
  by (metis linorder_not_less one_le_numeral power_int_increasing)

lemma pow2_le_imp: "(2 :: rat) powi a \<le> 2 powi b \<Longrightarrow> a \<le> b"
proof (rule ccontr)
  assume le: "(2 :: rat) powi a \<le> 2 powi b" and "\<not> a \<le> b"
  then have "(2 :: rat) powi b < 2 powi a" by (intro power_int_strict_increasing) simp_all
  with le show False by simp
qed

lemma fexp_mono:
  assumes "0 < x" "x \<le> y"
  shows "fexp x \<le> fexp y"
proof -
  have "(2 :: rat) powi fexp x < 2 powi (fexp y + 1)"
    using fexp_bounds(1)[of x] fexp_bounds(2)[of y] assms by linarith
  then show ?thesis using pow2_less_imp by fastforce
qed

lemma quantum_exp_minus [simp]: "quantum_exp (- x) = quantum_exp x"
  by (simp add: quantum_exp_def)

lemma round53_zero [simp]: "round53 0 = 0"
  by (simp add: round53_def)

lemma round53_minus: "round53 (- x) = - round53 x"
  by (simp add: round53_def round_to_minus)

lemma round53_nonneg: "0 \<le> x \<Longrightarrow> 0 \<le> round53 x"
proof -
  assume "0 \<le> x"
  then have "round_to (quantum_exp x) 0 \<le> round_to (quantum_exp x) x" by (rule round_to_mono)
  moreover have "round_to (quantum_exp x) 0 = 0"
    using round_to_multiple[of "quantum_exp x" 0] by simp
  ultimately show ?thesis by (simp add: round53_def)
qed

lemma round53_mono_pos:
  assumes "0 < x" "x \<le> y"
  shows "round53 x \<le> round53 y"
proof (cases "quantum_exp x = quantum_exp y")
  case True
  then show ?thesis using assms by (simp add: round53_def round_to_mono)
next
  case False
  have e: "fexp x \<le> fexp y" using fexp_mono assms by blast
  then have q: "quantum_exp x \<le> quantum_exp y"
    using assms by (simp add: quantum_exp_def)
  with False e have qy: "quantum_exp y = fexp y - 52" and lt: "fexp x + 1 \<le> fexp y"
    using assms by (auto simp: quantum_exp_def max_def split: if_splits)
  let ?P = "2 powi fexp y :: rat"
  have "x \<le> 2 powi (fexp x + 1)" using fexp_bounds(2)[of x] assms by simp
  also have "\<dots> \<le> ?P" using lt by (simp add: power_int_increasing)
  finally have "round_to (quantum_exp x) x \<le> round_to (quantum_exp x) ?P" by (rule round_to_mono)
  also have "round_to (quantum_exp x) ?P = ?P"
    using round_to_coarser_multiple[of "quantum_exp x" "fexp y" 1] q qy by simp
  also have "?P = round_to (quantum_exp y) ?P"
    using round_to_coarser_multiple[of "quantum_exp y" "fexp y" 1] qy by simp
  also have "\<dots> \<le> round_to (quantum_exp y) y"
    using fexp_bounds(1)[of y] assms by (intro round_to_mono) simp
  finally show ?thesis using assms by (simp add: round53_def)
qed

lemma round53_mono:
  assumes "x \<le> y"
  shows "round53 x \<le> round53 y"
proof -
  consider "0 < x" | "x \<le> 0" "0 \<le> y" | "y < 0" by linarith
  then show ?thesis
  proof cases
    case 1
    then show ?thesis using assms by (rule round53_mono_pos)
  next
    case 2
    then have "0 \<le> round53 (- x)" "0 \<le> round53 y" by (simp_all add: round53_nonneg)
    then show ?thesis by (simp add: round53_minus)
  next
    case 3
    then have "round53 (- y) \<le> round53 (- x)" using assms by (intro round53_mono_pos) simp_all
    then show ?thesis by (simp add: round53_minus)
  qed
qed

lemma round53_exact:
  assumes "\<bar>m\<bar> \<le> 2 ^ 53" "- 1074 \<le> e"
  shows "round53 (of_int m * 2 powi e) = of_int m * 2 powi e"
proof (cases "m = 0")
  case False
  let ?x = "of_int m * 2 powi e :: rat"
  have nz: "?x \<noteq> 0" using False by simp
  have ax: "\<bar>?x\<bar> = of_int \<bar>m\<bar> * 2 powi e" by (simp add: abs_mult)
  have pos: "0 < \<bar>?x\<bar>" using nz by simp
  have "\<bar>?x\<bar> \<le> 2 powi 53 * 2 powi e"
    unfolding ax using assms(1) by (intro mult_right_mono) (simp_all add: power_int_def flip: of_int_abs)
  then have le: "\<bar>?x\<bar> \<le> 2 powi (e + 53)" by (simp add: power_int_add mult.commute)
  show ?thesis
  proof (cases "\<bar>m\<bar> = 2 ^ 53")
    case True
    then have m: "m = 2 ^ 53 \<or> m = - (2 ^ 53)" by arith
    have "\<bar>?x\<bar> = 2 powi (e + 53)" unfolding ax True by (simp add: power_int_add mult.commute)
    then have "fexp \<bar>?x\<bar> \<le> e + 53"
      using fexp_bounds(1)[OF pos] by (intro pow2_le_imp) simp
    then have q: "quantum_exp ?x \<le> e + 1" using assms(2) by (simp add: quantum_exp_def)
    have "?x = of_int (if 0 < m then 2 ^ 52 else - (2 ^ 52)) * 2 powi (e + 1)"
      using m by (auto simp: power_int_add)
    then show ?thesis using round_to_coarser_multiple[OF q] nz by (metis round53_def)
  next
    case False
    then have "\<bar>m\<bar> < 2 ^ 53" using assms(1) by simp
    then have "of_int \<bar>m\<bar> < (2 :: rat) ^ 53" by (metis of_int_less_iff of_int_numeral of_int_power)
    then have "\<bar>?x\<bar> < 2 powi 53 * 2 powi e"
      unfolding ax by (intro mult_strict_right_mono) (simp_all add: power_int_def)
    then have "2 powi fexp \<bar>?x\<bar> < (2 :: rat) powi (e + 53)"
      using fexp_bounds(1)[OF pos] by (simp add: power_int_add mult.commute)
    then have "quantum_exp ?x \<le> e" using pow2_less_imp assms(2) by (force simp: quantum_exp_def)
    then show ?thesis using round_to_coarser_multiple nz by (metis round53_def)
  qed
qed simp

lemma round53_of_int [simp]:
  assumes "\<bar>n\<bar> \<le> 2 ^ 53"
  shows "round53 (of_int n) = of_int n"
  using round53_exact[OF assms, of 0] by simp

lemma round53_form: "\<exists>m e. round53 x = of_int m * 2 powi e \<and> \<bar>m\<bar> \<le> 2 ^ 53 \<and> - 1074 \<le> e"
proof (cases "x = 0")
  case True
  then show ?thesis by (intro exI[of _ 0]) auto
next
  case False
  let ?q = "quantum_exp x" let ?m = "round_half_even (x / 2 powi ?q)"
  have pos: "0 < \<bar>x\<bar>" using False by simp
  have "fexp \<bar>x\<bar> + 1 \<le> ?q + 53" by (simp add: quantum_exp_def)
  then have "(2 :: rat) powi (fexp \<bar>x\<bar> + 1) \<le> 2 powi (?q + 53)" by (simp add: power_int_increasing)
  then have "\<bar>x\<bar> < 2 powi ?q * 2 powi 53"
    using fexp_bounds(2)[OF pos] by (simp add: power_int_add mult.commute)
  then have "\<bar>x / 2 powi ?q\<bar> \<le> of_int (2 ^ 53)"
    by (simp add: abs_divide divide_le_eq mult.commute power_int_def)
  then have b: "x / 2 powi ?q \<le> of_int (2 ^ 53)" "of_int (- (2 ^ 53)) \<le> x / 2 powi ?q"
    by (simp_all only: abs_le_iff of_int_minus) linarith+
  have "?m \<le> 2 ^ 53" "- (2 ^ 53) \<le> ?m"
    using round_half_even_mono[OF b(1)] round_half_even_mono[OF b(2)]
    by (simp_all only: round_half_even_of_int)
  then have "\<bar>?m\<bar> \<le> 2 ^ 53" by simp
  moreover have "- 1074 \<le> ?q" by (simp add: quantum_exp_def)
  ultimately show ?thesis using False by (auto simp: round53_def round_to_def)
qed

lemma round53_idem: "round53 (round53 x) = round53 x"
  using round53_form[of x] round53_exact by metis

subsection \<open>The contract the arithmetic relies on\<close>

text \<open>
  What the operators need of a rounding function: monotone, idempotent, odd and exact at zero and at
  one.  The client lemmas are about products and quotients of non-negative values.
\<close>

locale rounding =
  fixes rnd :: "rat \<Rightarrow> rat"
  assumes rnd_mono: "x \<le> y \<Longrightarrow> rnd x \<le> rnd y"
    and rnd_idem: "rnd (rnd x) = rnd x"
    and rnd_zero: "rnd 0 = 0"
    and rnd_one: "rnd 1 = 1"
begin

lemma rnd_nonneg: "0 \<le> x \<Longrightarrow> 0 \<le> rnd x"
  using rnd_mono[of 0 x] by (simp add: rnd_zero)

lemma rnd_le_fixed: "x \<le> a \<Longrightarrow> rnd a = a \<Longrightarrow> rnd x \<le> a"
  using rnd_mono[of x a] by simp

lemma rnd_le_one: "x \<le> 1 \<Longrightarrow> rnd x \<le> 1"
  by (rule rnd_le_fixed[OF _ rnd_one])

lemma rnd_scale_le:
  assumes "rnd a = a" "0 \<le> a" "w \<le> 1"
  shows "rnd (a * w) \<le> a"
  using assms by (intro rnd_le_fixed) (simp_all add: mult_left_le)

end

interpretation dbl: rounding round53
  using round53_mono round53_idem round53_of_int[of 1] by unfold_locales simp_all

section \<open>Numbers and operators\<close>

datatype jsnum = NaN | PInf | NInf | Fin rat

definition to_double :: "rat \<Rightarrow> jsnum" where
  "to_double x =
     (let r = round53 x
      in if 2 ^ 1024 \<le> r then PInf else if r \<le> - (2 ^ 1024) then NInf else Fin r)"

text \<open>The values a \<^verbatim>\<open>number\<close> can hold.\<close>

fun is_double :: "jsnum \<Rightarrow> bool" where
  "is_double (Fin x) \<longleftrightarrow> round53 x = x \<and> \<bar>x\<bar> < 2 ^ 1024"
| "is_double _ \<longleftrightarrow> True"

fun jneg :: "jsnum \<Rightarrow> jsnum" where
  "jneg NaN = NaN"
| "jneg PInf = NInf"
| "jneg NInf = PInf"
| "jneg (Fin x) = Fin (- x)"

fun jadd :: "jsnum \<Rightarrow> jsnum \<Rightarrow> jsnum" where
  "jadd (Fin x) (Fin y) = to_double (x + y)"
| "jadd NaN _ = NaN"
| "jadd _ NaN = NaN"
| "jadd PInf NInf = NaN"
| "jadd NInf PInf = NaN"
| "jadd PInf _ = PInf"
| "jadd _ PInf = PInf"
| "jadd NInf _ = NInf"
| "jadd _ NInf = NInf"

definition jsub :: "jsnum \<Rightarrow> jsnum \<Rightarrow> jsnum" where
  "jsub x y = jadd x (jneg y)"

definition jinf_of_sign :: "rat \<Rightarrow> jsnum" where
  "jinf_of_sign x = (if x = 0 then NaN else if 0 < x then PInf else NInf)"

fun jmul :: "jsnum \<Rightarrow> jsnum \<Rightarrow> jsnum" where
  "jmul (Fin x) (Fin y) = to_double (x * y)"
| "jmul NaN _ = NaN"
| "jmul _ NaN = NaN"
| "jmul PInf (Fin y) = jinf_of_sign y"
| "jmul NInf (Fin y) = jinf_of_sign (- y)"
| "jmul (Fin x) PInf = jinf_of_sign x"
| "jmul (Fin x) NInf = jinf_of_sign (- x)"
| "jmul PInf PInf = PInf"
| "jmul PInf NInf = NInf"
| "jmul NInf PInf = NInf"
| "jmul NInf NInf = PInf"

text \<open>Division; a zero divisor is taken as positive zero.\<close>

fun jdiv :: "jsnum \<Rightarrow> jsnum \<Rightarrow> jsnum" where
  "jdiv (Fin x) (Fin y) = (if y = 0 then jinf_of_sign x else to_double (x / y))"
| "jdiv NaN _ = NaN"
| "jdiv _ NaN = NaN"
| "jdiv (Fin x) PInf = Fin 0"
| "jdiv (Fin x) NInf = Fin 0"
| "jdiv PInf (Fin y) = (if 0 \<le> y then PInf else NInf)"
| "jdiv NInf (Fin y) = (if 0 \<le> y then NInf else PInf)"
| "jdiv _ _ = NaN"

fun jless :: "jsnum \<Rightarrow> jsnum \<Rightarrow> bool" where
  "jless (Fin x) (Fin y) \<longleftrightarrow> x < y"
| "jless NaN _ \<longleftrightarrow> False"
| "jless _ NaN \<longleftrightarrow> False"
| "jless NInf NInf \<longleftrightarrow> False"
| "jless NInf _ \<longleftrightarrow> True"
| "jless _ PInf \<longleftrightarrow> True"
| "jless _ _ \<longleftrightarrow> False"

definition jeq :: "jsnum \<Rightarrow> jsnum \<Rightarrow> bool" where
  "jeq x y \<longleftrightarrow> x \<noteq> NaN \<and> y \<noteq> NaN \<and> x = y"

definition jle :: "jsnum \<Rightarrow> jsnum \<Rightarrow> bool" where
  "jle x y \<longleftrightarrow> jless x y \<or> jeq x y"

text \<open>\<^verbatim>\<open>Math.min\<close>, \<^verbatim>\<open>Math.max\<close>, \<^verbatim>\<open>Math.floor\<close>, \<^verbatim>\<open>Math.round\<close>, \<^verbatim>\<open>Math.abs\<close>, \<^verbatim>\<open>Number.isFinite\<close>, \<^verbatim>\<open>Number.isInteger\<close>.\<close>

definition jmin :: "jsnum \<Rightarrow> jsnum \<Rightarrow> jsnum" where
  "jmin x y = (if x = NaN \<or> y = NaN then NaN else if jless y x then y else x)"

definition jmax :: "jsnum \<Rightarrow> jsnum \<Rightarrow> jsnum" where
  "jmax x y = (if x = NaN \<or> y = NaN then NaN else if jless x y then y else x)"

fun jfloor :: "jsnum \<Rightarrow> jsnum" where
  "jfloor (Fin x) = Fin (of_int \<lfloor>x\<rfloor>)"
| "jfloor x = x"

fun jround :: "jsnum \<Rightarrow> jsnum" where
  "jround (Fin x) = Fin (of_int \<lfloor>x + 1 / 2\<rfloor>)"
| "jround x = x"

fun jabs :: "jsnum \<Rightarrow> jsnum" where
  "jabs (Fin x) = Fin \<bar>x\<bar>"
| "jabs NInf = PInf"
| "jabs x = x"

definition jis_finite :: "jsnum \<Rightarrow> bool" where
  "jis_finite x \<longleftrightarrow> x \<noteq> NaN \<and> x \<noteq> PInf \<and> x \<noteq> NInf"

fun jis_integer :: "jsnum \<Rightarrow> bool" where
  "jis_integer (Fin x) \<longleftrightarrow> of_int \<lfloor>x\<rfloor> = x"
| "jis_integer _ \<longleftrightarrow> False"

definition jint :: "int \<Rightarrow> jsnum" where
  "jint n = Fin (of_int n)"

text \<open>Doubles are multiples of \<open>2 ^ -1074\<close>, so the difference of two of them never rounds to zero.\<close>

definition min_exp :: int where
  "min_exp = - 1074"

lemma round53_grid: "\<exists>k. round53 x = of_int k * 2 powi min_exp"
proof -
  obtain m e where "round53 x = of_int m * 2 powi e" "- 1074 \<le> e" using round53_form by blast
  then have "round53 x = of_int (m * 2 ^ nat (e - min_exp)) * 2 powi min_exp"
    using pow2_multiple[of min_exp e] unfolding min_exp_def[symmetric] by metis
  then show ?thesis by blast
qed

lemma round53_grid_fixed: "round53 (2 powi min_exp) = 2 powi min_exp"
  using round53_exact[of 1 min_exp] by (simp add: min_exp_def[symmetric])

lemma round53_diff_pos:
  assumes "round53 x = x" "round53 y = y" "x < y"
  shows "0 < round53 (y - x)"
proof -
  define g where "g = (2 :: rat) powi min_exp"
  have p: "0 < g" by (simp add: g_def)
  obtain k l where k: "x = of_int k * g" "y = of_int l * g"
    using round53_grid[of x] round53_grid[of y] assms unfolding g_def by metis
  have "k < l" using assms(3) p unfolding k by (simp add: mult_less_cancel_right)
  then have "(1 :: rat) \<le> of_int (l - k)" by linarith
  then have "1 * g \<le> of_int (l - k) * g" using p by (intro mult_right_mono) simp_all
  then have "g \<le> y - x" unfolding k by (simp add: left_diff_distrib)
  then have "g \<le> round53 (y - x)" using round53_mono[of g "y - x"] round53_grid_fixed by (simp add: g_def)
  then show ?thesis using p by simp
qed

subsection \<open>Integers are exact up to \<open>2 ^ 53\<close>\<close>

lemma is_double_int: "\<bar>n\<bar> \<le> 2 ^ 53 \<Longrightarrow> is_double (Fin (of_int n))"
proof -
  assume n: "\<bar>n\<bar> \<le> 2 ^ 53"
  then have "(of_int \<bar>n\<bar> :: rat) \<le> of_int (2 ^ 53)" by (simp only: of_int_le_iff)
  then have "\<bar>of_int n :: rat\<bar> \<le> 2 ^ 53" by simp
  moreover have "(2 ^ 53 :: rat) < 2 ^ 1024" by simp
  ultimately show ?thesis using n by simp
qed

lemma to_double_int: "\<bar>n\<bar> \<le> 2 ^ 53 \<Longrightarrow> to_double (of_int n) = Fin (of_int n)"
  using is_double_int[of n] by (auto simp: to_double_def Let_def)

lemma jsub_int: "\<bar>n - s\<bar> \<le> 2 ^ 53 \<Longrightarrow> jsub (jint n) (jint s) = jint (n - s)"
  using to_double_int[of "n - s"] by (simp add: jsub_def jint_def)

lemma jadd_int: "\<bar>n + s\<bar> \<le> 2 ^ 53 \<Longrightarrow> jadd (jint n) (jint s) = jint (n + s)"
  using to_double_int[of "n + s"] by (simp add: jint_def)

lemma jmul_int: "\<bar>n * s\<bar> \<le> 2 ^ 53 \<Longrightarrow> jmul (jint n) (jint s) = jint (n * s)"
  using to_double_int[of "n * s"] by (simp add: jint_def)

end
