(* ===== verification/Prelude.thy ===== *)
theory Prelude
  imports Js_Number "HOL-Library.AList" "HOL-Library.Sublist"
begin

text \<open>
  Shared vocabulary of the development: JavaScript values, strings and collections as the modelled
  code uses them, database tables as lists of rows, and the lemma collections the components share.

  A \<^verbatim>\<open>string\<close> is the list of its UTF-16 code units, restricted to the Latin-1 range.  A \<^verbatim>\<open>Map\<close> or a
  plain object is an association list in insertion order, updated with \<^const>\<open>AList.update\<close>; a \<^verbatim>\<open>Set\<close>
  is a list without repetitions in insertion order.  An instant (\<^verbatim>\<open>Date\<close>, or the ISO string printed
  from one) is the number of milliseconds since the epoch.
\<close>

section \<open>Collections of rewrite rules\<close>

named_theorems store_simps \<open>reading a table after a write\<close>
named_theorems wf_simps \<open>unfolding workflow combinators\<close>

section \<open>JavaScript values\<close>

text \<open>Values of type \<^verbatim>\<open>unknown\<close> that come out of JSON columns and payloads.\<close>

datatype json =
    JUndefined
  | JNull
  | JBool bool
  | JNum jsnum
  | JStr string
  | JArr "json list"
  | JObj "(string \<times> json) list"

fun jfield :: "string \<Rightarrow> json \<Rightarrow> json" where
  "jfield k (JObj kvs) = (case map_of kvs k of None \<Rightarrow> JUndefined | Some v \<Rightarrow> v)"
| "jfield k _ = JUndefined"

text \<open>\<^verbatim>\<open>isRecord\<close>: an object that is neither \<^verbatim>\<open>null\<close> nor an array.\<close>

fun isRecord :: "json \<Rightarrow> bool" where
  "isRecord (JObj _) \<longleftrightarrow> True"
| "isRecord _ \<longleftrightarrow> False"

fun is_jstr :: "json \<Rightarrow> bool" where
  "is_jstr (JStr _) \<longleftrightarrow> True"
| "is_jstr _ \<longleftrightarrow> False"

fun jstr :: "json \<Rightarrow> string" where
  "jstr (JStr s) = s"
| "jstr _ = []"

section \<open>Strings\<close>

definition js_is_space :: "char \<Rightarrow> bool" where
  "js_is_space c \<longleftrightarrow> of_char c \<in> {9 .. 13 :: nat} \<or> of_char c = (32 :: nat) \<or> of_char c = (160 :: nat)"

definition js_trim :: "string \<Rightarrow> string" where
  "js_trim s = rev (dropWhile js_is_space (rev (dropWhile js_is_space s)))"

definition js_lower_char :: "char \<Rightarrow> char" where
  "js_lower_char c =
     (let n = of_char c :: nat
      in if 65 \<le> n \<and> n \<le> 90 \<or> 192 \<le> n \<and> n \<le> 222 \<and> n \<noteq> 215 then char_of (n + 32) else c)"

definition js_lower :: "string \<Rightarrow> string" where
  "js_lower = map js_lower_char"

definition js_startsWith :: "string \<Rightarrow> string \<Rightarrow> bool" where
  "js_startsWith s p \<longleftrightarrow> prefix p s"

fun js_split :: "char \<Rightarrow> string \<Rightarrow> string list" where
  "js_split sep [] = [[]]"
| "js_split sep (c # cs) =
     (case js_split sep cs of
        [] \<Rightarrow> [[c]]
      | w # ws \<Rightarrow> if c = sep then [] # w # ws else (c # w) # ws)"

fun js_join :: "char \<Rightarrow> string list \<Rightarrow> string" where
  "js_join sep [] = []"
| "js_join sep [w] = w"
| "js_join sep (w # ws) = w @ sep # js_join sep ws"

text \<open>\<^verbatim>\<open>lastIndexOf\<close> for a single character, \<^verbatim>\<open>None\<close> for \<open>-1\<close>.\<close>

fun js_lastIndexOf :: "char \<Rightarrow> string \<Rightarrow> nat option" where
  "js_lastIndexOf c [] = None"
| "js_lastIndexOf c (d # ds) =
     (case js_lastIndexOf c ds of
        Some i \<Rightarrow> Some (Suc i)
      | None \<Rightarrow> if c = d then Some 0 else None)"

lemma js_split_not_Nil [simp]: "js_split sep s \<noteq> []"
  by (induction s) (auto split: list.splits)

lemma js_join_Cons: "ws \<noteq> [] \<Longrightarrow> js_join sep (w # ws) = w @ sep # js_join sep ws"
  by (cases ws) auto

lemma js_join_split [simp]: "js_join sep (js_split sep s) = s"
proof (induction s)
  case (Cons c cs)
  obtain w ws where "js_split sep cs = w # ws" by (cases "js_split sep cs") auto
  with Cons show ?case by (cases ws) (auto simp: js_join_Cons)
qed simp

lemma js_split_free: "sep \<notin> set s \<Longrightarrow> js_split sep s = [s]"
  by (induction s) auto

lemma js_split_append: "sep \<notin> set a \<Longrightarrow> js_split sep (a @ sep # s) = a # js_split sep s"
proof (induction a)
  case Nil
  then show ?case by (cases "js_split sep s") auto
qed auto

lemma js_lastIndexOf_None: "js_lastIndexOf c s = None \<longleftrightarrow> c \<notin> set s"
  by (induction s) (auto split: option.splits)

lemma js_lastIndexOf_append:
  "c \<notin> set b \<Longrightarrow> js_lastIndexOf c (a @ c # b) = Some (length a)"
proof (induction a)
  case Nil
  then have "js_lastIndexOf c b = None" by (simp add: js_lastIndexOf_None)
  then show ?case by simp
qed auto

lemma js_lastIndexOf_SomeD:
  "js_lastIndexOf c s = Some i \<Longrightarrow> i < length s \<and> s ! i = c \<and> c \<notin> set (drop (Suc i) s)"
proof (induction s arbitrary: i)
  case (Cons d ds)
  show ?case
  proof (cases "js_lastIndexOf c ds")
    case None
    moreover from None have "c \<notin> set ds" by (simp add: js_lastIndexOf_None)
    ultimately show ?thesis using Cons.prems by (simp split: if_splits)
  next
    case (Some j)
    then show ?thesis using Cons by auto
  qed
qed simp

lemma js_trim_lower_idem_len: "length (js_lower s) = length s"
  by (simp add: js_lower_def)

text \<open>A non-negative integer in a template literal.\<close>

fun js_nat :: "nat \<Rightarrow> string" where
  "js_nat n = (if n < 10 then [char_of (48 + n)] else js_nat (n div 10) @ [char_of (48 + n mod 10)])"

declare js_nat.simps [simp del]

lemma js_nat_digits: "c \<in> set (js_nat n) \<Longrightarrow> 48 \<le> (of_char c :: nat) \<and> (of_char c :: nat) \<le> 57"
proof (induction n rule: js_nat.induct)
  case (1 n)
  then show ?case
    by (cases "n < 10") (auto simp: js_nat.simps[of n])
qed

text \<open>Trimming and lower-casing, the two halves of every normalisation of an address.\<close>

lemma of_char_lower: "(of_char (js_lower_char c) :: nat) =
  (let n = of_char c in if 65 \<le> n \<and> n \<le> 90 \<or> 192 \<le> n \<and> n \<le> 222 \<and> n \<noteq> 215 then n + 32 else n)"
  by (auto simp: js_lower_char_def Let_def)

lemma js_lower_char_idem: "js_lower_char (js_lower_char c) = js_lower_char c"
proof -
  have "(of_char (js_lower_char (js_lower_char c)) :: nat) = of_char (js_lower_char c)"
    unfolding of_char_lower[of "js_lower_char c"] of_char_lower[of c] Let_def by auto
  then show ?thesis by (simp only: of_char_eq_iff)
qed

lemma js_lower_idem [simp]: "js_lower (js_lower s) = js_lower s"
  by (simp add: js_lower_def js_lower_char_idem)

lemma js_is_space_lower [simp]: "js_is_space (js_lower_char c) = js_is_space c"
  unfolding js_is_space_def of_char_lower Let_def by auto

lemma js_trim_lower: "js_trim (js_lower s) = js_lower (js_trim s)"
  by (simp add: js_trim_def js_lower_def dropWhile_map rev_map comp_def)

lemma dropWhile_rev_stable:
  assumes "dropWhile P s = s"
  shows "dropWhile P (rev (dropWhile P (rev s))) = rev (dropWhile P (rev s))"
proof (cases "rev (dropWhile P (rev s))")
  case (Cons x xs)
  have "s = rev (dropWhile P (rev s)) @ rev (takeWhile P (rev s))"
    by (metis rev_append rev_rev_ident takeWhile_dropWhile_id)
  then obtain r where "s = x # r" using Cons by (metis append_Cons)
  then have "\<not> P x" using assms length_dropWhile_le[of P r] by (auto split: if_splits)
  then show ?thesis using Cons by simp
next
  case Nil
  then show ?thesis unfolding Nil by simp
qed

lemma js_trim_idem [simp]: "js_trim (js_trim s) = js_trim s"
proof -
  let ?a = "dropWhile js_is_space s" let ?b = "rev (dropWhile js_is_space (rev ?a))"
  have "dropWhile js_is_space ?a = ?a" by simp
  then have "dropWhile js_is_space ?b = ?b" by (rule dropWhile_rev_stable)
  moreover have "dropWhile js_is_space (rev ?b) = rev ?b" by simp
  ultimately show ?thesis by (simp add: js_trim_def)
qed

lemma js_lower_Nil [simp]: "js_lower s = [] \<longleftrightarrow> s = []"
  by (simp add: js_lower_def)

section \<open>Insertion-ordered sets and stable sorting\<close>

definition set_add :: "'a \<Rightarrow> 'a list \<Rightarrow> 'a list" where
  "set_add x xs = (if x \<in> set xs then xs else xs @ [x])"

text \<open>\<^verbatim>\<open>[...new Set(xs)]\<close>: first occurrences, in order.\<close>

definition js_dedup :: "'a list \<Rightarrow> 'a list" where
  "js_dedup xs = foldl (\<lambda>acc x. set_add x acc) [] xs"

lemma set_set_add [simp]: "set (set_add x xs) = insert x (set xs)"
  by (auto simp: set_add_def)

lemma distinct_set_add [simp]: "distinct (set_add x xs) \<longleftrightarrow> distinct xs"
  by (auto simp: set_add_def)

lemma foldl_set_add:
  "set (foldl (\<lambda>acc x. set_add x acc) acc xs) = set acc \<union> set xs"
  "distinct acc \<Longrightarrow> distinct (foldl (\<lambda>acc x. set_add x acc) acc xs)"
  by (induction xs arbitrary: acc) auto

lemma set_js_dedup [simp]: "set (js_dedup xs) = set xs"
  by (simp add: js_dedup_def foldl_set_add)

lemma distinct_js_dedup [simp]: "distinct (js_dedup xs)"
  by (simp add: js_dedup_def foldl_set_add)

text \<open>\<^verbatim>\<open>Array.prototype.sort\<close> with a comparator is stable: insertion before the first larger element.\<close>

fun insert_by :: "('a \<Rightarrow> 'a \<Rightarrow> bool) \<Rightarrow> 'a \<Rightarrow> 'a list \<Rightarrow> 'a list" where
  "insert_by le x [] = [x]"
| "insert_by le x (y # ys) = (if le x y then x # y # ys else y # insert_by le x ys)"

definition sort_by :: "('a \<Rightarrow> 'a \<Rightarrow> bool) \<Rightarrow> 'a list \<Rightarrow> 'a list" where
  "sort_by le xs = foldr (insert_by le) xs []"

lemma set_insert_by [simp]: "set (insert_by le x xs) = insert x (set xs)"
  by (induction xs) auto

lemma set_sort_by [simp]: "set (sort_by le xs) = set xs"
  by (induction xs) (auto simp: sort_by_def)

lemma length_insert_by [simp]: "length (insert_by le x xs) = Suc (length xs)"
  by (induction xs) auto

lemma length_sort_by [simp]: "length (sort_by le xs) = length xs"
  by (induction xs) (auto simp: sort_by_def)

lemma distinct_insert_by [simp]: "distinct (insert_by le x xs) \<longleftrightarrow> x \<notin> set xs \<and> distinct xs"
  by (induction xs) auto

lemma distinct_sort_by [simp]: "distinct (sort_by le xs) \<longleftrightarrow> distinct xs"
proof (induction xs)
  case (Cons x xs)
  have "sort_by le (x # xs) = insert_by le x (sort_by le xs)" by (simp add: sort_by_def)
  then show ?case using Cons by simp
qed (simp add: sort_by_def)

lemma sorted_insert_by:
  assumes "\<And>a b. le a b \<or> le b a" "\<And>a b c. le a b \<Longrightarrow> le b c \<Longrightarrow> le a c"
  shows "sorted_wrt le xs \<Longrightarrow> sorted_wrt le (insert_by le x xs)"
proof (induction xs)
  case (Cons y ys)
  have "le y x" if "\<not> le x y" using assms(1)[of x y] that by simp
  moreover have "le x z" if "le x y" "z \<in> set ys" for z
    using assms(2)[of x y z] that Cons.prems by simp
  ultimately show ?case using Cons by simp
qed simp

lemma sorted_sort_by:
  assumes "\<And>a b. le a b \<or> le b a" "\<And>a b c. le a b \<Longrightarrow> le b c \<Longrightarrow> le a c"
  shows "sorted_wrt le (sort_by le xs)"
  by (induction xs) (auto simp: sort_by_def intro: sorted_insert_by[OF assms])

lemma distinct_map_sort_by: "distinct (map f (sort_by le xs)) \<longleftrightarrow> distinct (map f xs)"
proof -
  have i: "distinct (map f (insert_by le x ys)) \<longleftrightarrow> f x \<notin> f ` set ys \<and> distinct (map f ys)" for x ys
    by (induction ys) auto
  show ?thesis
  proof (induction xs)
    case (Cons x xs)
    have "sort_by le (x # xs) = insert_by le x (sort_by le xs)" by (simp add: sort_by_def)
    then show ?case using Cons by (simp add: i)
  qed (simp add: sort_by_def)
qed

lemma map_sort_by: "map f (sort_by (\<lambda>a b. le (f a) (f b)) xs) = sort_by le (map f xs)"
proof -
  have "map f (insert_by (\<lambda>a b. le (f a) (f b)) x ys) = insert_by le (f x) (map f ys)" for x ys
    by (induction ys) auto
  then show ?thesis by (induction xs) (simp_all add: sort_by_def)
qed

section \<open>Tables\<close>

text \<open>
  A table is the list of its rows.  \<open>tbl_update\<close> is \<^verbatim>\<open>UPDATE ... WHERE\<close>, \<open>tbl_delete\<close> is
  \<^verbatim>\<open>DELETE ... WHERE\<close>, and a query for one row is \<^const>\<open>List.find\<close>.
\<close>

definition tbl_update :: "('r \<Rightarrow> bool) \<Rightarrow> ('r \<Rightarrow> 'r) \<Rightarrow> 'r list \<Rightarrow> 'r list" where
  "tbl_update P f rows = map (\<lambda>r. if P r then f r else r) rows"

definition tbl_delete :: "('r \<Rightarrow> bool) \<Rightarrow> 'r list \<Rightarrow> 'r list" where
  "tbl_delete P rows = filter (\<lambda>r. \<not> P r) rows"

lemma find_Some_iff': "List.find P xs = Some x \<Longrightarrow> x \<in> set xs \<and> P x"
  by (auto simp: find_Some_iff)

lemma filter_unique:
  "distinct (map f xs) \<Longrightarrow> x \<in> set xs \<Longrightarrow> filter (\<lambda>y. f y = f x) xs = [x]"
proof (induction xs)
  case (Cons z zs)
  show ?case
  proof (cases "z = x")
    case True
    then have "\<forall>y \<in> set zs. f y \<noteq> f x" using Cons.prems by (metis distinct.simps(2) image_eqI list.simps(9) set_map)
    then show ?thesis using True by (simp add: filter_empty_conv)
  next
    case False
    then have "x \<in> set zs" "f z \<noteq> f x" using Cons.prems by auto
    then show ?thesis using Cons by simp
  qed
qed simp

lemma filter_tbl_update:
  assumes "\<And>r. P r \<Longrightarrow> P (f r)"
  shows "filter P (tbl_update P f rows) = map f (filter P rows)"
  using assms by (induction rows) (auto simp: tbl_update_def)

lemma tbl_update_idem:
  assumes "\<And>r. P r \<Longrightarrow> f (f r) = f r"
  shows "tbl_update P f (tbl_update P f rows) = tbl_update P f rows"
  using assms by (simp add: tbl_update_def)

lemma find_tbl_update_Some:
  assumes "\<And>r. P r \<Longrightarrow> P (f r)" "List.find P rows = Some r"
  shows "\<exists>r'. List.find P (tbl_update P f rows) = Some r'"
  using assms(2) by (induction rows) (auto simp: tbl_update_def assms(1) split: if_splits)

lemma find_append:
  "List.find P (xs @ ys) = (case List.find P xs of None \<Rightarrow> List.find P ys | Some x \<Rightarrow> Some x)"
  by (induction xs) auto

lemma find_tbl_update_same [store_simps]:
  assumes "\<And>r. key (f r) = key r"
  shows "List.find (\<lambda>r. key r = k) (tbl_update (\<lambda>r. key r = k) f rows)
       = map_option f (List.find (\<lambda>r. key r = k) rows)"
  unfolding tbl_update_def by (induction rows) (auto simp: assms)

lemma find_tbl_update_other [store_simps]:
  assumes "\<And>r. key (f r) = key r" "k \<noteq> k'"
  shows "List.find (\<lambda>r. key r = k') (tbl_update (\<lambda>r. key r = k) f rows)
       = List.find (\<lambda>r. key r = k') rows"
  unfolding tbl_update_def using assms(2) by (induction rows) (auto simp: assms(1))

lemma map_key_tbl_update [store_simps]:
  assumes "\<And>r. key (f r) = key r"
  shows "map key (tbl_update P f rows) = map key rows"
  unfolding tbl_update_def by (induction rows) (auto simp: assms)

lemma tbl_update_absent:
  "\<forall>r \<in> set rows. \<not> P r \<Longrightarrow> tbl_update P f rows = rows"
  by (induction rows) (auto simp: tbl_update_def)

lemma find_tbl_delete_same [store_simps]:
  "List.find P (tbl_delete P rows) = None"
  unfolding tbl_delete_def by (induction rows) auto

lemma find_tbl_delete_other [store_simps]:
  assumes "\<And>r. Q r \<Longrightarrow> \<not> P r"
  shows "List.find Q (tbl_delete P rows) = List.find Q rows"
  unfolding tbl_delete_def using assms by (induction rows) auto

lemma distinct_map_tbl_delete [store_simps]:
  "distinct (map key rows) \<Longrightarrow> distinct (map key (tbl_delete P rows))"
  unfolding tbl_delete_def by (simp add: distinct_map_filter)

end
