(* ===== verification/Snapshot_Store.thy ===== *)
theory Snapshot_Store
  imports Prelude
begin

text \<open>
  The snapshot repository of the API (\<^verbatim>\<open>apps/api/src/snapshot/snapshot.repository.ts\<close>): the tables
  \<^verbatim>\<open>snapshots\<close>, \<^verbatim>\<open>snapshot_outputs\<close> and \<^verbatim>\<open>snapshot_publications\<close>, the status state machine
  \<open>canTransition\<close>, and every repository operation.  Each operation runs in one database transaction
  that locks the snapshot row, so it is one function from the tables to the tables.  The \<^verbatim>\<open>pg_notify\<close>
  of a transaction is an entry of \<open>notified\<close>.

  The lemmas show that the tables stay well formed, that a status only ever moves along the state
  machine, and what each operation does on every branch.  The locale \<open>status_machine\<close> is the contract
  a settled row gives to every later writer; it is interpreted on \<open>canTransition\<close>.
\<close>

section \<open>Data\<close>

datatype SnapshotStatus = queued | running | completed | failed | cancelled

datatype SnapshotPublicationStatus = pub_pending | pub_sent | pub_failed

record SnapshotTemporal =
  tmp_workflowId :: "string option"
  tmp_runId :: "string option"
  tmp_taskQueue :: "string option"
  tmp_algorithmTaskQueue :: "string option"

record SnapshotError =
  err_message :: string
  err_timestamp :: "int option"
  err_extra :: "(string \<times> json) list"

type_synonym SnapshotOutputs = "(string \<times> string option) list"

record AlgorithmPresetFrozen =
  fz_key :: string
  fz_version :: string
  fz_inputs :: "(string \<times> json) list"
  fz_name :: "string option"
  fz_description :: "string option"
  fz_createdAt :: "int option"
  fz_updatedAt :: "int option"

record SnapshotPublicationCounts =
  cnt_posted :: int
  cnt_ok :: int
  cnt_failed :: int
  cnt_dropped :: int
  cnt_skipped :: int

text \<open>The rows of the three tables (columns no operation reads are left out).\<close>

record SnapshotEntity =
  sn_id :: string
  sn_status :: SnapshotStatus
  sn_algorithmPresetId :: string
  sn_frozen :: AlgorithmPresetFrozen
  sn_temporal :: "SnapshotTemporal option"
  sn_error :: "SnapshotError option"
  sn_startedAt :: "int option"
  sn_completedAt :: "int option"
  sn_createdAt :: int
  sn_updatedAt :: int

record SnapshotOutputEntity =
  out_snapshotId :: string
  out_key :: string
  out_value :: string

record SnapshotPublicationEntity =
  pub_snapshotId :: string
  pub_algorithmKey :: string
  pub_status :: SnapshotPublicationStatus
  pub_counts :: "SnapshotPublicationCounts option"
  pub_error :: "string option"
  pub_createdAt :: int
  pub_updatedAt :: int

record store =
  snapshots :: "SnapshotEntity list"
  snapshot_outputs :: "SnapshotOutputEntity list"
  snapshot_publications :: "SnapshotPublicationEntity list"
  notified :: "string list"

record SnapshotRow =
  row_id :: string
  row_status :: SnapshotStatus
  row_algorithmPreset :: string
  row_frozen :: AlgorithmPresetFrozen
  row_temporal :: "SnapshotTemporal option"
  row_outputs :: "(string \<times> string) list option"
  row_publications :: "SnapshotPublicationEntity list option"
  row_error :: "SnapshotError option"
  row_startedAt :: "int option"
  row_completedAt :: "int option"
  row_createdAt :: int
  row_updatedAt :: int

record SnapshotCreateData =
  cd_status :: "SnapshotStatus option"
  cd_algorithmPreset :: string
  cd_frozen :: AlgorithmPresetFrozen
  cd_temporal :: "SnapshotTemporal option"
  cd_outputs :: "SnapshotOutputs option"

record SnapshotFilter =
  sf_status :: "SnapshotStatus option"
  sf_algorithmPresetId :: "string option"
  sf_frozenKey :: "string option"
  sf_frozenVersion :: "string option"

record SnapshotApplyExternalUpdate =
  up_status :: "SnapshotStatus option"
  up_startedAt :: "int option"
  up_completedAt :: "int option"
  up_temporal :: "SnapshotTemporal option"
  up_outputs :: "SnapshotOutputs option"
  up_error :: "SnapshotError option"

record SnapshotExternalUpdateResult =
  res_row :: SnapshotRow
  res_applied :: bool

record UpsertSnapshotPublicationData =
  upd_algorithmKey :: string
  upd_status :: SnapshotPublicationStatus
  upd_counts :: "SnapshotPublicationCounts option"
  upd_error :: "string option"

section \<open>The status state machine\<close>

definition TERMINAL_SNAPSHOT_STATUSES :: "SnapshotStatus list" where
  "TERMINAL_SNAPSHOT_STATUSES = [completed, failed, cancelled]"

definition canTransition :: "SnapshotStatus \<Rightarrow> SnapshotStatus \<Rightarrow> bool" where
  "canTransition from to \<longleftrightarrow>
     (if from = to then True
      else if from = queued then to \<noteq> completed
      else if from = running then to \<in> set TERMINAL_SNAPSHOT_STATUSES
      else False)"

abbreviation terminal :: "SnapshotStatus \<Rightarrow> bool" where
  "terminal s \<equiv> s \<in> set TERMINAL_SNAPSHOT_STATUSES"

section \<open>Rows\<close>

definition mapOutputs :: "SnapshotOutputEntity list \<Rightarrow> (string \<times> string) list option" where
  "mapOutputs outputs =
     (if outputs = [] then None
      else Some (foldl (\<lambda>result o'. AList.update (out_key o') (out_value o') result) [] outputs))"

fun buildOutputRows :: "string \<Rightarrow> SnapshotOutputs \<Rightarrow> SnapshotOutputEntity list" where
  "buildOutputRows snapshotId [] = []"
| "buildOutputRows snapshotId ((k, None) # rest) = buildOutputRows snapshotId rest"
| "buildOutputRows snapshotId ((k, Some v) # rest) =
     \<lparr>out_snapshotId = snapshotId, out_key = k, out_value = v\<rparr> # buildOutputRows snapshotId rest"

text \<open>\<open>lc a b\<close> is \<^verbatim>\<open>a.localeCompare(b) <= 0\<close>, the collation of the host.\<close>

definition mapPublications ::
  "(string \<Rightarrow> string \<Rightarrow> bool) \<Rightarrow> SnapshotPublicationEntity list \<Rightarrow> SnapshotPublicationEntity list option" where
  "mapPublications lc publications =
     (if publications = [] then None
      else Some (sort_by (\<lambda>a b. lc (pub_algorithmKey a) (pub_algorithmKey b)) publications))"

definition mapSnapshotRow ::
  "(string \<Rightarrow> string \<Rightarrow> bool) \<Rightarrow> SnapshotEntity \<Rightarrow> SnapshotOutputEntity list
     \<Rightarrow> SnapshotPublicationEntity list \<Rightarrow> SnapshotRow" where
  "mapSnapshotRow lc entity outputs publications =
     \<lparr>row_id = sn_id entity,
      row_status = sn_status entity,
      row_algorithmPreset = sn_algorithmPresetId entity,
      row_frozen = sn_frozen entity,
      row_temporal = sn_temporal entity,
      row_outputs = mapOutputs outputs,
      row_publications = mapPublications lc publications,
      row_error = sn_error entity,
      row_startedAt = sn_startedAt entity,
      row_completedAt = sn_completedAt entity,
      row_createdAt = sn_createdAt entity,
      row_updatedAt = sn_updatedAt entity\<rparr>"

definition buildWhere :: "SnapshotFilter \<Rightarrow> SnapshotEntity \<Rightarrow> bool" where
  "buildWhere f e \<longleftrightarrow>
     (case sf_status f of None \<Rightarrow> True | Some s \<Rightarrow> sn_status e = s)
   \<and> (case sf_algorithmPresetId f of None \<Rightarrow> True | Some p \<Rightarrow> sn_algorithmPresetId e = p)
   \<and> (case sf_frozenVersion f of
        None \<Rightarrow> (case sf_frozenKey f of None \<Rightarrow> True | Some k \<Rightarrow> fz_key (sn_frozen e) = k)
      | Some v \<Rightarrow>
          (case sf_frozenKey f of
             Some k \<Rightarrow> fz_key (sn_frozen e) = k \<and> fz_version (sn_frozen e) = v
           | None \<Rightarrow> fz_version (sn_frozen e) = v))"

section \<open>Reading the tables\<close>

definition find_snapshot :: "string \<Rightarrow> store \<Rightarrow> SnapshotEntity option" where
  "find_snapshot i st = List.find (\<lambda>e. sn_id e = i) (snapshots st)"

definition outputs_of :: "string \<Rightarrow> store \<Rightarrow> SnapshotOutputEntity list" where
  "outputs_of i st = filter (\<lambda>o'. out_snapshotId o' = i) (snapshot_outputs st)"

definition publications_of :: "string \<Rightarrow> store \<Rightarrow> SnapshotPublicationEntity list" where
  "publications_of i st = filter (\<lambda>p. pub_snapshotId p = i) (snapshot_publications st)"

definition findById :: "(string \<Rightarrow> string \<Rightarrow> bool) \<Rightarrow> string \<Rightarrow> store \<Rightarrow> SnapshotRow option" where
  "findById lc i st =
     map_option (\<lambda>e. mapSnapshotRow lc e (outputs_of i st) (publications_of i st)) (find_snapshot i st)"

definition find_rows :: "(string \<Rightarrow> string \<Rightarrow> bool) \<Rightarrow> SnapshotFilter \<Rightarrow> store \<Rightarrow> SnapshotRow list" where
  "find_rows lc f st =
     map (\<lambda>e. mapSnapshotRow lc e (outputs_of (sn_id e) st) (publications_of (sn_id e) st))
       (filter (buildWhere f) (snapshots st))"

definition findUnsettled :: "(string \<Rightarrow> string \<Rightarrow> bool) \<Rightarrow> int \<Rightarrow> store \<Rightarrow> SnapshotRow list" where
  "findUnsettled lc updatedBefore st =
     map (\<lambda>e. mapSnapshotRow lc e [] [])
       (sort_key sn_createdAt
         (filter (\<lambda>e. sn_status e \<in> {queued, running} \<and> sn_updatedAt e < updatedBefore) (snapshots st)))"

section \<open>Writing the tables\<close>

text \<open>\<^verbatim>\<open>create\<close>: \<open>newId\<close> is the generated UUID, \<open>now\<close> the database clock.\<close>

definition create ::
  "(string \<Rightarrow> string \<Rightarrow> bool) \<Rightarrow> string \<Rightarrow> int \<Rightarrow> SnapshotCreateData \<Rightarrow> store \<Rightarrow> SnapshotRow \<times> store" where
  "create lc newId now createData st =
     (let entity =
        \<lparr>sn_id = newId,
         sn_status = (case cd_status createData of None \<Rightarrow> queued | Some s \<Rightarrow> s),
         sn_algorithmPresetId = cd_algorithmPreset createData,
         sn_frozen = cd_frozen createData,
         sn_temporal = cd_temporal createData,
         sn_error = None, sn_startedAt = None, sn_completedAt = None,
         sn_createdAt = now, sn_updatedAt = now\<rparr>;
        outputRows = (case cd_outputs createData of
                        None \<Rightarrow> [] | Some outputs \<Rightarrow> buildOutputRows newId outputs);
        st' = st\<lparr>snapshots := snapshots st @ [entity],
                 snapshot_outputs := snapshot_outputs st @ outputRows\<rparr>
      in (mapSnapshotRow lc entity (outputs_of newId st') [], st'))"

text \<open>Deleting a snapshot row deletes its outputs and publications (\<^verbatim>\<open>ON DELETE CASCADE\<close>).\<close>

definition delete_snapshots :: "(SnapshotEntity \<Rightarrow> bool) \<Rightarrow> store \<Rightarrow> store" where
  "delete_snapshots P st =
     (let gone = map sn_id (filter P (snapshots st))
      in st\<lparr>snapshots := tbl_delete P (snapshots st),
            snapshot_outputs := tbl_delete (\<lambda>o'. out_snapshotId o' \<in> set gone) (snapshot_outputs st),
            snapshot_publications := tbl_delete (\<lambda>p. pub_snapshotId p \<in> set gone) (snapshot_publications st)\<rparr>)"

definition deleteById ::
  "(string \<Rightarrow> string \<Rightarrow> bool) \<Rightarrow> string \<Rightarrow> store \<Rightarrow> SnapshotRow option \<times> store" where
  "deleteById lc i st =
     (case find_snapshot i st of
        None \<Rightarrow> (None, st)
      | Some entity \<Rightarrow>
          (Some (mapSnapshotRow lc entity (outputs_of i st) []), delete_snapshots (\<lambda>e. sn_id e = i) st))"

definition deleteMany :: "SnapshotFilter \<Rightarrow> store \<Rightarrow> nat \<times> store" where
  "deleteMany f st =
     (length (filter (buildWhere f) (snapshots st)), delete_snapshots (buildWhere f) st)"

text \<open>The entity fields an update writes; \<open>now\<close> is the \<^verbatim>\<open>new Date()\<close> of \<^verbatim>\<open>updatedAt\<close>.\<close>

definition apply_fields :: "int \<Rightarrow> SnapshotApplyExternalUpdate \<Rightarrow> SnapshotEntity \<Rightarrow> SnapshotEntity" where
  "apply_fields now data e =
     (let touched = (up_status data \<noteq> None \<or> up_startedAt data \<noteq> None \<or> up_completedAt data \<noteq> None
                   \<or> up_temporal data \<noteq> None \<or> up_error data \<noteq> None)
      in e\<lparr>sn_status := (case up_status data of None \<Rightarrow> sn_status e | Some s \<Rightarrow> s),
           sn_startedAt := (case up_startedAt data of None \<Rightarrow> sn_startedAt e | Some t \<Rightarrow> Some t),
           sn_completedAt := (case up_completedAt data of None \<Rightarrow> sn_completedAt e | Some t \<Rightarrow> Some t),
           sn_temporal := (case up_temporal data of None \<Rightarrow> sn_temporal e | Some t \<Rightarrow> Some t),
           sn_error := (case up_error data of None \<Rightarrow> sn_error e | Some x \<Rightarrow> Some x),
           sn_updatedAt := (if touched then now else sn_updatedAt e)\<rparr>)"

definition replace_outputs :: "string \<Rightarrow> SnapshotOutputs option \<Rightarrow> store \<Rightarrow> store" where
  "replace_outputs i outputs st =
     (case outputs of
        None \<Rightarrow> st
      | Some os \<Rightarrow>
          st\<lparr>snapshot_outputs :=
               tbl_delete (\<lambda>o'. out_snapshotId o' = i) (snapshot_outputs st) @ buildOutputRows i os\<rparr>)"

definition applyExternalUpdate ::
  "(string \<Rightarrow> string \<Rightarrow> bool) \<Rightarrow> int \<Rightarrow> string \<Rightarrow> SnapshotApplyExternalUpdate \<Rightarrow> store
     \<Rightarrow> SnapshotExternalUpdateResult option \<times> store" where
  "applyExternalUpdate lc now i data st =
     (case find_snapshot i st of
        None \<Rightarrow> (None, st)
      | Some entity \<Rightarrow>
          if (case up_status data of None \<Rightarrow> False | Some s \<Rightarrow> \<not> canTransition (sn_status entity) s)
          then (Some \<lparr>res_row = mapSnapshotRow lc entity (outputs_of i st) [], res_applied = False\<rparr>, st)
          else
            (let entity' = apply_fields now data entity;
                 st1 = st\<lparr>snapshots := tbl_update (\<lambda>e. sn_id e = i) (apply_fields now data) (snapshots st)\<rparr>;
                 st2 = replace_outputs i (up_outputs data) st1;
                 st3 = st2\<lparr>notified := notified st2 @ [i]\<rparr>
             in (Some \<lparr>res_row = mapSnapshotRow lc entity' (outputs_of i st3) [], res_applied = True\<rparr>, st3)))"

definition is_publication :: "string \<Rightarrow> UpsertSnapshotPublicationData \<Rightarrow> SnapshotPublicationEntity \<Rightarrow> bool" where
  "is_publication i data p \<longleftrightarrow> pub_snapshotId p = i \<and> pub_algorithmKey p = upd_algorithmKey data"

text \<open>Saving an entity in which no column changed issues no statement and leaves \<^verbatim>\<open>updatedAt\<close> alone.\<close>

definition write_publication ::
  "int \<Rightarrow> string \<Rightarrow> UpsertSnapshotPublicationData \<Rightarrow> SnapshotPublicationEntity \<Rightarrow> SnapshotPublicationEntity" where
  "write_publication now i data p =
     (let p' = p\<lparr>pub_snapshotId := i, pub_algorithmKey := upd_algorithmKey data, pub_status := upd_status data,
                 pub_counts := upd_counts data, pub_error := upd_error data\<rparr>
      in if p' = p then p else p'\<lparr>pub_updatedAt := now\<rparr>)"

definition upsertPublication ::
  "(string \<Rightarrow> string \<Rightarrow> bool) \<Rightarrow> int \<Rightarrow> string \<Rightarrow> UpsertSnapshotPublicationData \<Rightarrow> store
     \<Rightarrow> SnapshotRow option \<times> store" where
  "upsertPublication lc now i data st =
     (case find_snapshot i st of
        None \<Rightarrow> (None, st)
      | Some snapshot \<Rightarrow>
          (let fresh = \<lparr>pub_snapshotId = i, pub_algorithmKey = upd_algorithmKey data,
                        pub_status = upd_status data, pub_counts = upd_counts data,
                        pub_error = upd_error data, pub_createdAt = now, pub_updatedAt = now\<rparr>;
               pubs = (case List.find (is_publication i data) (snapshot_publications st) of
                         Some _ \<Rightarrow> tbl_update (is_publication i data) (write_publication now i data)
                                     (snapshot_publications st)
                       | None \<Rightarrow> snapshot_publications st @ [fresh]);
               st' = st\<lparr>snapshot_publications := pubs, notified := notified st @ [i]\<rparr>
           in (Some (mapSnapshotRow lc snapshot (outputs_of i st') (publications_of i st')), st')))"

section \<open>The contract of a settled status\<close>

text \<open>
  What every writer of a status may rely on: rewriting the current status is allowed, and a final
  status has no other successor.  A guarded write that is not allowed leaves the status alone, so the
  first writer to settle a row wins every race.
\<close>

locale status_machine =
  fixes can :: "'s \<Rightarrow> 's \<Rightarrow> bool"
    and final :: "'s \<Rightarrow> bool"
  assumes can_refl: "can s s"
    and final_stuck: "final s \<Longrightarrow> can s t \<Longrightarrow> t = s"
begin

definition guarded :: "'s \<Rightarrow> 's \<Rightarrow> 's" where
  "guarded cur to = (if can cur to then to else cur)"

lemma guarded_final: "final s \<Longrightarrow> guarded s t = s"
  using final_stuck by (auto simp: guarded_def)

lemma guarded_writes_final: "final s \<Longrightarrow> foldl guarded s ts = s"
  by (induction ts) (auto simp: guarded_final)

lemma can_star_final: "can\<^sup>*\<^sup>* s t \<Longrightarrow> final s \<Longrightarrow> t = s"
  by (induction rule: rtranclp_induct) (auto dest: final_stuck)

lemma guarded_can: "can s (guarded s t)"
  by (simp add: guarded_def can_refl)

end

interpretation sm: status_machine canTransition terminal
  by unfold_locales (auto simp: canTransition_def TERMINAL_SNAPSHOT_STATUSES_def split: if_splits)

lemma terminal_iff: "terminal s \<longleftrightarrow> s = completed \<or> s = failed \<or> s = cancelled"
  by (simp add: TERMINAL_SNAPSHOT_STATUSES_def)

lemma not_terminal_iff: "\<not> terminal s \<longleftrightarrow> s = queued \<or> s = running"
  by (cases s) (auto simp: terminal_iff)

lemma into_completed: "canTransition s completed \<longleftrightarrow> s = running \<or> s = completed"
  by (cases s) (auto simp: canTransition_def TERMINAL_SNAPSHOT_STATUSES_def)

lemma no_return_to_queued: "canTransition s queued \<longleftrightarrow> s = queued"
  by (cases s) (auto simp: canTransition_def TERMINAL_SNAPSHOT_STATUSES_def)

section \<open>What one write does\<close>

lemma apply_fields_id [simp]: "sn_id (apply_fields now d e) = sn_id e"
  by (simp add: apply_fields_def Let_def)

lemma apply_fields_status [simp]:
  "sn_status (apply_fields now d e) = (case up_status d of None \<Rightarrow> sn_status e | Some s \<Rightarrow> s)"
  by (simp add: apply_fields_def Let_def)

lemma apply_fields_frame [simp]:
  "sn_algorithmPresetId (apply_fields now d e) = sn_algorithmPresetId e"
  "sn_frozen (apply_fields now d e) = sn_frozen e"
  "sn_createdAt (apply_fields now d e) = sn_createdAt e"
  by (simp_all add: apply_fields_def Let_def)

lemma apply_fields_idem: "apply_fields now d (apply_fields now d e) = apply_fields now d e"
  by (cases "up_status d"; cases "up_startedAt d"; cases "up_completedAt d";
      cases "up_temporal d"; cases "up_error d") (simp_all add: apply_fields_def Let_def)

lemma set_buildOutputRows:
  "o' \<in> set (buildOutputRows i os) \<longleftrightarrow> out_snapshotId o' = i \<and> (out_key o', Some (out_value o')) \<in> set os"
  by (induction i os rule: buildOutputRows.induct) auto

lemma filter_buildOutputRows [simp]:
  "filter (\<lambda>o'. out_snapshotId o' = i) (buildOutputRows i os) = buildOutputRows i os"
  "filter (\<lambda>o'. out_snapshotId o' \<noteq> i) (buildOutputRows i os) = []"
  by (induction i os rule: buildOutputRows.induct) auto

lemma filter_buildOutputRows_other [simp]:
  "j \<noteq> i \<Longrightarrow> filter (\<lambda>o'. out_snapshotId o' = j) (buildOutputRows i os) = []"
  by (induction i os rule: buildOutputRows.induct) auto

lemma replace_outputs_tables [simp]:
  "snapshots (replace_outputs i os st) = snapshots st"
  "snapshot_publications (replace_outputs i os st) = snapshot_publications st"
  "notified (replace_outputs i os st) = notified st"
  by (simp_all add: replace_outputs_def split: option.split)

lemma find_snapshot_store [simp]:
  "find_snapshot i (st\<lparr>notified := ns\<rparr>) = find_snapshot i st"
  "find_snapshot i (replace_outputs j os st) = find_snapshot i st"
  "find_snapshot i (st\<lparr>snapshot_publications := ps\<rparr>) = find_snapshot i st"
  by (simp_all add: find_snapshot_def)

lemma outputs_of_store [simp]:
  "outputs_of i (st\<lparr>notified := ns\<rparr>) = outputs_of i st"
  "outputs_of i (st\<lparr>snapshots := rows\<rparr>) = outputs_of i st"
  "outputs_of i (st\<lparr>snapshot_publications := ps\<rparr>) = outputs_of i st"
  by (simp_all add: outputs_of_def)

lemma outputs_of_replace [store_simps]:
  "outputs_of j (replace_outputs i os st) =
     (case os of None \<Rightarrow> outputs_of j st
      | Some kvs \<Rightarrow> if j = i then buildOutputRows i kvs else outputs_of j st)"
  by (auto simp: outputs_of_def replace_outputs_def tbl_delete_def filter_filter
        intro!: filter_cong split: option.split)

lemma find_snapshot_update [store_simps]:
  "find_snapshot j (st\<lparr>snapshots := tbl_update (\<lambda>e. sn_id e = i) (apply_fields now d) (snapshots st)\<rparr>) =
     (if j = i then map_option (apply_fields now d) (find_snapshot i st) else find_snapshot j st)"
  by (auto simp: find_snapshot_def find_tbl_update_same find_tbl_update_other)

text \<open>The three outcomes of \<open>applyExternalUpdate\<close>.\<close>

definition blocked :: "SnapshotApplyExternalUpdate \<Rightarrow> SnapshotEntity \<Rightarrow> bool" where
  "blocked d e \<longleftrightarrow> (case up_status d of None \<Rightarrow> False | Some s \<Rightarrow> \<not> canTransition (sn_status e) s)"

definition written :: "int \<Rightarrow> string \<Rightarrow> SnapshotApplyExternalUpdate \<Rightarrow> store \<Rightarrow> store" where
  "written now i d st =
     (replace_outputs i (up_outputs d)
        (st\<lparr>snapshots := tbl_update (\<lambda>e. sn_id e = i) (apply_fields now d) (snapshots st)\<rparr>))
       \<lparr>notified := notified st @ [i]\<rparr>"

lemma applyExternalUpdate_missing:
  "find_snapshot i st = None \<Longrightarrow> applyExternalUpdate lc now i d st = (None, st)"
  by (simp add: applyExternalUpdate_def)

lemma applyExternalUpdate_blocked:
  "find_snapshot i st = Some e \<Longrightarrow> blocked d e \<Longrightarrow>
     applyExternalUpdate lc now i d st =
       (Some \<lparr>res_row = mapSnapshotRow lc e (outputs_of i st) [], res_applied = False\<rparr>, st)"
  by (simp add: applyExternalUpdate_def blocked_def)

lemma applyExternalUpdate_applied:
  "find_snapshot i st = Some e \<Longrightarrow> \<not> blocked d e \<Longrightarrow>
     applyExternalUpdate lc now i d st =
       (Some \<lparr>res_row = mapSnapshotRow lc (apply_fields now d e) (outputs_of i (written now i d st)) [],
              res_applied = True\<rparr>,
        written now i d st)"
  by (simp add: applyExternalUpdate_def blocked_def written_def Let_def)

lemmas applyExternalUpdate_cases =
  applyExternalUpdate_missing applyExternalUpdate_blocked applyExternalUpdate_applied

lemma find_written [store_simps]:
  "find_snapshot j (written now i d st) =
     (if j = i then map_option (apply_fields now d) (find_snapshot i st) else find_snapshot j st)"
  by (simp add: written_def find_snapshot_update)

lemma snd_applyExternalUpdate:
  "snd (applyExternalUpdate lc now i d st) =
     (case find_snapshot i st of None \<Rightarrow> st | Some e \<Rightarrow> if blocked d e then st else written now i d st)"
  by (auto simp: applyExternalUpdate_cases split: option.split)

lemma applyExternalUpdate_status:
  "find_snapshot i st = Some e \<Longrightarrow>
     \<exists>e'. find_snapshot i (snd (applyExternalUpdate lc now j d st)) = Some e'
        \<and> canTransition (sn_status e) (sn_status e')"
  by (auto simp: snd_applyExternalUpdate find_written blocked_def sm.can_refl
        split: option.splits)

section \<open>Well-formed tables\<close>

text \<open>
  The primary key of \<^verbatim>\<open>snapshots\<close>, the two unique indexes and the two foreign keys of the schema.
\<close>

definition output_index :: "SnapshotOutputEntity \<Rightarrow> string \<times> string" where
  "output_index o' = (out_snapshotId o', out_key o')"

definition publication_index :: "SnapshotPublicationEntity \<Rightarrow> string \<times> string" where
  "publication_index p = (pub_snapshotId p, pub_algorithmKey p)"

definition snapshot_ids :: "store \<Rightarrow> string set" where
  "snapshot_ids st = sn_id ` set (snapshots st)"

definition store_ok :: "store \<Rightarrow> bool" where
  "store_ok st \<longleftrightarrow>
     distinct (map sn_id (snapshots st))
   \<and> distinct (map output_index (snapshot_outputs st))
   \<and> distinct (map publication_index (snapshot_publications st))
   \<and> out_snapshotId ` set (snapshot_outputs st) \<subseteq> snapshot_ids st
   \<and> pub_snapshotId ` set (snapshot_publications st) \<subseteq> snapshot_ids st"

definition empty_store :: store where
  "empty_store = \<lparr>snapshots = [], snapshot_outputs = [], snapshot_publications = [], notified = []\<rparr>"

lemma store_ok_empty: "store_ok empty_store"
  by (simp add: store_ok_def empty_store_def)

lemma find_snapshot_in_ids: "find_snapshot i st = Some e \<Longrightarrow> i \<in> snapshot_ids st \<and> sn_id e = i"
  by (auto simp: find_snapshot_def snapshot_ids_def dest: find_Some_iff')

lemma find_snapshot_None: "find_snapshot i st = None \<longleftrightarrow> i \<notin> snapshot_ids st"
  by (auto simp: find_snapshot_def snapshot_ids_def find_None_iff)

lemma buildOutputRows_index:
  "distinct (map fst os) \<Longrightarrow> distinct (map output_index (buildOutputRows i os))"
proof (induction i os rule: buildOutputRows.induct)
  case (3 i k v rest)
  have "(i, k) \<notin> output_index ` set (buildOutputRows i rest)"
    using 3 by (force simp: output_index_def set_buildOutputRows image_iff)
  then show ?case using 3 by (simp add: output_index_def)
qed auto

lemma replace_outputs_index:
  assumes "distinct (map output_index (snapshot_outputs st))"
    and "\<forall>kvs. os = Some kvs \<longrightarrow> distinct (map fst kvs)"
  shows "distinct (map output_index (snapshot_outputs (replace_outputs i os st)))"
proof (cases os)
  case (Some kvs)
  have "output_index ` set (tbl_delete (\<lambda>o'. out_snapshotId o' = i) (snapshot_outputs st))
      \<inter> output_index ` set (buildOutputRows i kvs) = {}"
    by (auto simp: output_index_def set_buildOutputRows tbl_delete_def)
  then show ?thesis
    using assms Some by (simp add: replace_outputs_def buildOutputRows_index distinct_map_tbl_delete)
qed (simp add: replace_outputs_def assms)

lemma replace_outputs_fk:
  assumes "out_snapshotId ` set (snapshot_outputs st) \<subseteq> I" "i \<in> I"
  shows "out_snapshotId ` set (snapshot_outputs (replace_outputs i os st)) \<subseteq> I"
  using assms
  by (auto simp: replace_outputs_def tbl_delete_def set_buildOutputRows split: option.split)

lemma snapshot_ids_written: "snapshot_ids (written now i d st) = snapshot_ids st"
proof -
  have "set (map sn_id (snapshots (written now i d st))) = set (map sn_id (snapshots st))"
    by (simp add: written_def map_key_tbl_update del: set_map)
  then show ?thesis by (simp add: snapshot_ids_def)
qed

text \<open>Each operation keeps the tables well formed.\<close>

lemma store_ok_applyExternalUpdate:
  assumes "store_ok st" "\<forall>kvs. up_outputs d = Some kvs \<longrightarrow> distinct (map fst kvs)"
  shows "store_ok (snd (applyExternalUpdate lc now i d st))"
proof (cases "find_snapshot i st")
  case (Some e)
  then have i: "i \<in> snapshot_ids st" by (simp add: find_snapshot_in_ids)
  let ?s1 = "st\<lparr>snapshots := tbl_update (\<lambda>e. sn_id e = i) (apply_fields now d) (snapshots st)\<rparr>"
  have "store_ok (written now i d st)"
    using assms i replace_outputs_index[of ?s1 "up_outputs d" i]
      replace_outputs_fk[of ?s1 "snapshot_ids st" i "up_outputs d"]
    by (simp add: store_ok_def snapshot_ids_written) (simp add: written_def map_key_tbl_update)
  then show ?thesis using assms Some by (simp add: snd_applyExternalUpdate)
qed (simp add: snd_applyExternalUpdate assms)

lemma store_ok_create:
  assumes "store_ok st" "newId \<notin> snapshot_ids st"
    and "\<forall>kvs. cd_outputs d = Some kvs \<longrightarrow> distinct (map fst kvs)"
  shows "store_ok (snd (create lc newId now d st))"
proof -
  let ?rows = "case cd_outputs d of None \<Rightarrow> [] | Some outputs \<Rightarrow> buildOutputRows newId outputs"
  have new: "\<forall>o' \<in> set ?rows. out_snapshotId o' = newId"
    by (auto simp: set_buildOutputRows split: option.splits)
  have idx: "distinct (map output_index ?rows)"
    using assms(3) by (auto simp: buildOutputRows_index split: option.split)
  have old: "\<forall>o' \<in> set (snapshot_outputs st). out_snapshotId o' \<noteq> newId"
    using assms(1,2) by (auto simp: store_ok_def)
  have disj: "output_index ` set (snapshot_outputs st) \<inter> output_index ` set ?rows = {}"
    using new old by (auto simp: output_index_def)
  have "newId \<notin> sn_id ` set (snapshots st)" using assms(2) by (simp add: snapshot_ids_def)
  with assms(1) idx disj new show ?thesis
    by (auto simp: create_def Let_def store_ok_def snapshot_ids_def)
qed

lemma write_publication_fields [simp]:
  "pub_snapshotId (write_publication now i d p) = i"
  "pub_algorithmKey (write_publication now i d p) = upd_algorithmKey d"
  "pub_status (write_publication now i d p) = upd_status d"
  "pub_counts (write_publication now i d p) = upd_counts d"
  "pub_error (write_publication now i d p) = upd_error d"
  by (cases p; simp add: write_publication_def Let_def)+

lemma write_publication_again: "write_publication now' i d (write_publication now i d p) = write_publication now i d p"
  by (cases p) (simp add: write_publication_def Let_def)

lemma is_write_publication [simp]: "is_publication i d (write_publication now i d p)"
  by (simp add: is_publication_def)

lemma is_publication_index: "is_publication i d p \<longleftrightarrow> publication_index p = (i, upd_algorithmKey d)"
  by (simp add: is_publication_def publication_index_def)

lemma publication_index_update:
  "map publication_index (tbl_update (is_publication i d) (write_publication now i d) rows)
     = map publication_index rows"
  by (induction rows)
    (simp_all add: tbl_update_def publication_index_def is_publication_def)

lemma store_ok_upsertPublication:
  assumes "store_ok st"
  shows "store_ok (snd (upsertPublication lc now i d st))"
proof (cases "find_snapshot i st")
  case (Some e)
  then have i: "i \<in> snapshot_ids st" by (simp add: find_snapshot_in_ids)
  show ?thesis
  proof (cases "List.find (is_publication i d) (snapshot_publications st)")
    case None
    then have "\<forall>p \<in> set (snapshot_publications st). publication_index p \<noteq> (i, upd_algorithmKey d)"
      by (auto simp: find_None_iff is_publication_index)
    then have "(i, upd_algorithmKey d) \<notin> publication_index ` set (snapshot_publications st)" by auto
    with None Some assms i show ?thesis
      by (auto simp: upsertPublication_def Let_def store_ok_def snapshot_ids_def publication_index_def)
  next
    case (Some p)
    have "pub_snapshotId ` set (tbl_update (is_publication i d) (write_publication now i d)
        (snapshot_publications st)) \<subseteq> snapshot_ids st"
      using assms i by (auto simp: tbl_update_def store_ok_def)
    with Some \<open>find_snapshot i st = Some e\<close> assms show ?thesis
      by (simp add: upsertPublication_def Let_def store_ok_def snapshot_ids_def publication_index_update)
  qed
qed (simp add: upsertPublication_def assms)

lemma snapshot_ids_delete:
  assumes "distinct (map sn_id (snapshots st))"
  shows "snapshot_ids (delete_snapshots P st) = snapshot_ids st - sn_id ` {e \<in> set (snapshots st). P e}"
  using assms
  by (auto simp: snapshot_ids_def delete_snapshots_def Let_def tbl_delete_def distinct_map inj_on_def)

lemma store_ok_delete:
  assumes "store_ok st"
  shows "store_ok (delete_snapshots P st)"
proof -
  let ?gone = "sn_id ` {e \<in> set (snapshots st). P e}"
  have tables:
    "snapshots (delete_snapshots P st) = tbl_delete P (snapshots st)"
    "snapshot_outputs (delete_snapshots P st) = tbl_delete (\<lambda>o'. out_snapshotId o' \<in> ?gone) (snapshot_outputs st)"
    "snapshot_publications (delete_snapshots P st)
       = tbl_delete (\<lambda>p. pub_snapshotId p \<in> ?gone) (snapshot_publications st)"
    by (simp_all add: delete_snapshots_def Let_def)
  have "snapshot_ids (delete_snapshots P st) = snapshot_ids st - ?gone"
    using assms by (intro snapshot_ids_delete) (simp add: store_ok_def)
  with assms show ?thesis
    unfolding store_ok_def tables
    by (auto simp: distinct_map_tbl_delete) (auto simp: tbl_delete_def)
qed

section \<open>Runs of the repository\<close>

text \<open>
  One step is one committed transaction of any of the writers: the API request that creates or deletes
  a snapshot, an activity of a workflow, the reconciler.  The state carries the identifiers issued so
  far; a generated UUID is never issued twice.  The only caller of \<open>create\<close> passes the status
  \<^verbatim>\<open>queued\<close>, and the keys of an outputs object are distinct.
\<close>

inductive snap_step :: "string list \<times> store \<Rightarrow> string list \<times> store \<Rightarrow> bool" where
  created: "newId \<notin> set iss \<Longrightarrow> cd_status d = Some queued \<Longrightarrow>
     \<forall>kvs. cd_outputs d = Some kvs \<longrightarrow> distinct (map fst kvs) \<Longrightarrow>
     snap_step (iss, st) (newId # iss, snd (create lc newId now d st))"
| updated: "\<forall>kvs. up_outputs d = Some kvs \<longrightarrow> distinct (map fst kvs) \<Longrightarrow>
     snap_step (iss, st) (iss, snd (applyExternalUpdate lc now i d st))"
| published: "snap_step (iss, st) (iss, snd (upsertPublication lc now i pd st))"
| deleted: "snap_step (iss, st) (iss, snd (deleteById lc i st))"
| deleted_many: "snap_step (iss, st) (iss, snd (deleteMany f st))"

definition issued :: "string list \<times> store \<Rightarrow> bool" where
  "issued s \<longleftrightarrow> snapshot_ids (snd s) \<subseteq> set (fst s)"

definition repo_inv :: "string list \<times> store \<Rightarrow> bool" where
  "repo_inv s \<longleftrightarrow> store_ok (snd s) \<and> issued s"

lemma snapshots_upsertPublication [simp]:
  "snapshots (snd (upsertPublication lc now i pd st)) = snapshots st"
  by (simp add: upsertPublication_def Let_def split: option.split)

lemma snapshot_ids_simps [simp]:
  "snapshot_ids (snd (applyExternalUpdate lc now i d st)) = snapshot_ids st"
  "snapshot_ids (snd (upsertPublication lc now i pd st)) = snapshot_ids st"
  "snapshot_ids (snd (create lc newId now c st)) = insert newId (snapshot_ids st)"
  by (auto simp: snd_applyExternalUpdate snapshot_ids_written split: option.split)
    (auto simp: snapshot_ids_def create_def Let_def)

lemma snapshot_ids_delete_le: "snapshot_ids (delete_snapshots P st) \<subseteq> snapshot_ids st"
  by (auto simp: snapshot_ids_def delete_snapshots_def Let_def tbl_delete_def)

lemma snd_delete [simp]:
  "snd (deleteById lc i st) =
     (case find_snapshot i st of None \<Rightarrow> st | Some _ \<Rightarrow> delete_snapshots (\<lambda>e. sn_id e = i) st)"
  "snd (deleteMany f st) = delete_snapshots (buildWhere f) st"
  by (simp_all add: deleteById_def deleteMany_def split: option.split)

lemma snap_step_inv: "snap_step s s' \<Longrightarrow> repo_inv s \<Longrightarrow> repo_inv s'"
proof (induction rule: snap_step.induct)
  case (created newId iss d st lc now)
  then have "newId \<notin> snapshot_ids st" by (auto simp: repo_inv_def issued_def)
  with created show ?case by (auto simp: repo_inv_def issued_def intro: store_ok_create)
qed (auto simp: repo_inv_def issued_def store_ok_applyExternalUpdate store_ok_upsertPublication
      store_ok_delete split: option.splits dest!: subsetD[OF snapshot_ids_delete_le])

lemma snap_steps_inv: "snap_step\<^sup>*\<^sup>* s s' \<Longrightarrow> repo_inv s \<Longrightarrow> repo_inv s'"
  by (induction rule: rtranclp_induct) (auto intro: snap_step_inv)

lemma find_delete:
  assumes "find_snapshot i (delete_snapshots P st) = Some e" "store_ok st"
  shows "find_snapshot i st = Some e"
proof -
  have e: "e \<in> set (snapshots st)" "sn_id e = i"
    using assms(1) by (auto simp: find_snapshot_def delete_snapshots_def Let_def tbl_delete_def dest: find_Some_iff')
  then obtain e' where e': "find_snapshot i st = Some e'"
    by (cases "find_snapshot i st") (auto simp: find_snapshot_None snapshot_ids_def)
  then have "e' \<in> set (snapshots st)" "sn_id e' = i"
    by (auto simp: find_snapshot_def dest: find_Some_iff')
  with e assms(2) have "e' = e" by (auto simp: store_ok_def distinct_map inj_on_def)
  with e' show ?thesis by simp
qed

lemma find_publish [simp]:
  "find_snapshot i (snd (upsertPublication lc now j d st)) = find_snapshot i st"
  by (simp add: find_snapshot_def)

lemma find_create:
  "find_snapshot i (snd (create lc newId now d st)) = Some e \<Longrightarrow> i \<noteq> newId \<Longrightarrow> find_snapshot i st = Some e"
  by (auto simp: create_def Let_def find_snapshot_def find_append split: option.splits if_splits)

text \<open>A row that exists before and after a step has moved along the state machine.\<close>

lemma snap_step_status:
  assumes "snap_step (iss, st) (iss', st')" "repo_inv (iss, st)"
    and "find_snapshot i st = Some e" "find_snapshot i st' = Some e'"
  shows "canTransition (sn_status e) (sn_status e')"
  using assms(1)
proof (cases rule: snap_step.cases)
  case (created newId d lc now)
  have "i \<in> set iss" using assms(2,3) find_snapshot_in_ids by (auto simp: repo_inv_def issued_def)
  with created(3) have "i \<noteq> newId" by auto
  with assms(4) created(2) have "find_snapshot i st = Some e'" by (auto intro: find_create)
  with assms(3) have "e' = e" by simp
  then show ?thesis by (simp add: sm.can_refl)
next
  case (updated d lc now j)
  then show ?thesis
    using applyExternalUpdate_status[OF assms(3), of lc now j d] assms(4) by auto
next
  case published
  then show ?thesis using assms(3,4) by (simp add: sm.can_refl)
next
  case (deleted lc j)
  then have "find_snapshot i st = Some e'"
    using assms(2,4) by (cases "find_snapshot j st") (auto simp: repo_inv_def intro: find_delete)
  then show ?thesis using assms(3) by (simp add: sm.can_refl)
next
  case (deleted_many f)
  then have "find_snapshot i st = Some e'" using assms(2,4) by (auto simp: repo_inv_def intro: find_delete)
  then show ?thesis using assms(3) by (simp add: sm.can_refl)
qed

text \<open>A row that is gone stays gone: its identifier is not issued again.\<close>

lemma snap_step_gone:
  assumes "snap_step (iss, st) (iss', st')" "i \<in> set iss" "find_snapshot i st = None"
  shows "find_snapshot i st' = None"
  using assms(1)
proof (cases rule: snap_step.cases)
  case (created newId d lc now)
  with assms(2,3) show ?thesis by (auto simp: find_snapshot_None)
next
  case (deleted lc j)
  with assms(3) show ?thesis
    using snapshot_ids_delete_le[of "\<lambda>e. sn_id e = j" st]
    by (cases "find_snapshot j st") (auto simp: find_snapshot_None)
next
  case (deleted_many f)
  with assms(3) show ?thesis
    using snapshot_ids_delete_le[of "buildWhere f" st] by (auto simp: find_snapshot_None)
qed (use assms(3) in \<open>auto simp: find_snapshot_None\<close>)

lemma snap_step_issued: "snap_step s s' \<Longrightarrow> i \<in> set (fst s) \<Longrightarrow> i \<in> set (fst s')"
  by (induction rule: snap_step.induct) auto

definition settled_as :: "string \<Rightarrow> SnapshotStatus \<Rightarrow> store \<Rightarrow> bool" where
  "settled_as i s st \<longleftrightarrow> (case find_snapshot i st of None \<Rightarrow> True | Some e \<Rightarrow> sn_status e = s)"

lemma snap_step_settled:
  assumes "snap_step s s'" "repo_inv s" "i \<in> set (fst s)" "settled_as i x (snd s)" "terminal x"
  shows "settled_as i x (snd s')"
proof (cases "find_snapshot i (snd s)")
  case None
  then have "find_snapshot i (snd s') = None"
    using snap_step_gone[of "fst s" "snd s" "fst s'" "snd s'"] assms(1,3) by simp
  then show ?thesis by (simp add: settled_as_def)
next
  case (Some e)
  show ?thesis
  proof (cases "find_snapshot i (snd s')")
    case (Some e')
    have "canTransition (sn_status e) (sn_status e')"
      using snap_step_status[of "fst s" "snd s" "fst s'" "snd s'"] assms(1,2)
        \<open>find_snapshot i (snd s) = Some e\<close> Some by simp
    then show ?thesis
      using sm.final_stuck assms(4,5) \<open>find_snapshot i (snd s) = Some e\<close> Some
      by (simp add: settled_as_def)
  qed (simp add: settled_as_def)
qed

section \<open>Concrete tables\<close>

text \<open>A database with one snapshot, for evaluating the properties on concrete inputs.\<close>

definition sample_frozen :: AlgorithmPresetFrozen where
  "sample_frozen = \<lparr>fz_key = ''voting_engagement'', fz_version = ''1.0.0'', fz_inputs = [],
     fz_name = None, fz_description = None, fz_createdAt = None, fz_updatedAt = None\<rparr>"

definition sample_entity :: "SnapshotStatus \<Rightarrow> SnapshotEntity" where
  "sample_entity s = \<lparr>sn_id = ''s1'', sn_status = s, sn_algorithmPresetId = ''p1'', sn_frozen = sample_frozen,
     sn_temporal = None, sn_error = None, sn_startedAt = None, sn_completedAt = None,
     sn_createdAt = 0, sn_updatedAt = 0\<rparr>"

definition sample_store :: "SnapshotStatus \<Rightarrow> store" where
  "sample_store s = \<lparr>snapshots = [sample_entity s], snapshot_outputs = [], snapshot_publications = [], notified = []\<rparr>"

definition status_update :: "SnapshotStatus \<Rightarrow> SnapshotApplyExternalUpdate" where
  "status_update s = \<lparr>up_status = Some s, up_startedAt = None, up_completedAt = None, up_temporal = None,
     up_outputs = None, up_error = None\<rparr>"

lemma sample_find: "find_snapshot ''s1'' (sample_store s) = Some (sample_entity s)"
  by (simp add: find_snapshot_def sample_store_def sample_entity_def)

lemma sample_status [simp]: "sn_status (sample_entity s) = s"
  by (simp add: sample_entity_def)

lemma sample_inv: "repo_inv ([''s1''], sample_store s)"
  by (simp add: repo_inv_def issued_def store_ok_def snapshot_ids_def sample_store_def sample_entity_def)

section \<open>Properties\<close>

text \<open>
  C3: once a snapshot row has a terminal status, no sequence of later transactions of any writers
  (requests, workflow activities, the reconciler, in any order) changes that status; the row keeps it
  until it is deleted, and it is never recreated.
\<close>

theorem settled_status_is_final:
  assumes "snap_step\<^sup>*\<^sup>* (iss, st) (iss', st')" "repo_inv (iss, st)"
    and "find_snapshot i st = Some e" "terminal (sn_status e)"
  shows "settled_as i (sn_status e) st'"
proof -
  have i: "i \<in> set iss" using assms(2,3) find_snapshot_in_ids by (auto simp: repo_inv_def issued_def)
  have "settled_as i (sn_status e) (snd s') \<and> i \<in> set (fst s') \<and> repo_inv s'"
    if "snap_step\<^sup>*\<^sup>* (iss, st) s'" for s'
    using that
  proof (induction rule: rtranclp_induct)
    case base
    then show ?case using assms i by (simp add: settled_as_def)
  next
    case (step s s')
    then show ?case
      using snap_step_settled assms(4) snap_step_issued snap_step_inv by blast
  qed
  from this[OF assms(1)] show ?thesis by simp
qed

theorem settled_status_is_final_witness:
  "snap_step\<^sup>*\<^sup>* ([''s1''], sample_store failed)
      ([''s1''], snd (applyExternalUpdate (\<lambda>_ _. True) 7 ''s1'' (status_update completed) (sample_store failed)))
   \<and> settled_as ''s1'' failed
      (snd (applyExternalUpdate (\<lambda>_ _. True) 7 ''s1'' (status_update completed) (sample_store failed)))"
proof -
  let ?st' = "snd (applyExternalUpdate (\<lambda>_ _. True) 7 ''s1'' (status_update completed) (sample_store failed))"
  have step: "snap_step\<^sup>*\<^sup>* ([''s1''], sample_store failed) ([''s1''], ?st')"
    by (intro r_into_rtranclp snap_step.updated) (simp add: status_update_def)
  show ?thesis
    using step settled_status_is_final[OF step sample_inv sample_find] by (simp add: terminal_iff)
qed

text \<open>
  every store reached from the empty database by any transactions keeps its primary key, its two
  unique indexes and its two foreign keys.
\<close>

lemma reachable_store_ok:
  assumes "snap_step\<^sup>*\<^sup>* ([], empty_store) (iss, st)"
  shows "store_ok st"
  using snap_steps_inv[OF assms] by (simp add: repo_inv_def issued_def store_ok_empty)
    (simp add: snapshot_ids_def empty_store_def)

theorem reachable_store_ok_witness:
  "store_ok (snd (create (\<lambda>_ _. True) ''s1'' 5
     \<lparr>cd_status = Some queued, cd_algorithmPreset = ''p1'', cd_frozen = sample_frozen, cd_temporal = None,
      cd_outputs = Some [(''csv'', Some ''k'')]\<rparr> empty_store))"
  by (rule reachable_store_ok, rule r_into_rtranclp, rule snap_step.created) simp_all

text \<open>
  an update whose status is outside the state machine is a no-op of the whole transaction (tables and
  notifications unchanged, \<open>applied\<close> false); an allowed one commits every given field, replaces the outputs
  of exactly this snapshot, announces it once and leaves all other rows and outputs alone.
\<close>

lemma applyExternalUpdate_atomic:
  assumes "find_snapshot i st = Some e"
  shows "case applyExternalUpdate lc now i d st of
      (None, _) \<Rightarrow> False
    | (Some r, st') \<Rightarrow>
        (if \<exists>s. up_status d = Some s \<and> \<not> canTransition (sn_status e) s
         then \<not> res_applied r \<and> st' = st
         else res_applied r
            \<and> find_snapshot i st' = Some (apply_fields now d e)
            \<and> row_status (res_row r) = (case up_status d of None \<Rightarrow> sn_status e | Some s \<Rightarrow> s)
            \<and> outputs_of i st' = (case up_outputs d of None \<Rightarrow> outputs_of i st | Some os \<Rightarrow> buildOutputRows i os)
            \<and> notified st' = notified st @ [i]
            \<and> (\<forall>j. j \<noteq> i \<longrightarrow> find_snapshot j st' = find_snapshot j st \<and> outputs_of j st' = outputs_of j st)
            \<and> snapshot_publications st' = snapshot_publications st)"
proof -
  have b: "(\<exists>s. up_status d = Some s \<and> \<not> canTransition (sn_status e) s) \<longleftrightarrow> blocked d e"
    by (auto simp: blocked_def split: option.split)
  have outs: "outputs_of j (written now i d st) =
      (case up_outputs d of None \<Rightarrow> outputs_of j st
       | Some os \<Rightarrow> if j = i then buildOutputRows i os else outputs_of j st)" for j
    by (simp add: written_def outputs_of_replace split: option.split)
  have rest: "notified (written now i d st) = notified st @ [i]"
    "snapshot_publications (written now i d st) = snapshot_publications st"
    by (simp_all add: written_def)
  show ?thesis
    unfolding b
    by (cases "blocked d e")
      (simp_all add: applyExternalUpdate_cases(2,3)[OF assms] find_written outs rest assms mapSnapshotRow_def
        split: option.split)
qed

theorem applyExternalUpdate_atomic_witness:
  "\<not> res_applied (the (fst (applyExternalUpdate (\<lambda>_ _. True) 7 ''s1'' (status_update running) (sample_store cancelled))))"
  using applyExternalUpdate_atomic[OF sample_find[of cancelled],
      where lc = "\<lambda>_ _. True" and now = 7 and d = "status_update running"]
  by (auto simp: status_update_def canTransition_def TERMINAL_SNAPSHOT_STATUSES_def split: option.splits prod.splits)

text \<open>
  a retried activity is harmless: applying the same update a second time at the same instant leaves
  snapshots, outputs and publications as the first application left them.
\<close>

lemma applyExternalUpdate_idempotent:
  "let st1 = snd (applyExternalUpdate lc now i d st);
       st2 = snd (applyExternalUpdate lc now i d st1)
   in snapshots st2 = snapshots st1 \<and> snapshot_outputs st2 = snapshot_outputs st1
    \<and> snapshot_publications st2 = snapshot_publications st1"
proof (cases "find_snapshot i st")
  case (Some e)
  show ?thesis
  proof (cases "blocked d e")
    case True
    then show ?thesis using Some by (simp add: snd_applyExternalUpdate)
  next
    case False
    let ?w = "written now i d st"
    have nb: "\<not> blocked d (apply_fields now d e)"
      by (simp add: blocked_def sm.can_refl split: option.split)
    have rows: "snapshots (written now i d ?w) = snapshots ?w"
      by (simp add: written_def tbl_update_def apply_fields_idem)
    have outs: "snapshot_outputs (written now i d ?w) = snapshot_outputs ?w"
      by (simp add: written_def replace_outputs_def tbl_delete_def split: option.split)
    show ?thesis
      using Some False nb rows outs
      by (simp add: snd_applyExternalUpdate find_written) (simp add: written_def)
  qed
qed (simp add: snd_applyExternalUpdate)

text \<open>
  the publication ledger has one row per snapshot and algorithm key however often it is written: an
  upsert stores the given status, counts and error under that key, and repeating it at any later
  time changes no row.
\<close>

lemma upsertPublication_ledger:
  assumes "store_ok st" "find_snapshot i st = Some e"
  shows "(let st1 = snd (upsertPublication lc now i d st);
              st2 = snd (upsertPublication lc now' i d st1)
          in (\<exists>p. filter (\<lambda>p. publication_index p = (i, upd_algorithmKey d)) (snapshot_publications st1) = [p]
                \<and> pub_status p = upd_status d \<and> pub_counts p = upd_counts d \<and> pub_error p = upd_error d)
           \<and> snapshot_publications st2 = snapshot_publications st1)"
proof -
  let ?P = "is_publication i d" and ?w = "write_publication now i d"
  let ?rows = "snapshot_publications st"
  let ?w' = "write_publication now' i d"
  have w: "?w' (?w p) = ?w p" for p by (rule write_publication_again)
  have eq: "(\<lambda>p. publication_index p = (i, upd_algorithmKey d)) = ?P"
    by (simp add: is_publication_index fun_eq_iff)
  show ?thesis
  proof (cases "List.find ?P ?rows")
    case None
    let ?f = "\<lparr>pub_snapshotId = i, pub_algorithmKey = upd_algorithmKey d, pub_status = upd_status d,
      pub_counts = upd_counts d, pub_error = upd_error d, pub_createdAt = now, pub_updatedAt = now\<rparr>"
    have no: "\<forall>p \<in> set ?rows. \<not> ?P p" using None by (simp add: find_None_iff)
    have f: "?P ?f" "?w' ?f = ?f" by (simp_all add: is_publication_def write_publication_def Let_def)
    have st1: "snapshot_publications (snd (upsertPublication lc now i d st)) = ?rows @ [?f]"
      using None assms(2) by (simp add: upsertPublication_def Let_def)
    have fnd: "List.find ?P (?rows @ [?f]) = Some ?f" using None f(1) by (simp add: find_append)
    have "tbl_update ?P ?w' (?rows @ [?f]) = ?rows @ [?f]"
      using no f tbl_update_absent[of ?rows ?P ?w'] by (simp add: tbl_update_def)
    moreover have "filter ?P (?rows @ [?f]) = [?f]" using no f(1) by (simp add: filter_empty_conv)
    ultimately show ?thesis
      using assms(2) fnd unfolding Let_def eq st1
      by (simp add: upsertPublication_def[of lc now' i d "snd (upsertPublication lc now i d st)"] Let_def st1)
  next
    case (Some q)
    have st1: "snapshot_publications (snd (upsertPublication lc now i d st)) = tbl_update ?P ?w ?rows"
      using Some assms(2) by (simp add: upsertPublication_def Let_def)
    obtain q' where q': "List.find ?P (tbl_update ?P ?w ?rows) = Some q'"
      using find_tbl_update_Some[OF _ Some] by fastforce
    have q: "q \<in> set ?rows" "publication_index q = (i, upd_algorithmKey d)"
      using find_Some_iff'[OF Some] by (simp_all add: is_publication_index)
    have "filter ?P ?rows = [q]"
      using filter_unique[of publication_index ?rows q] assms(1) q by (simp add: store_ok_def eq)
    then have "filter ?P (tbl_update ?P ?w ?rows) = [?w q]" by (simp add: filter_tbl_update)
    moreover have "pub_status (?w q) = upd_status d" "pub_counts (?w q) = upd_counts d"
      "pub_error (?w q) = upd_error d"
      by simp_all
    moreover have "tbl_update ?P ?w' (tbl_update ?P ?w ?rows) = tbl_update ?P ?w ?rows"
      by (simp add: tbl_update_def w)
    ultimately show ?thesis
      using assms(2) q' unfolding Let_def eq st1
      by (simp add: upsertPublication_def[of lc now' i d "snd (upsertPublication lc now i d st)"] Let_def st1)
  qed
qed

theorem upsertPublication_ledger_witness:
  "\<exists>p. filter (\<lambda>p. publication_index p = (''s1'', ''k''))
     (snapshot_publications (snd (upsertPublication (\<lambda>_ _. True) 3 ''s1''
        \<lparr>upd_algorithmKey = ''k'', upd_status = pub_sent, upd_counts = None, upd_error = None\<rparr>
        (sample_store completed)))) = [p] \<and> pub_status p = pub_sent"
proof -
  have ok: "store_ok (sample_store completed)" using sample_inv[of completed] by (simp add: repo_inv_def)
  show ?thesis
    using upsertPublication_ledger[OF ok sample_find, where lc = "\<lambda>_ _. True" and now = 3 and
      d = "\<lparr>upd_algorithmKey = ''k'', upd_status = pub_sent, upd_counts = None, upd_error = None\<rparr>"]
    by (auto simp: Let_def)
qed

end
