(* ===== verification/Preset_Store.thy ===== *)
theory Preset_Store
  imports Snapshot_Store
begin

text \<open>
  The algorithm preset repository (\<^verbatim>\<open>apps/api/src/algorithm-preset/algorithm-preset.repository.ts\<close>) and the
  collection of upload keys (\<^verbatim>\<open>apps/api/src/shared/utils/upload-keys.util.ts\<close>).  A preset owns an ordered
  list of inputs stored one row per input with its position; the tables refuse two inputs with one key
  and an input without a value, in which case the whole transaction rolls back.
\<close>

section \<open>Data\<close>

type_synonym AlgorithmPresetInput = "string \<times> json"

record AlgorithmPresetEntity =
  pe_id :: string
  pe_key :: string
  pe_version :: string
  pe_name :: "string option"
  pe_description :: "string option"
  pe_createdAt :: int
  pe_updatedAt :: int

record AlgorithmPresetInputEntity =
  pi_presetId :: string
  pi_key :: string
  pi_value :: json
  pi_position :: nat

record preset_tables =
  presets :: "AlgorithmPresetEntity list"
  preset_inputs :: "AlgorithmPresetInputEntity list"

record AlgorithmPresetRow =
  pr_id :: string
  pr_key :: string
  pr_version :: string
  pr_inputs :: "AlgorithmPresetInput list"
  pr_name :: "string option"
  pr_description :: "string option"
  pr_createdAt :: int
  pr_updatedAt :: int

record CreateAlgorithmPresetDto =
  cp_key :: string
  cp_version :: string
  cp_inputs :: "AlgorithmPresetInput list"
  cp_name :: "string option"
  cp_description :: "string option"

text \<open>An absent field of an update leaves the column alone; a present one may be \<^verbatim>\<open>null\<close>.\<close>

record UpdateAlgorithmPresetDto =
  upr_name :: "string option option"
  upr_description :: "string option option"
  upr_inputs :: "AlgorithmPresetInput list option"

section \<open>Rows\<close>

definition sortInputs :: "AlgorithmPresetInputEntity list \<Rightarrow> AlgorithmPresetInputEntity list" where
  "sortInputs inputs = sort_key pi_position inputs"

definition mapAlgorithmPresetRow ::
  "AlgorithmPresetEntity \<Rightarrow> AlgorithmPresetInputEntity list \<Rightarrow> AlgorithmPresetRow" where
  "mapAlgorithmPresetRow entity inputs =
     \<lparr>pr_id = pe_id entity, pr_key = pe_key entity, pr_version = pe_version entity,
      pr_inputs = map (\<lambda>r. (pi_key r, pi_value r)) (sortInputs inputs),
      pr_name = pe_name entity, pr_description = pe_description entity,
      pr_createdAt = pe_createdAt entity, pr_updatedAt = pe_updatedAt entity\<rparr>"

definition input_row :: "string \<Rightarrow> AlgorithmPresetInput \<times> nat \<Rightarrow> AlgorithmPresetInputEntity" where
  "input_row algorithmPresetId p =
     \<lparr>pi_presetId = algorithmPresetId, pi_key = fst (fst p), pi_value = snd (fst p), pi_position = snd p\<rparr>"

definition buildInputRows :: "string \<Rightarrow> AlgorithmPresetInput list \<Rightarrow> AlgorithmPresetInputEntity list" where
  "buildInputRows algorithmPresetId inputs =
     map (input_row algorithmPresetId) (zip inputs [0 ..< length inputs])"

text \<open>What the unique index and the \<^verbatim>\<open>NOT NULL\<close> column of the input table accept.\<close>

definition inputs_storable :: "AlgorithmPresetInput list \<Rightarrow> bool" where
  "inputs_storable inputs \<longleftrightarrow>
     distinct (map fst inputs) \<and> list_all (\<lambda>p. snd p \<noteq> JUndefined \<and> snd p \<noteq> JNull) inputs"

section \<open>Operations\<close>

definition find_preset :: "string \<Rightarrow> preset_tables \<Rightarrow> AlgorithmPresetEntity option" where
  "find_preset i t = List.find (\<lambda>e. pe_id e = i) (presets t)"

definition inputs_of :: "string \<Rightarrow> preset_tables \<Rightarrow> AlgorithmPresetInputEntity list" where
  "inputs_of i t = filter (\<lambda>r. pi_presetId r = i) (preset_inputs t)"

definition preset_findById :: "string \<Rightarrow> preset_tables \<Rightarrow> AlgorithmPresetRow option" where
  "preset_findById i t = map_option (\<lambda>e. mapAlgorithmPresetRow e (inputs_of i t)) (find_preset i t)"

text \<open>\<^const>\<open>None\<close> is the query error of a refused insert; the transaction then leaves the tables alone.\<close>

definition preset_create ::
  "string \<Rightarrow> int \<Rightarrow> CreateAlgorithmPresetDto \<Rightarrow> preset_tables \<Rightarrow> AlgorithmPresetRow option \<times> preset_tables" where
  "preset_create newId now dto t =
     (if \<not> inputs_storable (cp_inputs dto) then (None, t)
      else
        (let entity = \<lparr>pe_id = newId, pe_key = cp_key dto, pe_version = cp_version dto,
                       pe_name = cp_name dto, pe_description = cp_description dto,
                       pe_createdAt = now, pe_updatedAt = now\<rparr>;
             t' = t\<lparr>presets := presets t @ [entity],
                    preset_inputs := preset_inputs t @ buildInputRows newId (cp_inputs dto)\<rparr>
         in (preset_findById newId t', t')))"

definition preset_fields :: "int \<Rightarrow> UpdateAlgorithmPresetDto \<Rightarrow> AlgorithmPresetEntity \<Rightarrow> AlgorithmPresetEntity" where
  "preset_fields now dto e =
     (let e' = e\<lparr>pe_name := (case upr_name dto of None \<Rightarrow> pe_name e | Some n \<Rightarrow> n),
                 pe_description := (case upr_description dto of None \<Rightarrow> pe_description e | Some d \<Rightarrow> d)\<rparr>
      in if upr_inputs dto \<noteq> None \<or> e' \<noteq> e then e'\<lparr>pe_updatedAt := now\<rparr> else e')"

text \<open>The error is \<^const>\<open>Inl\<close>; \<^const>\<open>None\<close> is a preset that does not exist.\<close>

definition preset_updateById ::
  "int \<Rightarrow> string \<Rightarrow> UpdateAlgorithmPresetDto \<Rightarrow> preset_tables
     \<Rightarrow> (unit + AlgorithmPresetRow option) \<times> preset_tables" where
  "preset_updateById now i dto t =
     (case find_preset i t of
        None \<Rightarrow> (Inr None, t)
      | Some entity \<Rightarrow>
          (case upr_inputs dto of
             None \<Rightarrow>
               (let t' = t\<lparr>presets := tbl_update (\<lambda>e. pe_id e = i) (preset_fields now dto) (presets t)\<rparr>
                in (Inr (preset_findById i t'), t'))
           | Some inputs \<Rightarrow>
               if \<not> inputs_storable inputs then (Inl (), t)
               else
                 (let t' = t\<lparr>presets := tbl_update (\<lambda>e. pe_id e = i) (preset_fields now dto) (presets t),
                             preset_inputs := tbl_delete (\<lambda>r. pi_presetId r = i) (preset_inputs t)
                                                @ buildInputRows i inputs\<rparr>
                  in (Inr (preset_findById i t'), t'))))"

text \<open>
  A preset that snapshots still reference cannot be deleted (\<^verbatim>\<open>ON DELETE RESTRICT\<close>): \<open>referenced\<close> says
  whether one does.  Its inputs go with it.
\<close>

definition preset_deleteById ::
  "bool \<Rightarrow> string \<Rightarrow> preset_tables \<Rightarrow> (unit + AlgorithmPresetRow option) \<times> preset_tables" where
  "preset_deleteById referenced i t =
     (case find_preset i t of
        None \<Rightarrow> (Inr None, t)
      | Some entity \<Rightarrow>
          if referenced then (Inl (), t)
          else (Inr (preset_findById i t),
                t\<lparr>presets := tbl_delete (\<lambda>e. pe_id e = i) (presets t),
                  preset_inputs := tbl_delete (\<lambda>r. pi_presetId r = i) (preset_inputs t)\<rparr>))"

section \<open>Upload keys\<close>

definition UPLOADS_PREFIX :: string where
  "UPLOADS_PREFIX = ''uploads/''"

fun isSubAlgorithmEntry :: "json \<Rightarrow> bool" where
  "isSubAlgorithmEntry (JObj kvs) \<longleftrightarrow>
     is_jstr (jfield ''algorithm_key'' (JObj kvs))
   \<and> (case jfield ''inputs'' (JObj kvs) of JArr _ \<Rightarrow> True | _ \<Rightarrow> False)"
| "isSubAlgorithmEntry _ \<longleftrightarrow> False"

definition child_inputs :: "json \<Rightarrow> json list" where
  "child_inputs entry = (case jfield ''inputs'' entry of JArr vs \<Rightarrow> vs | _ \<Rightarrow> [])"

lemma size_map_of: "map_of kvs k = Some v \<Longrightarrow> size v < Suc (size_list (size_prod (\<lambda>_. 0) size) kvs)"
  by (induction kvs) (auto split: if_splits)

lemma size_jfield: "jfield k v \<noteq> JUndefined \<Longrightarrow> size (jfield k v) < size v"
  by (cases v) (auto split: option.splits dest: size_map_of)

lemma size_child_inputs: "w \<in> set (child_inputs v) \<Longrightarrow> size w < size v"
  using size_jfield[of "''inputs''" v]
  by (cases "jfield ''inputs'' v")
    (auto simp: child_inputs_def dest: size_list_estimation'[where f = size and y = "size w", OF _ order_refl])

lemma size_child_value:
  assumes "entry \<in> set vs" "w \<in> set (filter isRecord (child_inputs entry))"
  shows "size (jfield ''value'' w) < Suc (size_list size vs)"
proof -
  have "isRecord w" using assms(2) by simp
  then have "size (jfield ''value'' w) \<le> size w"
    using size_jfield[of "''value''" w] by (cases "jfield ''value'' w = JUndefined"; cases w) auto
  also have "size w < size entry" using assms(2) by (simp add: size_child_inputs)
  also have "size entry \<le> size_list size vs" using assms(1) by (simp add: size_list_estimation')
  finally show ?thesis by simp
qed

text \<open>The keys found in a value, in order; \<open>collectUploadKeys\<close> keeps the first of each.\<close>

function collectFromValue :: "json \<Rightarrow> string list \<Rightarrow> string list" where
  "collectFromValue value keys =
     (case value of
        JStr s \<Rightarrow> if js_startsWith s UPLOADS_PREFIX then set_add s keys else keys
      | JArr entries \<Rightarrow>
          fold (\<lambda>childInput ks. collectFromValue (jfield ''value'' childInput) ks)
            (concat (map (\<lambda>entry. filter isRecord (child_inputs entry)) (filter isSubAlgorithmEntry entries))) keys
      | _ \<Rightarrow> keys)"
  by pat_completeness auto
termination
  by (relation "measure (size \<circ> fst)") (auto intro: size_child_value)

definition collectUploadKeys :: "AlgorithmPresetInput list \<Rightarrow> string list" where
  "collectUploadKeys inputs = fold (\<lambda>input keys. collectFromValue (snd input) keys) inputs []"

lemma collectFromValue_cases:
  "collectFromValue (JStr s) keys = (if js_startsWith s UPLOADS_PREFIX then set_add s keys else keys)"
  "collectFromValue (JArr entries) keys =
     fold (\<lambda>childInput. collectFromValue (jfield ''value'' childInput))
       (concat (map (\<lambda>entry. filter isRecord (child_inputs entry)) (filter isSubAlgorithmEntry entries))) keys"
  "collectFromValue JUndefined keys = keys" "collectFromValue JNull keys = keys"
  "collectFromValue (JBool b) keys = keys" "collectFromValue (JNum n) keys = keys"
  "collectFromValue (JObj kvs) keys = keys"
  by (subst collectFromValue.simps, simp only: json.case)+

declare collectFromValue.simps [simp del] collectFromValue_cases [simp]

section \<open>Behaviour\<close>

text \<open>The stored inputs read back in the order they were given.\<close>

lemma sort_input_rows: "sortInputs (buildInputRows i inputs) = buildInputRows i inputs"
proof -
  have "map pi_position (buildInputRows i inputs) = [0 ..< length inputs]"
    by (simp add: buildInputRows_def input_row_def comp_def)
  then have "sorted (map pi_position (buildInputRows i inputs))" by simp
  then show ?thesis by (simp add: sortInputs_def sort_key_id_if_sorted)
qed

lemma read_input_rows: "map (\<lambda>r. (pi_key r, pi_value r)) (buildInputRows i inputs) = inputs"
  by (simp add: buildInputRows_def input_row_def comp_def)

lemma input_rows_of [simp]:
  "filter (\<lambda>r. pi_presetId r = j) (buildInputRows i inputs) = (if i = j then buildInputRows i inputs else [])"
  by (auto simp: buildInputRows_def input_row_def filter_empty_conv filter_id_conv)

text \<open>Only upload keys are collected, each once.\<close>

lemma collectFromValue_upload:
  "(\<forall>k \<in> set keys. js_startsWith k UPLOADS_PREFIX) \<Longrightarrow>
     (\<forall>k \<in> set (collectFromValue v keys). js_startsWith k UPLOADS_PREFIX)"
proof (induction v keys rule: collectFromValue.induct)
  case (1 v keys)
  show ?case
  proof (cases v)
    case (JArr entries)
    define ws0 where "ws0 = concat (map (\<lambda>entry. filter isRecord (child_inputs entry)) (filter isSubAlgorithmEntry entries))"
    have ih: "\<forall>k \<in> set ks. js_startsWith k UPLOADS_PREFIX \<Longrightarrow>
        \<forall>k \<in> set (collectFromValue (jfield ''value'' w) ks). js_startsWith k UPLOADS_PREFIX" if "w \<in> set ws0" for w ks
      using "1.IH"[OF JArr] that unfolding ws0_def by blast
    have "\<forall>k \<in> set (fold (\<lambda>w. collectFromValue (jfield ''value'' w)) ws ks). js_startsWith k UPLOADS_PREFIX"
      if "set ws \<subseteq> set ws0" "\<forall>k \<in> set ks. js_startsWith k UPLOADS_PREFIX" for ws ks
      using that
    proof (induction ws arbitrary: ks)
      case (Cons w ws)
      show ?case using Cons.IH[OF _ ih[OF _ Cons.prems(2)], of w] Cons.prems(1) by simp
    qed simp
    from this[OF order_refl "1.prems"] show ?thesis by (simp only: JArr collectFromValue_cases ws0_def)
  qed (use "1.prems" in auto)
qed

lemma fold_collect_upload:
  "\<forall>k \<in> set keys. js_startsWith k UPLOADS_PREFIX \<Longrightarrow>
     \<forall>k \<in> set (fold (\<lambda>input. collectFromValue (snd input)) inputs keys). js_startsWith k UPLOADS_PREFIX"
proof (induction inputs arbitrary: keys)
  case (Cons input inputs)
  show ?case using Cons.IH[OF collectFromValue_upload[OF Cons.prems, of "snd input"]] by simp
qed simp

lemma collectUploadKeys_upload: "k \<in> set (collectUploadKeys inputs) \<Longrightarrow> js_startsWith k UPLOADS_PREFIX"
  using fold_collect_upload[of "[]" inputs] by (simp add: collectUploadKeys_def)

section \<open>Properties\<close>

text \<open>
  the repository stores a preset faithfully: the row that \<open>create\<close> returns, and every later
  \<open>findById\<close> until a write, carries the inputs in the order they were given, whatever other
  presets and inputs the tables hold.
\<close>

lemma preset_create_roundtrip:
  assumes "inputs_storable (cp_inputs dto)" "find_preset newId t = None" "inputs_of newId t = []"
  shows "case preset_create newId now dto t of (res, t') \<Rightarrow>
      res = preset_findById newId t'
    \<and> (\<exists>row. res = Some row \<and> pr_inputs row = cp_inputs dto \<and> pr_key row = cp_key dto
         \<and> pr_version row = cp_version dto \<and> pr_id row = newId)
    \<and> (\<forall>j. j \<noteq> newId \<longrightarrow> preset_findById j t' = preset_findById j t)"
  using assms
  by (auto simp: preset_create_def Let_def preset_findById_def find_preset_def inputs_of_def find_append
        mapAlgorithmPresetRow_def sort_input_rows read_input_rows split: option.split)

theorem preset_create_roundtrip_witness:
  "\<exists>row. fst (preset_create ''p1'' 5 \<lparr>cp_key = ''voting_engagement'', cp_version = ''1.0.0'',
       cp_inputs = [(''votes'', JStr ''uploads/v.csv''), (''a'', JBool True)], cp_name = None, cp_description = None\<rparr>
       \<lparr>presets = [], preset_inputs = []\<rparr>) = Some row
     \<and> pr_inputs row = [(''votes'', JStr ''uploads/v.csv''), (''a'', JBool True)]"
  using preset_create_roundtrip[of "\<lparr>cp_key = ''voting_engagement'', cp_version = ''1.0.0'',
       cp_inputs = [(''votes'', JStr ''uploads/v.csv''), (''a'', JBool True)], cp_name = None, cp_description = None\<rparr>"
       "''p1''" "\<lparr>presets = [], preset_inputs = []\<rparr>" 5]
  by (auto simp: inputs_storable_def find_preset_def inputs_of_def split: prod.splits)

end
