(* ===== verification/Temporal_Client.thy ===== *)
theory Temporal_Client
  imports Snapshot_Store
begin

text \<open>
  The API's Temporal client (\<^verbatim>\<open>apps/api/src/temporal/temporal.service.ts\<close>).  The Temporal server is not
  part of the repository: \<open>temporal_api\<close> is the record of what it answers to each request, and every
  operation takes it as an argument.  An operation returns the requests it sent, in order, and its
  result; an exception is \<^const>\<open>Inl\<close>.  The availability probe is a small state machine of its own.
\<close>

section \<open>Data\<close>

record temporal_error =
  te_name :: string
  te_message :: string

datatype SnapshotWorkflowDescription = described string | not_found

datatype temporal_call =
    StartWorkflow string
  | DescribeWorkflow string
  | CancelWorkflow string
  | TerminateWorkflow string
  | AwaitResult string

text \<open>What the server answers for a workflow id; \<^const>\<open>None\<close> is success.\<close>

record temporal_api =
  ta_client :: bool
  ta_start :: "string \<Rightarrow> temporal_error option"
  ta_describe :: "string \<Rightarrow> temporal_error + string"
  ta_cancel :: "string \<Rightarrow> temporal_error option"
  ta_terminate :: "string \<Rightarrow> temporal_error option"
  ta_result :: "string \<Rightarrow> temporal_error option"

definition no_client_error :: temporal_error where
  "no_client_error = \<lparr>te_name = ''Error'',
     te_message = ''Temporal client is not available. Check TEMPORAL_ADDRESS configuration.''\<rparr>"

section \<open>Operations\<close>

definition snapshotWorkflowId :: "string \<Rightarrow> string" where
  "snapshotWorkflowId snapshotId = ''snapshot-'' @ snapshotId"

definition startRunSnapshotWorkflow ::
  "temporal_api \<Rightarrow> string \<Rightarrow> temporal_call list \<times> (temporal_error + string)" where
  "startRunSnapshotWorkflow api snapshotId =
     (if \<not> ta_client api then ([], Inl no_client_error)
      else
        (let workflowId = snapshotWorkflowId snapshotId
         in ([StartWorkflow workflowId],
             case ta_start api workflowId of
               None \<Rightarrow> Inr workflowId
             | Some err \<Rightarrow>
                 if te_name err = ''WorkflowExecutionAlreadyStartedError'' then Inr workflowId else Inl err)))"

definition describeSnapshotWorkflow ::
  "temporal_api \<Rightarrow> string \<Rightarrow> temporal_call list \<times> (temporal_error + SnapshotWorkflowDescription)" where
  "describeSnapshotWorkflow api workflowId =
     (if \<not> ta_client api then ([], Inl no_client_error)
      else ([DescribeWorkflow workflowId],
        case ta_describe api workflowId of
          Inr name \<Rightarrow> Inr (described name)
        | Inl err \<Rightarrow> if te_name err = ''WorkflowNotFoundError'' then Inr not_found else Inl err))"

definition cancelWorkflow ::
  "temporal_api \<Rightarrow> string \<Rightarrow> temporal_call list \<times> (temporal_error + unit)" where
  "cancelWorkflow api workflowId =
     (if \<not> ta_client api then ([], Inl no_client_error)
      else ([CancelWorkflow workflowId],
        case ta_cancel api workflowId of
          None \<Rightarrow> Inr ()
        | Some err \<Rightarrow> if te_name err = ''WorkflowNotFoundError'' then Inr () else Inl err))"

text \<open>Whatever \<^verbatim>\<open>handle.result()\<close> throws after a termination is logged and dropped.\<close>

definition terminateWorkflow ::
  "temporal_api \<Rightarrow> string \<Rightarrow> bool \<Rightarrow> temporal_call list \<times> (temporal_error + unit)" where
  "terminateWorkflow api workflowId waitForCompletion =
     (if \<not> ta_client api then ([], Inl no_client_error)
      else
        (case ta_terminate api workflowId of
           None \<Rightarrow> (TerminateWorkflow workflowId # (if waitForCompletion then [AwaitResult workflowId] else []), Inr ())
         | Some err \<Rightarrow>
             ([TerminateWorkflow workflowId],
              if te_name err = ''WorkflowNotFoundError'' then Inr () else Inl err)))"

definition cancelSnapshotWorkflow :: "temporal_api \<Rightarrow> string \<Rightarrow> temporal_call list" where
  "cancelSnapshotWorkflow api workflowId = fst (cancelWorkflow api workflowId)"

definition terminateSnapshotWorkflow :: "temporal_api \<Rightarrow> string \<Rightarrow> bool \<Rightarrow> temporal_call list" where
  "terminateSnapshotWorkflow api workflowId waitForCompletion =
     fst (terminateWorkflow api workflowId waitForCompletion)"

record TerminableSnapshot =
  ts_id :: "string option"
  ts_status :: string
  ts_workflowId :: "string option"

definition ACTIVE_SNAPSHOT_STATUSES :: "string list" where
  "ACTIVE_SNAPSHOT_STATUSES = [''queued'', ''running'']"

text \<open>An empty id is falsy, as is an absent one.\<close>

fun collectActiveWorkflowIds :: "TerminableSnapshot list \<Rightarrow> string list" where
  "collectActiveWorkflowIds [] = []"
| "collectActiveWorkflowIds (s # rest) =
     (if ts_status s \<notin> set ACTIVE_SNAPSHOT_STATUSES then collectActiveWorkflowIds rest
      else
        (let workflowId =
           (case ts_workflowId s of
              Some w \<Rightarrow> Some w
            | None \<Rightarrow>
                (case ts_id s of
                   None \<Rightarrow> None
                 | Some i \<Rightarrow> if i = [] then None else Some (snapshotWorkflowId i)))
         in case workflowId of
              None \<Rightarrow> collectActiveWorkflowIds rest
            | Some w \<Rightarrow> if w = [] then collectActiveWorkflowIds rest else w # collectActiveWorkflowIds rest))"

definition cancelSnapshotWorkflows :: "temporal_api \<Rightarrow> TerminableSnapshot list \<Rightarrow> temporal_call list" where
  "cancelSnapshotWorkflows api snaps =
     concat (map (cancelSnapshotWorkflow api) (collectActiveWorkflowIds snaps))"

definition terminateSnapshotWorkflows ::
  "temporal_api \<Rightarrow> TerminableSnapshot list \<Rightarrow> bool \<Rightarrow> temporal_call list" where
  "terminateSnapshotWorkflows api snaps waitForCompletion =
     (let workflowIds = collectActiveWorkflowIds snaps
      in if workflowIds = [] then []
         else concat (map (\<lambda>w. terminateSnapshotWorkflow api w waitForCompletion) workflowIds))"

section \<open>The availability probe\<close>

record probe_state =
  ps_connection :: bool
  ps_available :: bool
  ps_inFlight :: bool
  ps_timer :: bool

definition probe_initial :: probe_state where
  "probe_initial = \<lparr>ps_connection = False, ps_available = False, ps_inFlight = False, ps_timer = False\<rparr>"

definition setAvailability :: "bool \<Rightarrow> probe_state \<Rightarrow> probe_state" where
  "setAvailability up s = (if ps_available s = up then s else s\<lparr>ps_available := up\<rparr>)"

text \<open>
  \<open>refreshAvailability\<close> is entered by the timer and suspends on the health request; the answer of the
  request resumes it.  The boolean of \<open>refresh_start\<close> says whether a request was sent.
\<close>

definition refresh_start :: "probe_state \<Rightarrow> bool \<times> probe_state" where
  "refresh_start s =
     (if \<not> ps_connection s \<or> ps_inFlight s then (False, s) else (True, s\<lparr>ps_inFlight := True\<rparr>))"

definition refresh_finish :: "bool \<Rightarrow> probe_state \<Rightarrow> probe_state" where
  "refresh_finish up s = (setAvailability up s)\<lparr>ps_inFlight := False\<rparr>"

definition onModuleInit :: "int \<Rightarrow> probe_state \<Rightarrow> probe_state" where
  "onModuleInit probeIntervalMs s =
     (let s1 = s\<lparr>ps_connection := True\<rparr>
      in if 0 < probeIntervalMs then snd (refresh_start (s1\<lparr>ps_timer := True\<rparr>)) else s1)"

definition onModuleDestroy :: "probe_state \<Rightarrow> probe_state" where
  "onModuleDestroy s = s\<lparr>ps_timer := False\<rparr>"

definition getAvailability :: "probe_state \<Rightarrow> string" where
  "getAvailability s = (if ps_available s then ''up'' else ''down'')"

section \<open>Behaviour\<close>

text \<open>The workflow id determines the snapshot.\<close>

lemma snapshotWorkflowId_inject [simp]: "snapshotWorkflowId a = snapshotWorkflowId b \<longleftrightarrow> a = b"
  by (simp add: snapshotWorkflowId_def)

lemma snapshotWorkflowId_not_Nil [simp]: "snapshotWorkflowId a \<noteq> []"
  by (simp add: snapshotWorkflowId_def)

lemma collectActiveWorkflowIds_nonempty: "w \<in> set (collectActiveWorkflowIds ss) \<Longrightarrow> w \<noteq> []"
  by (induction ss) (auto simp: Let_def split: if_splits option.splits)

text \<open>Every active row with an id is terminated, under the stored or the derived workflow id.\<close>

lemma collectActiveWorkflowIds_complete:
  assumes "s \<in> set ss" "ts_status s \<in> set ACTIVE_SNAPSHOT_STATUSES" "ts_id s = Some i" "i \<noteq> []"
    and "ts_workflowId s \<noteq> Some []"
  shows "(case ts_workflowId s of None \<Rightarrow> snapshotWorkflowId i | Some w \<Rightarrow> w) \<in> set (collectActiveWorkflowIds ss)"
  using assms by (induction ss) (auto simp: Let_def split: option.split)

text \<open>
  At most one health request is outstanding: between a start that sent one and its answer, every other
  start is a no-op.
\<close>

lemma refresh_exclusive:
  assumes "refresh_start s = (True, s1)"
  shows "refresh_start s1 = (False, s1)" "ps_available (refresh_finish up s1) = up" "\<not> ps_inFlight (refresh_finish up s1)"
  using assms by (auto simp: refresh_start_def refresh_finish_def setAvailability_def split: if_splits)

lemma startRun_Inr: "snd (startRunSnapshotWorkflow api i) = Inr w \<Longrightarrow> w = snapshotWorkflowId i"
  by (auto simp: startRunSnapshotWorkflow_def Let_def split: if_splits option.splits)

lemma describe_not_found:
  "snd (describeSnapshotWorkflow api w) = Inr not_found \<longleftrightarrow>
     ta_client api \<and> (\<exists>err. ta_describe api w = Inl err \<and> te_name err = ''WorkflowNotFoundError'')"
  by (auto simp: describeSnapshotWorkflow_def split: sum.splits)

end
