(* ===== verification/Snapshot_Service.thy ===== *)
theory Snapshot_Service
  imports Preset_Store Temporal_Client
begin

text \<open>
  The snapshot service of the API (\<^verbatim>\<open>apps/api/src/snapshot/snapshot.service.ts\<close>), the activities it
  exposes to the workflows (\<^verbatim>\<open>apps/api/src/temporal/snapshot.activities.ts\<close>), the reconciler
  (\<^verbatim>\<open>apps/api/src/snapshot/snapshot-reconciler.service.ts\<close>) and the deletion of a preset
  (\<^verbatim>\<open>apps/api/src/algorithm-preset/algorithm-preset.service.ts\<close>).

  The state is the tables and the log of effects in the order they happen: committed transactions,
  requests to the Temporal server and delete requests to the object store.  What the code cannot decide
  itself is the environment \<open>svc_env\<close>: the answers of Temporal and of the object store, whether a
  transaction on a row commits, the outcome of the input validation, the clock, and the generated id.
\<close>

section \<open>State and environment\<close>

datatype effect =
    RowCreated string
  | RowUpdated string SnapshotApplyExternalUpdate
  | RowDeleted string
  | PresetDeleted string
  | Requested temporal_call
  | DeleteObjects "string list"

record world =
  tables :: store
  presetTables :: preset_tables
  effects :: "effect list"

datatype svc_error =
    NotFound string string
  | InvalidInputs string
  | SnapshotWorkflowStart
  | DatabaseError

record svc_env =
  se_lc :: "string \<Rightarrow> string \<Rightarrow> bool"
  se_now :: int
  se_newId :: string
  se_temporal :: temporal_api
  se_commits :: "string \<Rightarrow> SnapshotApplyExternalUpdate \<Rightarrow> bool"
  se_validate :: "string \<Rightarrow> string \<Rightarrow> AlgorithmPresetInput list \<Rightarrow> string option"
  se_listObjects :: "string \<Rightarrow> string list option"

text \<open>Transactions and requests, each with its entry in the log.\<close>

definition emit :: "effect list \<Rightarrow> world \<Rightarrow> world" where
  "emit es w = w\<lparr>effects := effects w @ es\<rparr>"

definition request :: "temporal_call list \<times> 'r \<Rightarrow> world \<Rightarrow> 'r \<times> world" where
  "request p w = (snd p, emit (map Requested (fst p)) w)"

definition repo_update ::
  "svc_env \<Rightarrow> string \<Rightarrow> SnapshotApplyExternalUpdate \<Rightarrow> world
     \<Rightarrow> (svc_error + SnapshotExternalUpdateResult option) \<times> world" where
  "repo_update env i data w =
     (if \<not> se_commits env i data then (Inl DatabaseError, w)
      else
        (let (res, st) = applyExternalUpdate (se_lc env) (se_now env) i data (tables w)
         in (Inr res, emit [RowUpdated i data] (w\<lparr>tables := st\<rparr>))))"

section \<open>The snapshot service\<close>

record UpdateSnapshotInput =
  in_snapshotId :: string
  in_status :: "SnapshotStatus option"
  in_temporal :: "SnapshotTemporal option"
  in_outputs :: "SnapshotOutputs option"
  in_error :: "SnapshotError option"

record RecordSnapshotPublicationInput =
  rp_snapshotId :: string
  rp_algorithmKey :: string
  rp_status :: SnapshotPublicationStatus
  rp_counts :: "SnapshotPublicationCounts option"
  rp_error :: "string option"

definition update_data :: "int \<Rightarrow> UpdateSnapshotInput \<Rightarrow> SnapshotApplyExternalUpdate" where
  "update_data now input =
     \<lparr>up_status = in_status input,
      up_startedAt = (if in_status input = Some running then Some now else None),
      up_completedAt =
        (if in_status input \<in> {Some completed, Some failed, Some cancelled} then Some now else None),
      up_temporal = in_temporal input,
      up_outputs = in_outputs input,
      up_error = map_option (\<lambda>e. e\<lparr>err_timestamp := Some now\<rparr>) (in_error input)\<rparr>"

definition svc_applyExternalUpdate ::
  "svc_env \<Rightarrow> UpdateSnapshotInput \<Rightarrow> world \<Rightarrow> (svc_error + SnapshotRow option) \<times> world" where
  "svc_applyExternalUpdate env input w =
     (case repo_update env (in_snapshotId input) (update_data (se_now env) input) w of
        (Inl err, w') \<Rightarrow> (Inl err, w')
      | (Inr None, w') \<Rightarrow> (Inr None, w')
      | (Inr (Some result), w') \<Rightarrow> (Inr (Some (res_row result)), w'))"

definition status_input :: "string \<Rightarrow> SnapshotStatus \<Rightarrow> string \<Rightarrow> UpdateSnapshotInput" where
  "status_input snapshotId status message =
     \<lparr>in_snapshotId = snapshotId, in_status = Some status, in_temporal = None, in_outputs = None,
      in_error = Some \<lparr>err_message = message, err_timestamp = None, err_extra = []\<rparr>\<rparr>"

definition handleStartFailure ::
  "svc_env \<Rightarrow> SnapshotRow \<Rightarrow> string \<Rightarrow> temporal_error \<Rightarrow> world \<Rightarrow> (svc_error + SnapshotRow) \<times> world" where
  "handleStartFailure env row workflowId startError w =
     (let (description, w1) = request (describeSnapshotWorkflow (se_temporal env) workflowId) w
      in case description of
           Inl _ \<Rightarrow> (Inr row, w1)
         | Inr (described _) \<Rightarrow> (Inr row, w1)
         | Inr not_found \<Rightarrow>
             (let (_, w2) =
                svc_applyExternalUpdate env
                  (status_input (row_id row) failed
                    (''Failed to start the snapshot workflow: '' @ te_message startError)) w1
              in (Inl SnapshotWorkflowStart, w2)))"

definition with_workflowId :: "string \<Rightarrow> SnapshotTemporal option \<Rightarrow> SnapshotTemporal" where
  "with_workflowId workflowId t =
     (case t of
        None \<Rightarrow> \<lparr>tmp_workflowId = Some workflowId, tmp_runId = None, tmp_taskQueue = None,
                 tmp_algorithmTaskQueue = None\<rparr>
      | Some t \<Rightarrow> t\<lparr>tmp_workflowId := Some workflowId\<rparr>)"

definition temporal_data :: "SnapshotTemporal \<Rightarrow> SnapshotApplyExternalUpdate" where
  "temporal_data t = \<lparr>up_status = None, up_startedAt = None, up_completedAt = None, up_temporal = Some t,
     up_outputs = None, up_error = None\<rparr>"

definition launchSnapshotWorkflow ::
  "svc_env \<Rightarrow> SnapshotRow \<Rightarrow> world \<Rightarrow> (svc_error + SnapshotRow) \<times> world" where
  "launchSnapshotWorkflow env createdSnapshot w =
     (let snapshotId = row_id createdSnapshot;
          workflowId = snapshotWorkflowId snapshotId
      in case repo_update env snapshotId
                (temporal_data (with_workflowId workflowId (row_temporal createdSnapshot))) w of
           (Inl err, w1) \<Rightarrow> (Inl err, w1)
         | (Inr persisted, w1) \<Rightarrow>
             (let row = (case persisted of None \<Rightarrow> createdSnapshot | Some p \<Rightarrow> res_row p);
                  (started, w2) = request (startRunSnapshotWorkflow (se_temporal env) snapshotId) w1
              in case started of
                   Inr _ \<Rightarrow> (Inr row, w2)
                 | Inl err \<Rightarrow> handleStartFailure env row workflowId err w2))"

record CreateSnapshotDto =
  dto_algorithmPresetId :: string
  dto_temporal :: "SnapshotTemporal option"
  dto_outputs :: "SnapshotOutputs option"

definition freeze_preset :: "AlgorithmPresetRow \<Rightarrow> AlgorithmPresetFrozen" where
  "freeze_preset p =
     \<lparr>fz_key = pr_key p, fz_version = pr_version p, fz_inputs = pr_inputs p, fz_name = pr_name p,
      fz_description = pr_description p, fz_createdAt = Some (pr_createdAt p), fz_updatedAt = Some (pr_updatedAt p)\<rparr>"

text \<open>\<open>se_validate\<close> is the joint outcome of the definition lookup and of \<^verbatim>\<open>validateAlgorithmInputs\<close>.\<close>

definition svc_create ::
  "svc_env \<Rightarrow> CreateSnapshotDto \<Rightarrow> world \<Rightarrow> (svc_error + SnapshotRow) \<times> world" where
  "svc_create env dto w =
     (case preset_findById (dto_algorithmPresetId dto) (presetTables w) of
        None \<Rightarrow> (Inl (NotFound (dto_algorithmPresetId dto) ''algorithm preset''), w)
      | Some algorithmPreset \<Rightarrow>
          (case se_validate env (pr_key algorithmPreset) (pr_version algorithmPreset) (pr_inputs algorithmPreset) of
             Some reason \<Rightarrow> (Inl (InvalidInputs reason), w)
           | None \<Rightarrow>
               (let snapshot = \<lparr>cd_status = Some queued, cd_algorithmPreset = dto_algorithmPresetId dto,
                                cd_frozen = freeze_preset algorithmPreset, cd_temporal = dto_temporal dto,
                                cd_outputs = dto_outputs dto\<rparr>;
                    (row, st) = create (se_lc env) (se_newId env) (se_now env) snapshot (tables w)
                in launchSnapshotWorkflow env row (emit [RowCreated (se_newId env)] (w\<lparr>tables := st\<rparr>)))))"

definition svc_getById :: "svc_env \<Rightarrow> string \<Rightarrow> world \<Rightarrow> svc_error + SnapshotRow" where
  "svc_getById env i w =
     (case findById (se_lc env) i (tables w) of
        None \<Rightarrow> Inl (NotFound i ''snapshot'') | Some row \<Rightarrow> Inr row)"

definition recordPublication ::
  "svc_env \<Rightarrow> RecordSnapshotPublicationInput \<Rightarrow> world \<Rightarrow> bool \<times> world" where
  "recordPublication env input w =
     (let (row, st) = upsertPublication (se_lc env) (se_now env) (rp_snapshotId input)
            \<lparr>upd_algorithmKey = rp_algorithmKey input, upd_status = rp_status input,
             upd_counts = rp_counts input, upd_error = rp_error input\<rparr> (tables w)
      in (row \<noteq> None, w\<lparr>tables := st\<rparr>))"

text \<open>Failures of the object store are logged and dropped.\<close>

definition snapshot_prefix :: "string \<Rightarrow> string" where
  "snapshot_prefix i = ''snapshots/'' @ i @ ''/''"

definition deleteS3Objects :: "svc_env \<Rightarrow> string \<Rightarrow> world \<Rightarrow> world" where
  "deleteS3Objects env snapshotId w =
     (case se_listObjects env (snapshot_prefix snapshotId) of
        None \<Rightarrow> w
      | Some keysToDelete \<Rightarrow>
          if keysToDelete \<noteq> [] then emit [DeleteObjects keysToDelete] w else w)"

definition svc_deleteById :: "svc_env \<Rightarrow> string \<Rightarrow> world \<Rightarrow> (svc_error + unit) \<times> world" where
  "svc_deleteById env i w =
     (case findById (se_lc env) i (tables w) of
        None \<Rightarrow> (Inl (NotFound i ''snapshot''), w)
      | Some snapshot \<Rightarrow>
          (let w1 =
             (if row_status snapshot \<in> {queued, running}
              then
                (let workflowId =
                   (case row_temporal snapshot of
                      None \<Rightarrow> snapshotWorkflowId i
                    | Some t \<Rightarrow> (case tmp_workflowId t of None \<Rightarrow> snapshotWorkflowId i | Some wid \<Rightarrow> wid))
                 in emit (map Requested (terminateSnapshotWorkflow (se_temporal env) workflowId True)) w)
              else w);
             w2 = emit [RowDeleted i] (w1\<lparr>tables := snd (deleteById (se_lc env) i (tables w1))\<rparr>)
           in (Inr (), deleteS3Objects env (row_id snapshot) w2)))"

section \<open>The preset service\<close>

definition preset_svc_create ::
  "svc_env \<Rightarrow> CreateAlgorithmPresetDto \<Rightarrow> world \<Rightarrow> (svc_error + AlgorithmPresetRow) \<times> world" where
  "preset_svc_create env dto w =
     (case se_validate env (cp_key dto) (cp_version dto) (cp_inputs dto) of
        Some reason \<Rightarrow> (Inl (InvalidInputs reason), w)
      | None \<Rightarrow>
          (case preset_create (se_newId env) (se_now env) dto (presetTables w) of
             (None, _) \<Rightarrow> (Inl DatabaseError, w)
           | (Some row, t) \<Rightarrow> (Inr row, w\<lparr>presetTables := t\<rparr>)))"

definition preset_svc_updateById ::
  "svc_env \<Rightarrow> string \<Rightarrow> UpdateAlgorithmPresetDto \<Rightarrow> world \<Rightarrow> (svc_error + AlgorithmPresetRow) \<times> world" where
  "preset_svc_updateById env i dto w =
     (case preset_findById i (presetTables w) of
        None \<Rightarrow> (Inl (NotFound i ''algorithm preset''), w)
      | Some existing \<Rightarrow>
          (case se_validate env (pr_key existing) (pr_version existing)
                  (case upr_inputs dto of None \<Rightarrow> pr_inputs existing | Some inputs \<Rightarrow> inputs) of
             Some reason \<Rightarrow> (Inl (InvalidInputs reason), w)
           | None \<Rightarrow>
               (case preset_updateById (se_now env) i dto (presetTables w) of
                  (Inl _, _) \<Rightarrow> (Inl DatabaseError, w)
                | (Inr None, _) \<Rightarrow> (Inl (NotFound i ''algorithm preset''), w)
                | (Inr (Some row), t) \<Rightarrow> (Inr row, w\<lparr>presetTables := t\<rparr>))))"

text \<open>One transaction: a refused preset deletion also undoes the deletion of the snapshots.\<close>

definition deletePresetWithSnapshots :: "string \<Rightarrow> nat \<Rightarrow> world \<Rightarrow> (svc_error + unit) \<times> world" where
  "deletePresetWithSnapshots presetId snapshotCount w =
     (let f = \<lparr>sf_status = None, sf_algorithmPresetId = Some presetId, sf_frozenKey = None, sf_frozenVersion = None\<rparr>;
          st = (if 0 < snapshotCount then snd (deleteMany f (tables w)) else tables w);
          referenced = list_ex (\<lambda>e. sn_algorithmPresetId e = presetId) (snapshots st)
      in case preset_deleteById referenced presetId (presetTables w) of
           (Inl _, _) \<Rightarrow> (Inl DatabaseError, w)
         | (Inr _, t) \<Rightarrow> (Inr (), emit [PresetDeleted presetId] (w\<lparr>tables := st, presetTables := t\<rparr>)))"

definition preset_keysToDelete :: "svc_env \<Rightarrow> AlgorithmPresetRow \<Rightarrow> SnapshotRow list \<Rightarrow> string list" where
  "preset_keysToDelete env algorithmPreset snaps =
     collectUploadKeys (pr_inputs algorithmPreset @ concat (map (\<lambda>s. fz_inputs (row_frozen s)) snaps))
     @ concat (map (\<lambda>s. case se_listObjects env (snapshot_prefix (row_id s)) of None \<Rightarrow> [] | Some ks \<Rightarrow> ks) snaps)"

definition preset_deleteS3Objects ::
  "svc_env \<Rightarrow> AlgorithmPresetRow \<Rightarrow> SnapshotRow list \<Rightarrow> world \<Rightarrow> world" where
  "preset_deleteS3Objects env algorithmPreset snaps w =
     (let keysToDelete = preset_keysToDelete env algorithmPreset snaps
      in if keysToDelete \<noteq> [] then emit [DeleteObjects keysToDelete] w else w)"

fun status_name :: "SnapshotStatus \<Rightarrow> string" where
  "status_name queued = ''queued''"
| "status_name running = ''running''"
| "status_name completed = ''completed''"
| "status_name failed = ''failed''"
| "status_name cancelled = ''cancelled''"

definition terminable :: "SnapshotRow \<Rightarrow> TerminableSnapshot" where
  "terminable row = \<lparr>ts_id = Some (row_id row), ts_status = status_name (row_status row),
     ts_workflowId = (case row_temporal row of None \<Rightarrow> None | Some t \<Rightarrow> tmp_workflowId t)\<rparr>"

definition preset_svc_deleteById :: "svc_env \<Rightarrow> string \<Rightarrow> world \<Rightarrow> (svc_error + unit) \<times> world" where
  "preset_svc_deleteById env i w =
     (case preset_findById i (presetTables w) of
        None \<Rightarrow> (Inl (NotFound i ''algorithm preset''), w)
      | Some algorithmPreset \<Rightarrow>
          (let f = \<lparr>sf_status = None, sf_algorithmPresetId = Some i, sf_frozenKey = None, sf_frozenVersion = None\<rparr>;
               snaps = find_rows (se_lc env) f (tables w);
               w1 = emit (map Requested (terminateSnapshotWorkflows (se_temporal env) (map terminable snaps) True)) w
           in case deletePresetWithSnapshots i (length snaps) w1 of
                (Inl err, w2) \<Rightarrow> (Inl err, w2)
              | (Inr _, w2) \<Rightarrow> (Inr (), preset_deleteS3Objects env algorithmPreset snaps w2)))"

section \<open>The activities\<close>

record ApplicationFailure =
  af_message :: string
  af_type :: string
  af_nonRetryable :: bool

definition SNAPSHOT_NOT_FOUND_ERROR_TYPE :: string where
  "SNAPSHOT_NOT_FOUND_ERROR_TYPE = ''SnapshotNotFoundError''"

definition snapshot_not_found :: "string \<Rightarrow> ApplicationFailure" where
  "snapshot_not_found i =
     \<lparr>af_message = ''Snapshot '' @ i @ '' not found'', af_type = SNAPSHOT_NOT_FOUND_ERROR_TYPE, af_nonRetryable = True\<rparr>"

definition database_failure :: ApplicationFailure where
  "database_failure = \<lparr>af_message = ''database error'', af_type = ''Error'', af_nonRetryable = False\<rparr>"

record SnapshotDto =
  dt_id :: string
  dt_status :: SnapshotStatus
  dt_algorithmPresetId :: string
  dt_frozen :: AlgorithmPresetFrozen
  dt_temporal :: "SnapshotTemporal option"
  dt_outputs :: "(string \<times> string) list option"
  dt_error :: "SnapshotError option"
  dt_startedAt :: "int option"
  dt_completedAt :: "int option"
  dt_createdAt :: int
  dt_updatedAt :: int

definition toSnapshotDto :: "SnapshotRow \<Rightarrow> SnapshotDto" where
  "toSnapshotDto row =
     \<lparr>dt_id = row_id row, dt_status = row_status row, dt_algorithmPresetId = row_algorithmPreset row,
      dt_frozen = row_frozen row, dt_temporal = row_temporal row, dt_outputs = row_outputs row,
      dt_error = row_error row, dt_startedAt = row_startedAt row, dt_completedAt = row_completedAt row,
      dt_createdAt = row_createdAt row, dt_updatedAt = row_updatedAt row\<rparr>"

definition act_getSnapshot :: "svc_env \<Rightarrow> string \<Rightarrow> world \<Rightarrow> ApplicationFailure + SnapshotDto" where
  "act_getSnapshot env i w =
     (case findById (se_lc env) i (tables w) of
        None \<Rightarrow> Inl (snapshot_not_found i) | Some row \<Rightarrow> Inr (toSnapshotDto row))"

definition act_updateSnapshot ::
  "svc_env \<Rightarrow> UpdateSnapshotInput \<Rightarrow> world \<Rightarrow> (ApplicationFailure + unit) \<times> world" where
  "act_updateSnapshot env input w =
     (case svc_applyExternalUpdate env input w of
        (Inl _, w') \<Rightarrow> (Inl database_failure, w')
      | (Inr None, w') \<Rightarrow> (Inl (snapshot_not_found (in_snapshotId input)), w')
      | (Inr (Some _), w') \<Rightarrow> (Inr (), w'))"

definition act_recordSnapshotPublication ::
  "svc_env \<Rightarrow> RecordSnapshotPublicationInput \<Rightarrow> world \<Rightarrow> (ApplicationFailure + unit) \<times> world" where
  "act_recordSnapshotPublication env input w =
     (let (recorded, w') = recordPublication env input w
      in (if recorded then Inr () else Inl (snapshot_not_found (rp_snapshotId input)), w'))"

section \<open>The reconciler\<close>

record reconciler =
  rc_intervalMs :: int
  rc_graceMs :: int
  rc_startFailedAfterMs :: int
  rc_timer :: bool
  rc_running :: bool

definition settle ::
  "svc_env \<Rightarrow> SnapshotRow \<Rightarrow> SnapshotStatus \<Rightarrow> string \<Rightarrow> world \<Rightarrow> (svc_error + unit) \<times> world" where
  "settle env row status message w =
     (case svc_applyExternalUpdate env (status_input (row_id row) status message) w of
        (Inl err, w') \<Rightarrow> (Inl err, w') | (Inr _, w') \<Rightarrow> (Inr (), w'))"

definition row_workflowId :: "SnapshotRow \<Rightarrow> string" where
  "row_workflowId row =
     (case row_temporal row of
        None \<Rightarrow> snapshotWorkflowId (row_id row)
      | Some t \<Rightarrow> (case tmp_workflowId t of None \<Rightarrow> snapshotWorkflowId (row_id row) | Some wid \<Rightarrow> wid))"

datatype reconcile_error = DescribeFailed temporal_error | SettleFailed svc_error

definition settled_result :: "(svc_error + unit) \<times> world \<Rightarrow> (reconcile_error + unit) \<times> world" where
  "settled_result p = (case p of (Inl err, w) \<Rightarrow> (Inl (SettleFailed err), w) | (Inr _, w) \<Rightarrow> (Inr (), w))"

definition reconcileRow ::
  "svc_env \<Rightarrow> reconciler \<Rightarrow> SnapshotRow \<Rightarrow> world \<Rightarrow> (reconcile_error + unit) \<times> world" where
  "reconcileRow env rc row w =
     (let workflowId = row_workflowId row;
          (description, w1) = request (describeSnapshotWorkflow (se_temporal env) workflowId) w
      in case description of
           Inl err \<Rightarrow> (Inl (DescribeFailed err), w1)
         | Inr (described name) \<Rightarrow>
             if name \<in> {''RUNNING'', ''CONTINUED_AS_NEW'', ''PAUSED''} then (Inr (), w1)
             else if name = ''CANCELLED''
             then settled_result (settle env row cancelled ''Workflow was cancelled'' w1)
             else if name = ''COMPLETED''
             then settled_result
                    (settle env row failed ''Workflow completed but the snapshot was never finalized'' w1)
             else if name \<in> {''FAILED'', ''TERMINATED'', ''TIMED_OUT''}
             then settled_result (settle env row failed (''Workflow closed as '' @ name) w1)
             else (Inr (), w1)
         | Inr not_found \<Rightarrow>
             if row_status row = queued
             then
               (let (started, w2) = request (startRunSnapshotWorkflow (se_temporal env) (row_id row)) w1
                in case started of
                     Inr _ \<Rightarrow> (Inr (), w2)
                   | Inl _ \<Rightarrow>
                       if rc_startFailedAfterMs rc \<le> se_now env - row_createdAt row
                       then settled_result (settle env row failed ''Workflow could not be started'' w2)
                       else (Inr (), w2))
             else settled_result (settle env row failed ''Workflow no longer exists'' w1))"

text \<open>The first row that throws ends the pass.\<close>

fun reconcile_rows ::
  "svc_env \<Rightarrow> reconciler \<Rightarrow> SnapshotRow list \<Rightarrow> world \<Rightarrow> (reconcile_error + unit) \<times> world" where
  "reconcile_rows env rc [] w = (Inr (), w)"
| "reconcile_rows env rc (row # rows) w =
     (case reconcileRow env rc row w of
        (Inl err, w') \<Rightarrow> (Inl err, w')
      | (Inr _, w') \<Rightarrow> reconcile_rows env rc rows w')"

definition reconcile :: "svc_env \<Rightarrow> reconciler \<Rightarrow> world \<Rightarrow> reconciler \<times> world" where
  "reconcile env rc w =
     (if rc_running rc then (rc, w)
      else
        (let cutoff = se_now env - rc_graceMs rc;
             rows = findUnsettled (se_lc env) cutoff (tables w);
             (_, w') = reconcile_rows env rc rows w
         in (rc\<lparr>rc_running := False\<rparr>, w')))"

definition onApplicationBootstrap :: "svc_env \<Rightarrow> reconciler \<Rightarrow> world \<Rightarrow> reconciler \<times> world" where
  "onApplicationBootstrap env rc w =
     (if rc_intervalMs rc \<le> 0 then (rc, w) else reconcile env (rc\<lparr>rc_timer := True\<rparr>) w)"

definition reconciler_destroy :: "reconciler \<Rightarrow> reconciler" where
  "reconciler_destroy rc = rc\<lparr>rc_timer := False\<rparr>"

section \<open>Effects on the tables\<close>

lemma emit_simps [simp]:
  "tables (emit es w) = tables w" "presetTables (emit es w) = presetTables w"
  "effects (emit es w) = effects w @ es"
  by (simp_all add: emit_def)

lemma emit_Nil: "emit [] w = w"
  by (simp add: emit_def)

lemma request_simps [simp]:
  "fst (request p w) = snd p" "snd (request p w) = emit (map Requested (fst p)) w"
  by (simp_all add: request_def)

lemma repo_update_tables [simp]:
  "tables (snd (repo_update env i d w)) =
     (if se_commits env i d then snd (applyExternalUpdate (se_lc env) (se_now env) i d (tables w)) else tables w)"
  by (simp add: repo_update_def split: prod.split)

lemma repo_update_result:
  "se_commits env i d \<Longrightarrow>
     fst (repo_update env i d w) = Inr (fst (applyExternalUpdate (se_lc env) (se_now env) i d (tables w)))"
  "\<not> se_commits env i d \<Longrightarrow> repo_update env i d w = (Inl DatabaseError, w)"
  by (simp_all add: repo_update_def split: prod.split)

lemma svc_update_world [simp]:
  "snd (svc_applyExternalUpdate env input w) =
     snd (repo_update env (in_snapshotId input) (update_data (se_now env) input) w)"
  by (simp add: svc_applyExternalUpdate_def split: prod.split sum.split option.split)

lemma svc_update_Inl:
  "isl (fst (svc_applyExternalUpdate env input w)) \<longleftrightarrow>
     \<not> se_commits env (in_snapshotId input) (update_data (se_now env) input)"
  by (auto simp: svc_applyExternalUpdate_def repo_update_def split: prod.splits sum.splits option.splits)

lemma status_input_id [simp]: "in_snapshotId (status_input i s m) = i"
  by (simp add: status_input_def)

lemma settle_world [simp]:
  "snd (settle env row s m w) = snd (svc_applyExternalUpdate env (status_input (row_id row) s m) w)"
  by (auto simp: settle_def simp del: svc_update_world split: prod.split sum.split)

lemma settle_Inl:
  "isl (fst (settle env row s m w)) \<longleftrightarrow> isl (fst (svc_applyExternalUpdate env (status_input (row_id row) s m) w))"
  by (auto simp: settle_def split: prod.splits sum.splits)

lemma settled_result_simps [simp]:
  "snd (settled_result p) = snd p" "isl (fst (settled_result p)) \<longleftrightarrow> isl (fst p)"
  by (auto simp: settled_result_def split: prod.split sum.split)

definition status_of :: "string \<Rightarrow> store \<Rightarrow> SnapshotStatus option" where
  "status_of i st = map_option sn_status (find_snapshot i st)"

text \<open>Settling a row that is not terminal writes the status of this row and of no other.\<close>

lemma status_of_settle:
  assumes "status_of i st = Some cur" "\<not> terminal cur" "s = failed \<or> s = cancelled"
  shows "status_of j (snd (applyExternalUpdate lc now i (update_data now (status_input i s m)) st)) =
     (if j = i then Some s else status_of j st)"
proof -
  obtain e where e: "find_snapshot i st = Some e" "sn_status e = cur"
    using assms(1) by (auto simp: status_of_def)
  have "\<not> blocked (update_data now (status_input i s m)) e"
    using assms(2,3) e(2) by (cases cur)
      (auto simp: blocked_def update_data_def status_input_def canTransition_def TERMINAL_SNAPSHOT_STATUSES_def)
  then show ?thesis
    using e by (simp add: snd_applyExternalUpdate status_of_def find_written)
      (simp add: update_data_def status_input_def)
qed

section \<open>What a reconciliation pass does\<close>

text \<open>
  The specification of the reconciler for one row: the status Temporal's answer calls for.  A workflow
  that is still running, or in a state the code does not know, leaves the row alone.
\<close>

definition reconcile_action :: "svc_env \<Rightarrow> reconciler \<Rightarrow> SnapshotRow \<Rightarrow> (SnapshotStatus \<times> string) option" where
  "reconcile_action env rc row =
     (case snd (describeSnapshotWorkflow (se_temporal env) (row_workflowId row)) of
        Inl _ \<Rightarrow> None
      | Inr (described name) \<Rightarrow>
          if name = ''CANCELLED'' then Some (cancelled, ''Workflow was cancelled'')
          else if name = ''COMPLETED''
          then Some (failed, ''Workflow completed but the snapshot was never finalized'')
          else if name \<in> {''FAILED'', ''TERMINATED'', ''TIMED_OUT''}
          then Some (failed, ''Workflow closed as '' @ name)
          else None
      | Inr not_found \<Rightarrow>
          if row_status row \<noteq> queued then Some (failed, ''Workflow no longer exists'')
          else if isl (snd (startRunSnapshotWorkflow (se_temporal env) (row_id row)))
                \<and> rc_startFailedAfterMs rc \<le> se_now env - row_createdAt row
          then Some (failed, ''Workflow could not be started'')
          else None)"

definition reconcile_target :: "svc_env \<Rightarrow> reconciler \<Rightarrow> SnapshotRow \<Rightarrow> SnapshotStatus" where
  "reconcile_target env rc row =
     (case reconcile_action env rc row of None \<Rightarrow> row_status row | Some (s, _) \<Rightarrow> s)"

lemma reconcile_action_status: "reconcile_action env rc row = Some (s, m) \<Longrightarrow> s = failed \<or> s = cancelled"
  by (auto simp: reconcile_action_def split: sum.splits SnapshotWorkflowDescription.splits if_splits)

lemma reconcileRow_result:
  assumes "\<forall>i d. se_commits env i d"
    and "\<not> isl (snd (describeSnapshotWorkflow (se_temporal env) (row_workflowId row)))"
  shows "\<not> isl (fst (reconcileRow env rc row w))"
  using assms
  by (auto simp: reconcileRow_def Let_def request_def settle_Inl svc_update_Inl
        split: sum.splits SnapshotWorkflowDescription.splits)

lemma reconcileRow_settles:
  "tables (snd (reconcileRow env rc row w)) =
     (case reconcile_action env rc row of
        None \<Rightarrow> tables w | Some (s, m) \<Rightarrow> tables (snd (settle env row s m w)))"
  by (auto simp: reconcileRow_def reconcile_action_def Let_def request_def
        split: sum.splits SnapshotWorkflowDescription.splits)

lemma reconcileRow_tables:
  assumes "\<forall>i d. se_commits env i d"
  shows "tables (snd (reconcileRow env rc row w)) =
     (case reconcile_action env rc row of
        None \<Rightarrow> tables w
      | Some (s, m) \<Rightarrow>
          snd (applyExternalUpdate (se_lc env) (se_now env) (row_id row)
                (update_data (se_now env) (status_input (row_id row) s m)) (tables w)))"
  using assms by (auto simp: reconcileRow_settles split: option.split)

text \<open>A pass over rows whose stored status is still the one that was read.\<close>

lemma reconcile_rows_status:
  assumes "\<forall>i d. se_commits env i d"
    and "distinct (map row_id rows)"
    and "\<forall>r \<in> set rows. \<not> isl (snd (describeSnapshotWorkflow (se_temporal env) (row_workflowId r)))
            \<and> status_of (row_id r) (tables w) = Some (row_status r) \<and> \<not> terminal (row_status r)"
  shows "status_of i (tables (snd (reconcile_rows env rc rows w))) =
     (case List.find (\<lambda>r. row_id r = i) rows of
        None \<Rightarrow> status_of i (tables w)
      | Some r \<Rightarrow> Some (reconcile_target env rc r))"
  using assms(2,3)
proof (induction rows arbitrary: w)
  case (Cons r rows)
  let ?w' = "snd (reconcileRow env rc r w)"
  have step: "status_of j (tables ?w') =
      (if j = row_id r then Some (reconcile_target env rc r) else status_of j (tables w))" for j
    using Cons.prems(2)
    by (auto simp: reconcileRow_tables[OF assms(1)] reconcile_target_def status_of_settle reconcile_action_status
          split: option.split prod.split)
  have go: "snd (reconcile_rows env rc (r # rows) w) = snd (reconcile_rows env rc rows ?w')"
    using reconcileRow_result[OF assms(1), of r rc w] Cons.prems(2)
    by (auto split: prod.splits sum.splits)
  have fresh: "row_id r \<notin> row_id ` set rows" "distinct (map row_id rows)" using Cons.prems(1) by auto
  have "\<forall>x \<in> set rows. \<not> isl (snd (describeSnapshotWorkflow (se_temporal env) (row_workflowId x)))
      \<and> status_of (row_id x) (tables ?w') = Some (row_status x) \<and> \<not> terminal (row_status x)"
    using Cons.prems(2) fresh(1) by (auto simp: step image_iff)
  from Cons.IH[OF fresh(2) this] have
    "status_of i (tables (snd (reconcile_rows env rc (r # rows) w))) =
       (case List.find (\<lambda>r. row_id r = i) rows of
          None \<Rightarrow> status_of i (tables ?w') | Some x \<Rightarrow> Some (reconcile_target env rc x))"
    unfolding go .
  moreover have "List.find (\<lambda>x. row_id x = i) rows = None" if "row_id r = i"
    using that fresh(1) by (auto simp: find_None_iff image_iff)
  ultimately show ?case by (auto simp: step split: option.split)
qed simp

definition stale :: "svc_env \<Rightarrow> reconciler \<Rightarrow> SnapshotEntity \<Rightarrow> bool" where
  "stale env rc e \<longleftrightarrow> sn_status e \<in> {queued, running} \<and> sn_updatedAt e < se_now env - rc_graceMs rc"

abbreviation bare_row :: "svc_env \<Rightarrow> SnapshotEntity \<Rightarrow> SnapshotRow" where
  "bare_row env e \<equiv> mapSnapshotRow (se_lc env) e [] []"

lemma bare_row_fields [simp]:
  "row_id (mapSnapshotRow lc e os ps) = sn_id e" "row_status (mapSnapshotRow lc e os ps) = sn_status e"
  "row_temporal (mapSnapshotRow lc e os ps) = sn_temporal e" "row_createdAt (mapSnapshotRow lc e os ps) = sn_createdAt e"
  "row_frozen (mapSnapshotRow lc e os ps) = sn_frozen e"
  by (simp_all add: mapSnapshotRow_def)

lemma find_stored:
  assumes "distinct (map sn_id (snapshots st))" "e \<in> set (snapshots st)"
  shows "find_snapshot (sn_id e) st = Some e"
proof -
  have "find_snapshot (sn_id e) st \<noteq> None"
    using assms(2) unfolding find_snapshot_None by (simp add: snapshot_ids_def)
  then obtain e' where "find_snapshot (sn_id e) st = Some e'" by blast
  then show ?thesis using assms by (auto simp: find_snapshot_def distinct_map inj_on_def dest!: find_Some_iff')
qed

lemma find_unsettled_row:
  assumes "distinct (map sn_id (snapshots st))"
  shows "List.find (\<lambda>r. row_id r = i) (findUnsettled lc cutoff st) =
     (case find_snapshot i st of
        None \<Rightarrow> None
      | Some e \<Rightarrow> if sn_status e \<in> {queued, running} \<and> sn_updatedAt e < cutoff
                 then Some (mapSnapshotRow lc e [] []) else None)"
proof -
  let ?P = "\<lambda>e. sn_status e \<in> {queued, running} \<and> sn_updatedAt e < cutoff"
  let ?es = "sort_key sn_createdAt (filter ?P (snapshots st))"
  have uniq: "e = e'" if "e \<in> set (snapshots st)" "e' \<in> set (snapshots st)" "sn_id e = sn_id e'" for e e'
    using that assms by (auto simp: distinct_map inj_on_def)
  have m: "List.find (\<lambda>r. row_id r = i) (map (\<lambda>e. mapSnapshotRow lc e [] []) es)
      = map_option (\<lambda>e. mapSnapshotRow lc e [] []) (List.find (\<lambda>e. sn_id e = i) es)" for es
    by (induction es) auto
  have "List.find (\<lambda>e. sn_id e = i) ?es =
     (case find_snapshot i st of None \<Rightarrow> None | Some e \<Rightarrow> if ?P e then Some e else None)"
  proof (cases "List.find (\<lambda>e. sn_id e = i) ?es")
    case None
    then show ?thesis
      by (auto simp: find_None_iff find_snapshot_def split: option.split dest: find_Some_iff')
  next
    case (Some e)
    then have e: "e \<in> set (snapshots st)" "?P e" "sn_id e = i" by (auto dest: find_Some_iff')
    then obtain e' where e': "find_snapshot i st = Some e'" using e
      by (cases "find_snapshot i st") (auto simp: find_snapshot_None snapshot_ids_def)
    then have "e' = e" using e uniq by (auto simp: find_snapshot_def dest!: find_Some_iff')
    with Some e e' show ?thesis by simp
  qed
  then show ?thesis by (simp add: findUnsettled_def m split: option.split)
qed

section \<open>Every write is a repository transaction\<close>

abbreviation steps :: "string list \<Rightarrow> world \<Rightarrow> world \<Rightarrow> bool" where
  "steps iss w w' \<equiv> snap_step\<^sup>*\<^sup>* (iss, tables w) (iss, tables w')"

lemma repo_update_steps:
  assumes "\<forall>kvs. up_outputs d = Some kvs \<longrightarrow> distinct (map fst kvs)"
  shows "steps iss w (snd (repo_update env i d w))"
  using snap_step.updated[OF assms] by (cases "se_commits env i d") auto

lemma status_input_outputs [simp]: "up_outputs (update_data now (status_input i s m)) = None"
  by (simp add: update_data_def status_input_def)

lemma settle_steps: "steps iss w (snd (settle env row s m w))"
  unfolding settle_world svc_update_world by (rule repo_update_steps) simp

lemma reconcileRow_steps: "steps iss w (snd (reconcileRow env rc row w))"
  unfolding reconcileRow_settles
  by (auto simp del: settle_world simp: settle_steps split: option.split)

lemma reconcile_rows_steps: "steps iss w (snd (reconcile_rows env rc rows w))"
proof (induction rows arbitrary: w)
  case (Cons row rows)
  have "snd (reconcile_rows env rc (row # rows) w) \<in>
      {snd (reconcileRow env rc row w), snd (reconcile_rows env rc rows (snd (reconcileRow env rc row w)))}"
    by (auto split: prod.splits sum.splits)
  then show ?case
    using reconcileRow_steps[of iss w env rc row] Cons.IH[of "snd (reconcileRow env rc row w)"]
    by (auto intro: rtranclp_trans)
qed simp

section \<open>Creating a snapshot\<close>

lemma create_row:
  assumes "find_snapshot newId st = None"
  shows "row_id (fst (create lc newId now d st)) = newId"
    "row_temporal (fst (create lc newId now d st)) = cd_temporal d"
    "\<exists>e. find_snapshot newId (snd (create lc newId now d st)) = Some e
       \<and> sn_status e = (case cd_status d of None \<Rightarrow> queued | Some s \<Rightarrow> s)
       \<and> sn_frozen e = cd_frozen d \<and> sn_temporal e = cd_temporal d"
  using assms by (simp_all add: create_def Let_def find_snapshot_def find_append)

lemma create_other: "j \<noteq> newId \<Longrightarrow> find_snapshot j (snd (create lc newId now d st)) = find_snapshot j st"
  by (simp add: create_def Let_def find_snapshot_def find_append split: option.split)

definition start_lost :: "temporal_api \<Rightarrow> string \<Rightarrow> bool" where
  "start_lost api i \<longleftrightarrow>
     isl (snd (startRunSnapshotWorkflow api i))
   \<and> snd (describeSnapshotWorkflow api (snapshotWorkflowId i)) = Inr not_found"

text \<open>The workflow id is written first; then the workflow is started.\<close>

lemma persist_tables:
  assumes "find_snapshot i st = Some e"
  shows "snd (applyExternalUpdate lc now i (temporal_data t) st) = written now i (temporal_data t) st"
    "\<exists>r. fst (applyExternalUpdate lc now i (temporal_data t) st) = Some r \<and> row_id (res_row r) = i"
  using assms find_snapshot_in_ids[OF assms]
  by (simp_all add: snd_applyExternalUpdate blocked_def temporal_data_def applyExternalUpdate_applied)

lemma written_temporal:
  assumes "find_snapshot i st = Some e"
  shows "find_snapshot i (written now i (temporal_data t) st) = Some (e\<lparr>sn_temporal := Some t, sn_updatedAt := now\<rparr>)"
  using assms by (cases e) (simp add: find_written apply_fields_def Let_def temporal_data_def)

lemma with_workflowId_id [simp]: "tmp_workflowId (with_workflowId wid t) = Some wid"
  by (simp add: with_workflowId_def split: option.split)

text \<open>A row whose start was reported lost is marked failed; any other answer leaves it queued.\<close>

lemma handleStartFailure_world:
  assumes "\<forall>i d. se_commits env i d" "status_of (row_id row) (tables w) = Some queued"
  shows "status_of j (tables (snd (handleStartFailure env row wid err w))) =
      (if j = row_id row \<and> snd (describeSnapshotWorkflow (se_temporal env) wid) = Inr not_found
       then Some failed else status_of j (tables w))"
    "fst (handleStartFailure env row wid err w) =
      (if snd (describeSnapshotWorkflow (se_temporal env) wid) = Inr not_found
       then Inl SnapshotWorkflowStart else Inr row)"
  using assms
  by (auto simp: handleStartFailure_def Let_def request_def split_beta status_of_settle terminal_iff
       
        split: sum.split SnapshotWorkflowDescription.split)

lemma status_input_keeps:
  assumes "find_snapshot i st = Some e"
  shows "\<exists>e'. find_snapshot i (snd (applyExternalUpdate lc now k (update_data now (status_input j s m)) st)) = Some e'
     \<and> sn_frozen e' = sn_frozen e \<and> sn_temporal e' = sn_temporal e"
  using assms
  by (auto simp: snd_applyExternalUpdate find_written apply_fields_def Let_def update_data_def status_input_def
        split: option.split)

lemma handleStartFailure_keeps:
  assumes "find_snapshot i (tables w) = Some e"
  shows "\<exists>e'. find_snapshot i (tables (snd (handleStartFailure env row wid err w))) = Some e'
     \<and> sn_frozen e' = sn_frozen e \<and> sn_temporal e' = sn_temporal e"
  using assms status_input_keeps[OF assms, of "se_lc env" "se_now env"]
  by (auto simp: handleStartFailure_def Let_def request_def split_beta
        split: sum.split SnapshotWorkflowDescription.split)

lemma handleStartFailure_effects: "\<exists>rest. effects (snd (handleStartFailure env row wid err w)) = effects w @ rest"
  by (auto simp: handleStartFailure_def Let_def request_def split_beta repo_update_def
        split: sum.split SnapshotWorkflowDescription.split)

lemma launch_cases:
  fixes env w row
  defines "i \<equiv> row_id row"
  defines "d \<equiv> temporal_data (with_workflowId (snapshotWorkflowId i) (row_temporal row))"
  defines "w1 \<equiv> emit [RowUpdated i d] (w\<lparr>tables := written (se_now env) i d (tables w)\<rparr>)"
  defines "w2 \<equiv> emit (map Requested (fst (startRunSnapshotWorkflow (se_temporal env) i))) w1"
  assumes "\<forall>i d. se_commits env i d" "find_snapshot i (tables w) = Some e"
  shows "\<exists>row'. row_id row' = i \<and> launchSnapshotWorkflow env row w =
     (case snd (startRunSnapshotWorkflow (se_temporal env) i) of
        Inr _ \<Rightarrow> (Inr row', w2)
      | Inl err \<Rightarrow> handleStartFailure env row' (snapshotWorkflowId i) err w2)"
proof -
  obtain r where r: "fst (applyExternalUpdate (se_lc env) (se_now env) i d (tables w)) = Some r" "row_id (res_row r) = i"
    using persist_tables(2)[OF assms(6)] unfolding d_def by blast
  have "repo_update env i d w = (Inr (Some r), w1)"
    using assms(5) r(1) persist_tables(1)[OF assms(6), of "se_lc env" "se_now env"] unfolding w1_def d_def
    by (simp add: repo_update_def split_beta)
  then show ?thesis
    unfolding launchSnapshotWorkflow_def Let_def i_def[symmetric] d_def[symmetric] w2_def
    using r(2) by (intro exI[of _ "res_row r"]) (simp add: request_def split: sum.split)
qed

section \<open>Deleting a snapshot\<close>

lemma find_delete_id:
  "find_snapshot j (delete_snapshots (\<lambda>e. sn_id e = i) st) = (if j = i then None else find_snapshot j st)"
proof -
  have "List.find (\<lambda>e. sn_id e = j) (filter (\<lambda>e. sn_id e \<noteq> i) rows) =
      (if j = i then None else List.find (\<lambda>e. sn_id e = j) rows)" for rows
    by (induction rows) auto
  from this[of "snapshots st"] show ?thesis
    by (simp only: find_snapshot_def delete_snapshots_def Let_def tbl_delete_def) simp
qed

lemma owned_delete_id:
  assumes "i \<in> snapshot_ids st"
  shows "outputs_of j (delete_snapshots (\<lambda>e. sn_id e = i) st) = (if j = i then [] else outputs_of j st)"
    "publications_of j (delete_snapshots (\<lambda>e. sn_id e = i) st) = (if j = i then [] else publications_of j st)"
proof -
  have "set (map sn_id (filter (\<lambda>e. sn_id e = i) (snapshots st))) = {i}"
    using assms by (auto simp: snapshot_ids_def)
  then show "outputs_of j (delete_snapshots (\<lambda>e. sn_id e = i) st) = (if j = i then [] else outputs_of j st)"
    "publications_of j (delete_snapshots (\<lambda>e. sn_id e = i) st) = (if j = i then [] else publications_of j st)"
    unfolding outputs_of_def publications_of_def delete_snapshots_def Let_def tbl_delete_def
    by (auto simp: filter_empty_conv intro: filter_cong)
qed

lemma deleteS3Objects_effects:
  assumes "\<forall>p ks. se_listObjects env p = Some ks \<longrightarrow> (\<forall>k \<in> set ks. prefix p k)"
  shows "\<exists>objs. effects (deleteS3Objects env i w) = effects w @ map DeleteObjects objs
     \<and> (\<forall>ks \<in> set objs. \<forall>k \<in> set ks. prefix (snapshot_prefix i) k)"
proof (cases "se_listObjects env (snapshot_prefix i)")
  case None
  then show ?thesis by (intro exI[of _ "[]"]) (simp add: deleteS3Objects_def)
next
  case (Some ks)
  then show ?thesis
    using assms by (intro exI[of _ "if ks = [] then [] else [ks]"]) (auto simp: deleteS3Objects_def)
qed

lemma deleteS3Objects_tables [simp]: "tables (deleteS3Objects env i w) = tables w"
  by (simp add: deleteS3Objects_def split: option.split)

section \<open>Sample environment\<close>

definition sample_api :: "temporal_error option \<Rightarrow> temporal_error + string \<Rightarrow> temporal_api" where
  "sample_api start desc = \<lparr>ta_client = True, ta_start = (\<lambda>_. start), ta_describe = (\<lambda>_. desc),
     ta_cancel = (\<lambda>_. None), ta_terminate = (\<lambda>_. None), ta_result = (\<lambda>_. None)\<rparr>"

definition sample_env :: "temporal_error option \<Rightarrow> temporal_error + string \<Rightarrow> svc_env" where
  "sample_env start desc = \<lparr>se_lc = (\<lambda>_ _. True), se_now = 1000, se_newId = ''s2'',
     se_temporal = sample_api start desc, se_commits = (\<lambda>_ _. True), se_validate = (\<lambda>_ _ _. None),
     se_listObjects = (\<lambda>p. Some [p @ ''out.csv''])\<rparr>"

definition sample_preset :: AlgorithmPresetEntity where
  "sample_preset = \<lparr>pe_id = ''p1'', pe_key = ''voting_engagement'', pe_version = ''1.0.0'', pe_name = None,
     pe_description = None, pe_createdAt = 0, pe_updatedAt = 0\<rparr>"

definition sample_world :: "SnapshotStatus \<Rightarrow> world" where
  "sample_world s = \<lparr>tables = sample_store s,
     presetTables = \<lparr>presets = [sample_preset], preset_inputs = []\<rparr>, effects = []\<rparr>"

definition sample_reconciler :: reconciler where
  "sample_reconciler = \<lparr>rc_intervalMs = 60, rc_graceMs = 120, rc_startFailedAfterMs = 600, rc_timer = True,
     rc_running = False\<rparr>"

lemmas sample_defs = sample_api_def sample_env_def sample_world_def sample_reconciler_def

section \<open>Properties\<close>

text \<open>
  C19: creating a snapshot.  The new row holds the frozen preset and the workflow id, and the id is
  committed before the workflow is started.  The row ends \<open>failed\<close>, and the request with a start error,
  exactly when the start was refused and Temporal confirms that no execution exists; after any other
  answer (started, already started, ambiguous, unreachable) it stays \<open>queued\<close>.  No other row changes.
\<close>

theorem svc_create_contract:
  assumes "preset_findById (dto_algorithmPresetId dto) (presetTables w) = Some p"
    and "se_validate env (pr_key p) (pr_version p) (pr_inputs p) = None"
    and "find_snapshot (se_newId env) (tables w) = None" "\<forall>i d. se_commits env i d"
  shows "case svc_create env dto w of (res, w') \<Rightarrow>
      (\<exists>e t. find_snapshot (se_newId env) (tables w') = Some e
         \<and> sn_status e = (if start_lost (se_temporal env) (se_newId env) then failed else queued)
         \<and> sn_frozen e = freeze_preset p
         \<and> sn_temporal e = Some t \<and> tmp_workflowId t = Some (snapshotWorkflowId (se_newId env)))
    \<and> (res = Inl SnapshotWorkflowStart \<longleftrightarrow> start_lost (se_temporal env) (se_newId env))
    \<and> (\<exists>d rest. effects w' = effects w @ RowCreated (se_newId env) # RowUpdated (se_newId env) d # rest
         \<and> up_temporal d \<noteq> None)
    \<and> (\<forall>j. j \<noteq> se_newId env \<longrightarrow> status_of j (tables w') = status_of j (tables w))"
proof -
  define i where "i = se_newId env"
  define c where "c = \<lparr>cd_status = Some queued, cd_algorithmPreset = dto_algorithmPresetId dto,
      cd_frozen = freeze_preset p, cd_temporal = dto_temporal dto, cd_outputs = dto_outputs dto\<rparr>"
  define row where "row = fst (create (se_lc env) i (se_now env) c (tables w))"
  define w0 where "w0 = emit [RowCreated i] (w\<lparr>tables := snd (create (se_lc env) i (se_now env) c (tables w))\<rparr>)"
  define d where "d = temporal_data (with_workflowId (snapshotWorkflowId i) (row_temporal row))"
  define w2 where "w2 = emit (map Requested (fst (startRunSnapshotWorkflow (se_temporal env) i)))
      (emit [RowUpdated i d] (w0\<lparr>tables := written (se_now env) i d (tables w0)\<rparr>))"
  have rid: "row_id row = i" using create_row(1)[OF assms(3)] by (simp add: row_def i_def)
  obtain e where e: "find_snapshot i (tables w0) = Some e" "sn_status e = queued" "sn_frozen e = freeze_preset p"
    using create_row(3)[OF assms(3), of "se_lc env" "se_now env" c] by (auto simp: w0_def i_def c_def)
  have start: "svc_create env dto w = launchSnapshotWorkflow env row w0"
    using assms(1,2) by (simp add: svc_create_def Let_def split_beta row_def w0_def c_def i_def)
  obtain row' where row': "row_id row' = i" "svc_create env dto w =
     (case snd (startRunSnapshotWorkflow (se_temporal env) i) of
        Inr _ \<Rightarrow> (Inr row', w2)
      | Inl err \<Rightarrow> handleStartFailure env row' (snapshotWorkflowId i) err w2)"
    using launch_cases[of env row w0 e] assms(4) e(1) unfolding start rid d_def[symmetric] w2_def by auto
  have e2: "find_snapshot i (tables w2) =
      Some (e\<lparr>sn_temporal := Some (with_workflowId (snapshotWorkflowId i) (row_temporal row)), sn_updatedAt := se_now env\<rparr>)"
    unfolding w2_def d_def using written_temporal[OF e(1)] by simp
  have st2: "status_of i (tables w2) = Some queued" using e2 e(2) by (simp add: status_of_def)
  have others: "status_of j (tables w2) = status_of j (tables w)" if "j \<noteq> i" for j
    using that by (simp add: w2_def w0_def status_of_def find_written create_other)
  have eff: "effects w2 = effects w @ RowCreated i # RowUpdated i d #
      map Requested (fst (startRunSnapshotWorkflow (se_temporal env) i))" "up_temporal d \<noteq> None"
    by (simp_all add: w2_def w0_def d_def temporal_data_def)
  show ?thesis
  proof (cases "snd (startRunSnapshotWorkflow (se_temporal env) i)")
    case (Inr wid)
    then show ?thesis
      using row'(2) e2 e(2,3) others eff by (auto simp: start_lost_def i_def[symmetric])
  next
    case (Inl err)
    let ?r = "handleStartFailure env row' (snapshotWorkflowId i) err w2"
    obtain e' where e': "find_snapshot i (tables (snd ?r)) = Some e'" "sn_frozen e' = freeze_preset p"
      "sn_temporal e' = Some (with_workflowId (snapshotWorkflowId i) (row_temporal row))"
      using handleStartFailure_keeps[OF e2, of env row' "snapshotWorkflowId i" err] e(3) by auto
    obtain rest where rest: "effects (snd ?r) = effects w2 @ rest" using handleStartFailure_effects by blast
    have "sn_status e' = (if start_lost (se_temporal env) i then failed else queued)"
      using handleStartFailure_world(1)[OF assms(4), of row' w2 i "snapshotWorkflowId i" err] st2 row'(1) e'(1) Inl
      by (simp add: status_of_def start_lost_def split: if_splits)
    then show ?thesis
      using row' e' others eff rest Inl handleStartFailure_world[OF assms(4), of row' w2] st2
      by (auto simp: start_lost_def i_def[symmetric] split_beta)
  qed
qed

theorem svc_create_contract_witness:
  "fst (svc_create (sample_env (Some \<lparr>te_name = ''Error'', te_message = ''refused''\<rparr>)
          (Inl \<lparr>te_name = ''WorkflowNotFoundError'', te_message = []\<rparr>))
        \<lparr>dto_algorithmPresetId = ''p1'', dto_temporal = None, dto_outputs = None\<rparr> (sample_world completed))
     = Inl SnapshotWorkflowStart"
proof -
  let ?env = "sample_env (Some \<lparr>te_name = ''Error'', te_message = ''refused''\<rparr>)
      (Inl \<lparr>te_name = ''WorkflowNotFoundError'', te_message = []\<rparr>)"
  let ?dto = "\<lparr>dto_algorithmPresetId = ''p1'', dto_temporal = None, dto_outputs = None\<rparr> :: CreateSnapshotDto"
  have "preset_findById (dto_algorithmPresetId ?dto) (presetTables (sample_world completed))
      = Some (mapAlgorithmPresetRow sample_preset [])"
    by (simp add: preset_findById_def find_preset_def inputs_of_def sample_world_def sample_preset_def)
  from svc_create_contract[OF this, of ?env] show ?thesis
    by (auto simp: sample_env_def sample_world_def sample_store_def sample_entity_def find_snapshot_def start_lost_def
        sample_api_def startRunSnapshotWorkflow_def describeSnapshotWorkflow_def Let_def split_beta)
qed

text \<open>
  C20: a reconciliation pass implements its specification.  When Temporal answers for every stale row,
  each of them ends with exactly the status its workflow calls for (cancelled, failed, or unchanged while
  the workflow runs or was started), and every other row keeps its status.
\<close>

theorem reconcile_converges:
  assumes "store_ok (tables w)" "\<not> rc_running rc" "\<forall>i d. se_commits env i d"
    and "\<forall>e \<in> set (snapshots (tables w)). stale env rc e \<longrightarrow>
           \<not> isl (snd (describeSnapshotWorkflow (se_temporal env) (row_workflowId (bare_row env e))))"
  shows "status_of i (tables (snd (reconcile env rc w))) =
     map_option (\<lambda>e. if stale env rc e then reconcile_target env rc (bare_row env e) else sn_status e)
       (find_snapshot i (tables w))"
proof -
  let ?st = "tables w" and ?cutoff = "se_now env - rc_graceMs rc"
  let ?rows = "findUnsettled (se_lc env) ?cutoff ?st"
  have d: "distinct (map sn_id (snapshots ?st))" using assms(1) by (simp add: store_ok_def)
  have find: "find_snapshot (sn_id e) ?st = Some e" if "e \<in> set (snapshots ?st)" for e
    using find_stored[OF d that] .
  have ids: "distinct (map row_id ?rows)"
    using d by (simp add: findUnsettled_def comp_def distinct_map_filter)
      (simp add: distinct_map inj_on_def)
  have ok: "\<forall>r \<in> set ?rows. \<not> isl (snd (describeSnapshotWorkflow (se_temporal env) (row_workflowId r)))
      \<and> status_of (row_id r) ?st = Some (row_status r) \<and> \<not> terminal (row_status r)"
    using assms(4) by (auto simp: findUnsettled_def stale_def status_of_def find terminal_iff)
  have "status_of i (tables (snd (reconcile env rc w))) =
      (case List.find (\<lambda>r. row_id r = i) ?rows of
         None \<Rightarrow> status_of i ?st | Some r \<Rightarrow> Some (reconcile_target env rc r))"
    using reconcile_rows_status[OF assms(3) ids ok] assms(2) by (simp add: reconcile_def Let_def split_beta)
  then show ?thesis
    by (auto simp: find_unsettled_row[OF d] stale_def status_of_def split: option.split)
qed

theorem reconcile_converges_witness:
  "status_of ''s1'' (tables (snd (reconcile (sample_env None (Inr ''TIMED_OUT'')) sample_reconciler (sample_world running))))
     = Some failed"
proof -
  have "store_ok (tables (sample_world running))"
    using sample_inv[of running] by (simp add: repo_inv_def sample_world_def)
  from reconcile_converges[OF this, where i = "''s1''" and rc = sample_reconciler
      and env = "sample_env None (Inr ''TIMED_OUT'')"]
  show ?thesis
    by (simp add: sample_defs sample_find stale_def sample_entity_def describeSnapshotWorkflow_def sample_store_def
        find_snapshot_def reconcile_target_def reconcile_action_def)
qed

text \<open>
  a reconciliation pass, whatever Temporal and the database answer and however far it gets, is a
  sequence of repository transactions: it keeps the tables well formed and can never change a row that a
  workflow or a request has settled.
\<close>

lemma reconcile_is_transactions:
  "snap_step\<^sup>*\<^sup>* (iss, tables w) (iss, tables (snd (reconcile env rc w)))"
  using reconcile_rows_steps[of iss w env rc "findUnsettled (se_lc env) (se_now env - rc_graceMs rc) (tables w)"]
  by (simp add: reconcile_def Let_def split_beta)

text \<open>
  deleting a snapshot.  An active workflow is terminated before the row is deleted, the row is deleted
  (with its outputs and publications, and nothing of any other snapshot) before its objects, and only
  objects under the prefix of this snapshot are deleted.
\<close>

lemma svc_deleteById_ordered:
  assumes "find_snapshot i (tables w) = Some e"
    and "\<forall>p ks. se_listObjects env p = Some ks \<longrightarrow> (\<forall>k \<in> set ks. prefix p k)"
  shows "case svc_deleteById env i w of (res, w') \<Rightarrow>
      res = Inr ()
    \<and> (\<exists>calls objs. effects w' = effects w @ map Requested calls @ RowDeleted i # map DeleteObjects objs
         \<and> calls = (if sn_status e \<in> {queued, running}
             then terminateSnapshotWorkflow (se_temporal env) (row_workflowId (bare_row env e)) True else [])
         \<and> (\<forall>ks \<in> set objs. \<forall>k \<in> set ks. prefix (snapshot_prefix i) k))
    \<and> find_snapshot i (tables w') = None \<and> outputs_of i (tables w') = [] \<and> publications_of i (tables w') = []
    \<and> (\<forall>j. j \<noteq> i \<longrightarrow> find_snapshot j (tables w') = find_snapshot j (tables w)
         \<and> outputs_of j (tables w') = outputs_of j (tables w)
         \<and> publications_of j (tables w') = publications_of j (tables w))"
proof -
  define calls where "calls = (if sn_status e \<in> {queued, running}
      then terminateSnapshotWorkflow (se_temporal env) (row_workflowId (bare_row env e)) True else [])"
  define w2 where "w2 = emit [RowDeleted i]
      ((emit (map Requested calls) w)\<lparr>tables := snd (deleteById (se_lc env) i (tables w))\<rparr>)"
  have id: "sn_id e = i" "i \<in> snapshot_ids (tables w)" using find_snapshot_in_ids[OF assms(1)] by auto
  have run: "svc_deleteById env i w = (Inr (), deleteS3Objects env i w2)"
    using assms(1) id(1)
    by (cases "sn_status e \<in> {queued, running}")
      (simp_all add: svc_deleteById_def findById_def Let_def w2_def calls_def row_workflowId_def emit_Nil
        cong del: option.case_cong_weak)
  obtain objs where "effects (deleteS3Objects env i w2) = effects w2 @ map DeleteObjects objs"
    "\<forall>ks \<in> set objs. \<forall>k \<in> set ks. prefix (snapshot_prefix i) k"
    using deleteS3Objects_effects[OF assms(2)] by blast
  then have "\<exists>objs. effects (deleteS3Objects env i w2) = effects w @ map Requested calls @ RowDeleted i # map DeleteObjects objs
      \<and> (\<forall>ks \<in> set objs. \<forall>k \<in> set ks. prefix (snapshot_prefix i) k)"
    by (intro exI[of _ objs]) (simp add: w2_def)
  moreover have "tables w2 = delete_snapshots (\<lambda>e. sn_id e = i) (tables w)"
    using assms(1) by (simp add: w2_def)
  ultimately show ?thesis
    unfolding run calls_def[symmetric] by (simp add: find_delete_id owned_delete_id[OF id(2)])
qed

theorem svc_deleteById_ordered_witness:
  "find_snapshot ''s1'' (tables (snd (svc_deleteById (sample_env None (Inr ''RUNNING'')) ''s1'' (sample_world running)))) = None"
  using svc_deleteById_ordered[of "''s1''" "sample_world running" "sample_entity running" "sample_env None (Inr ''RUNNING'')"]
  by (simp add: sample_world_def sample_find sample_env_def split_beta)

text \<open>
  deleting a preset.  Either the transaction is refused and no table changes, or the preset and every
  snapshot that references it are gone; snapshots of other presets keep their rows.  Every object then
  deleted is an upload or lies under the prefix of a snapshot of this preset.
\<close>

lemma preset_svc_deleteById_complete:
  assumes "\<forall>p ks. se_listObjects env p = Some ks \<longrightarrow> (\<forall>k \<in> set ks. prefix p k)"
  shows "case preset_svc_deleteById env i w of (res, w') \<Rightarrow>
      (if isl res then tables w' = tables w \<and> presetTables w' = presetTables w
       else snapshots (tables w') = filter (\<lambda>e. sn_algorithmPresetId e \<noteq> i) (snapshots (tables w))
          \<and> find_preset i (presetTables w') = None
          \<and> (\<exists>calls objs. effects w' = effects w @ map Requested calls @ PresetDeleted i # map DeleteObjects objs
               \<and> (\<forall>ks \<in> set objs. \<forall>k \<in> set ks. js_startsWith k UPLOADS_PREFIX
                    \<or> (\<exists>e \<in> set (snapshots (tables w)). sn_algorithmPresetId e = i \<and> prefix (snapshot_prefix (sn_id e)) k))))"
proof -
  define f where "f = \<lparr>sf_status = None, sf_algorithmPresetId = Some i, sf_frozenKey = None, sf_frozenVersion = None\<rparr>"
  define snaps where "snaps = find_rows (se_lc env) f (tables w)"
  define calls where "calls = terminateSnapshotWorkflows (se_temporal env) (map terminable snaps) True"
  define w1 where "w1 = emit (map Requested calls) w"
  have bw: "buildWhere f e \<longleftrightarrow> sn_algorithmPresetId e = i" for e by (simp add: f_def buildWhere_def)
  have keys: "\<forall>k \<in> set (preset_keysToDelete env p snaps). js_startsWith k UPLOADS_PREFIX
      \<or> (\<exists>e \<in> set (snapshots (tables w)). sn_algorithmPresetId e = i \<and> prefix (snapshot_prefix (sn_id e)) k)" for p
  proof
    fix k
    assume "k \<in> set (preset_keysToDelete env p snaps)"
    then consider "k \<in> set (collectUploadKeys (pr_inputs p @ concat (map (\<lambda>s. fz_inputs (row_frozen s)) snaps)))"
      | s ks where "s \<in> set snaps" "se_listObjects env (snapshot_prefix (row_id s)) = Some ks" "k \<in> set ks"
      by (auto simp: preset_keysToDelete_def split: option.splits) metis
    then show "js_startsWith k UPLOADS_PREFIX
      \<or> (\<exists>e \<in> set (snapshots (tables w)). sn_algorithmPresetId e = i \<and> prefix (snapshot_prefix (sn_id e)) k)"
    proof cases
      case 1
      then show ?thesis by (simp add: collectUploadKeys_upload)
    next
      case 2
      then obtain e where "e \<in> set (snapshots (tables w))" "sn_algorithmPresetId e = i" "row_id s = sn_id e"
        by (auto simp: snaps_def find_rows_def bw)
      then show ?thesis using assms 2(2,3) by metis
    qed
  qed
  define st where "st = (if 0 < length snaps then snd (deleteMany f (tables w)) else tables w)"
  have st: "snapshots st = filter (\<lambda>e. sn_algorithmPresetId e \<noteq> i) (snapshots (tables w))"
    by (auto simp: st_def delete_snapshots_def Let_def tbl_delete_def bw snaps_def find_rows_def filter_empty_conv
          intro!: filter_True[symmetric] filter_cong)
  have no: "\<not> list_ex (\<lambda>e. sn_algorithmPresetId e = i) (snapshots st)" by (auto simp: st list_ex_iff)
  show ?thesis
  proof (cases "preset_findById i (presetTables w)")
    case None
    then show ?thesis by (simp add: preset_svc_deleteById_def)
  next
    case (Some p)
    then obtain en where en: "find_preset i (presetTables w) = Some en" by (auto simp: preset_findById_def)
    define t where "t = (presetTables w)\<lparr>presets := tbl_delete (\<lambda>e. pe_id e = i) (presets (presetTables w)),
        preset_inputs := tbl_delete (\<lambda>r. pi_presetId r = i) (preset_inputs (presetTables w))\<rparr>"
    define w2 where "w2 = emit [PresetDeleted i] (w1\<lparr>tables := st, presetTables := t\<rparr>)"
    define ks where "ks = preset_keysToDelete env p snaps"
    have gone: "find_preset i t = None"
      by (auto simp: t_def find_preset_def tbl_delete_def find_None_iff)
    have "deletePresetWithSnapshots i (length snaps) w1 = (Inr (), w2)"
      unfolding deletePresetWithSnapshots_def Let_def f_def[symmetric] w1_def emit_simps st_def[symmetric] w2_def
      using en no by (simp add: preset_deleteById_def t_def)
    then have run: "preset_svc_deleteById env i w = (Inr (), preset_deleteS3Objects env p snaps w2)"
      using Some
      by (simp add: preset_svc_deleteById_def Let_def f_def[symmetric] snaps_def[symmetric] calls_def[symmetric]
          w1_def[symmetric])
    have objs: "effects (preset_deleteS3Objects env p snaps w2) =
        effects w @ map Requested calls @ PresetDeleted i # map DeleteObjects (if ks = [] then [] else [ks])"
      by (simp add: preset_deleteS3Objects_def Let_def ks_def[symmetric] w2_def w1_def)
    have same: "tables (preset_deleteS3Objects env p snaps w2) = st" "presetTables (preset_deleteS3Objects env p snaps w2) = t"
      by (simp_all add: preset_deleteS3Objects_def Let_def w2_def)
    have "\<forall>ks' \<in> set (if ks = [] then [] else [ks]). \<forall>k \<in> set ks'. js_startsWith k UPLOADS_PREFIX
        \<or> (\<exists>e \<in> set (snapshots (tables w)). sn_algorithmPresetId e = i \<and> prefix (snapshot_prefix (sn_id e)) k)"
      using keys[of p] by (simp add: ks_def)
    with objs show ?thesis unfolding run prod.case same by (simp only: sum.disc if_False st gone simp_thms) blast
  qed
qed

theorem preset_svc_deleteById_complete_witness:
  "snapshots (tables (snd (preset_svc_deleteById (sample_env None (Inr ''RUNNING'')) ''p1'' (sample_world running)))) = []"
proof -
  have "\<not> isl (fst (preset_svc_deleteById (sample_env None (Inr ''RUNNING'')) ''p1'' (sample_world running)))"
    by (simp add: preset_svc_deleteById_def Let_def preset_findById_def find_preset_def sample_world_def sample_preset_def
        deletePresetWithSnapshots_def preset_deleteById_def find_rows_def buildWhere_def sample_store_def
        sample_entity_def delete_snapshots_def tbl_delete_def deleteMany_def)
  then show ?thesis
    using preset_svc_deleteById_complete[of "sample_env None (Inr ''RUNNING'')" "sample_world running" "''p1''"]
    by (simp add: split_beta) (simp add: sample_env_def sample_world_def sample_store_def sample_entity_def)
qed

end
