(* ===== verification/Orchestrator_Inputs.thy ===== *)
theory Orchestrator_Inputs
  imports Snapshot_Service
begin

text \<open>
  The pure input handling of the orchestrator workflow: the task queue of a runtime and the child presets
  of a combined algorithm (\<^verbatim>\<open>shared/utils/orchestrator-input.utils.ts\<close>), the on-chain sync targets
  (\<^verbatim>\<open>shared/utils/sync-targets.utils.ts\<close>), the community fetch input (\<^verbatim>\<open>shared/utils/community-fetch.utils.ts\<close>),
  the children of a custom score (\<^verbatim>\<open>shared/utils/custom-score.utils.ts\<close>) and the helpers of
  \<^verbatim>\<open>workflows/orchestrator.workflow.ts\<close> that collect dependencies, all under \<^verbatim>\<open>apps/workflows/src\<close>.
  A thrown \<^verbatim>\<open>Error\<close> is \<^const>\<open>Inl\<close> of its message, cut down to its constant part where it quotes a value.
\<close>

section \<open>Data\<close>

record ResourceCatalogResource =
  rr_key :: string
  rr_kind :: string
  rr_identifier :: string
  rr_tokenIdentifier :: string
  rr_parentResourceKey :: "string option"

record ResourceCatalogChain =
  rch_key :: string
  rch_resources :: "ResourceCatalogResource list"

record DefinitionInput =
  di_key :: string
  di_type :: "string option"
  di_sharedInputKeys :: "string list option"
  di_resourceCatalog :: "ResourceCatalogChain list option"

record OrchestratorAlgorithmDefinition =
  ad_key :: string
  ad_version :: string
  ad_runtime :: string
  ad_kind :: "string option"
  ad_inputs :: "DefinitionInput list option"
  ad_dependencies :: "string list option"

record CombinedChildAlgorithmPreset =
  ch_key :: string
  ch_version :: string
  ch_inputs :: "AlgorithmPresetInput list"

record SyncTarget =
  st_chain :: string
  st_identifier :: string

text \<open>The fields of a preset the helpers read; \<^verbatim>\<open>key\<close> is optional for the community fetch.\<close>

definition input_value :: "string \<Rightarrow> AlgorithmPresetInput list \<Rightarrow> json" where
  "input_value k inputs = (case List.find (\<lambda>p. fst p = k) inputs of None \<Rightarrow> JUndefined | Some p \<Rightarrow> snd p)"

definition or_empty :: "'a list option \<Rightarrow> 'a list" where
  "or_empty xs = (case xs of None \<Rightarrow> [] | Some ys \<Rightarrow> ys)"

section \<open>Runtimes and child presets\<close>

definition getAlgorithmTaskQueueFromRuntime :: "string \<Rightarrow> string + string" where
  "getAlgorithmTaskQueueFromRuntime runtime =
     (if runtime = ''typescript'' then Inr ''algorithm-typescript-worker''
      else if runtime = ''python'' then Inr ''algorithm-python-worker''
      else Inl (''Unsupported algorithm runtime: '' @ runtime))"

definition isPresetInputLike :: "json \<Rightarrow> bool" where
  "isPresetInputLike v \<longleftrightarrow> isRecord v \<and> is_jstr (jfield ''key'' v)"

definition isSubAlgorithmEntryLike :: "json \<Rightarrow> bool" where
  "isSubAlgorithmEntryLike v \<longleftrightarrow>
     isRecord v
   \<and> is_jstr (jfield ''algorithm_key'' v)
   \<and> is_jstr (jfield ''algorithm_version'' v)
   \<and> (case jfield ''weight'' v of JNum _ \<Rightarrow> True | _ \<Rightarrow> False)
   \<and> (case jfield ''inputs'' v of JArr vs \<Rightarrow> list_all isPresetInputLike vs | _ \<Rightarrow> False)"

definition entry_inputs :: "json \<Rightarrow> AlgorithmPresetInput list" where
  "entry_inputs v =
     (case jfield ''inputs'' v of
        JArr vs \<Rightarrow> map (\<lambda>i. (jstr (jfield ''key'' i), jfield ''value'' i)) vs
      | _ \<Rightarrow> [])"

definition child_presets_of ::
  "AlgorithmPresetInput list \<Rightarrow> DefinitionInput \<Rightarrow> CombinedChildAlgorithmPreset list" where
  "child_presets_of inputs d =
     (if di_type d \<noteq> Some ''sub_algorithm'' then []
      else
        (let sharedInputKeys = or_empty (di_sharedInputKeys d);
             sharedInputs = filter (\<lambda>p. fst p \<in> set sharedInputKeys) inputs
         in case input_value (di_key d) inputs of
              JArr rawEntries \<Rightarrow>
                map (\<lambda>e. \<lparr>ch_key = jstr (jfield ''algorithm_key'' e),
                          ch_version = jstr (jfield ''algorithm_version'' e),
                          ch_inputs = filter (\<lambda>p. fst p \<notin> set sharedInputKeys) (entry_inputs e) @ sharedInputs\<rparr>)
                  (filter isSubAlgorithmEntryLike rawEntries)
            | _ \<Rightarrow> []))"

definition buildCombinedChildAlgorithmPresets ::
  "AlgorithmPresetInput list \<Rightarrow> OrchestratorAlgorithmDefinition \<Rightarrow> CombinedChildAlgorithmPreset list" where
  "buildCombinedChildAlgorithmPresets inputs definition' =
     concat (map (child_presets_of inputs) (or_empty (ad_inputs definition')))"

section \<open>On-chain sync targets\<close>

definition js_falsy :: "json \<Rightarrow> bool" where
  "js_falsy v \<longleftrightarrow> v \<in> {JUndefined, JNull, JBool False, JStr [], JNum (Fin 0), JNum NaN}"

definition dedupe_key :: "SyncTarget \<Rightarrow> string" where
  "dedupe_key t = st_chain t @ '':'' @ js_lower (st_identifier t)"

definition add_target :: "SyncTarget \<Rightarrow> SyncTarget list \<Rightarrow> SyncTarget list" where
  "add_target t targets = (if dedupe_key t \<in> dedupe_key ` set targets then targets else targets @ [t])"

text \<open>
  The targets one selected resource names, in catalog order.  A field read on \<^verbatim>\<open>null\<close> or \<^verbatim>\<open>undefined\<close>
  throws.
\<close>

definition selected_targets :: "ResourceCatalogChain list \<Rightarrow> json \<Rightarrow> SyncTarget list" where
  "selected_targets catalog sel =
     concat (map (\<lambda>chain.
       if jfield ''chain'' sel \<noteq> JStr (rch_key chain) then []
       else map (\<lambda>r. \<lparr>st_chain = rch_key chain, st_identifier = rr_tokenIdentifier r\<rparr>)
              (filter (\<lambda>r. jfield ''resource_key'' sel = JStr (rr_key r)) (rch_resources chain))) catalog)"

fun collect_selected ::
  "ResourceCatalogChain list \<Rightarrow> json list \<Rightarrow> SyncTarget list \<Rightarrow> string + SyncTarget list" where
  "collect_selected catalog [] targets = Inr targets"
| "collect_selected catalog (sel # sels) targets =
     (if sel \<in> {JNull, JUndefined} \<and> catalog \<noteq> [] then Inl ''TypeError''
      else collect_selected catalog sels (fold add_target (selected_targets catalog sel) targets))"

definition extractOnchainSyncTargets ::
  "AlgorithmPresetInput list \<Rightarrow> OrchestratorAlgorithmDefinition \<Rightarrow> string + SyncTarget list" where
  "extractOnchainSyncTargets inputs definition' =
     (let selectedResourcesRaw = input_value ''selected_resources'' inputs
      in if js_falsy selectedResourcesRaw \<or> selectedResourcesRaw = JArr [] then Inr []
         else
           (case List.find (\<lambda>i. di_key i = ''selected_resources'') (or_empty (ad_inputs definition')) of
              None \<Rightarrow> Inr []
            | Some resourcesInput \<Rightarrow>
                (case di_resourceCatalog resourcesInput of
                   None \<Rightarrow> Inr []
                 | Some catalog \<Rightarrow>
                     (case selectedResourcesRaw of
                        JArr sels \<Rightarrow> collect_selected catalog sels []
                      | JStr _ \<Rightarrow> Inr []
                      | _ \<Rightarrow> Inl ''TypeError''))))"

section \<open>Community fetch input\<close>

definition DAY_MS :: int where
  "DAY_MS = 86400000"

definition MAX_COMMUNITY_LOOKBACK_DAYS :: int where
  "MAX_COMMUNITY_LOOKBACK_DAYS = 183"

record CommunityFetchInput =
  cf_connectionId :: string
  cf_communityId :: string
  cf_resourceIds :: "string list"
  cf_windowStart :: int
  cf_windowEnd :: int
  cf_credentialsCiphertext :: "string option"

text \<open>The validated number of days, a small integer.\<close>

fun lookback_days :: "json \<Rightarrow> int option" where
  "lookback_days (JNum (Fin x)) =
     (if of_int \<lfloor>x\<rfloor> = x \<and> 1 \<le> x \<and> x \<le> of_int MAX_COMMUNITY_LOOKBACK_DAYS then Some \<lfloor>x\<rfloor> else None)"
| "lookback_days _ = None"

fun resource_ids :: "json \<Rightarrow> string list option" where
  "resource_ids (JArr vs) = (if list_all is_jstr vs then Some (map jstr vs) else None)"
| "resource_ids _ = None"

text \<open>The result has the fields of the fetch input except the community id, which is left empty.\<close>

definition extractCommunityFetchInput :: "AlgorithmPresetInput list \<Rightarrow> int \<Rightarrow> string + CommunityFetchInput" where
  "extractCommunityFetchInput inputs windowEnd =
     (case input_value ''community_connection_id'' inputs of
        JStr c \<Rightarrow>
          if js_trim c = [] then Inl ''needs a non-empty community_connection_id input''
          else
            (case lookback_days (input_value ''lookback_days'' inputs) of
               None \<Rightarrow> Inl ''needs a lookback_days input''
             | Some days \<Rightarrow>
                 (case resource_ids (input_value ''resources'' inputs) of
                    None \<Rightarrow> Inl ''needs a non-empty resources input''
                  | Some rids \<Rightarrow>
                      if rids = [] then Inl ''needs a non-empty resources input''
                      else Inr \<lparr>cf_connectionId = js_trim c, cf_communityId = [], cf_resourceIds = js_dedup rids,
                                cf_windowStart = windowEnd - days * DAY_MS, cf_windowEnd = windowEnd,
                                cf_credentialsCiphertext = None\<rparr>))
      | _ \<Rightarrow> Inl ''needs a non-empty community_connection_id input'')"

section \<open>Children of a custom score\<close>

record CustomScoreChild =
  cs_key :: string
  cs_version :: string
  cs_weight :: jsnum
  cs_inputs :: "AlgorithmPresetInput list"

definition blank_string :: "json \<Rightarrow> bool" where
  "blank_string v \<longleftrightarrow> \<not> is_jstr v \<or> js_trim (jstr v) = []"

definition parseChildEntry :: "json \<Rightarrow> string + CustomScoreChild" where
  "parseChildEntry v =
     (if \<not> isRecord v then Inl ''Invalid sub-algorithm entry''
      else if blank_string (jfield ''algorithm_key'' v) then Inl ''Missing required algorithm_key''
      else if blank_string (jfield ''algorithm_version'' v) then Inl ''Missing required algorithm_version''
      else
        (case jfield ''weight'' v of
           JNum weight \<Rightarrow>
             if \<not> jis_finite weight \<or> jle weight (Fin 0) then Inl ''Invalid weight''
             else
               (case jfield ''inputs'' v of
                  JArr vs \<Rightarrow>
                    if list_all isPresetInputLike vs
                    then Inr \<lparr>cs_key = jstr (jfield ''algorithm_key'' v), cs_version = jstr (jfield ''algorithm_version'' v),
                              cs_weight = weight, cs_inputs = entry_inputs v\<rparr>
                    else Inl ''Invalid inputs''
                | _ \<Rightarrow> Inl ''Invalid inputs'')
         | _ \<Rightarrow> Inl ''Invalid weight''))"

fun parse_entries :: "json list \<Rightarrow> string + CustomScoreChild list" where
  "parse_entries [] = Inr []"
| "parse_entries (v # vs) =
     (case parseChildEntry v of
        Inl err \<Rightarrow> Inl err
      | Inr c \<Rightarrow> (case parse_entries vs of Inl err \<Rightarrow> Inl err | Inr cs \<Rightarrow> Inr (c # cs)))"

definition total_weight :: "CustomScoreChild list \<Rightarrow> jsnum" where
  "total_weight children = foldl (\<lambda>sum child. jadd sum (cs_weight child)) (Fin 0) children"

definition parseCustomScoreChildren :: "AlgorithmPresetInput list \<Rightarrow> string + CustomScoreChild list" where
  "parseCustomScoreChildren inputs =
     (case input_value ''sub_algorithms'' inputs of
        JArr raw \<Rightarrow>
          if raw = [] then Inl ''Missing required sub_algorithms input''
          else
            (case parse_entries raw of
               Inl err \<Rightarrow> Inl err
             | Inr children \<Rightarrow>
                 if \<not> distinct (map cs_key children) then Inl ''Duplicate sub-algorithm''
                 else if \<not> jis_finite (total_weight children) then Inl ''Invalid sub_algorithms weights''
                 else Inr children)
      | _ \<Rightarrow> Inl ''Missing required sub_algorithms input'')"

section \<open>Dependencies\<close>

record DependencySource =
  ds_definition :: OrchestratorAlgorithmDefinition
  ds_inputs :: "AlgorithmPresetInput list"

definition collectDependencyKeys :: "DependencySource list \<Rightarrow> string list" where
  "collectDependencyKeys sources =
     js_dedup (concat (map (\<lambda>s. or_empty (ad_dependencies (ds_definition s))) sources))"

fun findDependencyPreset :: "DependencySource list \<Rightarrow> string \<Rightarrow> AlgorithmPresetInput list option" where
  "findDependencyPreset sources dependencyKey =
     (case List.find (\<lambda>s. dependencyKey \<in> set (or_empty (ad_dependencies (ds_definition s)))) sources of
        Some s \<Rightarrow> Some (ds_inputs s)
      | None \<Rightarrow> (case sources of [] \<Rightarrow> None | s # _ \<Rightarrow> Some (ds_inputs s)))"

fun collect_onchain :: "DependencySource list \<Rightarrow> SyncTarget list \<Rightarrow> string + SyncTarget list" where
  "collect_onchain [] targets = Inr targets"
| "collect_onchain (s # ss) targets =
     (if ''onchain-data'' \<notin> set (or_empty (ad_dependencies (ds_definition s))) then collect_onchain ss targets
      else
        (case extractOnchainSyncTargets (ds_inputs s) (ds_definition s) of
           Inl err \<Rightarrow> Inl err
         | Inr ts \<Rightarrow> collect_onchain ss (fold add_target ts targets)))"

definition collectOnchainSyncTargets :: "DependencySource list \<Rightarrow> string + SyncTarget list" where
  "collectOnchainSyncTargets sources = collect_onchain sources []"

text \<open>A dependency result is the key of the DID map it assembled, if any; an empty key is falsy.\<close>

definition pickGeneratedDidsKey :: "string option list \<Rightarrow> string option" where
  "pickGeneratedDidsKey results =
     (case List.find (\<lambda>r. r \<noteq> None \<and> r \<noteq> Some []) results of None \<Rightarrow> None | Some r \<Rightarrow> r)"

fun override_input :: "string \<Rightarrow> json \<Rightarrow> AlgorithmPresetInput list \<Rightarrow> AlgorithmPresetInput list" where
  "override_input k v [] = [(k, v)]"
| "override_input k v (p # ps) = (if fst p = k then (k, v) # ps else p # override_input k v ps)"

definition applyDidsOverride :: "string \<Rightarrow> AlgorithmPresetInput list \<Rightarrow> AlgorithmPresetInput list" where
  "applyDidsOverride didsKey inputs = override_input ''dids'' (JStr didsKey) inputs"

definition COMMUNITY_DEPENDENCY_KEYS :: "string list" where
  "COMMUNITY_DEPENDENCY_KEYS = [''discord-activity'', ''github-activity'', ''mattermost-activity'']"

definition isCommunityDependencyKey :: "string \<Rightarrow> bool" where
  "isCommunityDependencyKey key \<longleftrightarrow> key \<in> set COMMUNITY_DEPENDENCY_KEYS"

definition COMMUNITY_PLATFORM_BY_DEPENDENCY_KEY :: "string \<Rightarrow> string option" where
  "COMMUNITY_PLATFORM_BY_DEPENDENCY_KEY key =
     map_of [(''discord-activity'', ''discord''), (''github-activity'', ''github''),
             (''mattermost-activity'', ''mattermost'')] key"

section \<open>Sync targets are deduplicated and complete\<close>

definition keys_distinct :: "SyncTarget list \<Rightarrow> bool" where
  "keys_distinct ts \<longleftrightarrow> distinct (map dedupe_key ts)"

lemma add_target_distinct: "keys_distinct ts \<Longrightarrow> keys_distinct (add_target t ts)"
  by (auto simp: keys_distinct_def add_target_def)

lemma fold_add_target_distinct: "keys_distinct ts \<Longrightarrow> keys_distinct (fold add_target us ts)"
  by (induction us arbitrary: ts) (auto intro: add_target_distinct)

lemma add_target_keys: "dedupe_key ` set (add_target t ts) = insert (dedupe_key t) (dedupe_key ` set ts)"
  by (auto simp: add_target_def)

lemma fold_add_target_keys:
  "dedupe_key ` set (fold add_target us ts) = dedupe_key ` set us \<union> dedupe_key ` set ts"
  by (induction us arbitrary: ts) (auto simp: add_target_keys)

lemma fold_add_target_subset: "set (fold add_target us ts) \<subseteq> set us \<union> set ts"
  by (induction us arbitrary: ts) (fastforce simp: add_target_def split: if_splits)+

lemma collect_selected_result:
  "collect_selected catalog sels ts = Inr res \<Longrightarrow>
     (keys_distinct ts \<longrightarrow> keys_distinct res)
   \<and> dedupe_key ` set res = dedupe_key ` (\<Union>sel \<in> set sels. set (selected_targets catalog sel)) \<union> dedupe_key ` set ts"
  by (induction sels arbitrary: ts)
    (auto simp: fold_add_target_distinct fold_add_target_keys image_Un split: if_splits)

lemma extractOnchainSyncTargets_distinct:
  "extractOnchainSyncTargets inputs d = Inr res \<Longrightarrow> keys_distinct res"
  by (auto simp: extractOnchainSyncTargets_def Let_def keys_distinct_def[of "[]"]
        split: if_splits option.splits json.splits dest!: collect_selected_result)

lemma collect_onchain_result:
  "collect_onchain ss ts = Inr res \<Longrightarrow>
     (keys_distinct ts \<longrightarrow> keys_distinct res)
   \<and> (\<forall>s us. s \<in> set ss \<longrightarrow> ''onchain-data'' \<in> set (or_empty (ad_dependencies (ds_definition s))) \<longrightarrow>
        extractOnchainSyncTargets (ds_inputs s) (ds_definition s) = Inr us \<longrightarrow>
        dedupe_key ` set us \<subseteq> dedupe_key ` set res)
   \<and> dedupe_key ` set ts \<subseteq> dedupe_key ` set res"
proof (induction ss arbitrary: ts)
  case (Cons s ss)
  show ?case
  proof (cases "''onchain-data'' \<in> set (or_empty (ad_dependencies (ds_definition s)))")
    case True
    then obtain us where us: "extractOnchainSyncTargets (ds_inputs s) (ds_definition s) = Inr us"
      "collect_onchain ss (fold add_target us ts) = Inr res"
      using Cons.prems by (auto split: sum.splits)
    from Cons.IH[OF us(2)] show ?thesis
      using us(1) by (auto simp: fold_add_target_keys fold_add_target_distinct)
  next
    case False
    then show ?thesis using Cons.prems Cons.IH[of ts] by auto
  qed
qed simp

section \<open>Properties\<close>

text \<open>
  the on-chain sync targets of a (combined) run hold each chain and token once, and every target that
  some source with an on-chain dependency asks for is among them.
\<close>

lemma collectOnchainSyncTargets_complete:
  assumes "collectOnchainSyncTargets sources = Inr targets"
  shows "distinct (map dedupe_key targets)
    \<and> (\<forall>s us. s \<in> set sources \<longrightarrow> ''onchain-data'' \<in> set (or_empty (ad_dependencies (ds_definition s))) \<longrightarrow>
         extractOnchainSyncTargets (ds_inputs s) (ds_definition s) = Inr us \<longrightarrow>
         dedupe_key ` set us \<subseteq> dedupe_key ` set targets)"
  using collect_onchain_result[of sources "[]" targets] assms
  by (simp add: collectOnchainSyncTargets_def keys_distinct_def)

definition sample_catalog_definition :: OrchestratorAlgorithmDefinition where
  "sample_catalog_definition = \<lparr>ad_key = ''token_value'', ad_version = ''1.0.0'', ad_runtime = ''typescript'', ad_kind = None,
     ad_inputs = Some [\<lparr>di_key = ''selected_resources'', di_type = None, di_sharedInputKeys = None,
       di_resourceCatalog = Some [\<lparr>rch_key = ''ethereum'', rch_resources =
         [\<lparr>rr_key = ''fet'', rr_kind = ''token'', rr_identifier = ''0xA'', rr_tokenIdentifier = ''0xA'', rr_parentResourceKey = None\<rparr>]\<rparr>]\<rparr>],
     ad_dependencies = Some [''onchain-data'']\<rparr>"

theorem collectOnchainSyncTargets_complete_witness:
  "\<exists>targets. collectOnchainSyncTargets [\<lparr>ds_definition = sample_catalog_definition,
       ds_inputs = [(''selected_resources'', JArr [JObj [(''chain'', JStr ''ethereum''), (''resource_key'', JStr ''fet'')]])]\<rparr>]
     = Inr targets \<and> distinct (map dedupe_key targets) \<and> targets \<noteq> []"
proof -
  let ?s = "\<lparr>ds_definition = sample_catalog_definition,
       ds_inputs = [(''selected_resources'', JArr [JObj [(''chain'', JStr ''ethereum''), (''resource_key'', JStr ''fet'')]])]\<rparr>"
  have "collectOnchainSyncTargets [?s] = Inr [\<lparr>st_chain = ''ethereum'', st_identifier = ''0xA''\<rparr>]"
    by (simp add: collectOnchainSyncTargets_def sample_catalog_definition_def or_empty_def extractOnchainSyncTargets_def
        input_value_def js_falsy_def selected_targets_def add_target_def)
  from collectOnchainSyncTargets_complete[OF this] this show ?thesis by blast
qed

lemma parse_entries_weights:
  "parse_entries vs = Inr cs \<Longrightarrow> length cs = length vs \<and> (\<forall>c \<in> set cs. jis_finite (cs_weight c) \<and> jless (Fin 0) (cs_weight c))"
proof (induction vs arbitrary: cs)
  case (Cons v vs)
  have "jis_finite (cs_weight c) \<and> jless (Fin 0) (cs_weight c)" if "parseChildEntry v = Inr c" for c
  proof -
    have "jis_finite (cs_weight c) \<and> \<not> jle (cs_weight c) (Fin 0)"
      using that by (auto simp: parseChildEntry_def split: if_splits json.splits)
    then show ?thesis by (cases "cs_weight c") (auto simp: jis_finite_def jle_def jeq_def)
  qed
  then show ?case using Cons by (auto split: sum.splits)
qed simp

text \<open>
  the children of a custom score that pass validation: there is at least one, their keys are distinct,
  every weight is finite and positive, and the total weight is finite, so the weighted mean is defined.
\<close>

lemma parseCustomScoreChildren_valid:
  assumes "parseCustomScoreChildren inputs = Inr children"
  shows "children \<noteq> [] \<and> distinct (map cs_key children) \<and> jis_finite (total_weight children)
    \<and> (\<forall>c \<in> set children. jis_finite (cs_weight c) \<and> jless (Fin 0) (cs_weight c))"
  using assms parse_entries_weights
  by (fastforce simp: parseCustomScoreChildren_def split: json.splits if_splits sum.splits)

theorem parseCustomScoreChildren_valid_witness:
  "\<exists>children. parseCustomScoreChildren [(''sub_algorithms'', JArr [JObj [(''algorithm_key'', JStr ''a''),
       (''algorithm_version'', JStr ''1''), (''weight'', JNum (Fin 1)), (''inputs'', JArr [])]])] = Inr children
     \<and> distinct (map cs_key children)"
proof -
  let ?in = "[(''sub_algorithms'', JArr [JObj [(''algorithm_key'', JStr ''a''),
       (''algorithm_version'', JStr ''1''), (''weight'', JNum (Fin 1)), (''inputs'', JArr [])]])]"
  have "jis_finite (to_double (0 + 1))"
    using round53_of_int[of 1] by (simp add: to_double_def jis_finite_def Let_def)
  then obtain cs where "parseCustomScoreChildren ?in = Inr cs"
    by (simp add: parseCustomScoreChildren_def input_value_def parseChildEntry_def blank_string_def js_trim_def
        js_is_space_def jis_finite_def jle_def jeq_def total_weight_def)
  from parseCustomScoreChildren_valid[OF this] this show ?thesis by blast
qed

end
