(* ===== verification/Workflow_Monad.thy ===== *)
theory Workflow_Monad
  imports Orchestrator_Inputs
begin

text \<open>
  The effects of workflow code: a workflow computation reads and writes the outside world through
  activities and timers, may throw, and may still be running when the allowance of loop iterations is
  used up (\<open>Diverge\<close>).  \<open>'w\<close> is the outside world (the database, DeepID, the platforms, the clock);
  the activities are the fields of \<open>wf_env\<close>, arguments of every computation.  The state also
  carries the history of calls with their replies, which is what the properties are about, and the
  mutable \<open>SnapshotRunState\<close>.
\<close>

section \<open>Errors\<close>

text \<open>
  Kinds of exceptions the code tells apart, and the \<^verbatim>\<open>cause\<close> chain.  An \<open>OtherTemporalFailure\<close> is any
  other subclass of \<^verbatim>\<open>TemporalFailure\<close>, a \<open>JsError\<close> an error that is not a \<^verbatim>\<open>TemporalFailure\<close>.
\<close>

datatype error_kind = AppFailure string | OtherTemporalFailure | JsError

datatype wf_error = WfError (we_kind: error_kind) (we_message: string) (we_cause: "wf_error option")

datatype 'a wf_result = Done 'a | Throw wf_error | Diverge

section \<open>Calls\<close>

record ResolveDependencyInput =
  rd_dependencyKey :: string
  rd_snapshotId :: string
  rd_syncTargets :: "SyncTarget list option"
  rd_communityFetch :: "CommunityFetchInput option"

record ChildObservation =
  ob_scoreType :: string
  ob_min :: jsnum
  ob_max :: jsnum

record SubmitCustomRawScoresInput =
  sr_snapshotId :: string
  sr_frozen :: AlgorithmPresetFrozen
  sr_outputs :: SnapshotOutputs
  sr_timestamp :: int

record SubmitCustomEncryptedScoresInput =
  sx_snapshotId :: string
  sx_frozen :: AlgorithmPresetFrozen
  sx_observations :: "ChildObservation list"
  sx_timestamp :: int

datatype encrypted_outcome = submitted | pending_encryption

record EncryptionReadinessCounts =
  ec_complete :: nat
  ec_potentiallyComplete :: nat
  ec_incomplete :: nat

record CheckEncryptionReadinessResult =
  cr_ready :: bool
  cr_counts :: EncryptionReadinessCounts
  cr_lastRequestId :: "string option"

record PostSnapshotScoresResult =
  ps_attempted :: bool
  ps_counts :: SnapshotPublicationCounts

record CommunityConnectionDto =
  cn_id :: string
  cn_platform :: string
  cn_externalId :: string
  cn_name :: string

datatype wf_call =
    GetSnapshot string
  | UpdateSnapshot UpdateSnapshotInput
  | RecordPublication RecordSnapshotPublicationInput
  | GetDefinition string string
  | GetConnection string
  | GetSealedCredential string
  | CheckConnectionHealth string
  | ResolveDependency string ResolveDependencyInput
  | RunAlgorithm SnapshotDto
  | SubmitRawScores SubmitCustomRawScoresInput
  | CheckReadiness string AlgorithmPresetFrozen
  | SubmitEncryptedScores SubmitCustomEncryptedScoresInput
  | PostScores SnapshotDto int
  | Sleep int

text \<open>How a call ended; a pending encrypted pass is told apart from an accepted one.\<close>

datatype reply = Ok | Pending | Failed

type_synonym history = "(wf_call \<times> reply) list"

record SnapshotRunState =
  sr_algorithmTaskQueue :: "string option"
  sr_algorithmKind :: "string option"

record 'w wf_state =
  ws_history :: history
  ws_run :: SnapshotRunState
  ws_world :: 'w

type_synonym ('w, 'a) activity = "'w \<Rightarrow> (wf_error + 'a) \<times> 'w"

type_synonym ('w, 'a) wf = "'w wf_state \<Rightarrow> 'a wf_result \<times> 'w wf_state"

record 'w wf_env =
  we_workflowId :: string
  we_runId :: string
  we_taskQueue :: string
  we_startTime :: int
  we_now :: "'w \<Rightarrow> int"
  we_sleep :: "int \<Rightarrow> ('w, unit) activity"
  we_isCancellation :: "wf_error \<Rightarrow> bool"
  we_fromError :: "wf_error \<Rightarrow> wf_error"
  we_race :: "wf_error list \<Rightarrow> nat"
  we_getSnapshot :: "string \<Rightarrow> ('w, SnapshotDto) activity"
  we_updateSnapshot :: "UpdateSnapshotInput \<Rightarrow> ('w, unit) activity"
  we_recordPublication :: "RecordSnapshotPublicationInput \<Rightarrow> ('w, unit) activity"
  we_getDefinition :: "string \<Rightarrow> string \<Rightarrow> ('w, OrchestratorAlgorithmDefinition) activity"
  we_getConnection :: "string \<Rightarrow> ('w, CommunityConnectionDto) activity"
  we_getSealedCredential :: "string \<Rightarrow> ('w, string) activity"
  we_checkHealth :: "string \<Rightarrow> ('w, string) activity"
  we_resolve :: "string \<Rightarrow> ResolveDependencyInput \<Rightarrow> ('w, string option) activity"
  we_runAlgorithm :: "SnapshotDto \<Rightarrow> ('w, SnapshotOutputs) activity"
  we_submitRaw :: "SubmitCustomRawScoresInput \<Rightarrow> ('w, ChildObservation list) activity"
  we_checkReadiness :: "string \<Rightarrow> AlgorithmPresetFrozen \<Rightarrow> ('w, CheckEncryptionReadinessResult) activity"
  we_submitEncrypted :: "SubmitCustomEncryptedScoresInput \<Rightarrow> ('w, encrypted_outcome) activity"
  we_postScores :: "SnapshotDto \<Rightarrow> int \<Rightarrow> ('w, PostSnapshotScoresResult) activity"

section \<open>Combinators\<close>

definition ret :: "'a \<Rightarrow> ('w, 'a) wf" where
  "ret x s = (Done x, s)"

definition throw :: "wf_error \<Rightarrow> ('w, 'a) wf" where
  "throw e s = (Throw e, s)"

definition diverge :: "('w, 'a) wf" where
  "diverge s = (Diverge, s)"

definition wbind :: "('w, 'a) wf \<Rightarrow> ('a \<Rightarrow> ('w, 'b) wf) \<Rightarrow> ('w, 'b) wf" where
  "wbind m f s =
     (case m s of
        (Done x, s') \<Rightarrow> f x s'
      | (Throw e, s') \<Rightarrow> (Throw e, s')
      | (Diverge, s') \<Rightarrow> (Diverge, s'))"

text \<open>\<^verbatim>\<open>try { m } catch (e) { h(e) }\<close>.\<close>

definition catch :: "('w, 'a) wf \<Rightarrow> (wf_error \<Rightarrow> ('w, 'a) wf) \<Rightarrow> ('w, 'a) wf" where
  "catch m h s =
     (case m s of
        (Done x, s') \<Rightarrow> (Done x, s')
      | (Throw e, s') \<Rightarrow> h e s'
      | (Diverge, s') \<Rightarrow> (Diverge, s'))"

definition call_with :: "('a \<Rightarrow> reply) \<Rightarrow> wf_call \<Rightarrow> ('w, 'a) activity \<Rightarrow> ('w, 'a) wf" where
  "call_with cls c f s =
     (case f (ws_world s) of
        (Inl e, w) \<Rightarrow> (Throw e, s\<lparr>ws_history := ws_history s @ [(c, Failed)], ws_world := w\<rparr>)
      | (Inr x, w) \<Rightarrow> (Done x, s\<lparr>ws_history := ws_history s @ [(c, cls x)], ws_world := w\<rparr>))"

abbreviation call :: "wf_call \<Rightarrow> ('w, 'a) activity \<Rightarrow> ('w, 'a) wf" where
  "call \<equiv> call_with (\<lambda>_. Ok)"

text \<open>An exception thrown by workflow code itself.\<close>

definition js_error :: "string \<Rightarrow> wf_error" where
  "js_error message = WfError JsError message None"

definition lift :: "string + 'a \<Rightarrow> ('w, 'a) wf" where
  "lift r = (case r of Inl message \<Rightarrow> throw (js_error message) | Inr x \<Rightarrow> ret x)"

definition get_now :: "'w wf_env \<Rightarrow> ('w, int) wf" where
  "get_now env s = (Done (we_now env (ws_world s)), s)"

definition set_run :: "SnapshotRunState \<Rightarrow> ('w, unit) wf" where
  "set_run r s = (Done (), s\<lparr>ws_run := r\<rparr>)"

definition get_run :: "('w, SnapshotRunState) wf" where
  "get_run s = (Done (ws_run s), s)"

text \<open>
  \<^verbatim>\<open>Promise.all\<close>: every branch runs, and when some reject the whole rejects with the one that rejects first
  in time, which the environment decides.  The history lists the calls branch by branch.
\<close>

fun run_all :: "('w, 'a) wf list \<Rightarrow> 'w wf_state \<Rightarrow> 'a wf_result list \<times> 'w wf_state" where
  "run_all [] s = ([], s)"
| "run_all (m # ms) s =
     (let (r, s1) = m s; (rs, s2) = run_all ms s1 in (r # rs, s2))"

fun rejections :: "'a wf_result list \<Rightarrow> wf_error list" where
  "rejections [] = []"
| "rejections (Throw e # rs) = e # rejections rs"
| "rejections (_ # rs) = rejections rs"

fun fulfilled :: "'a wf_result list \<Rightarrow> 'a list" where
  "fulfilled [] = []"
| "fulfilled (Done x # rs) = x # fulfilled rs"
| "fulfilled (_ # rs) = fulfilled rs"

definition promise_all :: "'w wf_env \<Rightarrow> ('w, 'a) wf list \<Rightarrow> ('w, 'a list) wf" where
  "promise_all env ms s =
     (let (rs, s') = run_all ms s; es = rejections rs
      in if es \<noteq> [] then (Throw (es ! (we_race env es mod length es)), s')
         else if Diverge \<in> set rs then (Diverge, s')
         else (Done (fulfilled rs), s'))"

section \<open>What a computation adds to the history\<close>

text \<open>
  \<open>emits Q m\<close>: run from any state, \<open>m\<close> only appends to the history, and what it appends is related to
  its result by \<open>Q\<close>.  The rules follow the structure of the code.
\<close>

definition emits :: "('a wf_result \<Rightarrow> history \<Rightarrow> bool) \<Rightarrow> ('w, 'a) wf \<Rightarrow> bool" where
  "emits Q m \<longleftrightarrow> (\<forall>s. \<exists>h. ws_history (snd (m s)) = ws_history s @ h \<and> Q (fst (m s)) h)"

lemma emitsE:
  assumes "emits Q m"
  obtains h where "ws_history (snd (m s)) = ws_history s @ h" "Q (fst (m s)) h"
  using assms unfolding emits_def by blast

lemma emits_mono: "emits Q m \<Longrightarrow> (\<And>r h. Q r h \<Longrightarrow> Q' r h) \<Longrightarrow> emits Q' m"
  unfolding emits_def by blast

lemma emits_ret: "Q (Done x) [] \<Longrightarrow> emits Q (ret x)"
  by (simp add: emits_def ret_def)

lemma emits_throw: "Q (Throw e) [] \<Longrightarrow> emits Q (throw e)"
  by (simp add: emits_def throw_def)

lemma emits_diverge: "Q Diverge [] \<Longrightarrow> emits Q diverge"
  by (simp add: emits_def diverge_def)

lemma emits_state:
  "(\<And>x. Q (Done x) []) \<Longrightarrow> emits Q (get_now env)"
  "(\<And>x. Q' (Done x) []) \<Longrightarrow> emits Q' (set_run r)"
  "(\<And>x. Q'' (Done x) []) \<Longrightarrow> emits Q'' get_run"
  by (auto simp: emits_def get_now_def set_run_def get_run_def)

lemma emits_call:
  assumes "\<And>x. Q (Done x) [(c, cls x)]" "\<And>e. Q (Throw e) [(c, Failed)]"
  shows "emits Q (call_with cls c f)"
  using assms by (auto simp: emits_def call_with_def split: prod.split sum.split)

lemma emits_lift:
  "(\<And>x. r = Inr x \<Longrightarrow> Q (Done x) []) \<Longrightarrow> (\<And>e. Q (Throw e) []) \<Longrightarrow> emits Q (lift r)"
  by (cases r) (auto simp: lift_def intro: emits_ret emits_throw)

lemma emits_bind:
  assumes "emits P m" "\<And>x. emits (R x) (f x)"
    and "\<And>x h r h'. P (Done x) h \<Longrightarrow> R x r h' \<Longrightarrow> Q r (h @ h')"
    and "\<And>e h. P (Throw e) h \<Longrightarrow> Q (Throw e) h" "\<And>h. P Diverge h \<Longrightarrow> Q Diverge h"
  shows "emits Q (wbind m f)"
  unfolding emits_def
proof
  fix s
  obtain h where h: "ws_history (snd (m s)) = ws_history s @ h" "P (fst (m s)) h"
    using assms(1) by (rule emitsE)
  show "\<exists>h. ws_history (snd (wbind m f s)) = ws_history s @ h \<and> Q (fst (wbind m f s)) h"
  proof (cases "m s")
    case (Pair r s')
    show ?thesis
    proof (cases r)
      case (Done x)
      obtain h' where "ws_history (snd (f x s')) = ws_history s' @ h'" "R x (fst (f x s')) h'"
        using assms(2) by (rule emitsE)
      with h Pair Done assms(3) show ?thesis by (intro exI[of _ "h @ h'"]) (simp add: wbind_def)
    qed (use h Pair assms(4,5) in \<open>auto simp: wbind_def\<close>)
  qed
qed

lemma emits_catch:
  assumes "emits P m" "\<And>e. emits (R e) (hd' e)"
    and "\<And>e h r h'. P (Throw e) h \<Longrightarrow> R e r h' \<Longrightarrow> Q r (h @ h')"
    and "\<And>x h. P (Done x) h \<Longrightarrow> Q (Done x) h" "\<And>h. P Diverge h \<Longrightarrow> Q Diverge h"
  shows "emits Q (catch m hd')"
  unfolding emits_def
proof
  fix s
  obtain h where h: "ws_history (snd (m s)) = ws_history s @ h" "P (fst (m s)) h"
    using assms(1) by (rule emitsE)
  show "\<exists>h. ws_history (snd (catch m hd' s)) = ws_history s @ h \<and> Q (fst (catch m hd' s)) h"
  proof (cases "m s")
    case (Pair r s')
    show ?thesis
    proof (cases r)
      case (Throw e)
      obtain h' where "ws_history (snd (hd' e s')) = ws_history s' @ h'" "R e (fst (hd' e s')) h'"
        using assms(2) by (rule emitsE)
      with h Pair Throw assms(3) show ?thesis by (intro exI[of _ "h @ h'"]) (simp add: catch_def)
    qed (use h Pair assms(4,5) in \<open>auto simp: catch_def\<close>)
  qed
qed

text \<open>Steps that add nothing to the history.\<close>

lemma emits_silent:
  "(\<And>t. emits Q (f t)) \<Longrightarrow> emits Q (wbind (get_now env) f)"
  "(\<And>t. emits Q (g t)) \<Longrightarrow> emits Q (wbind (set_run r) g)"
  "(\<And>t. emits Q (k t)) \<Longrightarrow> emits Q (wbind get_run k)"
  by (rule emits_bind[where P = "\<lambda>r h. (\<exists>x. r = Done x) \<and> h = []" and R = "\<lambda>_. Q"]; auto intro: emits_state)+

text \<open>Computations whose calls all satisfy a predicate.\<close>

definition only :: "(wf_call \<times> reply \<Rightarrow> bool) \<Rightarrow> ('w, 'a) wf \<Rightarrow> bool" where
  "only P m \<longleftrightarrow> emits (\<lambda>_ h. list_all P h) m"

lemma only_bind: "only P m \<Longrightarrow> (\<And>x. only P (f x)) \<Longrightarrow> only P (wbind m f)"
  unfolding only_def by (rule emits_bind[where R = "\<lambda>_ _ h. list_all P h"]) auto

lemma only_catch: "only P m \<Longrightarrow> (\<And>e. only P (h e)) \<Longrightarrow> only P (catch m h)"
  unfolding only_def by (rule emits_catch[where R = "\<lambda>_ _ h. list_all P h"]) auto

lemma only_call: "(\<And>r. P (c, r)) \<Longrightarrow> only P (call_with cls c f)"
  unfolding only_def by (rule emits_call) auto

lemma only_simple: "only P (ret x)" "only P (throw e)" "only P diverge" "only P (lift r)"
  "only P (get_now env)" "only P (set_run ru)" "only P get_run"
  unfolding only_def by (auto intro!: emits_ret emits_throw emits_diverge emits_lift emits_state)

lemma only_run_all:
  assumes "\<forall>m \<in> set ms. only P m"
  shows "\<exists>h. ws_history (snd (run_all ms s)) = ws_history s @ h \<and> list_all P h"
  using assms
proof (induction ms arbitrary: s)
  case (Cons m ms)
  obtain h where h: "ws_history (snd (m s)) = ws_history s @ h" "list_all P h"
    using Cons.prems unfolding only_def emits_def by (meson list.set_intros(1))
  obtain h' where h': "ws_history (snd (run_all ms (snd (m s)))) = ws_history (snd (m s)) @ h'" "list_all P h'"
    using Cons.IH[of "snd (m s)"] Cons.prems by auto
  show ?case using h h' by (intro exI[of _ "h @ h'"]) (simp add: Let_def split_beta)
qed simp

lemma only_promise_all: "\<forall>m \<in> set ms. only P m \<Longrightarrow> only P (promise_all env ms)"
  using only_run_all[of ms P]
  by (fastforce simp: only_def emits_def promise_all_def Let_def split_beta)

lemmas only_rules = only_bind only_catch only_call only_simple only_promise_all

end
