(* ===== verification/Encrypted_Lifecycle.thy ===== *)
theory Encrypted_Lifecycle
  imports Workflow_Monad
begin

text \<open>
  The encrypted part of a combined run: polling DeepID until every selected child score is ready
  (\<^verbatim>\<open>apps/workflows/src/workflows/encryption-readiness.ts\<close>) and the poll-process rounds
  (\<^verbatim>\<open>apps/workflows/src/workflows/encrypted-custom-score.ts\<close>).  Both loops have no bound of their own in the
  code; here each takes an allowance of iterations, and running out of it is \<open>Diverge\<close>.  The deadline
  bounds the first loop: \<open>pollForEncryptionReadiness\<close> ends within 26 polls.
\<close>

section \<open>Constants\<close>

definition DEEP_ID_READINESS_POLL_DELAYS_MS :: "int list" where
  "DEEP_ID_READINESS_POLL_DELAYS_MS = [60000, 15 * 60000, 60 * 60000]"

definition DEEP_ID_READINESS_STEADY_POLL_DELAY_MS :: int where
  "DEEP_ID_READINESS_STEADY_POLL_DELAY_MS = 60 * 60000"

definition DEEP_ID_ENCRYPTION_DEADLINE_MS :: int where
  "DEEP_ID_ENCRYPTION_DEADLINE_MS = 24 * 60 * 60000"

definition poll_delay :: "nat \<Rightarrow> int" where
  "poll_delay pollIndex =
     (if pollIndex < length DEEP_ID_READINESS_POLL_DELAYS_MS
      then DEEP_ID_READINESS_POLL_DELAYS_MS ! pollIndex else DEEP_ID_READINESS_STEADY_POLL_DELAY_MS)"

section \<open>Readiness polling\<close>

record EncryptionReadinessPollOutcome =
  po_counts :: EncryptionReadinessCounts
  po_pollCount :: nat
  po_elapsedMs :: int
  po_polledAtOffsetsMs :: "int list"
  po_lastRequestId :: "string option"

definition encryption_timeout :: wf_error where
  "encryption_timeout =
     WfError (AppFailure ''DEEPID_ENCRYPTION_TIMEOUT'') ''DEEPID_ENCRYPTION_TIMEOUT'' None"

fun poll_loop ::
  "'w wf_env \<Rightarrow> string \<Rightarrow> AlgorithmPresetFrozen \<Rightarrow> int \<Rightarrow> int \<Rightarrow> nat \<Rightarrow> int list
     \<Rightarrow> ('w, EncryptionReadinessPollOutcome) wf" where
  "poll_loop env snapshotId frozen submittedAtMs deadlineAtMs 0 polledAtOffsetsMs = diverge"
| "poll_loop env snapshotId frozen submittedAtMs deadlineAtMs (Suc n) polledAtOffsetsMs =
     wbind (get_now env) (\<lambda>now.
     let ms = min (poll_delay (length polledAtOffsetsMs)) (deadlineAtMs - now) in
     wbind (call (Sleep ms) (we_sleep env ms)) (\<lambda>_.
     wbind (call (CheckReadiness snapshotId frozen) (we_checkReadiness env snapshotId frozen)) (\<lambda>pass.
     wbind (get_now env) (\<lambda>now'.
     let elapsedMs = now' - submittedAtMs;
         offsets = polledAtOffsetsMs @ [elapsedMs]
     in if cr_ready pass
        then ret \<lparr>po_counts = cr_counts pass, po_pollCount = length offsets, po_elapsedMs = elapsedMs,
                  po_polledAtOffsetsMs = offsets, po_lastRequestId = cr_lastRequestId pass\<rparr>
        else if deadlineAtMs \<le> now' then throw encryption_timeout
        else poll_loop env snapshotId frozen submittedAtMs deadlineAtMs n offsets))))"

definition pollForEncryptionReadiness ::
  "'w wf_env \<Rightarrow> nat \<Rightarrow> string \<Rightarrow> AlgorithmPresetFrozen \<Rightarrow> int option
     \<Rightarrow> ('w, EncryptionReadinessPollOutcome) wf" where
  "pollForEncryptionReadiness env fuel snapshotId frozen deadline =
     wbind (get_now env) (\<lambda>submittedAtMs.
       let deadlineAtMs = (case deadline of Some d \<Rightarrow> d | None \<Rightarrow> submittedAtMs + DEEP_ID_ENCRYPTION_DEADLINE_MS)
       in poll_loop env snapshotId frozen submittedAtMs deadlineAtMs fuel [])"

section \<open>Poll and process rounds\<close>

record EncryptedCustomScoreLifecycleOutcome =
  lo_readiness :: EncryptionReadinessPollOutcome
  lo_rounds :: nat

definition submission_reply :: "encrypted_outcome \<Rightarrow> reply" where
  "submission_reply o' = (case o' of submitted \<Rightarrow> Ok | pending_encryption \<Rightarrow> Pending)"

text \<open>\<open>pf\<close> is the allowance of polls in one round; 26 is always enough within the deadline.\<close>

fun lifecycle_loop ::
  "'w wf_env \<Rightarrow> nat \<Rightarrow> SubmitCustomEncryptedScoresInput \<Rightarrow> int \<Rightarrow> nat \<Rightarrow> nat
     \<Rightarrow> ('w, EncryptedCustomScoreLifecycleOutcome) wf" where
  "lifecycle_loop env pf input deadlineAtMs 0 rounds = diverge"
| "lifecycle_loop env pf input deadlineAtMs (Suc n) rounds =
     wbind (pollForEncryptionReadiness env pf (sx_snapshotId input) (sx_frozen input) (Some deadlineAtMs)) (\<lambda>readiness.
     wbind (call_with submission_reply (SubmitEncryptedScores input) (we_submitEncrypted env input)) (\<lambda>submission.
       case submission of
         submitted \<Rightarrow> ret \<lparr>lo_readiness = readiness, lo_rounds = rounds\<rparr>
       | pending_encryption \<Rightarrow> lifecycle_loop env pf input deadlineAtMs n (Suc rounds)))"

definition runEncryptedCustomScoreLifecycle ::
  "'w wf_env \<Rightarrow> nat \<Rightarrow> nat \<Rightarrow> SubmitCustomEncryptedScoresInput
     \<Rightarrow> ('w, EncryptedCustomScoreLifecycleOutcome) wf" where
  "runEncryptedCustomScoreLifecycle env pf fuel input =
     wbind (get_now env) (\<lambda>now.
       lifecycle_loop env pf input (now + DEEP_ID_ENCRYPTION_DEADLINE_MS) fuel 1)"

section \<open>The clock\<close>

text \<open>
  What the loops rely on: workflow time never runs backwards, and a timer that fires has let its
  duration pass.
\<close>

definition clock_ok :: "'w wf_env \<Rightarrow> bool" where
  "clock_ok env \<longleftrightarrow>
     (\<forall>d w. \<not> isl (fst (we_sleep env d w)) \<longrightarrow> we_now env w + d \<le> we_now env (snd (we_sleep env d w)))
   \<and> (\<forall>i f w. we_now env w \<le> we_now env (snd (we_checkReadiness env i f w)))"

lemma poll_delay_pos: "60000 \<le> poll_delay i"
  by (auto simp: poll_delay_def DEEP_ID_READINESS_POLL_DELAYS_MS_def DEEP_ID_READINESS_STEADY_POLL_DELAY_MS_def
        nth_Cons split: nat.split)

fun poll_budget :: "nat \<Rightarrow> nat \<Rightarrow> int" where
  "poll_budget i 0 = 0"
| "poll_budget i (Suc n) = poll_delay i + poll_budget (Suc i) n"

text \<open>One iteration: the remaining time shrinks by the delay of this poll, or the deadline is reached.\<close>

lemma poll_loop_terminates:
  assumes "clock_ok env" "0 < fuel"
    and "deadline - we_now env (ws_world s) \<le> poll_budget (length offsets) fuel"
  shows "fst (poll_loop env i fz submittedAt deadline fuel offsets s) \<noteq> Diverge"
  using assms(2,3)
proof (induction fuel arbitrary: s offsets)
  case (Suc n)
  define ms where "ms = min (poll_delay (length offsets)) (deadline - we_now env (ws_world s))"
  define w1 where "w1 = snd (we_sleep env ms (ws_world s))"
  define w2 where "w2 = snd (we_checkReadiness env i fz w1)"
  show ?case
  proof (cases "isl (fst (we_sleep env ms (ws_world s))) \<or> isl (fst (we_checkReadiness env i fz w1))")
    case True
    then show ?thesis
      by (auto simp: wbind_def get_now_def Let_def ms_def[symmetric] call_with_def w1_def
            split: prod.splits sum.splits)
  next
    case False
    then obtain u pass where r: "we_sleep env ms (ws_world s) = (Inr u, w1)" "we_checkReadiness env i fz w1 = (Inr pass, w2)"
      by (cases "fst (we_sleep env ms (ws_world s))"; cases "fst (we_checkReadiness env i fz w1)")
        (auto simp: w1_def w2_def prod_eq_iff)
    have t: "we_now env (ws_world s) + ms \<le> we_now env w2"
    proof -
      have "we_now env (ws_world s) + ms \<le> we_now env w1"
        using assms(1) r(1) unfolding clock_ok_def by (metis fst_conv snd_conv sum.disc(2))
      also have "we_now env w1 \<le> we_now env w2"
        using assms(1) r(2) unfolding clock_ok_def by (metis snd_conv)
      finally show ?thesis .
    qed
    define s2 where "s2 = s\<lparr>ws_history := (ws_history s @ [(Sleep ms, Ok)]) @ [(CheckReadiness i fz, Ok)], ws_world := w2\<rparr>"
    define offs where "offs = offsets @ [we_now env w2 - submittedAt]"
    have step: "poll_loop env i fz submittedAt deadline (Suc n) offsets s =
        (if cr_ready pass
         then (Done \<lparr>po_counts = cr_counts pass, po_pollCount = length offs, po_elapsedMs = we_now env w2 - submittedAt,
                     po_polledAtOffsetsMs = offs, po_lastRequestId = cr_lastRequestId pass\<rparr>, s2)
         else if deadline \<le> we_now env w2 then (Throw encryption_timeout, s2)
         else poll_loop env i fz submittedAt deadline n offs s2)"
      using r by (simp add: wbind_def get_now_def Let_def ms_def[symmetric] call_with_def s2_def offs_def ret_def throw_def)
    show ?thesis
    proof (cases "deadline \<le> we_now env w2 \<or> cr_ready pass")
      case False
      then have late: "we_now env (ws_world s) + poll_delay (length offsets) \<le> we_now env w2"
        using t by (auto simp: ms_def min_def split: if_splits)
      then have rem: "deadline - we_now env (ws_world s2) \<le> poll_budget (length offs) n"
        using Suc.prems(2) by (simp add: s2_def offs_def)
      then have "0 < n" using False by (cases n) (auto simp: s2_def)
      from Suc.IH[OF this rem] show ?thesis using False unfolding step by simp
    qed (auto simp: step simp del: poll_loop.simps)
  qed
qed simp

lemma poll_budget_26: "poll_budget 0 26 = 87360000"
  by (simp add: numeral_eq_Suc poll_delay_def DEEP_ID_READINESS_POLL_DELAYS_MS_def
      DEEP_ID_READINESS_STEADY_POLL_DELAY_MS_def)

section \<open>What the rounds do\<close>

abbreviation poll_entry :: "wf_call \<times> reply \<Rightarrow> bool" where
  "poll_entry c \<equiv> (case fst c of Sleep _ \<Rightarrow> True | CheckReadiness _ _ \<Rightarrow> True | _ \<Rightarrow> False)"

lemma poll_loop_only: "only poll_entry (poll_loop env i fz t d fuel offs)"
  by (induction fuel arbitrary: offs) (auto simp: Let_def intro!: only_rules)

lemma poll_only: "only poll_entry (pollForEncryptionReadiness env fuel i fz d)"
  unfolding pollForEncryptionReadiness_def Let_def by (intro only_rules poll_loop_only)

text \<open>A poll that succeeds has just seen a ready pass.\<close>

lemma poll_loop_ready:
  "emits (\<lambda>r h. list_all poll_entry h \<and> (\<forall>x. r = Done x \<longrightarrow> h \<noteq> [] \<and> last h = (CheckReadiness i fz, Ok)))
     (poll_loop env i fz t d fuel offs)"
proof (induction fuel arbitrary: offs)
  case (Suc n)
  let ?Q = "\<lambda>r h. list_all poll_entry h \<and> (\<forall>x. r = Done x \<longrightarrow> h \<noteq> [] \<and> last h = (CheckReadiness i fz, Ok))"
  have tail: "emits (\<lambda>r h. list_all poll_entry h \<and> (h = [] \<or> (\<forall>x. r = Done x \<longrightarrow> last h = (CheckReadiness i fz, Ok))))
      (wbind (get_now env) (\<lambda>now'.
        let elapsedMs = now' - t; offsets = offs @ [elapsedMs]
        in if cr_ready pass then ret (f offsets elapsedMs) else if d \<le> now' then throw encryption_timeout
           else poll_loop env i fz t d n offsets))" for pass and f :: "int list \<Rightarrow> int \<Rightarrow> EncryptionReadinessPollOutcome"
    unfolding Let_def
    by (rule emits_bind[where P = "\<lambda>_ h. h = []" and R = "\<lambda>_ r h. list_all poll_entry h
          \<and> (h = [] \<or> (\<forall>x. r = Done x \<longrightarrow> last h = (CheckReadiness i fz, Ok)))"])
      (auto intro!: emits_state emits_ret emits_throw intro: emits_mono[OF Suc.IH])
  show ?case
    unfolding poll_loop.simps
    apply (rule emits_bind[where P = "\<lambda>_ h. h = []" and R = "\<lambda>_. ?Q"])
        apply (rule emits_state(1)) apply simp
       apply (unfold Let_def)
       apply (rule emits_bind[where P = "\<lambda>_ h. list_all poll_entry h" and R = "\<lambda>_. ?Q"])
           apply (rule emits_call) apply simp apply simp
          apply (rule emits_bind[where P = "\<lambda>r h. list_all poll_entry h \<and> (\<forall>x. r = Done x \<longrightarrow> h = [(CheckReadiness i fz, Ok)])"
            and R = "\<lambda>_ r h. list_all poll_entry h \<and> (h = [] \<or> (\<forall>x. r = Done x \<longrightarrow> last h = (CheckReadiness i fz, Ok)))"])
              apply (rule emits_call) apply simp apply simp
             apply (rule tail[unfolded Let_def])
    by auto
qed (simp add: emits_diverge)

definition is_submit :: "wf_call \<Rightarrow> bool" where
  "is_submit c \<longleftrightarrow> (case c of SubmitEncryptedScores _ \<Rightarrow> True | _ \<Rightarrow> False)"

text \<open>Every encrypted submission directly follows a readiness pass that succeeded.\<close>

definition submits_when_ready :: "history \<Rightarrow> bool" where
  "submits_when_ready h \<longleftrightarrow>
     (\<forall>a c r b. h = a @ (c, r) # b \<longrightarrow> is_submit c \<longrightarrow> (\<exists>a' i fz. a = a' @ [(CheckReadiness i fz, Ok)]))"

lemma submits_when_ready_none: "list_all (\<lambda>c. \<not> is_submit (fst c)) h \<Longrightarrow> submits_when_ready h"
  by (fastforce simp: submits_when_ready_def)

lemma poll_entry_not_submit: "list_all poll_entry h \<Longrightarrow> list_all (\<lambda>c. \<not> is_submit (fst c)) h"
  by (auto simp: list_all_iff is_submit_def split: wf_call.splits)

lemma submits_when_ready_append:
  assumes "submits_when_ready h" "submits_when_ready h'"
  shows "submits_when_ready (h @ h')"
  unfolding submits_when_ready_def
proof (intro allI impI)
  fix a c r b
  assume eq: "h @ h' = a @ (c, r) # b" and sub: "is_submit c"
  show "\<exists>a' i fz. a = a' @ [(CheckReadiness i fz, Ok)]"
  proof (cases "length a < length h")
    case True
    then obtain b' where "h = a @ (c, r) # b'"
      using eq by (auto simp: append_eq_append_conv2 append_eq_Cons_conv)
    then show ?thesis using assms(1) sub unfolding submits_when_ready_def by blast
  next
    case False
    then obtain a2 where a2: "a = h @ a2" "h' = a2 @ (c, r) # b"
      using eq by (auto simp: append_eq_append_conv2)
    then have "\<exists>a' i fz. a2 = a' @ [(CheckReadiness i fz, Ok)]"
      using assms(2) sub unfolding submits_when_ready_def by blast
    then show ?thesis using a2(1) by auto
  qed
qed

lemma submits_when_ready_step:
  assumes "list_all poll_entry h" "h \<noteq> []" "last h = (CheckReadiness i fz, Ok)"
  shows "submits_when_ready (h @ [(c, r)])"
  unfolding submits_when_ready_def
proof (intro allI impI)
  fix a c' r' b
  assume eq: "h @ [(c, r)] = a @ (c', r') # b" and sub: "is_submit c'"
  show "\<exists>a' i fz. a = a' @ [(CheckReadiness i fz, Ok)]"
  proof (cases b rule: rev_cases)
    case Nil
    then have "h = a" using eq by simp
    then show ?thesis using assms(2,3) by (metis append_butlast_last_id)
  next
    case (snoc b' x)
    then have "h = a @ (c', r') # b'" using eq by simp
    then show ?thesis using assms(1) sub poll_entry_not_submit by (fastforce simp: list_all_iff)
  qed
qed

abbreviation lifecycle_ok :: "SubmitCustomEncryptedScoresInput \<Rightarrow> 'a wf_result \<Rightarrow> history \<Rightarrow> bool" where
  "lifecycle_ok input r h \<equiv>
     submits_when_ready h \<and> list_all (\<lambda>c. poll_entry c \<or> fst c = SubmitEncryptedScores input) h
   \<and> (\<forall>x. r = Done x \<longrightarrow> h \<noteq> [] \<and> last h = (SubmitEncryptedScores input, Ok))"

lemma poll_ready:
  "emits (\<lambda>r h. list_all poll_entry h \<and> (\<forall>x. r = Done x \<longrightarrow> h \<noteq> [] \<and> last h = (CheckReadiness i fz, Ok)))
     (pollForEncryptionReadiness env fuel i fz d)"
  unfolding pollForEncryptionReadiness_def Let_def by (rule emits_silent(1), rule poll_loop_ready)

lemma lifecycle_loop_ok: "emits (lifecycle_ok input) (lifecycle_loop env pf input d fuel k)"
proof (induction fuel arbitrary: k)
  case (Suc n)
  let ?R = "\<lambda>r h. \<exists>rep rest. h = (SubmitEncryptedScores input, rep) # rest
      \<and> (rest = [] \<and> (\<forall>x. r = Done x \<longrightarrow> rep = Ok) \<or> lifecycle_ok input r rest)"
  have inner: "emits ?R (wbind (call_with submission_reply (SubmitEncryptedScores input) (we_submitEncrypted env input))
      (\<lambda>submission. case submission of submitted \<Rightarrow> ret (f k) | pending_encryption \<Rightarrow>
         lifecycle_loop env pf input d n (Suc k)))" for f
    by (rule emits_bind[where P = "\<lambda>r h. \<exists>rep. h = [(SubmitEncryptedScores input, rep)] \<and> (\<forall>x. r = Done x \<longrightarrow> rep = submission_reply x)"
          and R = "\<lambda>x r h. (x = submitted \<and> h = []) \<or> lifecycle_ok input r h"])
      (auto intro!: emits_call emits_ret split: encrypted_outcome.split simp: submission_reply_def intro: emits_mono[OF Suc.IH])
  show ?case
    unfolding lifecycle_loop.simps
  proof (rule emits_bind[OF poll_ready inner])
    fix x h r h'
    assume a: "list_all poll_entry h \<and> (\<forall>y. (Done x :: EncryptionReadinessPollOutcome wf_result) = Done y \<longrightarrow>
        h \<noteq> [] \<and> last h = (CheckReadiness (sx_snapshotId input) (sx_frozen input), Ok))" and b: "?R r h'"
    then obtain rep rest where h': "h' = (SubmitEncryptedScores input, rep) # rest"
      "rest = [] \<and> (\<forall>x. r = Done x \<longrightarrow> rep = Ok) \<or> lifecycle_ok input r rest" by blast
    have "submits_when_ready (h @ [(SubmitEncryptedScores input, rep)])"
      using a by (intro submits_when_ready_step) auto
    moreover have "submits_when_ready rest" using h'(2) by (auto intro: submits_when_ready_none)
    ultimately have "submits_when_ready ((h @ [(SubmitEncryptedScores input, rep)]) @ rest)"
      by (rule submits_when_ready_append)
    then show "lifecycle_ok input r (h @ h')"
      using a h' by (auto simp: list_all_iff)
  qed (auto simp: list_all_iff intro: submits_when_ready_none[OF poll_entry_not_submit, unfolded list_all_iff])
qed (auto intro!: emits_diverge submits_when_ready_none)

lemma lifecycle_emits: "emits (lifecycle_ok input) (runEncryptedCustomScoreLifecycle env pf fuel input)"
  unfolding runEncryptedCustomScoreLifecycle_def by (rule emits_silent(1), rule lifecycle_loop_ok)

section \<open>A clock that only the calls advance\<close>

text \<open>
  A concrete environment: the world is the workflow clock in milliseconds, a timer advances it by its
  duration but at least by one millisecond, every activity takes a second.
\<close>

definition sample_counts :: EncryptionReadinessCounts where
  "sample_counts = \<lparr>ec_complete = 1, ec_potentiallyComplete = 0, ec_incomplete = 0\<rparr>"

definition clock_env :: "(int \<Rightarrow> bool) \<Rightarrow> (int \<Rightarrow> encrypted_outcome) \<Rightarrow> int wf_env" where
  "clock_env rdy sub =
     \<lparr>we_workflowId = ''snapshot-s1'', we_runId = ''r1'', we_taskQueue = ''orchestrator-worker'', we_startTime = 0,
      we_now = (\<lambda>w. w), we_sleep = (\<lambda>d w. (Inr (), w + max 1 d)),
      we_isCancellation = (\<lambda>_. False), we_fromError = (\<lambda>e. e), we_race = (\<lambda>_. 0),
      we_getSnapshot = (\<lambda>i w. (Inl (js_error ''none''), w)),
      we_updateSnapshot = (\<lambda>u w. (Inr (), w)),
      we_recordPublication = (\<lambda>p w. (Inr (), w)),
      we_getDefinition = (\<lambda>k v w. (Inl (js_error ''none''), w)),
      we_getConnection = (\<lambda>c w. (Inl (js_error ''none''), w)),
      we_getSealedCredential = (\<lambda>c w. (Inl (js_error ''none''), w)),
      we_checkHealth = (\<lambda>c w. (Inl (js_error ''none''), w)),
      we_resolve = (\<lambda>q r w. (Inl (js_error ''none''), w)),
      we_runAlgorithm = (\<lambda>s w. (Inl (js_error ''none''), w)),
      we_submitRaw = (\<lambda>s w. (Inl (js_error ''none''), w)),
      we_checkReadiness = (\<lambda>i f w. (Inr \<lparr>cr_ready = rdy w, cr_counts = sample_counts, cr_lastRequestId = None\<rparr>, w + 1000)),
      we_submitEncrypted = (\<lambda>s w. (Inr (sub w), w + 1000)),
      we_postScores = (\<lambda>s t w. (Inl (js_error ''none''), w))\<rparr>"

lemma clock_env_simps:
  "we_now (clock_env rdy sub) w = w"
  "we_sleep (clock_env rdy sub) d w = (Inr (), w + max 1 d)"
  "we_checkReadiness (clock_env rdy sub) i f w =
     (Inr \<lparr>cr_ready = rdy w, cr_counts = sample_counts, cr_lastRequestId = None\<rparr>, w + 1000)"
  "we_submitEncrypted (clock_env rdy sub) x w = (Inr (sub w), w + 1000)"
  by (simp_all add: clock_env_def)

definition clock_state :: "int \<Rightarrow> int wf_state" where
  "clock_state t = \<lparr>ws_history = [], ws_run = \<lparr>sr_algorithmTaskQueue = None, sr_algorithmKind = None\<rparr>, ws_world = t\<rparr>"

lemma clock_env_ok: "clock_ok (clock_env rdy sub)"
  by (simp add: clock_ok_def clock_env_def)

definition sample_submission :: SubmitCustomEncryptedScoresInput where
  "sample_submission = \<lparr>sx_snapshotId = ''s1'', sx_frozen = sample_frozen, sx_observations = [], sx_timestamp = 0\<rparr>"

lemma ready_pending_round:
  "ws_world (snd (lifecycle_loop (clock_env (\<lambda>_. True) (\<lambda>_. pending_encryption)) (Suc pf) input d n k s)) \<ge> ws_world s + int n
   \<and> fst (lifecycle_loop (clock_env (\<lambda>_. True) (\<lambda>_. pending_encryption)) (Suc pf) input d n k s) = Diverge"
proof (induction n arbitrary: k s)
  case (Suc n)
  let ?env = "clock_env (\<lambda>_. True) (\<lambda>_. pending_encryption)"
  obtain s' where s': "lifecycle_loop ?env (Suc pf) input d (Suc n) k s = lifecycle_loop ?env (Suc pf) input d n (Suc k) s'"
    "ws_world s + 1 \<le> ws_world s'"
    by (simp add: wbind_def pollForEncryptionReadiness_def get_now_def call_with_def ret_def clock_env_simps Let_def)
  show ?case unfolding s'(1) using Suc.IH[of s' "Suc k"] s'(2) by auto
qed (simp add: diverge_def)

section \<open>Properties\<close>

text \<open>
  C36: readiness polling always ends.  Started at most 24 hours before its deadline, it returns or throws
  within 26 polls, whatever the activity answers.
\<close>

theorem poll_ends_within_26:
  assumes "clock_ok env"
    and "\<forall>d. deadline = Some d \<longrightarrow> d - we_now env (ws_world s) \<le> DEEP_ID_ENCRYPTION_DEADLINE_MS"
  shows "fst (pollForEncryptionReadiness env 26 snapshotId frozen deadline s) \<noteq> Diverge"
proof -
  let ?t = "we_now env (ws_world s)"
  let ?d = "case deadline of Some d \<Rightarrow> d | None \<Rightarrow> ?t + DEEP_ID_ENCRYPTION_DEADLINE_MS"
  have "?d - ?t \<le> poll_budget 0 26"
    using assms(2) unfolding poll_budget_26 by (auto simp: DEEP_ID_ENCRYPTION_DEADLINE_MS_def split: option.split)
  then have "fst (poll_loop env snapshotId frozen ?t ?d 26 [] s) \<noteq> Diverge"
    using poll_loop_terminates[OF assms(1), of 26 ?d s "[]"] by simp
  then show ?thesis
    unfolding pollForEncryptionReadiness_def by (subst wbind_def) (simp add: get_now_def)
qed

theorem poll_ends_within_26_witness:
  "fst (pollForEncryptionReadiness (clock_env (\<lambda>_. False) (\<lambda>_. submitted)) 26 ''s1'' sample_frozen
     (Some 86400000) (clock_state 0)) \<noteq> Diverge"
  by (rule poll_ends_within_26[OF clock_env_ok])
    (simp add: DEEP_ID_ENCRYPTION_DEADLINE_MS_def clock_env_def clock_state_def)

text \<open>
  encrypted scores are submitted only right after a readiness pass that succeeded, and the lifecycle
  resolves only when its last call, the encrypted submission, was accepted as \<open>submitted\<close>.
\<close>

lemma lifecycle_submits_when_ready:
  "\<exists>h. ws_history (snd (runEncryptedCustomScoreLifecycle env pf fuel input s)) = ws_history s @ h
     \<and> submits_when_ready h
     \<and> (\<forall>x. fst (runEncryptedCustomScoreLifecycle env pf fuel input s) = Done x \<longrightarrow>
          h \<noteq> [] \<and> last h = (SubmitEncryptedScores input, Ok))"
  using lifecycle_emits[of input env pf fuel] unfolding emits_def by blast

theorem lifecycle_submits_when_ready_witness:
  "\<exists>h. ws_history (snd (runEncryptedCustomScoreLifecycle (clock_env (\<lambda>_. True) (\<lambda>_. submitted)) 26 1 sample_submission (clock_state 0))) = h
     \<and> submits_when_ready h"
  using lifecycle_submits_when_ready[of "clock_env (\<lambda>_. True) (\<lambda>_. submitted)" 26 1 sample_submission "clock_state 0"]
  by (auto simp: clock_state_def)

text \<open>
  the deadline does not bound the rounds.  When every readiness pass reports ready and every processing
  pass still meets a pending score, the lifecycle is still running after any number of rounds, with the
  clock arbitrarily far past the 24-hour deadline: only a pass that is not ready is checked against it.
\<close>

lemma lifecycle_overruns_deadline:
  "\<exists>fuel. case runEncryptedCustomScoreLifecycle (clock_env (\<lambda>_. True) (\<lambda>_. pending_encryption)) 26 fuel input (clock_state 0)
      of (r, s) \<Rightarrow> r = Diverge \<and> DEEP_ID_ENCRYPTION_DEADLINE_MS + late \<le> ws_world s"
proof -
  let ?n = "nat (DEEP_ID_ENCRYPTION_DEADLINE_MS + late)"
  let ?env = "clock_env (\<lambda>_. True) (\<lambda>_. pending_encryption)"
  have run: "runEncryptedCustomScoreLifecycle ?env 26 ?n input (clock_state 0) =
      lifecycle_loop ?env (Suc 25) input DEEP_ID_ENCRYPTION_DEADLINE_MS ?n 1 (clock_state 0)"
    by (simp add: runEncryptedCustomScoreLifecycle_def wbind_def get_now_def clock_state_def clock_env_simps)
  obtain r s' where rs: "lifecycle_loop ?env (Suc 25) input DEEP_ID_ENCRYPTION_DEADLINE_MS ?n 1 (clock_state 0) = (r, s')"
    by fastforce
  have "r = Diverge" "int ?n \<le> ws_world s'"
    using ready_pending_round[of "clock_state 0" ?n 25 input DEEP_ID_ENCRYPTION_DEADLINE_MS 1] unfolding rs
    by (simp_all add: clock_state_def)
  moreover have "DEEP_ID_ENCRYPTION_DEADLINE_MS + late \<le> int ?n" by simp
  ultimately have "case runEncryptedCustomScoreLifecycle ?env 26 ?n input (clock_state 0) of (r, s) \<Rightarrow>
      r = Diverge \<and> DEEP_ID_ENCRYPTION_DEADLINE_MS + late \<le> ws_world s"
    unfolding run rs prod.case by linarith
  then show ?thesis by (rule exI)
qed

end
