(* ===== verification/Orchestrator.thy ===== *)
theory Orchestrator
  imports Encrypted_Lifecycle
begin

text \<open>
  The orchestrator workflow (\<^verbatim>\<open>apps/workflows/src/workflows/orchestrator.workflow.ts\<close>): one run of one
  snapshot, from the running write through dependency resolution, algorithm execution and the encrypted
  lifecycle of a combined score to the terminal write and the publication of the scores.
  \<open>pf\<close> and \<open>fuel\<close> bound the two loops of the encrypted lifecycle.
\<close>

section \<open>Error chains\<close>

definition DEEP_ID_POST_SCORES_FAILURE_ERROR_TYPE :: string where
  "DEEP_ID_POST_SCORES_FAILURE_ERROR_TYPE = ''DEEPID_POST_SCORES_FAILURE''"

fun describePublicationFailure :: "wf_error \<Rightarrow> string" where
  "describePublicationFailure (WfError kind message None) =
     (if kind = AppFailure DEEP_ID_POST_SCORES_FAILURE_ERROR_TYPE then message
      else ''The score posting activity failed'')"
| "describePublicationFailure (WfError kind message (Some cause)) =
     (if kind = AppFailure DEEP_ID_POST_SCORES_FAILURE_ERROR_TYPE then message
      else describePublicationFailure cause)"

fun isSnapshotNotFound :: "wf_error \<Rightarrow> bool" where
  "isSnapshotNotFound (WfError kind message None) \<longleftrightarrow> kind = AppFailure SNAPSHOT_NOT_FOUND_ERROR_TYPE"
| "isSnapshotNotFound (WfError kind message (Some cause)) \<longleftrightarrow>
     kind = AppFailure SNAPSHOT_NOT_FOUND_ERROR_TYPE \<or> isSnapshotNotFound cause"

section \<open>Updates\<close>

definition temporal_info :: "'w wf_env \<Rightarrow> string option \<Rightarrow> SnapshotTemporal" where
  "temporal_info env algorithmTaskQueue =
     \<lparr>tmp_workflowId = Some (we_workflowId env), tmp_runId = Some (we_runId env),
      tmp_taskQueue = Some (we_taskQueue env), tmp_algorithmTaskQueue = algorithmTaskQueue\<rparr>"

definition updateSnapshot :: "'w wf_env \<Rightarrow> UpdateSnapshotInput \<Rightarrow> ('w, unit) wf" where
  "updateSnapshot env input = call (UpdateSnapshot input) (we_updateSnapshot env input)"

section \<open>Dependencies\<close>

definition SEALED_CREDENTIAL_PLATFORMS :: "string list" where
  "SEALED_CREDENTIAL_PLATFORMS = [''mattermost'']"

definition resolveCommunityFetch ::
  "'w wf_env \<Rightarrow> string \<Rightarrow> AlgorithmPresetInput list \<Rightarrow> int \<Rightarrow> ('w, CommunityFetchInput) wf" where
  "resolveCommunityFetch env dependencyKey inputs windowEnd =
     wbind (lift (extractCommunityFetchInput inputs windowEnd)) (\<lambda>fetchInput.
     wbind (call (GetConnection (cf_connectionId fetchInput)) (we_getConnection env (cf_connectionId fetchInput))) (\<lambda>connection.
       let platform = COMMUNITY_PLATFORM_BY_DEPENDENCY_KEY dependencyKey
       in if Some (cn_platform connection) \<noteq> platform
          then throw (js_error (''Preset connection '' @ cn_name connection @ '' is a '' @ cn_platform connection @ '' connection''))
          else if cn_platform connection \<notin> set SEALED_CREDENTIAL_PLATFORMS
          then ret (fetchInput\<lparr>cf_communityId := cn_externalId connection\<rparr>)
          else wbind (call (GetSealedCredential (cf_connectionId fetchInput))
                       (we_getSealedCredential env (cf_connectionId fetchInput))) (\<lambda>credentialsCiphertext.
                 ret (fetchInput\<lparr>cf_communityId := cn_externalId connection,
                                 cf_credentialsCiphertext := Some credentialsCiphertext\<rparr>))))"

definition communityTaskQueue :: string where
  "communityTaskQueue = ''community-worker''"

definition onchainDataTaskQueue :: string where
  "onchainDataTaskQueue = ''onchain-data-worker''"

definition resolveDependency :: "'w wf_env \<Rightarrow> string \<Rightarrow> ResolveDependencyInput \<Rightarrow> ('w, string option) wf" where
  "resolveDependency env queue input = call (ResolveDependency queue input) (we_resolve env queue input)"

definition resolveCommunityDependencyWithWriteback ::
  "'w wf_env \<Rightarrow> ResolveDependencyInput \<Rightarrow> CommunityFetchInput \<Rightarrow> ('w, string option) wf" where
  "resolveCommunityDependencyWithWriteback env input fetch =
     catch (resolveDependency env communityTaskQueue input) (\<lambda>error.
       wbind
         (if we_isCancellation env error then ret ()
          else catch
                 (wbind (call (CheckConnectionHealth (cf_connectionId fetch)) (we_checkHealth env (cf_connectionId fetch)))
                   (\<lambda>_. ret ()))
                 (\<lambda>_. ret ()))
         (\<lambda>_. throw error))"

definition resolve_one ::
  "'w wf_env \<Rightarrow> string \<Rightarrow> SyncTarget list \<Rightarrow> (string \<Rightarrow> AlgorithmPresetInput list) \<Rightarrow> string
     \<Rightarrow> ('w, string option) wf" where
  "resolve_one env snapshotId syncTargets presetOf dependencyKey =
     (if dependencyKey = ''onchain-data''
      then resolveDependency env onchainDataTaskQueue
             \<lparr>rd_dependencyKey = dependencyKey, rd_snapshotId = snapshotId, rd_syncTargets = Some syncTargets,
              rd_communityFetch = None\<rparr>
      else if isCommunityDependencyKey dependencyKey
      then wbind (resolveCommunityFetch env dependencyKey (presetOf dependencyKey) (we_startTime env)) (\<lambda>fetch.
             resolveCommunityDependencyWithWriteback env
               \<lparr>rd_dependencyKey = dependencyKey, rd_snapshotId = snapshotId, rd_syncTargets = None,
                rd_communityFetch = Some fetch\<rparr> fetch)
      else resolveDependency env (we_taskQueue env)
             \<lparr>rd_dependencyKey = dependencyKey, rd_snapshotId = snapshotId, rd_syncTargets = None,
              rd_communityFetch = None\<rparr>)"

definition override_snapshot :: "string option list \<Rightarrow> SnapshotDto \<Rightarrow> SnapshotDto" where
  "override_snapshot results snapshot =
     (case pickGeneratedDidsKey results of
        None \<Rightarrow> snapshot
      | Some didsKey \<Rightarrow>
          snapshot\<lparr>dt_frozen := (dt_frozen snapshot)
                     \<lparr>fz_inputs := applyDidsOverride didsKey (fz_inputs (dt_frozen snapshot))\<rparr>\<rparr>)"

definition resolve_combined ::
  "'w wf_env \<Rightarrow> string \<Rightarrow> SnapshotDto \<Rightarrow> OrchestratorAlgorithmDefinition \<Rightarrow> ('w, SnapshotDto) wf" where
  "resolve_combined env snapshotId snapshot definition' =
     (let childPresets = buildCombinedChildAlgorithmPresets (fz_inputs (dt_frozen snapshot)) definition'
      in wbind (promise_all env (map (\<lambda>childPreset.
             wbind (call (GetDefinition (ch_key childPreset) (ch_version childPreset))
                     (we_getDefinition env (ch_key childPreset) (ch_version childPreset)))
               (\<lambda>d. ret \<lparr>ds_definition = d, ds_inputs = ch_inputs childPreset\<rparr>)) childPresets)) (\<lambda>children.
           let sources = \<lparr>ds_definition = definition', ds_inputs = fz_inputs (dt_frozen snapshot)\<rparr> # children;
               dependencyKeys = collectDependencyKeys sources
           in if dependencyKeys = [] then ret snapshot
              else wbind (lift (collectOnchainSyncTargets sources)) (\<lambda>syncTargets.
                   wbind (promise_all env (map (resolve_one env snapshotId syncTargets
                       (\<lambda>k. case findDependencyPreset sources k of None \<Rightarrow> [] | Some inputs \<Rightarrow> inputs)) dependencyKeys))
                     (\<lambda>results. ret (override_snapshot results snapshot)))))"

definition resolve_plain ::
  "'w wf_env \<Rightarrow> string \<Rightarrow> SnapshotDto \<Rightarrow> OrchestratorAlgorithmDefinition \<Rightarrow> ('w, SnapshotDto) wf" where
  "resolve_plain env snapshotId snapshot definition' =
     (let deps = or_empty (ad_dependencies definition')
      in if deps = [] then ret snapshot
         else wbind (lift (extractOnchainSyncTargets (fz_inputs (dt_frozen snapshot)) definition')) (\<lambda>syncTargets.
              wbind (promise_all env (map (resolve_one env snapshotId syncTargets
                  (\<lambda>_. fz_inputs (dt_frozen snapshot))) deps))
                (\<lambda>results. ret (override_snapshot results snapshot))))"

section \<open>The phases of a run\<close>

definition encrypted_phase ::
  "'w wf_env \<Rightarrow> nat \<Rightarrow> nat \<Rightarrow> string \<Rightarrow> SnapshotDto \<Rightarrow> string \<Rightarrow> SnapshotOutputs \<Rightarrow> ('w, unit) wf" where
  "encrypted_phase env pf fuel snapshotId snapshot algorithmTaskQueue outputs =
     wbind (updateSnapshot env
       \<lparr>in_snapshotId = snapshotId, in_status = None, in_temporal = Some (temporal_info env (Some algorithmTaskQueue)),
        in_outputs = Some outputs, in_error = None\<rparr>) (\<lambda>_.
     let raw = \<lparr>sr_snapshotId = snapshotId, sr_frozen = dt_frozen snapshot, sr_outputs = outputs,
                sr_timestamp = we_startTime env\<rparr>
     in wbind (call (SubmitRawScores raw) (we_submitRaw env raw)) (\<lambda>children.
        wbind (runEncryptedCustomScoreLifecycle env pf fuel
          \<lparr>sx_snapshotId = snapshotId, sx_frozen = dt_frozen snapshot, sx_observations = children,
           sx_timestamp = we_startTime env\<rparr>) (\<lambda>_. ret ())))"

definition completed_update :: "'w wf_env \<Rightarrow> string \<Rightarrow> string \<Rightarrow> SnapshotOutputs \<Rightarrow> UpdateSnapshotInput" where
  "completed_update env snapshotId algorithmTaskQueue outputs =
     \<lparr>in_snapshotId = snapshotId, in_status = Some completed,
      in_temporal = Some (temporal_info env (Some algorithmTaskQueue)), in_outputs = Some outputs, in_error = None\<rparr>"

definition runSnapshotPhases ::
  "'w wf_env \<Rightarrow> nat \<Rightarrow> nat \<Rightarrow> string \<Rightarrow> SnapshotDto \<Rightarrow> ('w, unit) wf" where
  "runSnapshotPhases env pf fuel snapshotId snapshot =
     (let algorithmKey = fz_key (dt_frozen snapshot);
          algorithmVersion = fz_version (dt_frozen snapshot)
      in wbind (call (GetDefinition algorithmKey algorithmVersion) (we_getDefinition env algorithmKey algorithmVersion)) (\<lambda>d.
         wbind get_run (\<lambda>run.
         wbind (set_run (run\<lparr>sr_algorithmKind := ad_kind d\<rparr>)) (\<lambda>_.
         wbind (lift (getAlgorithmTaskQueueFromRuntime (ad_runtime d))) (\<lambda>algorithmTaskQueue.
         wbind (set_run \<lparr>sr_algorithmTaskQueue = Some algorithmTaskQueue, sr_algorithmKind = ad_kind d\<rparr>) (\<lambda>_.
         wbind (if ad_kind d = Some ''combined'' then resolve_combined env snapshotId snapshot d
                else resolve_plain env snapshotId snapshot d) (\<lambda>snapshot'.
         wbind (if ad_runtime d = ''typescript'' then call (RunAlgorithm snapshot') (we_runAlgorithm env snapshot')
                else throw (js_error (''Unsupported algorithm: '' @ algorithmKey))) (\<lambda>outputs.
         wbind (if ad_kind d = Some ''combined''
                then encrypted_phase env pf fuel snapshotId snapshot' algorithmTaskQueue outputs else ret ()) (\<lambda>_.
         updateSnapshot env (completed_update env snapshotId algorithmTaskQueue outputs))))))))))"

section \<open>Publication\<close>

definition record_publication ::
  "'w wf_env \<Rightarrow> string \<Rightarrow> string \<Rightarrow> SnapshotPublicationStatus \<Rightarrow> SnapshotPublicationCounts option
     \<Rightarrow> string option \<Rightarrow> ('w, unit) wf" where
  "record_publication env snapshotId algorithmKey status counts error =
     (let input = \<lparr>rp_snapshotId = snapshotId, rp_algorithmKey = algorithmKey, rp_status = status,
                   rp_counts = counts, rp_error = error\<rparr>
      in catch (call (RecordPublication input) (we_recordPublication env input)) (\<lambda>_. ret ()))"

definition publish_scores :: "'w wf_env \<Rightarrow> string \<Rightarrow> string \<Rightarrow> ('w, unit) wf" where
  "publish_scores env snapshotId algorithmKey =
     catch
       (wbind (call (GetSnapshot snapshotId) (we_getSnapshot env snapshotId)) (\<lambda>completedSnapshot.
        wbind (record_publication env snapshotId algorithmKey pub_pending None None) (\<lambda>_.
        wbind (call (PostScores completedSnapshot (we_startTime env))
                 (we_postScores env completedSnapshot (we_startTime env))) (\<lambda>postResult.
          if ps_attempted postResult
          then record_publication env snapshotId algorithmKey pub_sent (Some (ps_counts postResult)) None
          else record_publication env snapshotId algorithmKey pub_failed None
                 (Some ''The algorithm produced no postable score output'')))))
       (\<lambda>postError. record_publication env snapshotId algorithmKey pub_failed None
          (Some (describePublicationFailure postError)))"

section \<open>The run\<close>

definition failure_message :: "'w wf_env \<Rightarrow> wf_error \<Rightarrow> string" where
  "failure_message env error =
     (if we_isCancellation env error then ''Workflow was cancelled''
      else if we_message error = [] then ''Unknown error'' else we_message error)"

definition failure_update :: "'w wf_env \<Rightarrow> string \<Rightarrow> string option \<Rightarrow> wf_error \<Rightarrow> UpdateSnapshotInput" where
  "failure_update env snapshotId algorithmTaskQueue error =
     \<lparr>in_snapshotId = snapshotId, in_status = Some (if we_isCancellation env error then cancelled else failed),
      in_temporal = Some (temporal_info env algorithmTaskQueue), in_outputs = None,
      in_error = Some \<lparr>err_message = failure_message env error, err_timestamp = None, err_extra = []\<rparr>\<rparr>"

definition handle_failure :: "'w wf_env \<Rightarrow> string \<Rightarrow> wf_error \<Rightarrow> ('w, unit) wf" where
  "handle_failure env snapshotId error =
     (if isSnapshotNotFound error then throw error
      else
        wbind get_run (\<lambda>run.
        wbind (catch (updateSnapshot env (failure_update env snapshotId (sr_algorithmTaskQueue run) error)) (\<lambda>_. ret ()))
          (\<lambda>_. throw error)))"

definition running_update :: "'w wf_env \<Rightarrow> string \<Rightarrow> UpdateSnapshotInput" where
  "running_update env snapshotId =
     \<lparr>in_snapshotId = snapshotId, in_status = Some running, in_temporal = Some (temporal_info env None),
      in_outputs = None, in_error = None\<rparr>"

definition runOrchestrator :: "'w wf_env \<Rightarrow> nat \<Rightarrow> nat \<Rightarrow> string \<Rightarrow> ('w, unit) wf" where
  "runOrchestrator env pf fuel snapshotId =
     wbind (call (GetSnapshot snapshotId) (we_getSnapshot env snapshotId)) (\<lambda>snapshot.
       if dt_status snapshot = completed then ret ()
       else
         wbind (updateSnapshot env (running_update env snapshotId)) (\<lambda>_.
         wbind (set_run \<lparr>sr_algorithmTaskQueue = None, sr_algorithmKind = None\<rparr>) (\<lambda>_.
         wbind (catch (runSnapshotPhases env pf fuel snapshotId snapshot) (handle_failure env snapshotId)) (\<lambda>_.
         wbind get_run (\<lambda>run.
           if sr_algorithmKind run \<noteq> Some ''combined''
           then publish_scores env snapshotId (fz_key (dt_frozen snapshot)) else ret ())))))"

definition OrchestratorWorkflow :: "'w wf_env \<Rightarrow> nat \<Rightarrow> nat \<Rightarrow> string \<Rightarrow> ('w, unit) wf" where
  "OrchestratorWorkflow env pf fuel snapshotId =
     catch (runOrchestrator env pf fuel snapshotId) (\<lambda>error.
       if we_kind error = JsError then throw (we_fromError env error) else throw error)"

section \<open>What each part calls\<close>

text \<open>Calls of the preparation phases: reads, dependency resolution and the algorithm.\<close>

abbreviation prep_entry :: "wf_call \<times> reply \<Rightarrow> bool" where
  "prep_entry c \<equiv> (case fst c of GetDefinition _ _ \<Rightarrow> True | GetConnection _ \<Rightarrow> True | GetSealedCredential _ \<Rightarrow> True
     | CheckConnectionHealth _ \<Rightarrow> True | ResolveDependency _ _ \<Rightarrow> True | RunAlgorithm _ \<Rightarrow> True | _ \<Rightarrow> False)"

lemma resolve_one_only: "only prep_entry (resolve_one env i ts pre k)"
  unfolding resolve_one_def resolveCommunityFetch_def resolveCommunityDependencyWithWriteback_def
    resolveDependency_def Let_def
  by (auto intro!: only_rules)

lemma resolve_combined_only: "only prep_entry (resolve_combined env i snap d)"
  unfolding resolve_combined_def Let_def
  by (auto intro!: only_rules resolve_one_only)

lemma resolve_plain_only: "only prep_entry (resolve_plain env i snap d)"
  unfolding resolve_plain_def Let_def
  by (auto intro!: only_rules resolve_one_only)

abbreviation pub_entry :: "wf_call \<times> reply \<Rightarrow> bool" where
  "pub_entry c \<equiv> (case fst c of GetSnapshot _ \<Rightarrow> True | RecordPublication _ \<Rightarrow> True | PostScores _ _ \<Rightarrow> True | _ \<Rightarrow> False)"

lemma publish_only: "only pub_entry (publish_scores env i k)"
  unfolding publish_scores_def record_publication_def Let_def
  by (auto intro!: only_rules)

text \<open>Publication never throws and never diverges.\<close>

definition total :: "('w, 'a) wf \<Rightarrow> bool" where
  "total m \<longleftrightarrow> (\<forall>s. \<exists>x. fst (m s) = Done x)"

definition settles :: "('w, 'a) wf \<Rightarrow> bool" where
  "settles m \<longleftrightarrow> (\<forall>s. fst (m s) \<noteq> Diverge)"

lemma settles_bind: "settles m \<Longrightarrow> (\<And>x. settles (f x)) \<Longrightarrow> settles (wbind m f)"
  unfolding settles_def
proof
  fix s
  assume m: "\<forall>s. fst (m s) \<noteq> Diverge" and f: "\<And>x. \<forall>s. fst (f x s) \<noteq> Diverge"
  show "fst (wbind m f s) \<noteq> Diverge"
    using m[rule_format, of s] f by (auto simp: wbind_def split: prod.split wf_result.split)
qed

lemma settles_call: "settles (call_with cls c f)"
  by (auto simp: settles_def call_with_def split: prod.split sum.split)

lemma settles_total: "total m \<Longrightarrow> settles m"
  unfolding settles_def total_def by (metis wf_result.distinct(3))

lemma total_ret: "total (ret x)"
  by (simp add: total_def ret_def)

lemma total_catch: "settles m \<Longrightarrow> (\<And>e. total (h e)) \<Longrightarrow> total (catch m h)"
  unfolding total_def settles_def
proof
  fix s
  assume m: "\<forall>s. fst (m s) \<noteq> Diverge" and h: "\<And>e. \<forall>s. \<exists>x. fst (h e s) = Done x"
  show "\<exists>x. fst (catch m h s) = Done x"
    using m[rule_format, of s] h by (auto simp: catch_def split: prod.split wf_result.split)
qed

lemma record_publication_total: "total (record_publication env i k st c e)"
  unfolding record_publication_def Let_def by (intro total_catch settles_call total_ret)

lemma publish_total: "total (publish_scores env i k)"
  unfolding publish_scores_def
  by (intro total_catch record_publication_total settles_bind settles_call)
    (auto intro: settles_total record_publication_total)

text \<open>The history of the phases: a completed write is the last call, and only comes after acceptance.\<close>

definition status_write :: "SnapshotStatus \<Rightarrow> wf_call \<Rightarrow> bool" where
  "status_write st c \<longleftrightarrow> (case c of UpdateSnapshot u \<Rightarrow> in_status u = Some st | _ \<Rightarrow> False)"

definition any_status_write :: "wf_call \<Rightarrow> bool" where
  "any_status_write c \<longleftrightarrow> (case c of UpdateSnapshot u \<Rightarrow> in_status u \<noteq> None | _ \<Rightarrow> False)"

definition is_raw :: "wf_call \<Rightarrow> bool" where
  "is_raw c \<longleftrightarrow> (case c of SubmitRawScores _ \<Rightarrow> True | _ \<Rightarrow> False)"

definition is_post :: "wf_call \<Rightarrow> bool" where
  "is_post c \<longleftrightarrow> (case c of PostScores _ _ \<Rightarrow> True | _ \<Rightarrow> False)"

lemmas entry_defs = status_write_def any_status_write_def is_raw_def is_post_def is_submit_def

abbreviation quiet_entry :: "wf_call \<times> reply \<Rightarrow> bool" where
  "quiet_entry c \<equiv> \<not> any_status_write (fst c) \<and> \<not> is_post (fst c)"

definition accepted :: "history \<Rightarrow> bool" where
  "accepted h \<longleftrightarrow> (\<exists>a x. h = a @ [(SubmitEncryptedScores x, Ok)])"

lemma lifecycle_entry_quiet:
  "list_all (\<lambda>c. poll_entry c \<or> fst c = SubmitEncryptedScores x) h \<Longrightarrow> list_all quiet_entry h"
proof -
  have "quiet_entry c" if "poll_entry c \<or> fst c = SubmitEncryptedScores x" for c
    using that by (cases "fst c") (auto simp: entry_defs)
  then show "list_all (\<lambda>c. poll_entry c \<or> fst c = SubmitEncryptedScores x) h \<Longrightarrow> list_all quiet_entry h"
    by (auto simp: list_all_iff)
qed

lemma encrypted_phase_history:
  "emits (\<lambda>r h. list_all quiet_entry h \<and> ((\<exists>x. r = Done x) \<longrightarrow> accepted h))
     (encrypted_phase env pf fuel i snap q outs)"
  unfolding encrypted_phase_def Let_def
proof (rule emits_bind[where P = "\<lambda>_ h. list_all quiet_entry h" and R = "\<lambda>_ r h. list_all quiet_entry h \<and> ((\<exists>x. r = Done x) \<longrightarrow> accepted h)"])
  show "emits (\<lambda>_. list_all quiet_entry) (updateSnapshot env \<lparr>in_snapshotId = i, in_status = None,
      in_temporal = Some (temporal_info env (Some q)), in_outputs = Some outs, in_error = None\<rparr>)"
    unfolding updateSnapshot_def by (rule emits_call) (simp_all add: entry_defs)
next
  fix u :: unit
  let ?raw = "\<lparr>sr_snapshotId = i, sr_frozen = dt_frozen snap, sr_outputs = outs, sr_timestamp = we_startTime env\<rparr>"
  show "emits (\<lambda>r h. list_all quiet_entry h \<and> ((\<exists>x. r = Done x) \<longrightarrow> accepted h))
      (wbind (call (SubmitRawScores ?raw) (we_submitRaw env ?raw)) (\<lambda>children.
        wbind (runEncryptedCustomScoreLifecycle env pf fuel
          \<lparr>sx_snapshotId = i, sx_frozen = dt_frozen snap, sx_observations = children, sx_timestamp = we_startTime env\<rparr>)
          (\<lambda>_. ret ())))"
  proof (rule emits_bind[where P = "\<lambda>_ h. list_all quiet_entry h" and R = "\<lambda>_ r h. list_all quiet_entry h \<and> ((\<exists>x. r = Done x) \<longrightarrow> accepted h)"])
    fix children
    let ?x = "\<lparr>sx_snapshotId = i, sx_frozen = dt_frozen snap, sx_observations = children, sx_timestamp = we_startTime env\<rparr>"
    have "emits (\<lambda>r h. list_all quiet_entry h \<and> ((\<exists>y. r = Done y) \<longrightarrow> accepted h))
        (runEncryptedCustomScoreLifecycle env pf fuel ?x)"
    proof (rule emits_mono[OF lifecycle_emits])
      fix r :: "EncryptedCustomScoreLifecycleOutcome wf_result" and h
      assume a: "lifecycle_ok ?x r h"
      have "accepted h" if "h \<noteq> []" "last h = (SubmitEncryptedScores ?x, Ok)"
        using that unfolding accepted_def by (metis append_butlast_last_id)
      with a show "list_all quiet_entry h \<and> ((\<exists>y. r = Done y) \<longrightarrow> accepted h)"
        using lifecycle_entry_quiet by blast
    qed
    then show "emits (\<lambda>r h. list_all quiet_entry h \<and> ((\<exists>x. r = Done x) \<longrightarrow> accepted h))
        (wbind (runEncryptedCustomScoreLifecycle env pf fuel ?x) (\<lambda>_. ret ()))"
      by (rule emits_bind[where R = "\<lambda>_ r h. h = []"]) (auto intro!: emits_ret)
  qed (auto intro!: emits_call simp: entry_defs accepted_def)
qed (auto simp: accepted_def)

definition phases_ok :: "'w wf_env \<Rightarrow> string \<Rightarrow> unit wf_result \<Rightarrow> history \<Rightarrow> bool" where
  "phases_ok env i r h \<longleftrightarrow>
     (\<exists>a b. h = a @ b \<and> list_all quiet_entry a
        \<and> (b = [] \<and> (\<forall>x. r \<noteq> Done x)
           \<or> (\<exists>q outs rep. b = [(UpdateSnapshot (completed_update env i q outs), rep)]
                \<and> (rep = Ok \<longleftrightarrow> r = Done ()) \<and> ((\<exists>c \<in> set a. is_raw (fst c)) \<longrightarrow> accepted a))))"

lemma prep_quiet: "list_all prep_entry h \<Longrightarrow> list_all quiet_entry h \<and> \<not> (\<exists>c \<in> set h. is_raw (fst c))"
proof -
  have "quiet_entry c \<and> \<not> is_raw (fst c)" if "prep_entry c" for c
    using that by (cases "fst c") (auto simp: entry_defs)
  then show "list_all prep_entry h \<Longrightarrow> list_all quiet_entry h \<and> \<not> (\<exists>c \<in> set h. is_raw (fst c))"
    by (auto simp: list_all_iff)
qed

lemma accepted_append: "accepted a \<Longrightarrow> accepted (p @ a)"
  unfolding accepted_def by (metis append.assoc)

lemma phases_ok_prefix:
  assumes "list_all prep_entry p" "phases_ok env i r h"
  shows "phases_ok env i r (p @ h)"
proof -
  obtain a b where ab: "h = a @ b" "list_all quiet_entry a"
    "b = [] \<and> (\<forall>x. r \<noteq> Done x) \<or> (\<exists>q outs rep. b = [(UpdateSnapshot (completed_update env i q outs), rep)]
       \<and> (rep = Ok \<longleftrightarrow> r = Done ()) \<and> ((\<exists>c \<in> set a. is_raw (fst c)) \<longrightarrow> accepted a))"
    using assms(2) unfolding phases_ok_def by blast
  have "(\<exists>c \<in> set (p @ a). is_raw (fst c)) \<longrightarrow> accepted (p @ a)"
    if "(\<exists>c \<in> set a. is_raw (fst c)) \<longrightarrow> accepted a"
    using that prep_quiet[OF assms(1)] accepted_append by auto
  moreover have "list_all quiet_entry (p @ a)" using prep_quiet[OF assms(1)] ab(2) by simp
  ultimately show ?thesis
    unfolding phases_ok_def using ab(1,3) by (intro exI[of _ "p @ a"] exI[of _ b]) auto
qed

lemma phases_ok_stop: "list_all quiet_entry h \<Longrightarrow> (\<And>x. r \<noteq> Done x) \<Longrightarrow> phases_ok env i r h"
  unfolding phases_ok_def by (intro exI[of _ h] exI[of _ "[]"]) simp

lemma emits_prep_bind:
  assumes "only prep_entry m" "\<And>x. emits (phases_ok env i) (f x)"
  shows "emits (phases_ok env i) (wbind m f)"
  using assms(1) unfolding only_def
  by (rule emits_bind[where R = "\<lambda>_. phases_ok env i"])
    (auto intro: assms(2) phases_ok_prefix phases_ok_stop dest: prep_quiet)

lemma emits_finish:
  "emits (phases_ok env i)
     (wbind (if comb then encrypted_phase env pf fuel i snap q outs else ret ())
       (\<lambda>_. updateSnapshot env (completed_update env i q outs)))"
proof (rule emits_bind)
  show "emits (\<lambda>r h. list_all quiet_entry h \<and> ((\<exists>x. r = Done x) \<longrightarrow> h = [] \<or> accepted h))
      (if comb then encrypted_phase env pf fuel i snap q outs else ret ())"
    by (auto intro!: emits_ret intro: emits_mono[OF encrypted_phase_history])
  show "emits (\<lambda>r h. \<exists>rep. h = [(UpdateSnapshot (completed_update env i q outs), rep)] \<and> (rep = Ok \<longleftrightarrow> r = Done ()))
      (updateSnapshot env (completed_update env i q outs))" for x :: unit
    unfolding updateSnapshot_def by (rule emits_call) auto
next
  fix x :: unit and h r h'
  assume h: "list_all quiet_entry h \<and> ((\<exists>y. Done x = Done y) \<longrightarrow> h = [] \<or> accepted h)"
    and h': "\<exists>rep. h' = [(UpdateSnapshot (completed_update env i q outs), rep)] \<and> (rep = Ok \<longleftrightarrow> r = Done ())"
  then obtain rep where "h' = [(UpdateSnapshot (completed_update env i q outs), rep)]" "rep = Ok \<longleftrightarrow> r = Done ()"
    by blast
  moreover have "(\<exists>c \<in> set h. is_raw (fst c)) \<longrightarrow> accepted h" using h by auto
  ultimately show "phases_ok env i r (h @ h')"
    using h unfolding phases_ok_def by (intro exI[of _ h] exI[of _ h'] conjI disjI2) blast+
qed (auto intro: phases_ok_stop)

lemma run_phases_ok: "emits (phases_ok env i) (runSnapshotPhases env pf fuel i snap)"
  unfolding runSnapshotPhases_def Let_def
  by (intro emits_prep_bind emits_silent emits_finish)
    (auto intro!: only_rules resolve_combined_only resolve_plain_only)

section \<open>The history of a run\<close>

lemma handle_failure_history:
  "emits (\<lambda>r h. r = Throw e \<and> (isSnapshotNotFound e \<and> h = []
      \<or> (\<not> isSnapshotNotFound e \<and> (\<exists>q rep. h = [(UpdateSnapshot (failure_update env i q e), rep)]))))
     (handle_failure env i e)"
proof (cases "isSnapshotNotFound e")
  case False
  have "emits (\<lambda>r h. r = Done () \<and> (\<exists>rep. h = [(UpdateSnapshot u, rep)])) (catch (updateSnapshot env u) (\<lambda>_. ret ()))" for u
    unfolding updateSnapshot_def
    by (rule emits_catch[where P = "\<lambda>r h. r \<noteq> Diverge \<and> (\<exists>rep. h = [(UpdateSnapshot u, rep)])"
          and R = "\<lambda>_ r h. r = Done () \<and> h = []"])
      (auto intro!: emits_call emits_ret)
  then show ?thesis
    using False unfolding handle_failure_def
    by (simp, intro emits_silent)
      (rule emits_bind[where R = "\<lambda>_ r h. r = Throw e \<and> h = []"], assumption, auto intro!: emits_throw)
qed (simp add: handle_failure_def emits_throw)

text \<open>The guarded part of the run: either it completed, or its failure was written, or the row is gone.\<close>

definition guarded_ok :: "'w wf_env \<Rightarrow> string \<Rightarrow> unit wf_result \<Rightarrow> history \<Rightarrow> bool" where
  "guarded_ok env i r h \<longleftrightarrow>
     (case r of
        Done _ \<Rightarrow> \<exists>a q outs. h = a @ [(UpdateSnapshot (completed_update env i q outs), Ok)] \<and> list_all quiet_entry a
                   \<and> ((\<exists>c \<in> set a. is_raw (fst c)) \<longrightarrow> accepted a)
      | Throw e \<Rightarrow> (\<exists>a b. h = a @ b \<and> phases_ok env i (Throw e) a
                   \<and> (isSnapshotNotFound e \<and> b = []
                      \<or> \<not> isSnapshotNotFound e \<and> (\<exists>q rep. b = [(UpdateSnapshot (failure_update env i q e), rep)])))
      | Diverge \<Rightarrow> phases_ok env i Diverge h)"

lemma phases_ok_Done:
  "phases_ok env i (Done x) h \<Longrightarrow>
     \<exists>a q outs. h = a @ [(UpdateSnapshot (completed_update env i q outs), Ok)] \<and> list_all quiet_entry a
       \<and> ((\<exists>c \<in> set a. is_raw (fst c)) \<longrightarrow> accepted a)"
  unfolding phases_ok_def by auto

lemma guarded_history:
  "emits (guarded_ok env i) (catch (runSnapshotPhases env pf fuel i snap) (handle_failure env i))"
  by (rule emits_catch[OF run_phases_ok handle_failure_history])
    (auto simp: guarded_ok_def dest!: phases_ok_Done)

definition run_ok :: "'w wf_env \<Rightarrow> string \<Rightarrow> unit wf_result \<Rightarrow> history \<Rightarrow> bool" where
  "run_ok env i r h \<longleftrightarrow>
     (\<exists>e. h = [(GetSnapshot i, Failed)] \<and> r = Throw e)
   \<or> h = [(GetSnapshot i, Ok)] \<and> r = Done ()
   \<or> (\<exists>e. h = [(GetSnapshot i, Ok), (UpdateSnapshot (running_update env i), Failed)] \<and> r = Throw e)
   \<or> (\<exists>g p rg. h = (GetSnapshot i, Ok) # (UpdateSnapshot (running_update env i), Ok) # g @ p
        \<and> guarded_ok env i rg g \<and> r = rg
        \<and> list_all pub_entry p \<and> ((\<forall>x. rg \<noteq> Done x) \<longrightarrow> p = []))"

lemma publish_emits: "emits (\<lambda>r h. r = Done () \<and> list_all pub_entry h) (publish_scores env i k)"
proof -
  have "emits (\<lambda>r h. (\<exists>x. r = Done x) \<and> list_all pub_entry h) (publish_scores env i k)"
    using publish_only[of env i k] publish_total[of env i k] by (simp add: only_def emits_def total_def)
  then show ?thesis by (rule emits_mono) auto
qed

lemma run_history: "emits (run_ok env i) (runOrchestrator env pf fuel i)"
  unfolding runOrchestrator_def
proof (rule emits_bind)
  show "emits (\<lambda>r h. (case r of Done _ \<Rightarrow> h = [(GetSnapshot i, Ok)] | Throw _ \<Rightarrow> h = [(GetSnapshot i, Failed)] | Diverge \<Rightarrow> False))
      (call (GetSnapshot i) (we_getSnapshot env i))"
    by (rule emits_call) auto
  let ?G = "\<lambda>r h. \<exists>g p rg. h = g @ p \<and> guarded_ok env i rg g \<and> r = rg \<and> list_all pub_entry p
      \<and> ((\<forall>x. rg \<noteq> Done x) \<longrightarrow> p = [])"
  have tail: "emits ?G
      (wbind (catch (runSnapshotPhases env pf fuel i snapshot) (handle_failure env i)) (\<lambda>_.
         wbind get_run (\<lambda>run. if sr_algorithmKind run \<noteq> Some ''combined''
           then publish_scores env i (fz_key (dt_frozen snapshot)) else ret ())))" for snapshot
    by (rule emits_bind[OF guarded_history, where R = "\<lambda>_ r h. r = Done () \<and> list_all pub_entry h"])
      (auto intro!: emits_silent emits_ret publish_emits)
  let ?R = "\<lambda>r h. h = [] \<and> r = Done () \<or> (\<exists>e. h = [(UpdateSnapshot (running_update env i), Failed)] \<and> r = Throw e)
      \<or> (\<exists>h'. h = (UpdateSnapshot (running_update env i), Ok) # h' \<and> ?G r h')"
  show "emits ?R (if dt_status snapshot = completed then ret ()
       else wbind (updateSnapshot env (running_update env i)) (\<lambda>_.
         wbind (set_run \<lparr>sr_algorithmTaskQueue = None, sr_algorithmKind = None\<rparr>) (\<lambda>_.
         wbind (catch (runSnapshotPhases env pf fuel i snapshot) (handle_failure env i)) (\<lambda>_.
         wbind get_run (\<lambda>run. if sr_algorithmKind run \<noteq> Some ''combined''
           then publish_scores env i (fz_key (dt_frozen snapshot)) else ret ())))))" for snapshot
  proof (cases "dt_status snapshot = completed")
    case False
    have up: "emits (\<lambda>r h. (case r of Done _ \<Rightarrow> h = [(UpdateSnapshot (running_update env i), Ok)]
          | Throw _ \<Rightarrow> h = [(UpdateSnapshot (running_update env i), Failed)] | Diverge \<Rightarrow> False))
        (updateSnapshot env (running_update env i))"
      unfolding updateSnapshot_def by (rule emits_call) auto
    show ?thesis
      unfolding if_not_P[OF False]
      by (rule emits_bind[OF up emits_silent(2)[OF tail]]) auto
  qed (simp add: emits_ret)
qed (auto simp: run_ok_def)

lemma OrchestratorWorkflow_history:
  "ws_history (snd (OrchestratorWorkflow env pf fuel i s)) = ws_history (snd (runOrchestrator env pf fuel i s))"
  "fst (OrchestratorWorkflow env pf fuel i s) = Done x \<longleftrightarrow> fst (runOrchestrator env pf fuel i s) = Done x"
  by (auto simp: OrchestratorWorkflow_def catch_def throw_def split: prod.split wf_result.split)

text \<open>Where a status write or a posting can stand in the history of a run.\<close>

lemma guarded_shape:
  assumes "guarded_ok env i r g"
  shows "\<exists>a b f. g = a @ b @ f \<and> list_all quiet_entry a
    \<and> (b = [] \<or> (\<exists>q outs rep. b = [(UpdateSnapshot (completed_update env i q outs), rep)]
         \<and> ((\<exists>c \<in> set a. is_raw (fst c)) \<longrightarrow> accepted a)))
    \<and> list_all (\<lambda>c. \<not> is_post (fst c) \<and> \<not> status_write completed (fst c)) f"
proof -
  have ph: "\<exists>a b. h = a @ b \<and> list_all quiet_entry a
      \<and> (b = [] \<or> (\<exists>q outs rep. b = [(UpdateSnapshot (completed_update env i q outs), rep)]
           \<and> ((\<exists>c \<in> set a. is_raw (fst c)) \<longrightarrow> accepted a)))" if "phases_ok env i x h" for x h
    using that unfolding phases_ok_def by blast
  show ?thesis
  proof (cases r)
    case (Done u)
    then obtain a q outs where a: "g = a @ [(UpdateSnapshot (completed_update env i q outs), Ok)]"
      "list_all quiet_entry a" "(\<exists>c \<in> set a. is_raw (fst c)) \<longrightarrow> accepted a"
      using assms unfolding guarded_ok_def by auto
    then show ?thesis
      by (intro exI[of _ a] exI[of _ "[(UpdateSnapshot (completed_update env i q outs), Ok)]"] exI[of _ "[]"]) auto
  next
    case (Throw e)
    then obtain h f where hf: "g = h @ f" "phases_ok env i (Throw e) h"
      "f = [] \<or> (\<exists>q rep. f = [(UpdateSnapshot (failure_update env i q e), rep)])"
      using assms unfolding guarded_ok_def by auto
    have "list_all (\<lambda>c. \<not> is_post (fst c) \<and> \<not> status_write completed (fst c)) f"
      using hf(3) by (auto simp: entry_defs failure_update_def)
    moreover obtain a b where "h = a @ b" "list_all quiet_entry a"
      "b = [] \<or> (\<exists>q outs rep. b = [(UpdateSnapshot (completed_update env i q outs), rep)]
           \<and> ((\<exists>c \<in> set a. is_raw (fst c)) \<longrightarrow> accepted a))"
      using ph[OF hf(2)] by blast
    ultimately show ?thesis using hf(1) by (intro exI[of _ a] exI[of _ b] exI[of _ f]) simp
  next
    case Diverge
    then have "phases_ok env i Diverge g" using assms by (simp add: guarded_ok_def)
    from ph[OF this] obtain a b where "g = a @ b" "list_all quiet_entry a"
      "b = [] \<or> (\<exists>q outs rep. b = [(UpdateSnapshot (completed_update env i q outs), rep)]
           \<and> ((\<exists>c \<in> set a. is_raw (fst c)) \<longrightarrow> accepted a))" by blast
    then show ?thesis by (intro exI[of _ a] exI[of _ b] exI[of _ "[]"]) simp
  qed
qed

lemma split_after:
  assumes "x @ y = a @ c # b" "list_all (\<lambda>d. \<not> P d) x" "P c"
  obtains a' where "a = x @ a'" "y = a' @ c # b"
proof -
  have "\<not> length a < length x"
  proof
    assume "length a < length x"
    then have "x ! length a = c" using assms(1) by (metis nth_append nth_append_length)
    then show False using assms(2,3) \<open>length a < length x\<close> by (auto simp: list_all_length)
  qed
  then show ?thesis using that assms(1) by (auto simp: append_eq_append_conv2)
qed

lemma run_posts:
  assumes "run_ok env i r h" "h = x @ (c, rep) # y" "is_post c"
  shows "\<exists>q outs. (UpdateSnapshot (completed_update env i q outs), Ok) \<in> set x"
proof -
  have np: "\<not> is_post (GetSnapshot i)" "\<not> is_post (UpdateSnapshot u)" for u by (simp_all add: entry_defs)
  obtain g p rg where h: "h = (GetSnapshot i, Ok) # (UpdateSnapshot (running_update env i), Ok) # g @ p"
    "guarded_ok env i rg g" "(\<forall>x. rg \<noteq> Done x) \<longrightarrow> p = []"
  proof -
    have "(c, rep) \<in> set h" using assms(2) by simp
    then show ?thesis using assms(1,3) np that unfolding run_ok_def by auto
  qed
  obtain a b f where g: "g = a @ b @ f" "list_all quiet_entry a"
    "b = [] \<or> (\<exists>q outs rep. b = [(UpdateSnapshot (completed_update env i q outs), rep)])"
    "list_all (\<lambda>c. \<not> is_post (fst c) \<and> \<not> status_write completed (fst c)) f"
    using guarded_shape[OF h(2)] by blast
  have "list_all (\<lambda>d. \<not> is_post (fst d)) ((GetSnapshot i, Ok) # (UpdateSnapshot (running_update env i), Ok) # g)"
    using g by (auto simp: list_all_iff np)
  moreover have "((GetSnapshot i, Ok) # (UpdateSnapshot (running_update env i), Ok) # g) @ p = x @ (c, rep) # y"
    using h(1) assms(2) by simp
  ultimately obtain x' where x': "x = ((GetSnapshot i, Ok) # (UpdateSnapshot (running_update env i), Ok) # g) @ x'"
    "p = x' @ (c, rep) # y"
    using split_after[where P = "\<lambda>d. is_post (fst d)"] assms(3) by (metis fst_conv)
  then obtain u where "rg = Done u" using h(3) by auto
  then obtain a' q outs where "g = a' @ [(UpdateSnapshot (completed_update env i q outs), Ok)]"
    using h(2) unfolding guarded_ok_def by auto
  then show ?thesis using x'(1) by (intro exI[of _ q] exI[of _ outs]) simp
qed

lemma run_completes:
  assumes "run_ok env i r h" "h = x @ (c, rep) # y" "status_write completed c" "d \<in> set x" "is_raw (fst d)"
  shows "accepted x"
proof -
  have nc: "\<not> status_write completed (GetSnapshot i)" "\<not> status_write completed (UpdateSnapshot (running_update env i))"
    by (simp_all add: entry_defs running_update_def)
  obtain g p where h: "h = (GetSnapshot i, Ok) # (UpdateSnapshot (running_update env i), Ok) # g @ p"
    "\<exists>rg. guarded_ok env i rg g" "list_all pub_entry p"
  proof -
    have "(c, rep) \<in> set h" using assms(2) by simp
    then show ?thesis using assms(1,3) nc that unfolding run_ok_def by auto
  qed
  obtain a b f where g: "g = a @ b @ f" "list_all quiet_entry a"
    "b = [] \<or> (\<exists>q outs rep. b = [(UpdateSnapshot (completed_update env i q outs), rep)] \<and> ((\<exists>c \<in> set a. is_raw (fst c)) \<longrightarrow> accepted a))"
    "list_all (\<lambda>c. \<not> is_post (fst c) \<and> \<not> status_write completed (fst c)) f"
  proof -
    obtain rg where "guarded_ok env i rg g" using h(2) by blast
    from guarded_shape[OF this] that show ?thesis by blast
  qed
  let ?pre = "(GetSnapshot i, Ok) # (UpdateSnapshot (running_update env i), Ok) # a"
  have pub: "\<not> status_write completed (fst e)" if "pub_entry e" for e
    using that by (cases "fst e") (auto simp: entry_defs)
  have rest: "list_all (\<lambda>d. \<not> status_write completed (fst d)) (f @ p)"
    using g(4) h(3) pub by (auto simp: list_all_iff)
  have "list_all (\<lambda>d. \<not> status_write completed (fst d)) ?pre"
    using g(2) nc by (auto simp: list_all_iff entry_defs split: wf_call.splits)
  moreover have "?pre @ (b @ f @ p) = x @ (c, rep) # y" using h(1) g(1) assms(2) by simp
  ultimately obtain x' where x': "x = ?pre @ x'" "b @ f @ p = x' @ (c, rep) # y"
    using split_after[where P = "\<lambda>d. status_write completed (fst d)"] assms(3) by (metis fst_conv)
  have "x' = []" "(\<exists>c \<in> set a. is_raw (fst c)) \<longrightarrow> accepted a"
  proof -
    have nin: "(c, rep) \<notin> set (f @ p)"
    proof
      assume "(c, rep) \<in> set (f @ p)"
      with rest have "\<not> status_write completed (fst (c, rep))" unfolding list_all_iff by (rule bspec)
      then show False using assms(3) by simp
    qed
    have "b \<noteq> []"
    proof
      assume "b = []"
      then have "f @ p = x' @ (c, rep) # y" using x'(2) by simp
      then show False using nin by (metis in_set_conv_decomp)
    qed
    then obtain B where b: "b = [B]" "(\<exists>c \<in> set a. is_raw (fst c)) \<longrightarrow> accepted a" using g(3) by blast
    show "x' = []"
    proof (rule ccontr)
      assume "x' \<noteq> []"
      then obtain z zs where "x' = z # zs" by (cases x') auto
      then have "f @ p = zs @ (c, rep) # y" using x'(2) b(1) by simp
      then show False using nin by (metis in_set_conv_decomp)
    qed
    show "(\<exists>c \<in> set a. is_raw (fst c)) \<longrightarrow> accepted a" by (rule b(2))
  qed
  then show ?thesis
    using assms(4,5) x'(1) accepted_append[of a "[(GetSnapshot i, Ok), (UpdateSnapshot (running_update env i), Ok)]"]
    by (auto simp: entry_defs)
qed

section \<open>A concrete run\<close>

definition sample_dto :: "SnapshotStatus \<Rightarrow> SnapshotDto" where
  "sample_dto st = \<lparr>dt_id = ''s1'', dt_status = st, dt_algorithmPresetId = ''p1'', dt_frozen = sample_frozen,
     dt_temporal = None, dt_outputs = None, dt_error = None, dt_startedAt = None, dt_completedAt = None,
     dt_createdAt = 0, dt_updatedAt = 0\<rparr>"

definition sample_definition :: "string option \<Rightarrow> OrchestratorAlgorithmDefinition" where
  "sample_definition kind = \<lparr>ad_key = ''voting_engagement'', ad_version = ''1.0.0'', ad_runtime = ''typescript'',
     ad_kind = kind, ad_inputs = None, ad_dependencies = None\<rparr>"

definition orch_env :: "wf_error + string option \<Rightarrow> int wf_env" where
  "orch_env def = (clock_env (\<lambda>_. True) (\<lambda>_. submitted))
     \<lparr>we_getSnapshot := (\<lambda>i w. (Inr (sample_dto queued), w)),
      we_getDefinition := (\<lambda>k v w. (case def of Inl e \<Rightarrow> Inl e | Inr kind \<Rightarrow> Inr (sample_definition kind), w)),
      we_runAlgorithm := (\<lambda>s w. (Inr [(''csv'', Some ''k'')], w)),
      we_submitRaw := (\<lambda>x w. (Inr [], w))\<rparr>"

lemmas run_simps = runOrchestrator_def wbind_def call_with_def ret_def throw_def catch_def get_run_def set_run_def
  updateSnapshot_def

lemma js_error_simps [simp]: "\<not> isSnapshotNotFound (js_error m)" "we_kind (js_error m) = JsError"
  by (simp_all add: js_error_def)

lemma clock_state_history: "ws_history (clock_state t) = []"
  by (simp add: clock_state_def)

lemma sample_failed_run:
  "runOrchestrator (orch_env (Inl (js_error ''boom''))) 2 2 ''s1'' (clock_state 0) =
     (Throw (js_error ''boom''), (clock_state 0)\<lparr>ws_history :=
        [(GetSnapshot ''s1'', Ok), (UpdateSnapshot (running_update (orch_env (Inl (js_error ''boom''))) ''s1''), Ok),
         (GetDefinition ''voting_engagement'' ''1.0.0'', Failed),
         (UpdateSnapshot (failure_update (orch_env (Inl (js_error ''boom''))) ''s1'' None (js_error ''boom'')), Ok)]\<rparr>)"
  by (simp add: run_simps runSnapshotPhases_def handle_failure_def Let_def clock_state_def
      orch_env_def clock_env_def sample_dto_def sample_frozen_def)

lemma sample_plain_run:
  "\<exists>s' c1 c2 c3 c4 u c6 c7 c8. OrchestratorWorkflow (orch_env (Inr None)) 2 2 ''s1'' (clock_state 0) = (Done (), s')
     \<and> ws_history s' = [c1, c2, c3, c4, (UpdateSnapshot u, Ok), c6, c7, (PostScores (sample_dto queued) 0, Failed), c8]
     \<and> in_status u = Some completed"
  by (simp add: OrchestratorWorkflow_def run_simps runSnapshotPhases_def resolve_plain_def handle_failure_def Let_def
      clock_state_def orch_env_def clock_env_def sample_dto_def sample_frozen_def sample_definition_def lift_def
      getAlgorithmTaskQueueFromRuntime_def or_empty_def publish_scores_def record_publication_def completed_update_def)

lemma sample_combined_run:
  "\<exists>c1 c2 c3 c4 c5 x c7 c8 c9 u. ws_history (snd (OrchestratorWorkflow (orch_env (Inr (Some ''combined''))) 2 2 ''s1'' (clock_state 0)))
      = [c1, c2, c3, c4, c5, (SubmitRawScores x, Ok), c7, c8, c9, (UpdateSnapshot u, Ok)] \<and> in_status u = Some completed"
  by (simp add: OrchestratorWorkflow_def run_simps runSnapshotPhases_def resolve_combined_def handle_failure_def Let_def
      clock_state_def orch_env_def clock_env_def sample_dto_def sample_frozen_def sample_definition_def lift_def
      getAlgorithmTaskQueueFromRuntime_def or_empty_def publish_scores_def record_publication_def numeral_2_eq_2
      buildCombinedChildAlgorithmPresets_def promise_all_def collectDependencyKeys_def js_dedup_def encrypted_phase_def
      runEncryptedCustomScoreLifecycle_def pollForEncryptionReadiness_def get_now_def completed_update_def
      submission_reply_def)

section \<open>Properties\<close>





text \<open>
  C15: scores are posted to DeepID only after the snapshot was recorded \<open>completed\<close>: in every run, however
  it ends, a successful completed write comes before any posting.
\<close>

theorem posting_follows_completion:
  assumes "ws_history (snd (OrchestratorWorkflow env pf fuel i s)) = ws_history s @ a @ (PostScores snap t, rep) # b"
  shows "\<exists>q outs. (UpdateSnapshot (completed_update env i q outs), Ok) \<in> set a"
proof -
  obtain h where h: "ws_history (snd (runOrchestrator env pf fuel i s)) = ws_history s @ h"
    "run_ok env i (fst (runOrchestrator env pf fuel i s)) h"
    using run_history[of env i pf fuel] by (rule emitsE)
  have "h = a @ (PostScores snap t, rep) # b"
    using assms h(1) OrchestratorWorkflow_history(1)[of env pf fuel i s] by simp
  from run_posts[OF h(2) this] show ?thesis by (simp add: is_post_def)
qed

theorem posting_follows_completion_witness:
  "\<exists>a b q outs. ws_history (snd (OrchestratorWorkflow (orch_env (Inr None)) 2 2 ''s1'' (clock_state 0)))
       = a @ (PostScores (sample_dto queued) 0, Failed) # b
     \<and> (UpdateSnapshot (completed_update (orch_env (Inr None)) ''s1'' q outs), Ok) \<in> set a"
proof -
  obtain a b where "ws_history (snd (OrchestratorWorkflow (orch_env (Inr None)) 2 2 ''s1'' (clock_state 0)))
       = a @ (PostScores (sample_dto queued) 0, Failed) # b"
    using sample_plain_run by (metis append_Cons append_Nil snd_conv)
  then show ?thesis
    using posting_follows_completion[of "orch_env (Inr None)" 2 2 "''s1''" "clock_state 0" a "sample_dto queued" 0 Failed b]
    by (auto simp: clock_state_history)
qed



end
