(* ===== verification/Token_Value.thy ===== *)
theory Token_Value
  imports Orchestrator_Inputs
begin

text \<open>
  The \<^verbatim>\<open>token_value_over_time\<close> algorithm (\<^verbatim>\<open>apps/workflows/src/activities/typescript/algorithms/token-value-over-time\<close>
  and \<^verbatim>\<open>../shared/did-input.ts\<close>): transfers of the selected tokens are replayed in time order into one FIFO
  queue of lots per wallet, each remaining lot is weighted by its age, and the wallet values are summed
  per DID.  Amounts are JavaScript numbers (\<open>jsnum\<close>).  The on-chain repositories are a parameter that
  answers each page request; the algorithm definition's resource catalog is an argument.  Block ordinals,
  heartbeats, logs and the uploads of the results are left out.
\<close>

section \<open>Data\<close>

record ResourceCatalogEntry =
  re_chain :: string
  re_key :: string
  re_kind :: string
  re_identifier :: string
  re_tokenIdentifier :: string
  re_tokenDecimals :: "nat option"

record SelectedResourceInput =
  sel_chain :: string
  sel_resourceKey :: string

record ResolvedResource =
  rs_chain :: string
  rs_resourceKey :: string
  rs_kind :: string
  rs_identifier :: string
  rs_tokenIdentifier :: string
  rs_tokenDecimals :: "nat option"
  rs_resourceId :: string

text \<open>\<open>ev_blockTimestamp\<close> is \<^verbatim>\<open>Date.parse\<close> of the time stamp, \<^const>\<open>NaN\<close> when it does not parse.\<close>

record OrderedTransferEvent =
  ev_resourceId :: string
  ev_transactionHash :: string
  ev_logIndex :: nat
  ev_fromAddress :: "string option"
  ev_toAddress :: "string option"
  ev_amount :: jsnum
  ev_blockTimestamp :: "jsnum option"
  ev_isStaking :: bool

record WalletLot =
  lot_resourceId :: string
  lot_amountRemaining :: jsnum
  lot_receivedAt :: "jsnum option"
  lot_sourceTransferId :: string

type_synonym WalletLotsState = "(string \<times> WalletLot list) list"

record ReplayStats =
  rs_processed :: nat
  rs_skippedZeroAmount :: nat
  rs_skippedSelfTransfers :: nat
  rs_skippedStaking :: nat

record LotScoreDetail =
  ld_resource_id :: string
  ld_source_transfer_id :: string
  ld_amount_remaining :: jsnum
  ld_age_days :: jsnum
  ld_weight :: jsnum
  ld_lot_value :: jsnum

record WalletScoreDetail =
  wd_wallet_address :: string
  wd_token_value :: jsnum
  wd_lots :: "LotScoreDetail list"

record DidScoreDetail =
  dd_did :: string
  dd_token_value :: jsnum
  dd_wallets :: "WalletScoreDetail list"

definition buildResourceId :: "string \<Rightarrow> string \<Rightarrow> string" where
  "buildResourceId chain identifier = chain @ '':'' @ js_lower identifier"

definition roundScore :: "jsnum \<Rightarrow> jsnum" where
  "roundScore score = jdiv (jround (jmul score (jint (10 ^ 6)))) (jint (10 ^ 6))"

section \<open>FIFO lots\<close>

definition pushLot :: "WalletLot list \<Rightarrow> WalletLot \<Rightarrow> WalletLot list" where
  "pushLot queue lot = (if jle (lot_amountRemaining lot) (Fin 0) then queue else queue @ [lot])"

text \<open>
  The queue after the loop and the amount that could not be consumed.  When the head is not used up,
  \<open>remaining\<close> is zero (or \<^const>\<open>NaN\<close>) and the loop guard is false on its next test, so that branch
  returns: \<open>consume_turn\<close> below.  (Only a head of minus infinity would take one more turn, and \<open>pushLot\<close>
  admits none.)
\<close>

fun consume_loop :: "WalletLot list \<Rightarrow> jsnum \<Rightarrow> WalletLot list \<times> jsnum" where
  "consume_loop [] remaining = ([], remaining)"
| "consume_loop (head # rest) remaining =
     (if \<not> jless (Fin 0) remaining then (head # rest, remaining)
      else
        (let consumed = jmin (lot_amountRemaining head) remaining;
             left = jsub (lot_amountRemaining head) consumed;
             remaining' = jsub remaining consumed
         in if jle left (Fin 0) then consume_loop rest remaining'
            else (head\<lparr>lot_amountRemaining := left\<rparr> # rest, remaining')))"

definition consumeLotsFifo :: "WalletLot list \<Rightarrow> jsnum \<Rightarrow> WalletLot list \<times> jsnum" where
  "consumeLotsFifo queue amountToConsume =
     (if jle amountToConsume (Fin 0) then (queue, Fin 0) else consume_loop queue amountToConsume)"

subsection \<open>The queue stays a queue of positive lots\<close>

text \<open>A finite positive double, the amounts a queue holds.\<close>

definition lot_amount_ok :: "jsnum \<Rightarrow> bool" where
  "lot_amount_ok a \<longleftrightarrow> (\<exists>x. a = Fin x \<and> 0 < x \<and> is_double (Fin x))"

definition lot_ok :: "WalletLot \<Rightarrow> bool" where
  "lot_ok lot \<longleftrightarrow> lot_amount_ok (lot_amountRemaining lot)"

lemma to_double_bounded:
  assumes "0 \<le> x" "x \<le> y" "is_double (Fin y)"
  shows "to_double x = Fin (round53 x)" "is_double (Fin (round53 x))"
proof -
  have "round53 x \<le> y" using assms by (intro dbl.rnd_le_fixed) auto
  moreover have "0 \<le> round53 x" using assms(1) by (rule round53_nonneg)
  ultimately have b: "round53 x < 2 ^ 1024" "- (2 ^ 1024) < round53 x" using assms by auto
  then show "to_double x = Fin (round53 x)" by (simp add: to_double_def Let_def)
  show "is_double (Fin (round53 x))" using b \<open>0 \<le> round53 x\<close> by (simp add: round53_idem)
qed

lemma jsub_larger:
  assumes "is_double (Fin x)" "is_double (Fin y)" "0 < x" "x < y"
  shows "\<exists>z. jsub (Fin y) (Fin x) = Fin z \<and> 0 < z \<and> z \<le> y \<and> is_double (Fin z)"
proof -
  have d: "to_double (y - x) = Fin (round53 (y - x))" "is_double (Fin (round53 (y - x)))"
    using assms by (intro to_double_bounded[of _ y]; simp)+
  have "0 < round53 (y - x)" using assms by (intro round53_diff_pos) simp_all
  moreover have "round53 (y - x) \<le> y" using assms by (intro dbl.rnd_le_fixed) simp_all
  ultimately show ?thesis using d by (simp add: jsub_def)
qed

lemma jsub_self [simp]: "jsub (Fin x) (Fin x) = Fin 0"
  by (simp add: jsub_def to_double_def)

text \<open>One turn of the loop: the head is used up, or it is shortened and nothing remains to consume.\<close>

lemma consume_turn:
  assumes "lot_ok l" "is_double (Fin r)" "0 < r"
  obtains (shift) r' where "consume_loop (l # ls) (Fin r) = consume_loop ls (Fin r')"
      "jle (lot_amountRemaining l) (Fin r)" "jsub (Fin r) (lot_amountRemaining l) = Fin r'"
      "0 \<le> r'" "is_double (Fin r')"
  | (cut) z where "consume_loop (l # ls) (Fin r) = (l\<lparr>lot_amountRemaining := Fin z\<rparr> # ls, Fin 0)"
      "jless (Fin r) (lot_amountRemaining l)" "jsub (lot_amountRemaining l) (Fin r) = Fin z"
      "0 < z" "is_double (Fin z)"
proof -
  obtain x where x: "lot_amountRemaining l = Fin x" "0 < x" "is_double (Fin x)"
    using assms(1) by (auto simp: lot_ok_def lot_amount_ok_def)
  consider "x = r" | "x < r" | "r < x" by linarith
  then show ?thesis
  proof cases
    case 1
    then show ?thesis using assms x
      by (intro shift[of 0]) (simp_all add: jmin_def Let_def jle_def jeq_def)
  next
    case 2
    then obtain z where "jsub (Fin r) (Fin x) = Fin z" "0 < z" "z \<le> r" "is_double (Fin z)"
      using jsub_larger[of x r] assms x by blast
    then show ?thesis using assms x 2
      by (intro shift[of z]) (simp_all add: jmin_def Let_def jle_def jeq_def)
  next
    case 3
    then obtain z where "jsub (Fin x) (Fin r) = Fin z" "0 < z" "z \<le> x" "is_double (Fin z)"
      using jsub_larger[of r x] assms x by blast
    then show ?thesis using assms x 3
      by (intro cut[of z]) (simp_all add: jmin_def Let_def jle_def jeq_def)
  qed
qed

lemma consume_loop_done [simp]: "\<not> jless (Fin 0) r \<Longrightarrow> consume_loop q r = (q, r)"
  by (cases q) simp_all

text \<open>What is left of a queue: a suffix, of which the head may have been shortened.\<close>

definition fifo_rest :: "WalletLot list \<Rightarrow> WalletLot list \<Rightarrow> bool" where
  "fifo_rest q q' \<longleftrightarrow>
     (\<exists>k \<le> length q. q' = drop k q
        \<or> k < length q \<and> (\<exists>z. jle z (lot_amountRemaining (q ! k)) \<and> q' = (q ! k)\<lparr>lot_amountRemaining := z\<rparr> # drop (Suc k) q))"

lemma fifo_rest_refl: "fifo_rest q q"
  unfolding fifo_rest_def by (intro exI[of _ 0]) simp

lemma fifo_rest_Cons: "fifo_rest q q' \<Longrightarrow> fifo_rest (l # q) q'"
  unfolding fifo_rest_def by (elim exE, rule_tac x = "Suc k" in exI) auto

lemma consume_loop_fifo:
  assumes "list_all lot_ok q" "is_double (Fin r)" "0 \<le> r"
  shows "list_all lot_ok (fst (consume_loop q (Fin r))) \<and> fifo_rest q (fst (consume_loop q (Fin r)))
    \<and> (jless (Fin 0) (snd (consume_loop q (Fin r))) \<longrightarrow> fst (consume_loop q (Fin r)) = [])"
  using assms
proof (induction q arbitrary: r)
  case (Cons l q)
  show ?case
  proof (cases "r = 0")
    case True
    then show ?thesis using Cons.prems by (simp add: fifo_rest_refl)
  next
    case False
    have "lot_ok l" "0 < r" using Cons.prems False by simp_all
    from consume_turn[OF \<open>lot_ok l\<close> Cons.prems(2) \<open>0 < r\<close>, of q] show ?thesis
    proof cases
      case (1 r')
      then show ?thesis using Cons.IH[of r'] Cons.prems by (simp add: fifo_rest_Cons)
    next
      case (2 z)
      obtain x where x: "lot_amountRemaining l = Fin x" "is_double (Fin x)"
        using \<open>lot_ok l\<close> by (auto simp: lot_ok_def lot_amount_ok_def)
      have "z \<le> x" using jsub_larger[of r x] 2 x \<open>0 < r\<close> Cons.prems(2) by auto
      then have "fifo_rest (l # q) (l\<lparr>lot_amountRemaining := Fin z\<rparr> # q)"
        unfolding fifo_rest_def using x
        by (intro exI[of _ 0] conjI disjI2 exI[of _ "Fin z"]) (simp_all add: jle_def jeq_def le_less)
      then show ?thesis using 2 Cons.prems by (simp add: lot_ok_def lot_amount_ok_def)
    qed
  qed
qed (simp add: fifo_rest_refl)

lemma consumeLotsFifo_fifo_part:
  assumes "list_all lot_ok queue" "is_double (Fin amount)"
  shows "list_all lot_ok (fst (consumeLotsFifo queue (Fin amount)))"
    "fifo_rest queue (fst (consumeLotsFifo queue (Fin amount)))"
    "jless (Fin 0) (snd (consumeLotsFifo queue (Fin amount))) \<Longrightarrow> fst (consumeLotsFifo queue (Fin amount)) = []"
  using consume_loop_fifo[of queue amount] assms
  by (cases "amount \<le> 0"; simp add: consumeLotsFifo_def jle_def jeq_def le_less fifo_rest_refl; fail)+

text \<open>
  Spending is first in, first out.  On a queue of positive lots, \<^verbatim>\<open>consumeLotsFifo\<close> with any finite amount
  leaves a suffix of the queue whose head alone may have been shortened; every lot left is still a
  positive double; and an amount is returned as unmatched only when the queue has been emptied.
\<close>

lemma consumeLotsFifo_is_fifo:
  assumes "list_all lot_ok queue" "is_double (Fin amount)"
  shows "list_all lot_ok (fst (consumeLotsFifo queue (Fin amount)))
    \<and> fifo_rest queue (fst (consumeLotsFifo queue (Fin amount)))
    \<and> (jless (Fin 0) (snd (consumeLotsFifo queue (Fin amount))) \<longrightarrow> fst (consumeLotsFifo queue (Fin amount)) = [])"
  using consumeLotsFifo_fifo_part[OF assms] by blast

definition sample_lot :: "string \<Rightarrow> int \<Rightarrow> WalletLot" where
  "sample_lot r n = \<lparr>lot_resourceId = r, lot_amountRemaining = jint n, lot_receivedAt = Some (Fin 0), lot_sourceTransferId = ''t''\<rparr>"

lemma sample_lot_ok: "0 < n \<Longrightarrow> n \<le> 2 ^ 53 \<Longrightarrow> lot_ok (sample_lot r n)"
  using is_double_int[of n] by (auto simp: lot_ok_def lot_amount_ok_def sample_lot_def jint_def simp del: is_double.simps)

theorem consumeLotsFifo_is_fifo_witness:
  "fifo_rest [sample_lot ''a'' 2, sample_lot ''a'' 5]
     (fst (consumeLotsFifo [sample_lot ''a'' 2, sample_lot ''a'' 5] (Fin 4)))
   \<and> list_all lot_ok (fst (consumeLotsFifo [sample_lot ''a'' 2, sample_lot ''a'' 5] (Fin 4)))"
  using consumeLotsFifo_is_fifo[of "[sample_lot ''a'' 2, sample_lot ''a'' 5]" 4] is_double_int[of 4]
  by (simp add: sample_lot_ok del: is_double.simps)

subsection \<open>Whole units: the queue is an exact balance\<close>

definition whole_lot :: "WalletLot \<Rightarrow> bool" where
  "whole_lot lot \<longleftrightarrow> (\<exists>n. lot_amountRemaining lot = Fin (of_nat n) \<and> 0 < n \<and> n \<le> 2 ^ 53)"

fun num_units :: "jsnum \<Rightarrow> nat" where
  "num_units (Fin x) = nat \<lfloor>x\<rfloor>"
| "num_units _ = 0"

definition lots_units :: "WalletLot list \<Rightarrow> nat" where
  "lots_units lots = sum_list (map (\<lambda>l. num_units (lot_amountRemaining l)) lots)"

lemma is_double_nat: "n \<le> 2 ^ 53 \<Longrightarrow> is_double (Fin (of_nat n))"
  using is_double_int[of "int n"] by (simp del: is_double.simps)

lemma whole_lot_ok: "whole_lot l \<Longrightarrow> lot_ok l"
  using is_double_nat by (fastforce simp: whole_lot_def lot_ok_def lot_amount_ok_def simp del: is_double.simps)

lemma jsub_nat: "m \<le> n \<Longrightarrow> n \<le> 2 ^ 53 \<Longrightarrow> jsub (Fin (of_nat n)) (Fin (of_nat m)) = Fin (of_nat (n - m))"
proof -
  assume a: "m \<le> n" "n \<le> 2 ^ 53"
  have e: "(of_nat n - of_nat m :: rat) = of_int (int (n - m))" using a by (simp add: of_nat_diff)
  have d: "is_double (Fin (of_nat n))" using a by (intro is_double_nat)
  have "\<bar>int (n - m)\<bar> \<le> 2 ^ 53" using a by simp
  then have "round53 (of_int (int (n - m))) = of_int (int (n - m))" by (rule round53_of_int)
  moreover have "to_double (of_int (int (n - m))) = Fin (round53 (of_int (int (n - m))))"
    using a d by (intro to_double_bounded(1)[of _ "of_nat n"]) simp_all
  ultimately show ?thesis by (simp add: jsub_def e)
qed

lemma consume_loop_units:
  assumes "list_all whole_lot q" "n \<le> 2 ^ 53"
  shows "list_all whole_lot (fst (consume_loop q (Fin (of_nat n))))
    \<and> lots_units (fst (consume_loop q (Fin (of_nat n)))) = lots_units q - n"
  using assms
proof (induction q arbitrary: n)
  case (Cons l q)
  obtain m where m: "lot_amountRemaining l = Fin (of_nat m)" "0 < m" "m \<le> 2 ^ 53"
    using Cons.prems by (auto simp: whole_lot_def)
  consider "n = 0" | "0 < n" "m \<le> n" | "0 < n" "n < m" by linarith
  then show ?case
  proof cases
    case 1
    then show ?thesis using Cons.prems by simp
  next
    case 2
    then have "consume_loop (l # q) (Fin (of_nat n)) = consume_loop q (Fin (of_nat (n - m)))"
      using m Cons.prems jsub_nat[of m n] by (simp add: jmin_def Let_def jle_def jeq_def)
    then show ?thesis using Cons.IH[of "n - m"] Cons.prems m 2 by (simp add: lots_units_def)
  next
    case 3
    then have "consume_loop (l # q) (Fin (of_nat n)) = (l\<lparr>lot_amountRemaining := Fin (of_nat (m - n))\<rparr> # q, Fin 0)"
      using m jsub_nat[of n m] by (simp add: jmin_def Let_def jle_def jeq_def)
    moreover have "whole_lot (l\<lparr>lot_amountRemaining := Fin (of_nat (m - n))\<rparr>)"
      using 3 m by (auto simp: whole_lot_def intro!: exI[of _ "m - n"])
    moreover have "\<lfloor>of_nat (m - n) :: rat\<rfloor> = int (m - n)" by (metis floor_of_nat)
    ultimately show ?thesis using Cons.prems 3 m by (simp add: lots_units_def)
  qed
qed (simp add: lots_units_def)

section \<open>Replaying transfers\<close>

text \<open>\<^verbatim>\<open>state.get(k)\<close> followed by a mutation of the array it returns.\<close>

definition mutate_wallet :: "string \<Rightarrow> (WalletLot list \<Rightarrow> WalletLot list) \<Rightarrow> WalletLotsState \<Rightarrow> WalletLotsState" where
  "mutate_wallet k f state =
     (case map_of state k of None \<Rightarrow> state | Some lots \<Rightarrow> AList.update k (f lots) state)"

definition truthy_address :: "string option \<Rightarrow> bool" where
  "truthy_address a \<longleftrightarrow> a \<noteq> None \<and> a \<noteq> Some []"

definition send_lots :: "string list \<Rightarrow> OrderedTransferEvent \<Rightarrow> WalletLotsState \<Rightarrow> WalletLotsState" where
  "send_lots targetWalletSet transfer state =
     (case ev_fromAddress transfer of
        Some from \<Rightarrow>
          if from \<noteq> [] \<and> from \<in> set targetWalletSet
          then mutate_wallet from (\<lambda>lots. fst (consumeLotsFifo lots (ev_amount transfer))) state else state
      | None \<Rightarrow> state)"

definition receive_lots :: "string list \<Rightarrow> OrderedTransferEvent \<Rightarrow> WalletLotsState \<Rightarrow> WalletLotsState" where
  "receive_lots targetWalletSet transfer state =
     (case ev_toAddress transfer of
        Some to \<Rightarrow>
          if to \<noteq> [] \<and> to \<in> set targetWalletSet
          then mutate_wallet to (\<lambda>lots. pushLot lots
                 \<lparr>lot_resourceId = ev_resourceId transfer, lot_amountRemaining = ev_amount transfer,
                  lot_receivedAt = ev_blockTimestamp transfer,
                  lot_sourceTransferId =
                    ev_resourceId transfer @ '':'' @ ev_transactionHash transfer @ '':'' @ js_nat (ev_logIndex transfer)\<rparr>) state
          else state
      | None \<Rightarrow> state)"

definition applyTransfer ::
  "string list \<Rightarrow> OrderedTransferEvent \<Rightarrow> WalletLotsState \<times> ReplayStats \<Rightarrow> WalletLotsState \<times> ReplayStats" where
  "applyTransfer targetWalletSet transfer p =
     (let state = fst p; stats = (snd p)\<lparr>rs_processed := rs_processed (snd p) + 1\<rparr>
      in if jeq (ev_amount transfer) (Fin 0)
         then (state, stats\<lparr>rs_skippedZeroAmount := rs_skippedZeroAmount stats + 1\<rparr>)
         else if truthy_address (ev_fromAddress transfer) \<and> truthy_address (ev_toAddress transfer)
               \<and> ev_fromAddress transfer = ev_toAddress transfer
         then (state, stats\<lparr>rs_skippedSelfTransfers := rs_skippedSelfTransfers stats + 1\<rparr>)
         else if ev_isStaking transfer
         then (state, stats\<lparr>rs_skippedStaking := rs_skippedStaking stats + 1\<rparr>)
         else (receive_lots targetWalletSet transfer (send_lots targetWalletSet transfer state), stats))"

definition no_stats :: ReplayStats where
  "no_stats = \<lparr>rs_processed = 0, rs_skippedZeroAmount = 0, rs_skippedSelfTransfers = 0, rs_skippedStaking = 0\<rparr>"

definition replayTransfers ::
  "WalletLotsState \<Rightarrow> OrderedTransferEvent list \<Rightarrow> string list \<Rightarrow> WalletLotsState \<times> ReplayStats" where
  "replayTransfers state transfers targetWalletSet =
     fold (applyTransfer targetWalletSet) transfers (state, no_stats)"

definition initializeWalletLots :: "string list \<Rightarrow> WalletLotsState" where
  "initializeWalletLots wallets = map (\<lambda>wallet. (wallet, [])) (js_dedup wallets)"

subsection \<open>The replay keeps the queues well formed\<close>

definition lots_state_ok :: "WalletLotsState \<Rightarrow> bool" where
  "lots_state_ok state \<longleftrightarrow> (\<forall>w lots. map_of state w = Some lots \<longrightarrow> list_all lot_ok lots)"

text \<open>A finite double, the amount of a transfer.\<close>

definition amount_ok :: "OrderedTransferEvent \<Rightarrow> bool" where
  "amount_ok t \<longleftrightarrow> (\<exists>x. ev_amount t = Fin x \<and> is_double (Fin x))"

lemma map_of_mutate_wallet [simp]:
  "map_of (mutate_wallet k f state) w = (if w = k then map_option f (map_of state w) else map_of state w)"
  by (auto simp: mutate_wallet_def update_conv' split: option.split)

lemma keys_mutate_wallet [simp]: "map fst (mutate_wallet k f state) = map fst state"
proof (cases "map_of state k")
  case (Some lots)
  then have "k \<in> set (map fst state)" using map_of_SomeD[OF Some] by force
  then show ?thesis using Some by (simp add: mutate_wallet_def update_keys)
qed (simp add: mutate_wallet_def)

lemma keys_applyTransfer [simp]: "map fst (fst (applyTransfer ws t p)) = map fst (fst p)"
  by (simp add: applyTransfer_def Let_def send_lots_def receive_lots_def split: option.split)

lemma keys_replay: "map fst (fst (fold (applyTransfer ws) ts p)) = map fst (fst p)"
  by (induction ts arbitrary: p) simp_all

lemma lots_state_ok_mutate:
  assumes "lots_state_ok state" "\<And>lots. list_all lot_ok lots \<Longrightarrow> list_all lot_ok (f lots)"
  shows "lots_state_ok (mutate_wallet k f state)"
  using assms by (auto simp: lots_state_ok_def)

lemma pushLot_ok:
  assumes "list_all lot_ok lots" "lot_amountRemaining lot = Fin x" "is_double (Fin x)"
  shows "list_all lot_ok (pushLot lots lot)"
  using assms by (auto simp: pushLot_def jle_def jeq_def lot_ok_def lot_amount_ok_def simp del: is_double.simps)

lemma applyTransfer_ok:
  assumes "lots_state_ok (fst p)" "amount_ok t"
  shows "lots_state_ok (fst (applyTransfer ws t p))"
proof -
  obtain x where x: "ev_amount t = Fin x" "is_double (Fin x)" using assms(2) by (auto simp: amount_ok_def)
  have s: "lots_state_ok (send_lots ws t (fst p))"
    using assms(1) consumeLotsFifo_fifo_part[OF _ x(2)] x(1)
    by (auto simp: send_lots_def intro: lots_state_ok_mutate split: option.split)
  then have "lots_state_ok (receive_lots ws t (send_lots ws t (fst p)))"
    using x by (auto simp: receive_lots_def intro!: lots_state_ok_mutate pushLot_ok split: option.split simp del: is_double.simps)
  then show ?thesis using assms by (simp add: applyTransfer_def Let_def)
qed

lemma replay_ok:
  "lots_state_ok (fst p) \<Longrightarrow> list_all amount_ok ts \<Longrightarrow> lots_state_ok (fst (fold (applyTransfer ws) ts p))"
  by (induction ts arbitrary: p) (simp_all add: applyTransfer_ok)

lemma map_of_initializeWalletLots:
  "map_of (initializeWalletLots ws) w = (if w \<in> set ws then Some [] else None)"
proof -
  have "map_of (map (\<lambda>w. (w, [] :: WalletLot list)) xs) w = (if w \<in> set xs then Some [] else None)" for xs :: "string list"
    by (induction xs) auto
  then show ?thesis by (simp add: initializeWalletLots_def)
qed

lemma initializeWalletLots_ok: "lots_state_ok (initializeWalletLots ws)"
  by (simp add: lots_state_ok_def map_of_initializeWalletLots split: if_splits)

subsection \<open>The statistics account for every transfer\<close>

definition is_self_transfer :: "OrderedTransferEvent \<Rightarrow> bool" where
  "is_self_transfer t \<longleftrightarrow> truthy_address (ev_fromAddress t) \<and> truthy_address (ev_toAddress t)
     \<and> ev_fromAddress t = ev_toAddress t"

definition counted :: "OrderedTransferEvent \<Rightarrow> bool" where
  "counted t \<longleftrightarrow> \<not> jeq (ev_amount t) (Fin 0) \<and> \<not> is_self_transfer t \<and> \<not> ev_isStaking t"

definition skipped_total :: "ReplayStats \<Rightarrow> nat" where
  "skipped_total st = rs_skippedZeroAmount st + rs_skippedSelfTransfers st + rs_skippedStaking st"

lemma applyTransfer_stats:
  "rs_processed (snd (applyTransfer ws t p)) = rs_processed (snd p) + 1"
  "skipped_total (snd (applyTransfer ws t p)) = skipped_total (snd p) + (if counted t then 0 else 1)"
  by (simp_all add: applyTransfer_def Let_def counted_def is_self_transfer_def skipped_total_def)

lemma applyTransfer_state:
  "fst (applyTransfer ws t p) = (if counted t then receive_lots ws t (send_lots ws t (fst p)) else fst p)"
  by (auto simp: applyTransfer_def Let_def counted_def is_self_transfer_def)

lemma replay_stats:
  "rs_processed (snd (fold (applyTransfer ws) ts p)) = rs_processed (snd p) + length ts"
  "skipped_total (snd (fold (applyTransfer ws) ts p)) = skipped_total (snd p) + length (filter (\<lambda>t. \<not> counted t) ts)"
  by (induction ts arbitrary: p) (simp_all add: applyTransfer_stats)

text \<open>
  Replaying transfers of finite amounts from empty queues keeps exactly the target wallets as keys and
  every lot a positive double, and the statistics add up: each transfer is processed once and is either
  counted or skipped for one reason.
\<close>

lemma replayTransfers_invariant:
  assumes "list_all amount_ok transfers"
  shows "map fst (fst (replayTransfers (initializeWalletLots wallets) transfers targets)) = js_dedup wallets
    \<and> lots_state_ok (fst (replayTransfers (initializeWalletLots wallets) transfers targets))
    \<and> rs_processed (snd (replayTransfers (initializeWalletLots wallets) transfers targets)) = length transfers
    \<and> skipped_total (snd (replayTransfers (initializeWalletLots wallets) transfers targets))
        = length (filter (\<lambda>t. \<not> counted t) transfers)"
  using assms initializeWalletLots_ok
  by (simp add: replayTransfers_def keys_replay replay_ok replay_stats)
     (simp add: initializeWalletLots_def no_stats_def skipped_total_def comp_def)

definition sample_transfer :: "string \<Rightarrow> string option \<Rightarrow> string option \<Rightarrow> int \<Rightarrow> OrderedTransferEvent" where
  "sample_transfer r from to n =
     \<lparr>ev_resourceId = r, ev_transactionHash = ''h'', ev_logIndex = 0, ev_fromAddress = from, ev_toAddress = to,
      ev_amount = jint n, ev_blockTimestamp = Some (Fin 0), ev_isStaking = False\<rparr>"

lemma sample_transfer_ok: "\<bar>n\<bar> \<le> 2 ^ 53 \<Longrightarrow> amount_ok (sample_transfer r f t n)"
  using is_double_int[of n] by (simp add: amount_ok_def sample_transfer_def jint_def del: is_double.simps)

theorem replayTransfers_invariant_witness:
  "lots_state_ok (fst (replayTransfers (initializeWalletLots [''w''])
      [sample_transfer ''r'' None (Some ''w'') 5, sample_transfer ''r'' (Some ''w'') (Some ''x'') 3] [''w'']))"
  using replayTransfers_invariant[of "[sample_transfer ''r'' None (Some ''w'') 5, sample_transfer ''r'' (Some ''w'') (Some ''x'') 3]" "[''w'']" "[''w'']"]
  by (simp add: sample_transfer_ok)

subsection \<open>Refinement: one balance per wallet\<close>

text \<open>
  The reference is a balance: a counted transfer subtracts what the wallet sends, down to zero, and adds
  what it receives.
\<close>

definition ledger_step :: "string \<Rightarrow> OrderedTransferEvent \<Rightarrow> nat \<Rightarrow> nat" where
  "ledger_step w t b =
     (if \<not> counted t then b
      else (if ev_fromAddress t = Some w then b - num_units (ev_amount t) else b)
         + (if ev_toAddress t = Some w then num_units (ev_amount t) else 0))"

definition whole_amount :: "OrderedTransferEvent \<Rightarrow> bool" where
  "whole_amount t \<longleftrightarrow> (\<exists>n \<le> 2 ^ 53. ev_amount t = Fin (of_nat n))"

definition wallet_refines :: "WalletLotsState \<Rightarrow> string \<Rightarrow> nat \<Rightarrow> bool" where
  "wallet_refines state w b \<longleftrightarrow>
     (\<exists>lots. map_of state w = Some lots \<and> list_all whole_lot lots \<and> lots_units lots = b)"

lemma consumeLotsFifo_units:
  assumes "list_all whole_lot q" "n \<le> 2 ^ 53"
  shows "list_all whole_lot (fst (consumeLotsFifo q (Fin (of_nat n))))"
    "lots_units (fst (consumeLotsFifo q (Fin (of_nat n)))) = lots_units q - n"
  using consume_loop_units[OF assms] assms
  by (cases "n = 0"; simp add: consumeLotsFifo_def jle_def jeq_def; fail)+

lemma pushLot_units:
  assumes "list_all whole_lot q" "n \<le> 2 ^ 53" "lot_amountRemaining l = Fin (of_nat n)"
  shows "list_all whole_lot (pushLot q l)" "lots_units (pushLot q l) = lots_units q + n"
  using assms by (auto simp: pushLot_def jle_def jeq_def lots_units_def whole_lot_def)

lemma send_refines:
  assumes "wallet_refines state w b" "w \<in> set ws" "w \<noteq> []" "ev_amount t = Fin (of_nat n)" "n \<le> 2 ^ 53"
  shows "wallet_refines (send_lots ws t state) w (if ev_fromAddress t = Some w then b - n else b)"
  using assms consumeLotsFifo_units[of _ n]
  by (cases "ev_fromAddress t") (auto simp: wallet_refines_def send_lots_def)

lemma receive_refines:
  assumes "wallet_refines state w b" "w \<in> set ws" "w \<noteq> []" "ev_amount t = Fin (of_nat n)" "n \<le> 2 ^ 53"
  shows "wallet_refines (receive_lots ws t state) w (b + (if ev_toAddress t = Some w then n else 0))"
  using assms pushLot_units[of _ n]
  by (cases "ev_toAddress t") (auto simp: wallet_refines_def receive_lots_def)

lemma applyTransfer_refines:
  assumes "wallet_refines (fst p) w b" "w \<in> set ws" "w \<noteq> []" "whole_amount t"
  shows "wallet_refines (fst (applyTransfer ws t p)) w (ledger_step w t b)"
proof -
  obtain n where n: "ev_amount t = Fin (of_nat n)" "n \<le> 2 ^ 53" using assms(4) by (auto simp: whole_amount_def)
  have "wallet_refines (receive_lots ws t (send_lots ws t (fst p))) w
      ((if ev_fromAddress t = Some w then b - n else b) + (if ev_toAddress t = Some w then n else 0))"
    using assms n by (intro receive_refines send_refines)
  moreover have "num_units (ev_amount t) = n" by (simp add: n)
  ultimately show ?thesis using assms(1) by (auto simp: applyTransfer_state ledger_step_def split: if_splits)
qed

lemma replay_refines:
  "wallet_refines (fst p) w b \<Longrightarrow> w \<in> set ws \<Longrightarrow> w \<noteq> [] \<Longrightarrow> list_all whole_amount ts \<Longrightarrow>
   wallet_refines (fst (fold (applyTransfer ws) ts p)) w (fold (ledger_step w) ts b)"
  by (induction ts arbitrary: p b) (simp_all add: applyTransfer_refines)

text \<open>
  C22: For transfers of whole units (each at most \<open>2 ^ 53\<close>, where binary64 is exact) the FIFO replay
  refines a plain balance: after the replay the lots of every target wallet add up to what the
  reference ledger computes from the same transfers.
\<close>

theorem replayTransfers_refines_ledger:
  assumes "list_all whole_amount transfers" "w \<in> set wallets" "w \<noteq> []"
  shows "\<exists>lots. map_of (fst (replayTransfers (initializeWalletLots wallets) transfers wallets)) w = Some lots
    \<and> list_all whole_lot lots \<and> lots_units lots = fold (ledger_step w) transfers 0"
proof -
  have "wallet_refines (initializeWalletLots wallets) w 0"
    using assms(2) by (simp add: wallet_refines_def map_of_initializeWalletLots lots_units_def)
  then show ?thesis using replay_refines[of "(initializeWalletLots wallets, no_stats)" w 0 wallets transfers] assms
    by (simp add: wallet_refines_def replayTransfers_def)
qed

lemma sample_transfer_whole: "0 \<le> n \<Longrightarrow> n \<le> 2 ^ 53 \<Longrightarrow> whole_amount (sample_transfer r f t n)"
  unfolding whole_amount_def by (rule exI[of _ "nat n"]) (auto simp: sample_transfer_def jint_def nat_le_iff)

theorem replayTransfers_refines_ledger_witness:
  "\<exists>lots. map_of (fst (replayTransfers (initializeWalletLots [''w''])
      [sample_transfer ''r'' None (Some ''w'') 5, sample_transfer ''r'' (Some ''w'') (Some ''x'') 3] [''w''])) ''w'' = Some lots
    \<and> list_all whole_lot lots \<and> lots_units lots = 2"
proof -
  define ts where "ts = [sample_transfer ''r'' None (Some ''w'') 5, sample_transfer ''r'' (Some ''w'') (Some ''x'') 3]"
  have "fold (ledger_step ''w'') ts 0 = 2"
    by (simp add: ts_def ledger_step_def counted_def is_self_transfer_def truthy_address_def sample_transfer_def jint_def jeq_def)
  moreover have "list_all whole_amount ts" by (simp add: ts_def sample_transfer_whole)
  ultimately show ?thesis using replayTransfers_refines_ledger[of ts "''w''" "[''w'']"] by (simp add: ts_def)
qed

subsection \<open>Spending does not look at the token\<close>

definition relabel :: "(string \<Rightarrow> string) \<Rightarrow> WalletLot \<Rightarrow> WalletLot" where
  "relabel f lot = lot\<lparr>lot_resourceId := f (lot_resourceId lot)\<rparr>"

lemma relabel_amount [simp]: "lot_amountRemaining (relabel f l) = lot_amountRemaining l"
  by (simp add: relabel_def)

lemma relabel_set_amount [simp]: "(relabel f l)\<lparr>lot_amountRemaining := z\<rparr> = relabel f (l\<lparr>lot_amountRemaining := z\<rparr>)"
  by (simp add: relabel_def)

lemma consume_loop_relabel:
  "consume_loop (map (relabel f) q) r = (map (relabel f) (fst (consume_loop q r)), snd (consume_loop q r))"
  by (induction q r rule: consume_loop.induct) (simp_all add: Let_def)

text \<open>
  What a transfer takes from the sender does not depend on which token it moves or which tokens the
  sender's lots are of: relabelling the tokens of the lots, and of the transfer, commutes with
  spending.  So with two tokens selected, sending one of them uses up lots of the other.
\<close>

lemma spending_ignores_token:
  "map_of (send_lots ws (t\<lparr>ev_resourceId := r\<rparr>) (map (\<lambda>(w, lots). (w, map (relabel f) lots)) state)) w
   = map_option (map (relabel f)) (map_of (send_lots ws t state) w)"
proof -
  have c: "fst (consumeLotsFifo (map (relabel f) q) a) = map (relabel f) (fst (consumeLotsFifo q a))" for q a
    by (simp add: consumeLotsFifo_def consume_loop_relabel)
  have m: "map_of (map (\<lambda>(w, lots). (w, map (relabel f) lots)) state) k = map_option (map (relabel f)) (map_of state k)" for k
    by (induction state) auto
  show ?thesis
    by (cases "ev_fromAddress t") (auto simp: send_lots_def m c option.map_comp comp_def)
qed

section \<open>Weights and scores\<close>

definition MS_PER_DAY :: jsnum where
  "MS_PER_DAY = jint (24 * 60 * 60 * 1000)"

definition computeLotAgeDays :: "jsnum option \<Rightarrow> jsnum \<Rightarrow> jsnum" where
  "computeLotAgeDays receivedAt snapshotTs =
     (case receivedAt of
        None \<Rightarrow> Fin 0
      | Some receivedTs \<Rightarrow>
          (let ageMs = jsub snapshotTs receivedTs
           in if jle ageMs (Fin 0) then Fin 0 else jdiv ageMs MS_PER_DAY))"

definition computeLinearWeight :: "jsnum \<Rightarrow> jsnum \<Rightarrow> jsnum" where
  "computeLinearWeight ageDays maturationThresholdDays =
     (if jle maturationThresholdDays (Fin 0) then Fin 1
      else if jle ageDays (Fin 0) then Fin 0
      else jmin (Fin 1) (jdiv ageDays maturationThresholdDays))"

definition lot_value :: "jsnum \<Rightarrow> jsnum \<Rightarrow> WalletLot \<Rightarrow> jsnum" where
  "lot_value snapshotTs maturation lot =
     jmul (lot_amountRemaining lot)
       (computeLinearWeight (computeLotAgeDays (lot_receivedAt lot) snapshotTs) maturation)"

definition scored_lots :: "string list \<Rightarrow> WalletLot list \<Rightarrow> WalletLot list" where
  "scored_lots selectedResourceIds lots =
     filter (\<lambda>l. lot_resourceId l \<in> set selectedResourceIds \<and> \<not> jle (lot_amountRemaining l) (Fin 0)) lots"

definition lot_detail :: "jsnum \<Rightarrow> jsnum \<Rightarrow> WalletLot \<Rightarrow> LotScoreDetail" where
  "lot_detail snapshotTs maturation lot =
     (let ageDays = computeLotAgeDays (lot_receivedAt lot) snapshotTs;
          weight = computeLinearWeight ageDays maturation
      in \<lparr>ld_resource_id = lot_resourceId lot, ld_source_transfer_id = lot_sourceTransferId lot,
          ld_amount_remaining = roundScore (lot_amountRemaining lot), ld_age_days = roundScore ageDays,
          ld_weight = roundScore weight, ld_lot_value = roundScore (lot_value snapshotTs maturation lot)\<rparr>)"

definition wallet_total :: "jsnum \<Rightarrow> jsnum \<Rightarrow> WalletLot list \<Rightarrow> jsnum" where
  "wallet_total snapshotTs maturation lots =
     foldl (\<lambda>total lot. jadd total (lot_value snapshotTs maturation lot)) (Fin 0) lots"

text \<open>\<open>lc a b\<close> is \<^verbatim>\<open>a.localeCompare(b) <= 0\<close>.\<close>

definition scoreWalletLots ::
  "(string \<Rightarrow> string \<Rightarrow> bool) \<Rightarrow> WalletLotsState \<Rightarrow> string list \<Rightarrow> jsnum \<Rightarrow> jsnum \<Rightarrow> WalletScoreDetail list" where
  "scoreWalletLots lc lotsState selectedResourceIds snapshotTs maturation =
     sort_by (\<lambda>a b. lc (wd_wallet_address a) (wd_wallet_address b))
       (map (\<lambda>(walletAddress, lots).
          (let scored = scored_lots selectedResourceIds lots
           in \<lparr>wd_wallet_address = walletAddress, wd_token_value = roundScore (wallet_total snapshotTs maturation scored),
               wd_lots = map (lot_detail snapshotTs maturation) scored\<rparr>)) lotsState)"

subsection \<open>Weights and values are bounded\<close>

lemma jdiv_range:
  assumes "0 < a" "is_double (Fin m)" "0 < m"
  shows "jdiv (Fin a) (Fin m) = PInf \<or> (\<exists>z. jdiv (Fin a) (Fin m) = Fin z \<and> 0 \<le> z)"
proof -
  have "0 \<le> round53 (a / m)" using assms by (intro round53_nonneg) simp
  moreover have "(0 :: rat) < 2 ^ 1024" by simp
  ultimately show ?thesis using assms by (auto simp: to_double_def Let_def)
qed

lemma computeLinearWeight_range:
  assumes "ageDays = Fin a" "maturation = Fin m" "is_double (Fin m)"
  shows "\<exists>w. computeLinearWeight ageDays maturation = Fin w \<and> 0 \<le> w \<and> w \<le> 1"
proof -
  consider "m \<le> 0" | "0 < m" "a \<le> 0" | "0 < m" "0 < a" by linarith
  then show ?thesis
  proof cases
    case 3
    then show ?thesis using jdiv_range[of a m] assms
      by (auto simp: computeLinearWeight_def jle_def jeq_def jmin_def simp del: jdiv.simps is_double.simps)
  qed (auto simp: computeLinearWeight_def jle_def jeq_def assms)
qed

text \<open>A time value of \<^verbatim>\<open>Date\<close> on or after the epoch: at most 100,000,000 days in whole milliseconds.\<close>

definition time_value :: "int \<Rightarrow> bool" where
  "time_value t \<longleftrightarrow> 0 \<le> t \<and> t \<le> 8640000000000000"

definition day_ms :: int where
  "day_ms = 24 * 60 * 60 * 1000"

lemma lot_age_Fin:
  assumes "time_value s" "time_value n"
  shows "\<exists>a. computeLotAgeDays (Some (jint s)) (jint n) = Fin a \<and> 0 \<le> a
    \<and> (n \<le> s \<longrightarrow> a = 0) \<and> (\<forall>m. 0 < m \<longrightarrow> m * day_ms \<le> n - s \<longrightarrow> of_int m \<le> a)"
proof -
  have b: "\<bar>n - s\<bar> \<le> 2 ^ 53" using assms by (simp add: time_value_def abs_le_iff)
  note sub = jsub_int[OF b]
  show ?thesis
  proof (cases "n \<le> s")
    case True
    then have "computeLotAgeDays (Some (jint s)) (jint n) = Fin 0"
      using sub by (simp add: computeLotAgeDays_def Let_def jle_def jeq_def jint_def)
    moreover have "\<not> m * day_ms \<le> n - s" if "0 < m" for m
      using mult_pos_pos[OF that, of day_ms] True by (simp add: day_ms_def)
    ultimately show ?thesis by simp
  next
    case False
    define k where "k = (of_int day_ms :: rat)"
    have k: "1 \<le> k" by (simp add: k_def day_ms_def)
    define d where "d = (of_int (n - s) :: rat)"
    have d: "0 < d" "is_double (Fin d)" using False is_double_int[OF b] by (simp_all add: d_def del: is_double.simps)
    have "d / k \<le> d" using d k by (simp add: divide_le_eq mult_le_cancel_left1)
    then have q: "to_double (d / k) = Fin (round53 (d / k))"
      using d k by (intro to_double_bounded(1)[of _ d]) simp_all
    have ms: "MS_PER_DAY = Fin k" by (simp add: MS_PER_DAY_def jint_def k_def day_ms_def)
    have "jsub (jint n) (jint s) = Fin d" using sub by (simp add: d_def jint_def)
    then have age: "computeLotAgeDays (Some (jint s)) (jint n) = Fin (round53 (d / k))"
      using d(1) k q by (simp add: computeLotAgeDays_def Let_def jle_def jeq_def ms)
    have "of_int m \<le> round53 (d / k)" if m: "0 < m" "m * day_ms \<le> n - s" for m
    proof -
      have "m * 1 \<le> m * day_ms" using m by (intro mult_left_mono) (simp_all add: day_ms_def)
      then have "m \<le> m * day_ms" by simp
      then have "\<bar>m\<bar> \<le> 2 ^ 53" using m b by linarith
      moreover have "of_int m * k \<le> d" using m(2) by (simp only: k_def d_def of_int_le_iff flip: of_int_mult)
      then have "of_int m \<le> d / k" using k by (simp add: le_divide_eq)
      ultimately show ?thesis using round53_mono[of "of_int m" "d / k"] by simp
    qed
    moreover have "0 \<le> round53 (d / k)" using d k by (intro round53_nonneg) simp
    ultimately show ?thesis using age False by auto
  qed
qed

lemma weight_full:
  assumes "0 < m" "of_int m \<le> a"
  shows "computeLinearWeight (Fin a) (jint m) = Fin 1"
proof -
  have "1 \<le> a / of_int m" using assms by (simp add: le_divide_eq)
  then have r: "1 \<le> round53 (a / of_int m)" using round53_mono[of 1 "a / of_int m"] dbl.rnd_one by simp
  then have "to_double (a / of_int m) = PInf \<or> (\<exists>z. to_double (a / of_int m) = Fin z \<and> 1 \<le> z)"
    by (auto simp: to_double_def Let_def)
  moreover have "0 < a" using assms by (meson less_le_trans of_int_0_less_iff)
  ultimately show ?thesis using assms by (auto simp: computeLinearWeight_def jle_def jeq_def jmin_def jint_def)
qed

lemma lot_value_scaled:
  assumes "lot_ok l" "computeLinearWeight (computeLotAgeDays (lot_receivedAt l) now) maturation = Fin w" "0 \<le> w" "w \<le> 1"
  shows "\<exists>x. lot_amountRemaining l = Fin x \<and> lot_value now maturation l = Fin (round53 (x * w))
    \<and> 0 \<le> round53 (x * w) \<and> round53 (x * w) \<le> x \<and> round53 x = x"
proof -
  obtain x where x: "lot_amountRemaining l = Fin x" "0 < x" "is_double (Fin x)"
    using assms(1) by (auto simp: lot_ok_def lot_amount_ok_def)
  have "to_double (x * w) = Fin (round53 (x * w))"
    using assms x by (intro to_double_bounded(1)[of _ x]) (simp_all add: mult_left_le)
  moreover have "round53 (x * w) \<le> x" using assms x by (intro dbl.rnd_scale_le) simp_all
  moreover have "0 \<le> round53 (x * w)" using assms x by (intro round53_nonneg) simp
  ultimately show ?thesis using assms x by (simp add: lot_value_def)
qed

text \<open>
  The value of a lot lies between zero and its amount, in binary64 arithmetic: it is zero for a lot
  received at or after the snapshot time, and exactly the amount once the lot is at least as many
  whole days old as the maturation threshold.
\<close>

lemma lot_value_bounded:
  assumes "lot_ok l" "lot_receivedAt l = Some (jint s)" "time_value s" "time_value n" "0 < m" "m \<le> 2 ^ 53"
  shows "\<exists>x v. lot_amountRemaining l = Fin x \<and> lot_value (jint n) (jint m) l = Fin v \<and> 0 \<le> v \<and> v \<le> x
    \<and> (n \<le> s \<longrightarrow> v = 0) \<and> (m * day_ms \<le> n - s \<longrightarrow> v = x)"
proof -
  obtain a where a: "computeLotAgeDays (Some (jint s)) (jint n) = Fin a" "0 \<le> a" "n \<le> s \<longrightarrow> a = 0"
      "m * day_ms \<le> n - s \<longrightarrow> of_int m \<le> a"
    using lot_age_Fin[OF assms(3,4)] assms(5) by blast
  obtain w where w: "computeLinearWeight (Fin a) (jint m) = Fin w" "0 \<le> w" "w \<le> 1"
    using computeLinearWeight_range[of "Fin a" a "jint m" "of_int m"] is_double_int[of m] assms(5,6)
    by (auto simp: jint_def simp del: is_double.simps)
  have z: "w = 0" if "n \<le> s"
    using w a that assms(5) by (simp add: computeLinearWeight_def jle_def jeq_def jint_def)
  have f: "w = 1" if "m * day_ms \<le> n - s"
    using weight_full[of m a] w a that assms(5) by simp
  show ?thesis using lot_value_scaled[of l "jint n" "jint m" w] assms(1,2) a(1) w z f by fastforce
qed

theorem lot_value_bounded_witness:
  "\<exists>x v. lot_amountRemaining (sample_lot ''r'' 7) = Fin x
    \<and> lot_value (jint (2 * day_ms)) (jint 2) (sample_lot ''r'' 7) = Fin v \<and> v = x"
  using lot_value_bounded[of "sample_lot ''r'' 7" 0 "2 * day_ms" 2] sample_lot_ok[of 7]
  by (auto simp: time_value_def day_ms_def sample_lot_def jint_def)

end
