(* ===== verification/Did_Input.thy ===== *)
theory Did_Input
  imports Orchestrator_Inputs "HOL-Library.AList"
begin

text \<open>
  The DID map that scoring algorithms read (\<^verbatim>\<open>apps/workflows/src/activities/typescript/algorithms/shared/did-input.ts\<close>):
  parsing it from JSON, and the wallet indexes built from it.  A record is the list of its entries in
  order, and \<open>lc a b\<close> is \<^verbatim>\<open>a.localeCompare(b) <= 0\<close>.
\<close>

section \<open>Parsing\<close>

record DidWallet =
  dw_address :: string
  dw_chain :: string

type_synonym DidInputMap = "(string \<times> DidWallet list) list"

definition normalizeWalletAddress :: "string \<Rightarrow> string \<Rightarrow> string" where
  "normalizeWalletAddress wallet chain = (if chain = ''ethereum'' then js_lower wallet else wallet)"

text \<open>One element of \<^verbatim>\<open>userWallets\<close>, \<^const>\<open>None\<close> when the loop skips it.\<close>

definition parse_wallet :: "json \<Rightarrow> DidWallet option" where
  "parse_wallet wallet =
     (if \<not> isRecord wallet then None
      else
        (case (jfield ''chain'' wallet, jfield ''address'' wallet) of
           (JStr chain, JStr address) \<Rightarrow>
             if chain \<noteq> ''ethereum'' \<and> chain \<noteq> ''cardano'' \<or> js_trim address = [] then None
             else Some \<lparr>dw_address = normalizeWalletAddress (js_trim address) chain, dw_chain = chain\<rparr>
         | _ \<Rightarrow> None))"

definition wallet_key :: "DidWallet \<Rightarrow> string" where
  "wallet_key w = dw_chain w @ '':'' @ dw_address w"

definition add_wallet :: "DidWallet \<Rightarrow> DidWallet list \<Rightarrow> DidWallet list" where
  "add_wallet w wallets = (if wallet_key w \<in> wallet_key ` set wallets then wallets else wallets @ [w])"

fun parseUserWallets :: "json \<Rightarrow> DidWallet list" where
  "parseUserWallets (JArr values) =
     fold (\<lambda>v acc. case parse_wallet v of None \<Rightarrow> acc | Some w \<Rightarrow> add_wallet w acc) values []"
| "parseUserWallets _ = []"

fun parseDidInputRecord :: "json \<Rightarrow> DidInputMap" where
  "parseDidInputRecord (JObj entries) =
     map (\<lambda>(did, rawEntry). (did, parseUserWallets (jfield ''userWallets'' rawEntry)))
       (filter (\<lambda>(did, rawEntry). isRecord rawEntry \<and> js_trim did \<noteq> []) entries)"
| "parseDidInputRecord _ = []"

definition extractDidsKey :: "AlgorithmPresetInput list \<Rightarrow> string + string" where
  "extractDidsKey inputs =
     (case input_value ''dids'' inputs of JStr k \<Rightarrow> Inr k | _ \<Rightarrow> Inl ''Missing required \"dids\" input'')"

definition extractOptionalDidsKey :: "AlgorithmPresetInput list \<Rightarrow> string option" where
  "extractOptionalDidsKey inputs = (case input_value ''dids'' inputs of JStr k \<Rightarrow> Some k | _ \<Rightarrow> None)"

section \<open>Indexes\<close>

definition getDids :: "(string \<Rightarrow> string \<Rightarrow> bool) \<Rightarrow> DidInputMap \<Rightarrow> string list" where
  "getDids lc m = sort_by lc (map fst m)"

definition index_add :: "string \<Rightarrow> string \<Rightarrow> (string \<times> string list) list \<Rightarrow> (string \<times> string list) list" where
  "index_add address did index =
     (case map_of index address of
        None \<Rightarrow> index @ [(address, [did])]
      | Some matches \<Rightarrow> AList.update address (matches @ [did]) index)"

definition index_entry :: "string \<times> DidWallet list \<Rightarrow> (string \<times> string list) list \<Rightarrow> (string \<times> string list) list" where
  "index_entry e index = fold (\<lambda>w. index_add (dw_address w) (fst e)) (snd e) index"

definition buildWalletDidsIndex :: "(string \<Rightarrow> string \<Rightarrow> bool) \<Rightarrow> DidInputMap \<Rightarrow> (string \<times> string list) list" where
  "buildWalletDidsIndex lc m = map (\<lambda>(address, dids). (address, sort_by lc dids)) (fold index_entry m [])"

definition getWalletsForChain :: "DidInputMap \<Rightarrow> string \<Rightarrow> string list" where
  "getWalletsForChain m chain =
     js_dedup (map dw_address (filter (\<lambda>w. dw_chain w = chain) (concat (map snd m))))"

definition getWalletsForSelectedResources :: "DidInputMap \<Rightarrow> string list \<Rightarrow> string list" where
  "getWalletsForSelectedResources m selectedChains =
     js_dedup (map dw_address (filter (\<lambda>w. dw_chain w \<in> set selectedChains) (concat (map snd m))))"

section \<open>Normal form\<close>

definition wallet_ok :: "DidWallet \<Rightarrow> bool" where
  "wallet_ok w \<longleftrightarrow> (dw_chain w = ''ethereum'' \<or> dw_chain w = ''cardano'') \<and> dw_address w \<noteq> []
     \<and> js_trim (dw_address w) = dw_address w \<and> (dw_chain w = ''ethereum'' \<longrightarrow> js_lower (dw_address w) = dw_address w)"

definition did_map_ok :: "DidInputMap \<Rightarrow> bool" where
  "did_map_ok m \<longleftrightarrow>
     list_all (\<lambda>(did, wallets). js_trim did \<noteq> [] \<and> list_all wallet_ok wallets \<and> distinct (map wallet_key wallets)) m"

lemma parse_wallet_ok: "parse_wallet v = Some w \<Longrightarrow> wallet_ok w"
  by (auto simp: parse_wallet_def wallet_ok_def normalizeWalletAddress_def js_trim_lower
      split: if_splits json.splits)

lemma add_wallets_ok:
  "list_all wallet_ok acc \<Longrightarrow> distinct (map wallet_key acc) \<Longrightarrow>
   list_all wallet_ok (fold (\<lambda>v acc. case parse_wallet v of None \<Rightarrow> acc | Some w \<Rightarrow> add_wallet w acc) vs acc)
   \<and> distinct (map wallet_key (fold (\<lambda>v acc. case parse_wallet v of None \<Rightarrow> acc | Some w \<Rightarrow> add_wallet w acc) vs acc))"
  by (induction vs arbitrary: acc) (auto simp: add_wallet_def parse_wallet_ok split: option.split)

lemma parseUserWallets_ok: "list_all wallet_ok (parseUserWallets j) \<and> distinct (map wallet_key (parseUserWallets j))"
  by (cases j) (simp_all add: add_wallets_ok)

lemma parseDidInputRecord_ok: "did_map_ok (parseDidInputRecord j)"
  by (cases j) (auto simp: did_map_ok_def list_all_iff parseUserWallets_ok[unfolded list_all_iff])

section \<open>Printing and parsing again\<close>

definition wallet_json :: "DidWallet \<Rightarrow> json" where
  "wallet_json w = JObj [(''address'', JStr (dw_address w)), (''chain'', JStr (dw_chain w))]"

definition did_map_json :: "DidInputMap \<Rightarrow> json" where
  "did_map_json m = JObj (map (\<lambda>(did, wallets). (did, JObj [(''userWallets'', JArr (map wallet_json wallets))])) m)"

lemma parse_wallet_json: "wallet_ok w \<Longrightarrow> parse_wallet (wallet_json w) = Some w"
  by (auto simp: wallet_ok_def parse_wallet_def wallet_json_def normalizeWalletAddress_def)

lemma parse_wallets_json:
  "list_all wallet_ok ws \<Longrightarrow> distinct (map wallet_key (acc @ ws)) \<Longrightarrow>
   fold (\<lambda>v acc. case parse_wallet v of None \<Rightarrow> acc | Some w \<Rightarrow> add_wallet w acc) (map wallet_json ws) acc = acc @ ws"
  by (induction ws arbitrary: acc) (auto simp: parse_wallet_json add_wallet_def)

lemma parse_did_map_json: "did_map_ok m \<Longrightarrow> parseDidInputRecord (did_map_json m) = m"
  by (induction m) (auto simp: did_map_json_def did_map_ok_def parse_wallets_json[where acc = "[]", simplified])

text \<open>
  Whatever JSON value the DID file holds, parsing yields a map in normal form: no blank DID, every wallet
  on a supported chain with a non-empty trimmed address, lower case on Ethereum, and no wallet twice
  under one DID.  Printing that map and parsing it again gives it back.
\<close>

lemma parseDidInputRecord_normalises:
  "did_map_ok (parseDidInputRecord j) \<and> parseDidInputRecord (did_map_json (parseDidInputRecord j)) = parseDidInputRecord j"
  using parseDidInputRecord_ok parse_did_map_json by blast

section \<open>The wallet index\<close>

text \<open>\<^verbatim>\<open>index.get(address) ?? []\<close>.\<close>

definition index_get :: "(string \<times> string list) list \<Rightarrow> string \<Rightarrow> string list" where
  "index_get index address = (case map_of index address of None \<Rightarrow> [] | Some dids \<Rightarrow> dids)"

text \<open>The reference: the DIDs that list the address, once per wallet that does.\<close>

definition dids_with :: "DidInputMap \<Rightarrow> string \<Rightarrow> string list" where
  "dids_with m address = concat (map (\<lambda>(did, ws). map (\<lambda>_. did) (filter (\<lambda>w. dw_address w = address) ws)) m)"

lemma index_get_add: "index_get (index_add a d idx) b = index_get idx b @ (if a = b then [d] else [])"
  by (auto simp: index_get_def index_add_def update_conv' map_add_def split: option.split)

lemma index_get_entry:
  "index_get (index_entry (did, ws) idx) b = index_get idx b @ map (\<lambda>_. did) (filter (\<lambda>w. dw_address w = b) ws)"
  by (induction ws arbitrary: idx) (simp_all add: index_entry_def index_get_add)

lemma index_get_fold: "index_get (fold index_entry m idx) b = index_get idx b @ dids_with m b"
  by (induction m arbitrary: idx) (auto simp: dids_with_def index_get_entry)

lemma index_get_build: "index_get (buildWalletDidsIndex lc m) b = sort_by lc (dids_with m b)"
proof -
  have m: "map_of (map (\<lambda>(a, ds). (a, f ds)) idx) b = map_option f (map_of idx b)" for f :: "string list \<Rightarrow> string list" and idx
    by (induction idx) auto
  have "index_get (buildWalletDidsIndex lc m) b = sort_by lc (index_get (fold index_entry m []) b)"
    unfolding buildWalletDidsIndex_def index_get_def m by (simp add: sort_by_def split: option.split)
  then show ?thesis by (simp add: index_get_fold) (simp add: index_get_def)
qed

lemma set_dids_with: "did \<in> set (dids_with m b) \<longleftrightarrow> (\<exists>ws. (did, ws) \<in> set m \<and> b \<in> dw_address ` set ws)"
  by (force simp: dids_with_def)

lemma set_getWalletsForSelectedResources:
  "set (getWalletsForSelectedResources m chains') = {dw_address w | w. w \<in> set (concat (map snd m)) \<and> dw_chain w \<in> set chains'}"
  by (auto simp: getWalletsForSelectedResources_def)

end
