(* ===== verification/Onchain_Table.thy ===== *)
theory Onchain_Table
  imports Prelude
begin

text \<open>
  What the on-chain tables share: \<^verbatim>\<open>INSERT ... ON CONFLICT DO NOTHING\<close> on a primary key, its counts, and
  \<^verbatim>\<open>LIMIT/OFFSET\<close> pagination.  The contract of the insertion is the locale \<open>ignore_table\<close>; the syncs use only
  its lemmas.
\<close>

fun insert_or_ignore :: "('r \<Rightarrow> 'k) \<Rightarrow> 'r list \<Rightarrow> 'r list \<Rightarrow> 'r list" where
  "insert_or_ignore key [] tbl = tbl"
| "insert_or_ignore key (r # rs) tbl =
     insert_or_ignore key rs (if key r \<in> key ` set tbl then tbl else tbl @ [r])"

record InsertResult =
  attemptedCount :: nat
  insertedCount :: nat
  ignoredCount :: nat

definition no_counts :: InsertResult where
  "no_counts = \<lparr>attemptedCount = 0, insertedCount = 0, ignoredCount = 0\<rparr>"

definition add_counts :: "InsertResult \<Rightarrow> InsertResult \<Rightarrow> InsertResult" where
  "add_counts a b =
     \<lparr>attemptedCount = attemptedCount a + attemptedCount b, insertedCount = insertedCount a + insertedCount b,
      ignoredCount = ignoredCount a + ignoredCount b\<rparr>"

text \<open>The rows of one page of a query, page numbers counting from one.\<close>

definition page_of :: "nat \<Rightarrow> nat \<Rightarrow> 'a list \<Rightarrow> 'a list" where
  "page_of limit page rows = take limit (drop ((page - 1) * limit) rows)"

locale ignore_table =
  fixes key :: "'r \<Rightarrow> 'k"
    and ins :: "'r list \<Rightarrow> 'r list \<Rightarrow> 'r list"
  assumes keeps: "set tbl \<subseteq> set (ins rs tbl)"
    and only: "set (ins rs tbl) \<subseteq> set tbl \<union> set rs"
    and covers: "key ` set rs \<subseteq> key ` set (ins rs tbl)"
    and keyed: "distinct (map key tbl) \<Longrightarrow> distinct (map key (ins rs tbl))"
begin

text \<open>On rows that a key identifies, the insertion is set union: nothing new is ignored.\<close>

lemma stored:
  assumes "inj_on key U" "set tbl \<subseteq> U" "set rs \<subseteq> U"
  shows "set (ins rs tbl) = set tbl \<union> set rs"
proof -
  have "r \<in> set (ins rs tbl)" if "r \<in> set rs" for r
  proof -
    have "key r \<in> key ` set (ins rs tbl)" using that covers[of rs tbl] by blast
    then obtain r' where r': "r' \<in> set (ins rs tbl)" "key r' = key r" by auto
    then have "r' \<in> U" "r \<in> U" using only[of rs tbl] that assms(2,3) by auto
    then show ?thesis using r' assms(1) by (metis inj_onD)
  qed
  then show ?thesis using keeps[of tbl rs] only[of rs tbl] by blast
qed

lemma stored_again:
  assumes "inj_on key U" "set tbl \<subseteq> U" "set rs \<subseteq> set tbl"
  shows "set (ins rs tbl) = set tbl"
  using stored[OF assms(1,2), of rs] assms by blast

end

interpretation iot: ignore_table key "insert_or_ignore key" for key :: "'r \<Rightarrow> 'k"
proof
  fix tbl rs :: "'r list"
  show "set tbl \<subseteq> set (insert_or_ignore key rs tbl)"
    by (induction rs arbitrary: tbl) (simp, fastforce split: if_splits)
  show "set (insert_or_ignore key rs tbl) \<subseteq> set tbl \<union> set rs"
    by (induction rs arbitrary: tbl) (simp, fastforce split: if_splits)
  show "distinct (map key tbl) \<Longrightarrow> distinct (map key (insert_or_ignore key rs tbl))"
    by (induction rs arbitrary: tbl) (auto split: if_splits)
  show "key ` set rs \<subseteq> key ` set (insert_or_ignore key rs tbl)"
  proof (induction rs arbitrary: tbl)
    case (Cons r rs)
    have k: "set t \<subseteq> set (insert_or_ignore key rs t)" for t
      by (induction rs arbitrary: t) (simp, fastforce split: if_splits)
    let ?t = "if key r \<in> key ` set tbl then tbl else tbl @ [r]"
    have "key r \<in> key ` set ?t" by simp
    then have "key r \<in> key ` set (insert_or_ignore key rs ?t)" using k[of ?t] by blast
    then show ?case using Cons[of ?t] by simp
  qed simp
qed

lemma length_insert_or_ignore:
  "length tbl \<le> length (insert_or_ignore key rs tbl) \<and> length (insert_or_ignore key rs tbl) \<le> length tbl + length rs"
proof (induction rs arbitrary: tbl)
  case (Cons r rs)
  show ?case using Cons[of tbl] Cons[of "tbl @ [r]"] by simp
qed simp

text \<open>\<^verbatim>\<open>upsert\<close> of the one row that satisfies a key condition, read back.\<close>

lemma find_tbl_set:
  "List.find P rows = Some r \<Longrightarrow> P row \<Longrightarrow> List.find P (tbl_update P (\<lambda>_. row) rows) = Some row"
  by (induction rows) (auto simp: tbl_update_def split: if_splits)

lemma find_tbl_set_other:
  assumes "\<And>r. P r \<Longrightarrow> \<not> Q r" "P row"
  shows "List.find Q (tbl_update P (\<lambda>_. row) rows) = List.find Q rows"
  using assms by (induction rows) (auto simp: tbl_update_def)

section \<open>Pagination\<close>

lemma page_of_short: "length rows < page * limit \<Longrightarrow> 1 \<le> page \<Longrightarrow> length (page_of limit page rows) < limit"
proof -
  assume a: "length rows < page * limit" "1 \<le> page"
  then obtain n where n: "page = Suc n" by (cases page) auto
  have "0 < limit" using a by (cases limit) auto
  then have "length rows - n * limit < limit" using a(1) n by (simp add: less_diff_conv2)
  then show ?thesis by (simp add: page_of_def n min_def)
qed

lemma page_of_append:
  assumes "1 \<le> page"
  shows "take ((page - 1) * limit) rows @ page_of limit page rows = take (page * limit) rows"
  using assms by (cases page) (simp_all add: page_of_def take_add add.commute[of limit])

lemma concat_pages: "concat (map (\<lambda>p. page_of limit p rows) [1 ..< Suc n]) = take (n * limit) rows"
proof (induction n)
  case (Suc n)
  have "[1 ..< Suc (Suc n)] = [1 ..< Suc n] @ [Suc n]" by simp
  then show ?case using Suc page_of_append[of "Suc n" limit rows] by simp
qed simp

end
