(* ===== verification/Onchain_Evm.thy ===== *)
theory Onchain_Evm
  imports Onchain_Table "HOL-Library.Word"
begin

text \<open>
  The EVM half of \<^verbatim>\<open>packages/onchain-data\<close>: hex block numbers, the Alchemy JSON-RPC client with its retries,
  the transfer tables, the incremental sync and the read repository.  The network is the list of
  answers it gives.  A time stamp in a transfer's metadata is its instant in milliseconds (Alchemy
  prints them in the format of \<^verbatim>\<open>toISOString\<close>, in which text order is time order), and the collation of
  text columns is an argument.
\<close>

section \<open>Hex block numbers\<close>

definition hex_digit :: "char \<Rightarrow> nat option" where
  "hex_digit c =
     (let n = of_char c :: nat
      in if 48 \<le> n \<and> n \<le> 57 then Some (n - 48)
         else if 97 \<le> n \<and> n \<le> 102 then Some (n - 87)
         else if 65 \<le> n \<and> n \<le> 70 then Some (n - 55)
         else None)"

definition digit_of :: "char \<Rightarrow> nat" where
  "digit_of c = (case hex_digit c of Some d \<Rightarrow> d | None \<Rightarrow> 0)"

text \<open>\<^verbatim>\<open>BigInt('0x' + digits)\<close>.\<close>

definition hex_value :: "string \<Rightarrow> nat" where
  "hex_value digits = foldl (\<lambda>n c. 16 * n + digit_of c) 0 digits"

text \<open>\<^verbatim>\<open>/^0x[0-9a-f]+$/i\<close>, on a lower-case string.\<close>

definition hex_block_pattern :: "string \<Rightarrow> bool" where
  "hex_block_pattern s \<longleftrightarrow> js_startsWith s ''0x'' \<and> drop 2 s \<noteq> [] \<and> list_all (\<lambda>c. hex_digit c \<noteq> None) (drop 2 s)"

definition normalizeHexBlock :: "string \<Rightarrow> string + string" where
  "normalizeHexBlock block =
     (let normalizedValue = js_lower (js_trim block);
          normalizedInput = (if js_startsWith normalizedValue ''0x'' then normalizedValue else ''0x'' @ normalizedValue)
      in if \<not> hex_block_pattern normalizedInput then Inl (''Invalid hex block value: '' @ block)
         else
           (let hexDigits = dropWhile (\<lambda>c. c = CHR ''0'') (drop 2 normalizedInput)
            in Inr (''0x'' @ (if hexDigits = [] then ''0'' else hexDigits))))"

definition compareHexBlocks :: "string \<Rightarrow> string \<Rightarrow> string + int" where
  "compareHexBlocks left right =
     (case normalizeHexBlock left of
        Inl e \<Rightarrow> Inl e
      | Inr l \<Rightarrow>
          (case normalizeHexBlock right of
             Inl e \<Rightarrow> Inl e
           | Inr r \<Rightarrow>
               (let leftValue = hex_value (drop 2 l); rightValue = hex_value (drop 2 r)
                in Inr (if leftValue = rightValue then 0 else if leftValue < rightValue then - 1 else 1))))"

text \<open>
  \<^verbatim>\<open>BLOCK_NUM_NUMERIC\<close>, the sort key of the read repository: \<^verbatim>\<open>ltrim\<close> drops leading characters of the set
  \<open>{0, x}\<close>, \<^verbatim>\<open>lpad\<close> pads to sixteen digits or cuts to the first sixteen, and \<^verbatim>\<open>bit(64)::bigint\<close> reads them as a
  signed 64-bit integer.
\<close>

definition sql_ltrim_0x :: "string \<Rightarrow> string" where
  "sql_ltrim_0x s = dropWhile (\<lambda>c. c = CHR ''0'' \<or> c = CHR ''x'') s"

definition sql_lpad16 :: "string \<Rightarrow> string" where
  "sql_lpad16 s = (if 16 \<le> length s then take 16 s else replicate (16 - length s) (CHR ''0'') @ s)"

definition BLOCK_NUM_NUMERIC :: "string \<Rightarrow> int" where
  "BLOCK_NUM_NUMERIC block_num =
     sint (of_nat (hex_value (sql_lpad16 (sql_ltrim_0x (js_lower block_num)))) :: 64 word)"

subsection \<open>The SQL sort key is the block number\<close>

lemma hex_value_foldl: "foldl (\<lambda>n c. 16 * n + digit_of c) a ds = a * 16 ^ length ds + hex_value ds"
proof (induction ds arbitrary: a)
  case (Cons d ds)
  show ?case
    unfolding hex_value_def foldl.simps Cons[of "16 * a + digit_of d"] Cons[of "16 * 0 + digit_of d"]
    by (simp add: algebra_simps)
qed (simp add: hex_value_def)

lemma hex_value_append: "hex_value (xs @ ys) = hex_value xs * 16 ^ length ys + hex_value ys"
  using hex_value_foldl[of "hex_value xs" ys] by (simp add: hex_value_def)

lemma hex_value_Cons: "hex_value (x # ys) = digit_of x * 16 ^ length ys + hex_value ys"
  using hex_value_append[of "[x]" ys] by (simp add: hex_value_def)

lemma digit_of_0 [simp]: "digit_of CHR ''0'' = 0"
  by code_simp

lemma hex_value_zeros: "list_all (\<lambda>c. digit_of c = 0) zs \<Longrightarrow> hex_value (zs @ ds) = hex_value ds"
  by (induction zs) (simp_all add: hex_value_Cons)

lemma hex_value_dropWhile:
  assumes "\<And>c. P c \<Longrightarrow> digit_of c = 0"
  shows "hex_value (dropWhile P ds) = hex_value ds"
proof -
  have "list_all (\<lambda>c. digit_of c = 0) (takeWhile P ds)"
    using assms by (auto simp: list_all_iff dest: set_takeWhileD)
  then show ?thesis using hex_value_zeros[of "takeWhile P ds" "dropWhile P ds"] by simp
qed

lemma digit_of_less: "digit_of c < 16"
  by (auto simp: digit_of_def hex_digit_def Let_def split: option.split if_splits)

lemma hex_value_lower_bound:
  assumes "ds \<noteq> []" "digit_of (hd ds) \<noteq> 0"
  shows "16 ^ (length ds - 1) \<le> hex_value ds"
  using assms by (cases ds) (auto simp: hex_value_Cons intro: trans_le_add1)

lemma digit_of_nonzero: "hex_digit c \<noteq> None \<Longrightarrow> c \<noteq> CHR ''0'' \<Longrightarrow> digit_of c \<noteq> 0"
proof (rule ccontr)
  assume a: "hex_digit c \<noteq> None" "c \<noteq> CHR ''0''" "\<not> digit_of c \<noteq> 0"
  then have "(of_char c :: nat) = 48"
    by (auto simp: digit_of_def hex_digit_def Let_def split: if_splits)
  then have "c = char_of (48 :: nat)" by (metis char_of_char)
  also have "char_of (48 :: nat) = CHR ''0''" by code_simp
  finally show False using a(2) by simp
qed

lemma hex_digit_x: "hex_digit CHR ''x'' = None"
  by code_simp

lemma ltrim_digits:
  assumes "list_all (\<lambda>c. hex_digit c \<noteq> None) ds"
  shows "sql_ltrim_0x ds = dropWhile (\<lambda>c. c = CHR ''0'') ds"
  using assms hex_digit_x by (induction ds) (auto simp: sql_ltrim_0x_def)

lemma length_of_value:
  assumes "ds \<noteq> [] \<Longrightarrow> digit_of (hd ds) \<noteq> 0" "hex_value ds < 16 ^ n"
  shows "length ds \<le> n"
proof (cases "ds = []")
  case False
  then have "(16 :: nat) ^ (length ds - 1) < 16 ^ n"
    using hex_value_lower_bound[of ds] assms by (meson le_less_trans)
  then have "length ds - 1 < n" by (simp only: power_strict_increasing_iff)
  then show ?thesis by simp
qed simp

lemma lpad16_value:
  assumes "length ds \<le> 16"
  shows "hex_value (sql_lpad16 ds) = hex_value ds"
proof (cases "length ds = 16")
  case False
  then show ?thesis using assms hex_value_zeros[of "replicate (16 - length ds) CHR ''0''" ds]
    by (simp add: sql_lpad16_def list_all_iff)
qed (simp add: sql_lpad16_def)

lemma sint_of_nat_small: "n < 2 ^ 63 \<Longrightarrow> sint (of_nat n :: 64 word) = int n"
  by (simp add: signed_of_nat signed_take_bit_int_eq_self)

lemma sql_numeric_digits:
  assumes "sql_ltrim_0x (js_lower block) = dropWhile (\<lambda>c. c = CHR ''0'') ds"
    "list_all (\<lambda>c. hex_digit c \<noteq> None) ds" "hex_value ds < 2 ^ 63"
  shows "BLOCK_NUM_NUMERIC block = int (hex_value ds)"
proof -
  let ?h = "dropWhile (\<lambda>c. c = CHR ''0'') ds"
  have v: "hex_value ?h = hex_value ds" by (rule hex_value_dropWhile) simp
  have "digit_of (hd ?h) \<noteq> 0" if "?h \<noteq> []"
    using hd_dropWhile[OF that] assms(2) hd_in_set[OF that] set_dropWhileD[of "hd ?h"]
    by (intro digit_of_nonzero) (fastforce simp: list_all_iff)+
  then have "length ?h \<le> 16" using assms(3) v by (intro length_of_value) simp_all
  then show ?thesis using assms v lpad16_value[of ?h] sint_of_nat_small[of "hex_value ds"]
    by (simp add: BLOCK_NUM_NUMERIC_def)
qed

text \<open>
  For every block number the code accepts, written without surrounding blanks and below \<open>2 ^ 63\<close>, the
  sort key that the read repository computes in SQL is the number that \<^verbatim>\<open>normalizeHexBlock\<close> denotes; so
  pages and replay are ordered by block number whatever the number of hex digits.
\<close>

lemma BLOCK_NUM_NUMERIC_correct:
  assumes "normalizeHexBlock block = Inr h" "js_trim block = block" "hex_value (drop 2 h) < 2 ^ 63"
  shows "BLOCK_NUM_NUMERIC block = int (hex_value (drop 2 h))"
proof -
  define v where "v = js_lower block"
  define i where "i = (if js_startsWith v ''0x'' then v else ''0x'' @ v)"
  define ds where "ds = drop 2 i"
  have p: "hex_block_pattern i" and h: "h = ''0x'' @ (let d = dropWhile (\<lambda>c. c = CHR ''0'') ds in if d = [] then ''0'' else d)"
    using assms(1,2) by (auto simp: normalizeHexBlock_def Let_def v_def i_def ds_def split: if_splits)
  have hx: "list_all (\<lambda>c. hex_digit c \<noteq> None) ds" using p by (simp add: hex_block_pattern_def ds_def)
  have "sql_ltrim_0x v = sql_ltrim_0x ds"
  proof (cases "js_startsWith v ''0x''")
    case True
    then obtain w where "v = ''0x'' @ w" by (auto simp: js_startsWith_def prefix_def)
    then show ?thesis using True by (simp add: ds_def i_def sql_ltrim_0x_def)
  qed (simp add: ds_def i_def)
  then have l: "sql_ltrim_0x (js_lower block) = dropWhile (\<lambda>c. c = CHR ''0'') ds"
    using ltrim_digits[OF hx] by (simp add: v_def)
  have nil: "hex_value [] = 0" and zero: "hex_value ''0'' = 0" by code_simp+
  have "hex_value (drop 2 h) = hex_value ds"
    using hex_value_dropWhile[of "\<lambda>c. c = CHR ''0''" ds] nil zero
    by (cases "dropWhile (\<lambda>c. c = CHR ''0'') ds = []") (auto simp: h Let_def)
  then show ?thesis using sql_numeric_digits[OF l hx] assms(3) by simp
qed

theorem BLOCK_NUM_NUMERIC_correct_witness:
  "BLOCK_NUM_NUMERIC ''0x1B4'' = 436"
proof -
  have "normalizeHexBlock ''0x1B4'' = Inr ''0x1b4''" "js_trim ''0x1B4'' = ''0x1B4''" "hex_value ''1b4'' = 436"
    by code_simp+
  then show ?thesis using BLOCK_NUM_NUMERIC_correct[of "''0x1B4''" "''0x1b4''"] by simp
qed

section \<open>The JSON-RPC client\<close>

datatype rpc_error = RetryableError string | NonRetryableError string | OtherError string

definition MAX_RETRY_ATTEMPTS :: nat where
  "MAX_RETRY_ATTEMPTS = 5"

definition BASE_RETRY_DELAY_MS :: int where
  "BASE_RETRY_DELAY_MS = 1000"

definition MAX_RETRY_DELAY_MS :: int where
  "MAX_RETRY_DELAY_MS = 30000"

record 'a JsonRpcResponse =
  res_result :: "'a option"
  res_error :: "(int \<times> string) option"

text \<open>One request: it fails (in the network, or because the body is not JSON), or it answers with a status
  code and a payload.\<close>

definition rpc_attempt :: "string \<Rightarrow> string + int \<times> 'a JsonRpcResponse \<Rightarrow> rpc_error + 'a" where
  "rpc_attempt rpc_method answer =
     (case answer of
        Inl e \<Rightarrow> Inl (OtherError e)
      | Inr (statusCode, payload) \<Rightarrow>
          if statusCode = 429 \<or> 500 \<le> statusCode \<and> statusCode < 600 then Inl (RetryableError ''HTTP'')
          else if statusCode < 200 \<or> 300 \<le> statusCode then Inl (NonRetryableError ''HTTP'')
          else
            (case res_error payload of
               Some (code, message) \<Rightarrow>
                 if code \<in> {- 32005, - 32603} then Inl (RetryableError message) else Inl (NonRetryableError message)
             | None \<Rightarrow>
                 (case res_result payload of
                    None \<Rightarrow> Inl (NonRetryableError (''No result in JSON-RPC response for '' @ rpc_method))
                  | Some r \<Rightarrow> Inr r)))"

definition str_includes :: "string \<Rightarrow> string \<Rightarrow> bool" where
  "str_includes s p \<longleftrightarrow> sublist p s"

definition isTransientNetworkError :: "string \<Rightarrow> bool" where
  "isTransientNetworkError msg \<longleftrightarrow>
     (let message = js_lower msg
      in str_includes message ''timeout'' \<or> str_includes message ''econnreset''
       \<or> str_includes message ''econnrefused'' \<or> str_includes message ''socket hang up'')"

fun retryable :: "rpc_error \<Rightarrow> bool" where
  "retryable (RetryableError _) \<longleftrightarrow> True"
| "retryable (NonRetryableError _) \<longleftrightarrow> False"
| "retryable (OtherError m) \<longleftrightarrow> isTransientNetworkError m"

definition retry_delay :: "nat \<Rightarrow> int" where
  "retry_delay attempt = min (BASE_RETRY_DELAY_MS * 2 ^ (attempt - 1)) MAX_RETRY_DELAY_MS"

text \<open>\<^verbatim>\<open>random() * delay * 0.1\<close>, with the draws as an argument.\<close>

definition retry_sleep :: "jsnum \<Rightarrow> nat \<Rightarrow> jsnum" where
  "retry_sleep random attempt =
     (let delay = jint (retry_delay attempt) in jadd delay (jmul (jmul random delay) (to_double (1 / 10))))"

text \<open>
  The attempts from number \<open>attempt\<close> on: \<open>fn i\<close> is what attempt \<open>i\<close> yields.  The result comes with the number
  of the last attempt and the sleeps before it.
\<close>

function withRetry_from ::
  "(nat \<Rightarrow> jsnum) \<Rightarrow> (nat \<Rightarrow> rpc_error + 'a) \<Rightarrow> nat \<Rightarrow> (rpc_error + 'a) \<times> nat \<times> jsnum list" where
  "withRetry_from random fn attempt =
     (case fn attempt of
        Inr r \<Rightarrow> (Inr r, attempt, [])
      | Inl e \<Rightarrow>
          if attempt < MAX_RETRY_ATTEMPTS \<and> retryable e
          then (case withRetry_from random fn (attempt + 1) of
                  (r, n, sleeps) \<Rightarrow> (r, n, retry_sleep (random attempt) attempt # sleeps))
          else (Inl e, attempt, []))"
  by pat_completeness auto
termination by (relation "measure (\<lambda>(_, _, attempt). MAX_RETRY_ATTEMPTS - attempt)") auto

declare withRetry_from.simps [simp del]

definition withRetry :: "(nat \<Rightarrow> jsnum) \<Rightarrow> (nat \<Rightarrow> rpc_error + 'a) \<Rightarrow> (rpc_error + 'a) \<times> nat \<times> jsnum list" where
  "withRetry random fn = withRetry_from random fn 1"

text \<open>What the loop does: it stops at the first attempt that succeeds, that fails for good, or that is the fifth.\<close>

definition final_attempt :: "(nat \<Rightarrow> rpc_error + 'a) \<Rightarrow> nat \<Rightarrow> bool" where
  "final_attempt fn i \<longleftrightarrow> i = MAX_RETRY_ATTEMPTS \<or> (case fn i of Inr _ \<Rightarrow> True | Inl e \<Rightarrow> \<not> retryable e)"

lemma withRetry_from_spec:
  assumes "attempt \<le> MAX_RETRY_ATTEMPTS"
  shows "\<exists>n. withRetry_from random fn attempt
      = (fn n, n, map (\<lambda>i. retry_sleep (random i) i) [attempt ..< n])
    \<and> attempt \<le> n \<and> n \<le> MAX_RETRY_ATTEMPTS \<and> final_attempt fn n \<and> (\<forall>i. attempt \<le> i \<and> i < n \<longrightarrow> \<not> final_attempt fn i)"
  using assms
proof (induction random fn attempt rule: withRetry_from.induct)
  case (1 random fn attempt)
  show ?case
  proof (cases "final_attempt fn attempt")
    case True
    then have "withRetry_from random fn attempt = (fn attempt, attempt, [])"
      by (auto simp: withRetry_from.simps[of random fn attempt] final_attempt_def split: sum.splits)
    then show ?thesis using True 1(2) by (intro exI[of _ attempt]) auto
  next
    case False
    then obtain e where e: "fn attempt = Inl e" "attempt < MAX_RETRY_ATTEMPTS" "retryable e"
      using 1(2) by (auto simp: final_attempt_def split: sum.splits)
    then obtain n where n: "withRetry_from random fn (attempt + 1)
          = (fn n, n, map (\<lambda>i. retry_sleep (random i) i) [attempt + 1 ..< n])" "attempt + 1 \<le> n"
        "n \<le> MAX_RETRY_ATTEMPTS" "final_attempt fn n" "\<forall>i. attempt + 1 \<le> i \<and> i < n \<longrightarrow> \<not> final_attempt fn i"
      using 1(1)[OF e(1)] by auto
    have "withRetry_from random fn attempt
        = (fn n, n, retry_sleep (random attempt) attempt # map (\<lambda>i. retry_sleep (random i) i) [attempt + 1 ..< n])"
      using e n(1) by (simp add: withRetry_from.simps[of random fn attempt])
    also have "\<dots> = (fn n, n, map (\<lambda>i. retry_sleep (random i) i) [attempt ..< n])"
      using n(2) by (simp add: upt_conv_Cons)
    finally show ?thesis using n False by (intro exI[of _ n]) (metis Suc_eq_plus1 Suc_leI Suc_leD le_neq_implies_less)
  qed
qed

text \<open>
  A JSON-RPC call makes between one and five attempts.  It returns what the first attempt yields that
  succeeds or fails with an error that is not retried, and otherwise what the fifth yields, and it
  sleeps once before each attempt but the first.
\<close>

lemma withRetry_attempts:
  "\<exists>n. withRetry random fn = (fn n, n, map (\<lambda>i. retry_sleep (random i) i) [1 ..< n])
    \<and> 1 \<le> n \<and> n \<le> 5 \<and> final_attempt fn n \<and> \<not> (\<exists>i. 1 \<le> i \<and> i < n \<and> final_attempt fn i)"
  using withRetry_from_spec[of 1 random fn] by (auto simp: withRetry_def MAX_RETRY_ATTEMPTS_def)

section \<open>Tables\<close>

record EvmTransferTarget =
  tg_chain :: string
  tg_assetIdentifier :: string

record RawEvmAssetTransfer =
  raw_blockNum :: string
  raw_uniqueId :: string
  raw_hash :: string
  raw_from :: string
  raw_to :: "string option"
  raw_value :: "jsnum option"
  raw_asset :: "string option"
  raw_category :: string
  raw_rawContract :: "string option \<times> string option \<times> string option"
  raw_metadata :: "int option option"

record EvmAssetTransferRow =
  et_chain :: string
  et_asset_identifier :: string
  et_block_num :: string
  et_unique_id :: string
  et_hash :: string
  et_from_address :: string
  et_to_address :: "string option"
  et_value :: "jsnum option"
  et_asset :: "string option"
  et_category :: string
  et_raw_contract :: "string option \<times> string option \<times> string option"
  et_metadata :: "int option option"
  et_raw_json :: RawEvmAssetTransfer

record EvmAssetTransferSyncStateRow =
  ss_chain :: string
  ss_asset_identifier :: string
  ss_last_synced_block :: string
  ss_updated_at :: int

record EvmDb =
  evm_transfers :: "EvmAssetTransferRow list"
  evm_sync_state :: "EvmAssetTransferSyncStateRow list"

definition toEvmAssetTransferRow :: "EvmTransferTarget \<Rightarrow> RawEvmAssetTransfer \<Rightarrow> EvmAssetTransferRow" where
  "toEvmAssetTransferRow target transfer =
     \<lparr>et_chain = tg_chain target, et_asset_identifier = tg_assetIdentifier target,
      et_block_num = raw_blockNum transfer, et_unique_id = raw_uniqueId transfer, et_hash = raw_hash transfer,
      et_from_address = raw_from transfer, et_to_address = raw_to transfer, et_value = raw_value transfer,
      et_asset = raw_asset transfer, et_category = raw_category transfer,
      et_raw_contract = raw_rawContract transfer, et_metadata = raw_metadata transfer, et_raw_json = transfer\<rparr>"

text \<open>The primary key of the transfer table.\<close>

definition evm_key :: "EvmAssetTransferRow \<Rightarrow> string \<times> string \<times> string" where
  "evm_key r = (et_chain r, et_asset_identifier r, et_unique_id r)"

definition insertEvmAssetTransfers :: "EvmAssetTransferRow list \<Rightarrow> EvmDb \<Rightarrow> EvmDb \<times> InsertResult" where
  "insertEvmAssetTransfers rows db =
     (if rows = [] then (db, no_counts)
      else
        (let tbl = insert_or_ignore evm_key rows (evm_transfers db);
             inserted = length tbl - length (evm_transfers db)
         in (db\<lparr>evm_transfers := tbl\<rparr>,
             \<lparr>attemptedCount = length rows, insertedCount = inserted, ignoredCount = length rows - inserted\<rparr>)))"

definition is_state_of :: "EvmTransferTarget \<Rightarrow> EvmAssetTransferSyncStateRow \<Rightarrow> bool" where
  "is_state_of target r \<longleftrightarrow> ss_chain r = tg_chain target \<and> ss_asset_identifier r = tg_assetIdentifier target"

definition findEvmAssetTransferSyncState :: "EvmDb \<Rightarrow> EvmTransferTarget \<Rightarrow> EvmAssetTransferSyncStateRow option" where
  "findEvmAssetTransferSyncState db target = List.find (is_state_of target) (evm_sync_state db)"

definition upsertEvmAssetTransferSyncState :: "EvmTransferTarget \<Rightarrow> string \<Rightarrow> int \<Rightarrow> EvmDb \<Rightarrow> EvmDb" where
  "upsertEvmAssetTransferSyncState target lastSyncedBlock updatedAt db =
     (let row = \<lparr>ss_chain = tg_chain target, ss_asset_identifier = tg_assetIdentifier target,
                 ss_last_synced_block = lastSyncedBlock, ss_updated_at = updatedAt\<rparr>
      in if findEvmAssetTransferSyncState db target = None
         then db\<lparr>evm_sync_state := evm_sync_state db @ [row]\<rparr>
         else db\<lparr>evm_sync_state := tbl_update (is_state_of target) (\<lambda>_. row) (evm_sync_state db)\<rparr>)"

section \<open>The provider\<close>

record AlchemyAssetTransfersResponse =
  ar_transfers :: "RawEvmAssetTransfer list"
  ar_pageKey :: "string option"

record EvmPage =
  pg_items :: "RawEvmAssetTransfer list"
  pg_lastBlock :: string

text \<open>How the stream of pages ends: after the last page, or with an error.\<close>

datatype stream_end = Finished | Broke rpc_error

definition fetchTransferPage :: "string \<Rightarrow> AlchemyAssetTransfersResponse \<Rightarrow> EvmPage" where
  "fetchTransferPage toBlock result =
     \<lparr>pg_items = ar_transfers result,
      pg_lastBlock = (if ar_transfers result \<noteq> [] then raw_blockNum (last (ar_transfers result)) else toBlock)\<rparr>"

text \<open>
  The generator, over the outcomes of the successive calls.  A list that ends while a further page is
  due stands for a worker that stopped while waiting.
\<close>

fun fetchAssetTransfers :: "string \<Rightarrow> (rpc_error + AlchemyAssetTransfersResponse) list \<Rightarrow> EvmPage list \<times> stream_end" where
  "fetchAssetTransfers toBlock [] = ([], Broke (OtherError ''worker stopped''))"
| "fetchAssetTransfers toBlock (Inl e # answers) = ([], Broke e)"
| "fetchAssetTransfers toBlock (Inr result # answers) =
     (let page = fetchTransferPage toBlock result
      in if ar_pageKey result = None \<or> ar_pageKey result = Some [] then ([page], Finished)
         else (case fetchAssetTransfers toBlock answers of (pages, e) \<Rightarrow> (page # pages, e)))"

section \<open>The sync\<close>

definition EVM_PROVIDER_PAGE_SIZE :: nat where
  "EVM_PROVIDER_PAGE_SIZE = 1000"

definition EVM_SYNC_PAGES_PER_BATCH :: nat where
  "EVM_SYNC_PAGES_PER_BATCH = 5"

definition EVM_SYNC_BATCH_SIZE :: nat where
  "EVM_SYNC_BATCH_SIZE = EVM_PROVIDER_PAGE_SIZE * EVM_SYNC_PAGES_PER_BATCH"

record EvmSyncRun =
  run_db :: EvmDb
  run_pending :: "EvmPage list"
  run_pageCount :: nat
  run_counts :: InsertResult

text \<open>One transaction inserts the pending rows and moves the cursor.\<close>

definition flushPendingPages :: "EvmTransferTarget \<Rightarrow> int \<Rightarrow> EvmSyncRun \<Rightarrow> EvmSyncRun" where
  "flushPendingPages target now run =
     (if run_pending run = [] then run
      else
        (let rows = concat (map (\<lambda>page. map (toEvmAssetTransferRow target) (pg_items page)) (run_pending run));
             (db, counts) = insertEvmAssetTransfers rows (run_db run)
         in run\<lparr>run_db := upsertEvmAssetTransferSyncState target (pg_lastBlock (last (run_pending run))) now db,
                run_pending := [], run_counts := add_counts (run_counts run) counts\<rparr>))"

definition receive_page :: "EvmTransferTarget \<Rightarrow> int \<Rightarrow> EvmPage \<Rightarrow> EvmSyncRun \<Rightarrow> EvmSyncRun" where
  "receive_page target now page run =
     (let run' = run\<lparr>run_pageCount := run_pageCount run + 1, run_pending := run_pending run @ [page]\<rparr>
      in if length (run_pending run') * EVM_PROVIDER_PAGE_SIZE \<ge> EVM_SYNC_BATCH_SIZE
         then flushPendingPages target now run' else run')"

record SyncEvmAssetTransferResult =
  sr_chain :: string
  sr_assetIdentifier :: string
  sr_fromBlock :: string
  sr_toBlock :: string
  sr_pageCount :: nat
  sr_counts :: InsertResult

definition sync_from_block :: "EvmDb \<Rightarrow> EvmTransferTarget \<Rightarrow> string" where
  "sync_from_block db target =
     (case findEvmAssetTransferSyncState db target of None \<Rightarrow> ''0x0'' | Some st \<Rightarrow> ss_last_synced_block st)"

text \<open>
  \<^verbatim>\<open>finalized\<close> is the outcome of \<^verbatim>\<open>getFinalizedBlock\<close>.  An error ends the sync and leaves the database as the
  transactions committed so far made it.
\<close>

definition syncEvmAssetTransferWithAdapter ::
  "EvmTransferTarget \<Rightarrow> int \<Rightarrow> rpc_error + string \<Rightarrow> EvmPage list \<times> stream_end \<Rightarrow> EvmDb
     \<Rightarrow> EvmDb \<times> (rpc_error + SyncEvmAssetTransferResult)" where
  "syncEvmAssetTransferWithAdapter target now finalized stream db =
     (let fromBlock = sync_from_block db target
      in case finalized of
           Inl e \<Rightarrow> (db, Inl e)
         | Inr toBlock \<Rightarrow>
             (let result = \<lambda>n c. \<lparr>sr_chain = tg_chain target, sr_assetIdentifier = tg_assetIdentifier target,
                    sr_fromBlock = fromBlock, sr_toBlock = toBlock, sr_pageCount = n, sr_counts = c\<rparr>
              in case compareHexBlocks fromBlock toBlock of
                   Inl e \<Rightarrow> (db, Inl (OtherError e))
                 | Inr c \<Rightarrow>
                     if 0 < c then (db, Inr (result 0 no_counts))
                     else
                       (let run = fold (receive_page target now) (fst stream)
                              \<lparr>run_db = db, run_pending = [], run_pageCount = 0, run_counts = no_counts\<rparr>
                        in case snd stream of
                             Broke e \<Rightarrow> (run_db run, Inl e)
                           | Finished \<Rightarrow>
                               (let done = flushPendingPages target now run
                                in (run_db done, Inr (result (run_pageCount done) (run_counts done)))))))"

definition syncEvmAssetTransfer ::
  "EvmTransferTarget \<Rightarrow> int \<Rightarrow> rpc_error + string \<Rightarrow> (rpc_error + AlchemyAssetTransfersResponse) list \<Rightarrow> EvmDb
     \<Rightarrow> EvmDb \<times> (rpc_error + SyncEvmAssetTransferResult)" where
  "syncEvmAssetTransfer target now finalized answers db =
     syncEvmAssetTransferWithAdapter target now finalized
       (case finalized of Inr toBlock \<Rightarrow> fetchAssetTransfers toBlock answers | Inl _ \<Rightarrow> ([], Finished)) db"

section \<open>No sync loses a transfer\<close>

text \<open>The number a block string denotes.\<close>

definition block_value :: "string \<Rightarrow> nat" where
  "block_value s = (case normalizeHexBlock s of Inr h \<Rightarrow> hex_value (drop 2 h) | Inl _ \<Rightarrow> 0)"

definition valid_block :: "string \<Rightarrow> bool" where
  "valid_block s \<longleftrightarrow> \<not> isl (normalizeHexBlock s)"

lemma compareHexBlocks_value:
  assumes "valid_block l" "valid_block r"
  shows "compareHexBlocks l r
    = Inr (if block_value l = block_value r then 0 else if block_value l < block_value r then - 1 else 1)"
  using assms by (auto simp: valid_block_def block_value_def compareHexBlocks_def Let_def split: sum.splits)

lemma valid_block_0x0 [simp]: "valid_block ''0x0''" "block_value ''0x0'' = 0"
  by code_simp+

text \<open>
  The transfers of an asset on its chain, in block order, with unique identifiers; and what Alchemy
  documents of the pages for a window of blocks: they list its transfers in order, a stream that
  finishes lists all of them, and only its last page may be empty.
\<close>

definition history_ok :: "RawEvmAssetTransfer list \<Rightarrow> bool" where
  "history_ok h \<longleftrightarrow> distinct (map raw_uniqueId h) \<and> sorted (map (\<lambda>t. block_value (raw_blockNum t)) h)
     \<and> list_all (\<lambda>t. valid_block (raw_blockNum t)) h"

definition window :: "string \<Rightarrow> string \<Rightarrow> RawEvmAssetTransfer list \<Rightarrow> RawEvmAssetTransfer list" where
  "window fromBlock toBlock h =
     filter (\<lambda>t. block_value fromBlock \<le> block_value (raw_blockNum t) \<and> block_value (raw_blockNum t) \<le> block_value toBlock) h"

definition alchemy_pages_ok :: "RawEvmAssetTransfer list \<Rightarrow> string \<Rightarrow> string \<Rightarrow> EvmPage list \<times> stream_end \<Rightarrow> bool" where
  "alchemy_pages_ok h fromBlock toBlock stream \<longleftrightarrow>
     prefix (concat (map pg_items (fst stream))) (window fromBlock toBlock h)
     \<and> (snd stream = Finished \<longrightarrow> concat (map pg_items (fst stream)) = window fromBlock toBlock h)
     \<and> list_all (\<lambda>p. pg_items p \<noteq> []) (butlast (fst stream))
     \<and> (snd stream \<noteq> Finished \<longrightarrow> list_all (\<lambda>p. pg_items p \<noteq> []) (fst stream))"

lemma fetchAssetTransfers_lastBlock:
  "p \<in> set (fst (fetchAssetTransfers toBlock answers)) \<Longrightarrow>
   pg_lastBlock p = (if pg_items p = [] then toBlock else raw_blockNum (last (pg_items p)))"
  by (induction toBlock answers rule: fetchAssetTransfers.induct)
     (auto simp: fetchTransferPage_def Let_def split: if_splits prod.splits)

subsection \<open>What the loop over the pages has committed\<close>

definition page_rows :: "EvmTransferTarget \<Rightarrow> EvmPage list \<Rightarrow> EvmAssetTransferRow list" where
  "page_rows target pages = concat (map (\<lambda>page. map (toEvmAssetTransferRow target) (pg_items page)) pages)"

text \<open>\<open>flushed\<close> pages are in the table and the cursor is the last one's; the rest is pending.\<close>

definition run_inv :: "EvmAssetTransferRow set \<Rightarrow> EvmTransferTarget \<Rightarrow> EvmDb \<Rightarrow> EvmPage list \<Rightarrow> EvmSyncRun \<Rightarrow> bool" where
  "run_inv U target db0 flushed run \<longleftrightarrow>
     set (evm_transfers (run_db run)) = set (evm_transfers db0) \<union> set (page_rows target flushed)
     \<and> sync_from_block (run_db run) target = (if flushed = [] then sync_from_block db0 target else pg_lastBlock (last flushed))
     \<and> (\<forall>t. t \<noteq> target \<longrightarrow> sync_from_block (run_db run) t = sync_from_block db0 t)"

lemma find_upsert_same: "sync_from_block (upsertEvmAssetTransferSyncState target b now db) target = b"
proof (cases "findEvmAssetTransferSyncState db target")
  case None
  then show ?thesis
    by (simp add: sync_from_block_def upsertEvmAssetTransferSyncState_def findEvmAssetTransferSyncState_def Let_def
        find_append is_state_of_def)
next
  case (Some r)
  then show ?thesis
    by (simp add: sync_from_block_def upsertEvmAssetTransferSyncState_def findEvmAssetTransferSyncState_def Let_def
        find_tbl_set is_state_of_def)
qed

lemma find_upsert_other:
  assumes "t \<noteq> target"
  shows "sync_from_block (upsertEvmAssetTransferSyncState target b now db) t = sync_from_block db t"
proof -
  have n: "is_state_of target r \<Longrightarrow> \<not> is_state_of t r" for r using assms by (auto simp: is_state_of_def)
  have "List.find (is_state_of t) (tbl_update (is_state_of target) (\<lambda>_. row) rows) = List.find (is_state_of t) rows"
    if "is_state_of target row" for row rows
    using that n by (intro find_tbl_set_other)
  moreover have "\<not> is_state_of t \<lparr>ss_chain = tg_chain target, ss_asset_identifier = tg_assetIdentifier target,
      ss_last_synced_block = b, ss_updated_at = now\<rparr>" by (rule n) (simp add: is_state_of_def)
  moreover have "is_state_of target \<lparr>ss_chain = tg_chain target, ss_asset_identifier = tg_assetIdentifier target,
      ss_last_synced_block = b, ss_updated_at = now\<rparr>" by (simp add: is_state_of_def)
  ultimately show ?thesis
    by (simp add: sync_from_block_def upsertEvmAssetTransferSyncState_def findEvmAssetTransferSyncState_def Let_def
        find_append split: option.split)
qed

lemma transfers_upsert [simp]:
  "evm_transfers (upsertEvmAssetTransferSyncState target b now db) = evm_transfers db"
  by (simp add: upsertEvmAssetTransferSyncState_def Let_def)

lemma insert_transfers:
  "evm_transfers (fst (insertEvmAssetTransfers rows db)) = insert_or_ignore evm_key rows (evm_transfers db)"
  "evm_sync_state (fst (insertEvmAssetTransfers rows db)) = evm_sync_state db"
  by (simp_all add: insertEvmAssetTransfers_def Let_def)

lemma sync_from_block_insert [simp]: "sync_from_block (fst (insertEvmAssetTransfers rows db)) t = sync_from_block db t"
  by (simp add: sync_from_block_def findEvmAssetTransferSyncState_def insert_transfers)

lemma flush_inv:
  assumes "run_inv U target db0 flushed run" "inj_on evm_key U" "set (evm_transfers db0) \<subseteq> U"
    "set (page_rows target (flushed @ run_pending run)) \<subseteq> U"
  shows "run_inv U target db0 (flushed @ run_pending run) (flushPendingPages target now run)"
    "run_pending (flushPendingPages target now run) = []"
proof -
  let ?p = "run_pending run"
  have r: "page_rows target (flushed @ ?p) = page_rows target flushed @ page_rows target ?p" by (simp add: page_rows_def)
  have s: "set (evm_transfers (run_db run)) = set (evm_transfers db0) \<union> set (page_rows target flushed)"
    using assms(1) by (simp add: run_inv_def)
  have i: "set (insert_or_ignore evm_key (page_rows target ?p) (evm_transfers (run_db run)))
      = set (evm_transfers (run_db run)) \<union> set (page_rows target ?p)"
    using s r assms(3,4) by (intro iot.stored[OF assms(2)]) auto
  have d: "run_db (flushPendingPages target now run) =
      upsertEvmAssetTransferSyncState target (pg_lastBlock (last ?p)) now
        (fst (insertEvmAssetTransfers (page_rows target ?p) (run_db run)))" if "?p \<noteq> []"
    using that by (simp add: flushPendingPages_def page_rows_def Let_def split: prod.split)
  show "run_inv U target db0 (flushed @ ?p) (flushPendingPages target now run)"
  proof (cases "?p = []")
    case True
    then show ?thesis using assms(1) by (simp add: flushPendingPages_def)
  next
    case False
    then show ?thesis using assms(1) s i r
      by (simp add: run_inv_def d insert_transfers find_upsert_same find_upsert_other Un_assoc)
  qed
  show "run_pending (flushPendingPages target now run) = []"
    by (simp add: flushPendingPages_def Let_def split: prod.split)
qed

lemma receive_inv:
  assumes "run_inv U target db0 flushed run" "inj_on evm_key U" "set (evm_transfers db0) \<subseteq> U"
    "set (page_rows target (flushed @ run_pending run @ [page])) \<subseteq> U"
  shows "\<exists>flushed'. run_inv U target db0 flushed' (receive_page target now page run)
    \<and> flushed' @ run_pending (receive_page target now page run) = flushed @ run_pending run @ [page]"
proof -
  define run' where "run' = run\<lparr>run_pageCount := run_pageCount run + 1, run_pending := run_pending run @ [page]\<rparr>"
  have inv': "run_inv U target db0 flushed run'" and p: "run_pending run' = run_pending run @ [page]"
    using assms(1) by (simp_all add: run_inv_def run'_def)
  show ?thesis
  proof (cases "EVM_SYNC_BATCH_SIZE \<le> length (run_pending run') * EVM_PROVIDER_PAGE_SIZE")
    case True
    then have e: "receive_page target now page run = flushPendingPages target now run'"
      by (simp add: receive_page_def run'_def Let_def)
    show ?thesis unfolding e using flush_inv[OF inv' assms(2,3), of now] assms(4) p
      by (intro exI[of _ "flushed @ run_pending run'"]) simp
  next
    case False
    then have e: "receive_page target now page run = run'" by (simp add: receive_page_def run'_def Let_def)
    show ?thesis unfolding e using inv' p by auto
  qed
qed

lemma fold_receive_inv:
  assumes "run_inv U target db0 flushed run" "inj_on evm_key U" "set (evm_transfers db0) \<subseteq> U"
    "set (page_rows target (flushed @ run_pending run @ pages)) \<subseteq> U"
  shows "\<exists>flushed'. run_inv U target db0 flushed' (fold (receive_page target now) pages run)
    \<and> flushed' @ run_pending (fold (receive_page target now) pages run) = flushed @ run_pending run @ pages"
  using assms
proof (induction pages arbitrary: flushed run)
  case (Cons page pages)
  have "set (page_rows target (flushed @ run_pending run @ [page])) \<subseteq> U" using Cons.prems(4) by (auto simp: page_rows_def)
  then obtain f where f: "run_inv U target db0 f (receive_page target now page run)"
      "f @ run_pending (receive_page target now page run) = flushed @ run_pending run @ [page]"
    using receive_inv[OF Cons.prems(1,2,3)] by blast
  have "f @ run_pending (receive_page target now page run) @ pages = flushed @ run_pending run @ page # pages"
    using f(2) by (metis append.assoc append_Cons append_Nil)
  then show ?case using Cons.IH[OF f(1) Cons.prems(2,3)] Cons.prems(4) by (metis fold_simps(2))
qed auto

subsection \<open>The cursor covers what is stored\<close>

definition all_rows :: "(EvmTransferTarget \<Rightarrow> RawEvmAssetTransfer list) \<Rightarrow> EvmAssetTransferRow set" where
  "all_rows H = {toEvmAssetTransferRow tg t | tg t. t \<in> set (H tg)}"

text \<open>Every transfer of a block before the cursor is in the table; the block at the cursor is read again.\<close>

definition evm_covered :: "(EvmTransferTarget \<Rightarrow> RawEvmAssetTransfer list) \<Rightarrow> EvmDb \<Rightarrow> bool" where
  "evm_covered H db \<longleftrightarrow>
     set (evm_transfers db) \<subseteq> all_rows H
     \<and> (\<forall>tg. valid_block (sync_from_block db tg))
     \<and> (\<forall>tg. \<forall>t \<in> set (H tg). block_value (raw_blockNum t) < block_value (sync_from_block db tg)
           \<longrightarrow> toEvmAssetTransferRow tg t \<in> set (evm_transfers db))"

lemma all_rows_keyed:
  assumes "\<And>tg. history_ok (H tg)"
  shows "inj_on evm_key (all_rows H)"
proof (rule inj_onI)
  fix a b assume a: "a \<in> all_rows H" "b \<in> all_rows H" "evm_key a = evm_key b"
  then obtain tg t tg' t' where t: "a = toEvmAssetTransferRow tg t" "t \<in> set (H tg)"
      "b = toEvmAssetTransferRow tg' t'" "t' \<in> set (H tg')" by (auto simp: all_rows_def)
  have "tg = tg'" "raw_uniqueId t = raw_uniqueId t'"
    using a(3) t by (simp_all add: evm_key_def toEvmAssetTransferRow_def)
  moreover have "inj_on raw_uniqueId (set (H tg))" using assms[of tg] by (simp add: history_ok_def distinct_map)
  ultimately show "a = b" using t by (metis inj_onD)
qed

lemma page_rows_items: "set (page_rows target pages) = toEvmAssetTransferRow target ` set (concat (map pg_items pages))"
  by (auto simp: page_rows_def)

text \<open>In a sorted list, what lies strictly before the last element of a prefix is in the prefix.\<close>

lemma sorted_prefix_before:
  assumes "sorted (map f (xs @ ys))" "xs \<noteq> []" "y \<in> set (xs @ ys)" "f y < f (last xs)"
  shows "y \<in> set xs"
proof (rule ccontr)
  assume "y \<notin> set xs"
  then have "y \<in> set ys" using assms(3) by simp
  then have "f (last xs) \<le> f y" using assms(1,2) by (auto simp: sorted_append)
  then show False using assms(4) by simp
qed

lemma sorted_window: "history_ok h \<Longrightarrow> sorted (map (\<lambda>t. block_value (raw_blockNum t)) (window f t h))"
  by (simp add: history_ok_def window_def sorted_filter)

lemma last_concat_items:
  "ps \<noteq> [] \<Longrightarrow> pg_items (last ps) \<noteq> [] \<Longrightarrow> last (concat (map pg_items ps)) = last (pg_items (last ps))"
  by (induction ps) (auto simp: last_append)

definition pages_dated :: "string \<Rightarrow> EvmPage list \<Rightarrow> bool" where
  "pages_dated toBlock pages \<longleftrightarrow>
     (\<forall>p \<in> set pages. pg_lastBlock p = (if pg_items p = [] then toBlock else raw_blockNum (last (pg_items p))))"

lemma prefix_proper_butlast:
  assumes "xs @ ys = zs" "xs \<noteq> []" "ys \<noteq> []"
  shows "last xs \<in> set (butlast zs)"
  using assms by (auto simp: butlast_append)

text \<open>A committed batch: the transfers before its last block, from the start of the window on, are in it.\<close>

lemma flushed_before_cursor:
  assumes "history_ok h" "alchemy_pages_ok h fromBlock toBlock (pages, e)" "pages_dated toBlock pages"
    "flushed @ pending = pages" "flushed \<noteq> []" "t \<in> set h" "block_value fromBlock \<le> block_value (raw_blockNum t)"
    "block_value (raw_blockNum t) < block_value (pg_lastBlock (last flushed))"
  shows "t \<in> set (concat (map pg_items flushed))"
proof -
  let ?items = "concat (map pg_items flushed)" let ?w = "window fromBlock toBlock h"
  have lm: "last flushed \<in> set pages" using assms(4,5) by auto
  obtain rest where rest: "?items @ rest = ?w"
    using assms(2) unfolding assms(4)[symmetric] by (auto simp: alchemy_pages_ok_def prefix_def)
  show ?thesis
  proof (cases "pg_items (last flushed) = []")
    case True
    then have p: "pending = []"
      using prefix_proper_butlast[OF assms(4,5)] assms(2) by (fastforce simp: alchemy_pages_ok_def list_all_iff)
    have "e = Finished" using True lm assms(2) by (auto simp: alchemy_pages_ok_def list_all_iff)
    then have "?items = ?w" using assms(2,4) p by (simp add: alchemy_pages_ok_def)
    moreover have "pg_lastBlock (last flushed) = toBlock" using True lm assms(3) by (simp add: pages_dated_def)
    ultimately show ?thesis using assms(6,7,8) by (simp add: window_def)
  next
    case False
    then have l: "pg_lastBlock (last flushed) = raw_blockNum (last ?items)"
      using lm assms(3,5) by (simp add: pages_dated_def last_concat_items)
    have ne: "?items \<noteq> []" using False assms(5) by (metis concat_eq_Nil_conv last_in_set last_map list.map_disc_iff)
    then have "last ?items \<in> set ?w" using rest by (metis UnI1 last_in_set set_append)
    then have "t \<in> set ?w" using assms(6,7,8) l by (simp add: window_def)
    then show ?thesis
      using sorted_prefix_before[of "\<lambda>t. block_value (raw_blockNum t)" ?items rest t] rest ne l assms(8) sorted_window[OF assms(1)]
      by simp
  qed
qed

lemma alchemy_pages_items:
  assumes "alchemy_pages_ok h fromBlock toBlock (pages, e)"
  shows "set (concat (map pg_items pages)) \<subseteq> set h"
proof -
  have "set (concat (map pg_items pages)) \<subseteq> set (window fromBlock toBlock h)"
    using assms by (intro set_mono_prefix) (simp add: alchemy_pages_ok_def)
  then show ?thesis by (auto simp: window_def)
qed

lemma committed_covered:
  assumes "evm_covered H db0" "\<And>tg. history_ok (H tg)"
    "alchemy_pages_ok (H target) (sync_from_block db0 target) toBlock (pages, e)" "pages_dated toBlock pages"
    "valid_block toBlock" "flushed @ pending = pages" "run_inv (all_rows H) target db0 flushed run"
  shows "evm_covered H (run_db run)"
proof -
  let ?items = "concat (map pg_items flushed)"
  have items: "set ?items \<subseteq> set (H target)"
    using alchemy_pages_items[OF assms(3)] unfolding assms(6)[symmetric] by simp
  then have hist: "set (page_rows target flushed) \<subseteq> all_rows H" by (auto simp: page_rows_items all_rows_def)
  have st: "set (evm_transfers (run_db run)) = set (evm_transfers db0) \<union> toEvmAssetTransferRow target ` set ?items"
    using assms(7) by (simp add: run_inv_def page_rows_items)
  have c: "sync_from_block (run_db run) target = (if flushed = [] then sync_from_block db0 target else pg_lastBlock (last flushed))"
    "tg \<noteq> target \<Longrightarrow> sync_from_block (run_db run) tg = sync_from_block db0 tg" for tg
    using assms(7) by (simp_all add: run_inv_def)
  have cov: "toEvmAssetTransferRow tg t \<in> set (evm_transfers (run_db run))"
    if t: "t \<in> set (H tg)" "block_value (raw_blockNum t) < block_value (sync_from_block (run_db run) tg)" for tg t
  proof (cases "tg = target \<and> flushed \<noteq> [] \<and> block_value (sync_from_block db0 target) \<le> block_value (raw_blockNum t)")
    case True
    then have "t \<in> set ?items" using t c(1)
      by (intro flushed_before_cursor[OF assms(2) assms(3,4,6)]) simp_all
    then show ?thesis using True st by simp
  next
    case False
    then have "block_value (raw_blockNum t) < block_value (sync_from_block db0 tg)"
      using t(2) c by (cases "tg = target") (auto split: if_splits)
    then show ?thesis using assms(1) t(1) st by (auto simp: evm_covered_def)
  qed
  have v: "valid_block (pg_lastBlock (last flushed))" if "flushed \<noteq> []"
  proof -
    have m: "last flushed \<in> set pages" using that assms(6) by auto
    have "valid_block (raw_blockNum x)" if "x \<in> set (pg_items (last flushed))" for x
      using that \<open>flushed \<noteq> []\<close> items assms(2)[of target] by (force simp: history_ok_def list_all_iff)
    then show ?thesis using assms(4,5) m by (auto simp: pages_dated_def)
  qed
  then have "valid_block (sync_from_block (run_db run) tg)" for tg
    using c assms(1) by (cases "tg = target") (auto simp: evm_covered_def)
  then show ?thesis using cov st hist assms(1) by (auto simp: evm_covered_def page_rows_items)
qed

subsection \<open>Any sequence of syncs\<close>

text \<open>
  Syncs of any targets one after the other, each ending in success, in an error or with the worker
  stopped, from empty tables.
\<close>

definition provider_ok ::
  "(EvmTransferTarget \<Rightarrow> RawEvmAssetTransfer list) \<Rightarrow> EvmTransferTarget \<Rightarrow> EvmDb \<Rightarrow> rpc_error + string
     \<Rightarrow> (rpc_error + AlchemyAssetTransfersResponse) list \<Rightarrow> bool" where
  "provider_ok H target db finalized answers \<longleftrightarrow>
     (case finalized of
        Inl _ \<Rightarrow> True
      | Inr toBlock \<Rightarrow> valid_block toBlock
          \<and> alchemy_pages_ok (H target) (sync_from_block db target) toBlock (fetchAssetTransfers toBlock answers))"

inductive evm_reachable :: "(EvmTransferTarget \<Rightarrow> RawEvmAssetTransfer list) \<Rightarrow> EvmDb \<Rightarrow> bool" for H where
  evm_start: "evm_reachable H \<lparr>evm_transfers = [], evm_sync_state = []\<rparr>"
| evm_sync: "evm_reachable H db \<Longrightarrow> provider_ok H target db finalized answers \<Longrightarrow>
    evm_reachable H (fst (syncEvmAssetTransfer target now finalized answers db))"

definition start_run :: "EvmDb \<Rightarrow> EvmSyncRun" where
  "start_run db = \<lparr>run_db = db, run_pending = [], run_pageCount = 0, run_counts = no_counts\<rparr>"

lemma start_run_inv: "run_inv U target db [] (start_run db)"
  by (simp add: run_inv_def start_run_def page_rows_def)

lemma sync_result:
  assumes "valid_block toBlock" "valid_block (sync_from_block db target)" "fetchAssetTransfers toBlock answers = (pages, e)"
  shows "syncEvmAssetTransfer target now (Inr toBlock) answers db = (db, snd (syncEvmAssetTransfer target now (Inr toBlock) answers db))
      \<and> block_value toBlock < block_value (sync_from_block db target)
    \<or> fst (syncEvmAssetTransfer target now (Inr toBlock) answers db)
        = run_db (if e = Finished then flushPendingPages target now (fold (receive_page target now) pages (start_run db))
                  else fold (receive_page target now) pages (start_run db))
      \<and> (e \<noteq> Finished \<longrightarrow> isl (snd (syncEvmAssetTransfer target now (Inr toBlock) answers db)))"
proof (cases "block_value toBlock < block_value (sync_from_block db target)")
  case True
  then show ?thesis using compareHexBlocks_value[OF assms(2,1)]
    by (simp add: syncEvmAssetTransfer_def syncEvmAssetTransferWithAdapter_def Let_def)
next
  case False
  then have "\<exists>c. compareHexBlocks (sync_from_block db target) toBlock = Inr c \<and> \<not> 0 < c"
    using compareHexBlocks_value[OF assms(2,1)] by simp
  then show ?thesis using assms(3)
    by (cases e) (auto simp: syncEvmAssetTransfer_def syncEvmAssetTransferWithAdapter_def Let_def start_run_def)
qed

lemma sync_committed:
  assumes "evm_covered H db" "\<And>tg. history_ok (H tg)" "valid_block toBlock"
    "fetchAssetTransfers toBlock answers = (pages, e)"
    "alchemy_pages_ok (H target) (sync_from_block db target) toBlock (pages, e)"
  obtains flushed pending where "flushed @ pending = pages" "e = Finished \<longrightarrow> pending = []"
    "run_inv (all_rows H) target db flushed
       (if e = Finished then flushPendingPages target now (fold (receive_page target now) pages (start_run db))
        else fold (receive_page target now) pages (start_run db))"
proof -
  let ?run = "fold (receive_page target now) pages (start_run db)"
  have k: "inj_on evm_key (all_rows H)" by (rule all_rows_keyed[OF assms(2)])
  have u: "set (evm_transfers db) \<subseteq> all_rows H" using assms(1) by (simp add: evm_covered_def)
  have w: "set (page_rows target pages) \<subseteq> all_rows H"
    using alchemy_pages_items[OF assms(5)] by (auto simp: page_rows_items all_rows_def)
  obtain f where f: "run_inv (all_rows H) target db f ?run" "f @ run_pending ?run = pages"
    using fold_receive_inv[OF start_run_inv k u, of target pages now] w by (auto simp: start_run_def)
  show ?thesis
  proof (cases "e = Finished")
    case True
    then show ?thesis using flush_inv(1)[OF f(1) k u, of now] f(2) w by (intro that[of pages "[]"]) simp_all
  next
    case False
    then show ?thesis using f by (intro that) simp_all
  qed
qed

lemma sync_preserves:
  assumes "evm_covered H db" "\<And>tg. history_ok (H tg)" "provider_ok H target db finalized answers"
  shows "evm_covered H (fst (syncEvmAssetTransfer target now finalized answers db))"
proof (cases finalized)
  case (Inl e)
  then show ?thesis using assms(1) by (simp add: syncEvmAssetTransfer_def syncEvmAssetTransferWithAdapter_def)
next
  case (Inr toBlock)
  obtain pages e where pe: "fetchAssetTransfers toBlock answers = (pages, e)" by fastforce
  have v: "valid_block toBlock" "valid_block (sync_from_block db target)"
    and a: "alchemy_pages_ok (H target) (sync_from_block db target) toBlock (pages, e)"
    using assms(1,3) Inr pe by (simp_all add: provider_ok_def evm_covered_def)
  have d: "pages_dated toBlock pages"
    using fetchAssetTransfers_lastBlock[of _ toBlock answers] pe by (simp add: pages_dated_def)
  obtain f p where f: "f @ p = pages" "run_inv (all_rows H) target db f
       (if e = Finished then flushPendingPages target now (fold (receive_page target now) pages (start_run db))
        else fold (receive_page target now) pages (start_run db))"
    using sync_committed[OF assms(1,2) v(1) pe a] by blast
  from committed_covered[OF assms(1,2) a d v(1) f] sync_result[OF v pe, of now]
  show ?thesis using Inr assms(1) by (metis fst_conv)
qed

lemma reachable_covered:
  assumes "evm_reachable H db" "\<And>tg. history_ok (H tg)"
  shows "evm_covered H db"
  using assms(1)
proof induction
  case evm_start
  then show ?case by (simp add: evm_covered_def sync_from_block_def findEvmAssetTransferSyncState_def)
next
  case (evm_sync db target finalized answers now)
  then show ?case using sync_preserves[OF evm_sync.IH assms(2)] by blast
qed

text \<open>
  C18: After any sequence of syncs, some of which may have failed or been stopped between two batches, the
  table holds only transfers of the chain and, for every asset, every transfer of a block before that
  asset's cursor: what a later sync does not read again is stored.
\<close>

theorem evm_sync_never_loses:
  assumes "evm_reachable H db" "\<And>tg. history_ok (H tg)"
  shows "set (evm_transfers db) \<subseteq> all_rows H
    \<and> (\<forall>tg. \<forall>t \<in> set (H tg). block_value (raw_blockNum t) < block_value (sync_from_block db tg)
          \<longrightarrow> toEvmAssetTransferRow tg t \<in> set (evm_transfers db))"
  using reachable_covered[OF assms] by (simp add: evm_covered_def)

definition sample_raw :: "string \<Rightarrow> string \<Rightarrow> RawEvmAssetTransfer" where
  "sample_raw block uid =
     \<lparr>raw_blockNum = block, raw_uniqueId = uid, raw_hash = ''h'', raw_from = ''a'', raw_to = Some ''b'',
      raw_value = Some (jint 1), raw_asset = None, raw_category = ''erc20'', raw_rawContract = (None, None, None),
      raw_metadata = Some (Some 0)\<rparr>"

definition sample_target :: EvmTransferTarget where
  "sample_target = \<lparr>tg_chain = ''ethereum'', tg_assetIdentifier = ''0xa''\<rparr>"

definition sample_history :: "EvmTransferTarget \<Rightarrow> RawEvmAssetTransfer list" where
  "sample_history tg = (if tg = sample_target then [sample_raw ''0x1'' ''u'', sample_raw ''0x10'' ''v''] else [])"

definition sample_answers :: "(rpc_error + AlchemyAssetTransfersResponse) list" where
  "sample_answers = [Inr \<lparr>ar_transfers = [sample_raw ''0x1'' ''u''], ar_pageKey = Some ''k''\<rparr>,
     Inr \<lparr>ar_transfers = [sample_raw ''0x10'' ''v''], ar_pageKey = None\<rparr>]"

definition empty_evm_db :: EvmDb where
  "empty_evm_db = \<lparr>evm_transfers = [], evm_sync_state = []\<rparr>"

lemma sample_history_ok: "history_ok (sample_history tg)"
proof -
  have "history_ok [sample_raw ''0x1'' ''u'', sample_raw ''0x10'' ''v'']" "history_ok []" by code_simp+
  then show ?thesis by (simp add: sample_history_def)
qed

lemma sample_provider_ok: "provider_ok sample_history sample_target empty_evm_db (Inr ''0x20'') sample_answers"
  by code_simp

lemma sample_reachable: "evm_reachable sample_history (fst (syncEvmAssetTransfer sample_target 0 (Inr ''0x20'') sample_answers empty_evm_db))"
  using evm_reachable.evm_sync[OF evm_reachable.evm_start sample_provider_ok[unfolded empty_evm_db_def], of 0]
  by (simp add: empty_evm_db_def)

definition sample_synced :: EvmDb where
  "sample_synced = fst (syncEvmAssetTransfer sample_target 0 (Inr ''0x20'') sample_answers empty_evm_db)"

lemma sample_cursor:
  "block_value ''0x1'' < block_value (sync_from_block sample_synced sample_target)" by code_simp

theorem evm_sync_never_loses_witness:
  "toEvmAssetTransferRow sample_target (sample_raw ''0x1'' ''u'') \<in> set (evm_transfers sample_synced)"
proof -
  have "sample_raw ''0x1'' ''u'' \<in> set (sample_history sample_target)" by (simp add: sample_history_def)
  moreover have "raw_blockNum (sample_raw ''0x1'' ''u'') = ''0x1''" by (simp add: sample_raw_def)
  ultimately show ?thesis
    using evm_sync_never_loses[OF sample_reachable sample_history_ok, folded sample_synced_def] sample_cursor by metis
qed

text \<open>
  A sync that returns without an error has stored every transfer of its asset up to the finalized
  block it reports, whatever happened in the syncs before it.
\<close>

lemma evm_sync_stores:
  assumes "evm_reachable H db" "\<And>tg. history_ok (H tg)" "provider_ok H target db (Inr toBlock) answers"
    "syncEvmAssetTransfer target now (Inr toBlock) answers db = (db', Inr result)"
    "t \<in> set (H target)" "block_value (raw_blockNum t) \<le> block_value toBlock"
  shows "toEvmAssetTransferRow target t \<in> set (evm_transfers db')"
proof -
  have cov: "evm_covered H db" by (rule reachable_covered[OF assms(1,2)])
  obtain pages e where pe: "fetchAssetTransfers toBlock answers = (pages, e)" by fastforce
  have v: "valid_block toBlock" "valid_block (sync_from_block db target)"
    and a: "alchemy_pages_ok (H target) (sync_from_block db target) toBlock (pages, e)"
    using cov assms(3) pe by (simp_all add: provider_ok_def evm_covered_def)
  obtain f p where f: "f @ p = pages" "e = Finished \<longrightarrow> p = []" "run_inv (all_rows H) target db f
       (if e = Finished then flushPendingPages target now (fold (receive_page target now) pages (start_run db))
        else fold (receive_page target now) pages (start_run db))"
    using sync_committed[OF cov assms(2) v(1) pe a] by blast
  from sync_result[OF v pe, of now] show ?thesis
  proof
    assume "syncEvmAssetTransfer target now (Inr toBlock) answers db = (db, snd (syncEvmAssetTransfer target now (Inr toBlock) answers db))
      \<and> block_value toBlock < block_value (sync_from_block db target)"
    then show ?thesis using assms(4,5,6) cov by (auto simp: evm_covered_def)
  next
    assume r: "fst (syncEvmAssetTransfer target now (Inr toBlock) answers db)
        = run_db (if e = Finished then flushPendingPages target now (fold (receive_page target now) pages (start_run db))
                  else fold (receive_page target now) pages (start_run db))
      \<and> (e \<noteq> Finished \<longrightarrow> isl (snd (syncEvmAssetTransfer target now (Inr toBlock) answers db)))"
    then have e: "e = Finished" using assms(4) by auto
    then have w: "concat (map pg_items f) = window (sync_from_block db target) toBlock (H target)"
      using a f(1,2) by (simp add: alchemy_pages_ok_def)
    have "set (evm_transfers db') = set (evm_transfers db) \<union> toEvmAssetTransferRow target ` set (window (sync_from_block db target) toBlock (H target))"
      using r f(3) assms(4) by (simp add: run_inv_def page_rows_items w[symmetric])
    moreover have "toEvmAssetTransferRow target t \<in> set (evm_transfers db)
        \<or> t \<in> set (window (sync_from_block db target) toBlock (H target))"
      using assms(5,6) cov by (simp add: window_def evm_covered_def not_le) (meson linorder_not_le)
    ultimately show ?thesis by blast
  qed
qed

section \<open>The read repository\<close>

record EvmQuery =
  q_chain :: string
  q_assetIdentifier :: string
  q_addresses :: "string list"
  q_page :: nat
  q_limit :: nat
  q_fromTimestampUnix :: "int option"
  q_toTimestampUnix :: "int option"

text \<open>A comparison with the time stamp of a row; a missing one is \<^verbatim>\<open>NULL\<close> and excludes the row.\<close>

definition stamp_satisfies :: "(int \<Rightarrow> bool) \<Rightarrow> EvmAssetTransferRow \<Rightarrow> bool" where
  "stamp_satisfies P r = (case et_metadata r of Some (Some t) \<Rightarrow> P t | _ \<Rightarrow> False)"

definition evm_matches :: "EvmQuery \<Rightarrow> EvmAssetTransferRow \<Rightarrow> bool" where
  "evm_matches q r \<longleftrightarrow>
     et_chain r = q_chain q \<and> et_asset_identifier r = q_assetIdentifier q
     \<and> (et_from_address r \<in> set (q_addresses q) \<or> (\<exists>a \<in> set (q_addresses q). et_to_address r = Some a))
     \<and> (case q_fromTimestampUnix q of None \<Rightarrow> True | Some from \<Rightarrow> stamp_satisfies (\<lambda>t. from * 1000 \<le> t) r)
     \<and> (case q_toTimestampUnix q of None \<Rightarrow> True | Some to \<Rightarrow> stamp_satisfies (\<lambda>t. t \<le> to * 1000) r)"

text \<open>\<^verbatim>\<open>ORDER BY block number, unique_id\<close>; \<open>tle\<close> is the collation of text.\<close>

definition evm_order :: "(string \<Rightarrow> string \<Rightarrow> bool) \<Rightarrow> EvmAssetTransferRow \<Rightarrow> EvmAssetTransferRow \<Rightarrow> bool" where
  "evm_order tle a b \<longleftrightarrow>
     BLOCK_NUM_NUMERIC (et_block_num a) < BLOCK_NUM_NUMERIC (et_block_num b)
     \<or> BLOCK_NUM_NUMERIC (et_block_num a) = BLOCK_NUM_NUMERIC (et_block_num b) \<and> tle (et_unique_id a) (et_unique_id b)"

definition findTransfersByAddresses :: "(string \<Rightarrow> string \<Rightarrow> bool) \<Rightarrow> EvmDb \<Rightarrow> EvmQuery \<Rightarrow> EvmAssetTransferRow list" where
  "findTransfersByAddresses tle db q =
     (if q_addresses q = [] then []
      else page_of (q_limit q) (q_page q)
             (sort_by (evm_order tle) (filter (evm_matches q) (evm_transfers db))))"

end
