(* ===== verification/Onchain_Cardano.thy ===== *)
theory Onchain_Cardano
  imports Onchain_Table "HOL-Library.AList"
begin

text \<open>
  The Cardano half of \<^verbatim>\<open>packages/onchain-data\<close>: the asset transaction and UTXO tables, the Blockfrost provider,
  the sync that resumes at a boundary transaction, its bounded-concurrency fetch and the read
  repository.  Blockfrost is the list of answers it gives to the successive page requests and a function
  from a transaction hash to its UTXOs or an error.  Raw JSON columns are left out.
\<close>

section \<open>Data\<close>

record RawCardanoAssetTransaction =
  ct_tx_hash :: string
  ct_tx_index :: nat
  ct_block_height :: nat
  ct_block_time :: int

type_synonym Amount = "string \<times> string"

record RawUtxoInput =
  ui_address :: string
  ui_amount :: "Amount list"
  ui_tx_hash :: string
  ui_output_index :: nat
  ui_data_hash :: "string option"
  ui_inline_datum :: "string option"
  ui_reference_script_hash :: "string option"
  ui_collateral :: bool
  ui_reference :: "bool option"

record RawUtxoOutput =
  uo_address :: string
  uo_amount :: "Amount list"
  uo_output_index :: nat
  uo_data_hash :: "string option"
  uo_inline_datum :: "string option"
  uo_collateral :: bool
  uo_reference_script_hash :: "string option"
  uo_consumed_by_tx :: "string option"

record RawCardanoTransactionUtxo =
  utxo_hash :: string
  utxo_inputs :: "RawUtxoInput list"
  utxo_outputs :: "RawUtxoOutput list"

record CardanoAssetTransactionRow =
  ca_chain :: string
  ca_asset_identifier :: string
  ca_tx_hash :: string
  ca_tx_index :: nat
  ca_block_height :: nat
  ca_block_time :: int

record CardanoTransactionUtxoRow =
  cu_chain :: string
  cu_tx_hash :: string

record CardanoTransactionUtxoInputRow =
  ci_chain :: string
  ci_tx_hash :: string
  ci_input_index :: nat
  ci_address :: string
  ci_source_tx_hash :: string
  ci_source_output_index :: nat
  ci_data_hash :: "string option"
  ci_inline_datum :: "string option"
  ci_reference_script_hash :: "string option"
  ci_collateral :: bool
  ci_reference :: "bool option"

record CardanoTransactionUtxoOutputRow =
  co_chain :: string
  co_tx_hash :: string
  co_output_index :: nat
  co_address :: string
  co_data_hash :: "string option"
  co_inline_datum :: "string option"
  co_collateral :: bool
  co_reference_script_hash :: "string option"
  co_consumed_by_tx_hash :: "string option"

text \<open>A row of the input amounts or of the output amounts; \<open>am_index\<close> is the input or output index.\<close>

record CardanoAmountRow =
  am_chain :: string
  am_tx_hash :: string
  am_index :: nat
  am_amount_index :: nat
  am_unit :: string
  am_quantity :: string

record CardanoAssetTransactionSyncStateRow =
  cs_chain :: string
  cs_asset_identifier :: string
  cs_last_tx_hash :: string
  cs_last_tx_index :: nat
  cs_last_block_height :: nat
  cs_last_block_time :: int
  cs_last_synced_page :: nat
  cs_updated_at :: int

record CardanoDb =
  cd_asset_transactions :: "CardanoAssetTransactionRow list"
  cd_utxos :: "CardanoTransactionUtxoRow list"
  cd_inputs :: "CardanoTransactionUtxoInputRow list"
  cd_inputAmounts :: "CardanoAmountRow list"
  cd_outputs :: "CardanoTransactionUtxoOutputRow list"
  cd_outputAmounts :: "CardanoAmountRow list"
  cd_sync_state :: "CardanoAssetTransactionSyncStateRow list"

record CardanoTransactionUtxoWriteSet =
  ws_transaction :: CardanoTransactionUtxoRow
  ws_inputs :: "CardanoTransactionUtxoInputRow list"
  ws_inputAmounts :: "CardanoAmountRow list"
  ws_outputs :: "CardanoTransactionUtxoOutputRow list"
  ws_outputAmounts :: "CardanoAmountRow list"

definition CARDANO_CHAIN :: string where
  "CARDANO_CHAIN = ''cardano''"

section \<open>Rows\<close>

definition toCardanoAssetTransactionRow :: "string \<Rightarrow> RawCardanoAssetTransaction \<Rightarrow> CardanoAssetTransactionRow" where
  "toCardanoAssetTransactionRow assetIdentifier t =
     \<lparr>ca_chain = CARDANO_CHAIN, ca_asset_identifier = assetIdentifier, ca_tx_hash = ct_tx_hash t,
      ca_tx_index = ct_tx_index t, ca_block_height = ct_block_height t, ca_block_time = ct_block_time t\<rparr>"

definition amount_rows :: "string \<Rightarrow> string \<Rightarrow> nat \<Rightarrow> Amount list \<Rightarrow> CardanoAmountRow list" where
  "amount_rows chain txHash i amounts =
     map (\<lambda>(amountIndex, unit, quantity).
       \<lparr>am_chain = chain, am_tx_hash = txHash, am_index = i, am_amount_index = amountIndex,
        am_unit = unit, am_quantity = quantity\<rparr>) (enumerate 0 amounts)"

definition utxo_input_row :: "string \<Rightarrow> string \<Rightarrow> nat \<times> RawUtxoInput \<Rightarrow> CardanoTransactionUtxoInputRow" where
  "utxo_input_row chain txHash p =
     (case p of (inputIndex, i) \<Rightarrow>
       \<lparr>ci_chain = chain, ci_tx_hash = txHash, ci_input_index = inputIndex, ci_address = ui_address i,
        ci_source_tx_hash = ui_tx_hash i, ci_source_output_index = ui_output_index i, ci_data_hash = ui_data_hash i,
        ci_inline_datum = ui_inline_datum i, ci_reference_script_hash = ui_reference_script_hash i,
        ci_collateral = ui_collateral i, ci_reference = ui_reference i\<rparr>)"

definition utxo_output_row :: "string \<Rightarrow> string \<Rightarrow> RawUtxoOutput \<Rightarrow> CardanoTransactionUtxoOutputRow" where
  "utxo_output_row chain txHash o1 =
     \<lparr>co_chain = chain, co_tx_hash = txHash, co_output_index = uo_output_index o1, co_address = uo_address o1,
      co_data_hash = uo_data_hash o1, co_inline_datum = uo_inline_datum o1, co_collateral = uo_collateral o1,
      co_reference_script_hash = uo_reference_script_hash o1, co_consumed_by_tx_hash = uo_consumed_by_tx o1\<rparr>"

definition toCardanoTransactionUtxoWriteSet ::
  "string \<Rightarrow> string \<Rightarrow> RawCardanoTransactionUtxo \<Rightarrow> string + CardanoTransactionUtxoWriteSet" where
  "toCardanoTransactionUtxoWriteSet chain txHash u =
     (if txHash \<noteq> utxo_hash u then Inl ''Cardano transaction UTXO hash mismatch''
      else Inr
        \<lparr>ws_transaction = \<lparr>cu_chain = chain, cu_tx_hash = txHash\<rparr>,
         ws_inputs = map (utxo_input_row chain txHash) (enumerate 0 (utxo_inputs u)),
         ws_inputAmounts = concat (map (\<lambda>(i, inp). amount_rows chain txHash i (ui_amount inp)) (enumerate 0 (utxo_inputs u))),
         ws_outputs = map (utxo_output_row chain txHash) (utxo_outputs u),
         ws_outputAmounts = concat (map (\<lambda>out. amount_rows chain txHash (uo_output_index out) (uo_amount out)) (utxo_outputs u))\<rparr>)"

section \<open>Writing\<close>

definition asset_tx_key :: "CardanoAssetTransactionRow \<Rightarrow> string \<times> string \<times> string" where
  "asset_tx_key r = (ca_chain r, ca_asset_identifier r, ca_tx_hash r)"

definition utxo_key :: "CardanoTransactionUtxoRow \<Rightarrow> string \<times> string" where
  "utxo_key r = (cu_chain r, cu_tx_hash r)"

definition input_key :: "CardanoTransactionUtxoInputRow \<Rightarrow> string \<times> string \<times> nat" where
  "input_key r = (ci_chain r, ci_tx_hash r, ci_input_index r)"

definition output_key :: "CardanoTransactionUtxoOutputRow \<Rightarrow> string \<times> string \<times> nat" where
  "output_key r = (co_chain r, co_tx_hash r, co_output_index r)"

definition amount_key :: "CardanoAmountRow \<Rightarrow> string \<times> string \<times> nat \<times> nat" where
  "amount_key r = (am_chain r, am_tx_hash r, am_index r, am_amount_index r)"

definition insertCardanoAssetTransactions :: "CardanoAssetTransactionRow list \<Rightarrow> CardanoDb \<Rightarrow> CardanoDb \<times> InsertResult" where
  "insertCardanoAssetTransactions rows db =
     (if rows = [] then (db, no_counts)
      else
        (let tbl = insert_or_ignore asset_tx_key rows (cd_asset_transactions db);
             inserted = length tbl - length (cd_asset_transactions db)
         in (db\<lparr>cd_asset_transactions := tbl\<rparr>,
             \<lparr>attemptedCount = length rows, insertedCount = inserted, ignoredCount = length rows - inserted\<rparr>)))"

definition insertCardanoTransactionUtxos :: "CardanoTransactionUtxoWriteSet list \<Rightarrow> CardanoDb \<Rightarrow> CardanoDb \<times> InsertResult" where
  "insertCardanoTransactionUtxos writeSets db =
     (if writeSets = [] then (db, no_counts)
      else
        (let utxos = insert_or_ignore utxo_key (map ws_transaction writeSets) (cd_utxos db);
             inserted = length utxos - length (cd_utxos db);
             db1 = db\<lparr>cd_utxos := utxos\<rparr>;
             db2 = db1\<lparr>cd_inputs := insert_or_ignore input_key (concat (map ws_inputs writeSets)) (cd_inputs db1)\<rparr>;
             db3 = db2\<lparr>cd_inputAmounts := insert_or_ignore amount_key (concat (map ws_inputAmounts writeSets)) (cd_inputAmounts db2)\<rparr>;
             db4 = db3\<lparr>cd_outputs := insert_or_ignore output_key (concat (map ws_outputs writeSets)) (cd_outputs db3)\<rparr>;
             db5 = db4\<lparr>cd_outputAmounts := insert_or_ignore amount_key (concat (map ws_outputAmounts writeSets)) (cd_outputAmounts db4)\<rparr>
         in (db5, \<lparr>attemptedCount = length writeSets, insertedCount = inserted, ignoredCount = length writeSets - inserted\<rparr>)))"

definition is_cursor_of :: "string \<Rightarrow> CardanoAssetTransactionSyncStateRow \<Rightarrow> bool" where
  "is_cursor_of assetIdentifier r \<longleftrightarrow> cs_chain r = CARDANO_CHAIN \<and> cs_asset_identifier r = assetIdentifier"

definition findCardanoAssetTransactionSyncState :: "CardanoDb \<Rightarrow> string \<Rightarrow> CardanoAssetTransactionSyncStateRow option" where
  "findCardanoAssetTransactionSyncState db assetIdentifier = List.find (is_cursor_of assetIdentifier) (cd_sync_state db)"

definition upsertCardanoAssetTransactionSyncState ::
  "string \<Rightarrow> RawCardanoAssetTransaction \<Rightarrow> nat \<Rightarrow> int \<Rightarrow> CardanoDb \<Rightarrow> CardanoDb" where
  "upsertCardanoAssetTransactionSyncState assetIdentifier t page now db =
     (let row = \<lparr>cs_chain = CARDANO_CHAIN, cs_asset_identifier = assetIdentifier, cs_last_tx_hash = ct_tx_hash t,
                 cs_last_tx_index = ct_tx_index t, cs_last_block_height = ct_block_height t,
                 cs_last_block_time = ct_block_time t, cs_last_synced_page = page, cs_updated_at = now\<rparr>
      in if findCardanoAssetTransactionSyncState db assetIdentifier = None
         then db\<lparr>cd_sync_state := cd_sync_state db @ [row]\<rparr>
         else db\<lparr>cd_sync_state := tbl_update (is_cursor_of assetIdentifier) (\<lambda>_. row) (cd_sync_state db)\<rparr>)"

section \<open>The provider\<close>

definition BLOCKFROST_PAGE_SIZE :: nat where
  "BLOCKFROST_PAGE_SIZE = 100"

datatype cardano_stream_end = AllPages | Stopped string

text \<open>The generator over the answers to the requests for the pages \<open>fromPage\<close>, \<open>fromPage + 1\<close>, and so on.\<close>

fun fetchAssetTransactions ::
  "(string + RawCardanoAssetTransaction list) list \<Rightarrow> RawCardanoAssetTransaction list list \<times> cardano_stream_end" where
  "fetchAssetTransactions [] = ([], Stopped ''worker stopped'')"
| "fetchAssetTransactions (Inl e # answers) = ([], Stopped e)"
| "fetchAssetTransactions (Inr items # answers) =
     (if items = [] then ([], AllPages)
      else if length items < BLOCKFROST_PAGE_SIZE then ([items], AllPages)
      else (case fetchAssetTransactions answers of (pages, e) \<Rightarrow> (items # pages, e)))"

section \<open>The sync\<close>

fun traverse :: "('a \<Rightarrow> 'e + 'b) \<Rightarrow> 'a list \<Rightarrow> 'e + 'b list" where
  "traverse f [] = Inr []"
| "traverse f (x # xs) =
     (case f x of
        Inl e \<Rightarrow> Inl e
      | Inr y \<Rightarrow> (case traverse f xs of Inl e \<Rightarrow> Inl e | Inr ys \<Rightarrow> Inr (y # ys)))"

record CardanoSyncRun =
  cr_db :: CardanoDb
  cr_pageCount :: nat
  cr_txCounts :: InsertResult
  cr_utxoCounts :: InsertResult
  cr_currentPage :: nat
  cr_syncBoundaryFound :: bool
  cr_lastSynced :: "RawCardanoAssetTransaction option"

text \<open>The items of a page behind the boundary transaction, or the error that it is not there.\<close>

definition after_boundary :: "string \<Rightarrow> RawCardanoAssetTransaction list \<Rightarrow> string + RawCardanoAssetTransaction list" where
  "after_boundary last_tx_hash items =
     (if last_tx_hash \<in> ct_tx_hash ` set items
      then Inr (tl (dropWhile (\<lambda>t. ct_tx_hash t \<noteq> last_tx_hash) items))
      else Inl ''Cardano sync boundary transaction was not found'')"

definition page_items ::
  "CardanoAssetTransactionSyncStateRow option \<Rightarrow> bool \<Rightarrow> RawCardanoAssetTransaction list \<Rightarrow> string + RawCardanoAssetTransaction list" where
  "page_items syncState boundaryFound items =
     (case syncState of
        None \<Rightarrow> Inr items
      | Some st \<Rightarrow> if boundaryFound then Inr items else after_boundary (cs_last_tx_hash st) items)"

text \<open>One transaction: asset transactions, UTXOs and the cursor.\<close>

definition commit_page ::
  "string \<Rightarrow> int \<Rightarrow> RawCardanoAssetTransaction list \<Rightarrow> CardanoTransactionUtxoWriteSet list \<Rightarrow> CardanoSyncRun \<Rightarrow> CardanoSyncRun" where
  "commit_page assetIdentifier now pageItems writeSets run =
     (let (db1, txResult) = insertCardanoAssetTransactions (map (toCardanoAssetTransactionRow assetIdentifier) pageItems) (cr_db run);
          (db2, utxoResult) = insertCardanoTransactionUtxos writeSets db1;
          db3 = upsertCardanoAssetTransactionSyncState assetIdentifier (last pageItems) (cr_currentPage run) now db2
      in run\<lparr>cr_db := db3, cr_txCounts := add_counts (cr_txCounts run) txResult,
             cr_utxoCounts := add_counts (cr_utxoCounts run) utxoResult,
             cr_lastSynced := Some (last pageItems), cr_currentPage := cr_currentPage run + 1\<rparr>)"

definition sync_page ::
  "string \<Rightarrow> CardanoAssetTransactionSyncStateRow option \<Rightarrow> (string \<Rightarrow> string + RawCardanoTransactionUtxo) \<Rightarrow> int
     \<Rightarrow> RawCardanoAssetTransaction list \<Rightarrow> CardanoSyncRun \<Rightarrow> string + CardanoSyncRun" where
  "sync_page assetIdentifier syncState fetchTransactionUtxo now items run0 =
     (let run = run0\<lparr>cr_pageCount := cr_pageCount run0 + 1\<rparr>
      in case page_items syncState (cr_syncBoundaryFound run) items of
           Inl e \<Rightarrow> Inl e
         | Inr pageItems \<Rightarrow>
             (let run1 = run\<lparr>cr_syncBoundaryFound := True\<rparr>
              in if pageItems = [] then Inr (run1\<lparr>cr_currentPage := cr_currentPage run1 + 1\<rparr>)
                 else
                   (case traverse (\<lambda>t. fetchTransactionUtxo (ct_tx_hash t)) pageItems of
                      Inl e \<Rightarrow> Inl e
                    | Inr utxos \<Rightarrow>
                        (case traverse (\<lambda>(t, u). toCardanoTransactionUtxoWriteSet CARDANO_CHAIN (ct_tx_hash t) u) (zip pageItems utxos) of
                           Inl e \<Rightarrow> Inl e
                         | Inr writeSets \<Rightarrow> Inr (commit_page assetIdentifier now pageItems writeSets run1)))))"

fun sync_pages ::
  "string \<Rightarrow> CardanoAssetTransactionSyncStateRow option \<Rightarrow> (string \<Rightarrow> string + RawCardanoTransactionUtxo) \<Rightarrow> int
     \<Rightarrow> RawCardanoAssetTransaction list list \<Rightarrow> CardanoSyncRun \<Rightarrow> CardanoSyncRun \<times> string option" where
  "sync_pages asset syncState fetch now [] run = (run, None)"
| "sync_pages asset syncState fetch now (items # pages) run =
     (case sync_page asset syncState fetch now items run of
        Inl e \<Rightarrow> (run, Some e)
      | Inr run' \<Rightarrow> sync_pages asset syncState fetch now pages run')"

record SyncCardanoAssetTransferResult =
  cres_assetIdentifier :: string
  cres_fromTxHash :: "string option"
  cres_toTxHash :: "string option"
  cres_pageCount :: nat
  cres_txCounts :: InsertResult
  cres_utxoCounts :: InsertResult

definition sync_from_page :: "CardanoDb \<Rightarrow> string \<Rightarrow> nat" where
  "sync_from_page db asset =
     (case findCardanoAssetTransactionSyncState db asset of None \<Rightarrow> 1 | Some st \<Rightarrow> cs_last_synced_page st)"

definition start_cardano_run :: "CardanoDb \<Rightarrow> string \<Rightarrow> CardanoSyncRun" where
  "start_cardano_run db asset =
     \<lparr>cr_db = db, cr_pageCount = 0, cr_txCounts = no_counts, cr_utxoCounts = no_counts,
      cr_currentPage = sync_from_page db asset,
      cr_syncBoundaryFound = (findCardanoAssetTransactionSyncState db asset = None), cr_lastSynced = None\<rparr>"

definition syncCardanoAssetTransfer ::
  "string \<Rightarrow> int \<Rightarrow> (string + RawCardanoAssetTransaction list) list \<Rightarrow> (string \<Rightarrow> string + RawCardanoTransactionUtxo)
     \<Rightarrow> CardanoDb \<Rightarrow> CardanoDb \<times> (string + SyncCardanoAssetTransferResult)" where
  "syncCardanoAssetTransfer asset now answers fetchTransactionUtxo db =
     (let syncState = findCardanoAssetTransactionSyncState db asset;
          (pages, e) = fetchAssetTransactions answers;
          (run, failure) = sync_pages asset syncState fetchTransactionUtxo now pages (start_cardano_run db asset)
      in case failure of
           Some msg \<Rightarrow> (cr_db run, Inl msg)
         | None \<Rightarrow>
             (case e of
                Stopped msg \<Rightarrow> (cr_db run, Inl msg)
              | AllPages \<Rightarrow>
                  if syncState \<noteq> None \<and> \<not> cr_syncBoundaryFound run
                  then (cr_db run, Inl ''Cardano sync boundary transaction was not found'')
                  else (cr_db run, Inr
                    \<lparr>cres_assetIdentifier = asset, cres_fromTxHash = map_option cs_last_tx_hash syncState,
                     cres_toTxHash = (case cr_lastSynced run of Some t \<Rightarrow> Some (ct_tx_hash t) | None \<Rightarrow> map_option cs_last_tx_hash syncState),
                     cres_pageCount = cr_pageCount run, cres_txCounts = cr_txCounts run, cres_utxoCounts = cr_utxoCounts run\<rparr>)))"

section \<open>Bounded concurrency\<close>

text \<open>
  \<^verbatim>\<open>mapWithConcurrency\<close> as a step relation: a free worker takes the next index, and any of the running
  calls may be the next to complete.  \<open>mw_results\<close> is the array of results.
\<close>

record 'b MapWorkers =
  mw_nextIndex :: nat
  mw_running :: "nat list"
  mw_results :: "nat \<rightharpoonup> 'b"

inductive map_step :: "('a \<Rightarrow> 'b) \<Rightarrow> 'a list \<Rightarrow> nat \<Rightarrow> 'b MapWorkers \<Rightarrow> 'b MapWorkers \<Rightarrow> bool"
  for f :: "'a \<Rightarrow> 'b" and items :: "'a list" and concurrency :: nat where
  take_index: "mw_nextIndex s < length items \<Longrightarrow> length (mw_running s) < min concurrency (length items) \<Longrightarrow>
    map_step f items concurrency s (s\<lparr>mw_nextIndex := mw_nextIndex s + 1, mw_running := mw_nextIndex s # mw_running s\<rparr>)"
| complete_index: "i \<in> set (mw_running s) \<Longrightarrow>
    map_step f items concurrency s
      (s\<lparr>mw_running := removeAll i (mw_running s), mw_results := (mw_results s)(i \<mapsto> f (items ! i))\<rparr>)"

definition map_start :: "'b MapWorkers" where
  "map_start = \<lparr>mw_nextIndex = 0, mw_running = [], mw_results = Map.empty\<rparr>"

text \<open>All workers have returned: no index is left and no call is running.\<close>

definition map_settled :: "'a list \<Rightarrow> 'b MapWorkers \<Rightarrow> bool" where
  "map_settled items s \<longleftrightarrow> mw_nextIndex s = length items \<and> mw_running s = []"

definition workers_inv :: "('a \<Rightarrow> 'b) \<Rightarrow> 'a list \<Rightarrow> nat \<Rightarrow> 'b MapWorkers \<Rightarrow> bool" where
  "workers_inv f items c s \<longleftrightarrow>
     mw_nextIndex s \<le> length items \<and> distinct (mw_running s) \<and> length (mw_running s) \<le> c
     \<and> set (mw_running s) \<subseteq> {..<mw_nextIndex s}
     \<and> (\<forall>i. mw_results s i = (if i < mw_nextIndex s \<and> i \<notin> set (mw_running s) then Some (f (items ! i)) else None))"

lemma workers_inv_reachable:
  assumes "(map_step f items c)\<^sup>*\<^sup>* map_start s"
  shows "workers_inv f items c s"
  using assms
proof induction
  case base
  then show ?case by (simp add: workers_inv_def map_start_def)
next
  case (step s s')
  from step(2) show ?case
  proof cases
    case take_index
    then show ?thesis using step(3) by (auto simp: workers_inv_def)
  next
    case (complete_index i)
    have "length (removeAll i (mw_running s)) \<le> c"
      using step(3) unfolding workers_inv_def removeAll_filter_not_eq by (meson length_filter_le le_trans)
    then show ?thesis using step(3) complete_index by (auto simp: workers_inv_def distinct_removeAll)
  qed
qed

text \<open>
  In every interleaving, at most \<open>concurrency\<close> calls are running at a time, and when all workers have
  returned the result array holds the result of each item at its own index.
\<close>

lemma mapWithConcurrency_ordered:
  assumes "(map_step f items concurrency)\<^sup>*\<^sup>* map_start s"
  shows "length (mw_running s) \<le> concurrency
    \<and> (map_settled items s \<longrightarrow> map (mw_results s) [0 ..< length items] = map (\<lambda>x. Some (f x)) items)"
proof -
  have "map (mw_results s) [0 ..< length items] = map (\<lambda>x. Some (f x)) items" if "map_settled items s"
    using that workers_inv_reachable[OF assms]
    by (intro nth_equalityI) (simp_all add: workers_inv_def map_settled_def)
  then show ?thesis using workers_inv_reachable[OF assms] by (simp add: workers_inv_def)
qed

lemma sample_workers:
  "(map_step Suc [7, 8] 5)\<^sup>*\<^sup>* map_start
     \<lparr>mw_nextIndex = 2, mw_running = [], mw_results = [1 \<mapsto> 9, 0 \<mapsto> 8]\<rparr>"
proof -
  have 1: "map_step Suc [7, 8] 5 map_start \<lparr>mw_nextIndex = 1, mw_running = [0], mw_results = Map.empty\<rparr>"
    using map_step.take_index[of map_start "[7, 8]" 5 Suc] by (simp add: map_start_def)
  have 2: "map_step Suc [7, 8] 5 \<lparr>mw_nextIndex = 1, mw_running = [0], mw_results = Map.empty\<rparr>
      \<lparr>mw_nextIndex = 2, mw_running = [1, 0], mw_results = Map.empty\<rparr>"
    using map_step.take_index[of "\<lparr>mw_nextIndex = 1, mw_running = [0], mw_results = Map.empty\<rparr>" "[7, 8]" 5 Suc]
    by (simp add: numeral_2_eq_2)
  have 3: "map_step Suc [7, 8] 5 \<lparr>mw_nextIndex = 2, mw_running = [1, 0], mw_results = Map.empty\<rparr>
      \<lparr>mw_nextIndex = 2, mw_running = [0], mw_results = [1 \<mapsto> 9]\<rparr>"
    using map_step.complete_index[of 1 "\<lparr>mw_nextIndex = 2, mw_running = [1, 0], mw_results = Map.empty\<rparr>" Suc "[7, 8]" 5] by simp
  have 4: "map_step Suc [7, 8] 5 \<lparr>mw_nextIndex = 2, mw_running = [0], mw_results = [1 \<mapsto> 9]\<rparr>
      \<lparr>mw_nextIndex = 2, mw_running = [], mw_results = [1 \<mapsto> 9, 0 \<mapsto> 8]\<rparr>"
    using map_step.complete_index[of 0 "\<lparr>mw_nextIndex = 2, mw_running = [0], mw_results = [1 \<mapsto> 9]\<rparr>" Suc "[7, 8]" 5] by simp
  show ?thesis using 1 2 3 4 by (meson rtranclp.rtrancl_into_rtrancl rtranclp.rtrancl_refl)
qed

theorem mapWithConcurrency_ordered_witness:
  "map [1 \<mapsto> 9, 0 \<mapsto> 8] [0 ..< length [7, 8 :: nat]] = map (\<lambda>x. Some (Suc x)) [7, 8]"
proof -
  have "map_settled [7, 8 :: nat] \<lparr>mw_nextIndex = 2, mw_running = [], mw_results = [1 \<mapsto> 9, 0 \<mapsto> 8 :: nat]\<rparr>"
    by (simp add: map_settled_def)
  then show ?thesis using mapWithConcurrency_ordered[OF sample_workers] by (metis MapWorkers.select_convs(3))
qed

section \<open>A sync resumes where the last one stopped\<close>

text \<open>
  \<open>H asset\<close> is the asset's transaction list on Blockfrost, to which transactions are only ever appended;
  \<open>n asset\<close> of them have been stored.  The cursor names the last stored one and its page.
\<close>

definition cursor_ok :: "RawCardanoAssetTransaction list \<Rightarrow> nat \<Rightarrow> CardanoAssetTransactionSyncStateRow option \<Rightarrow> bool" where
  "cursor_ok h k st \<longleftrightarrow>
     (if k = 0 then st = None
      else (\<exists>s. st = Some s \<and> cs_last_tx_hash s = ct_tx_hash (h ! (k - 1))
              \<and> cs_last_synced_page s = (k - 1) div BLOCKFROST_PAGE_SIZE + 1))"

definition cardano_inv :: "(string \<Rightarrow> RawCardanoAssetTransaction list) \<Rightarrow> (string \<Rightarrow> nat) \<Rightarrow> CardanoDb \<Rightarrow> bool" where
  "cardano_inv H n db \<longleftrightarrow>
     set (cd_asset_transactions db) = (\<Union>a. toCardanoAssetTransactionRow a ` set (take (n a) (H a)))
     \<and> (\<forall>a. n a \<le> length (H a) \<and> cursor_ok (H a) (n a) (findCardanoAssetTransactionSyncState db a))"

definition asset_history_ok :: "RawCardanoAssetTransaction list \<Rightarrow> bool" where
  "asset_history_ok h \<longleftrightarrow> distinct (map ct_tx_hash h)"

lemma page_size_pos: "0 < BLOCKFROST_PAGE_SIZE"
  by (simp add: BLOCKFROST_PAGE_SIZE_def)

lemma after_boundary_nth:
  assumes "distinct (map ct_tx_hash xs)" "i < length xs"
  shows "after_boundary (ct_tx_hash (xs ! i)) xs = Inr (drop (Suc i) xs)"
proof -
  have "tl (dropWhile (\<lambda>t. ct_tx_hash t \<noteq> ct_tx_hash (xs ! i)) xs) = drop (Suc i) xs"
    using assms
  proof (induction xs arbitrary: i)
    case (Cons x xs)
    show ?case
    proof (cases i)
      case (Suc j)
      then have "xs ! j \<in> set xs" using Cons.prems by simp
      then have "ct_tx_hash x \<noteq> ct_tx_hash (xs ! j)" using Cons.prems(1) by (metis distinct.simps(2) image_eqI list.simps(9) set_map)
      then show ?thesis using Cons Suc by simp
    qed simp
  qed simp
  moreover have "ct_tx_hash (xs ! i) \<in> ct_tx_hash ` set xs" using assms(2) by simp
  ultimately show ?thesis by (simp add: after_boundary_def)
qed

text \<open>
  Where the loop is: at page \<open>q\<close> with \<open>k\<close> transactions stored, the boundary either found (and then all
  earlier pages are stored) or on this page.
\<close>

definition at_page ::
  "RawCardanoAssetTransaction list \<Rightarrow> nat \<Rightarrow> CardanoAssetTransactionSyncStateRow option \<Rightarrow> nat \<Rightarrow> nat \<Rightarrow> bool \<Rightarrow> bool" where
  "at_page h m st q k found \<longleftrightarrow> 1 \<le> q \<and> k \<le> m \<and> m \<le> length h
     \<and> (if found then k = (q - 1) * BLOCKFROST_PAGE_SIZE
        else (q - 1) * BLOCKFROST_PAGE_SIZE < k \<and> k \<le> q * BLOCKFROST_PAGE_SIZE
          \<and> (\<exists>s. st = Some s \<and> cs_last_tx_hash s = ct_tx_hash (h ! (k - 1))))"

lemma page_of_slice: "1 \<le> q \<Longrightarrow> page_of b q xs = drop ((q - 1) * b) (take (q * b) xs)"
  by (cases q) (simp_all add: page_of_def drop_take add.commute)

lemma page_items_slice:
  assumes "asset_history_ok h" "at_page h m st q k found"
  shows "page_items st found (page_of BLOCKFROST_PAGE_SIZE q (take m h))
    = Inr (drop k (take (min m (q * BLOCKFROST_PAGE_SIZE)) h))"
proof -
  let ?b = BLOCKFROST_PAGE_SIZE let ?o = "(q - 1) * ?b"
  let ?xs = "drop ?o (take (min m (q * ?b)) h)"
  have p: "page_of ?b q (take m h) = ?xs" using assms(2) by (simp add: page_of_slice at_page_def min.commute)
  show ?thesis
  proof (cases found)
    case True
    then show ?thesis using assms(2) p by (simp add: page_items_def at_page_def split: option.split)
  next
    case False
    then obtain s where s: "st = Some s" "cs_last_tx_hash s = ct_tx_hash (h ! (k - 1))"
        "?o < k" "k \<le> q * ?b" "k \<le> m" "m \<le> length h" using assms(2) by (auto simp: at_page_def)
    define i where "i = k - 1 - ?o"
    have i: "?o + i = k - 1" "Suc (?o + i) = k" using s(3) by (simp_all add: i_def)
    have l: "i < length ?xs" using s i by simp
    have "k - 1 < min m (q * ?b)" using s by auto
    then have "?xs ! i = h ! (k - 1)" using l i s by simp
    moreover have "distinct (map ct_tx_hash ?xs)"
      using assms(1) by (simp add: asset_history_ok_def distinct_drop distinct_take flip: drop_map take_map)
    ultimately have "after_boundary (cs_last_tx_hash s) ?xs = Inr (drop (Suc i) ?xs)"
      using after_boundary_nth[OF _ l] s(2) by simp
    also have "drop (Suc i) ?xs = drop k (take (min m (q * ?b)) h)" using i(2) by (simp add: add.commute)
    finally show ?thesis using False s(1) p by (simp add: page_items_def)
  qed
qed

lemma cursor_after:
  "findCardanoAssetTransactionSyncState (upsertCardanoAssetTransactionSyncState asset t page now db) a =
     (if a = asset
      then Some \<lparr>cs_chain = CARDANO_CHAIN, cs_asset_identifier = asset, cs_last_tx_hash = ct_tx_hash t,
                 cs_last_tx_index = ct_tx_index t, cs_last_block_height = ct_block_height t,
                 cs_last_block_time = ct_block_time t, cs_last_synced_page = page, cs_updated_at = now\<rparr>
      else findCardanoAssetTransactionSyncState db a)"
proof -
  let ?row = "\<lparr>cs_chain = CARDANO_CHAIN, cs_asset_identifier = asset, cs_last_tx_hash = ct_tx_hash t,
                 cs_last_tx_index = ct_tx_index t, cs_last_block_height = ct_block_height t,
                 cs_last_block_time = ct_block_time t, cs_last_synced_page = page, cs_updated_at = now\<rparr>"
  have r: "is_cursor_of asset ?row" by (simp add: is_cursor_of_def)
  have o1: "is_cursor_of asset r \<Longrightarrow> \<not> is_cursor_of a r" if "a \<noteq> asset" for r using that by (auto simp: is_cursor_of_def)
  show ?thesis
  proof (cases "findCardanoAssetTransactionSyncState db asset")
    case None
    then show ?thesis using r o1
      by (auto simp: upsertCardanoAssetTransactionSyncState_def findCardanoAssetTransactionSyncState_def Let_def
          find_append is_cursor_of_def split: option.split)
  next
    case (Some s)
    then show ?thesis using r o1 find_tbl_set[of "is_cursor_of asset" "cd_sync_state db" s ?row]
        find_tbl_set_other[of "is_cursor_of asset" "is_cursor_of a" ?row "cd_sync_state db"]
      by (auto simp: upsertCardanoAssetTransactionSyncState_def findCardanoAssetTransactionSyncState_def Let_def)
  qed
qed

lemma insert_tables [simp]:
  "cd_asset_transactions (fst (insertCardanoAssetTransactions rows db)) = insert_or_ignore asset_tx_key rows (cd_asset_transactions db)"
  "cd_sync_state (fst (insertCardanoAssetTransactions rows db)) = cd_sync_state db"
  "cd_asset_transactions (fst (insertCardanoTransactionUtxos sets db)) = cd_asset_transactions db"
  "cd_sync_state (fst (insertCardanoTransactionUtxos sets db)) = cd_sync_state db"
  by (simp_all add: insertCardanoAssetTransactions_def insertCardanoTransactionUtxos_def Let_def)

lemma upsert_tables [simp]:
  "cd_asset_transactions (upsertCardanoAssetTransactionSyncState asset t page now db) = cd_asset_transactions db"
  by (simp add: upsertCardanoAssetTransactionSyncState_def Let_def)

lemma commit_page_tables:
  "cd_asset_transactions (cr_db (commit_page asset now items sets run))
     = insert_or_ignore asset_tx_key (map (toCardanoAssetTransactionRow asset) items) (cd_asset_transactions (cr_db run))"
  "findCardanoAssetTransactionSyncState (cr_db (commit_page asset now items sets run)) a
     = (if a = asset
        then Some \<lparr>cs_chain = CARDANO_CHAIN, cs_asset_identifier = asset, cs_last_tx_hash = ct_tx_hash (last items),
                 cs_last_tx_index = ct_tx_index (last items), cs_last_block_height = ct_block_height (last items),
                 cs_last_block_time = ct_block_time (last items), cs_last_synced_page = cr_currentPage run, cs_updated_at = now\<rparr>
        else findCardanoAssetTransactionSyncState (cr_db run) a)"
  "cr_currentPage (commit_page asset now items sets run) = cr_currentPage run + 1"
  "cr_syncBoundaryFound (commit_page asset now items sets run) = cr_syncBoundaryFound run"
  by (simp_all add: commit_page_def Let_def case_prod_beta cursor_after)
     (simp add: findCardanoAssetTransactionSyncState_def)

lemma asset_rows_keyed:
  assumes "\<And>a. asset_history_ok (H a)"
  shows "inj_on asset_tx_key (\<Union>a. toCardanoAssetTransactionRow a ` set (H a))"
proof (rule inj_onI)
  fix x y assume a: "x \<in> (\<Union>a. toCardanoAssetTransactionRow a ` set (H a))"
    "y \<in> (\<Union>a. toCardanoAssetTransactionRow a ` set (H a))" "asset_tx_key x = asset_tx_key y"
  then obtain b t b' t' where t: "x = toCardanoAssetTransactionRow b t" "t \<in> set (H b)"
      "y = toCardanoAssetTransactionRow b' t'" "t' \<in> set (H b')" by auto
  have "b = b'" "ct_tx_hash t = ct_tx_hash t'" using a(3) t by (simp_all add: asset_tx_key_def toCardanoAssetTransactionRow_def)
  moreover have "inj_on ct_tx_hash (set (H b))" using assms[of b] by (simp add: asset_history_ok_def distinct_map)
  ultimately show "x = y" using t by (metis inj_onD)
qed

lemma set_take_slice: "k \<le> k' \<Longrightarrow> set (take k h) \<union> set (drop k (take k' h)) = set (take k' h)"
  by (metis append_take_drop_id min.absorb1 set_append take_take)

lemma UN_upd: "(\<Union>a. F a ((n(b := k)) a)) = F b k \<union> (\<Union>a \<in> - {b}. F a (n a))"
proof -
  have "UNIV = insert b (- {b})" by blast
  then have "(\<Union>a. F a ((n(b := k)) a)) = (\<Union>a \<in> insert b (- {b}). F a ((n(b := k)) a))" by (rule arg_cong)
  also have "\<dots> = F b k \<union> (\<Union>a \<in> - {b}. F a ((n(b := k)) a))" by (simp only: UN_insert fun_upd_same)
  also have "(\<Union>a \<in> - {b}. F a ((n(b := k)) a)) = (\<Union>a \<in> - {b}. F a (n a))" by (rule SUP_cong) simp_all
  finally show ?thesis .
qed

lemma stored_slice:
  assumes "cardano_inv H (n(asset := k)) db" "\<And>a. asset_history_ok (H a)" "k \<le> k'"
  shows "set (insert_or_ignore asset_tx_key (map (toCardanoAssetTransactionRow asset) (drop k (take k' (H asset)))) (cd_asset_transactions db))
    = (\<Union>a. toCardanoAssetTransactionRow a ` set (take ((n(asset := k')) a) (H a)))"
proof -
  let ?U = "\<Union>a. toCardanoAssetTransactionRow a ` set (H a)"
  let ?row = toCardanoAssetTransactionRow
  have db: "set (cd_asset_transactions db) = (\<Union>a. ?row a ` set (take ((n(asset := k)) a) (H a)))"
    using assms(1) by (simp add: cardano_inv_def)
  have u1: "set (cd_asset_transactions db) \<subseteq> ?U" unfolding db by (auto dest: in_set_takeD)
  have u2: "set (map (?row asset) (drop k (take k' (H asset)))) \<subseteq> ?U" by (auto dest!: in_set_dropD in_set_takeD)
  have "set (insert_or_ignore asset_tx_key (map (?row asset) (drop k (take k' (H asset)))) (cd_asset_transactions db))
      = set (cd_asset_transactions db) \<union> ?row asset ` set (drop k (take k' (H asset)))"
    using iot.stored[OF asset_rows_keyed[OF assms(2)] u1 u2] by simp
  also have "\<dots> = (\<Union>a. ?row a ` set (take ((n(asset := k')) a) (H a)))"
    unfolding db UN_upd[of "\<lambda>a j. ?row a ` set (take j (H a))"] set_take_slice[OF assms(3), of "H asset", symmetric]
    by (simp add: image_Un) blast
  finally show ?thesis .
qed

lemma page_number:
  assumes "(q - 1) * b < k" "k \<le> q * b" "1 \<le> (q :: nat)"
  shows "(k - 1) div b + 1 = q"
proof -
  obtain p where p: "q = Suc p" using assms(3) by (cases q) auto
  have "(k - 1) div b = p" using assms(1,2) p by (intro div_nat_eqI) (simp_all add: mult.commute)
  then show ?thesis using p by simp
qed

lemma cursor_slice:
  assumes "k < k'" "k' \<le> length h" "(q - 1) * BLOCKFROST_PAGE_SIZE \<le> k" "k' \<le> q * BLOCKFROST_PAGE_SIZE" "1 \<le> q"
    "cs_last_tx_hash s = ct_tx_hash (last (drop k (take k' h)))" "cs_last_synced_page s = q"
  shows "cursor_ok h k' (Some s)"
proof -
  have "last (drop k (take k' h)) = h ! (k' - 1)" using assms(1,2) by (simp add: last_conv_nth)
  moreover have "(k' - 1) div BLOCKFROST_PAGE_SIZE + 1 = q" using assms by (intro page_number) simp_all
  ultimately show ?thesis using assms by (simp add: cursor_ok_def)
qed

text \<open>One page: it fails and changes nothing, or the loop is at the next page with everything up to it stored.\<close>

definition loop_inv ::
  "(string \<Rightarrow> RawCardanoAssetTransaction list) \<Rightarrow> (string \<Rightarrow> nat) \<Rightarrow> string \<Rightarrow> nat
     \<Rightarrow> CardanoAssetTransactionSyncStateRow option \<Rightarrow> nat \<Rightarrow> nat \<Rightarrow> CardanoSyncRun \<Rightarrow> bool" where
  "loop_inv H n asset m st q k run \<longleftrightarrow>
     cr_currentPage run = q \<and> at_page (H asset) m st q k (cr_syncBoundaryFound run)
     \<and> cardano_inv H (n(asset := k)) (cr_db run)"

lemma sync_page_step:
  assumes inv: "loop_inv H n asset m st q k run" and hist: "\<And>a. asset_history_ok (H a)"
    and res: "sync_page asset st fetch now (page_of BLOCKFROST_PAGE_SIZE q (take m (H asset))) run = Inr run'"
  shows "cr_currentPage run' = q + 1" "cr_syncBoundaryFound run'"
    "cardano_inv H (n(asset := max k (min m (q * BLOCKFROST_PAGE_SIZE)))) (cr_db run')"
proof -
  let ?k = "min m (q * BLOCKFROST_PAGE_SIZE)" let ?h = "H asset"
  let ?run = "run\<lparr>cr_pageCount := cr_pageCount run + 1, cr_syncBoundaryFound := True\<rparr>"
  have ap: "at_page ?h m st q k (cr_syncBoundaryFound run)" and cq: "cr_currentPage run = q"
    and ci: "cardano_inv H (n(asset := k)) (cr_db run)" using inv by (simp_all add: loop_inv_def)
  have pi: "page_items st (cr_syncBoundaryFound run) (page_of BLOCKFROST_PAGE_SIZE q (take m ?h)) = Inr (drop k (take ?k ?h))"
    by (rule page_items_slice[OF hist ap])
  have b: "(q - 1) * BLOCKFROST_PAGE_SIZE \<le> k" "1 \<le> q" "k \<le> m" "m \<le> length ?h"
    using ap by (auto simp: at_page_def split: if_splits)
  show "cr_currentPage run' = q + 1" "cr_syncBoundaryFound run'"
    using res pi cq by (auto simp: sync_page_def Let_def commit_page_tables split: if_splits sum.splits)
  show "cardano_inv H (n(asset := max k ?k)) (cr_db run')"
  proof (cases "k < ?k")
    case False
    then have e: "drop k (take ?k ?h) = []" using b by auto
    have "run' = ?run\<lparr>cr_currentPage := cr_currentPage run + 1\<rparr>"
      using res pi[unfolded e] by (simp add: sync_page_def Let_def)
    moreover have "max k ?k = k" using False by (simp only: max_absorb1 not_less)
    ultimately show ?thesis using ci by simp
  next
    case True
    then have ne: "drop k (take ?k ?h) \<noteq> []" using b by auto
    then obtain sets where r: "run' = commit_page asset now (drop k (take ?k ?h)) sets ?run"
      using res pi by (auto simp: sync_page_def Let_def split: sum.splits)
    have c: "cursor_ok ?h ?k (findCardanoAssetTransactionSyncState (cr_db run') asset)"
      unfolding r commit_page_tables(2) if_P[OF refl] using True b cq by (intro cursor_slice[of k _ _ q]) simp_all
    have "(n(asset := ?k)) a \<le> length (H a) \<and> cursor_ok (H a) ((n(asset := ?k)) a) (findCardanoAssetTransactionSyncState (cr_db run') a)" for a
    proof (cases "a = asset")
      case False
      then have "findCardanoAssetTransactionSyncState (cr_db run') a = findCardanoAssetTransactionSyncState (cr_db run) a"
        by (simp add: r commit_page_tables)
      then show ?thesis using ci False by (auto simp: cardano_inv_def dest!: spec[of _ a])
    qed (use c b in simp)
    moreover have "set (cd_asset_transactions (cr_db run')) = (\<Union>a. toCardanoAssetTransactionRow a ` set (take ((n(asset := ?k)) a) (H a)))"
      unfolding r commit_page_tables(1) using stored_slice[OF ci hist, of ?k] True by simp
    ultimately show ?thesis using True by (simp add: cardano_inv_def max_absorb2)
  qed
qed

text \<open>
  What Blockfrost documents of the pages from \<open>q\<close> on: each is the page of that number of the list, or the
  request fails.
\<close>

definition blockfrost_ok ::
  "RawCardanoAssetTransaction list \<Rightarrow> nat \<Rightarrow> (string + RawCardanoAssetTransaction list) list \<Rightarrow> bool" where
  "blockfrost_ok h q answers \<longleftrightarrow>
     (\<forall>i < length answers. isl (answers ! i) \<or> answers ! i = Inr (page_of BLOCKFROST_PAGE_SIZE (q + i) h))"

lemma blockfrost_ok_Cons:
  "blockfrost_ok h q (x # xs) \<Longrightarrow> (isl x \<or> x = Inr (page_of BLOCKFROST_PAGE_SIZE q h)) \<and> blockfrost_ok h (q + 1) xs"
proof -
  assume a: "blockfrost_ok h q (x # xs)"
  have "isl (xs ! i) \<or> xs ! i = Inr (page_of BLOCKFROST_PAGE_SIZE (q + 1 + i) h)" if "i < length xs" for i
    using a[unfolded blockfrost_ok_def, rule_format, of "Suc i"] that by simp
  moreover have "isl x \<or> x = Inr (page_of BLOCKFROST_PAGE_SIZE q h)"
    using a[unfolded blockfrost_ok_def, rule_format, of 0] by simp
  ultimately show ?thesis by (simp add: blockfrost_ok_def)
qed

lemma at_page_empty:
  assumes "at_page h m st q k found" "page_of BLOCKFROST_PAGE_SIZE q (take m h) = []"
  shows "found" "k = m"
  using assms page_size_pos by (auto simp: at_page_def page_of_def split: if_splits)

lemma at_page_next:
  assumes "at_page h m st q k found" "q * BLOCKFROST_PAGE_SIZE \<le> m"
  shows "at_page h m st (q + 1) (max k (min m (q * BLOCKFROST_PAGE_SIZE))) True"
proof -
  have "k \<le> q * BLOCKFROST_PAGE_SIZE" using assms(1) by (cases q) (auto simp: at_page_def split: if_splits)
  then show ?thesis using assms by (simp add: at_page_def min_def max_def)
qed

lemma length_page: "length (page_of b q (take m h)) = min b (min m (length h) - (q - 1) * b)"
  by (simp add: page_of_def min.commute)

lemma at_page_full:
  assumes "at_page h m st q k found" "BLOCKFROST_PAGE_SIZE \<le> length (page_of BLOCKFROST_PAGE_SIZE q (take m h))"
  shows "q * BLOCKFROST_PAGE_SIZE \<le> m"
proof -
  obtain p where p: "q = Suc p" using assms(1) by (cases q) (auto simp: at_page_def)
  have "BLOCKFROST_PAGE_SIZE \<le> m - p * BLOCKFROST_PAGE_SIZE"
    using assms p by (simp add: length_page at_page_def min_def split: if_splits)
  then show ?thesis using p page_size_pos by simp
qed

lemma at_page_last:
  assumes "at_page h m st q k found" "length (page_of BLOCKFROST_PAGE_SIZE q (take m h)) < BLOCKFROST_PAGE_SIZE"
  shows "max k (min m (q * BLOCKFROST_PAGE_SIZE)) = m"
proof -
  obtain p where p: "q = Suc p" using assms(1) by (cases q) (auto simp: at_page_def)
  have "m - p * BLOCKFROST_PAGE_SIZE < BLOCKFROST_PAGE_SIZE" "k \<le> m"
    using assms p by (auto simp: length_page at_page_def min_def split: if_splits)
  then have "m \<le> q * BLOCKFROST_PAGE_SIZE" using p by simp
  then show ?thesis using \<open>k \<le> m\<close> by simp
qed

lemma sync_loop:
  assumes "loop_inv H n asset m st q k run" "\<And>a. asset_history_ok (H a)" "blockfrost_ok (take m (H asset)) q answers"
    "sync_pages asset st fetch now (fst (fetchAssetTransactions answers)) run = (run', failure)"
  shows "\<exists>k'. k \<le> k' \<and> k' \<le> m \<and> cardano_inv H (n(asset := k')) (cr_db run')
    \<and> (failure = None \<longrightarrow> snd (fetchAssetTransactions answers) = AllPages \<longrightarrow> k' = m \<and> cr_syncBoundaryFound run')"
  using assms(1,3,4) supply fun_upd_apply [simp del]
proof (induction answers arbitrary: q k run)
  case Nil
  have "run' = run" "failure = None" using Nil(3) by simp_all
  moreover have "k \<le> m" "cardano_inv H (n(asset := k)) (cr_db run)" using Nil(1) by (simp_all add: loop_inv_def at_page_def)
  ultimately show ?case by (intro exI[of _ k]) (simp del: fun_upd_apply)
next
  case (Cons x answers)
  have ap: "at_page (H asset) m st q k (cr_syncBoundaryFound run)" and ci: "cardano_inv H (n(asset := k)) (cr_db run)"
    and km: "k \<le> m" using Cons.prems(1) by (auto simp: loop_inv_def at_page_def)
  have bf: "isl x \<or> x = Inr (page_of BLOCKFROST_PAGE_SIZE q (take m (H asset)))"
    "blockfrost_ok (take m (H asset)) (q + 1) answers" using blockfrost_ok_Cons[OF Cons.prems(2)] by simp_all
  show ?case
  proof (cases x)
    case (Inl e)
    then show ?thesis using Cons.prems ci km by auto
  next
    case (Inr items)
    then have it: "items = page_of BLOCKFROST_PAGE_SIZE q (take m (H asset))" using bf by simp
    show ?thesis
    proof (cases "items = []")
      case True
      then show ?thesis using Cons.prems(3) Inr ci at_page_empty[OF ap] it by auto
    next
      case False
      let ?k = "max k (min m (q * BLOCKFROST_PAGE_SIZE))"
      show ?thesis
      proof (cases "sync_page asset st fetch now items run")
        case (Inl e)
        then have "run' = run" "failure = Some e"
          using Cons.prems(3) \<open>x = Inr items\<close> False by (auto split: if_splits prod.splits)
        then show ?thesis using ci km by auto
      next
        case (Inr run1)
        note st = sync_page_step[OF Cons.prems(1) assms(2) Inr[unfolded it]]
        show ?thesis
        proof (cases "length items < BLOCKFROST_PAGE_SIZE")
          case True
          then have "run' = run1" using Cons.prems(3) \<open>x = Inr items\<close> False Inr by simp
          then show ?thesis using st at_page_last[OF ap] True it km by (intro exI[of _ ?k]) auto
        next
          case full: False
          have inv: "loop_inv H n asset m st (q + 1) ?k run1"
            using st at_page_next[OF ap at_page_full[OF ap]] full it by (simp add: loop_inv_def)
          have "sync_pages asset st fetch now (fst (fetchAssetTransactions answers)) run1 = (run', failure)"
            "snd (fetchAssetTransactions (x # answers)) = snd (fetchAssetTransactions answers)"
            using Cons.prems(3) \<open>x = Inr items\<close> False full Inr by (simp_all add: case_prod_beta)
          then show ?thesis using Cons.IH[OF inv bf(2)] by auto
        qed
      qed
    qed
  qed
qed

subsection \<open>A provider that answers\<close>

text \<open>Every UTXO request is answered, with the transaction that was asked for.\<close>

definition utxos_answered :: "(string \<Rightarrow> string + RawCardanoTransactionUtxo) \<Rightarrow> bool" where
  "utxos_answered fetch \<longleftrightarrow> (\<forall>hash. \<exists>u. fetch hash = Inr u \<and> utxo_hash u = hash)"

lemma traverse_total:
  assumes "\<And>x. x \<in> set xs \<Longrightarrow> \<exists>y. f x = Inr y \<and> P x y"
  shows "\<exists>ys. traverse f xs = Inr ys \<and> length ys = length xs \<and> (\<forall>(x, y) \<in> set (zip xs ys). P x y)"
  using assms
proof (induction xs)
  case (Cons x xs)
  obtain y where y: "f x = Inr y" "P x y" using Cons.prems[of x] by auto
  obtain ys where "traverse f xs = Inr ys" "length ys = length xs" "\<forall>(x, y) \<in> set (zip xs ys). P x y"
    using Cons.IH Cons.prems by auto
  then show ?case using y by (intro exI[of _ "y # ys"]) simp
qed simp

lemma sync_page_total:
  assumes "asset_history_ok h" "at_page h m st q k (cr_syncBoundaryFound run)" "utxos_answered fetch"
  shows "\<exists>run'. sync_page asset st fetch now (page_of BLOCKFROST_PAGE_SIZE q (take m h)) run = Inr run'"
proof -
  define items where "items = drop k (take (min m (q * BLOCKFROST_PAGE_SIZE)) h)"
  have pi: "page_items st (cr_syncBoundaryFound run) (page_of BLOCKFROST_PAGE_SIZE q (take m h)) = Inr items"
    unfolding items_def by (rule page_items_slice[OF assms(1,2)])
  obtain us where us: "traverse (\<lambda>t. fetch (ct_tx_hash t)) items = Inr us" "length us = length items"
      "\<forall>(t, u) \<in> set (zip items us). utxo_hash u = ct_tx_hash t"
    using traverse_total[of items "\<lambda>t. fetch (ct_tx_hash t)" "\<lambda>t u. utxo_hash u = ct_tx_hash t"] assms(3)
    by (auto simp: utxos_answered_def)
  obtain ws where "traverse (\<lambda>(t, u). toCardanoTransactionUtxoWriteSet CARDANO_CHAIN (ct_tx_hash t) u) (zip items us) = Inr ws"
    using traverse_total[of "zip items us" "\<lambda>(t, u). toCardanoTransactionUtxoWriteSet CARDANO_CHAIN (ct_tx_hash t) u" "\<lambda>_ _. True"] us(3)
    by (fastforce simp: toCardanoTransactionUtxoWriteSet_def)
  then show ?thesis using pi us(1) by (simp add: sync_page_def Let_def)
qed

lemma sync_loop_total:
  assumes "loop_inv H n asset m st q k run" "\<And>a. asset_history_ok (H a)" "blockfrost_ok (take m (H asset)) q answers"
    "utxos_answered fetch" "\<not> (\<exists>a \<in> set answers. isl a)" "m < (q - 1 + length answers) * BLOCKFROST_PAGE_SIZE"
  shows "snd (fetchAssetTransactions answers) = AllPages
    \<and> snd (sync_pages asset st fetch now (fst (fetchAssetTransactions answers)) run) = None"
  using assms(1,3,5,6)
proof (induction answers arbitrary: q k run)
  case Nil
  then show ?case by (auto simp: loop_inv_def at_page_def split: if_splits)
next
  case (Cons x answers)
  have ap: "at_page (H asset) m st q k (cr_syncBoundaryFound run)" using Cons.prems(1) by (simp add: loop_inv_def)
  have bf: "x = Inr (page_of BLOCKFROST_PAGE_SIZE q (take m (H asset)))" "blockfrost_ok (take m (H asset)) (q + 1) answers"
    using blockfrost_ok_Cons[OF Cons.prems(2)] Cons.prems(3) by auto
  obtain run1 where r: "sync_page asset st fetch now (page_of BLOCKFROST_PAGE_SIZE q (take m (H asset))) run = Inr run1"
    using sync_page_total[OF assms(2) ap assms(4)] by blast
  show ?case
  proof (cases "length (page_of BLOCKFROST_PAGE_SIZE q (take m (H asset))) < BLOCKFROST_PAGE_SIZE")
    case True
    then show ?thesis using bf(1) r by simp
  next
    case False
    note st = sync_page_step[OF Cons.prems(1) assms(2) r]
    have "loop_inv H n asset m st (q + 1) (max k (min m (q * BLOCKFROST_PAGE_SIZE))) run1"
      using st at_page_next[OF ap at_page_full[OF ap]] False by (simp add: loop_inv_def)
    moreover have "m < (q + 1 - 1 + length answers) * BLOCKFROST_PAGE_SIZE"
    proof -
      have "q - 1 + length (x # answers) = q + 1 - 1 + length answers" using ap by (simp add: at_page_def)
      then show ?thesis using Cons.prems(4) by metis
    qed
    ultimately show ?thesis using Cons.IH[OF _ bf(2)] Cons.prems(3) False bf(1) r page_size_pos
      by (auto simp: case_prod_beta)
  qed
qed

subsection \<open>Any interleaving of publication and sync\<close>

definition empty_cardano_db :: CardanoDb where
  "empty_cardano_db = \<lparr>cd_asset_transactions = [], cd_utxos = [], cd_inputs = [], cd_inputAmounts = [],
     cd_outputs = [], cd_outputAmounts = [], cd_sync_state = []\<rparr>"

text \<open>\<open>pub asset\<close> is how many transactions of the asset have been published.\<close>

inductive cardano_reachable ::
  "(string \<Rightarrow> RawCardanoAssetTransaction list) \<Rightarrow> (string \<Rightarrow> nat) \<Rightarrow> CardanoDb \<Rightarrow> bool" for H where
  cardano_start: "cardano_reachable H (\<lambda>_. 0) empty_cardano_db"
| cardano_publish: "cardano_reachable H pub db \<Longrightarrow> pub a \<le> m \<Longrightarrow> m \<le> length (H a) \<Longrightarrow> cardano_reachable H (pub(a := m)) db"
| cardano_sync: "cardano_reachable H pub db \<Longrightarrow>
    blockfrost_ok (take (pub asset) (H asset)) (sync_from_page db asset) answers \<Longrightarrow>
    cardano_reachable H pub (fst (syncCardanoAssetTransfer asset now answers fetch db))"

lemma start_loop_inv:
  assumes "cardano_inv H n db" "n asset \<le> m" "m \<le> length (H asset)"
  shows "loop_inv H n asset m (findCardanoAssetTransactionSyncState db asset) (sync_from_page db asset) (n asset) (start_cardano_run db asset)"
proof -
  let ?b = BLOCKFROST_PAGE_SIZE
  have c: "cursor_ok (H asset) (n asset) (findCardanoAssetTransactionSyncState db asset)" using assms(1) by (simp add: cardano_inv_def)
  have d: "(n asset - 1) div ?b * ?b < n asset" "n asset \<le> ((n asset - 1) div ?b + 1) * ?b" if "n asset \<noteq> 0"
  proof -
    have "(n asset - 1) div ?b * ?b + (n asset - 1) mod ?b = n asset - 1" "(n asset - 1) mod ?b < ?b"
      using page_size_pos by simp_all
    then show "(n asset - 1) div ?b * ?b < n asset" "n asset \<le> ((n asset - 1) div ?b + 1) * ?b"
      using that unfolding add_mult_distrib by linarith+
  qed
  have "at_page (H asset) m (findCardanoAssetTransactionSyncState db asset) (sync_from_page db asset) (n asset)
      (findCardanoAssetTransactionSyncState db asset = None)"
    using c d assms(2,3) by (auto simp: cursor_ok_def at_page_def sync_from_page_def split: if_splits)
  then show ?thesis using assms(1) by (simp add: loop_inv_def start_cardano_run_def)
qed

lemma sync_extends:
  assumes "cardano_inv H n db" "\<And>a. asset_history_ok (H a)" "n asset \<le> m" "m \<le> length (H asset)"
    "blockfrost_ok (take m (H asset)) (sync_from_page db asset) answers"
  shows "\<exists>k. n asset \<le> k \<and> k \<le> m \<and> cardano_inv H (n(asset := k)) (fst (syncCardanoAssetTransfer asset now answers fetch db))
    \<and> (\<not> isl (snd (syncCardanoAssetTransfer asset now answers fetch db)) \<longrightarrow> k = m)"
proof -
  let ?st = "findCardanoAssetTransactionSyncState db asset"
  obtain run f where rf: "sync_pages asset ?st fetch now (fst (fetchAssetTransactions answers)) (start_cardano_run db asset) = (run, f)"
    by fastforce
  obtain k where k: "n asset \<le> k" "k \<le> m" "cardano_inv H (n(asset := k)) (cr_db run)"
      "f = None \<longrightarrow> snd (fetchAssetTransactions answers) = AllPages \<longrightarrow> k = m \<and> cr_syncBoundaryFound run"
    using sync_loop[OF start_loop_inv[OF assms(1,3,4)] assms(2,5) rf] by blast
  have "fst (syncCardanoAssetTransfer asset now answers fetch db) = cr_db run"
    "\<not> isl (snd (syncCardanoAssetTransfer asset now answers fetch db)) \<longrightarrow> f = None \<and> snd (fetchAssetTransactions answers) = AllPages"
    using rf by (auto simp: syncCardanoAssetTransfer_def Let_def case_prod_beta split: option.split cardano_stream_end.split)
  then show ?thesis using k by (intro exI[of _ k]) (simp del: fun_upd_apply)
qed

lemma cardano_reachable_inv:
  assumes "cardano_reachable H pub db" "\<And>a. asset_history_ok (H a)"
  shows "\<exists>n. (\<forall>a. n a \<le> pub a \<and> pub a \<le> length (H a)) \<and> cardano_inv H n db"
  using assms(1)
proof induction
  case cardano_start
  show ?case
    by (intro exI[of _ "\<lambda>_. 0"])
       (simp add: cardano_inv_def empty_cardano_db_def cursor_ok_def findCardanoAssetTransactionSyncState_def)
next
  case (cardano_publish pub db a m)
  then show ?case by (metis fun_upd_apply le_trans)
next
  case (cardano_sync pub db asset answers now fetch)
  then obtain n where n: "\<forall>a. n a \<le> pub a \<and> pub a \<le> length (H a)" "cardano_inv H n db" by blast
  then obtain k where k: "k \<le> pub asset" "cardano_inv H (n(asset := k)) (fst (syncCardanoAssetTransfer asset now answers fetch db))"
    using sync_extends[OF n(2) assms(2), of asset "pub asset" answers now fetch] cardano_sync.hyps(2) by blast
  have "\<forall>a. (n(asset := k)) a \<le> pub a \<and> pub a \<le> length (H a)" using n(1) k(1) by simp
  then show ?case using k(2) by blast
qed

text \<open>
  C31: Whatever is published and synced in whatever order, and wherever syncs fail, for every asset the table
  holds exactly an initial segment of its published transactions, and the cursor names the last one of
  the segment and the page it is on.
\<close>

theorem cardano_sync_prefix:
  assumes "cardano_reachable H pub db" "\<And>a. asset_history_ok (H a)"
  shows "\<exists>n. (\<forall>a. n a \<le> pub a) \<and> cardano_inv H n db"
  using cardano_reachable_inv[OF assms] by blast

definition sample_tx :: "string \<Rightarrow> RawCardanoAssetTransaction" where
  "sample_tx h = \<lparr>ct_tx_hash = h, ct_tx_index = 0, ct_block_height = 1, ct_block_time = 0\<rparr>"

definition sample_asset_history :: "string \<Rightarrow> RawCardanoAssetTransaction list" where
  "sample_asset_history a = (if a = ''x'' then [sample_tx ''a'', sample_tx ''b''] else [])"

definition sample_fetch :: "string \<Rightarrow> string + RawCardanoTransactionUtxo" where
  "sample_fetch h = Inr \<lparr>utxo_hash = h, utxo_inputs = [], utxo_outputs = []\<rparr>"

lemma sample_asset_history_ok: "asset_history_ok (sample_asset_history a)"
  by (simp add: asset_history_ok_def sample_asset_history_def sample_tx_def)

lemma sample_published: "cardano_reachable sample_asset_history ((\<lambda>_. 0)(''x'' := 2)) empty_cardano_db"
  by (rule cardano_publish[OF cardano_start]) (simp_all add: sample_asset_history_def)

lemma sample_pages_ok: "blockfrost_ok (take 2 (sample_asset_history ''x'')) (sync_from_page empty_cardano_db ''x'') [Inr [sample_tx ''a'', sample_tx ''b'']]"
  by (simp add: blockfrost_ok_def page_of_def sample_asset_history_def sync_from_page_def BLOCKFROST_PAGE_SIZE_def
      findCardanoAssetTransactionSyncState_def empty_cardano_db_def)

theorem cardano_sync_prefix_witness:
  "\<exists>n. (\<forall>a. n a \<le> ((\<lambda>_. 0)(''x'' := 2)) a) \<and> cardano_inv sample_asset_history n
     (fst (syncCardanoAssetTransfer ''x'' 0 [Inr [sample_tx ''a'', sample_tx ''b'']] sample_fetch empty_cardano_db))"
proof -
  have "blockfrost_ok (take (((\<lambda>_. 0)(''x'' := 2)) ''x'') (sample_asset_history ''x'')) (sync_from_page empty_cardano_db ''x'') [Inr [sample_tx ''a'', sample_tx ''b'']]"
    using sample_pages_ok by simp
  from cardano_sync_prefix[OF cardano_sync[OF sample_published this] sample_asset_history_ok] show ?thesis .
qed

text \<open>
  When Blockfrost answers every page and UTXO request, a sync in any reachable state succeeds (in
  particular it finds its boundary transaction again) and afterwards every published transaction of
  the asset is stored.
\<close>

lemma cardano_sync_succeeds:
  assumes "cardano_reachable H pub db" "\<And>a. asset_history_ok (H a)"
    "blockfrost_ok (take (pub asset) (H asset)) (sync_from_page db asset) answers" "\<not> (\<exists>a \<in> set answers. isl a)"
    "pub asset < (sync_from_page db asset - 1 + length answers) * BLOCKFROST_PAGE_SIZE" "utxos_answered fetch"
  shows "\<exists>db' result. syncCardanoAssetTransfer asset now answers fetch db = (db', Inr result)
    \<and> toCardanoAssetTransactionRow asset ` set (take (pub asset) (H asset)) \<subseteq> set (cd_asset_transactions db')"
proof -
  let ?st = "findCardanoAssetTransactionSyncState db asset"
  let ?r = "syncCardanoAssetTransfer asset now answers fetch db"
  obtain n where n: "n asset \<le> pub asset" "pub asset \<le> length (H asset)" "cardano_inv H n db"
    using cardano_reachable_inv[OF assms(1,2)] by blast
  note inv = start_loop_inv[OF n(3,1,2)]
  obtain run f where rf: "sync_pages asset ?st fetch now (fst (fetchAssetTransactions answers)) (start_cardano_run db asset) = (run, f)"
    by fastforce
  have t: "f = None" "snd (fetchAssetTransactions answers) = AllPages"
    using sync_loop_total[OF inv assms(2,3,6,4,5), of now] rf by simp_all
  have "cr_syncBoundaryFound run" using sync_loop[OF inv assms(2,3) rf] t by blast
  then have i: "\<not> isl (snd ?r)"
    using rf t by (simp add: syncCardanoAssetTransfer_def Let_def case_prod_beta)
  then obtain k where "cardano_inv H (n(asset := k)) (fst ?r)" "k = pub asset"
    using sync_extends[OF n(3) assms(2) n(1,2) assms(3), of now fetch] by blast
  then have "toCardanoAssetTransactionRow asset ` set (take (pub asset) (H asset)) \<subseteq> set (cd_asset_transactions (fst ?r))"
    by (auto simp: cardano_inv_def)
  then show ?thesis using i by (metis isl_def old.sum.exhaust prod.collapse)
qed

theorem cardano_sync_succeeds_witness:
  "\<exists>db' result. syncCardanoAssetTransfer ''x'' 0 [Inr [sample_tx ''a'', sample_tx ''b'']] sample_fetch empty_cardano_db = (db', Inr result)
    \<and> toCardanoAssetTransactionRow ''x'' ` set (take 2 (sample_asset_history ''x'')) \<subseteq> set (cd_asset_transactions db')"
  using cardano_sync_succeeds[OF sample_published sample_asset_history_ok, of "''x''" "[Inr [sample_tx ''a'', sample_tx ''b'']]" sample_fetch 0]
    sample_pages_ok
  by (simp add: BLOCKFROST_PAGE_SIZE_def utxos_answered_def sample_fetch_def)

section \<open>The read repository\<close>

record CardanoUtxoInput =
  cin_address :: string
  cin_amounts :: "Amount list"

record CardanoUtxoOutput =
  cout_address :: string
  cout_output_index :: nat
  cout_amounts :: "Amount list"

record CardanoRawTransactionUtxoData =
  rt_tx_hash :: string
  rt_block_height :: nat
  rt_block_time :: int
  rt_inputs :: "CardanoUtxoInput list"
  rt_outputs :: "CardanoUtxoOutput list"

record CardanoQuery =
  cq_assetIdentifier :: string
  cq_addresses :: "string list"
  cq_page :: nat
  cq_limit :: nat
  cq_fromTimestampUnix :: "int option"
  cq_toTimestampUnix :: "int option"

definition touches :: "CardanoDb \<Rightarrow> string list \<Rightarrow> CardanoAssetTransactionRow \<Rightarrow> bool" where
  "touches db addresses cat \<longleftrightarrow>
     list_ex (\<lambda>i. ci_chain i = ca_chain cat \<and> ci_tx_hash i = ca_tx_hash cat \<and> ci_address i \<in> set addresses) (cd_inputs db)
     \<or> list_ex (\<lambda>o1. co_chain o1 = ca_chain cat \<and> co_tx_hash o1 = ca_tx_hash cat \<and> co_address o1 \<in> set addresses) (cd_outputs db)"

definition cardano_matches :: "CardanoDb \<Rightarrow> CardanoQuery \<Rightarrow> CardanoAssetTransactionRow \<Rightarrow> bool" where
  "cardano_matches db q cat \<longleftrightarrow>
     ca_chain cat = CARDANO_CHAIN \<and> ca_asset_identifier cat = cq_assetIdentifier q
     \<and> (case cq_fromTimestampUnix q of None \<Rightarrow> True | Some from \<Rightarrow> from \<le> ca_block_time cat)
     \<and> (case cq_toTimestampUnix q of None \<Rightarrow> True | Some to \<Rightarrow> ca_block_time cat \<le> to)
     \<and> touches db (cq_addresses q) cat"

text \<open>\<^verbatim>\<open>SELECT DISTINCT ... ORDER BY block_height, tx_hash\<close>, before \<^verbatim>\<open>LIMIT\<close> and \<^verbatim>\<open>OFFSET\<close>; \<open>tle\<close> is the collation of text.\<close>

definition matching_txs :: "(string \<Rightarrow> string \<Rightarrow> bool) \<Rightarrow> CardanoDb \<Rightarrow> CardanoQuery \<Rightarrow> (string \<times> nat \<times> int) list" where
  "matching_txs tle db q =
     sort_by (\<lambda>(h, b, _) (h', b', _). b < b' \<or> b = b' \<and> tle h h')
       (js_dedup (map (\<lambda>cat. (ca_tx_hash cat, ca_block_height cat, ca_block_time cat))
          (filter (cardano_matches db q) (cd_asset_transactions db))))"

text \<open>
  A joined row: transaction hash, input or output index, address, amount index, unit and quantity; and the
  join of the inputs (outputs) of some transactions with their amounts, in the order of the query.
\<close>

type_synonym JoinedRow = "string \<times> nat \<times> string \<times> nat \<times> string \<times> string"

definition joined_order :: "(string \<Rightarrow> string \<Rightarrow> bool) \<Rightarrow> JoinedRow \<Rightarrow> JoinedRow \<Rightarrow> bool" where
  "joined_order tle a b =
     (case (a, b) of ((h, i, _, k, _), (h', i', _, k', _)) \<Rightarrow>
        if h \<noteq> h' then tle h h' else i < i' \<or> i = i' \<and> k \<le> k')"

definition join_amounts :: "(string \<times> nat \<times> string) list \<Rightarrow> CardanoAmountRow list \<Rightarrow> JoinedRow list" where
  "join_amounts items amounts =
     concat (map (\<lambda>(h, i, addr).
       map (\<lambda>a. (h, i, addr, am_amount_index a, am_unit a, am_quantity a))
         (filter (\<lambda>a. am_chain a = CARDANO_CHAIN \<and> am_tx_hash a = h \<and> am_index a = i) amounts)) items)"

definition input_rows :: "(string \<Rightarrow> string \<Rightarrow> bool) \<Rightarrow> CardanoDb \<Rightarrow> string list \<Rightarrow> JoinedRow list" where
  "input_rows tle db txHashes =
     sort_by (joined_order tle) (join_amounts
       (map (\<lambda>i. (ci_tx_hash i, ci_input_index i, ci_address i))
          (filter (\<lambda>i. ci_chain i = CARDANO_CHAIN \<and> ci_tx_hash i \<in> set txHashes) (cd_inputs db)))
       (cd_inputAmounts db))"

definition output_rows :: "(string \<Rightarrow> string \<Rightarrow> bool) \<Rightarrow> CardanoDb \<Rightarrow> string list \<Rightarrow> JoinedRow list" where
  "output_rows tle db txHashes =
     sort_by (joined_order tle) (join_amounts
       (map (\<lambda>o1. (co_tx_hash o1, co_output_index o1, co_address o1))
          (filter (\<lambda>o1. co_chain o1 = CARDANO_CHAIN \<and> co_tx_hash o1 \<in> set txHashes) (cd_outputs db)))
       (cd_outputAmounts db))"

text \<open>The groups of rows with the same key \<^verbatim>\<open>tx_hash:index\<close>, in order of first occurrence.\<close>

definition group_key :: "JoinedRow \<Rightarrow> string" where
  "group_key r = (case r of (h, i, _) \<Rightarrow> h @ '':'' @ js_nat i)"

type_synonym UtxoGroup = "string \<times> nat \<times> Amount list"

definition add_to_group :: "JoinedRow \<Rightarrow> (string \<times> UtxoGroup) list \<Rightarrow> (string \<times> UtxoGroup) list" where
  "add_to_group r groups =
     (case r of (h, i, addr, _, u, qty) \<Rightarrow>
        (case map_of groups (group_key r) of
           None \<Rightarrow> groups @ [(group_key r, addr, i, [(u, qty)])]
         | Some (addr', i', amounts) \<Rightarrow> AList.update (group_key r) (addr', i', amounts @ [(u, qty)]) groups))"

definition group_rows :: "JoinedRow list \<Rightarrow> (string \<times> UtxoGroup) list" where
  "group_rows rows = fold add_to_group rows []"

text \<open>The groups pushed onto one transaction: those whose key has its hash before the first colon.\<close>

definition groups_of :: "string \<Rightarrow> (string \<times> UtxoGroup) list \<Rightarrow> UtxoGroup list" where
  "groups_of txHash groups = map snd (filter (\<lambda>(k, _). hd (js_split (CHR '':'') k) = txHash) groups)"

definition findTransactionsByAddresses ::
  "(string \<Rightarrow> string \<Rightarrow> bool) \<Rightarrow> CardanoDb \<Rightarrow> CardanoQuery \<Rightarrow> CardanoRawTransactionUtxoData list" where
  "findTransactionsByAddresses tle db q =
     (if cq_addresses q = [] then []
      else
        (let txRows = page_of (cq_limit q) (cq_page q) (matching_txs tle db q);
             txHashes = map fst txRows;
             inputGroups = group_rows (input_rows tle db txHashes);
             outputGroups = group_rows (output_rows tle db txHashes)
         in map (\<lambda>(h, height, time).
              \<lparr>rt_tx_hash = h, rt_block_height = height, rt_block_time = time,
               rt_inputs = map (\<lambda>(addr, _, amounts). \<lparr>cin_address = addr, cin_amounts = amounts\<rparr>) (groups_of h inputGroups),
               rt_outputs = map (\<lambda>(addr, i, amounts). \<lparr>cout_address = addr, cout_output_index = i, cout_amounts = amounts\<rparr>)
                 (groups_of h outputGroups)\<rparr>) txRows))"

end
