(* ===== verification/Onchain_Sync.thy ===== *)
theory Onchain_Sync
  imports Onchain_Evm Onchain_Cardano Orchestrator_Inputs
begin

text \<open>
  The on-chain data dependency (\<^verbatim>\<open>apps/workflows/src/activities/onchain-data\<close>): the activity syncs the targets of a
  run one after the other, Cardano assets with the Cardano sync and Ethereum assets with the EVM sync.
  A provider answers as a function of where a sync starts.
\<close>

record OnchainDb =
  od_evm :: EvmDb
  od_cardano :: CardanoDb

record OnchainProvider =
  op_finalized :: "string \<Rightarrow> rpc_error + string"
  op_transfers :: "EvmTransferTarget \<Rightarrow> string \<Rightarrow> (rpc_error + AlchemyAssetTransfersResponse) list"
  op_pages :: "string \<Rightarrow> nat \<Rightarrow> (string + RawCardanoAssetTransaction list) list"
  op_utxo :: "string \<Rightarrow> string + RawCardanoTransactionUtxo"

datatype sync_error = EvmSyncError rpc_error | CardanoSyncError string | UnexpectedDependency string

definition evm_target :: "SyncTarget \<Rightarrow> EvmTransferTarget" where
  "evm_target t = \<lparr>tg_chain = st_chain t, tg_assetIdentifier = st_identifier t\<rparr>"

definition sync_one :: "int \<Rightarrow> OnchainProvider \<Rightarrow> SyncTarget \<Rightarrow> OnchainDb \<Rightarrow> OnchainDb \<times> sync_error option" where
  "sync_one now prov t db =
     (if st_chain t = ''cardano''
      then (case syncCardanoAssetTransfer (st_identifier t) now
                   (op_pages prov (st_identifier t) (sync_from_page (od_cardano db) (st_identifier t))) (op_utxo prov) (od_cardano db) of
              (c, Inl e) \<Rightarrow> (db\<lparr>od_cardano := c\<rparr>, Some (CardanoSyncError e))
            | (c, Inr _) \<Rightarrow> (db\<lparr>od_cardano := c\<rparr>, None))
      else if st_chain t = ''ethereum''
      then (case syncEvmAssetTransfer (evm_target t) now (op_finalized prov (st_chain t))
                   (op_transfers prov (evm_target t) (sync_from_block (od_evm db) (evm_target t))) (od_evm db) of
              (e', Inl e) \<Rightarrow> (db\<lparr>od_evm := e'\<rparr>, Some (EvmSyncError e))
            | (e', Inr _) \<Rightarrow> (db\<lparr>od_evm := e'\<rparr>, None))
      else (db, None))"

fun onchainDataSync :: "int \<Rightarrow> OnchainProvider \<Rightarrow> SyncTarget list \<Rightarrow> OnchainDb \<Rightarrow> OnchainDb \<times> sync_error option" where
  "onchainDataSync now prov [] db = (db, None)"
| "onchainDataSync now prov (t # ts) db =
     (case sync_one now prov t db of
        (db', Some e) \<Rightarrow> (db', Some e)
      | (db', None) \<Rightarrow> onchainDataSync now prov ts db')"

definition resolve_onchain_dependency ::
  "string \<Rightarrow> SyncTarget list option \<Rightarrow> int \<Rightarrow> OnchainProvider \<Rightarrow> OnchainDb \<Rightarrow> OnchainDb \<times> sync_error option" where
  "resolve_onchain_dependency dependencyKey syncTargets now prov db =
     (if dependencyKey \<noteq> ''onchain-data'' then (db, Some (UnexpectedDependency dependencyKey))
      else onchainDataSync now prov (or_empty syncTargets) db)"

section \<open>A resolved dependency is complete\<close>

definition chains_ok :: "(EvmTransferTarget \<Rightarrow> RawEvmAssetTransfer list) \<Rightarrow> (string \<Rightarrow> RawCardanoAssetTransaction list) \<Rightarrow> bool" where
  "chains_ok H C \<longleftrightarrow> (\<forall>tg. history_ok (H tg)) \<and> (\<forall>a. asset_history_ok (C a))"

text \<open>Alchemy and Blockfrost answer for every asset and every start as documented, or fail.\<close>

definition providers_ok ::
  "(EvmTransferTarget \<Rightarrow> RawEvmAssetTransfer list) \<Rightarrow> (string \<Rightarrow> RawCardanoAssetTransaction list) \<Rightarrow> (string \<Rightarrow> nat)
     \<Rightarrow> OnchainProvider \<Rightarrow> bool" where
  "providers_ok H C pub prov \<longleftrightarrow>
     (\<forall>tg fromBlock toBlock. op_finalized prov (tg_chain tg) = Inr toBlock \<longrightarrow>
        valid_block toBlock \<and> alchemy_pages_ok (H tg) fromBlock toBlock (fetchAssetTransfers toBlock (op_transfers prov tg fromBlock)))
     \<and> (\<forall>asset page. blockfrost_ok (take (pub asset) (C asset)) page (op_pages prov asset page))"

definition onchain_reachable ::
  "(EvmTransferTarget \<Rightarrow> RawEvmAssetTransfer list) \<Rightarrow> (string \<Rightarrow> RawCardanoAssetTransaction list) \<Rightarrow> (string \<Rightarrow> nat)
     \<Rightarrow> OnchainDb \<Rightarrow> bool" where
  "onchain_reachable H C pub db \<longleftrightarrow> evm_reachable H (od_evm db) \<and> cardano_reachable C pub (od_cardano db)"

definition target_stored ::
  "(EvmTransferTarget \<Rightarrow> RawEvmAssetTransfer list) \<Rightarrow> (string \<Rightarrow> RawCardanoAssetTransaction list) \<Rightarrow> (string \<Rightarrow> nat)
     \<Rightarrow> OnchainProvider \<Rightarrow> OnchainDb \<Rightarrow> SyncTarget \<Rightarrow> bool" where
  "target_stored H C pub prov db t \<longleftrightarrow>
     (st_chain t = ''cardano'' \<longrightarrow>
        toCardanoAssetTransactionRow (st_identifier t) ` set (take (pub (st_identifier t)) (C (st_identifier t)))
          \<subseteq> set (cd_asset_transactions (od_cardano db)))
     \<and> (st_chain t = ''ethereum'' \<longrightarrow>
        (\<exists>toBlock. op_finalized prov (st_chain t) = Inr toBlock
          \<and> (\<forall>x \<in> set (H (evm_target t)). block_value (raw_blockNum x) \<le> block_value toBlock
                \<longrightarrow> toEvmAssetTransferRow (evm_target t) x \<in> set (evm_transfers (od_evm db)))))"

subsection \<open>Syncing keeps what is stored\<close>

lemma evm_sync_grows:
  assumes "evm_covered H db" "\<And>tg. history_ok (H tg)" "provider_ok H target db finalized answers"
  shows "set (evm_transfers db) \<subseteq> set (evm_transfers (fst (syncEvmAssetTransfer target now finalized answers db)))"
proof (cases finalized)
  case (Inl e)
  then show ?thesis by (simp add: syncEvmAssetTransfer_def syncEvmAssetTransferWithAdapter_def)
next
  case (Inr toBlock)
  obtain pages e where pe: "fetchAssetTransfers toBlock answers = (pages, e)" by fastforce
  have v: "valid_block toBlock" "valid_block (sync_from_block db target)"
    and a: "alchemy_pages_ok (H target) (sync_from_block db target) toBlock (pages, e)"
    using assms(1,3) Inr pe by (simp_all add: provider_ok_def evm_covered_def)
  obtain f p where f: "run_inv (all_rows H) target db f
       (if e = Finished then flushPendingPages target now (fold (receive_page target now) pages (start_run db))
        else fold (receive_page target now) pages (start_run db))"
    using sync_committed[OF assms(1,2) v(1) pe a] by blast
  from sync_result[OF v pe, of now] show ?thesis
  proof
    assume "syncEvmAssetTransfer target now (Inr toBlock) answers db = (db, snd (syncEvmAssetTransfer target now (Inr toBlock) answers db))
      \<and> block_value toBlock < block_value (sync_from_block db target)"
    then show ?thesis using Inr by (metis fst_conv order_refl)
  next
    assume "fst (syncEvmAssetTransfer target now (Inr toBlock) answers db)
        = run_db (if e = Finished then flushPendingPages target now (fold (receive_page target now) pages (start_run db))
                  else fold (receive_page target now) pages (start_run db))
      \<and> (e \<noteq> Finished \<longrightarrow> isl (snd (syncEvmAssetTransfer target now (Inr toBlock) answers db)))"
    then show ?thesis using f Inr by (simp add: run_inv_def)
  qed
qed

lemma cardano_sync_grows:
  assumes "cardano_reachable C pub db" "\<And>a. asset_history_ok (C a)"
    "blockfrost_ok (take (pub asset) (C asset)) (sync_from_page db asset) answers"
  shows "set (cd_asset_transactions db) \<subseteq> set (cd_asset_transactions (fst (syncCardanoAssetTransfer asset now answers fetch db)))"
    "\<not> isl (snd (syncCardanoAssetTransfer asset now answers fetch db)) \<Longrightarrow>
      toCardanoAssetTransactionRow asset ` set (take (pub asset) (C asset))
        \<subseteq> set (cd_asset_transactions (fst (syncCardanoAssetTransfer asset now answers fetch db)))"
proof -
  obtain n where n: "\<forall>a. n a \<le> pub a \<and> pub a \<le> length (C a)" "cardano_inv C n db"
    using cardano_reachable_inv[OF assms(1,2)] by blast
  obtain k where k: "n asset \<le> k" "cardano_inv C (n(asset := k)) (fst (syncCardanoAssetTransfer asset now answers fetch db))"
      "\<not> isl (snd (syncCardanoAssetTransfer asset now answers fetch db)) \<longrightarrow> k = pub asset"
    using sync_extends[OF n(2) assms(2), of asset "pub asset" answers now fetch] n(1) assms(3) by blast
  have s: "set (cd_asset_transactions (fst (syncCardanoAssetTransfer asset now answers fetch db)))
      = (\<Union>a. toCardanoAssetTransactionRow a ` set (take ((n(asset := k)) a) (C a)))"
    using k(2) unfolding cardano_inv_def by blast
  have "set (take (n a) (C a)) \<subseteq> set (take ((n(asset := k)) a) (C a))" for a
    using set_take_subset_set_take[OF k(1), of "C asset"] by simp
  then show "set (cd_asset_transactions db) \<subseteq> set (cd_asset_transactions (fst (syncCardanoAssetTransfer asset now answers fetch db)))"
    using n(2) unfolding s cardano_inv_def by blast
  show "toCardanoAssetTransactionRow asset ` set (take (pub asset) (C asset))
        \<subseteq> set (cd_asset_transactions (fst (syncCardanoAssetTransfer asset now answers fetch db)))"
    if "\<not> isl (snd (syncCardanoAssetTransfer asset now answers fetch db))"
    unfolding s using k(3) that by fastforce
qed

subsection \<open>One target, then all\<close>

text \<open>What syncing one target promises.\<close>

definition step_ok ::
  "(EvmTransferTarget \<Rightarrow> RawEvmAssetTransfer list) \<Rightarrow> (string \<Rightarrow> RawCardanoAssetTransaction list) \<Rightarrow> (string \<Rightarrow> nat)
     \<Rightarrow> OnchainProvider \<Rightarrow> SyncTarget \<Rightarrow> OnchainDb \<Rightarrow> OnchainDb \<times> sync_error option \<Rightarrow> bool" where
  "step_ok H C pub prov t db r \<longleftrightarrow>
     onchain_reachable H C pub (fst r)
     \<and> set (evm_transfers (od_evm db)) \<subseteq> set (evm_transfers (od_evm (fst r)))
     \<and> set (cd_asset_transactions (od_cardano db)) \<subseteq> set (cd_asset_transactions (od_cardano (fst r)))
     \<and> (snd r = None \<longrightarrow> target_stored H C pub prov (fst r) t)"

lemma sync_one_cardano:
  assumes "chains_ok H C" "providers_ok H C pub prov" "onchain_reachable H C pub db" "st_chain t = ''cardano''"
  shows "step_ok H C pub prov t db (sync_one now prov t db)"
proof -
  let ?a = "st_identifier t"
  let ?ans = "op_pages prov ?a (sync_from_page (od_cardano db) ?a)"
  let ?r = "syncCardanoAssetTransfer ?a now ?ans (op_utxo prov) (od_cardano db)"
  have h: "\<And>a. asset_history_ok (C a)" and re: "evm_reachable H (od_evm db)" and rc: "cardano_reachable C pub (od_cardano db)"
    using assms(1,3) by (simp_all add: chains_ok_def onchain_reachable_def)
  have b: "blockfrost_ok (take (pub ?a) (C ?a)) (sync_from_page (od_cardano db) ?a) ?ans"
    using assms(2) by (simp add: providers_ok_def)
  have s: "fst (sync_one now prov t db) = db\<lparr>od_cardano := fst ?r\<rparr>" "snd (sync_one now prov t db) = None \<longleftrightarrow> \<not> isl (snd ?r)"
    using assms(4) by (simp_all add: sync_one_def split: prod.split sum.split)
  show ?thesis
    using cardano_sync[OF rc b, of now "op_utxo prov"] cardano_sync_grows[OF rc h b, of now "op_utxo prov"] re assms(4)
    unfolding step_ok_def s by (simp add: onchain_reachable_def target_stored_def)
qed

lemma evm_sync_stored_to:
  assumes "evm_reachable H db" "\<And>tg. history_ok (H tg)" "provider_ok H target db finalized answers"
    "\<not> isl (snd (syncEvmAssetTransfer target now finalized answers db))"
  shows "\<exists>toBlock. finalized = Inr toBlock \<and> (\<forall>x \<in> set (H target). block_value (raw_blockNum x) \<le> block_value toBlock
    \<longrightarrow> toEvmAssetTransferRow target x \<in> set (evm_transfers (fst (syncEvmAssetTransfer target now finalized answers db))))"
proof -
  let ?r = "syncEvmAssetTransfer target now finalized answers db"
  obtain res where res: "?r = (fst ?r, Inr res)" using assms(4) by (metis isl_def old.sum.exhaust prod.collapse)
  obtain toBlock where tb: "finalized = Inr toBlock"
    using assms(4) by (cases finalized) (simp_all add: syncEvmAssetTransfer_def syncEvmAssetTransferWithAdapter_def Let_def)
  then show ?thesis using evm_sync_stores[OF assms(1,2) assms(3)[unfolded tb]] res[unfolded tb] by auto
qed

lemma sync_one_ethereum:
  assumes "chains_ok H C" "providers_ok H C pub prov" "onchain_reachable H C pub db" "st_chain t = ''ethereum''"
  shows "step_ok H C pub prov t db (sync_one now prov t db)"
proof -
  let ?g = "evm_target t"
  let ?ans = "op_transfers prov ?g (sync_from_block (od_evm db) ?g)"
  let ?fin = "op_finalized prov (st_chain t)"
  let ?r = "syncEvmAssetTransfer ?g now ?fin ?ans (od_evm db)"
  have h: "\<And>tg. history_ok (H tg)" and re: "evm_reachable H (od_evm db)" and rc: "cardano_reachable C pub (od_cardano db)"
    using assms(1,3) by (simp_all add: chains_ok_def onchain_reachable_def)
  have "tg_chain ?g = st_chain t" by (simp add: evm_target_def)
  then have p: "provider_ok H ?g (od_evm db) ?fin ?ans"
    using assms(2)[unfolded providers_ok_def, THEN conjunct1, THEN spec, of ?g]
    by (simp add: provider_ok_def split: sum.split)
  have s: "fst (sync_one now prov t db) = db\<lparr>od_evm := fst ?r\<rparr>" "snd (sync_one now prov t db) = None \<longleftrightarrow> \<not> isl (snd ?r)"
    using assms(4) by (simp_all add: sync_one_def split: prod.split sum.split)
  show ?thesis
    using evm_sync[OF re p, of now] evm_sync_grows[OF reachable_covered[OF re h] h p, of now] rc assms(4)
      evm_sync_stored_to[OF re h p, of now]
    unfolding step_ok_def s by (simp add: onchain_reachable_def target_stored_def)
qed

lemma sync_one_step:
  assumes "chains_ok H C" "providers_ok H C pub prov" "onchain_reachable H C pub db"
  shows "step_ok H C pub prov t db (sync_one now prov t db)"
proof -
  consider "st_chain t = ''cardano''" | "st_chain t = ''ethereum''" | "st_chain t \<noteq> ''cardano''" "st_chain t \<noteq> ''ethereum''" by blast
  then show ?thesis
  proof cases
    case 3
    then show ?thesis using assms(3) by (simp add: step_ok_def sync_one_def target_stored_def)
  qed (use sync_one_cardano sync_one_ethereum assms in blast)+
qed

lemma target_stored_mono:
  "target_stored H C pub prov db t \<Longrightarrow> set (evm_transfers (od_evm db)) \<subseteq> set (evm_transfers (od_evm db')) \<Longrightarrow>
   set (cd_asset_transactions (od_cardano db)) \<subseteq> set (cd_asset_transactions (od_cardano db')) \<Longrightarrow> target_stored H C pub prov db' t"
  unfolding target_stored_def by (meson order_trans subsetD)

lemma onchainDataSync_stores:
  assumes "chains_ok H C" "providers_ok H C pub prov" "onchain_reachable H C pub db"
    "onchainDataSync now prov ts db = (db', None)"
  shows "set (evm_transfers (od_evm db)) \<subseteq> set (evm_transfers (od_evm db'))
    \<and> set (cd_asset_transactions (od_cardano db)) \<subseteq> set (cd_asset_transactions (od_cardano db'))
    \<and> (\<forall>t \<in> set ts. target_stored H C pub prov db' t)"
  using assms(3,4)
proof (induction ts arbitrary: db)
  case (Cons t ts)
  have st: "step_ok H C pub prov t db (sync_one now prov t db)" by (rule sync_one_step[OF assms(1,2) Cons.prems(1)])
  have n: "snd (sync_one now prov t db) = None" and rest: "onchainDataSync now prov ts (fst (sync_one now prov t db)) = (db', None)"
    using Cons.prems(2) by (auto split: prod.splits option.splits)
  note ih = Cons.IH[OF _ rest]
  have "target_stored H C pub prov db' t"
    using target_stored_mono[of H C pub prov "fst (sync_one now prov t db)" t db'] st n ih by (simp add: step_ok_def)
  then show ?case using ih st by (auto simp: step_ok_def)
qed simp

text \<open>
  C9: When the on-chain dependency of a run resolves, every sync target of the run is complete: of an
  Ethereum asset all transfers up to the finalized block are stored, of a Cardano asset all published
  transactions; and nothing stored before is lost.
\<close>

theorem onchain_dependency_complete:
  assumes "chains_ok H C" "providers_ok H C pub prov" "onchain_reachable H C pub db"
    "resolve_onchain_dependency ''onchain-data'' (Some targets) now prov db = (db', None)"
  shows "(\<forall>t \<in> set targets. target_stored H C pub prov db' t)
    \<and> set (evm_transfers (od_evm db)) \<subseteq> set (evm_transfers (od_evm db'))
    \<and> set (cd_asset_transactions (od_cardano db)) \<subseteq> set (cd_asset_transactions (od_cardano db'))"
  using onchainDataSync_stores[OF assms(1,2,3)] assms(4) by (simp add: resolve_onchain_dependency_def or_empty_def)

definition sample_provider :: OnchainProvider where
  "sample_provider =
     \<lparr>op_finalized = (\<lambda>_. Inr ''0x0''),
      op_transfers = (\<lambda>_ _. [Inr \<lparr>ar_transfers = [], ar_pageKey = None\<rparr>]),
      op_pages = (\<lambda>asset page. [Inr (page_of BLOCKFROST_PAGE_SIZE page (take (if asset = ''x'' then 2 else 0) (sample_asset_history asset)))]),
      op_utxo = sample_fetch\<rparr>"

theorem onchain_dependency_complete_witness:
  "\<exists>db'. resolve_onchain_dependency ''onchain-data'' (Some [\<lparr>st_chain = ''cardano'', st_identifier = ''x''\<rparr>]) 0 sample_provider
       \<lparr>od_evm = empty_evm_db, od_cardano = empty_cardano_db\<rparr> = (db', None)
    \<and> target_stored (\<lambda>_. []) sample_asset_history ((\<lambda>_. 0)(''x'' := 2)) sample_provider db' \<lparr>st_chain = ''cardano'', st_identifier = ''x''\<rparr>"
proof -
  let ?db = "\<lparr>od_evm = empty_evm_db, od_cardano = empty_cardano_db\<rparr>"
  let ?t = "\<lparr>st_chain = ''cardano'', st_identifier = ''x''\<rparr>"
  have 1: "chains_ok (\<lambda>_. []) sample_asset_history" using sample_asset_history_ok by (simp add: chains_ok_def history_ok_def)
  have 2: "providers_ok (\<lambda>_. []) sample_asset_history ((\<lambda>_. 0)(''x'' := 2)) sample_provider"
    by (auto simp: providers_ok_def sample_provider_def blockfrost_ok_def alchemy_pages_ok_def window_def fetchTransferPage_def)
  have 3: "onchain_reachable (\<lambda>_. []) sample_asset_history ((\<lambda>_. 0)(''x'' := 2)) ?db"
    using sample_published evm_start[of "\<lambda>_. []"] by (simp add: onchain_reachable_def empty_evm_db_def)
  have "snd (resolve_onchain_dependency ''onchain-data'' (Some [?t]) 0 sample_provider ?db) = None" by code_simp
  then obtain db' where db': "resolve_onchain_dependency ''onchain-data'' (Some [?t]) 0 sample_provider ?db = (db', None)"
    by (metis prod.collapse)
  from onchain_dependency_complete[OF 1 2 3 db'] db' show ?thesis by auto
qed

end
