(* ===== verification/Token_Run.thy ===== *)
theory Token_Run
  imports Token_Value Did_Input Onchain_Sync
begin

text \<open>
  The run of \<^verbatim>\<open>token_value_over_time\<close>: the selected resources, the normalisation of stored transfers into
  ordered events, the page loop over each token, and the aggregation per DID (\<^verbatim>\<open>compute.ts\<close>, \<^verbatim>\<open>utils\<close> and
  \<^verbatim>\<open>normalizers\<close> of the algorithm).  The resource catalog of the algorithm definition is an argument.
  Block ordinals, heartbeats, logs and the uploads of the results are left out.
\<close>

section \<open>Resources\<close>

definition resource_dedupe_key :: "ResourceCatalogEntry \<Rightarrow> string" where
  "resource_dedupe_key entry = re_chain entry @ '':'' @ js_lower (re_identifier entry)"

definition resolved_of :: "ResourceCatalogEntry \<Rightarrow> ResolvedResource" where
  "resolved_of entry =
     \<lparr>rs_chain = re_chain entry, rs_resourceKey = re_key entry, rs_kind = re_kind entry,
      rs_identifier = re_identifier entry, rs_tokenIdentifier = re_tokenIdentifier entry,
      rs_tokenDecimals = re_tokenDecimals entry,
      rs_resourceId = buildResourceId (re_chain entry) (re_tokenIdentifier entry)\<rparr>"

definition add_resource :: "ResourceCatalogEntry \<Rightarrow> string list \<times> ResolvedResource list \<Rightarrow> string list \<times> ResolvedResource list" where
  "add_resource entry p =
     (case p of (seen, resolved) \<Rightarrow>
        if resource_dedupe_key entry \<in> set seen then (seen, resolved)
        else (set_add (resource_dedupe_key entry) seen, resolved @ [resolved_of entry]))"

definition resolveSelectedResources :: "SelectedResourceInput list \<Rightarrow> ResourceCatalogEntry list \<Rightarrow> ResolvedResource list" where
  "resolveSelectedResources selected catalog =
     snd (fold (\<lambda>sel. fold add_resource
             (filter (\<lambda>entry. re_chain entry = sel_chain sel \<and> re_key entry = sel_resourceKey sel) catalog))
           selected ([], []))"

definition getStakingContractAddresses :: "ResourceCatalogEntry list \<Rightarrow> string list" where
  "getStakingContractAddresses catalog =
     js_dedup (map (\<lambda>e. js_lower (re_identifier e)) (filter (\<lambda>e. re_kind e = ''contract'') catalog))"

definition token_dedupe_key :: "ResolvedResource \<Rightarrow> string" where
  "token_dedupe_key r = rs_chain r @ '':'' @ js_lower (rs_tokenIdentifier r)"

definition add_sync_target ::
  "ResolvedResource \<Rightarrow> string list \<times> (string \<times> string) list \<Rightarrow> string list \<times> (string \<times> string) list" where
  "add_sync_target r p =
     (case p of (seen, targets) \<Rightarrow>
        if token_dedupe_key r \<in> set seen then (seen, targets)
        else (set_add (token_dedupe_key r) seen, targets @ [(rs_chain r, rs_tokenIdentifier r)]))"

definition getSyncTargets :: "ResolvedResource list \<Rightarrow> (string \<times> string) list" where
  "getSyncTargets resolved = snd (fold add_sync_target resolved ([], []))"

section \<open>Normalisation\<close>

definition falsy_to_None :: "string option \<Rightarrow> string option" where
  "falsy_to_None s = (if s = Some [] then None else s)"

definition is_staking_address :: "string list \<Rightarrow> string option \<Rightarrow> bool" where
  "is_staking_address stakingAddresses a = (case a of None \<Rightarrow> False | Some s \<Rightarrow> js_lower s \<in> set stakingAddresses)"

definition evm_event :: "string \<Rightarrow> string list \<Rightarrow> EvmAssetTransferRow \<Rightarrow> OrderedTransferEvent" where
  "evm_event resourceId stakingAddresses row =
     (let fromAddress = falsy_to_None (Some (et_from_address row)); toAddress = falsy_to_None (et_to_address row)
      in \<lparr>ev_resourceId = resourceId, ev_transactionHash = et_hash row, ev_logIndex = 0,
          ev_fromAddress = fromAddress, ev_toAddress = toAddress,
          ev_amount = (case et_value row of None \<Rightarrow> Fin 0 | Some v \<Rightarrow> v),
          ev_blockTimestamp = (case et_metadata row of Some (Some t) \<Rightarrow> Some (jint t) | _ \<Rightarrow> None),
          ev_isStaking = (is_staking_address stakingAddresses fromAddress \<or> is_staking_address stakingAddresses toAddress)\<rparr>)"

fun dedupe_rows :: "string list \<Rightarrow> EvmAssetTransferRow list \<Rightarrow> EvmAssetTransferRow list" where
  "dedupe_rows seen [] = []"
| "dedupe_rows seen (row # rows) =
     (if et_unique_id row \<in> set seen then dedupe_rows seen rows
      else row # dedupe_rows (et_unique_id row # seen) rows)"

definition normalizeEvmTransfers :: "EvmAssetTransferRow list \<Rightarrow> string \<Rightarrow> string list \<Rightarrow> OrderedTransferEvent list" where
  "normalizeEvmTransfers rows resourceId stakingAddresses =
     map (evm_event resourceId stakingAddresses) (dedupe_rows [] rows)"

text \<open>
  \<^verbatim>\<open>Number\<close> on a quantity, which is the text of an integer in a \<^verbatim>\<open>numeric\<close> column: decimal digits, with a minus
  sign for a negative one; other text is taken as \<^const>\<open>NaN\<close>.
\<close>

definition decimal_value :: "string \<Rightarrow> nat" where
  "decimal_value ds = foldl (\<lambda>n c. 10 * n + (of_char c - 48)) 0 ds"

definition number_of_quantity :: "string \<Rightarrow> jsnum" where
  "number_of_quantity s =
     (let ds = (if take 1 s = ''-'' then drop 1 s else s); n = to_double (of_nat (decimal_value ds))
      in if ds = [] \<or> list_ex (\<lambda>c. of_char c < (48 :: nat) \<or> (57 :: nat) < of_char c) ds then NaN
         else if take 1 s = ''-'' then jneg n else n)"

text \<open>\<^verbatim>\<open>addressFlows\<close>: insertion-ordered sums per tracked address, inputs subtracted and outputs added.\<close>

definition add_flow :: "(jsnum \<Rightarrow> jsnum \<Rightarrow> jsnum) \<Rightarrow> string \<Rightarrow> jsnum \<Rightarrow> (string \<times> jsnum) list \<Rightarrow> (string \<times> jsnum) list" where
  "add_flow f address qty flows =
     AList.update address (f (case map_of flows address of None \<Rightarrow> Fin 0 | Some x \<Rightarrow> x) qty) flows"

definition utxo_flows ::
  "(jsnum \<Rightarrow> jsnum \<Rightarrow> jsnum) \<Rightarrow> string list \<Rightarrow> string \<Rightarrow> jsnum \<Rightarrow> (string \<times> Amount list) list
     \<Rightarrow> (string \<times> jsnum) list \<Rightarrow> (string \<times> jsnum) list" where
  "utxo_flows f trackedAddresses assetUnit unitDivisor utxos flows =
     fold (\<lambda>(address, amounts).
       if address \<notin> set trackedAddresses then id
       else fold (\<lambda>(unit, quantity). if unit \<noteq> assetUnit then id else add_flow f address (jdiv (number_of_quantity quantity) unitDivisor)) amounts)
     utxos flows"

definition address_flows ::
  "string list \<Rightarrow> string \<Rightarrow> jsnum \<Rightarrow> CardanoRawTransactionUtxoData \<Rightarrow> (string \<times> jsnum) list" where
  "address_flows trackedAddresses assetUnit unitDivisor tx =
     utxo_flows jadd trackedAddresses assetUnit unitDivisor (map (\<lambda>o1. (cout_address o1, cout_amounts o1)) (rt_outputs tx))
       (utxo_flows jsub trackedAddresses assetUnit unitDivisor (map (\<lambda>i. (cin_address i, cin_amounts i)) (rt_inputs tx)) [])"

text \<open>One event per address with a non-zero net flow, numbered in order.\<close>

fun flow_events :: "string \<Rightarrow> CardanoRawTransactionUtxoData \<Rightarrow> nat \<Rightarrow> (string \<times> jsnum) list \<Rightarrow> OrderedTransferEvent list" where
  "flow_events resourceId tx logIndex [] = []"
| "flow_events resourceId tx logIndex ((address, netFlow) # flows) =
     (if jeq netFlow (Fin 0) then flow_events resourceId tx logIndex flows
      else
        \<lparr>ev_resourceId = resourceId, ev_transactionHash = rt_tx_hash tx, ev_logIndex = logIndex,
         ev_fromAddress = (if jless (Fin 0) netFlow then None else Some address),
         ev_toAddress = (if jless (Fin 0) netFlow then Some address else None),
         ev_amount = (if jless (Fin 0) netFlow then netFlow else jabs netFlow),
         ev_blockTimestamp = Some (jint (rt_block_time tx * 1000)), ev_isStaking = False\<rparr>
        # flow_events resourceId tx (logIndex + 1) flows)"

definition normalizeCardanoTransactions ::
  "CardanoRawTransactionUtxoData list \<Rightarrow> string \<Rightarrow> string \<Rightarrow> string list \<Rightarrow> nat \<Rightarrow> OrderedTransferEvent list" where
  "normalizeCardanoTransactions txs resourceId assetUnit trackedAddresses assetDecimals =
     concat (map (\<lambda>tx. flow_events resourceId tx 0
       (address_flows trackedAddresses assetUnit (to_double (10 ^ assetDecimals)) tx)) txs)"

section \<open>Transfer pages\<close>

record TransferPage =
  tp_items :: "OrderedTransferEvent list"
  tp_hasMore :: bool

definition TRANSFERS_PAGE_LIMIT :: nat where
  "TRANSFERS_PAGE_LIMIT = 500"

text \<open>What a run has at hand: text collation, database, staking addresses and the end of the date range.\<close>

record TokenEnv =
  te_tle :: "string \<Rightarrow> string \<Rightarrow> bool"
  te_db :: OnchainDb
  te_staking :: "string list"
  te_toTimestampUnix :: int

definition loadEvmTransferPage ::
  "TokenEnv \<Rightarrow> string \<Rightarrow> string \<Rightarrow> string \<Rightarrow> string list \<Rightarrow> nat \<Rightarrow> nat \<Rightarrow> TransferPage" where
  "loadEvmTransferPage env chain assetIdentifier resourceId walletAddresses page limit =
     (if walletAddresses = [] then \<lparr>tp_items = [], tp_hasMore = False\<rparr>
      else
        (let rows = findTransfersByAddresses (te_tle env) (od_evm (te_db env))
               \<lparr>q_chain = chain, q_assetIdentifier = assetIdentifier, q_addresses = walletAddresses, q_page = page, q_limit = limit,
                q_fromTimestampUnix = None, q_toTimestampUnix = Some (te_toTimestampUnix env)\<rparr>
         in \<lparr>tp_items = normalizeEvmTransfers rows resourceId (te_staking env), tp_hasMore = (length rows = limit)\<rparr>))"

definition loadCardanoTransferPage ::
  "TokenEnv \<Rightarrow> string \<Rightarrow> nat option \<Rightarrow> string \<Rightarrow> string list \<Rightarrow> nat \<Rightarrow> nat \<Rightarrow> TransferPage" where
  "loadCardanoTransferPage env assetIdentifier assetDecimals resourceId walletAddresses page limit =
     (if walletAddresses = [] then \<lparr>tp_items = [], tp_hasMore = False\<rparr>
      else
        (let txs = findTransactionsByAddresses (te_tle env) (od_cardano (te_db env))
               \<lparr>cq_assetIdentifier = assetIdentifier, cq_addresses = walletAddresses, cq_page = page, cq_limit = limit,
                cq_fromTimestampUnix = None, cq_toTimestampUnix = Some (te_toTimestampUnix env)\<rparr>
         in \<lparr>tp_items = normalizeCardanoTransactions txs resourceId assetIdentifier walletAddresses
                          (case assetDecimals of None \<Rightarrow> 0 | Some d \<Rightarrow> d),
             tp_hasMore = (length txs = limit)\<rparr>))"

definition loadTransferPage :: "TokenEnv \<Rightarrow> ResolvedResource \<Rightarrow> string list \<Rightarrow> nat \<Rightarrow> string + TransferPage" where
  "loadTransferPage env resource walletAddresses pageNumber =
     (if rs_chain resource = ''ethereum''
      then Inr (loadEvmTransferPage env (rs_chain resource) (rs_tokenIdentifier resource) (rs_resourceId resource)
             walletAddresses pageNumber TRANSFERS_PAGE_LIMIT)
      else if rs_chain resource = ''cardano''
      then Inr (loadCardanoTransferPage env (rs_tokenIdentifier resource) (rs_tokenDecimals resource) (rs_resourceId resource)
             walletAddresses pageNumber TRANSFERS_PAGE_LIMIT)
      else Inl (''Unsupported chain: '' @ rs_chain resource))"

section \<open>The page loop\<close>

record TokenRun =
  tr_lots :: WalletLotsState
  tr_stats :: ReplayStats
  tr_transferCount :: nat

definition add_stats :: "ReplayStats \<Rightarrow> ReplayStats \<Rightarrow> ReplayStats" where
  "add_stats a b =
     \<lparr>rs_processed = rs_processed a + rs_processed b, rs_skippedZeroAmount = rs_skippedZeroAmount a + rs_skippedZeroAmount b,
      rs_skippedSelfTransfers = rs_skippedSelfTransfers a + rs_skippedSelfTransfers b,
      rs_skippedStaking = rs_skippedStaking a + rs_skippedStaking b\<rparr>"

definition replay_page :: "string list \<Rightarrow> OrderedTransferEvent list \<Rightarrow> TokenRun \<Rightarrow> TokenRun" where
  "replay_page targetWalletSet items run =
     (case replayTransfers (tr_lots run) items targetWalletSet of
        (lots, stats) \<Rightarrow> \<lparr>tr_lots = lots, tr_stats = add_stats (tr_stats run) stats,
          tr_transferCount = tr_transferCount run + length items\<rparr>)"

text \<open>\<^verbatim>\<open>while (true)\<close> over the pages; \<^const>\<open>None\<close> when the fuel does not reach the end.\<close>

fun page_loop :: "nat \<Rightarrow> (nat \<Rightarrow> string + TransferPage) \<Rightarrow> string list \<Rightarrow> nat \<Rightarrow> TokenRun \<Rightarrow> (string + TokenRun) option" where
  "page_loop 0 load targetWalletSet pageNumber run = None"
| "page_loop (Suc fuel) load targetWalletSet pageNumber run =
     (case load pageNumber of
        Inl e \<Rightarrow> Some (Inl e)
      | Inr page \<Rightarrow>
          (let run' = replay_page targetWalletSet (tp_items page) run
           in if tp_items page = [] \<and> tp_hasMore page then Some (Inr run')
              else if \<not> tp_hasMore page then Some (Inr run')
              else page_loop fuel load targetWalletSet (pageNumber + 1) run'))"

text \<open>The loop over the resources: a token that was processed already is skipped.\<close>

fun process_resources ::
  "nat \<Rightarrow> TokenEnv \<Rightarrow> DidInputMap \<Rightarrow> string list \<Rightarrow> string list \<Rightarrow> ResolvedResource list \<Rightarrow> TokenRun \<Rightarrow> (string + TokenRun) option" where
  "process_resources fuel env m targetWalletSet processedTokens [] run = Some (Inr run)"
| "process_resources fuel env m targetWalletSet processedTokens (resource # resources) run =
     (if token_dedupe_key resource \<in> set processedTokens
      then process_resources fuel env m targetWalletSet processedTokens resources run
      else
        (case page_loop fuel (loadTransferPage env resource (getWalletsForChain m (rs_chain resource))) targetWalletSet 1 run of
           None \<Rightarrow> None
         | Some (Inl e) \<Rightarrow> Some (Inl e)
         | Some (Inr run') \<Rightarrow>
             process_resources fuel env m targetWalletSet (set_add (token_dedupe_key resource) processedTokens) resources run'))"

section \<open>Aggregation per DID\<close>

definition add_wallet_score :: "WalletScoreDetail \<Rightarrow> string \<Rightarrow> DidScoreDetail list \<Rightarrow> DidScoreDetail list" where
  "add_wallet_score walletScore did rows =
     map (\<lambda>row. if dd_did row = did
            then row\<lparr>dd_token_value := roundScore (jadd (dd_token_value row) (wd_token_value walletScore)),
                     dd_wallets := dd_wallets row @ [walletScore]\<rparr>
            else row) rows"

definition aggregateWalletScoresByDid ::
  "(string \<Rightarrow> string \<Rightarrow> bool) \<Rightarrow> string list \<Rightarrow> WalletScoreDetail list \<Rightarrow> (string \<times> string list) list \<Rightarrow> DidScoreDetail list" where
  "aggregateWalletScoresByDid lc dids walletScores walletDidsIndex =
     (let start = map (\<lambda>did. \<lparr>dd_did = did, dd_token_value = Fin 0, dd_wallets = []\<rparr>) (js_dedup dids);
          rows = fold (\<lambda>ws. fold (add_wallet_score ws) (index_get walletDidsIndex (wd_wallet_address ws))) walletScores start
      in sort_by (\<lambda>a b. lc (dd_did a) (dd_did b))
           (map (\<lambda>row. row\<lparr>dd_wallets := sort_by (\<lambda>a b. lc (wd_wallet_address a) (wd_wallet_address b)) (dd_wallets row)\<rparr>) rows))"

section \<open>The run\<close>

record TokenValueOverTimeParams =
  tv_maturationThresholdDays :: jsnum
  tv_selectedResources :: "SelectedResourceInput list"
  tv_didsKey :: string
  tv_toTimestampUnix :: int

definition selected_resource :: "json \<Rightarrow> SelectedResourceInput" where
  "selected_resource item = \<lparr>sel_chain = jstr (jfield ''chain'' item), sel_resourceKey = jstr (jfield ''resource_key'' item)\<rparr>"

text \<open>\<open>createdMs\<close> is the snapshot's creation time in milliseconds.\<close>

definition extractInputs :: "AlgorithmPresetInput list \<Rightarrow> int \<Rightarrow> string + TokenValueOverTimeParams" where
  "extractInputs inputs createdMs =
     (case input_value ''selected_resources'' inputs of
        JArr items \<Rightarrow>
          (case extractDidsKey inputs of
             Inl e \<Rightarrow> Inl e
           | Inr didsKey \<Rightarrow> Inr
               \<lparr>tv_maturationThresholdDays = (case input_value ''maturation_threshold_days'' inputs of JNum n \<Rightarrow> n | _ \<Rightarrow> NaN),
                tv_selectedResources = map selected_resource items, tv_didsKey = didsKey,
                tv_toTimestampUnix = createdMs div 1000\<rparr>)
      | _ \<Rightarrow> Inl ''TypeError: selected_resources.map'')"

record TokenResult =
  tres_didScores :: "DidScoreDetail list"
  tres_walletScores :: "WalletScoreDetail list"
  tres_run :: TokenRun

text \<open>
  \<open>didFile key\<close> is the parsed DID file of that key.  The result is \<^const>\<open>None\<close> only when the fuel does not
  reach the end of the pages of some token.
\<close>

definition computeTokenValueOverTime ::
  "nat \<Rightarrow> (string \<Rightarrow> string \<Rightarrow> bool) \<Rightarrow> (string \<Rightarrow> string \<Rightarrow> bool) \<Rightarrow> OnchainDb \<Rightarrow> ResourceCatalogEntry list \<Rightarrow> (string \<Rightarrow> json)
     \<Rightarrow> AlgorithmPresetInput list \<Rightarrow> int \<Rightarrow> (string + TokenResult) option" where
  "computeTokenValueOverTime fuel tle lc db catalog didFile inputs createdMs =
     (case extractInputs inputs createdMs of
        Inl e \<Rightarrow> Some (Inl e)
      | Inr params \<Rightarrow>
          (let resolved = resolveSelectedResources (tv_selectedResources params) catalog;
               m = parseDidInputRecord (didFile (tv_didsKey params));
               targetWallets = getWalletsForSelectedResources m (map sel_chain (tv_selectedResources params));
               env = \<lparr>te_tle = tle, te_db = db, te_staking = getStakingContractAddresses catalog,
                      te_toTimestampUnix = tv_toTimestampUnix params\<rparr>;
               start = \<lparr>tr_lots = initializeWalletLots targetWallets, tr_stats = no_stats, tr_transferCount = 0\<rparr>
           in case process_resources fuel env m targetWallets [] resolved start of
                None \<Rightarrow> None
              | Some (Inl e) \<Rightarrow> Some (Inl e)
              | Some (Inr run) \<Rightarrow>
                  (let walletScores = scoreWalletLots lc (tr_lots run) (map rs_resourceId resolved) (jint createdMs) (tv_maturationThresholdDays params)
                   in Some (Inr \<lparr>tres_didScores = aggregateWalletScoresByDid lc (getDids lc m) walletScores (buildWalletDidsIndex lc m),
                        tres_walletScores = walletScores, tres_run = run\<rparr>))))"

section \<open>The pages replay as one stream\<close>

lemma add_stats_no [simp]: "add_stats a no_stats = a" "add_stats no_stats a = a"
  by (simp_all add: add_stats_def no_stats_def)

lemma add_stats_assoc: "add_stats (add_stats a b) c = add_stats a (add_stats b c)"
  by (simp add: add_stats_def)

lemma applyTransfer_offset:
  "applyTransfer ws t (s, add_stats a b) = (fst (applyTransfer ws t (s, b)), add_stats a (snd (applyTransfer ws t (s, b))))"
  by (simp add: applyTransfer_def add_stats_def Let_def)

lemma replay_offset:
  "fold (applyTransfer ws) ts (s, add_stats a b)
     = (fst (fold (applyTransfer ws) ts (s, b)), add_stats a (snd (fold (applyTransfer ws) ts (s, b))))"
proof (induction ts arbitrary: s b)
  case (Cons t ts)
  obtain s' b' where t: "applyTransfer ws t (s, b) = (s', b')" by fastforce
  then have "applyTransfer ws t (s, add_stats a b) = (s', add_stats a b')" using applyTransfer_offset[of ws t s a b] by simp
  then show ?case using Cons[of s' b'] t by simp
qed simp

lemma replay_page_state:
  "replay_page ws ts run =
     \<lparr>tr_lots = fst (fold (applyTransfer ws) ts (tr_lots run, tr_stats run)),
      tr_stats = snd (fold (applyTransfer ws) ts (tr_lots run, tr_stats run)), tr_transferCount = tr_transferCount run + length ts\<rparr>"
  using replay_offset[of ws ts "tr_lots run" "tr_stats run" no_stats]
  by (simp add: replay_page_def replayTransfers_def split: prod.split)

lemma replay_page_append: "replay_page ws (xs @ ys) run = replay_page ws ys (replay_page ws xs run)"
  by (simp add: replay_page_state)

lemma page_loop_pages:
  assumes load: "\<And>p. 1 \<le> p \<Longrightarrow> load p = Inr \<lparr>tp_items = concat (map events (page_of L p rows)), tp_hasMore = (length (page_of L p rows) = L)\<rparr>"
    and full: "\<And>p. 1 \<le> p \<Longrightarrow> length (page_of L p rows) = L \<Longrightarrow> concat (map events (page_of L p rows)) \<noteq> []"
    and L: "0 < L"
  shows "length rows < (n + fuel) * L \<Longrightarrow> n * L \<le> length rows \<Longrightarrow>
    page_loop fuel load ws (Suc n) run = Some (Inr (replay_page ws (concat (map events (drop (n * L) rows))) run))"
proof (induction fuel arbitrary: n run)
  case (Suc fuel)
  let ?page = "page_of L (Suc n) rows"
  have page: "?page = take L (drop (n * L) rows)" by (simp add: page_of_def)
  show ?case
  proof (cases "length ?page = L")
    case True
    have le: "Suc n * L \<le> length rows" using True page L by (cases "n * L \<le> length rows") (auto simp: min_def split: if_splits)
    have "drop (n * L) rows = ?page @ drop (Suc n * L) rows"
      using append_take_drop_id[of L "drop (n * L) rows"] page by (simp add: add.commute)
    then have "replay_page ws (concat (map events (drop (n * L) rows))) run
        = replay_page ws (concat (map events (drop (Suc n * L) rows))) (replay_page ws (concat (map events ?page)) run)"
      by (simp add: replay_page_append)
    moreover have "length rows < (Suc n + fuel) * L" using Suc.prems(1) by simp
    ultimately have "page_loop fuel load ws (Suc (Suc n)) (replay_page ws (concat (map events ?page)) run)
        = Some (Inr (replay_page ws (concat (map events (drop (n * L) rows))) run))"
      using Suc.IH[of "Suc n"] le by simp
    moreover have "concat (map events ?page) \<noteq> []" by (rule full[OF _ True]) simp
    ultimately show ?thesis using True load[of "Suc n"] by (simp add: Let_def del: concat_eq_Nil_conv)
  next
    case False
    have "?page = drop (n * L) rows" using False page by (simp add: min_def split: if_splits)
    then show ?thesis using False load[of "Suc n"] by (simp add: Let_def)
  qed
qed simp

subsection \<open>Ethereum\<close>

lemma dedupe_rows_distinct:
  "distinct (map et_unique_id rows) \<Longrightarrow> set seen \<inter> et_unique_id ` set rows = {} \<Longrightarrow> dedupe_rows seen rows = rows"
  by (induction rows arbitrary: seen) auto

lemma normalizeEvm_distinct:
  "distinct (map et_unique_id rows) \<Longrightarrow>
   normalizeEvmTransfers rows rid staking = concat (map (\<lambda>r. [evm_event rid staking r]) rows)"
  by (simp add: normalizeEvmTransfers_def dedupe_rows_distinct)

text \<open>All rows a token's query matches, in replay order.\<close>

definition evm_stream :: "TokenEnv \<Rightarrow> ResolvedResource \<Rightarrow> string list \<Rightarrow> EvmAssetTransferRow list" where
  "evm_stream env resource wallets =
     sort_by (evm_order (te_tle env))
       (filter (evm_matches \<lparr>q_chain = rs_chain resource, q_assetIdentifier = rs_tokenIdentifier resource, q_addresses = wallets,
                  q_page = 1, q_limit = TRANSFERS_PAGE_LIMIT, q_fromTimestampUnix = None,
                  q_toTimestampUnix = Some (te_toTimestampUnix env)\<rparr>) (evm_transfers (od_evm (te_db env))))"

lemma evm_stream_ids:
  assumes "distinct (map evm_key (evm_transfers (od_evm (te_db env))))"
  shows "distinct (map et_unique_id (evm_stream env resource wallets))"
proof -
  let ?rows = "filter (evm_matches \<lparr>q_chain = rs_chain resource, q_assetIdentifier = rs_tokenIdentifier resource, q_addresses = wallets,
                  q_page = 1, q_limit = TRANSFERS_PAGE_LIMIT, q_fromTimestampUnix = None,
                  q_toTimestampUnix = Some (te_toTimestampUnix env)\<rparr>) (evm_transfers (od_evm (te_db env)))"
  have "distinct (map evm_key ?rows)" using assms by (rule distinct_map_filter)
  then have "distinct ?rows" "inj_on evm_key (set ?rows)" by (simp_all add: distinct_map)
  moreover have "inj_on et_unique_id (set ?rows)"
  proof (rule inj_onI)
    fix x y assume a: "x \<in> set ?rows" "y \<in> set ?rows" "et_unique_id x = et_unique_id y"
    then have "evm_key x = evm_key y" by (simp add: evm_key_def evm_matches_def)
    then show "x = y" using calculation(2) a(1,2) by (metis inj_onD)
  qed
  ultimately have "distinct (map et_unique_id ?rows)" by (simp add: distinct_map)
  then show ?thesis by (simp only: evm_stream_def distinct_map_sort_by)
qed

lemma evm_page:
  assumes "distinct (map evm_key (evm_transfers (od_evm (te_db env))))" "rs_chain resource = ''ethereum''" "wallets \<noteq> []"
  shows "loadTransferPage env resource wallets p
    = Inr \<lparr>tp_items = concat (map (\<lambda>r. [evm_event (rs_resourceId resource) (te_staking env) r])
                          (page_of TRANSFERS_PAGE_LIMIT p (evm_stream env resource wallets))),
           tp_hasMore = (length (page_of TRANSFERS_PAGE_LIMIT p (evm_stream env resource wallets)) = TRANSFERS_PAGE_LIMIT)\<rparr>"
proof -
  let ?q = "\<lparr>q_chain = rs_chain resource, q_assetIdentifier = rs_tokenIdentifier resource, q_addresses = wallets, q_page = p,
      q_limit = TRANSFERS_PAGE_LIMIT, q_fromTimestampUnix = None, q_toTimestampUnix = Some (te_toTimestampUnix env)\<rparr>"
  have "evm_matches ?q = evm_matches (?q\<lparr>q_page := 1\<rparr>)" by (rule ext) (simp add: evm_matches_def)
  then have f: "findTransfersByAddresses (te_tle env) (od_evm (te_db env)) ?q
      = page_of TRANSFERS_PAGE_LIMIT p (evm_stream env resource wallets)"
    using assms(3) by (simp add: findTransfersByAddresses_def evm_stream_def)
  have "distinct (map et_unique_id (page_of TRANSFERS_PAGE_LIMIT p (evm_stream env resource wallets)))"
    using evm_stream_ids[OF assms(1)] by (simp add: page_of_def distinct_take distinct_drop flip: take_map drop_map)
  then show ?thesis using assms(2,3) f
    by (simp add: loadTransferPage_def loadEvmTransferPage_def Let_def normalizeEvm_distinct)
qed

lemma evm_stream_no_wallets [simp]: "evm_stream env resource [] = []"
  by (simp add: evm_stream_def evm_matches_def sort_by_def)

lemma length_evm_stream: "length (evm_stream env resource wallets) \<le> length (evm_transfers (od_evm (te_db env)))"
  by (simp add: evm_stream_def)

lemma page_limit_pos: "0 < TRANSFERS_PAGE_LIMIT"
  by (simp add: TRANSFERS_PAGE_LIMIT_def)

lemma evm_loop_stream:
  assumes "distinct (map evm_key (evm_transfers (od_evm (te_db env))))" "rs_chain resource = ''ethereum''"
    "length (evm_transfers (od_evm (te_db env))) < fuel * TRANSFERS_PAGE_LIMIT"
  shows "page_loop fuel (loadTransferPage env resource wallets) targets 1 run
    = Some (Inr (replay_page targets (map (evm_event (rs_resourceId resource) (te_staking env)) (evm_stream env resource wallets)) run))"
proof (cases "wallets = []")
  case True
  obtain f where "fuel = Suc f" using assms(3) by (cases fuel) auto
  then show ?thesis using True assms(2) by (simp add: loadTransferPage_def loadEvmTransferPage_def Let_def)
next
  case False
  let ?e = "\<lambda>r. [evm_event (rs_resourceId resource) (te_staking env) r]"
  have "concat (map ?e (page_of TRANSFERS_PAGE_LIMIT p (evm_stream env resource wallets))) \<noteq> []"
    if "length (page_of TRANSFERS_PAGE_LIMIT p (evm_stream env resource wallets)) = TRANSFERS_PAGE_LIMIT" for p
    using that page_limit_pos by auto
  moreover have "length (evm_stream env resource wallets) < (0 + fuel) * TRANSFERS_PAGE_LIMIT"
    using assms(3) length_evm_stream[of env resource wallets] by simp
  ultimately have "page_loop fuel (loadTransferPage env resource wallets) targets (Suc 0) run
      = Some (Inr (replay_page targets (concat (map ?e (drop (0 * TRANSFERS_PAGE_LIMIT) (evm_stream env resource wallets)))) run))"
    using evm_page[OF assms(1,2) False] page_limit_pos
    by (intro page_loop_pages[where L = TRANSFERS_PAGE_LIMIT]) simp_all
  then show ?thesis by simp
qed

text \<open>
  C27: For an Ethereum token, loading and replaying the transfers page by page is replaying, once and in one go,
  every stored transfer of the token that touches a wallet of the cohort up to the snapshot time, in
  the order of the read repository; one page more than the table holds is fuel enough.
\<close>

theorem evm_pages_replay_one_stream:
  assumes "distinct (map evm_key (evm_transfers (od_evm (te_db env))))" "rs_chain resource = ''ethereum''"
    "length (evm_transfers (od_evm (te_db env))) < fuel * 500"
  shows "page_loop fuel (loadTransferPage env resource wallets) targets 1 run
    = Some (Inr (replay_page targets (map (evm_event (rs_resourceId resource) (te_staking env)) (evm_stream env resource wallets)) run))"
  using evm_loop_stream[OF assms(1,2)] assms(3) by (simp add: TRANSFERS_PAGE_LIMIT_def)

definition sample_env :: TokenEnv where
  "sample_env = \<lparr>te_tle = (\<lambda>_ _. True),
     te_db = \<lparr>od_evm = \<lparr>evm_transfers = [toEvmAssetTransferRow sample_target (sample_raw ''0x1'' ''u'')], evm_sync_state = []\<rparr>,
              od_cardano = empty_cardano_db\<rparr>,
     te_staking = [], te_toTimestampUnix = 10\<rparr>"

definition sample_resource :: ResolvedResource where
  "sample_resource = \<lparr>rs_chain = ''ethereum'', rs_resourceKey = ''fet'', rs_kind = ''token'', rs_identifier = ''0xa'',
     rs_tokenIdentifier = ''0xa'', rs_tokenDecimals = None, rs_resourceId = ''ethereum:0xa''\<rparr>"

theorem evm_pages_replay_one_stream_witness:
  "\<forall>run. page_loop 1 (loadTransferPage sample_env sample_resource [''b'']) [''b''] 1 run
    = Some (Inr (replay_page [''b''] (map (evm_event ''ethereum:0xa'' []) (evm_stream sample_env sample_resource [''b''])) run))"
  using evm_pages_replay_one_stream[of sample_env sample_resource 1 "[''b'']" "[''b'']"]
  by (simp add: sample_env_def sample_resource_def)

section \<open>An empty page ends the loop\<close>

text \<open>
  A page without events ends the loop even when the query reports more rows: whatever the later pages
  hold is not replayed.  For Cardano that happens when no tracked address has a net flow in any of the
  500 transactions of a page.
\<close>

lemma empty_page_ends_loop:
  assumes "load pageNumber = Inr \<lparr>tp_items = [], tp_hasMore = hasMore\<rparr>"
  shows "page_loop (Suc fuel) load targets pageNumber run = Some (Inr run)"
  using assms by (simp add: Let_def replay_page_state)

theorem empty_page_ends_loop_witness:
  "page_loop 2 (\<lambda>p. Inr (if p = 1 then \<lparr>tp_items = [], tp_hasMore = True\<rparr>
       else \<lparr>tp_items = [sample_transfer ''r'' None (Some ''w'') 5], tp_hasMore = False\<rparr>)) [''w''] 1
     \<lparr>tr_lots = initializeWalletLots [''w''], tr_stats = no_stats, tr_transferCount = 0\<rparr>
   = Some (Inr \<lparr>tr_lots = initializeWalletLots [''w''], tr_stats = no_stats, tr_transferCount = 0\<rparr>)"
  using empty_page_ends_loop[of "\<lambda>p. Inr (if p = 1 then \<lparr>tp_items = [], tp_hasMore = True\<rparr>
       else \<lparr>tp_items = [sample_transfer ''r'' None (Some ''w'') 5], tp_hasMore = False\<rparr>)" 1 True 1 "[''w'']"]
  by (simp add: numeral_2_eq_2)

section \<open>Termination\<close>

lemma page_loop_ends:
  assumes "\<And>p page. 1 \<le> p \<Longrightarrow> rows < p * L \<Longrightarrow> load p = Inr page \<Longrightarrow> \<not> tp_hasMore page"
  shows "1 \<le> p \<Longrightarrow> rows < (p + fuel) * L \<Longrightarrow> page_loop (Suc fuel) load ws p run \<noteq> None"
proof (induction fuel arbitrary: p run)
  case 0
  then show ?case using assms[of p] by (auto simp: Let_def split: sum.split)
next
  case (Suc fuel)
  have ih: "page_loop (Suc fuel) load ws (p + 1) run' \<noteq> None" for run' using Suc by simp
  show ?case
  proof (cases "load p")
    case (Inr page)
    then show ?thesis using ih by (subst page_loop.simps(2)) (simp add: Let_def del: page_loop.simps)
  qed simp
qed

lemma loadTransferPage_last:
  assumes "length (evm_transfers (od_evm (te_db env))) \<le> rows" "length (cd_asset_transactions (od_cardano (te_db env))) \<le> rows"
    "1 \<le> p" "rows < p * TRANSFERS_PAGE_LIMIT" "loadTransferPage env resource wallets p = Inr page"
  shows "\<not> tp_hasMore page"
proof -
  have short: "length (page_of TRANSFERS_PAGE_LIMIT p xs) \<noteq> TRANSFERS_PAGE_LIMIT" if "length xs \<le> rows" for xs :: "'x list"
    using page_of_short[of xs p TRANSFERS_PAGE_LIMIT] assms(3,4) that by simp
  have d: "length (js_dedup xs) \<le> length xs" for xs :: "'y list"
    using card_length[of xs] by (metis distinct_card distinct_js_dedup set_js_dedup)
  have "length (matching_txs tle db q) \<le> length (cd_asset_transactions db)" for tle db q
    unfolding matching_txs_def length_sort_by by (rule order_trans[OF d]) simp
  then have c: "length (matching_txs tle (od_cardano (te_db env)) q) \<le> rows" for tle q using assms(2) by (meson order_trans)
  have e: "length (sort_by le (filter P (evm_transfers (od_evm (te_db env))))) \<le> rows" for le P
    using assms(1) length_filter_le[of P "evm_transfers (od_evm (te_db env))"] unfolding length_sort_by by linarith
  show ?thesis using assms(5) short[OF c] short[OF e]
    by (auto simp: loadTransferPage_def loadEvmTransferPage_def loadCardanoTransferPage_def findTransfersByAddresses_def
        findTransactionsByAddresses_def Let_def split: if_splits)
qed

lemma process_resources_ends:
  assumes "length (evm_transfers (od_evm (te_db env))) < fuel * TRANSFERS_PAGE_LIMIT"
    "length (cd_asset_transactions (od_cardano (te_db env))) < fuel * TRANSFERS_PAGE_LIMIT"
  shows "process_resources fuel env m targets processed resources run \<noteq> None"
proof (induction resources arbitrary: processed run)
  case (Cons resource resources)
  let ?rows = "max (length (evm_transfers (od_evm (te_db env)))) (length (cd_asset_transactions (od_cardano (te_db env))))"
  obtain f where f: "fuel = Suc f" using assms(1) by (cases fuel) auto
  have "page_loop (Suc f) (loadTransferPage env resource wallets) targets 1 run \<noteq> None" for wallets
  proof (rule page_loop_ends[where rows = ?rows and L = TRANSFERS_PAGE_LIMIT])
    show "\<not> tp_hasMore page" if "1 \<le> p" "?rows < p * TRANSFERS_PAGE_LIMIT" "loadTransferPage env resource wallets p = Inr page" for p page
      by (rule loadTransferPage_last[OF _ _ that]) simp_all
  qed (use assms f in simp_all)
  then obtain r where r: "page_loop fuel (loadTransferPage env resource (getWalletsForChain m (rs_chain resource))) targets 1 run = Some r"
    using f by blast
  show ?case using Cons by (cases r) (simp_all add: r[unfolded One_nat_def])
qed simp

text \<open>
  The run ends.  With as many page requests per token as the larger transfer table has pages, and one
  more, \<^verbatim>\<open>computeTokenValueOverTime\<close> returns a result or an error on every input.
\<close>

lemma computeTokenValueOverTime_ends:
  assumes "length (evm_transfers (od_evm db)) < fuel * 500" "length (cd_asset_transactions (od_cardano db)) < fuel * 500"
  shows "computeTokenValueOverTime fuel tle lc db catalog didFile inputs createdMs \<noteq> None"
proof -
  have "process_resources fuel env m targets processed resources run \<noteq> None" if "te_db env = db" for env m targets processed resources run
    using process_resources_ends[of env fuel] assms that by (simp add: TRANSFERS_PAGE_LIMIT_def)
  note ends = this
  show ?thesis
  proof (cases "extractInputs inputs createdMs")
    case (Inr params)
    let ?m = "parseDidInputRecord (didFile (tv_didsKey params))"
    let ?ws = "getWalletsForSelectedResources ?m (map sel_chain (tv_selectedResources params))"
    obtain r where "process_resources fuel \<lparr>te_tle = tle, te_db = db, te_staking = getStakingContractAddresses catalog,
        te_toTimestampUnix = tv_toTimestampUnix params\<rparr> ?m ?ws [] (resolveSelectedResources (tv_selectedResources params) catalog)
        \<lparr>tr_lots = initializeWalletLots ?ws, tr_stats = no_stats, tr_transferCount = 0\<rparr> = Some r"
      using ends by (metis TokenEnv.select_convs(2) not_None_eq)
    then show ?thesis using Inr by (cases r) (simp_all add: computeTokenValueOverTime_def Let_def)
  qed (simp add: computeTokenValueOverTime_def)
qed

theorem computeTokenValueOverTime_ends_witness:
  "computeTokenValueOverTime 1 (\<lambda>_ _. True) (\<lambda>_ _. True) (te_db sample_env) [] (\<lambda>_. JNull)
     [(''selected_resources'', JArr []), (''dids'', JStr ''k'')] 0 \<noteq> None"
  using computeTokenValueOverTime_ends[of "te_db sample_env" 1] by (simp add: sample_env_def empty_cardano_db_def)

section \<open>Every DID and every wallet of the cohort is reported\<close>

definition score_row :: "WalletScoreDetail \<Rightarrow> string \<Rightarrow> DidScoreDetail \<Rightarrow> DidScoreDetail" where
  "score_row walletScore did row =
     (if dd_did row = did
      then row\<lparr>dd_token_value := roundScore (jadd (dd_token_value row) (wd_token_value walletScore)),
               dd_wallets := dd_wallets row @ [walletScore]\<rparr>
      else row)"

lemma add_scores_map: "fold (add_wallet_score ws) ds rows = map (fold (score_row ws) ds) rows"
  by (induction ds arbitrary: rows) (simp_all add: add_wallet_score_def score_row_def comp_def)

lemma add_all_scores_map:
  "fold (\<lambda>ws. fold (add_wallet_score ws) (ds ws)) wss rows = map (fold (\<lambda>ws. fold (score_row ws) (ds ws)) wss) rows"
  by (induction wss arbitrary: rows) (simp_all add: add_scores_map comp_def)

lemma score_rows:
  "dd_did (fold (score_row ws) ds row) = dd_did row"
  "set (dd_wallets (fold (score_row ws) ds row)) = set (dd_wallets row) \<union> (if dd_did row \<in> set ds then {ws} else {})"
  by (induction ds arbitrary: row) (auto simp: score_row_def)

lemma score_all_rows:
  "dd_did (fold (\<lambda>ws. fold (score_row ws) (ds ws)) wss row) = dd_did row
   \<and> set (dd_wallets (fold (\<lambda>ws. fold (score_row ws) (ds ws)) wss row))
     = set (dd_wallets row) \<union> {ws \<in> set wss. dd_did row \<in> set (ds ws)}"
  by (induction wss arbitrary: row) (auto simp: score_rows)

lemma aggregate_rows:
  "map dd_did (aggregateWalletScoresByDid lc dids wss idx) = sort_by lc (js_dedup dids)"
  "row \<in> set (aggregateWalletScoresByDid lc dids wss idx) \<Longrightarrow>
     set (dd_wallets row) = {ws \<in> set wss. dd_did row \<in> set (index_get idx (wd_wallet_address ws))}"
proof -
  let ?sorted = "\<lambda>row. row\<lparr>dd_wallets := sort_by (\<lambda>a b. lc (wd_wallet_address a) (wd_wallet_address b)) (dd_wallets row)\<rparr>"
  let ?scored = "\<lambda>did. fold (\<lambda>ws. fold (score_row ws) (index_get idx (wd_wallet_address ws))) wss \<lparr>dd_did = did, dd_token_value = Fin 0, dd_wallets = []\<rparr>"
  have agg: "aggregateWalletScoresByDid lc dids wss idx
      = sort_by (\<lambda>a b. lc (dd_did a) (dd_did b)) (map (\<lambda>did. ?sorted (?scored did)) (js_dedup dids))"
    by (simp add: aggregateWalletScoresByDid_def Let_def add_all_scores_map comp_def)
  have did: "dd_did (?scored did) = did" for did by (simp add: score_all_rows)
  show "map dd_did (aggregateWalletScoresByDid lc dids wss idx) = sort_by lc (js_dedup dids)"
    unfolding agg map_sort_by by (simp add: comp_def did)
  show "set (dd_wallets row) = {ws \<in> set wss. dd_did row \<in> set (index_get idx (wd_wallet_address ws))}"
    if "row \<in> set (aggregateWalletScoresByDid lc dids wss idx)"
    using that unfolding agg by (auto simp: did score_all_rows)
qed

lemma keys_replay_page [simp]: "map fst (tr_lots (replay_page ws items run)) = map fst (tr_lots run)"
  by (simp add: replay_page_state keys_replay)

lemma keys_page_loop: "page_loop fuel load ws p run = Some (Inr run') \<Longrightarrow> map fst (tr_lots run') = map fst (tr_lots run)"
  by (induction fuel load ws p run rule: page_loop.induct)
     (auto simp: Let_def split: sum.splits if_splits)

lemma keys_process_resources:
  "process_resources fuel env m ws processed resources run = Some (Inr run') \<Longrightarrow> map fst (tr_lots run') = map fst (tr_lots run)"
proof (induction resources arbitrary: processed run)
  case (Cons resource resources)
  then show ?case using keys_page_loop by (auto split: if_splits option.splits sum.splits)
qed simp

lemma wallets_scored: "map wd_wallet_address (scoreWalletLots lc lots ids now mat) = sort_by lc (map fst lots)"
  unfolding scoreWalletLots_def map_sort_by by (simp add: comp_def case_prod_beta Let_def)

text \<open>
  C24: A result reports every DID of the DID file exactly once, and under a DID exactly the wallets it lists
  among the wallets on the selected chains, whether or not they have transfers.
\<close>

theorem token_result_covers_cohort:
  assumes "computeTokenValueOverTime fuel tle lc db catalog didFile inputs createdMs = Some (Inr res)"
    "extractInputs inputs createdMs = Inr params" "m = parseDidInputRecord (didFile (tv_didsKey params))"
  shows "distinct (map dd_did (tres_didScores res)) \<and> dd_did ` set (tres_didScores res) = fst ` set m
    \<and> (\<forall>row \<in> set (tres_didScores res). wd_wallet_address ` set (dd_wallets row) =
         {a \<in> set (getWalletsForSelectedResources m (map sel_chain (tv_selectedResources params))).
            \<exists>ws. (dd_did row, ws) \<in> set m \<and> a \<in> dw_address ` set ws})"
proof -
  let ?targets = "getWalletsForSelectedResources m (map sel_chain (tv_selectedResources params))"
  obtain run where run: "map fst (tr_lots run) = js_dedup ?targets"
    and res: "res = \<lparr>tres_didScores = aggregateWalletScoresByDid lc (getDids lc m)
        (scoreWalletLots lc (tr_lots run) (map rs_resourceId (resolveSelectedResources (tv_selectedResources params) catalog))
           (jint createdMs) (tv_maturationThresholdDays params)) (buildWalletDidsIndex lc m),
      tres_walletScores = scoreWalletLots lc (tr_lots run) (map rs_resourceId (resolveSelectedResources (tv_selectedResources params) catalog))
           (jint createdMs) (tv_maturationThresholdDays params), tres_run = run\<rparr>"
    using assms by (auto simp: computeTokenValueOverTime_def Let_def initializeWalletLots_def comp_def
        dest!: keys_process_resources split: option.splits sum.splits)
  let ?wss = "tres_walletScores res"
  have addr: "wd_wallet_address ` set ?wss = set ?targets"
    using arg_cong[OF wallets_scored, of set] run by (simp add: res image_set flip: set_map)
  have d: "tres_didScores res = aggregateWalletScoresByDid lc (getDids lc m) ?wss (buildWalletDidsIndex lc m)" by (simp add: res)
  have 1: "map dd_did (tres_didScores res) = sort_by lc (js_dedup (getDids lc m))" unfolding d by (rule aggregate_rows)
  have 2: "wd_wallet_address ` set (dd_wallets row) = {a \<in> set ?targets. \<exists>ws. (dd_did row, ws) \<in> set m \<and> a \<in> dw_address ` set ws}"
    if "row \<in> set (tres_didScores res)" for row
    unfolding aggregate_rows(2)[OF that[unfolded d]] addr[symmetric]
    by (auto simp: index_get_build set_dids_with)
  have "dd_did ` set (tres_didScores res) = fst ` set m"
    using arg_cong[OF 1, of set] by (simp add: getDids_def)
  then show ?thesis using 1 2 by simp
qed

definition sample_inputs :: "AlgorithmPresetInput list" where
  "sample_inputs = [(''selected_resources'', JArr [JObj [(''chain'', JStr ''ethereum''), (''resource_key'', JStr ''fet'')]]),
     (''maturation_threshold_days'', JNum (jint 30)), (''dids'', JStr ''k'')]"

definition sample_did_file :: json where
  "sample_did_file = JObj [(''did:a'', JObj [(''userWallets'', JArr [JObj [(''address'', JStr ''0xAB''), (''chain'', JStr ''ethereum'')]])])]"

theorem token_result_covers_cohort_witness:
  "\<exists>res. computeTokenValueOverTime 1 (\<lambda>_ _. True) (\<lambda>_ _. True) (te_db sample_env) [] (\<lambda>_. sample_did_file) sample_inputs 0 = Some (Inr res)
    \<and> dd_did ` set (tres_didScores res) = {''did:a''}"
proof -
  obtain params where p: "extractInputs sample_inputs 0 = Inr params" "tv_didsKey params = ''k''"
    by (simp add: extractInputs_def sample_inputs_def input_value_def extractDidsKey_def)
  have r: "resolveSelectedResources sel [] = []" for sel
  proof -
    have "fold (\<lambda>sel. fold add_resource (filter (\<lambda>entry. re_chain entry = sel_chain sel \<and> re_key entry = sel_resourceKey sel) [])) sel p = p" for p
      by (induction sel arbitrary: p) simp_all
    then show ?thesis by (simp add: resolveSelectedResources_def)
  qed
  obtain res where res: "computeTokenValueOverTime 1 (\<lambda>_ _. True) (\<lambda>_ _. True) (te_db sample_env) [] (\<lambda>_. sample_did_file) sample_inputs 0 = Some (Inr res)"
    using p by (simp add: computeTokenValueOverTime_def Let_def r)
  have "fst ` set (parseDidInputRecord sample_did_file) = {''did:a''}" by code_simp
  then show ?thesis using token_result_covers_cohort[OF res p(1) refl] res by auto
qed

end
