(* ===== verification/Access_Store.thy ===== *)
theory Access_Store
  imports Prelude
begin

text \<open>
  The tables behind the access to the administration: the allowlist
  (\<^verbatim>\<open>admin-allowlist.repository.ts\<close>), the OAuth users (\<^verbatim>\<open>oauth-user.repository.ts\<close>) and their sessions
  (\<^verbatim>\<open>auth-session.repository.ts\<close>).  A nullable column and the optional property it is read into are one
  \<^verbatim>\<open>option\<close>, so the row mappers are the identity; the empty array of \<^verbatim>\<open>aud\<close> stands for its absence.
  Each repository method is one statement on the tables.
\<close>

section \<open>Rows\<close>

datatype AccessRole = owner | admin

definition OAuthProviderDeepId :: string where
  "OAuthProviderDeepId = ''deep-id''"

definition OAUTH_PROVIDERS :: "string list" where
  "OAUTH_PROVIDERS = [OAuthProviderDeepId]"

record AccessAllowlistRow =
  al_id :: string
  al_provider :: string
  al_email :: string
  al_role :: AccessRole
  al_invitedBy :: "string option"
  al_invitedAt :: int
  al_revokedAt :: "int option"
  al_revokedBy :: "string option"
  al_createdAt :: int
  al_updatedAt :: int

record OAuthUserRow =
  u_id :: string
  u_provider :: string
  u_sub :: string
  u_aud :: "string list"
  u_auth_time :: "jsnum option"
  u_email :: "string option"
  u_email_verified :: "bool option"
  u_iat :: "jsnum option"
  u_iss :: "string option"
  u_picture :: "string option"
  u_rat :: "jsnum option"
  u_username :: "string option"
  u_createdAt :: int
  u_updatedAt :: int

text \<open>
  An update of a user: a key that is not in the object is \<^verbatim>\<open>None\<close>, a key bound to \<^verbatim>\<open>undefined\<close> is
  \<^verbatim>\<open>Some None\<close>.
\<close>

record OAuthUserUpsertInput =
  up_aud :: "string list option option"
  up_auth_time :: "jsnum option option"
  up_email :: "string option option"
  up_email_verified :: "bool option option"
  up_iat :: "jsnum option option"
  up_iss :: "string option option"
  up_picture :: "string option option"
  up_rat :: "jsnum option option"
  up_username :: "string option option"

record AuthSessionCreateInput =
  sc_sessionId :: string
  sc_provider :: string
  sc_userId :: string
  sc_accessTokenCiphertext :: string
  sc_refreshTokenCiphertext :: string
  sc_accessTokenExpiresAt :: int
  sc_refreshTokenExpiresAt :: int
  sc_scope :: "string list"
  sc_state :: string
  sc_codeVerifier :: string
  sc_expiresAt :: int

record AuthSession =
  s_id :: string
  s_sessionId :: string
  s_provider :: string
  s_userId :: string
  s_accessTokenCiphertext :: string
  s_refreshTokenCiphertext :: string
  s_accessTokenExpiresAt :: int
  s_refreshTokenExpiresAt :: int
  s_scope :: "string list"
  s_state :: string
  s_codeVerifier :: string
  s_lastRefreshedAt :: "int option"
  s_revokedAt :: "int option"
  s_expiresAt :: int
  s_createdAt :: int
  s_updatedAt :: int

record AuthSessionUpdateAfterRefreshInput =
  ru_accessTokenCiphertext :: "string option"
  ru_refreshTokenCiphertext :: "string option"
  ru_accessTokenExpiresAt :: "int option"
  ru_refreshTokenExpiresAt :: "int option"
  ru_scope :: "string list option"
  ru_lastRefreshedAt :: "int option"
  ru_expiresAt :: "int option"

record access_db =
  ac_allowlist :: "AccessAllowlistRow list"
  ac_users :: "OAuthUserRow list"
  ac_sessions :: "AuthSession list"

definition normalizeEmail :: "string \<Rightarrow> string" where
  "normalizeEmail email = js_lower (js_trim email)"

lemma normalizeEmail_idem [simp]: "normalizeEmail (normalizeEmail e) = normalizeEmail e"
  by (simp add: normalizeEmail_def js_trim_lower)

section \<open>The allowlist\<close>

definition al_key :: "AccessAllowlistRow \<Rightarrow> string \<times> string" where
  "al_key r = (al_provider r, al_email r)"

definition al_active :: "AccessAllowlistRow \<Rightarrow> bool" where
  "al_active r \<longleftrightarrow> al_revokedAt r = None"

definition findActiveByProviderEmail :: "string \<Rightarrow> string \<Rightarrow> access_db \<Rightarrow> AccessAllowlistRow option" where
  "findActiveByProviderEmail provider email db =
     (if normalizeEmail email = [] then None
      else List.find (\<lambda>r. al_provider r = provider \<and> al_email r = normalizeEmail email \<and> al_active r) (ac_allowlist db))"

definition findByProviderEmail :: "string \<Rightarrow> string \<Rightarrow> access_db \<Rightarrow> AccessAllowlistRow option" where
  "findByProviderEmail provider email db =
     (if normalizeEmail email = [] then None
      else List.find (\<lambda>r. al_provider r = provider \<and> al_email r = normalizeEmail email) (ac_allowlist db))"

definition active_owner :: "string \<Rightarrow> AccessAllowlistRow \<Rightarrow> bool" where
  "active_owner provider r \<longleftrightarrow> al_provider r = provider \<and> al_role r = owner \<and> al_active r"

definition countActiveOwners :: "string \<Rightarrow> access_db \<Rightarrow> nat" where
  "countActiveOwners provider db = length (filter (active_owner provider) (ac_allowlist db))"

text \<open>\<^verbatim>\<open>None\<close> is the unique violation (\<^verbatim>\<open>23505\<close>) of the index on provider and email.\<close>

definition createAdmin ::
  "string \<Rightarrow> int \<Rightarrow> string \<Rightarrow> string \<Rightarrow> AccessRole \<Rightarrow> string option \<Rightarrow> access_db \<Rightarrow> (AccessAllowlistRow \<times> access_db) option" where
  "createAdmin uuid now provider email role actorId db =
     (let row = \<lparr>al_id = uuid, al_provider = provider, al_email = normalizeEmail email, al_role = role,
                 al_invitedBy = actorId, al_invitedAt = now, al_revokedAt = None, al_revokedBy = None,
                 al_createdAt = now, al_updatedAt = now\<rparr>
      in if al_key row \<in> al_key ` set (ac_allowlist db) then None
         else Some (row, db\<lparr>ac_allowlist := ac_allowlist db @ [row]\<rparr>))"

text \<open>\<^verbatim>\<open>repo.update\<close> of the rows of one address, followed by reading the row back.\<close>

definition update_address ::
  "(AccessAllowlistRow \<Rightarrow> bool) \<Rightarrow> (AccessAllowlistRow \<Rightarrow> AccessAllowlistRow) \<Rightarrow> int \<Rightarrow> string \<Rightarrow> string \<Rightarrow> access_db
    \<Rightarrow> AccessAllowlistRow option \<times> access_db" where
  "update_address cond change now provider email db =
     (let normalizedEmail = normalizeEmail email;
          hit = (\<lambda>r. al_provider r = provider \<and> al_email r = normalizedEmail \<and> cond r);
          db' = db\<lparr>ac_allowlist := tbl_update hit (\<lambda>r. (change r)\<lparr>al_updatedAt := now\<rparr>) (ac_allowlist db)\<rparr>
      in if normalizedEmail = [] then (None, db)
         else if filter hit (ac_allowlist db) = [] then (None, db)
         else (findByProviderEmail provider normalizedEmail db', db'))"

definition restore ::
  "int \<Rightarrow> string \<Rightarrow> string \<Rightarrow> string option \<Rightarrow> AccessRole option \<Rightarrow> access_db \<Rightarrow> AccessAllowlistRow option \<times> access_db" where
  "restore now provider email actorId roleOption db =
     update_address (\<lambda>r. \<not> al_active r)
       (\<lambda>r. r\<lparr>al_invitedBy := actorId, al_invitedAt := now,
              al_role := (case roleOption of Some role \<Rightarrow> role | None \<Rightarrow> admin),
              al_revokedAt := None, al_revokedBy := None\<rparr>) now provider email db"

definition repo_updateRole ::
  "int \<Rightarrow> string \<Rightarrow> string \<Rightarrow> AccessRole \<Rightarrow> access_db \<Rightarrow> AccessAllowlistRow option \<times> access_db" where
  "repo_updateRole now provider email role db = update_address al_active (\<lambda>r. r\<lparr>al_role := role\<rparr>) now provider email db"

definition softRevoke ::
  "int \<Rightarrow> string \<Rightarrow> string \<Rightarrow> string \<Rightarrow> access_db \<Rightarrow> AccessAllowlistRow option \<times> access_db" where
  "softRevoke now provider email actorId db =
     update_address al_active (\<lambda>r. r\<lparr>al_revokedAt := Some now, al_revokedBy := Some actorId\<rparr>) now provider email db"

datatype AdminAllowlistStatus = st_active | st_revoked | st_all

datatype AdminAllowlistSortField = by_email | by_invitedAt | by_revokedAt | by_role

record AdminAllowlistListOptions =
  lo_provider :: "string option"
  lo_role :: "AccessRole option"
  lo_status :: AdminAllowlistStatus
  lo_q :: "string option"
  lo_sortField :: AdminAllowlistSortField
  lo_descending :: bool
  lo_page :: int
  lo_limit :: int

text \<open>The pattern language of \<^verbatim>\<open>LIKE\<close>: \<open>%\<close> any text, \<open>_\<close> any character, a backslash escapes.\<close>

fun sql_like :: "string \<Rightarrow> string \<Rightarrow> bool" where
  "sql_like [] s \<longleftrightarrow> s = []"
| "sql_like (p # ps) s =
     (if p = CHR ''%''
      then (if sql_like ps s then True else (case s of [] \<Rightarrow> False | c # cs \<Rightarrow> sql_like (p # ps) cs))
      else
        (case s of
           [] \<Rightarrow> False
         | c # cs \<Rightarrow>
             if p = CHR ''_'' then sql_like ps cs
             else if p = CHR 0x5C \<and> ps \<noteq> [] then (if c = hd ps then sql_like (tl ps) cs else False)
             else if c = p then sql_like ps cs else False))"

definition buildWhere :: "AdminAllowlistListOptions \<Rightarrow> AccessAllowlistRow \<Rightarrow> bool" where
  "buildWhere opts r \<longleftrightarrow>
     (case lo_provider opts of None \<Rightarrow> True | Some p \<Rightarrow> al_provider r = p)
   \<and> (case lo_role opts of None \<Rightarrow> True | Some role \<Rightarrow> al_role r = role)
   \<and> (case lo_status opts of st_active \<Rightarrow> al_active r | st_revoked \<Rightarrow> \<not> al_active r | st_all \<Rightarrow> True)
   \<and> (case lo_q opts of
        None \<Rightarrow> True
      | Some q \<Rightarrow> normalizeEmail q = [] \<or> sql_like (normalizeEmail q @ ''%'') (js_lower (al_email r)))"

text \<open>
  The column order of the query.  The collation of text columns is the database's (\<open>collate\<close>); the role enum
  is ordered as declared, and a missing \<^verbatim>\<open>revoked_at\<close> sorts after every date.
\<close>

definition field_le :: "(string \<Rightarrow> string \<Rightarrow> bool) \<Rightarrow> AdminAllowlistSortField \<Rightarrow> AccessAllowlistRow \<Rightarrow> AccessAllowlistRow \<Rightarrow> bool" where
  "field_le collate field a b \<longleftrightarrow>
     (case field of
        by_email \<Rightarrow> collate (al_email a) (al_email b)
      | by_invitedAt \<Rightarrow> al_invitedAt a \<le> al_invitedAt b
      | by_revokedAt \<Rightarrow>
          (case al_revokedAt b of None \<Rightarrow> True | Some y \<Rightarrow> (case al_revokedAt a of None \<Rightarrow> False | Some x \<Rightarrow> x \<le> y))
      | by_role \<Rightarrow> al_role a = owner \<or> al_role b = admin)"

definition list_le :: "(string \<Rightarrow> string \<Rightarrow> bool) \<Rightarrow> AdminAllowlistListOptions \<Rightarrow> AccessAllowlistRow \<Rightarrow> AccessAllowlistRow \<Rightarrow> bool" where
  "list_le collate opts a b \<longleftrightarrow>
     (let dir = (\<lambda>x y. if lo_descending opts then field_le collate (lo_sortField opts) y x
                       else field_le collate (lo_sortField opts) x y)
      in if lo_sortField opts = by_email then dir a b
         else dir a b \<and> (dir b a \<longrightarrow> collate (al_email a) (al_email b)))"

definition repo_list ::
  "(string \<Rightarrow> string \<Rightarrow> bool) \<Rightarrow> AdminAllowlistListOptions \<Rightarrow> access_db \<Rightarrow> AccessAllowlistRow list \<times> nat" where
  "repo_list collate opts db =
     (let limit = min (max (lo_limit opts) 1) 100;
          page = max (lo_page opts) 1;
          skip = (page - 1) * limit;
          matching = filter (buildWhere opts) (ac_allowlist db)
      in (take (nat limit) (drop (nat skip) (sort_by (list_le collate opts) matching)), length matching))"

section \<open>OAuth users\<close>

text \<open>A key that is present overwrites the column, with \<^verbatim>\<open>undefined\<close> stored as \<^verbatim>\<open>NULL\<close>.\<close>

definition applyUpdate :: "OAuthUserRow \<Rightarrow> OAuthUserUpsertInput \<Rightarrow> OAuthUserRow" where
  "applyUpdate u input =
     u\<lparr>u_aud := (case up_aud input of None \<Rightarrow> u_aud u | Some None \<Rightarrow> [] | Some (Some v) \<Rightarrow> v),
       u_auth_time := (case up_auth_time input of None \<Rightarrow> u_auth_time u | Some v \<Rightarrow> v),
       u_email := (case up_email input of None \<Rightarrow> u_email u | Some v \<Rightarrow> v),
       u_email_verified := (case up_email_verified input of None \<Rightarrow> u_email_verified u | Some v \<Rightarrow> v),
       u_iat := (case up_iat input of None \<Rightarrow> u_iat u | Some v \<Rightarrow> v),
       u_iss := (case up_iss input of None \<Rightarrow> u_iss u | Some v \<Rightarrow> v),
       u_picture := (case up_picture input of None \<Rightarrow> u_picture u | Some v \<Rightarrow> v),
       u_rat := (case up_rat input of None \<Rightarrow> u_rat u | Some v \<Rightarrow> v),
       u_username := (case up_username input of None \<Rightarrow> u_username u | Some v \<Rightarrow> v)\<rparr>"

definition flat :: "'a option option \<Rightarrow> 'a option" where
  "flat x = (case x of None \<Rightarrow> None | Some v \<Rightarrow> v)"

definition newEntity :: "string \<Rightarrow> int \<Rightarrow> string \<Rightarrow> string \<Rightarrow> OAuthUserUpsertInput \<Rightarrow> OAuthUserRow" where
  "newEntity uuid now provider sub input =
     \<lparr>u_id = uuid, u_provider = provider, u_sub = sub,
      u_aud = (case flat (up_aud input) of None \<Rightarrow> [] | Some v \<Rightarrow> v),
      u_auth_time = flat (up_auth_time input), u_email = flat (up_email input),
      u_email_verified = flat (up_email_verified input), u_iat = flat (up_iat input), u_iss = flat (up_iss input),
      u_picture = flat (up_picture input), u_rat = flat (up_rat input), u_username = flat (up_username input),
      u_createdAt = now, u_updatedAt = now\<rparr>"

definition user_key :: "OAuthUserRow \<Rightarrow> string \<times> string" where
  "user_key u = (u_provider u, u_sub u)"

text \<open>
  One transaction.  Saving an entity that did not change issues no statement, so only a change moves
  \<^verbatim>\<open>updatedAt\<close>.
\<close>

definition upsertBySub ::
  "string \<Rightarrow> int \<Rightarrow> string \<Rightarrow> string \<Rightarrow> OAuthUserUpsertInput \<Rightarrow> access_db \<Rightarrow> OAuthUserRow \<times> access_db" where
  "upsertBySub uuid now provider sub update db =
     (case List.find (\<lambda>u. user_key u = (provider, sub)) (ac_users db) of
        Some existing \<Rightarrow>
          (let changed = applyUpdate existing update;
               saved = (if changed = existing then existing else changed\<lparr>u_updatedAt := now\<rparr>)
           in (saved, db\<lparr>ac_users := tbl_update (\<lambda>u. user_key u = (provider, sub)) (\<lambda>_. saved) (ac_users db)\<rparr>))
      | None \<Rightarrow>
          (let saved = newEntity uuid now provider sub update in (saved, db\<lparr>ac_users := ac_users db @ [saved]\<rparr>)))"

definition findById :: "string \<Rightarrow> access_db \<Rightarrow> OAuthUserRow option" where
  "findById i db = List.find (\<lambda>u. u_id u = i) (ac_users db)"

definition findByIds :: "string list \<Rightarrow> access_db \<Rightarrow> OAuthUserRow list" where
  "findByIds ids db = (if ids = [] then [] else filter (\<lambda>u. u_id u \<in> set ids) (ac_users db))"

definition user_findByProviderEmail :: "string \<Rightarrow> string \<Rightarrow> access_db \<Rightarrow> OAuthUserRow option" where
  "user_findByProviderEmail provider email db =
     (if normalizeEmail email = [] then None
      else
        (case sort_by (\<lambda>a b. u_updatedAt b \<le> u_updatedAt a)
                (filter (\<lambda>u. u_provider u = provider \<and> u_email u = Some (normalizeEmail email)) (ac_users db)) of
           [] \<Rightarrow> None
         | u # _ \<Rightarrow> Some u))"

section \<open>Sessions\<close>

definition session_active :: "int \<Rightarrow> AuthSession \<Rightarrow> bool" where
  "session_active now s \<longleftrightarrow> s_revokedAt s = None \<and> now < s_expiresAt s"

text \<open>\<^verbatim>\<open>None\<close> is a violation of the unique index on the session id.\<close>

definition session_create :: "string \<Rightarrow> int \<Rightarrow> AuthSessionCreateInput \<Rightarrow> access_db \<Rightarrow> (AuthSession \<times> access_db) option" where
  "session_create uuid now data db =
     (let s = \<lparr>s_id = uuid, s_sessionId = sc_sessionId data, s_provider = sc_provider data, s_userId = sc_userId data,
               s_accessTokenCiphertext = sc_accessTokenCiphertext data,
               s_refreshTokenCiphertext = sc_refreshTokenCiphertext data,
               s_accessTokenExpiresAt = sc_accessTokenExpiresAt data,
               s_refreshTokenExpiresAt = sc_refreshTokenExpiresAt data, s_scope = sc_scope data,
               s_state = sc_state data, s_codeVerifier = sc_codeVerifier data, s_lastRefreshedAt = None,
               s_revokedAt = None, s_expiresAt = sc_expiresAt data, s_createdAt = now, s_updatedAt = now\<rparr>
      in if s_sessionId s \<in> s_sessionId ` set (ac_sessions db) then None
         else Some (s, db\<lparr>ac_sessions := ac_sessions db @ [s]\<rparr>))"

definition findActiveBySessionId :: "int \<Rightarrow> string \<Rightarrow> access_db \<Rightarrow> AuthSession option" where
  "findActiveBySessionId now sessionId db =
     List.find (\<lambda>s. s_sessionId s = sessionId \<and> session_active now s) (ac_sessions db)"

definition apply_refresh :: "AuthSessionUpdateAfterRefreshInput \<Rightarrow> AuthSession \<Rightarrow> AuthSession" where
  "apply_refresh update s =
     s\<lparr>s_accessTokenCiphertext := (case ru_accessTokenCiphertext update of None \<Rightarrow> s_accessTokenCiphertext s | Some v \<Rightarrow> v),
       s_refreshTokenCiphertext := (case ru_refreshTokenCiphertext update of None \<Rightarrow> s_refreshTokenCiphertext s | Some v \<Rightarrow> v),
       s_accessTokenExpiresAt := (case ru_accessTokenExpiresAt update of None \<Rightarrow> s_accessTokenExpiresAt s | Some v \<Rightarrow> v),
       s_refreshTokenExpiresAt := (case ru_refreshTokenExpiresAt update of None \<Rightarrow> s_refreshTokenExpiresAt s | Some v \<Rightarrow> v),
       s_scope := (case ru_scope update of None \<Rightarrow> s_scope s | Some v \<Rightarrow> v),
       s_lastRefreshedAt := (case ru_lastRefreshedAt update of None \<Rightarrow> s_lastRefreshedAt s | Some v \<Rightarrow> Some v),
       s_expiresAt := (case ru_expiresAt update of None \<Rightarrow> s_expiresAt s | Some v \<Rightarrow> v)\<rparr>"

definition updateAfterRefresh ::
  "int \<Rightarrow> string \<Rightarrow> AuthSessionUpdateAfterRefreshInput \<Rightarrow> access_db \<Rightarrow> AuthSession option \<times> access_db" where
  "updateAfterRefresh now sessionId update db =
     (case findActiveBySessionId now sessionId db of
        None \<Rightarrow> (None, db)
      | Some s \<Rightarrow>
          (let changed = apply_refresh update s;
               saved = (if changed = s then s else changed\<lparr>s_updatedAt := now\<rparr>)
           in (Some saved,
               db\<lparr>ac_sessions := tbl_update (\<lambda>r. s_sessionId r = sessionId \<and> session_active now r) (\<lambda>_. saved) (ac_sessions db)\<rparr>)))"

definition revokeBySessionId :: "int \<Rightarrow> string \<Rightarrow> access_db \<Rightarrow> access_db" where
  "revokeBySessionId now sessionId db =
     db\<lparr>ac_sessions := tbl_update (\<lambda>s. s_sessionId s = sessionId \<and> s_revokedAt s = None)
          (\<lambda>s. s\<lparr>s_revokedAt := Some now, s_expiresAt := now, s_updatedAt := now\<rparr>) (ac_sessions db)\<rparr>"

definition revokeAllByUserId :: "int \<Rightarrow> string \<Rightarrow> access_db \<Rightarrow> nat \<times> access_db" where
  "revokeAllByUserId now userId db =
     (let hit = (\<lambda>s. s_userId s = userId \<and> session_active now s)
      in (length (filter hit (ac_sessions db)),
          db\<lparr>ac_sessions := tbl_update hit
               (\<lambda>s. s\<lparr>s_revokedAt := Some now, s_expiresAt := now, s_updatedAt := now\<rparr>) (ac_sessions db)\<rparr>))"

definition deleteExpired :: "int \<Rightarrow> access_db \<Rightarrow> nat \<times> access_db" where
  "deleteExpired now db =
     (length (filter (\<lambda>s. s_expiresAt s < now) (ac_sessions db)),
      db\<lparr>ac_sessions := tbl_delete (\<lambda>s. s_expiresAt s < now) (ac_sessions db)\<rparr>)"

record UserSessionActivity =
  sa_lastSignInAt :: "int option"
  sa_activeSessionCount :: nat

text \<open>One entry for every user of the list that has a session, the maximum and the count of its group.\<close>

definition aggregateActivityByUserIds :: "int \<Rightarrow> string list \<Rightarrow> access_db \<Rightarrow> (string \<times> UserSessionActivity) list" where
  "aggregateActivityByUserIds now userIds db =
     map (\<lambda>i. (i, \<lparr>sa_lastSignInAt = Some (Max (set (map s_createdAt (filter (\<lambda>s. s_userId s = i) (ac_sessions db))))),
                    sa_activeSessionCount = length (filter (\<lambda>s. s_userId s = i \<and> session_active now s) (ac_sessions db))\<rparr>))
       (js_dedup (map s_userId (filter (\<lambda>s. s_userId s \<in> set userIds) (ac_sessions db))))"

section \<open>The allowlist as a map from addresses to roles\<close>

definition allowlist_ok :: "access_db \<Rightarrow> bool" where
  "allowlist_ok db \<longleftrightarrow>
     distinct (map al_key (ac_allowlist db)) \<and> list_all (\<lambda>r. al_email r \<noteq> [] \<and> normalizeEmail (al_email r) = al_email r) (ac_allowlist db)"

definition row_role :: "AccessAllowlistRow option \<Rightarrow> AccessRole option" where
  "row_role r = (case r of None \<Rightarrow> None | Some row \<Rightarrow> if al_active row then Some (al_role row) else None)"

definition roles :: "access_db \<Rightarrow> string \<times> string \<Rightarrow> AccessRole option" where
  "roles db k = row_role (List.find (\<lambda>r. al_key r = k) (ac_allowlist db))"

lemma row_role_simps [simp]:
  "row_role None = None" "row_role (Some r) = (if al_active r then Some (al_role r) else None)"
  by (simp_all add: row_role_def)

lemma al_key_iff: "al_key r = (p, e) \<longleftrightarrow> al_provider r = p \<and> al_email r = e"
  by (simp add: al_key_def)

lemma find_unique_key:
  assumes "distinct (map key xs)"
  shows "List.find (\<lambda>r. key r = k \<and> Q r) xs
       = (case List.find (\<lambda>r. key r = k) xs of None \<Rightarrow> None | Some r \<Rightarrow> if Q r then Some r else None)"
  using assms
proof (induction xs)
  case (Cons x xs)
  have "List.find (\<lambda>r. key r = k \<and> Q r) xs = None" if "key x = k"
    using Cons.prems that by (simp add: find_None_iff) (metis imageI)
  then show ?case using Cons by auto
qed simp

lemma find_key_mem:
  assumes "distinct (map key xs)" "r \<in> set xs"
  shows "List.find (\<lambda>s. key s = key r) xs = Some r"
  using assms by (induction xs) (auto simp: rev_image_eqI)

lemma roles_mem: "allowlist_ok db \<Longrightarrow> r \<in> set (ac_allowlist db) \<Longrightarrow> roles db (al_provider r, al_email r) = row_role (Some r)"
  using find_key_mem[of al_key "ac_allowlist db" r] by (simp add: roles_def allowlist_ok_def al_key_def)

lemma findActive_roles:
  assumes "allowlist_ok db"
  shows "roles db (p, normalizeEmail e) = map_option al_role (findActiveByProviderEmail p e db)"
proof (cases "normalizeEmail e = []")
  case True
  have "List.find (\<lambda>r. al_key r = (p, [])) (ac_allowlist db) = None"
    using assms by (auto simp: find_None_iff allowlist_ok_def list_all_iff al_key_iff)
  then show ?thesis using True by (simp add: roles_def findActiveByProviderEmail_def)
next
  case False
  have "findActiveByProviderEmail p e db
      = List.find (\<lambda>r. al_key r = (p, normalizeEmail e) \<and> al_active r) (ac_allowlist db)"
    using False by (simp add: findActiveByProviderEmail_def al_key_iff conj_assoc)
  then show ?thesis
    using find_unique_key[of al_key "ac_allowlist db"] assms
    by (simp add: roles_def allowlist_ok_def split: option.splits)
qed

lemma findActive_SomeD:
  assumes "findActiveByProviderEmail p e db = Some r"
  shows "r \<in> set (ac_allowlist db) \<and> al_provider r = p \<and> al_email r = normalizeEmail e \<and> al_active r"
  using assms by (auto simp: findActiveByProviderEmail_def split: if_splits dest!: find_Some_iff')

text \<open>An update of one address rewrites the map at that address only.\<close>

lemma update_address_roles:
  assumes "allowlist_ok db" "\<And>r. al_key (change r) = al_key r"
  shows "roles (snd (update_address cond change now p e db)) k =
    (if k = (p, normalizeEmail e)
     then row_role (map_option (\<lambda>r. if cond r then change r else r) (List.find (\<lambda>r. al_key r = k) (ac_allowlist db)))
     else roles db k)"
proof -
  let ?k = "(p, normalizeEmail e)"
  let ?f = "\<lambda>r. if cond r then (change r)\<lparr>al_updatedAt := now\<rparr> else r"
  let ?hit = "\<lambda>r. al_provider r = p \<and> al_email r = normalizeEmail e \<and> cond r"
  have key: "al_key (?f r) = al_key r" for r using assms(2)[of r] by (simp add: al_key_def)
  have upd: "tbl_update ?hit (\<lambda>r. (change r)\<lparr>al_updatedAt := now\<rparr>) (ac_allowlist db)
      = tbl_update (\<lambda>r. al_key r = ?k) ?f (ac_allowlist db)"
    by (auto simp: tbl_update_def al_key_iff)
  have rr: "row_role (map_option ?f r) = row_role (map_option (\<lambda>r. if cond r then change r else r) r)" for r
    by (cases r) (auto simp: al_active_def)
  have same: "row_role (map_option (\<lambda>r. if cond r then change r else r) (List.find (\<lambda>r. al_key r = ?k) (ac_allowlist db))) = roles db ?k"
    if "filter ?hit (ac_allowlist db) = [] \<or> normalizeEmail e = []"
  proof (cases "List.find (\<lambda>r. al_key r = ?k) (ac_allowlist db)")
    case (Some r)
    then have "r \<in> set (ac_allowlist db)" "al_key r = ?k" by (auto dest: find_Some_iff')
    then have "\<not> cond r" using that assms(1) by (auto simp: filter_empty_conv al_key_iff allowlist_ok_def list_all_iff)
    then show ?thesis using Some by (simp add: roles_def)
  qed (simp add: roles_def)
  show ?thesis
  proof (cases "filter ?hit (ac_allowlist db) = [] \<or> normalizeEmail e = []")
    case True
    then have "snd (update_address cond change now p e db) = db" by (auto simp: update_address_def Let_def)
    then show ?thesis using same[OF True] by simp
  next
    case False
    then have "ac_allowlist (snd (update_address cond change now p e db)) = tbl_update (\<lambda>r. al_key r = ?k) ?f (ac_allowlist db)"
      using upd by (simp add: update_address_def Let_def)
    then show ?thesis
      using find_tbl_update_same[of al_key ?f ?k, OF key] find_tbl_update_other[of al_key ?f ?k k, OF key]
      by (cases "k = ?k") (simp_all add: roles_def rr)
  qed
qed

lemma update_address_ok:
  assumes "allowlist_ok db" "\<And>r. al_key (change r) = al_key r"
  shows "allowlist_ok (snd (update_address cond change now p e db))"
proof -
  have key: "al_key ((change r)\<lparr>al_updatedAt := now\<rparr>) = al_key r" "al_email (change r) = al_email r" for r
    using assms(2)[of r] by (simp_all add: al_key_def)
  have keys: "map al_key (tbl_update P (\<lambda>r. (change r)\<lparr>al_updatedAt := now\<rparr>) rows) = map al_key rows" for P rows
    by (rule map_key_tbl_update) (rule key(1))
  have norm: "list_all (\<lambda>r. al_email r \<noteq> [] \<and> normalizeEmail (al_email r) = al_email r) (tbl_update P (\<lambda>r. (change r)\<lparr>al_updatedAt := now\<rparr>) (ac_allowlist db))" for P
    using assms(1) by (auto simp: allowlist_ok_def list_all_iff tbl_update_def key(2))
  show ?thesis using assms(1) norm by (auto simp: update_address_def Let_def allowlist_ok_def keys)
qed

lemma softRevoke_roles:
  assumes "allowlist_ok db"
  shows "roles (snd (softRevoke now p e actor db)) = (roles db)((p, normalizeEmail e) := None)"
  unfolding softRevoke_def
  by (rule ext, subst update_address_roles[OF assms])
    (auto simp: al_key_def al_active_def row_role_def split: option.splits)

lemma updateRole_roles:
  assumes "allowlist_ok db"
  shows "roles (snd (repo_updateRole now p e role db)) =
    (roles db)((p, normalizeEmail e) := map_option (\<lambda>_. role) (roles db (p, normalizeEmail e)))"
  unfolding repo_updateRole_def
  by (rule ext, subst update_address_roles[OF assms])
    (auto simp: al_key_def al_active_def row_role_def roles_def split: option.splits)

lemma restore_roles:
  assumes "allowlist_ok db" "roles db k = Some role"
  shows "roles (snd (restore now p e actor ro db)) k = Some role"
  using assms(2) unfolding restore_def
  by (subst update_address_roles[OF assms(1)])
    (auto simp: al_key_def row_role_def roles_def split: option.splits if_splits)

lemma allowlist_ops_ok:
  assumes "allowlist_ok db"
  shows "allowlist_ok (snd (softRevoke now p e actor db))" "allowlist_ok (snd (repo_updateRole now p e role db))"
    "allowlist_ok (snd (restore now p e actor' ro db))"
  by (auto simp: softRevoke_def repo_updateRole_def restore_def al_key_def intro!: update_address_ok[OF assms])

lemma createAdmin_ok:
  assumes "allowlist_ok db" "createAdmin uuid now p e role actor db = Some (row, db')" "normalizeEmail e \<noteq> []"
  shows "allowlist_ok db'" "roles db k = Some r \<Longrightarrow> roles db' k = Some r"
    "roles db' (p, normalizeEmail e) = Some role"
proof -
  have fresh: "(p, normalizeEmail e) \<notin> al_key ` set (ac_allowlist db)"
    and db': "ac_allowlist db' = ac_allowlist db @ [row]" "al_key row = (p, normalizeEmail e)" "al_active row" "al_role row = role"
      "al_email row = normalizeEmail e"
    using assms(2) by (auto simp: createAdmin_def Let_def al_key_def al_active_def split: if_splits)
  show "allowlist_ok db'" using assms(1,3) fresh db' by (auto simp: allowlist_ok_def)
  show "roles db' k = Some r" if "roles db k = Some r"
    using that db'(1) by (cases "List.find (\<lambda>r. al_key r = k) (ac_allowlist db)") (auto simp: roles_def find_append)
  have "List.find (\<lambda>r. al_key r = (p, normalizeEmail e)) (ac_allowlist db) = None"
    using fresh by (force simp: find_None_iff)
  then show "roles db' (p, normalizeEmail e) = Some role" using db' by (simp add: roles_def find_append)
qed

lemma countActiveOwners_other:
  assumes "allowlist_ok db" "1 < countActiveOwners p db"
  shows "\<exists>e'. e' \<noteq> e \<and> roles db (p, e') = Some owner"
proof -
  let ?os = "filter (active_owner p) (ac_allowlist db)"
  have "distinct (map al_key ?os)" using assms(1) by (simp add: allowlist_ok_def distinct_map_filter)
  moreover obtain a b os where os: "?os = a # b # os"
    using assms(2) by (cases ?os; cases "tl ?os") (auto simp: countActiveOwners_def)
  ultimately have "al_key a \<noteq> al_key b" by simp
  moreover have ab: "active_owner p a" "active_owner p b" "a \<in> set (ac_allowlist db)" "b \<in> set (ac_allowlist db)"
    using arg_cong[OF os, of set] by auto
  ultimately have "al_email a \<noteq> e \<or> al_email b \<noteq> e" by (auto simp: al_key_def active_owner_def)
  moreover have "roles db (p, al_email a) = Some owner" "roles db (p, al_email b) = Some owner"
    using ab roles_mem[OF assms(1), of a] roles_mem[OF assms(1), of b] by (auto simp: active_owner_def)
  ultimately show ?thesis by blast
qed

text \<open>
  What the administration relies on: revoking and changing a role act on one address of the map, and a
  count of owners above one means a second address.
\<close>

locale role_table =
  fixes roles_of :: "'db \<Rightarrow> string \<times> string \<Rightarrow> AccessRole option"
    and ok :: "'db \<Rightarrow> bool"
    and owners :: "string \<Rightarrow> 'db \<Rightarrow> nat"
    and revoke :: "string \<Rightarrow> string \<Rightarrow> 'db \<Rightarrow> 'db"
    and set_role :: "AccessRole \<Rightarrow> string \<Rightarrow> string \<Rightarrow> 'db \<Rightarrow> 'db"
  assumes second_owner: "ok db \<Longrightarrow> 1 < owners p db \<Longrightarrow> \<exists>e'. e' \<noteq> e \<and> roles_of db (p, e') = Some owner"
    and revoke_at: "ok db \<Longrightarrow> roles_of (revoke p e db) = (roles_of db)((p, normalizeEmail e) := None)"
    and set_role_at: "ok db \<Longrightarrow> roles_of (set_role role p e db)
          = (roles_of db)((p, normalizeEmail e) := map_option (\<lambda>_. role) (roles_of db (p, normalizeEmail e)))"
begin

lemma owner_survives:
  assumes "ok db" "roles_of db (q, o') = Some owner"
    "roles_of db (p, normalizeEmail e) = Some owner \<Longrightarrow> 1 < owners p db"
    "\<And>k. k \<noteq> (p, normalizeEmail e) \<Longrightarrow> roles_of db' k = roles_of db k"
  shows "\<exists>o''. roles_of db' (q, o'') = Some owner"
proof (cases "(q, o') = (p, normalizeEmail e)")
  case True
  then obtain e' where "e' \<noteq> normalizeEmail e" "roles_of db (p, e') = Some owner"
    using second_owner[OF assms(1), of p "normalizeEmail e"] assms(2,3) by auto
  then have "roles_of db' (p, e') = Some owner" using assms(4)[of "(p, e')"] by simp
  then show ?thesis using True by auto
next
  case False
  then show ?thesis using assms(2) assms(4)[of "(q, o')"] by auto
qed

lemma revoke_keeps_owner:
  assumes "ok db" "roles_of db (q, o') = Some owner" "roles_of db (p, normalizeEmail e) = Some owner \<Longrightarrow> 1 < owners p db"
  shows "\<exists>o''. roles_of (revoke p e db) (q, o'') = Some owner"
  by (rule owner_survives[OF assms]) (auto simp: revoke_at[OF assms(1)])

lemma set_role_keeps_owner:
  assumes "ok db" "roles_of db (q, o') = Some owner"
    "roles_of db (p, normalizeEmail e) = Some owner \<Longrightarrow> 1 < owners p db"
  shows "\<exists>o''. roles_of (set_role role p e db) (q, o'') = Some owner"
  by (rule owner_survives[OF assms]) (auto simp: set_role_at[OF assms(1)])

end

interpretation acl: role_table roles allowlist_ok countActiveOwners
  "\<lambda>p e db. snd (softRevoke now p e actor db)" "\<lambda>role p e db. snd (repo_updateRole now p e role db)"
  for now actor
  by unfold_locales (rule countActiveOwners_other softRevoke_roles updateRole_roles, assumption+)+

end
