(* ===== verification/Admin_Service.thy ===== *)
theory Admin_Service
  imports Access_Store
begin

text \<open>
  The administration of the allowlist (\<^verbatim>\<open>admin.service.ts\<close>, the role guard and the controller's provider
  parsing): inviting, restoring, changing roles, removing, seeding the configured owner and listing.  A
  service call is a function from the tables to an HTTP error or a result, and the tables after it; the
  audit log is left out.  \<open>ae_isEmail\<close> is the validator of the class-validator package, \<open>ae_uuid\<close> the
  generated row id.
\<close>

section \<open>The service\<close>

datatype admin_error =
    BadRequestException string
  | ConflictException string
  | NotFoundException string
  | ForbiddenException string
  | UnauthorizedException string
  | OwnerEmailConflictError string string string
  | DatabaseError

record admin_env =
  ae_isEmail :: "string \<Rightarrow> bool"
  ae_collate :: "string \<Rightarrow> string \<Rightarrow> bool"
  ae_uuid :: string
  ae_now :: int
  ae_ownerEmail :: "string option"
  ae_ownerProvider :: "string option"

record AdminViewDto =
  vw_provider :: string
  vw_email :: string
  vw_role :: AccessRole
  vw_invitedAt :: int
  vw_invitedByEmail :: "string option"
  vw_revokedAt :: "int option"
  vw_revokedByEmail :: "string option"
  vw_lastSignInAt :: "int option"
  vw_activeSessionCount :: "nat option"
  vw_hasEverSignedIn :: "bool option"

definition truthy :: "string option \<Rightarrow> string option" where
  "truthy s = (case s of Some [] \<Rightarrow> None | _ \<Rightarrow> s)"

definition ownerEmail :: "admin_env \<Rightarrow> string option" where
  "ownerEmail env = truthy (map_option normalizeEmail (ae_ownerEmail env))"

definition ownerProvider :: "admin_env \<Rightarrow> string" where
  "ownerProvider env = (case ae_ownerProvider env of Some p \<Rightarrow> p | None \<Rightarrow> OAuthProviderDeepId)"

definition isAllowlisted :: "string \<Rightarrow> string \<Rightarrow> access_db \<Rightarrow> AccessAllowlistRow option" where
  "isAllowlisted provider email db = findActiveByProviderEmail provider email db"

definition resolveRole :: "string \<Rightarrow> string \<Rightarrow> access_db \<Rightarrow> AccessRole option" where
  "resolveRole provider email db = map_option al_role (isAllowlisted provider email db)"

definition requireProvider :: "string \<Rightarrow> admin_error + string" where
  "requireProvider provider =
     (if provider \<in> set OAUTH_PROVIDERS then Inr provider
      else Inl (BadRequestException (''This sign-in provider is not supported: '' @ provider @ ''.'')))"

definition normalizeEmailOrThrow :: "admin_env \<Rightarrow> string \<Rightarrow> admin_error + string" where
  "normalizeEmailOrThrow env email =
     (if normalizeEmail email = [] \<or> \<not> ae_isEmail env (normalizeEmail email)
      then Inl (BadRequestException ''A valid email address is required.'') else Inr (normalizeEmail email))"

text \<open>Both guards of every mutation: the provider first, then the address.\<close>

definition target_of :: "admin_env \<Rightarrow> string \<Rightarrow> string \<Rightarrow> admin_error + string \<times> string" where
  "target_of env provider email =
     (case requireProvider provider of
        Inl e \<Rightarrow> Inl e
      | Inr p \<Rightarrow> (case normalizeEmailOrThrow env email of Inl e \<Rightarrow> Inl e | Inr m \<Rightarrow> Inr (p, m)))"

subsection \<open>Views\<close>

definition actorEmailMap :: "OAuthUserRow \<Rightarrow> (string \<times> string) list" where
  "actorEmailMap actor =
     (case truthy (u_email actor) of Some e \<Rightarrow> [(u_id actor, normalizeEmail e)] | None \<Rightarrow> [])"

definition add_user_email :: "OAuthUserRow \<Rightarrow> (string \<times> string) list \<Rightarrow> (string \<times> string) list" where
  "add_user_email u m = (case truthy (u_email u) of Some e \<Rightarrow> AList.update (u_id u) (normalizeEmail e) m | None \<Rightarrow> m)"

definition refs_of :: "AccessAllowlistRow \<Rightarrow> string list" where
  "refs_of row = (case truthy (al_invitedBy row) of Some i \<Rightarrow> [i] | None \<Rightarrow> [])
              @ (case truthy (al_revokedBy row) of Some i \<Rightarrow> [i] | None \<Rightarrow> [])"

definition resolveActorEmailMap :: "OAuthUserRow \<Rightarrow> AccessAllowlistRow \<Rightarrow> access_db \<Rightarrow> (string \<times> string) list" where
  "resolveActorEmailMap actor row db =
     (let m = actorEmailMap actor;
          ids = filter (\<lambda>i. map_of m i = None) (refs_of row)
      in fold add_user_email (findByIds ids db) m)"

definition resolveInviterAndRevokerEmails :: "AccessAllowlistRow list \<Rightarrow> access_db \<Rightarrow> (string \<times> string) list" where
  "resolveInviterAndRevokerEmails rows db = fold add_user_email (findByIds (js_dedup (concat (map refs_of rows))) db) []"

definition activity_key :: "AccessAllowlistRow \<Rightarrow> string" where
  "activity_key row = al_provider row @ '':'' @ al_email row"

definition collectSessionActivity :: "int \<Rightarrow> AccessAllowlistRow list \<Rightarrow> access_db \<Rightarrow> (string \<times> UserSessionActivity) list" where
  "collectSessionActivity now rows db =
     (let userByKey = fold (\<lambda>row m. case user_findByProviderEmail (al_provider row) (al_email row) db of
                                       Some u \<Rightarrow> AList.update (activity_key row) u m | None \<Rightarrow> m) rows [];
          activityByUserId = aggregateActivityByUserIds now (map (\<lambda>(k, u). u_id u) userByKey) db
      in map (\<lambda>(k, u). (k, case map_of activityByUserId (u_id u) of
                              Some a \<Rightarrow> a | None \<Rightarrow> \<lparr>sa_lastSignInAt = None, sa_activeSessionCount = 0\<rparr>)) userByKey)"

definition toAdminView ::
  "AccessAllowlistRow \<Rightarrow> (string \<times> string) list \<Rightarrow> (string \<times> UserSessionActivity) list option \<Rightarrow> AdminViewDto" where
  "toAdminView row emailByUserId activityByKey =
     (let activity = Option.bind activityByKey (\<lambda>m. map_of m (activity_key row));
          lastSignIn = Option.bind activity sa_lastSignInAt
      in \<lparr>vw_provider = al_provider row, vw_email = al_email row, vw_role = al_role row, vw_invitedAt = al_invitedAt row,
          vw_invitedByEmail = truthy (Option.bind (truthy (al_invitedBy row)) (map_of emailByUserId)),
          vw_revokedAt = al_revokedAt row,
          vw_revokedByEmail = truthy (Option.bind (truthy (al_revokedBy row)) (map_of emailByUserId)),
          vw_lastSignInAt = (if activityByKey = None then None else lastSignIn),
          vw_activeSessionCount = map_option (\<lambda>_. case activity of Some a \<Rightarrow> sa_activeSessionCount a | None \<Rightarrow> 0) activityByKey,
          vw_hasEverSignedIn = map_option (\<lambda>_. lastSignIn \<noteq> None) activityByKey\<rparr>)"

record AdminListResponseDto =
  lr_results :: "AdminViewDto list"
  lr_page :: int
  lr_limit :: int
  lr_totalResults :: nat
  lr_totalPages :: int

record ListAdminsQueryDto =
  lq_provider :: "string option"
  lq_role :: "AccessRole option"
  lq_status :: "AdminAllowlistStatus option"
  lq_q :: "string option"
  lq_sortField :: "AdminAllowlistSortField option"
  lq_descending :: bool
  lq_page :: "int option"
  lq_limit :: "int option"
  lq_includeSessions :: bool

definition admin_list :: "admin_env \<Rightarrow> ListAdminsQueryDto \<Rightarrow> access_db \<Rightarrow> AdminListResponseDto" where
  "admin_list env query db =
     (let page = (case lq_page query of Some p \<Rightarrow> p | None \<Rightarrow> 1);
          limit = (case lq_limit query of Some l \<Rightarrow> l | None \<Rightarrow> 20);
          (results, total) = repo_list (ae_collate env)
            \<lparr>lo_provider = lq_provider query, lo_role = lq_role query,
             lo_status = (case lq_status query of Some s \<Rightarrow> s | None \<Rightarrow> st_active), lo_q = lq_q query,
             lo_sortField = (case lq_sortField query of Some f \<Rightarrow> f | None \<Rightarrow> by_email), lo_descending = lq_descending query,
             lo_page = page, lo_limit = limit\<rparr> db;
          emailById = resolveInviterAndRevokerEmails results db;
          activityByKey = (if lq_includeSessions query then Some (collectSessionActivity (ae_now env) results db) else None)
      in \<lparr>lr_results = map (\<lambda>row. toAdminView row emailById activityByKey) results, lr_page = page, lr_limit = limit,
          lr_totalResults = total, lr_totalPages = max 1 (- ((- int total) div limit))\<rparr>)"

subsection \<open>Mutations\<close>

definition addAdmin ::
  "admin_env \<Rightarrow> OAuthUserRow \<Rightarrow> string \<Rightarrow> string \<Rightarrow> AccessRole option \<Rightarrow> access_db \<Rightarrow> (admin_error + AdminViewDto) \<times> access_db" where
  "addAdmin env actor provider email role db =
     (case target_of env provider email of
        Inl e \<Rightarrow> (Inl e, db)
      | Inr (p, targetEmail) \<Rightarrow>
          (case findByProviderEmail p targetEmail db of
             Some existing \<Rightarrow>
               if al_active existing then (Inl (ConflictException ''An admin with this email already has access.''), db)
               else (Inl (ConflictException ''This admin was removed before. Restore their access instead.''), db)
           | None \<Rightarrow>
               (case createAdmin (ae_uuid env) (ae_now env) p targetEmail
                       (case role of Some r \<Rightarrow> r | None \<Rightarrow> admin) (Some (u_id actor)) db of
                  Some (created, db') \<Rightarrow> (Inr (toAdminView created (actorEmailMap actor) None), db')
                | None \<Rightarrow> (Inl (ConflictException ''This admin already exists. Refresh the page and try again.''), db))))"

definition restoreAdmin ::
  "admin_env \<Rightarrow> OAuthUserRow \<Rightarrow> string \<Rightarrow> string \<Rightarrow> access_db \<Rightarrow> (admin_error + AdminViewDto) \<times> access_db" where
  "restoreAdmin env actor provider email db =
     (case target_of env provider email of
        Inl e \<Rightarrow> (Inl e, db)
      | Inr (p, targetEmail) \<Rightarrow>
          (case restore (ae_now env) p targetEmail (Some (u_id actor)) None db of
             (None, db') \<Rightarrow> (Inl (NotFoundException ''No removed admin was found with this email.''), db')
           | (Some restored, db') \<Rightarrow> (Inr (toAdminView restored (actorEmailMap actor) None), db')))"

definition actor_email :: "OAuthUserRow \<Rightarrow> string option" where
  "actor_email actor = map_option normalizeEmail (truthy (u_email actor))"

definition updateRole ::
  "admin_env \<Rightarrow> OAuthUserRow \<Rightarrow> string \<Rightarrow> string \<Rightarrow> AccessRole \<Rightarrow> access_db \<Rightarrow> (admin_error + AdminViewDto) \<times> access_db" where
  "updateRole env actor provider email role db =
     (case target_of env provider email of
        Inl e \<Rightarrow> (Inl e, db)
      | Inr (p, targetEmail) \<Rightarrow>
          (case findActiveByProviderEmail p targetEmail db of
             None \<Rightarrow> (Inl (NotFoundException ''No active admin was found with this email.''), db)
           | Some existing \<Rightarrow>
               let isDemotion = (al_role existing = owner \<and> role \<noteq> owner)
               in if al_role existing = role
                  then (Inr (toAdminView existing (resolveActorEmailMap actor existing db) None), db)
                  else if isDemotion \<and> actor_email actor = Some targetEmail
                  then (Inl (ForbiddenException ''Owners cannot change their own role.''), db)
                  else if isDemotion \<and> countActiveOwners p db \<le> 1
                  then (Inl (ForbiddenException ''The last owner must remain an owner.''), db)
                  else
                    (case repo_updateRole (ae_now env) p targetEmail role db of
                       (None, db') \<Rightarrow> (Inl (NotFoundException ''No active admin was found with this email.''), db')
                     | (Some updated, db') \<Rightarrow>
                         (Inr (toAdminView updated (resolveActorEmailMap actor updated db') None), db'))))"

text \<open>A removal reads the tables to decide and then writes: the two halves are separate database round trips.\<close>

definition remove_check :: "admin_env \<Rightarrow> OAuthUserRow \<Rightarrow> string \<Rightarrow> string \<Rightarrow> access_db \<Rightarrow> admin_error + string \<times> string" where
  "remove_check env actor provider email db =
     (case target_of env provider email of
        Inl e \<Rightarrow> Inl e
      | Inr (p, targetEmail) \<Rightarrow>
          if actor_email actor = Some targetEmail then Inl (ForbiddenException ''You cannot remove yourself.'')
          else
            (case findActiveByProviderEmail p targetEmail db of
               None \<Rightarrow> Inl (NotFoundException ''No active admin was found with this email.'')
             | Some existing \<Rightarrow>
                 if al_role existing = owner \<and> countActiveOwners p db \<le> 1
                 then Inl (ForbiddenException ''The last owner cannot be removed.'')
                 else Inr (p, targetEmail)))"

definition remove_commit :: "admin_env \<Rightarrow> OAuthUserRow \<Rightarrow> string \<times> string \<Rightarrow> access_db \<Rightarrow> (admin_error + unit) \<times> access_db" where
  "remove_commit env actor target db =
     (case softRevoke (ae_now env) (fst target) (snd target) (u_id actor) db of
        (None, db1) \<Rightarrow> (Inl (NotFoundException ''No active admin was found with this email.''), db1)
      | (Some _, db1) \<Rightarrow>
          (case user_findByProviderEmail (fst target) (snd target) db1 of
             None \<Rightarrow> (Inr (), db1)
           | Some targetUser \<Rightarrow> (Inr (), snd (revokeAllByUserId (ae_now env) (u_id targetUser) db1))))"

definition removeAdmin ::
  "admin_env \<Rightarrow> OAuthUserRow \<Rightarrow> string \<Rightarrow> string \<Rightarrow> access_db \<Rightarrow> (admin_error + unit) \<times> access_db" where
  "removeAdmin env actor provider email db =
     (case remove_check env actor provider email db of
        Inl e \<Rightarrow> (Inl e, db)
      | Inr target \<Rightarrow> remove_commit env actor target db)"

definition seedOwner :: "admin_env \<Rightarrow> access_db \<Rightarrow> (admin_error + unit) \<times> access_db" where
  "seedOwner env db =
     (case ownerEmail env of
        None \<Rightarrow> (Inr (), db)
      | Some email \<Rightarrow>
          (case findByProviderEmail (ownerProvider env) email db of
             Some existing \<Rightarrow>
               if al_active existing
               then (if al_role existing = owner then (Inr (), db)
                     else (Inl (OwnerEmailConflictError (ownerProvider env) email (al_email existing)), db))
               else (Inr (), snd (restore (ae_now env) (ownerProvider env) email None (Some owner) db))
           | None \<Rightarrow>
               (case createAdmin (ae_uuid env) (ae_now env) (ownerProvider env) email owner None db of
                  Some (_, db') \<Rightarrow> (Inr (), db')
                | None \<Rightarrow> (Inl DatabaseError, db))))"

subsection \<open>Guards of the controller\<close>

definition parseProvider :: "string \<Rightarrow> admin_error + string" where
  "parseProvider value =
     (if js_lower value \<in> set OAUTH_PROVIDERS then Inr (js_lower value)
      else Inl (BadRequestException (''Unknown provider: '' @ value)))"

text \<open>\<^verbatim>\<open>RolesGuard\<close>, given the roles a route requires and the role of the request's session.\<close>

definition RolesGuard :: "AccessRole list \<Rightarrow> AccessRole option \<Rightarrow> admin_error + unit" where
  "RolesGuard requiredRoles authRole =
     (if requiredRoles = [] then Inr ()
      else
        (case authRole of
           None \<Rightarrow> Inl (UnauthorizedException ''Authentication required.'')
         | Some role \<Rightarrow>
             if role \<notin> set requiredRoles then Inl (ForbiddenException ''Required role is missing.'') else Inr ()))"

section \<open>An owner always remains\<close>

lemma roles_SomeD:
  "roles db k = Some role \<Longrightarrow>
     \<exists>r. List.find (\<lambda>r. al_key r = k) (ac_allowlist db) = Some r \<and> al_active r \<and> al_role r = role"
  by (cases "List.find (\<lambda>r. al_key r = k) (ac_allowlist db)") (auto simp: roles_def split: if_splits)

lemma active_owner_row:
  assumes "allowlist_ok db" "roles db (p, e) = Some owner" "normalizeEmail e = e"
  shows "\<exists>r. findActiveByProviderEmail p e db = Some r \<and> al_role r = owner"
  using findActive_roles[OF assms(1), of p e] assms(2,3) by (cases "findActiveByProviderEmail p e db") simp_all

lemma owners_iff:
  assumes "allowlist_ok db"
  shows "0 < countActiveOwners p db \<longleftrightarrow> (\<exists>e. roles db (p, e) = Some owner)"
proof
  assume "0 < countActiveOwners p db"
  then obtain r where "r \<in> set (ac_allowlist db)" "active_owner p r"
    by (auto simp: countActiveOwners_def filter_empty_conv)
  then show "\<exists>e. roles db (p, e) = Some owner"
    using roles_mem[OF assms, of r] by (auto simp: active_owner_def)
next
  assume "\<exists>e. roles db (p, e) = Some owner"
  then obtain e r where "List.find (\<lambda>r. al_key r = (p, e)) (ac_allowlist db) = Some r" "al_active r" "al_role r = owner"
    using roles_SomeD by blast
  then have "r \<in> set (filter (active_owner p) (ac_allowlist db))"
    by (auto simp: active_owner_def al_key_iff dest: find_Some_iff')
  then show "0 < countActiveOwners p db" by (auto simp: countActiveOwners_def filter_empty_conv)
qed

lemma target_of_InrD:
  "target_of env provider email = Inr (p, m) \<Longrightarrow>
     p = provider \<and> p \<in> set OAUTH_PROVIDERS \<and> m = normalizeEmail email \<and> m \<noteq> [] \<and> ae_isEmail env m"
  by (auto simp: target_of_def requireProvider_def normalizeEmailOrThrow_def split: if_splits)

text \<open>The calls of the service, in any order, with any actor and any clock.\<close>

inductive admin_step :: "access_db \<Rightarrow> access_db \<Rightarrow> bool" where
  step_add: "admin_step db (snd (addAdmin env actor p e role db))"
| step_restore: "admin_step db (snd (restoreAdmin env actor p e db))"
| step_role: "admin_step db (snd (updateRole env actor p e role' db))"
| step_remove: "admin_step db (snd (removeAdmin env actor p e db))"
| step_seed: "admin_step db (snd (seedOwner env db))"

lemma ac_allowlist_roles: "ac_allowlist db' = ac_allowlist db \<Longrightarrow> roles db' = roles db \<and> allowlist_ok db' = allowlist_ok db"
  by (simp add: roles_def fun_eq_iff allowlist_ok_def)

lemma revokeAll_allowlist [simp]: "ac_allowlist (snd (revokeAllByUserId now u db)) = ac_allowlist db"
  by (simp add: revokeAllByUserId_def Let_def)

lemma remove_commit_allowlist:
  "ac_allowlist (snd (remove_commit env actor t db)) = ac_allowlist (snd (softRevoke (ae_now env) (fst t) (snd t) (u_id actor) db))"
  by (auto simp: remove_commit_def split: prod.splits option.splits)

lemma remove_commit_roles:
  assumes "allowlist_ok db"
  shows "roles (snd (remove_commit env actor t db)) = (roles db)((fst t, normalizeEmail (snd t)) := None)"
    "allowlist_ok (snd (remove_commit env actor t db))"
  using ac_allowlist_roles[OF remove_commit_allowlist] softRevoke_roles[OF assms] allowlist_ops_ok(1)[OF assms] by auto

lemma add_keeps:
  assumes "allowlist_ok db" "db' = snd (addAdmin env actor p e role db)"
  shows "allowlist_ok db' \<and> (roles db k = Some r \<longrightarrow> roles db' k = Some r)"
proof (cases "db' = db")
  case False
  then obtain q m row role' where "target_of env p e = Inr (q, m)"
    "createAdmin (ae_uuid env) (ae_now env) q m role' (Some (u_id actor)) db = Some (row, db')"
    using assms(2) by (auto simp: addAdmin_def split: sum.splits prod.splits option.splits if_splits)
  moreover have "normalizeEmail m \<noteq> []" using target_of_InrD[OF calculation(1)] by auto
  ultimately show ?thesis using createAdmin_ok(1,2)[OF assms(1)] by blast
qed (use assms in simp)

lemma restore_keeps:
  assumes "allowlist_ok db" "db' = snd (restoreAdmin env actor p e db)"
  shows "allowlist_ok db' \<and> (roles db k = Some r \<longrightarrow> roles db' k = Some r)"
proof (cases "target_of env p e")
  case (Inr t)
  then have "db' = snd (restore (ae_now env) (fst t) (snd t) (Some (u_id actor)) None db)"
    using assms(2) by (auto simp: restoreAdmin_def split: prod.splits option.splits)
  then show ?thesis using allowlist_ops_ok(3)[OF assms(1)] restore_roles[OF assms(1)] by simp
qed (use assms in \<open>simp add: restoreAdmin_def\<close>)

lemma seed_keeps:
  assumes "allowlist_ok db" "db' = snd (seedOwner env db)"
  shows "allowlist_ok db' \<and> (roles db k = Some r \<longrightarrow> roles db' k = Some r)"
proof (cases "ownerEmail env")
  case (Some m)
  then have m: "m \<noteq> []" "normalizeEmail m = m"
    by (auto simp: ownerEmail_def truthy_def split: option.splits list.splits)
  consider "db' = db" | "db' = snd (restore (ae_now env) (ownerProvider env) m None (Some owner) db)"
    | row where "createAdmin (ae_uuid env) (ae_now env) (ownerProvider env) m owner None db = Some (row, db')"
    using assms(2) Some by (auto simp: seedOwner_def split: option.splits if_splits)
  then show ?thesis
  proof cases
    case 3
    then show ?thesis using createAdmin_ok[OF assms(1) 3] m by simp
  qed (use assms allowlist_ops_ok(3)[OF assms(1)] restore_roles[OF assms(1)] in simp_all)
qed (use assms in \<open>simp add: seedOwner_def\<close>)

lemma role_step:
  assumes "allowlist_ok db" "db' = snd (updateRole env actor p e role db)"
  shows "allowlist_ok db' \<and> (roles db (q, o') = Some owner \<longrightarrow> (\<exists>o''. roles db' (q, o'') = Some owner))"
proof (cases "db' = db")
  case False
  then obtain s m existing where t: "target_of env p e = Inr (s, m)"
    and x: "findActiveByProviderEmail s m db = Some existing" "al_role existing \<noteq> role"
      "al_role existing = owner \<longrightarrow> 1 < countActiveOwners s db"
    and db': "db' = snd (repo_updateRole (ae_now env) s m role db)"
    using assms(2) by (auto simp: updateRole_def Let_def split: sum.splits prod.splits option.splits if_splits)
  have "roles db (s, normalizeEmail m) = Some owner \<Longrightarrow> 1 < countActiveOwners s db"
    using x findActive_roles[OF assms(1), of s m] by simp
  then show ?thesis
    using acl.set_role_keeps_owner[OF assms(1)] allowlist_ops_ok(2)[OF assms(1)] unfolding db' by blast
qed (use assms in auto)

lemma remove_step:
  assumes "allowlist_ok db" "db' = snd (removeAdmin env actor p e db)"
  shows "allowlist_ok db' \<and> (roles db (q, o') = Some owner \<longrightarrow> (\<exists>o''. roles db' (q, o'') = Some owner))"
proof (cases "remove_check env actor p e db")
  case (Inr t)
  then obtain existing where x: "findActiveByProviderEmail (fst t) (snd t) db = Some existing"
      "al_role existing = owner \<longrightarrow> 1 < countActiveOwners (fst t) db"
    by (auto simp: remove_check_def split: sum.splits prod.splits option.splits if_splits)
  have db': "db' = snd (remove_commit env actor t db)" using assms(2) Inr by (simp add: removeAdmin_def)
  have one: "roles db (fst t, normalizeEmail (snd t)) = Some owner \<Longrightarrow> 1 < countActiveOwners (fst t) db"
    using x findActive_roles[OF assms(1), of "fst t" "snd t"] by simp
  have "roles db' = roles (snd (softRevoke (ae_now env) (fst t) (snd t) (u_id actor) db))"
    unfolding db' using ac_allowlist_roles[OF remove_commit_allowlist] by simp
  then show ?thesis
    using acl.revoke_keeps_owner[OF assms(1) _ one] remove_commit_roles(2)[OF assms(1)] unfolding db' by simp
qed (use assms in \<open>auto simp: removeAdmin_def\<close>)

lemma admin_step_keeps:
  assumes "admin_step db db'" "allowlist_ok db"
  shows "allowlist_ok db' \<and> (0 < countActiveOwners p db \<longrightarrow> 0 < countActiveOwners p db')"
proof -
  have "allowlist_ok db' \<and> (roles db (p, o') = Some owner \<longrightarrow> (\<exists>o''. roles db' (p, o'') = Some owner))" for o'
    using assms(1)
  proof (cases rule: admin_step.cases)
    case (step_add env actor q e role)
    then show ?thesis using add_keeps[OF assms(2), of db'] by blast
  next
    case (step_restore env actor q e)
    then show ?thesis using restore_keeps[OF assms(2), of db'] by blast
  next
    case (step_role env actor q e role)
    then show ?thesis by (rule role_step[OF assms(2)])
  next
    case (step_remove env actor q e)
    then show ?thesis by (rule remove_step[OF assms(2)])
  next
    case (step_seed env)
    then show ?thesis using seed_keeps[OF assms(2), of db'] by blast
  qed
  then show ?thesis using owners_iff[OF assms(2), of p] owners_iff[of db' p] by blast
qed

lemma admin_steps_keep:
  assumes "admin_step\<^sup>*\<^sup>* db db'" "allowlist_ok db"
  shows "allowlist_ok db' \<and> (0 < countActiveOwners p db \<longrightarrow> 0 < countActiveOwners p db')"
  using assms(1) by (induction rule: rtranclp_induct) (use assms(2) admin_step_keeps in blast)+

text \<open>
  C12: Whatever calls the administration executes one after the other, in any order and by any actor, the
  allowlist keeps one row per provider and address, and a provider that has an active owner never loses its
  last one.
\<close>

theorem owner_never_lost:
  assumes "admin_step\<^sup>*\<^sup>* db db'" "allowlist_ok db" "0 < countActiveOwners p db"
  shows "allowlist_ok db' \<and> 0 < countActiveOwners p db'"
  using admin_steps_keep[OF assms(1,2)] assms(3) by blast

definition sample_owner :: "string \<Rightarrow> AccessAllowlistRow" where
  "sample_owner email = \<lparr>al_id = email, al_provider = ''deep-id'', al_email = email, al_role = owner, al_invitedBy = None,
     al_invitedAt = 0, al_revokedAt = None, al_revokedBy = None, al_createdAt = 0, al_updatedAt = 0\<rparr>"

definition sample_user :: "string \<Rightarrow> string \<Rightarrow> OAuthUserRow" where
  "sample_user i email = \<lparr>u_id = i, u_provider = ''deep-id'', u_sub = i, u_aud = [], u_auth_time = None,
     u_email = Some email, u_email_verified = Some True, u_iat = None, u_iss = None, u_picture = None, u_rat = None,
     u_username = None, u_createdAt = 0, u_updatedAt = 0\<rparr>"

definition sample_access :: access_db where
  "sample_access = \<lparr>ac_allowlist = [sample_owner ''a@x'', sample_owner ''b@x''],
     ac_users = [sample_user ''ua'' ''a@x'', sample_user ''ub'' ''b@x''], ac_sessions = []\<rparr>"

definition sample_admin_env :: admin_env where
  "sample_admin_env = \<lparr>ae_isEmail = (\<lambda>s. CHR ''@'' \<in> set s), ae_collate = (\<lambda>a b. True), ae_uuid = ''id'', ae_now = 5,
     ae_ownerEmail = None, ae_ownerProvider = None\<rparr>"

lemma sample_access_ok: "allowlist_ok sample_access" "countActiveOwners ''deep-id'' sample_access = 2"
  by code_simp+

theorem owner_never_lost_witness:
  "0 < countActiveOwners ''deep-id'' (snd (removeAdmin sample_admin_env (sample_user ''ua'' ''a@x'') ''deep-id'' ''b@x'' sample_access))"
  using owner_never_lost[OF r_into_rtranclp[of admin_step, OF step_remove] sample_access_ok(1),
      of "''deep-id''" sample_admin_env "sample_user ''ua'' ''a@x''" "''deep-id''" "''b@x''"]
    sample_access_ok(2) by simp

lemma two_owners:
  assumes "allowlist_ok db" "countActiveOwners p db = 2" "roles db (p, a) = Some owner" "roles db (p, b) = Some owner" "a \<noteq> b"
    "roles db (p, e) = Some owner"
  shows "e = a \<or> e = b"
proof -
  let ?os = "filter (active_owner p) (ac_allowlist db)"
  have mem: "x \<in> al_email ` set ?os" if x: "roles db (p, x) = Some owner" for x
  proof -
    obtain r where "List.find (\<lambda>r. al_key r = (p, x)) (ac_allowlist db) = Some r" "al_active r" "al_role r = owner"
      using roles_SomeD[OF x] by blast
    then have "r \<in> set ?os" "al_email r = x" by (auto simp: active_owner_def al_key_iff dest: find_Some_iff')
    then show ?thesis by blast
  qed
  have "card (al_email ` set ?os) \<le> 2"
    using card_image_le[of "set ?os" al_email] card_length[of ?os] assms(2) by (simp add: countActiveOwners_def)
  moreover have "card {a, b, e} \<le> card (al_email ` set ?os)" using mem assms(3,4,6) by (intro card_mono) auto
  ultimately show ?thesis using assms(5) by (auto simp: card_insert_if split: if_splits)
qed

text \<open>
  Two owners who remove each other at the same time both pass the check that an owner remains, since each
  counts before the other writes; when both writes are made the provider has no owner left.
\<close>

lemma concurrent_removals_lose_owners:
  assumes "allowlist_ok db" "provider \<in> set OAUTH_PROVIDERS" "countActiveOwners provider db = 2"
    "roles db (provider, a) = Some owner" "roles db (provider, b) = Some owner" "a \<noteq> b"
    "actor_email actorA = Some a" "actor_email actorB = Some b"
    "normalizeEmail a = a" "normalizeEmail b = b" "ae_isEmail env a" "ae_isEmail env b"
  shows "remove_check env actorA provider b db = Inr (provider, b)
    \<and> remove_check env actorB provider a db = Inr (provider, a)
    \<and> countActiveOwners provider (snd (remove_commit env actorB (provider, a) (snd (remove_commit env actorA (provider, b) db)))) = 0"
proof -
  let ?db1 = "snd (remove_commit env actorA (provider, b) db)" let ?db2 = "snd (remove_commit env actorB (provider, a) ?db1)"
  obtain ra rb where ra: "findActiveByProviderEmail provider a db = Some ra" "al_role ra = owner"
    and rb: "findActiveByProviderEmail provider b db = Some rb" "al_role rb = owner"
    using active_owner_row[OF assms(1,4,9)] active_owner_row[OF assms(1,5,10)] by blast
  have ne: "a \<noteq> []" "b \<noteq> []" using ra rb assms(9,10) by (auto simp: findActiveByProviderEmail_def)
  have checks: "remove_check env actorA provider b db = Inr (provider, b)" "remove_check env actorB provider a db = Inr (provider, a)"
    using assms ra rb ne
    by (auto simp: remove_check_def target_of_def requireProvider_def normalizeEmailOrThrow_def)
  have only: "e = a \<or> e = b" if "roles db (provider, e) = Some owner" for e
    by (rule two_owners[OF assms(1,3,4,5,6) that])
  have ok1: "allowlist_ok ?db1" "allowlist_ok ?db2" using remove_commit_roles(2) assms(1) by blast+
  have "roles ?db2 = (roles db)((provider, b) := None, (provider, a) := None)"
    using remove_commit_roles(1)[OF assms(1)] remove_commit_roles(1)[OF ok1(1)] assms(9,10) by simp
  then have "\<nexists>e. roles ?db2 (provider, e) = Some owner" using only by auto
  then show ?thesis using checks owners_iff[OF ok1(2), of provider] by auto
qed

theorem concurrent_removals_lose_owners_witness:
  "countActiveOwners ''deep-id'' (snd (remove_commit sample_admin_env (sample_user ''ub'' ''b@x'') (''deep-id'', ''a@x'')
     (snd (remove_commit sample_admin_env (sample_user ''ua'' ''a@x'') (''deep-id'', ''b@x'') sample_access)))) = 0"
proof -
  have "''deep-id'' \<in> set OAUTH_PROVIDERS" "roles sample_access (''deep-id'', ''a@x'') = Some owner"
    "roles sample_access (''deep-id'', ''b@x'') = Some owner"
    "actor_email (sample_user ''ua'' ''a@x'') = Some ''a@x''" "actor_email (sample_user ''ub'' ''b@x'') = Some ''b@x''"
    "normalizeEmail ''a@x'' = ''a@x''" "normalizeEmail ''b@x'' = ''b@x''"
    "ae_isEmail sample_admin_env ''a@x''" "ae_isEmail sample_admin_env ''b@x''" by code_simp+
  then show ?thesis using concurrent_removals_lose_owners[OF sample_access_ok(1) _ sample_access_ok(2)] by simp
qed

text \<open>
  Removing an admin revokes sessions only of a user whose stored address is spelled exactly like the
  normalised one.  The address of a user is stored as the provider spelled it, so when it spelled it with a
  capital letter or a blank, the removal leaves every session of that user as it was.
\<close>

lemma removal_misses_other_spellings:
  assumes "\<forall>u \<in> set (ac_users db). u_provider u = p \<longrightarrow> u_email u \<noteq> Some (normalizeEmail e)"
  shows "ac_sessions (snd (removeAdmin env actor p e db)) = ac_sessions db"
proof (cases "remove_check env actor p e db")
  case (Inr t)
  then have t: "t = (p, normalizeEmail e)"
    by (auto simp: remove_check_def split: sum.splits prod.splits option.splits if_splits dest!: target_of_InrD)
  have keep: "ac_users (snd (softRevoke n p m a db)) = ac_users db" "ac_sessions (snd (softRevoke n p m a db)) = ac_sessions db" for n m a
    by (simp_all add: softRevoke_def update_address_def Let_def)
  obtain r db1 where r: "softRevoke (ae_now env) p (normalizeEmail e) (u_id actor) db = (r, db1)" by fastforce
  have "filter (\<lambda>u. u_provider u = p \<and> u_email u = Some (normalizeEmail e)) (ac_users db1) = []"
    using assms keep(1)[of "ae_now env" "normalizeEmail e" "u_id actor"] r by (auto simp: filter_empty_conv)
  then have "user_findByProviderEmail p (normalizeEmail e) db1 = None"
    by (simp add: user_findByProviderEmail_def sort_by_def)
  then show ?thesis
    using Inr t r keep(2)[of "ae_now env" "normalizeEmail e" "u_id actor"]
    by (simp add: removeAdmin_def remove_commit_def split: option.splits)
qed (simp add: removeAdmin_def)

definition sample_capital :: access_db where
  "sample_capital = sample_access\<lparr>ac_users := [sample_user ''ua'' ''a@x'', sample_user ''ub'' ''B@x''],
     ac_sessions := [\<lparr>s_id = ''1'', s_sessionId = ''sid'', s_provider = ''deep-id'', s_userId = ''ub'', s_accessTokenCiphertext = ''t'',
       s_refreshTokenCiphertext = ''r'', s_accessTokenExpiresAt = 90, s_refreshTokenExpiresAt = 90, s_scope = [], s_state = ''s'',
       s_codeVerifier = ''v'', s_lastRefreshedAt = None, s_revokedAt = None, s_expiresAt = 90, s_createdAt = 0, s_updatedAt = 0\<rparr>]\<rparr>"

theorem removal_misses_other_spellings_witness:
  "removeAdmin sample_admin_env (sample_user ''ua'' ''a@x'') ''deep-id'' ''b@x'' sample_capital
     = (Inr (), snd (removeAdmin sample_admin_env (sample_user ''ua'' ''a@x'') ''deep-id'' ''b@x'' sample_capital))
   \<and> findActiveBySessionId 5 ''sid'' (snd (removeAdmin sample_admin_env (sample_user ''ua'' ''a@x'') ''deep-id'' ''b@x'' sample_capital)) \<noteq> None"
proof -
  have "fst (removeAdmin sample_admin_env (sample_user ''ua'' ''a@x'') ''deep-id'' ''b@x'' sample_capital) = Inr ()"
    "\<forall>u \<in> set (ac_users sample_capital). u_provider u = ''deep-id'' \<longrightarrow> u_email u \<noteq> Some (normalizeEmail ''b@x'')"
    "findActiveBySessionId 5 ''sid'' sample_capital \<noteq> None" by code_simp+
  then show ?thesis
    using removal_misses_other_spellings[of sample_capital "''deep-id''" "''b@x''" sample_admin_env "sample_user ''ua'' ''a@x''"]
    by (simp add: prod_eq_iff findActiveBySessionId_def)
qed

end
