(* ===== verification/Auth_Service.thy ===== *)
theory Auth_Service
  imports Admin_Service
begin

text \<open>
  Signing in and keeping a session (\<^verbatim>\<open>auth.service.ts\<close>, \<^verbatim>\<open>oauth-auth-provider.service.ts\<close>,
  \<^verbatim>\<open>oauth-provider-client.service.ts\<close>).  A handler is a computation over the tables, the cache of discovery
  documents and the cookies the response sets, and ends in a value or an exception.

  The HTTP calls are the argument \<open>av_fetch\<close>: it answers a request and also returns the state in which the
  handler goes on, since other requests run while this one waits.  Encryption, random tokens and the
  resolution of a relative URL are arguments as well.  A handler reads the clock once (\<open>av_now\<close>).  In the
  documents of the provider (discovery and tokens) a field is absent or has its declared type.
\<close>

section \<open>Computations\<close>

datatype auth_error = Unauthorized string | BadGateway string | BadRequest string | TypeError | NetworkError | CryptoError | QueryError

record OAuthDiscoveryDocument =
  dd_issuer :: string
  dd_authorization_endpoint :: string
  dd_token_endpoint :: string
  dd_userinfo_endpoint :: string

datatype cookie = SetSession string int | ClearSession | SetFlow string string string | ClearFlow

record auth_state =
  as_db :: access_db
  as_discovery :: "(string \<times> (auth_error + OAuthDiscoveryDocument)) list"
  as_cookies :: "cookie list"

type_synonym 'a auth = "auth_state \<Rightarrow> (auth_error + 'a) \<times> auth_state"

definition aret :: "'a \<Rightarrow> 'a auth" where "aret x st = (Inr x, st)"

definition athrow :: "auth_error \<Rightarrow> 'a auth" where "athrow e st = (Inl e, st)"

definition abind :: "'a auth \<Rightarrow> ('a \<Rightarrow> 'b auth) \<Rightarrow> 'b auth" where
  "abind m f st = (case m st of (Inl e, st') \<Rightarrow> (Inl e, st') | (Inr x, st') \<Rightarrow> f x st')"

definition acatch :: "'a auth \<Rightarrow> (auth_error \<Rightarrow> 'a auth) \<Rightarrow> 'a auth" where
  "acatch m h st = (case m st of (Inl e, st') \<Rightarrow> h e st' | (Inr x, st') \<Rightarrow> (Inr x, st'))"

definition afinally :: "'a auth \<Rightarrow> (auth_state \<Rightarrow> auth_state) \<Rightarrow> 'a auth" where
  "afinally m f st = (case m st of (r, st') \<Rightarrow> (r, f st'))"

definition get_db :: "access_db auth" where "get_db st = (Inr (as_db st), st)"

definition modify_db :: "(access_db \<Rightarrow> access_db) \<Rightarrow> unit auth" where
  "modify_db f st = (Inr (), st\<lparr>as_db := f (as_db st)\<rparr>)"

text \<open>A repository method that also returns a value.\<close>

definition with_db :: "(access_db \<Rightarrow> 'a \<times> access_db) \<Rightarrow> 'a auth" where
  "with_db f st = (case f (as_db st) of (x, db') \<Rightarrow> (Inr x, st\<lparr>as_db := db'\<rparr>))"

definition add_cookie :: "cookie \<Rightarrow> auth_state \<Rightarrow> auth_state" where
  "add_cookie c st = st\<lparr>as_cookies := as_cookies st @ [c]\<rparr>"

definition send_cookie :: "cookie \<Rightarrow> unit auth" where "send_cookie c st = (Inr (), add_cookie c st)"

fun alift :: "auth_error + 'a \<Rightarrow> 'a auth" where
  "alift (Inl e) = athrow e"
| "alift (Inr x) = aret x"

section \<open>The environment\<close>

datatype http_body = EmptyBody | MalformedBody | JsonBody json

datatype http_response = FetchFailed | HttpResponse bool http_body

datatype http_request =
    GetDiscovery string
  | PostToken string string "(string \<times> string) list"
  | GetUserInfo string string

record OAuthProviderAuthConfig =
  pc_issuerUrl :: string
  pc_clientId :: string
  pc_redirectUri :: string
  pc_scope :: string

record auth_env =
  av_mode :: string
  av_now :: int
  av_ttlSeconds :: int
  av_leewaySeconds :: int
  av_appPublicUrl :: string
  av_providers :: "(string \<times> OAuthProviderAuthConfig) list"
  av_fetch :: "http_request \<Rightarrow> auth_state \<Rightarrow> http_response \<times> auth_state"
  av_resolve :: "string \<Rightarrow> string \<Rightarrow> string"
  av_encrypt :: "string \<Rightarrow> string"
  av_decrypt :: "string \<Rightarrow> string option"
  av_sessionToken :: string
  av_stateToken :: string
  av_verifierToken :: string
  av_userUuid :: string
  av_sessionUuid :: string

definition AUTH_MODE_MOCK :: string where "AUTH_MODE_MOCK = ''mock''"

definition fetch :: "auth_env \<Rightarrow> http_request \<Rightarrow> (bool \<times> http_body) auth" where
  "fetch env req st =
     (case av_fetch env req st of
        (FetchFailed, st') \<Rightarrow> (Inl NetworkError, st')
      | (HttpResponse ok body, st') \<Rightarrow> (Inr (ok, body), st'))"

section \<open>The OAuth client\<close>

definition strip_slashes :: "string \<Rightarrow> string" where
  "strip_slashes s = rev (dropWhile (\<lambda>c. c = CHR ''/'') (rev s))"

definition parseJsonResponse :: "string \<Rightarrow> http_body \<Rightarrow> auth_error + json" where
  "parseJsonResponse provider body =
     (case body of
        EmptyBody \<Rightarrow> Inl (BadGateway (''OAuth provider '' @ provider @ '' returned an empty response.''))
      | MalformedBody \<Rightarrow> Inl (BadGateway (''OAuth provider '' @ provider @ '' returned malformed JSON.''))
      | JsonBody j \<Rightarrow> Inr j)"

definition ensureOAuthMode :: "auth_env \<Rightarrow> string \<Rightarrow> unit auth" where
  "ensureOAuthMode env provider =
     (if av_mode env = AUTH_MODE_MOCK
      then athrow (BadGateway (''OAuth provider '' @ provider @ '' is disabled when AUTH_MODE=mock.'')) else aret ())"

text \<open>\<^verbatim>\<open>document.field ?? fallback\<close>.\<close>

definition str_or :: "json \<Rightarrow> string \<Rightarrow> string" where
  "str_or v fallback = (case v of JStr s \<Rightarrow> s | _ \<Rightarrow> fallback)"

definition discovery_of :: "auth_env \<Rightarrow> string \<Rightarrow> string \<Rightarrow> json \<Rightarrow> auth_error + OAuthDiscoveryDocument" where
  "discovery_of env provider normalizedIssuerUrl discovery =
     (let issuer = strip_slashes (str_or (jfield ''issuer'' discovery) normalizedIssuerUrl)
      in if discovery = JNull then Inl TypeError
         else if issuer \<noteq> normalizedIssuerUrl
         then Inl (Unauthorized (''OAuth provider '' @ provider @ '' discovery issuer does not match configuration.''))
         else Inr \<lparr>dd_issuer = issuer,
           dd_authorization_endpoint = str_or (jfield ''authorization_endpoint'' discovery) (av_resolve env ''/oauth2/auth'' (issuer @ ''/'')),
           dd_token_endpoint = str_or (jfield ''token_endpoint'' discovery) (av_resolve env ''/oauth2/token'' (issuer @ ''/'')),
           dd_userinfo_endpoint = str_or (jfield ''userinfo_endpoint'' discovery) (av_resolve env ''/userinfo'' (issuer @ ''/''))\<rparr>)"

definition fetchDiscoveryDocument :: "auth_env \<Rightarrow> string \<Rightarrow> string \<Rightarrow> OAuthDiscoveryDocument auth" where
  "fetchDiscoveryDocument env provider normalizedIssuerUrl =
     abind (fetch env (GetDiscovery (av_resolve env ''/.well-known/openid-configuration'' (normalizedIssuerUrl @ ''/'')))) (\<lambda>(ok, body).
       if \<not> ok then athrow (BadGateway (''OAuth provider '' @ provider @ '' discovery request failed.''))
       else abind (alift (parseJsonResponse provider body)) (\<lambda>j. alift (discovery_of env provider normalizedIssuerUrl j)))"

text \<open>The cache holds the promise of the first request, also when it was rejected.\<close>

definition getDiscoveryDocument :: "auth_env \<Rightarrow> string \<Rightarrow> string \<Rightarrow> OAuthDiscoveryDocument auth" where
  "getDiscoveryDocument env provider issuerUrl =
     abind (ensureOAuthMode env provider) (\<lambda>_ st.
       let issuer = strip_slashes issuerUrl
       in case map_of (as_discovery st) issuer of
            Some promise \<Rightarrow> (promise, st)
          | None \<Rightarrow>
              (case fetchDiscoveryDocument env provider issuer st of
                 (promise, st') \<Rightarrow> (promise, st'\<lparr>as_discovery := AList.update issuer promise (as_discovery st')\<rparr>)))"

record OAuthTokenResponse =
  tr_access_token :: string
  tr_expires_in :: jsnum
  tr_refresh_token :: "string option"
  tr_refresh_token_expires_in :: "jsnum option"
  tr_scope :: "string option"

definition jstr_opt :: "json \<Rightarrow> string option" where
  "jstr_opt v = (case v of JStr s \<Rightarrow> Some s | _ \<Rightarrow> None)"

definition jnum_opt :: "json \<Rightarrow> jsnum option" where
  "jnum_opt v = (case v of JNum n \<Rightarrow> Some n | _ \<Rightarrow> None)"

definition token_of :: "string \<Rightarrow> json \<Rightarrow> auth_error + OAuthTokenResponse" where
  "token_of provider reply =
     (if reply = JNull then Inl TypeError
      else
        (case (jstr (jfield ''access_token'' reply), jnum_opt (jfield ''expires_in'' reply)) of
           (token, Some seconds) \<Rightarrow>
             if token = [] \<or> \<not> jis_finite seconds \<or> jle seconds (Fin 0)
             then Inl (BadGateway (''OAuth provider '' @ provider @ '' token response is incomplete.''))
             else Inr \<lparr>tr_access_token = token, tr_expires_in = seconds,
                       tr_refresh_token = jstr_opt (jfield ''refresh_token'' reply),
                       tr_refresh_token_expires_in = jnum_opt (jfield ''refresh_token_expires_in'' reply),
                       tr_scope = jstr_opt (jfield ''scope'' reply)\<rparr>
         | (token, None) \<Rightarrow> Inl (BadGateway (''OAuth provider '' @ provider @ '' token response is incomplete.''))))"

definition error_payload :: "http_body \<Rightarrow> json" where
  "error_payload body = (case body of JsonBody j \<Rightarrow> j | _ \<Rightarrow> JNull)"

definition fetchTokenResponse ::
  "auth_env \<Rightarrow> string \<Rightarrow> OAuthProviderAuthConfig \<Rightarrow> (string \<times> string) list \<Rightarrow> OAuthTokenResponse auth" where
  "fetchTokenResponse env provider config params =
     abind (getDiscoveryDocument env provider (pc_issuerUrl config)) (\<lambda>discovery.
     abind (fetch env (PostToken (dd_token_endpoint discovery) (pc_clientId config) params)) (\<lambda>(ok, body).
       if \<not> ok
       then
         (let payload = error_payload body
          in if jfield ''error'' payload = JStr ''invalid_grant''
             then athrow (Unauthorized (str_or (jfield ''error_description'' payload)
                    (''OAuth provider '' @ provider @ '' rejected the authorization grant.'')))
             else athrow (BadGateway (str_or (jfield ''error_description'' payload)
                    (''OAuth provider '' @ provider @ '' token exchange failed.''))))
       else abind (alift (parseJsonResponse provider body)) (\<lambda>j. alift (token_of provider j))))"

definition getProviderConfig :: "auth_env \<Rightarrow> string \<Rightarrow> auth_error + OAuthProviderAuthConfig" where
  "getProviderConfig env provider =
     (case map_of (av_providers env) provider of
        None \<Rightarrow> Inl (BadRequest (''Unknown OAuth provider: '' @ provider)) | Some c \<Rightarrow> Inr c)"

definition is_sep :: "char \<Rightarrow> bool" where
  "is_sep c \<longleftrightarrow> c = CHR '','' \<or> js_is_space c"

text \<open>\<^verbatim>\<open>split(/[,\\s]+/)\<close> with the empty pieces filtered out.\<close>

fun words_of :: "string \<Rightarrow> string \<Rightarrow> string list" where
  "words_of acc [] = (if acc = [] then [] else [rev acc])"
| "words_of acc (c # cs) =
     (if is_sep c then (if acc = [] then words_of [] cs else rev acc # words_of [] cs) else words_of (c # acc) cs)"

definition getScopes :: "auth_env \<Rightarrow> string \<Rightarrow> auth_error + string list" where
  "getScopes env provider =
     (case getProviderConfig env provider of Inl e \<Rightarrow> Inl e | Inr c \<Rightarrow> Inr (words_of [] (pc_scope c)))"

definition exchangeCodeForTokens :: "auth_env \<Rightarrow> string \<Rightarrow> string \<Rightarrow> string \<Rightarrow> OAuthTokenResponse auth" where
  "exchangeCodeForTokens env provider code codeVerifier =
     abind (alift (getProviderConfig env provider)) (\<lambda>config.
     abind (ensureOAuthMode env provider) (\<lambda>_.
       fetchTokenResponse env provider config
         [(''grant_type'', ''authorization_code''), (''code'', code), (''redirect_uri'', pc_redirectUri config),
          (''code_verifier'', codeVerifier)]))"

definition refreshTokens :: "auth_env \<Rightarrow> string \<Rightarrow> string \<Rightarrow> OAuthTokenResponse auth" where
  "refreshTokens env provider refreshToken =
     abind (alift (getProviderConfig env provider)) (\<lambda>config.
     abind (ensureOAuthMode env provider) (\<lambda>_.
       fetchTokenResponse env provider config [(''grant_type'', ''refresh_token''), (''refresh_token'', refreshToken)]))"

definition fetchUserInfo :: "auth_env \<Rightarrow> string \<Rightarrow> string \<Rightarrow> json auth" where
  "fetchUserInfo env provider accessToken =
     abind (alift (getProviderConfig env provider)) (\<lambda>config.
     abind (getDiscoveryDocument env provider (pc_issuerUrl config)) (\<lambda>discovery.
     abind (fetch env (GetUserInfo (dd_userinfo_endpoint discovery) accessToken)) (\<lambda>(ok, body).
       if \<not> ok then athrow (BadGateway (''OAuth provider '' @ provider @ '' userinfo request failed.''))
       else alift (parseJsonResponse provider body))))"

section \<open>Signing in\<close>

definition scopeToArray :: "string option \<Rightarrow> string list \<Rightarrow> string list" where
  "scopeToArray scope fallback = (case truthy scope of None \<Rightarrow> fallback | Some s \<Rightarrow> words_of [] s)"

text \<open>A \<^verbatim>\<open>Date\<close> outside the range of a time value is invalid, \<^verbatim>\<open>None\<close>; a database refuses it.\<close>

definition js_date :: "jsnum \<Rightarrow> int option" where
  "js_date t = (case t of Fin x \<Rightarrow> if \<bar>x\<bar> \<le> 8640000000000000 then Some (if 0 \<le> x then \<lfloor>x\<rfloor> else \<lceil>x\<rceil>) else None | _ \<Rightarrow> None)"

definition toDateFromNow :: "int \<Rightarrow> jsnum option \<Rightarrow> int \<Rightarrow> int option" where
  "toDateFromNow now seconds fallbackSeconds =
     (let effectiveSeconds = (case seconds of
            Some n \<Rightarrow> if jis_finite n \<and> jless (Fin 0) n then n else jint fallbackSeconds
          | None \<Rightarrow> jint fallbackSeconds)
      in js_date (jadd (jint now) (jmul effectiveSeconds (jint 1000))))"

text \<open>\<^verbatim>\<open>a.getTime() < b.getTime() ? a : b\<close>: the time of an invalid date compares as false.\<close>

definition earlier :: "int option \<Rightarrow> int \<Rightarrow> int" where
  "earlier a b = (case a of Some t \<Rightarrow> if t < b then t else b | None \<Rightarrow> b)"

definition nonblank :: "string \<Rightarrow> bool" where
  "nonblank s \<longleftrightarrow> js_trim s \<noteq> []"

fun coerceStringArray :: "json \<Rightarrow> string list" where
  "coerceStringArray (JArr vs) = filter nonblank (List.map_filter jstr_opt vs)"
| "coerceStringArray _ = []"

definition coerceAudience :: "json \<Rightarrow> string list option" where
  "coerceAudience value =
     (case value of
        JStr s \<Rightarrow> if nonblank s then Some [s] else None
      | _ \<Rightarrow> if coerceStringArray value \<noteq> [] then Some (coerceStringArray value) else None)"

definition finite_opt :: "json \<Rightarrow> jsnum option" where
  "finite_opt v = (case v of JNum n \<Rightarrow> if jis_finite n then Some n else None | _ \<Rightarrow> None)"

definition jbool_opt :: "json \<Rightarrow> bool option" where
  "jbool_opt v = (case v of JBool b \<Rightarrow> Some b | _ \<Rightarrow> None)"

definition syncUserFromUserInfo :: "auth_env \<Rightarrow> string \<Rightarrow> json \<Rightarrow> OAuthUserRow auth" where
  "syncUserFromUserInfo env provider userInfo =
     (if \<not> nonblank (jstr (jfield ''sub'' userInfo))
      then athrow (BadGateway (''OAuth provider '' @ provider @ '' userinfo response is missing a stable subject identifier.''))
      else with_db (upsertBySub (av_userUuid env) (av_now env) provider (jstr (jfield ''sub'' userInfo))
        \<lparr>up_aud = Some (coerceAudience (jfield ''aud'' userInfo)), up_auth_time = Some (finite_opt (jfield ''auth_time'' userInfo)),
         up_email = Some (jstr_opt (jfield ''email'' userInfo)), up_email_verified = Some (jbool_opt (jfield ''email_verified'' userInfo)),
         up_iat = Some (finite_opt (jfield ''iat'' userInfo)), up_iss = Some (jstr_opt (jfield ''iss'' userInfo)),
         up_picture = Some (jstr_opt (jfield ''picture'' userInfo)), up_rat = Some (finite_opt (jfield ''rat'' userInfo)),
         up_username = Some (jstr_opt (jfield ''username'' userInfo))\<rparr>))"

definition denyCallbackAccess :: "auth_env \<Rightarrow> string \<Rightarrow> string" where
  "denyCallbackAccess env reason = strip_slashes (av_appPublicUrl env) @ ''/access-denied?reason='' @ reason"

definition info_email :: "json \<Rightarrow> string option" where
  "info_email userInfo = truthy (map_option normalizeEmail (jstr_opt (jfield ''email'' userInfo)))"

definition getCallbackAccessDeniedRedirectUrl :: "auth_env \<Rightarrow> string \<Rightarrow> json \<Rightarrow> access_db \<Rightarrow> string option" where
  "getCallbackAccessDeniedRedirectUrl env provider userInfo db =
     (case info_email userInfo of
        None \<Rightarrow> Some (denyCallbackAccess env ''email_unverified'')
      | Some email \<Rightarrow>
          if jfield ''email_verified'' userInfo \<noteq> JBool True then Some (denyCallbackAccess env ''email_unverified'')
          else if isAllowlisted provider email db = None then Some (denyCallbackAccess env ''not_allowlisted'')
          else None)"

record AuthFlowState =
  fl_provider :: string
  fl_state :: string
  fl_codeVerifier :: string

definition save_session :: "auth_env \<Rightarrow> AuthSessionCreateInput \<Rightarrow> AuthSession auth" where
  "save_session env data st =
     (case session_create (av_sessionUuid env) (av_now env) data (as_db st) of
        None \<Rightarrow> (Inl QueryError, st)
      | Some (s, db') \<Rightarrow> (Inr s, st\<lparr>as_db := db'\<rparr>))"

definition createApplicationSession :: "auth_env \<Rightarrow> OAuthUserRow \<Rightarrow> OAuthTokenResponse \<Rightarrow> AuthFlowState \<Rightarrow> AuthSession auth" where
  "createApplicationSession env user tokenResponse authFlow =
     (case truthy (tr_refresh_token tokenResponse) of
        None \<Rightarrow> athrow (BadGateway (''OAuth provider '' @ fl_provider authFlow @ '' token response is missing the refresh token.''))
      | Some refreshToken \<Rightarrow>
          (let sessionAbsoluteExpiry = av_now env + av_ttlSeconds env * 1000;
               accessTokenExpiresAt = toDateFromNow (av_now env) (Some (tr_expires_in tokenResponse)) (av_leewaySeconds env);
               refreshTokenExpiresAt = toDateFromNow (av_now env) (tr_refresh_token_expires_in tokenResponse) (av_ttlSeconds env)
           in abind (alift (getScopes env (fl_provider authFlow))) (\<lambda>scopes.
                case (accessTokenExpiresAt, refreshTokenExpiresAt) of
                  (Some accessAt, Some refreshAt) \<Rightarrow>
                    save_session env
                      \<lparr>sc_sessionId = av_sessionToken env, sc_provider = fl_provider authFlow, sc_userId = u_id user,
                       sc_accessTokenCiphertext = av_encrypt env (tr_access_token tokenResponse),
                       sc_refreshTokenCiphertext = av_encrypt env refreshToken, sc_accessTokenExpiresAt = accessAt,
                       sc_refreshTokenExpiresAt = refreshAt, sc_scope = scopeToArray (tr_scope tokenResponse) scopes,
                       sc_state = fl_state authFlow, sc_codeVerifier = fl_codeVerifier authFlow,
                       sc_expiresAt = earlier refreshTokenExpiresAt sessionAbsoluteExpiry\<rparr>
                | _ \<Rightarrow> athrow QueryError)))"

definition MOCK_SUB :: string where "MOCK_SUB = ''did:deep-id:mock-preview-user''"

definition createMockApplicationSession :: "auth_env \<Rightarrow> OAuthUserRow \<Rightarrow> string \<Rightarrow> AuthSession auth" where
  "createMockApplicationSession env user provider =
     (let expiresAt = av_now env + av_ttlSeconds env * 1000
      in abind (alift (getScopes env provider)) (\<lambda>scopes.
         save_session env
           \<lparr>sc_sessionId = av_sessionToken env, sc_provider = provider, sc_userId = u_id user,
            sc_accessTokenCiphertext = av_encrypt env ''mock-access-token'',
            sc_refreshTokenCiphertext = av_encrypt env ''mock-refresh-token'', sc_accessTokenExpiresAt = expiresAt,
            sc_refreshTokenExpiresAt = expiresAt, sc_scope = scopes, sc_state = av_stateToken env,
            sc_codeVerifier = av_verifierToken env, sc_expiresAt = expiresAt\<rparr>))"

text \<open>\<open>origin\<close> is the origin of the request (\<^verbatim>\<open>resolveRequestOrigin\<close>), taken from its headers.\<close>

definition createMockLoginRedirect :: "auth_env \<Rightarrow> string \<Rightarrow> string \<Rightarrow> string auth" where
  "createMockLoginRedirect env origin provider =
     abind (with_db (upsertBySub (av_userUuid env) (av_now env) provider MOCK_SUB
       \<lparr>up_aud = None, up_auth_time = None, up_email = Some (Some ''preview@reputo.local''), up_email_verified = Some (Some True),
        up_iat = None, up_iss = None, up_picture = None, up_rat = None, up_username = Some (Some ''preview-user'')\<rparr>)) (\<lambda>user.
     abind (createMockApplicationSession env user provider) (\<lambda>session.
     abind (send_cookie (SetSession (s_sessionId session) (s_expiresAt session))) (\<lambda>_. aret origin)))"

text \<open>
  Starting a flow.  \<open>toUrl\<close> renders an endpoint with its query parameters and \<open>challenge\<close> is the PKCE digest
  of a verifier.
\<close>

definition buildAuthorizationUrl ::
  "auth_env \<Rightarrow> (string \<Rightarrow> (string \<times> string) list \<Rightarrow> string) \<Rightarrow> string \<Rightarrow> AuthFlowState \<Rightarrow> string \<Rightarrow> string auth" where
  "buildAuthorizationUrl env toUrl provider flow codeChallenge =
     abind (alift (getProviderConfig env provider)) (\<lambda>config.
     abind (ensureOAuthMode env provider) (\<lambda>_.
     abind (getDiscoveryDocument env provider (pc_issuerUrl config)) (\<lambda>discovery.
       aret (toUrl (dd_authorization_endpoint discovery)
         [(''response_type'', ''code''), (''client_id'', pc_clientId config), (''redirect_uri'', pc_redirectUri config),
          (''scope'', pc_scope config), (''state'', fl_state flow), (''code_challenge'', codeChallenge),
          (''code_challenge_method'', ''S256'')]))))"

definition createAuthFlow :: "auth_env \<Rightarrow> string \<Rightarrow> AuthFlowState" where
  "createAuthFlow env provider = \<lparr>fl_provider = provider, fl_state = av_stateToken env, fl_codeVerifier = av_verifierToken env\<rparr>"

definition getLoginRedirectUrl ::
  "auth_env \<Rightarrow> (string \<Rightarrow> (string \<times> string) list \<Rightarrow> string) \<Rightarrow> (string \<Rightarrow> string) \<Rightarrow> string \<Rightarrow> string \<Rightarrow> string auth" where
  "getLoginRedirectUrl env toUrl challenge origin provider =
     (if av_mode env = AUTH_MODE_MOCK then createMockLoginRedirect env origin provider
      else
        (let authFlow = createAuthFlow env provider
         in abind (buildAuthorizationUrl env toUrl provider authFlow (challenge (fl_codeVerifier authFlow))) (\<lambda>redirectUrl.
            abind (send_cookie (SetFlow (fl_provider authFlow) (fl_state authFlow) (fl_codeVerifier authFlow))) (\<lambda>_.
            aret redirectUrl))))"

record OAuthCallbackQuery =
  cq_code :: "string option"
  cq_state :: "string option"
  cq_error :: "string option"
  cq_error_description :: "string option"

text \<open>The checks of a callback against the flow cookie, up to the authorization code.\<close>

definition callback_code :: "string \<Rightarrow> OAuthCallbackQuery \<Rightarrow> AuthFlowState option \<Rightarrow> auth_error + AuthFlowState \<times> string" where
  "callback_code provider query authFlow =
     (case authFlow of
        None \<Rightarrow> Inl (Unauthorized ''OAuth auth flow context is missing.'')
      | Some flow \<Rightarrow>
          if fl_state flow = [] \<or> fl_codeVerifier flow = [] \<or> fl_provider flow = []
          then Inl (Unauthorized ''OAuth auth flow context is missing.'')
          else if fl_provider flow \<noteq> provider then Inl (Unauthorized ''OAuth auth provider mismatch.'')
          else if truthy (cq_state query) = None \<or> cq_state query \<noteq> Some (fl_state flow)
          then Inl (Unauthorized ''OAuth auth state mismatch.'')
          else (case truthy (cq_code query) of
                  None \<Rightarrow> Inl (Unauthorized ''OAuth authorization code is missing.'') | Some code \<Rightarrow> Inr (flow, code)))"

definition callback_login :: "auth_env \<Rightarrow> string \<Rightarrow> AuthFlowState \<Rightarrow> string \<Rightarrow> string auth" where
  "callback_login env provider flow code =
     abind (exchangeCodeForTokens env provider code (fl_codeVerifier flow)) (\<lambda>tokenResponse.
     abind (fetchUserInfo env provider (tr_access_token tokenResponse)) (\<lambda>userInfo.
     abind get_db (\<lambda>db.
       case getCallbackAccessDeniedRedirectUrl env provider userInfo db of
         Some url \<Rightarrow> aret url
       | None \<Rightarrow>
           abind (syncUserFromUserInfo env provider userInfo) (\<lambda>user.
           abind (createApplicationSession env user tokenResponse flow) (\<lambda>session.
           abind (send_cookie (SetSession (s_sessionId session) (s_expiresAt session))) (\<lambda>_.
           aret (av_appPublicUrl env)))))))"

definition handleCallback :: "auth_env \<Rightarrow> string \<Rightarrow> string \<Rightarrow> OAuthCallbackQuery \<Rightarrow> AuthFlowState option \<Rightarrow> string auth" where
  "handleCallback env origin provider query authFlow =
     afinally
       (if av_mode env = AUTH_MODE_MOCK then createMockLoginRedirect env origin provider
        else
          (case truthy (cq_error query) of
             Some err \<Rightarrow>
               if err = ''access_denied'' then aret (denyCallbackAccess env ''consent_denied'')
               else athrow (Unauthorized (case cq_error_description query of
                      Some d \<Rightarrow> d | None \<Rightarrow> ''OAuth authorization failed: '' @ err))
           | None \<Rightarrow> abind (alift (callback_code provider query authFlow)) (\<lambda>(flow, code). callback_login env provider flow code)))
       (add_cookie ClearFlow)"

section \<open>Keeping a session\<close>

definition handleRefreshFailure :: "auth_env \<Rightarrow> AuthSession \<Rightarrow> auth_error \<Rightarrow> AuthSession option auth" where
  "handleRefreshFailure env session error =
     (case error of
        Unauthorized _ \<Rightarrow>
          abind get_db (\<lambda>db.
            let latest = findActiveBySessionId (av_now env) (s_sessionId session) db;
                refreshed_at = (\<lambda>s. case s_lastRefreshedAt s of Some t \<Rightarrow> t | None \<Rightarrow> 0)
            in case latest of
                 Some l \<Rightarrow>
                   if refreshed_at session < refreshed_at l then aret (Some l)
                   else abind (modify_db (revokeBySessionId (av_now env) (s_sessionId session))) (\<lambda>_. aret None)
               | None \<Rightarrow> abind (modify_db (revokeBySessionId (av_now env) (s_sessionId session))) (\<lambda>_. aret None))
      | _ \<Rightarrow> aret (Some session))"

text \<open>The write of a refresh; a date the database refuses throws, and a row that is gone or revoked is not written.\<close>

definition write_refresh :: "auth_env \<Rightarrow> AuthSession \<Rightarrow> OAuthTokenResponse \<Rightarrow> AuthSession option auth" where
  "write_refresh env session tokenResponse =
     (let accessTokenExpiresAt = toDateFromNow (av_now env) (Some (tr_expires_in tokenResponse)) (av_leewaySeconds env);
          nextRefreshTokenExpiresAt = (case tr_refresh_token_expires_in tokenResponse of
              Some n \<Rightarrow> toDateFromNow (av_now env) (Some n) (av_ttlSeconds env) | None \<Rightarrow> Some (s_refreshTokenExpiresAt session))
      in abind get_db (\<lambda>db.
           if findActiveBySessionId (av_now env) (s_sessionId session) db \<noteq> None
              \<and> (accessTokenExpiresAt = None \<or> nextRefreshTokenExpiresAt = None) then athrow QueryError
           else with_db (updateAfterRefresh (av_now env) (s_sessionId session)
             \<lparr>ru_accessTokenCiphertext = Some (av_encrypt env (tr_access_token tokenResponse)),
              ru_refreshTokenCiphertext = Some (case truthy (tr_refresh_token tokenResponse) of
                 Some t \<Rightarrow> av_encrypt env t | None \<Rightarrow> s_refreshTokenCiphertext session),
              ru_accessTokenExpiresAt = accessTokenExpiresAt, ru_refreshTokenExpiresAt = nextRefreshTokenExpiresAt,
              ru_scope = Some (scopeToArray (tr_scope tokenResponse) (s_scope session)), ru_lastRefreshedAt = Some (av_now env),
              ru_expiresAt = Some (earlier nextRefreshTokenExpiresAt (s_expiresAt session))\<rparr>)))"

definition performRefresh :: "auth_env \<Rightarrow> AuthSession \<Rightarrow> AuthSession option auth" where
  "performRefresh env session =
     acatch
       (abind (case av_decrypt env (s_refreshTokenCiphertext session) of None \<Rightarrow> athrow CryptoError | Some t \<Rightarrow> aret t) (\<lambda>refreshToken.
        abind (refreshTokens env (s_provider session) refreshToken) (\<lambda>tokenResponse.
        abind (write_refresh env session tokenResponse) (\<lambda>updated.
          case updated of
            None \<Rightarrow> aret None
          | Some updatedSession \<Rightarrow>
              abind (acatch (abind (fetchUserInfo env (s_provider session) (tr_access_token tokenResponse))
                               (\<lambda>userInfo. abind (syncUserFromUserInfo env (s_provider session) userInfo) (\<lambda>_. aret ())))
                            (\<lambda>_. aret ())) (\<lambda>_. aret (Some updatedSession))))))
       (handleRefreshFailure env session)"

text \<open>\<open>inFlight\<close> is what the refresh of the same session by another request, still pending, resolves to.\<close>

definition refreshSessionIfNeeded ::
  "auth_env \<Rightarrow> (string \<Rightarrow> (auth_error + AuthSession option) option) \<Rightarrow> AuthSession \<Rightarrow> AuthSession option auth" where
  "refreshSessionIfNeeded env inFlight session =
     (if av_now env + av_leewaySeconds env * 1000 < s_accessTokenExpiresAt session then aret (Some session)
      else if s_refreshTokenExpiresAt session \<le> av_now env
      then abind (modify_db (revokeBySessionId (av_now env) (s_sessionId session))) (\<lambda>_. aret None)
      else (case inFlight (s_sessionId session) of
              Some pending \<Rightarrow> alift pending
            | None \<Rightarrow> performRefresh env session))"

definition resolveSessionRole :: "auth_env \<Rightarrow> string \<Rightarrow> OAuthUserRow \<Rightarrow> access_db \<Rightarrow> AccessRole option" where
  "resolveSessionRole env provider user db =
     (if av_mode env = AUTH_MODE_MOCK then Some owner
      else (case truthy (u_email user) of None \<Rightarrow> None | Some email \<Rightarrow> resolveRole provider email db))"

record AuthRequestContext =
  rc_role :: AccessRole
  rc_session :: AuthSession
  rc_user :: OAuthUserRow

definition unauthorized :: "'a auth" where
  "unauthorized = abind (send_cookie ClearSession) (\<lambda>_. athrow (Unauthorized ''Authentication required.''))"

definition requireSession ::
  "auth_env \<Rightarrow> (string \<Rightarrow> (auth_error + AuthSession option) option) \<Rightarrow> AuthRequestContext option \<Rightarrow> string option \<Rightarrow> AuthRequestContext auth" where
  "requireSession env inFlight existingContext sessionCookie =
     (case existingContext of
        Some c \<Rightarrow> aret c
      | None \<Rightarrow>
          (case truthy sessionCookie of
             None \<Rightarrow> athrow (Unauthorized ''Authentication required.'')
           | Some sessionId \<Rightarrow>
               abind get_db (\<lambda>db.
                 case findActiveBySessionId (av_now env) sessionId db of
                   None \<Rightarrow> unauthorized
                 | Some session \<Rightarrow>
                     abind (refreshSessionIfNeeded env inFlight session) (\<lambda>active.
                       case active of
                         None \<Rightarrow> unauthorized
                       | Some activeSession \<Rightarrow>
                           abind get_db (\<lambda>db.
                             case findById (s_userId activeSession) db of
                               None \<Rightarrow> abind (modify_db (revokeBySessionId (av_now env) (s_sessionId activeSession))) (\<lambda>_. unauthorized)
                             | Some user \<Rightarrow>
                                 (case resolveSessionRole env (s_provider activeSession) user db of
                                    None \<Rightarrow> abind (modify_db (revokeBySessionId (av_now env) (s_sessionId activeSession))) (\<lambda>_. unauthorized)
                                  | Some role \<Rightarrow>
                                      abind (send_cookie (SetSession (s_sessionId activeSession) (s_expiresAt activeSession))) (\<lambda>_.
                                      aret \<lparr>rc_role = role, rc_session = activeSession, rc_user = user\<rparr>)))))))"

definition logout :: "auth_env \<Rightarrow> AuthSession \<Rightarrow> unit auth" where
  "logout env session =
     abind (modify_db (revokeBySessionId (av_now env) (s_sessionId session))) (\<lambda>_.
     abind (send_cookie ClearSession) (\<lambda>_. send_cookie ClearFlow))"

section \<open>What a handler keeps\<close>

named_theorems keeps_intros \<open>computations that keep a property of the state\<close>

definition keeps :: "(auth_state \<Rightarrow> bool) \<Rightarrow> 'a auth \<Rightarrow> bool" where
  "keeps J m \<longleftrightarrow> (\<forall>st. J st \<longrightarrow> J (snd (m st)))"

definition fetch_keeps :: "(auth_state \<Rightarrow> bool) \<Rightarrow> auth_env \<Rightarrow> bool" where
  "fetch_keeps J env \<longleftrightarrow> (\<forall>req st. J st \<longrightarrow> J (snd (av_fetch env req st)))"

lemma keeps_basic [keeps_intros]:
  "keeps J (aret x)" "keeps J (athrow e)" "keeps J get_db" "keeps J (alift r)"
proof -
  show "keeps J (alift r)" by (cases r) (simp_all add: keeps_def athrow_def aret_def)
qed (simp_all add: keeps_def aret_def athrow_def get_db_def)

lemma keeps_abind [keeps_intros]: "keeps J m \<Longrightarrow> (\<And>x. keeps J (f x)) \<Longrightarrow> keeps J (abind m f)"
  unfolding keeps_def abind_def by (fastforce split: prod.splits sum.splits)

lemma keeps_acatch [keeps_intros]: "keeps J m \<Longrightarrow> (\<And>e. keeps J (h e)) \<Longrightarrow> keeps J (acatch m h)"
  unfolding keeps_def acatch_def by (fastforce split: prod.splits sum.splits)

lemma keeps_fetch [keeps_intros]: "fetch_keeps J env \<Longrightarrow> keeps J (fetch env req)"
  unfolding keeps_def fetch_keeps_def fetch_def by (auto split: prod.splits http_response.splits) (metis snd_conv)+

lemma keeps_if [keeps_intros]: "(c \<Longrightarrow> keeps J a) \<Longrightarrow> (\<not> c \<Longrightarrow> keeps J b) \<Longrightarrow> keeps J (if c then a else b)"
  by simp

lemma keepsD: "keeps J m \<Longrightarrow> m st = (r, st') \<Longrightarrow> J st \<Longrightarrow> J st'"
  unfolding keeps_def by (metis snd_conv)

locale client_keeps =
  fixes J :: "auth_state \<Rightarrow> bool"
  assumes cached: "J st \<Longrightarrow> J (st\<lparr>as_discovery := d\<rparr>)"
begin

lemma keeps_discovery:
  assumes "fetch_keeps J env"
  shows "keeps J (getDiscoveryDocument env provider issuer)"
proof -
  have f: "keeps J (fetchDiscoveryDocument env provider i)" for i
    unfolding fetchDiscoveryDocument_def by (auto intro!: keeps_intros assms)
  have "J (snd ((case map_of (as_discovery st) i of Some promise \<Rightarrow> (promise, st)
          | None \<Rightarrow> (case fetchDiscoveryDocument env provider i st of
                 (promise, st') \<Rightarrow> (promise, st'\<lparr>as_discovery := AList.update i promise (as_discovery st')\<rparr>)))))"
    if "J st" for st i
    using that keepsD[OF f] cached by (auto split: option.splits prod.splits)
  then show ?thesis unfolding getDiscoveryDocument_def ensureOAuthMode_def
    by (intro keeps_intros) (auto simp: keeps_def Let_def aret_def athrow_def)
qed

lemma keeps_token: "fetch_keeps J env \<Longrightarrow> keeps J (fetchTokenResponse env provider config params)"
  unfolding fetchTokenResponse_def by (auto intro!: keeps_intros keeps_discovery simp: Let_def)

lemma keeps_client:
  assumes "fetch_keeps J env"
  shows "keeps J (exchangeCodeForTokens env provider code verifier)" "keeps J (refreshTokens env provider token)"
    "keeps J (fetchUserInfo env provider access)"
  unfolding exchangeCodeForTokens_def refreshTokens_def fetchUserInfo_def ensureOAuthMode_def
  using assms by (auto intro!: keeps_intros keeps_token keeps_discovery)

end

interpretation cookies_kept: client_keeps "\<lambda>st. as_cookies st = c" for c
  by unfold_locales simp

text \<open>
  The contract of the session table for a request handler: \<open>stale\<close> holds of every session a handler may hold
  from an earlier read, \<open>fresh\<close> of the id of a session it creates.
\<close>

locale handler_keeps = client_keeps "\<lambda>st. I (as_db st)"
  for I :: "access_db \<Rightarrow> bool" +
  fixes stale :: "AuthSession \<Rightarrow> bool"
    and fresh :: "int \<Rightarrow> string \<Rightarrow> bool"
    and ttl :: int
  assumes found: "I db \<Longrightarrow> findActiveBySessionId now sid db = Some s \<Longrightarrow> stale s"
    and revoked: "I db \<Longrightarrow> I (revokeBySessionId now sid db)"
    and upserted: "I db \<Longrightarrow> I (snd (upsertBySub uuid now provider sub u db))"
    and refreshed: "I db \<Longrightarrow> stale s \<Longrightarrow> ru_expiresAt update = Some (earlier t (s_expiresAt s)) \<Longrightarrow>
          I (snd (updateAfterRefresh now (s_sessionId s) update db))"
    and created: "I db \<Longrightarrow> fresh now (sc_sessionId d) \<Longrightarrow> sc_expiresAt d \<le> now + ttl * 1000 \<Longrightarrow>
          session_create uuid now d db = Some (s', db') \<Longrightarrow> I db'"
begin

abbreviation (input) J :: "auth_state \<Rightarrow> bool" where "J \<equiv> \<lambda>st. I (as_db st)"

lemma keeps_db [keeps_intros]:
  "keeps J (modify_db (revokeBySessionId now sid))" "keeps J (send_cookie c)"
  "keeps J (with_db (upsertBySub uuid now provider sub u))"
  using revoked upserted
  by (auto simp: keeps_def modify_db_def send_cookie_def add_cookie_def with_db_def split: prod.splits) (metis snd_conv)

lemma keeps_with_db: "(\<And>db. I db \<Longrightarrow> I (snd (f db))) \<Longrightarrow> keeps J (with_db f)"
  by (fastforce simp: keeps_def with_db_def split: prod.splits)

lemma keeps_get_bind: "(\<And>db. I db \<Longrightarrow> keeps J (f db)) \<Longrightarrow> keeps J (abind get_db f)"
  by (simp add: keeps_def abind_def get_db_def)

lemma keeps_sync [keeps_intros]: "keeps J (syncUserFromUserInfo env provider info)"
  unfolding syncUserFromUserInfo_def by (auto intro!: keeps_intros keeps_db)

lemma keeps_failure: "keeps J (handleRefreshFailure env session e)"
  unfolding handleRefreshFailure_def
  by (cases e) (auto simp: Let_def split: option.splits intro!: keeps_intros keeps_db)

lemma keeps_write: "stale session \<Longrightarrow> keeps J (write_refresh env session tr)"
  unfolding write_refresh_def Let_def
  by (intro keeps_abind keeps_basic keeps_if keeps_with_db refreshed) simp_all

lemma keeps_refresh:
  assumes "fetch_keeps J env" "stale session"
  shows "keeps J (performRefresh env session)"
  unfolding performRefresh_def using keeps_client[OF assms(1)] keeps_write[OF assms(2)]
  by (auto intro!: keeps_intros keeps_failure keeps_db keeps_sync split: option.splits)

lemma keeps_unauthorized: "keeps J unauthorized"
  unfolding unauthorized_def by (intro keeps_abind keeps_basic keeps_db)

lemma keeps_requireSession:
  assumes "fetch_keeps J env"
  shows "keeps J (requireSession env inFlight ctx cookie)"
proof -
  have r: "keeps J (refreshSessionIfNeeded env inFlight s)" if "stale s" for s
    unfolding refreshSessionIfNeeded_def using keeps_refresh[OF assms that]
    by (auto intro!: keeps_intros keeps_db split: option.splits)
  show ?thesis unfolding requireSession_def
    by (auto intro!: keeps_basic keeps_get_bind keeps_abind keeps_unauthorized keeps_db r split: option.splits) (erule (1) found)
qed

lemma keeps_logout: "keeps J (logout env session)"
  unfolding logout_def by (intro keeps_abind keeps_db)

lemma keeps_save:
  assumes "fresh (av_now env) (sc_sessionId d)" "sc_expiresAt d \<le> av_now env + ttl * 1000"
  shows "keeps J (save_session env d)"
  using created assms by (auto simp: keeps_def save_session_def split: option.splits)

lemma keeps_handleCallback:
  assumes "fetch_keeps J env" "fresh (av_now env) (av_sessionToken env)" "av_ttlSeconds env = ttl"
  shows "keeps J (handleCallback env origin provider query flow)"
proof -
  have a: "keeps J (createApplicationSession env user tr f)" for user tr f
    unfolding createApplicationSession_def Let_def using assms(2,3)
    by (auto intro!: keeps_intros keeps_save simp: earlier_def split: option.splits)
  have m: "keeps J (createMockLoginRedirect env origin provider)"
    unfolding createMockLoginRedirect_def createMockApplicationSession_def Let_def using assms(2,3)
    by (auto intro!: keeps_abind keeps_basic keeps_db keeps_save)
  have c: "keeps J (callback_login env provider f code)" for f code
    unfolding callback_login_def using keeps_client[OF assms(1)] a
    by (auto intro!: keeps_abind keeps_basic keeps_db keeps_sync split: option.splits)
  have fin: "keeps J x \<Longrightarrow> keeps J (afinally x (add_cookie k))" for x :: "string auth" and k
    by (fastforce simp: keeps_def afinally_def add_cookie_def split: prod.splits)
  show ?thesis unfolding handleCallback_def
    by (rule fin) (auto intro!: keeps_abind keeps_basic m c split: option.splits)
qed

end

section \<open>Sessions are bounded and stay revoked\<close>

text \<open>
  \<open>created\<close> is when each session id was issued, \<open>R\<close> the ids that have been revoked.  A row that is not
  revoked has an id outside \<open>R\<close> and expires at most the configured time after its issue.
\<close>

definition session_inv :: "(string \<Rightarrow> int) \<Rightarrow> string set \<Rightarrow> int \<Rightarrow> access_db \<Rightarrow> bool" where
  "session_inv created R ttl db \<longleftrightarrow>
     (\<forall>s \<in> set (ac_sessions db). s_revokedAt s = None \<longrightarrow>
        s_sessionId s \<notin> R \<and> s_expiresAt s \<le> created (s_sessionId s) + ttl * 1000)"

lemma earlier_le: "earlier t b \<le> b"
  by (simp add: earlier_def split: option.splits)

lemma tbl_update_memD: "r \<in> set (tbl_update P f rows) \<Longrightarrow> r \<in> set rows \<or> (\<exists>q \<in> set rows. P q \<and> r = f q)"
  by (auto simp: tbl_update_def split: if_splits)

lemma updateAfterRefresh_sessions:
  assumes "r \<in> set (ac_sessions (snd (updateAfterRefresh now sid update db)))"
  shows "r \<in> set (ac_sessions db) \<or> (\<exists>s \<in> set (ac_sessions db). s_sessionId s = sid \<and> session_active now s
    \<and> s_sessionId r = sid \<and> s_revokedAt r = None \<and> (s_expiresAt r = s_expiresAt s \<or> ru_expiresAt update = Some (s_expiresAt r)))"
proof (cases "findActiveBySessionId now sid db")
  case (Some s)
  then have s: "s \<in> set (ac_sessions db)" "s_sessionId s = sid" "session_active now s"
    by (auto simp: findActiveBySessionId_def dest: find_Some_iff')
  from assms Some have "r \<in> set (ac_sessions db) \<or> r = (if apply_refresh update s = s then s else (apply_refresh update s)\<lparr>s_updatedAt := now\<rparr>)"
    by (auto simp: updateAfterRefresh_def Let_def dest!: tbl_update_memD split: if_splits)
  then show ?thesis
  proof
    assume r: "r = (if apply_refresh update s = s then s else (apply_refresh update s)\<lparr>s_updatedAt := now\<rparr>)"
    have "s_sessionId r = sid" "s_revokedAt r = None" "s_expiresAt r = s_expiresAt s \<or> ru_expiresAt update = Some (s_expiresAt r)"
      using s unfolding r by (auto simp: apply_refresh_def session_active_def split: option.splits)
    then show ?thesis using s by blast
  qed simp
qed (use assms in \<open>simp add: updateAfterRefresh_def\<close>)

interpretation sessions_kept: handler_keeps "session_inv created R ttl"
  "\<lambda>s. s_expiresAt s \<le> created (s_sessionId s) + ttl * 1000" "\<lambda>now sid. sid \<notin> R \<and> created sid = now" ttl
  for created R ttl
proof unfold_locales
  fix db now sid and s :: AuthSession
  assume "session_inv created R ttl db" "findActiveBySessionId now sid db = Some s"
  then show "s_expiresAt s \<le> created (s_sessionId s) + ttl * 1000"
    by (auto simp: findActiveBySessionId_def session_active_def session_inv_def dest!: find_Some_iff')
next
  fix db now sid
  assume "session_inv created R ttl db"
  then show "session_inv created R ttl (revokeBySessionId now sid db)"
    by (auto simp: session_inv_def revokeBySessionId_def dest!: tbl_update_memD)
next
  fix db uuid now provider sub u
  assume "session_inv created R ttl db"
  then show "session_inv created R ttl (snd (upsertBySub uuid now provider sub u db))"
    by (auto simp: session_inv_def upsertBySub_def Let_def split: option.splits)
next
  fix db t now and s :: AuthSession and update :: AuthSessionUpdateAfterRefreshInput
  assume a: "session_inv created R ttl db" "s_expiresAt s \<le> created (s_sessionId s) + ttl * 1000"
    "ru_expiresAt update = Some (earlier t (s_expiresAt s))"
  show "session_inv created R ttl (snd (updateAfterRefresh now (s_sessionId s) update db))"
    unfolding session_inv_def
  proof (intro ballI impI)
    fix r assume r: "r \<in> set (ac_sessions (snd (updateAfterRefresh now (s_sessionId s) update db)))" "s_revokedAt r = None"
    from updateAfterRefresh_sessions[OF r(1)] show "s_sessionId r \<notin> R \<and> s_expiresAt r \<le> created (s_sessionId r) + ttl * 1000"
      using a r(2) earlier_le[of t "s_expiresAt s"] by (auto simp: session_inv_def session_active_def)
  qed
next
  fix db now uuid s' db' and d :: AuthSessionCreateInput
  assume "session_inv created R ttl db" "sc_sessionId d \<notin> R \<and> created (sc_sessionId d) = now"
    "sc_expiresAt d \<le> now + ttl * 1000" "session_create uuid now d db = Some (s', db')"
  then show "session_inv created R ttl db'" by (auto simp: session_inv_def session_create_def Let_def split: if_splits)
qed simp

interpretation allowlist_kept: handler_keeps "\<lambda>db. ac_allowlist db = A" "\<lambda>_. True" "\<lambda>_ _. True" ttl
  for A ttl
  by unfold_locales
    (auto simp: revokeBySessionId_def upsertBySub_def updateAfterRefresh_def session_create_def Let_def split: option.splits if_splits)


section \<open>Who is let in\<close>

lemma abind_InrD: "abind m f st = (Inr y, st') \<Longrightarrow> \<exists>x st1. m st = (Inr x, st1) \<and> f x st1 = (Inr y, st')"
  by (auto simp: abind_def split: prod.splits sum.splits)

lemma abind_get_db [simp]: "abind get_db f st = f (as_db st) st"
  by (simp add: abind_def get_db_def)

lemma abind_send [simp]: "abind (send_cookie k) f st = f () (add_cookie k st)"
  by (simp add: abind_def send_cookie_def)

lemma not_unauthorized [simp]:
  "unauthorized st \<noteq> (Inr y, st')" "abind (modify_db g) (\<lambda>_. unauthorized) st \<noteq> (Inr y, st')" "athrow e st \<noteq> (Inr y, st')"
  by (simp_all add: unauthorized_def athrow_def abind_def modify_db_def send_cookie_def)

lemma truthy_SomeD: "truthy x = Some y \<Longrightarrow> x = Some y \<and> y \<noteq> []"
  by (auto simp: truthy_def split: option.splits list.splits)

lemma requireSession_InrD:
  assumes "requireSession env inFlight None cookie st = (Inr c, st')"
  shows "\<exists>sid s. cookie = Some sid \<and> findActiveBySessionId (av_now env) sid (as_db st) = Some s"
    "findById (s_userId (rc_session c)) (as_db st') = Some (rc_user c)"
    "resolveSessionRole env (s_provider (rc_session c)) (rc_user c) (as_db st') = Some (rc_role c)"
proof -
  obtain sid where c: "truthy cookie = Some sid"
    using assms by (auto simp: requireSession_def split: option.splits)
  obtain s where s: "findActiveBySessionId (av_now env) sid (as_db st) = Some s"
    using assms c by (auto simp: requireSession_def split: option.splits)
  obtain active st1 where a: "refreshSessionIfNeeded env inFlight s st = (Inr (Some active), st1)"
    and r: "(case findById (s_userId active) (as_db st1) of
             None \<Rightarrow> abind (modify_db (revokeBySessionId (av_now env) (s_sessionId active))) (\<lambda>_. unauthorized)
           | Some user \<Rightarrow>
               (case resolveSessionRole env (s_provider active) user (as_db st1) of
                  None \<Rightarrow> abind (modify_db (revokeBySessionId (av_now env) (s_sessionId active))) (\<lambda>_. unauthorized)
                | Some role \<Rightarrow> abind (send_cookie (SetSession (s_sessionId active) (s_expiresAt active)))
                    (\<lambda>_. aret \<lparr>rc_role = role, rc_session = active, rc_user = user\<rparr>))) st1 = (Inr c, st')"
    using assms c s by (auto simp: requireSession_def dest!: abind_InrD split: option.splits)
  obtain user role where u: "findById (s_userId active) (as_db st1) = Some user"
    "resolveSessionRole env (s_provider active) user (as_db st1) = Some role"
    using r by (auto split: option.splits)
  then have "c = \<lparr>rc_role = role, rc_session = active, rc_user = user\<rparr>" "as_db st' = as_db st1"
    using r by (auto simp: aret_def add_cookie_def)
  then show "\<exists>sid s. cookie = Some sid \<and> findActiveBySessionId (av_now env) sid (as_db st) = Some s"
    "findById (s_userId (rc_session c)) (as_db st') = Some (rc_user c)"
    "resolveSessionRole env (s_provider (rc_session c)) (rc_user c) (as_db st') = Some (rc_role c)"
    using truthy_SomeD[OF c] s u by simp_all
qed

lemma role_granted:
  assumes "resolveSessionRole env provider user db = Some role" "av_mode env \<noteq> AUTH_MODE_MOCK"
  shows "\<exists>email row. u_email user = Some email \<and> row \<in> set (ac_allowlist db) \<and> al_active row \<and> al_provider row = provider
    \<and> al_email row = normalizeEmail email \<and> al_role row = role"
  using assms by (auto simp: resolveSessionRole_def resolveRole_def isAllowlisted_def split: option.splits
      dest!: truthy_SomeD findActive_SomeD)

text \<open>
  C14: Outside mock mode a request is authenticated only when its cookie names a session that is active when
  the request arrives, and only as a user of the table whose address has, when the decision is made and
  whatever happened during a refresh, an active row on the allowlist of the session's provider; the role
  of the request is the role of that row.
\<close>

theorem session_access_is_allowlisted:
  assumes "requireSession env inFlight None cookie st = (Inr c, st')" "av_mode env \<noteq> AUTH_MODE_MOCK"
  shows "(\<exists>sid s. cookie = Some sid \<and> findActiveBySessionId (av_now env) sid (as_db st) = Some s)
    \<and> rc_user c \<in> set (ac_users (as_db st')) \<and> u_id (rc_user c) = s_userId (rc_session c)
    \<and> (\<exists>email row. u_email (rc_user c) = Some email \<and> row \<in> set (ac_allowlist (as_db st')) \<and> al_active row
        \<and> al_provider row = s_provider (rc_session c) \<and> al_email row = normalizeEmail email \<and> al_role row = rc_role c)"
  using requireSession_InrD[OF assms(1)] role_granted[OF requireSession_InrD(3)[OF assms(1)] assms(2)]
  by (auto simp: findById_def dest: find_Some_iff')

text \<open>
  Once an admin is removed, no session authenticates a request as a user with that address for that
  provider, as long as nobody changes the allowlist; this holds for every session, also one the removal did
  not revoke.
\<close>

lemma removed_admin_is_denied:
  assumes "allowlist_ok db" "removeAdmin aenv actor p e db = (Inr (), db')"
    "ac_allowlist (as_db st) = ac_allowlist db'" "fetch_keeps (\<lambda>st. ac_allowlist (as_db st) = ac_allowlist db') env"
    "av_mode env \<noteq> AUTH_MODE_MOCK" "requireSession env inFlight None cookie st = (Inr c, st')"
    "s_provider (rc_session c) = p" "u_email (rc_user c) = Some email"
  shows "normalizeEmail email \<noteq> normalizeEmail e"
proof
  assume eq: "normalizeEmail email = normalizeEmail e"
  have kept: "ac_allowlist (as_db st') = ac_allowlist db'"
    using keepsD[OF allowlist_kept.keeps_requireSession[OF assms(4)] assms(6,3)] .
  obtain t where t: "remove_check aenv actor p e db = Inr t" "db' = snd (remove_commit aenv actor t db)"
    using assms(2) by (auto simp: removeAdmin_def split: sum.splits)
  have "t = (p, normalizeEmail e)"
    using t(1) by (auto simp: remove_check_def split: sum.splits prod.splits option.splits if_splits dest!: target_of_InrD)
  then have none: "roles db' (p, normalizeEmail e) = None" "allowlist_ok db'"
    using remove_commit_roles[OF assms(1)] unfolding t(2) by simp_all
  obtain row where row: "row \<in> set (ac_allowlist db')" "al_active row" "al_provider row = p" "al_email row = normalizeEmail e"
    using role_granted[OF requireSession_InrD(3)[OF assms(6)] assms(5)] kept assms(7,8) eq by auto
  then show False using roles_mem[OF none(2) row(1)] none(1) by simp
qed

lemma save_session_InrD:
  assumes "save_session env d st = (Inr s, st')"
  shows "s \<in> set (ac_sessions (as_db st'))" "s_sessionId s = sc_sessionId d" "s_provider s = sc_provider d"
    "s_userId s = sc_userId d" "ac_allowlist (as_db st') = ac_allowlist (as_db st)" "ac_users (as_db st') = ac_users (as_db st)"
  using assms by (auto simp: save_session_def session_create_def Let_def split: option.splits if_splits)

lemma createApplicationSession_InrD:
  assumes "createApplicationSession env user tr f st = (Inr s, st')"
  shows "s \<in> set (ac_sessions (as_db st')) \<and> s_provider s = fl_provider f \<and> s_userId s = u_id user
    \<and> ac_allowlist (as_db st') = ac_allowlist (as_db st) \<and> ac_users (as_db st') = ac_users (as_db st)"
proof -
  obtain refreshToken where t: "truthy (tr_refresh_token tr) = Some refreshToken"
    using assms by (auto simp: createApplicationSession_def split: option.splits)
  obtain scopes where sc: "getScopes env (fl_provider f) = Inr scopes"
    using assms t by (cases "getScopes env (fl_provider f)") (auto simp: createApplicationSession_def Let_def abind_def athrow_def)
  obtain a b where ab: "toDateFromNow (av_now env) (Some (tr_expires_in tr)) (av_leewaySeconds env) = Some a"
    "toDateFromNow (av_now env) (tr_refresh_token_expires_in tr) (av_ttlSeconds env) = Some b"
    using assms t sc by (auto simp: createApplicationSession_def Let_def abind_def aret_def split: option.splits)
  obtain d where "save_session env d st = (Inr s, st')" "sc_provider d = fl_provider f" "sc_userId d = u_id user"
    using assms t sc ab by (auto simp: createApplicationSession_def Let_def abind_def aret_def)
  then show ?thesis using save_session_InrD[of env d st s st'] by simp
qed

lemma upsertBySub_stored:
  assumes "upsertBySub uuid now p sub u db = (user, db')"
  shows "user \<in> set (ac_users db')" "ac_allowlist db' = ac_allowlist db" "up_email u = Some e \<Longrightarrow> u_email user = e"
proof -
  have "user \<in> set (ac_users db') \<and> ac_allowlist db' = ac_allowlist db \<and> (up_email u = Some e \<longrightarrow> u_email user = e)"
  proof (cases "List.find (\<lambda>u. user_key u = (p, sub)) (ac_users db)")
    case None
    then show ?thesis using assms by (auto simp: upsertBySub_def Let_def newEntity_def flat_def)
  next
    case (Some x)
    then have x: "x \<in> set (ac_users db)" "user_key x = (p, sub)" by (auto dest: find_Some_iff')
    have user: "user = (if applyUpdate x u = x then x else (applyUpdate x u)\<lparr>u_updatedAt := now\<rparr>)"
      and db': "db' = db\<lparr>ac_users := tbl_update (\<lambda>u. user_key u = (p, sub)) (\<lambda>_. user) (ac_users db)\<rparr>"
      using assms Some by (auto simp: upsertBySub_def Let_def)
    have "up_email u = Some e \<Longrightarrow> u_email (applyUpdate x u) = e" by (simp add: applyUpdate_def)
    then have "up_email u = Some e \<Longrightarrow> u_email user = e" using user by (cases "applyUpdate x u = x") auto
    moreover have "user \<in> set (ac_users db')" using x unfolding db' by (auto simp: tbl_update_def image_iff)
    ultimately show ?thesis unfolding db' by simp
  qed
  then show "user \<in> set (ac_users db')" "ac_allowlist db' = ac_allowlist db" "up_email u = Some e \<Longrightarrow> u_email user = e" by blast+
qed

lemma syncUser_InrD:
  assumes "syncUserFromUserInfo env provider info st = (Inr user, st')"
  shows "user \<in> set (ac_users (as_db st')) \<and> u_email user = jstr_opt (jfield ''email'' info)
    \<and> ac_allowlist (as_db st') = ac_allowlist (as_db st)"
proof -
  obtain u where u: "upsertBySub (av_userUuid env) (av_now env) provider (jstr (jfield ''sub'' info)) u (as_db st) = (user, as_db st')"
    "up_email u = Some (jstr_opt (jfield ''email'' info))"
    using assms by (auto simp: syncUserFromUserInfo_def athrow_def with_db_def split: if_splits prod.splits)
  show ?thesis using upsertBySub_stored[OF u(1)] u(2) by simp
qed

lemma cookies_of:
  "as_cookies (snd (aret x st)) = as_cookies st" "as_cookies (snd (athrow e st)) = as_cookies st"
  "as_cookies (snd (syncUserFromUserInfo env provider info st)) = as_cookies st"
  "as_cookies (snd (createApplicationSession env user tr f st)) = as_cookies st"
proof -
  have save: "keeps (\<lambda>st. as_cookies st = k) (save_session env d)" for k d
    by (auto simp: keeps_def save_session_def split: option.splits)
  have "keeps (\<lambda>st. as_cookies st = k) (createApplicationSession env user tr f)" for k
    unfolding createApplicationSession_def Let_def by (auto intro!: keeps_intros save split: option.splits)
  then show "as_cookies (snd (createApplicationSession env user tr f st)) = as_cookies st" by (simp add: keeps_def)
qed (auto simp: aret_def athrow_def syncUserFromUserInfo_def with_db_def split: prod.splits)

lemma callback_login_cookie:
  assumes "callback_login env provider f code st = (r, st')" "as_cookies st = []" "fetch_keeps (\<lambda>st. as_cookies st = []) env"
    "as_cookies st' \<noteq> []"
  obtains tr st1 info st2 user st3 s st4 where
    "exchangeCodeForTokens env provider code (fl_codeVerifier f) st = (Inr tr, st1)"
    "fetchUserInfo env provider (tr_access_token tr) st1 = (Inr info, st2)"
    "getCallbackAccessDeniedRedirectUrl env provider info (as_db st2) = None"
    "syncUserFromUserInfo env provider info st2 = (Inr user, st3)"
    "createApplicationSession env user tr f st3 = (Inr s, st4)"
    "st' = add_cookie (SetSession (s_sessionId s) (s_expiresAt s)) st4" "as_cookies st4 = []"
proof -
  obtain x1 st1 where e: "exchangeCodeForTokens env provider code (fl_codeVerifier f) st = (x1, st1)" by fastforce
  have c1: "as_cookies st1 = []" by (rule keepsD[OF cookies_kept.keeps_client(1)[OF assms(3)] e assms(2)])
  obtain tr where tr: "x1 = Inr tr" using assms(1,4) e c1 by (cases x1) (auto simp: callback_login_def abind_def)
  obtain x2 st2 where u: "fetchUserInfo env provider (tr_access_token tr) st1 = (x2, st2)" by fastforce
  have c2: "as_cookies st2 = []" by (rule keepsD[OF cookies_kept.keeps_client(3)[OF assms(3)] u c1])
  obtain info where info: "x2 = Inr info" using assms(1,4) e tr u c2 by (cases x2) (auto simp: callback_login_def abind_def)
  have d: "getCallbackAccessDeniedRedirectUrl env provider info (as_db st2) = None"
    using assms(1,4) e tr u info c2
    by (cases "getCallbackAccessDeniedRedirectUrl env provider info (as_db st2)") (auto simp: callback_login_def abind_def get_db_def aret_def)
  obtain x3 st3 where y: "syncUserFromUserInfo env provider info st2 = (x3, st3)" by fastforce
  have c3: "as_cookies st3 = []" using cookies_of(3)[of env provider info st2] y c2 by simp
  obtain user where user: "x3 = Inr user"
    using assms(1,4) e tr u info d y c3 by (cases x3) (auto simp: callback_login_def abind_def get_db_def)
  obtain x4 st4 where z: "createApplicationSession env user tr f st3 = (x4, st4)" by fastforce
  have c4: "as_cookies st4 = []" using cookies_of(4)[of env user tr f st3] z c3 by simp
  obtain s where s: "x4 = Inr s"
    using assms(1,4) e tr u info d y user z c4 by (cases x4) (auto simp: callback_login_def abind_def get_db_def)
  have "st' = add_cookie (SetSession (s_sessionId s) (s_expiresAt s)) st4"
    using assms(1) e tr u info d y user z s by (simp add: callback_login_def abind_def get_db_def send_cookie_def aret_def)
  then show ?thesis using that e tr u info d y user z s c4 by blast
qed

lemma callback_allowed:
  assumes "getCallbackAccessDeniedRedirectUrl env provider info db = None"
  shows "\<exists>email. jfield ''email'' info = JStr email \<and> jfield ''email_verified'' info = JBool True
    \<and> findActiveByProviderEmail provider email db \<noteq> None"
proof -
  obtain m where m: "info_email info = Some m" "jfield ''email_verified'' info = JBool True" "isAllowlisted provider m db \<noteq> None"
    using assms by (auto simp: getCallbackAccessDeniedRedirectUrl_def split: option.splits if_splits)
  then obtain email where "jfield ''email'' info = JStr email" "m = normalizeEmail email"
    by (auto simp: info_email_def jstr_opt_def dest!: truthy_SomeD split: json.splits)
  then show ?thesis using m by (auto simp: isAllowlisted_def findActiveByProviderEmail_def)
qed

lemma findActive_cong:
  "ac_allowlist a = ac_allowlist b \<Longrightarrow> findActiveByProviderEmail p e a = findActiveByProviderEmail p e b"
  by (simp add: findActiveByProviderEmail_def)

text \<open>
  C16: Outside mock mode a callback sets a session cookie only when it answers the flow this browser started
  (same provider, same state), the provider exchanged its code for tokens and reported for them an address
  it has verified, and that address is on the allowlist of the provider; the session stored under the cookie
  belongs to a stored user with that address.
\<close>

theorem callback_login_is_checked:
  assumes "handleCallback env origin provider query flow st = (r, st')" "av_mode env \<noteq> AUTH_MODE_MOCK"
    "as_cookies st = []" "fetch_keeps (\<lambda>st. as_cookies st = []) env" "SetSession sid expires \<in> set (as_cookies st')"
  shows "\<exists>f code tr st1 info st2 email s user. flow = Some f \<and> fl_provider f = provider
    \<and> cq_state query = Some (fl_state f) \<and> fl_state f \<noteq> []
    \<and> exchangeCodeForTokens env provider code (fl_codeVerifier f) st = (Inr tr, st1)
    \<and> fetchUserInfo env provider (tr_access_token tr) st1 = (Inr info, st2)
    \<and> jfield ''email'' info = JStr email \<and> jfield ''email_verified'' info = JBool True
    \<and> findActiveByProviderEmail provider email (as_db st') \<noteq> None
    \<and> s \<in> set (ac_sessions (as_db st')) \<and> s_sessionId s = sid \<and> s_provider s = provider
    \<and> user \<in> set (ac_users (as_db st')) \<and> s_userId s = u_id user \<and> u_email user = Some email"
proof -
  obtain f code st0 where c: "callback_code provider query flow = Inr (f, code)"
    "callback_login env provider f code st = (r, st0)" "st' = add_cookie ClearFlow st0"
    using assms
    by (cases "callback_code provider query flow")
      (auto simp: handleCallback_def afinally_def aret_def athrow_def abind_def add_cookie_def
        split: prod.splits option.splits if_splits)
  have flow: "flow = Some f" "fl_provider f = provider" "cq_state query = Some (fl_state f)" "fl_state f \<noteq> []"
    using c(1) by (auto simp: callback_code_def split: option.splits if_splits)
  have "as_cookies st0 \<noteq> []" using assms(5) c(3) by (auto simp: add_cookie_def)
  from callback_login_cookie[OF c(2) assms(3,4) this]
  obtain tr st1 info st2 user st3 s st4 where x: "exchangeCodeForTokens env provider code (fl_codeVerifier f) st = (Inr tr, st1)"
    "fetchUserInfo env provider (tr_access_token tr) st1 = (Inr info, st2)"
    "getCallbackAccessDeniedRedirectUrl env provider info (as_db st2) = None"
    "syncUserFromUserInfo env provider info st2 = (Inr user, st3)" "createApplicationSession env user tr f st3 = (Inr s, st4)"
    "st0 = add_cookie (SetSession (s_sessionId s) (s_expiresAt s)) st4" "as_cookies st4 = []" by blast
  obtain email where e: "jfield ''email'' info = JStr email" "jfield ''email_verified'' info = JBool True"
    "findActiveByProviderEmail provider email (as_db st2) \<noteq> None" using callback_allowed[OF x(3)] by blast
  have db: "as_db st' = as_db st4" "s_sessionId s = sid" using x(6,7) c(3) assms(5) by (auto simp: add_cookie_def)
  note u = syncUser_InrD[OF x(4)] and y = createApplicationSession_InrD[OF x(5)]
  have "findActiveByProviderEmail provider email (as_db st') \<noteq> None"
    using e(3) u y db findActive_cong[of "as_db st'" "as_db st2" provider email] by simp
  moreover have "u_email user = Some email" "user \<in> set (ac_users (as_db st'))" "s \<in> set (ac_sessions (as_db st'))"
    "s_provider s = provider" "s_userId s = u_id user" using u y db e(1) flow(2) by (simp_all add: jstr_opt_def)
  ultimately show ?thesis using flow x(1,2) e(1,2) db(2) by blast
qed

text \<open>
  Once the discovery document of an issuer could not be loaded, every later request for it fails with the
  same error without asking the provider again, however the provider answers by then: the rejected promise
  stays in the cache.
\<close>

lemma discovery_failure_is_permanent:
  assumes "av_mode env \<noteq> AUTH_MODE_MOCK" "getDiscoveryDocument env provider issuer st = (Inl e, st')"
    "as_discovery st2 = as_discovery st'" "av_mode env2 \<noteq> AUTH_MODE_MOCK"
  shows "getDiscoveryDocument env2 provider2 issuer st2 = (Inl e, st2)
    \<and> (map_of (av_providers env2) provider2 = Some config \<and> pc_issuerUrl config = issuer \<longrightarrow>
         refreshTokens env2 provider2 token st2 = (Inl e, st2)
         \<and> exchangeCodeForTokens env2 provider2 code verifier st2 = (Inl e, st2))"
proof -
  have "map_of (as_discovery st') (strip_slashes issuer) = Some (Inl e)"
    using assms(1,2)
    by (auto simp: getDiscoveryDocument_def ensureOAuthMode_def abind_def aret_def Let_def update_conv'
        split: option.splits prod.splits)
  then have d: "getDiscoveryDocument env2 provider2 issuer st2 = (Inl e, st2)"
    using assms(3,4) by (simp add: getDiscoveryDocument_def ensureOAuthMode_def abind_def aret_def)
  then have t: "fetchTokenResponse env2 provider2 config params st2 = (Inl e, st2)" if "pc_issuerUrl config = issuer" for params
    using that by (simp add: fetchTokenResponse_def abind_def)
  then show ?thesis using d assms(4)
    by (auto simp: refreshTokens_def exchangeCodeForTokens_def getProviderConfig_def ensureOAuthMode_def abind_def aret_def)
qed

lemma toDateFromNow_int:
  assumes "0 \<le> now" "0 < n" "now + n * 1000 \<le> 8640000000000000"
  shows "toDateFromNow now (Some (jint n)) fb = Some (now + n * 1000)"
proof -
  have "jmul (jint n) (jint 1000) = jint (n * 1000)" "jadd (jint now) (jint (n * 1000)) = jint (now + n * 1000)"
    using assms by (auto intro!: jmul_int jadd_int)
  moreover have "js_date (jint m) = Some m" if "0 \<le> m" "m \<le> 8640000000000000" for m
  proof -
    have "(of_int m :: rat) \<le> of_int 8640000000000000" using that(2) by (simp only: of_int_le_iff)
    then show ?thesis using that(1) by (simp add: js_date_def jint_def)
  qed
  moreover have "jis_finite (jint n)" "jless (Fin 0) (jint n)" using assms(2) by (simp_all add: jis_finite_def jint_def)
  ultimately show ?thesis using assms by (simp add: toDateFromNow_def)
qed

lemma toDateFromNow_fallback: "toDateFromNow now None n = toDateFromNow now (Some (jint n)) n"
  by (simp add: toDateFromNow_def)

section \<open>A session from sign-in to logout\<close>

definition sample_config :: OAuthProviderAuthConfig where
  "sample_config = \<lparr>pc_issuerUrl = ''i/'', pc_clientId = ''c'', pc_redirectUri = ''r'', pc_scope = ''openid email''\<rparr>"

fun sample_reply :: "http_request \<Rightarrow> http_response" where
  "sample_reply (GetDiscovery _) = HttpResponse True (JsonBody (JObj [(''issuer'', JStr ''i'')]))"
| "sample_reply (PostToken _ _ _) = HttpResponse True (JsonBody (JObj [(''access_token'', JStr ''t''), (''expires_in'', JNum (jint 60)),
     (''refresh_token'', JStr ''r'')]))"
| "sample_reply (GetUserInfo _ _) = HttpResponse True (JsonBody (JObj [(''sub'', JStr ''ua''), (''email'', JStr ''A@x''),
     (''email_verified'', JBool True)]))"

definition sample_auth_env :: auth_env where
  "sample_auth_env = \<lparr>av_mode = ''oauth'', av_now = 1000, av_ttlSeconds = 100, av_leewaySeconds = 5, av_appPublicUrl = ''app'',
     av_providers = [(''deep-id'', sample_config)], av_fetch = (\<lambda>req st. (sample_reply req, st)),
     av_resolve = (\<lambda>path base. base @ path), av_encrypt = (\<lambda>s. s), av_decrypt = Some, av_sessionToken = ''sid'',
     av_stateToken = ''s'', av_verifierToken = ''v'', av_userUuid = ''ux'', av_sessionUuid = ''sx''\<rparr>"

definition sample_query :: OAuthCallbackQuery where
  "sample_query = \<lparr>cq_code = Some ''code'', cq_state = Some ''s'', cq_error = None, cq_error_description = None\<rparr>"

definition sample_flow :: AuthFlowState where
  "sample_flow = \<lparr>fl_provider = ''deep-id'', fl_state = ''s'', fl_codeVerifier = ''v''\<rparr>"

definition sample_start :: auth_state where
  "sample_start = \<lparr>as_db = sample_access, as_discovery = [], as_cookies = []\<rparr>"

definition sample_login :: auth_state where
  "sample_login = snd (handleCallback sample_auth_env [] ''deep-id'' sample_query (Some sample_flow) sample_start)"

lemma sample_fetch_keeps: "fetch_keeps J sample_auth_env"
  by (simp add: fetch_keeps_def sample_auth_env_def)

lemma sample_mode: "av_mode sample_auth_env \<noteq> AUTH_MODE_MOCK" by code_simp

definition sample_token :: OAuthTokenResponse where
  "sample_token = \<lparr>tr_access_token = ''t'', tr_expires_in = jint 60, tr_refresh_token = Some ''r'',
     tr_refresh_token_expires_in = None, tr_scope = None\<rparr>"

definition sample_info :: json where
  "sample_info = JObj [(''sub'', JStr ''ua''), (''email'', JStr ''A@x''), (''email_verified'', JBool True)]"

definition sample_discovered :: auth_state where
  "sample_discovered = snd (exchangeCodeForTokens sample_auth_env ''deep-id'' ''code'' ''v'' sample_start)"

definition sample_synced_user :: "(auth_error + OAuthUserRow) \<times> auth_state" where
  "sample_synced_user = syncUserFromUserInfo sample_auth_env ''deep-id'' sample_info sample_discovered"

lemma sample_steps:
  "fst (exchangeCodeForTokens sample_auth_env ''deep-id'' ''code'' ''v'' sample_start) = Inr sample_token"
  "fetchUserInfo sample_auth_env ''deep-id'' ''t'' sample_discovered = (Inr sample_info, sample_discovered)"
  "getCallbackAccessDeniedRedirectUrl sample_auth_env ''deep-id'' sample_info (as_db sample_discovered) = None"
  "fst sample_synced_user = Inr (applyUpdate (sample_user ''ua'' ''a@x'')
     \<lparr>up_aud = None, up_auth_time = None, up_email = Some (Some ''A@x''), up_email_verified = None, up_iat = None, up_iss = None,
      up_picture = None, up_rat = None, up_username = None\<rparr>\<lparr>u_updatedAt := 1000\<rparr>)"
  "callback_code ''deep-id'' sample_query (Some sample_flow) = Inr (sample_flow, ''code'')"
  "getScopes sample_auth_env ''deep-id'' = Inr [''openid'', ''email'']"
  "ac_sessions (as_db (snd sample_synced_user)) = []"
  by code_simp+

lemma sample_cookie: "SetSession ''sid'' 101000 \<in> set (as_cookies sample_login)"
proof -
  obtain user st3 where y: "syncUserFromUserInfo sample_auth_env ''deep-id'' sample_info sample_discovered = (Inr user, st3)"
    "ac_sessions (as_db st3) = []"
    using sample_steps(4,7) unfolding sample_synced_user_def by (metis prod.collapse)
  have e: "exchangeCodeForTokens sample_auth_env ''deep-id'' ''code'' ''v'' sample_start = (Inr sample_token, sample_discovered)"
    using sample_steps(1) unfolding sample_discovered_def by (metis prod.collapse)
  have dates: "toDateFromNow 1000 (Some (jint 60)) 5 = Some 61000" "toDateFromNow 1000 None 100 = Some 101000"
    by (simp_all add: toDateFromNow_int toDateFromNow_fallback)
  have env: "av_now sample_auth_env = 1000" "av_ttlSeconds sample_auth_env = 100" "av_leewaySeconds sample_auth_env = 5"
    "av_sessionToken sample_auth_env = ''sid''" by (simp_all add: sample_auth_env_def)
  have flow: "fl_codeVerifier sample_flow = ''v''" "fl_provider sample_flow = ''deep-id''" by (simp_all add: sample_flow_def)
  obtain s st4 where z: "createApplicationSession sample_auth_env user sample_token sample_flow st3 = (Inr s, st4)"
    "s_sessionId s = ''sid''" "s_expiresAt s = 101000"
    using y(2) dates env flow sample_steps(6)
    by (simp add: createApplicationSession_def sample_token_def truthy_def abind_def aret_def save_session_def session_create_def
        earlier_def Let_def)
  have "callback_login sample_auth_env ''deep-id'' sample_flow ''code'' sample_start
      = (Inr ''app'', add_cookie (SetSession ''sid'' 101000) st4)"
    using e sample_steps(2,3) y(1) z flow
    by (simp add: callback_login_def abind_def get_db_def sample_token_def send_cookie_def aret_def sample_auth_env_def)
  moreover have "cq_error sample_query = None" by (simp add: sample_query_def)
  ultimately show ?thesis
    using sample_mode sample_steps(5)
    by (simp add: sample_login_def handleCallback_def afinally_def truthy_def abind_def aret_def add_cookie_def)
qed

theorem callback_login_is_checked_witness:
  "\<exists>s. s \<in> set (ac_sessions (as_db sample_login)) \<and> s_sessionId s = ''sid'' \<and> s_provider s = ''deep-id''"
proof -
  have "handleCallback sample_auth_env [] ''deep-id'' sample_query (Some sample_flow) sample_start
      = (fst (handleCallback sample_auth_env [] ''deep-id'' sample_query (Some sample_flow) sample_start), sample_login)"
    by (simp add: sample_login_def)
  from callback_login_is_checked[OF this sample_mode _ sample_fetch_keeps sample_cookie]
  show ?thesis by (auto simp: sample_start_def)
qed

definition sample_session :: "string \<Rightarrow> AuthSession" where
  "sample_session sid = \<lparr>s_id = sid, s_sessionId = sid, s_provider = ''deep-id'', s_userId = ''ub'', s_accessTokenCiphertext = ''t'',
     s_refreshTokenCiphertext = ''r'', s_accessTokenExpiresAt = 90000, s_refreshTokenExpiresAt = 100000, s_scope = [], s_state = ''s'',
     s_codeVerifier = ''v'', s_lastRefreshedAt = None, s_revokedAt = None, s_expiresAt = 100000, s_createdAt = 0, s_updatedAt = 0\<rparr>"

definition sample_signed_in :: auth_state where
  "sample_signed_in = sample_start\<lparr>as_db := sample_access\<lparr>ac_sessions := [sample_session ''sid'']\<rparr>\<rparr>"

definition sample_request :: "(auth_error + AuthRequestContext) \<times> auth_state" where
  "sample_request = requireSession sample_auth_env (\<lambda>_. None) None (Some ''sid'') sample_signed_in"

definition sample_context :: AuthRequestContext where
  "sample_context = \<lparr>rc_role = owner, rc_session = sample_session ''sid'', rc_user = sample_user ''ub'' ''b@x''\<rparr>"

lemma sample_request_eq:
  "requireSession sample_auth_env (\<lambda>_. None) None (Some ''sid'') sample_signed_in = (Inr sample_context, snd sample_request)"
proof -
  have "fst sample_request = Inr sample_context" by code_simp
  then show ?thesis unfolding sample_request_def by (metis prod.collapse)
qed

theorem session_access_is_allowlisted_witness:
  "\<exists>row. row \<in> set (ac_allowlist (as_db (snd sample_request))) \<and> al_active row \<and> al_email row = ''b@x'' \<and> al_role row = owner"
proof -
  have "u_email (rc_user sample_context) = Some ''b@x''" "rc_role sample_context = owner" "normalizeEmail ''b@x'' = ''b@x''" by code_simp+
  then show ?thesis using session_access_is_allowlisted[OF sample_request_eq sample_mode] by auto
qed

lemma sample_signed_in_inv: "session_inv (\<lambda>_. 0) {''out''} (av_ttlSeconds sample_auth_env) (as_db sample_signed_in)"
  by code_simp


definition sample_removed :: access_db where
  "sample_removed = snd (removeAdmin sample_admin_env (sample_user ''ua'' ''a@x'') ''deep-id'' ''b@x'' sample_access)"

definition sample_other :: auth_state where
  "sample_other = sample_start\<lparr>as_db := sample_removed\<lparr>ac_sessions := [(sample_session ''sid'')\<lparr>s_userId := ''ua''\<rparr>]\<rparr>\<rparr>"

definition sample_other_context :: AuthRequestContext where
  "sample_other_context = \<lparr>rc_role = owner, rc_session = (sample_session ''sid'')\<lparr>s_userId := ''ua''\<rparr>, rc_user = sample_user ''ua'' ''a@x''\<rparr>"

theorem removed_admin_is_denied_witness:
  "fst (requireSession sample_auth_env (\<lambda>_. None) None (Some ''sid'') sample_other) = Inr sample_other_context
   \<and> normalizeEmail ''a@x'' \<noteq> normalizeEmail ''b@x''"
proof -
  let ?r = "requireSession sample_auth_env (\<lambda>_. None) None (Some ''sid'') sample_other"
  have x: "fst (removeAdmin sample_admin_env (sample_user ''ua'' ''a@x'') ''deep-id'' ''b@x'' sample_access) = Inr ()"
    "fst ?r = Inr sample_other_context" "ac_allowlist (as_db sample_other) = ac_allowlist sample_removed"
    "s_provider (rc_session sample_other_context) = ''deep-id''" "u_email (rc_user sample_other_context) = Some ''a@x''"
    by code_simp+
  have "removeAdmin sample_admin_env (sample_user ''ua'' ''a@x'') ''deep-id'' ''b@x'' sample_access = (Inr (), sample_removed)"
    "?r = (Inr sample_other_context, snd ?r)"
    using x(1,2) unfolding sample_removed_def by (simp_all add: prod_eq_iff)
  from removed_admin_is_denied[OF sample_access_ok(1) this(1) x(3) sample_fetch_keeps sample_mode this(2) x(4,5)]
  show ?thesis using x(2) by simp
qed

definition sample_down_env :: auth_env where
  "sample_down_env = sample_auth_env\<lparr>av_fetch := (\<lambda>req st. (FetchFailed, st))\<rparr>"

theorem discovery_failure_is_permanent_witness:
  "fst (refreshTokens sample_auth_env ''deep-id'' ''r'' (snd (getDiscoveryDocument sample_down_env ''deep-id'' ''i/'' sample_start))) = Inl NetworkError"
proof -
  let ?st = "snd (getDiscoveryDocument sample_down_env ''deep-id'' ''i/'' sample_start)"
  have "fst (getDiscoveryDocument sample_down_env ''deep-id'' ''i/'' sample_start) = Inl NetworkError"
    "av_mode sample_down_env \<noteq> AUTH_MODE_MOCK"
    "map_of (av_providers sample_auth_env) ''deep-id'' = Some sample_config" "pc_issuerUrl sample_config = ''i/''" by code_simp+
  moreover from this(1) have "getDiscoveryDocument sample_down_env ''deep-id'' ''i/'' sample_start = (Inl NetworkError, ?st)"
    by (simp add: prod_eq_iff)
  ultimately have "refreshTokens sample_auth_env ''deep-id'' ''r'' ?st = (Inl NetworkError, ?st)"
    using discovery_failure_is_permanent[of sample_down_env "''deep-id''" "''i/''" sample_start NetworkError ?st ?st sample_auth_env "''deep-id''" sample_config "''r''"]
      sample_mode by simp
  then show ?thesis by simp
qed

end
