(* ===== verification/Community_Dataset.thy ===== *)
theory Community_Dataset
  imports Prelude "HOL-Library.Char_ord" "HOL-Library.List_Lexorder" "HOL-Library.Product_Lexorder" "HOL-Library.Option_ord"
begin

text \<open>
  The freeze of a community dataset (\<^verbatim>\<open>dataset-engine.ts\<close>, \<^verbatim>\<open>cohort.ts\<close>): the records of every selected
  resource are crawled page by page through a platform adapter, staged as segments in object storage, and
  exported with a manifest that is written last.  An attempt may stop anywhere; the next one starts from the
  last heartbeat the server received.

  The operations of one attempt are functions; the attempts, their crashes and the heartbeats that arrive or
  not are a step relation.  Object storage is a map from keys to objects, an object is the value its bytes
  encode, and the digest of an object is the argument \<open>sha\<close>.  An instant is its number of milliseconds.
  Request counters, logging, local scratch files and the DuckDB connection are left out; what its
  queries compute is written out.
\<close>

section \<open>Data\<close>

record CommunityActivityRecord =
  ca_type :: string
  ca_actor :: string
  ca_counterparty :: "string option"
  ca_resource :: string
  ca_objectId :: string
  ca_occurredAt :: int
  ca_count :: int
  ca_actorIsBot :: bool
  ca_deleted :: bool

record CommunityFetchWindow =
  fw_start :: int
  fw_end :: int

datatype CommunityCoverageStatus = cov_complete | cov_partial | cov_failed

record CommunityResourceCoverage =
  rcov_resource :: string
  rcov_status :: CommunityCoverageStatus
  rcov_reason :: "string option"

record CommunityRecordBatch =
  bt_records :: "CommunityActivityRecord list"
  bt_cursor :: string

text \<open>
  The generator \<^verbatim>\<open>iterateRecords\<close> of an adapter, for a resource and a resume cursor: its batches and the coverage
  it returns.
\<close>

record CommunityAdapter =
  ad_iterateRecords :: "string \<Rightarrow> string option \<Rightarrow> CommunityRecordBatch list \<times> CommunityResourceCoverage"

record ResourceProgress =
  rp_segments :: nat
  rp_cursor :: "string option"
  rp_coverage :: "CommunityResourceCoverage option"

type_synonym CommunityFetchCheckpoint = "(string \<times> ResourceProgress) list"

datatype cohort_status = matched | unmatched

record CommunityCohortRow =
  co_did :: string
  co_username :: "string option"
  co_accountId :: "string option"
  co_status :: cohort_status

record file_meta =
  fm_sha256 :: string
  fm_rows :: nat

record CommunityDatasetManifest =
  mf_schemaVersion :: nat
  mf_platform :: string
  mf_snapshotId :: string
  mf_window :: CommunityFetchWindow
  mf_files :: "(string \<times> file_meta) list"

datatype s3_object =
    Segment "CommunityActivityRecord list"
  | ActivitiesFile "CommunityActivityRecord list"
  | CoverageFile "CommunityResourceCoverage list"
  | CohortFile "CommunityCohortRow list"
  | ManifestFile CommunityDatasetManifest

type_synonym s3_store = "string \<Rightarrow> s3_object option"

section \<open>Keys\<close>

definition COMMUNITY_ACTIVITIES_FILENAME :: string where "COMMUNITY_ACTIVITIES_FILENAME = ''activities.parquet''"
definition COMMUNITY_COHORT_FILENAME :: string where "COMMUNITY_COHORT_FILENAME = ''cohort.parquet''"
definition COMMUNITY_COVERAGE_FILENAME :: string where "COMMUNITY_COVERAGE_FILENAME = ''coverage.parquet''"
definition COMMUNITY_MANIFEST_FILENAME :: string where "COMMUNITY_MANIFEST_FILENAME = ''manifest.json''"

definition getCommunityDatasetPrefix :: "string \<Rightarrow> string \<Rightarrow> string" where
  "getCommunityDatasetPrefix snapshotId platform = ''snapshots/'' @ snapshotId @ ''/community_'' @ platform"

definition getCommunityDatasetKey :: "string \<Rightarrow> string \<Rightarrow> string \<Rightarrow> string" where
  "getCommunityDatasetKey snapshotId platform filename = getCommunityDatasetPrefix snapshotId platform @ ''/'' @ filename"

definition getCommunityStagingPrefix :: "string \<Rightarrow> string \<Rightarrow> string" where
  "getCommunityStagingPrefix snapshotId platform = getCommunityDatasetPrefix snapshotId platform @ ''/staging/''"

definition padStart5 :: "string \<Rightarrow> string" where
  "padStart5 s = replicate (5 - length s) (CHR ''0'') @ s"

definition segmentKey :: "string \<Rightarrow> string \<Rightarrow> string \<Rightarrow> nat \<Rightarrow> string" where
  "segmentKey snapshotId platform resourceId index =
     getCommunityStagingPrefix snapshotId platform @ resourceId @ ''.'' @ padStart5 (js_nat index) @ ''.ndjson.gz''"

section \<open>The crawl\<close>

definition SEGMENT_MAX_ROWS :: nat where "SEGMENT_MAX_ROWS = 5000"

definition COMMUNITY_DATASET_SCHEMA_VERSION :: nat where "COMMUNITY_DATASET_SCHEMA_VERSION = 2"

record freeze_input =
  fi_snapshotId :: string
  fi_platform :: string
  fi_window :: CommunityFetchWindow
  fi_resourceIds :: "string list"
  fi_adapter :: CommunityAdapter

definition progress_of :: "CommunityFetchCheckpoint \<Rightarrow> string \<Rightarrow> ResourceProgress" where
  "progress_of cp r = (case map_of cp r of Some p \<Rightarrow> p | None \<Rightarrow> \<lparr>rp_segments = 0, rp_cursor = None, rp_coverage = None\<rparr>)"

text \<open>A checkpoint that is missing or not an object is empty.\<close>

definition normalizeCheckpoint :: "CommunityFetchCheckpoint option \<Rightarrow> CommunityFetchCheckpoint" where
  "normalizeCheckpoint c = (case c of None \<Rightarrow> [] | Some cp \<Rightarrow> cp)"

text \<open>
  An attempt in memory: the checkpoint, the resources still to do, the batches its generator has not yet
  yielded and the coverage it will return, and the rows not yet uploaded.
\<close>

record attempt =
  at_checkpoint :: CommunityFetchCheckpoint
  at_todo :: "string list"
  at_iterator :: "(CommunityRecordBatch list \<times> CommunityResourceCoverage) option"
  at_buffered :: "CommunityActivityRecord list"

definition flushSegment ::
  "freeze_input \<Rightarrow> string \<Rightarrow> string option \<Rightarrow> CommunityActivityRecord list \<Rightarrow> ResourceProgress \<Rightarrow> s3_store
    \<Rightarrow> CommunityActivityRecord list \<times> ResourceProgress \<times> s3_store" where
  "flushSegment inp resourceId cursor buffered p store =
     (if buffered \<noteq> []
      then ([], p\<lparr>rp_segments := Suc (rp_segments p), rp_cursor := cursor\<rparr>,
            store(segmentKey (fi_snapshotId inp) (fi_platform inp) resourceId (rp_segments p) \<mapsto> Segment buffered))
      else (buffered, p\<lparr>rp_cursor := cursor\<rparr>, store))"

text \<open>The body of the loop for a batch.\<close>

definition crawl_batch ::
  "freeze_input \<Rightarrow> string \<Rightarrow> CommunityRecordBatch \<Rightarrow> CommunityActivityRecord list \<Rightarrow> ResourceProgress \<Rightarrow> s3_store
    \<Rightarrow> CommunityActivityRecord list \<times> ResourceProgress \<times> s3_store" where
  "crawl_batch inp resourceId batch buffered p store =
     (let buffered' = buffered @ bt_records batch
      in if SEGMENT_MAX_ROWS \<le> length buffered' then flushSegment inp resourceId (Some (bt_cursor batch)) buffered' p store
         else if buffered' = [] then (buffered', p\<lparr>rp_cursor := Some (bt_cursor batch)\<rparr>, store)
         else (buffered', p, store))"

text \<open>The end of the generator: the rest is uploaded, the coverage recorded and the cursor dropped.\<close>

definition crawl_finish ::
  "freeze_input \<Rightarrow> string \<Rightarrow> CommunityResourceCoverage \<Rightarrow> CommunityActivityRecord list \<Rightarrow> ResourceProgress \<Rightarrow> s3_store
    \<Rightarrow> ResourceProgress \<times> s3_store" where
  "crawl_finish inp resourceId coverage buffered p store =
     (case flushSegment inp resourceId None buffered p store of
        (_, p', store') \<Rightarrow> (p'\<lparr>rp_coverage := Some coverage, rp_cursor := None\<rparr>, store'))"

definition start_attempt :: "freeze_input \<Rightarrow> CommunityFetchCheckpoint option \<Rightarrow> attempt" where
  "start_attempt inp lastCheckpoint =
     \<lparr>at_checkpoint = normalizeCheckpoint lastCheckpoint, at_todo = fi_resourceIds inp, at_iterator = None, at_buffered = []\<rparr>"

section \<open>The export\<close>

text \<open>
  The order of the exported rows (\<^verbatim>\<open>occurred_at, type, actor, object_id, counterparty NULLS FIRST, resource\<close>) is
  the lexicographic order of these keys, which are also what the rows are grouped by.
\<close>

type_synonym activity_key = "int \<times> string \<times> string \<times> string \<times> string option \<times> string"

definition group_key :: "CommunityActivityRecord \<Rightarrow> activity_key" where
  "group_key r = (ca_occurredAt r, ca_type r, ca_actor r, ca_objectId r, ca_counterparty r, ca_resource r)"

definition group_row :: "CommunityActivityRecord list \<Rightarrow> activity_key \<Rightarrow> CommunityActivityRecord" where
  "group_row rows k =
     (case k of (occurredAt, type, actor, objectId, counterparty, resource) \<Rightarrow>
        (let g = filter (\<lambda>r. group_key r = k) rows
         in \<lparr>ca_type = type, ca_actor = actor, ca_counterparty = counterparty, ca_resource = resource, ca_objectId = objectId,
             ca_occurredAt = occurredAt, ca_count = Max (set (map ca_count g)), ca_actorIsBot = list_ex ca_actorIsBot g,
             ca_deleted = list_ex ca_deleted g\<rparr>))"

definition in_window :: "CommunityFetchWindow \<Rightarrow> CommunityActivityRecord \<Rightarrow> bool" where
  "in_window w r \<longleftrightarrow> fw_start w \<le> ca_occurredAt r \<and> ca_occurredAt r < fw_end w"

definition export_activities :: "CommunityFetchWindow \<Rightarrow> CommunityActivityRecord list \<Rightarrow> CommunityActivityRecord list" where
  "export_activities w staged =
     (let rows = filter (in_window w) staged
      in map (group_row rows) (sort (remdups (map group_key rows))))"

definition export_coverage :: "CommunityResourceCoverage list \<Rightarrow> CommunityResourceCoverage list" where
  "export_coverage coverages = sort_key rcov_resource coverages"

definition export_cohort :: "CommunityCohortRow list \<Rightarrow> CommunityCohortRow list" where
  "export_cohort cohort = sort_key co_did cohort"

definition coverages_of :: "freeze_input \<Rightarrow> CommunityFetchCheckpoint \<Rightarrow> CommunityResourceCoverage list" where
  "coverages_of inp cp = List.map_filter (\<lambda>r. rp_coverage (progress_of cp r)) (fi_resourceIds inp)"

definition all_failed :: "CommunityResourceCoverage list \<Rightarrow> bool" where
  "all_failed coverages \<longleftrightarrow> list_all (\<lambda>c. rcov_status c = cov_failed) coverages"

text \<open>Downloading the segments of a resource; \<^verbatim>\<open>None\<close> when one is missing.\<close>

fun segment_rows :: "s3_object option \<Rightarrow> CommunityActivityRecord list option" where
  "segment_rows (Some (Segment rs)) = Some rs"
| "segment_rows _ = None"

definition read_segments :: "freeze_input \<Rightarrow> s3_store \<Rightarrow> string \<Rightarrow> nat \<Rightarrow> CommunityActivityRecord list option" where
  "read_segments inp store r n =
     map_option concat (those (map (\<lambda>i. segment_rows (store (segmentKey (fi_snapshotId inp) (fi_platform inp) r i))) [0..<n]))"

definition read_staged :: "freeze_input \<Rightarrow> s3_store \<Rightarrow> CommunityFetchCheckpoint \<Rightarrow> CommunityActivityRecord list option" where
  "read_staged inp store cp =
     map_option concat (those (map (\<lambda>r. read_segments inp store r (rp_segments (progress_of cp r))) (fi_resourceIds inp)))"

definition dataset_key :: "freeze_input \<Rightarrow> string \<Rightarrow> string" where
  "dataset_key inp filename = getCommunityDatasetKey (fi_snapshotId inp) (fi_platform inp) filename"

text \<open>The uploads of the commit, in order: the three files and then the manifest.\<close>

definition commit_puts ::
  "(s3_object \<Rightarrow> string) \<Rightarrow> freeze_input \<Rightarrow> CommunityActivityRecord list \<Rightarrow> CommunityResourceCoverage list \<Rightarrow> CommunityCohortRow list
    \<Rightarrow> (string \<times> s3_object) list" where
  "commit_puts sha inp staged coverages cohort =
     (let activities = ActivitiesFile (export_activities (fi_window inp) staged);
          coverage = CoverageFile (export_coverage coverages);
          cohortFile = CohortFile (export_cohort cohort);
          manifest = \<lparr>mf_schemaVersion = COMMUNITY_DATASET_SCHEMA_VERSION, mf_platform = fi_platform inp,
            mf_snapshotId = fi_snapshotId inp, mf_window = fi_window inp,
            mf_files = [(COMMUNITY_ACTIVITIES_FILENAME, \<lparr>fm_sha256 = sha activities, fm_rows = length (export_activities (fi_window inp) staged)\<rparr>),
              (COMMUNITY_COVERAGE_FILENAME, \<lparr>fm_sha256 = sha coverage, fm_rows = length coverages\<rparr>),
              (COMMUNITY_COHORT_FILENAME, \<lparr>fm_sha256 = sha cohortFile, fm_rows = length cohort\<rparr>)]\<rparr>
      in [(dataset_key inp COMMUNITY_ACTIVITIES_FILENAME, activities), (dataset_key inp COMMUNITY_COVERAGE_FILENAME, coverage),
          (dataset_key inp COMMUNITY_COHORT_FILENAME, cohortFile), (dataset_key inp COMMUNITY_MANIFEST_FILENAME, ManifestFile manifest)])"

text \<open>
  \<^verbatim>\<open>readCommittedManifest\<close>: nothing without a manifest, an exception when a file is missing or its digest differs.
\<close>

datatype verify_error = FileMissing string | HashMismatch string

fun verify_files :: "(s3_object \<Rightarrow> string) \<Rightarrow> freeze_input \<Rightarrow> s3_store \<Rightarrow> (string \<times> file_meta) list \<Rightarrow> verify_error option" where
  "verify_files sha inp store [] = None"
| "verify_files sha inp store ((filename, meta) # fs) =
     (case store (dataset_key inp filename) of
        None \<Rightarrow> Some (FileMissing filename)
      | Some content \<Rightarrow> if sha content \<noteq> fm_sha256 meta then Some (HashMismatch filename) else verify_files sha inp store fs)"

definition readCommittedManifest ::
  "(s3_object \<Rightarrow> string) \<Rightarrow> freeze_input \<Rightarrow> s3_store \<Rightarrow> verify_error + CommunityDatasetManifest option" where
  "readCommittedManifest sha inp store =
     (case store (dataset_key inp COMMUNITY_MANIFEST_FILENAME) of
        Some (ManifestFile m) \<Rightarrow> (case verify_files sha inp store (mf_files m) of Some e \<Rightarrow> Inl e | None \<Rightarrow> Inr (Some m))
      | _ \<Rightarrow> Inr None)"

text \<open>Deleting staging segments is best effort: \<open>gone\<close> are the keys the storage did delete.\<close>

definition clearStagingSegments :: "freeze_input \<Rightarrow> string set \<Rightarrow> s3_store \<Rightarrow> s3_store" where
  "clearStagingSegments inp gone store =
     (\<lambda>k. if k \<in> gone \<and> prefix (getCommunityStagingPrefix (fi_snapshotId inp) (fi_platform inp)) k then None else store k)"

section \<open>Keys do not collide\<close>

definition dec_nat :: "string \<Rightarrow> nat" where
  "dec_nat s = foldl (\<lambda>n c. n * 10 + (of_char c - 48)) 0 s"

lemma dec_nat_js_nat: "dec_nat (js_nat n) = n"
proof (induction n rule: js_nat.induct)
  case (1 n)
  show ?case
  proof (cases "n < 10")
    case True
    then show ?thesis by (simp add: js_nat.simps[of n] dec_nat_def)
  next
    case False
    have "dec_nat (js_nat (n div 10) @ [char_of (48 + n mod 10)]) = dec_nat (js_nat (n div 10)) * 10 + n mod 10"
      by (simp add: dec_nat_def)
    then show ?thesis using False 1 by (simp add: js_nat.simps[of n])
  qed
qed

lemma dec_nat_zeros: "dec_nat (replicate m (CHR ''0'') @ s) = dec_nat s"
  by (induction m) (simp_all add: dec_nat_def)

lemma padStart5_inj: "padStart5 (js_nat i) = padStart5 (js_nat j) \<Longrightarrow> i = j"
  using dec_nat_zeros dec_nat_js_nat by (metis padStart5_def)

lemma dot_not_in_pad: "CHR ''.'' \<notin> set (padStart5 (js_nat i))"
  using js_nat_digits[of "CHR ''.''" i] by (auto simp: padStart5_def)

lemma split_last_sep:
  fixes x :: char
  assumes "a @ x # b = c @ x # d" "x \<notin> set b" "x \<notin> set d"
  shows "a = c \<and> b = d"
  using js_lastIndexOf_append[OF assms(2), of a] js_lastIndexOf_append[OF assms(3), of c] assms(1) by auto

lemma segmentKey_inj: "segmentKey s p r i = segmentKey s p r' i' \<longleftrightarrow> r = r' \<and> i = i'"
proof
  assume "segmentKey s p r i = segmentKey s p r' i'"
  then have "r @ CHR ''.'' # padStart5 (js_nat i) = r' @ CHR ''.'' # padStart5 (js_nat i')"
    by (simp add: segmentKey_def)
  from split_last_sep[OF this dot_not_in_pad dot_not_in_pad] show "r = r' \<and> i = i'" using padStart5_inj by blast
qed simp

lemma segmentKey_staging: "prefix (getCommunityStagingPrefix s p) (segmentKey s p r i)"
  by (simp add: segmentKey_def)

lemma dataset_key_not_staging:
  assumes "\<not> prefix ''staging/'' f"
  shows "\<not> prefix (getCommunityStagingPrefix (fi_snapshotId inp) (fi_platform inp)) (dataset_key inp f)"
  using assms by (simp add: getCommunityStagingPrefix_def dataset_key_def getCommunityDatasetKey_def)

lemmas filename_defs = COMMUNITY_ACTIVITIES_FILENAME_def COMMUNITY_COVERAGE_FILENAME_def COMMUNITY_COHORT_FILENAME_def
  COMMUNITY_MANIFEST_FILENAME_def

definition is_filename :: "string \<Rightarrow> bool" where
  "is_filename f \<longleftrightarrow> f \<in> {COMMUNITY_ACTIVITIES_FILENAME, COMMUNITY_COVERAGE_FILENAME, COMMUNITY_COHORT_FILENAME, COMMUNITY_MANIFEST_FILENAME}"

lemma filename_not_staging: "is_filename f \<Longrightarrow> \<not> prefix ''staging/'' f"
  by (auto simp: is_filename_def filename_defs)

lemma dataset_key_inj [simp]: "dataset_key inp f = dataset_key inp g \<longleftrightarrow> f = g"
  by (simp add: dataset_key_def getCommunityDatasetKey_def)

lemma segmentKey_not_dataset:
  "is_filename f \<Longrightarrow> segmentKey (fi_snapshotId inp) (fi_platform inp) r i \<noteq> dataset_key inp f"
  using segmentKey_staging dataset_key_not_staging[OF filename_not_staging] by metis

section \<open>Attempts, crashes and heartbeats\<close>

datatype freeze_phase = Idle | Crawling attempt | Committing "(string \<times> s3_object) list" | Ended

record freeze_world =
  fz_store :: s3_store
  fz_delivered :: "CommunityFetchCheckpoint option"
  fz_phase :: freeze_phase

definition put_progress :: "string \<Rightarrow> ResourceProgress \<Rightarrow> attempt \<Rightarrow> attempt" where
  "put_progress r p a = a\<lparr>at_checkpoint := AList.update r p (at_checkpoint a)\<rparr>"

text \<open>
  A heartbeat carries a copy of the checkpoint and may or may not reach the server (\<open>d'\<close>).  A crash keeps what
  is in the storage; \<open>fs_lost\<close> is a crash between an upload and anything that follows it.
\<close>

inductive freeze_step :: "(s3_object \<Rightarrow> string) \<Rightarrow> freeze_input \<Rightarrow> freeze_world \<Rightarrow> freeze_world \<Rightarrow> bool" for sha inp where
  fs_begin: "readCommittedManifest sha inp st = Inr None \<Longrightarrow> fi_resourceIds inp \<noteq> [] \<Longrightarrow>
    freeze_step sha inp \<lparr>fz_store = st, fz_delivered = d, fz_phase = Idle\<rparr>
      \<lparr>fz_store = st, fz_delivered = d, fz_phase = Crawling (start_attempt inp d)\<rparr>"
| fs_verified: "readCommittedManifest sha inp st = Inr (Some m) \<Longrightarrow>
    freeze_step sha inp \<lparr>fz_store = st, fz_delivered = d, fz_phase = Idle\<rparr>
      \<lparr>fz_store = clearStagingSegments inp gone st, fz_delivered = d, fz_phase = Ended\<rparr>"
| fs_skip: "at_todo a = r # rs \<Longrightarrow> at_iterator a = None \<Longrightarrow> rp_coverage (progress_of (at_checkpoint a) r) \<noteq> None \<Longrightarrow>
    freeze_step sha inp \<lparr>fz_store = st, fz_delivered = d, fz_phase = Crawling a\<rparr>
      \<lparr>fz_store = st, fz_delivered = d, fz_phase = Crawling (a\<lparr>at_todo := rs\<rparr>)\<rparr>"
| fs_open: "at_todo a = r # rs \<Longrightarrow> at_iterator a = None \<Longrightarrow> p = progress_of (at_checkpoint a) r \<Longrightarrow> rp_coverage p = None \<Longrightarrow>
    freeze_step sha inp \<lparr>fz_store = st, fz_delivered = d, fz_phase = Crawling a\<rparr>
      \<lparr>fz_store = st, fz_delivered = d,
       fz_phase = Crawling (a\<lparr>at_iterator := Some (ad_iterateRecords (fi_adapter inp) r (rp_cursor p)), at_buffered := []\<rparr>)\<rparr>"
| fs_batch: "at_todo a = r # rs \<Longrightarrow> at_iterator a = Some (b # bs, c) \<Longrightarrow>
    crawl_batch inp r b (at_buffered a) (progress_of (at_checkpoint a) r) st = (buf, p, st') \<Longrightarrow>
    a' = (put_progress r p a)\<lparr>at_iterator := Some (bs, c), at_buffered := buf\<rparr> \<Longrightarrow> d' = d \<or> d' = Some (at_checkpoint a') \<Longrightarrow>
    freeze_step sha inp \<lparr>fz_store = st, fz_delivered = d, fz_phase = Crawling a\<rparr>
      \<lparr>fz_store = st', fz_delivered = d', fz_phase = Crawling a'\<rparr>"
| fs_finish: "at_todo a = r # rs \<Longrightarrow> at_iterator a = Some ([], c) \<Longrightarrow>
    crawl_finish inp r c (at_buffered a) (progress_of (at_checkpoint a) r) st = (p, st') \<Longrightarrow>
    a' = (put_progress r p a)\<lparr>at_iterator := None, at_buffered := [], at_todo := rs\<rparr> \<Longrightarrow> d' = d \<or> d' = Some (at_checkpoint a') \<Longrightarrow>
    freeze_step sha inp \<lparr>fz_store = st, fz_delivered = d, fz_phase = Crawling a\<rparr>
      \<lparr>fz_store = st', fz_delivered = d', fz_phase = Crawling a'\<rparr>"
| fs_export: "at_todo a = [] \<Longrightarrow> \<not> all_failed (coverages_of inp (at_checkpoint a)) \<Longrightarrow>
    read_staged inp st (at_checkpoint a) = Some staged \<Longrightarrow> d' = d \<or> d' = Some (at_checkpoint a) \<Longrightarrow>
    freeze_step sha inp \<lparr>fz_store = st, fz_delivered = d, fz_phase = Crawling a\<rparr>
      \<lparr>fz_store = st, fz_delivered = d',
       fz_phase = Committing (commit_puts sha inp staged (coverages_of inp (at_checkpoint a)) cohort)\<rparr>"
| fs_put: "freeze_step sha inp \<lparr>fz_store = st, fz_delivered = d, fz_phase = Committing ((k, v) # ps)\<rparr>
      \<lparr>fz_store = st(k \<mapsto> v), fz_delivered = d, fz_phase = Committing ps\<rparr>"
| fs_committed: "freeze_step sha inp \<lparr>fz_store = st, fz_delivered = d, fz_phase = Committing []\<rparr>
      \<lparr>fz_store = clearStagingSegments inp gone st, fz_delivered = d, fz_phase = Ended\<rparr>"
| fs_crash: "freeze_step sha inp \<lparr>fz_store = st, fz_delivered = d, fz_phase = ph\<rparr> \<lparr>fz_store = st, fz_delivered = d, fz_phase = Idle\<rparr>"
| fs_lost: "at_todo a = r # rs \<Longrightarrow>
    st' = st(segmentKey (fi_snapshotId inp) (fi_platform inp) r (rp_segments (progress_of (at_checkpoint a) r)) \<mapsto> Segment buf) \<Longrightarrow>
    freeze_step sha inp \<lparr>fz_store = st, fz_delivered = d, fz_phase = Crawling a\<rparr> \<lparr>fz_store = st', fz_delivered = d, fz_phase = Idle\<rparr>"

section \<open>The invariant of the crawl\<close>

definition batches :: "freeze_input \<Rightarrow> string \<Rightarrow> CommunityRecordBatch list" where
  "batches inp r = fst (ad_iterateRecords (fi_adapter inp) r None)"

definition records_of :: "CommunityRecordBatch list \<Rightarrow> CommunityActivityRecord list" where
  "records_of bs = concat (map bt_records bs)"

text \<open>What the interface of an adapter promises of a cursor: it continues after everything yielded so far.\<close>

definition adapter_resumes :: "freeze_input \<Rightarrow> bool" where
  "adapter_resumes inp \<longleftrightarrow>
     (\<forall>r pre b post. batches inp r = pre @ b # post \<longrightarrow>
        fst (ad_iterateRecords (fi_adapter inp) r (Some (bt_cursor b))) = post)"

definition staged_to :: "freeze_input \<Rightarrow> string \<Rightarrow> ResourceProgress \<Rightarrow> CommunityActivityRecord list \<Rightarrow> bool" where
  "staged_to inp r p staged \<longleftrightarrow>
     (if rp_coverage p \<noteq> None then staged = records_of (batches inp r)
      else case rp_cursor p of
             None \<Rightarrow> staged = []
           | Some c \<Rightarrow> \<exists>pre b post. batches inp r = pre @ b # post \<and> bt_cursor b = c \<and> staged = records_of (pre @ [b]))"

definition progress_ok :: "freeze_input \<Rightarrow> s3_store \<Rightarrow> string \<Rightarrow> ResourceProgress \<Rightarrow> bool" where
  "progress_ok inp st r p \<longleftrightarrow> (\<exists>staged. read_segments inp st r (rp_segments p) = Some staged \<and> staged_to inp r p staged)"

definition checkpoint_ok :: "freeze_input \<Rightarrow> s3_store \<Rightarrow> CommunityFetchCheckpoint \<Rightarrow> bool" where
  "checkpoint_ok inp st cp \<longleftrightarrow> (\<forall>r. progress_ok inp st r (progress_of cp r))"

text \<open>The rows a resource has in the storage and in memory are those of the batches taken from its generator.\<close>

definition iterating :: "freeze_input \<Rightarrow> s3_store \<Rightarrow> attempt \<Rightarrow> bool" where
  "iterating inp st a \<longleftrightarrow>
     (case at_iterator a of
        None \<Rightarrow> True
      | Some (bs, c) \<Rightarrow>
          (\<exists>r rs pre staged. at_todo a = r # rs \<and> rp_coverage (progress_of (at_checkpoint a) r) = None \<and> batches inp r = pre @ bs
             \<and> read_segments inp st r (rp_segments (progress_of (at_checkpoint a) r)) = Some staged
             \<and> staged @ at_buffered a = records_of pre))"

definition segments_le :: "CommunityFetchCheckpoint \<Rightarrow> CommunityFetchCheckpoint \<Rightarrow> bool" where
  "segments_le c d \<longleftrightarrow> (\<forall>r. rp_segments (progress_of c r) \<le> rp_segments (progress_of d r))"

definition attempt_ok :: "freeze_input \<Rightarrow> s3_store \<Rightarrow> CommunityFetchCheckpoint option \<Rightarrow> attempt \<Rightarrow> bool" where
  "attempt_ok inp st d a \<longleftrightarrow> checkpoint_ok inp st (at_checkpoint a) \<and> iterating inp st a
     \<and> segments_le (normalizeCheckpoint d) (at_checkpoint a)
     \<and> (\<exists>finished. fi_resourceIds inp = finished @ at_todo a \<and> (\<forall>r \<in> set finished. rp_coverage (progress_of (at_checkpoint a) r) \<noteq> None))"

lemma progress_of_update: "progress_of (AList.update r p cp) r' = (if r' = r then p else progress_of cp r')"
  by (simp add: progress_of_def update_conv')

lemma those_eq_iff: "those xs = Some ys \<longleftrightarrow> xs = map Some ys"
proof (induction xs arbitrary: ys)
  case (Cons x xs)
  show ?case by (cases x; cases ys) (auto simp: Cons.IH)
qed auto

lemma read_segments_other:
  assumes "r' \<noteq> r \<or> m \<le> n"
  shows "read_segments inp (st(segmentKey (fi_snapshotId inp) (fi_platform inp) r n := v)) r' m = read_segments inp st r' m"
proof -
  have "map (\<lambda>i. segment_rows ((st(segmentKey (fi_snapshotId inp) (fi_platform inp) r n := v)) (segmentKey (fi_snapshotId inp) (fi_platform inp) r' i))) [0..<m]
      = map (\<lambda>i. segment_rows (st (segmentKey (fi_snapshotId inp) (fi_platform inp) r' i))) [0..<m]"
    using assms by (auto simp: segmentKey_inj)
  then show ?thesis unfolding read_segments_def by (rule arg_cong)
qed

lemma read_segments_next:
  assumes "read_segments inp st r n = Some rows"
  shows "read_segments inp (st(segmentKey (fi_snapshotId inp) (fi_platform inp) r n \<mapsto> Segment rs)) r (Suc n) = Some (rows @ rs)"
proof -
  let ?st = "st(segmentKey (fi_snapshotId inp) (fi_platform inp) r n \<mapsto> Segment rs)"
  obtain rss where rss: "map (\<lambda>i. segment_rows (st (segmentKey (fi_snapshotId inp) (fi_platform inp) r i))) [0..<n] = map Some rss"
    "rows = concat rss" using assms by (auto simp: read_segments_def those_eq_iff)
  have "map (\<lambda>i. segment_rows (?st (segmentKey (fi_snapshotId inp) (fi_platform inp) r i))) [0..<n]
      = map (\<lambda>i. segment_rows (st (segmentKey (fi_snapshotId inp) (fi_platform inp) r i))) [0..<n]"
    by (auto simp: segmentKey_inj)
  then have "map (\<lambda>i. segment_rows (?st (segmentKey (fi_snapshotId inp) (fi_platform inp) r i))) [0..<Suc n] = map Some (rss @ [rs])"
    using rss(1) by (simp add: segmentKey_inj)
  then have "those (map (\<lambda>i. segment_rows (?st (segmentKey (fi_snapshotId inp) (fi_platform inp) r i))) [0..<Suc n]) = Some (rss @ [rs])"
    by (simp only: those_eq_iff)
  then show ?thesis using rss(2) by (simp only: read_segments_def) simp
qed

lemma read_segments_store_cong:
  assumes "\<And>i. st' (segmentKey (fi_snapshotId inp) (fi_platform inp) r i) = st (segmentKey (fi_snapshotId inp) (fi_platform inp) r i)"
  shows "read_segments inp st' r n = read_segments inp st r n"
  by (simp add: read_segments_def assms)

lemma progress_ok_other:
  assumes "progress_ok inp st r' p" "r' \<noteq> r \<or> rp_segments p \<le> n"
  shows "progress_ok inp (st(segmentKey (fi_snapshotId inp) (fi_platform inp) r n := v)) r' p"
  using assms by (simp add: progress_ok_def read_segments_other)

text \<open>
  One turn of the loop: the uploads of a turn leave every segment below the counters of the attempt, the
  counter only grows, and the rows staged and buffered are extended by the rows of the batch.
\<close>

lemma flushSegment_turn:
  assumes "flushSegment inp r cursor buf p st = (buf', p', st')" "read_segments inp st r (rp_segments p) = Some staged"
  shows "buf' = []" "read_segments inp st' r (rp_segments p') = Some (staged @ buf)" "rp_cursor p' = cursor"
    "rp_coverage p' = rp_coverage p" "rp_segments p \<le> rp_segments p'"
    "st' = st \<or> (\<exists>v. st' = st(segmentKey (fi_snapshotId inp) (fi_platform inp) r (rp_segments p) \<mapsto> v))"
  using assms by (auto simp: flushSegment_def read_segments_next split: if_splits)

lemma crawl_batch_turn:
  assumes "crawl_batch inp r b buf p st = (buf', p', st')" "read_segments inp st r (rp_segments p) = Some staged"
  shows "\<exists>staged'. read_segments inp st' r (rp_segments p') = Some staged' \<and> staged' @ buf' = staged @ buf @ bt_records b
      \<and> (rp_cursor p' = rp_cursor p \<and> staged' = staged \<or> rp_cursor p' = Some (bt_cursor b) \<and> buf' = [])"
    "rp_coverage p' = rp_coverage p" "rp_segments p \<le> rp_segments p'"
    "st' = st \<or> (\<exists>v. st' = st(segmentKey (fi_snapshotId inp) (fi_platform inp) r (rp_segments p) \<mapsto> v))"
proof -
  have "flushSegment inp r (Some (bt_cursor b)) (buf @ bt_records b) p st = (buf', p', st')
    \<or> buf @ bt_records b = [] \<and> buf' = [] \<and> p' = p\<lparr>rp_cursor := Some (bt_cursor b)\<rparr> \<and> st' = st
    \<or> buf' = buf @ bt_records b \<and> p' = p \<and> st' = st"
  proof (cases "SEGMENT_MAX_ROWS \<le> length (buf @ bt_records b)")
    case False
    then show ?thesis using assms(1) by (cases "buf @ bt_records b = []") (auto simp: crawl_batch_def Let_def)
  qed (use assms(1) in \<open>simp add: crawl_batch_def\<close>)
  then consider "flushSegment inp r (Some (bt_cursor b)) (buf @ bt_records b) p st = (buf', p', st')"
    | "buf @ bt_records b = []" "buf' = []" "p' = p\<lparr>rp_cursor := Some (bt_cursor b)\<rparr>" "st' = st"
    | "buf' = buf @ bt_records b" "p' = p" "st' = st" by blast
  then have "(\<exists>staged'. read_segments inp st' r (rp_segments p') = Some staged' \<and> staged' @ buf' = staged @ buf @ bt_records b
      \<and> (rp_cursor p' = rp_cursor p \<and> staged' = staged \<or> rp_cursor p' = Some (bt_cursor b) \<and> buf' = []))
    \<and> rp_coverage p' = rp_coverage p \<and> rp_segments p \<le> rp_segments p'
    \<and> (st' = st \<or> (\<exists>v. st' = st(segmentKey (fi_snapshotId inp) (fi_platform inp) r (rp_segments p) \<mapsto> v)))"
  proof cases
    case 1
    show ?thesis using flushSegment_turn[OF 1 assms(2)] by simp
  qed (use assms(2) in auto)
  then show "\<exists>staged'. read_segments inp st' r (rp_segments p') = Some staged' \<and> staged' @ buf' = staged @ buf @ bt_records b
      \<and> (rp_cursor p' = rp_cursor p \<and> staged' = staged \<or> rp_cursor p' = Some (bt_cursor b) \<and> buf' = [])"
    "rp_coverage p' = rp_coverage p" "rp_segments p \<le> rp_segments p'"
    "st' = st \<or> (\<exists>v. st' = st(segmentKey (fi_snapshotId inp) (fi_platform inp) r (rp_segments p) \<mapsto> v))"
    by blast+
qed

lemma crawl_finish_turn:
  assumes "crawl_finish inp r c buf p st = (p', st')" "read_segments inp st r (rp_segments p) = Some staged"
  shows "read_segments inp st' r (rp_segments p') = Some (staged @ buf)" "rp_coverage p' = Some c" "rp_segments p \<le> rp_segments p'"
    "st' = st \<or> (\<exists>v. st' = st(segmentKey (fi_snapshotId inp) (fi_platform inp) r (rp_segments p) \<mapsto> v))"
proof -
  obtain buf1 p1 where f: "flushSegment inp r None buf p st = (buf1, p1, st')" "p' = p1\<lparr>rp_coverage := Some c, rp_cursor := None\<rparr>"
    using assms(1) by (auto simp: crawl_finish_def split: prod.splits)
  show "read_segments inp st' r (rp_segments p') = Some (staged @ buf)" "rp_coverage p' = Some c" "rp_segments p \<le> rp_segments p'"
    "st' = st \<or> (\<exists>v. st' = st(segmentKey (fi_snapshotId inp) (fi_platform inp) r (rp_segments p) \<mapsto> v))"
    using flushSegment_turn[OF f(1) assms(2)] f(2) by simp_all
qed

lemma segments_le_refl [simp]: "segments_le c c"
  by (simp add: segments_le_def)

lemma segments_le_put:
  assumes "segments_le d cp" "rp_segments (progress_of cp r) \<le> rp_segments p"
  shows "segments_le d (AList.update r p cp)"
  using assms unfolding segments_le_def progress_of_update by (auto intro: order_trans)

lemma checkpoint_ok_upload:
  assumes "checkpoint_ok inp st cp" "n = rp_segments (progress_of cp' r)" "segments_le cp cp'"
    "st' = st \<or> (\<exists>v. st' = st(segmentKey (fi_snapshotId inp) (fi_platform inp) r n \<mapsto> v))"
  shows "checkpoint_ok inp st' cp"
  unfolding checkpoint_ok_def
proof
  fix r'
  have "progress_ok inp st r' (progress_of cp r')" using assms(1) by (simp add: checkpoint_ok_def)
  moreover have "r' \<noteq> r \<or> rp_segments (progress_of cp r') \<le> n" using assms(2,3) by (auto simp: segments_le_def)
  ultimately show "progress_ok inp st' r' (progress_of cp r')" using assms(4) progress_ok_other by metis
qed

lemma checkpoint_ok_put:
  assumes "checkpoint_ok inp st cp" "progress_ok inp st r p"
  shows "checkpoint_ok inp st (AList.update r p cp)"
  using assms by (simp add: checkpoint_ok_def progress_of_update)

text \<open>
  What every turn shares: the progress \<open>p\<close> of resource \<open>r\<close> replaces the old one, after an upload at the counter of
  the attempt.
\<close>

lemma turn_checkpoints:
  assumes "checkpoint_ok inp st cp" "segments_le (normalizeCheckpoint d) cp" "checkpoint_ok inp st (normalizeCheckpoint d)"
    "st' = st \<or> (\<exists>v. st' = st(segmentKey (fi_snapshotId inp) (fi_platform inp) r (rp_segments (progress_of cp r)) \<mapsto> v))"
    "progress_ok inp st' r p" "rp_segments (progress_of cp r) \<le> rp_segments p"
    "d' = d \<or> d' = Some (AList.update r p cp)"
  shows "checkpoint_ok inp st' (AList.update r p cp)" "checkpoint_ok inp st' (normalizeCheckpoint d')"
    "segments_le (normalizeCheckpoint d') (AList.update r p cp)"
proof -
  have "checkpoint_ok inp st' cp" by (rule checkpoint_ok_upload[OF assms(1) refl segments_le_refl assms(4)])
  then show new: "checkpoint_ok inp st' (AList.update r p cp)" using assms(5) by (rule checkpoint_ok_put)
  have "checkpoint_ok inp st' (normalizeCheckpoint d)" by (rule checkpoint_ok_upload[OF assms(3) refl assms(2,4)])
  then show "checkpoint_ok inp st' (normalizeCheckpoint d')" "segments_le (normalizeCheckpoint d') (AList.update r p cp)"
    using assms(7) new segments_le_put[OF assms(2,6)] by (auto simp: normalizeCheckpoint_def)
qed

lemma records_of_append [simp]: "records_of (xs @ ys) = records_of xs @ records_of ys" "records_of [b] = bt_records b"
  by (simp_all add: records_of_def)

lemma batch_step:
  assumes "attempt_ok inp st d a" "checkpoint_ok inp st (normalizeCheckpoint d)"
    "at_todo a = r # rs" "at_iterator a = Some (b # bs, c)"
    "crawl_batch inp r b (at_buffered a) (progress_of (at_checkpoint a) r) st = (buf, p, st')"
    "a' = (put_progress r p a)\<lparr>at_iterator := Some (bs, c), at_buffered := buf\<rparr>" "d' = d \<or> d' = Some (at_checkpoint a')"
  shows "attempt_ok inp st' d' a' \<and> checkpoint_ok inp st' (normalizeCheckpoint d')"
proof -
  let ?p = "progress_of (at_checkpoint a) r"
  obtain pre staged finished where i: "rp_coverage ?p = None" "batches inp r = pre @ b # bs"
      "read_segments inp st r (rp_segments ?p) = Some staged" "staged @ at_buffered a = records_of pre"
    and t: "fi_resourceIds inp = finished @ r # rs" "\<forall>r \<in> set finished. rp_coverage (progress_of (at_checkpoint a) r) \<noteq> None"
    and ok: "checkpoint_ok inp st (at_checkpoint a)" "segments_le (normalizeCheckpoint d) (at_checkpoint a)"
    using assms(1,3,4) by (auto simp: attempt_ok_def iterating_def)
  note turn = crawl_batch_turn[OF assms(5) i(3)]
  obtain staged' where s: "read_segments inp st' r (rp_segments p) = Some staged'" "staged' @ buf = staged @ at_buffered a @ bt_records b"
    "rp_cursor p = rp_cursor ?p \<and> staged' = staged \<or> rp_cursor p = Some (bt_cursor b) \<and> buf = []" using turn(1) by blast
  have "staged_to inp r ?p staged"
    using ok(1) i(3) unfolding checkpoint_ok_def progress_ok_def by (metis option.inject)
  moreover have "staged_to inp r p staged'" if "rp_cursor p = Some (bt_cursor b)" "buf = []"
    using that s(2) i(1,2,4) turn(2) unfolding staged_to_def
    by (simp, intro exI[of _ pre] exI[of _ b]) (metis append_assoc)
  ultimately have "staged_to inp r p staged'"
    using s(3) i(1) turn(2) unfolding staged_to_def by auto
  then have p: "progress_ok inp st' r p" using s(1) by (auto simp: progress_ok_def)
  have cp: "at_checkpoint a' = AList.update r p (at_checkpoint a)" using assms(6) by (simp add: put_progress_def)
  note cps = turn_checkpoints[OF ok(1,2) assms(2) turn(4) p turn(3) assms(7)[unfolded cp]]
  have "iterating inp st' a'"
    using assms(3,6) s(1,2) i turn(2) by (auto simp: iterating_def put_progress_def progress_of_update intro!: exI[of _ "pre @ [b]"])
  moreover have "\<forall>r' \<in> set finished. rp_coverage (progress_of (at_checkpoint a') r') \<noteq> None"
    using t(2) i(1) turn(2) cp by (auto simp: progress_of_update)
  ultimately show ?thesis using cps t(1) assms(3,6) cp by (auto simp: attempt_ok_def put_progress_def)
qed

lemma finish_step:
  assumes "attempt_ok inp st d a" "checkpoint_ok inp st (normalizeCheckpoint d)"
    "at_todo a = r # rs" "at_iterator a = Some ([], c)"
    "crawl_finish inp r c (at_buffered a) (progress_of (at_checkpoint a) r) st = (p, st')"
    "a' = (put_progress r p a)\<lparr>at_iterator := None, at_buffered := [], at_todo := rs\<rparr>" "d' = d \<or> d' = Some (at_checkpoint a')"
  shows "attempt_ok inp st' d' a' \<and> checkpoint_ok inp st' (normalizeCheckpoint d')"
proof -
  let ?p = "progress_of (at_checkpoint a) r"
  obtain staged finished where i: "rp_coverage ?p = None"
      "read_segments inp st r (rp_segments ?p) = Some staged" "staged @ at_buffered a = records_of (batches inp r)"
    and t: "fi_resourceIds inp = finished @ r # rs" "\<forall>r \<in> set finished. rp_coverage (progress_of (at_checkpoint a) r) \<noteq> None"
    and ok: "checkpoint_ok inp st (at_checkpoint a)" "segments_le (normalizeCheckpoint d) (at_checkpoint a)"
    using assms(1,3,4) by (auto simp: attempt_ok_def iterating_def)
  note turn = crawl_finish_turn[OF assms(5) i(2)]
  have p: "progress_ok inp st' r p" using turn(1,2) i(3) by (auto simp: progress_ok_def staged_to_def)
  have cp: "at_checkpoint a' = AList.update r p (at_checkpoint a)" using assms(6) by (simp add: put_progress_def)
  note cps = turn_checkpoints[OF ok(1,2) assms(2) turn(4) p turn(3) assms(7)[unfolded cp]]
  have "\<forall>r' \<in> set (finished @ [r]). rp_coverage (progress_of (at_checkpoint a') r') \<noteq> None"
    using t(2) turn(2) cp by (auto simp: progress_of_update)
  moreover have "fi_resourceIds inp = (finished @ [r]) @ at_todo a'" "iterating inp st' a'"
    using t(1) assms(6) by (simp_all add: iterating_def put_progress_def)
  ultimately show ?thesis using cps cp unfolding attempt_ok_def by metis
qed

lemma open_step:
  assumes "attempt_ok inp st d a" "adapter_resumes inp" "at_todo a = r # rs" "at_iterator a = None"
    "p = progress_of (at_checkpoint a) r" "rp_coverage p = None"
  shows "attempt_ok inp st d (a\<lparr>at_iterator := Some (ad_iterateRecords (fi_adapter inp) r (rp_cursor p)), at_buffered := []\<rparr>)"
proof -
  obtain staged where s: "read_segments inp st r (rp_segments p) = Some staged" "staged_to inp r p staged"
    using assms(1,5) by (auto simp: attempt_ok_def checkpoint_ok_def progress_ok_def)
  have "\<exists>pre. batches inp r = pre @ fst (ad_iterateRecords (fi_adapter inp) r (rp_cursor p)) \<and> staged = records_of pre"
  proof (cases "rp_cursor p")
    case None
    then show ?thesis using s(2) assms(6) by (auto simp: staged_to_def batches_def records_of_def)
  next
    case (Some cur)
    then obtain pre b post where "batches inp r = pre @ b # post" "bt_cursor b = cur" "staged = records_of (pre @ [b])"
      using s(2) assms(6) by (auto simp: staged_to_def)
    then show ?thesis using assms(2) Some by (intro exI[of _ "pre @ [b]"]) (auto simp: adapter_resumes_def)
  qed
  then show ?thesis
    using assms(1,3,5,6) s(1) unfolding attempt_ok_def iterating_def by (cases "ad_iterateRecords (fi_adapter inp) r (rp_cursor p)") auto
qed

section \<open>The invariant of the commit\<close>

definition all_records :: "freeze_input \<Rightarrow> CommunityActivityRecord list" where
  "all_records inp = concat (map (\<lambda>r. records_of (batches inp r)) (fi_resourceIds inp))"

definition covers_resources :: "freeze_input \<Rightarrow> CommunityResourceCoverage list \<Rightarrow> bool" where
  "covers_resources inp coverages \<longleftrightarrow> length coverages = length (fi_resourceIds inp) \<and> \<not> all_failed coverages"

text \<open>The uploads of a commit made so far, of the dataset of an uninterrupted crawl.\<close>

definition put_so_far :: "(s3_object \<Rightarrow> string) \<Rightarrow> freeze_input \<Rightarrow> s3_store \<Rightarrow> nat \<Rightarrow> bool" where
  "put_so_far sha inp st n \<longleftrightarrow>
     (\<exists>coverages cohort. covers_resources inp coverages
        \<and> (\<forall>i < n. st (fst (commit_puts sha inp (all_records inp) coverages cohort ! i))
                     = Some (snd (commit_puts sha inp (all_records inp) coverages cohort ! i))))"

definition no_manifest :: "freeze_input \<Rightarrow> s3_store \<Rightarrow> bool" where
  "no_manifest inp st \<longleftrightarrow> st (dataset_key inp COMMUNITY_MANIFEST_FILENAME) = None"

definition committing_ok :: "(s3_object \<Rightarrow> string) \<Rightarrow> freeze_input \<Rightarrow> s3_store \<Rightarrow> (string \<times> s3_object) list \<Rightarrow> bool" where
  "committing_ok sha inp st ps \<longleftrightarrow>
     (\<exists>coverages cohort n. covers_resources inp coverages \<and> n \<le> 4
        \<and> ps = drop n (commit_puts sha inp (all_records inp) coverages cohort)
        \<and> (\<forall>i < n. st (fst (commit_puts sha inp (all_records inp) coverages cohort ! i))
                     = Some (snd (commit_puts sha inp (all_records inp) coverages cohort ! i)))
        \<and> (n < 4 \<longrightarrow> no_manifest inp st))"

definition freeze_inv :: "(s3_object \<Rightarrow> string) \<Rightarrow> freeze_input \<Rightarrow> freeze_world \<Rightarrow> bool" where
  "freeze_inv sha inp w \<longleftrightarrow>
     (no_manifest inp (fz_store w) \<longrightarrow> checkpoint_ok inp (fz_store w) (normalizeCheckpoint (fz_delivered w)))
   \<and> (\<not> no_manifest inp (fz_store w) \<longrightarrow> put_so_far sha inp (fz_store w) 4)
   \<and> (case fz_phase w of
        Crawling a \<Rightarrow> no_manifest inp (fz_store w) \<and> attempt_ok inp (fz_store w) (fz_delivered w) a
      | Committing ps \<Rightarrow> committing_ok sha inp (fz_store w) ps
      | _ \<Rightarrow> True)"

lemma length_commit_puts [simp]: "length (commit_puts sha inp staged coverages cohort) = 4"
  by (simp add: commit_puts_def Let_def)

lemma fst_commit_puts:
  "map fst (commit_puts sha inp staged coverages cohort)
     = map (dataset_key inp) [COMMUNITY_ACTIVITIES_FILENAME, COMMUNITY_COVERAGE_FILENAME, COMMUNITY_COHORT_FILENAME, COMMUNITY_MANIFEST_FILENAME]"
  by (simp add: commit_puts_def Let_def)

lemma commit_puts_distinct: "distinct (map fst (commit_puts sha inp staged coverages cohort))"
  unfolding fst_commit_puts by (simp add: filename_defs)

lemma commit_puts_key:
  assumes "i < 4"
  obtains f where "fst (commit_puts sha inp staged coverages cohort ! i) = dataset_key inp f" "is_filename f"
proof -
  have "fst (commit_puts sha inp staged coverages cohort ! i) \<in> set (map fst (commit_puts sha inp staged coverages cohort))"
    using assms by (simp add: image_iff) (metis length_commit_puts nth_mem)
  then show ?thesis unfolding fst_commit_puts using that by (auto simp: is_filename_def)
qed

lemma commit_puts_manifest: "i < 4 \<Longrightarrow> fst (commit_puts sha inp staged coverages cohort ! i) = dataset_key inp COMMUNITY_MANIFEST_FILENAME \<longleftrightarrow> i = 3"
proof -
  assume "i < 4"
  then consider "i = 0" | "i = 1" | "i = 2" | "i = 3" by linarith
  then show ?thesis by cases (simp_all add: commit_puts_def Let_def filename_defs)
qed

lemma no_manifest_upload: "no_manifest inp (st(segmentKey (fi_snapshotId inp) (fi_platform inp) r n \<mapsto> v)) = no_manifest inp st"
  using segmentKey_not_dataset[of COMMUNITY_MANIFEST_FILENAME inp r n] by (simp add: no_manifest_def is_filename_def)

lemma clear_dataset_key: "is_filename f \<Longrightarrow> clearStagingSegments inp gone st (dataset_key inp f) = st (dataset_key inp f)"
  using dataset_key_not_staging[OF filename_not_staging, of f inp] by (simp add: clearStagingSegments_def)

lemma put_so_far_clear:
  assumes "put_so_far sha inp st 4"
  shows "put_so_far sha inp (clearStagingSegments inp gone st) 4" "\<not> no_manifest inp (clearStagingSegments inp gone st)"
proof -
  obtain cs co where c: "covers_resources inp cs"
    "\<forall>i < 4. st (fst (commit_puts sha inp (all_records inp) cs co ! i)) = Some (snd (commit_puts sha inp (all_records inp) cs co ! i))"
    using assms by (auto simp: put_so_far_def)
  have k: "clearStagingSegments inp gone st (fst (commit_puts sha inp (all_records inp) cs co ! i))
      = st (fst (commit_puts sha inp (all_records inp) cs co ! i))" if "i < 4" for i
    using commit_puts_key[OF that, of sha inp "all_records inp" cs co] clear_dataset_key by metis
  show "put_so_far sha inp (clearStagingSegments inp gone st) 4" using c k by (auto simp: put_so_far_def)
  show "\<not> no_manifest inp (clearStagingSegments inp gone st)"
    using c(2) k[of 3] commit_puts_manifest[of 3 sha inp "all_records inp" cs co] by (auto simp: no_manifest_def)
qed

lemma verify_committed:
  assumes "put_so_far sha inp st 4"
  shows "\<exists>m. readCommittedManifest sha inp st = Inr (Some m)"
proof -
  obtain cs co where c: "\<forall>i < 4. st (fst (commit_puts sha inp (all_records inp) cs co ! i)) = Some (snd (commit_puts sha inp (all_records inp) cs co ! i))"
    using assms by (auto simp: put_so_far_def)
  from c[rule_format, of 0] c[rule_format, of 1] c[rule_format, of 2] c[rule_format, of 3]
  show ?thesis by (simp add: commit_puts_def Let_def readCommittedManifest_def)
qed

lemma put_step:
  assumes "committing_ok sha inp st ((k, v) # ps)"
  shows "committing_ok sha inp (st(k \<mapsto> v)) ps" "no_manifest inp st" "\<not> no_manifest inp (st(k \<mapsto> v)) \<Longrightarrow> put_so_far sha inp (st(k \<mapsto> v)) 4"
    "\<exists>f. k = dataset_key inp f \<and> is_filename f"
proof -
  obtain cs co n where c: "covers_resources inp cs" "(k, v) # ps = drop n (commit_puts sha inp (all_records inp) cs co)"
    "\<forall>i < n. st (fst (commit_puts sha inp (all_records inp) cs co ! i)) = Some (snd (commit_puts sha inp (all_records inp) cs co ! i))"
    "n < 4 \<longrightarrow> no_manifest inp st" using assms by (auto simp: committing_ok_def)
  let ?P = "commit_puts sha inp (all_records inp) cs co"
  have n: "n < 4" using arg_cong[OF c(2), of length] by simp
  then show nm: "no_manifest inp st" using c(4) by simp
  have kv: "?P ! n = (k, v)" "ps = drop (Suc n) ?P"
    using c(2) n by (metis Cons_nth_drop_Suc length_commit_puts list.inject)+
  have prev: "fst (?P ! i) \<noteq> k" if "i < n" for i
  proof -
    have "map fst ?P ! i \<noteq> map fst ?P ! n"
      using that n by (subst nth_eq_iff_index_eq[OF commit_puts_distinct]) simp_all
    then show ?thesis using that n kv(1) by simp
  qed
  have written: "\<forall>i < Suc n. (st(k \<mapsto> v)) (fst (?P ! i)) = Some (snd (?P ! i))"
    using c(3) prev kv(1) by (auto simp: less_Suc_eq)
  have man: "k = dataset_key inp COMMUNITY_MANIFEST_FILENAME \<longleftrightarrow> n = 3"
    using commit_puts_manifest[OF n, of sha inp "all_records inp" cs co] kv(1) by simp
  then have rest: "Suc n < 4 \<longrightarrow> no_manifest inp (st(k \<mapsto> v))" using nm n by (auto simp: no_manifest_def)
  show "committing_ok sha inp (st(k \<mapsto> v)) ps" unfolding committing_ok_def using c(1) kv(2) written rest n by (metis Suc_leI)
  show "put_so_far sha inp (st(k \<mapsto> v)) 4" if "\<not> no_manifest inp (st(k \<mapsto> v))"
  proof -
    have "Suc n = 4" using that rest n by linarith
    then show ?thesis unfolding put_so_far_def using c(1) written by metis
  qed
  show "\<exists>f. k = dataset_key inp f \<and> is_filename f" using commit_puts_key[OF n, of sha inp "all_records inp" cs co] kv(1) by (metis fst_conv)
qed

lemma export_staged:
  assumes "attempt_ok inp st d a" "at_todo a = []" "read_staged inp st (at_checkpoint a) = Some staged"
  shows "staged = all_records inp" "length (coverages_of inp (at_checkpoint a)) = length (fi_resourceIds inp)"
proof -
  let ?cp = "at_checkpoint a"
  have cov: "\<forall>r \<in> set (fi_resourceIds inp). rp_coverage (progress_of ?cp r) \<noteq> None"
    using assms(1,2) by (auto simp: attempt_ok_def)
  have "read_segments inp st r (rp_segments (progress_of ?cp r)) = Some (records_of (batches inp r))" if "r \<in> set (fi_resourceIds inp)" for r
  proof -
    obtain rows where "read_segments inp st r (rp_segments (progress_of ?cp r)) = Some rows" "staged_to inp r (progress_of ?cp r) rows"
      using assms(1) by (auto simp: attempt_ok_def checkpoint_ok_def progress_ok_def)
    then show ?thesis using cov that by (simp add: staged_to_def)
  qed
  then have "map (\<lambda>r. read_segments inp st r (rp_segments (progress_of ?cp r))) (fi_resourceIds inp)
      = map Some (map (\<lambda>r. records_of (batches inp r)) (fi_resourceIds inp))" by simp
  then have "those (map (\<lambda>r. read_segments inp st r (rp_segments (progress_of ?cp r))) (fi_resourceIds inp))
      = Some (map (\<lambda>r. records_of (batches inp r)) (fi_resourceIds inp))" by (simp only: those_eq_iff)
  then show "staged = all_records inp" using assms(3) unfolding read_staged_def all_records_def by simp
  have "length (List.map_filter g xs) = length xs" if "\<forall>x \<in> set xs. g x \<noteq> None" for g :: "string \<Rightarrow> CommunityResourceCoverage option" and xs
    using that by (induction xs) (auto simp: List.map_filter_def)
  then show "length (coverages_of inp ?cp) = length (fi_resourceIds inp)" using cov by (simp add: coverages_of_def)
qed

lemma upload_no_manifest:
  "st' = st \<or> (\<exists>v. st' = st(segmentKey (fi_snapshotId inp) (fi_platform inp) r n \<mapsto> v)) \<Longrightarrow> no_manifest inp st' = no_manifest inp st"
  using no_manifest_upload by metis

lemma crawling_inv:
  assumes "freeze_inv sha inp \<lparr>fz_store = st, fz_delivered = d, fz_phase = Crawling a\<rparr>"
  shows "no_manifest inp st" "attempt_ok inp st d a" "checkpoint_ok inp st (normalizeCheckpoint d)"
    "\<exists>staged. read_segments inp st r (rp_segments (progress_of (at_checkpoint a) r)) = Some staged"
proof -
  show i: "no_manifest inp st" "attempt_ok inp st d a" "checkpoint_ok inp st (normalizeCheckpoint d)"
    using assms by (auto simp: freeze_inv_def)
  show "\<exists>staged. read_segments inp st r (rp_segments (progress_of (at_checkpoint a) r)) = Some staged"
    using i(2) by (auto simp: attempt_ok_def checkpoint_ok_def progress_ok_def)
qed

lemma crawling_invI:
  assumes "no_manifest inp st" "attempt_ok inp st d a \<and> checkpoint_ok inp st (normalizeCheckpoint d)"
  shows "freeze_inv sha inp \<lparr>fz_store = st, fz_delivered = d, fz_phase = Crawling a\<rparr>"
  using assms by (simp add: freeze_inv_def)

lemma begin_inv:
  assumes "readCommittedManifest sha inp st = Inr None" "freeze_inv sha inp \<lparr>fz_store = st, fz_delivered = d, fz_phase = Idle\<rparr>"
  shows "freeze_inv sha inp \<lparr>fz_store = st, fz_delivered = d, fz_phase = Crawling (start_attempt inp d)\<rparr>"
proof -
  have nm: "no_manifest inp st" using assms verify_committed[of sha inp st] by (auto simp: freeze_inv_def)
  then show ?thesis using assms(2)
    by (intro crawling_invI) (auto simp: freeze_inv_def attempt_ok_def start_attempt_def iterating_def)
qed

lemma skip_inv:
  assumes "at_todo a = r # rs" "at_iterator a = None" "rp_coverage (progress_of (at_checkpoint a) r) \<noteq> None"
    "freeze_inv sha inp \<lparr>fz_store = st, fz_delivered = d, fz_phase = Crawling a\<rparr>"
  shows "freeze_inv sha inp \<lparr>fz_store = st, fz_delivered = d, fz_phase = Crawling (a\<lparr>at_todo := rs\<rparr>)\<rparr>"
proof -
  obtain finished where "fi_resourceIds inp = finished @ r # rs" "\<forall>r \<in> set finished. rp_coverage (progress_of (at_checkpoint a) r) \<noteq> None"
    using assms by (auto simp: freeze_inv_def attempt_ok_def)
  then have "fi_resourceIds inp = (finished @ [r]) @ rs" "\<forall>r \<in> set (finished @ [r]). rp_coverage (progress_of (at_checkpoint a) r) \<noteq> None"
    using assms(3) by simp_all
  then show ?thesis using assms unfolding freeze_inv_def attempt_ok_def iterating_def by auto
qed

lemma export_inv:
  assumes "freeze_inv sha inp \<lparr>fz_store = st, fz_delivered = d, fz_phase = Crawling a\<rparr>" "at_todo a = []"
    "\<not> all_failed (coverages_of inp (at_checkpoint a))" "read_staged inp st (at_checkpoint a) = Some staged"
    "d' = d \<or> d' = Some (at_checkpoint a)"
  shows "freeze_inv sha inp \<lparr>fz_store = st, fz_delivered = d',
    fz_phase = Committing (commit_puts sha inp staged (coverages_of inp (at_checkpoint a)) cohort)\<rparr>"
proof -
  note i = crawling_inv[OF assms(1)]
  have e: "staged = all_records inp" "covers_resources inp (coverages_of inp (at_checkpoint a))"
    using export_staged[OF i(2) assms(2,4)] assms(3) by (simp_all add: covers_resources_def)
  have "committing_ok sha inp st (commit_puts sha inp staged (coverages_of inp (at_checkpoint a)) cohort)"
    unfolding committing_ok_def e(1) using e(2) i(1)
    by (intro exI[of _ "coverages_of inp (at_checkpoint a)"] exI[of _ cohort] exI[of _ 0]) simp
  moreover have "checkpoint_ok inp st (normalizeCheckpoint d')"
    using assms(5) i(2,3) by (auto simp: attempt_ok_def normalizeCheckpoint_def)
  ultimately show ?thesis using i(1) by (simp add: freeze_inv_def)
qed

lemma put_inv:
  assumes "freeze_inv sha inp \<lparr>fz_store = st, fz_delivered = d, fz_phase = Committing ((k, v) # ps)\<rparr>"
  shows "freeze_inv sha inp \<lparr>fz_store = st(k \<mapsto> v), fz_delivered = d, fz_phase = Committing ps\<rparr>"
proof -
  have c: "committing_ok sha inp st ((k, v) # ps)" using assms by (simp add: freeze_inv_def)
  obtain f where f: "k = dataset_key inp f" "is_filename f" using put_step(4)[OF c] by blast
  have "checkpoint_ok inp st (normalizeCheckpoint d)" using assms put_step(2)[OF c] by (simp add: freeze_inv_def)
  moreover have "read_segments inp (st(k \<mapsto> v)) r n = read_segments inp st r n" for r n
    using segmentKey_not_dataset[OF f(2)] f(1) by (intro read_segments_store_cong) simp
  ultimately have "checkpoint_ok inp (st(k \<mapsto> v)) (normalizeCheckpoint d)" by (simp add: checkpoint_ok_def progress_ok_def)
  then show ?thesis using put_step(1,3)[OF c] by (simp add: freeze_inv_def)
qed

lemma committed_inv:
  assumes "put_so_far sha inp st 4"
  shows "freeze_inv sha inp \<lparr>fz_store = clearStagingSegments inp gone st, fz_delivered = d, fz_phase = Ended\<rparr>"
  using put_so_far_clear[OF assms] by (simp add: freeze_inv_def)

lemma committing_done:
  assumes "committing_ok sha inp st []"
  shows "put_so_far sha inp st 4"
proof -
  from assms obtain cs co n where c: "covers_resources inp cs" "n \<le> 4" "[] = drop n (commit_puts sha inp (all_records inp) cs co)"
    "\<forall>i < n. st (fst (commit_puts sha inp (all_records inp) cs co ! i)) = Some (snd (commit_puts sha inp (all_records inp) cs co ! i))"
    unfolding committing_ok_def by blast
  have "n = 4" using arg_cong[OF c(3), of length] c(2) by simp
  then show ?thesis unfolding put_so_far_def using c(1,4) by blast
qed

lemma lost_inv:
  assumes "freeze_inv sha inp \<lparr>fz_store = st, fz_delivered = d, fz_phase = Crawling a\<rparr>"
    "st' = st(segmentKey (fi_snapshotId inp) (fi_platform inp) r (rp_segments (progress_of (at_checkpoint a) r)) \<mapsto> v)"
  shows "freeze_inv sha inp \<lparr>fz_store = st', fz_delivered = d, fz_phase = Idle\<rparr>"
proof -
  note i = crawling_inv[OF assms(1)]
  have "segments_le (normalizeCheckpoint d) (at_checkpoint a)" using i(2) by (simp add: attempt_ok_def)
  then have "checkpoint_ok inp st' (normalizeCheckpoint d)" using checkpoint_ok_upload[OF i(3) refl] assms(2) by blast
  moreover have "no_manifest inp st'" using i(1) assms(2) no_manifest_upload by simp
  ultimately show ?thesis by (simp add: freeze_inv_def)
qed

lemma freeze_step_inv:
  assumes "freeze_step sha inp w w'" "freeze_inv sha inp w" "adapter_resumes inp"
  shows "freeze_inv sha inp w'"
  using assms(1)
proof (cases rule: freeze_step.cases)
  case (fs_begin st d)
  then show ?thesis using assms(2) begin_inv by simp
next
  case (fs_verified st m d gone)
  then have "\<not> no_manifest inp st"
    by (cases "st (dataset_key inp COMMUNITY_MANIFEST_FILENAME)") (simp_all add: no_manifest_def readCommittedManifest_def)
  then show ?thesis using fs_verified assms(2) committed_inv by (simp add: freeze_inv_def)
next
  case (fs_skip a r rs st d)
  then show ?thesis using assms(2) skip_inv by simp
next
  case (fs_open a r rs p st d)
  then show ?thesis using crawling_inv[of sha inp st d a] assms(2) open_step[OF _ assms(3) fs_open(3-6)] crawling_invI by simp
next
  case (fs_batch a r rs b bs c st buf p st' a' d' d)
  note i = crawling_inv[OF assms(2)[unfolded fs_batch(1)]]
  obtain staged where "read_segments inp st r (rp_segments (progress_of (at_checkpoint a) r)) = Some staged" using i(4) by blast
  then have "no_manifest inp st'" using i(1) upload_no_manifest[OF crawl_batch_turn(4)[OF fs_batch(5)]] by blast
  then show ?thesis unfolding fs_batch(2) by (rule crawling_invI) (rule batch_step[OF i(2,3) fs_batch(3-7)])
next
  case (fs_finish a r rs c st p st' a' d' d)
  note i = crawling_inv[OF assms(2)[unfolded fs_finish(1)]]
  obtain staged where "read_segments inp st r (rp_segments (progress_of (at_checkpoint a) r)) = Some staged" using i(4) by blast
  then have "no_manifest inp st'" using i(1) upload_no_manifest[OF crawl_finish_turn(4)[OF fs_finish(5)]] by blast
  then show ?thesis unfolding fs_finish(2) by (rule crawling_invI) (rule finish_step[OF i(2,3) fs_finish(3-7)])
next
  case (fs_export a st staged d' d cohort)
  show ?thesis unfolding fs_export(2) by (rule export_inv[OF assms(2)[unfolded fs_export(1)] fs_export(3-6)])
next
  case (fs_put st d k v ps)
  show ?thesis unfolding fs_put(2) by (rule put_inv[OF assms(2)[unfolded fs_put(1)]])
next
  case (fs_committed st d gone)
  then have "committing_ok sha inp st []" using assms(2) by (simp add: freeze_inv_def)
  then show ?thesis unfolding fs_committed(2) by (intro committed_inv committing_done)
next
  case (fs_crash st d ph)
  then show ?thesis using assms(2) by (simp add: freeze_inv_def)
next
  case (fs_lost a r rs st' st buf d)
  show ?thesis unfolding fs_lost(2) by (rule lost_inv[OF assms(2)[unfolded fs_lost(1)] fs_lost(4)])
qed

lemma freeze_reachable_inv:
  assumes "(freeze_step sha inp)\<^sup>*\<^sup>* \<lparr>fz_store = st, fz_delivered = None, fz_phase = Idle\<rparr> w" "no_manifest inp st" "adapter_resumes inp"
  shows "freeze_inv sha inp w"
  using assms(1)
proof (induction rule: rtranclp_induct)
  case base
  have "checkpoint_ok inp st []" by (simp add: checkpoint_ok_def progress_ok_def staged_to_def progress_of_def read_segments_def)
  then show ?case using assms(2) by (simp add: freeze_inv_def normalizeCheckpoint_def)
next
  case (step w w')
  then show ?case using freeze_step_inv assms(3) by blast
qed

section \<open>What is committed\<close>

lemma committed_files:
  assumes "put_so_far sha inp st 4"
  shows "\<exists>coverages cohort. covers_resources inp coverages
    \<and> st (dataset_key inp COMMUNITY_ACTIVITIES_FILENAME) = Some (ActivitiesFile (export_activities (fi_window inp) (all_records inp)))
    \<and> st (dataset_key inp COMMUNITY_COVERAGE_FILENAME) = Some (CoverageFile (export_coverage coverages))
    \<and> st (dataset_key inp COMMUNITY_COHORT_FILENAME) = Some (CohortFile (export_cohort cohort))"
proof -
  obtain cs co where c: "covers_resources inp cs"
    "\<forall>i < 4. st (fst (commit_puts sha inp (all_records inp) cs co ! i)) = Some (snd (commit_puts sha inp (all_records inp) cs co ! i))"
    using assms by (auto simp: put_so_far_def)
  from c(2)[rule_format, of 0] c(2)[rule_format, of 1] c(2)[rule_format, of 2] show ?thesis
    using c(1) by (auto simp: commit_puts_def Let_def)
qed

lemma committed_step:
  assumes "freeze_step sha inp w w'" "freeze_inv sha inp w" "\<not> no_manifest inp (fz_store w)" "is_filename f"
  shows "fz_store w' (dataset_key inp f) = fz_store w (dataset_key inp f)"
  using assms(1)
proof (cases rule: freeze_step.cases)
  case (fs_put st d k v ps)
  then show ?thesis using assms(2,3) put_step(2)[of sha inp st k v ps] by (simp add: freeze_inv_def)
qed (use assms(2,3,4) clear_dataset_key in \<open>auto simp: freeze_inv_def\<close>)

lemma committed_steps:
  assumes "(freeze_step sha inp)\<^sup>*\<^sup>* w w'" "freeze_inv sha inp w" "adapter_resumes inp" "\<not> no_manifest inp (fz_store w)" "is_filename f"
  shows "fz_store w' (dataset_key inp f) = fz_store w (dataset_key inp f)"
proof -
  have "freeze_inv sha inp w' \<and> (\<forall>g. is_filename g \<longrightarrow> fz_store w' (dataset_key inp g) = fz_store w (dataset_key inp g))"
    using assms(1)
  proof (induction rule: rtranclp_induct)
    case (step y z)
    have m: "is_filename COMMUNITY_MANIFEST_FILENAME" by (simp add: is_filename_def)
    then have "\<not> no_manifest inp (fz_store y)" using step.IH assms(4) by (simp add: no_manifest_def)
    then show ?case using step committed_step[OF step(2)] freeze_step_inv[OF step(2) _ assms(3)] by metis
  qed (use assms(2) in simp)
  then show ?thesis using assms(5) by blast
qed

text \<open>
  C8: However many attempts the freeze took, wherever they crashed and whichever heartbeats arrived: once a
  manifest exists, the activities file is the export of all records the adapter yields for the selected
  resources without a cursor, so the dataset of an uninterrupted crawl; there is one coverage row per
  selected resource; verification accepts the dataset; and no later step changes one of its files.
\<close>

theorem committed_dataset_is_complete:
  assumes "(freeze_step sha inp)\<^sup>*\<^sup>* \<lparr>fz_store = st, fz_delivered = None, fz_phase = Idle\<rparr> w" "no_manifest inp st"
    "adapter_resumes inp" "\<not> no_manifest inp (fz_store w)"
  shows "fz_store w (dataset_key inp COMMUNITY_ACTIVITIES_FILENAME)
      = Some (ActivitiesFile (export_activities (fi_window inp) (all_records inp)))
    \<and> (\<exists>coverages. fz_store w (dataset_key inp COMMUNITY_COVERAGE_FILENAME) = Some (CoverageFile (export_coverage coverages))
        \<and> length coverages = length (fi_resourceIds inp) \<and> \<not> all_failed coverages)
    \<and> (\<exists>m. readCommittedManifest sha inp (fz_store w) = Inr (Some m))
    \<and> (\<forall>w' f. (freeze_step sha inp)\<^sup>*\<^sup>* w w' \<and> is_filename f \<longrightarrow> fz_store w' (dataset_key inp f) = fz_store w (dataset_key inp f))"
proof -
  have i: "freeze_inv sha inp w" by (rule freeze_reachable_inv[OF assms(1-3)])
  then have p: "put_so_far sha inp (fz_store w) 4" using assms(4) by (simp add: freeze_inv_def)
  obtain cs co where f: "covers_resources inp cs"
    "fz_store w (dataset_key inp COMMUNITY_ACTIVITIES_FILENAME) = Some (ActivitiesFile (export_activities (fi_window inp) (all_records inp)))"
    "fz_store w (dataset_key inp COMMUNITY_COVERAGE_FILENAME) = Some (CoverageFile (export_coverage cs))"
    using committed_files[OF p] by blast
  have "length cs = length (fi_resourceIds inp) \<and> \<not> all_failed cs" using f(1) by (simp add: covers_resources_def)
  then have "\<exists>coverages. fz_store w (dataset_key inp COMMUNITY_COVERAGE_FILENAME) = Some (CoverageFile (export_coverage coverages))
        \<and> length coverages = length (fi_resourceIds inp) \<and> \<not> all_failed coverages" using f(3) by blast
  then show ?thesis using f(2) verify_committed[OF p] committed_steps[OF _ i assms(3,4)] by blast
qed

section \<open>An attempt that is not interrupted commits\<close>

lemma crawl_reaches:
  assumes "R w \<lparr>fz_store = st', fz_delivered = d, fz_phase = Crawling a'\<rparr>" "at_todo a' = rs" "at_iterator a' = None"
  shows "\<exists>st' a'. R w \<lparr>fz_store = st', fz_delivered = d, fz_phase = Crawling a'\<rparr> \<and> at_todo a' = rs \<and> at_iterator a' = None"
  using assms by blast

lemma crawl_iterator_runs:
  "at_todo a = r # rs \<Longrightarrow> at_iterator a = Some (bs, c) \<Longrightarrow>
   \<exists>st' a'. (freeze_step sha inp)\<^sup>*\<^sup>* \<lparr>fz_store = st, fz_delivered = d, fz_phase = Crawling a\<rparr>
       \<lparr>fz_store = st', fz_delivered = d, fz_phase = Crawling a'\<rparr> \<and> at_todo a' = rs \<and> at_iterator a' = None"
proof (induction bs arbitrary: a st)
  case Nil
  obtain p st' where f: "crawl_finish inp r c (at_buffered a) (progress_of (at_checkpoint a) r) st = (p, st')" by fastforce
  have "freeze_step sha inp \<lparr>fz_store = st, fz_delivered = d, fz_phase = Crawling a\<rparr>
    \<lparr>fz_store = st', fz_delivered = d, fz_phase = Crawling ((put_progress r p a)\<lparr>at_iterator := None, at_buffered := [], at_todo := rs\<rparr>)\<rparr>"
    by (rule fs_finish[OF Nil f refl]) simp
  from r_into_rtranclp[of "freeze_step sha inp", OF this] show ?case
    by (rule crawl_reaches) (simp_all add: put_progress_def)
next
  case (Cons b bs)
  obtain buf p st1 where f: "crawl_batch inp r b (at_buffered a) (progress_of (at_checkpoint a) r) st = (buf, p, st1)" by (metis prod_cases3)
  let ?a = "(put_progress r p a)\<lparr>at_iterator := Some (bs, c), at_buffered := buf\<rparr>"
  have s: "freeze_step sha inp \<lparr>fz_store = st, fz_delivered = d, fz_phase = Crawling a\<rparr>
    \<lparr>fz_store = st1, fz_delivered = d, fz_phase = Crawling ?a\<rparr>" by (rule fs_batch[OF Cons.prems f refl]) simp
  have "at_todo ?a = r # rs" "at_iterator ?a = Some (bs, c)" using Cons.prems(1) by (simp_all add: put_progress_def)
  from Cons.IH[OF this, of st1] show ?case using converse_rtranclp_into_rtranclp[of "freeze_step sha inp", OF s] by blast
qed

lemma crawl_runs:
  "at_iterator a = None \<Longrightarrow>
   \<exists>st' a'. (freeze_step sha inp)\<^sup>*\<^sup>* \<lparr>fz_store = st, fz_delivered = d, fz_phase = Crawling a\<rparr>
       \<lparr>fz_store = st', fz_delivered = d, fz_phase = Crawling a'\<rparr> \<and> at_todo a' = []"
proof (induction "at_todo a" arbitrary: a st)
  case Nil
  then show ?case by (intro exI[of _ st] exI[of _ a]) simp
next
  case (Cons r rs)
  have t: "at_todo a = r # rs" using Cons.hyps(2) by simp
  have "\<exists>st1 a1. (freeze_step sha inp)\<^sup>*\<^sup>* \<lparr>fz_store = st, fz_delivered = d, fz_phase = Crawling a\<rparr>
       \<lparr>fz_store = st1, fz_delivered = d, fz_phase = Crawling a1\<rparr> \<and> at_todo a1 = rs \<and> at_iterator a1 = None"
  proof (cases "rp_coverage (progress_of (at_checkpoint a) r)")
    case None
    let ?a = "a\<lparr>at_iterator := Some (ad_iterateRecords (fi_adapter inp) r (rp_cursor (progress_of (at_checkpoint a) r))), at_buffered := []\<rparr>"
    have s: "freeze_step sha inp \<lparr>fz_store = st, fz_delivered = d, fz_phase = Crawling a\<rparr> \<lparr>fz_store = st, fz_delivered = d, fz_phase = Crawling ?a\<rparr>"
      by (rule fs_open[OF t Cons.prems refl None])
    have "at_todo ?a = r # rs" "at_iterator ?a = Some (fst (ad_iterateRecords (fi_adapter inp) r (rp_cursor (progress_of (at_checkpoint a) r))),
        snd (ad_iterateRecords (fi_adapter inp) r (rp_cursor (progress_of (at_checkpoint a) r))))" using t by simp_all
    from crawl_iterator_runs[OF this, of sha inp st d] show ?thesis using converse_rtranclp_into_rtranclp[of "freeze_step sha inp", OF s] by blast
  next
    case (Some c)
    then have "freeze_step sha inp \<lparr>fz_store = st, fz_delivered = d, fz_phase = Crawling a\<rparr>
      \<lparr>fz_store = st, fz_delivered = d, fz_phase = Crawling (a\<lparr>at_todo := rs\<rparr>)\<rparr>" by (intro fs_skip[OF t Cons.prems]) simp
    from r_into_rtranclp[of "freeze_step sha inp", OF this] show ?thesis by (rule crawl_reaches) (simp_all add: Cons.prems)
  qed
  then obtain st1 a1 where x: "(freeze_step sha inp)\<^sup>*\<^sup>* \<lparr>fz_store = st, fz_delivered = d, fz_phase = Crawling a\<rparr>
       \<lparr>fz_store = st1, fz_delivered = d, fz_phase = Crawling a1\<rparr>" "at_todo a1 = rs" "at_iterator a1 = None" by blast
  from Cons.hyps(1)[OF x(2)[symmetric] x(3), of st1] show ?case using rtranclp_trans[OF x(1)] by blast
qed

lemma puts_run:
  "(freeze_step sha inp)\<^sup>*\<^sup>* \<lparr>fz_store = st, fz_delivered = d, fz_phase = Committing ps\<rparr>
     \<lparr>fz_store = foldl (\<lambda>s kv. s(fst kv \<mapsto> snd kv)) st ps, fz_delivered = d, fz_phase = Committing []\<rparr>"
proof (induction ps arbitrary: st)
  case (Cons kv ps)
  have "freeze_step sha inp \<lparr>fz_store = st, fz_delivered = d, fz_phase = Committing (kv # ps)\<rparr>
    \<lparr>fz_store = st(fst kv \<mapsto> snd kv), fz_delivered = d, fz_phase = Committing ps\<rparr>"
    using fs_put[of sha inp st d "fst kv" "snd kv" ps] by (simp only: prod.collapse)
  then show ?case unfolding foldl_Cons by (rule converse_rtranclp_into_rtranclp) (rule Cons)
qed simp

lemma read_staged_total:
  assumes "checkpoint_ok inp st cp"
  shows "\<exists>staged. read_staged inp st cp = Some staged"
proof -
  have "\<forall>r. \<exists>rows. read_segments inp st r (rp_segments (progress_of cp r)) = Some rows"
    using assms by (auto simp: checkpoint_ok_def progress_ok_def)
  then obtain g where "read_segments inp st r (rp_segments (progress_of cp r)) = Some (g r)" for r by metis
  then have "those (map (\<lambda>r. read_segments inp st r (rp_segments (progress_of cp r))) (fi_resourceIds inp)) = Some (map g (fi_resourceIds inp))"
    by (simp only: those_eq_iff) simp
  then show ?thesis by (simp add: read_staged_def)
qed

lemma committing_reaches_manifest:
  assumes "freeze_inv sha inp w" "w = \<lparr>fz_store = st, fz_delivered = d, fz_phase = Crawling a\<rparr>" "at_todo a = []"
    "\<not> all_failed (coverages_of inp (at_checkpoint a))"
  shows "\<exists>w'. (freeze_step sha inp)\<^sup>*\<^sup>* w w' \<and> \<not> no_manifest inp (fz_store w')"
proof -
  have "checkpoint_ok inp st (at_checkpoint a)" using crawling_inv(2)[of sha inp st d a] assms(1,2) by (simp add: attempt_ok_def)
  from read_staged_total[OF this] obtain staged where s: "read_staged inp st (at_checkpoint a) = Some staged" by blast
  let ?P = "commit_puts sha inp staged (coverages_of inp (at_checkpoint a)) []"
  have "freeze_step sha inp w \<lparr>fz_store = st, fz_delivered = d, fz_phase = Committing ?P\<rparr>"
    unfolding assms(2) by (rule fs_export[OF assms(3,4) s]) simp
  from converse_rtranclp_into_rtranclp[of "freeze_step sha inp", OF this puts_run]
  have "(freeze_step sha inp)\<^sup>*\<^sup>* w \<lparr>fz_store = foldl (\<lambda>s kv. s(fst kv \<mapsto> snd kv)) st ?P, fz_delivered = d, fz_phase = Committing []\<rparr>" .
  moreover have "\<not> no_manifest inp (fz_store \<lparr>fz_store = foldl (\<lambda>s kv. s(fst kv \<mapsto> snd kv)) st ?P, fz_delivered = d, fz_phase = Committing []\<rparr>)"
    by (simp add: commit_puts_def Let_def no_manifest_def)
  ultimately show ?thesis by blast
qed


section \<open>A freeze of one channel\<close>

text \<open>
  A channel with two pages of one message each, of which the first attempt reads one page and crashes; its
  heartbeat arrived, but nothing was uploaded, so the second attempt starts from the beginning.
\<close>

definition demo_record :: "string \<Rightarrow> int \<Rightarrow> CommunityActivityRecord" where
  "demo_record i t = \<lparr>ca_type = ''message'', ca_actor = ''ann'', ca_counterparty = None, ca_resource = ''general'', ca_objectId = i,
     ca_occurredAt = t, ca_count = 1, ca_actorIsBot = False, ca_deleted = False\<rparr>"

definition demo_coverage :: CommunityResourceCoverage where
  "demo_coverage = \<lparr>rcov_resource = ''general'', rcov_status = cov_complete, rcov_reason = None\<rparr>"

definition demo_pages :: "CommunityRecordBatch list" where
  "demo_pages = [\<lparr>bt_records = [demo_record ''m2'' 20], bt_cursor = ''m2''\<rparr>, \<lparr>bt_records = [demo_record ''m1'' 10], bt_cursor = ''m1''\<rparr>]"

definition demo_adapter :: CommunityAdapter where
  "demo_adapter = \<lparr>ad_iterateRecords = (\<lambda>r c.
     (case c of None \<Rightarrow> demo_pages | Some k \<Rightarrow> if k = ''m2'' then tl demo_pages else [], demo_coverage))\<rparr>"

definition demo_input :: freeze_input where
  "demo_input = \<lparr>fi_snapshotId = ''s1'', fi_platform = ''discord'', fi_window = \<lparr>fw_start = 0, fw_end = 100\<rparr>,
     fi_resourceIds = [''general''], fi_adapter = demo_adapter\<rparr>"

lemma demo_resumes: "adapter_resumes demo_input"
  by (auto simp: adapter_resumes_def batches_def demo_input_def demo_adapter_def demo_pages_def Cons_eq_append_conv)

lemma demo_step:
  "freeze_step sha inp w w1 \<Longrightarrow> (freeze_step sha inp)\<^sup>*\<^sup>* w1 w' \<and> P w' \<Longrightarrow> (freeze_step sha inp)\<^sup>*\<^sup>* w w' \<and> P w'"
  by (blast intro: converse_rtranclp_into_rtranclp)

lemmas demo_defs = demo_input_def demo_adapter_def demo_pages_def start_attempt_def normalizeCheckpoint_def progress_of_def
  put_progress_def crawl_batch_def crawl_finish_def flushSegment_def SEGMENT_MAX_ROWS_def

lemma demo_crawl:
  "\<exists>w. (freeze_step sha demo_input)\<^sup>*\<^sup>* \<lparr>fz_store = (\<lambda>_. None), fz_delivered = None, fz_phase = Idle\<rparr> w
     \<and> (\<exists>st d a. w = \<lparr>fz_store = st, fz_delivered = d, fz_phase = Crawling a\<rparr> \<and> at_todo a = [] \<and> \<not> all_failed (coverages_of demo_input (at_checkpoint a)))"
  apply (rule exI)
  apply (rule demo_step, rule fs_begin, simp add: readCommittedManifest_def, simp add: demo_input_def)
  apply (rule demo_step, rule fs_open, simp add: demo_defs, simp add: demo_defs, rule refl, simp add: demo_defs)
  apply (rule demo_step, rule fs_batch, simp add: demo_defs, simp add: demo_defs, simp add: demo_defs, rule refl, rule disjI2, rule refl)
  apply (rule demo_step, rule fs_crash)
  apply (rule demo_step, rule fs_begin, simp add: readCommittedManifest_def, simp add: demo_input_def)
  apply (rule demo_step, rule fs_open, simp add: demo_defs, simp add: demo_defs, rule refl, simp add: demo_defs)
  apply (rule demo_step, rule fs_batch, simp add: demo_defs, simp add: demo_defs, simp add: demo_defs, rule refl, rule disjI1, rule refl)
  apply (rule demo_step, rule fs_batch, simp add: demo_defs, simp add: demo_defs, simp add: demo_defs, rule refl, rule disjI1, rule refl)
  apply (rule demo_step, rule fs_finish, simp add: demo_defs, simp add: demo_defs, simp add: demo_defs, rule refl, rule disjI1, rule refl)
  apply (rule conjI, rule rtranclp.rtrancl_refl)
  apply (simp add: demo_defs coverages_of_def map_filter_def all_failed_def demo_coverage_def)
  done

lemma demo_commits:
  "\<exists>w. (freeze_step sha demo_input)\<^sup>*\<^sup>* \<lparr>fz_store = (\<lambda>_. None), fz_delivered = None, fz_phase = Idle\<rparr> w \<and> \<not> no_manifest demo_input (fz_store w)"
proof -
  obtain w st d a where w: "(freeze_step sha demo_input)\<^sup>*\<^sup>* \<lparr>fz_store = (\<lambda>_. None), fz_delivered = None, fz_phase = Idle\<rparr> w"
    "w = \<lparr>fz_store = st, fz_delivered = d, fz_phase = Crawling a\<rparr>" "at_todo a = []" "\<not> all_failed (coverages_of demo_input (at_checkpoint a))"
    using demo_crawl[of sha] by blast
  have "freeze_inv sha demo_input w" by (rule freeze_reachable_inv[OF w(1) _ demo_resumes]) (simp add: no_manifest_def)
  from committing_reaches_manifest[OF this w(2-4)] show ?thesis using rtranclp_trans[OF w(1)] by blast
qed

theorem committed_dataset_is_complete_witness:
  "\<exists>w. (freeze_step (\<lambda>_. []) demo_input)\<^sup>*\<^sup>* \<lparr>fz_store = (\<lambda>_. None), fz_delivered = None, fz_phase = Idle\<rparr> w
    \<and> fz_store w (dataset_key demo_input COMMUNITY_ACTIVITIES_FILENAME) = Some (ActivitiesFile [demo_record ''m1'' 10, demo_record ''m2'' 20])"
proof -
  obtain w where w: "(freeze_step (\<lambda>_. []) demo_input)\<^sup>*\<^sup>* \<lparr>fz_store = (\<lambda>_. None), fz_delivered = None, fz_phase = Idle\<rparr> w"
    "\<not> no_manifest demo_input (fz_store w)" using demo_commits[of "\<lambda>_. []"] by blast
  have "export_activities (fi_window demo_input) (all_records demo_input) = [demo_record ''m1'' 10, demo_record ''m2'' 20]" by code_simp
  then show ?thesis using committed_dataset_is_complete[OF w(1) _ demo_resumes w(2)] w(1) by (auto simp: no_manifest_def)
qed


text \<open>The export keeps two rows that differ in their instant only.\<close>

lemma same_row_at_two_times:
  "export_activities \<lparr>fw_start = 0, fw_end = 100\<rparr> [demo_record ''m1'' 10, demo_record ''m1'' 20] = [demo_record ''m1'' 10, demo_record ''m1'' 20]"
  by code_simp

end
