(* ===== verification/Object_Storage.thy ===== *)
theory Object_Storage
  imports Prelude "HOL-Library.Multiset"
begin

text \<open>
  Object storage: the scheme of the keys (\<^verbatim>\<open>keys.ts\<close>), the wrapper of the S3 client (\<^verbatim>\<open>storage.ts\<close>) and the
  storage service of the API (\<^verbatim>\<open>storage.service.ts\<close>).  The S3 client is a record of functions that take the state
  of the service and return a reply or a failure and the next state.  Random identifiers, the clock and the
  signing of a URL are arguments.
\<close>

section \<open>Keys\<close>

datatype StorageKeyType = upload | snapshot

datatype storage_error =
    FileTooLargeError int
  | InvalidContentTypeError string "string list"
  | ObjectNotFoundError string
  | HeadObjectFailedError string
  | InvalidStorageKeyError string string
  | S3Error string

definition generateKey :: "StorageKeyType \<Rightarrow> string \<Rightarrow> string \<Rightarrow> string" where
  "generateKey type i filename =
     (case type of
        upload \<Rightarrow> ''uploads/'' @ i @ ''/'' @ filename
      | snapshot \<Rightarrow> ''snapshots/'' @ i @ ''/'' @ filename)"

definition detectKeyType :: "string \<Rightarrow> StorageKeyType option" where
  "detectKeyType key =
     (if js_startsWith key ''uploads/'' then Some upload
      else if js_startsWith key ''snapshots/'' then Some snapshot
      else None)"

text \<open>A parsed key; \<open>pk_id\<close> is the field \<^verbatim>\<open>uuid\<close> of an upload and \<^verbatim>\<open>snapshotId\<close> of a snapshot.\<close>

record ParsedStorageKey =
  pk_type :: StorageKeyType
  pk_filename :: string
  pk_ext :: string
  pk_id :: string

definition extractFilenameAndExt :: "string \<Rightarrow> string \<Rightarrow> storage_error + string \<times> string" where
  "extractFilenameAndExt key filenamePart =
     (case js_lastIndexOf (CHR ''.'') filenamePart of
        None \<Rightarrow> Inl (InvalidStorageKeyError key ''No file extension found'')
      | Some i \<Rightarrow> Inr (take i filenamePart, drop (Suc i) filenamePart))"

definition parsed_of :: "StorageKeyType \<Rightarrow> string \<Rightarrow> string \<Rightarrow> string list \<Rightarrow> storage_error + ParsedStorageKey" where
  "parsed_of type i key parts =
     (case extractFilenameAndExt key (js_join (CHR ''/'') (drop 2 parts)) of
        Inl e \<Rightarrow> Inl e
      | Inr (name, ext) \<Rightarrow> Inr \<lparr>pk_type = type, pk_filename = name @ ''.'' @ ext, pk_ext = ext, pk_id = i\<rparr>)"

definition parseUploadKey :: "string \<Rightarrow> string list \<Rightarrow> storage_error + ParsedStorageKey" where
  "parseUploadKey key parts =
     (if length parts < 3 then Inl (InvalidStorageKeyError key ''Upload key must have at least 3 path segments'')
      else if parts ! 1 = [] then Inl (InvalidStorageKeyError key ''Missing UUID segment'')
      else parsed_of upload (parts ! 1) key parts)"

definition parseSnapshotKey :: "string \<Rightarrow> string list \<Rightarrow> storage_error + ParsedStorageKey" where
  "parseSnapshotKey key parts =
     (if length parts < 3 then Inl (InvalidStorageKeyError key ''Snapshot key must have at least 3 path segments'')
      else if parts ! 1 = [] then Inl (InvalidStorageKeyError key ''Missing snapshotId segment'')
      else parsed_of snapshot (parts ! 1) key parts)"

definition parseStorageKey :: "string \<Rightarrow> storage_error + ParsedStorageKey" where
  "parseStorageKey key =
     (case detectKeyType key of
        None \<Rightarrow> Inl (InvalidStorageKeyError key ''Key must start with \"uploads/\" or \"snapshots/\"'')
      | Some upload \<Rightarrow> parseUploadKey key (js_split (CHR ''/'') key)
      | Some snapshot \<Rightarrow> parseSnapshotKey key (js_split (CHR ''/'') key))"

section \<open>The S3 client\<close>

record s3_failure =
  sf_name :: string
  sf_httpStatusCode :: "nat option"
  sf_message :: string

record head_response =
  hr_ContentLength :: "int option"
  hr_ContentType :: "string option"

record list_response =
  lr_Contents :: "string option list"
  lr_IsTruncated :: bool
  lr_NextContinuationToken :: "string option"

record delete_response =
  dr_Deleted :: "string option list"
  dr_Errors :: "(string option \<times> string option) list"

type_synonym ('s, 'a) s3_call = "'s \<Rightarrow> (s3_failure + 'a) \<times> 's"

record 's S3Client =
  s3_head :: "string \<Rightarrow> ('s, head_response) s3_call"
  s3_get :: "string \<Rightarrow> ('s, string) s3_call"
  s3_put :: "string \<Rightarrow> string \<Rightarrow> string option \<Rightarrow> ('s, unit) s3_call"
  s3_delete :: "string \<Rightarrow> ('s, unit) s3_call"
  s3_list :: "string \<Rightarrow> string option \<Rightarrow> ('s, list_response) s3_call"
  s3_deleteMany :: "string list \<Rightarrow> ('s, delete_response) s3_call"

section \<open>The wrapper\<close>

record StorageMetadata =
  sm_filename :: string
  sm_ext :: string
  sm_size :: int
  sm_contentType :: string
  sm_timestamp :: int

definition getObjectMetadata :: "'s S3Client \<Rightarrow> string \<Rightarrow> 's \<Rightarrow> (storage_error + head_response) \<times> 's" where
  "getObjectMetadata client key s =
     (case s3_head client key s of
        (Inr head, s') \<Rightarrow> (Inr head, s')
      | (Inl err, s') \<Rightarrow>
          (Inl (if sf_name err = ''NotFound'' \<or> sf_httpStatusCode err = Some 404 then ObjectNotFoundError key
                else HeadObjectFailedError key), s'))"

definition validateFileSize :: "int \<Rightarrow> int \<Rightarrow> storage_error option" where
  "validateFileSize bytes maxSizeBytes = (if bytes > maxSizeBytes then Some (FileTooLargeError maxSizeBytes) else None)"

definition validateContentType :: "string \<Rightarrow> string list \<Rightarrow> storage_error option" where
  "validateContentType contentType allowlist =
     (if contentType \<notin> set allowlist then Some (InvalidContentTypeError contentType allowlist) else None)"

definition head_size :: "head_response \<Rightarrow> int" where
  "head_size head = (case hr_ContentLength head of None \<Rightarrow> 0 | Some n \<Rightarrow> n)"

definition head_type :: "head_response \<Rightarrow> string" where
  "head_type head = (case hr_ContentType head of None \<Rightarrow> ''application/octet-stream'' | Some t \<Rightarrow> t)"

definition metadata_of :: "int \<Rightarrow> head_response \<Rightarrow> ParsedStorageKey \<Rightarrow> StorageMetadata" where
  "metadata_of now head parsed =
     \<lparr>sm_filename = pk_filename parsed, sm_ext = pk_ext parsed, sm_size = head_size head, sm_contentType = head_type head,
      sm_timestamp = now div 1000\<rparr>"

record PresignedUpload =
  pu_key :: string
  pu_url :: string
  pu_expiresIn :: int

text \<open>Signing takes the key, the lifetime and, for an upload, the content type.\<close>

definition presignPut ::
  "(string \<Rightarrow> int \<Rightarrow> string option \<Rightarrow> string) \<Rightarrow> string \<Rightarrow> string \<Rightarrow> string \<Rightarrow> int \<Rightarrow> string list \<Rightarrow> storage_error + PresignedUpload" where
  "presignPut sign uuid filename contentType ttl contentTypeAllowlist =
     (case validateContentType contentType contentTypeAllowlist of
        Some e \<Rightarrow> Inl e
      | None \<Rightarrow>
          (let key = generateKey upload uuid filename
           in Inr \<lparr>pu_key = key, pu_url = sign key ttl (Some contentType), pu_expiresIn = ttl\<rparr>))"

definition verify ::
  "'s S3Client \<Rightarrow> int \<Rightarrow> string \<Rightarrow> int \<Rightarrow> string list option \<Rightarrow> 's \<Rightarrow> (storage_error + string \<times> StorageMetadata) \<times> 's" where
  "verify client now key maxSizeBytes contentTypeAllowlist s =
     (case getObjectMetadata client key s of
        (Inl e, s') \<Rightarrow> (Inl e, s')
      | (Inr head, s') \<Rightarrow>
          (case validateFileSize (head_size head) maxSizeBytes of
             Some e \<Rightarrow> (Inl e, s')
           | None \<Rightarrow>
               (case (if detectKeyType key = Some upload then Option.bind contentTypeAllowlist (validateContentType (head_type head)) else None) of
                  Some e \<Rightarrow> (Inl e, s')
                | None \<Rightarrow>
                    (case parseStorageKey key of
                       Inl e \<Rightarrow> (Inl e, s')
                     | Inr parsed \<Rightarrow> (Inr (key, metadata_of now head parsed), s')))))"

record PresignedDownload =
  pd_url :: string
  pd_expiresIn :: int
  pd_metadata :: StorageMetadata

definition presignGet ::
  "'s S3Client \<Rightarrow> (string \<Rightarrow> int \<Rightarrow> string option \<Rightarrow> string) \<Rightarrow> int \<Rightarrow> string \<Rightarrow> int \<Rightarrow> 's \<Rightarrow> (storage_error + PresignedDownload) \<times> 's" where
  "presignGet client sign now key ttl s =
     (case getObjectMetadata client key s of
        (Inl e, s') \<Rightarrow> (Inl e, s')
      | (Inr head, s') \<Rightarrow>
          (case parseStorageKey key of
             Inl e \<Rightarrow> (Inl e, s')
           | Inr parsed \<Rightarrow>
               (Inr \<lparr>pd_url = sign key ttl None, pd_expiresIn = ttl, pd_metadata = metadata_of now head parsed\<rparr>, s')))"

definition getObject :: "'s S3Client \<Rightarrow> string \<Rightarrow> 's \<Rightarrow> (storage_error + string) \<times> 's" where
  "getObject client key s =
     (case s3_get client key s of
        (Inr body, s') \<Rightarrow> (Inr body, s')
      | (Inl err, s') \<Rightarrow>
          (Inl (if sf_name err = ''NoSuchKey'' \<or> sf_httpStatusCode err = Some 404 then ObjectNotFoundError key
                else S3Error (sf_message err)), s'))"

text \<open>An empty content type is falsy, so it is not validated.\<close>

definition putObject ::
  "'s S3Client \<Rightarrow> string \<Rightarrow> string \<Rightarrow> string option \<Rightarrow> string list option \<Rightarrow> 's \<Rightarrow> (storage_error + string) \<times> 's" where
  "putObject client key body contentType contentTypeAllowlist s =
     (case (case (contentType, contentTypeAllowlist) of
              (Some t, Some allowlist) \<Rightarrow>
                if t \<noteq> [] \<and> detectKeyType key = Some upload then validateContentType t allowlist else None
            | _ \<Rightarrow> None) of
        Some e \<Rightarrow> (Inl e, s)
      | None \<Rightarrow>
          (case s3_put client key body contentType s of
             (Inl err, s') \<Rightarrow> (Inl (S3Error (sf_message err)), s')
           | (Inr _, s') \<Rightarrow> (Inr key, s')))"

definition deleteObject :: "'s S3Client \<Rightarrow> string \<Rightarrow> 's \<Rightarrow> (storage_error + unit) \<times> 's" where
  "deleteObject client key s =
     (case s3_delete client key s of
        (Inl err, s') \<Rightarrow> (Inl (S3Error (sf_message err)), s')
      | (Inr _, s') \<Rightarrow> (Inr (), s'))"

text \<open>Keys that are missing or empty are skipped.\<close>

definition present_keys :: "string option list \<Rightarrow> string list" where
  "present_keys ks = filter (\<lambda>k. k \<noteq> []) (List.map_filter id ks)"

definition next_token :: "list_response \<Rightarrow> string option" where
  "next_token r = (if lr_IsTruncated r \<and> lr_NextContinuationToken r \<noteq> Some [] then lr_NextContinuationToken r else None)"

text \<open>The loop over pages ends only when the service stops announcing another one: without an end it has no value.\<close>

partial_function (option) list_pages ::
  "'s S3Client \<Rightarrow> string \<Rightarrow> string option \<Rightarrow> string list \<Rightarrow> 's \<Rightarrow> ((storage_error + string list) \<times> 's) option" where
  "list_pages client keyPrefix token keys s =
     (case s3_list client keyPrefix token s of
        (Inl err, s') \<Rightarrow> Some (Inl (S3Error (sf_message err)), s')
      | (Inr r, s') \<Rightarrow>
          (case next_token r of
             None \<Rightarrow> Some (Inr (keys @ present_keys (lr_Contents r)), s')
           | Some t \<Rightarrow> list_pages client keyPrefix (Some t) (keys @ present_keys (lr_Contents r)) s'))"

definition listObjectsByPrefix :: "'s S3Client \<Rightarrow> string \<Rightarrow> 's \<Rightarrow> ((storage_error + string list) \<times> 's) option" where
  "listObjectsByPrefix client keyPrefix s = list_pages client keyPrefix None [] s"

definition BATCH_SIZE :: nat where "BATCH_SIZE = 1000"

record DeleteObjectsResult =
  del_deleted :: "string list"
  del_errors :: "(string \<times> string) list"

definition batch_result :: "string list \<Rightarrow> s3_failure + delete_response \<Rightarrow> DeleteObjectsResult \<Rightarrow> DeleteObjectsResult" where
  "batch_result batch reply res =
     (case reply of
        Inr r \<Rightarrow>
          \<lparr>del_deleted = del_deleted res @ present_keys (dr_Deleted r),
           del_errors = del_errors res @ List.map_filter (\<lambda>(k, msg). case k of
             None \<Rightarrow> None
           | Some key \<Rightarrow> if key = [] then None
               else Some (key, (case msg of None \<Rightarrow> ''Unknown error'' | Some m \<Rightarrow> if m = [] then ''Unknown error'' else m))) (dr_Errors r)\<rparr>
      | Inl err \<Rightarrow>
          res\<lparr>del_errors := del_errors res @
            map (\<lambda>k. (k, if sf_message err = [] then ''Batch delete failed'' else sf_message err)) batch\<rparr>)"

function delete_batches :: "'s S3Client \<Rightarrow> string list \<Rightarrow> DeleteObjectsResult \<Rightarrow> 's \<Rightarrow> DeleteObjectsResult \<times> 's" where
  "delete_batches client keys res s =
     (if keys = [] then (res, s)
      else
        (case s3_deleteMany client (take BATCH_SIZE keys) s of
           (reply, s') \<Rightarrow> delete_batches client (drop BATCH_SIZE keys) (batch_result (take BATCH_SIZE keys) reply res) s'))"
  by pat_completeness auto
termination by (relation "measure (\<lambda>(_, keys, _, _). length keys)") (auto simp: BATCH_SIZE_def)

definition deleteObjects :: "'s S3Client \<Rightarrow> string list \<Rightarrow> 's \<Rightarrow> DeleteObjectsResult \<times> 's" where
  "deleteObjects client keys s =
     (if keys = [] then (\<lparr>del_deleted = [], del_errors = []\<rparr>, s)
      else delete_batches client keys \<lparr>del_deleted = [], del_errors = []\<rparr> s)"

declare delete_batches.simps [simp del]

section \<open>The service of the API\<close>

record storage_config =
  sc_presignPutTtl :: int
  sc_presignGetTtl :: int
  sc_maxSizeBytes :: int
  sc_contentTypeAllowlist :: string

datatype storage_exception =
    FileTooLargeException int
  | InvalidContentTypeException string "string list"
  | ObjectNotFoundException
  | HeadObjectFailedException
  | OtherStorageError storage_error

fun handleStorageError :: "storage_error \<Rightarrow> storage_exception" where
  "handleStorageError (FileTooLargeError n) = FileTooLargeException n"
| "handleStorageError (InvalidContentTypeError t ts) = InvalidContentTypeException t ts"
| "handleStorageError (ObjectNotFoundError _) = ObjectNotFoundException"
| "handleStorageError (HeadObjectFailedError _) = HeadObjectFailedException"
| "handleStorageError e = OtherStorageError e"

definition allowlist_of :: "storage_config \<Rightarrow> string list" where
  "allowlist_of cfg = map js_trim (js_split (CHR '','') (sc_contentTypeAllowlist cfg))"

definition handled :: "(storage_error + 'a) \<times> 's \<Rightarrow> (storage_exception + 'a) \<times> 's" where
  "handled r = (map_sum handleStorageError id (fst r), snd r)"

definition svc_presignPut ::
  "(string \<Rightarrow> int \<Rightarrow> string option \<Rightarrow> string) \<Rightarrow> storage_config \<Rightarrow> string \<Rightarrow> string \<Rightarrow> string \<Rightarrow> storage_exception + PresignedUpload" where
  "svc_presignPut sign cfg uuid filename contentType =
     map_sum handleStorageError id (presignPut sign uuid filename contentType (sc_presignPutTtl cfg) (allowlist_of cfg))"

definition svc_verify ::
  "'s S3Client \<Rightarrow> storage_config \<Rightarrow> int \<Rightarrow> string \<Rightarrow> 's \<Rightarrow> (storage_exception + string \<times> StorageMetadata) \<times> 's" where
  "svc_verify client cfg now key s = handled (verify client now key (sc_maxSizeBytes cfg) (Some (allowlist_of cfg)) s)"

definition svc_presignGet ::
  "'s S3Client \<Rightarrow> (string \<Rightarrow> int \<Rightarrow> string option \<Rightarrow> string) \<Rightarrow> storage_config \<Rightarrow> int \<Rightarrow> string \<Rightarrow> 's \<Rightarrow> (storage_exception + PresignedDownload) \<times> 's" where
  "svc_presignGet client sign cfg now key s = handled (presignGet client sign now key (sc_presignGetTtl cfg) s)"

definition svc_getObjectMetadata ::
  "'s S3Client \<Rightarrow> storage_config \<Rightarrow> int \<Rightarrow> string \<Rightarrow> 's \<Rightarrow> (storage_exception + StorageMetadata) \<times> 's" where
  "svc_getObjectMetadata client cfg now key s =
     (case svc_verify client cfg now key s of (r, s') \<Rightarrow> (map_sum id snd r, s'))"

definition svc_getObject :: "'s S3Client \<Rightarrow> string \<Rightarrow> 's \<Rightarrow> (storage_exception + string) \<times> 's" where
  "svc_getObject client key s = handled (getObject client key s)"

definition svc_deleteObject :: "'s S3Client \<Rightarrow> string \<Rightarrow> 's \<Rightarrow> (storage_exception + unit) \<times> 's" where
  "svc_deleteObject client key s = handled (deleteObject client key s)"

definition svc_listObjectsByPrefix :: "'s S3Client \<Rightarrow> string \<Rightarrow> 's \<Rightarrow> ((storage_exception + string list) \<times> 's) option" where
  "svc_listObjectsByPrefix client keyPrefix s = map_option handled (listObjectsByPrefix client keyPrefix s)"

section \<open>Keys parse back\<close>

lemma split_last_dot:
  assumes "js_lastIndexOf (CHR ''.'') f = Some i"
  shows "take i f @ ''.'' @ drop (Suc i) f = f \<and> CHR ''.'' \<notin> set (drop (Suc i) f)"
proof -
  from js_lastIndexOf_SomeD[OF assms] have "i < length f" "f ! i = CHR ''.''" "CHR ''.'' \<notin> set (drop (Suc i) f)" by blast+
  then show ?thesis using id_take_nth_drop[of i f] by simp
qed

lemma extract_roundtrip:
  assumes "CHR ''.'' \<in> set f"
  shows "\<exists>name ext. extractFilenameAndExt key f = Inr (name, ext) \<and> name @ ''.'' @ ext = f \<and> CHR ''.'' \<notin> set ext"
proof -
  obtain i where i: "js_lastIndexOf (CHR ''.'') f = Some i" using assms js_lastIndexOf_None[of "CHR ''.''" f] by auto
  then show ?thesis using split_last_dot[OF i] by (simp add: extractFilenameAndExt_def)
qed

lemma extract_sound:
  assumes "extractFilenameAndExt key f = Inr (name, ext)"
  shows "name @ ''.'' @ ext = f" "CHR ''.'' \<notin> set ext"
proof -
  obtain i where i: "js_lastIndexOf (CHR ''.'') f = Some i" "name = take i f" "ext = drop (Suc i) f"
    using assms by (auto simp: extractFilenameAndExt_def split: option.splits)
  from split_last_dot[OF i(1)] show "name @ ''.'' @ ext = f" "CHR ''.'' \<notin> set ext" unfolding i(2,3) by simp_all
qed

fun folder :: "StorageKeyType \<Rightarrow> string" where
  "folder upload = ''uploads''"
| "folder snapshot = ''snapshots''"

lemma generateKey_folder: "generateKey t i f = folder t @ CHR ''/'' # i @ CHR ''/'' # f"
  by (cases t) (simp_all add: generateKey_def)

lemma detect_generated: "detectKeyType (folder t @ CHR ''/'' # k) = Some t"
  by (cases t) (simp_all add: detectKeyType_def js_startsWith_def)

lemma detect_folder: "detectKeyType key = Some t \<Longrightarrow> \<exists>k. key = folder t @ CHR ''/'' # k"
  by (auto simp: detectKeyType_def js_startsWith_def prefix_def split: if_splits)

lemma folder_no_slash: "CHR ''/'' \<notin> set (folder t)"
  by (cases t) simp_all

lemma parse_parts:
  assumes "detectKeyType key = Some t" "js_split (CHR ''/'') key = a # i # f # fs"
  shows "parseStorageKey key = (if i = [] then parseStorageKey key else parsed_of t i key (a # i # f # fs))"
  using assms by (cases t) (simp_all add: parseStorageKey_def parseUploadKey_def parseSnapshotKey_def)

lemma parse_generated:
  assumes a: "i \<noteq> [] \<and> CHR ''/'' \<notin> set i \<and> CHR ''.'' \<in> set f"
  shows "\<exists>p. parseStorageKey (generateKey t i f) = Inr p \<and> pk_type p = t \<and> pk_id p = i \<and> pk_filename p = f
    \<and> (\<exists>name. f = name @ ''.'' @ pk_ext p) \<and> CHR ''.'' \<notin> set (pk_ext p)"
proof -
  obtain w ws where w: "js_split (CHR ''/'') f = w # ws" by (cases "js_split (CHR ''/'') f") auto
  let ?key = "generateKey t i f"
  have s: "js_split (CHR ''/'') ?key = folder t # i # w # ws"
    using a w by (simp add: generateKey_folder js_split_append folder_no_slash)
  have "js_join (CHR ''/'') (w # ws) = f" using w js_join_split[of "CHR ''/''" f] by simp
  then have "js_join (CHR ''/'') (drop 2 (folder t # i # w # ws)) = f" by (simp add: numeral_2_eq_2)
  moreover obtain name ext where "extractFilenameAndExt ?key f = Inr (name, ext)" "name @ ''.'' @ ext = f" "CHR ''.'' \<notin> set ext"
    using extract_roundtrip[of f ?key] a by blast
  ultimately have "parseStorageKey ?key = Inr \<lparr>pk_type = t, pk_filename = f, pk_ext = ext, pk_id = i\<rparr>"
    using parse_parts[OF _ s, of t] a detect_generated[of t "i @ CHR ''/'' # f"] by (simp add: parsed_of_def generateKey_folder)
  moreover have "\<exists>name. f = name @ ''.'' @ ext" using \<open>name @ ''.'' @ ext = f\<close> by blast
  ultimately show "\<exists>p. parseStorageKey ?key = Inr p \<and> pk_type p = t \<and> pk_id p = i \<and> pk_filename p = f
      \<and> (\<exists>name. f = name @ ''.'' @ pk_ext p) \<and> CHR ''.'' \<notin> set (pk_ext p)"
    using \<open>CHR ''.'' \<notin> set ext\<close> by simp
qed

lemma generate_parsed:
  assumes p: "parseStorageKey key = Inr p'"
  shows "key = generateKey (pk_type p') (pk_id p') (pk_filename p')"
proof -
  obtain t where t: "detectKeyType key = Some t" using p by (cases "detectKeyType key") (simp_all add: parseStorageKey_def)
  then obtain k where k: "key = folder t @ CHR ''/'' # k" using detect_folder by blast
  then have s: "js_split (CHR ''/'') key = folder t # js_split (CHR ''/'') k" by (simp add: js_split_append folder_no_slash)
  obtain j w ws where j: "js_split (CHR ''/'') k = j # w # ws"
    using p t s by (cases t; cases "js_split (CHR ''/'') k" rule: remdups_adj.cases)
      (simp_all add: parseStorageKey_def parseUploadKey_def parseSnapshotKey_def)
  have "j \<noteq> []" using p t s j by (cases t) (auto simp: parseStorageKey_def parseUploadKey_def parseSnapshotKey_def)
  then have q: "parsed_of t j key (folder t # j # w # ws) = Inr p'" using parse_parts[OF t] p s j by simp
  have "k = j @ CHR ''/'' # js_join (CHR ''/'') (w # ws)" using js_join_split[of "CHR ''/''" k] j by simp
  then show "key = generateKey (pk_type p') (pk_id p') (pk_filename p')"
    using q extract_sound[of key "js_join (CHR ''/'') (w # ws)"] k
    by (auto simp: parsed_of_def generateKey_folder numeral_2_eq_2 split: sum.splits)
qed

text \<open>
  C40: A generated key with an identifier that is not empty and has no slash, and a file name with a dot, parses back to its
  type, identifier and file name, the extension being what follows the last dot; conversely every key that parses is the generated key of
  its parts.
\<close>

theorem storage_key_roundtrip:
  "(i \<noteq> [] \<and> CHR ''/'' \<notin> set i \<and> CHR ''.'' \<in> set f \<longrightarrow>
     (\<exists>p. parseStorageKey (generateKey t i f) = Inr p \<and> pk_type p = t \<and> pk_id p = i \<and> pk_filename p = f
        \<and> (\<exists>name. f = name @ ''.'' @ pk_ext p) \<and> CHR ''.'' \<notin> set (pk_ext p)))
   \<and> (parseStorageKey key = Inr p' \<longrightarrow> key = generateKey (pk_type p') (pk_id p') (pk_filename p'))"
  using parse_generated generate_parsed by blast

theorem storage_key_roundtrip_witness:
  "\<exists>p. parseStorageKey (generateKey upload ''u1'' ''a/votes.v2.csv'') = Inr p \<and> pk_filename p = ''a/votes.v2.csv''"
  using storage_key_roundtrip[of "''u1''" "''a/votes.v2.csv''" upload] by auto

section \<open>What is accepted\<close>

lemma getObjectMetadata_cases:
  "getObjectMetadata client key s = (r, s') \<Longrightarrow> \<exists>x. s3_head client key s = (x, s') \<and> (\<forall>head. r = Inr head \<longrightarrow> x = Inr head)"
  by (auto simp: getObjectMetadata_def split: prod.splits sum.splits)

text \<open>
  A key the service verifies is an object of the store whose reported size is within the configured limit; when it
  is an upload, its reported type is on the configured list; and the metadata name the file of the key.
\<close>

lemma verified_upload_meets_policy:
  assumes "svc_verify client cfg now key s = (Inr (key', m), s')"
  shows "key' = key \<and> sm_size m \<le> sc_maxSizeBytes cfg
    \<and> (\<exists>head. s3_head client key s = (Inr head, s') \<and> sm_size m = head_size head \<and> sm_contentType m = head_type head)
    \<and> (\<exists>t i. key = generateKey t i (sm_filename m) \<and> (t = upload \<longrightarrow> sm_contentType m \<in> set (allowlist_of cfg)))"
proof -
  have v: "verify client now key (sc_maxSizeBytes cfg) (Some (allowlist_of cfg)) s = (Inr (key', m), s')"
    using assms by (cases "verify client now key (sc_maxSizeBytes cfg) (Some (allowlist_of cfg)) s"; cases "fst (verify client now key (sc_maxSizeBytes cfg) (Some (allowlist_of cfg)) s)")
      (auto simp: svc_verify_def handled_def)
  then obtain head where h: "getObjectMetadata client key s = (Inr head, s')"
    by (cases "getObjectMetadata client key s"; cases "fst (getObjectMetadata client key s)")
      (auto simp: verify_def split: option.splits sum.splits)
  obtain p where p: "parseStorageKey key = Inr p" "m = metadata_of now head p" "key' = key" "validateFileSize (head_size head) (sc_maxSizeBytes cfg) = None"
    "detectKeyType key = Some upload \<longrightarrow> validateContentType (head_type head) (allowlist_of cfg) = None"
    using v h by (auto simp: verify_def split: option.splits sum.splits if_splits)
  from generate_parsed[OF p(1)] have g: "key = generateKey (pk_type p) (pk_id p) (pk_filename p)" .
  then have "pk_type p = upload \<longrightarrow> detectKeyType key = Some upload" using detect_generated[of upload] by (auto simp: generateKey_folder)
  then show ?thesis using g p getObjectMetadata_cases[OF h]
    by (auto simp: metadata_of_def validateFileSize_def validateContentType_def split: if_splits
        intro!: exI[of _ "pk_type p"] exI[of _ "pk_id p"])
qed

section \<open>Listing and deleting\<close>

definition page_token :: "(nat \<Rightarrow> string) \<Rightarrow> nat \<Rightarrow> string option" where
  "page_token token i = (if i = 0 then None else Some (token i))"

text \<open>
  What the service promises of a listing: its pages come one after the other, each but the last announcing the
  next with a token that is not empty.
\<close>

definition serves_pages :: "'s S3Client \<Rightarrow> string \<Rightarrow> (nat \<Rightarrow> string) \<Rightarrow> string list list \<Rightarrow> bool" where
  "serves_pages client keyPrefix token pages \<longleftrightarrow> pages \<noteq> [] \<and> (\<forall>i. token i \<noteq> []) \<and> [] \<notin> set (concat pages)
     \<and> (\<forall>i s. i < length pages \<longrightarrow> s3_list client keyPrefix (page_token token i) s
          = (Inr \<lparr>lr_Contents = map Some (pages ! i), lr_IsTruncated = Suc i < length pages,
               lr_NextContinuationToken = page_token token (Suc i)\<rparr>, s))"

lemma present_keys_Some: "[] \<notin> set ks \<Longrightarrow> present_keys (map Some ks) = ks"
  by (induction ks) (auto simp: present_keys_def map_filter_def)

lemma list_pages_complete:
  assumes "serves_pages client keyPrefix token pages" "i < length pages"
  shows "list_pages client keyPrefix (page_token token i) keys s = Some (Inr (keys @ concat (drop i pages)), s)"
  using assms(2)
proof (induction "length pages - i" arbitrary: i keys)
  case (Suc n)
  have e: "present_keys (map Some (pages ! i)) = pages ! i"
    using assms(1) Suc.prems by (intro present_keys_Some) (auto simp: serves_pages_def)
  have d: "drop i pages = pages ! i # drop (Suc i) pages" using Suc.prems by (simp add: Cons_nth_drop_Suc)
  have l: "s3_list client keyPrefix (page_token token i) s = (Inr \<lparr>lr_Contents = map Some (pages ! i), lr_IsTruncated = Suc i < length pages,
      lr_NextContinuationToken = page_token token (Suc i)\<rparr>, s)" using assms(1) Suc.prems by (simp add: serves_pages_def)
  show ?case
  proof (cases "Suc i < length pages")
    case True
    have t: "page_token token (Suc i) = Some (token (Suc i))" "token (Suc i) \<noteq> []" using assms(1) by (simp_all add: page_token_def serves_pages_def)
    have "list_pages client keyPrefix (page_token token (Suc i)) (keys @ pages ! i) s = Some (Inr ((keys @ pages ! i) @ concat (drop (Suc i) pages)), s)"
      using Suc.hyps True by (intro Suc.hyps(1)) simp_all
    then show ?thesis using True l e d t by (subst list_pages.simps) (simp add: next_token_def)
  next
    case False
    then show ?thesis using l e d by (subst list_pages.simps) (simp add: next_token_def)
  qed
qed simp

text \<open>
  However many pages a listing has, the loop ends and returns every key of every page in order.
\<close>

lemma listing_is_complete:
  assumes "serves_pages client keyPrefix token pages"
  shows "listObjectsByPrefix client keyPrefix s = Some (Inr (concat pages), s)"
  using list_pages_complete[OF assms, of 0 "[]" s] assms by (simp add: listObjectsByPrefix_def page_token_def serves_pages_def)

text \<open>What the service promises of a batch delete: a reply that is not an error reports every key once.\<close>

definition reports_every_key :: "'s S3Client \<Rightarrow> bool" where
  "reports_every_key client \<longleftrightarrow>
     (\<forall>batch s. length batch \<le> BATCH_SIZE \<longrightarrow>
        (case fst (s3_deleteMany client batch s) of
           Inl _ \<Rightarrow> True
         | Inr r \<Rightarrow> mset (List.map_filter id (dr_Deleted r)) + mset (List.map_filter fst (dr_Errors r)) = mset batch))"

definition accounted :: "DeleteObjectsResult \<Rightarrow> string multiset" where
  "accounted res = mset (del_deleted res) + mset (map fst (del_errors res))"

lemma error_keys:
  "map fst (List.map_filter (\<lambda>(k, msg). case k of None \<Rightarrow> None | Some key \<Rightarrow> if key = [] then None else Some (key, f msg)) es)
    = filter (\<lambda>k. k \<noteq> []) (List.map_filter fst es)"
  by (induction es) (auto simp: map_filter_def split: option.splits)

lemma batch_result_accounts:
  assumes "case reply of Inl _ \<Rightarrow> True
    | Inr r \<Rightarrow> mset (List.map_filter id (dr_Deleted r)) + mset (List.map_filter fst (dr_Errors r)) = mset batch" "[] \<notin> set batch"
  shows "accounted (batch_result batch reply res) = accounted res + mset batch"
proof (cases reply)
  case (Inl err)
  then show ?thesis by (simp add: batch_result_def accounted_def comp_def)
next
  case (Inr r)
  let ?D = "List.map_filter id (dr_Deleted r)" and ?E = "List.map_filter fst (dr_Errors r)"
  have m: "mset ?D + mset ?E = mset batch" using assms(1) Inr by simp
  then have "set ?D \<union> set ?E = set batch" by (metis set_mset_mset set_mset_union)
  then have "filter (\<lambda>k. k \<noteq> []) ?D = ?D" "filter (\<lambda>k. k \<noteq> []) ?E = ?E" using assms(2) by (auto intro!: filter_True)
  then show ?thesis using m Inr by (simp add: batch_result_def accounted_def present_keys_def error_keys ac_simps)
qed

lemma delete_batches_accounts:
  "reports_every_key client \<Longrightarrow> [] \<notin> set keys \<Longrightarrow>
   accounted (fst (delete_batches client keys res s)) = accounted res + mset keys"
proof (induction client keys res s rule: delete_batches.induct)
  case (1 client keys res s)
  show ?case
  proof (cases "keys = []")
    case False
    obtain reply s' where r: "s3_deleteMany client (take BATCH_SIZE keys) s = (reply, s')" by fastforce
    let ?res = "batch_result (take BATCH_SIZE keys) reply res"
    have l: "length (take BATCH_SIZE keys) \<le> BATCH_SIZE" by simp
    have "case reply of Inl _ \<Rightarrow> True
      | Inr d \<Rightarrow> mset (List.map_filter id (dr_Deleted d)) + mset (List.map_filter fst (dr_Errors d)) = mset (take BATCH_SIZE keys)"
      using "1.prems"(1)[unfolded reports_every_key_def, rule_format, OF l, of s] unfolding r fst_conv .
    then have b: "accounted ?res = accounted res + mset (take BATCH_SIZE keys)"
      using "1.prems"(2) by (intro batch_result_accounts) (auto dest: in_set_takeD)
    have "accounted (fst (delete_batches client (drop BATCH_SIZE keys) ?res s')) = accounted ?res + mset (drop BATCH_SIZE keys)"
      using "1.prems" by (intro "1.IH"[OF False r[symmetric]]) (auto dest: in_set_dropD)
    moreover have "mset (take BATCH_SIZE keys) + mset (drop BATCH_SIZE keys) = mset keys" by (simp flip: mset_append)
    ultimately show ?thesis using False r b by (subst delete_batches.simps) (simp add: add.assoc)
  qed (simp add: delete_batches.simps)
qed

text \<open>
  Every key handed to a batch delete is reported back exactly as often as it was given, as deleted or with an error,
  however many batches it takes and whichever of them fail.
\<close>

lemma delete_accounts_for_every_key:
  assumes "reports_every_key client" "[] \<notin> set keys"
  shows "mset (del_deleted (fst (deleteObjects client keys s))) + mset (map fst (del_errors (fst (deleteObjects client keys s)))) = mset keys"
  using delete_batches_accounts[OF assms, of "\<lparr>del_deleted = [], del_errors = []\<rparr>" s]
  by (auto simp: deleteObjects_def accounted_def)

section \<open>A bucket with two pages\<close>

definition demo_client :: "string list S3Client" where
  "demo_client = \<lparr>s3_head = (\<lambda>k s. (if k \<in> set s then Inr \<lparr>hr_ContentLength = Some 5, hr_ContentType = Some ''text/csv''\<rparr>
       else Inl \<lparr>sf_name = ''NotFound'', sf_httpStatusCode = Some 404, sf_message = []\<rparr>, s)),
     s3_get = (\<lambda>k s. (Inr [], s)), s3_put = (\<lambda>k b t s. (Inr (), k # s)), s3_delete = (\<lambda>k s. (Inr (), removeAll k s)),
     s3_list = (\<lambda>p t s. (Inr (if t = None then \<lparr>lr_Contents = [Some ''a''], lr_IsTruncated = True, lr_NextContinuationToken = Some ''t''\<rparr>
       else \<lparr>lr_Contents = [Some ''b''], lr_IsTruncated = False, lr_NextContinuationToken = Some ''t''\<rparr>), s)),
     s3_deleteMany = (\<lambda>ks s. (Inr \<lparr>dr_Deleted = map Some ks, dr_Errors = []\<rparr>, filter (\<lambda>k. k \<notin> set ks) s))\<rparr>"

theorem listing_is_complete_witness: "listObjectsByPrefix demo_client [] [] = Some (Inr [''a'', ''b''], [])"
proof -
  have "serves_pages demo_client [] (\<lambda>_. ''t'') [[''a''], [''b'']]"
    by (auto simp: serves_pages_def demo_client_def page_token_def less_Suc_eq)
  from listing_is_complete[OF this] show ?thesis by simp
qed

theorem delete_accounts_for_every_key_witness:
  "mset (del_deleted (fst (deleteObjects demo_client [''a'', ''b''] [''a'']))) + mset (map fst (del_errors (fst (deleteObjects demo_client [''a'', ''b''] [''a'']))))
    = {#''a'', ''b''#}"
proof -
  have "List.map_filter id (map Some ks) = ks" for ks :: "string list" by (induction ks) (simp_all add: map_filter_def)
  then have "reports_every_key demo_client" by (simp add: reports_every_key_def demo_client_def map_filter_def)
  from delete_accounts_for_every_key[OF this, of "[''a'', ''b'']" "[''a'']"] show ?thesis by simp
qed

theorem verified_upload_meets_policy_witness:
  "\<exists>m s'. svc_verify demo_client \<lparr>sc_presignPutTtl = 60, sc_presignGetTtl = 60, sc_maxSizeBytes = 10, sc_contentTypeAllowlist = ''text/csv, application/json''\<rparr>
     5000 ''uploads/u1/v.csv'' [''uploads/u1/v.csv''] = (Inr (''uploads/u1/v.csv'', m), s') \<and> sm_size m \<le> 10 \<and> sm_filename m = ''v.csv''"
proof -
  let ?cfg = "\<lparr>sc_presignPutTtl = 60, sc_presignGetTtl = 60, sc_maxSizeBytes = 10, sc_contentTypeAllowlist = ''text/csv, application/json''\<rparr>"
  have v: "svc_verify demo_client ?cfg 5000 ''uploads/u1/v.csv'' [''uploads/u1/v.csv'']
    = (Inr (''uploads/u1/v.csv'', \<lparr>sm_filename = ''v.csv'', sm_ext = ''csv'', sm_size = 5, sm_contentType = ''text/csv'', sm_timestamp = 5\<rparr>), [''uploads/u1/v.csv''])"
    by code_simp
  from verified_upload_meets_policy[OF v] show ?thesis using v by auto
qed

end
