(* ===== verification/Community_Engagement.thy ===== *)
theory Community_Engagement
  imports Community_Dataset Orchestrator_Inputs Object_Storage
begin

text \<open>
  The cohort of a community dataset (\<^verbatim>\<open>cohort.ts\<close>) and the scoring of a frozen dataset
  (\<^verbatim>\<open>community-engagement\<close>, with the configurations of Discord, GitHub and Mattermost): weights from the
  preset, verified download, the aggregation the SQL computes, and the outputs.

  Parquet files are the row lists of \<open>Community_Dataset\<close>.  A query is written out clause by clause: a join
  is a comprehension, a \<^verbatim>\<open>GROUP BY\<close> lists the distinct keys, and sums are integers of any size.  Heartbeats,
  logging and scratch files are left out.
\<close>

section \<open>Cohort\<close>

record DeepIdUser =
  du_scopes :: json
  du_fields :: "(string \<times> json) list"

fun hasScope :: "DeepIdUser \<Rightarrow> string \<Rightarrow> bool" where
  "hasScope user scope = (case du_scopes user of JArr vs \<Rightarrow> JStr scope \<in> set vs | _ \<Rightarrow> False)"

text \<open>
  The contract of a social identity; that the two instants have an ISO form is the argument \<open>isIso\<close>, the
  check of the schema library.
\<close>

definition parseSocialIdentity :: "(string \<Rightarrow> bool) \<Rightarrow> json \<Rightarrow> string + string option" where
  "parseSocialIdentity isIso v =
     (case v of
        JUndefined \<Rightarrow> Inr None
      | JNull \<Rightarrow> Inr None
      | JObj _ \<Rightarrow>
          (case jfield ''username'' v of
             JStr username \<Rightarrow>
               if username \<noteq> [] \<and> is_jstr (jfield ''verifiedAt'' v) \<and> isIso (jstr (jfield ''verifiedAt'' v))
                  \<and> is_jstr (jfield ''expiresAt'' v) \<and> isIso (jstr (jfield ''expiresAt'' v))
                  \<and> (is_jstr (jfield ''vc'' v) \<or> jfield ''vc'' v = JNull)
               then Inr (Some username) else Inl ''invalid social identity in DeepID user''
           | _ \<Rightarrow> Inl ''invalid social identity in DeepID user'')
      | _ \<Rightarrow> Inl ''invalid social identity in DeepID user'')"

type_synonym UsersPage = "(string \<times> DeepIdUser) list"

fun consented_users :: "(string \<Rightarrow> bool) \<Rightarrow> string \<Rightarrow> UsersPage \<Rightarrow> string + (string \<times> string option) list" where
  "consented_users isIso platform [] = Inr []"
| "consented_users isIso platform ((did, user) # rest) =
     (if \<not> hasScope user platform then consented_users isIso platform rest
      else
        (case parseSocialIdentity isIso (case map_of (du_fields user) platform of None \<Rightarrow> JUndefined | Some v \<Rightarrow> v) of
           Inl e \<Rightarrow> Inl e
         | Inr username \<Rightarrow> map_sum id (\<lambda>cs. (did, username) # cs) (consented_users isIso platform rest)))"

text \<open>
  The member lookup of an adapter: in bulk, with one answer per requested name, or one name at a time.
\<close>

datatype member_search =
    Bulk "string list \<Rightarrow> (string \<times> string option) list"
  | Single "string \<Rightarrow> string option"

definition resolveAccountIds :: "member_search \<Rightarrow> (string \<times> string option) list \<Rightarrow> (string \<times> string option) list" where
  "resolveAccountIds search consented =
     (let usernames = js_dedup (List.map_filter snd consented)
      in case search of
           Bulk searchMemberIds \<Rightarrow> searchMemberIds usernames
         | Single searchMemberId \<Rightarrow> foldl (\<lambda>m u. AList.update u (searchMemberId u) m) [] usernames)"

definition cohort_row :: "(string \<times> string option) list \<Rightarrow> string \<times> string option \<Rightarrow> CommunityCohortRow" where
  "cohort_row accountIdByUsername = (\<lambda>(did, username).
     (let accountId = (case username of None \<Rightarrow> None | Some u \<Rightarrow> (case map_of accountIdByUsername u of None \<Rightarrow> None | Some a \<Rightarrow> a))
      in \<lparr>co_did = did, co_username = username, co_accountId = accountId,
          co_status = (if accountId = None then unmatched else matched)\<rparr>))"

definition buildCommunityCohort ::
  "(string \<Rightarrow> bool) \<Rightarrow> (string \<Rightarrow> string \<Rightarrow> bool) \<Rightarrow> string \<Rightarrow> member_search \<Rightarrow> UsersPage list \<Rightarrow> string + CommunityCohortRow list" where
  "buildCommunityCohort isIso localeLe platform search pages =
     map_sum id (\<lambda>consented.
         (let sorted = sort_by (\<lambda>a b. localeLe (fst a) (fst b)) consented
          in map (cohort_row (resolveAccountIds search sorted)) sorted))
       (consented_users isIso platform (concat pages))"

section \<open>Weights\<close>

record ActivityWeight =
  aw_points :: jsnum
  aw_dailyCap :: int

record active_day =
  adc_type :: string
  adc_sourceTypes :: "string list"

record CommunityEngagementConfig =
  ce_platform :: string
  ce_algorithmKey :: string
  ce_activityTypes :: "string list"
  ce_activeDay :: "active_day option"

datatype engagement_error =
    MissingActivities
  | RowNotObject
  | UnknownActivity json
  | RepeatedActivity string
  | BadPoints string
  | BadDailyCap string
  | NotCommitted
  | NoFile string
  | ObjectNotFound string
  | FailedHash string
  | Unreadable string

fun weight_points :: "json \<Rightarrow> jsnum option" where
  "weight_points (JNum (Fin x)) = (if 0 < x then Some (Fin x) else None)"
| "weight_points _ = None"

fun weight_cap :: "json \<Rightarrow> int option" where
  "weight_cap (JNum (Fin x)) = (if of_int \<lfloor>x\<rfloor> = x \<and> 1 \<le> x then Some \<lfloor>x\<rfloor> else None)"
| "weight_cap _ = None"

text \<open>\<^verbatim>\<open>typeof row === 'object'\<close> and not \<^verbatim>\<open>null\<close>, so also an array.\<close>

fun is_object :: "json \<Rightarrow> bool" where
  "is_object (JObj _) \<longleftrightarrow> True"
| "is_object (JArr _) \<longleftrightarrow> True"
| "is_object _ \<longleftrightarrow> False"

definition activity_row :: "string list \<Rightarrow> (string \<times> ActivityWeight) list \<Rightarrow> json \<Rightarrow> engagement_error + (string \<times> ActivityWeight)" where
  "activity_row activityTypes byType row =
     (if \<not> is_object row then Inl RowNotObject
      else
        (case jfield ''activity'' row of
           JStr activity \<Rightarrow>
             if activity \<notin> set activityTypes then Inl (UnknownActivity (JStr activity))
             else if map_of byType activity \<noteq> None then Inl (RepeatedActivity activity)
             else
               (case weight_points (jfield ''points'' row) of
                  None \<Rightarrow> Inl (BadPoints activity)
                | Some points \<Rightarrow>
                    (case weight_cap (jfield ''daily_cap'' row) of
                       None \<Rightarrow> Inl (BadDailyCap activity)
                     | Some dailyCap \<Rightarrow> Inr (activity, \<lparr>aw_points = points, aw_dailyCap = dailyCap\<rparr>)))
         | v \<Rightarrow> Inl (UnknownActivity v)))"

fun activity_rows :: "string list \<Rightarrow> json list \<Rightarrow> (string \<times> ActivityWeight) list \<Rightarrow> engagement_error + (string \<times> ActivityWeight) list" where
  "activity_rows activityTypes [] byType = Inr byType"
| "activity_rows activityTypes (row # rows) byType =
     (case activity_row activityTypes byType row of
        Inl e \<Rightarrow> Inl e
      | Inr (activity, w) \<Rightarrow> activity_rows activityTypes rows (byType @ [(activity, w)]))"

definition order_weights :: "string list \<Rightarrow> (string \<times> ActivityWeight) list \<Rightarrow> (string \<times> ActivityWeight) list" where
  "order_weights activityTypes byType =
     List.map_filter (\<lambda>type. map_option (Pair type) (map_of byType type)) activityTypes"

definition extractActivityWeights :: "AlgorithmPresetInput list \<Rightarrow> string list \<Rightarrow> engagement_error + (string \<times> ActivityWeight) list" where
  "extractActivityWeights inputs activityTypes =
     (case input_value ''activities'' inputs of
        JArr rows \<Rightarrow>
          if rows = [] then Inl MissingActivities
          else map_sum id (order_weights activityTypes) (activity_rows activityTypes rows [])
      | _ \<Rightarrow> Inl MissingActivities)"

section \<open>Download\<close>

record LocalCommunityDataset =
  ld_manifest :: CommunityDatasetManifest
  ld_activities :: "CommunityActivityRecord list"
  ld_cohort :: "CommunityCohortRow list"
  ld_coverage :: "CommunityResourceCoverage list"

definition dataset_filenames :: "string list" where
  "dataset_filenames = [COMMUNITY_ACTIVITIES_FILENAME, COMMUNITY_COHORT_FILENAME, COMMUNITY_COVERAGE_FILENAME]"

fun download_files ::
  "(s3_object \<Rightarrow> string) \<Rightarrow> s3_store \<Rightarrow> string \<Rightarrow> string \<Rightarrow> (string \<times> file_meta) list \<Rightarrow> string list \<Rightarrow> engagement_error + s3_object list" where
  "download_files sha store snapshotId platform files [] = Inr []"
| "download_files sha store snapshotId platform files (f # fs) =
     (case store (getCommunityDatasetKey snapshotId platform f) of
        None \<Rightarrow> Inl (ObjectNotFound f)
      | Some body \<Rightarrow>
          if Some (sha body) \<noteq> map_option fm_sha256 (map_of files f) then Inl (FailedHash f)
          else map_sum id (\<lambda>bs. body # bs) (download_files sha store snapshotId platform files fs))"

definition downloadCommunityDataset ::
  "(s3_object \<Rightarrow> string) \<Rightarrow> s3_store \<Rightarrow> string \<Rightarrow> string \<Rightarrow> engagement_error + LocalCommunityDataset" where
  "downloadCommunityDataset sha store snapshotId platform =
     (case store (getCommunityDatasetKey snapshotId platform COMMUNITY_MANIFEST_FILENAME) of
        None \<Rightarrow> Inl NotCommitted
      | Some (ManifestFile manifest) \<Rightarrow>
          (case List.find (\<lambda>f. map_of (mf_files manifest) f = None) dataset_filenames of
             Some f \<Rightarrow> Inl (NoFile f)
           | None \<Rightarrow>
               (case download_files sha store snapshotId platform (mf_files manifest) dataset_filenames of
                  Inl e \<Rightarrow> Inl e
                | Inr [ActivitiesFile a, CohortFile c, CoverageFile v] \<Rightarrow>
                    Inr \<lparr>ld_manifest = manifest, ld_activities = a, ld_cohort = c, ld_coverage = v\<rparr>
                | Inr _ \<Rightarrow> Inl (Unreadable platform)))
      | Some _ \<Rightarrow> Inl (Unreadable COMMUNITY_MANIFEST_FILENAME))"

section \<open>Aggregation\<close>

record ActivityUnitTotals =
  ut_units :: jsnum
  ut_cappedUnits :: jsnum

definition utc_day :: "int \<Rightarrow> int" where
  "utc_day t = t div DAY_MS"

text \<open>The join of activities and cohort; a missing account id joins nothing.\<close>

definition joined_rows :: "CommunityCohortRow list \<Rightarrow> CommunityActivityRecord list \<Rightarrow> ((string \<times> string \<times> int) \<times> int) list" where
  "joined_rows cohort activities =
     [((co_did c, ca_type a, utc_day (ca_occurredAt a)), ca_count a).
        a \<leftarrow> activities, c \<leftarrow> cohort, co_accountId c = Some (ca_actor a) \<and> \<not> ca_actorIsBot a]"

definition group_sum :: "('k \<times> int) list \<Rightarrow> 'k \<Rightarrow> int" where
  "group_sum rows k = sum_list (map snd (filter (\<lambda>r. fst r = k) rows))"

definition day_units :: "CommunityCohortRow list \<Rightarrow> CommunityActivityRecord list \<Rightarrow> ((string \<times> string \<times> int) \<times> int) list" where
  "day_units cohort activities =
     (let rows = joined_rows cohort activities in map (\<lambda>k. (k, group_sum rows k)) (remdups (map fst rows)))"

definition unit_totals :: "int \<Rightarrow> int \<Rightarrow> ActivityUnitTotals" where
  "unit_totals units capped = \<lparr>ut_units = to_double (of_int units), ut_cappedUnits = to_double (of_int capped)\<rparr>"

type_synonym total_row = "(string \<times> string) \<times> ActivityUnitTotals"

definition capped_rows ::
  "(string \<times> ActivityWeight) list \<Rightarrow> ((string \<times> string \<times> int) \<times> int) list \<Rightarrow> ((string \<times> string) \<times> int \<times> int) list" where
  "capped_rows caps units =
     [((did, type), u, min u (aw_dailyCap w)). ((did, type, day), u) \<leftarrow> units, (t, w) \<leftarrow> caps, t = type]"

definition regular_totals :: "(string \<times> ActivityWeight) list \<Rightarrow> ((string \<times> string \<times> int) \<times> int) list \<Rightarrow> total_row list" where
  "regular_totals caps units =
     (let rows = capped_rows caps units
      in map (\<lambda>k. (k, unit_totals (group_sum (map (\<lambda>(k', u, c). (k', u)) rows) k) (group_sum (map (\<lambda>(k', u, c). (k', c)) rows) k)))
           (remdups (map fst rows)))"

definition active_day_totals :: "active_day \<Rightarrow> ActivityWeight \<Rightarrow> ((string \<times> string \<times> int) \<times> int) list \<Rightarrow> total_row list" where
  "active_day_totals activeDay weight units =
     (let days = remdups [(did, day). ((did, type, day), u) \<leftarrow> units, type \<in> set (adc_sourceTypes activeDay)]
      in map (\<lambda>did. (let n = int (length (filter (\<lambda>d. fst d = did) days))
                     in ((did, adc_type activeDay), unit_totals n (min n (aw_dailyCap weight)))))
           (remdups (map fst days)))"

definition regular_weights :: "(string \<times> ActivityWeight) list \<Rightarrow> active_day option \<Rightarrow> (string \<times> ActivityWeight) list" where
  "regular_weights weights activeDay = filter (\<lambda>(t, w). map_option adc_type activeDay \<noteq> Some t) weights"

text \<open>The rows of the query in their order, read into the map of maps: a later row would replace an earlier one.\<close>

definition total_rows ::
  "(string \<times> ActivityWeight) list \<Rightarrow> active_day option \<Rightarrow> CommunityCohortRow list \<Rightarrow> CommunityActivityRecord list \<Rightarrow> total_row list" where
  "total_rows weights activeDay cohort activities =
     (let units = day_units cohort activities
      in sort_key fst (regular_totals (regular_weights weights activeDay) units @
           (case activeDay of
              None \<Rightarrow> []
            | Some ad \<Rightarrow> (case map_of weights (adc_type ad) of None \<Rightarrow> [] | Some w \<Rightarrow> active_day_totals ad w units))))"

definition totals_of :: "total_row list \<Rightarrow> string \<Rightarrow> string \<Rightarrow> ActivityUnitTotals option" where
  "totals_of rows did type = map_of (rev rows) (did, type)"

record CommunityAggregationResult =
  ar_cohort :: "CommunityCohortRow list"
  ar_coverage :: "CommunityResourceCoverage list"
  ar_totals :: "total_row list"

definition aggregateCommunityActivity ::
  "LocalCommunityDataset \<Rightarrow> (string \<times> ActivityWeight) list \<Rightarrow> active_day option \<Rightarrow> CommunityAggregationResult" where
  "aggregateCommunityActivity dataset weights activeDay =
     \<lparr>ar_cohort = sort_key co_did (ld_cohort dataset), ar_coverage = sort_key rcov_resource (ld_coverage dataset),
      ar_totals = total_rows weights activeDay (ld_cohort dataset) (ld_activities dataset)\<rparr>"

section \<open>Scores\<close>

definition POINTS_PRECISION :: jsnum where "POINTS_PRECISION = jint 1000000"

definition roundPoints :: "jsnum \<Rightarrow> jsnum" where
  "roundPoints v = jdiv (jround (jmul v POINTS_PRECISION)) POINTS_PRECISION"

record activity_detail =
  ad_units :: jsnum
  ad_capped_units :: jsnum
  ad_points :: jsnum

record CommunityEngagementUserDetails =
  ud_did :: string
  ud_status :: cohort_status
  ud_username :: "string option"
  ud_account_id :: "string option"
  ud_score :: jsnum
  ud_activities :: "(string \<times> activity_detail) list"

record engagement_csv_record =
  er_did :: string
  er_score :: jsnum
  er_points :: "(string \<times> jsnum) list"

definition activity_of :: "ActivityWeight option \<Rightarrow> ActivityUnitTotals option \<Rightarrow> activity_detail" where
  "activity_of weight unit =
     \<lparr>ad_units = (case unit of None \<Rightarrow> Fin 0 | Some u \<Rightarrow> ut_units u),
      ad_capped_units = (case unit of None \<Rightarrow> Fin 0 | Some u \<Rightarrow> ut_cappedUnits u),
      ad_points = (case weight of
                     None \<Rightarrow> Fin 0
                   | Some w \<Rightarrow> (case unit of None \<Rightarrow> Fin 0 | Some u \<Rightarrow> roundPoints (jmul (ut_cappedUnits u) (aw_points w))))\<rparr>"

definition member_activities ::
  "string list \<Rightarrow> (string \<times> ActivityWeight) list \<Rightarrow> (string \<Rightarrow> ActivityUnitTotals option) \<Rightarrow> (string \<times> activity_detail) list" where
  "member_activities activityTypes weights byType = map (\<lambda>type. (type, activity_of (map_of weights type) (byType type))) activityTypes"

definition member_score :: "(string \<times> activity_detail) list \<Rightarrow> jsnum" where
  "member_score activities = roundPoints (foldl jadd (Fin 0) (map (ad_points \<circ> snd) activities))"

definition member_units :: "(string \<times> activity_detail) list \<Rightarrow> jsnum" where
  "member_units activities = foldl jadd (Fin 0) (map (ad_units \<circ> snd) activities)"

definition user_details ::
  "string list \<Rightarrow> (string \<times> ActivityWeight) list \<Rightarrow> total_row list \<Rightarrow> CommunityCohortRow \<Rightarrow> CommunityEngagementUserDetails" where
  "user_details activityTypes weights totals member =
     (let activities = member_activities activityTypes weights (totals_of totals (co_did member))
      in \<lparr>ud_did = co_did member, ud_status = co_status member, ud_username = co_username member, ud_account_id = co_accountId member,
          ud_score = member_score activities, ud_activities = activities\<rparr>)"

definition csv_record :: "CommunityEngagementUserDetails \<Rightarrow> engagement_csv_record" where
  "csv_record u = \<lparr>er_did = ud_did u, er_score = ud_score u, er_points = map (\<lambda>(t, a). (t, ad_points a)) (ud_activities u)\<rparr>"

record CommunityEngagementDetails =
  cd_users :: "CommunityEngagementUserDetails list"
  cd_snapshot_id :: string
  cd_platform :: string
  cd_window :: CommunityFetchWindow
  cd_consented :: nat
  cd_matched :: nat
  cd_unmatched :: nat
  cd_active :: nat
  cd_inactive :: int
  cd_coverage :: "CommunityResourceCoverage list"
  cd_activities :: "(string \<times> ActivityWeight) list"

datatype engagement_object = EngagementCsv "engagement_csv_record list" | EngagementDetails CommunityEngagementDetails

definition engagement_details ::
  "CommunityEngagementConfig \<Rightarrow> string \<Rightarrow> CommunityFetchWindow \<Rightarrow> (string \<times> ActivityWeight) list \<Rightarrow> CommunityAggregationResult
    \<Rightarrow> CommunityEngagementDetails" where
  "engagement_details cfg snapshotId window weights agg =
     (let users = map (user_details (ce_activityTypes cfg) weights (ar_totals agg)) (ar_cohort agg);
          active = length (filter (\<lambda>u. jless (Fin 0) (member_units (ud_activities u))) users);
          matchedCount = length (filter (\<lambda>m. co_status m = matched) (ar_cohort agg))
      in \<lparr>cd_users = users, cd_snapshot_id = snapshotId, cd_platform = ce_platform cfg, cd_window = window,
          cd_consented = length (ar_cohort agg), cd_matched = matchedCount,
          cd_unmatched = length (filter (\<lambda>m. co_status m \<noteq> matched) (ar_cohort agg)),
          cd_active = active, cd_inactive = int (length (ar_cohort agg)) - int active,
          cd_coverage = ar_coverage agg, cd_activities = weights\<rparr>)"

text \<open>The result: the two uploads, in order.\<close>

definition computeCommunityEngagement ::
  "CommunityEngagementConfig \<Rightarrow> (s3_object \<Rightarrow> string) \<Rightarrow> string \<Rightarrow> AlgorithmPresetInput list \<Rightarrow> s3_store
    \<Rightarrow> engagement_error + (string \<times> engagement_object) list" where
  "computeCommunityEngagement cfg sha snapshotId inputs store =
     (case extractActivityWeights inputs (ce_activityTypes cfg) of
        Inl e \<Rightarrow> Inl e
      | Inr weights \<Rightarrow>
          (case downloadCommunityDataset sha store snapshotId (ce_platform cfg) of
             Inl e \<Rightarrow> Inl e
           | Inr dataset \<Rightarrow>
               (let details = engagement_details cfg snapshotId (mf_window (ld_manifest dataset)) weights
                      (aggregateCommunityActivity dataset weights (ce_activeDay cfg))
                in Inr [(generateKey snapshot snapshotId (ce_algorithmKey cfg @ ''.csv''), EngagementCsv (map csv_record (cd_users details))),
                        (generateKey snapshot snapshotId (ce_algorithmKey cfg @ ''_details.json''), EngagementDetails details)])))"

definition discord_config :: CommunityEngagementConfig where
  "discord_config = \<lparr>ce_platform = ''discord'', ce_algorithmKey = ''discord_engagement'',
     ce_activityTypes = [''message'', ''reply'', ''reaction_received'', ''reply_received'', ''mention_received'', ''active_day''],
     ce_activeDay = Some \<lparr>adc_type = ''active_day'', adc_sourceTypes = [''message'', ''reply'']\<rparr>\<rparr>"

definition github_config :: CommunityEngagementConfig where
  "github_config = \<lparr>ce_platform = ''github'', ce_algorithmKey = ''github_engagement'',
     ce_activityTypes = [''pull_request_opened'', ''pull_request_merged'', ''pull_request_review'', ''issue_opened'', ''comment''],
     ce_activeDay = None\<rparr>"

definition mattermost_config :: CommunityEngagementConfig where
  "mattermost_config = \<lparr>ce_platform = ''mattermost'', ce_algorithmKey = ''mattermost_engagement'',
     ce_activityTypes = [''message'', ''reply'', ''reaction_received'', ''reply_received'', ''active_day''],
     ce_activeDay = Some \<lparr>adc_type = ''active_day'', adc_sourceTypes = [''message'', ''reply'']\<rparr>\<rparr>"

section \<open>What a member is credited with\<close>

text \<open>The credited rows of one member, and the totals of an activity read off them directly.\<close>

definition member_rows :: "CommunityCohortRow \<Rightarrow> CommunityActivityRecord list \<Rightarrow> CommunityActivityRecord list" where
  "member_rows m activities = filter (\<lambda>a. co_accountId m = Some (ca_actor a) \<and> \<not> ca_actorIsBot a) activities"

definition rows_days :: "CommunityActivityRecord list \<Rightarrow> int list" where
  "rows_days rows = remdups (map (\<lambda>a. utc_day (ca_occurredAt a)) rows)"

definition units_on :: "CommunityActivityRecord list \<Rightarrow> int \<Rightarrow> int" where
  "units_on rows day = sum_list (map ca_count (filter (\<lambda>a. utc_day (ca_occurredAt a) = day) rows))"

definition day_totals :: "CommunityActivityRecord list \<Rightarrow> int \<Rightarrow> ActivityUnitTotals option" where
  "day_totals rows cap =
     (if rows = [] then None
      else Some (unit_totals (sum_list (map (units_on rows) (rows_days rows))) (sum_list (map (\<lambda>d. min (units_on rows d) cap) (rows_days rows)))))"

definition days_totals :: "CommunityActivityRecord list \<Rightarrow> int \<Rightarrow> ActivityUnitTotals option" where
  "days_totals rows cap =
     (if rows = [] then None else (let n = int (length (rows_days rows)) in Some (unit_totals n (min n cap))))"

definition member_totals ::
  "(string \<times> ActivityWeight) list \<Rightarrow> active_day option \<Rightarrow> CommunityActivityRecord list \<Rightarrow> string \<Rightarrow> ActivityUnitTotals option" where
  "member_totals weights activeDay rows type =
     (case map_of weights type of
        None \<Rightarrow> None
      | Some w \<Rightarrow>
          (case activeDay of
             Some ad \<Rightarrow>
               if adc_type ad = type then days_totals (filter (\<lambda>a. ca_type a \<in> set (adc_sourceTypes ad)) rows) (aw_dailyCap w)
               else day_totals (filter (\<lambda>a. ca_type a = type) rows) (aw_dailyCap w)
           | None \<Rightarrow> day_totals (filter (\<lambda>a. ca_type a = type) rows) (aw_dailyCap w)))"

section \<open>The queries compute the totals of each member\<close>

lemma distinct_rows_days [simp]: "distinct (rows_days rows)"
  by (simp add: rows_days_def)

lemma remdups_map_inj: "inj f \<Longrightarrow> remdups (map f xs) = map f (remdups xs)"
  by (induction xs) (auto simp: inj_image_mem_iff)

lemma map_of_tabulate: "map_of (map (\<lambda>k. (k, f k)) ks) k = (if k \<in> set ks then Some (f k) else None)"
  by (induction ks) auto

lemma concat_map_if: "concat (map (\<lambda>c. if P c then [f c] else []) xs) = map f (filter P xs)"
  by (induction xs) simp_all

lemma filter_unique_conj:
  assumes "distinct (map f xs)" "x \<in> set xs"
  shows "filter (\<lambda>y. f y = f x \<and> P y) xs = (if P x then [x] else [])"
  using filter_filter[of P "\<lambda>y. f y = f x" xs] filter_unique[OF assms] by (cases "P x") simp_all

lemma joined_of_member:
  assumes "distinct (map co_did cohort)" "m \<in> set cohort"
  shows "filter (\<lambda>r. fst (fst r) = co_did m) (joined_rows cohort activities)
    = map (\<lambda>a. ((co_did m, ca_type a, utc_day (ca_occurredAt a)), ca_count a)) (member_rows m activities)"
proof (induction activities)
  case (Cons a acts)
  have "filter (\<lambda>c. co_did c = co_did m \<and> co_accountId c = Some (ca_actor a) \<and> \<not> ca_actorIsBot a) cohort
    = (if co_accountId m = Some (ca_actor a) \<and> \<not> ca_actorIsBot a then [m] else [])"
    by (rule filter_unique_conj[OF assms])
  then have "filter (\<lambda>r. fst (fst r) = co_did m)
      (concat (map (\<lambda>c. if co_accountId c = Some (ca_actor a) \<and> \<not> ca_actorIsBot a
        then [((co_did c, ca_type a, utc_day (ca_occurredAt a)), ca_count a)] else []) cohort))
    = (if co_accountId m = Some (ca_actor a) \<and> \<not> ca_actorIsBot a
       then [((co_did m, ca_type a, utc_day (ca_occurredAt a)), ca_count a)] else [])"
    by (simp add: concat_map_if filter_map comp_def conj_commute)
  then show ?case using Cons by (simp add: joined_rows_def member_rows_def)
qed (simp add: joined_rows_def member_rows_def)

lemma filter_joined_type:
  assumes "distinct (map co_did cohort)" "m \<in> set cohort"
  shows "filter (\<lambda>r. fst (fst r) = co_did m \<and> fst (snd (fst r)) = t) (joined_rows cohort activities)
    = map (\<lambda>a. ((co_did m, t, utc_day (ca_occurredAt a)), ca_count a)) (filter (\<lambda>a. ca_type a = t) (member_rows m activities))"
proof -
  have "filter (\<lambda>r. fst (fst r) = co_did m \<and> fst (snd (fst r)) = t) (joined_rows cohort activities)
    = filter (\<lambda>r. fst (snd (fst r)) = t) (filter (\<lambda>r. fst (fst r) = co_did m) (joined_rows cohort activities))" by simp
  then show ?thesis unfolding joined_of_member[OF assms] by (auto simp: filter_map comp_def intro!: map_cong)
qed

lemma group_sum_member:
  assumes "distinct (map co_did cohort)" "m \<in> set cohort"
  shows "group_sum (joined_rows cohort activities) (co_did m, t, d) = units_on (filter (\<lambda>a. ca_type a = t) (member_rows m activities)) d"
proof -
  have "filter (\<lambda>r. fst r = (co_did m, t, d)) (joined_rows cohort activities)
    = filter (\<lambda>r. snd (snd (fst r)) = d) (filter (\<lambda>r. fst (fst r) = co_did m \<and> fst (snd (fst r)) = t) (joined_rows cohort activities))"
    by (auto intro!: filter_cong)
  then show ?thesis unfolding filter_joined_type[OF assms] by (simp add: group_sum_def units_on_def filter_map comp_def)
qed

text \<open>The day units of one member and one type.\<close>

lemma day_units_member:
  assumes "distinct (map co_did cohort)" "m \<in> set cohort"
  shows "filter (\<lambda>r. fst (fst r) = co_did m \<and> fst (snd (fst r)) = t) (day_units cohort activities)
    = map (\<lambda>d. ((co_did m, t, d), units_on (filter (\<lambda>a. ca_type a = t) (member_rows m activities)) d))
        (rows_days (filter (\<lambda>a. ca_type a = t) (member_rows m activities)))"
proof -
  let ?R = "filter (\<lambda>a. ca_type a = t) (member_rows m activities)"
  have "filter (\<lambda>k. fst k = co_did m \<and> fst (snd k) = t) (map fst (joined_rows cohort activities)) = map (\<lambda>a. (co_did m, t, utc_day (ca_occurredAt a))) ?R"
    using filter_joined_type[OF assms, of t activities] by (simp add: filter_map comp_def)
  then have "filter (\<lambda>k. fst k = co_did m \<and> fst (snd k) = t) (remdups (map fst (joined_rows cohort activities)))
    = remdups (map (\<lambda>d. (co_did m, t, d)) (map (\<lambda>a. utc_day (ca_occurredAt a)) ?R))"
    by (simp add: remdups_filter[symmetric] comp_def)
  also have "\<dots> = map (\<lambda>d. (co_did m, t, d)) (rows_days ?R)" unfolding rows_days_def by (rule remdups_map_inj) (simp add: inj_def)
  finally show ?thesis by (simp add: day_units_def Let_def filter_map comp_def group_sum_member[OF assms])
qed

lemma caps_lookup:
  "distinct (map fst caps) \<Longrightarrow>
   concat (map (\<lambda>(t', w). if t' = t then [f w] else []) caps) = (case map_of caps t of None \<Rightarrow> [] | Some w \<Rightarrow> [f w])"
proof (induction caps)
  case (Cons c cs)
  obtain t' w where c: "c = (t', w)" by fastforce
  show ?case
  proof (cases "t' = t")
    case True
    then have "map_of cs t = None" using Cons.prems c by (simp add: map_of_eq_None_iff)
    then show ?thesis using Cons c True by simp
  qed (use Cons c in simp)
qed simp

lemma capped_rows_of:
  assumes "distinct (map fst caps)"
  shows "filter (\<lambda>r. fst r = (did, t)) (capped_rows caps units)
    = (case map_of caps t of
         None \<Rightarrow> []
       | Some w \<Rightarrow> map (\<lambda>r. ((did, t), snd r, min (snd r) (aw_dailyCap w))) (filter (\<lambda>r. fst (fst r) = did \<and> fst (snd (fst r)) = t) units))"
proof (induction units)
  case (Cons r units)
  obtain d t' day u where r: "r = ((d, t', day), u)" by (metis prod_cases3 surj_pair)
  show ?case using Cons caps_lookup[OF assms, of t' "\<lambda>w. ((d, t'), u, min u (aw_dailyCap w))"]
    by (auto simp: capped_rows_def r split: option.splits)
qed (simp add: capped_rows_def split: option.split)

lemma group_sum_map: "group_sum (map (\<lambda>r. (fst r, f (snd r))) rows) k = sum_list (map (f \<circ> snd) (filter (\<lambda>r. fst r = k) rows))"
  by (simp add: group_sum_def filter_map comp_def)

lemma regular_totals_member:
  assumes "distinct (map co_did cohort)" "m \<in> set cohort" "distinct (map fst caps)"
  shows "map_of (regular_totals caps (day_units cohort activities)) (co_did m, t)
    = (case map_of caps t of None \<Rightarrow> None | Some w \<Rightarrow> day_totals (filter (\<lambda>a. ca_type a = t) (member_rows m activities)) (aw_dailyCap w))"
proof -
  let ?R = "filter (\<lambda>a. ca_type a = t) (member_rows m activities)"
  let ?rows = "capped_rows caps (day_units cohort activities)"
  have f: "filter (\<lambda>r. fst r = (co_did m, t)) ?rows
    = (case map_of caps t of None \<Rightarrow> []
       | Some w \<Rightarrow> map (\<lambda>d. ((co_did m, t), units_on ?R d, min (units_on ?R d) (aw_dailyCap w))) (rows_days ?R))"
    unfolding capped_rows_of[OF assms(3)] day_units_member[OF assms(1,2)] by (simp add: comp_def split: option.split)
  have "(co_did m, t) \<in> fst ` set ?rows \<longleftrightarrow> filter (\<lambda>r. fst r = (co_did m, t)) ?rows \<noteq> []" unfolding filter_empty_conv by force
  also have "\<dots> \<longleftrightarrow> map_of caps t \<noteq> None \<and> ?R \<noteq> []" unfolding f by (auto simp: rows_days_def split: option.split)
  finally have i: "(co_did m, t) \<in> fst ` set ?rows \<longleftrightarrow> map_of caps t \<noteq> None \<and> ?R \<noteq> []" .
  have g: "map (\<lambda>(k', u, c). (k', u)) ?rows = map (\<lambda>r. (fst r, fst (snd r))) ?rows"
    "map (\<lambda>(k', u, c). (k', c)) ?rows = map (\<lambda>r. (fst r, snd (snd r))) ?rows" by auto
  show ?thesis unfolding regular_totals_def Let_def map_of_tabulate g group_sum_map f
    using i by (auto simp: comp_def day_totals_def split: option.split)
qed

lemma active_days_member:
  assumes "distinct (map co_did cohort)" "m \<in> set cohort"
  shows "set (filter (\<lambda>d. fst d = co_did m) (remdups [(did, day). ((did, type, day), u) \<leftarrow> day_units cohort activities, type \<in> S]))
    = Pair (co_did m) ` set (rows_days (filter (\<lambda>a. ca_type a \<in> S) (member_rows m activities)))"
proof -
  have "(co_did m, t, day) \<in> fst ` set (day_units cohort activities)
      \<longleftrightarrow> (\<exists>a \<in> set (member_rows m activities). ca_type a = t \<and> utc_day (ca_occurredAt a) = day)" for t day
  proof -
    have "(co_did m, t, day) \<in> fst ` set (day_units cohort activities)
      \<longleftrightarrow> (co_did m, t, day) \<in> fst ` set (filter (\<lambda>r. fst (fst r) = co_did m \<and> fst (snd (fst r)) = t) (day_units cohort activities))"
      by force
    also have "\<dots> \<longleftrightarrow> (\<exists>a \<in> set (member_rows m activities). ca_type a = t \<and> utc_day (ca_occurredAt a) = day)"
      unfolding day_units_member[OF assms] by (auto simp: rows_days_def image_iff)
    finally show ?thesis .
  qed
  then have e: "(\<exists>v. ((co_did m, t, day), v) \<in> set (day_units cohort activities))
      \<longleftrightarrow> (\<exists>a \<in> set (member_rows m activities). ca_type a = t \<and> utc_day (ca_occurredAt a) = day)" for t day by (force simp: image_iff)
  have "set (filter (\<lambda>d. fst d = co_did m) (remdups [(did, day). ((did, type, day), u) \<leftarrow> day_units cohort activities, type \<in> S]))
    = {(co_did m, day) | day. \<exists>t \<in> S. \<exists>v. ((co_did m, t, day), v) \<in> set (day_units cohort activities)}" by force
  also have "\<dots> = Pair (co_did m) ` set (rows_days (filter (\<lambda>a. ca_type a \<in> S) (member_rows m activities)))"
    unfolding e by (auto simp: rows_days_def image_iff)
  finally show ?thesis .
qed

lemma active_day_totals_member:
  assumes "distinct (map co_did cohort)" "m \<in> set cohort"
  shows "map_of (active_day_totals ad w (day_units cohort activities)) (co_did m, t)
    = (if t = adc_type ad then days_totals (filter (\<lambda>a. ca_type a \<in> set (adc_sourceTypes ad)) (member_rows m activities)) (aw_dailyCap w) else None)"
proof -
  let ?D = "remdups [(did, day). ((did, type, day), u) \<leftarrow> day_units cohort activities, type \<in> set (adc_sourceTypes ad)]"
  let ?R = "filter (\<lambda>a. ca_type a \<in> set (adc_sourceTypes ad)) (member_rows m activities)"
  have s: "set (filter (\<lambda>d. fst d = co_did m) ?D) = Pair (co_did m) ` set (rows_days ?R)" by (rule active_days_member[OF assms])
  have "length (filter (\<lambda>d. fst d = co_did m) ?D) = card (set (filter (\<lambda>d. fst d = co_did m) ?D))"
    by (rule distinct_card[symmetric]) (intro distinct_filter distinct_remdups)
  also have "\<dots> = length (rows_days ?R)" unfolding s by (simp add: card_image inj_on_def distinct_card del: set_filter)
  finally have l: "length (filter (\<lambda>d. fst d = co_did m) ?D) = length (rows_days ?R)" .
  have "co_did m \<in> fst ` set ?D \<longleftrightarrow> set (filter (\<lambda>d. fst d = co_did m) ?D) \<noteq> {}" by force
  then have i: "co_did m \<in> set (remdups (map fst ?D)) \<longleftrightarrow> ?R \<noteq> []" unfolding s by (simp add: rows_days_def del: set_filter)
  have "map_of (map (\<lambda>did. ((did, x), f did)) ks) (k, t) = (if t = x \<and> k \<in> set ks then Some (f k) else None)"
    for x :: string and f :: "string \<Rightarrow> ActivityUnitTotals" and ks k by (induction ks) auto
  then show ?thesis unfolding active_day_totals_def Let_def using i l by (simp add: days_totals_def Let_def)
qed

lemma distinct_regular_totals: "distinct (map fst (regular_totals caps units))"
  by (simp add: regular_totals_def Let_def comp_def)

lemma fst_regular_totals: "(did, t) \<in> fst ` set (regular_totals caps units) \<Longrightarrow> t \<in> fst ` set caps"
  by (force simp: regular_totals_def Let_def capped_rows_def)

lemma distinct_active_day_totals: "distinct (map fst (active_day_totals ad w units))"
  by (auto simp: active_day_totals_def Let_def comp_def distinct_map intro!: inj_onI)

lemma totals_of_distinct:
  assumes "distinct (map fst rows)"
  shows "totals_of (sort_key fst rows) did t = map_of rows (did, t)"
proof -
  have d: "distinct (map fst (rev (sort_key fst rows)))"
    using assms by (simp add: distinct_map)
  have "map_of (rev (sort_key fst rows)) = map_of rows" unfolding map_of_inject_set[OF d assms] by simp
  then show ?thesis by (simp add: totals_of_def)
qed

lemma regular_weights_lookup:
  "map_of (regular_weights weights activeDay) t = (if map_option adc_type activeDay = Some t then None else map_of weights t)"
  by (induction weights) (auto simp: regular_weights_def)

text \<open>
  For a cohort without repeated identifiers, the totals that the queries give a member and an activity are
  those read off the rows of that member's account alone: the sum over its days of the units of the day, each
  day at most the daily cap, or for the derived activity the number of its active days, at most the cap.
  No row of a bot and no row of another account counts.
\<close>

lemma query_totals_are_member_totals:
  assumes "distinct (map co_did cohort)" "m \<in> set cohort" "distinct (map fst weights)"
  shows "totals_of (total_rows weights activeDay cohort activities) (co_did m) type
    = member_totals weights activeDay (member_rows m activities) type"
proof -
  let ?reg = "regular_totals (regular_weights weights activeDay) (day_units cohort activities)"
  let ?act = "case activeDay of None \<Rightarrow> [] | Some ad \<Rightarrow>
    (case map_of weights (adc_type ad) of None \<Rightarrow> [] | Some w \<Rightarrow> active_day_totals ad w (day_units cohort activities))"
  have dw: "distinct (map fst (regular_weights weights x))" for x using assms(3) by (simp add: regular_weights_def distinct_map_filter)
  have "fst ` set ?reg \<inter> fst ` set ?act = {}"
    using fst_regular_totals[of _ _ "regular_weights weights activeDay"]
    by (force simp: regular_weights_def active_day_totals_def Let_def split: option.splits)
  then have "distinct (map fst (?reg @ ?act))"
    using distinct_regular_totals distinct_active_day_totals by (auto split: option.split)
  then have "totals_of (total_rows weights activeDay cohort activities) (co_did m) type = map_of (?reg @ ?act) (co_did m, type)"
    unfolding total_rows_def Let_def by (rule totals_of_distinct)
  also have "\<dots> = member_totals weights activeDay (member_rows m activities) type"
  proof (cases activeDay)
    case None
    then show ?thesis by (simp add: regular_totals_member[OF assms(1,2) dw] regular_weights_lookup member_totals_def split: option.split)
  next
    case (Some ad)
    then show ?thesis
      by (cases "map_of weights (adc_type ad)"; cases "adc_type ad = type")
        (auto simp: regular_totals_member[OF assms(1,2) dw] active_day_totals_member[OF assms(1,2)] regular_weights_lookup
          member_totals_def map_add_def split: option.split)
  qed
  finally show ?thesis .
qed

section \<open>Weights are ordered and positive\<close>

lemma weight_points_pos: "weight_points v = Some p \<Longrightarrow> \<exists>x > 0. p = Fin x"
  by (cases v rule: weight_points.cases) (auto split: if_splits)

lemma weight_cap_pos: "weight_cap v = Some c \<Longrightarrow> 1 \<le> c"
  by (cases v rule: weight_cap.cases) (auto split: if_splits simp: le_floor_iff)

lemma activity_rowD:
  assumes "activity_row types byType row = Inr (activity, w)"
  shows "activity \<in> set types \<and> map_of byType activity = None \<and> 1 \<le> aw_dailyCap w \<and> (\<exists>x > 0. aw_points w = Fin x)"
proof (cases "jfield ''activity'' row")
  case (JStr s)
  show ?thesis
  proof (cases "is_object row \<and> s \<in> set types \<and> map_of byType s = None")
    case True
    then show ?thesis
      using assms JStr weight_points_pos[of "jfield ''points'' row"] weight_cap_pos[of "jfield ''daily_cap'' row"]
      by (cases "weight_points (jfield ''points'' row)"; cases "weight_cap (jfield ''daily_cap'' row)") (auto simp: activity_row_def)
  next
    case False
    then show ?thesis using assms JStr by (cases "is_object row"; cases "s \<in> set types") (simp_all add: activity_row_def)
  qed
qed (use assms in \<open>cases "is_object row"; simp add: activity_row_def\<close>)+

definition weights_ok :: "string list \<Rightarrow> (string \<times> ActivityWeight) list \<Rightarrow> bool" where
  "weights_ok types ws \<longleftrightarrow> distinct (map fst ws)
     \<and> (\<forall>(t, w) \<in> set ws. t \<in> set types \<and> 1 \<le> aw_dailyCap w \<and> (\<exists>x > 0. aw_points w = Fin x))"

lemma activity_rows_ok: "activity_rows types rows byType = Inr ws \<Longrightarrow> weights_ok types byType \<Longrightarrow> weights_ok types ws"
proof (induction rows arbitrary: byType)
  case (Cons row rows)
  then obtain a w where r: "activity_row types byType row = Inr (a, w)" "activity_rows types rows (byType @ [(a, w)]) = Inr ws"
    by (auto split: sum.splits prod.splits)
  have "weights_ok types (byType @ [(a, w)])"
    using activity_rowD[OF r(1)] Cons.prems(2) by (auto simp: weights_ok_def map_of_eq_None_iff)
  then show ?case using Cons.IH[OF r(2)] by simp
qed simp

lemma order_weights_ok:
  assumes "weights_ok types ws" "distinct types"
  shows "weights_ok types (order_weights types ws)"
proof -
  have m: "set (order_weights types ws) \<subseteq> set ws" by (auto simp: order_weights_def map_filter_def dest: map_of_SomeD)
  have "map fst (order_weights types ws) = filter (\<lambda>t. map_of ws t \<noteq> None) types"
    by (induction types) (auto simp: order_weights_def map_filter_def)
  then show ?thesis using assms m by (fastforce simp: weights_ok_def)
qed

lemma extractActivityWeights_ok:
  assumes "extractActivityWeights inputs types = Inr ws" "distinct types"
  shows "weights_ok types ws"
proof -
  obtain rows where v: "input_value ''activities'' inputs = JArr rows" "rows \<noteq> []"
    using assms(1) by (cases "input_value ''activities'' inputs") (simp_all add: extractActivityWeights_def split: if_splits)
  then obtain byType where r: "activity_rows types rows [] = Inr byType" "ws = order_weights types byType"
    using assms(1) by (cases "activity_rows types rows []") (simp_all add: extractActivityWeights_def)
  have "weights_ok types byType" by (rule activity_rows_ok[OF r(1)]) (simp add: weights_ok_def)
  then show ?thesis using order_weights_ok assms(2) r(2) by blast
qed

section \<open>Scoring a committed dataset\<close>

definition member_details ::
  "CommunityEngagementConfig \<Rightarrow> (string \<times> ActivityWeight) list \<Rightarrow> CommunityActivityRecord list \<Rightarrow> CommunityCohortRow
    \<Rightarrow> CommunityEngagementUserDetails" where
  "member_details cfg weights activities m =
     (let acts = member_activities (ce_activityTypes cfg) weights (member_totals weights (ce_activeDay cfg) (member_rows m activities))
      in \<lparr>ud_did = co_did m, ud_status = co_status m, ud_username = co_username m, ud_account_id = co_accountId m,
          ud_score = member_score acts, ud_activities = acts\<rparr>)"

lemma user_details_member:
  assumes "distinct (map co_did cohort)" "m \<in> set cohort" "distinct (map fst weights)"
  shows "user_details (ce_activityTypes cfg) weights (total_rows weights (ce_activeDay cfg) cohort activities) m = member_details cfg weights activities m"
  using query_totals_are_member_totals[OF assms] by (simp add: user_details_def member_details_def member_activities_def)

text \<open>A committed dataset is the one the verified download returns.\<close>

lemma download_committed:
  assumes "put_so_far sha inp st 4"
  shows "\<exists>dataset. downloadCommunityDataset sha st (fi_snapshotId inp) (fi_platform inp) = Inr dataset
    \<and> ld_activities dataset = export_activities (fi_window inp) (all_records inp)
    \<and> st (dataset_key inp COMMUNITY_COHORT_FILENAME) = Some (CohortFile (ld_cohort dataset)) \<and> mf_window (ld_manifest dataset) = fi_window inp"
proof -
  obtain cs co where c: "\<forall>i < 4. st (fst (commit_puts sha inp (all_records inp) cs co ! i)) = Some (snd (commit_puts sha inp (all_records inp) cs co ! i))"
    using assms by (auto simp: put_so_far_def)
  have n: "COMMUNITY_ACTIVITIES_FILENAME \<noteq> COMMUNITY_COVERAGE_FILENAME" "COMMUNITY_ACTIVITIES_FILENAME \<noteq> COMMUNITY_COHORT_FILENAME"
    "COMMUNITY_COVERAGE_FILENAME \<noteq> COMMUNITY_COHORT_FILENAME" by (simp_all add: filename_defs)
  note k = dataset_key_def[of inp, symmetric]
  from c[rule_format, of 0] c[rule_format, of 1] c[rule_format, of 2] c[rule_format, of 3] show ?thesis
    unfolding downloadCommunityDataset_def k
    by (simp add: commit_puts_def Let_def dataset_filenames_def k n n[symmetric])
qed

lemma roundPoints_zero [simp]: "roundPoints (Fin 0) = Fin 0"
proof -
  have "to_double 0 = Fin 0" using to_double_int[of 0] by simp
  moreover have "\<lfloor>1 / 2 :: rat\<rfloor> = 0" by (simp add: floor_eq_iff)
  ultimately show ?thesis by (simp add: roundPoints_def POINTS_PRECISION_def jint_def)
qed

lemma foldl_jadd_zero: "\<forall>x \<in> set xs. x = Fin 0 \<Longrightarrow> foldl jadd (Fin 0) xs = Fin 0"
proof -
  have "to_double 0 = Fin 0" using to_double_int[of 0] by simp
  then show "\<forall>x \<in> set xs. x = Fin 0 \<Longrightarrow> foldl jadd (Fin 0) xs = Fin 0" by (induction xs) simp_all
qed

lemma no_rows_score_zero:
  assumes "member_rows m activities = []"
  shows "ud_score (member_details cfg weights activities m) = Fin 0"
proof -
  have "member_totals weights ad [] t = None" for ad t
    by (simp add: member_totals_def day_totals_def days_totals_def split: option.split)
  then show ?thesis using assms
    by (simp add: member_details_def Let_def member_score_def member_activities_def activity_of_def comp_def foldl_jadd_zero split: option.split)
qed

lemma unmatched_no_rows: "co_accountId m = None \<Longrightarrow> member_rows m activities = []"
  by (simp add: member_rows_def)

lemma engagement_users:
  assumes "distinct (map co_did (ld_cohort dataset))" "distinct (map fst weights)"
  shows "cd_users (engagement_details cfg snapshotId window weights (aggregateCommunityActivity dataset weights (ce_activeDay cfg)))
    = map (member_details cfg weights (ld_activities dataset)) (sort_key co_did (ld_cohort dataset))"
  using user_details_member[OF assms(1) _ assms(2)] by (simp add: engagement_details_def Let_def aggregateCommunityActivity_def)

text \<open>
  C25: Whatever crashes the freeze went through, the scoring of the committed dataset succeeds and writes one CSV
  row and one details entry per cohort row, in the order of the identifiers.  For a cohort without repeated
  identifiers, the entry of a member is computed from the records an uninterrupted crawl yields in the window,
  from the rows of that member's account alone, and a member without a matched account scores zero.
\<close>

theorem committed_dataset_is_scored:
  assumes "(freeze_step sha inp)\<^sup>*\<^sup>* \<lparr>fz_store = st, fz_delivered = None, fz_phase = Idle\<rparr> w" "no_manifest inp st"
    "adapter_resumes inp" "\<not> no_manifest inp (fz_store w)"
    "extractActivityWeights inputs (ce_activityTypes cfg) = Inr weights" "distinct (ce_activityTypes cfg)" "ce_platform cfg = fi_platform inp"
  shows "\<exists>cohort details. fz_store w (dataset_key inp COMMUNITY_COHORT_FILENAME) = Some (CohortFile cohort)
    \<and> computeCommunityEngagement cfg sha (fi_snapshotId inp) inputs (fz_store w)
        = Inr [(generateKey snapshot (fi_snapshotId inp) (ce_algorithmKey cfg @ ''.csv''), EngagementCsv (map csv_record (cd_users details))),
               (generateKey snapshot (fi_snapshotId inp) (ce_algorithmKey cfg @ ''_details.json''), EngagementDetails details)]
    \<and> map ud_did (cd_users details) = map co_did (sort_key co_did cohort)
    \<and> (distinct (map co_did cohort) \<longrightarrow>
         cd_users details = map (member_details cfg weights (export_activities (fi_window inp) (all_records inp))) (sort_key co_did cohort)
         \<and> (\<forall>m \<in> set cohort. co_accountId m = None \<longrightarrow>
              ud_score (member_details cfg weights (export_activities (fi_window inp) (all_records inp)) m) = Fin 0))"
proof -
  have "freeze_inv sha inp w" by (rule freeze_reachable_inv[OF assms(1-3)])
  then have "put_so_far sha inp (fz_store w) 4" using assms(4) by (simp add: freeze_inv_def)
  from download_committed[OF this] obtain dataset where d:
    "downloadCommunityDataset sha (fz_store w) (fi_snapshotId inp) (fi_platform inp) = Inr dataset"
    "ld_activities dataset = export_activities (fi_window inp) (all_records inp)"
    "fz_store w (dataset_key inp COMMUNITY_COHORT_FILENAME) = Some (CohortFile (ld_cohort dataset))" by blast
  let ?D = "engagement_details cfg (fi_snapshotId inp) (mf_window (ld_manifest dataset)) weights
    (aggregateCommunityActivity dataset weights (ce_activeDay cfg))"
  have u: "map ud_did (cd_users ?D) = map co_did (sort_key co_did (ld_cohort dataset))"
    by (simp add: engagement_details_def Let_def aggregateCommunityActivity_def user_details_def comp_def)
  have "distinct (map fst weights)" using extractActivityWeights_ok[OF assms(5,6)] by (simp add: weights_ok_def)
  then have r: "distinct (map co_did (ld_cohort dataset)) \<longrightarrow>
      cd_users ?D = map (member_details cfg weights (ld_activities dataset)) (sort_key co_did (ld_cohort dataset))"
    using engagement_users by blast
  have "computeCommunityEngagement cfg sha (fi_snapshotId inp) inputs (fz_store w)
      = Inr [(generateKey snapshot (fi_snapshotId inp) (ce_algorithmKey cfg @ ''.csv''), EngagementCsv (map csv_record (cd_users ?D))),
             (generateKey snapshot (fi_snapshotId inp) (ce_algorithmKey cfg @ ''_details.json''), EngagementDetails ?D)]"
    using d(1) assms(5,7) by (simp add: computeCommunityEngagement_def Let_def)
  then show ?thesis using d(3) u r unfolding d(2) by (blast intro: no_rows_score_zero unmatched_no_rows)
qed

section \<open>Credits are bounded by the window\<close>

lemma rows_days_bound:
  assumes "\<forall>a \<in> set rows. in_window w a" "fw_end w = fw_start w + n * DAY_MS"
  shows "int (length (rows_days rows)) \<le> max 0 (n + 1)"
proof -
  let ?I = "{utc_day (fw_start w) .. utc_day (fw_start w) + n}"
  have "(fw_start w + n * DAY_MS) div DAY_MS = fw_start w div DAY_MS + n" by (simp add: DAY_MS_def)
  then have "set (rows_days rows) \<subseteq> ?I"
    using assms zdiv_mono1[of _ _ DAY_MS] by (fastforce simp: rows_days_def utc_day_def in_window_def DAY_MS_def)
  then have "card (set (rows_days rows)) \<le> card ?I" by (intro card_mono) simp_all
  then show ?thesis by (simp add: distinct_card)
qed

lemma capped_sum_bound: "0 \<le> cap \<Longrightarrow> sum_list (map (\<lambda>d. min (f d) cap) ds) \<le> int (length ds) * (cap :: int)"
proof (induction ds)
  case (Cons d ds)
  have "int (length (d # ds)) * cap = cap + int (length ds) * cap" by (simp add: algebra_simps)
  then show ?case using Cons by simp
qed simp

lemma day_totals_bound:
  assumes "day_totals rows cap = Some t" "1 \<le> cap" "int (length (rows_days rows)) \<le> n"
  shows "\<exists>c. ut_cappedUnits t = to_double (of_int c) \<and> c \<le> n * cap"
proof -
  have "sum_list (map (\<lambda>d. min (units_on rows d) cap) (rows_days rows)) \<le> int (length (rows_days rows)) * cap"
    using assms(2) by (intro capped_sum_bound) simp
  also have "\<dots> \<le> n * cap" using assms(2,3) by (intro mult_right_mono) simp_all
  finally show ?thesis using assms(1) by (auto simp: day_totals_def unit_totals_def split: if_splits)
qed

lemma days_totals_bound:
  assumes "days_totals rows cap = Some t"
  shows "\<exists>c. ut_cappedUnits t = to_double (of_int c) \<and> c \<le> cap \<and> c \<le> int (length (rows_days rows))"
  using assms by (auto simp: days_totals_def unit_totals_def Let_def split: if_splits)

lemma lookback_days_bound: "lookback_days v = Some n \<Longrightarrow> 1 \<le> n \<and> n \<le> 183"
  by (cases v rule: lookback_days.cases) (auto simp: MAX_COMMUNITY_LOOKBACK_DAYS_def le_floor_iff floor_le_iff split: if_splits)

lemma fetch_window_days:
  assumes "extractCommunityFetchInput inputs windowEnd = Inr f"
  shows "\<exists>n. cf_windowEnd f = cf_windowStart f + n * DAY_MS \<and> 1 \<le> n \<and> n \<le> 183"
proof (cases "input_value ''community_connection_id'' inputs")
  case (JStr c)
  then obtain n where n: "lookback_days (input_value ''lookback_days'' inputs) = Some n"
    using assms by (cases "lookback_days (input_value ''lookback_days'' inputs)") (simp_all add: extractCommunityFetchInput_def split: if_splits)
  then have "cf_windowEnd f = cf_windowStart f + n * DAY_MS"
    using assms JStr by (cases "resource_ids (input_value ''resources'' inputs)") (auto simp: extractCommunityFetchInput_def split: if_splits)
  then show ?thesis using lookback_days_bound[OF n] by blast
qed (use assms in \<open>simp_all add: extractCommunityFetchInput_def\<close>)

text \<open>
  In the window the orchestrator derives from a preset, an activity credits a member with at most its daily
  cap on each of at most 184 days, and the derived activity with at most its cap in all, whatever the
  crawl returned.
\<close>

lemma credits_are_bounded:
  assumes "extractCommunityFetchInput inputs windowEnd = Inr f"
    "extractActivityWeights inputs (ce_activityTypes cfg) = Inr weights" "distinct (ce_activityTypes cfg)"
    "map_of weights type = Some wt"
    "member_totals weights (ce_activeDay cfg)
       (member_rows m (export_activities \<lparr>fw_start = cf_windowStart f, fw_end = cf_windowEnd f\<rparr> staged)) type = Some t"
  shows "\<exists>c. ut_cappedUnits t = to_double (of_int c) \<and> c \<le> 184 * aw_dailyCap wt
    \<and> (map_option adc_type (ce_activeDay cfg) = Some type \<longrightarrow> c \<le> aw_dailyCap wt)"
proof -
  let ?rows = "member_rows m (export_activities \<lparr>fw_start = cf_windowStart f, fw_end = cf_windowEnd f\<rparr> staged)"
  obtain n where n: "cf_windowEnd f = cf_windowStart f + n * DAY_MS" "1 \<le> n" "n \<le> 183" using fetch_window_days[OF assms(1)] by blast
  have in_w: "\<forall>a \<in> set (export_activities w xs). in_window w a" for w xs
    by (auto simp: export_activities_def Let_def in_window_def group_row_def group_key_def)
  have d: "int (length (rows_days (filter P ?rows))) \<le> 184" for P
    using rows_days_bound[of "filter P ?rows" "\<lparr>fw_start = cf_windowStart f, fw_end = cf_windowEnd f\<rparr>" n] in_w n
    by (fastforce simp: member_rows_def)
  have cap: "1 \<le> aw_dailyCap wt" using extractActivityWeights_ok[OF assms(2,3)] map_of_SomeD[OF assms(4)] by (auto simp: weights_ok_def)
  then have le: "c \<le> aw_dailyCap wt \<Longrightarrow> c \<le> 184 * aw_dailyCap wt" for c by linarith
  show ?thesis
  proof (cases "map_option adc_type (ce_activeDay cfg) = Some type")
    case True
    then obtain ad where "ce_activeDay cfg = Some ad" "adc_type ad = type" by auto
    then have "days_totals (filter (\<lambda>a. ca_type a \<in> set (adc_sourceTypes ad)) ?rows) (aw_dailyCap wt) = Some t"
      using assms(4,5) by (simp add: member_totals_def)
    from days_totals_bound[OF this] show ?thesis using le by blast
  next
    case False
    then have "day_totals (filter (\<lambda>a. ca_type a = type) ?rows) (aw_dailyCap wt) = Some t"
      using assms(4,5) by (cases "ce_activeDay cfg") (auto simp: member_totals_def)
    from day_totals_bound[OF this cap d] show ?thesis using False by blast
  qed
qed

section \<open>Scoring the frozen channel\<close>

definition demo_inputs :: "AlgorithmPresetInput list" where
  "demo_inputs = [(''community_connection_id'', JStr ''c1''), (''lookback_days'', JNum (Fin 30)), (''resources'', JArr [JStr ''general'']),
     (''activities'', JArr [JObj [(''activity'', JStr ''message''), (''points'', JNum (Fin 2)), (''daily_cap'', JNum (Fin 1))]])]"

definition demo_weights :: "(string \<times> ActivityWeight) list" where
  "demo_weights = [(''message'', \<lparr>aw_points = Fin 2, aw_dailyCap = 1\<rparr>)]"

lemma demo_extract: "extractActivityWeights demo_inputs (ce_activityTypes discord_config) = Inr demo_weights"
  by code_simp

lemma discord_types_distinct: "distinct (ce_activityTypes discord_config)"
  by code_simp

theorem committed_dataset_is_scored_witness:
  "\<exists>w details. (freeze_step (\<lambda>_. []) demo_input)\<^sup>*\<^sup>* \<lparr>fz_store = (\<lambda>_. None), fz_delivered = None, fz_phase = Idle\<rparr> w
    \<and> computeCommunityEngagement discord_config (\<lambda>_. []) (fi_snapshotId demo_input) demo_inputs (fz_store w)
        = Inr [(generateKey snapshot (fi_snapshotId demo_input) (ce_algorithmKey discord_config @ ''.csv''), EngagementCsv (map csv_record (cd_users details))),
               (generateKey snapshot (fi_snapshotId demo_input) (ce_algorithmKey discord_config @ ''_details.json''), EngagementDetails details)]"
proof -
  obtain w where w: "(freeze_step (\<lambda>_. []) demo_input)\<^sup>*\<^sup>* \<lparr>fz_store = (\<lambda>_. None), fz_delivered = None, fz_phase = Idle\<rparr> w"
    "\<not> no_manifest demo_input (fz_store w)" using demo_commits[of "\<lambda>_. []"] by blast
  have "no_manifest demo_input (\<lambda>_. None)" "ce_platform discord_config = fi_platform demo_input"
    by (simp_all add: no_manifest_def discord_config_def demo_input_def)
  from committed_dataset_is_scored[OF w(1) this(1) demo_resumes w(2) demo_extract discord_types_distinct this(2)]
  show ?thesis using w(1) by blast
qed

definition demo_fetch :: CommunityFetchInput where
  "demo_fetch = \<lparr>cf_connectionId = ''c1'', cf_communityId = [], cf_resourceIds = [''general''], cf_windowStart = - 2591999900, cf_windowEnd = 100,
     cf_credentialsCiphertext = None\<rparr>"

definition demo_member :: CommunityCohortRow where
  "demo_member = \<lparr>co_did = ''did:1'', co_username = Some ''Ann'', co_accountId = Some ''ann'', co_status = matched\<rparr>"

lemma demo_fetch_input: "extractCommunityFetchInput demo_inputs 100 = Inr demo_fetch"
  by code_simp

lemma demo_rows:
  "filter (\<lambda>a. ca_type a = ''message'') (member_rows demo_member (export_activities \<lparr>fw_start = cf_windowStart demo_fetch, fw_end = cf_windowEnd demo_fetch\<rparr>
     [demo_record ''m2'' 20, demo_record ''m1'' 10])) = [demo_record ''m1'' 10, demo_record ''m2'' 20]"
  by code_simp

lemma demo_capped: "day_totals [demo_record ''m1'' 10, demo_record ''m2'' 20] 1 = Some (unit_totals 2 1)"
  by (simp add: day_totals_def rows_days_def units_on_def demo_record_def utc_day_def DAY_MS_def)

theorem credits_are_bounded_witness:
  "\<exists>c. ut_cappedUnits (unit_totals 2 1) = to_double (of_int c) \<and> c \<le> 184"
proof -
  have m: "map_of demo_weights ''message'' = Some \<lparr>aw_points = Fin 2, aw_dailyCap = 1\<rparr>" by (simp add: demo_weights_def)
  have "member_totals demo_weights (ce_activeDay discord_config) (member_rows demo_member
      (export_activities \<lparr>fw_start = cf_windowStart demo_fetch, fw_end = cf_windowEnd demo_fetch\<rparr> [demo_record ''m2'' 20, demo_record ''m1'' 10])) ''message''
    = Some (unit_totals 2 1)"
    unfolding member_totals_def m by (simp add: discord_config_def demo_rows demo_capped)
  from credits_are_bounded[OF demo_fetch_input demo_extract discord_types_distinct m this] show ?thesis by auto
qed

section \<open>The cohort is the consented users\<close>

definition social_field :: "string \<Rightarrow> DeepIdUser \<Rightarrow> json" where
  "social_field platform user = (case map_of (du_fields user) platform of None \<Rightarrow> JUndefined | Some v \<Rightarrow> v)"

lemma consented_users_Inr:
  "consented_users isIso platform users = Inr cs \<Longrightarrow>
   list_all2 (\<lambda>(did, user) (did', username). did = did' \<and> parseSocialIdentity isIso (social_field platform user) = Inr username)
     (filter (\<lambda>u. hasScope (snd u) platform) users) cs"
proof (induction users arbitrary: cs)
  case (Cons u users)
  obtain did user where u: "u = (did, user)" by fastforce
  show ?case
  proof (cases "hasScope user platform")
    case True
    then obtain username cs' where "parseSocialIdentity isIso (social_field platform user) = Inr username"
      "consented_users isIso platform users = Inr cs'" "cs = (did, username) # cs'"
      using Cons.prems u by (cases "parseSocialIdentity isIso (social_field platform user)"; cases "consented_users isIso platform users")
        (simp_all add: social_field_def)
    then show ?thesis using Cons.IH u True by simp
  next
    case False
    then show ?thesis using Cons u by simp
  qed
qed simp

lemma single_lookup:
  "map_of (foldl (\<lambda>m u. AList.update u (f u) m) acc us) u = (if u \<in> set us then Some (f u) else map_of acc u)"
  by (induction us arbitrary: acc) (auto simp: update_conv')

lemma resolve_single:
  assumes "(did, username) \<in> set consented"
  shows "cohort_row (resolveAccountIds (Single searchMemberId) consented) (did, username) =
    (let accountId = Option.bind username searchMemberId
     in \<lparr>co_did = did, co_username = username, co_accountId = accountId, co_status = (if accountId = None then unmatched else matched)\<rparr>)"
proof (cases username)
  case (Some u)
  then have "u \<in> set (List.map_filter snd consented)" using assms by (force simp: map_filter_def)
  then show ?thesis using Some by (simp add: cohort_row_def resolveAccountIds_def single_lookup Let_def)
qed (simp add: cohort_row_def Let_def)



end
