(* ===== verification/Result_State.thy ===== *)
theory Result_State
  imports Prelude
begin

text \<open>
  Computations that change a state and return a result or an error: the async methods of the services.  An
  exception keeps what was already written.  \<open>triple\<close> is their program logic, \<open>keeps\<close> the case of an invariant;
  the rules of both are collected in \<open>triple_intros\<close> and \<open>keeps_rules\<close>.
\<close>

type_synonym ('s, 'e, 'a) rs = "'s \<Rightarrow> ('e + 'a) \<times> 's"

named_theorems triple_intros \<open>rules of the program logic\<close>
named_theorems keeps_rules \<open>computations that keep an invariant\<close>

definition rs_ret :: "'a \<Rightarrow> ('s, 'e, 'a) rs" where
  "rs_ret x s = (Inr x, s)"

definition rs_throw :: "'e \<Rightarrow> ('s, 'e, 'a) rs" where
  "rs_throw e s = (Inl e, s)"

definition rs_bind :: "('s, 'e, 'a) rs \<Rightarrow> ('a \<Rightarrow> ('s, 'e, 'b) rs) \<Rightarrow> ('s, 'e, 'b) rs" where
  "rs_bind m f s = (case m s of (Inl e, s') \<Rightarrow> (Inl e, s') | (Inr x, s') \<Rightarrow> f x s')"

definition rs_catch :: "('s, 'e, 'a) rs \<Rightarrow> ('e \<Rightarrow> ('s, 'e, 'a) rs) \<Rightarrow> ('s, 'e, 'a) rs" where
  "rs_catch m h s = (case m s of (Inl e, s') \<Rightarrow> h e s' | (Inr x, s') \<Rightarrow> (Inr x, s'))"

definition rs_get :: "('s \<Rightarrow> 'a) \<Rightarrow> ('s, 'e, 'a) rs" where
  "rs_get f s = (Inr (f s), s)"

definition rs_modify :: "('s \<Rightarrow> 's) \<Rightarrow> ('s, 'e, unit) rs" where
  "rs_modify f s = (Inr (), f s)"

definition rs_lift :: "'e + 'a \<Rightarrow> ('s, 'e, 'a) rs" where
  "rs_lift r s = (r, s)"

lemmas rs_defs = rs_ret_def rs_throw_def rs_bind_def rs_catch_def rs_get_def rs_modify_def rs_lift_def

lemma rs_ret_bind [simp]: "rs_bind (rs_ret x) f = f x"
  by (rule ext) (simp add: rs_defs)

lemma rs_throw_bind [simp]: "rs_bind (rs_throw e) f = rs_throw e"
  by (rule ext) (simp add: rs_defs)

lemma rs_bind_assoc: "rs_bind (rs_bind m f) g = rs_bind m (\<lambda>x. rs_bind (f x) g)"
  by (rule ext) (simp add: rs_defs split: prod.split sum.split)

lemma rs_bind_Inr: "rs_bind m f s = (Inr y, s'') \<longleftrightarrow> (\<exists>x s'. m s = (Inr x, s') \<and> f x s' = (Inr y, s''))"
  by (auto simp: rs_bind_def split: prod.splits sum.splits)

lemma rs_bind_run: "m s = (Inr x, s') \<Longrightarrow> rs_bind m f s = f x s'"
  by (simp add: rs_bind_def)

lemma rs_bind_fail: "m s = (Inl e, s') \<Longrightarrow> rs_bind m f s = (Inl e, s')"
  by (simp add: rs_bind_def)

lemma rs_catch_run: "m s = (Inr x, s') \<Longrightarrow> rs_catch m h s = (Inr x, s')"
  by (simp add: rs_catch_def)

lemma rs_catch_fail: "m s = (Inl e, s') \<Longrightarrow> rs_catch m h s = h e s'"
  by (simp add: rs_catch_def)

section \<open>A program logic\<close>

definition triple :: "('s \<Rightarrow> bool) \<Rightarrow> ('s, 'e, 'a) rs \<Rightarrow> ('a \<Rightarrow> 's \<Rightarrow> bool) \<Rightarrow> ('e \<Rightarrow> 's \<Rightarrow> bool) \<Rightarrow> bool" where
  "triple P m Q E \<longleftrightarrow> (\<forall>s. P s \<longrightarrow> (case m s of (Inr x, s') \<Rightarrow> Q x s' | (Inl e, s') \<Rightarrow> E e s'))"

lemma tripleI: "(\<And>s. P s \<Longrightarrow> case m s of (Inr x, s') \<Rightarrow> Q x s' | (Inl e, s') \<Rightarrow> E e s') \<Longrightarrow> triple P m Q E"
  by (simp add: triple_def)

lemma triple_Inr: "triple P m Q E \<Longrightarrow> P s \<Longrightarrow> m s = (Inr x, s') \<Longrightarrow> Q x s'"
  by (auto simp: triple_def split: prod.splits sum.splits)

lemma triple_Inl: "triple P m Q E \<Longrightarrow> P s \<Longrightarrow> m s = (Inl e, s') \<Longrightarrow> E e s'"
  by (auto simp: triple_def split: prod.splits sum.splits)

lemma triple_ret [triple_intros]: "(\<And>s. P s \<Longrightarrow> Q x s) \<Longrightarrow> triple P (rs_ret x) Q E"
  by (simp add: triple_def rs_ret_def)

lemma triple_throw [triple_intros]: "(\<And>s. P s \<Longrightarrow> E e s) \<Longrightarrow> triple P (rs_throw e) Q E"
  by (simp add: triple_def rs_throw_def)

lemma triple_get [triple_intros]: "(\<And>s. P s \<Longrightarrow> Q (f s) s) \<Longrightarrow> triple P (rs_get f) Q E"
  by (simp add: triple_def rs_get_def)

lemma triple_modify [triple_intros]: "(\<And>s. P s \<Longrightarrow> Q () (f s)) \<Longrightarrow> triple P (rs_modify f) Q E"
  by (simp add: triple_def rs_modify_def)

lemma triple_bind: "triple P m R E \<Longrightarrow> (\<And>x. triple (R x) (f x) Q E) \<Longrightarrow> triple P (rs_bind m f) Q E"
  by (fastforce simp: triple_def rs_bind_def split: prod.splits sum.splits)

lemma triple_catch: "triple P m Q R \<Longrightarrow> (\<And>e. triple (R e) (h e) Q E) \<Longrightarrow> triple P (rs_catch m h) Q E"
  by (fastforce simp: triple_def rs_catch_def split: prod.splits sum.splits)

lemma triple_weaken:
  "triple P m Q E \<Longrightarrow> (\<And>s. P' s \<Longrightarrow> P s) \<Longrightarrow> (\<And>x s. Q x s \<Longrightarrow> Q' x s) \<Longrightarrow> (\<And>e s. E e s \<Longrightarrow> E' e s) \<Longrightarrow> triple P' m Q' E'"
  by (fastforce simp: triple_def split: prod.splits sum.splits)

section \<open>Invariants\<close>

definition keeps_inv :: "('s \<Rightarrow> bool) \<Rightarrow> ('s, 'e, 'a) rs \<Rightarrow> bool" where
  "keeps_inv I m \<longleftrightarrow> (\<forall>s. I s \<longrightarrow> I (snd (m s)))"

lemma keeps_invD: "keeps_inv I m \<Longrightarrow> I s \<Longrightarrow> m s = (r, s') \<Longrightarrow> I s'"
  by (metis keeps_inv_def snd_conv)

lemma keeps_triple: "keeps_inv I m \<longleftrightarrow> triple I m (\<lambda>_. I) (\<lambda>_. I)"
  by (auto simp: keeps_inv_def triple_def split: prod.splits sum.splits) (metis prod.collapse)

lemma keeps_ret [keeps_rules]: "keeps_inv I (rs_ret x)"
  by (simp add: keeps_inv_def rs_ret_def)

lemma keeps_throw [keeps_rules]: "keeps_inv I (rs_throw e)"
  by (simp add: keeps_inv_def rs_throw_def)

lemma keeps_get [keeps_rules]: "keeps_inv I (rs_get f)"
  by (simp add: keeps_inv_def rs_get_def)

lemma keeps_lift [keeps_rules]: "keeps_inv I (rs_lift r)"
  by (simp add: keeps_inv_def rs_lift_def)

lemma keeps_modify: "(\<And>s. I s \<Longrightarrow> I (f s)) \<Longrightarrow> keeps_inv I (rs_modify f)"
  by (simp add: keeps_inv_def rs_modify_def)

lemma keeps_bind [keeps_rules]: "keeps_inv I m \<Longrightarrow> (\<And>x. keeps_inv I (f x)) \<Longrightarrow> keeps_inv I (rs_bind m f)"
  unfolding keeps_triple by (rule triple_bind)

lemma keeps_catch [keeps_rules]: "keeps_inv I m \<Longrightarrow> (\<And>e. keeps_inv I (h e)) \<Longrightarrow> keeps_inv I (rs_catch m h)"
  unfolding keeps_triple by (rule triple_catch)

lemma rs_keeps_if [keeps_rules]: "(b \<Longrightarrow> keeps_inv I m) \<Longrightarrow> (\<not> b \<Longrightarrow> keeps_inv I m') \<Longrightarrow> keeps_inv I (if b then m else m')"
  by simp

lemma keeps_option [keeps_rules]:
  "(x = None \<Longrightarrow> keeps_inv I m) \<Longrightarrow> (\<And>y. x = Some y \<Longrightarrow> keeps_inv I (f y)) \<Longrightarrow> keeps_inv I (case x of None \<Rightarrow> m | Some y \<Rightarrow> f y)"
  by (cases x) simp_all

lemma keeps_prod [keeps_rules]: "(\<And>a b. x = (a, b) \<Longrightarrow> keeps_inv I (f a b)) \<Longrightarrow> keeps_inv I (case x of (a, b) \<Rightarrow> f a b)"
  by (cases x) simp

end
