(* ===== verification/Community_Connections.thy ===== *)
theory Community_Connections
  imports Result_State
begin

text \<open>
  The connections of Reputo to communities (\<^verbatim>\<open>community.service.ts\<close> with its repositories, platform registry,
  credentials and install states).  A request is a computation on the two tables; what platforms answer is an
  argument, and an answer comes with the state the other requests left meanwhile.  Between reading a row
  and saving it other requests may run as well: \<open>cv_yield\<close>.

  A save writes the whole row and inserts it when it is gone, as the object-relational mapper documents.  An audit row must
  name an existing connection, and loses the name when the connection is deleted.  Logging is left out.
\<close>

section \<open>Data\<close>

datatype CommunityConnectionStatus = pending | active | degraded | broken | disconnected

record CommunityConnectionMetadata =
  md_avatarUrl :: "string option"
  md_memberCount :: "jsnum option"
  md_resourceCount :: "jsnum option"
  md_readableResourceCount :: "jsnum option"

record CommunityConnectionEntity =
  en_id :: string
  en_platform :: string
  en_externalId :: string
  en_name :: string
  en_settings :: json
  en_credentialsCiphertext :: "string option"
  en_status :: CommunityConnectionStatus
  en_createdAt :: int
  en_updatedAt :: int

record CommunityConnectionRow =
  row_id :: string
  row_platform :: string
  row_externalId :: string
  row_name :: string
  row_status :: CommunityConnectionStatus
  row_metadata :: "CommunityConnectionMetadata option"
  row_lastCheckedAt :: "int option"
  row_lastFailureCategory :: "string option"
  row_createdAt :: int
  row_updatedAt :: int

datatype CommunityAuditAction = installUrl | validate | connect | disconnected_action | healthCheck | listResources_action

datatype CommunityAuditOutcome = success | failure

record CommunityConnectionAudit =
  ca_connectionId :: "string option"
  ca_platform :: string
  ca_actorUserId :: "string option"
  ca_action :: CommunityAuditAction
  ca_outcome :: CommunityAuditOutcome
  ca_errorCategory :: "string option"

record comm_state =
  cs_connections :: "CommunityConnectionEntity list"
  cs_audit :: "CommunityConnectionAudit list"

section \<open>Categories\<close>

definition authFailed :: string where "authFailed = ''auth_failed''"
definition permissionDenied :: string where "permissionDenied = ''permission_denied''"
definition notFound :: string where "notFound = ''not_found''"
definition outboundPolicy :: string where "outboundPolicy = ''outbound_policy''"
definition upstreamError :: string where "upstreamError = ''upstream_error''"
definition invalidState :: string where "invalidState = ''invalid_state''"
definition declined :: string where "declined = ''declined''"
definition approvalRequired :: string where "approvalRequired = ''approval_required''"
definition teamNotFound :: string where "teamNotFound = ''team_not_found''"

definition BROKEN_CATEGORIES :: "string list" where
  "BROKEN_CATEGORIES = [authFailed, permissionDenied, notFound, outboundPolicy]"

definition statusForFailure :: "string \<Rightarrow> CommunityConnectionStatus" where
  "statusForFailure category = (if category \<in> set BROKEN_CATEGORIES then broken else degraded)"

datatype comm_error =
    ApiError string
  | DuplicateKey
  | ForeignKeyViolation
  | NotFoundError string
  | DisconnectedException
  | PlatformException string
  | PlatformMismatch string string
  | PlatformUnsupported string
  | MattermostConnectException string

fun toErrorCategory :: "comm_error \<Rightarrow> string" where
  "toErrorCategory (ApiError category) = category"
| "toErrorCategory _ = upstreamError"

section \<open>The connection repository\<close>

text \<open>The settings column; a missing or malformed value has no fields.\<close>

fun settings_fields :: "json \<Rightarrow> (string \<times> json) list" where
  "settings_fields (JObj kvs) = kvs"
| "settings_fields _ = []"

definition setting :: "string \<Rightarrow> json \<Rightarrow> json" where
  "setting k settings = jfield k (JObj (settings_fields settings))"

definition js_string :: "json \<Rightarrow> string option" where
  "js_string v = (case v of JStr s \<Rightarrow> Some s | _ \<Rightarrow> None)"

definition js_number :: "json \<Rightarrow> jsnum option" where
  "js_number v = (case v of JNum n \<Rightarrow> Some n | _ \<Rightarrow> None)"

definition readStoredMetadata :: "json \<Rightarrow> CommunityConnectionMetadata option" where
  "readStoredMetadata settings =
     (case setting ''metadata'' settings of
        JObj kvs \<Rightarrow>
          (let f = (\<lambda>k. jfield k (JObj kvs))
           in Some \<lparr>md_avatarUrl = js_string (f ''avatarUrl''), md_memberCount = js_number (f ''memberCount''),
                md_resourceCount = js_number (f ''resourceCount''), md_readableResourceCount = js_number (f ''readableResourceCount'')\<rparr>)
      | JArr _ \<Rightarrow> Some \<lparr>md_avatarUrl = None, md_memberCount = None, md_resourceCount = None, md_readableResourceCount = None\<rparr>
      | _ \<Rightarrow> None)"

text \<open>The instant of a check; its ISO string is the number of milliseconds.\<close>

definition read_instant :: "json \<Rightarrow> int option" where
  "read_instant v = (case v of JNum (Fin x) \<Rightarrow> Some \<lfloor>x\<rfloor> | _ \<Rightarrow> None)"

definition readLastCheck :: "json \<Rightarrow> int option \<times> string option" where
  "readLastCheck settings =
     (let lastCheck = setting ''lastCheck'' settings
      in (read_instant (jfield ''at'' lastCheck),
          case jfield ''category'' lastCheck of JStr c \<Rightarrow> if c = [] then None else Some c | _ \<Rightarrow> None))"

definition mapRow :: "CommunityConnectionEntity \<Rightarrow> CommunityConnectionRow" where
  "mapRow en =
     \<lparr>row_id = en_id en, row_platform = en_platform en, row_externalId = en_externalId en, row_name = en_name en,
      row_status = en_status en, row_metadata = readStoredMetadata (en_settings en),
      row_lastCheckedAt = fst (readLastCheck (en_settings en)), row_lastFailureCategory = snd (readLastCheck (en_settings en)),
      row_createdAt = en_createdAt en, row_updatedAt = en_updatedAt en\<rparr>"

definition find_connection :: "string \<Rightarrow> comm_state \<Rightarrow> CommunityConnectionEntity option" where
  "find_connection i st = List.find (\<lambda>e. en_id e = i) (cs_connections st)"

definition find_external :: "string \<Rightarrow> string \<Rightarrow> comm_state \<Rightarrow> CommunityConnectionEntity option" where
  "find_external platform externalId st =
     List.find (\<lambda>e. en_platform e = platform \<and> en_externalId e = externalId) (cs_connections st)"

text \<open>
  \<^verbatim>\<open>save\<close>: the row with that id is replaced, or inserted when there is none; the unique index on platform and
  external id refuses a second row for a community.
\<close>

definition save :: "CommunityConnectionEntity \<Rightarrow> (comm_state, comm_error, CommunityConnectionEntity) rs" where
  "save en st =
     (if list_ex (\<lambda>e. en_id e \<noteq> en_id en \<and> en_platform e = en_platform en \<and> en_externalId e = en_externalId en) (cs_connections st)
      then (Inl DuplicateKey, st)
      else (Inr en, st\<lparr>cs_connections :=
              (if find_connection (en_id en) st = None then cs_connections st @ [en]
               else tbl_update (\<lambda>e. en_id e = en_id en) (\<lambda>_. en) (cs_connections st))\<rparr>))"

record CommunityProbeResult =
  pr_resourceCount :: jsnum
  pr_readableResourceCount :: jsnum
  pr_resourcesDigest :: string
  pr_avatarUrl :: "string option"
  pr_memberCount :: "jsnum option"

record CommunityResource =
  res_id :: string
  res_name :: string
  res_kind :: string
  res_readable :: bool
  res_accessIssue :: "string option"

text \<open>
  The platforms take the id of a community and, for Mattermost, the opened token; \<open>cv_origin\<close> is the origin of a
  server address.
\<close>

record comm_env =
  cv_now :: int
  cv_uuid :: string
  cv_yield :: "comm_state \<Rightarrow> comm_state"
  cv_probe :: "string \<Rightarrow> string \<Rightarrow> string option \<Rightarrow> comm_state \<Rightarrow> (comm_error + CommunityProbeResult) \<times> comm_state"
  cv_listResources :: "string \<Rightarrow> string \<Rightarrow> string option \<Rightarrow> comm_state \<Rightarrow> (comm_error + CommunityResource list) \<times> comm_state"
  cv_revokeAccess :: "string \<Rightarrow> string \<Rightarrow> comm_state \<Rightarrow> (comm_error + unit) \<times> comm_state"
  cv_exchangeCode :: "string \<Rightarrow> comm_state \<Rightarrow> (comm_error + string \<times> string) \<times> comm_state"
  cv_confirmInstallation :: "string \<Rightarrow> comm_state \<Rightarrow> (comm_error + string \<times> string) \<times> comm_state"
  cv_validateToken :: "string \<Rightarrow> string \<Rightarrow> comm_state \<Rightarrow> (comm_error + string \<times> (string \<times> string) list) \<times> comm_state"
  cv_seal :: "string \<Rightarrow> string \<Rightarrow> string \<Rightarrow> string"
  cv_open :: "string \<Rightarrow> string \<Rightarrow> string \<Rightarrow> comm_error + string"
  cv_issue :: "string \<Rightarrow> string"
  cv_verifyState :: "string option \<Rightarrow> string \<Rightarrow> bool"
  cv_buildInstallUrl :: "string \<Rightarrow> string \<Rightarrow> string option \<Rightarrow> string"
  cv_origin :: "string \<Rightarrow> comm_error + string"

type_synonym 'a comm = "(comm_state, comm_error, 'a) rs"

text \<open>A fresh install replaces name, status and credential; the settings of an existing row stay.\<close>

record UpsertCommunityConnectionInput =
  ui_platform :: string
  ui_externalId :: string
  ui_name :: string
  ui_status :: CommunityConnectionStatus
  ui_credentialsCiphertext :: "string option"

definition applyInstall :: "comm_env \<Rightarrow> CommunityConnectionEntity option \<Rightarrow> UpsertCommunityConnectionInput \<Rightarrow> CommunityConnectionEntity" where
  "applyInstall env existing inp =
     (case existing of
        Some e \<Rightarrow> e\<lparr>en_platform := ui_platform inp, en_externalId := ui_externalId inp, en_name := ui_name inp, en_status := ui_status inp,
                   en_credentialsCiphertext := ui_credentialsCiphertext inp, en_updatedAt := cv_now env\<rparr>
      | None \<Rightarrow> \<lparr>en_id = cv_uuid env, en_platform = ui_platform inp, en_externalId = ui_externalId inp, en_name = ui_name inp,
                 en_settings = JNull, en_credentialsCiphertext = ui_credentialsCiphertext inp, en_status = ui_status inp,
                 en_createdAt = cv_now env, en_updatedAt = cv_now env\<rparr>)"

definition yield_to_others :: "comm_env \<Rightarrow> unit comm" where
  "yield_to_others env = rs_modify (cv_yield env)"

definition upsertFromInstall :: "comm_env \<Rightarrow> UpsertCommunityConnectionInput \<Rightarrow> CommunityConnectionRow comm" where
  "upsertFromInstall env inp =
     (let findByExternalId = rs_bind (rs_get (find_external (ui_platform inp) (ui_externalId inp))) (\<lambda>found.
            rs_bind (yield_to_others env) (\<lambda>_. rs_ret found))
      in rs_bind findByExternalId (\<lambda>existing.
           case existing of
             Some e \<Rightarrow> rs_bind (save (applyInstall env (Some e) inp)) (\<lambda>e'. rs_ret (mapRow e'))
           | None \<Rightarrow>
               rs_catch (rs_bind (save (applyInstall env None inp)) (\<lambda>e'. rs_ret (mapRow e')))
                 (\<lambda>err. if err \<noteq> DuplicateKey then rs_throw err
                         else rs_bind findByExternalId (\<lambda>winner.
                           case winner of
                             None \<Rightarrow> rs_throw err
                           | Some e \<Rightarrow> rs_bind (save (applyInstall env (Some e) inp)) (\<lambda>e'. rs_ret (mapRow e'))))))"

record RecordCheckInput =
  rc_status :: CommunityConnectionStatus
  rc_checkedAt :: int
  rc_failureCategory :: "string option"
  rc_metadata :: "json option"
  rc_resourcesDigest :: "string option"

definition opt_field :: "string \<Rightarrow> json option \<Rightarrow> (string \<times> json) list \<Rightarrow> (string \<times> json) list" where
  "opt_field k v kvs = (case v of None \<Rightarrow> kvs | Some j \<Rightarrow> AList.update k j kvs)"

definition check_settings :: "json \<Rightarrow> RecordCheckInput \<Rightarrow> json" where
  "check_settings settings inp =
     JObj (AList.update ''lastCheck''
       (JObj [(''at'', JNum (jint (rc_checkedAt inp))), (''category'', case rc_failureCategory inp of None \<Rightarrow> JNull | Some c \<Rightarrow> JStr c)])
       (opt_field ''resourcesDigest'' (map_option JStr (rc_resourcesDigest inp))
         (opt_field ''metadata'' (rc_metadata inp) (settings_fields settings))))"

definition recordCheck :: "comm_env \<Rightarrow> string \<Rightarrow> RecordCheckInput \<Rightarrow> CommunityConnectionRow option comm" where
  "recordCheck env i inp =
     rs_bind (rs_get (find_connection i)) (\<lambda>found.
       case found of
         None \<Rightarrow> rs_ret None
       | Some e \<Rightarrow>
           rs_bind (yield_to_others env) (\<lambda>_.
           rs_bind (save (e\<lparr>en_status := rc_status inp, en_settings := check_settings (en_settings e) inp, en_updatedAt := cv_now env\<rparr>))
             (\<lambda>e'. rs_ret (Some (mapRow e')))))"

definition deleteById :: "string \<Rightarrow> bool comm" where
  "deleteById i st =
     (Inr (find_connection i st \<noteq> None),
      st\<lparr>cs_connections := tbl_delete (\<lambda>e. en_id e = i) (cs_connections st),
         cs_audit := tbl_update (\<lambda>a. ca_connectionId a = Some i) (\<lambda>a. a\<lparr>ca_connectionId := None\<rparr>) (cs_audit st)\<rparr>)"

definition findCredentialsCiphertext :: "string \<Rightarrow> string \<Rightarrow> string option comm" where
  "findCredentialsCiphertext platform externalId =
     rs_get (\<lambda>st. Option.bind (find_external platform externalId st) en_credentialsCiphertext)"

definition findCredentialsCiphertextById :: "string \<Rightarrow> string option comm" where
  "findCredentialsCiphertextById i = rs_get (\<lambda>st. Option.bind (find_connection i st) en_credentialsCiphertext)"

section \<open>The audit\<close>

definition audit_record :: "CommunityConnectionAudit \<Rightarrow> unit comm" where
  "audit_record a st =
     (case ca_connectionId a of
        Some i \<Rightarrow> if find_connection i st = None then (Inl ForeignKeyViolation, st) else (Inr (), st\<lparr>cs_audit := cs_audit st @ [a]\<rparr>)
      | None \<Rightarrow> (Inr (), st\<lparr>cs_audit := cs_audit st @ [a]\<rparr>))"

text \<open>System checks, without an actor, are recorded only when they change what the row says.\<close>

definition recordOutcome ::
  "string option \<Rightarrow> CommunityConnectionRow \<Rightarrow> CommunityAuditAction \<Rightarrow> string option \<Rightarrow> bool \<Rightarrow> unit comm" where
  "recordOutcome actor connection action errorCategory changesState =
     (if actor = None \<and> \<not> changesState then rs_ret ()
      else audit_record \<lparr>ca_connectionId = Some (row_id connection), ca_platform = row_platform connection, ca_actorUserId = actor,
             ca_action = action, ca_outcome = (if errorCategory = None then success else failure), ca_errorCategory = errorCategory\<rparr>)"

definition changesState :: "CommunityConnectionRow \<Rightarrow> CommunityConnectionStatus \<Rightarrow> string option \<Rightarrow> bool" where
  "changesState connection status failureCategory \<longleftrightarrow>
     row_status connection \<noteq> status \<or> row_lastFailureCategory connection \<noteq> failureCategory"

section \<open>Platforms\<close>

definition MATTERMOST :: string where "MATTERMOST = ''mattermost''"

definition url_host_ok :: "string \<Rightarrow> bool" where
  "url_host_ok s \<longleftrightarrow>
     (let rest = (if js_startsWith s ''https://'' then drop 8 s else if js_startsWith s ''http://'' then drop 7 s else [])
      in rest \<noteq> [] \<and> CHR ''/'' \<notin> set rest)"

definition parseMattermostExternalId :: "string \<Rightarrow> comm_error + string \<times> string" where
  "parseMattermostExternalId externalId =
     (case js_lastIndexOf (CHR ''/'') externalId of
        None \<Rightarrow> Inl (ApiError ''contract_violation'')
      | Some i \<Rightarrow>
          if i = 0 \<or> drop (Suc i) externalId = [] \<or> \<not> url_host_ok (take i externalId) then Inl (ApiError ''contract_violation'')
          else Inr (take i externalId, drop (Suc i) externalId))"

definition buildMattermostExternalId :: "comm_env \<Rightarrow> string \<Rightarrow> string \<Rightarrow> comm_error + string" where
  "buildMattermostExternalId env serverUrl teamId = map_sum id (\<lambda>origin. origin @ ''/'' @ teamId) (cv_origin env serverUrl)"

text \<open>The token is opened for one call; no stored token is an authentication failure.\<close>

definition withMattermostTarget :: "comm_env \<Rightarrow> string \<Rightarrow> (string \<Rightarrow> 'a comm) \<Rightarrow> 'a comm" where
  "withMattermostTarget env externalId operation =
     rs_bind (findCredentialsCiphertext MATTERMOST externalId) (\<lambda>ciphertext.
       case ciphertext of
         None \<Rightarrow> rs_throw (ApiError authFailed)
       | Some c \<Rightarrow>
           rs_bind (rs_lift (parseMattermostExternalId externalId)) (\<lambda>_.
           rs_bind (rs_lift (cv_open env MATTERMOST externalId c)) operation))"

definition SUPPORTED :: "string list" where "SUPPORTED = [''discord'', ''github'', MATTERMOST]"

definition platforms_get :: "string \<Rightarrow> unit comm" where
  "platforms_get platform = (if platform \<in> set SUPPORTED then rs_ret () else rs_throw (PlatformUnsupported platform))"

definition probe :: "comm_env \<Rightarrow> string \<Rightarrow> string \<Rightarrow> CommunityProbeResult comm" where
  "probe env platform externalId =
     (if platform = MATTERMOST then withMattermostTarget env externalId (\<lambda>token. cv_probe env platform externalId (Some token))
      else cv_probe env platform externalId None)"

definition client_listResources :: "comm_env \<Rightarrow> string \<Rightarrow> string \<Rightarrow> CommunityResource list comm" where
  "client_listResources env platform externalId =
     (if platform = MATTERMOST then withMattermostTarget env externalId (\<lambda>token. cv_listResources env platform externalId (Some token))
      else cv_listResources env platform externalId None)"

text \<open>Nothing is revoked on a Mattermost server: deleting the row drops the only sealed copy of the token.\<close>

definition revokeAccess :: "comm_env \<Rightarrow> string \<Rightarrow> string \<Rightarrow> unit comm" where
  "revokeAccess env platform externalId =
     (if platform = MATTERMOST then rs_ret () else cv_revokeAccess env platform externalId)"

section \<open>The service\<close>

definition metadata_json :: "CommunityProbeResult \<Rightarrow> json" where
  "metadata_json p =
     JObj (opt_field ''avatarUrl'' (map_option JStr (pr_avatarUrl p)) (opt_field ''memberCount'' (map_option JNum (pr_memberCount p))
       [(''resourceCount'', JNum (pr_resourceCount p)), (''readableResourceCount'', JNum (pr_readableResourceCount p))]))"

definition recordProbeSuccess :: "comm_env \<Rightarrow> CommunityConnectionRow \<Rightarrow> CommunityProbeResult \<Rightarrow> CommunityConnectionRow option comm" where
  "recordProbeSuccess env connection p =
     recordCheck env (row_id connection) \<lparr>rc_status = active, rc_checkedAt = cv_now env, rc_failureCategory = None,
       rc_metadata = Some (metadata_json p), rc_resourcesDigest = Some (pr_resourcesDigest p)\<rparr>"

definition recordProbeFailure :: "comm_env \<Rightarrow> CommunityConnectionRow \<Rightarrow> string \<Rightarrow> CommunityConnectionRow option comm" where
  "recordProbeFailure env connection category =
     recordCheck env (row_id connection) \<lparr>rc_status = statusForFailure category, rc_checkedAt = cv_now env, rc_failureCategory = Some category,
       rc_metadata = None, rc_resourcesDigest = None\<rparr>"

definition getConnectionOrThrow :: "string \<Rightarrow> CommunityConnectionRow comm" where
  "getConnectionOrThrow i =
     rs_bind (rs_get (find_connection i)) (\<lambda>found. case found of None \<Rightarrow> rs_throw (NotFoundError i) | Some e \<Rightarrow> rs_ret (mapRow e))"

definition getUsableConnection :: "string \<Rightarrow> CommunityConnectionRow comm" where
  "getUsableConnection i =
     rs_bind (getConnectionOrThrow i) (\<lambda>connection.
       if row_status connection = disconnected then rs_throw DisconnectedException else rs_ret connection)"

record CommunityHealthDto =
  hd_status :: CommunityConnectionStatus
  hd_checkedAt :: int
  hd_reason :: "string option"

text \<open>Everything after the lookup is in the \<^verbatim>\<open>try\<close> block, the writes too.\<close>

definition checkHealth :: "comm_env \<Rightarrow> string option \<Rightarrow> string \<Rightarrow> CommunityHealthDto comm" where
  "checkHealth env actor i =
     rs_bind (getUsableConnection i) (\<lambda>connection.
     rs_bind (platforms_get (row_platform connection)) (\<lambda>_.
       rs_catch
         (rs_bind (probe env (row_platform connection) (row_externalId connection)) (\<lambda>p.
          rs_bind (recordProbeSuccess env connection p) (\<lambda>_.
          rs_bind (recordOutcome actor connection healthCheck None (changesState connection active None)) (\<lambda>_.
            rs_ret \<lparr>hd_status = active, hd_checkedAt = cv_now env, hd_reason = None\<rparr>))))
         (\<lambda>err. (let category = toErrorCategory err; status = statusForFailure category
           in rs_bind (recordProbeFailure env connection category) (\<lambda>_.
              rs_bind (recordOutcome actor connection healthCheck (Some category) (changesState connection status (Some category))) (\<lambda>_.
                rs_ret \<lparr>hd_status = status, hd_checkedAt = cv_now env, hd_reason = Some category\<rparr>))))))"

definition readResources :: "comm_env \<Rightarrow> CommunityConnectionRow \<Rightarrow> string option \<Rightarrow> CommunityResource list comm" where
  "readResources env connection actor =
     rs_bind (platforms_get (row_platform connection)) (\<lambda>_.
       rs_catch
         (rs_bind (client_listResources env (row_platform connection) (row_externalId connection)) (\<lambda>resources.
          rs_bind (recordOutcome actor connection listResources_action None False) (\<lambda>_. rs_ret resources)))
         (\<lambda>err. (let category = toErrorCategory err; status = statusForFailure category
           in rs_bind (recordProbeFailure env connection category) (\<lambda>_.
              rs_bind (recordOutcome actor connection listResources_action (Some category) (changesState connection status (Some category))) (\<lambda>_.
                rs_throw err)))))"

definition listResources :: "comm_env \<Rightarrow> string \<Rightarrow> string \<Rightarrow> CommunityResource list comm" where
  "listResources env actor i =
     rs_bind (getUsableConnection i) (\<lambda>connection.
       rs_catch (readResources env connection (Some actor)) (\<lambda>err. rs_throw (PlatformException (toErrorCategory err))))"

definition disconnect :: "comm_env \<Rightarrow> string \<Rightarrow> string \<Rightarrow> unit comm" where
  "disconnect env actor i =
     rs_bind (getConnectionOrThrow i) (\<lambda>connection.
     rs_bind
       (rs_catch (rs_bind (platforms_get (row_platform connection)) (\<lambda>_. revokeAccess env (row_platform connection) (row_externalId connection)))
         (\<lambda>err. (let category = toErrorCategory err
           in rs_bind (recordProbeFailure env connection category) (\<lambda>_.
              rs_bind (recordOutcome (Some actor) connection disconnected_action (Some category) True) (\<lambda>_.
                rs_throw (PlatformException category)))))) (\<lambda>_.
     rs_bind (recordOutcome (Some actor) connection disconnected_action None True) (\<lambda>_.
     rs_bind (deleteById (row_id connection)) (\<lambda>_. rs_ret ()))))"

section \<open>Connecting\<close>

text \<open>The redirect of a callback: connected, or the category of the failure.\<close>

datatype redirect = Connected string | Failed string string

definition failCallback :: "string \<Rightarrow> string \<Rightarrow> string \<Rightarrow> string option \<Rightarrow> redirect comm" where
  "failCallback actor platform category connectionId =
     rs_bind (audit_record \<lparr>ca_connectionId = connectionId, ca_platform = platform, ca_actorUserId = Some actor, ca_action = connect,
       ca_outcome = failure, ca_errorCategory = Some category\<rparr>) (\<lambda>_. rs_ret (Failed category platform))"

definition pending_install :: "string \<Rightarrow> string \<Rightarrow> string \<Rightarrow> string option \<Rightarrow> UpsertCommunityConnectionInput" where
  "pending_install platform externalId name credential =
     \<lparr>ui_platform = platform, ui_externalId = externalId, ui_name = name, ui_status = pending, ui_credentialsCiphertext = credential\<rparr>"

definition completeConnect :: "comm_env \<Rightarrow> string \<Rightarrow> string \<Rightarrow> (string \<times> string) comm \<Rightarrow> redirect comm" where
  "completeConnect env actor platform resolveCommunity =
     rs_bind (rs_catch (rs_bind resolveCommunity (\<lambda>(externalId, name).
                  rs_bind (upsertFromInstall env (pending_install platform externalId name None)) (\<lambda>c. rs_ret (Inr (externalId, c)))))
                (\<lambda>err. rs_ret (Inl err))) (\<lambda>r.
       case r of
         Inl err \<Rightarrow> failCallback actor platform (toErrorCategory err) None
       | Inr (externalId, connection) \<Rightarrow>
           rs_catch
             (rs_bind (platforms_get platform) (\<lambda>_.
              rs_bind (probe env platform externalId) (\<lambda>p.
              rs_bind (recordProbeSuccess env connection p) (\<lambda>_.
              rs_bind (audit_record \<lparr>ca_connectionId = Some (row_id connection), ca_platform = platform, ca_actorUserId = Some actor,
                 ca_action = connect, ca_outcome = success, ca_errorCategory = None\<rparr>) (\<lambda>_. rs_ret (Connected platform))))))
             (\<lambda>err. rs_bind (recordProbeFailure env connection (toErrorCategory err)) (\<lambda>_.
                failCallback actor platform (toErrorCategory err) (Some (row_id connection)))))"

definition truthy_str :: "string option \<Rightarrow> string option" where
  "truthy_str v = (case v of Some s \<Rightarrow> if s = [] then None else Some s | None \<Rightarrow> None)"

definition handleDiscordCallback :: "comm_env \<Rightarrow> string \<Rightarrow> string option \<Rightarrow> string option \<Rightarrow> string option \<Rightarrow> redirect comm" where
  "handleDiscordCallback env actor queryError code state =
     (if truthy_str queryError \<noteq> None then failCallback actor ''discord'' declined None
      else case truthy_str code of
             None \<Rightarrow> failCallback actor ''discord'' invalidState None
           | Some c \<Rightarrow>
               if \<not> cv_verifyState env state ''discord'' then failCallback actor ''discord'' invalidState None
               else completeConnect env actor ''discord'' (cv_exchangeCode env c))"

definition handleGitHubCallback :: "comm_env \<Rightarrow> string \<Rightarrow> string option \<Rightarrow> string option \<Rightarrow> string option \<Rightarrow> redirect comm" where
  "handleGitHubCallback env actor installationId setupAction state =
     (if \<not> cv_verifyState env state ''github'' then failCallback actor ''github'' invalidState None
      else case truthy_str installationId of
             None \<Rightarrow> failCallback actor ''github'' (if setupAction = Some ''request'' then approvalRequired else declined) None
           | Some i \<Rightarrow> completeConnect env actor ''github'' (cv_confirmInstallation env i))"

definition failMattermost :: "string \<Rightarrow> CommunityAuditAction \<Rightarrow> string option \<Rightarrow> string \<Rightarrow> 'a comm" where
  "failMattermost actor action connectionId category =
     rs_bind (audit_record \<lparr>ca_connectionId = connectionId, ca_platform = MATTERMOST, ca_actorUserId = Some actor, ca_action = action,
       ca_outcome = failure, ca_errorCategory = Some category\<rparr>) (\<lambda>_. rs_throw (MattermostConnectException category))"

definition validateMattermost :: "comm_env \<Rightarrow> string \<Rightarrow> string \<Rightarrow> string \<Rightarrow> (string \<times> string) list comm" where
  "validateMattermost env actor serverUrl token =
     rs_catch
       (rs_bind (cv_validateToken env serverUrl token) (\<lambda>(_, teams).
        rs_bind (audit_record \<lparr>ca_connectionId = None, ca_platform = MATTERMOST, ca_actorUserId = Some actor, ca_action = validate,
          ca_outcome = success, ca_errorCategory = None\<rparr>) (\<lambda>_. rs_ret teams)))
       (\<lambda>err. failMattermost actor validate None (toErrorCategory err))"

definition connectMattermost :: "comm_env \<Rightarrow> string \<Rightarrow> string \<Rightarrow> string \<Rightarrow> string \<Rightarrow> CommunityConnectionRow comm" where
  "connectMattermost env actor requestUrl token teamId =
     rs_bind (rs_catch (cv_validateToken env requestUrl token) (\<lambda>err. failMattermost actor connect None (toErrorCategory err))) (\<lambda>(serverUrl, teams).
       case List.find (\<lambda>t. fst t = teamId) teams of
         None \<Rightarrow> failMattermost actor connect None teamNotFound
       | Some team \<Rightarrow>
           rs_bind (rs_lift (buildMattermostExternalId env serverUrl (fst team))) (\<lambda>externalId.
           rs_bind (upsertFromInstall env (pending_install MATTERMOST externalId (snd team) (Some (cv_seal env MATTERMOST externalId token)))) (\<lambda>connection.
             rs_catch
               (rs_bind (platforms_get MATTERMOST) (\<lambda>_.
                rs_bind (probe env MATTERMOST externalId) (\<lambda>p.
                rs_bind (recordProbeSuccess env connection p) (\<lambda>activeRow.
                rs_bind (recordOutcome (Some actor) connection connect None True) (\<lambda>_.
                  rs_ret (case activeRow of None \<Rightarrow> connection | Some r \<Rightarrow> r))))))
               (\<lambda>err. rs_bind (recordProbeFailure env connection (toErrorCategory err)) (\<lambda>_.
                  failMattermost actor connect (Some (row_id connection)) (toErrorCategory err))))))"

definition issueInstallUrl :: "comm_env \<Rightarrow> string \<Rightarrow> string \<Rightarrow> string option \<Rightarrow> string comm" where
  "issueInstallUrl env actor platform connectionId =
     rs_bind (case truthy_str connectionId of
                None \<Rightarrow> rs_ret None
              | Some i \<Rightarrow> rs_bind (getConnectionOrThrow i) (\<lambda>c. rs_ret (Some c))) (\<lambda>connection.
       if (case connection of None \<Rightarrow> False | Some c \<Rightarrow> row_platform c \<noteq> platform)
       then rs_throw (PlatformMismatch platform (row_platform (the connection)))
       else rs_bind (audit_record \<lparr>ca_connectionId = map_option row_id connection, ca_platform = platform, ca_actorUserId = Some actor,
              ca_action = installUrl, ca_outcome = success, ca_errorCategory = None\<rparr>) (\<lambda>_.
            rs_ret (cv_buildInstallUrl env platform (cv_issue env platform) (map_option row_externalId connection))))"

section \<open>What a row says\<close>

text \<open>
  An active row passed its last check; a broken one failed it with a category that needs a reconnect; a
  degraded one did not.
\<close>

definition row_ok :: "CommunityConnectionEntity \<Rightarrow> bool" where
  "row_ok e \<longleftrightarrow>
     (case en_status e of
        active \<Rightarrow> snd (readLastCheck (en_settings e)) = None \<and> fst (readLastCheck (en_settings e)) \<noteq> None
      | broken \<Rightarrow> (\<exists>c \<in> set BROKEN_CATEGORIES. snd (readLastCheck (en_settings e)) = Some c)
      | degraded \<Rightarrow> (\<forall>c \<in> set BROKEN_CATEGORIES. snd (readLastCheck (en_settings e)) \<noteq> Some c)
      | _ \<Rightarrow> True)"

lemma setting_check_settings:
  "setting ''lastCheck'' (check_settings settings inp)
    = JObj [(''at'', JNum (jint (rc_checkedAt inp))), (''category'', case rc_failureCategory inp of None \<Rightarrow> JNull | Some c \<Rightarrow> JStr c)]"
  by (simp add: setting_def check_settings_def update_conv')

lemma readLastCheck_check_settings:
  "readLastCheck (check_settings settings inp)
    = (Some (rc_checkedAt inp), case rc_failureCategory inp of None \<Rightarrow> None | Some c \<Rightarrow> if c = [] then None else Some c)"
  by (simp add: readLastCheck_def setting_check_settings Let_def read_instant_def jint_def split: option.split)

lemma broken_not_empty: "c \<in> set BROKEN_CATEGORIES \<Longrightarrow> c \<noteq> []"
  by (auto simp: BROKEN_CATEGORIES_def authFailed_def permissionDenied_def notFound_def outboundPolicy_def)

lemma row_ok_install: "ui_status inp = pending \<Longrightarrow> row_ok (applyInstall env existing inp)"
  by (auto simp: row_ok_def applyInstall_def split: option.split)

definition check_consistent :: "RecordCheckInput \<Rightarrow> bool" where
  "check_consistent inp \<longleftrightarrow> (case rc_failureCategory inp of None \<Rightarrow> rc_status inp = active | Some c \<Rightarrow> rc_status inp = statusForFailure c)"

lemma row_ok_check:
  assumes "check_consistent inp"
  shows "row_ok (e\<lparr>en_status := rc_status inp, en_settings := check_settings (en_settings e) inp, en_updatedAt := n\<rparr>)"
  using assms broken_not_empty
  by (auto simp: row_ok_def readLastCheck_check_settings check_consistent_def statusForFailure_def split: option.splits)

section \<open>What the handlers keep\<close>

text \<open>
  An invariant of the two tables that every save of a consistent row, every audit entry and every deletion
  keep is kept by every handler, if the other requests that run while one waits keep it too.
\<close>

definition env_keeps :: "(comm_state \<Rightarrow> bool) \<Rightarrow> comm_env \<Rightarrow> bool" where
  "env_keeps I env \<longleftrightarrow> (\<forall>st. I st \<longrightarrow> I (cv_yield env st))
     \<and> (\<forall>p x t. keeps_inv I (cv_probe env p x t)) \<and> (\<forall>p x t. keeps_inv I (cv_listResources env p x t))
     \<and> (\<forall>p x. keeps_inv I (cv_revokeAccess env p x)) \<and> (\<forall>c. keeps_inv I (cv_exchangeCode env c))
     \<and> (\<forall>i. keeps_inv I (cv_confirmInstallation env i)) \<and> (\<forall>u t. keeps_inv I (cv_validateToken env u t))"

locale comm_invariant =
  fixes I :: "comm_state \<Rightarrow> bool"
  assumes saved: "I st \<Longrightarrow> row_ok e \<Longrightarrow> I (snd (save e st))"
    and audited: "I st \<Longrightarrow> I (snd (audit_record a st))"
    and deleted: "I st \<Longrightarrow> I (snd (deleteById i st))"
begin

lemma keeps_save [keeps_rules]: "row_ok e \<Longrightarrow> keeps_inv I (save e)"
  using saved by (simp add: keeps_inv_def)

lemma keeps_audit [keeps_rules]: "keeps_inv I (audit_record a)"
  using audited by (simp add: keeps_inv_def)

lemma keeps_delete [keeps_rules]: "keeps_inv I (deleteById i)"
  using deleted by (simp add: keeps_inv_def)

lemma keeps_yield: "env_keeps I env \<Longrightarrow> keeps_inv I (yield_to_others env)"
  unfolding yield_to_others_def by (rule keeps_modify) (simp add: env_keeps_def)

lemma keeps_upsert:
  assumes "env_keeps I env" "ui_status inp = pending"
  shows "keeps_inv I (upsertFromInstall env inp)"
  unfolding upsertFromInstall_def Let_def
  by (intro keeps_rules keeps_yield assms row_ok_install)

lemma keeps_check:
  assumes "env_keeps I env" "check_consistent inp"
  shows "keeps_inv I (recordCheck env i inp)"
  unfolding recordCheck_def by (intro keeps_rules keeps_yield assms row_ok_check)

lemma keeps_success: "env_keeps I env \<Longrightarrow> keeps_inv I (recordProbeSuccess env c p)"
  unfolding recordProbeSuccess_def by (rule keeps_check) (simp_all add: check_consistent_def)

lemma keeps_failure: "env_keeps I env \<Longrightarrow> keeps_inv I (recordProbeFailure env c cat)"
  unfolding recordProbeFailure_def by (rule keeps_check) (simp_all add: check_consistent_def)

lemma keeps_outcome [keeps_rules]: "keeps_inv I (recordOutcome actor c action cat b)"
  unfolding recordOutcome_def by (intro keeps_rules)

lemma keeps_usable [keeps_rules]: "keeps_inv I (getConnectionOrThrow i)" "keeps_inv I (getUsableConnection i)" "keeps_inv I (platforms_get p)"
  unfolding getUsableConnection_def getConnectionOrThrow_def platforms_get_def by (intro keeps_rules)+

lemma keeps_target:
  "(\<And>t. keeps_inv I (f t)) \<Longrightarrow> keeps_inv I (withMattermostTarget env x f)"
  unfolding withMattermostTarget_def findCredentialsCiphertext_def by (intro keeps_rules)

lemma keeps_client:
  assumes "env_keeps I env"
  shows "keeps_inv I (probe env p x)" "keeps_inv I (client_listResources env p x)" "keeps_inv I (revokeAccess env p x)"
  using assms unfolding probe_def client_listResources_def revokeAccess_def
  by (auto simp: env_keeps_def intro!: keeps_rules keeps_target)

lemma keeps_callbacks [keeps_rules]:
  "keeps_inv I (failCallback actor platform cat i)" "keeps_inv I (failMattermost actor action i cat)"
  unfolding failCallback_def failMattermost_def by (intro keeps_rules)+

lemma keeps_checkHealth: "env_keeps I env \<Longrightarrow> keeps_inv I (checkHealth env actor i)"
  unfolding checkHealth_def Let_def by (intro keeps_rules keeps_success keeps_failure keeps_client)

lemma keeps_readResources: "env_keeps I env \<Longrightarrow> keeps_inv I (readResources env c actor)"
  unfolding readResources_def Let_def by (intro keeps_rules keeps_failure keeps_client)

lemma keeps_listResources: "env_keeps I env \<Longrightarrow> keeps_inv I (listResources env actor i)"
  unfolding listResources_def by (intro keeps_rules keeps_readResources)

lemma keeps_disconnect: "env_keeps I env \<Longrightarrow> keeps_inv I (disconnect env actor i)"
  unfolding disconnect_def Let_def by (intro keeps_rules keeps_failure keeps_client)

lemma keeps_sum: "(\<And>e. keeps_inv I (f e)) \<Longrightarrow> (\<And>a b. keeps_inv I (g a b)) \<Longrightarrow> keeps_inv I (case r of Inl e \<Rightarrow> f e | Inr (a, b) \<Rightarrow> g a b)"
  by (auto split: sum.split prod.split)

lemma keeps_connect:
  assumes "env_keeps I env" "keeps_inv I resolveCommunity"
  shows "keeps_inv I (completeConnect env actor platform resolveCommunity)"
  unfolding completeConnect_def
  by (intro keeps_rules keeps_sum keeps_upsert keeps_success keeps_failure keeps_client assms) (simp add: pending_install_def)

lemma keeps_discord: "env_keeps I env \<Longrightarrow> keeps_inv I (handleDiscordCallback env actor e c s)"
  unfolding handleDiscordCallback_def by (intro keeps_rules keeps_connect) (simp_all add: env_keeps_def)

lemma keeps_github: "env_keeps I env \<Longrightarrow> keeps_inv I (handleGitHubCallback env actor i a s)"
  unfolding handleGitHubCallback_def by (intro keeps_rules keeps_connect) (simp_all add: env_keeps_def)

lemma keeps_validate: "env_keeps I env \<Longrightarrow> keeps_inv I (validateMattermost env actor u t)"
  unfolding validateMattermost_def by (intro keeps_rules) (simp add: env_keeps_def)

lemma keeps_mattermost:
  assumes "env_keeps I env"
  shows "keeps_inv I (connectMattermost env actor u t team)"
proof -
  have "keeps_inv I (cv_validateToken env u t)" using assms by (simp add: env_keeps_def)
  then show ?thesis unfolding connectMattermost_def
    by (intro keeps_rules keeps_upsert keeps_success keeps_failure keeps_client assms) (simp_all add: pending_install_def)
qed

lemma keeps_install: "keeps_inv I (issueInstallUrl env actor platform i)"
  unfolding issueInstallUrl_def by (intro keeps_rules)

lemmas keeps_handlers = keeps_checkHealth keeps_readResources keeps_listResources keeps_disconnect keeps_discord keeps_github
  keeps_validate keeps_mattermost

end

section \<open>The tables stay consistent\<close>

definition comm_ok :: "comm_state \<Rightarrow> bool" where
  "comm_ok st \<longleftrightarrow> distinct (map en_id (cs_connections st)) \<and> distinct (map (\<lambda>e. (en_platform e, en_externalId e)) (cs_connections st))
     \<and> list_all row_ok (cs_connections st)
     \<and> (\<forall>a \<in> set (cs_audit st). \<forall>i. ca_connectionId a = Some i \<longrightarrow> i \<in> en_id ` set (cs_connections st))"

lemma find_connection_None: "find_connection i st = None \<longleftrightarrow> i \<notin> en_id ` set (cs_connections st)"
  by (auto simp: find_connection_def find_None_iff)

lemma tbl_update_id: "map en_id (tbl_update (\<lambda>e. en_id e = en_id en) (\<lambda>_. en) rows) = map en_id rows"
  by (simp add: tbl_update_def comp_def)

lemma distinct_key_update:
  assumes "distinct (map en_id rows)" "distinct (map k rows)" "\<forall>e \<in> set rows. en_id e \<noteq> en_id en \<longrightarrow> k e \<noteq> k en"
  shows "distinct (map k (tbl_update (\<lambda>e. en_id e = en_id en) (\<lambda>_. en) rows))"
  using assms
proof (induction rows)
  case (Cons r rows)
  have d: "distinct (map k (tbl_update (\<lambda>e. en_id e = en_id en) (\<lambda>_. en) rows))" using Cons by simp
  show ?case
  proof (cases "en_id r = en_id en")
    case True
    then have "en_id en \<notin> en_id ` set rows" using Cons.prems(1) by simp
    then have "\<forall>e \<in> set rows. en_id e \<noteq> en_id en" by (metis image_eqI)
    moreover from this have "tbl_update (\<lambda>e. en_id e = en_id en) (\<lambda>_. en) rows = rows" by (auto simp: tbl_update_def intro!: map_idI)
    ultimately show ?thesis using True Cons.prems by (auto simp: tbl_update_def)
  next
    case False
    then have "k r \<noteq> k en" "k r \<notin> k ` set rows" using Cons.prems by simp_all
    then have "k r \<notin> k ` set (tbl_update (\<lambda>e. en_id e = en_id en) (\<lambda>_. en) rows)" by (auto simp: tbl_update_def split: if_splits)
    moreover have "tbl_update (\<lambda>e. en_id e = en_id en) (\<lambda>_. en) (r # rows) = r # tbl_update (\<lambda>e. en_id e = en_id en) (\<lambda>_. en) rows"
      using False by (simp add: tbl_update_def)
    ultimately show ?thesis using d by simp
  qed
qed (simp add: tbl_update_def)

lemma save_keeps_ok:
  assumes "comm_ok st" "row_ok e"
  shows "comm_ok (snd (save e st))"
proof (cases "list_ex (\<lambda>r. en_id r \<noteq> en_id e \<and> en_platform r = en_platform e \<and> en_externalId r = en_externalId e) (cs_connections st)")
  case False
  then have u: "\<forall>r \<in> set (cs_connections st). en_id r \<noteq> en_id e \<longrightarrow> (en_platform r, en_externalId r) \<noteq> (en_platform e, en_externalId e)"
    by (auto simp: list_ex_iff)
  show ?thesis
  proof (cases "find_connection (en_id e) st")
    case None
    then have n: "en_id e \<notin> en_id ` set (cs_connections st)" by (simp add: find_connection_None)
    then have "(en_platform e, en_externalId e) \<notin> (\<lambda>e. (en_platform e, en_externalId e)) ` set (cs_connections st)" using u by (metis (mono_tags, lifting) image_iff)
    then show ?thesis using assms False None n by (auto simp: comm_ok_def save_def)
  next
    case (Some r)
    let ?rows = "tbl_update (\<lambda>r. en_id r = en_id e) (\<lambda>_. e) (cs_connections st)"
    have "distinct (map (\<lambda>e. (en_platform e, en_externalId e)) ?rows)" using assms(1) u by (intro distinct_key_update) (auto simp: comm_ok_def)
    moreover have "list_all row_ok ?rows" using assms by (auto simp: comm_ok_def list_all_iff tbl_update_def)
    moreover have "en_id ` set ?rows = en_id ` set (cs_connections st)" using tbl_update_id[of e "cs_connections st"] by (metis set_map)
    ultimately show ?thesis using assms(1) False Some by (simp add: comm_ok_def save_def tbl_update_id)
  qed
qed (use assms in \<open>simp add: save_def\<close>)

lemma ids_tbl_delete: "en_id ` set (tbl_delete (\<lambda>e. en_id e = i) rows) = en_id ` set rows - {i}"
  by (auto simp: tbl_delete_def)

interpretation ok: comm_invariant comm_ok
proof
  fix st e assume "comm_ok st" "row_ok e"
  then show "comm_ok (snd (save e st))" by (rule save_keeps_ok)
next
  fix st a assume "comm_ok st"
  then show "comm_ok (snd (audit_record a st))"
    by (auto simp: comm_ok_def audit_record_def find_connection_None split: option.split)
next
  fix st i assume "comm_ok st"
  then show "comm_ok (snd (deleteById i st))"
    by (auto simp: comm_ok_def deleteById_def ids_tbl_delete tbl_update_def list_all_iff distinct_map_tbl_delete)
      (simp add: tbl_delete_def)
qed

text \<open>An audit entry is kept; at most its connection is forgotten.\<close>

definition audit_has :: "CommunityConnectionAudit \<Rightarrow> comm_state \<Rightarrow> bool" where
  "audit_has a st \<longleftrightarrow> (\<exists>b \<in> set (cs_audit st). b\<lparr>ca_connectionId := None\<rparr> = a\<lparr>ca_connectionId := None\<rparr>)"

lemma audit_hasI: "b \<in> set (cs_audit st) \<Longrightarrow> b\<lparr>ca_connectionId := None\<rparr> = a\<lparr>ca_connectionId := None\<rparr> \<Longrightarrow> audit_has a st"
  by (auto simp: audit_has_def)

interpretation kept: comm_invariant "audit_has a" for a
proof
  fix st e assume "audit_has a st"
  then show "audit_has a (snd (save e st))" by (simp add: audit_has_def save_def)
next
  fix st b assume "audit_has a st"
  then show "audit_has a (snd (audit_record b st))" by (auto simp: audit_has_def audit_record_def split: option.split)
next
  fix st i assume "audit_has a st"
  then obtain b where "b \<in> set (cs_audit st)" "b\<lparr>ca_connectionId := None\<rparr> = a\<lparr>ca_connectionId := None\<rparr>" by (auto simp: audit_has_def)
  then show "audit_has a (snd (deleteById i st))"
    by (intro audit_hasI[of "if ca_connectionId b = Some i then b\<lparr>ca_connectionId := None\<rparr> else b"])
      (simp_all add: deleteById_def tbl_update_def del: if_image_distrib)
qed

datatype comm_request =
    CheckHealth "string option" string
  | ListResources string string
  | Disconnect string string
  | DiscordCallback string "string option" "string option" "string option"
  | GitHubCallback string "string option" "string option" "string option"
  | ValidateMattermost string string string
  | ConnectMattermost string string string string
  | InstallUrl string string "string option"

text \<open>Whether a request is answered without an error, and what it leaves in the tables.\<close>

definition answered :: "('e + 'a) \<times> 's \<Rightarrow> bool \<times> 's" where
  "answered r = (case fst r of Inl _ \<Rightarrow> False | Inr _ \<Rightarrow> True, snd r)"

fun handle :: "comm_env \<Rightarrow> comm_request \<Rightarrow> comm_state \<Rightarrow> bool \<times> comm_state" where
  "handle env (CheckHealth actor i) st = answered (checkHealth env actor i st)"
| "handle env (ListResources actor i) st = answered (listResources env actor i st)"
| "handle env (Disconnect actor i) st = answered (disconnect env actor i st)"
| "handle env (DiscordCallback actor e c s) st = answered (handleDiscordCallback env actor e c s st)"
| "handle env (GitHubCallback actor i a s) st = answered (handleGitHubCallback env actor i a s st)"
| "handle env (ValidateMattermost actor u t) st = answered (validateMattermost env actor u t st)"
| "handle env (ConnectMattermost actor u t team) st = answered (connectMattermost env actor u t team st)"
| "handle env (InstallUrl actor p i) st = answered (issueInstallUrl env actor p i st)"

lemma handle_keeps_ok:
  assumes "env_keeps comm_ok env" "comm_ok st"
  shows "comm_ok (snd (handle env req st))"
  using assms ok.keeps_handlers[OF assms(1)] ok.keeps_install by (cases req) (auto simp: keeps_inv_def answered_def)

lemma handle_keeps_audit:
  assumes "env_keeps (audit_has a) env" "audit_has a st"
  shows "audit_has a (snd (handle env req st))"
  using assms kept.keeps_handlers[OF assms(1)] kept.keeps_install by (cases req) (auto simp: keeps_inv_def answered_def)

text \<open>
  C29: Whatever requests are served, and whatever other requests do while one of them waits for a platform or for
  the database: no community has two connections, an active connection passed its last check, a broken one failed
  it with a category that needs a reconnect, and an audit entry names no deleted connection.
\<close>

theorem connections_stay_consistent:
  assumes "comm_ok st" "\<forall>(env, req) \<in> set requests. env_keeps comm_ok env"
  shows "comm_ok (foldl (\<lambda>st (env, req). snd (handle env req st)) st requests)"
  using assms handle_keeps_ok by (induction requests arbitrary: st) auto

text \<open>
  An audit entry is never lost: whatever requests follow, an entry with the same actor, action and outcome
  stays in the table, even after its connection is deleted.
\<close>

lemma audit_is_append_only:
  assumes "a \<in> set (cs_audit st)" "\<forall>(env, req) \<in> set requests. \<forall>b. env_keeps (audit_has b) env"
  shows "\<exists>b \<in> set (cs_audit (foldl (\<lambda>st (env, req). snd (handle env req st)) st requests)).
    ca_actorUserId b = ca_actorUserId a \<and> ca_action b = ca_action a \<and> ca_outcome b = ca_outcome a
    \<and> ca_platform b = ca_platform a \<and> ca_errorCategory b = ca_errorCategory a"
proof -
  have "audit_has a st" using assms(1) by (auto simp: audit_has_def)
  then have "audit_has a (foldl (\<lambda>st (env, req). snd (handle env req st)) st requests)"
    using assms(2) handle_keeps_audit by (induction requests arbitrary: st) auto
  then obtain b where "b \<in> set (cs_audit (foldl (\<lambda>st (env, req). snd (handle env req st)) st requests))"
    "b\<lparr>ca_connectionId := None\<rparr> = a\<lparr>ca_connectionId := None\<rparr>" by (auto simp: audit_has_def)
  then show ?thesis by (intro bexI[of _ b]) (cases a; cases b; simp)+
qed

section \<open>What people do is on the record\<close>

definition entries :: "string \<Rightarrow> CommunityAuditAction \<Rightarrow> comm_state \<Rightarrow> nat" where
  "entries actor action st = length (filter (\<lambda>a. ca_actorUserId a = Some actor \<and> ca_action a = action) (cs_audit st))"

definition recorded :: "string \<Rightarrow> CommunityAuditAction \<Rightarrow> nat \<Rightarrow> comm_state \<Rightarrow> bool" where
  "recorded actor action n st \<longleftrightarrow> n \<le> entries actor action st"

lemma entries_save: "entries actor action (snd (save e st)) = entries actor action st"
  by (simp add: save_def entries_def)

lemma entries_audit: "entries actor action st \<le> entries actor action (snd (audit_record a st))"
  by (simp add: audit_record_def entries_def split: option.split)

lemma entries_delete: "entries actor action (snd (deleteById i st)) = entries actor action st"
  by (simp add: deleteById_def entries_def tbl_update_def filter_map comp_def if_distrib cong: if_cong)

interpretation counted: comm_invariant "recorded actor action n" for actor action n
  by unfold_locales (auto simp: recorded_def entries_save entries_delete intro: le_trans[OF _ entries_audit])

text \<open>A computation that, when it returns, has added an entry for the person and the action.\<close>

definition records :: "string \<Rightarrow> CommunityAuditAction \<Rightarrow> nat \<Rightarrow> 'a comm \<Rightarrow> bool" where
  "records actor action n m \<longleftrightarrow>
     triple (recorded actor action n) m (\<lambda>_. recorded actor action (Suc n)) (\<lambda>_. recorded actor action n)"

lemma records_bind:
  "keeps_inv (recorded actor action n) m \<Longrightarrow> (\<And>x. records actor action n (f x)) \<Longrightarrow> records actor action n (rs_bind m f)"
  unfolding records_def keeps_triple by (rule triple_bind)

lemma records_catch: "records actor action n m \<Longrightarrow> (\<And>e. records actor action n (h e)) \<Longrightarrow> records actor action n (rs_catch m h)"
  unfolding records_def by (rule triple_catch)

lemma records_throw: "records actor action n (rs_throw e)"
  unfolding records_def by (rule triple_throw)

lemma records_audit_ret:
  "ca_actorUserId a = Some actor \<Longrightarrow> ca_action a = action \<Longrightarrow> records actor action n (rs_bind (audit_record a) (\<lambda>_. rs_ret x))"
  by (auto simp: records_def triple_def rs_bind_def audit_record_def rs_ret_def recorded_def entries_def split: option.splits)

lemma records_outcome_ret: "records actor action n (rs_bind (recordOutcome (Some actor) c action cat b) (\<lambda>_. rs_ret x))"
  unfolding recordOutcome_def by (simp add: records_audit_ret)

lemma records_outcome_delete:
  "records actor action n (rs_bind (recordOutcome (Some actor) c action cat b) (\<lambda>_. rs_bind (deleteById i) (\<lambda>_. rs_ret x)))"
proof -
  have d: "triple (recorded actor action (Suc n)) (deleteById i) (\<lambda>_. recorded actor action (Suc n)) (\<lambda>_. recorded actor action n)"
    using counted.keeps_delete[of actor action "Suc n" i, unfolded keeps_triple] by (rule triple_weaken) (simp_all add: recorded_def)
  have "triple (recorded actor action n) (recordOutcome (Some actor) c action cat b) (\<lambda>_. recorded actor action (Suc n)) (\<lambda>_. recorded actor action n)"
    by (auto simp: recordOutcome_def triple_def audit_record_def recorded_def entries_def split: option.splits)
  then show ?thesis unfolding records_def by (intro triple_bind[OF _ triple_bind[OF d]] triple_ret)
qed

lemma records_fail: "keeps_inv (recorded actor action n) m \<Longrightarrow> records actor action n (rs_bind m (\<lambda>_. rs_throw e))"
  by (intro records_bind records_throw)

lemma records_failMattermost: "records actor action n (failMattermost actor' action' i cat)"
  unfolding failMattermost_def by (intro records_fail keeps_rules)

lemma records_failCallback: "records actor connect n (failCallback actor p cat i)"
  unfolding failCallback_def by (rule records_audit_ret) simp_all

lemma records_option: "(\<And>y. records actor action n (f y)) \<Longrightarrow> records actor action n m \<Longrightarrow> records actor action n (case x of None \<Rightarrow> m | Some y \<Rightarrow> f y)"
  by (cases x) simp_all

lemma records_prod: "(\<And>a b. records actor action n (f a b)) \<Longrightarrow> records actor action n (case x of (a, b) \<Rightarrow> f a b)"
  by (cases x) simp

lemma records_if: "records actor action n m \<Longrightarrow> records actor action n m' \<Longrightarrow> records actor action n (if b then m else m')"
  by simp

lemma records_sum: "(\<And>e. records actor action n (f e)) \<Longrightarrow> (\<And>a b. records actor action n (g a b)) \<Longrightarrow> records actor action n (case r of Inl e \<Rightarrow> f e | Inr (a, b) \<Rightarrow> g a b)"
  by (auto split: sum.split prod.split)

lemmas records_rules = records_throw records_outcome_delete records_outcome_ret records_failCallback records_failMattermost
  records_catch records_option records_prod records_if records_sum

lemmas counted_rules = counted.keeps_success counted.keeps_failure counted.keeps_client counted.keeps_upsert keeps_rules

lemma records_checkHealth: "env_keeps (recorded actor healthCheck n) env \<Longrightarrow> records actor healthCheck n (checkHealth env (Some actor) i)"
  unfolding checkHealth_def Let_def by (intro records_rules records_bind counted_rules)

lemma records_listResources:
  "env_keeps (recorded actor listResources_action n) env \<Longrightarrow> records actor listResources_action n (listResources env actor i)"
  unfolding listResources_def readResources_def Let_def by (intro records_rules records_bind counted_rules)

lemma records_disconnect: "env_keeps (recorded actor disconnected_action n) env \<Longrightarrow> records actor disconnected_action n (disconnect env actor i)"
  unfolding disconnect_def Let_def by (intro records_rules records_bind counted_rules)

lemma records_audit_ret_connect: "records actor connect n (rs_bind (audit_record \<lparr>ca_connectionId = i, ca_platform = p, ca_actorUserId = Some actor,
   ca_action = connect, ca_outcome = r, ca_errorCategory = c\<rparr>) (\<lambda>_. rs_ret x))"
  by (rule records_audit_ret) simp_all

lemma records_completeConnect:
  "env_keeps (recorded actor connect n) env \<Longrightarrow> keeps_inv (recorded actor connect n) m \<Longrightarrow> records actor connect n (completeConnect env actor p m)"
  unfolding completeConnect_def
  by (intro records_audit_ret_connect records_rules records_bind counted_rules) (simp_all add: pending_install_def)

lemma records_callbacks:
  assumes "env_keeps (recorded actor connect n) env"
  shows "records actor connect n (handleDiscordCallback env actor e c s)" "records actor connect n (handleGitHubCallback env actor j a s)"
  using assms unfolding handleDiscordCallback_def handleGitHubCallback_def
  by (intro records_rules records_completeConnect; simp add: env_keeps_def)+

lemma records_validate: "env_keeps (recorded actor validate n) env \<Longrightarrow> records actor validate n (validateMattermost env actor u t)"
  unfolding validateMattermost_def
  by (intro records_audit_ret records_rules records_bind) (simp_all add: env_keeps_def)

lemma records_connectMattermost:
  "env_keeps (recorded actor connect n) env \<Longrightarrow> records actor connect n (connectMattermost env actor u t team)"
  unfolding connectMattermost_def
  by (intro records_rules records_bind counted_rules) (simp_all add: pending_install_def env_keeps_def)

lemma records_install: "records actor installUrl n (issueInstallUrl env actor p i)"
  unfolding issueInstallUrl_def by (intro records_rules records_bind records_audit_ret counted_rules) simp_all

fun actor_of :: "comm_request \<Rightarrow> string option" where
  "actor_of (CheckHealth actor _) = actor"
| "actor_of (ListResources actor _) = Some actor"
| "actor_of (Disconnect actor _) = Some actor"
| "actor_of (DiscordCallback actor _ _ _) = Some actor"
| "actor_of (GitHubCallback actor _ _ _) = Some actor"
| "actor_of (ValidateMattermost actor _ _) = Some actor"
| "actor_of (ConnectMattermost actor _ _ _) = Some actor"
| "actor_of (InstallUrl actor _ _) = Some actor"

fun action_of :: "comm_request \<Rightarrow> CommunityAuditAction" where
  "action_of (CheckHealth _ _) = healthCheck"
| "action_of (ListResources _ _) = listResources_action"
| "action_of (Disconnect _ _) = disconnected_action"
| "action_of (DiscordCallback _ _ _ _) = connect"
| "action_of (GitHubCallback _ _ _ _) = connect"
| "action_of (ValidateMattermost _ _ _) = validate"
| "action_of (ConnectMattermost _ _ _ _) = connect"
| "action_of (InstallUrl _ _ _) = installUrl"

lemma records_answered:
  assumes "records actor action n m" "recorded actor action n st" "answered (m st) = (True, st')"
  shows "recorded actor action (Suc n) st'"
proof -
  obtain x where "m st = (Inr x, st')" using assms(3) by (cases "m st"; cases "fst (m st)") (auto simp: answered_def)
  then show ?thesis using assms(1,2) by (auto simp: records_def dest: triple_Inr)
qed

text \<open>
  Whatever a person does to a connection and the service answers without an error, the audit has a new entry with
  the person and the action, whatever other requests do meanwhile (they never remove entries).
\<close>

lemma human_actions_are_on_record:
  assumes "env_keeps (recorded actor (action_of req) (entries actor (action_of req) st)) env"
    and "actor_of req = Some actor" "handle env req st = (True, st')"
  shows "entries actor (action_of req) st < entries actor (action_of req) st'"
proof -
  let ?n = "entries actor (action_of req) st"
  have "recorded actor (action_of req) ?n st" by (simp add: recorded_def)
  then have "recorded actor (action_of req) (Suc ?n) st'"
    using assms by (cases req; simp; elim records_answered[rotated 2])
      (simp_all add: records_checkHealth records_listResources records_disconnect records_callbacks records_validate
        records_connectMattermost records_install)
  then show ?thesis by (simp add: recorded_def)
qed

section \<open>Disconnecting, and checks that overlap it\<close>

lemma mapRow_simps [simp]: "row_id (mapRow e) = en_id e" "row_platform (mapRow e) = en_platform e" "row_externalId (mapRow e) = en_externalId e"
  "row_status (mapRow e) = en_status e"
  by (simp_all add: mapRow_def)

lemma find_connection_id: "find_connection i st = Some e \<Longrightarrow> en_id e = i"
  by (auto simp: find_connection_def find_Some_iff)

lemma find_connection_in: "find_connection i st = Some e \<Longrightarrow> e \<in> set (cs_connections st)"
  by (auto simp: find_connection_def find_Some_iff)

lemma getConnection_run: "find_connection i st = Some e \<Longrightarrow> getConnectionOrThrow i st = (Inr (mapRow e), st)"
  by (simp add: getConnectionOrThrow_def rs_defs)

lemma getUsable_run: "find_connection i st = Some e \<Longrightarrow> en_status e \<noteq> disconnected \<Longrightarrow> getUsableConnection i st = (Inr (mapRow e), st)"
  by (simp add: getUsableConnection_def rs_bind_def getConnection_run rs_ret_def)

lemma platforms_run: "p \<in> set SUPPORTED \<Longrightarrow> platforms_get p st = (Inr (), st)"
  by (simp add: platforms_get_def rs_ret_def)

lemma find_connection_tbl_update:
  assumes "find_connection i st = Some e" "en_id en = i"
  shows "List.find (\<lambda>e. en_id e = i) (tbl_update (\<lambda>e. en_id e = i) (\<lambda>_. en) (cs_connections st)) = Some en"
proof -
  have "List.find (\<lambda>e. en_id e = i) (tbl_update (\<lambda>e. en_id e = i) (\<lambda>_. en) rows) = Some en" if "List.find (\<lambda>e. en_id e = i) rows = Some e" for rows
    using that assms(2) by (induction rows) (auto simp: tbl_update_def split: if_splits)
  then show ?thesis using assms(1) by (simp add: find_connection_def)
qed

lemma save_run:
  assumes "comm_ok st" "find_connection i st = Some e" "en_id en = i" "en_platform en = en_platform e" "en_externalId en = en_externalId e"
  shows "\<exists>st'. save en st = (Inr en, st') \<and> find_connection i st' = Some en \<and> cs_audit st' = cs_audit st"
proof -
  have "\<not> list_ex (\<lambda>r. en_id r \<noteq> en_id en \<and> en_platform r = en_platform en \<and> en_externalId r = en_externalId en) (cs_connections st)"
    using assms find_connection_in[OF assms(2)] find_connection_id[OF assms(2)]
    by (auto simp: list_ex_iff comm_ok_def distinct_map dest: inj_onD)
  then show ?thesis using assms find_connection_tbl_update[OF assms(2,3)] by (simp add: save_def find_connection_def)
qed

text \<open>
  When the platform refuses to revoke access, the connection is not deleted: the request fails with the
  category, and the row stays and carries the failure.
\<close>

lemma refused_disconnect_keeps_connection:
  assumes "comm_ok st" "find_connection i st = Some e" "en_platform e \<in> set SUPPORTED - {MATTERMOST}" "\<And>s. cv_yield env s = s"
    and "cv_revokeAccess env (en_platform e) (en_externalId e) st = (Inl err, st)"
  shows "fst (disconnect env actor i st) = Inl (PlatformException (toErrorCategory err))
    \<and> (\<exists>e'. find_connection i (snd (disconnect env actor i st)) = Some e' \<and> en_status e' = statusForFailure (toErrorCategory err)
      \<and> en_credentialsCiphertext e' = en_credentialsCiphertext e)"
proof -
  let ?inp = "\<lparr>rc_status = statusForFailure (toErrorCategory err), rc_checkedAt = cv_now env, rc_failureCategory = Some (toErrorCategory err),
       rc_metadata = None, rc_resourcesDigest = None\<rparr>"
  let ?e = "e\<lparr>en_status := rc_status ?inp, en_settings := check_settings (en_settings e) ?inp, en_updatedAt := cv_now env\<rparr>"
  obtain st1 where s: "save ?e st = (Inr ?e, st1)" "find_connection i st1 = Some ?e"
    using save_run[OF assms(1,2), of ?e] find_connection_id[OF assms(2)] by auto
  have c: "recordProbeFailure env (mapRow e) (toErrorCategory err) st = (Inr (Some (mapRow ?e)), st1)"
    using s assms(2,4) find_connection_id[OF assms(2)]
    by (simp add: recordProbeFailure_def recordCheck_def rs_defs yield_to_others_def)
  have "disconnect env actor i st = (Inl (PlatformException (toErrorCategory err)), st1\<lparr>cs_audit := cs_audit st1 @ [\<lparr>ca_connectionId = Some i,
      ca_platform = en_platform e, ca_actorUserId = Some actor, ca_action = disconnected_action, ca_outcome = failure,
      ca_errorCategory = Some (toErrorCategory err)\<rparr>]\<rparr>)"
    using assms(3,5) c s(2) find_connection_id[OF assms(2)]
    by (simp add: disconnect_def rs_bind_def rs_catch_def getConnection_run[OF assms(2)] platforms_run revokeAccess_def
        recordOutcome_def audit_record_def Let_def rs_throw_def)
  then show ?thesis using s(2) by (simp add: find_connection_def)
qed

lemma save_after_delete:
  assumes "comm_ok st" "find_connection i st = Some e" "en_id en = i" "en_platform en = en_platform e" "en_externalId en = en_externalId e"
  shows "\<exists>st'. save en (snd (deleteById i st)) = (Inr en, st') \<and> find_connection i st' = Some en"
proof -
  have k: "r = e" if "r \<in> set (cs_connections st)" "en_platform r = en_platform e" "en_externalId r = en_externalId e" for r
    using that assms(1) find_connection_in[OF assms(2)] by (auto simp: comm_ok_def distinct_map dest: inj_onD)
  have "\<not> list_ex (\<lambda>r. en_id r \<noteq> en_id en \<and> en_platform r = en_platform en \<and> en_externalId r = en_externalId en)
     (cs_connections (snd (deleteById i st)))"
    using k assms find_connection_id[OF assms(2)] by (auto simp: list_ex_iff deleteById_def tbl_delete_def)
  moreover have n: "find_connection i (snd (deleteById i st)) = None" by (simp add: find_connection_def deleteById_def find_tbl_delete_same)
  ultimately show ?thesis using assms(3) by (auto simp: save_def find_connection_def find_append)
qed

text \<open>
  A health check that overlaps a disconnect undoes it: the row is deleted between the moment the check reads it and
  the moment it saves it, and the save inserts it again as an active connection, with its credential.
\<close>

lemma deleted_connection_reappears:
  assumes "comm_ok st" "find_connection i st = Some e" "en_status e \<noteq> disconnected" "en_platform e \<in> set SUPPORTED - {MATTERMOST}"
    and "cv_probe env (en_platform e) (en_externalId e) None st = (Inr p, st)" "\<And>s. cv_yield env s = snd (deleteById i s)"
  shows "\<exists>e'. find_connection i (snd (checkHealth env actor i st)) = Some e' \<and> en_status e' = active
     \<and> en_credentialsCiphertext e' = en_credentialsCiphertext e"
proof -
  let ?inp = "\<lparr>rc_status = active, rc_checkedAt = cv_now env, rc_failureCategory = None,
       rc_metadata = Some (metadata_json p), rc_resourcesDigest = Some (pr_resourcesDigest p)\<rparr>"
  let ?e = "e\<lparr>en_status := active, en_settings := check_settings (en_settings e) ?inp, en_updatedAt := cv_now env\<rparr>"
  obtain st1 where s: "save ?e (snd (deleteById i st)) = (Inr ?e, st1)" "find_connection i st1 = Some ?e"
    using save_after_delete[OF assms(1,2), of ?e] find_connection_id[OF assms(2)] by auto
  have c: "recordProbeSuccess env (mapRow e) p st = (Inr (Some (mapRow ?e)), st1)"
    using s assms(2,6) find_connection_id[OF assms(2)]
    by (simp add: recordProbeSuccess_def recordCheck_def rs_defs yield_to_others_def)
  obtain st2 where o: "recordOutcome actor (mapRow e) healthCheck None (changesState (mapRow e) active None) st1 = (Inr (), st2)"
    "cs_connections st2 = cs_connections st1"
    using s(2) find_connection_id[OF assms(2)]
    by (cases "actor = None \<and> \<not> changesState (mapRow e) active None") (auto simp: recordOutcome_def audit_record_def rs_ret_def)
  have "checkHealth env actor i st = (Inr \<lparr>hd_status = active, hd_checkedAt = cv_now env, hd_reason = None\<rparr>, st2)"
    using assms(4,5) c o by (simp add: checkHealth_def rs_bind_def rs_catch_def getUsable_run[OF assms(2,3)] platforms_run probe_def rs_ret_def)
  then show ?thesis using s(2) o(2) by (simp add: find_connection_def)
qed

section \<open>Install states\<close>

text \<open>
  The signature and the encoding of the payload (base64url of its JSON text) are arguments; \<open>is_parse\<close> is
  \<^verbatim>\<open>JSON.parse\<close> of the decoded text, None where it throws.
\<close>

record install_state_service =
  is_ttlSeconds :: int
  is_nonce :: string
  is_encode :: "json \<Rightarrow> string"
  is_parse :: "string \<Rightarrow> json option"
  is_sign :: "string \<Rightarrow> string"

definition install_payload :: "install_state_service \<Rightarrow> string \<Rightarrow> int \<Rightarrow> json" where
  "install_payload svc platform now =
     JObj [(''p'', JStr platform), (''n'', JStr (is_nonce svc)),
       (''e'', JNum (jadd (jint now) (jmul (jint (is_ttlSeconds svc)) (jint 1000))))]"

definition issue :: "install_state_service \<Rightarrow> string \<Rightarrow> int \<Rightarrow> string" where
  "issue svc platform now =
     (let encoded = is_encode svc (install_payload svc platform now)
      in encoded @ ''.'' @ is_sign svc encoded)"

definition install_decode :: "install_state_service \<Rightarrow> string \<Rightarrow> (string \<times> jsnum) option" where
  "install_decode svc encoded =
     (case is_parse svc encoded of
        None \<Rightarrow> None
      | Some payload \<Rightarrow>
          (case (js_string (jfield ''p'' payload), js_number (jfield ''e'' payload)) of
             (Some p, Some e) \<Rightarrow> Some (p, e)
           | _ \<Rightarrow> None))"

definition verify :: "install_state_service \<Rightarrow> string option \<Rightarrow> string \<Rightarrow> int \<Rightarrow> bool" where
  "verify svc state platform now =
     (case state of
        None \<Rightarrow> False
      | Some s \<Rightarrow>
          if s = [] then False
          else
            (case js_split (CHR ''.'') s of
               encoded # signature # _ \<Rightarrow>
                 encoded \<noteq> [] \<and> signature \<noteq> [] \<and> signature = is_sign svc encoded
                 \<and> (case install_decode svc encoded of None \<Rightarrow> False | Some (p, e) \<Rightarrow> p = platform \<and> jless (jint now) e)
             | _ \<Rightarrow> False))"

text \<open>base64url texts have no dot, and the encoding of the payload can be undone.\<close>

definition install_codec :: "install_state_service \<Rightarrow> json \<Rightarrow> bool" where
  "install_codec svc v \<longleftrightarrow>
     (is_parse svc (is_encode svc v) = Some v \<and> is_encode svc v \<noteq> [] \<and> CHR ''.'' \<notin> set (is_encode svc v))
     \<and> (\<forall>s. is_sign svc s \<noteq> [] \<and> CHR ''.'' \<notin> set (is_sign svc s))"

lemma js_split_two:
  assumes "CHR ''.'' \<notin> set a" "CHR ''.'' \<notin> set b" "tail = [] \<or> hd tail = CHR ''.''"
  shows "\<exists>rest. js_split (CHR ''.'') (a @ ''.'' @ b @ tail) = a # b # rest"
proof (cases tail)
  case (Cons c cs)
  then have "tail = CHR ''.'' # cs" using assms(3) by simp
  then show ?thesis using assms(1,2) js_split_append by simp
qed (use assms in \<open>simp add: js_split_append js_split_free\<close>)

text \<open>
  An issued install state is accepted for its platform and no other, as often as it comes, until exactly its
  expiry.  What follows a second dot is not part of the signed value, and the state is accepted with it too.
\<close>

lemma install_state_lifetime:
  assumes "install_codec svc (install_payload svc platform now)" "\<bar>is_ttlSeconds svc * 1000\<bar> \<le> 2 ^ 53" "\<bar>now + is_ttlSeconds svc * 1000\<bar> \<le> 2 ^ 53"
    and "tail = [] \<or> hd tail = CHR ''.''"
  shows "verify svc (Some (issue svc platform now @ tail)) platform' later
    \<longleftrightarrow> platform' = platform \<and> later < now + is_ttlSeconds svc * 1000"
proof -
  let ?v = "install_payload svc platform now"
  have v: "?v = JObj [(''p'', JStr platform), (''n'', JStr (is_nonce svc)), (''e'', JNum (jint (now + is_ttlSeconds svc * 1000)))]"
    unfolding install_payload_def jmul_int[OF assms(2)] jadd_int[OF assms(3)] ..
  obtain rest where "js_split (CHR ''.'') (is_encode svc ?v @ ''.'' @ is_sign svc (is_encode svc ?v) @ tail)
     = is_encode svc ?v # is_sign svc (is_encode svc ?v) # rest"
    using assms(1,4) js_split_two unfolding install_codec_def by blast
  moreover have "install_decode svc (is_encode svc ?v) = Some (platform, jint (now + is_ttlSeconds svc * 1000))"
    using assms(1) by (simp add: install_codec_def install_decode_def v js_string_def js_number_def)
  ultimately show ?thesis using assms(1)
    by (auto simp: verify_def issue_def Let_def install_codec_def jint_def)
qed

section \<open>Mattermost ids\<close>

lemma url_host_ok_origin:
  assumes "origin = scheme @ host" "scheme = ''https://'' \<or> scheme = ''http://''" "host \<noteq> []" "CHR ''/'' \<notin> set host"
  shows "url_host_ok origin"
  using assms by (auto simp: url_host_ok_def js_startsWith_def Let_def)

text \<open>
  The id of a Mattermost community gives its origin and its team back, for every origin of an http(s) server
  and every team id without a slash.
\<close>

lemma mattermost_id_roundtrip:
  assumes "cv_origin env serverUrl = Inr (scheme @ host)" "scheme = ''https://'' \<or> scheme = ''http://''" "host \<noteq> []" "CHR ''/'' \<notin> set host"
    and "teamId \<noteq> []" "CHR ''/'' \<notin> set teamId"
  shows "\<exists>externalId. buildMattermostExternalId env serverUrl teamId = Inr externalId
    \<and> parseMattermostExternalId externalId = Inr (scheme @ host, teamId)"
proof -
  have "js_lastIndexOf (CHR ''/'') ((scheme @ host) @ CHR ''/'' # teamId) = Some (length (scheme @ host))"
    using assms(6) by (rule js_lastIndexOf_append)
  then have "parseMattermostExternalId ((scheme @ host) @ CHR ''/'' # teamId) = Inr (scheme @ host, teamId)"
    using url_host_ok_origin[OF refl assms(2-4)] assms(3,5) by (simp add: parseMattermostExternalId_def)
  then show ?thesis using assms(1) by (simp add: buildMattermostExternalId_def)
qed

section \<open>Examples\<close>

definition sample_comm_env :: comm_env where
  "sample_comm_env =
     \<lparr>cv_now = 1000, cv_uuid = ''c2'', cv_yield = id, cv_probe = (\<lambda>_ _ _ st. (Inl (ApiError permissionDenied), st)),
      cv_listResources = (\<lambda>_ _ _ st. (Inr [], st)), cv_revokeAccess = (\<lambda>_ _ st. (Inl (ApiError authFailed), st)),
      cv_exchangeCode = (\<lambda>code st. (Inr (''guild'' @ code, ''Guild''), st)), cv_confirmInstallation = (\<lambda>i st. (Inr (i, ''Org''), st)),
      cv_validateToken = (\<lambda>_ _ st. (Inr (''https://m'', [(''t'', ''Team'')]), st)),
      cv_seal = (\<lambda>_ _ token. token), cv_open = (\<lambda>_ _ c. Inr c), cv_issue = (\<lambda>p. p), cv_verifyState = (\<lambda>s p. s = Some p),
      cv_buildInstallUrl = (\<lambda>p s _. p @ s), cv_origin = (\<lambda>u. Inr u)\<rparr>"

definition sample_connection :: CommunityConnectionEntity where
  "sample_connection =
     \<lparr>en_id = ''c1'', en_platform = ''discord'', en_externalId = ''g1'', en_name = ''Guild'', en_settings = JNull,
      en_credentialsCiphertext = None, en_status = pending, en_createdAt = 0, en_updatedAt = 0\<rparr>"

definition sample_comm_state :: comm_state where
  "sample_comm_state = \<lparr>cs_connections = [sample_connection], cs_audit = []\<rparr>"

lemma sample_env_keeps [simp]: "env_keeps I sample_comm_env"
  by (simp add: env_keeps_def sample_comm_env_def keeps_inv_def)

lemma sample_comm_ok [simp]: "comm_ok sample_comm_state"
  by (simp add: comm_ok_def sample_comm_state_def sample_connection_def row_ok_def)

lemma sample_connection_found [simp]: "find_connection ''c1'' sample_comm_state = Some sample_connection"
  by (simp add: find_connection_def sample_comm_state_def sample_connection_def)

theorem connections_stay_consistent_witness:
  "comm_ok (foldl (\<lambda>st (env, req). snd (handle env req st)) sample_comm_state
     [(sample_comm_env, CheckHealth None ''c1''), (sample_comm_env, DiscordCallback ''u'' None (Some ''2'') (Some ''discord''))])"
  by (rule connections_stay_consistent) simp_all

theorem human_actions_are_on_record_witness:
  "\<exists>st'. handle sample_comm_env (ListResources ''u'' ''c1'') sample_comm_state = (True, st') \<and> 0 < entries ''u'' listResources_action st'"
proof -
  let ?st = "snd (handle sample_comm_env (ListResources ''u'' ''c1'') sample_comm_state)"
  have "fst (handle sample_comm_env (ListResources ''u'' ''c1'') sample_comm_state)" by code_simp
  then have "handle sample_comm_env (ListResources ''u'' ''c1'') sample_comm_state = (True, ?st)" by (simp add: prod_eq_iff)
  moreover from this have "entries ''u'' listResources_action sample_comm_state < entries ''u'' listResources_action ?st"
    using human_actions_are_on_record[of "''u''" "ListResources ''u'' ''c1''" sample_comm_state sample_comm_env] by simp
  ultimately show ?thesis by (intro exI[of _ ?st]) simp
qed

theorem refused_disconnect_keeps_connection_witness:
  "fst (disconnect sample_comm_env ''u'' ''c1'' sample_comm_state) = Inl (PlatformException authFailed)"
  using refused_disconnect_keeps_connection[of sample_comm_state "''c1''" sample_connection sample_comm_env "ApiError authFailed" "''u''"]
  by (simp add: sample_comm_env_def sample_connection_def SUPPORTED_def MATTERMOST_def)

definition sample_probe :: CommunityProbeResult where
  "sample_probe = \<lparr>pr_resourceCount = jint 2, pr_readableResourceCount = jint 1, pr_resourcesDigest = ''d'', pr_avatarUrl = None, pr_memberCount = None\<rparr>"

definition sample_race_env :: comm_env where
  "sample_race_env = sample_comm_env\<lparr>cv_yield := (\<lambda>st. snd (deleteById ''c1'' st)), cv_probe := (\<lambda>_ _ _ st. (Inr sample_probe, st))\<rparr>"

theorem deleted_connection_reappears_witness:
  "\<exists>e'. find_connection ''c1'' (snd (checkHealth sample_race_env None ''c1'' sample_comm_state)) = Some e' \<and> en_status e' = active"
  using deleted_connection_reappears[of sample_comm_state "''c1''" sample_connection sample_race_env sample_probe None]
  by (auto simp: sample_race_env_def sample_connection_def SUPPORTED_def MATTERMOST_def)

definition sample_install :: install_state_service where
  "sample_install =
     \<lparr>is_ttlSeconds = 600, is_nonce = ''n'', is_encode = (\<lambda>v. case jfield ''p'' v of JStr p \<Rightarrow> ''p'' @ p | _ \<Rightarrow> ''-''),
      is_parse = (\<lambda>s. Some (JObj [(''p'', JStr (tl s)), (''n'', JStr ''n''), (''e'', JNum (jint 605000))])), is_sign = (\<lambda>s. ''sig'')\<rparr>"

lemma sample_install_payload:
  "install_payload sample_install ''github'' 5000 = JObj [(''p'', JStr ''github''), (''n'', JStr ''n''), (''e'', JNum (jint 605000))]"
  by (simp add: install_payload_def sample_install_def jmul_int jadd_int)

theorem install_state_lifetime_witness:
  "verify sample_install (Some (issue sample_install ''github'' 5000)) ''github'' 604999
   \<and> \<not> verify sample_install (Some (issue sample_install ''github'' 5000)) ''github'' 605000"
proof -
  have "install_codec sample_install (install_payload sample_install ''github'' 5000)"
    unfolding install_codec_def sample_install_payload by (simp add: sample_install_def)
  then show ?thesis
    using install_state_lifetime[of sample_install "''github''" 5000 "[]" "''github''"] by (simp add: sample_install_def)
qed

lemma mattermost_id_roundtrip_witness:
  "\<exists>x. buildMattermostExternalId sample_comm_env ''https://m'' ''t'' = Inr x \<and> parseMattermostExternalId x = Inr (''https://m'', ''t'')"
  using mattermost_id_roundtrip[of sample_comm_env "''https://m''" "''https://''" "''m''" "''t''"] by (simp add: sample_comm_env_def)

end
