(* ===== verification/Payload_Schema.thy ===== *)
theory Payload_Schema
  imports Prelude
begin

text \<open>
  The inputs of an algorithm and the check of a payload against them (\<^verbatim>\<open>validation.ts\<close> of the algorithm validator, as it
  runs on the server, where a file is the key of an object).  The schema the code builds with the zod
  package is a value of type \<open>zod\<close>; what the package does with a schema is the argument \<open>safeParse\<close>, and
  \<open>zod_documented\<close> states what its documentation promises.  A message is a constructor applied to what the code puts into its text.
\<close>

section \<open>Numbers in texts\<close>

definition char_between :: "char \<Rightarrow> char \<Rightarrow> char \<Rightarrow> bool" where
  "char_between a b c \<longleftrightarrow> (of_char a :: nat) \<le> of_char c \<and> (of_char c :: nat) \<le> of_char b"

abbreviation is_digit :: "char \<Rightarrow> bool" where
  "is_digit \<equiv> char_between (CHR ''0'') (CHR ''9'')"

definition digits_value :: "nat \<Rightarrow> string \<Rightarrow> nat" where
  "digits_value base ds = foldl (\<lambda>n c. base * n + (of_char (js_lower_char c) - (if is_digit c then 48 else 87))) 0 ds"

text \<open>The optional exponent of a decimal literal, and what follows it.\<close>

definition scan_exponent :: "string \<Rightarrow> int \<times> string" where
  "scan_exponent s =
     (case s of
        c # cs \<Rightarrow>
          if c \<in> {CHR ''e'', CHR ''E''} then
            (let (neg, t) = (case cs of d # ds \<Rightarrow> if d = CHR ''-'' then (True, ds) else if d = CHR ''+'' then (False, ds) else (False, cs) | [] \<Rightarrow> (False, []));
                 ds = takeWhile is_digit t; n = int (digits_value 10 ds)
             in if ds = [] then (0, s) else (if neg then - n else n, dropWhile is_digit t))
          else (0, s)
      | [] \<Rightarrow> (0, []))"

text \<open>The longest unsigned decimal literal at the start of a text.\<close>

definition scan_unsigned :: "string \<Rightarrow> (jsnum \<times> string) option" where
  "scan_unsigned s =
     (if js_startsWith s ''Infinity'' then Some (PInf, drop 8 s)
      else
        (let whole = takeWhile is_digit s; r = dropWhile is_digit s;
             frac = (case r of c # cs \<Rightarrow> if c = CHR ''.'' then takeWhile is_digit cs else [] | [] \<Rightarrow> []);
             rest = (case r of c # cs \<Rightarrow> if c = CHR ''.'' then dropWhile is_digit cs else r | [] \<Rightarrow> [])
         in if whole = [] \<and> frac = [] then None
            else
              (let (e, rest') = scan_exponent rest
               in Some (to_double (of_nat (digits_value 10 (whole @ frac)) * 10 powi (e - int (length frac))), rest'))))"

definition scan_decimal :: "string \<Rightarrow> (jsnum \<times> string) option" where
  "scan_decimal s =
     (case s of
        c # cs \<Rightarrow>
          if c = CHR ''-'' then map_option (\<lambda>(x, r). (jneg x, r)) (scan_unsigned cs)
          else if c = CHR ''+'' then scan_unsigned cs
          else scan_unsigned s
      | [] \<Rightarrow> None)"

definition js_parseFloat :: "string \<Rightarrow> jsnum" where
  "js_parseFloat s = (case scan_decimal (dropWhile js_is_space s) of None \<Rightarrow> NaN | Some (x, _) \<Rightarrow> x)"

definition radix_literal :: "nat \<Rightarrow> (char \<Rightarrow> bool) \<Rightarrow> string \<Rightarrow> jsnum" where
  "radix_literal base ok ds = (if ds = [] \<or> \<not> list_all ok ds then NaN else to_double (of_nat (digits_value base ds)))"

text \<open>\<^verbatim>\<open>Number(s)\<close>: blanks around the literal are dropped, an empty text is zero, anything after the literal makes it \<^verbatim>\<open>NaN\<close>.\<close>

definition js_to_number :: "string \<Rightarrow> jsnum" where
  "js_to_number s =
     (let t = js_trim s; p = map js_lower_char (take 2 t)
      in if t = [] then Fin 0
         else if p = ''0x'' then radix_literal 16 (\<lambda>c. is_digit c \<or> char_between (CHR ''a'') (CHR ''f'') (js_lower_char c)) (drop 2 t)
         else if p = ''0o'' then radix_literal 8 (char_between (CHR ''0'') (CHR ''7'')) (drop 2 t)
         else if p = ''0b'' then radix_literal 2 (char_between (CHR ''0'') (CHR ''1'')) (drop 2 t)
         else (case scan_decimal t of Some (x, []) \<Rightarrow> x | _ \<Rightarrow> NaN))"

text \<open>\<^verbatim>\<open>String(v)\<close>; the text of a number is an argument.\<close>

fun js_String :: "(jsnum \<Rightarrow> string) \<Rightarrow> json \<Rightarrow> string" where
  "js_String num_str JUndefined = ''undefined''"
| "js_String num_str JNull = ''null''"
| "js_String num_str (JBool b) = (if b then ''true'' else ''false'')"
| "js_String num_str (JNum n) = num_str n"
| "js_String num_str (JStr s) = s"
| "js_String num_str (JArr vs) = js_join (CHR '','') (map (\<lambda>v. if v = JUndefined \<or> v = JNull then [] else js_String num_str v) vs)"
| "js_String num_str (JObj _) = ''[object Object]''"

definition js_text_or_empty :: "(jsnum \<Rightarrow> string) \<Rightarrow> json \<Rightarrow> string" where
  "js_text_or_empty num_str v = (if v = JUndefined \<or> v = JNull then [] else js_String num_str v)"

section \<open>Definitions of algorithms\<close>

datatype scalar_type = PString | PInteger | PNumber

datatype ObjectPropertyParam =
    ScalarProperty (op_key: string) (op_label: "string option") (op_required: "bool option") scalar_type
      "string list option" "jsnum option" "jsnum option" "bool option" (op_uiHint: json)
  | ArrayProperty (op_key: string) (op_label: "string option") (op_required: "bool option")
      "nat option" "string list option" "ObjectPropertyParam list" (op_uiHint: json)

datatype array_item = ObjectItem "ObjectPropertyParam list" | StringItem

record csv_column =
  col_key :: string
  col_type :: string
  col_required :: "bool option"
  col_enum :: "string list option"
  col_aliases :: "string list option"

record csv_config =
  csv_hasHeader :: "bool option"
  csv_delimiter :: "char option"
  csv_maxRows :: "nat option"
  csv_maxBytes :: "nat option"
  csv_columns :: "csv_column list"

record json_config =
  jc_maxBytes :: "nat option"
  jc_schema :: "string option"
  jc_rootKey :: "string option"
  jc_allowedChains :: "string list option"

datatype IoItem =
    CsvIo (io_key: string) (io_label: "string option") csv_config
  | JsonIo (io_key: string) (io_label: "string option") "bool option" "json_config option"
  | NumericIo (io_key: string) (io_label: "string option") bool "jsnum option" "jsnum option" "bool option"
  | BooleanIo (io_key: string) (io_label: "string option") "bool option"
  | StringIo (io_key: string) (io_label: "string option") "bool option" "nat option" "nat option" "string list option" json
  | ArrayIo (io_key: string) (io_label: "string option") "bool option" "nat option" "string list option" json array_item
  | SubAlgorithmIo (io_key: string) (io_label: "string option") "bool option" "nat option" "nat option" "string list option"
  | OtherIo (io_key: string) (io_label: "string option") string

record JsonChainCoverageRule =
  rule_walletInputKey :: string
  rule_selectorInputKey :: string
  rule_selectorChainField :: string

record AlgorithmDefinition =
  def_key :: string
  def_name :: string
  def_combined :: bool
  def_version :: string
  def_inputs :: "IoItem list"
  def_rules :: "JsonChainCoverageRule list"

section \<open>Schemas\<close>

datatype msg =
    Required string | ValidNumber string | AtLeast string jsnum | AtMost string jsnum | GreaterThan string jsnum | WholeNumber string
  | MinChars string nat | MaxChars string nat | OneOf string "string list" | EntriesEmpty string | MinItems string nat | MaxItems string nat
  | RemoveDuplicates string | SelectAlgorithm string | SelectVersion string | WeightNumber string | WeightPositive string
  | AddOnce string | TotalWeight string | InputKeyRequired | InputValueRequired | Text string | DefaultMessage

datatype string_check = Trim | MinLen nat msg | MaxLen nat msg

datatype number_check = Min jsnum msg | Max jsnum msg | Gt jsnum msg | IsInt msg

datatype length_check = MinLength nat msg | MaxLength nat msg

datatype zod =
    ZString "string_check list"
  | ZNumber msg "number_check list"
  | ZBoolean
  | ZEnum "string list" msg
  | ZUnknown
  | ZArray zod "length_check list"
  | ZObject "(string \<times> zod) list"
  | ZOptional zod
  | ZPreprocess "json \<Rightarrow> json" zod
  | ZRefine zod "json \<Rightarrow> bool" msg

text \<open>The two conversions of a numeric field: \<^verbatim>\<open>parseFloat\<close> for an input, \<^verbatim>\<open>Number\<close> for a property and a weight.\<close>

definition to_numeric :: "(string \<Rightarrow> jsnum) \<Rightarrow> json \<Rightarrow> json" where
  "to_numeric conv v =
     (case v of
        JNull \<Rightarrow> JUndefined
      | JStr s \<Rightarrow> if s = [] then JUndefined else let n = conv s in if n = NaN then JUndefined else JNum n
      | _ \<Rightarrow> v)"

definition opt_check :: "('a \<Rightarrow> 'b) \<Rightarrow> 'a option \<Rightarrow> 'b list" where
  "opt_check f x = (case x of None \<Rightarrow> [] | Some y \<Rightarrow> [f y])"

definition optional_unless :: "bool option \<Rightarrow> zod \<Rightarrow> zod" where
  "optional_unless required z = (if required = Some False then ZOptional z else z)"

definition required_refine :: "bool option \<Rightarrow> string \<Rightarrow> zod \<Rightarrow> zod" where
  "required_refine required label z = (if required = Some False then z else ZRefine z (\<lambda>v. v \<noteq> JUndefined) (Required label))"

definition label_or :: "string option \<Rightarrow> string \<Rightarrow> string" where
  "label_or label key = (case label of None \<Rightarrow> key | Some l \<Rightarrow> l)"

text \<open>A later property of the same key replaces an earlier one.\<close>

definition shape_of :: "(string \<times> zod) list \<Rightarrow> (string \<times> zod) list" where
  "shape_of kzs = foldl (\<lambda>shape (k, z). AList.update k z shape) [] kzs"

definition json_list :: "json \<Rightarrow> json list" where
  "json_list v = (case v of JArr vs \<Rightarrow> vs | _ \<Rightarrow> [])"

section \<open>Building the schema\<close>

definition composite_key :: "(jsnum \<Rightarrow> string) \<Rightarrow> string list \<Rightarrow> json \<Rightarrow> string" where
  "composite_key num_str uniqueBy item = js_join (char_of (0 :: nat)) (map (\<lambda>k. js_text_or_empty num_str (jfield k item)) uniqueBy)"

text \<open>The loops that add keys to a set and stop at a key they have seen.\<close>

fun no_repeat :: "'a list \<Rightarrow> 'a list \<Rightarrow> bool" where
  "no_repeat seen [] = True"
| "no_repeat seen (k # ks) = (if k \<in> set seen then False else no_repeat (k # seen) ks)"

definition applyArrayConstraints ::
  "(jsnum \<Rightarrow> string) \<Rightarrow> zod \<Rightarrow> string \<Rightarrow> nat option \<Rightarrow> string list \<Rightarrow> ObjectPropertyParam list \<Rightarrow> zod" where
  "applyArrayConstraints num_str item label minItems uniqueBy itemProps =
     (let schema = ZArray item (opt_check (\<lambda>n. MinLength n (MinItems label n)) minItems)
      in if uniqueBy \<noteq> [] \<and> list_all (\<lambda>k. list_ex (\<lambda>p. op_key p = k) itemProps) uniqueBy
         then ZRefine schema (\<lambda>v. no_repeat [] (map (composite_key num_str uniqueBy) (json_list v))) (RemoveDuplicates label)
         else schema)"

fun buildObjectPropertySchema :: "(jsnum \<Rightarrow> string) \<Rightarrow> ObjectPropertyParam \<Rightarrow> zod" where
  "buildObjectPropertySchema num_str (ScalarProperty key label required ty enum mn mx exclusiveMin uiHint) =
     (let propLabel = label_or label key
      in case enum of
           Some (v # vs) \<Rightarrow> optional_unless required (ZEnum (v # vs) (OneOf propLabel (v # vs)))
         | _ \<Rightarrow>
             if ty = PString
             then optional_unless required (ZString (Trim # (if required = Some False then [] else [MinLen 1 (Required propLabel)])))
             else
               (let n = ZNumber (ValidNumber propLabel)
                    ((if ty = PInteger then [IsInt (WholeNumber propLabel)] else [])
                     @ opt_check (\<lambda>m. if exclusiveMin = Some True then Gt m (GreaterThan propLabel m) else Min m (AtLeast propLabel m)) mn
                     @ opt_check (\<lambda>m. Max m (AtMost propLabel m)) mx)
                in required_refine required propLabel (ZPreprocess (to_numeric js_to_number) (optional_unless required n))))"
| "buildObjectPropertySchema num_str (ArrayProperty key label required minItems uniqueBy itemProps uiHint) =
     (let propLabel = label_or label key;
          item = ZObject (shape_of (map (\<lambda>p. (op_key p, buildObjectPropertySchema num_str p)) itemProps))
      in optional_unless required
           (applyArrayConstraints num_str item propLabel minItems (case uniqueBy of None \<Rightarrow> [] | Some ks \<Rightarrow> ks) itemProps))"

definition buildObjectSchema :: "(jsnum \<Rightarrow> string) \<Rightarrow> ObjectPropertyParam list \<Rightarrow> zod" where
  "buildObjectSchema num_str itemProps = ZObject (shape_of (map (\<lambda>p. (op_key p, buildObjectPropertySchema num_str p)) itemProps))"

text \<open>The entry of a sub-algorithm.\<close>

definition buildSubAlgorithmEntrySchema :: "string \<Rightarrow> zod" where
  "buildSubAlgorithmEntrySchema label =
     ZObject
       [(''algorithm_key'', ZString [Trim, MinLen 1 (SelectAlgorithm label)]),
        (''algorithm_version'', ZString [Trim, MinLen 1 (SelectVersion label)]),
        (''weight'', ZPreprocess (to_numeric js_to_number) (ZNumber (WeightNumber label) [Gt (Fin 0) (WeightPositive label)])),
        (''inputs'', ZArray (ZObject
           [(''key'', ZString [MinLen 1 InputKeyRequired]),
            (''value'', ZRefine ZUnknown (\<lambda>v. v \<noteq> JUndefined \<and> v \<noteq> JNull) InputValueRequired)]) [])]"

definition getSubAlgorithmEntryWeight :: "json \<Rightarrow> jsnum" where
  "getSubAlgorithmEntryWeight entry = (case jfield ''weight'' entry of JNum n \<Rightarrow> n | _ \<Rightarrow> Fin 0)"

definition entry_key :: "json \<Rightarrow> string" where
  "entry_key entry = jstr (jfield ''algorithm_key'' entry)"

definition total_weight :: "json list \<Rightarrow> jsnum" where
  "total_weight entries = foldl (\<lambda>total entry. jadd total (getSubAlgorithmEntryWeight entry)) (Fin 0) entries"

definition json_distinct_strings :: "json \<Rightarrow> bool" where
  "json_distinct_strings v \<longleftrightarrow> length (js_dedup (json_list v)) = length (json_list v)"

text \<open>The schema of one input.  A file input is the key of an object, whether or not it is declared optional.\<close>

fun buildFieldSchema :: "(jsnum \<Rightarrow> string) \<Rightarrow> IoItem \<Rightarrow> string \<Rightarrow> zod" where
  "buildFieldSchema num_str (CsvIo _ _ _) label = ZString [MinLen 1 (Required label)]"
| "buildFieldSchema num_str (JsonIo _ _ _ _) label = ZString [MinLen 1 (Required label)]"
| "buildFieldSchema num_str (NumericIo _ _ integer mn mx required) label =
     required_refine required label (ZPreprocess (to_numeric js_parseFloat)
       (optional_unless required (ZNumber (ValidNumber label)
         (opt_check (\<lambda>m. Min m (AtLeast label m)) mn @ opt_check (\<lambda>m. Max m (AtMost label m)) mx
          @ (if integer then [IsInt (WholeNumber label)] else [])))))"
| "buildFieldSchema num_str (BooleanIo _ _ required) label = optional_unless required ZBoolean"
| "buildFieldSchema num_str (StringIo _ _ required minLength maxLength enum _) label =
     (case enum of
        Some (v # vs) \<Rightarrow> ZEnum (v # vs) (OneOf label (v # vs))
      | _ \<Rightarrow> optional_unless required (ZString (Trim # (if required = Some False then [] else [MinLen 1 (Required label)])
               @ opt_check (\<lambda>n. MinLen n (MinChars label n)) minLength @ opt_check (\<lambda>n. MaxLen n (MaxChars label n)) maxLength)))"
| "buildFieldSchema num_str (ArrayIo _ _ required minItems uniqueBy _ StringItem) label =
     optional_unless required (ZRefine
       (ZArray (ZString [Trim, MinLen 1 (EntriesEmpty label)])
         (case minItems of Some (Suc n) \<Rightarrow> [MinLength (Suc n) (MinItems label (Suc n))] | _ \<Rightarrow> []))
       json_distinct_strings (RemoveDuplicates label))"
| "buildFieldSchema num_str (ArrayIo _ _ required minItems uniqueBy _ (ObjectItem itemProps)) label =
     optional_unless required (applyArrayConstraints num_str (buildObjectSchema num_str itemProps) label minItems
       (case uniqueBy of None \<Rightarrow> [] | Some ks \<Rightarrow> ks) itemProps)"
| "buildFieldSchema num_str (SubAlgorithmIo _ _ required minItems maxItems _) label =
     optional_unless required
       (ZRefine
         (ZRefine
           (ZArray (buildSubAlgorithmEntrySchema label)
             (opt_check (\<lambda>n. MinLength n (MinItems label n)) minItems @ opt_check (\<lambda>n. MaxLength n (MaxItems label n)) maxItems))
           (\<lambda>v. no_repeat [] (map entry_key (json_list v))) (AddOnce label))
         (\<lambda>v. jis_finite (total_weight (json_list v))) (TotalWeight label))"
| "buildFieldSchema num_str (OtherIo _ _ _) label = ZString []"

definition buildZodSchema :: "(jsnum \<Rightarrow> string) \<Rightarrow> AlgorithmDefinition \<Rightarrow> zod" where
  "buildZodSchema num_str dfn =
     ZObject (shape_of (map (\<lambda>i. (io_key i, buildFieldSchema num_str i (label_or (io_label i) (io_key i)))) (def_inputs dfn)))"

section \<open>What the schema package promises\<close>

fun run_string :: "string_check list \<Rightarrow> string \<Rightarrow> string option" where
  "run_string [] s = Some s"
| "run_string (Trim # cs) s = run_string cs (js_trim s)"
| "run_string (MinLen n _ # cs) s = (if n \<le> length s then run_string cs s else None)"
| "run_string (MaxLen n _ # cs) s = (if length s \<le> n then run_string cs s else None)"

definition safe_integer :: "jsnum \<Rightarrow> bool" where
  "safe_integer x \<longleftrightarrow> jis_integer x \<and> jle (jabs x) (Fin (2 ^ 53 - 1))"

fun number_ok :: "jsnum \<Rightarrow> number_check \<Rightarrow> bool" where
  "number_ok x (Min m _) = jle m x"
| "number_ok x (Max m _) = jle x m"
| "number_ok x (Gt m _) = jless m x"
| "number_ok x (IsInt _) = safe_integer x"

fun length_ok :: "nat \<Rightarrow> length_check \<Rightarrow> bool" where
  "length_ok n (MinLength m _) = (m \<le> n)"
| "length_ok n (MaxLength m _) = (n \<le> m)"

text \<open>
  The value a schema accepts another as, None where it refuses it.  An object keeps the fields of its shape; a field whose value is
  undefined is left out.  Numbers are finite, integers safe.
\<close>

fun zod_data :: "zod \<Rightarrow> json \<Rightarrow> json option" where
  "zod_data (ZString cs) v = (case v of JStr s \<Rightarrow> map_option JStr (run_string cs s) | _ \<Rightarrow> None)"
| "zod_data (ZNumber _ cs) v = (case v of JNum n \<Rightarrow> if jis_finite n \<and> list_all (number_ok n) cs then Some v else None | _ \<Rightarrow> None)"
| "zod_data ZBoolean v = (case v of JBool _ \<Rightarrow> Some v | _ \<Rightarrow> None)"
| "zod_data (ZEnum vs _) v = (case v of JStr s \<Rightarrow> if s \<in> set vs then Some v else None | _ \<Rightarrow> None)"
| "zod_data ZUnknown v = Some v"
| "zod_data (ZArray z ls) v =
     (case v of
        JArr vs \<Rightarrow> (case those (map (zod_data z) vs) of
                       Some ws \<Rightarrow> if list_all (length_ok (length ws)) ls then Some (JArr ws) else None
                     | None \<Rightarrow> None)
      | _ \<Rightarrow> None)"
| "zod_data (ZObject shape) v =
     (case v of
        JObj _ \<Rightarrow> map_option (\<lambda>ws. JObj (filter (\<lambda>(k, w). w \<noteq> JUndefined) ws))
                   (those (map (\<lambda>(k, z). map_option (Pair k) (zod_data z (jfield k v))) shape))
      | _ \<Rightarrow> None)"
| "zod_data (ZOptional z) v = (if v = JUndefined then Some JUndefined else zod_data z v)"
| "zod_data (ZPreprocess f z) v = zod_data z (f v)"
| "zod_data (ZRefine z p _) v = (case zod_data z v of Some w \<Rightarrow> if p w then Some w else None | None \<Rightarrow> None)"

record zod_issue =
  zi_path :: "string list"
  zi_message :: msg
  zi_code :: string

type_synonym safe_parse = "zod \<Rightarrow> json \<Rightarrow> zod_issue list + json"

text \<open>A value is accepted as documented, and one that is not has an issue.\<close>

definition zod_documented :: "safe_parse \<Rightarrow> bool" where
  "zod_documented safeParse \<longleftrightarrow>
     (\<forall>z v. case safeParse z v of Inr w \<Rightarrow> zod_data z v = Some w | Inl issues \<Rightarrow> issues \<noteq> [] \<and> zod_data z v = None)"

lemma safeParse_Inr: "zod_documented safeParse \<Longrightarrow> safeParse z v = Inr w \<longleftrightarrow> zod_data z v = Some w"
  unfolding zod_documented_def by (cases "safeParse z v") (auto dest: spec[of _ z] spec[of _ v] split: sum.splits)

section \<open>Options that depend on other fields\<close>

record field_option =
  fo_value :: string
  fo_label :: string
  fo_filterBy :: "string option"
  fo_filters :: "(string \<times> string) list option"

definition json_str :: "json \<Rightarrow> string option" where
  "json_str v = (case v of JStr s \<Rightarrow> Some s | _ \<Rightarrow> None)"

definition string_entries :: "json \<Rightarrow> (string \<times> string) list option" where
  "string_entries v =
     (case v of JObj kvs \<Rightarrow> Some (List.map_filter (\<lambda>(k, w). map_option (Pair k) (json_str w)) kvs) | _ \<Rightarrow> None)"

definition read_option :: "json \<Rightarrow> field_option option" where
  "read_option opt =
     (case (json_str (jfield ''value'' opt), json_str (jfield ''label'' opt)) of
        (Some v, Some l) \<Rightarrow> Some \<lparr>fo_value = v, fo_label = l, fo_filterBy = json_str (jfield ''filterBy'' opt),
          fo_filters = string_entries (jfield ''filters'' opt)\<rparr>
      | _ \<Rightarrow> None)"

definition getFieldOptions :: "json \<Rightarrow> field_option list option" where
  "getFieldOptions uiHint =
     (case jfield ''options'' uiHint of JArr opts \<Rightarrow> Some (List.map_filter read_option (filter isRecord opts)) | _ \<Rightarrow> None)"

definition dependency_key :: "json \<Rightarrow> string option" where
  "dependency_key uiHint =
     (case jfield ''dependsOn'' uiHint of
        JArr ks \<Rightarrow> (case List.map_filter json_str ks of [] \<Rightarrow> None | k # _ \<Rightarrow> Some k)
      | JStr k \<Rightarrow> Some k
      | _ \<Rightarrow> Some ''chain'')"

text \<open>With an empty list of dependencies the looked up key is the text of undefined.\<close>

definition optionMatchesContext :: "(jsnum \<Rightarrow> string) \<Rightarrow> field_option \<Rightarrow> json \<Rightarrow> json \<Rightarrow> bool" where
  "optionMatchesContext num_str opt uiHint ctx =
     (case fo_filters opt of
        Some (f # fs) \<Rightarrow> list_all (\<lambda>(k, w). js_text_or_empty num_str (jfield k ctx) = w) (f # fs)
      | _ \<Rightarrow>
          (case fo_filterBy opt of
             None \<Rightarrow> True
           | Some w \<Rightarrow>
               js_text_or_empty num_str (jfield (case dependency_key uiHint of Some k \<Rightarrow> k | None \<Rightarrow> ''undefined'') ctx) = w))"

record validation_error =
  ve_field :: string
  ve_message :: msg
  ve_code :: "string option"

definition option_allowed :: "(jsnum \<Rightarrow> string) \<Rightarrow> json \<Rightarrow> json \<Rightarrow> string \<Rightarrow> bool" where
  "option_allowed num_str uiHint ctx s =
     (case getFieldOptions uiHint of
        None \<Rightarrow> True
      | Some opts \<Rightarrow>
          js_trim s = [] \<or> \<not> list_ex (\<lambda>opt. fo_filterBy opt \<noteq> None \<or> fo_filters opt \<noteq> None) opts
          \<or> list_ex (\<lambda>opt. fo_value opt = s) (filter (\<lambda>opt. optionMatchesContext num_str opt uiHint ctx) opts))"

definition scalar_option_errors :: "(jsnum \<Rightarrow> string) \<Rightarrow> json \<Rightarrow> string \<Rightarrow> json \<Rightarrow> string \<Rightarrow> json \<Rightarrow> validation_error list" where
  "scalar_option_errors num_str uiHint label v path ctx =
     (case v of
        JStr s \<Rightarrow> if option_allowed num_str uiHint ctx s then []
                   else [\<lparr>ve_field = path, ve_message = Text (label @ '' does not match the current selection. Select it again.''),
                          ve_code = Some ''invalid_value''\<rparr>]
      | _ \<Rightarrow> [])"

text \<open>\<^verbatim>\<open>{...ctx, ...item}\<close>\<close>

definition spread :: "json \<Rightarrow> json \<Rightarrow> json" where
  "spread ctx item =
     (case (ctx, item) of (JObj c, JObj i) \<Rightarrow> JObj (foldl (\<lambda>kvs (k, v). AList.update k v kvs) c i) | _ \<Rightarrow> ctx)"

definition row_path :: "string \<Rightarrow> nat \<Rightarrow> string \<Rightarrow> string" where
  "row_path path index key = path @ ''.'' @ js_nat index @ ''.'' @ key"

fun validatePropertyOptions ::
  "(jsnum \<Rightarrow> string) \<Rightarrow> ObjectPropertyParam \<Rightarrow> json \<Rightarrow> string \<Rightarrow> json \<Rightarrow> validation_error list" where
  "validatePropertyOptions num_str (ScalarProperty key label required ty enum mn mx exclusiveMin uiHint) v path ctx =
     scalar_option_errors num_str uiHint (label_or label key) v path ctx"
| "validatePropertyOptions num_str (ArrayProperty key label required minItems uniqueBy itemProps uiHint) v path ctx =
     concat (map (\<lambda>(index, item).
       if isRecord item
       then concat (map (\<lambda>p. validatePropertyOptions num_str p (jfield (op_key p) item) (row_path path index (op_key p)) (spread ctx item)) itemProps)
       else []) (enumerate 0 (json_list v)))"

fun validateFieldOptionConstraints :: "(jsnum \<Rightarrow> string) \<Rightarrow> IoItem \<Rightarrow> json \<Rightarrow> json \<Rightarrow> validation_error list" where
  "validateFieldOptionConstraints num_str (StringIo key label required mn mx enum uiHint) v ctx =
     scalar_option_errors num_str uiHint (label_or label key) v key ctx"
| "validateFieldOptionConstraints num_str (ArrayIo key label required minItems uniqueBy uiHint (ObjectItem itemProps)) v ctx =
     validatePropertyOptions num_str (ArrayProperty key label required minItems uniqueBy itemProps uiHint) v key ctx"
| "validateFieldOptionConstraints num_str _ v ctx = []"

definition validateConditionalOptionConstraints :: "(jsnum \<Rightarrow> string) \<Rightarrow> IoItem list \<Rightarrow> json \<Rightarrow> validation_error list" where
  "validateConditionalOptionConstraints num_str inputs payload =
     concat (map (\<lambda>i. validateFieldOptionConstraints num_str i (jfield (io_key i) payload) payload) inputs)"

section \<open>Catalogs of resources\<close>

record ResourceCatalogResource =
  rr_key :: string
  rr_label :: string
  rr_contract :: bool
  rr_identifier :: string
  rr_tokenIdentifier :: string
  rr_tokenKey :: string
  rr_parentResourceKey :: "string option"

record ResourceCatalogChain =
  rch_key :: string
  rch_label :: string
  rch_resources :: "ResourceCatalogResource list"

definition read_resource :: "json \<Rightarrow> ResourceCatalogResource option" where
  "read_resource r =
     (case (json_str (jfield ''key'' r), json_str (jfield ''label'' r), json_str (jfield ''kind'' r), json_str (jfield ''identifier'' r),
            json_str (jfield ''tokenIdentifier'' r), json_str (jfield ''tokenKey'' r)) of
        (Some k, Some l, Some kind, Some i, Some ti, Some tk) \<Rightarrow>
          Some \<lparr>rr_key = k, rr_label = l, rr_contract = (kind = ''contract''), rr_identifier = i, rr_tokenIdentifier = ti, rr_tokenKey = tk,
            rr_parentResourceKey = json_str (jfield ''parentResourceKey'' r)\<rparr>
      | _ \<Rightarrow> None)"

definition read_chain :: "json \<Rightarrow> ResourceCatalogChain option" where
  "read_chain c =
     (case (json_str (jfield ''key'' c), json_str (jfield ''label'' c), jfield ''resources'' c) of
        (Some k, Some l, JArr rs) \<Rightarrow>
          Some \<lparr>rch_key = k, rch_label = l, rch_resources = List.map_filter read_resource (filter isRecord rs)\<rparr>
      | _ \<Rightarrow> None)"

definition getFieldResourceCatalog :: "json \<Rightarrow> ResourceCatalogChain list option" where
  "getFieldResourceCatalog uiHint =
     (case jfield ''chains'' (jfield ''resourceCatalog'' uiHint) of
        JArr cs \<Rightarrow> Some (List.map_filter read_chain (filter isRecord cs))
      | _ \<Rightarrow> None)"

definition trimmed_field :: "string \<Rightarrow> json \<Rightarrow> string" where
  "trimmed_field k item = (case jfield k item of JStr s \<Rightarrow> js_trim s | _ \<Rightarrow> [])"

definition row_catalog_errors :: "ResourceCatalogChain list \<Rightarrow> string \<Rightarrow> nat \<Rightarrow> json \<Rightarrow> validation_error list" where
  "row_catalog_errors catalog path index item =
     (let chainKey = trimmed_field ''chain'' item; resourceKey = trimmed_field ''resource_key'' item
      in if \<not> isRecord item \<or> chainKey = [] \<or> resourceKey = [] then []
         else (case List.find (\<lambda>c. rch_key c = chainKey) catalog of
                 None \<Rightarrow> [\<lparr>ve_field = row_path path index ''chain'', ve_message = Text ''Select a blockchain from the available list.'',
                           ve_code = Some ''invalid_value''\<rparr>]
               | Some c \<Rightarrow>
                   if list_ex (\<lambda>r. rr_key r = resourceKey) (rch_resources c) then []
                   else [\<lparr>ve_field = row_path path index ''resource_key'',
                          ve_message = Text ''Select a resource that is available for this blockchain.'', ve_code = Some ''invalid_value''\<rparr>]))"

fun validateResourceSelectorFieldConstraints :: "IoItem \<Rightarrow> json \<Rightarrow> validation_error list" where
  "validateResourceSelectorFieldConstraints (ArrayIo key _ _ _ _ uiHint _) v =
     (case (getFieldResourceCatalog uiHint, v) of
        (Some catalog, JArr items) \<Rightarrow> concat (map (\<lambda>(index, item). row_catalog_errors catalog key index item) (enumerate 0 items))
      | _ \<Rightarrow> [])"
| "validateResourceSelectorFieldConstraints _ v = []"

definition validateResourceSelectorConstraints :: "IoItem list \<Rightarrow> json \<Rightarrow> validation_error list" where
  "validateResourceSelectorConstraints inputs payload =
     concat (map (\<lambda>i. validateResourceSelectorFieldConstraints i (jfield (io_key i) payload)) inputs)"

text \<open>Nothing in the \<^verbatim>\<open>try\<close> block of the source throws on these arguments.\<close>

definition validatePayload :: "safe_parse \<Rightarrow> (jsnum \<Rightarrow> string) \<Rightarrow> AlgorithmDefinition \<Rightarrow> json \<Rightarrow> validation_error list + json" where
  "validatePayload safeParse num_str dfn payload =
     (case safeParse (buildZodSchema num_str dfn) payload of
        Inr data \<Rightarrow>
          (let errors = validateConditionalOptionConstraints num_str (def_inputs dfn) data
             @ validateResourceSelectorConstraints (def_inputs dfn) data
           in if errors \<noteq> [] then Inl errors else Inr data)
      | Inl issues \<Rightarrow>
          Inl (map (\<lambda>i. \<lparr>ve_field = js_join (CHR ''.'') (zi_path i), ve_message = zi_message i, ve_code = Some (zi_code i)\<rparr>) issues))"

section \<open>The values a definition describes\<close>

definition absent_ok :: "bool option \<Rightarrow> json \<Rightarrow> bool" where
  "absent_ok required v \<longleftrightarrow> required = Some False \<and> v = JUndefined"

definition at_least :: "nat option \<Rightarrow> nat \<Rightarrow> bool" where
  "at_least lo n \<longleftrightarrow> (case lo of None \<Rightarrow> True | Some m \<Rightarrow> m \<le> n)"

definition at_most :: "nat option \<Rightarrow> nat \<Rightarrow> bool" where
  "at_most hi n \<longleftrightarrow> (case hi of None \<Rightarrow> True | Some m \<Rightarrow> n \<le> m)"

definition in_bounds :: "jsnum option \<Rightarrow> bool \<Rightarrow> jsnum option \<Rightarrow> jsnum \<Rightarrow> bool" where
  "in_bounds lo strict hi x \<longleftrightarrow>
     (case lo of None \<Rightarrow> True | Some m \<Rightarrow> if strict then jless m x else jle m x) \<and> (case hi of None \<Rightarrow> True | Some m \<Rightarrow> jle x m)"

definition typed_number :: "bool \<Rightarrow> jsnum option \<Rightarrow> bool \<Rightarrow> jsnum option \<Rightarrow> json \<Rightarrow> bool" where
  "typed_number integer lo strict hi v \<longleftrightarrow>
     (case v of JNum x \<Rightarrow> jis_finite x \<and> (integer \<longrightarrow> safe_integer x) \<and> in_bounds lo strict hi x | _ \<Rightarrow> False)"

definition typed_text :: "bool option \<Rightarrow> nat option \<Rightarrow> nat option \<Rightarrow> json \<Rightarrow> bool" where
  "typed_text required lo hi v \<longleftrightarrow>
     (case v of JStr s \<Rightarrow> js_trim s = s \<and> (required \<noteq> Some False \<longrightarrow> s \<noteq> []) \<and> at_least lo (length s) \<and> at_most hi (length s) | _ \<Rightarrow> False)"

definition one_of :: "string list \<Rightarrow> json \<Rightarrow> bool" where
  "one_of vs v \<longleftrightarrow> (case v of JStr s \<Rightarrow> s \<in> set vs | _ \<Rightarrow> False)"

definition unique_rows :: "(jsnum \<Rightarrow> string) \<Rightarrow> string list option \<Rightarrow> ObjectPropertyParam list \<Rightarrow> json list \<Rightarrow> bool" where
  "unique_rows num_str uniqueBy props items \<longleftrightarrow>
     (case uniqueBy of
        None \<Rightarrow> True
      | Some ks \<Rightarrow> ks \<noteq> [] \<longrightarrow> list_all (\<lambda>k. k \<in> op_key ` set props) ks \<longrightarrow> distinct (map (composite_key num_str ks) items))"

fun typed_property :: "(jsnum \<Rightarrow> string) \<Rightarrow> ObjectPropertyParam \<Rightarrow> json \<Rightarrow> bool" where
  "typed_property num_str (ScalarProperty key label required ty enum mn mx exclusiveMin uiHint) v \<longleftrightarrow>
     absent_ok required v
     \<or> (case enum of
          Some (e # es) \<Rightarrow> one_of (e # es) v
        | _ \<Rightarrow> if ty = PString then typed_text required None None v
               else typed_number (ty = PInteger) mn (exclusiveMin = Some True) mx v)"
| "typed_property num_str (ArrayProperty key label required minItems uniqueBy props uiHint) v \<longleftrightarrow>
     absent_ok required v
     \<or> (case v of
          JArr items \<Rightarrow> at_least minItems (length items) \<and> unique_rows num_str uniqueBy props items
            \<and> list_all (\<lambda>item. isRecord item \<and> list_all (\<lambda>p. typed_property num_str p (jfield (op_key p) item)) props) items
        | _ \<Rightarrow> False)"

definition typed_entry :: "json \<Rightarrow> bool" where
  "typed_entry entry \<longleftrightarrow>
     isRecord entry \<and> typed_text None None None (jfield ''algorithm_key'' entry) \<and> typed_text None None None (jfield ''algorithm_version'' entry)
     \<and> typed_number False (Some (Fin 0)) True None (jfield ''weight'' entry)
     \<and> (case jfield ''inputs'' entry of
          JArr inputs \<Rightarrow> list_all (\<lambda>i. isRecord i \<and> is_jstr (jfield ''key'' i) \<and> jstr (jfield ''key'' i) \<noteq> []
             \<and> jfield ''value'' i \<noteq> JUndefined \<and> jfield ''value'' i \<noteq> JNull) inputs
        | _ \<Rightarrow> False)"

fun typed_input :: "(jsnum \<Rightarrow> string) \<Rightarrow> IoItem \<Rightarrow> json \<Rightarrow> bool" where
  "typed_input num_str (CsvIo _ _ _) v \<longleftrightarrow> is_jstr v \<and> jstr v \<noteq> []"
| "typed_input num_str (JsonIo _ _ _ _) v \<longleftrightarrow> is_jstr v \<and> jstr v \<noteq> []"
| "typed_input num_str (NumericIo _ _ integer mn mx required) v \<longleftrightarrow> absent_ok required v \<or> typed_number integer mn False mx v"
| "typed_input num_str (BooleanIo _ _ required) v \<longleftrightarrow> absent_ok required v \<or> (\<exists>b. v = JBool b)"
| "typed_input num_str (StringIo _ _ required minLength maxLength enum _) v \<longleftrightarrow>
     (case enum of
        Some (e # es) \<Rightarrow> one_of (e # es) v
      | _ \<Rightarrow> absent_ok required v \<or> typed_text required minLength maxLength v)"
| "typed_input num_str (ArrayIo key label required minItems uniqueBy uiHint (ObjectItem props)) v \<longleftrightarrow>
     typed_property num_str (ArrayProperty key label required minItems uniqueBy props uiHint) v"
| "typed_input num_str (ArrayIo _ _ required minItems _ _ StringItem) v \<longleftrightarrow>
     absent_ok required v \<or> (case v of JArr vs \<Rightarrow> list_all (typed_text None None None) vs \<and> distinct vs \<and> at_least minItems (length vs) | _ \<Rightarrow> False)"
| "typed_input num_str (SubAlgorithmIo _ _ required minItems maxItems _) v \<longleftrightarrow>
     absent_ok required v
     \<or> (case v of
          JArr es \<Rightarrow> list_all typed_entry es \<and> distinct (map entry_key es) \<and> jis_finite (total_weight es)
            \<and> at_least minItems (length es) \<and> at_most maxItems (length es)
        | _ \<Rightarrow> False)"
| "typed_input num_str (OtherIo _ _ _) v \<longleftrightarrow> is_jstr v"

text \<open>No two properties of an object and no two inputs share a key.\<close>

fun property_wf :: "ObjectPropertyParam \<Rightarrow> bool" where
  "property_wf (ScalarProperty _ _ _ _ _ _ _ _ _) \<longleftrightarrow> True"
| "property_wf (ArrayProperty _ _ _ _ _ props _) \<longleftrightarrow> distinct (map op_key props) \<and> list_all property_wf props"

fun input_wf :: "IoItem \<Rightarrow> bool" where
  "input_wf (ArrayIo _ _ _ _ _ _ (ObjectItem props)) \<longleftrightarrow> distinct (map op_key props) \<and> list_all property_wf props"
| "input_wf _ \<longleftrightarrow> True"

definition definition_wf :: "AlgorithmDefinition \<Rightarrow> bool" where
  "definition_wf dfn \<longleftrightarrow> distinct (map io_key (def_inputs dfn)) \<and> list_all input_wf (def_inputs dfn)"

section \<open>Accepted values have their type\<close>

lemma no_repeat_distinct: "no_repeat seen ks \<longleftrightarrow> distinct ks \<and> set ks \<inter> set seen = {}"
  by (induction seen ks rule: no_repeat.induct) auto

lemma those_Some: "those (map f xs) = Some ys \<longleftrightarrow> list_all2 (\<lambda>x y. f x = Some y) xs ys"
proof (induction xs arbitrary: ys)
  case (Cons x xs)
  then show ?case by (cases ys) (auto split: option.splits)
qed auto

lemma foldl_update_distinct:
  "distinct (map fst (acc @ kzs)) \<Longrightarrow> foldl (\<lambda>shape (k, z). AList.update k z shape) acc kzs = acc @ kzs"
proof (induction kzs arbitrary: acc)
  case (Cons kz kzs)
  obtain k z where kz: "kz = (k, z)" by (cases kz)
  have "k \<notin> fst ` set acc" using Cons.prems kz by auto
  then have "AList.update k z acc = acc @ [(k, z)]" by (induction acc) auto
  then show ?case using Cons kz by simp
qed simp

lemma shape_of_distinct: "distinct (map fst kzs) \<Longrightarrow> shape_of kzs = kzs"
  using foldl_update_distinct[of "[]" kzs] by (simp add: shape_of_def)

lemma zod_array:
  assumes "zod_data (ZArray z ls) v = Some w"
  obtains vs ws where "v = JArr vs" "w = JArr ws" "list_all2 (\<lambda>v w. zod_data z v = Some w) vs ws" "list_all (length_ok (length ws)) ls"
  using assms by (cases v) (auto simp: those_Some split: option.splits if_splits)

lemma jfield_filter_defined:
  assumes "distinct (map fst kws)" "(k, w) \<in> set kws"
  shows "jfield k (JObj (filter (\<lambda>(k, w). w \<noteq> JUndefined) kws)) = w"
proof (cases "w = JUndefined")
  case True
  then have "k \<notin> fst ` set (filter (\<lambda>(k, w). w \<noteq> JUndefined) kws)" using assms by (auto dest: eq_key_imp_eq_value)
  then show ?thesis using True by (simp add: map_of_eq_None_iff[THEN iffD2])
next
  case False
  then have "(k, w) \<in> set (filter (\<lambda>(k, w). w \<noteq> JUndefined) kws)" using assms(2) by simp
  moreover have "distinct (map fst (filter (\<lambda>(k, w). w \<noteq> JUndefined) kws))" using assms(1) by (simp add: distinct_map_filter)
  ultimately have "map_of (filter (\<lambda>(k, w). w \<noteq> JUndefined) kws) k = Some w" by simp
  then show ?thesis by simp
qed

lemma zod_object:
  assumes "zod_data (ZObject shape) v = Some w" "distinct (map fst shape)"
  shows "isRecord v" "isRecord w" "(k, z) \<in> set shape \<Longrightarrow> zod_data z (jfield k v) = Some (jfield k w)"
    "jfield k w \<noteq> JUndefined \<Longrightarrow> k \<in> fst ` set shape"
    "w = JObj (filter (\<lambda>(k, w). w \<noteq> JUndefined) (map (\<lambda>(k, z). (k, jfield k w)) shape))"
proof -
  obtain kvs where v: "v = JObj kvs" using assms(1) by (cases v) auto
  obtain kws where w: "w = JObj (filter (\<lambda>(k, w). w \<noteq> JUndefined) kws)"
    and t: "those (map (\<lambda>(k, z). map_option (Pair k) (zod_data z (jfield k v))) shape) = Some kws"
    using assms(1) unfolding v by (auto simp del: jfield.simps)
  have l: "list_all2 (\<lambda>kz kw. fst kw = fst kz \<and> zod_data (snd kz) (jfield (fst kz) v) = Some (snd kw)) shape kws"
    using t unfolding those_Some by (rule list_all2_mono) (auto simp del: jfield.simps)
  have f: "map fst kws = map fst shape" using l by (auto simp: list_all2_conv_all_nth intro: nth_equalityI)
  show "isRecord v" "isRecord w" using v w by simp_all
  show "zod_data z (jfield k v) = Some (jfield k w)" if i: "(k, z) \<in> set shape"
  proof -
    obtain n where n: "n < length shape" "shape ! n = (k, z)" using i by (auto simp: in_set_conv_nth)
    then have "fst (kws ! n) = k" "zod_data z (jfield k v) = Some (snd (kws ! n))" "n < length kws"
      using l by (auto simp: list_all2_conv_all_nth simp del: jfield.simps)
    moreover from this have "(k, snd (kws ! n)) \<in> set kws" by (metis nth_mem prod.collapse)
    ultimately show ?thesis using jfield_filter_defined[of kws k "snd (kws ! n)"] f assms(2) w by simp
  qed
  show "k \<in> fst ` set shape" if "jfield k w \<noteq> JUndefined"
  proof -
    have "k \<in> fst ` set kws" using that w by (auto split: option.splits dest!: map_of_SomeD intro: rev_image_eqI)
    then show ?thesis using f by (metis set_map)
  qed
  have "kws ! n = (case shape ! n of (k, z) \<Rightarrow> (k, jfield k w))" if "n < length shape" for n
  proof -
    have n: "n < length kws" "fst (kws ! n) = fst (shape ! n)" using that l by (auto simp: list_all2_conv_all_nth)
    then have "(fst (shape ! n), snd (kws ! n)) \<in> set kws" by (metis nth_mem prod.collapse)
    then have "jfield (fst (shape ! n)) w = snd (kws ! n)" using jfield_filter_defined f assms(2) w by simp
    then show ?thesis using n(2) by (simp add: case_prod_beta prod_eq_iff del: jfield.simps)
  qed
  moreover have "length kws = length shape" using f by (metis length_map)
  ultimately have "kws = map (\<lambda>(k, z). (k, jfield k w)) shape" by (intro nth_equalityI) (simp_all del: jfield.simps)
  then show "w = JObj (filter (\<lambda>(k, w). w \<noteq> JUndefined) (map (\<lambda>(k, z). (k, jfield k w)) shape))" using w by metis
qed

lemma zod_number:
  "zod_data (ZNumber m cs) v = Some w \<Longrightarrow> w = v \<and> (\<exists>x. v = JNum x \<and> jis_finite x \<and> list_all (number_ok x) cs)"
  by (cases v) (auto split: if_splits)

lemma zod_optional_unless:
  "zod_data (optional_unless required z) v = Some w \<Longrightarrow> absent_ok required w \<or> zod_data z v = Some w"
  by (auto simp: optional_unless_def absent_ok_def split: if_splits)

lemma zod_numeric:
  assumes "zod_data (required_refine required l (ZPreprocess f (optional_unless required (ZNumber m cs)))) v = Some w"
  shows "absent_ok required w \<or> (\<exists>x. w = JNum x \<and> jis_finite x \<and> list_all (number_ok x) cs)"
proof -
  have "zod_data (optional_unless required (ZNumber m cs)) (f v) = Some w"
    using assms by (auto simp: required_refine_def split: if_splits option.splits)
  then show ?thesis using zod_optional_unless zod_number by blast
qed

lemma run_text:
  "run_string (opt_check (\<lambda>n. MinLen n (a n)) lo @ opt_check (\<lambda>n. MaxLen n (b n)) hi) s = Some t \<longleftrightarrow>
    t = s \<and> at_least lo (length s) \<and> at_most hi (length s)"
  by (auto simp: opt_check_def at_least_def at_most_def split: option.splits)

lemma zod_text:
  assumes "zod_data (ZString (Trim # (if required = Some False then [] else [MinLen 1 m])
     @ opt_check (\<lambda>n. MinLen n (a n)) lo @ opt_check (\<lambda>n. MaxLen n (b n)) hi)) v = Some w"
  shows "typed_text required lo hi w"
  using assms by (cases v) (auto simp: typed_text_def run_text Suc_le_eq split: if_splits)

lemma zod_plain_text: "zod_data (ZString [Trim, MinLen 1 m]) v = Some w \<Longrightarrow> typed_text None None None w"
  using zod_text[of None m undefined None undefined None v w] by (simp add: opt_check_def)

lemma zod_enum: "zod_data (ZEnum vs m) v = Some w \<Longrightarrow> one_of vs w"
  by (cases v) (auto simp: one_of_def split: if_splits)

lemma length_ok_min: "list_all (length_ok n) (opt_check (\<lambda>m. MinLength m (a m)) lo) \<longleftrightarrow> at_least lo n"
  by (auto simp: opt_check_def at_least_def split: option.splits)

lemma length_ok_max: "list_all (length_ok n) (opt_check (\<lambda>m. MaxLength m (a m)) hi) \<longleftrightarrow> at_most hi n"
  by (auto simp: opt_check_def at_most_def split: option.splits)

lemma zod_refine: "zod_data (ZRefine z p m) v = Some w \<longleftrightarrow> zod_data z v = Some w \<and> p w"
  by (auto split: option.splits)

lemma zod_rows:
  assumes "zod_data (applyArrayConstraints num_str z label minItems (case uniqueBy of None \<Rightarrow> [] | Some ks \<Rightarrow> ks) props) v = Some w"
  obtains vs ws where "v = JArr vs" "w = JArr ws" "list_all2 (\<lambda>v w. zod_data z v = Some w) vs ws"
    "at_least minItems (length ws)" "unique_rows num_str uniqueBy props ws"
proof -
  let ?ks = "case uniqueBy of None \<Rightarrow> [] | Some ks \<Rightarrow> ks"
  have a: "zod_data (ZArray z (opt_check (\<lambda>n. MinLength n (MinItems label n)) minItems)) v = Some w"
    using assms by (auto simp: applyArrayConstraints_def Let_def zod_refine simp del: zod_data.simps split: if_splits)
  then obtain vs ws where v: "v = JArr vs" "w = JArr ws" "list_all2 (\<lambda>v w. zod_data z v = Some w) vs ws" "at_least minItems (length ws)"
    by (rule zod_array) (simp add: length_ok_min)
  have "unique_rows num_str uniqueBy props ws"
    using assms v(2) by (auto simp: applyArrayConstraints_def Let_def zod_refine unique_rows_def no_repeat_distinct json_list_def list_ex_iff
        list_all_iff image_iff simp del: zod_data.simps split: if_splits option.splits)
  then show thesis using v that by blast
qed

lemma zod_record_rows:
  assumes rows: "list_all2 (\<lambda>v w. zod_data (buildObjectSchema num_str props) v = Some w) vs ws" and d: "distinct (map op_key props)"
    and p: "\<And>p v w. p \<in> set props \<Longrightarrow> zod_data (buildObjectPropertySchema num_str p) v = Some w \<Longrightarrow> typed_property num_str p w"
  shows "list_all (\<lambda>item. isRecord item \<and> list_all (\<lambda>p. typed_property num_str p (jfield (op_key p) item)) props) ws"
proof -
  let ?shape = "map (\<lambda>p. (op_key p, buildObjectPropertySchema num_str p)) props"
  have s: "distinct (map fst ?shape)" "buildObjectSchema num_str props = ZObject ?shape"
    using d by (simp_all add: buildObjectSchema_def shape_of_distinct comp_def)
  have "isRecord w \<and> list_all (\<lambda>p. typed_property num_str p (jfield (op_key p) w)) props"
    if "zod_data (ZObject ?shape) v = Some w" for v w
    using zod_object(2)[OF that s(1)] zod_object(3)[OF that s(1)] p by (fastforce simp: list_all_iff)
  then show ?thesis using rows unfolding s(2) by (auto simp: list_all2_conv_all_nth list_all_length)
qed

lemma property_sound:
  "zod_data (buildObjectPropertySchema num_str p) v = Some w \<Longrightarrow> property_wf p \<Longrightarrow> typed_property num_str p w"
proof (induction num_str p arbitrary: v w rule: buildObjectPropertySchema.induct)
  case (1 num_str key label required ty enum mn mx exclusiveMin uiHint)
  let ?l = "label_or label key"
  consider e es where "enum = Some (e # es)" | "ty = PString" "\<nexists>e es. enum = Some (e # es)" | "ty \<noteq> PString" "\<nexists>e es. enum = Some (e # es)" by blast
  then show ?case
  proof cases
    case 1
    then show ?thesis using "1.prems"(1) zod_enum zod_optional_unless by (fastforce simp: Let_def simp del: zod_data.simps)
  next
    case 2
    then have "zod_data (optional_unless required (ZString (Trim # (if required = Some False then [] else [MinLen 1 (Required ?l)])))) v = Some w"
      using "1.prems"(1) by (auto simp: Let_def simp del: zod_data.simps split: option.splits list.splits)
    then show ?thesis using 2 zod_optional_unless zod_text[of required "Required ?l" undefined None undefined None v w]
      by (fastforce simp: opt_check_def simp del: zod_data.simps split: option.splits list.splits)
  next
    case 3
    let ?cs = "(if ty = PInteger then [IsInt (WholeNumber ?l)] else [])
                     @ opt_check (\<lambda>m. if exclusiveMin = Some True then Gt m (GreaterThan ?l m) else Min m (AtLeast ?l m)) mn
                     @ opt_check (\<lambda>m. Max m (AtMost ?l m)) mx"
    have "absent_ok required w \<or> (\<exists>x. w = JNum x \<and> jis_finite x \<and> list_all (number_ok x) ?cs)"
      using 3 "1.prems"(1) by (intro zod_numeric) (auto simp: Let_def simp del: zod_data.simps split: option.splits list.splits)
    moreover have "typed_number (ty = PInteger) mn (exclusiveMin = Some True) mx (JNum x)" if "jis_finite x" "list_all (number_ok x) ?cs" for x
      using that by (auto simp: typed_number_def in_bounds_def opt_check_def split: option.splits if_splits)
    ultimately show ?thesis using 3 by (auto split: option.splits list.splits)
  qed
next
  case (2 num_str key label required minItems uniqueBy props uiHint)
  have "zod_data (optional_unless required (applyArrayConstraints num_str (buildObjectSchema num_str props) (label_or label key) minItems
     (case uniqueBy of None \<Rightarrow> [] | Some ks \<Rightarrow> ks) props)) v = Some w"
    using 2(2) by (simp add: Let_def buildObjectSchema_def)
  then consider "absent_ok required w"
    | "zod_data (applyArrayConstraints num_str (buildObjectSchema num_str props) (label_or label key) minItems
         (case uniqueBy of None \<Rightarrow> [] | Some ks \<Rightarrow> ks) props) v = Some w"
    using zod_optional_unless by blast
  then show ?case
  proof cases
    case 2
    have p: "typed_property num_str p w" if "p \<in> set props" "zod_data (buildObjectPropertySchema num_str p) v = Some w" for p v w
      using "2.IH" that "2.prems"(2) by (auto simp: list_all_iff)
    from 2 show ?thesis
    proof (rule zod_rows)
      fix vs ws
      assume a: "w = JArr ws" "list_all2 (\<lambda>v w. zod_data (buildObjectSchema num_str props) v = Some w) vs ws"
        "at_least minItems (length ws)" "unique_rows num_str uniqueBy props ws"
      then show ?thesis using zod_record_rows[OF a(2) _ p] "2.prems"(2) by simp
    qed
  qed simp
qed

lemma entry_sound:
  assumes "zod_data (buildSubAlgorithmEntrySchema label) v = Some w"
  shows "typed_entry w"
proof -
  note o = zod_object[OF assms[unfolded buildSubAlgorithmEntrySchema_def]]
  have "typed_text None None None (jfield ''algorithm_key'' w)" "typed_text None None None (jfield ''algorithm_version'' w)"
    by (rule zod_plain_text, rule o(3); simp)+
  moreover have "zod_data (ZPreprocess (to_numeric js_to_number) (ZNumber (WeightNumber label) [Gt (Fin 0) (WeightPositive label)])) (jfield ''weight'' v)
      = Some (jfield ''weight'' w)" by (rule o(3)) simp_all
  then have "typed_number False (Some (Fin 0)) True None (jfield ''weight'' w)"
    using zod_number by (fastforce simp: typed_number_def in_bounds_def)
  moreover have "zod_data (ZArray (ZObject [(''key'', ZString [MinLen 1 InputKeyRequired]),
      (''value'', ZRefine ZUnknown (\<lambda>v. v \<noteq> JUndefined \<and> v \<noteq> JNull) InputValueRequired)]) []) (jfield ''inputs'' v) = Some (jfield ''inputs'' w)"
    by (rule o(3)) simp_all
  then obtain ws vs where a: "jfield ''inputs'' w = JArr ws" "list_all2 (\<lambda>v w. zod_data (ZObject [(''key'', ZString [MinLen 1 InputKeyRequired]),
      (''value'', ZRefine ZUnknown (\<lambda>v. v \<noteq> JUndefined \<and> v \<noteq> JNull) InputValueRequired)]) v = Some w) vs ws" by (rule zod_array)
  have "isRecord i \<and> is_jstr (jfield ''key'' i) \<and> jstr (jfield ''key'' i) \<noteq> [] \<and> jfield ''value'' i \<noteq> JUndefined \<and> jfield ''value'' i \<noteq> JNull"
    if "zod_data (ZObject [(''key'', ZString [MinLen 1 InputKeyRequired]),
      (''value'', ZRefine ZUnknown (\<lambda>v. v \<noteq> JUndefined \<and> v \<noteq> JNull) InputValueRequired)]) j = Some i" for i j
  proof -
    note q = zod_object[OF that]
    have "zod_data (ZString [MinLen 1 InputKeyRequired]) (jfield ''key'' j) = Some (jfield ''key'' i)"
      "zod_data (ZRefine ZUnknown (\<lambda>v. v \<noteq> JUndefined \<and> v \<noteq> JNull) InputValueRequired) (jfield ''value'' j) = Some (jfield ''value'' i)"
      by (rule q(3); simp)+
    then show ?thesis using q(2) by (cases "jfield ''key'' j"; cases "jfield ''key'' i") (auto split: if_splits)
  qed
  then have "list_all (\<lambda>i. isRecord i \<and> is_jstr (jfield ''key'' i) \<and> jstr (jfield ''key'' i) \<noteq> []
             \<and> jfield ''value'' i \<noteq> JUndefined \<and> jfield ''value'' i \<noteq> JNull) ws"
    using a(2) by (auto simp: list_all2_conv_all_nth list_all_length)
  ultimately show ?thesis using o(2) a(1) by (simp add: typed_entry_def)
qed

lemma strings_sound:
  assumes "zod_data (ZRefine (ZArray (ZString [Trim, MinLen 1 m]) (case minItems of Some (Suc n) \<Rightarrow> [MinLength (Suc n) (m' n)] | _ \<Rightarrow> []))
     json_distinct_strings m'') v = Some w"
  shows "\<exists>ws. w = JArr ws \<and> list_all (typed_text None None None) ws \<and> distinct ws \<and> at_least minItems (length ws)"
proof -
  have d: "distinct vs" if "length (js_dedup vs) = length vs" for vs :: "json list"
    using that by (metis card_distinct distinct_card distinct_js_dedup set_js_dedup)
  from assms have "json_distinct_strings w"
    "zod_data (ZArray (ZString [Trim, MinLen 1 m]) (case minItems of Some (Suc n) \<Rightarrow> [MinLength (Suc n) (m' n)] | _ \<Rightarrow> [])) v = Some w"
    by (simp_all only: zod_refine)
  then obtain vs ws where w: "w = JArr ws" "list_all2 (\<lambda>v w. zod_data (ZString [Trim, MinLen 1 m]) v = Some w) vs ws"
    "list_all (length_ok (length ws)) (case minItems of Some (Suc n) \<Rightarrow> [MinLength (Suc n) (m' n)] | _ \<Rightarrow> [])" "json_distinct_strings w"
    by (elim zod_array) simp
  have "at_least minItems (length ws)" using w(3) by (auto simp: at_least_def split: option.splits nat.splits)
  moreover have "list_all (typed_text None None None) ws"
    using w(2) zod_plain_text by (auto simp: list_all2_conv_all_nth list_all_length simp del: zod_data.simps)
  ultimately show ?thesis using w(1,4) d by (simp add: json_distinct_strings_def json_list_def)
qed

lemma sub_algorithms_sound:
  assumes "zod_data (ZRefine (ZRefine (ZArray (buildSubAlgorithmEntrySchema label)
             (opt_check (\<lambda>n. MinLength n (a n)) minItems @ opt_check (\<lambda>n. MaxLength n (b n)) maxItems))
           (\<lambda>v. no_repeat [] (map entry_key (json_list v))) m) (\<lambda>v. jis_finite (total_weight (json_list v))) m') v = Some w"
  shows "\<exists>es. w = JArr es \<and> list_all typed_entry es \<and> distinct (map entry_key es) \<and> jis_finite (total_weight es)
            \<and> at_least minItems (length es) \<and> at_most maxItems (length es)"
proof -
  from assms have c: "no_repeat [] (map entry_key (json_list w))" "jis_finite (total_weight (json_list w))"
    "zod_data (ZArray (buildSubAlgorithmEntrySchema label) (opt_check (\<lambda>n. MinLength n (a n)) minItems @ opt_check (\<lambda>n. MaxLength n (b n)) maxItems)) v = Some w"
    by (simp_all only: zod_refine)
  from c(3) obtain vs ws where w: "w = JArr ws" "list_all2 (\<lambda>v w. zod_data (buildSubAlgorithmEntrySchema label) v = Some w) vs ws"
    "list_all (length_ok (length ws)) (opt_check (\<lambda>n. MinLength n (a n)) minItems @ opt_check (\<lambda>n. MaxLength n (b n)) maxItems)"
    by (rule zod_array)
  have "list_all typed_entry ws" using w(2) entry_sound by (auto simp: list_all2_conv_all_nth list_all_length)
  then show ?thesis using w(1,3) c(1,2) by (simp add: no_repeat_distinct json_list_def length_ok_min length_ok_max)
qed

lemma input_sound:
  assumes "zod_data (buildFieldSchema num_str i label) v = Some w" "input_wf i"
  shows "typed_input num_str i w"
proof (cases i)
  case (NumericIo key l integer mn mx required)
  let ?cs = "opt_check (\<lambda>m. Min m (AtLeast label m)) mn @ opt_check (\<lambda>m. Max m (AtMost label m)) mx
          @ (if integer then [IsInt (WholeNumber label)] else [])"
  have "absent_ok required w \<or> (\<exists>x. w = JNum x \<and> jis_finite x \<and> list_all (number_ok x) ?cs)"
    using assms(1) unfolding NumericIo by (intro zod_numeric) (simp del: zod_data.simps)
  then show ?thesis by (auto simp: NumericIo typed_number_def in_bounds_def opt_check_def split: option.splits if_splits)
next
  case (StringIo key l required minLength maxLength enum uiHint)
  show ?thesis
  proof (cases "\<exists>e es. enum = Some (e # es)")
    case True
    then show ?thesis using assms(1) StringIo zod_enum by (auto simp del: zod_data.simps)
  next
    case False
    let ?z = "ZString (Trim # (if required = Some False then [] else [MinLen 1 (Required label)])
               @ opt_check (\<lambda>n. MinLen n (MinChars label n)) minLength @ opt_check (\<lambda>n. MaxLen n (MaxChars label n)) maxLength)"
    have "zod_data (optional_unless required ?z) v = Some w"
      using assms(1) False unfolding StringIo by (auto simp del: zod_data.simps split: option.splits list.splits)
    then have "absent_ok required w \<or> typed_text required minLength maxLength w" using zod_optional_unless zod_text by blast
    then show ?thesis using False StringIo by (auto split: option.splits list.splits)
  qed
next
  case (ArrayIo key l required minItems uniqueBy uiHint item)
  show ?thesis
  proof (cases item)
    case (ObjectItem props)
    then have "zod_data (buildObjectPropertySchema num_str (ArrayProperty key (Some label) required minItems uniqueBy props uiHint)) v = Some w"
      using assms(1) ArrayIo by (simp add: Let_def label_or_def buildObjectSchema_def)
    then have "typed_property num_str (ArrayProperty key (Some label) required minItems uniqueBy props uiHint) w"
      using assms(2) ArrayIo ObjectItem by (intro property_sound) simp_all
    then show ?thesis by (simp add: ArrayIo ObjectItem)
  next
    case StringItem
    then show ?thesis using assms(1) ArrayIo zod_optional_unless strings_sound by (fastforce simp del: zod_data.simps)
  qed
next
  case (SubAlgorithmIo key l required minItems maxItems shared)
  then show ?thesis using assms(1) zod_optional_unless sub_algorithms_sound by (fastforce simp del: zod_data.simps)
next
  case (BooleanIo key l required)
  then show ?thesis using assms(1) by (cases v) (auto simp: optional_unless_def absent_ok_def split: if_splits)
qed (use assms in \<open>cases v; auto split: if_splits\<close>)+

text \<open>A row that names a chain and a resource names ones of the catalog.\<close>

definition in_catalog :: "ResourceCatalogChain list \<Rightarrow> json \<Rightarrow> bool" where
  "in_catalog catalog item \<longleftrightarrow>
     trimmed_field ''chain'' item = [] \<or> trimmed_field ''resource_key'' item = []
     \<or> (\<exists>c \<in> set catalog. rch_key c = trimmed_field ''chain'' item \<and> (\<exists>r \<in> set (rch_resources c). rr_key r = trimmed_field ''resource_key'' item))"

fun catalog_ok :: "IoItem \<Rightarrow> json \<Rightarrow> bool" where
  "catalog_ok (ArrayIo _ _ _ _ _ uiHint _) v \<longleftrightarrow>
     (case (getFieldResourceCatalog uiHint, v) of (Some catalog, JArr items) \<Rightarrow> list_all (in_catalog catalog) (filter isRecord items) | _ \<Rightarrow> True)"
| "catalog_ok _ v \<longleftrightarrow> True"

lemma row_catalog_ok: "row_catalog_errors catalog path index item = [] \<Longrightarrow> isRecord item \<Longrightarrow> in_catalog catalog item"
  by (auto simp: row_catalog_errors_def in_catalog_def Let_def find_Some_iff list_ex_iff split: if_splits option.splits)

lemma in_enumerate:
  assumes "x \<in> set xs"
  shows "\<exists>n. (n, x) \<in> set (enumerate 0 xs)"
proof -
  obtain n where "n < length xs" "xs ! n = x" using assms by (auto simp: in_set_conv_nth)
  then have "(n, x) \<in> set (enumerate 0 xs)" by (simp add: in_set_enumerate_eq)
  then show ?thesis by blast
qed

lemma catalog_sound:
  assumes "validateResourceSelectorFieldConstraints i v = []"
  shows "catalog_ok i v"
proof (cases i)
  case (ArrayIo key l required minItems uniqueBy uiHint item)
  show ?thesis
  proof (cases "getFieldResourceCatalog uiHint"; cases v)
    fix catalog items assume c: "getFieldResourceCatalog uiHint = Some catalog" "v = JArr items"
    have "in_catalog catalog x" if x: "x \<in> set items" "isRecord x" for x
    proof -
      obtain n where "(n, x) \<in> set (enumerate 0 items)" using in_enumerate[OF x(1)] by blast
      then have "row_catalog_errors catalog key n x = []" using assms c ArrayIo by fastforce
      then show ?thesis using row_catalog_ok x(2) by blast
    qed
    then show ?thesis using c ArrayIo by (auto simp: list_all_iff)
  qed (simp_all add: ArrayIo)
qed simp_all

fun property_options_ok :: "(jsnum \<Rightarrow> string) \<Rightarrow> ObjectPropertyParam \<Rightarrow> json \<Rightarrow> json \<Rightarrow> bool" where
  "property_options_ok num_str (ScalarProperty key label required ty enum mn mx exclusiveMin uiHint) v ctx \<longleftrightarrow>
     (case v of JStr s \<Rightarrow> option_allowed num_str uiHint ctx s | _ \<Rightarrow> True)"
| "property_options_ok num_str (ArrayProperty key label required minItems uniqueBy props uiHint) v ctx \<longleftrightarrow>
     list_all (\<lambda>item. list_all (\<lambda>p. property_options_ok num_str p (jfield (op_key p) item) (spread ctx item)) props) (filter isRecord (json_list v))"

fun options_ok :: "(jsnum \<Rightarrow> string) \<Rightarrow> IoItem \<Rightarrow> json \<Rightarrow> json \<Rightarrow> bool" where
  "options_ok num_str (StringIo _ _ _ _ _ _ uiHint) v payload \<longleftrightarrow> (case v of JStr s \<Rightarrow> option_allowed num_str uiHint payload s | _ \<Rightarrow> True)"
| "options_ok num_str (ArrayIo key label required minItems uniqueBy uiHint (ObjectItem props)) v payload \<longleftrightarrow>
     property_options_ok num_str (ArrayProperty key label required minItems uniqueBy props uiHint) v payload"
| "options_ok num_str _ v payload \<longleftrightarrow> True"

lemma property_options_sound: "validatePropertyOptions num_str p v path ctx = [] \<Longrightarrow> property_options_ok num_str p v ctx"
proof (induction num_str p v path ctx rule: validatePropertyOptions.induct)
  case (2 num_str key label required minItems uniqueBy props uiHint v path ctx)
  have "property_options_ok num_str p (jfield (op_key p) item) (spread ctx item)"
    if i: "item \<in> set (json_list v)" "isRecord item" "p \<in> set props" for item p
  proof -
    obtain n where n: "(n, item) \<in> set (enumerate 0 (json_list v))" using in_enumerate[OF i(1)] by blast
    then have "validatePropertyOptions num_str p (jfield (op_key p) item) (row_path path n (op_key p)) (spread ctx item) = []"
      using "2.prems" i by fastforce
    then show ?thesis using "2.IH"[OF n refl] i by blast
  qed
  then show ?case by (auto simp: list_all_iff)
qed (auto simp: scalar_option_errors_def split: json.splits if_splits)

lemma options_sound:
  "validateFieldOptionConstraints num_str i v payload = [] \<Longrightarrow> options_ok num_str i v payload"
  by (induction num_str i v payload rule: validateFieldOptionConstraints.induct)
    (auto simp: scalar_option_errors_def simp del: validatePropertyOptions.simps property_options_ok.simps dest: property_options_sound split: json.splits if_splits)

definition payload_shape :: "(jsnum \<Rightarrow> string) \<Rightarrow> AlgorithmDefinition \<Rightarrow> (string \<times> zod) list" where
  "payload_shape num_str dfn = map (\<lambda>i. (io_key i, buildFieldSchema num_str i (label_or (io_label i) (io_key i)))) (def_inputs dfn)"

lemma payload_shape_distinct: "definition_wf dfn \<Longrightarrow> distinct (map fst (payload_shape num_str dfn))"
  by (simp add: payload_shape_def definition_wf_def comp_def)

lemma buildZodSchema_shape: "definition_wf dfn \<Longrightarrow> buildZodSchema num_str dfn = ZObject (payload_shape num_str dfn)"
  using payload_shape_distinct[of dfn num_str] by (simp add: buildZodSchema_def payload_shape_def shape_of_distinct)

lemma validated_object:
  assumes "zod_documented safeParse" "definition_wf dfn" "validatePayload safeParse num_str dfn payload = Inr data"
  shows "zod_data (ZObject (payload_shape num_str dfn)) payload = Some data"
  using assms(3) safeParse_Inr[OF assms(1)] buildZodSchema_shape[OF assms(2)]
  by (auto simp: validatePayload_def Let_def simp del: zod_data.simps split: sum.splits if_splits)

lemma validated_field:
  assumes "zod_documented safeParse" "definition_wf dfn" "validatePayload safeParse num_str dfn payload = Inr data" "i \<in> set (def_inputs dfn)"
  shows "zod_data (buildFieldSchema num_str i (label_or (io_label i) (io_key i))) (jfield (io_key i) payload) = Some (jfield (io_key i) data)"
  using zod_object(3)[OF validated_object[OF assms(1-3)] payload_shape_distinct[OF assms(2)]] assms(4) by (simp add: payload_shape_def)

lemma validated_typed:
  assumes "zod_documented safeParse" "definition_wf dfn" "validatePayload safeParse num_str dfn payload = Inr data" "i \<in> set (def_inputs dfn)"
  shows "typed_input num_str i (jfield (io_key i) data)"
  using validated_field[OF assms] assms(2,4) by (auto simp: definition_wf_def list_all_iff intro: input_sound)

text \<open>
  C6: What the check of a payload returns has the declared types: a number is finite, within its bounds and whole where declared so, a
  text is trimmed and not empty unless it is optional, rows are distinct in their unique keys, sub-algorithms are distinct with positive
  weights of finite sum; options fit the fields they depend on, resources are in their catalog, and no other field is left.
\<close>

theorem accepted_payload_is_typed:
  assumes "zod_documented safeParse" "definition_wf dfn" "validatePayload safeParse num_str dfn payload = Inr data"
  shows "isRecord data
    \<and> (\<forall>i \<in> set (def_inputs dfn). typed_input num_str i (jfield (io_key i) data) \<and> catalog_ok i (jfield (io_key i) data)
         \<and> options_ok num_str i (jfield (io_key i) data) data)
    \<and> (\<forall>k. jfield k data \<noteq> JUndefined \<longrightarrow> k \<in> io_key ` set (def_inputs dfn))"
proof -
  note z = validated_object[OF assms] and d = payload_shape_distinct[OF assms(2)]
  have c: "validateConditionalOptionConstraints num_str (def_inputs dfn) data = []" "validateResourceSelectorConstraints (def_inputs dfn) data = []"
    using assms(3) by (auto simp: validatePayload_def Let_def split: sum.splits if_splits)
  have "catalog_ok i (jfield (io_key i) data) \<and> options_ok num_str i (jfield (io_key i) data) data" if "i \<in> set (def_inputs dfn)" for i
    using c that by (auto simp: validateResourceSelectorConstraints_def validateConditionalOptionConstraints_def intro: catalog_sound options_sound)
  moreover have "k \<in> io_key ` set (def_inputs dfn)" if "jfield k data \<noteq> JUndefined" for k
    using zod_object(4)[OF z d that] by (force simp: payload_shape_def)
  ultimately show ?thesis using zod_object(2)[OF z d] validated_typed[OF assms] by blast
qed

section \<open>Checking twice changes nothing\<close>

text \<open>A schema whose result it accepts as it is.\<close>

fun steady :: "zod \<Rightarrow> bool" where
  "steady (ZString cs) \<longleftrightarrow> Trim \<notin> set (case cs of Trim # r \<Rightarrow> r | _ \<Rightarrow> cs)"
| "steady (ZArray z _) \<longleftrightarrow> steady z"
| "steady (ZObject shape) \<longleftrightarrow> distinct (map fst shape) \<and> list_all (\<lambda>(k, z). steady z) shape"
| "steady (ZOptional z) \<longleftrightarrow> steady z"
| "steady (ZPreprocess f z) \<longleftrightarrow> steady z \<and> (\<forall>v w. zod_data z v = Some w \<longrightarrow> f w = w)"
| "steady (ZRefine z _ _) \<longleftrightarrow> steady z"
| "steady _ \<longleftrightarrow> True"

lemma run_no_trim: "Trim \<notin> set cs \<Longrightarrow> run_string cs s = Some t \<Longrightarrow> t = s"
  by (induction cs s rule: run_string.induct) (auto split: if_splits)

lemma run_string_idem: "steady (ZString cs) \<Longrightarrow> run_string cs s = Some t \<Longrightarrow> run_string cs t = Some t"
proof (cases cs)
  case (Cons c r)
  assume "steady (ZString cs)" "run_string cs s = Some t"
  moreover have "t = js_trim s" if "c = Trim" using calculation Cons that run_no_trim[of r] by auto
  ultimately show ?thesis using Cons run_no_trim[of r] run_no_trim[of cs] by (cases c) (auto split: if_splits)
qed simp

lemma steady_idem: "steady z \<Longrightarrow> zod_data z v = Some w \<Longrightarrow> zod_data z w = Some w"
proof (induction z v arbitrary: w rule: zod_data.induct)
  case (1 cs v)
  then show ?case using run_string_idem by (cases v) (auto simp del: steady.simps)
next
  case (6 z ls v)
  from 6(3) obtain vs ws where a: "v = JArr vs" "w = JArr ws" "list_all2 (\<lambda>v w. zod_data z v = Some w) vs ws" "list_all (length_ok (length ws)) ls"
    by (rule zod_array)
  have "zod_data z (ws ! n) = Some (ws ! n)" if "n < length ws" for n
    using 6(1)[OF a(1), of "vs ! n" "ws ! n"] 6(2) a(3) that by (simp add: list_all2_conv_all_nth)
  then have "list_all2 (\<lambda>v w. zod_data z v = Some w) ws ws" by (simp add: list_all2_conv_all_nth)
  then show ?case using a by (simp add: those_Some[THEN iffD2])
next
  case (7 shape v)
  then have d: "distinct (map fst shape)" by simp
  note o = zod_object[OF 7(3) d]
  have i: "zod_data z (jfield k w) = Some (jfield k w)" if "(k, z) \<in> set shape" for k z
    using 7(1,2) o(1) o(3)[OF that] that by (cases v) (auto simp: list_all_iff simp del: jfield.simps)
  have "those (map (\<lambda>(k, z). map_option (Pair k) (zod_data z (jfield k w))) shape) = Some (map (\<lambda>(k, z). (k, jfield k w)) shape)"
    unfolding those_Some using i by (auto simp: list_all2_conv_all_nth case_prod_beta simp del: jfield.simps)
  moreover obtain kws where "w = JObj kws" using o(2) by (cases w) auto
  ultimately show ?case using o(5) by (simp del: jfield.simps)
next
  case (2 m cs v)
  then show ?case using zod_number by blast
next
  case (3 v)
  then show ?case by (cases v) auto
next
  case (4 vs m v)
  then show ?case by (cases v) (auto split: if_splits)
next
  case (8 z v)
  then show ?case by (cases "v = JUndefined") auto
next
  case (10 z p m v)
  then show ?case by (auto simp: zod_refine simp del: zod_data.simps)
next
  case (9 f z v)
  then have s: "steady z" "zod_data z (f v) = Some w" and "f w = w" unfolding zod_data.simps steady.simps by blast+
  then show ?case using 9(1)[OF s] by simp
qed simp

lemma to_numeric_idem: "zod_data (optional_unless required (ZNumber m cs)) v = Some w \<Longrightarrow> to_numeric conv w = w"
  using zod_optional_unless[of required "ZNumber m cs" v w] zod_number[of m cs v w] by (auto simp: to_numeric_def absent_ok_def)

lemma steady_optional: "steady (optional_unless required z) \<longleftrightarrow> steady z"
  by (simp add: optional_unless_def)

lemma steady_required: "steady (required_refine required l z) \<longleftrightarrow> steady z"
  by (simp add: required_refine_def)

lemma steady_numeric: "steady (required_refine required l (ZPreprocess (to_numeric conv) (optional_unless required (ZNumber m cs))))"
  using to_numeric_idem by (auto simp: steady_required steady_optional simp del: zod_data.simps)

lemma no_trim_opt: "Trim \<notin> set (opt_check (\<lambda>n. MinLen n (f n)) x)" "Trim \<notin> set (opt_check (\<lambda>n. MaxLen n (f n)) x)"
  by (simp_all add: opt_check_def split: option.split)

lemma steady_rows: "steady (applyArrayConstraints num_str z label minItems ks props) \<longleftrightarrow> steady z"
  by (simp add: applyArrayConstraints_def Let_def)

lemma steady_shape:
  "distinct (map k xs) \<Longrightarrow> (\<And>x. x \<in> set xs \<Longrightarrow> steady (f x)) \<Longrightarrow> steady (ZObject (shape_of (map (\<lambda>x. (k x, f x)) xs)))"
  by (simp add: shape_of_distinct comp_def list_all_iff)

lemma steady_property: "property_wf p \<Longrightarrow> steady (buildObjectPropertySchema num_str p)"
proof (induction num_str p rule: buildObjectPropertySchema.induct)
  case (1 num_str key label required ty enum mn mx exclusiveMin uiHint)
  then show ?case using steady_numeric by (auto simp: Let_def steady_optional simp del: steady.simps(5) split: option.split list.split)
next
  case (2 num_str key label required minItems uniqueBy props uiHint)
  then have "steady (ZObject (shape_of (map (\<lambda>p. (op_key p, buildObjectPropertySchema num_str p)) props)))"
    by (intro steady_shape) (auto simp: list_all_iff)
  then show ?case by (simp add: Let_def steady_optional steady_rows del: steady.simps)
qed

lemma steady_entry: "steady (buildSubAlgorithmEntrySchema label)"
  using to_numeric_idem[of None "WeightNumber label"] by (auto simp: buildSubAlgorithmEntrySchema_def optional_unless_def simp del: zod_data.simps)

lemma steady_input: "input_wf i \<Longrightarrow> steady (buildFieldSchema num_str i label)"
proof (cases i)
  case (ArrayIo key l required minItems uniqueBy uiHint item)
  assume "input_wf i"
  then have "steady (buildObjectSchema num_str props)" if "item = ObjectItem props" for props
    unfolding buildObjectSchema_def using that ArrayIo by (intro steady_shape steady_property) (auto simp: list_all_iff)
  then show ?thesis by (cases item) (auto simp: ArrayIo steady_optional steady_rows)
next
  case (NumericIo key l integer mn mx required)
  then show ?thesis using steady_numeric by simp
qed (use no_trim_opt steady_entry in \<open>auto simp: steady_optional split: option.split list.split\<close>)

text \<open>
  The check of a payload is idempotent: what it returns is accepted, and returned as it is, by a second check.
\<close>

lemma validation_is_idempotent:
  assumes "zod_documented safeParse" "definition_wf dfn" "validatePayload safeParse num_str dfn payload = Inr data"
  shows "validatePayload safeParse num_str dfn data = Inr data"
proof -
  have "steady (buildZodSchema num_str dfn)"
    unfolding buildZodSchema_def using assms(2) by (intro steady_shape steady_input) (auto simp: definition_wf_def list_all_iff)
  moreover have "safeParse (buildZodSchema num_str dfn) payload = Inr data"
    using assms(3) by (auto simp: validatePayload_def Let_def split: sum.splits if_splits)
  ultimately have "safeParse (buildZodSchema num_str dfn) data = Inr data" using steady_idem safeParse_Inr[OF assms(1)] by blast
  then show ?thesis using assms(3) by (auto simp: validatePayload_def Let_def split: sum.splits if_splits)
qed

text \<open>An optional JSON input and an optional choice are refused when they are left out, although \<^verbatim>\<open>required\<close> is false.\<close>

lemma optional_input_refused:
  assumes "zod_documented safeParse" "definition_wf dfn" "i \<in> set (def_inputs dfn)" "jfield (io_key i) payload = JUndefined"
    and "i = JsonIo key l (Some False) c \<or> i = StringIo key l (Some False) mn mx (Some (e # es)) u"
  shows "\<exists>errors. validatePayload safeParse num_str dfn payload = Inl errors"
proof (cases "validatePayload safeParse num_str dfn payload")
  case (Inr data)
  have "zod_data (buildFieldSchema num_str i (label_or (io_label i) (io_key i))) JUndefined = Some (jfield (io_key i) data)"
    using validated_field[OF assms(1,2) Inr assms(3)] assms(4) by simp
  then show ?thesis using assms(5) by auto
qed blast

section \<open>Examples\<close>

definition sample_safeParse :: safe_parse where
  "sample_safeParse z v =
     (case zod_data z v of Some w \<Rightarrow> Inr w | None \<Rightarrow> Inl [\<lparr>zi_path = [], zi_message = DefaultMessage, zi_code = ''custom''\<rparr>])"

lemma sample_zod_documented: "zod_documented sample_safeParse"
  by (auto simp: zod_documented_def sample_safeParse_def split: option.split)

definition sample_options :: json where
  "sample_options = JObj [(''options'', JArr [JObj [(''value'', JStr ''eth''), (''label'', JStr ''ETH''), (''filterBy'', JStr ''ethereum'')],
     JObj [(''value'', JStr ''ada''), (''label'', JStr ''ADA''), (''filterBy'', JStr ''cardano'')]]), (''dependsOn'', JStr ''chain'')]"

definition sample_definition :: AlgorithmDefinition where
  "sample_definition =
     \<lparr>def_key = ''a'', def_name = ''A'', def_combined = False, def_version = ''1'',
      def_inputs = [NumericIo ''days'' None True (Some (jint 1)) None (Some True),
        ArrayIo ''rows'' None None (Some 1) (Some [''token'']) JNull
          (ObjectItem [ScalarProperty ''chain'' None None PString None None None None JNull,
             ScalarProperty ''token'' None None PString None None None None sample_options])],
      def_rules = []\<rparr>"

definition sample_payload :: "string \<Rightarrow> json" where
  "sample_payload chain =
     JObj [(''days'', JNum (jint 30)), (''rows'', JArr [JObj [(''chain'', JStr chain), (''token'', JStr '' eth ''), (''x'', JNull)]]), (''y'', JNull)]"

definition sample_accepted :: json where
  "sample_accepted = JObj [(''days'', JNum (jint 30)), (''rows'', JArr [JObj [(''chain'', JStr ''ethereum''), (''token'', JStr ''eth'')]])]"

lemma sample_definition_wf: "definition_wf sample_definition"
  by (simp add: definition_wf_def sample_definition_def)

lemma sample_validated: "validatePayload sample_safeParse (\<lambda>_. []) sample_definition (sample_payload ''ethereum'') = Inr sample_accepted"
  by code_simp

lemma sample_refused:
  "validatePayload sample_safeParse (\<lambda>_. []) sample_definition (sample_payload ''cardano'')
    = Inl [\<lparr>ve_field = ''rows.0.token'', ve_message = Text ''token does not match the current selection. Select it again.'', ve_code = Some ''invalid_value''\<rparr>]"
  by code_simp

theorem accepted_payload_is_typed_witness:
  "isRecord sample_accepted \<and> typed_input (\<lambda>_. []) (NumericIo ''days'' None True (Some (jint 1)) None (Some True)) (jfield ''days'' sample_accepted)"
  using accepted_payload_is_typed[OF sample_zod_documented sample_definition_wf sample_validated]
  by (simp add: sample_definition_def del: typed_input.simps jfield.simps)

lemma validation_is_idempotent_witness:
  "validatePayload sample_safeParse (\<lambda>_. []) sample_definition sample_accepted = Inr sample_accepted"
  by (rule validation_is_idempotent[OF sample_zod_documented sample_definition_wf sample_validated])

end
