(* ===== verification/Preset_Validation.thy ===== *)
theory Preset_Validation
  imports Payload_Schema Object_Storage
begin

text \<open>
  The check of a preset (\<^verbatim>\<open>preset-validation.ts\<close>, \<^verbatim>\<open>csv-validation.ts\<close>, \<^verbatim>\<open>json-validation.ts\<close>) and the one the
  API runs before it stores it (\<^verbatim>\<open>algorithm-input-validation.util.ts\<close>).  Texts are those of a file already
  decoded, so the byte order mark and the typographic dashes do not occur; \<^verbatim>\<open>JSON.parse\<close> is an argument, None where it throws.
  The check of a combined preset calls itself for its children: the first argument bounds the depth, and None is a check that
  did not return within it.
\<close>

section \<open>CSV files\<close>

fun normalize_newlines :: "string \<Rightarrow> string" where
  "normalize_newlines [] = []"
| "normalize_newlines (c # cs) =
     (if c = CHR 0x0D then CHR 0x0A # (case cs of d # ds \<Rightarrow> if d = CHR 0x0A then normalize_newlines ds else normalize_newlines cs | [] \<Rightarrow> [])
      else c # normalize_newlines cs)"

definition strip_chars :: "(char \<Rightarrow> bool) \<Rightarrow> string \<Rightarrow> string" where
  "strip_chars P s = rev (dropWhile P (rev (dropWhile P s)))"

definition is_quote :: "char \<Rightarrow> bool" where
  "is_quote c \<longleftrightarrow> c = CHR 0x22 \<or> c = CHR 0x27"

definition nbsp_to_space :: "string \<Rightarrow> string" where
  "nbsp_to_space s = map (\<lambda>c. if c = CHR 0xA0 then CHR '' '' else c) s"

text \<open>A run of characters of a class becomes one character.\<close>

fun squeeze :: "(char \<Rightarrow> bool) \<Rightarrow> char \<Rightarrow> bool \<Rightarrow> string \<Rightarrow> string" where
  "squeeze P r _ [] = []"
| "squeeze P r inside (c # cs) = (if P c then (if inside then squeeze P r True cs else r # squeeze P r True cs) else c # squeeze P r False cs)"

definition normalizeKey :: "string \<Rightarrow> string" where
  "normalizeKey s =
     strip_chars (\<lambda>c. c = CHR ''_'')
       (squeeze (\<lambda>c. c = CHR ''_'') (CHR ''_'') False
         (squeeze (\<lambda>c. js_is_space c \<or> c = CHR ''-'') (CHR ''_'') False
           (strip_chars is_quote (js_trim (nbsp_to_space (js_lower s))))))"

definition sanitize_header :: "string \<Rightarrow> string" where
  "sanitize_header h = strip_chars is_quote (js_trim (nbsp_to_space h))"

datatype file_error =
    TooManyRows nat nat | MissingHeader | MissingColumn string "string list" | NoDataRow | RowWidth nat nat nat
  | EnumValue nat string string "string list"
  | TooManyBytes nat nat | EmptyJson | UnreadableJson | TopLevelObject | OnlyTopLevelKey string | RootObject string
  | UnsupportedChains "string list" "string list" | ChainList string | AddressMissing string nat | AddressRepeated string string
  | EthereumAddress string nat | CardanoAddress string nat | NoWallet
  | CannotOpen string | OtherMessage string | UnsupportedFileType string "string list" | FileTooLarge int int | MustBeCsv string | MustBeJson string
  | FileTooLargeFor string int nat

definition choose_delimiter :: "char \<Rightarrow> string \<Rightarrow> char" where
  "choose_delimiter configured headerLine =
     (let width = (\<lambda>d. length (js_split d headerLine))
      in if width configured \<le> 1
         then foldl (\<lambda>d cand. if width d < width cand then cand else d) configured
           (js_dedup [configured, CHR '','', CHR '';'', CHR 0x09, CHR ''|''])
         else configured)"

definition column_keys :: "csv_column \<Rightarrow> string list" where
  "column_keys col = col_key col # (case col_aliases col of None \<Rightarrow> [] | Some ks \<Rightarrow> ks)"

definition column_found :: "string list \<Rightarrow> csv_column \<Rightarrow> bool" where
  "column_found headers col \<longleftrightarrow>
     list_ex (\<lambda>k. js_lower k \<in> set (map js_lower headers)) (column_keys col)
     \<or> list_ex (\<lambda>k. normalizeKey k \<in> set (map normalizeKey headers)) (column_keys col)"

fun find_index :: "('a \<Rightarrow> bool) \<Rightarrow> 'a list \<Rightarrow> nat option" where
  "find_index P [] = None"
| "find_index P (x # xs) = (if P x then Some 0 else map_option Suc (find_index P xs))"

definition cell_error :: "string list \<Rightarrow> string list \<Rightarrow> nat \<Rightarrow> csv_column \<Rightarrow> file_error list" where
  "cell_error headersLower cells i col =
     (case find_index (\<lambda>h. h \<in> set (map js_lower (column_keys col))) headersLower of
        None \<Rightarrow> []
      | Some j \<Rightarrow>
          (case (if j < length cells then strip_chars is_quote (js_trim (cells ! j)) else [], col_enum col) of
             (v # vs, Some allowed) \<Rightarrow> if (v # vs) \<in> set allowed then [] else [EnumValue (Suc i) (col_key col) (v # vs) allowed]
           | _ \<Rightarrow> []))"

definition row_errors :: "csv_config \<Rightarrow> char \<Rightarrow> string list \<Rightarrow> nat \<times> string \<Rightarrow> file_error list" where
  "row_errors cfg delimiter headers row =
     (let i = fst row; cells = js_split delimiter (snd row)
      in (if length cells \<noteq> length headers then [RowWidth (Suc i) (length cells) (length headers)] else [])
         @ concat (map (cell_error (map (js_lower \<circ> sanitize_header) headers) cells i) (filter (\<lambda>c. col_type c = ''enum'') (csv_columns cfg))))"

definition csv_lines :: "string \<Rightarrow> string list" where
  "csv_lines text = filter (\<lambda>line. js_trim line \<noteq> []) (js_split (CHR 0x0A) (normalize_newlines text))"

definition validateCSVContent :: "string \<Rightarrow> csv_config \<Rightarrow> file_error list" where
  "validateCSVContent text cfg =
     (let lines = csv_lines text;
          hasHeader = (case csv_hasHeader cfg of None \<Rightarrow> True | Some b \<Rightarrow> b);
          dataLines = (if hasHeader then drop 1 lines else lines);
          tooMany = (case csv_maxRows cfg of None \<Rightarrow> [] | Some n \<Rightarrow> if n < length dataLines then [TooManyRows (length dataLines) n] else [])
      in if hasHeader \<and> lines = [] then tooMany @ [MissingHeader]
         else
           (let configured = (case csv_delimiter cfg of None \<Rightarrow> CHR '','' | Some d \<Rightarrow> d);
                delimiter = (if hasHeader then choose_delimiter configured (hd lines) else configured);
                headers = (if hasHeader then js_split delimiter (hd lines) else [])
            in tooMany
               @ concat (map (\<lambda>col. if column_found (map sanitize_header headers) col then []
                    else [MissingColumn (col_key col) (case col_aliases col of None \<Rightarrow> [] | Some ks \<Rightarrow> ks)])
                    (filter (\<lambda>col. col_required col \<noteq> Some False) (csv_columns cfg)))
               @ (if dataLines = [] then [NoDataRow] else [])
               @ concat (map (row_errors cfg delimiter headers) (enumerate 0 (take 5 dataLines)))))"

section \<open>JSON files\<close>

definition is_hex :: "char \<Rightarrow> bool" where
  "is_hex c \<longleftrightarrow> is_digit c \<or> char_between (CHR ''a'') (CHR ''f'') c \<or> char_between (CHR ''A'') (CHR ''F'') c"

definition ETHEREUM_ADDRESS_PATTERN :: "string \<Rightarrow> bool" where
  "ETHEREUM_ADDRESS_PATTERN a \<longleftrightarrow> length a = 42 \<and> take 2 a = ''0x'' \<and> list_all is_hex (drop 2 a)"

definition CARDANO_PAYMENT_ADDRESS_PATTERN :: "string \<Rightarrow> bool" where
  "CARDANO_PAYMENT_ADDRESS_PATTERN a \<longleftrightarrow>
     take 5 a = ''addr1'' \<and> drop 5 a \<noteq> [] \<and> list_all (\<lambda>c. is_digit c \<or> char_between (CHR ''a'') (CHR ''z'') c) (drop 5 a)"

definition getAllowedChains :: "json_config option \<Rightarrow> string list" where
  "getAllowedChains cfg = (case Option.bind cfg jc_allowedChains of None \<Rightarrow> [''ethereum'', ''cardano''] | Some cs \<Rightarrow> cs)"

definition rootKey_of :: "json_config option \<Rightarrow> string" where
  "rootKey_of cfg = (case Option.bind cfg jc_rootKey of None \<Rightarrow> ''wallets'' | Some k \<Rightarrow> k)"

definition normalize_address :: "string \<Rightarrow> string \<Rightarrow> string" where
  "normalize_address chain address = (if chain = ''ethereum'' then js_lower address else address)"

fun address_errors :: "string \<Rightarrow> nat \<Rightarrow> string list \<Rightarrow> json list \<Rightarrow> file_error list" where
  "address_errors chain index seen [] = []"
| "address_errors chain index seen (v # vs) =
     (case v of
        JStr address \<Rightarrow>
          if js_trim address = [] then AddressMissing chain index # address_errors chain (Suc index) seen vs
          else if normalize_address chain address \<in> set seen then AddressRepeated chain address # address_errors chain (Suc index) seen vs
          else (if chain = ''ethereum'' \<and> \<not> ETHEREUM_ADDRESS_PATTERN address then [EthereumAddress chain index] else [])
               @ (if chain = ''cardano'' \<and> \<not> CARDANO_PAYMENT_ADDRESS_PATTERN address then [CardanoAddress chain index] else [])
               @ address_errors chain (Suc index) (normalize_address chain address # seen) vs
      | _ \<Rightarrow> AddressMissing chain index # address_errors chain (Suc index) seen vs)"

definition validateChainWalletMap :: "(string \<times> json) list \<Rightarrow> string list \<Rightarrow> file_error list \<times> nat" where
  "validateChainWalletMap chainMap allowedChains =
     (let unsupported = filter (\<lambda>c. c \<notin> set allowedChains) (map fst chainMap)
      in ((if unsupported \<noteq> [] then [UnsupportedChains unsupported allowedChains] else [])
          @ concat (map (\<lambda>(chain, v). case v of JArr addresses \<Rightarrow> address_errors chain 0 [] addresses | _ \<Rightarrow> [ChainList chain]) chainMap),
          sum_list (map (\<lambda>(chain, v). length (json_list v)) chainMap)))"

definition validateWalletAddressMap :: "json \<Rightarrow> json_config option \<Rightarrow> file_error list" where
  "validateWalletAddressMap parsed cfg =
     (case parsed of
        JObj kvs \<Rightarrow>
          (let rootKey = rootKey_of cfg;
               extra = (if list_ex (\<lambda>(k, v). k \<noteq> rootKey) kvs then [OnlyTopLevelKey rootKey] else [])
           in case jfield rootKey parsed of
                JObj chainMap \<Rightarrow>
                  (let (errors, walletCount) = validateChainWalletMap chainMap (getAllowedChains cfg)
                   in extra @ errors @ (if walletCount = 0 then [NoWallet] else []))
              | _ \<Rightarrow> extra @ [RootObject rootKey])
      | _ \<Rightarrow> [TopLevelObject])"

record file_content =
  fc_text :: string
  fc_sizeBytes :: nat

definition validateJSONContent :: "(string \<Rightarrow> json option) \<Rightarrow> file_content \<Rightarrow> json_config option \<Rightarrow> file_error list" where
  "validateJSONContent parse file cfg =
     (let tooLarge = (case Option.bind cfg jc_maxBytes of None \<Rightarrow> [] | Some n \<Rightarrow> if n < fc_sizeBytes file then [TooManyBytes (fc_sizeBytes file) n] else [])
      in if js_trim (fc_text file) = [] then tooLarge @ [EmptyJson]
         else (case parse (fc_text file) of
                 None \<Rightarrow> tooLarge @ [UnreadableJson]
               | Some parsed \<Rightarrow>
                   tooLarge @ (if Option.bind cfg jc_schema = Some ''wallet_address_map'' then validateWalletAddressMap parsed cfg
                               else if \<not> isRecord parsed then [TopLevelObject] else [])))"

text \<open>An accepted wallet file: every chain is allowed, every address has the form of its chain and none is there twice.\<close>

definition wallets_ok :: "string list \<Rightarrow> string \<times> json \<Rightarrow> bool" where
  "wallets_ok allowed = (\<lambda>(chain, v). chain \<in> set allowed
     \<and> (case v of
          JArr vs \<Rightarrow> list_all is_jstr vs \<and> distinct (map (normalize_address chain \<circ> jstr) vs)
            \<and> (chain = ''ethereum'' \<longrightarrow> list_all (ETHEREUM_ADDRESS_PATTERN \<circ> jstr) vs)
            \<and> (chain = ''cardano'' \<longrightarrow> list_all (CARDANO_PAYMENT_ADDRESS_PATTERN \<circ> jstr) vs)
        | _ \<Rightarrow> False))"

lemma address_errors_sound:
  "address_errors chain index seen vs = [] \<Longrightarrow>
    list_all is_jstr vs \<and> distinct (map (normalize_address chain \<circ> jstr) vs) \<and> set (map (normalize_address chain \<circ> jstr) vs) \<inter> set seen = {}
    \<and> (chain = ''ethereum'' \<longrightarrow> list_all (ETHEREUM_ADDRESS_PATTERN \<circ> jstr) vs)
    \<and> (chain = ''cardano'' \<longrightarrow> list_all (CARDANO_PAYMENT_ADDRESS_PATTERN \<circ> jstr) vs)"
proof (induction chain index seen vs rule: address_errors.induct)
  case (2 chain index seen v vs)
  then show ?case by (cases v) (auto split: if_splits)
qed simp

lemma wallet_map_sound:
  assumes "validateWalletAddressMap parsed cfg = []"
  shows "\<exists>chainMap. jfield (rootKey_of cfg) parsed = JObj chainMap \<and> list_all (wallets_ok (getAllowedChains cfg)) chainMap
    \<and> (\<exists>(chain, v) \<in> set chainMap. json_list v \<noteq> [])"
proof -
  obtain chainMap where c: "jfield (rootKey_of cfg) parsed = JObj chainMap" "validateChainWalletMap chainMap (getAllowedChains cfg) = ([], snd (validateChainWalletMap chainMap (getAllowedChains cfg)))"
    "snd (validateChainWalletMap chainMap (getAllowedChains cfg)) \<noteq> 0"
    using assms by (cases parsed; cases "jfield (rootKey_of cfg) parsed")
      (auto simp: validateWalletAddressMap_def Let_def split: prod.splits if_splits simp del: jfield.simps)
  have "wallets_ok (getAllowedChains cfg) (chain, v)" if "(chain, v) \<in> set chainMap" for chain v
  proof -
    have "(case v of JArr addresses \<Rightarrow> address_errors chain 0 [] addresses | _ \<Rightarrow> [ChainList chain]) = []" "chain \<in> set (getAllowedChains cfg)"
      using c(2) that by (auto simp: validateChainWalletMap_def Let_def filter_empty_conv split: if_splits)
    then show ?thesis using address_errors_sound[of chain 0 "[]"] by (cases v) (auto simp: wallets_ok_def)
  qed
  moreover have "\<exists>(chain, v) \<in> set chainMap. json_list v \<noteq> []"
    using c(3) by (auto simp: validateChainWalletMap_def Let_def)
  ultimately show ?thesis using c(1) by (auto simp: list_all_iff)
qed

section \<open>Presets\<close>

definition algorithmPresetInputSchema :: zod where
  "algorithmPresetInputSchema =
     ZObject [(''key'', ZString [MinLen 1 InputKeyRequired]),
       (''value'', ZRefine ZUnknown (\<lambda>v. v \<noteq> JUndefined \<and> v \<noteq> JNull) InputValueRequired)]"

definition createAlgorithmPresetSchema :: zod where
  "createAlgorithmPresetSchema =
     ZObject
       [(''key'', ZString [MinLen 1 (Text ''Algorithm key is required.'')]),
        (''version'', ZString [MinLen 1 (Text ''Algorithm version is required.'')]),
        (''inputs'', ZArray algorithmPresetInputSchema [MinLength 1 (Text ''At least one input is required.'')]),
        (''name'', ZOptional (ZString [MinLen 3 (Text ''Name must be at least 3 characters.''), MaxLen 100 (Text ''Name must be at most 100 characters.'')])),
        (''description'', ZOptional (ZString [MinLen 10 (Text ''Description must be at least 10 characters.''),
           MaxLen 500 (Text ''Description must be at most 500 characters.'')]))]"

datatype error_source = src_preset | src_definition | src_payload | src_file | src_rule

datatype preset_message =
    PayloadMessage msg | FileMessage file_error | Unsupported string string | OnlyOnce string | MustUseAlgorithm string | MustUseVersion string
  | UnknownJsonInput string | NoAddresses "string list" | CouldNotLoad string string | CouldNotFind string string | Thrown string
  | SharedInput string | CombinedChild string

record preset_error =
  pe_field :: string
  pe_message :: preset_message
  pe_source :: error_source
  pe_code :: "string option"

definition preset_err :: "string \<Rightarrow> preset_message \<Rightarrow> error_source \<Rightarrow> preset_error" where
  "preset_err field message source = \<lparr>pe_field = field, pe_message = message, pe_source = source, pe_code = None\<rparr>"

type_synonym preset_input = "string \<times> json"

definition read_input :: "json \<Rightarrow> preset_input" where
  "read_input i = (jstr (jfield ''key'' i), jfield ''value'' i)"

definition preset_inputs :: "json \<Rightarrow> preset_input list" where
  "preset_inputs preset = map read_input (json_list (jfield ''inputs'' preset))"

definition isPresetInput :: "json \<Rightarrow> bool" where
  "isPresetInput v \<longleftrightarrow> isRecord v \<and> is_jstr (jfield ''key'' v) \<and> jfield ''value'' v \<noteq> JUndefined"

definition isSubAlgorithmEntry :: "json \<Rightarrow> bool" where
  "isSubAlgorithmEntry v \<longleftrightarrow>
     isRecord v \<and> is_jstr (jfield ''algorithm_key'' v) \<and> is_jstr (jfield ''algorithm_version'' v)
     \<and> (case jfield ''weight'' v of JNum _ \<Rightarrow> True | _ \<Rightarrow> False)
     \<and> (case jfield ''inputs'' v of JArr is \<Rightarrow> list_all isPresetInput is | _ \<Rightarrow> False)"

definition buildPayload :: "preset_input list \<Rightarrow> json" where
  "buildPayload inputs = JObj (foldl (\<lambda>payload (k, v). AList.update k v payload) [] inputs)"

definition getUnsupportedInputErrors :: "AlgorithmDefinition \<Rightarrow> preset_input list \<Rightarrow> preset_error list" where
  "getUnsupportedInputErrors dfn inputs =
     map (\<lambda>(k, v). preset_err k (Unsupported k (def_name dfn)) src_definition) (filter (\<lambda>(k, v). k \<notin> io_key ` set (def_inputs dfn)) inputs)"

fun duplicate_keys :: "string list \<Rightarrow> string list \<Rightarrow> string list \<Rightarrow> string list" where
  "duplicate_keys seen duplicates [] = duplicates"
| "duplicate_keys seen duplicates (k # ks) =
     (if k \<in> set seen then duplicate_keys seen (set_add k duplicates) ks else duplicate_keys (k # seen) duplicates ks)"

definition getDuplicateInputErrors :: "preset_input list \<Rightarrow> preset_error list" where
  "getDuplicateInputErrors inputs = map (\<lambda>k. preset_err k (OnlyOnce k) src_preset) (duplicate_keys [] [] (map fst inputs))"

definition getDefinitionConsistencyErrors :: "AlgorithmDefinition \<Rightarrow> string \<Rightarrow> string \<Rightarrow> preset_error list" where
  "getDefinitionConsistencyErrors dfn key version =
     (if key \<noteq> def_key dfn then [preset_err ''key'' (MustUseAlgorithm (def_name dfn)) src_definition] else [])
     @ (if version \<noteq> def_version dfn then [preset_err ''version'' (MustUseVersion (def_version dfn)) src_definition] else [])"

section \<open>Files of a preset\<close>

text \<open>
  What opens the file of an input: it may keep a state between calls, and may throw with one or more messages.  A value that is
  not a text is returned as it is, and is no file.
\<close>

type_synonym 's opener = "IoItem \<Rightarrow> json \<Rightarrow> 's \<Rightarrow> (file_error list + file_content option) \<times> 's"

type_synonym nested_resolver = "string \<Rightarrow> string \<Rightarrow> string + AlgorithmDefinition option"

record 's validator_env =
  vv_safeParse :: safe_parse
  vv_num_str :: "jsnum \<Rightarrow> string"
  vv_parse :: "string \<Rightarrow> json option"
  vv_open :: "'s opener"
  vv_nested :: "nested_resolver option"

definition resolveInputContent :: "'s validator_env \<Rightarrow> IoItem \<Rightarrow> json \<Rightarrow> 's \<Rightarrow> (file_error list + file_content) \<times> 's" where
  "resolveInputContent env input v s =
     (case vv_open env input v s of
        (Inl errors, s') \<Rightarrow> (Inl errors, s')
      | (Inr (Some content), s') \<Rightarrow> (Inr content, s')
      | (Inr None, s') \<Rightarrow> (Inl [CannotOpen (label_or (io_label input) (io_key input))], s'))"

definition isFileBacked :: "IoItem \<Rightarrow> bool" where
  "isFileBacked i = (case i of CsvIo _ _ _ \<Rightarrow> True | JsonIo _ _ _ _ \<Rightarrow> True | _ \<Rightarrow> False)"

definition file_errors :: "'s validator_env \<Rightarrow> IoItem \<Rightarrow> file_content \<Rightarrow> file_error list" where
  "file_errors env i content =
     (case i of
        CsvIo _ _ cfg \<Rightarrow> validateCSVContent (fc_text content) cfg
      | JsonIo _ _ _ cfg \<Rightarrow> validateJSONContent (vv_parse env) content cfg
      | _ \<Rightarrow> [])"

definition parsed_json :: "'s validator_env \<Rightarrow> IoItem \<Rightarrow> file_content \<Rightarrow> (string \<times> json) list" where
  "parsed_json env i content =
     (case i of JsonIo key _ _ _ \<Rightarrow> (case vv_parse env (fc_text content) of Some v \<Rightarrow> [(key, v)] | None \<Rightarrow> []) | _ \<Rightarrow> [])"

definition input_value :: "preset_input list \<Rightarrow> json \<Rightarrow> string \<Rightarrow> json" where
  "input_value inputs payload key =
     (case map_of inputs key of
        Some v \<Rightarrow> if v = JUndefined \<or> v = JNull then jfield key payload else v
      | None \<Rightarrow> jfield key payload)"

definition validateFileBackedInput ::
  "'s validator_env \<Rightarrow> preset_input list \<Rightarrow> json \<Rightarrow> IoItem \<Rightarrow> 's \<Rightarrow> (file_error list \<times> (string \<times> json) list) \<times> 's" where
  "validateFileBackedInput env inputs payload i s =
     (let v = input_value inputs payload (io_key i)
      in if v = JUndefined \<or> v = JNull \<or> v = JStr [] then (([], []), s)
         else (case resolveInputContent env i v s of
                 (Inl errors, s') \<Rightarrow> ((errors, []), s')
               | (Inr content, s') \<Rightarrow>
                   (let errors = file_errors env i content in ((errors, if errors = [] then parsed_json env i content else []), s'))))"

fun validateFileBackedInputs ::
  "'s validator_env \<Rightarrow> preset_input list \<Rightarrow> json \<Rightarrow> IoItem list \<Rightarrow> 's \<Rightarrow> (preset_error list \<times> (string \<times> json) list) \<times> 's" where
  "validateFileBackedInputs env inputs payload [] s = (([], []), s)"
| "validateFileBackedInputs env inputs payload (i # is) s =
     (if \<not> isFileBacked i then validateFileBackedInputs env inputs payload is s
      else
        (let ((errors, parsed), s') = validateFileBackedInput env inputs payload i s;
             ((errors', parsed'), s'') = validateFileBackedInputs env inputs payload is s'
         in ((map (\<lambda>e. preset_err (io_key i) (FileMessage e) src_file) errors @ errors', parsed @ parsed'), s'')))"

section \<open>Rules of a definition\<close>

definition getSelectedChains :: "json \<Rightarrow> string \<Rightarrow> string list" where
  "getSelectedChains selector field =
     js_dedup (filter (\<lambda>c. js_trim c \<noteq> []) (List.map_filter (\<lambda>item. json_str (jfield field item)) (filter isRecord (json_list selector))))"

definition runJsonChainCoverageRule :: "AlgorithmDefinition \<Rightarrow> json \<Rightarrow> (string \<times> json) list \<Rightarrow> JsonChainCoverageRule \<Rightarrow> preset_error list" where
  "runJsonChainCoverageRule dfn payload parsed rule =
     (case List.find (\<lambda>i. io_key i = rule_walletInputKey rule \<and> (case i of JsonIo _ _ _ _ \<Rightarrow> True | _ \<Rightarrow> False)) (def_inputs dfn) of
        Some (JsonIo key _ _ cfg) \<Rightarrow>
          (let selected = getSelectedChains (jfield (rule_selectorInputKey rule) payload) (rule_selectorChainField rule);
               walletsByChain = jfield (rootKey_of cfg) (jfield key (JObj parsed));
               missing = filter (\<lambda>chain. json_list (jfield chain walletsByChain) = []) selected
           in if selected = [] \<or> \<not> isRecord walletsByChain \<or> missing = [] then []
              else [preset_err key (NoAddresses missing) src_rule])
      | _ \<Rightarrow> [preset_err (rule_walletInputKey rule) (UnknownJsonInput (rule_walletInputKey rule)) src_rule])"

definition runDefinitionRules :: "AlgorithmDefinition \<Rightarrow> json \<Rightarrow> (string \<times> json) list \<Rightarrow> preset_error list" where
  "runDefinitionRules dfn payload parsed = concat (map (runJsonChainCoverageRule dfn payload parsed) (def_rules dfn))"

section \<open>Children\<close>

definition prefixNestedField :: "string \<Rightarrow> nat \<Rightarrow> string \<Rightarrow> string" where
  "prefixNestedField parent index field =
     (if field = [] \<or> field = ''_preset'' then parent @ ''.'' @ js_nat index
      else if field = ''key'' then row_path parent index ''algorithm_key''
      else if field = ''version'' then row_path parent index ''algorithm_version''
      else row_path parent index (''inputs.'' @ field))"

definition resolveNestedDefinition ::
  "'s validator_env \<Rightarrow> string \<Rightarrow> string \<Rightarrow> string \<Rightarrow> nat \<Rightarrow> preset_error + AlgorithmDefinition" where
  "resolveNestedDefinition env parent key version index =
     (let fail = (\<lambda>m. Inl (preset_err (row_path parent index ''algorithm_key'') m src_definition))
      in case vv_nested env of
           None \<Rightarrow> fail (CouldNotLoad key version)
         | Some resolve \<Rightarrow>
             (case resolve key version of
                Inl message \<Rightarrow> fail (Thrown message)
              | Inr None \<Rightarrow> fail (CouldNotFind key version)
              | Inr (Some d) \<Rightarrow> Inr d))"

definition child_preset :: "json \<Rightarrow> string list \<Rightarrow> preset_input list \<Rightarrow> json" where
  "child_preset entry shared sharedInputs =
     JObj [(''key'', jfield ''algorithm_key'' entry), (''version'', jfield ''algorithm_version'' entry),
       (''inputs'', JArr (map (\<lambda>(k, v). JObj [(''key'', JStr k), (''value'', v)])
          (filter (\<lambda>(k, v). k \<notin> set shared) (preset_inputs entry) @ sharedInputs)))]"

type_synonym preset_result = "preset_error list + json \<times> json"

text \<open>One entry of a sub-algorithm input; \<open>check\<close> is the check of a preset itself.\<close>

definition validateNestedEntry ::
  "'s validator_env \<Rightarrow> (AlgorithmDefinition \<Rightarrow> json \<Rightarrow> 's \<Rightarrow> (preset_result \<times> 's) option) \<Rightarrow> string \<Rightarrow> string list
    \<Rightarrow> preset_input list \<Rightarrow> nat \<Rightarrow> json \<Rightarrow> 's \<Rightarrow> (preset_error list \<times> 's) option" where
  "validateNestedEntry env check parent shared sharedInputs index entry s =
     (if \<not> isSubAlgorithmEntry entry then Some ([], s)
      else
        (let key = jstr (jfield ''algorithm_key'' entry); version = jstr (jfield ''algorithm_version'' entry);
             providedShared = map (\<lambda>(k, v). preset_err (row_path parent index (''inputs.'' @ k)) (SharedInput k) src_definition)
               (filter (\<lambda>(k, v). k \<in> set shared) (preset_inputs entry))
         in case resolveNestedDefinition env parent key version index of
              Inl e \<Rightarrow> Some (e # providedShared, s)
            | Inr child \<Rightarrow>
                if def_combined child
                then Some (providedShared @ [preset_err (row_path parent index ''algorithm_key'') (CombinedChild (def_name child)) src_definition], s)
                else (case check child (child_preset entry shared sharedInputs) s of
                        None \<Rightarrow> None
                      | Some (Inr _, s') \<Rightarrow> Some (providedShared, s')
                      | Some (Inl errors, s') \<Rightarrow>
                          Some (providedShared @ map (\<lambda>e. e\<lparr>pe_field := prefixNestedField parent index (pe_field e)\<rparr>) errors, s'))))"

fun nested_entries ::
  "'s validator_env \<Rightarrow> (AlgorithmDefinition \<Rightarrow> json \<Rightarrow> 's \<Rightarrow> (preset_result \<times> 's) option) \<Rightarrow> string \<Rightarrow> string list
    \<Rightarrow> preset_input list \<Rightarrow> nat \<Rightarrow> json list \<Rightarrow> 's \<Rightarrow> (preset_error list \<times> 's) option" where
  "nested_entries env check parent shared sharedInputs index [] s = Some ([], s)"
| "nested_entries env check parent shared sharedInputs index (e # es) s =
     Option.bind (validateNestedEntry env check parent shared sharedInputs index e s) (\<lambda>(errors, s').
     Option.bind (nested_entries env check parent shared sharedInputs (Suc index) es s') (\<lambda>(errors', s'').
       Some (errors @ errors', s'')))"

definition shared_of :: "string list option \<Rightarrow> string list" where
  "shared_of sharedInputKeys = (case sharedInputKeys of None \<Rightarrow> [] | Some ks \<Rightarrow> ks)"

fun validateNestedSubAlgorithms ::
  "'s validator_env \<Rightarrow> (AlgorithmDefinition \<Rightarrow> json \<Rightarrow> 's \<Rightarrow> (preset_result \<times> 's) option) \<Rightarrow> preset_input list \<Rightarrow> json
    \<Rightarrow> IoItem list \<Rightarrow> 's \<Rightarrow> (preset_error list \<times> 's) option" where
  "validateNestedSubAlgorithms env check inputs payload [] s = Some ([], s)"
| "validateNestedSubAlgorithms env check inputs payload (i # is) s =
     (case i of
        SubAlgorithmIo key _ _ _ _ sharedKeys \<Rightarrow>
          (let shared = shared_of sharedKeys
           in Option.bind (nested_entries env check key shared (filter (\<lambda>(k, v). k \<in> set shared) inputs) 0 (json_list (jfield key payload)) s) (\<lambda>(errors, s').
              Option.bind (validateNestedSubAlgorithms env check inputs payload is s') (\<lambda>(errors', s'').
                Some (errors @ errors', s''))))
      | _ \<Rightarrow> validateNestedSubAlgorithms env check inputs payload is s)"

section \<open>The check of a preset\<close>

definition issue_error :: "zod_issue \<Rightarrow> preset_error" where
  "issue_error i =
     \<lparr>pe_field = (let f = js_join (CHR ''.'') (zi_path i) in if f = [] then ''_preset'' else f),
      pe_message = PayloadMessage (zi_message i), pe_source = src_preset, pe_code = Some (zi_code i)\<rparr>"

definition payload_error :: "validation_error \<Rightarrow> preset_error" where
  "payload_error e = \<lparr>pe_field = ve_field e, pe_message = PayloadMessage (ve_message e), pe_source = src_payload, pe_code = ve_code e\<rparr>"

definition definition_errors :: "AlgorithmDefinition \<Rightarrow> json \<Rightarrow> preset_error list" where
  "definition_errors dfn preset =
     getDefinitionConsistencyErrors dfn (jstr (jfield ''key'' preset)) (jstr (jfield ''version'' preset))
     @ getDuplicateInputErrors (preset_inputs preset) @ getUnsupportedInputErrors dfn (preset_inputs preset)"

fun validateAlgorithmPreset :: "nat \<Rightarrow> 's validator_env \<Rightarrow> AlgorithmDefinition \<Rightarrow> json \<Rightarrow> 's \<Rightarrow> (preset_result \<times> 's) option" where
  "validateAlgorithmPreset 0 env dfn preset s = None"
| "validateAlgorithmPreset (Suc depth) env dfn preset s =
     (case vv_safeParse env createAlgorithmPresetSchema preset of
        Inl issues \<Rightarrow> Some (Inl (map issue_error issues), s)
      | Inr data \<Rightarrow>
          (let definitionErrors = definition_errors dfn data; inputs = preset_inputs data
           in case validatePayload (vv_safeParse env) (vv_num_str env) dfn (buildPayload inputs) of
                Inl payloadErrors \<Rightarrow> Some (Inl (definitionErrors @ map payload_error payloadErrors), s)
              | Inr payload \<Rightarrow>
                  if definitionErrors \<noteq> [] then Some (Inl definitionErrors, s)
                  else
                    (let ((fileErrors, parsed), s') = validateFileBackedInputs env inputs payload (def_inputs dfn) s;
                         ruleErrors = runDefinitionRules dfn payload parsed
                     in Option.bind (validateNestedSubAlgorithms env (validateAlgorithmPreset depth env) inputs payload (def_inputs dfn) s')
                          (\<lambda>(nestedErrors, s'').
                          Some (if fileErrors @ ruleErrors @ nestedErrors \<noteq> [] then Inl (fileErrors @ ruleErrors @ nestedErrors)
                                else Inr (data, payload), s'')))))"

section \<open>The check returns\<close>

definition is_leaf :: "AlgorithmDefinition \<Rightarrow> bool" where
  "is_leaf dfn \<longleftrightarrow> list_all (\<lambda>i. case i of SubAlgorithmIo _ _ _ _ _ _ \<Rightarrow> False | _ \<Rightarrow> True) (def_inputs dfn)"

text \<open>Only combined algorithms have sub-algorithms, as in the registry.\<close>

definition registry_flat :: "'s validator_env \<Rightarrow> bool" where
  "registry_flat env \<longleftrightarrow>
     (\<forall>resolve key version d. vv_nested env = Some resolve \<longrightarrow> resolve key version = Inr (Some d) \<longrightarrow> \<not> def_combined d \<longrightarrow> is_leaf d)"

lemma resolved_leaf:
  "registry_flat env \<Longrightarrow> resolveNestedDefinition env parent key version index = Inr d \<Longrightarrow> \<not> def_combined d \<Longrightarrow> is_leaf d"
  by (auto simp: registry_flat_def resolveNestedDefinition_def Let_def split: option.splits sum.splits)

definition agrees ::
  "(AlgorithmDefinition \<Rightarrow> json \<Rightarrow> 's \<Rightarrow> (preset_result \<times> 's) option) \<Rightarrow> (AlgorithmDefinition \<Rightarrow> json \<Rightarrow> 's \<Rightarrow> (preset_result \<times> 's) option) \<Rightarrow> bool" where
  "agrees check check' \<longleftrightarrow> (\<forall>d p s. is_leaf d \<longrightarrow> (\<exists>r s'. check d p s = Some (r, s') \<and> check' d p s = Some (r, s')))"

lemma nested_entry_agrees:
  assumes "registry_flat env" "agrees check check'"
  shows "\<exists>errors s'. validateNestedEntry env check parent shared si index e s = Some (errors, s')
    \<and> validateNestedEntry env check' parent shared si index e s = Some (errors, s')"
proof (cases "resolveNestedDefinition env parent (jstr (jfield ''algorithm_key'' e)) (jstr (jfield ''algorithm_version'' e)) index")
  case (Inr d)
  show ?thesis
  proof (cases "def_combined d")
    case False
    obtain r s' where "check d (child_preset e shared si) s = Some (r, s')" "check' d (child_preset e shared si) s = Some (r, s')"
      using assms(2) resolved_leaf[OF assms(1) Inr False] unfolding agrees_def by blast
    then show ?thesis using Inr False by (cases r) (simp_all add: validateNestedEntry_def Let_def)
  qed (use Inr in \<open>simp add: validateNestedEntry_def Let_def\<close>)
qed (simp add: validateNestedEntry_def Let_def)

lemma nested_entries_agree:
  assumes "registry_flat env" "agrees check check'"
  shows "\<exists>errors s'. nested_entries env check parent shared si index es s = Some (errors, s')
    \<and> nested_entries env check' parent shared si index es s = Some (errors, s')"
proof (induction es arbitrary: index s)
  case (Cons e es)
  obtain errors s' where "validateNestedEntry env check parent shared si index e s = Some (errors, s')"
    "validateNestedEntry env check' parent shared si index e s = Some (errors, s')"
    using nested_entry_agrees[OF assms] by metis
  then show ?case using Cons[of "Suc index" s'] by auto
qed simp

lemma nested_agree:
  assumes "registry_flat env" "agrees check check'"
  shows "\<exists>errors s'. validateNestedSubAlgorithms env check inputs payload is s = Some (errors, s')
    \<and> validateNestedSubAlgorithms env check' inputs payload is s = Some (errors, s')"
proof (induction "is" arbitrary: s)
  case (Cons i "is")
  show ?case
  proof (cases i)
    case (SubAlgorithmIo key l r mn mx sharedKeys)
    let ?shared = "shared_of sharedKeys"
    let ?n = "\<lambda>check. nested_entries env check key ?shared (filter (\<lambda>(k, v). k \<in> set ?shared) inputs) 0 (json_list (jfield key payload)) s"
    obtain errors s' where "?n check = Some (errors, s')" "?n check' = Some (errors, s')" using nested_entries_agree[OF assms] by metis
    then show ?thesis using Cons[of s'] SubAlgorithmIo by (auto simp: Let_def simp del: jfield.simps)
  qed (use Cons in simp_all)
qed simp

lemma nested_leaf: "list_all (\<lambda>i. case i of SubAlgorithmIo _ _ _ _ _ _ \<Rightarrow> False | _ \<Rightarrow> True) is \<Longrightarrow>
    validateNestedSubAlgorithms env check inputs payload is s = Some ([], s)"
  by (induction "is") (auto split: IoItem.splits)

lemma preset_step:
  assumes "\<And>inputs payload s'. \<exists>errors s''. validateNestedSubAlgorithms env (validateAlgorithmPreset m env) inputs payload (def_inputs dfn) s' = Some (errors, s'')
    \<and> validateNestedSubAlgorithms env (validateAlgorithmPreset n env) inputs payload (def_inputs dfn) s' = Some (errors, s'')"
  shows "\<exists>r s'. validateAlgorithmPreset (Suc m) env dfn preset s = Some (r, s') \<and> validateAlgorithmPreset (Suc n) env dfn preset s = Some (r, s')"
proof (cases "vv_safeParse env createAlgorithmPresetSchema preset")
  case (Inr data)
  show ?thesis
  proof (cases "validatePayload (vv_safeParse env) (vv_num_str env) dfn (buildPayload (preset_inputs data))")
    case p: (Inr payload)
    obtain files s1 where f: "validateFileBackedInputs env (preset_inputs data) payload (def_inputs dfn) s = (files, s1)" by fastforce
    obtain errors s2 where "validateNestedSubAlgorithms env (validateAlgorithmPreset m env) (preset_inputs data) payload (def_inputs dfn) s1 = Some (errors, s2)"
      "validateNestedSubAlgorithms env (validateAlgorithmPreset n env) (preset_inputs data) payload (def_inputs dfn) s1 = Some (errors, s2)"
      using assms by metis
    then show ?thesis using Inr p f by (cases files) (simp add: Let_def)
  qed (simp add: Inr Let_def)
qed simp

lemma preset_agrees: "agrees (validateAlgorithmPreset (Suc m) env) (validateAlgorithmPreset (Suc n) env)"
  unfolding agrees_def
proof (intro allI impI)
  fix d p s assume "is_leaf d"
  then show "\<exists>r s'. validateAlgorithmPreset (Suc m) env d p s = Some (r, s') \<and> validateAlgorithmPreset (Suc n) env d p s = Some (r, s')"
    by (intro preset_step) (simp add: nested_leaf is_leaf_def)
qed

text \<open>
  C37: The check of a preset returns: when only combined algorithms have sub-algorithms, two levels are enough, and
  every deeper bound gives the same answer.
\<close>

theorem preset_check_returns:
  assumes "registry_flat env" "2 \<le> depth"
  shows "\<exists>r s'. validateAlgorithmPreset 2 env dfn preset s = Some (r, s') \<and> validateAlgorithmPreset depth env dfn preset s = Some (r, s')"
proof -
  obtain n where n: "depth = Suc (Suc n)" using assms(2) by (metis Suc_le_D numeral_2_eq_2 Suc_le_mono)
  show ?thesis unfolding n numeral_2_eq_2 by (intro preset_step nested_agree[OF assms(1)] preset_agrees)
qed

section \<open>What an accepted preset satisfies\<close>

lemma duplicate_keys_Nil: "duplicate_keys seen dups ks = [] \<longleftrightarrow> dups = [] \<and> distinct ks \<and> set ks \<inter> set seen = {}"
  by (induction seen dups ks rule: duplicate_keys.induct) (auto simp: set_add_def)

lemma definition_errors_Nil:
  "definition_errors dfn data = [] \<longleftrightarrow> jstr (jfield ''key'' data) = def_key dfn \<and> jstr (jfield ''version'' data) = def_version dfn
    \<and> distinct (map fst (preset_inputs data)) \<and> fst ` set (preset_inputs data) \<subseteq> io_key ` set (def_inputs dfn)"
  by (auto simp: definition_errors_def getDefinitionConsistencyErrors_def getDuplicateInputErrors_def getUnsupportedInputErrors_def
      duplicate_keys_Nil filter_empty_conv)

lemma buildPayload_distinct: "distinct (map fst inputs) \<Longrightarrow> buildPayload inputs = JObj inputs"
  using foldl_update_distinct[of "[]" inputs] by (simp add: buildPayload_def)

text \<open>What a client promises of the function that opens files: it reports every failure, and keeps an invariant of its state.\<close>

locale file_opener =
  fixes op :: "'s opener" and I :: "'s \<Rightarrow> bool"
  assumes reports: "fst (op i v s) \<noteq> Inl []"
    and keeps: "I s \<Longrightarrow> op i v s = (r, s') \<Longrightarrow> I s'"
begin

lemma resolve_reports:
  assumes "vv_open env = op" "resolveInputContent env i v s = (r, s')"
  shows "r \<noteq> Inl []"
proof -
  obtain r' s'' where "op i v s = (r', s'')" by fastforce
  then show ?thesis using assms reports[of i v s] by (auto simp: resolveInputContent_def split: sum.splits option.splits)
qed

lemma resolve_keeps: "vv_open env = op \<Longrightarrow> I s \<Longrightarrow> resolveInputContent env i v s = (r, s') \<Longrightarrow> I s'"
  by (auto simp: resolveInputContent_def split: prod.splits sum.splits option.splits dest: keeps)

lemma file_input_keeps: "vv_open env = op \<Longrightarrow> I s \<Longrightarrow> validateFileBackedInput env inputs payload i s = (r, s') \<Longrightarrow> I s'"
  by (auto simp: validateFileBackedInput_def Let_def split: if_splits prod.splits sum.splits dest: resolve_keeps[OF sym])

text \<open>Every file of an accepted payload was opened, in a state of the invariant, and found valid.\<close>

lemma files_sound:
  assumes "validateFileBackedInputs env inputs payload is s = (([], parsed), s')" "i \<in> set is" "isFileBacked i"
    and "vv_open env = op" "I s"
    and "input_value inputs payload (io_key i) = jfield (io_key i) payload" "\<exists>c cs. jfield (io_key i) payload = JStr (c # cs)"
  shows "\<exists>content s s'. I s \<and> resolveInputContent env i (jfield (io_key i) payload) s = (Inr content, s') \<and> file_errors env i content = []"
  using assms(1,2,5)
proof (induction "is" arbitrary: s parsed)
  case (Cons j "is")
  show ?case
  proof (cases "i = j")
    case True
    obtain p s1 where f: "validateFileBackedInput env inputs payload i s = (([], p), s1)"
      using Cons.prems(1) assms(3) unfolding True by (auto simp: Let_def split: prod.splits)
    obtain r s2 where r: "resolveInputContent env i (jfield (io_key i) payload) s = (r, s2)" by fastforce
    obtain content where "r = Inr content" "file_errors env i content = []"
      using f r resolve_reports[OF assms(4) r] assms(6,7)
      by (cases r) (auto simp: validateFileBackedInput_def Let_def simp del: jfield.simps)
    then show ?thesis using r Cons.prems(3) by blast
  next
    case False
    show ?thesis
    proof (cases "isFileBacked j")
      case True
      obtain r s1 where f: "validateFileBackedInput env inputs payload j s = (r, s1)" by fastforce
      then have "\<exists>parsed. validateFileBackedInputs env inputs payload is s1 = (([], parsed), s')"
        using Cons.prems(1) True by (auto simp: Let_def split: prod.splits)
      then show ?thesis using Cons False file_input_keeps[OF assms(4) Cons.prems(3) f] by auto
    qed (use Cons False in auto)
  qed
qed simp

end

lemma typed_entry_is_entry: "typed_entry e \<Longrightarrow> isSubAlgorithmEntry e"
  by (auto simp: typed_entry_def isSubAlgorithmEntry_def isPresetInput_def typed_text_def typed_number_def list_all_iff simp del: jfield.simps
      split: json.splits)

lemma typed_entries:
  "typed_input num_str (SubAlgorithmIo key l r mn mx ks) v \<Longrightarrow> list_all isSubAlgorithmEntry (json_list v)"
  using typed_entry_is_entry by (cases v) (auto simp: json_list_def absent_ok_def list_all_iff)

definition child_checked :: "'s validator_env \<Rightarrow> nat \<Rightarrow> string list \<Rightarrow> preset_input list \<Rightarrow> json \<Rightarrow> bool" where
  "child_checked env depth shared sharedInputs entry \<longleftrightarrow>
     (\<exists>resolve child data payload s s'. vv_nested env = Some resolve
        \<and> resolve (jstr (jfield ''algorithm_key'' entry)) (jstr (jfield ''algorithm_version'' entry)) = Inr (Some child) \<and> \<not> def_combined child
        \<and> fst ` set (preset_inputs entry) \<inter> set shared = {}
        \<and> validateAlgorithmPreset depth env child (child_preset entry shared sharedInputs) s = Some (Inr (data, payload), s'))"

lemma resolveNested_Inr:
  "resolveNestedDefinition env parent key version index = Inr d \<Longrightarrow> \<exists>resolve. vv_nested env = Some resolve \<and> resolve key version = Inr (Some d)"
  by (auto simp: resolveNestedDefinition_def Let_def split: option.splits sum.splits)

text \<open>A refused preset has at least one error.\<close>

lemma preset_refusal:
  assumes "zod_documented (vv_safeParse env)"
  shows "validateAlgorithmPreset depth env dfn preset s = Some (Inl errors, s') \<Longrightarrow> errors \<noteq> []"
proof (cases depth)
  case (Suc n)
  assume a: "validateAlgorithmPreset depth env dfn preset s = Some (Inl errors, s')"
  have p: "issues \<noteq> []" if "vv_safeParse env z v = Inl issues" for z v issues
    using assms that by (auto simp: zod_documented_def dest: spec[of _ z] spec[of _ v] split: sum.splits)
  have q: "validatePayload (vv_safeParse env) (vv_num_str env) dfn v \<noteq> Inl []" for v
    using p by (auto simp: validatePayload_def Let_def split: sum.splits if_splits)
  show ?thesis using a p q unfolding Suc
    by (auto simp: Let_def split: sum.splits if_splits prod.splits option.splits bind_splits)
qed simp

lemma entry_sound_nested:
  assumes "validateNestedEntry env (validateAlgorithmPreset depth env) parent shared si index e s = Some ([], s')" "isSubAlgorithmEntry e"
    and "zod_documented (vv_safeParse env)"
  shows "child_checked env depth shared si e"
proof (cases "resolveNestedDefinition env parent (jstr (jfield ''algorithm_key'' e)) (jstr (jfield ''algorithm_version'' e)) index")
  case (Inr d)
  have c: "\<not> def_combined d" "fst ` set (preset_inputs e) \<inter> set shared = {}"
    using assms(1,2) Inr by (auto simp: validateNestedEntry_def Let_def filter_empty_conv simp del: jfield.simps split: if_splits option.splits sum.splits prod.splits)
  obtain data payload where "validateAlgorithmPreset depth env d (child_preset e shared si) s = Some (Inr (data, payload), s')"
    using assms(1,2) Inr c(1) preset_refusal[OF assms(3)]
    by (auto simp: validateNestedEntry_def Let_def simp del: jfield.simps split: option.splits sum.splits prod.splits)
  then show ?thesis using c resolveNested_Inr[OF Inr] unfolding child_checked_def by blast
qed (use assms(1,2) in \<open>simp add: validateNestedEntry_def Let_def\<close>)

lemma entries_sound_nested:
  assumes "nested_entries env (validateAlgorithmPreset depth env) parent shared si index es s = Some ([], s')" "list_all isSubAlgorithmEntry es"
    and "zod_documented (vv_safeParse env)"
  shows "list_all (child_checked env depth shared si) es"
  using assms(1,2)
proof (induction es arbitrary: index s)
  case (Cons e es)
  obtain s1 where "validateNestedEntry env (validateAlgorithmPreset depth env) parent shared si index e s = Some ([], s1)"
    "nested_entries env (validateAlgorithmPreset depth env) parent shared si (Suc index) es s1 = Some ([], s')"
    using Cons.prems(1) by (auto split: bind_splits)
  then show ?case using Cons entry_sound_nested[OF _ _ assms(3)] by auto
qed simp

lemma nested_sound:
  assumes "validateNestedSubAlgorithms env (validateAlgorithmPreset depth env) inputs payload is s = Some ([], s')"
    and "SubAlgorithmIo key l r mn mx sharedKeys \<in> set is" "list_all isSubAlgorithmEntry (json_list (jfield key payload))"
    and "zod_documented (vv_safeParse env)" "shared = shared_of sharedKeys"
  shows "list_all (child_checked env depth shared (filter (\<lambda>(k, v). k \<in> set shared) inputs)) (json_list (jfield key payload))"
  using assms(1,2)
proof (induction "is" arbitrary: s)
  case (Cons i "is")
  show ?case
  proof (cases "i = SubAlgorithmIo key l r mn mx sharedKeys")
    case True
    then obtain s1 where "nested_entries env (validateAlgorithmPreset depth env) key shared (filter (\<lambda>(k, v). k \<in> set shared) inputs) 0
      (json_list (jfield key payload)) s = Some ([], s1)"
      using Cons.prems(1) unfolding assms(5) by (auto simp: Let_def simp del: jfield.simps split: bind_splits)
    then show ?thesis using entries_sound_nested[OF _ assms(3,4)] by blast
  next
    case False
    then show ?thesis using Cons by (cases i) (auto simp: Let_def simp del: jfield.simps split: bind_splits)
  qed
qed simp

lemma accepted_preset:
  assumes "zod_documented (vv_safeParse env)" "file_opener (vv_open env) I" "I s" "definition_wf dfn"
    and "validateAlgorithmPreset (Suc depth) env dfn preset s = Some (Inr (data, payload), s')"
  shows "jstr (jfield ''key'' data) = def_key dfn \<and> jstr (jfield ''version'' data) = def_version dfn
    \<and> distinct (map fst (preset_inputs data)) \<and> fst ` set (preset_inputs data) \<subseteq> io_key ` set (def_inputs dfn)
    \<and> (\<forall>i \<in> set (def_inputs dfn). typed_input (vv_num_str env) i (jfield (io_key i) payload) \<and> (isFileBacked i \<longrightarrow> (\<exists>content s s'. I s
         \<and> resolveInputContent env i (jfield (io_key i) payload) s = (Inr content, s') \<and> file_errors env i content = [])))
    \<and> (\<forall>key l r mn mx ks. SubAlgorithmIo key l r mn mx ks \<in> set (def_inputs dfn) \<longrightarrow>
         list_all (child_checked env depth (shared_of ks) (filter (\<lambda>(k, v). k \<in> set (shared_of ks)) (preset_inputs data))) (json_list (jfield key payload)))"
proof -
  let ?inputs = "preset_inputs data"
  have p: "validatePayload (vv_safeParse env) (vv_num_str env) dfn (buildPayload ?inputs) = Inr payload" and e: "definition_errors dfn data = []"
    using assms(5) by (auto simp: Let_def split: sum.splits if_splits prod.splits bind_splits)
  obtain parsed s1 where f: "validateFileBackedInputs env ?inputs payload (def_inputs dfn) s = (([], parsed), s1)"
    and n: "validateNestedSubAlgorithms env (validateAlgorithmPreset depth env) ?inputs payload (def_inputs dfn) s1 = Some ([], s')"
    using assms(5) by (auto simp: Let_def split: sum.splits if_splits prod.splits bind_splits)
  note d = e[unfolded definition_errors_Nil]
  note t = validated_typed[OF assms(1,4) p]
  have F: "\<exists>content s s'. I s \<and> resolveInputContent env i (jfield (io_key i) payload) s = (Inr content, s') \<and> file_errors env i content = []"
    if i: "i \<in> set (def_inputs dfn)" "isFileBacked i" for i
  proof (rule file_opener.files_sound[OF assms(2) f i refl assms(3)])
    have "zod_data (ZString [MinLen 1 (Required (label_or (io_label i) (io_key i)))]) (jfield (io_key i) (JObj ?inputs)) = Some (jfield (io_key i) payload)"
      using validated_field[OF assms(1,4) p i(1)] i(2) buildPayload_distinct[of ?inputs] d
      by (auto simp: isFileBacked_def simp del: jfield.simps zod_data.simps split: IoItem.splits)
    then have "jfield (io_key i) (JObj ?inputs) = jfield (io_key i) payload"
      by (cases "jfield (io_key i) (JObj ?inputs)") (auto simp del: jfield.simps split: if_splits)
    then show "input_value ?inputs payload (io_key i) = jfield (io_key i) payload"
      by (auto simp: input_value_def split: option.splits)
    show "\<exists>c cs. jfield (io_key i) payload = JStr (c # cs)"
      using t[OF i(1)] i(2) by (cases "jfield (io_key i) payload") (auto simp: isFileBacked_def neq_Nil_conv split: IoItem.splits)
  qed
  have N: "list_all (child_checked env depth (shared_of ks) (filter (\<lambda>(k, v). k \<in> set (shared_of ks)) ?inputs)) (json_list (jfield key payload))"
    if i: "SubAlgorithmIo key l r mn mx ks \<in> set (def_inputs dfn)" for key l r mn mx ks
  proof (rule nested_sound[OF n i _ assms(1)])
    show "list_all isSubAlgorithmEntry (json_list (jfield key payload))"
      using typed_entries[of _ key l r mn mx ks "jfield key payload"] t[OF i] unfolding IoItem.sel by blast
  qed simp
  show ?thesis by (intro conjI ballI allI impI; (insert d, elim conjE, assumption | rule t F N | assumption)+)
qed

text \<open>
  C21: A preset that is accepted names its algorithm and version, gives every input at most once and none that the algorithm does not
  have; its payload has the declared types; the file of every file input was opened and found valid; and every sub-algorithm resolves
  to one that is not combined, gives none of the shared inputs itself, and is accepted with them as a preset of its own.
\<close>

theorem accepted_preset_is_checked:
  assumes "zod_documented (vv_safeParse env)" "file_opener (vv_open env) I" "I s" "definition_wf dfn"
    and "validateAlgorithmPreset (Suc depth) env dfn preset s = Some (Inr (data, payload), s')"
  shows "jstr (jfield ''key'' data) = def_key dfn \<and> jstr (jfield ''version'' data) = def_version dfn
    \<and> distinct (map fst (preset_inputs data)) \<and> fst ` set (preset_inputs data) \<subseteq> io_key ` set (def_inputs dfn)
    \<and> (\<forall>i \<in> set (def_inputs dfn). typed_input (vv_num_str env) i (jfield (io_key i) payload) \<and> (isFileBacked i \<longrightarrow> (\<exists>content s s'. I s
         \<and> resolveInputContent env i (jfield (io_key i) payload) s = (Inr content, s') \<and> file_errors env i content = [])))
    \<and> (\<forall>key l r mn mx ks. SubAlgorithmIo key l r mn mx ks \<in> set (def_inputs dfn) \<longrightarrow>
         list_all (child_checked env depth (shared_of ks) (filter (\<lambda>(k, v). k \<in> set (shared_of ks)) (preset_inputs data))) (json_list (jfield key payload)))"
  by (rule accepted_preset[OF assms])

section \<open>The check of the API\<close>

definition isCsvMetadata :: "StorageMetadata \<Rightarrow> bool" where
  "isCsvMetadata m \<longleftrightarrow>
     (let t = js_lower (sm_contentType m)
      in t \<noteq> ''application/json'' \<and> (js_lower (sm_ext m) = ''csv'' \<or> t = ''text/csv'' \<or> t = ''text/plain''))"

definition isJsonMetadata :: "StorageMetadata \<Rightarrow> bool" where
  "isJsonMetadata m \<longleftrightarrow>
     (let t = js_lower (sm_contentType m) in t \<noteq> ''text/csv'' \<and> (js_lower (sm_ext m) = ''json'' \<or> t = ''application/json''))"

definition max_bytes_error :: "string \<Rightarrow> StorageMetadata \<Rightarrow> nat option \<Rightarrow> file_error list" where
  "max_bytes_error label m limit =
     (case limit of None \<Rightarrow> [] | Some n \<Rightarrow> if int n < sm_size m then [FileTooLargeFor label (sm_size m) n] else [])"

record storage_policy =
  sp_maxSizeBytes :: int
  sp_contentTypeAllowlist :: string

definition allowed_types :: "storage_policy \<Rightarrow> string list" where
  "allowed_types policy = map js_trim (js_split (CHR '','') (sp_contentTypeAllowlist policy))"

definition validateStorageMetadata :: "storage_policy \<Rightarrow> StorageMetadata \<Rightarrow> IoItem \<Rightarrow> file_error list" where
  "validateStorageMetadata policy m i =
     (let label = label_or (io_label i) (io_key i)
      in (if sm_contentType m \<notin> set (allowed_types policy) then [UnsupportedFileType (sm_contentType m) (allowed_types policy)] else [])
         @ (if sp_maxSizeBytes policy < sm_size m then [FileTooLarge (sm_size m) (sp_maxSizeBytes policy)] else [])
         @ (case i of
              CsvIo _ _ cfg \<Rightarrow> (if isCsvMetadata m then [] else [MustBeCsv label]) @ max_bytes_error label m (csv_maxBytes cfg)
            | JsonIo _ _ _ cfg \<Rightarrow> (if isJsonMetadata m then [] else [MustBeJson label]) @ max_bytes_error label m (Option.bind cfg jc_maxBytes)
            | _ \<Rightarrow> []))"

text \<open>Objects as the storage service returns them, or the message of its exception.\<close>

record storage_reader =
  sr_metadata :: "string \<Rightarrow> string + StorageMetadata"
  sr_object :: "string \<Rightarrow> string + file_content"

type_synonym content_cache = "(string \<times> file_content) list"

text \<open>A blank text is its own content; an object is read once, and only when its metadata fit the input it is first read for.\<close>

definition api_open :: "storage_reader \<Rightarrow> storage_policy \<Rightarrow> content_cache opener" where
  "api_open reader policy i v cache =
     (case v of
        JStr key \<Rightarrow>
          if js_trim key = [] then (Inr (Some \<lparr>fc_text = key, fc_sizeBytes = length key\<rparr>), cache)
          else (case map_of cache key of
                  Some content \<Rightarrow> (Inr (Some content), cache)
                | None \<Rightarrow>
                    (case sr_metadata reader key of
                       Inl message \<Rightarrow> (Inl [OtherMessage message], cache)
                     | Inr m \<Rightarrow>
                         (let errors = validateStorageMetadata policy m i
                          in if errors \<noteq> [] then (Inl errors, cache)
                             else (case sr_object reader key of
                                     Inl message \<Rightarrow> (Inl [OtherMessage message], cache)
                                   | Inr content \<Rightarrow> (Inr (Some content), AList.update key content cache)))))
      | _ \<Rightarrow> (Inr None, cache))"

datatype input_exception =
    BadRequestInputs "(string \<times> preset_message \<times> string option) list"
  | BadCommunityInputs "(string \<times> string) list"
  | StorageInputValidation "(string \<times> preset_message list) list"

definition is_storage_error :: "preset_error \<Rightarrow> bool" where
  "is_storage_error e \<longleftrightarrow> pe_source e = src_file \<or> pe_source e = src_rule"

definition storage_errors :: "preset_error list \<Rightarrow> (string \<times> preset_message list) list" where
  "storage_errors errors =
     foldl (\<lambda>acc e. AList.update (pe_field e) ((case map_of acc (pe_field e) of None \<Rightarrow> [] | Some ms \<Rightarrow> ms) @ [pe_message e]) acc) []
       (filter is_storage_error errors)"

definition request_errors :: "preset_error list \<Rightarrow> (string \<times> preset_message \<times> string option) list" where
  "request_errors errors = map (\<lambda>e. (pe_field e, pe_message e, pe_code e)) (filter (\<lambda>e. \<not> is_storage_error e) errors)"

text \<open>The preset the API builds from the inputs of a request; an input may have no value.\<close>

definition request_preset :: "AlgorithmDefinition \<Rightarrow> preset_input list \<Rightarrow> json" where
  "request_preset dfn inputs =
     JObj [(''key'', JStr (def_key dfn)), (''version'', JStr (def_version dfn)),
       (''inputs'', JArr (map (\<lambda>(k, v). JObj [(''key'', JStr k), (''value'', v)]) inputs))]"

type_synonym community_validation = "AlgorithmDefinition \<Rightarrow> preset_input list \<Rightarrow> (string \<times> string) list"

definition api_env :: "safe_parse \<Rightarrow> (jsnum \<Rightarrow> string) \<Rightarrow> (string \<Rightarrow> json option) \<Rightarrow> storage_reader \<Rightarrow> storage_policy \<Rightarrow> nested_resolver
    \<Rightarrow> content_cache validator_env" where
  "api_env safeParse num_str parse reader policy lookup =
     \<lparr>vv_safeParse = safeParse, vv_num_str = num_str, vv_parse = parse, vv_open = api_open reader policy, vv_nested = Some lookup\<rparr>"

definition validateAlgorithmInputs ::
  "nat \<Rightarrow> content_cache validator_env \<Rightarrow> community_validation option \<Rightarrow> AlgorithmDefinition \<Rightarrow> preset_input list \<Rightarrow> (input_exception + unit) option" where
  "validateAlgorithmInputs depth env community dfn inputs =
     (case validateAlgorithmPreset depth env dfn (request_preset dfn inputs) [] of
        None \<Rightarrow> None
      | Some (Inr _, _) \<Rightarrow>
          Some (case community of
                  None \<Rightarrow> Inr ()
                | Some check \<Rightarrow> if check dfn inputs \<noteq> [] then Inl (BadCommunityInputs (check dfn inputs)) else Inr ())
      | Some (Inl errors, _) \<Rightarrow>
          Some (if request_errors errors \<noteq> [] then Inl (BadRequestInputs (request_errors errors))
                else if storage_errors errors \<noteq> [] then Inl (StorageInputValidation (storage_errors errors))
                else Inr ()))"

definition policy_ok :: "storage_reader \<Rightarrow> storage_policy \<Rightarrow> string \<Rightarrow> file_content \<Rightarrow> bool" where
  "policy_ok reader policy key content \<longleftrightarrow>
     sr_object reader key = Inr content
     \<and> (\<exists>m. sr_metadata reader key = Inr m \<and> sm_contentType m \<in> set (allowed_types policy) \<and> sm_size m \<le> sp_maxSizeBytes policy)"

definition cache_ok :: "storage_reader \<Rightarrow> storage_policy \<Rightarrow> content_cache \<Rightarrow> bool" where
  "cache_ok reader policy cache \<longleftrightarrow> (\<forall>(key, content) \<in> set cache. policy_ok reader policy key content)"

lemma metadata_policy:
  "validateStorageMetadata policy m i = [] \<Longrightarrow> sm_contentType m \<in> set (allowed_types policy) \<and> sm_size m \<le> sp_maxSizeBytes policy"
  by (auto simp: validateStorageMetadata_def Let_def split: if_splits)

lemma api_open_content:
  assumes "cache_ok reader policy cache" "api_open reader policy i (JStr key) cache = (Inr (Some content), cache')" "js_trim key \<noteq> []"
  shows "policy_ok reader policy key content"
proof (cases "map_of cache key")
  case (Some c)
  then have "(key, c) \<in> set cache" by (rule map_of_SomeD)
  then show ?thesis using assms Some by (auto simp: api_open_def cache_ok_def)
qed (use assms metadata_policy in \<open>auto simp: api_open_def policy_ok_def Let_def split: sum.splits if_splits\<close>)

lemma cache_ok_update: "cache_ok reader policy cache \<Longrightarrow> policy_ok reader policy key content \<Longrightarrow> cache_ok reader policy (AList.update key content cache)"
  unfolding cache_ok_def by (induction cache) auto

interpretation api: file_opener "api_open reader policy" "cache_ok reader policy" for reader policy
proof
  show "fst (api_open reader policy i v s) \<noteq> Inl []" for i v s
    by (cases v) (auto simp: api_open_def Let_def split: option.split sum.split)
next
  fix s i v r s'
  assume a: "cache_ok reader policy s" "api_open reader policy i v s = (r, s')"
  show "cache_ok reader policy s'"
  proof (cases "s' = s")
    case False
    then obtain key content where "s' = AList.update key content s" "policy_ok reader policy key content"
      using a(2) metadata_policy by (cases v) (auto simp: api_open_def policy_ok_def Let_def split: option.splits sum.splits if_splits)
    then show ?thesis using a(1) by (simp add: cache_ok_update)
  qed (use a in simp)
qed

lemma js_trim_Nil: "js_trim s = [] \<longleftrightarrow> (\<forall>c \<in> set s. js_is_space c)"
  by (auto simp: js_trim_def dropWhile_eq_Nil_conv dest: set_dropWhileD) (metis set_takeWhileD takeWhile_dropWhile_id Un_iff set_append)

lemma set_js_split: "line \<in> set (js_split c s) \<Longrightarrow> x \<in> set line \<Longrightarrow> x \<in> set s"
proof (induction s arbitrary: line)
  case (Cons d ds)
  obtain w ws where "js_split c ds = w # ws" by (cases "js_split c ds") auto
  then show ?case using Cons by (auto split: if_splits; blast)
qed simp

lemma set_normalize_newlines: "x \<in> set (normalize_newlines s) \<Longrightarrow> x = CHR 0x0A \<or> x \<in> set s"
proof (induction s rule: length_induct)
  case (1 s)
  show ?case
  proof (cases s)
    case (Cons c cs)
    have ih: "x = CHR 0x0A \<or> x \<in> set t" if "length t < length s" "x \<in> set (normalize_newlines t)" for t using 1 that by blast
    show ?thesis
    proof (cases "c = CHR 0x0D")
      case True
      then show ?thesis using 1(2) ih[of cs] ih[of "tl cs"] Cons
        by (cases cs) (auto simp del: normalize_newlines.simps(2) simp: normalize_newlines.simps(2)[of "CHR 0x0D"] split: if_splits)
    next
      case False
      then have "normalize_newlines s = c # normalize_newlines cs" using Cons by simp
      then show ?thesis using 1(2) ih[of cs] Cons by auto
    qed
  qed (use 1(2) in simp)
qed

lemma csv_lines_blank: "js_trim s = [] \<Longrightarrow> csv_lines s = []"
proof -
  assume "js_trim s = []"
  then have "js_is_space x" if "line \<in> set (js_split (CHR 0x0A) (normalize_newlines s))" "x \<in> set line" for line x
    using set_normalize_newlines[OF set_js_split[OF that]] by (auto simp: js_trim_Nil js_is_space_def)
  then show ?thesis by (auto simp: csv_lines_def filter_empty_conv js_trim_Nil)
qed

lemma blank_file_invalid: "isFileBacked i \<Longrightarrow> js_trim (fc_text content) = [] \<Longrightarrow> file_errors env i content \<noteq> []"
  by (cases i) (auto simp: isFileBacked_def file_errors_def validateCSVContent_def validateJSONContent_def csv_lines_blank Let_def)

lemma api_file_policy:
  assumes "cache_ok reader policy s" "resolveInputContent (api_env safeParse num_str parse reader policy lookup) i (JStr key) s = (Inr content, s')"
    and "isFileBacked i" "file_errors (api_env safeParse num_str parse reader policy lookup) i content = []"
  shows "policy_ok reader policy key content"
proof -
  have o: "api_open reader policy i (JStr key) s = (Inr (Some content), s')"
    using assms(2) by (auto simp: resolveInputContent_def api_env_def split: prod.splits sum.splits option.splits)
  then have "js_trim key \<noteq> []" using blank_file_invalid[OF assms(3), of content "api_env safeParse num_str parse reader policy lookup"] assms(4)
    by (auto simp: api_open_def split: if_splits)
  then show ?thesis using api_open_content[OF assms(1) o] by blast
qed

lemma foldl_update_not_Nil: "acc \<noteq> [] \<or> es \<noteq> [] \<Longrightarrow> foldl (\<lambda>acc e. AList.update (f e) (g acc e) acc) acc es \<noteq> []"
proof (induction es arbitrary: acc)
  case (Cons e es)
  have "AList.update (f e) (g acc e) acc \<noteq> []" by (cases acc) auto
  then show ?case using Cons.IH by simp
qed simp

lemma refusal_is_thrown: "errors \<noteq> [] \<Longrightarrow> request_errors errors \<noteq> [] \<or> storage_errors errors \<noteq> []"
  unfolding storage_errors_def request_errors_def by (cases "filter is_storage_error errors = []") (auto simp: filter_empty_conv foldl_update_not_Nil)


section \<open>Examples\<close>

definition sample_csv :: csv_config where
  "sample_csv = \<lparr>csv_hasHeader = None, csv_delimiter = None, csv_maxRows = Some 10, csv_maxBytes = Some 100,
     csv_columns = [\<lparr>col_key = ''user_id'', col_type = ''string'', col_required = None, col_enum = None, col_aliases = None\<rparr>,
       \<lparr>col_key = ''vote'', col_type = ''enum'', col_required = None, col_enum = Some [''up'', ''down''], col_aliases = None\<rparr>]\<rparr>"

definition sample_votes :: AlgorithmDefinition where
  "sample_votes = \<lparr>def_key = ''votes'', def_name = ''Votes'', def_combined = False, def_version = ''1'',
     def_inputs = [CsvIo ''file'' None sample_csv, BooleanIo ''strict'' None (Some False)], def_rules = []\<rparr>"

definition sample_reader :: storage_reader where
  "sample_reader =
     \<lparr>sr_metadata = (\<lambda>k. if k = ''uploads/v.csv''
        then Inr \<lparr>sm_filename = ''v.csv'', sm_ext = ''csv'', sm_size = 20, sm_contentType = ''text/csv'', sm_timestamp = 0\<rparr> else Inl ''not found''),
      sr_object = (\<lambda>k. Inr \<lparr>fc_text = ''User ID;Vote'' @ [CHR 0x0D, CHR 0x0A] @ ''u1;up'', fc_sizeBytes = 20\<rparr>)\<rparr>"

definition sample_policy :: storage_policy where
  "sample_policy = \<lparr>sp_maxSizeBytes = 50, sp_contentTypeAllowlist = ''application/json, text/csv''\<rparr>"

definition sample_api_env :: "content_cache validator_env" where
  "sample_api_env = api_env sample_safeParse (\<lambda>_. []) (\<lambda>_. None) sample_reader sample_policy (\<lambda>_ _. Inr (Some sample_votes))"

definition sample_inputs :: "preset_input list" where
  "sample_inputs = [(''file'', JStr ''uploads/v.csv'')]"

definition sample_result :: "json \<times> json" where
  "sample_result = (request_preset sample_votes sample_inputs, JObj [(''file'', JStr ''uploads/v.csv'')])"

lemma sample_votes_wf: "definition_wf sample_votes"
  by (simp add: definition_wf_def sample_votes_def)

lemma sample_preset_accepted:
  "map_option fst (validateAlgorithmPreset 1 sample_api_env sample_votes (request_preset sample_votes sample_inputs) []) = Some (Inr sample_result)"
  by code_simp

lemma sample_inputs_admitted: "validateAlgorithmInputs 1 sample_api_env None sample_votes sample_inputs = Some (Inr ())"
  by code_simp

lemma sample_missing_file:
  "validateAlgorithmInputs 1 sample_api_env None sample_votes [(''file'', JStr ''x'')]
    = Some (Inl (StorageInputValidation [(''file'', [FileMessage (OtherMessage ''not found'')])]))"
  by code_simp

theorem preset_check_returns_witness:
  "\<exists>r s. validateAlgorithmPreset 2 sample_api_env sample_votes (request_preset sample_votes []) [] = Some (r, s)
    \<and> validateAlgorithmPreset 5 sample_api_env sample_votes (request_preset sample_votes []) [] = Some (r, s)"
  by (rule preset_check_returns)
    (auto simp: registry_flat_def sample_api_env_def api_env_def is_leaf_def sample_votes_def)

theorem accepted_preset_is_checked_witness:
  "fst ` set (preset_inputs (fst sample_result)) \<subseteq> io_key ` set (def_inputs sample_votes)"
proof -
  obtain cache where "validateAlgorithmPreset (Suc 0) sample_api_env sample_votes (request_preset sample_votes sample_inputs) []
      = Some (Inr (fst sample_result, snd sample_result), cache)"
    using sample_preset_accepted by auto
  from accepted_preset_is_checked[OF _ _ _ sample_votes_wf this, of "cache_ok sample_reader sample_policy"] show ?thesis
    using sample_zod_documented api.file_opener_axioms[of sample_reader sample_policy] by (auto simp: sample_api_env_def api_env_def cache_ok_def)
qed


end
