(* ===== verification/Portal_Data.thy ===== *)
theory Portal_Data
  imports Result_State Payload_Schema Object_Storage
begin

text \<open>
  The DeepFunding portal (\<^verbatim>\<open>packages/deepfunding-portal-api\<close>) and the activity that copies it into a snapshot
  (\<^verbatim>\<open>deepfunding-portal-api.activities.ts\<close>): the request with its retries, the paginated endpoints, the mapping of
  items to rows, the repositories over the SQLite file and the sync itself.

  Identifiers are integers, as the columns declare them.  A column that holds JSON text is represented by the
  value it denotes, and the \<^verbatim>\<open>raw_json\<close> columns, which nothing reads, are left out.  A table lists its rows in
  the order of insertion.  The portal's answers are arguments: the reply to a page is the same whenever the page
  is asked for during a sync.
\<close>

section \<open>Requests\<close>

datatype http_failure =
    HttpError nat string
  | RequestError string

fun error_message :: "http_failure \<Rightarrow> string" where
  "error_message (HttpError statusCode statusText) = ''HTTP '' @ js_nat statusCode @ '': '' @ statusText"
| "error_message (RequestError message) = message"

definition js_includes :: "string \<Rightarrow> string \<Rightarrow> bool" where
  "js_includes s p \<longleftrightarrow> sublist p s"

definition portal_isRetryableError :: "http_failure \<Rightarrow> bool" where
  "portal_isRetryableError err =
     (let message = js_lower (error_message err)
      in if js_includes message ''timeout'' \<or> js_includes message ''econnreset'' \<or> js_includes message ''econnrefused''
            \<or> js_includes message ''socket hang up'' \<or> js_includes message ''network''
         then True
         else (case err of HttpError statusCode _ \<Rightarrow> statusCode = 429 \<or> 500 \<le> statusCode | RequestError _ \<Rightarrow> False))"

definition isNonRetryableError :: "http_failure \<Rightarrow> bool" where
  "isNonRetryableError err =
     (case err of HttpError statusCode _ \<Rightarrow> 400 \<le> statusCode \<and> statusCode < 500 \<and> statusCode \<noteq> 429 | RequestError _ \<Rightarrow> False)"

record RetryConfig =
  rt_maxAttempts :: nat
  rt_baseDelayMs :: int
  rt_maxDelayMs :: int

definition DEFAULT_RETRY :: RetryConfig where
  "DEFAULT_RETRY = \<lparr>rt_maxAttempts = 7, rt_baseDelayMs = 500, rt_maxDelayMs = 10000\<rparr>"

text \<open>The pause before the next attempt; \<open>random\<close> is the value of \<^verbatim>\<open>Math.random()\<close>.\<close>

definition portal_calculateDelay :: "jsnum \<Rightarrow> nat \<Rightarrow> int \<Rightarrow> int \<Rightarrow> jsnum" where
  "portal_calculateDelay random attempt baseDelayMs maxDelayMs =
     (let exponentialDelay = jmul (jint baseDelayMs) (jint (2 ^ attempt));
          cappedDelay = jmin exponentialDelay (jint maxDelayMs);
          jitter = jmul (jmul random cappedDelay) (Fin (1 / 2))
      in jadd cappedDelay jitter)"

text \<open>
  The attempts of one request: \<open>send n\<close> is the outcome of attempt \<open>n\<close>, where a status of 400 or more and a body that
  is not JSON count as failures.  The second component lists the pauses slept.
\<close>

fun request_attempts ::
  "RetryConfig \<Rightarrow> (nat \<Rightarrow> jsnum) \<Rightarrow> (nat \<Rightarrow> http_failure + 'a) \<Rightarrow> nat \<Rightarrow> nat \<Rightarrow> http_failure option \<Rightarrow> (http_failure + 'a) \<times> jsnum list" where
  "request_attempts cfg random send 0 attempt lastError =
     (Inl (case lastError of Some e \<Rightarrow> e | None \<Rightarrow> RequestError ''Request failed after all retries''), [])"
| "request_attempts cfg random send (Suc left) attempt lastError =
     (case send attempt of
        Inr body \<Rightarrow> (Inr body, [])
      | Inl err \<Rightarrow>
          if isNonRetryableError err then (Inl err, [])
          else if \<not> portal_isRetryableError err then (Inl err, [])
          else
            (let pause = (if attempt + 1 < rt_maxAttempts cfg
                          then [portal_calculateDelay (random attempt) attempt (rt_baseDelayMs cfg) (rt_maxDelayMs cfg)] else []);
                 rest = request_attempts cfg random send left (attempt + 1) (Some err)
             in (fst rest, pause @ snd rest)))"

definition executeRequest ::
  "RetryConfig \<Rightarrow> (nat \<Rightarrow> jsnum) \<Rightarrow> (nat \<Rightarrow> http_failure + 'a) \<Rightarrow> (http_failure + 'a) \<times> jsnum list" where
  "executeRequest cfg random send = request_attempts cfg random send (rt_maxAttempts cfg) 0 None"

text \<open>\<^verbatim>\<open>validatePaginationOptions\<close>.\<close>

definition validatePaginationOptions :: "int option \<Rightarrow> int option \<Rightarrow> string option" where
  "validatePaginationOptions page limit =
     (if (case page of Some p \<Rightarrow> p < 1 | None \<Rightarrow> False) then Some ''Invalid page value''
      else if (case limit of Some l \<Rightarrow> l < 1 | None \<Rightarrow> False) then Some ''Invalid limit value''
      else None)"

section \<open>Items and rows\<close>

record Round =
  ro_id :: int
  ro_name :: string
  ro_slug :: string
  ro_description :: "string option"
  ro_pool_id :: "int list option"

record RoundRecord =
  rr_id :: int
  rr_name :: string
  rr_slug :: string
  rr_description :: "string option"
  rr_poolIds :: "int list"

text \<open>\<^verbatim>\<open>description || null\<close>: an empty text becomes \<^verbatim>\<open>null\<close> too.\<close>

definition or_null :: "string option \<Rightarrow> string option" where
  "or_null v = (if v = Some [] then None else v)"

definition normalizeRoundToRecord :: "Round \<Rightarrow> RoundRecord" where
  "normalizeRoundToRecord d =
     \<lparr>rr_id = ro_id d, rr_name = ro_name d, rr_slug = ro_slug d, rr_description = or_null (ro_description d),
      rr_poolIds = (case ro_pool_id d of Some ids \<Rightarrow> ids | None \<Rightarrow> [])\<rparr>"

record Pool =
  po_id :: int
  po_name :: string
  po_slug :: string
  po_max_funding_amount :: int
  po_description :: "string option"

type_synonym PoolRecord = Pool

definition normalizePoolToRecord :: "Pool \<Rightarrow> PoolRecord" where
  "normalizePoolToRecord d = d\<lparr>po_description := or_null (po_description d)\<rparr>"

text \<open>\<open>pj_team_members\<close> is \<^const>\<open>None\<close> when the item has no such list.\<close>

record Proposal =
  pj_id :: int
  pj_pool_id :: int
  pj_proposer_id :: int
  pj_team_members :: "json list option"
  pj_title :: string
  pj_content :: string
  pj_link :: string
  pj_feature_image :: string
  pj_requested_amount :: string
  pj_awarded_amount :: string
  pj_is_awarded :: json
  pj_is_completed :: json
  pj_created_at :: string
  pj_updated_at :: "string option"

record ProposalRecord =
  pp_id :: int
  pp_roundId :: int
  pp_poolId :: int
  pp_proposerId :: int
  pp_title :: string
  pp_content :: string
  pp_link :: string
  pp_featureImage :: string
  pp_requestedAmount :: string
  pp_awardedAmount :: string
  pp_isAwarded :: json
  pp_isCompleted :: json
  pp_createdAt :: string
  pp_updatedAt :: "string option"
  pp_teamMembers :: "json list"

definition normalizeProposalToRecord :: "int \<Rightarrow> Proposal \<Rightarrow> ProposalRecord" where
  "normalizeProposalToRecord round_id d =
     \<lparr>pp_id = pj_id d, pp_roundId = round_id, pp_poolId = pj_pool_id d, pp_proposerId = pj_proposer_id d,
      pp_title = pj_title d, pp_content = pj_content d, pp_link = pj_link d, pp_featureImage = pj_feature_image d,
      pp_requestedAmount = pj_requested_amount d, pp_awardedAmount = pj_awarded_amount d,
      pp_isAwarded = pj_is_awarded d, pp_isCompleted = pj_is_completed d, pp_createdAt = pj_created_at d,
      pp_updatedAt = pj_updated_at d, pp_teamMembers = (case pj_team_members d of Some ms \<Rightarrow> ms | None \<Rightarrow> [])\<rparr>"

record User =
  us_id :: int
  us_collection_id :: string
  us_user_name :: string
  us_email :: string
  us_total_proposals :: int
  us_did :: json

record UserRecord =
  ur_id :: int
  ur_collectionId :: string
  ur_userName :: string
  ur_email :: string
  ur_totalProposals :: int
  ur_did :: string

definition toCanonicalPortalDid :: "json \<Rightarrow> string" where
  "toCanonicalPortalDid raw =
     (case raw of
        JStr s \<Rightarrow>
          (let trimmed = js_trim s
           in if trimmed = [] then []
              else if js_startsWith trimmed ''did:'' then trimmed else ''did:plc:'' @ trimmed)
      | _ \<Rightarrow> [])"

definition normalizeUserToRecord :: "User \<Rightarrow> UserRecord" where
  "normalizeUserToRecord d =
     \<lparr>ur_id = us_id d, ur_collectionId = us_collection_id d, ur_userName = us_user_name d, ur_email = us_email d,
      ur_totalProposals = us_total_proposals d, ur_did = toCanonicalPortalDid (us_did d)\<rparr>"

record MilestoneRaw =
  ml_title :: string
  ml_status :: string
  ml_description :: string
  ml_development_description :: string
  ml_budget :: int

record MilestoneGroup =
  mg_proposal_id :: int
  mg_created_at :: "string option"
  mg_updated_at :: "string option"
  mg_milestones :: "MilestoneRaw list"

record Milestone = MilestoneRaw +
  ml_proposal_id :: int
  ml_created_at :: "string option"
  ml_updated_at :: "string option"

text \<open>The nested loop of \<^verbatim>\<open>fetchMilestones\<close>.\<close>

definition milestone_of :: "MilestoneGroup \<Rightarrow> MilestoneRaw \<Rightarrow> Milestone" where
  "milestone_of g m =
     \<lparr>ml_title = ml_title m, ml_status = ml_status m, ml_description = ml_description m,
      ml_development_description = ml_development_description m, ml_budget = ml_budget m,
      ml_proposal_id = mg_proposal_id g, ml_created_at = mg_created_at g, ml_updated_at = mg_updated_at g\<rparr>"

definition flattenedMilestones :: "MilestoneGroup list \<Rightarrow> Milestone list" where
  "flattenedMilestones groups = concat (map (\<lambda>g. map (milestone_of g) (mg_milestones g)) groups)"

text \<open>The row drops the portal's identifier; the table assigns its own.\<close>

record MilestoneRecord =
  mr_id :: int
  mr_proposalId :: int
  mr_title :: string
  mr_status :: string
  mr_description :: string
  mr_developmentDescription :: string
  mr_budget :: int
  mr_createdAt :: "string option"
  mr_updatedAt :: "string option"

definition normalizeMilestoneToRecord :: "Milestone \<Rightarrow> int \<Rightarrow> MilestoneRecord" where
  "normalizeMilestoneToRecord d i =
     \<lparr>mr_id = i, mr_proposalId = ml_proposal_id d, mr_title = ml_title d, mr_status = ml_status d,
      mr_description = ml_description d, mr_developmentDescription = ml_development_description d,
      mr_budget = ml_budget d, mr_createdAt = ml_created_at d, mr_updatedAt = ml_updated_at d\<rparr>"

record Review =
  rv_proposal_id :: "int option"
  rv_reviewer_id :: "int option"
  rv_review_type :: string
  rv_overall_rating :: string
  rv_feasibility_rating :: string
  rv_viability_rating :: string
  rv_desirability_rating :: string
  rv_usefulness_rating :: string
  rv_created_at :: "string option"

record ReviewRecord =
  re_reviewId :: int
  re_proposalId :: "int option"
  re_reviewerId :: "int option"
  re_reviewType :: string
  re_overallRating :: string
  re_feasibilityRating :: string
  re_viabilityRating :: string
  re_desirabilityRating :: string
  re_usefulnessRating :: string
  re_createdAt :: "string option"

definition normalizeReviewToRecord :: "Review \<Rightarrow> int \<Rightarrow> ReviewRecord" where
  "normalizeReviewToRecord d i =
     \<lparr>re_reviewId = i, re_proposalId = rv_proposal_id d, re_reviewerId = rv_reviewer_id d, re_reviewType = rv_review_type d,
      re_overallRating = rv_overall_rating d, re_feasibilityRating = rv_feasibility_rating d,
      re_viabilityRating = rv_viability_rating d, re_desirabilityRating = rv_desirability_rating d,
      re_usefulnessRating = rv_usefulness_rating d, re_createdAt = rv_created_at d\<rparr>"

record Comment =
  cm_comment_id :: int
  cm_parent_id :: int
  cm_is_reply :: bool
  cm_user_id :: int
  cm_proposal_id :: int
  cm_content :: string
  cm_comment_votes :: "int + string"
  cm_created_at :: string
  cm_updated_at :: string

record CommentRecord =
  cr_commentId :: int
  cr_parentId :: int
  cr_isReply :: bool
  cr_userId :: int
  cr_proposalId :: int
  cr_content :: string
  cr_commentVotes :: string
  cr_createdAt :: string
  cr_updatedAt :: string

text \<open>The text of an integer in a template literal, and \<^verbatim>\<open>String(comment_votes)\<close> of a whole number or a text.\<close>

definition int_text :: "int \<Rightarrow> string" where
  "int_text n = (if n < 0 then ''-'' @ js_nat (nat (- n)) else js_nat (nat n))"

definition votes_text :: "int + string \<Rightarrow> string" where
  "votes_text v = (case v of Inl n \<Rightarrow> int_text n | Inr s \<Rightarrow> s)"

definition normalizeCommentToRecord :: "Comment \<Rightarrow> CommentRecord" where
  "normalizeCommentToRecord d =
     \<lparr>cr_commentId = cm_comment_id d, cr_parentId = cm_parent_id d, cr_isReply = cm_is_reply d, cr_userId = cm_user_id d,
      cr_proposalId = cm_proposal_id d, cr_content = cm_content d, cr_commentVotes = votes_text (cm_comment_votes d),
      cr_createdAt = cm_created_at d, cr_updatedAt = cm_updated_at d\<rparr>"

record CommentVote =
  vt_voter_id :: int
  vt_comment_id :: int
  vt_vote_type :: string
  vt_created_at :: "string option"

type_synonym CommentVoteRecord = CommentVote

definition normalizeCommentVoteToRecord :: "CommentVote \<Rightarrow> CommentVoteRecord" where
  "normalizeCommentVoteToRecord d = d"

section \<open>Computations that may not return\<close>

text \<open>\<^const>\<open>None\<close> stands for a computation that never returns.\<close>

type_synonym ('s, 'e, 'a) nt = "'s \<Rightarrow> (('e + 'a) \<times> 's) option"

definition nt_lift :: "('s, 'e, 'a) rs \<Rightarrow> ('s, 'e, 'a) nt" where
  "nt_lift m s = Some (m s)"

definition nt_bind :: "('s, 'e, 'a) nt \<Rightarrow> ('a \<Rightarrow> ('s, 'e, 'b) nt) \<Rightarrow> ('s, 'e, 'b) nt" where
  "nt_bind m f s =
     (case m s of None \<Rightarrow> None | Some (Inl e, s') \<Rightarrow> Some (Inl e, s') | Some (Inr x, s') \<Rightarrow> f x s')"

definition nt_then :: "('s, 'e, unit) nt \<Rightarrow> ('s, 'e, 'b) nt \<Rightarrow> ('s, 'e, 'b) nt" where
  "nt_then m m' = nt_bind m (\<lambda>_. m')"

section \<open>Repositories\<close>

datatype portal_error =
    HttpFailure http_failure
  | StorageFailure storage_error
  | UniqueViolation

definition DEFAULT_CHUNK_SIZE :: nat where "DEFAULT_CHUNK_SIZE = 100"

text \<open>The loop advances by \<open>n\<close>; with a size of zero it does not end.\<close>

partial_function (option) chunk_loop :: "'a list \<Rightarrow> nat \<Rightarrow> 'a list list \<Rightarrow> 'a list list option" where
  "chunk_loop array n chunks =
     (if array = [] then Some chunks else chunk_loop (drop n array) n (chunks @ [take n array]))"

definition chunkArray :: "'a list \<Rightarrow> nat \<Rightarrow> 'a list list option" where
  "chunkArray array n = chunk_loop array n []"

text \<open>
  \<^verbatim>\<open>INSERT\<close> of several rows into a table with a declared primary key, and into one that numbers its rows
  (\<^verbatim>\<open>AUTOINCREMENT\<close>; rows are never deleted).
\<close>

definition insert_keyed :: "('r \<Rightarrow> 'k) \<Rightarrow> 'r list \<Rightarrow> 'r list \<Rightarrow> portal_error + 'r list" where
  "insert_keyed pk rows table =
     (if distinct (map pk rows) \<and> set (map pk rows) \<inter> set (map pk table) = {} then Inr (table @ rows) else Inl UniqueViolation)"

definition number_rows :: "nat \<Rightarrow> (int \<Rightarrow> 'r) list \<Rightarrow> 'r list" where
  "number_rows n rows = map (\<lambda>(i, row). row (int i + 1)) (enumerate n rows)"

definition insert_numbered :: "(int \<Rightarrow> 'r) list \<Rightarrow> 'r list \<Rightarrow> portal_error + 'r list" where
  "insert_numbered rows table = Inr (table @ number_rows (length table) rows)"

text \<open>The transaction of \<^verbatim>\<open>createMany\<close>: one insert per chunk, all of them or none.\<close>

fun insert_chunks :: "('x list \<Rightarrow> 'r list \<Rightarrow> portal_error + 'r list) \<Rightarrow> 'x list list \<Rightarrow> 'r list \<Rightarrow> portal_error + 'r list" where
  "insert_chunks ins [] table = Inr table"
| "insert_chunks ins (chunk # chunks) table =
     (case ins chunk table of Inl e \<Rightarrow> Inl e | Inr table' \<Rightarrow> insert_chunks ins chunks table')"

record ('i, 'r) Repo =
  repo_create :: "'i \<Rightarrow> 'r list \<Rightarrow> portal_error + 'r list"
  repo_createMany :: "'i list \<Rightarrow> nat \<Rightarrow> 'r list \<Rightarrow> (portal_error + 'r list) option"

definition repo_of :: "('x list \<Rightarrow> 'r list \<Rightarrow> portal_error + 'r list) \<Rightarrow> ('i \<Rightarrow> 'x) \<Rightarrow> ('i, 'r) Repo" where
  "repo_of ins row =
     \<lparr>repo_create = (\<lambda>item. ins [row item]),
      repo_createMany = (\<lambda>items chunkSize table.
        map_option (\<lambda>chunks. insert_chunks ins (map (map row) chunks) table) (chunkArray items chunkSize))\<rparr>"

definition createRoundsRepo :: "(Round, RoundRecord) Repo" where
  "createRoundsRepo = repo_of (insert_keyed rr_id) normalizeRoundToRecord"

definition createPoolsRepo :: "(Pool, PoolRecord) Repo" where
  "createPoolsRepo = repo_of (insert_keyed po_id) normalizePoolToRecord"

text \<open>An item of the proposals repository carries its round.\<close>

definition createProposalsRepo :: "(int \<times> Proposal, ProposalRecord) Repo" where
  "createProposalsRepo = repo_of (insert_keyed pp_id) (\<lambda>(round_id, p). normalizeProposalToRecord round_id p)"

definition createUsersRepo :: "(User, UserRecord) Repo" where
  "createUsersRepo = repo_of (insert_keyed ur_id) normalizeUserToRecord"

definition createMilestonesRepo :: "(Milestone, MilestoneRecord) Repo" where
  "createMilestonesRepo = repo_of insert_numbered normalizeMilestoneToRecord"

definition createReviewsRepo :: "(Review, ReviewRecord) Repo" where
  "createReviewsRepo = repo_of insert_numbered normalizeReviewToRecord"

definition createCommentsRepo :: "(Comment, CommentRecord) Repo" where
  "createCommentsRepo = repo_of (insert_keyed cr_commentId) normalizeCommentToRecord"

definition createCommentVotesRepo :: "(CommentVote, CommentVoteRecord) Repo" where
  "createCommentVotesRepo = repo_of (insert_keyed (\<lambda>v. (vt_voter_id v, vt_comment_id v))) normalizeCommentVoteToRecord"

record PortalDb =
  pd_rounds :: "RoundRecord list"
  pd_pools :: "PoolRecord list"
  pd_proposals :: "ProposalRecord list"
  pd_users :: "UserRecord list"
  pd_milestones :: "MilestoneRecord list"
  pd_reviews :: "ReviewRecord list"
  pd_comments :: "CommentRecord list"
  pd_commentVotes :: "CommentVoteRecord list"

text \<open>\<^verbatim>\<open>createDb\<close> runs the migration on a new file.\<close>

definition createDb :: PortalDb where
  "createDb = \<lparr>pd_rounds = [], pd_pools = [], pd_proposals = [], pd_users = [], pd_milestones = [], pd_reviews = [],
     pd_comments = [], pd_commentVotes = []\<rparr>"

section \<open>The sync\<close>

text \<open>A page as the code reads it: the items, its number and the number of the next one.\<close>

record 'a PageResult =
  pr_data :: "'a list"
  pr_current_page :: int
  pr_next_page :: "int option"

record DeepFundingSyncManifest =
  sm_snapshotId :: string
  sm_startedAt :: string
  sm_completedAt :: string
  sm_dbKey :: string
  sm_rawPrefix :: string

datatype portal_object =
    RoundsJson "Round list"
  | ProposalsJson "Proposal list"
  | PoolsJson "Pool list"
  | MilestonesPage "Milestone PageResult"
  | ReviewsPage "Review PageResult"
  | CommentsPage "Comment PageResult"
  | CommentVotesPage "CommentVote PageResult"
  | UsersPage "User PageResult"
  | DbFile PortalDb
  | SyncManifest DeepFundingSyncManifest

text \<open>
  What a sync depends on: the portal's reply to each request after its retries, the order in which the requests of
  the rounds complete, the failures of the storage service, and the two instants of the manifest.
\<close>

record SyncEnv =
  se_rounds :: "http_failure + Round list"
  se_proposals :: "int \<Rightarrow> http_failure + Proposal list"
  se_pools :: "http_failure + Pool list"
  se_milestones :: "int \<Rightarrow> http_failure + MilestoneGroup PageResult"
  se_reviews :: "int \<Rightarrow> http_failure + Review PageResult"
  se_comments :: "int \<Rightarrow> http_failure + Comment PageResult"
  se_commentVotes :: "int \<Rightarrow> http_failure + CommentVote PageResult"
  se_users :: "int \<Rightarrow> http_failure + User PageResult"
  se_order :: "Round list \<Rightarrow> Round list"
  se_headFailure :: "storage_error option"
  se_putFailure :: "string \<Rightarrow> storage_error option"
  se_size :: "portal_object \<Rightarrow> int"
  se_maxSizeBytes :: int
  se_startedAt :: string
  se_completedAt :: string

record sync_world =
  sw_store :: "string \<Rightarrow> portal_object option"
  sw_db :: PortalDb

type_synonym 'a sync = "(sync_world, portal_error, 'a) nt"

definition fetch_reply :: "http_failure + 'a \<Rightarrow> 'a sync" where
  "fetch_reply r = nt_lift (rs_lift (map_sum HttpFailure id r))"

definition sync_putObject :: "SyncEnv \<Rightarrow> string \<Rightarrow> portal_object \<Rightarrow> unit sync" where
  "sync_putObject env key obj w =
     (case se_putFailure env key of
        Some e \<Rightarrow> Some (Inl (StorageFailure e), w)
      | None \<Rightarrow> Some (Inr (), w\<lparr>sw_store := (sw_store w)(key \<mapsto> obj)\<rparr>))"

definition store_rows :: "(PortalDb \<Rightarrow> 'r list) \<Rightarrow> ('r list \<Rightarrow> PortalDb \<Rightarrow> PortalDb) \<Rightarrow> ('i, 'r) Repo \<Rightarrow> 'i list \<Rightarrow> unit sync" where
  "store_rows get put repo items w =
     (case repo_createMany repo items DEFAULT_CHUNK_SIZE (get (sw_db w)) of
        None \<Rightarrow> None
      | Some (Inl e) \<Rightarrow> Some (Inl e, w)
      | Some (Inr table) \<Rightarrow> Some (Inr (), w\<lparr>sw_db := put table (sw_db w)\<rparr>))"

text \<open>The loop of a paginated fetcher with the body that handles each page.\<close>

partial_function (option) page_loop ::
  "(int \<Rightarrow> http_failure + 'a PageResult) \<Rightarrow> ('a PageResult \<Rightarrow> unit sync) \<Rightarrow> int option \<Rightarrow> unit sync" where
  "page_loop fetch handle nextPage w =
     (case nextPage of
        None \<Rightarrow> Some (Inr (), w)
      | Some page \<Rightarrow>
          (case fetch page of
             Inl e \<Rightarrow> Some (Inl (HttpFailure e), w)
           | Inr p \<Rightarrow>
               (case handle p w of
                  None \<Rightarrow> None
                | Some (Inl e, w') \<Rightarrow> Some (Inl e, w')
                | Some (Inr _, w') \<Rightarrow> page_loop fetch handle (pr_next_page p) w')))"

definition fetchMilestones :: "(int \<Rightarrow> http_failure + MilestoneGroup PageResult) \<Rightarrow> int \<Rightarrow> http_failure + Milestone PageResult" where
  "fetchMilestones get page =
     map_sum id (\<lambda>p. \<lparr>pr_data = flattenedMilestones (pr_data p), pr_current_page = pr_current_page p, pr_next_page = pr_next_page p\<rparr>)
       (get page)"

definition raw_key :: "string \<Rightarrow> string \<Rightarrow> string" where
  "raw_key snapshotId name = generateKey snapshot snapshotId (''deepfunding/'' @ name)"

definition page_key :: "string \<Rightarrow> string \<Rightarrow> int \<Rightarrow> string" where
  "page_key snapshotId resource n = raw_key snapshotId (resource @ ''/page_'' @ int_text n @ ''.json'')"

lemma path_not_manifest: "CHR ''/'' \<in> set name \<Longrightarrow> name \<noteq> ''manifest.json''"
  by auto

text \<open>
  One resource of the portal: every page is stored as it came and its items are inserted.  The two run together;
  when one of them fails the activity fails and the local file is discarded, so that their order is not observed.
\<close>

definition sync_pages ::
  "SyncEnv \<Rightarrow> string \<Rightarrow> string \<Rightarrow> ('a PageResult \<Rightarrow> portal_object) \<Rightarrow> (PortalDb \<Rightarrow> 'r list) \<Rightarrow> ('r list \<Rightarrow> PortalDb \<Rightarrow> PortalDb)
    \<Rightarrow> ('a, 'r) Repo \<Rightarrow> (int \<Rightarrow> http_failure + 'a PageResult) \<Rightarrow> unit sync" where
  "sync_pages env snapshotId resource obj get put repo fetch =
     page_loop fetch
       (\<lambda>p. nt_then (sync_putObject env (page_key snapshotId resource (pr_current_page p)) (obj p)) (store_rows get put repo (pr_data p)))
       (Some 1)"

fun sync_proposals :: "SyncEnv \<Rightarrow> string \<Rightarrow> Round list \<Rightarrow> unit sync" where
  "sync_proposals env snapshotId [] = nt_lift (rs_ret ())"
| "sync_proposals env snapshotId (r # rs) =
     nt_bind (fetch_reply (se_proposals env (ro_id r))) (\<lambda>proposals.
       nt_then (sync_putObject env (raw_key snapshotId (''proposals/round_'' @ int_text (ro_id r) @ ''.json'')) (ProposalsJson proposals))
         (nt_then (store_rows pd_proposals (\<lambda>t. pd_proposals_update (\<lambda>_. t)) createProposalsRepo (map (Pair (ro_id r)) proposals))
           (sync_proposals env snapshotId rs)))"

definition sync_rounds :: "SyncEnv \<Rightarrow> string \<Rightarrow> unit sync" where
  "sync_rounds env snapshotId =
     nt_bind (fetch_reply (se_rounds env)) (\<lambda>rounds.
       nt_then (sync_putObject env (raw_key snapshotId ''rounds.json'') (RoundsJson rounds))
         (nt_then (store_rows pd_rounds (\<lambda>t. pd_rounds_update (\<lambda>_. t)) createRoundsRepo rounds)
           (sync_proposals env snapshotId (se_order env rounds))))"

definition sync_pools :: "SyncEnv \<Rightarrow> string \<Rightarrow> unit sync" where
  "sync_pools env snapshotId =
     nt_bind (fetch_reply (se_pools env)) (\<lambda>pools.
       nt_then (sync_putObject env (raw_key snapshotId ''pools.json'') (PoolsJson pools))
         (store_rows pd_pools (\<lambda>t. pd_pools_update (\<lambda>_. t)) createPoolsRepo pools))"

definition sync_resources :: "SyncEnv \<Rightarrow> string \<Rightarrow> unit sync" where
  "sync_resources env sid =
     nt_then (sync_rounds env sid)
       (nt_then (sync_pools env sid)
         (nt_then (sync_pages env sid ''milestones'' MilestonesPage pd_milestones (\<lambda>t. pd_milestones_update (\<lambda>_. t)) createMilestonesRepo
                     (fetchMilestones (se_milestones env)))
           (nt_then (sync_pages env sid ''reviews'' ReviewsPage pd_reviews (\<lambda>t. pd_reviews_update (\<lambda>_. t)) createReviewsRepo (se_reviews env))
             (nt_then (sync_pages env sid ''comments'' CommentsPage pd_comments (\<lambda>t. pd_comments_update (\<lambda>_. t)) createCommentsRepo (se_comments env))
               (nt_then (sync_pages env sid ''comment_votes'' CommentVotesPage pd_commentVotes (\<lambda>t. pd_commentVotes_update (\<lambda>_. t))
                           createCommentVotesRepo (se_commentVotes env))
                 (sync_pages env sid ''users'' UsersPage pd_users (\<lambda>t. pd_users_update (\<lambda>_. t)) createUsersRepo (se_users env)))))))"

definition db_key :: "string \<Rightarrow> string" where
  "db_key snapshotId = generateKey snapshot snapshotId ''deepfunding.db''"

definition manifest_key :: "string \<Rightarrow> string" where
  "manifest_key snapshotId = generateKey snapshot snapshotId ''deepfunding/manifest.json''"

definition sync_upload :: "SyncEnv \<Rightarrow> string \<Rightarrow> (string \<times> string) sync" where
  "sync_upload env snapshotId w =
     nt_then (sync_putObject env (db_key snapshotId) (DbFile (sw_db w)))
       (nt_then (sync_putObject env (manifest_key snapshotId) (SyncManifest
            \<lparr>sm_snapshotId = snapshotId, sm_startedAt = se_startedAt env, sm_completedAt = se_completedAt env, sm_dbKey = db_key snapshotId,
             sm_rawPrefix = generateKey snapshot snapshotId ''deepfunding/''\<rparr>))
         (nt_lift (rs_ret (db_key snapshotId, manifest_key snapshotId)))) w"

definition verify_db :: "SyncEnv \<Rightarrow> string \<Rightarrow> sync_world \<Rightarrow> storage_error + unit" where
  "verify_db env key w =
     (case se_headFailure env of
        Some e \<Rightarrow> Inl e
      | None \<Rightarrow>
          (case sw_store w key of
             None \<Rightarrow> Inl (ObjectNotFoundError key)
           | Some obj \<Rightarrow> if se_maxSizeBytes env < se_size env obj then Inl (FileTooLargeError (se_maxSizeBytes env)) else Inr ()))"

definition is_not_found :: "storage_error \<Rightarrow> bool" where
  "is_not_found e \<longleftrightarrow> (case e of ObjectNotFoundError _ \<Rightarrow> True | _ \<Rightarrow> False)"

definition deepfunding_sync :: "SyncEnv \<Rightarrow> string \<Rightarrow> (string \<times> string) sync" where
  "deepfunding_sync env snapshotId w =
     (case verify_db env (db_key snapshotId) w of
        Inr _ \<Rightarrow> Some (Inr (db_key snapshotId, manifest_key snapshotId), w)
      | Inl e \<Rightarrow>
          if \<not> is_not_found e then Some (Inl (StorageFailure e), w)
          else nt_then (sync_resources env snapshotId) (sync_upload env snapshotId) (w\<lparr>sw_db := createDb\<rparr>))"

section \<open>Retries\<close>

definition transient :: "http_failure \<Rightarrow> bool" where
  "transient e \<longleftrightarrow> \<not> isNonRetryableError e \<and> portal_isRetryableError e"

lemma request_attempts_Inr:
  "fst (request_attempts cfg random send left attempt le) = Inr x \<longleftrightarrow>
   (\<exists>k < left. send (attempt + k) = Inr x \<and> (\<forall>j < k. \<exists>e. send (attempt + j) = Inl e \<and> transient e))"
proof (induction left arbitrary: attempt le)
  case (Suc left)
  show ?case
  proof (cases "send attempt")
    case (Inl e)
    show ?thesis
    proof (cases "transient e")
      case True
      have "fst (request_attempts cfg random send (Suc left) attempt le) = Inr x \<longleftrightarrow>
          (\<exists>k < left. send (Suc attempt + k) = Inr x \<and> (\<forall>j < k. \<exists>e. send (Suc attempt + j) = Inl e \<and> transient e))"
        using True Inl Suc.IH[of "Suc attempt" "Some e"] by (simp add: transient_def Let_def)
      also have "\<dots> \<longleftrightarrow> (\<exists>k < Suc left. send (attempt + k) = Inr x \<and> (\<forall>j < k. \<exists>e. send (attempt + j) = Inl e \<and> transient e))"
        unfolding Ex_less_Suc2 using Inl True by (simp add: All_less_Suc2)
      finally show ?thesis .
    next
      case False
      then show ?thesis unfolding Ex_less_Suc2 using Inl by (auto simp: All_less_Suc2 transient_def Let_def)
    qed
  next
    case (Inr y)
    then show ?thesis unfolding Ex_less_Suc2 by (auto simp: All_less_Suc2)
  qed
qed simp

text \<open>
  A request returns a body exactly when one of the allowed attempts succeeds and every attempt before it failed with
  a transient error.
\<close>

lemma executeRequest_Inr:
  "fst (executeRequest cfg random send) = Inr x \<longleftrightarrow>
   (\<exists>k < rt_maxAttempts cfg. send k = Inr x \<and> (\<forall>j < k. \<exists>e. send j = Inl e \<and> transient e))"
  by (simp add: executeRequest_def request_attempts_Inr)

lemma request_attempts_pauses: "length (snd (request_attempts cfg random send left attempt le)) \<le> left"
proof (induction left arbitrary: attempt le)
  case (Suc left)
  show ?case
  proof (cases "send attempt")
    case (Inl e)
    then show ?thesis using Suc.IH[of "Suc attempt" "Some e"] by (simp add: Let_def)
  qed simp
qed simp

section \<open>Bulk inserts\<close>

lemma chunk_loop_Some: "0 < n \<Longrightarrow> \<exists>cs. chunk_loop xs n acc = Some (acc @ cs) \<and> concat cs = xs"
proof (induction "length xs" arbitrary: xs acc rule: less_induct)
  case less
  show ?case
  proof (cases "xs = []")
    case True
    then show ?thesis by (intro exI[of _ "[]"]) (simp add: chunk_loop.simps)
  next
    case False
    then have "length (drop n xs) < length xs" using less.prems by simp
    then obtain cs where "chunk_loop (drop n xs) n (acc @ [take n xs]) = Some ((acc @ [take n xs]) @ cs)" "concat cs = drop n xs"
      using less by blast
    then show ?thesis using False by (intro exI[of _ "take n xs # cs"]) (simp add: chunk_loop.simps[of xs])
  qed
qed

lemma chunkArray_Some: "0 < n \<Longrightarrow> \<exists>cs. chunkArray xs n = Some cs \<and> concat cs = xs"
  using chunk_loop_Some[of n xs "[]"] by (auto simp: chunkArray_def)

lemma chunkArray_zero: "xs \<noteq> [] \<Longrightarrow> chunkArray xs 0 = None"
proof -
  have "n = 0 \<longrightarrow> ys = []" if "chunk_loop ys n acc = Some r" for ys :: "'a list" and n acc r
    by (rule chunk_loop.raw_induct[OF _ that]) (metis drop0 option.inject)
  then show "xs \<noteq> [] \<Longrightarrow> chunkArray xs 0 = None" unfolding chunkArray_def by (cases "chunk_loop xs 0 []") auto
qed

text \<open>
  What a repository relies on: inserting a list of rows is inserting one part and then the other.  Then the size of
  the chunks does not matter.
\<close>

locale bulk_insert =
  fixes ins :: "'x list \<Rightarrow> 'r list \<Rightarrow> portal_error + 'r list"
  assumes ins_Nil: "ins [] t = Inr t"
    and ins_append: "ins (xs @ ys) t = (case ins xs t of Inl e \<Rightarrow> Inl e | Inr t' \<Rightarrow> ins ys t')"
begin

lemma insert_chunks_concat: "insert_chunks ins (map (map f) cs) t = ins (map f (concat cs)) t"
  by (induction cs arbitrary: t) (simp_all add: ins_Nil ins_append split: sum.split)

lemma createMany_any_chunk: "0 < n \<Longrightarrow> repo_createMany (repo_of ins f) items n t = Some (ins (map f items) t)"
  using chunkArray_Some[of n items] by (auto simp: repo_of_def insert_chunks_concat)

lemma ins_append_Inr: "ins (xs @ ys) t = Inr t'' \<longleftrightarrow> (\<exists>t'. ins xs t = Inr t' \<and> ins ys t' = Inr t'')"
  by (simp add: ins_append split: sum.split)

end

interpretation keyed: bulk_insert "insert_keyed pk" for pk :: "'r \<Rightarrow> 'k"
proof unfold_locales
  fix xs ys t :: "'r list"
  show "insert_keyed pk [] t = Inr t" by (simp add: insert_keyed_def)
  show "insert_keyed pk (xs @ ys) t = (case insert_keyed pk xs t of Inl e \<Rightarrow> Inl e | Inr t' \<Rightarrow> insert_keyed pk ys t')"
    unfolding insert_keyed_def by auto
qed

lemma number_rows_append: "number_rows n (xs @ ys) = number_rows n xs @ number_rows (n + length xs) ys"
  by (simp add: number_rows_def enumerate_append_eq)

lemma length_number_rows [simp]: "length (number_rows n xs) = length xs"
  by (simp add: number_rows_def)

interpretation numbered: bulk_insert insert_numbered
  by unfold_locales (simp_all add: insert_numbered_def number_rows_append, simp add: number_rows_def)

lemma insert_keyed_distinct: "distinct (map pk rows) \<Longrightarrow> insert_keyed pk rows [] = Inr rows"
  by (simp add: insert_keyed_def)

section \<open>A sync that meets no failure\<close>

text \<open>\<open>syncs_to m d d'\<close>: from local database \<open>d\<close>, the step returns and leaves \<open>d'\<close>.\<close>

definition syncs_to :: "unit sync \<Rightarrow> PortalDb \<Rightarrow> PortalDb \<Rightarrow> bool" where
  "syncs_to m d d' \<longleftrightarrow> (\<forall>store. \<exists>store'. m \<lparr>sw_store = store, sw_db = d\<rparr> = Some (Inr (), \<lparr>sw_store = store', sw_db = d'\<rparr>))"

lemma nt_then_run: "m w = Some (Inr x, w') \<Longrightarrow> nt_then m m' w = m' w'"
  by (simp add: nt_then_def nt_bind_def)

lemma syncs_then: "syncs_to m d d' \<Longrightarrow> syncs_to m' d' d'' \<Longrightarrow> syncs_to (nt_then m m') d d''"
  unfolding syncs_to_def by (metis nt_then_run)

lemma syncs_ret: "syncs_to (nt_lift (rs_ret ())) d d"
  by (simp add: syncs_to_def nt_lift_def rs_ret_def)

lemma syncs_fetch: "syncs_to (f x) d d' \<Longrightarrow> syncs_to (nt_bind (fetch_reply (Inr x)) f) d d'"
  by (simp add: syncs_to_def nt_bind_def fetch_reply_def nt_lift_def rs_lift_def)

lemma syncs_put: "se_putFailure env key = None \<Longrightarrow> syncs_to (sync_putObject env key obj) d d"
  by (simp add: syncs_to_def sync_putObject_def)

text \<open>What a paginated endpoint promises: pages numbered from one, each naming the next, the last naming none.\<close>

definition serves :: "(int \<Rightarrow> http_failure + 'a PageResult) \<Rightarrow> 'a list list \<Rightarrow> bool" where
  "serves fetch pages \<longleftrightarrow> pages \<noteq> [] \<and> (\<forall>i < length pages. fetch (int i + 1) =
     Inr \<lparr>pr_data = pages ! i, pr_current_page = int i + 1, pr_next_page = (if Suc i < length pages then Some (int i + 2) else None)\<rparr>)"

text \<open>A repository on one table of the database.\<close>

locale portal_table = bulk_insert ins
  for ins :: "'x list \<Rightarrow> 'r list \<Rightarrow> portal_error + 'r list" +
  fixes get :: "PortalDb \<Rightarrow> 'r list" and put :: "'r list \<Rightarrow> PortalDb \<Rightarrow> PortalDb" and row :: "'i \<Rightarrow> 'x"
  assumes get_put: "get (put t d) = t" and put_put: "put t (put t' d) = put t d"
begin

lemma syncs_store: "ins (map row items) (get d) = Inr t \<Longrightarrow> syncs_to (store_rows get put (repo_of ins row) items) d (put t d)"
  by (simp add: syncs_to_def store_rows_def createMany_any_chunk DEFAULT_CHUNK_SIZE_def)

lemma syncs_page_loop:
  assumes "serves fetch pages" "\<And>n. se_putFailure env (key n) = None" "i < length pages"
    and "ins (map row (concat (drop i pages))) (get d) = Inr t"
  shows "syncs_to (page_loop fetch
    (\<lambda>p. nt_then (sync_putObject env (key (pr_current_page p)) (obj p)) (store_rows get put (repo_of ins row) (pr_data p)))
    (Some (int i + 1))) d (put t d)" (is "syncs_to (page_loop fetch ?h _) _ _")
  using assms(3,4)
proof (induction "length pages - i" arbitrary: i d)
  case (Suc m)
  let ?next = "if Suc i < length pages then Some (int i + 2) else None"
  have f: "fetch (int i + 1) = Inr \<lparr>pr_data = pages ! i, pr_current_page = int i + 1, pr_next_page = ?next\<rparr>"
    using assms(1) Suc.prems by (simp add: serves_def)
  have "concat (drop i pages) = pages ! i @ concat (drop (Suc i) pages)" using Suc.prems by (simp flip: Cons_nth_drop_Suc)
  then obtain t' where t': "ins (map row (pages ! i)) (get d) = Inr t'" "ins (map row (concat (drop (Suc i) pages))) t' = Inr t"
    using Suc.prems(2) by (auto simp: ins_append_Inr)
  have h: "syncs_to (?h \<lparr>pr_data = pages ! i, pr_current_page = int i + 1, pr_next_page = ?next\<rparr>) d (put t' d)"
    using syncs_store[OF t'(1)] by (intro syncs_then[OF syncs_put]) (simp_all add: assms(2))
  have r: "syncs_to (page_loop fetch ?h ?next) (put t' d) (put t d)"
  proof (cases "Suc i < length pages")
    case True
    then have "syncs_to (page_loop fetch ?h (Some (int (Suc i) + 1))) (put t' d) (put t (put t' d))"
      using Suc.hyps t'(2) by (intro Suc.hyps(1)) (simp_all add: get_put)
    moreover have "int (Suc i) + 1 = int i + 2" by simp
    ultimately show ?thesis using True by (simp only: put_put if_True)
  next
    case False
    then show ?thesis using t'(2) by (simp add: ins_Nil syncs_to_def page_loop.simps)
  qed
  show ?case unfolding syncs_to_def
  proof
    fix store
    obtain s1 where "?h \<lparr>pr_data = pages ! i, pr_current_page = int i + 1, pr_next_page = ?next\<rparr> \<lparr>sw_store = store, sw_db = d\<rparr>
        = Some (Inr (), \<lparr>sw_store = s1, sw_db = put t' d\<rparr>)" using h unfolding syncs_to_def by blast
    then show "\<exists>store'. page_loop fetch ?h (Some (int i + 1)) \<lparr>sw_store = store, sw_db = d\<rparr> = Some (Inr (), \<lparr>sw_store = store', sw_db = put t d\<rparr>)"
      using r f by (subst page_loop.simps) (simp add: syncs_to_def)
  qed
qed simp

lemma syncs_pages:
  assumes "serves fetch pages" "\<And>n. se_putFailure env (page_key sid resource n) = None" "ins (map row (concat pages)) (get d) = Inr t"
  shows "syncs_to (sync_pages env sid resource obj get put (repo_of ins row) fetch) d (put t d)"
  using syncs_page_loop[OF assms(1), of env "page_key sid resource" 0 d t obj] assms(2) assms(1,3) by (simp add: sync_pages_def serves_def)

end

interpretation rounds: portal_table "insert_keyed rr_id" pd_rounds "\<lambda>t. pd_rounds_update (\<lambda>_. t)" normalizeRoundToRecord
  by unfold_locales simp_all

interpretation pools: portal_table "insert_keyed po_id" pd_pools "\<lambda>t. pd_pools_update (\<lambda>_. t)" normalizePoolToRecord
  by unfold_locales simp_all

interpretation proposals: portal_table "insert_keyed pp_id" pd_proposals "\<lambda>t. pd_proposals_update (\<lambda>_. t)"
    "\<lambda>(round_id, p). normalizeProposalToRecord round_id p"
  by unfold_locales simp_all

interpretation users: portal_table "insert_keyed ur_id" pd_users "\<lambda>t. pd_users_update (\<lambda>_. t)" normalizeUserToRecord
  by unfold_locales simp_all

interpretation milestones: portal_table insert_numbered pd_milestones "\<lambda>t. pd_milestones_update (\<lambda>_. t)" normalizeMilestoneToRecord
  by unfold_locales simp_all

interpretation reviews: portal_table insert_numbered pd_reviews "\<lambda>t. pd_reviews_update (\<lambda>_. t)" normalizeReviewToRecord
  by unfold_locales simp_all

interpretation comments: portal_table "insert_keyed cr_commentId" pd_comments "\<lambda>t. pd_comments_update (\<lambda>_. t)" normalizeCommentToRecord
  by unfold_locales simp_all

interpretation votes: portal_table "insert_keyed (\<lambda>v. (vt_voter_id v, vt_comment_id v))" pd_commentVotes
    "\<lambda>t. pd_commentVotes_update (\<lambda>_. t)" normalizeCommentVoteToRecord
  by unfold_locales simp_all

lemmas repo_defs = createRoundsRepo_def createPoolsRepo_def createProposalsRepo_def createUsersRepo_def createMilestonesRepo_def
  createReviewsRepo_def createCommentsRepo_def createCommentVotesRepo_def

text \<open>What the portal holds, page by page.\<close>

record PortalContent =
  pc_rounds :: "Round list"
  pc_proposals :: "int \<Rightarrow> Proposal list"
  pc_pools :: "Pool list"
  pc_milestones :: "MilestoneGroup list list"
  pc_reviews :: "Review list list"
  pc_comments :: "Comment list list"
  pc_commentVotes :: "CommentVote list list"
  pc_users :: "User list list"

definition serves_content :: "SyncEnv \<Rightarrow> PortalContent \<Rightarrow> bool" where
  "serves_content env c \<longleftrightarrow> se_rounds env = Inr (pc_rounds c) \<and> (\<forall>r \<in> set (pc_rounds c). se_proposals env (ro_id r) = Inr (pc_proposals c (ro_id r)))
     \<and> mset (se_order env (pc_rounds c)) = mset (pc_rounds c)
     \<and> se_pools env = Inr (pc_pools c) \<and> serves (se_milestones env) (pc_milestones c) \<and> serves (se_reviews env) (pc_reviews c)
     \<and> serves (se_comments env) (pc_comments c) \<and> serves (se_commentVotes env) (pc_commentVotes c) \<and> serves (se_users env) (pc_users c)"

text \<open>The database that holds all of it.\<close>

definition proposal_rows :: "PortalContent \<Rightarrow> Round list \<Rightarrow> ProposalRecord list" where
  "proposal_rows c rs = concat (map (\<lambda>r. map (normalizeProposalToRecord (ro_id r)) (pc_proposals c (ro_id r))) rs)"

definition content_db :: "PortalContent \<Rightarrow> Round list \<Rightarrow> PortalDb" where
  "content_db c order =
     \<lparr>pd_rounds = map normalizeRoundToRecord (pc_rounds c), pd_pools = map normalizePoolToRecord (pc_pools c),
      pd_proposals = proposal_rows c order, pd_users = map normalizeUserToRecord (concat (pc_users c)),
      pd_milestones = number_rows 0 (map normalizeMilestoneToRecord (flattenedMilestones (concat (pc_milestones c)))),
      pd_reviews = number_rows 0 (map normalizeReviewToRecord (concat (pc_reviews c))),
      pd_comments = map normalizeCommentToRecord (concat (pc_comments c)),
      pd_commentVotes = map normalizeCommentVoteToRecord (concat (pc_commentVotes c))\<rparr>"

definition unique_ids :: "PortalContent \<Rightarrow> bool" where
  "unique_ids c \<longleftrightarrow> distinct (map ro_id (pc_rounds c)) \<and> distinct (map po_id (pc_pools c))
     \<and> distinct (map pp_id (proposal_rows c (pc_rounds c)))
     \<and> distinct (map us_id (concat (pc_users c))) \<and> distinct (map cm_comment_id (concat (pc_comments c)))
     \<and> distinct (map (\<lambda>v. (vt_voter_id v, vt_comment_id v)) (concat (pc_commentVotes c)))"

lemma normalized_ids:
  "rr_id (normalizeRoundToRecord r) = ro_id r" "po_id (normalizePoolToRecord p) = po_id p"
  "ur_id (normalizeUserToRecord u) = us_id u" "cr_commentId (normalizeCommentToRecord cm) = cm_comment_id cm"
  "vt_voter_id (normalizeCommentVoteToRecord v) = vt_voter_id v" "vt_comment_id (normalizeCommentVoteToRecord v) = vt_comment_id v"
  by (simp_all add: normalizeRoundToRecord_def normalizePoolToRecord_def normalizeUserToRecord_def normalizeCommentToRecord_def
      normalizeCommentVoteToRecord_def)

lemma insert_all: "distinct (map (pk \<circ> f) items) \<Longrightarrow> insert_keyed pk (map f items) [] = Inr (map f items)"
  by (simp add: insert_keyed_distinct)

lemma distinct_order:
  assumes "mset rs = mset rs'" "distinct (map pp_id (proposal_rows c rs'))"
  shows "distinct (map pp_id (proposal_rows c rs))"
proof -
  have "mset (map pp_id (proposal_rows c xs)) = (\<Sum>r \<in># mset xs. mset (map pp_id (map (normalizeProposalToRecord (ro_id r)) (pc_proposals c (ro_id r)))))"
    for xs by (induction xs) (simp_all add: proposal_rows_def)
  then have "mset (map pp_id (proposal_rows c rs)) = mset (map pp_id (proposal_rows c rs'))" using assms(1) by metis
  then show ?thesis using assms(2) by (metis mset_eq_imp_distinct_iff)
qed

lemma syncs_proposals:
  assumes "\<forall>r \<in> set rs. se_proposals env (ro_id r) = Inr (pc_proposals c (ro_id r))" "\<And>name. name \<noteq> ''manifest.json'' \<Longrightarrow> se_putFailure env (raw_key sid name) = None"
    and "insert_keyed pp_id (proposal_rows c rs) (pd_proposals d) = Inr t"
  shows "syncs_to (sync_proposals env sid rs) d (d\<lparr>pd_proposals := t\<rparr>)"
  using assms(1,3)
proof (induction rs arbitrary: d)
  case Nil
  then have "d\<lparr>pd_proposals := t\<rparr> = d" by (cases d) (simp add: proposal_rows_def insert_keyed_def)
  then show ?case using syncs_ret[of d] by simp
next
  case (Cons r rs)
  let ?items = "map (Pair (ro_id r)) (pc_proposals c (ro_id r))"
  have m: "map (\<lambda>(round_id, p). normalizeProposalToRecord round_id p) ?items = map (normalizeProposalToRecord (ro_id r)) (pc_proposals c (ro_id r))"
    by simp
  have "insert_keyed pp_id (map (normalizeProposalToRecord (ro_id r)) (pc_proposals c (ro_id r)) @ proposal_rows c rs) (pd_proposals d) = Inr t"
    using Cons.prems(2) by (simp add: proposal_rows_def)
  then obtain t' where t': "insert_keyed pp_id (map (normalizeProposalToRecord (ro_id r)) (pc_proposals c (ro_id r))) (pd_proposals d) = Inr t'"
    "insert_keyed pp_id (proposal_rows c rs) t' = Inr t" by (auto simp: keyed.ins_append_Inr)
  have "syncs_to (store_rows pd_proposals (\<lambda>t. pd_proposals_update (\<lambda>_. t)) createProposalsRepo ?items) d (d\<lparr>pd_proposals := t'\<rparr>)"
    unfolding createProposalsRepo_def using t'(1) by (intro proposals.syncs_store) (simp only: m)
  moreover have "syncs_to (sync_proposals env sid rs) (d\<lparr>pd_proposals := t'\<rparr>) (d\<lparr>pd_proposals := t\<rparr>)"
    using Cons.IH[of "d\<lparr>pd_proposals := t'\<rparr>"] Cons.prems(1) t'(2) by simp
  ultimately show ?case using Cons.prems(1) assms(2) by (simp only: sync_proposals.simps list.set_intros) (intro syncs_fetch syncs_then[OF syncs_put] syncs_then, simp_all add: path_not_manifest)
qed

lemma serves_milestones:
  assumes "serves get pages"
  shows "serves (fetchMilestones get) (map flattenedMilestones pages)"
  using assms by (simp add: serves_def fetchMilestones_def)

lemma concat_flattened: "concat (map flattenedMilestones pages) = flattenedMilestones (concat pages)"
  by (induction pages) (simp_all add: flattenedMilestones_def)

lemma syncs_rounds:
  assumes "serves_content env c" "unique_ids c" "\<And>name. name \<noteq> ''manifest.json'' \<Longrightarrow> se_putFailure env (raw_key sid name) = None"
  shows "syncs_to (sync_rounds env sid) createDb
    (createDb\<lparr>pd_rounds := map normalizeRoundToRecord (pc_rounds c), pd_proposals := proposal_rows c (se_order env (pc_rounds c))\<rparr>)"
proof -
  let ?d = "createDb\<lparr>pd_rounds := map normalizeRoundToRecord (pc_rounds c)\<rparr>"
  have r: "insert_keyed rr_id (map normalizeRoundToRecord (pc_rounds c)) (pd_rounds createDb) = Inr (map normalizeRoundToRecord (pc_rounds c))"
    using assms(2) by (simp add: createDb_def insert_all unique_ids_def comp_def normalized_ids)
  have m: "mset (se_order env (pc_rounds c)) = mset (pc_rounds c)" using assms(1) by (simp add: serves_content_def)
  have "distinct (map pp_id (proposal_rows c (se_order env (pc_rounds c))))"
    using distinct_order[OF m] assms(2) by (simp add: unique_ids_def)
  then have p: "insert_keyed pp_id (proposal_rows c (se_order env (pc_rounds c))) (pd_proposals ?d) = Inr (proposal_rows c (se_order env (pc_rounds c)))"
    by (simp add: createDb_def insert_keyed_distinct)
  have q: "\<forall>r \<in> set (se_order env (pc_rounds c)). se_proposals env (ro_id r) = Inr (pc_proposals c (ro_id r))"
    using assms(1) m by (metis serves_content_def mset_eq_setD)
  have f: "se_rounds env = Inr (pc_rounds c)" using assms(1) by (simp add: serves_content_def)
  show ?thesis unfolding sync_rounds_def f createRoundsRepo_def
    by (intro syncs_fetch syncs_then[OF syncs_put] syncs_then[OF rounds.syncs_store[OF r]] syncs_proposals[OF q _ p]) (simp_all add: assms(3))
qed

lemma insert_numbered_empty: "insert_numbered rows [] = Inr (number_rows 0 rows)"
  by (simp add: insert_numbered_def)

lemma syncs_resources:
  assumes "serves_content env c" "unique_ids c" "\<And>name. name \<noteq> ''manifest.json'' \<Longrightarrow> se_putFailure env (raw_key sid name) = None"
  shows "syncs_to (sync_resources env sid) createDb (content_db c (se_order env (pc_rounds c)))"
proof -
  have k: "\<And>resource n. se_putFailure env (page_key sid resource n) = None" by (simp add: page_key_def assms(3) path_not_manifest)
  note u = assms(2)[unfolded unique_ids_def]
  have f: "se_pools env = Inr (pc_pools c)" and sv: "serves (se_milestones env) (pc_milestones c)" "serves (se_reviews env) (pc_reviews c)"
    "serves (se_comments env) (pc_comments c)" "serves (se_commentVotes env) (pc_commentVotes c)" "serves (se_users env) (pc_users c)"
    using assms(1) by (simp_all add: serves_content_def)
  let ?d0 = "createDb\<lparr>pd_rounds := map normalizeRoundToRecord (pc_rounds c), pd_proposals := proposal_rows c (se_order env (pc_rounds c))\<rparr>"
  let ?d1 = "?d0\<lparr>pd_pools := map normalizePoolToRecord (pc_pools c)\<rparr>"
  let ?d2 = "?d1\<lparr>pd_milestones := number_rows 0 (map normalizeMilestoneToRecord (concat (map flattenedMilestones (pc_milestones c))))\<rparr>"
  let ?d3 = "?d2\<lparr>pd_reviews := number_rows 0 (map normalizeReviewToRecord (concat (pc_reviews c)))\<rparr>"
  let ?d4 = "?d3\<lparr>pd_comments := map normalizeCommentToRecord (concat (pc_comments c))\<rparr>"
  let ?d5 = "?d4\<lparr>pd_commentVotes := map normalizeCommentVoteToRecord (concat (pc_commentVotes c))\<rparr>"
  let ?d6 = "?d5\<lparr>pd_users := map normalizeUserToRecord (concat (pc_users c))\<rparr>"
  have 1: "syncs_to (sync_pools env sid) ?d0 ?d1"
    unfolding sync_pools_def f createPoolsRepo_def
    by (intro syncs_fetch syncs_then[OF syncs_put] pools.syncs_store)
      (use u in \<open>simp_all add: assms(3) createDb_def insert_all comp_def normalized_ids\<close>)
  have 2: "syncs_to (sync_pages env sid ''milestones'' MilestonesPage pd_milestones (\<lambda>t. pd_milestones_update (\<lambda>_. t)) createMilestonesRepo
      (fetchMilestones (se_milestones env))) ?d1 ?d2"
    unfolding createMilestonesRepo_def
    by (rule milestones.syncs_pages[OF serves_milestones[OF sv(1)] k]) (simp add: createDb_def insert_numbered_empty)
  have 3: "syncs_to (sync_pages env sid ''reviews'' ReviewsPage pd_reviews (\<lambda>t. pd_reviews_update (\<lambda>_. t)) createReviewsRepo (se_reviews env)) ?d2 ?d3"
    unfolding createReviewsRepo_def by (rule reviews.syncs_pages[OF sv(2) k]) (simp add: createDb_def insert_numbered_empty)
  have 4: "syncs_to (sync_pages env sid ''comments'' CommentsPage pd_comments (\<lambda>t. pd_comments_update (\<lambda>_. t)) createCommentsRepo (se_comments env)) ?d3 ?d4"
    unfolding createCommentsRepo_def
    by (rule comments.syncs_pages[OF sv(3) k]) (use u in \<open>simp add: createDb_def insert_all comp_def normalized_ids\<close>)
  have 5: "syncs_to (sync_pages env sid ''comment_votes'' CommentVotesPage pd_commentVotes (\<lambda>t. pd_commentVotes_update (\<lambda>_. t))
      createCommentVotesRepo (se_commentVotes env)) ?d4 ?d5"
    unfolding createCommentVotesRepo_def
    by (rule votes.syncs_pages[OF sv(4) k]) (use u in \<open>simp add: createDb_def insert_all comp_def normalized_ids\<close>)
  have 6: "syncs_to (sync_pages env sid ''users'' UsersPage pd_users (\<lambda>t. pd_users_update (\<lambda>_. t)) createUsersRepo (se_users env)) ?d5 ?d6"
    unfolding createUsersRepo_def
    by (rule users.syncs_pages[OF sv(5) k]) (use u in \<open>simp add: createDb_def insert_all comp_def normalized_ids\<close>)
  have "?d6 = content_db c (se_order env (pc_rounds c))" by (simp add: content_db_def createDb_def concat_flattened)
  then show ?thesis unfolding sync_resources_def
    using syncs_then[OF syncs_rounds[OF assms] syncs_then[OF 1 syncs_then[OF 2 syncs_then[OF 3 syncs_then[OF 4 syncs_then[OF 5 6]]]]]] by simp
qed

lemma sync_resources_run:
  assumes "serves_content env c" "unique_ids c" "\<And>name. name \<noteq> ''manifest.json'' \<Longrightarrow> se_putFailure env (raw_key sid name) = None"
    and "se_headFailure env = None" "sw_store w (db_key sid) = None"
  shows "\<exists>store. deepfunding_sync env sid w = sync_upload env sid \<lparr>sw_store = store, sw_db = content_db c (se_order env (pc_rounds c))\<rparr>
    \<and> (\<exists>r. sync_resources env sid (w\<lparr>sw_db := createDb\<rparr>) = Some (r, \<lparr>sw_store = store, sw_db = content_db c (se_order env (pc_rounds c))\<rparr>))"
proof -
  have w: "w\<lparr>sw_db := createDb\<rparr> = \<lparr>sw_store = sw_store w, sw_db = createDb\<rparr>" by (cases w) simp
  obtain store where s: "sync_resources env sid \<lparr>sw_store = sw_store w, sw_db = createDb\<rparr>
      = Some (Inr (), \<lparr>sw_store = store, sw_db = content_db c (se_order env (pc_rounds c))\<rparr>)"
    using syncs_resources[OF assms(1-3)] unfolding syncs_to_def by blast
  then show ?thesis unfolding deepfunding_sync_def w
    using assms(4,5) by (intro exI[of _ store]) (simp add: verify_db_def is_not_found_def nt_then_run)
qed

text \<open>
  C23: When the portal serves its pages one after the other, identifiers are unique in each table and no storage
  request fails, a first sync returns, whatever the number and the size of the pages and whatever the order in which
  the rounds complete.  The database object it leaves holds exactly one row for every item of every page, and the
  manifest stands beside it.
\<close>

theorem portal_sync_stores_everything:
  assumes "serves_content env c" "unique_ids c" "\<And>key. se_putFailure env key = None"
    and "se_headFailure env = None" "sw_store w (db_key sid) = None"
  shows "\<exists>w'. deepfunding_sync env sid w = Some (Inr (db_key sid, manifest_key sid), w')
    \<and> sw_store w' (db_key sid) = Some (DbFile (content_db c (se_order env (pc_rounds c)))) \<and> sw_store w' (manifest_key sid) \<noteq> None"
proof -
  have "db_key sid \<noteq> manifest_key sid" by (simp add: db_key_def manifest_key_def generateKey_def)
  then show ?thesis using sync_resources_run[OF assms(1,2) assms(3) assms(4,5)]
    by (auto simp: sync_upload_def nt_then_def nt_bind_def sync_putObject_def assms(3) nt_lift_def rs_ret_def)
qed

subsection \<open>A small portal\<close>

definition demo_page :: "'a list \<Rightarrow> 'a PageResult" where
  "demo_page xs = \<lparr>pr_data = xs, pr_current_page = 1, pr_next_page = None\<rparr>"

definition demo_user :: User where
  "demo_user = \<lparr>us_id = 7, us_collection_id = ''c'', us_user_name = ''n'', us_email = ''e'', us_total_proposals = 0, us_did = JStr '' abc ''\<rparr>"

definition demo_content :: PortalContent where
  "demo_content = \<lparr>pc_rounds = [], pc_proposals = (\<lambda>_. []), pc_pools = [], pc_milestones = [[]], pc_reviews = [[]], pc_comments = [[]],
     pc_commentVotes = [[]], pc_users = [[demo_user]]\<rparr>"

definition demo_sync_env :: "(string \<Rightarrow> storage_error option) \<Rightarrow> SyncEnv" where
  "demo_sync_env fails = \<lparr>se_rounds = Inr [], se_proposals = (\<lambda>_. Inr []), se_pools = Inr [], se_milestones = (\<lambda>_. Inr (demo_page [])),
     se_reviews = (\<lambda>_. Inr (demo_page [])), se_comments = (\<lambda>_. Inr (demo_page [])), se_commentVotes = (\<lambda>_. Inr (demo_page [])),
     se_users = (\<lambda>_. Inr (demo_page [demo_user])), se_order = (\<lambda>rs. rs), se_headFailure = None, se_putFailure = fails,
     se_size = (\<lambda>_. 1), se_maxSizeBytes = 10, se_startedAt = ''a'', se_completedAt = ''b''\<rparr>"

definition empty_world :: sync_world where
  "empty_world = \<lparr>sw_store = Map.empty, sw_db = createDb\<rparr>"

lemma demo_served: "serves_content (demo_sync_env fails) demo_content" "unique_ids demo_content"
  by (simp_all add: serves_content_def demo_sync_env_def demo_content_def serves_def demo_page_def unique_ids_def proposal_rows_def)

theorem portal_sync_stores_everything_witness:
  "\<exists>w'. deepfunding_sync (demo_sync_env (\<lambda>_. None)) ''s'' empty_world = Some (Inr (db_key ''s'', manifest_key ''s''), w')
    \<and> sw_store w' (db_key ''s'') = Some (DbFile (content_db demo_content [])) \<and> sw_store w' (manifest_key ''s'') \<noteq> None"
  using portal_sync_stores_everything[OF demo_served, of "\<lambda>_. None" empty_world "''s''"]
  by (simp add: demo_sync_env_def empty_world_def demo_content_def)

section \<open>A sync that fails\<close>

definition nt_keeps :: "('s \<Rightarrow> bool) \<Rightarrow> ('s, 'e, 'a) nt \<Rightarrow> bool" where
  "nt_keeps I m \<longleftrightarrow> (\<forall>s r s'. I s \<longrightarrow> m s = Some (r, s') \<longrightarrow> I s')"

lemma nt_keeps_lift: "keeps_inv I m \<Longrightarrow> nt_keeps I (nt_lift m)"
  by (auto simp: nt_keeps_def nt_lift_def dest: keeps_invD)

lemma nt_keepsD: "nt_keeps I m \<Longrightarrow> I s \<Longrightarrow> m s = Some (r, s') \<Longrightarrow> I s'"
  unfolding nt_keeps_def by blast

lemma nt_keeps_bind:
  assumes m: "nt_keeps I m" and f: "\<And>x. nt_keeps I (f x)"
  shows "nt_keeps I (nt_bind m f)"
  unfolding nt_keeps_def
proof (intro allI impI)
  fix s r s' assume s: "I s" and run: "nt_bind m f s = Some (r, s')"
  obtain o' s1 where o: "m s = Some (o', s1)" using run by (cases "m s") (auto simp: nt_bind_def)
  then have "I s1" using nt_keepsD[OF m s] by blast
  then show "I s'" using run o nt_keepsD[OF f] by (cases o') (auto simp: nt_bind_def)
qed

lemma nt_keeps_then: "nt_keeps I m \<Longrightarrow> nt_keeps I m' \<Longrightarrow> nt_keeps I (nt_then m m')"
  by (simp add: nt_then_def nt_keeps_bind)

lemma nt_keeps_fetch: "nt_keeps I (fetch_reply r)"
  by (simp add: fetch_reply_def nt_keeps_lift keeps_rules)

lemma page_loop_keeps:
  assumes "\<And>p. nt_keeps I (handle p)"
  shows "nt_keeps I (page_loop fetch handle next)"
proof -
  have "h = handle \<longrightarrow> I w \<longrightarrow> I (snd r)" if "page_loop f h n w = Some r" for f h n w r
  proof (rule page_loop.raw_induct[OF _ that], intro impI)
    fix loop and fetch' :: "int \<Rightarrow> http_failure + 'a PageResult" and handle' n w r
    assume IH: "\<And>f h n w r. loop f h n w = Some r \<Longrightarrow> h = handle \<longrightarrow> I w \<longrightarrow> I (snd r)" and h: "handle' = handle" and w: "I w"
      and run: "(case n of None \<Rightarrow> Some (Inr (), w)
        | Some page \<Rightarrow> (case fetch' page of Inl e \<Rightarrow> Some (Inl (HttpFailure e), w)
          | Inr p \<Rightarrow> (case handle' p w of None \<Rightarrow> None | Some (Inl e, w') \<Rightarrow> Some (Inl e, w')
            | Some (Inr _, w') \<Rightarrow> loop fetch' handle' (pr_next_page p) w'))) = Some r"
    show "I (snd r)"
    proof (cases "\<exists>page p o' w'. n = Some page \<and> fetch' page = Inr p \<and> handle p w = Some (o', w')")
      case True
      then obtain page p o' w' where o: "n = Some page" "fetch' page = Inr p" "handle p w = Some (o', w')" by blast
      then have "I w'" using assms w unfolding nt_keeps_def by blast
      then show ?thesis using run o h IH by (cases o') auto
    next
      case False
      then show ?thesis using run w h by (auto split: option.splits sum.splits prod.splits)
    qed
  qed
  then show ?thesis unfolding nt_keeps_def by fastforce
qed

definition absent :: "string \<Rightarrow> sync_world \<Rightarrow> bool" where
  "absent key w \<longleftrightarrow> sw_store w key = None"

text \<open>The keys that hold what the portal sent are neither that of the database nor that of the manifest.\<close>

definition no_raw_key :: "string \<Rightarrow> string \<Rightarrow> bool" where
  "no_raw_key sid key \<longleftrightarrow> (\<forall>name. name \<noteq> ''manifest.json'' \<longrightarrow> key \<noteq> raw_key sid name)"

lemma no_raw_keys: "no_raw_key sid (db_key sid)" "no_raw_key sid (manifest_key sid)"
  by (simp_all add: no_raw_key_def raw_key_def db_key_def manifest_key_def generateKey_def)

lemma put_keeps_absent: "no_raw_key sid key \<Longrightarrow> name \<noteq> ''manifest.json'' \<Longrightarrow> nt_keeps (absent key) (sync_putObject env (raw_key sid name) obj)"
  by (auto simp: nt_keeps_def sync_putObject_def absent_def no_raw_key_def split: option.splits)

lemma store_keeps_absent: "nt_keeps (absent key) (store_rows get put repo items)"
  by (auto simp: nt_keeps_def store_rows_def absent_def split: option.splits sum.splits)

lemma pages_keep_absent: "no_raw_key sid key \<Longrightarrow> nt_keeps (absent key) (sync_pages env sid resource obj get put repo fetch)"
  unfolding sync_pages_def page_key_def
  by (intro page_loop_keeps nt_keeps_then put_keeps_absent store_keeps_absent path_not_manifest) simp_all

lemma proposals_keep_absent: "no_raw_key sid key \<Longrightarrow> nt_keeps (absent key) (sync_proposals env sid rs)"
proof (induction rs)
  case (Cons r rs)
  show ?case unfolding sync_proposals.simps
    by (intro nt_keeps_then nt_keeps_bind nt_keeps_fetch put_keeps_absent store_keeps_absent path_not_manifest Cons.IH Cons.prems) simp
qed (simp add: nt_keeps_lift keeps_rules)

lemma resources_keep_absent: "no_raw_key sid key \<Longrightarrow> nt_keeps (absent key) (sync_resources env sid)"
  unfolding sync_resources_def sync_rounds_def sync_pools_def
  by (intro nt_keeps_then nt_keeps_bind nt_keeps_fetch put_keeps_absent store_keeps_absent pages_keep_absent proposals_keep_absent) simp_all

lemma upload_failure:
  assumes "sync_upload env sid w = Some (Inl e, w')" "absent (db_key sid) w"
  shows "absent (db_key sid) w' \<or> (\<exists>e'. e = StorageFailure e' \<and> se_putFailure env (manifest_key sid) = Some e')"
  using assms by (auto simp: sync_upload_def nt_then_def nt_bind_def sync_putObject_def nt_lift_def rs_ret_def split: option.splits)

text \<open>
  C26: A sync that fails leaves no database object behind, so that the next attempt starts over instead of accepting a
  partial copy; the one exception is a failure to store the manifest, the last step, when the copy is complete.
\<close>

theorem failed_sync_leaves_no_database:
  assumes "deepfunding_sync env sid w = Some (Inl e, w')" "sw_store w (db_key sid) = None"
  shows "sw_store w' (db_key sid) = None \<or> (\<exists>e'. e = StorageFailure e' \<and> se_putFailure env (manifest_key sid) = Some e')"
proof -
  have a: "absent (db_key sid) w" "absent (db_key sid) (w\<lparr>sw_db := createDb\<rparr>)" using assms(2) by (simp_all add: absent_def)
  consider "w' = w" | "nt_then (sync_resources env sid) (sync_upload env sid) (w\<lparr>sw_db := createDb\<rparr>) = Some (Inl e, w')"
    using assms(1) by (auto simp: deepfunding_sync_def split: sum.splits if_splits)
  then show ?thesis
  proof cases
    case 2
    then obtain r w1 where w1: "sync_resources env sid (w\<lparr>sw_db := createDb\<rparr>) = Some (r, w1)" "w1 = w' \<or> sync_upload env sid w1 = Some (Inl e, w')"
      by (fastforce simp: nt_then_def nt_bind_def split: option.splits sum.splits prod.splits)
    then have "absent (db_key sid) w1" using resources_keep_absent[OF no_raw_keys(1)] a(2) unfolding nt_keeps_def by blast
    then show ?thesis using w1(2) upload_failure unfolding absent_def by blast
  qed (use a in \<open>simp add: absent_def\<close>)
qed

definition demo_outage :: "string \<Rightarrow> storage_error option" where
  "demo_outage key = (if key = db_key ''s'' then Some (S3Error ''down'') else None)"

lemma demo_outage_fails:
  "\<exists>w'. deepfunding_sync (demo_sync_env demo_outage) ''s'' empty_world = Some (Inl (StorageFailure (S3Error ''down'')), w')"
proof -
  have "name \<noteq> ''manifest.json'' \<Longrightarrow> se_putFailure (demo_sync_env demo_outage) (raw_key ''s'' name) = None" for name
    using no_raw_keys(1)[of "''s''"] by (auto simp: demo_sync_env_def demo_outage_def no_raw_key_def)
  then obtain store where "deepfunding_sync (demo_sync_env demo_outage) ''s'' empty_world
      = sync_upload (demo_sync_env demo_outage) ''s'' \<lparr>sw_store = store, sw_db = content_db demo_content []\<rparr>"
    using sync_resources_run[OF demo_served, where w = empty_world and sid = "''s''"] by (auto simp: demo_sync_env_def empty_world_def demo_content_def)
  then show ?thesis by (simp add: sync_upload_def nt_then_def nt_bind_def sync_putObject_def demo_sync_env_def demo_outage_def)
qed

theorem failed_sync_leaves_no_database_witness:
  "\<exists>w'. deepfunding_sync (demo_sync_env demo_outage) ''s'' empty_world = Some (Inl (StorageFailure (S3Error ''down'')), w')
    \<and> sw_store w' (db_key ''s'') = None"
proof -
  have n: "db_key ''s'' \<noteq> manifest_key ''s''" by (simp add: db_key_def manifest_key_def generateKey_def)
  obtain w' where w: "deepfunding_sync (demo_sync_env demo_outage) ''s'' empty_world = Some (Inl (StorageFailure (S3Error ''down'')), w')"
    using demo_outage_fails by blast
  have "sw_store empty_world (db_key ''s'') = None" by (simp add: empty_world_def)
  moreover have "se_putFailure (demo_sync_env demo_outage) (manifest_key ''s'') = None" using n by (simp add: demo_sync_env_def demo_outage_def)
  ultimately show ?thesis using failed_sync_leaves_no_database[OF w] w by auto
qed

text \<open>
  C38: The attempt after a failure to store the manifest finds the database, skips the sync and reports the key of a
  manifest that does not exist.
\<close>

theorem resumed_sync_lacks_manifest:
  assumes "serves_content env c" "unique_ids c" "\<And>key. key \<noteq> manifest_key sid \<Longrightarrow> se_putFailure env key = None"
    and "se_putFailure env (manifest_key sid) = Some e" "se_headFailure env = None"
    and "sw_store w (db_key sid) = None" "sw_store w (manifest_key sid) = None"
    and "se_size env (DbFile (content_db c (se_order env (pc_rounds c)))) \<le> se_maxSizeBytes env"
  shows "\<exists>w'. deepfunding_sync env sid w = Some (Inl (StorageFailure e), w')
    \<and> deepfunding_sync env sid w' = Some (Inr (db_key sid, manifest_key sid), w') \<and> sw_store w' (manifest_key sid) = None"
proof -
  have nk: "manifest_key sid \<noteq> db_key sid" "\<And>name. name \<noteq> ''manifest.json'' \<Longrightarrow> raw_key sid name \<noteq> manifest_key sid"
    using no_raw_keys(2)[of sid] by (auto simp: no_raw_key_def db_key_def manifest_key_def generateKey_def)
  let ?db = "content_db c (se_order env (pc_rounds c))"
  obtain store r where run: "deepfunding_sync env sid w = sync_upload env sid \<lparr>sw_store = store, sw_db = ?db\<rparr>"
    and res: "sync_resources env sid (w\<lparr>sw_db := createDb\<rparr>) = Some (r, \<lparr>sw_store = store, sw_db = ?db\<rparr>)"
    using sync_resources_run[OF assms(1,2) _ assms(5,6)] assms(3) nk(2) by blast
  have "absent (manifest_key sid) (w\<lparr>sw_db := createDb\<rparr>)" using assms(7) by (simp add: absent_def)
  then have m: "store (manifest_key sid) = None"
    using resources_keep_absent[OF no_raw_keys(2), of sid env] res unfolding nt_keeps_def absent_def by (metis sync_world.select_convs(1))
  let ?w = "\<lparr>sw_store = store(db_key sid \<mapsto> DbFile ?db), sw_db = ?db\<rparr>"
  have "deepfunding_sync env sid w = Some (Inl (StorageFailure e), ?w)"
    unfolding run using assms(3)[of "db_key sid"] assms(4) nk(1) by (simp add: sync_upload_def nt_then_def nt_bind_def sync_putObject_def)
  moreover have "deepfunding_sync env sid ?w = Some (Inr (db_key sid, manifest_key sid), ?w)"
    using assms(5,8) by (simp add: deepfunding_sync_def verify_db_def)
  ultimately show ?thesis using m nk(1) by (intro exI[of _ ?w]) simp
qed

definition manifest_outage :: "string \<Rightarrow> storage_error option" where
  "manifest_outage key = (if key = manifest_key ''s'' then Some (S3Error ''down'') else None)"

theorem resumed_sync_lacks_manifest_witness:
  "\<exists>w'. deepfunding_sync (demo_sync_env manifest_outage) ''s'' empty_world = Some (Inl (StorageFailure (S3Error ''down'')), w')
    \<and> deepfunding_sync (demo_sync_env manifest_outage) ''s'' w' = Some (Inr (db_key ''s'', manifest_key ''s''), w')
    \<and> sw_store w' (manifest_key ''s'') = None"
  by (rule resumed_sync_lacks_manifest[OF demo_served]) (simp_all add: demo_sync_env_def manifest_outage_def empty_world_def)

section \<open>Canonical DIDs\<close>

lemma js_trim_outer: "x \<noteq> [] \<Longrightarrow> \<not> js_is_space (hd x) \<Longrightarrow> \<not> js_is_space (last x) \<Longrightarrow> js_trim x = x"
proof -
  assume x: "x \<noteq> []" "\<not> js_is_space (hd x)" "\<not> js_is_space (last x)"
  have "dropWhile js_is_space x = x" using x by (cases x) auto
  moreover have "dropWhile js_is_space (rev x) = rev x" using x by (cases x rule: rev_cases) auto
  ultimately show ?thesis by (simp add: js_trim_def)
qed

lemma js_trim_last: "js_trim s \<noteq> [] \<Longrightarrow> \<not> js_is_space (last (js_trim s))"
  by (metis hd_dropWhile js_trim_def last_rev rev_is_Nil_conv)

lemma canonical_did_fixed: "js_startsWith d ''did:'' \<Longrightarrow> js_trim d = d \<Longrightarrow> toCanonicalPortalDid (JStr d) = d"
  by (auto simp: toCanonicalPortalDid_def Let_def js_startsWith_def)

text \<open>Whatever the portal sends, the stored DID is blank or carries a method, and storing it again changes nothing.\<close>

lemma canonical_did_idempotent:
  "(toCanonicalPortalDid raw = [] \<or> js_startsWith (toCanonicalPortalDid raw) ''did:'')
   \<and> toCanonicalPortalDid (JStr (toCanonicalPortalDid raw)) = toCanonicalPortalDid raw"
proof (cases "\<exists>s. raw = JStr s \<and> js_trim s \<noteq> []")
  case True
  then obtain s where s: "raw = JStr s" "js_trim s \<noteq> []" by blast
  have "js_trim (''did:plc:'' @ js_trim s) = ''did:plc:'' @ js_trim s"
    using s(2) js_trim_last[OF s(2)] by (intro js_trim_outer) (simp_all add: js_is_space_def)
  then show ?thesis using s canonical_did_fixed by (auto simp: toCanonicalPortalDid_def Let_def js_startsWith_def)
next
  case False
  then show ?thesis by (cases raw) (auto simp: toCanonicalPortalDid_def Let_def js_trim_def)
qed

end
