(* ===== verification/Portal_Scores.thy ===== *)
theory Portal_Scores
  imports Portal_Data Orchestrator_Inputs
begin

text \<open>
  The two algorithms over the portal database: \<^verbatim>\<open>contribution_score\<close> and \<^verbatim>\<open>proposal_engagement\<close> (\<^verbatim>\<open>compute.ts\<close>,
  \<^verbatim>\<open>pipeline\<close>, \<^verbatim>\<open>utils\<close> and \<^verbatim>\<open>benchmark\<close> of each).

  \<open>date s\<close> is \<^verbatim>\<open>new Date(s).getTime()\<close>, \<open>now\<close> the time of the run in milliseconds, and \<open>lc a b\<close> is
  \<^verbatim>\<open>a.localeCompare(b) <= 0\<close>.  A parameter of a preset that is not a number is \<^verbatim>\<open>NaN\<close>.  The result of a run is the
  list of its two uploads.  Logging, heartbeats, temporary files and the time stamp of the details are left out.
\<close>

section \<open>Shared steps\<close>

text \<open>\<^verbatim>\<open>Object.fromEntries\<close>: of two inputs with one key the last counts.\<close>

definition raw_input :: "string \<Rightarrow> AlgorithmPresetInput list \<Rightarrow> json" where
  "raw_input k inputs = input_value k (rev inputs)"

definition num_param :: "string \<Rightarrow> AlgorithmPresetInput list \<Rightarrow> jsnum" where
  "num_param k inputs = (case raw_input k inputs of JNum n \<Rightarrow> n | _ \<Rightarrow> NaN)"

text \<open>\<^verbatim>\<open>roundScore\<close> with two decimals, the same in both algorithms.\<close>

definition round2 :: "jsnum \<Rightarrow> jsnum" where
  "round2 score = jdiv (jround (jmul score (jint 100))) (jint 100)"

record TimeWeightParams =
  tp_engagementWindowMonths :: jsnum
  tp_monthlyDecayRatePercent :: jsnum

record TimeWeightResult =
  tw_tw :: jsnum
  tw_ageMonths :: jsnum
  tw_bucketIndex :: jsnum
  tw_isValid :: bool
  tw_isWithinWindow :: bool

definition DECAY_BUCKET_SIZE_MONTHS :: jsnum where "DECAY_BUCKET_SIZE_MONTHS = jint 1"

text \<open>\<^verbatim>\<open>1000 * 60 * 60 * 24 * 30.44\<close>; the integer factors are exact.\<close>

definition MONTH_MS :: jsnum where
  "MONTH_MS = jmul (jint 86400000) (to_double (3044 / 100))"

definition calculateTimeWeight :: "jsnum \<Rightarrow> jsnum \<Rightarrow> TimeWeightParams \<Rightarrow> TimeWeightResult" where
  "calculateTimeWeight createdAt now params =
     (let ageMs = jsub now createdAt;
          ageMonths = jdiv ageMs MONTH_MS;
          bucketIndex = jfloor (jdiv ageMonths DECAY_BUCKET_SIZE_MONTHS)
      in if jle (tp_engagementWindowMonths params) ageMonths
         then \<lparr>tw_tw = Fin 0, tw_ageMonths = ageMonths, tw_bucketIndex = bucketIndex, tw_isValid = True, tw_isWithinWindow = False\<rparr>
         else
           (let tw = jmax (Fin 0) (jsub (jint 1) (jmul bucketIndex (jdiv (tp_monthlyDecayRatePercent params) (jint 100))))
            in \<lparr>tw_tw = tw, tw_ageMonths = ageMonths, tw_bucketIndex = bucketIndex, tw_isValid = True, tw_isWithinWindow = jless (Fin 0) tw\<rparr>))"

definition computeTimeWeightFromString :: "(string \<Rightarrow> jsnum) \<Rightarrow> string \<Rightarrow> jsnum \<Rightarrow> TimeWeightParams \<Rightarrow> TimeWeightResult" where
  "computeTimeWeightFromString date createdAtStr now params = calculateTimeWeight (date createdAtStr) now params"

text \<open>\<^verbatim>\<open>Number(v)\<close> of a value out of JSON; an array goes through its text.\<close>

fun js_Number :: "json \<Rightarrow> jsnum" where
  "js_Number (JNum n) = n"
| "js_Number (JStr s) = js_to_number s"
| "js_Number (JBool b) = (if b then Fin 1 else Fin 0)"
| "js_Number JNull = Fin 0"
| "js_Number (JArr []) = Fin 0"
| "js_Number (JArr [v]) =
     (case v of JUndefined \<Rightarrow> Fin 0 | JBool _ \<Rightarrow> NaN | _ \<Rightarrow> js_Number v)"
| "js_Number (JArr (_ # _ # _)) = NaN"
| "js_Number (JObj _) = NaN"
| "js_Number JUndefined = NaN"

definition parseTeamMembers :: "json list \<Rightarrow> jsnum list" where
  "parseTeamMembers members = map js_Number members"

text \<open>The users that are scored, the DID of each, and the DIDs in order.\<close>

definition usersWithDid :: "PortalDb \<Rightarrow> UserRecord list" where
  "usersWithDid db = filter (\<lambda>u. js_trim (ur_did u) \<noteq> []) (pd_users db)"

definition userIdToDid :: "PortalDb \<Rightarrow> (jsnum \<times> string) list" where
  "userIdToDid db = fold (\<lambda>u. AList.update (jint (ur_id u)) (ur_did u)) (usersWithDid db) []"

definition portal_dids :: "(string \<Rightarrow> string \<Rightarrow> bool) \<Rightarrow> PortalDb \<Rightarrow> string list" where
  "portal_dids lc db = sort_by lc (js_dedup (map ur_did (usersWithDid db)))"

text \<open>\<^verbatim>\<open>createDeepFundingDb\<close>: the database object of the snapshot.\<close>

definition createDeepFundingDb :: "string \<Rightarrow> (string \<Rightarrow> portal_object option) \<Rightarrow> storage_error + PortalDb" where
  "createDeepFundingDb snapshotId store =
     (case store (db_key snapshotId) of Some (DbFile db) \<Rightarrow> Inr db | _ \<Rightarrow> Inl (ObjectNotFoundError (db_key snapshotId)))"

section \<open>Contribution score\<close>

record ContributionScoreParams =
  cp_commentBaseScore :: jsnum
  cp_commentUpvoteWeight :: jsnum
  cp_commentDownvoteWeight :: jsnum
  cp_selfInteractionPenaltyFactor :: jsnum
  cp_projectOwnerUpvoteBonusMultiplier :: jsnum
  cp_engagementWindowMonths :: jsnum
  cp_monthlyDecayRatePercent :: jsnum

definition contribution_extractInputs :: "AlgorithmPresetInput list \<Rightarrow> ContributionScoreParams" where
  "contribution_extractInputs inputs =
     \<lparr>cp_commentBaseScore = num_param ''comment_base_score'' inputs, cp_commentUpvoteWeight = num_param ''comment_upvote_weight'' inputs,
      cp_commentDownvoteWeight = num_param ''comment_downvote_weight'' inputs,
      cp_selfInteractionPenaltyFactor = num_param ''self_interaction_penalty_factor'' inputs,
      cp_projectOwnerUpvoteBonusMultiplier = num_param ''project_owner_upvote_bonus_multiplier'' inputs,
      cp_engagementWindowMonths = num_param ''engagement_window_months'' inputs,
      cp_monthlyDecayRatePercent = num_param ''monthly_decay_rate_percent'' inputs\<rparr>"

subsection \<open>Votes\<close>

record VoteStats =
  vs_upvotes :: int
  vs_downvotes :: int
  vs_upvoterIds :: "int list"

definition no_votes :: VoteStats where
  "no_votes = \<lparr>vs_upvotes = 0, vs_downvotes = 0, vs_upvoterIds = []\<rparr>"

definition count_vote :: "CommentVoteRecord \<Rightarrow> VoteStats \<Rightarrow> VoteStats" where
  "count_vote vote e =
     (if vt_vote_type vote = ''upvote''
      then e\<lparr>vs_upvotes := vs_upvotes e + 1, vs_upvoterIds := set_add (vt_voter_id vote) (vs_upvoterIds e)\<rparr>
      else if vt_vote_type vote = ''downvote'' then e\<lparr>vs_downvotes := vs_downvotes e + 1\<rparr>
      else e)"

definition getVoteStats :: "int \<Rightarrow> (int \<times> VoteStats) list \<Rightarrow> VoteStats" where
  "getVoteStats commentId voteMap = (case map_of voteMap commentId of Some e \<Rightarrow> e | None \<Rightarrow> no_votes)"

definition aggregateVotesByComment :: "CommentVoteRecord list \<Rightarrow> (int \<times> VoteStats) list" where
  "aggregateVotesByComment votes =
     fold (\<lambda>vote m. AList.update (vt_comment_id vote) (count_vote vote (getVoteStats (vt_comment_id vote) m)) m) votes []"

subsection \<open>Owners and authors\<close>

text \<open>
  The key of \<^verbatim>\<open>relationMap\<close> prints a user and a proposal; it is the pair of them, which the text determines.  Every
  entry is \<^verbatim>\<open>true\<close>.
\<close>

definition buildRelationMap :: "ProposalRecord list \<Rightarrow> (jsnum \<times> int) list" where
  "buildRelationMap proposals =
     fold (\<lambda>p m. fold (\<lambda>memberId. set_add (memberId, pp_id p)) (parseTeamMembers (pp_teamMembers p))
        (set_add (jint (pp_proposerId p), pp_id p) m)) proposals []"

definition proposal_owners :: "ProposalRecord \<Rightarrow> jsnum list" where
  "proposal_owners p = fold set_add (parseTeamMembers (pp_teamMembers p)) [jint (pp_proposerId p)]"

definition buildProjectOwnerMap :: "ProposalRecord list \<Rightarrow> (int \<times> jsnum list) list" where
  "buildProjectOwnerMap proposals = fold (\<lambda>p. AList.update (pp_id p) (proposal_owners p)) proposals []"

definition buildCommentAuthorMap :: "CommentRecord list \<Rightarrow> (int \<times> int) list" where
  "buildCommentAuthorMap comments = fold (\<lambda>cm. AList.update (cr_commentId cm) (cr_userId cm)) comments []"

record SelfInteractionResult =
  si_isRelatedProject :: bool
  si_isSameAuthorReply :: bool
  si_discountConditions :: nat
  si_discountMultiplier :: jsnum

text \<open>\<^verbatim>\<open>penaltyFactor ** discountConditions\<close> for at most two conditions.\<close>

definition penalty_power :: "jsnum \<Rightarrow> nat \<Rightarrow> jsnum" where
  "penalty_power x n = (if n = 0 then Fin 1 else if n = 1 then x else jmul x x)"

definition detectSelfInteraction :: "CommentRecord \<Rightarrow> jsnum \<Rightarrow> (jsnum \<times> int) list \<Rightarrow> (int \<times> int) list \<Rightarrow> SelfInteractionResult" where
  "detectSelfInteraction comment penaltyFactor relationMap commentAuthorMap =
     (let isRelatedProject = (jint (cr_userId comment), cr_proposalId comment) \<in> set relationMap;
          isSameAuthorReply = (cr_isReply comment \<and> 0 < cr_parentId comment
            \<and> map_of commentAuthorMap (cr_parentId comment) = Some (cr_userId comment));
          discountConditions = (if isRelatedProject then 1 else 0) + (if isSameAuthorReply then 1 else 0)
      in \<lparr>si_isRelatedProject = isRelatedProject, si_isSameAuthorReply = isSameAuthorReply,
          si_discountConditions = discountConditions, si_discountMultiplier = penalty_power penaltyFactor discountConditions\<rparr>)"

record OwnerBonusResult =
  ob_ownerUpvoted :: bool
  ob_ownerBonus :: jsnum

definition computeOwnerBonus :: "int \<Rightarrow> VoteStats \<Rightarrow> (int \<times> jsnum list) list \<Rightarrow> jsnum \<Rightarrow> OwnerBonusResult" where
  "computeOwnerBonus proposalId votes projectOwnerMap bonusMultiplier =
     (case map_of projectOwnerMap proposalId of
        None \<Rightarrow> \<lparr>ob_ownerUpvoted = False, ob_ownerBonus = Fin 1\<rparr>
      | Some projectOwners \<Rightarrow>
          if list_ex (\<lambda>upvoterId. jint upvoterId \<in> set projectOwners) (vs_upvoterIds votes)
          then \<lparr>ob_ownerUpvoted = True, ob_ownerBonus = bonusMultiplier\<rparr>
          else \<lparr>ob_ownerUpvoted = False, ob_ownerBonus = Fin 1\<rparr>)"

subsection \<open>Scoring a comment\<close>

definition calculateBaseScore :: "VoteStats \<Rightarrow> ContributionScoreParams \<Rightarrow> jsnum" where
  "calculateBaseScore votes params =
     jsub (jadd (cp_commentBaseScore params) (jmul (jint (vs_upvotes votes)) (cp_commentUpvoteWeight params)))
       (jmul (jint (vs_downvotes votes)) (cp_commentDownvoteWeight params))"

record CommentScoreResult =
  sc_score :: jsnum
  sc_scored :: bool

definition computeCommentScore ::
  "VoteStats \<Rightarrow> ContributionScoreParams \<Rightarrow> TimeWeightResult \<Rightarrow> SelfInteractionResult \<Rightarrow> OwnerBonusResult \<Rightarrow> CommentScoreResult" where
  "computeCommentScore votes params timeWeight selfInteraction ownerBonus =
     (if \<not> tw_isValid timeWeight \<or> \<not> tw_isWithinWindow timeWeight then \<lparr>sc_score = Fin 0, sc_scored = False\<rparr>
      else
        (let baseScore = calculateBaseScore votes params
         in \<lparr>sc_score = jmul (jmul (jmul (ob_ownerBonus ownerBonus) (tw_tw timeWeight)) (si_discountMultiplier selfInteraction)) baseScore,
             sc_scored = True\<rparr>))"

record CommentBenchmarkRecord =
  cb_comment_id :: int
  cb_user_id :: int
  cb_proposal_id :: int
  cb_created_at :: string
  cb_votes :: VoteStats
  cb_time_weight :: TimeWeightResult
  cb_self_interaction :: SelfInteractionResult
  cb_owner_bonus :: OwnerBonusResult
  cb_base_score :: jsnum
  cb_comment_score :: jsnum
  cb_scored :: bool

definition buildCommentBenchmarkRecord ::
  "CommentRecord \<Rightarrow> VoteStats \<Rightarrow> TimeWeightResult \<Rightarrow> SelfInteractionResult \<Rightarrow> OwnerBonusResult \<Rightarrow> CommentScoreResult \<Rightarrow> jsnum
    \<Rightarrow> CommentBenchmarkRecord" where
  "buildCommentBenchmarkRecord comment votes timeWeight selfInteraction ownerBonus scoreResult baseScore =
     \<lparr>cb_comment_id = cr_commentId comment, cb_user_id = cr_userId comment, cb_proposal_id = cr_proposalId comment,
      cb_created_at = cr_createdAt comment, cb_votes = votes, cb_time_weight = timeWeight, cb_self_interaction = selfInteraction,
      cb_owner_bonus = ownerBonus, cb_base_score = baseScore,
      cb_comment_score = (if sc_scored scoreResult then round2 (sc_score scoreResult) else Fin 0), cb_scored = sc_scored scoreResult\<rparr>"

subsection \<open>The run\<close>

record ContributionRun =
  cx_didScores :: "(string \<times> jsnum) list"
  cx_matchedDids :: "string list"
  cx_records :: "CommentBenchmarkRecord list"
  cx_scored :: nat

definition score_of :: "(string \<times> jsnum) list \<Rightarrow> string \<Rightarrow> jsnum" where
  "score_of m did = (case map_of m did of Some x \<Rightarrow> x | None \<Rightarrow> Fin 0)"

text \<open>The maps the loop reads.\<close>

record ContributionContext =
  cc_userIdToDid :: "(jsnum \<times> string) list"
  cc_relationMap :: "(jsnum \<times> int) list"
  cc_projectOwnerMap :: "(int \<times> jsnum list) list"
  cc_commentAuthorMap :: "(int \<times> int) list"
  cc_voteMap :: "(int \<times> VoteStats) list"

definition contribution_context :: "PortalDb \<Rightarrow> ContributionContext" where
  "contribution_context db =
     \<lparr>cc_userIdToDid = userIdToDid db, cc_relationMap = buildRelationMap (pd_proposals db),
      cc_projectOwnerMap = buildProjectOwnerMap (pd_proposals db), cc_commentAuthorMap = buildCommentAuthorMap (pd_comments db),
      cc_voteMap = aggregateVotesByComment (pd_commentVotes db)\<rparr>"

definition comment_time_weight :: "(string \<Rightarrow> jsnum) \<Rightarrow> jsnum \<Rightarrow> ContributionScoreParams \<Rightarrow> CommentRecord \<Rightarrow> TimeWeightResult" where
  "comment_time_weight date now params comment =
     computeTimeWeightFromString date (cr_createdAt comment) now
       \<lparr>tp_engagementWindowMonths = cp_engagementWindowMonths params, tp_monthlyDecayRatePercent = cp_monthlyDecayRatePercent params\<rparr>"

definition score_comment ::
  "(string \<Rightarrow> jsnum) \<Rightarrow> jsnum \<Rightarrow> ContributionScoreParams \<Rightarrow> ContributionContext \<Rightarrow> CommentRecord \<Rightarrow> CommentScoreResult \<times> CommentBenchmarkRecord" where
  "score_comment date now params ctx comment =
     (let votes = getVoteStats (cr_commentId comment) (cc_voteMap ctx);
          timeWeight = comment_time_weight date now params comment;
          selfInteraction = detectSelfInteraction comment (cp_selfInteractionPenaltyFactor params) (cc_relationMap ctx) (cc_commentAuthorMap ctx);
          ownerBonus = computeOwnerBonus (cr_proposalId comment) votes (cc_projectOwnerMap ctx) (cp_projectOwnerUpvoteBonusMultiplier params);
          baseScore = calculateBaseScore votes params;
          result = computeCommentScore votes params timeWeight selfInteraction ownerBonus
      in (result, buildCommentBenchmarkRecord comment votes timeWeight selfInteraction ownerBonus result baseScore))"

definition contribution_step ::
  "(string \<Rightarrow> jsnum) \<Rightarrow> jsnum \<Rightarrow> ContributionScoreParams \<Rightarrow> ContributionContext \<Rightarrow> CommentRecord \<Rightarrow> ContributionRun \<Rightarrow> ContributionRun" where
  "contribution_step date now params ctx comment run =
     (case map_of (cc_userIdToDid ctx) (jint (cr_userId comment)) of
        None \<Rightarrow> run
      | Some did \<Rightarrow>
          (let (result, rec) = score_comment date now params ctx comment;
               run' = run\<lparr>cx_records := cx_records run @ [rec]\<rparr>
           in if sc_scored result
              then run'\<lparr>cx_scored := cx_scored run + 1, cx_matchedDids := set_add did (cx_matchedDids run),
                        cx_didScores := AList.update did (jadd (score_of (cx_didScores run) did) (sc_score result)) (cx_didScores run)\<rparr>
              else run'))"

definition contribution_run :: "(string \<Rightarrow> string \<Rightarrow> bool) \<Rightarrow> (string \<Rightarrow> jsnum) \<Rightarrow> jsnum \<Rightarrow> ContributionScoreParams \<Rightarrow> PortalDb \<Rightarrow> ContributionRun" where
  "contribution_run lc date now params db =
     fold (contribution_step date now params (contribution_context db)) (pd_comments db)
       \<lparr>cx_didScores = map (\<lambda>did. (did, Fin 0)) (portal_dids lc db), cx_matchedDids = [], cx_records = [], cx_scored = 0\<rparr>"

record score_row =
  sr_did :: string
  sr_score :: jsnum

definition sort_rows :: "(string \<Rightarrow> string \<Rightarrow> bool) \<Rightarrow> score_row list \<Rightarrow> score_row list" where
  "sort_rows lc rows = sort_by (\<lambda>a b. lc (sr_did a) (sr_did b)) rows"

definition contribution_results :: "(string \<Rightarrow> string \<Rightarrow> bool) \<Rightarrow> PortalDb \<Rightarrow> ContributionRun \<Rightarrow> score_row list" where
  "contribution_results lc db run =
     sort_rows lc (map (\<lambda>did. \<lparr>sr_did = did, sr_score = round2 (score_of (cx_didScores run) did)\<rparr>) (portal_dids lc db))"

subsection \<open>Details\<close>

record DidBenchmarkRecord =
  db_did :: string
  db_contribution_score :: jsnum
  db_comment_count :: nat
  db_comments :: "CommentBenchmarkRecord list"

record ContributionScoreBenchmark =
  bm_dids :: "DidBenchmarkRecord list"
  bm_snapshot_id :: string
  bm_config :: ContributionScoreParams
  bm_provided_ids :: "string list"
  bm_matched_ids :: "string list"
  bm_unmatched_ids :: "string list"
  bm_total_dids_provided :: nat
  bm_dids_with_matching_comments :: nat
  bm_total_comments_processed :: nat
  bm_total_comments_scored :: nat

text \<open>\<^verbatim>\<open>didMap\<close>: the records of each DID, in order.\<close>

definition did_records :: "(jsnum \<times> string) list \<Rightarrow> CommentBenchmarkRecord list \<Rightarrow> (string \<times> CommentBenchmarkRecord list) list" where
  "did_records toDid records =
     fold (\<lambda>rec m. case map_of toDid (jint (cb_user_id rec)) of
            None \<Rightarrow> m
          | Some did \<Rightarrow> AList.update did ((case map_of m did of Some l \<Rightarrow> l | None \<Rightarrow> []) @ [rec]) m) records []"

definition contribution_formatBenchmarkOutput ::
  "(string \<Rightarrow> string \<Rightarrow> bool) \<Rightarrow> CommentBenchmarkRecord list \<Rightarrow> string \<Rightarrow> string list \<Rightarrow> (string \<times> jsnum) list \<Rightarrow> string list
    \<Rightarrow> (jsnum \<times> string) list \<Rightarrow> ContributionScoreParams \<Rightarrow> nat \<Rightarrow> nat \<Rightarrow> ContributionScoreBenchmark" where
  "contribution_formatBenchmarkOutput lc records snapshotId dids didScores matchedDids toDid params processed scored =
     (let didMap = did_records toDid records;
          didRows = map (\<lambda>did.
            (let comments = (case map_of didMap did of Some l \<Rightarrow> l | None \<Rightarrow> [])
             in \<lparr>db_did = did, db_contribution_score = score_of didScores did, db_comment_count = length comments, db_comments = comments\<rparr>)) dids;
          matchedIds = sort_by lc matchedDids
      in \<lparr>bm_dids = sort_by (\<lambda>a b. lc (db_did a) (db_did b)) didRows, bm_snapshot_id = snapshotId, bm_config = params,
          bm_provided_ids = dids, bm_matched_ids = matchedIds, bm_unmatched_ids = filter (\<lambda>did. did \<notin> set matchedDids) dids,
          bm_total_dids_provided = length dids, bm_dids_with_matching_comments = length matchedIds,
          bm_total_comments_processed = processed, bm_total_comments_scored = scored\<rparr>)"

datatype contribution_object = ContributionCsv "score_row list" | ContributionDetails ContributionScoreBenchmark

definition computeContributionScore ::
  "(string \<Rightarrow> string \<Rightarrow> bool) \<Rightarrow> (string \<Rightarrow> jsnum) \<Rightarrow> jsnum \<Rightarrow> string \<Rightarrow> string \<Rightarrow> AlgorithmPresetInput list \<Rightarrow> (string \<Rightarrow> portal_object option)
    \<Rightarrow> storage_error + (string \<times> contribution_object) list" where
  "computeContributionScore lc date now snapshotId key inputs store =
     (let params = contribution_extractInputs inputs
      in case createDeepFundingDb snapshotId store of
           Inl e \<Rightarrow> Inl e
         | Inr db \<Rightarrow>
             (let run = contribution_run lc date now params db;
                  results = contribution_results lc db run
              in Inr [(generateKey snapshot snapshotId (key @ ''.csv''), ContributionCsv results),
                      (generateKey snapshot snapshotId ''contribution_score_details.json'', ContributionDetails
                         (contribution_formatBenchmarkOutput lc (cx_records run) snapshotId (portal_dids lc db)
                            (map (\<lambda>r. (sr_did r, sr_score r)) results) (cx_matchedDids run) (userIdToDid db) params
                            (length (pd_comments db)) (cx_scored run)))]))"

section \<open>Proposal engagement\<close>

record ProposalEngagementParams =
  ep_fundedConcludedRewardWeight :: jsnum
  ep_unfundedPenaltyWeight :: jsnum
  ep_engagementWindowMonths :: jsnum
  ep_monthlyDecayRatePercent :: jsnum

definition proposal_extractInputs :: "AlgorithmPresetInput list \<Rightarrow> ProposalEngagementParams" where
  "proposal_extractInputs inputs =
     \<lparr>ep_fundedConcludedRewardWeight = num_param ''funded_concluded_reward_weight'' inputs,
      ep_unfundedPenaltyWeight = num_param ''unfunded_penalty_weight'' inputs,
      ep_engagementWindowMonths = num_param ''engagement_window_months'' inputs,
      ep_monthlyDecayRatePercent = num_param ''monthly_decay_rate_percent'' inputs\<rparr>"

subsection \<open>Owners, ratings and classes\<close>

text \<open>\<^verbatim>\<open>(a, b) => a - b\<close>: the order of numbers; a \<^verbatim>\<open>NaN\<close> compares equal to everything.\<close>

definition num_le :: "jsnum \<Rightarrow> jsnum \<Rightarrow> bool" where
  "num_le a b \<longleftrightarrow> \<not> jless b a"

record ProposalOwners =
  ow_owners :: "jsnum list"
  ow_ownersArray :: "jsnum list"
  ow_teamMembersArray :: "jsnum list"

definition buildProposalOwners :: "ProposalRecord \<Rightarrow> ProposalOwners" where
  "buildProposalOwners p =
     (let teamMembersArray = sort_by num_le (parseTeamMembers (pp_teamMembers p));
          owners = fold set_add teamMembersArray [jint (pp_proposerId p)]
      in \<lparr>ow_owners = owners, ow_ownersArray = sort_by num_le owners, ow_teamMembersArray = teamMembersArray\<rparr>)"

record CommunityRatingStats =
  cs_sum :: jsnum
  cs_count :: int

text \<open>\<^verbatim>\<open>!review.proposalId\<close>: absent or zero.\<close>

definition add_review :: "ReviewRecord \<Rightarrow> (int \<times> CommunityRatingStats) list \<Rightarrow> (int \<times> CommunityRatingStats) list" where
  "add_review review m =
     (if re_reviewType review \<noteq> ''community'' then m
      else
        (case re_proposalId review of
           None \<Rightarrow> m
         | Some proposalId \<Rightarrow>
             if proposalId = 0 then m
             else
               (let rating = js_parseFloat (re_overallRating review);
                    entry = (case map_of m proposalId of Some e \<Rightarrow> e | None \<Rightarrow> \<lparr>cs_sum = Fin 0, cs_count = 0\<rparr>)
                in AList.update proposalId (entry\<lparr>cs_sum := jadd (cs_sum entry) rating, cs_count := cs_count entry + 1\<rparr>) m)))"

definition aggregateCommunityRatings :: "ReviewRecord list \<Rightarrow> (int \<times> CommunityRatingStats) list" where
  "aggregateCommunityRatings reviews = fold add_review reviews []"

record CommunityScoreResult =
  co_count :: int
  co_avg :: "jsnum option"
  co_norm :: "jsnum option"

definition computeCommunityScore :: "int \<Rightarrow> (int \<times> CommunityRatingStats) list \<Rightarrow> CommunityScoreResult" where
  "computeCommunityScore proposalId ratingStats =
     (case map_of ratingStats proposalId of
        None \<Rightarrow> \<lparr>co_count = 0, co_avg = None, co_norm = None\<rparr>
      | Some stats \<Rightarrow>
          if cs_count stats = 0 then \<lparr>co_count = 0, co_avg = None, co_norm = None\<rparr>
          else
            (let avg = jdiv (cs_sum stats) (jint (cs_count stats))
             in \<lparr>co_count = cs_count stats, co_avg = Some avg, co_norm = Some (jdiv avg (jint 5))\<rparr>))"

datatype ProposalClassification = funded_concluded | unfunded | other_class

definition toBool :: "json \<Rightarrow> bool" where
  "toBool v \<longleftrightarrow> v = JBool True \<or> v = JNum (Fin 1)"

record ProposalStatusInfo =
  ps_isAwarded :: bool
  ps_isCompleted :: bool
  ps_classification :: ProposalClassification

definition classifyProposal :: "ProposalRecord \<Rightarrow> ProposalStatusInfo" where
  "classifyProposal p =
     (let isAwarded = toBool (pp_isAwarded p);
          isCompleted = toBool (pp_isCompleted p);
          classification = (if isAwarded \<and> isCompleted then funded_concluded else if \<not> isAwarded then unfunded else other_class)
      in \<lparr>ps_isAwarded = isAwarded, ps_isCompleted = isCompleted, ps_classification = classification\<rparr>)"

definition isScorableClassification :: "ProposalClassification \<Rightarrow> bool" where
  "isScorableClassification c \<longleftrightarrow> c = funded_concluded \<or> c = unfunded"

subsection \<open>Scoring a proposal\<close>

definition SUPPORTED_ROUND_IDS :: "int list" where "SUPPORTED_ROUND_IDS = [31, 36, 107]"

datatype ProposalSkipReason =
    unsupported_round | invalid_created_at | outside_engagement_window | no_community_reviews | not_reward_or_penalty_class

record ProposalScoreResult =
  pr_proposalReward :: jsnum
  pr_proposalPenalty :: jsnum
  pr_scored :: bool
  pr_skipReason :: "ProposalSkipReason option"

definition skip_reason :: "int \<Rightarrow> ProposalClassification \<Rightarrow> CommunityScoreResult \<Rightarrow> TimeWeightResult \<Rightarrow> ProposalSkipReason option" where
  "skip_reason roundId classification communityScore timeWeight =
     (if roundId \<notin> set SUPPORTED_ROUND_IDS then Some unsupported_round
      else if \<not> tw_isValid timeWeight then Some invalid_created_at
      else if \<not> tw_isWithinWindow timeWeight then Some outside_engagement_window
      else if co_norm communityScore = None then Some no_community_reviews
      else if classification = other_class then Some not_reward_or_penalty_class
      else None)"

definition skipped :: "ProposalSkipReason \<Rightarrow> ProposalScoreResult" where
  "skipped reason = \<lparr>pr_proposalReward = Fin 0, pr_proposalPenalty = Fin 0, pr_scored = False, pr_skipReason = Some reason\<rparr>"

definition computeProposalScore :: "int \<Rightarrow> ProposalClassification \<Rightarrow> CommunityScoreResult \<Rightarrow> TimeWeightResult \<Rightarrow> ProposalScoreResult" where
  "computeProposalScore roundId classification communityScore timeWeight =
     (case skip_reason roundId classification communityScore timeWeight of
        Some reason \<Rightarrow> skipped reason
      | None \<Rightarrow>
          (case co_norm communityScore of
             None \<Rightarrow> skipped no_community_reviews
           | Some nrm \<Rightarrow>
               (let proposalReward = (if classification = funded_concluded then jmul (tw_tw timeWeight) nrm else Fin 0);
                    proposalPenalty = (if classification = unfunded then jmul (tw_tw timeWeight) (jsub (jint 1) nrm) else Fin 0)
                in \<lparr>pr_proposalReward = proposalReward, pr_proposalPenalty = proposalPenalty,
                    pr_scored = (\<not> jeq proposalReward (Fin 0) \<or> \<not> jeq proposalPenalty (Fin 0)), pr_skipReason = None\<rparr>)))"

record ProposalBenchmarkRecord =
  pb_proposal_id :: int
  pb_round_id :: int
  pb_created_at :: string
  pb_proposer_id :: int
  pb_team_member_ids :: "jsnum list"
  pb_all_owner_ids :: "jsnum list"
  pb_classification :: ProposalStatusInfo
  pb_community_score :: CommunityScoreResult
  pb_time_weight :: TimeWeightResult
  pb_score :: ProposalScoreResult

definition buildProposalBenchmarkRecord ::
  "ProposalRecord \<Rightarrow> ProposalOwners \<Rightarrow> ProposalStatusInfo \<Rightarrow> CommunityScoreResult \<Rightarrow> TimeWeightResult \<Rightarrow> ProposalScoreResult \<Rightarrow> ProposalBenchmarkRecord" where
  "buildProposalBenchmarkRecord p owners status communityScore timeWeight scoreResult =
     \<lparr>pb_proposal_id = pp_id p, pb_round_id = pp_roundId p, pb_created_at = pp_createdAt p, pb_proposer_id = pp_proposerId p,
      pb_team_member_ids = ow_teamMembersArray owners, pb_all_owner_ids = ow_ownersArray owners, pb_classification = status,
      pb_community_score = communityScore, pb_time_weight = timeWeight, pb_score = scoreResult\<rparr>"

subsection \<open>The run\<close>

record UserScoreAccumulator =
  ua_positiveSum :: jsnum
  ua_negativeSum :: jsnum

definition no_score :: UserScoreAccumulator where
  "no_score = \<lparr>ua_positiveSum = Fin 0, ua_negativeSum = Fin 0\<rparr>"

record ProposalRun =
  px_accumulators :: "(string \<times> UserScoreAccumulator) list"
  px_records :: "ProposalBenchmarkRecord list"
  px_matchedDids :: "string list"
  px_scored :: nat
  px_unsupported :: nat

definition acc_of :: "(string \<times> UserScoreAccumulator) list \<Rightarrow> string \<Rightarrow> UserScoreAccumulator" where
  "acc_of m did = (case map_of m did of Some a \<Rightarrow> a | None \<Rightarrow> no_score)"

definition owner_dids :: "(jsnum \<times> string) list \<Rightarrow> jsnum list \<Rightarrow> string list" where
  "owner_dids toDid owners =
     fold (\<lambda>userId dids. case map_of toDid userId of None \<Rightarrow> dids | Some did \<Rightarrow> set_add did dids) owners []"

definition credit :: "ProposalScoreResult \<Rightarrow> string \<Rightarrow> ProposalRun \<Rightarrow> ProposalRun" where
  "credit score did run =
     (let existing = acc_of (px_accumulators run) did
      in run\<lparr>px_matchedDids := set_add did (px_matchedDids run),
             px_accumulators := AList.update did
               \<lparr>ua_positiveSum = jadd (ua_positiveSum existing) (pr_proposalReward score),
                ua_negativeSum = jadd (ua_negativeSum existing) (pr_proposalPenalty score)\<rparr> (px_accumulators run)\<rparr>)"

definition proposal_time_weight :: "(string \<Rightarrow> jsnum) \<Rightarrow> jsnum \<Rightarrow> ProposalEngagementParams \<Rightarrow> ProposalRecord \<Rightarrow> TimeWeightResult" where
  "proposal_time_weight date now params p =
     computeTimeWeightFromString date (pp_createdAt p) now
       \<lparr>tp_engagementWindowMonths = ep_engagementWindowMonths params, tp_monthlyDecayRatePercent = ep_monthlyDecayRatePercent params\<rparr>"

definition score_proposal ::
  "(string \<Rightarrow> jsnum) \<Rightarrow> jsnum \<Rightarrow> ProposalEngagementParams \<Rightarrow> (int \<times> CommunityRatingStats) list \<Rightarrow> ProposalRecord \<Rightarrow> ProposalScoreResult" where
  "score_proposal date now params ratings p =
     computeProposalScore (pp_roundId p) (ps_classification (classifyProposal p)) (computeCommunityScore (pp_id p) ratings)
       (proposal_time_weight date now params p)"

definition proposal_step ::
  "(string \<Rightarrow> jsnum) \<Rightarrow> jsnum \<Rightarrow> ProposalEngagementParams \<Rightarrow> (int \<times> CommunityRatingStats) list \<Rightarrow> (jsnum \<times> string) list \<Rightarrow> ProposalRecord
    \<Rightarrow> ProposalRun \<Rightarrow> ProposalRun" where
  "proposal_step date now params ratings toDid p run =
     (let owners = buildProposalOwners p;
          communityScore = computeCommunityScore (pp_id p) ratings;
          status = classifyProposal p;
          timeWeight = proposal_time_weight date now params p;
          score = score_proposal date now params ratings p;
          run1 = (if pr_skipReason score = Some unsupported_round then run\<lparr>px_unsupported := px_unsupported run + 1\<rparr> else run);
          run2 = run1\<lparr>px_records := px_records run @ [buildProposalBenchmarkRecord p owners status communityScore timeWeight score]\<rparr>
      in if \<not> pr_scored score then run2
         else fold (credit score) (owner_dids toDid (ow_ownersArray owners)) (run2\<lparr>px_scored := px_scored run + 1\<rparr>))"

definition proposal_run ::
  "(string \<Rightarrow> string \<Rightarrow> bool) \<Rightarrow> (string \<Rightarrow> jsnum) \<Rightarrow> jsnum \<Rightarrow> ProposalEngagementParams \<Rightarrow> PortalDb \<Rightarrow> ProposalRun" where
  "proposal_run lc date now params db =
     fold (proposal_step date now params (aggregateCommunityRatings (pd_reviews db)) (userIdToDid db)) (pd_proposals db)
       \<lparr>px_accumulators = map (\<lambda>did. (did, no_score)) (portal_dids lc db), px_records = [], px_matchedDids = [], px_scored = 0, px_unsupported = 0\<rparr>"

definition engagement_of :: "ProposalEngagementParams \<Rightarrow> UserScoreAccumulator \<Rightarrow> jsnum" where
  "engagement_of params a =
     round2 (jsub (jmul (ep_fundedConcludedRewardWeight params) (ua_positiveSum a)) (jmul (ep_unfundedPenaltyWeight params) (ua_negativeSum a)))"

definition proposal_scores ::
  "(string \<Rightarrow> string \<Rightarrow> bool) \<Rightarrow> ProposalEngagementParams \<Rightarrow> PortalDb \<Rightarrow> ProposalRun \<Rightarrow> score_row list" where
  "proposal_scores lc params db run =
     map (\<lambda>did. \<lparr>sr_did = did, sr_score = engagement_of params (acc_of (px_accumulators run) did)\<rparr>) (portal_dids lc db)"

subsection \<open>Details\<close>

record DidProposalBenchmarkRecord =
  dp_did :: string
  dp_proposal_engagement :: jsnum
  dp_positive_sum :: jsnum
  dp_negative_sum :: jsnum
  dp_proposal_count :: nat
  dp_proposals :: "ProposalBenchmarkRecord list"

record ProposalEngagementBenchmark =
  bp_dids :: "DidProposalBenchmarkRecord list"
  bp_snapshot_id :: string
  bp_config :: ProposalEngagementParams
  bp_provided_ids :: "string list"
  bp_matched_ids :: "string list"
  bp_unmatched_ids :: "string list"
  bp_total_dids_provided :: nat
  bp_dids_with_matching_owner :: nat
  bp_total_proposals_processed :: nat
  bp_total_proposals_scored :: nat
  bp_proposals_skipped_unsupported_round :: nat

definition did_proposals :: "(jsnum \<times> string) list \<Rightarrow> ProposalBenchmarkRecord list \<Rightarrow> (string \<times> ProposalBenchmarkRecord list) list" where
  "did_proposals toDid records =
     fold (\<lambda>rec m. fold (\<lambda>did m. AList.update did ((case map_of m did of Some l \<Rightarrow> l | None \<Rightarrow> []) @ [rec]) m)
            (owner_dids toDid (pb_all_owner_ids rec)) m) records []"

definition proposal_formatBenchmarkOutput ::
  "(string \<Rightarrow> string \<Rightarrow> bool) \<Rightarrow> string \<Rightarrow> ProposalEngagementParams \<Rightarrow> PortalDb \<Rightarrow> (string \<times> jsnum) list \<Rightarrow> ProposalRun \<Rightarrow> ProposalEngagementBenchmark" where
  "proposal_formatBenchmarkOutput lc snapshotId params db didScores run =
     (let dids = portal_dids lc db;
          didProposalMap = did_proposals (userIdToDid db) (px_records run);
          didRows = map (\<lambda>did.
            (let proposals = (case map_of didProposalMap did of Some l \<Rightarrow> l | None \<Rightarrow> []); acc = acc_of (px_accumulators run) did
             in \<lparr>dp_did = did, dp_proposal_engagement = score_of didScores did, dp_positive_sum = ua_positiveSum acc,
                 dp_negative_sum = ua_negativeSum acc, dp_proposal_count = length proposals, dp_proposals = proposals\<rparr>)) dids;
          matchedIds = sort_by lc (px_matchedDids run)
      in \<lparr>bp_dids = sort_by (\<lambda>a b. lc (dp_did a) (dp_did b)) didRows, bp_snapshot_id = snapshotId, bp_config = params,
          bp_provided_ids = dids, bp_matched_ids = matchedIds, bp_unmatched_ids = filter (\<lambda>did. did \<notin> set (px_matchedDids run)) dids,
          bp_total_dids_provided = length dids, bp_dids_with_matching_owner = length matchedIds,
          bp_total_proposals_processed = length (pd_proposals db), bp_total_proposals_scored = px_scored run,
          bp_proposals_skipped_unsupported_round = px_unsupported run\<rparr>)"

datatype proposal_object = ProposalCsv "score_row list" | ProposalDetails ProposalEngagementBenchmark

definition computeProposalEngagement ::
  "(string \<Rightarrow> string \<Rightarrow> bool) \<Rightarrow> (string \<Rightarrow> jsnum) \<Rightarrow> jsnum \<Rightarrow> string \<Rightarrow> string \<Rightarrow> AlgorithmPresetInput list \<Rightarrow> (string \<Rightarrow> portal_object option)
    \<Rightarrow> storage_error + (string \<times> proposal_object) list" where
  "computeProposalEngagement lc date now snapshotId key inputs store =
     (let params = proposal_extractInputs inputs
      in case createDeepFundingDb snapshotId store of
           Inl e \<Rightarrow> Inl e
         | Inr db \<Rightarrow>
             (let run = proposal_run lc date now params db;
                  scores = proposal_scores lc params db run
              in Inr [(generateKey snapshot snapshotId (key @ ''.csv''), ProposalCsv (sort_rows lc scores)),
                      (generateKey snapshot snapshotId ''proposal_engagement_details.json'',
                         ProposalDetails (proposal_formatBenchmarkOutput lc snapshotId params db (map (\<lambda>r. (sr_did r, sr_score r)) scores) run))]))"

section \<open>The time weight\<close>

text \<open>The range of a \<^verbatim>\<open>Date\<close>.\<close>

definition valid_time :: "rat \<Rightarrow> bool" where
  "valid_time t \<longleftrightarrow> \<bar>t\<bar> \<le> 8640000000000000"

lemma to_double_fin: "\<bar>round53 x\<bar> < 2 ^ 1024 \<Longrightarrow> to_double x = Fin (round53 x)"
  by (simp add: to_double_def Let_def abs_less_iff)

lemma round53_le_int: "x \<le> of_int n \<Longrightarrow> \<bar>n\<bar> \<le> 2 ^ 53 \<Longrightarrow> round53 x \<le> of_int n"
  by (metis dbl.rnd_le_fixed round53_of_int)

lemma round53_ge_int: "of_int n \<le> x \<Longrightarrow> \<bar>n\<bar> \<le> 2 ^ 53 \<Longrightarrow> of_int n \<le> round53 x"
  by (metis round53_mono round53_of_int)

lemma round53_le_pow: "x \<le> 2 powi e \<Longrightarrow> - 1074 \<le> e \<Longrightarrow> round53 x \<le> 2 powi e"
  using round53_exact[of 1 e] by (intro dbl.rnd_le_fixed) simp_all

lemma month_ms: "\<exists>m. MONTH_MS = Fin m \<and> 2592000000 \<le> m \<and> m \<le> 2678400000"
proof -
  define d where "d = round53 (3044 / 100)"
  have a: "30 \<le> d" "d \<le> 31"
    using round53_ge_int[of 30 "3044 / 100"] round53_le_int[of "3044 / 100" 31] by (simp_all add: d_def)
  have x: "to_double (3044 / 100) = Fin d" using a unfolding d_def by (intro to_double_fin) simp
  define m where "m = round53 (86400000 * d)"
  have "2592000000 \<le> 86400000 * d" "86400000 * d \<le> 2678400000" using a by simp_all
  then have b: "2592000000 \<le> m" "m \<le> 2678400000"
    using round53_ge_int[of 2592000000 "86400000 * d"] round53_le_int[of "86400000 * d" 2678400000] by (simp_all add: m_def)
  then have "to_double (86400000 * d) = Fin m" unfolding m_def by (intro to_double_fin) simp
  then show ?thesis using b unfolding MONTH_MS_def x by (simp add: jint_def)
qed

text \<open>The age in months and the weight inside the window as rational numbers.\<close>

definition age_of :: "rat \<Rightarrow> rat" where
  "age_of ms = round53 (round53 ms / (case MONTH_MS of Fin m \<Rightarrow> m | _ \<Rightarrow> 1))"

definition weight_of :: "rat \<Rightarrow> rat \<Rightarrow> rat" where
  "weight_of rate age =
     (let decay = round53 (of_int \<lfloor>age\<rfloor> * round53 (rate / 100))
      in if 2 ^ 1024 \<le> decay then 0 else max 0 (round53 (1 - decay)))"

lemma age_of_mono: "x \<le> y \<Longrightarrow> age_of x \<le> age_of y"
proof -
  assume "x \<le> y"
  moreover obtain m where m: "MONTH_MS = Fin m" "2592000000 \<le> m" using month_ms by blast
  ultimately show ?thesis unfolding age_of_def m(1) by (simp add: round53_mono divide_right_mono)
qed

lemma age_of_zero [simp]: "age_of 0 = 0"
  by (simp add: age_of_def)

lemma age_of_nonneg: "0 \<le> x \<Longrightarrow> 0 \<le> age_of x"
  using age_of_mono[of 0 x] by simp

lemma age_fin:
  assumes "valid_time c" "valid_time n" "c \<le> n"
  shows "jdiv (jsub (Fin n) (Fin c)) MONTH_MS = Fin (age_of (n - c))" "age_of (n - c) < 2 ^ 1024"
proof -
  obtain m where m: "MONTH_MS = Fin m" "2592000000 \<le> m" using month_ms by blast
  have d: "n - c \<le> 2 powi 54" "0 \<le> n - c" using assms by (auto simp: valid_time_def power_int_def)
  have r: "0 \<le> round53 (n - c)" "round53 (n - c) \<le> 2 powi 54"
    using round53_nonneg[OF d(2)] round53_le_pow[OF d(1)] by simp_all
  have a: "jsub (Fin n) (Fin c) = Fin (round53 (n - c))"
    using r by (simp add: jsub_def to_double_fin power_int_def)
  have q: "0 \<le> round53 (n - c) / m" "round53 (n - c) / m \<le> round53 (n - c)" using r m(2) by (simp_all add: divide_le_eq mult_le_cancel_left1)
  have "0 \<le> round53 (round53 (n - c) / m)" "round53 (round53 (n - c) / m) \<le> 2 powi 54"
    using round53_nonneg[OF q(1)] round53_le_pow[OF order_trans[OF q(2) r(2)]] by simp_all
  then have "\<bar>round53 (round53 (n - c) / m)\<bar> < 2 ^ 1024" by (simp add: power_int_def)
  then show "jdiv (jsub (Fin n) (Fin c)) MONTH_MS = Fin (age_of (n - c))" "age_of (n - c) < 2 ^ 1024"
    using m(2) unfolding age_of_def m(1) a by (simp_all add: to_double_fin)
qed

lemma age_of_double: "round53 (age_of x) = age_of x"
  by (simp add: age_of_def round53_idem)

lemma weight_fin:
  assumes "is_double (Fin r)" "0 \<le> r" "0 \<le> age" "round53 age = age" "age < 2 ^ 1024"
  shows "jmax (Fin 0) (jsub (jint 1) (jmul (jfloor (jdiv (Fin age) DECAY_BUCKET_SIZE_MONTHS)) (jdiv (Fin r) (jint 100)))) = Fin (weight_of r age)"
proof -
  have rd: "round53 r = r" "r < 2 ^ 1024" using assms(1) by auto
  have "r / 100 \<le> r" using assms(2) by simp
  then have "round53 (r / 100) \<le> r" by (rule dbl.rnd_le_fixed) (rule rd)
  then have d: "0 \<le> round53 (r / 100)" "round53 (r / 100) < 2 ^ 1024"
    using assms(2) rd(2) by (simp_all add: round53_nonneg)
  have da: "jdiv (Fin r) (jint 100) = Fin (round53 (r / 100))" using d by (simp add: jint_def to_double_fin)
  have b: "jdiv (Fin age) DECAY_BUCKET_SIZE_MONTHS = Fin age"
    using assms(3-5) by (simp add: DECAY_BUCKET_SIZE_MONTHS_def jint_def to_double_fin)
  let ?y = "round53 (of_int \<lfloor>age\<rfloor> * round53 (r / 100))"
  have y: "0 \<le> ?y" using assms(3) by (intro round53_nonneg mult_nonneg_nonneg d(1)) simp
  show ?thesis
  proof (cases "2 ^ 1024 \<le> ?y")
    case True
    then have "jmul (Fin (of_int \<lfloor>age\<rfloor>)) (Fin (round53 (r / 100))) = PInf" by (simp add: to_double_def)
    then show ?thesis using True unfolding b da jfloor.simps by (simp add: jsub_def jint_def jmax_def weight_of_def Let_def)
  next
    case False
    have fy: "jmul (Fin (of_int \<lfloor>age\<rfloor>)) (Fin (round53 (r / 100))) = Fin ?y" using False y by (simp add: to_double_fin)
    have "round53 (- ?y) \<le> round53 (1 - ?y)" "round53 (1 - ?y) \<le> 1"
      using y round53_of_int[of 1] by (simp_all add: round53_mono dbl.rnd_le_one)
    then have "- ?y \<le> round53 (1 - ?y)" by (simp add: round53_minus round53_idem)
    then have "\<bar>round53 (1 - ?y)\<bar> < 2 ^ 1024"
      using False \<open>round53 (1 - ?y) \<le> 1\<close> by (auto simp: abs_less_iff)
    then have "jsub (Fin 1) (Fin ?y) = Fin (round53 (1 - ?y))" by (simp add: jsub_def to_double_fin)
    then show ?thesis using False unfolding b da jfloor.simps fy by (simp add: jint_def jmax_def weight_of_def Let_def max_def)
  qed
qed

lemma weight_of_bounds: "0 \<le> r \<Longrightarrow> 0 \<le> age \<Longrightarrow> 0 \<le> weight_of r age \<and> weight_of r age \<le> 1"
proof -
  assume "0 \<le> r" "0 \<le> age"
  then have "0 \<le> round53 (of_int \<lfloor>age\<rfloor> * round53 (r / 100))"
    by (intro round53_nonneg mult_nonneg_nonneg) simp_all
  then show ?thesis by (simp add: weight_of_def Let_def dbl.rnd_le_one)
qed

lemma weight_of_antimono:
  assumes "0 \<le> r" "age \<le> age'"
  shows "weight_of r age' \<le> weight_of r age"
proof -
  have "0 \<le> round53 (r / 100)" using assms(1) by (intro round53_nonneg) simp
  moreover have "(of_int \<lfloor>age\<rfloor> :: rat) \<le> of_int \<lfloor>age'\<rfloor>" using assms(2) by (simp add: floor_mono)
  ultimately have d: "round53 (of_int \<lfloor>age\<rfloor> * round53 (r / 100)) \<le> round53 (of_int \<lfloor>age'\<rfloor> * round53 (r / 100))"
    by (intro round53_mono mult_right_mono)
  then have "round53 (1 - round53 (of_int \<lfloor>age'\<rfloor> * round53 (r / 100))) \<le> round53 (1 - round53 (of_int \<lfloor>age\<rfloor> * round53 (r / 100)))"
    by (intro round53_mono) simp
  then show ?thesis using d unfolding weight_of_def Let_def by auto
qed

lemma jle_Fin_mono: "jle w (Fin x) \<Longrightarrow> x \<le> y \<Longrightarrow> jle w (Fin y)"
  by (cases w) (auto simp: jle_def jeq_def)

definition decay_params :: "jsnum \<Rightarrow> rat \<Rightarrow> TimeWeightParams" where
  "decay_params window r = \<lparr>tp_engagementWindowMonths = window, tp_monthlyDecayRatePercent = Fin r\<rparr>"

lemma time_weight_fin:
  assumes "valid_time c" "valid_time n" "c \<le> n" "is_double (Fin r)" "0 \<le> r"
  shows "tw_tw (calculateTimeWeight (Fin c) (Fin n) (decay_params window r)) =
    Fin (if jle window (Fin (age_of (n - c))) then 0 else weight_of r (age_of (n - c)))"
proof -
  have a: "0 \<le> age_of (n - c)" using assms(3) by (intro age_of_nonneg) simp
  show ?thesis
    using weight_fin[OF assms(4,5) a age_of_double age_fin(2)[OF assms(1-3)]]
    by (simp add: calculateTimeWeight_def age_fin(1)[OF assms(1-3)] decay_params_def Let_def)
qed

text \<open>
  For a comment or proposal that is not dated in the future and a non-negative decay rate, the time weight is a
  number between zero and one, and an older one never weighs more.
\<close>

lemma time_weight_decays:
  assumes "valid_time c'" "valid_time c" "valid_time n" "c' \<le> c" "c \<le> n" "is_double (Fin r)" "0 \<le> r"
  shows "\<exists>t t'. tw_tw (calculateTimeWeight (Fin c) (Fin n) (decay_params window r)) = Fin t
    \<and> tw_tw (calculateTimeWeight (Fin c') (Fin n) (decay_params window r)) = Fin t' \<and> 0 \<le> t' \<and> t' \<le> t \<and> t \<le> 1"
proof -
  have m: "age_of (n - c) \<le> age_of (n - c')" using assms(4) by (intro age_of_mono) simp
  have a: "0 \<le> age_of (n - c)" using assms(5) by (intro age_of_nonneg) simp
  have b: "0 \<le> weight_of r (age_of (n - c'))" "weight_of r (age_of (n - c')) \<le> weight_of r (age_of (n - c))" "weight_of r (age_of (n - c)) \<le> 1"
    using weight_of_bounds[OF assms(7)] weight_of_antimono[OF assms(7) m] a m by auto
  have j: "jle window (Fin (age_of (n - c))) \<Longrightarrow> jle window (Fin (age_of (n - c')))" using jle_Fin_mono m by blast
  have w: "tw_tw (calculateTimeWeight (Fin c) (Fin n) (decay_params window r)) = Fin (if jle window (Fin (age_of (n - c))) then 0 else weight_of r (age_of (n - c)))"
    by (rule time_weight_fin) (use assms in auto)
  have w': "tw_tw (calculateTimeWeight (Fin c') (Fin n) (decay_params window r)) = Fin (if jle window (Fin (age_of (n - c'))) then 0 else weight_of r (age_of (n - c')))"
    by (rule time_weight_fin) (use assms in auto)
  show ?thesis using w w' b j by (cases "jle window (Fin (age_of (n - c)))"; cases "jle window (Fin (age_of (n - c')))") auto
qed

theorem time_weight_decays_witness:
  "\<exists>t t'. tw_tw (calculateTimeWeight (Fin 5000) (Fin 9000) (decay_params (jint 12) 3)) = Fin t
    \<and> tw_tw (calculateTimeWeight (Fin 1000) (Fin 9000) (decay_params (jint 12) 3)) = Fin t' \<and> 0 \<le> t' \<and> t' \<le> t \<and> t \<le> 1"
  using is_double_int[of 3] by (intro time_weight_decays) (simp_all add: valid_time_def)

section \<open>The contribution score is its reference\<close>

subsection \<open>Maps built by a loop\<close>

lemma map_of_fold_update:
  "distinct (map k xs) \<Longrightarrow> map_of (fold (\<lambda>x. AList.update (k x) (v x)) xs m) key =
     (case List.find (\<lambda>x. k x = key) xs of Some x \<Rightarrow> Some (v x) | None \<Rightarrow> map_of m key)"
proof (induction xs arbitrary: m)
  case (Cons x xs)
  have "k x = key \<Longrightarrow> List.find (\<lambda>y. k y = key) xs = None" using Cons.prems by (metis (mono_tags, lifting) distinct.simps(2) find_None_iff image_eqI list.simps(9) set_map)
  then show ?case using Cons by (auto simp: update_conv' split: option.split)
qed simp

lemma find_Some_distinct:
  assumes "distinct (map k xs)"
  shows "List.find (\<lambda>x. k x = key) xs = Some x \<longleftrightarrow> x \<in> set xs \<and> k x = key"
  using assms by (induction xs) auto

lemma fold_update_Some:
  assumes "distinct (map k xs)"
  shows "map_of (fold (\<lambda>x. AList.update (k x) (v x)) xs []) key = Some y \<longleftrightarrow> (\<exists>x \<in> set xs. k x = key \<and> v x = y)"
proof (cases "List.find (\<lambda>x. k x = key) xs")
  case None
  then have "\<forall>x \<in> set xs. k x \<noteq> key" by (auto simp: find_None_iff)
  then show ?thesis unfolding map_of_fold_update[OF assms] None by simp
next
  case (Some x)
  then have "x \<in> set xs \<and> k x = key" by (simp add: find_Some_distinct[OF assms])
  moreover have "y = x" if "y \<in> set xs" "k y = key" for y
    using that Some find_Some_distinct[OF assms, of key] by (metis option.inject)
  ultimately show ?thesis using Some assms by (auto simp: map_of_fold_update)
qed

lemma jint_inject [simp]: "jint a = jint b \<longleftrightarrow> a = b"
  by (simp add: jint_def)

lemma set_fold_set_add [simp]: "set (fold set_add xs acc) = set acc \<union> set xs"
  by (induction xs arbitrary: acc) auto

text \<open>The primary keys of the tables.\<close>

definition keys_unique :: "PortalDb \<Rightarrow> bool" where
  "keys_unique db \<longleftrightarrow> distinct (map ur_id (pd_users db)) \<and> distinct (map pp_id (pd_proposals db)) \<and> distinct (map cr_commentId (pd_comments db))"

definition has_did :: "PortalDb \<Rightarrow> int \<Rightarrow> string \<Rightarrow> bool" where
  "has_did db user did \<longleftrightarrow> list_ex (\<lambda>u. ur_id u = user \<and> ur_did u = did) (usersWithDid db)"

lemma distinct_map_filter': "distinct (map f xs) \<Longrightarrow> distinct (map f (filter P xs))"
  by (induction xs) auto

lemma userIdToDid_Some:
  assumes "keys_unique db"
  shows "map_of (userIdToDid db) (jint user) = Some did \<longleftrightarrow> has_did db user did"
proof -
  have "distinct (map ur_id (usersWithDid db))" using assms by (simp add: keys_unique_def usersWithDid_def distinct_map_filter')
  then have "distinct (map jint (map ur_id (usersWithDid db)))" by (simp add: distinct_map inj_on_def)
  then have "distinct (map (\<lambda>u. jint (ur_id u)) (usersWithDid db))" by (simp add: comp_def)
  then show ?thesis unfolding userIdToDid_def has_did_def by (subst fold_update_Some) (auto simp: list_ex_iff)
qed

subsection \<open>Votes, owners and authors\<close>

lemma getVoteStats_update: "getVoteStats c (AList.update c' e m) = (if c = c' then e else getVoteStats c m)"
  by (simp add: getVoteStats_def update_conv')

lemma getVoteStats_fold:
  "getVoteStats c (fold (\<lambda>vote m. AList.update (vt_comment_id vote) (count_vote vote (getVoteStats (vt_comment_id vote) m)) m) votes m) =
   fold count_vote (filter (\<lambda>v. vt_comment_id v = c) votes) (getVoteStats c m)"
  by (induction votes arbitrary: m) (auto simp: getVoteStats_update)

definition votes_on :: "string \<Rightarrow> PortalDb \<Rightarrow> int \<Rightarrow> CommentVoteRecord list" where
  "votes_on kind db c = filter (\<lambda>v. vt_comment_id v = c \<and> vt_vote_type v = kind) (pd_commentVotes db)"

lemma count_votes:
  "vs_upvotes (fold count_vote vs e) = vs_upvotes e + int (length (filter (\<lambda>v. vt_vote_type v = ''upvote'') vs))"
  "vs_downvotes (fold count_vote vs e) = vs_downvotes e + int (length (filter (\<lambda>v. vt_vote_type v = ''downvote'') vs))"
  "set (vs_upvoterIds (fold count_vote vs e)) = set (vs_upvoterIds e) \<union> vt_voter_id ` set (filter (\<lambda>v. vt_vote_type v = ''upvote'') vs)"
  by (induction vs arbitrary: e) (auto simp: count_vote_def)

lemma vote_stats:
  "vs_upvotes (getVoteStats c (aggregateVotesByComment (pd_commentVotes db))) = int (length (votes_on ''upvote'' db c))"
  "vs_downvotes (getVoteStats c (aggregateVotesByComment (pd_commentVotes db))) = int (length (votes_on ''downvote'' db c))"
  "set (vs_upvoterIds (getVoteStats c (aggregateVotesByComment (pd_commentVotes db)))) = vt_voter_id ` set (votes_on ''upvote'' db c)"
  unfolding aggregateVotesByComment_def getVoteStats_fold count_votes
  by (simp_all add: getVoteStats_def no_votes_def votes_on_def conj_commute)

definition is_owner :: "ProposalRecord \<Rightarrow> int \<Rightarrow> bool" where
  "is_owner p user \<longleftrightarrow> user = pp_proposerId p \<or> jint user \<in> set (parseTeamMembers (pp_teamMembers p))"

lemma set_fold_pair: "set (fold (\<lambda>x. set_add (x, i)) xs acc) = set acc \<union> (\<lambda>x. (x, i)) ` set xs"
  by (induction xs arbitrary: acc) auto

lemma relation_fold:
  "(jint user, pid) \<in> set (fold (\<lambda>p m. fold (\<lambda>memberId. set_add (memberId, pp_id p)) (parseTeamMembers (pp_teamMembers p))
        (set_add (jint (pp_proposerId p), pp_id p) m)) ps acc)
   \<longleftrightarrow> (jint user, pid) \<in> set acc \<or> list_ex (\<lambda>p. pp_id p = pid \<and> is_owner p user) ps"
  by (induction ps arbitrary: acc) (auto simp: set_fold_pair is_owner_def)

lemma relation_map: "(jint user, pid) \<in> set (buildRelationMap ps) \<longleftrightarrow> list_ex (\<lambda>p. pp_id p = pid \<and> is_owner p user) ps"
  by (simp add: buildRelationMap_def relation_fold)

lemma owner_map:
  assumes "distinct (map pp_id ps)"
  shows "(\<exists>owners. map_of (buildProjectOwnerMap ps) pid = Some owners \<and> (\<exists>u \<in> U. jint u \<in> set owners))
    \<longleftrightarrow> list_ex (\<lambda>p. pp_id p = pid \<and> (\<exists>u \<in> U. is_owner p u)) ps"
  unfolding buildProjectOwnerMap_def fold_update_Some[OF assms]
proof -
  have "(\<exists>u \<in> U. jint u \<in> set (proposal_owners p)) \<longleftrightarrow> (\<exists>u \<in> U. is_owner p u)" for p
    by (auto simp: proposal_owners_def is_owner_def)
  then show "(\<exists>owners. (\<exists>p \<in> set ps. pp_id p = pid \<and> proposal_owners p = owners) \<and> (\<exists>u \<in> U. jint u \<in> set owners))
      \<longleftrightarrow> list_ex (\<lambda>p. pp_id p = pid \<and> (\<exists>u \<in> U. is_owner p u)) ps"
    unfolding list_ex_iff by blast
qed

lemma author_map:
  assumes "distinct (map cr_commentId cs)"
  shows "map_of (buildCommentAuthorMap cs) c = Some user \<longleftrightarrow> list_ex (\<lambda>q. cr_commentId q = c \<and> cr_userId q = user) cs"
  unfolding buildCommentAuthorMap_def fold_update_Some[OF assms] by (auto simp: list_ex_iff)

subsection \<open>The reference\<close>

text \<open>
  What a comment is worth, read off the tables: votes counted where they are, relations looked up where they are;
  nothing when it is outside the window.
\<close>

definition comment_points :: "(string \<Rightarrow> jsnum) \<Rightarrow> jsnum \<Rightarrow> ContributionScoreParams \<Rightarrow> PortalDb \<Rightarrow> CommentRecord \<Rightarrow> jsnum option" where
  "comment_points date now params db cm =
     (let timeWeight = comment_time_weight date now params cm;
          up = votes_on ''upvote'' db (cr_commentId cm);
          down = votes_on ''downvote'' db (cr_commentId cm);
          endorsed = list_ex (\<lambda>p. pp_id p = cr_proposalId cm \<and> list_ex (\<lambda>v. is_owner p (vt_voter_id v)) up) (pd_proposals db);
          related = list_ex (\<lambda>p. pp_id p = cr_proposalId cm \<and> is_owner p (cr_userId cm)) (pd_proposals db);
          ownReply = (cr_isReply cm \<and> 0 < cr_parentId cm
            \<and> list_ex (\<lambda>q. cr_commentId q = cr_parentId cm \<and> cr_userId q = cr_userId cm) (pd_comments db));
          bonus = (if endorsed then cp_projectOwnerUpvoteBonusMultiplier params else Fin 1);
          discount = penalty_power (cp_selfInteractionPenaltyFactor params) ((if related then 1 else 0) + (if ownReply then 1 else 0));
          base = jsub (jadd (cp_commentBaseScore params) (jmul (jint (int (length up))) (cp_commentUpvoteWeight params)))
                   (jmul (jint (int (length down))) (cp_commentDownvoteWeight params))
      in if tw_isWithinWindow timeWeight then Some (jmul (jmul (jmul bonus (tw_tw timeWeight)) discount) base) else None)"

definition contribution_of :: "(string \<Rightarrow> jsnum) \<Rightarrow> jsnum \<Rightarrow> ContributionScoreParams \<Rightarrow> PortalDb \<Rightarrow> string \<Rightarrow> jsnum" where
  "contribution_of date now params db did =
     round2 (foldl jadd (Fin 0)
       (List.map_filter (comment_points date now params db) (filter (\<lambda>cm. has_did db (cr_userId cm) did) (pd_comments db))))"

lemma time_weight_valid [simp]: "tw_isValid (calculateTimeWeight c n params)"
  by (simp add: calculateTimeWeight_def Let_def)

lemma owner_bonus:
  assumes "distinct (map pp_id ps)" "set (vs_upvoterIds votes) = vt_voter_id ` set up"
  shows "ob_ownerBonus (computeOwnerBonus pid votes (buildProjectOwnerMap ps) b) =
    (if list_ex (\<lambda>p. pp_id p = pid \<and> list_ex (\<lambda>v. is_owner p (vt_voter_id v)) up) ps then b else Fin 1)"
  using owner_map[OF assms(1), of pid "vt_voter_id ` set up"]
  by (auto simp: computeOwnerBonus_def list_ex_iff assms(2) split: option.split)

lemma score_comment_reference:
  assumes "keys_unique db"
  shows "fst (score_comment date now params (contribution_context db) cm) =
    (case comment_points date now params db cm of
       None \<Rightarrow> \<lparr>sc_score = Fin 0, sc_scored = False\<rparr> | Some x \<Rightarrow> \<lparr>sc_score = x, sc_scored = True\<rparr>)"
proof -
  have k: "distinct (map pp_id (pd_proposals db))" "distinct (map cr_commentId (pd_comments db))" using assms by (simp_all add: keys_unique_def)
  show ?thesis
    unfolding score_comment_def comment_points_def contribution_context_def computeCommentScore_def calculateBaseScore_def
      detectSelfInteraction_def Let_def
    by (simp add: owner_bonus[OF k(1) vote_stats(3)] vote_stats relation_map author_map[OF k(2)] comment_time_weight_def computeTimeWeightFromString_def)
qed

lemma map_filter_append: "List.map_filter f (xs @ ys) = List.map_filter f xs @ List.map_filter f ys"
  by (simp add: map_filter_def)

lemma score_of_update: "score_of (AList.update d x m) d' = (if d' = d then x else score_of m d')"
  by (simp add: score_of_def update_conv')

lemma contribution_fold:
  assumes "keys_unique db"
  shows "score_of (cx_didScores (fold (contribution_step date now params (contribution_context db)) cms run)) did =
    foldl jadd (score_of (cx_didScores run) did)
      (List.map_filter (comment_points date now params db) (filter (\<lambda>cm. has_did db (cr_userId cm) did) cms))"
proof (induction cms arbitrary: run)
  case (Cons cm cms)
  have "score_of (cx_didScores (contribution_step date now params (contribution_context db) cm run)) did =
     foldl jadd (score_of (cx_didScores run) did) (List.map_filter (comment_points date now params db) (filter (\<lambda>cm. has_did db (cr_userId cm) did) [cm]))"
  proof (cases "map_of (userIdToDid db) (jint (cr_userId cm))")
    case None
    then have "\<not> has_did db (cr_userId cm) did" using userIdToDid_Some[OF assms] by (metis option.distinct(1))
    then show ?thesis using None by (simp add: contribution_step_def contribution_context_def map_filter_def)
  next
    case (Some d)
    have h: "has_did db (cr_userId cm) did \<longleftrightarrow> d = did" using Some userIdToDid_Some[OF assms] by (metis option.inject)
    have c: "map_of (cc_userIdToDid (contribution_context db)) (jint (cr_userId cm)) = Some d" using Some by (simp add: contribution_context_def)
    obtain b where b: "score_comment date now params (contribution_context db) cm = (fst (score_comment date now params (contribution_context db) cm), b)"
      by (metis prod.collapse)
    show ?thesis using h score_comment_reference[OF assms, of date now params cm]
      by (cases "comment_points date now params db cm")
        (simp_all add: contribution_step_def c case_prod_beta Let_def score_of_update map_filter_def)
  qed
  moreover have "filter (\<lambda>cm. has_did db (cr_userId cm) did) (cm # cms)
      = filter (\<lambda>cm. has_did db (cr_userId cm) did) [cm] @ filter (\<lambda>cm. has_did db (cr_userId cm) did) cms" by simp
  ultimately show ?case by (simp only: fold_simps Cons map_filter_append foldl_append)
qed (simp add: map_filter_def)

lemma score_of_zero: "score_of (map (\<lambda>did. (did, Fin 0)) dids) did = Fin 0"
  by (induction dids) (auto simp: score_of_def)

text \<open>
  C30: The CSV of a contribution run has one row for every DID of a portal user and no other.  The row's score is the
  rounded sum, in the order of the comments, of what each comment in the window by a user of that DID is worth: the
  indexes the run builds over votes, owners and authors give the same as counting in the tables.
\<close>

theorem contribution_scores_are_reference:
  assumes "createDeepFundingDb snapshotId store = Inr db" "keys_unique db"
  shows "\<exists>rows details. computeContributionScore lc date now snapshotId key inputs store =
      Inr [(generateKey snapshot snapshotId (key @ ''.csv''), ContributionCsv rows),
           (generateKey snapshot snapshotId ''contribution_score_details.json'', ContributionDetails details)]
    \<and> distinct (map sr_did rows) \<and> set (map sr_did rows) = ur_did ` set (usersWithDid db)
    \<and> (\<forall>row \<in> set rows. sr_score row = contribution_of date now (contribution_extractInputs inputs) db (sr_did row))"
proof -
  let ?run = "contribution_run lc date now (contribution_extractInputs inputs) db"
  let ?rows = "contribution_results lc db ?run"
  have d: "map sr_did ?rows = sort_by lc (portal_dids lc db)"
    unfolding contribution_results_def sort_rows_def map_sort_by by (simp add: comp_def)
  have s: "score_of (cx_didScores ?run) did = foldl jadd (Fin 0) (List.map_filter (comment_points date now (contribution_extractInputs inputs) db)
      (filter (\<lambda>cm. has_did db (cr_userId cm) did) (pd_comments db)))" for did
    unfolding contribution_run_def contribution_fold[OF assms(2)] by (simp add: score_of_zero)
  have "\<forall>row \<in> set ?rows. sr_score row = contribution_of date now (contribution_extractInputs inputs) db (sr_did row)"
    by (auto simp: contribution_results_def sort_rows_def contribution_of_def s)
  moreover have "distinct (map sr_did ?rows)" "set (map sr_did ?rows) = ur_did ` set (usersWithDid db)"
    unfolding d by (simp_all add: portal_dids_def)
  ultimately show ?thesis using assms(1) by (simp add: computeContributionScore_def Let_def)
qed

definition demo_comment :: CommentRecord where
  "demo_comment = \<lparr>cr_commentId = 1, cr_parentId = 0, cr_isReply = False, cr_userId = 7, cr_proposalId = 2, cr_content = ''c'',
     cr_commentVotes = ''0'', cr_createdAt = ''2024-01-01'', cr_updatedAt = ''2024-01-01''\<rparr>"

definition demo_proposal :: ProposalRecord where
  "demo_proposal = \<lparr>pp_id = 2, pp_roundId = 31, pp_poolId = 1, pp_proposerId = 7, pp_title = ''t'', pp_content = ''c'', pp_link = ''l'',
     pp_featureImage = ''f'', pp_requestedAmount = ''1'', pp_awardedAmount = ''1'', pp_isAwarded = JBool True, pp_isCompleted = JBool True,
     pp_createdAt = ''2024-01-01'', pp_updatedAt = None, pp_teamMembers = [JNum (jint 7), JStr ''8'']\<rparr>"

definition demo_review :: ReviewRecord where
  "demo_review = \<lparr>re_reviewId = 1, re_proposalId = Some 2, re_reviewerId = Some 3, re_reviewType = ''community'', re_overallRating = ''n/a'',
     re_feasibilityRating = ''5'', re_viabilityRating = ''5'', re_desirabilityRating = ''5'', re_usefulnessRating = ''5'', re_createdAt = None\<rparr>"

definition demo_db :: PortalDb where
  "demo_db = createDb\<lparr>pd_users := [normalizeUserToRecord demo_user], pd_comments := [demo_comment], pd_proposals := [demo_proposal],
     pd_reviews := [demo_review]\<rparr>"

definition demo_store :: "string \<Rightarrow> portal_object option" where
  "demo_store = [db_key ''s'' \<mapsto> DbFile demo_db]"

lemma demo_db_ok: "createDeepFundingDb ''s'' demo_store = Inr demo_db" "keys_unique demo_db"
  by (simp_all add: createDeepFundingDb_def demo_store_def keys_unique_def demo_db_def createDb_def)

lemma demo_dids: "ur_did ` set (usersWithDid demo_db) = {''did:plc:abc''}"
  by code_simp

theorem contribution_scores_are_reference_witness:
  "\<exists>rows details. computeContributionScore (\<lambda>_ _. True) (\<lambda>_. Fin 0) (Fin 1000) ''s'' ''contribution_score'' [] demo_store =
      Inr [(generateKey snapshot ''s'' ''contribution_score.csv'', ContributionCsv rows),
           (generateKey snapshot ''s'' ''contribution_score_details.json'', ContributionDetails details)]
    \<and> distinct (map sr_did rows) \<and> set (map sr_did rows) = {''did:plc:abc''}
    \<and> (\<forall>row \<in> set rows. sr_score row = contribution_of (\<lambda>_. Fin 0) (Fin 1000) (contribution_extractInputs []) demo_db (sr_did row))"
  using contribution_scores_are_reference[OF demo_db_ok, of "\<lambda>_ _. True" "\<lambda>_. Fin 0" "Fin 1000" "''contribution_score''" "[]"]
  unfolding demo_dids by simp

section \<open>The engagement of a DID is its reference\<close>

definition community_ratings :: "PortalDb \<Rightarrow> int \<Rightarrow> jsnum list" where
  "community_ratings db pid =
     (if pid = 0 then []
      else map (\<lambda>r. js_parseFloat (re_overallRating r))
        (filter (\<lambda>r. re_reviewType r = ''community'' \<and> re_proposalId r = Some pid) (pd_reviews db)))"

definition rating_entry :: "(int \<times> CommunityRatingStats) list \<Rightarrow> int \<Rightarrow> CommunityRatingStats" where
  "rating_entry m pid = (case map_of m pid of Some e \<Rightarrow> e | None \<Rightarrow> \<lparr>cs_sum = Fin 0, cs_count = 0\<rparr>)"

lemma add_review_entry:
  "rating_entry (add_review r m) pid =
     (if re_reviewType r = ''community'' \<and> re_proposalId r = Some pid \<and> pid \<noteq> 0
      then \<lparr>cs_sum = jadd (cs_sum (rating_entry m pid)) (js_parseFloat (re_overallRating r)), cs_count = cs_count (rating_entry m pid) + 1\<rparr>
      else rating_entry m pid)"
  by (auto simp: add_review_def rating_entry_def update_conv' Let_def split: option.splits)

lemma add_reviews_entry:
  "rating_entry (fold add_review rs m) pid =
     (let xs = (if pid = 0 then [] else map (\<lambda>r. js_parseFloat (re_overallRating r))
                  (filter (\<lambda>r. re_reviewType r = ''community'' \<and> re_proposalId r = Some pid) rs))
      in \<lparr>cs_sum = foldl jadd (cs_sum (rating_entry m pid)) xs, cs_count = cs_count (rating_entry m pid) + int (length xs)\<rparr>)"
  by (induction rs arbitrary: m) (auto simp: add_review_entry Let_def)

text \<open>The normalised community score of a proposal: the mean of its ratings over five.\<close>

definition community_norm :: "PortalDb \<Rightarrow> int \<Rightarrow> jsnum option" where
  "community_norm db pid =
     (let xs = community_ratings db pid
      in if xs = [] then None else Some (jdiv (jdiv (foldl jadd (Fin 0) xs) (jint (int (length xs)))) (jint 5)))"

lemma community_score_norm: "co_norm (computeCommunityScore pid (aggregateCommunityRatings (pd_reviews db))) = community_norm db pid"
proof -
  let ?m = "aggregateCommunityRatings (pd_reviews db)"
  have e: "rating_entry ?m pid = \<lparr>cs_sum = foldl jadd (Fin 0) (community_ratings db pid), cs_count = int (length (community_ratings db pid))\<rparr>"
    unfolding aggregateCommunityRatings_def add_reviews_entry by (simp add: community_ratings_def rating_entry_def Let_def)
  show ?thesis
  proof (cases "map_of ?m pid")
    case None
    then have "community_ratings db pid = []" using e by (simp add: rating_entry_def)
    then show ?thesis using None by (simp add: computeCommunityScore_def community_norm_def)
  next
    case (Some stats)
    then have "stats = \<lparr>cs_sum = foldl jadd (Fin 0) (community_ratings db pid), cs_count = int (length (community_ratings db pid))\<rparr>"
      using e by (simp add: rating_entry_def)
    then show ?thesis using Some by (simp add: computeCommunityScore_def community_norm_def Let_def)
  qed
qed

text \<open>
  The reward and the penalty of a proposal, nothing when it does not count: a round outside the supported ones, a date
  outside the window, no community rating, an award without completion, or a result of zero.
\<close>

definition proposal_points :: "(string \<Rightarrow> jsnum) \<Rightarrow> jsnum \<Rightarrow> ProposalEngagementParams \<Rightarrow> PortalDb \<Rightarrow> ProposalRecord \<Rightarrow> (jsnum \<times> jsnum) option" where
  "proposal_points date now params db p =
     (let timeWeight = proposal_time_weight date now params p; awarded = toBool (pp_isAwarded p); completed = toBool (pp_isCompleted p)
      in if pp_roundId p \<notin> {31, 36, 107} \<or> \<not> tw_isWithinWindow timeWeight \<or> awarded \<and> \<not> completed then None
         else
           (case community_norm db (pp_id p) of
              None \<Rightarrow> None
            | Some nrm \<Rightarrow>
                (let points = (if awarded then jmul (tw_tw timeWeight) nrm else jmul (tw_tw timeWeight) (jsub (jint 1) nrm))
                 in if jeq points (Fin 0) then None else Some (if awarded then (points, Fin 0) else (Fin 0, points)))))"

lemma score_proposal_reference:
  "(if pr_scored (score_proposal date now params (aggregateCommunityRatings (pd_reviews db)) p)
    then Some (pr_proposalReward (score_proposal date now params (aggregateCommunityRatings (pd_reviews db)) p),
               pr_proposalPenalty (score_proposal date now params (aggregateCommunityRatings (pd_reviews db)) p))
    else None) = proposal_points date now params db p"
proof -
  have z: "jeq (Fin 0) (Fin 0)" by (simp add: jeq_def)
  have v: "tw_isValid (proposal_time_weight date now params p)" by (simp add: proposal_time_weight_def computeTimeWeightFromString_def)
  show ?thesis
    unfolding score_proposal_def computeProposalScore_def skip_reason_def community_score_norm proposal_points_def Let_def
    by (simp add: v z classifyProposal_def SUPPORTED_ROUND_IDS_def skipped_def Let_def split: option.split)
qed

lemma owner_dids_set: "set (owner_dids toDid owners) = {did. \<exists>w \<in> set owners. map_of toDid w = Some did}"
  and owner_dids_distinct: "distinct (owner_dids toDid owners)"
proof -
  have "set (fold (\<lambda>userId dids. case map_of toDid userId of None \<Rightarrow> dids | Some did \<Rightarrow> set_add did dids) os acc)
      = set acc \<union> {did. \<exists>w \<in> set os. map_of toDid w = Some did}
    \<and> (distinct acc \<longrightarrow> distinct (fold (\<lambda>userId dids. case map_of toDid userId of None \<Rightarrow> dids | Some did \<Rightarrow> set_add did dids) os acc))" for os acc
    by (induction os arbitrary: acc) (auto split: option.split)
  then show "set (owner_dids toDid owners) = {did. \<exists>w \<in> set owners. map_of toDid w = Some did}" "distinct (owner_dids toDid owners)"
    unfolding owner_dids_def by auto
qed

definition owned_by :: "PortalDb \<Rightarrow> string \<Rightarrow> ProposalRecord \<Rightarrow> bool" where
  "owned_by db did p \<longleftrightarrow> list_ex (\<lambda>u. is_owner p (ur_id u) \<and> ur_did u = did) (usersWithDid db)"

lemma owner_did_owned:
  assumes "keys_unique db"
  shows "did \<in> set (owner_dids (userIdToDid db) (ow_ownersArray (buildProposalOwners p))) \<longleftrightarrow> owned_by db did p"
proof -
  have k: "map_of (userIdToDid db) o' = Some did \<longleftrightarrow> (\<exists>u \<in> set (usersWithDid db). o' = jint (ur_id u) \<and> ur_did u = did)" for o'
  proof -
    have "distinct (map ur_id (usersWithDid db))" using assms by (simp add: keys_unique_def usersWithDid_def distinct_map_filter')
    then have "distinct (map (\<lambda>u. jint (ur_id u)) (usersWithDid db))" by (auto simp: distinct_map inj_on_def)
    then show ?thesis unfolding userIdToDid_def by (subst fold_update_Some) auto
  qed
  have "set (ow_ownersArray (buildProposalOwners p)) = insert (jint (pp_proposerId p)) (set (parseTeamMembers (pp_teamMembers p)))"
    by (auto simp: buildProposalOwners_def Let_def)
  then show ?thesis unfolding owner_dids_set by (auto simp: k owned_by_def list_ex_iff is_owner_def) metis
qed

lemma acc_of_update: "acc_of (AList.update d x m) d' = (if d' = d then x else acc_of m d')"
  by (simp add: acc_of_def update_conv')

lemma credit_all:
  "distinct ds \<Longrightarrow> acc_of (px_accumulators (fold (credit score) ds run)) did =
    (if did \<in> set ds
     then \<lparr>ua_positiveSum = jadd (ua_positiveSum (acc_of (px_accumulators run) did)) (pr_proposalReward score),
           ua_negativeSum = jadd (ua_negativeSum (acc_of (px_accumulators run) did)) (pr_proposalPenalty score)\<rparr>
     else acc_of (px_accumulators run) did)"
  by (induction ds arbitrary: run) (auto simp: credit_def acc_of_update Let_def)

definition counted_points :: "(string \<Rightarrow> jsnum) \<Rightarrow> jsnum \<Rightarrow> ProposalEngagementParams \<Rightarrow> PortalDb \<Rightarrow> string \<Rightarrow> ProposalRecord list \<Rightarrow> (jsnum \<times> jsnum) list" where
  "counted_points date now params db did ps = List.map_filter (proposal_points date now params db) (filter (owned_by db did) ps)"

lemma counted_append:
  "counted_points date now params db did (ps @ qs) = counted_points date now params db did ps @ counted_points date now params db did qs"
  by (simp add: counted_points_def map_filter_append)

definition add_points :: "UserScoreAccumulator \<Rightarrow> (jsnum \<times> jsnum) list \<Rightarrow> UserScoreAccumulator" where
  "add_points a pts = \<lparr>ua_positiveSum = foldl jadd (ua_positiveSum a) (map fst pts), ua_negativeSum = foldl jadd (ua_negativeSum a) (map snd pts)\<rparr>"

lemma add_points_append: "add_points a (xs @ ys) = add_points (add_points a xs) ys"
  by (simp add: add_points_def)

lemma add_points_Nil [simp]: "add_points a [] = a"
  by (simp add: add_points_def)

lemma proposal_step_reference:
  assumes "keys_unique db"
  shows "acc_of (px_accumulators (proposal_step date now params (aggregateCommunityRatings (pd_reviews db)) (userIdToDid db) p run)) did =
    add_points (acc_of (px_accumulators run) did) (counted_points date now params db did [p])"
proof -
  let ?s = "score_proposal date now params (aggregateCommunityRatings (pd_reviews db)) p"
  note reference = score_proposal_reference[of date now params db p]
  show ?thesis
  proof (cases "pr_scored ?s")
    case True
    then have "proposal_points date now params db p = Some (pr_proposalReward ?s, pr_proposalPenalty ?s)" using reference by simp
    then show ?thesis using True
      by (simp add: proposal_step_def Let_def credit_all[OF owner_dids_distinct] owner_did_owned[OF assms] counted_points_def map_filter_def add_points_def)
  next
    case False
    then have "proposal_points date now params db p = None" using reference by simp
    then show ?thesis using False by (simp add: proposal_step_def Let_def counted_points_def map_filter_def)
  qed
qed

lemma proposal_fold:
  assumes "keys_unique db"
  shows "acc_of (px_accumulators (fold (proposal_step date now params (aggregateCommunityRatings (pd_reviews db)) (userIdToDid db)) ps run)) did =
    add_points (acc_of (px_accumulators run) did) (counted_points date now params db did ps)"
proof (induction ps arbitrary: run)
  case (Cons p ps)
  have "counted_points date now params db did (p # ps) = counted_points date now params db did [p] @ counted_points date now params db did ps"
    using counted_append[of date now params db did "[p]" ps] by simp
  then show ?case by (simp only: fold_simps Cons proposal_step_reference[OF assms] add_points_append)
qed (simp add: counted_points_def map_filter_def)

definition proposal_engagement_of :: "(string \<Rightarrow> jsnum) \<Rightarrow> jsnum \<Rightarrow> ProposalEngagementParams \<Rightarrow> PortalDb \<Rightarrow> string \<Rightarrow> jsnum" where
  "proposal_engagement_of date now params db did =
     (let points = counted_points date now params db did (pd_proposals db)
      in round2 (jsub (jmul (ep_fundedConcludedRewardWeight params) (foldl jadd (Fin 0) (map fst points)))
                      (jmul (ep_unfundedPenaltyWeight params) (foldl jadd (Fin 0) (map snd points)))))"

lemma acc_of_start: "acc_of (map (\<lambda>did. (did, no_score)) dids) did = no_score"
  by (induction dids) (auto simp: acc_of_def)

lemma engagement_reference:
  assumes "keys_unique db"
  shows "engagement_of params (acc_of (px_accumulators (proposal_run lc date now params db)) did) = proposal_engagement_of date now params db did"
proof -
  have "acc_of (px_accumulators (proposal_run lc date now params db)) did = add_points no_score (counted_points date now params db did (pd_proposals db))"
    unfolding proposal_run_def proposal_fold[OF assms] by (simp add: acc_of_start)
  then show ?thesis by (simp add: add_points_def engagement_of_def proposal_engagement_of_def no_score_def Let_def)
qed

lemma proposal_rows_reference:
  assumes "createDeepFundingDb snapshotId store = Inr db" "keys_unique db"
  shows "\<exists>rows details. computeProposalEngagement lc date now snapshotId key inputs store =
      Inr [(generateKey snapshot snapshotId (key @ ''.csv''), ProposalCsv rows),
           (generateKey snapshot snapshotId ''proposal_engagement_details.json'', ProposalDetails details)]
    \<and> distinct (map sr_did rows) \<and> set (map sr_did rows) = ur_did ` set (usersWithDid db)
    \<and> (\<forall>row \<in> set rows. sr_score row = proposal_engagement_of date now (proposal_extractInputs inputs) db (sr_did row))"
proof -
  let ?run = "proposal_run lc date now (proposal_extractInputs inputs) db"
  let ?rows = "sort_rows lc (proposal_scores lc (proposal_extractInputs inputs) db ?run)"
  have d: "map sr_did ?rows = sort_by lc (portal_dids lc db)"
    unfolding proposal_scores_def sort_rows_def map_sort_by by (simp add: comp_def)
  have "\<forall>row \<in> set ?rows. sr_score row = proposal_engagement_of date now (proposal_extractInputs inputs) db (sr_did row)"
    by (auto simp: proposal_scores_def sort_rows_def engagement_reference[OF assms(2)])
  moreover have "distinct (map sr_did ?rows)" "set (map sr_did ?rows) = ur_did ` set (usersWithDid db)"
    unfolding d by (simp_all add: portal_dids_def)
  ultimately show ?thesis using assms(1) by (simp add: computeProposalEngagement_def Let_def)
qed



section \<open>A rating that is not a number\<close>

lemma NaN_absorbs [simp]:
  "jadd x NaN = NaN" "jadd NaN x = NaN" "jmul x NaN = NaN" "jmul NaN x = NaN" "jdiv NaN x = NaN" "jsub NaN x = NaN" "jsub x NaN = NaN"
  by (cases x; simp add: jsub_def)+

lemma foldl_jadd_NaN_start [simp]: "foldl jadd NaN xs = NaN"
  by (induction xs) simp_all

lemma foldl_jadd_NaN: "NaN \<in> set xs \<Longrightarrow> foldl jadd a xs = NaN"
  by (induction xs arbitrary: a) auto

lemma round2_NaN [simp]: "round2 NaN = NaN"
  by (simp add: round2_def)

lemma NaN_rating_points:
  assumes "r \<in> set (pd_reviews db)" "re_reviewType r = ''community''" "re_proposalId r = Some (pp_id p)" "pp_id p \<noteq> 0"
    and "js_parseFloat (re_overallRating r) = NaN" "pp_roundId p \<in> set SUPPORTED_ROUND_IDS"
    and "tw_isWithinWindow (proposal_time_weight date now params p)" "isScorableClassification (ps_classification (classifyProposal p))"
  shows "\<exists>x. proposal_points date now params db p = Some x \<and> (fst x = NaN \<or> snd x = NaN)"
proof -
  have "NaN \<in> set (community_ratings db (pp_id p))" using assms(1-5) by (force simp: community_ratings_def)
  then have "community_norm db (pp_id p) = Some NaN" by (auto simp: community_norm_def Let_def foldl_jadd_NaN)
  moreover have "\<not> (toBool (pp_isAwarded p) \<and> \<not> toBool (pp_isCompleted p))"
    using assms(8) by (simp add: classifyProposal_def isScorableClassification_def Let_def split: if_splits)
  ultimately show ?thesis using assms(6,7) by (simp add: proposal_points_def Let_def SUPPORTED_ROUND_IDS_def jeq_def)
qed

text \<open>
  C39: One community review whose rating is not a number makes the score of every owner of the proposal \<^verbatim>\<open>NaN\<close>: the
  rating is summed although it is not valid, and the result counts as scored because it differs from zero.
\<close>

theorem malformed_rating_spoils_owners:
  assumes "createDeepFundingDb snapshotId store = Inr db" "keys_unique db"
    and "p \<in> set (pd_proposals db)" "owned_by db did p" "pp_roundId p \<in> set SUPPORTED_ROUND_IDS" "pp_id p \<noteq> 0"
    and "tw_isWithinWindow (proposal_time_weight date now (proposal_extractInputs inputs) p)"
    and "isScorableClassification (ps_classification (classifyProposal p))"
    and "r \<in> set (pd_reviews db)" "re_reviewType r = ''community''" "re_proposalId r = Some (pp_id p)" "js_parseFloat (re_overallRating r) = NaN"
  shows "\<exists>rows details. computeProposalEngagement lc date now snapshotId key inputs store =
      Inr [(generateKey snapshot snapshotId (key @ ''.csv''), ProposalCsv rows), details] \<and> \<lparr>sr_did = did, sr_score = NaN\<rparr> \<in> set rows"
proof -
  let ?params = "proposal_extractInputs inputs"
  obtain x where x: "proposal_points date now ?params db p = Some x" "fst x = NaN \<or> snd x = NaN"
    using NaN_rating_points[OF assms(9,10,11,6,12,5,7,8)] by blast
  then have "x \<in> set (counted_points date now ?params db did (pd_proposals db))"
    using assms(3,4) by (force simp: counted_points_def map_filter_def)
  then have "NaN \<in> set (map fst (counted_points date now ?params db did (pd_proposals db))) \<or> NaN \<in> set (map snd (counted_points date now ?params db did (pd_proposals db)))"
    using x(2) by force
  then have e: "proposal_engagement_of date now ?params db did = NaN"
    by (auto simp only: proposal_engagement_of_def Let_def foldl_jadd_NaN NaN_absorbs round2_NaN)
  obtain rows details where rd: "computeProposalEngagement lc date now snapshotId key inputs store =
      Inr [(generateKey snapshot snapshotId (key @ ''.csv''), ProposalCsv rows),
           (generateKey snapshot snapshotId ''proposal_engagement_details.json'', ProposalDetails details)]"
    "set (map sr_did rows) = ur_did ` set (usersWithDid db)"
    "\<forall>row \<in> set rows. sr_score row = proposal_engagement_of date now ?params db (sr_did row)"
    using proposal_rows_reference[OF assms(1,2), of lc date now key inputs] by blast
  have "did \<in> set (map sr_did rows)" using assms(4) unfolding rd(2) by (auto simp: owned_by_def list_ex_iff)
  then obtain row where row: "row \<in> set rows" "sr_did row = did" by auto
  then have "row = \<lparr>sr_did = did, sr_score = NaN\<rparr>" using rd(3) e by simp
  then show ?thesis using rd(1) row(1) by blast
qed

lemma within_window_iff: "tw_isWithinWindow (calculateTimeWeight c n params) \<longleftrightarrow> jless (Fin 0) (tw_tw (calculateTimeWeight c n params))"
  by (simp add: calculateTimeWeight_def Let_def)

definition demo_decay :: "AlgorithmPresetInput list" where
  "demo_decay = [(''engagement_window_months'', JNum (jint 12)), (''monthly_decay_rate_percent'', JNum (Fin 3))]"

lemma demo_within: "tw_isWithinWindow (proposal_time_weight (\<lambda>_. Fin 0) (Fin 0) (proposal_extractInputs demo_decay) demo_proposal)"
proof -
  have p: "\<lparr>tp_engagementWindowMonths = ep_engagementWindowMonths (proposal_extractInputs demo_decay),
      tp_monthlyDecayRatePercent = ep_monthlyDecayRatePercent (proposal_extractInputs demo_decay)\<rparr> = decay_params (jint 12) 3"
    by (simp add: proposal_extractInputs_def demo_decay_def num_param_def raw_input_def input_value_def decay_params_def)
  have "weight_of 3 0 = 1" using round53_of_int[of 1] by (simp add: weight_of_def)
  moreover have "\<not> jle (jint 12) (Fin 0)" by (simp add: jle_def jeq_def jint_def)
  ultimately have "tw_tw (calculateTimeWeight (Fin 0) (Fin 0) (decay_params (jint 12) 3)) = Fin 1"
    using time_weight_fin[of 0 0 3 "jint 12"] is_double_int[of 3] by (simp add: valid_time_def)
  then show ?thesis unfolding proposal_time_weight_def computeTimeWeightFromString_def p within_window_iff by simp
qed

theorem malformed_rating_spoils_owners_witness:
  "\<exists>rows details. computeProposalEngagement (\<lambda>_ _. True) (\<lambda>_. Fin 0) (Fin 0) ''s'' ''proposal_engagement'' demo_decay demo_store =
      Inr [(generateKey snapshot ''s'' ''proposal_engagement.csv'', ProposalCsv rows), details]
    \<and> \<lparr>sr_did = ''did:plc:abc'', sr_score = NaN\<rparr> \<in> set rows"
proof -
  have "js_parseFloat (re_overallRating demo_review) = NaN" by code_simp
  moreover have "isScorableClassification (ps_classification (classifyProposal demo_proposal))" by code_simp
  moreover have "owned_by demo_db ''did:plc:abc'' demo_proposal" by code_simp
  moreover have "demo_proposal \<in> set (pd_proposals demo_db)" "demo_review \<in> set (pd_reviews demo_db)" by (simp_all add: demo_db_def)
  moreover have "pp_roundId demo_proposal \<in> set SUPPORTED_ROUND_IDS" "pp_id demo_proposal \<noteq> 0" "re_reviewType demo_review = ''community''"
    "re_proposalId demo_review = Some (pp_id demo_proposal)" by (simp_all add: demo_proposal_def demo_review_def SUPPORTED_ROUND_IDS_def)
  ultimately show ?thesis
    using malformed_rating_spoils_owners[OF demo_db_ok, of demo_proposal "''did:plc:abc''" "\<lambda>_. Fin 0" "Fin 0" demo_decay demo_review
        "\<lambda>_ _. True" "''proposal_engagement''"] demo_within by simp
qed

text \<open>The reason \<^const>\<open>invalid_created_at\<close> is never given: a date that does not parse counts as outside the window.\<close>

lemma invalid_date_reason: "pr_skipReason (score_proposal date now params ratings p) \<noteq> Some invalid_created_at"
proof -
  have "tw_isValid (proposal_time_weight date now params p)" by (simp add: proposal_time_weight_def computeTimeWeightFromString_def)
  then show ?thesis
    by (simp add: score_proposal_def computeProposalScore_def skip_reason_def skipped_def Let_def split: option.split)
qed

end
