(* ===== verification/Voting_Engagement.thy ===== *)
theory Voting_Engagement
  imports Portal_Scores Did_Input
begin

text \<open>
  The algorithm \<^verbatim>\<open>voting_engagement\<close>: DIDs are joined to voting collections through their wallets, and the answers of
  those collections are scored by the entropy of their distribution (\<^verbatim>\<open>compute.ts\<close>, \<^verbatim>\<open>pipeline\<close>, \<^verbatim>\<open>utils\<close> and
  \<^verbatim>\<open>benchmark\<close> of the algorithm).

  \<open>log2\<close> is \<^verbatim>\<open>Math.log2\<close> and \<open>lc\<close> the comparison of texts.  The CSV library is not modelled: the parsed rows of a file
  are given, a column that a row does not have being \<^const>\<open>None\<close>.
\<close>

section \<open>Inputs\<close>

record VoteRecord =
  vr_collection_id :: "string option"
  vr_question_id :: "string option"
  vr_answer :: "string option"

record WalletCollectionRow =
  wc_collection_id :: "string option"
  wc_address :: "string option"

record VotingInputKeys =
  vk_didsKey :: string
  vk_votesKey :: string
  vk_walletCollectionsKey :: string

definition extractInputKeys :: "AlgorithmPresetInput list \<Rightarrow> string + VotingInputKeys" where
  "extractInputKeys inputs =
     (case input_value ''votes'' inputs of
        JStr votesKey \<Rightarrow>
          (case input_value ''wallet_collections'' inputs of
             JStr walletCollectionsKey \<Rightarrow>
               map_sum id (\<lambda>didsKey. \<lparr>vk_didsKey = didsKey, vk_votesKey = votesKey, vk_walletCollectionsKey = walletCollectionsKey\<rparr>)
                 (extractDidsKey inputs)
           | _ \<Rightarrow> Inl ''Missing required \"wallet_collections\" input'')
      | _ \<Rightarrow> Inl ''Missing required \"votes\" input'')"

text \<open>The index from a wallet to its collections; \<open>row.address?.trim()\<close> of a row without the column is \<^verbatim>\<open>undefined\<close>.\<close>

definition lookup_list :: "(string \<times> 'a list) list \<Rightarrow> string \<Rightarrow> 'a list" where
  "lookup_list m k = (case map_of m k of Some xs \<Rightarrow> xs | None \<Rightarrow> [])"

definition trimmed :: "string option \<Rightarrow> string" where
  "trimmed v = (case v of None \<Rightarrow> [] | Some s \<Rightarrow> js_trim s)"

definition add_collection :: "WalletCollectionRow \<Rightarrow> (string \<times> string list) list \<Rightarrow> (string \<times> string list) list" where
  "add_collection row index =
     (let collectionId = trimmed (wc_collection_id row); wallet = js_lower (trimmed (wc_address row))
      in if collectionId = [] \<or> wallet = [] then index
         else AList.update wallet (set_add collectionId (lookup_list index wallet)) index)"

definition loadWalletCollectionIndex :: "WalletCollectionRow list \<Rightarrow> (string \<times> string list) list" where
  "loadWalletCollectionIndex rows = fold add_collection rows []"

definition collection_ids :: "(string \<times> string list) list \<Rightarrow> DidWallet list \<Rightarrow> string list" where
  "collection_ids index wallets = fold (\<lambda>w. fold set_add (lookup_list index (js_lower (dw_address w)))) wallets []"

definition resolveCollectionIdsByDid :: "DidInputMap \<Rightarrow> (string \<times> string list) list \<Rightarrow> (string \<times> string list) list" where
  "resolveCollectionIdsByDid m index = fold (\<lambda>(did, wallets). AList.update did (collection_ids index wallets)) m []"

section \<open>Votes\<close>

definition VALID_VOTES :: "string list" where
  "VALID_VOTES = [''skip'', ''1'', ''2'', ''3'', ''4'', ''5'', ''6'', ''7'', ''8'', ''9'', ''10'']"

record VoteGrouping =
  vg_votesByVoter :: "(string \<times> string list) list"
  vg_valid :: nat
  vg_invalid :: nat

record VoteGroupingStats =
  gs_totalVotes :: nat
  gs_validVotes :: nat
  gs_invalidVotes :: nat
  gs_targetedVoterIds :: nat

definition group_vote :: "string list option \<Rightarrow> string \<Rightarrow> string \<Rightarrow> string \<Rightarrow> VoteGrouping \<Rightarrow> VoteGrouping" where
  "group_vote allowed voterId questionId rawVote g =
     (if voterId = [] \<or> questionId = [] \<or> rawVote = [] then g\<lparr>vg_invalid := vg_invalid g + 1\<rparr>
      else if (case allowed of None \<Rightarrow> False | Some ids \<Rightarrow> voterId \<notin> set ids) then g
      else if rawVote \<notin> set VALID_VOTES then g\<lparr>vg_invalid := vg_invalid g + 1\<rparr>
      else g\<lparr>vg_valid := vg_valid g + 1,
             vg_votesByVoter := AList.update voterId (lookup_list (vg_votesByVoter g) voterId @ [rawVote]) (vg_votesByVoter g)\<rparr>)"

text \<open>The loop; \<^verbatim>\<open>trim\<close> of a column the row does not have is a \<^verbatim>\<open>TypeError\<close>.\<close>

fun group_votes :: "string list option \<Rightarrow> VoteRecord list \<Rightarrow> VoteGrouping \<Rightarrow> string + VoteGrouping" where
  "group_votes allowed [] g = Inr g"
| "group_votes allowed (vote # votes) g =
     (case (vr_collection_id vote, vr_question_id vote, vr_answer vote) of
        (Some c, Some q, Some a) \<Rightarrow> group_votes allowed votes (group_vote allowed (js_trim c) (js_trim q) (js_lower (js_trim a)) g)
      | _ \<Rightarrow> Inl ''TypeError: trim of undefined'')"

definition groupVotesByVoter :: "VoteRecord list \<Rightarrow> string list option \<Rightarrow> string + (string \<times> string list) list \<times> VoteGroupingStats" where
  "groupVotesByVoter votes allowed =
     map_sum id (\<lambda>g. (vg_votesByVoter g,
         \<lparr>gs_totalVotes = length votes, gs_validVotes = vg_valid g, gs_invalidVotes = vg_invalid g,
          gs_targetedVoterIds = (case allowed of Some ids \<Rightarrow> length ids | None \<Rightarrow> length (vg_votesByVoter g))\<rparr>))
       (group_votes allowed votes \<lparr>vg_votesByVoter = [], vg_valid = 0, vg_invalid = 0\<rparr>)"

section \<open>Entropy\<close>

text \<open>\<^verbatim>\<open>roundScore\<close> with six decimals.\<close>

definition round6 :: "jsnum \<Rightarrow> jsnum" where
  "round6 score = jdiv (jround (jmul score (jint 1000000))) (jint 1000000)"

definition MAX_VOTING_ENTROPY :: "(jsnum \<Rightarrow> jsnum) \<Rightarrow> jsnum" where
  "MAX_VOTING_ENTROPY log2 = log2 (jint 11)"

fun index_of :: "'a list \<Rightarrow> 'a \<Rightarrow> nat option" where
  "index_of [] v = None"
| "index_of (x # xs) v = (if x = v then Some 0 else map_option Suc (index_of xs v))"

definition count_answer :: "string \<Rightarrow> int list \<Rightarrow> int list" where
  "count_answer vote counts = (case index_of VALID_VOTES vote of Some i \<Rightarrow> counts[i := counts ! i + 1] | None \<Rightarrow> counts)"

definition entropy_term :: "(jsnum \<Rightarrow> jsnum) \<Rightarrow> jsnum \<Rightarrow> jsnum \<Rightarrow> jsnum" where
  "entropy_term log2 prob entropy = (if jless (Fin 0) prob then jsub entropy (jmul prob (log2 prob)) else entropy)"

definition calculateVotingEngagement :: "(jsnum \<Rightarrow> jsnum) \<Rightarrow> string list \<Rightarrow> jsnum" where
  "calculateVotingEngagement log2 voterVotes =
     (let totalVotes = int (length voterVotes)
      in if totalVotes = 0 then Fin 0
         else
           (let voteCounts = fold count_answer voterVotes (replicate 11 0);
                probabilities = map (\<lambda>count. jdiv (jint count) (jint totalVotes)) voteCounts
            in jdiv (fold (entropy_term log2) probabilities (Fin 0)) (MAX_VOTING_ENTROPY log2)))"

section \<open>The run\<close>

record VoterBenchmarkRecord =
  vb_did :: string
  vb_collection_ids :: "string list"
  vb_total_votes :: nat
  vb_vote_distribution :: "(string \<times> int) list"
  vb_entropy :: jsnum
  vb_voting_engagement :: jsnum

text \<open>
  The distribution is an object: its integer-like keys come first, in order, whatever the order they were added in.
\<close>

definition DISTRIBUTION_KEYS :: "string list" where
  "DISTRIBUTION_KEYS = [''1'', ''2'', ''3'', ''4'', ''5'', ''6'', ''7'', ''8'', ''9'', ''10'', ''skip'']"

definition vote_distribution :: "string list \<Rightarrow> (string \<times> int) list" where
  "vote_distribution voterVotes =
     fold (\<lambda>vote m. case map_of m vote of Some n \<Rightarrow> AList.update vote (n + 1) m | None \<Rightarrow> m) voterVotes (map (\<lambda>v. (v, 0)) DISTRIBUTION_KEYS)"

definition distribution_term :: "(jsnum \<Rightarrow> jsnum) \<Rightarrow> int \<Rightarrow> int \<Rightarrow> jsnum \<Rightarrow> jsnum" where
  "distribution_term log2 totalVotes n entropy =
     (if 0 < n then (let prob = jdiv (jint n) (jint totalVotes) in jsub entropy (jmul prob (log2 prob))) else entropy)"

definition buildVoterBenchmarkRecord :: "(jsnum \<Rightarrow> jsnum) \<Rightarrow> string \<Rightarrow> string list \<Rightarrow> jsnum \<Rightarrow> string list \<Rightarrow> VoterBenchmarkRecord" where
  "buildVoterBenchmarkRecord log2 did voterVotes votingEngagement collectionIds =
     (let distribution = vote_distribution voterVotes;
          entropy = (if 0 < length voterVotes
                     then fold (distribution_term log2 (int (length voterVotes))) (map snd distribution) (Fin 0) else Fin 0)
      in \<lparr>vb_did = did, vb_collection_ids = collectionIds, vb_total_votes = length voterVotes, vb_vote_distribution = distribution,
          vb_entropy = round6 entropy, vb_voting_engagement = votingEngagement\<rparr>)"

record VotingEngagementBenchmark =
  ve_dids :: "VoterBenchmarkRecord list"
  ve_snapshot_id :: string
  ve_provided_ids :: "string list"
  ve_matched_ids :: "string list"
  ve_unmatched_ids :: "string list"
  ve_stats :: VoteGroupingStats
  ve_dids_with_votes :: nat

definition voting_formatBenchmarkOutput ::
  "(string \<Rightarrow> string \<Rightarrow> bool) \<Rightarrow> VoterBenchmarkRecord list \<Rightarrow> string \<Rightarrow> VoteGroupingStats \<Rightarrow> string list \<Rightarrow> VotingEngagementBenchmark" where
  "voting_formatBenchmarkOutput lc records snapshotId stats matchedDids =
     (let sortedRecords = sort_by (\<lambda>a b. lc (vb_did a) (vb_did b)) records;
          providedIds = map vb_did sortedRecords;
          matchedIds = sort_by lc matchedDids
      in \<lparr>ve_dids = sortedRecords, ve_snapshot_id = snapshotId, ve_provided_ids = providedIds, ve_matched_ids = matchedIds,
          ve_unmatched_ids = filter (\<lambda>did. did \<notin> set matchedDids) providedIds, ve_stats = stats, ve_dids_with_votes = length matchedIds\<rparr>)"

text \<open>The files of a run: the DID file and the rows of the two CSV files under their keys.\<close>

record VotingFiles =
  vf_dids :: "string \<Rightarrow> string + json"
  vf_walletCollections :: "string \<Rightarrow> string + WalletCollectionRow list"
  vf_votes :: "string \<Rightarrow> string + VoteRecord list"

datatype voting_object = VotingCsv "score_row list" | VotingDetails VotingEngagementBenchmark

definition voter_votes :: "(string \<times> string list) list \<Rightarrow> (string \<times> string list) list \<Rightarrow> string \<Rightarrow> string list" where
  "voter_votes collectionIdsByDid votesByVoter did = concat (map (lookup_list votesByVoter) (lookup_list collectionIdsByDid did))"

definition voting_score :: "(jsnum \<Rightarrow> jsnum) \<Rightarrow> string list \<Rightarrow> jsnum" where
  "voting_score log2 voterVotes = (if 0 < length voterVotes then round6 (calculateVotingEngagement log2 voterVotes) else Fin 0)"

definition targeted_ids :: "(string \<times> string list) list \<Rightarrow> string list" where
  "targeted_ids collectionIdsByDid = js_dedup (concat (map snd collectionIdsByDid))"

definition voting_outputs ::
  "(string \<Rightarrow> string \<Rightarrow> bool) \<Rightarrow> (jsnum \<Rightarrow> jsnum) \<Rightarrow> string \<Rightarrow> string \<Rightarrow> string list \<Rightarrow> (string \<times> string list) list \<Rightarrow> (string \<times> string list) list
    \<Rightarrow> VoteGroupingStats \<Rightarrow> (string \<times> voting_object) list" where
  "voting_outputs lc log2 snapshotId key dids byDid votesByVoter stats =
     (let votesOf = voter_votes byDid votesByVoter;
          results = map (\<lambda>did. \<lparr>sr_did = did, sr_score = voting_score log2 (votesOf did)\<rparr>) dids;
          records = map (\<lambda>did. buildVoterBenchmarkRecord log2 did (votesOf did) (voting_score log2 (votesOf did)) (lookup_list byDid did)) dids;
          matchedDids = js_dedup (filter (\<lambda>did. 0 < length (votesOf did)) dids)
      in [(generateKey snapshot snapshotId (key @ ''.csv''), VotingCsv (sort_rows lc results)),
          (generateKey snapshot snapshotId ''voting_engagement_details.json'',
             VotingDetails (voting_formatBenchmarkOutput lc records snapshotId stats matchedDids))])"

definition computeVotingEngagement ::
  "(string \<Rightarrow> string \<Rightarrow> bool) \<Rightarrow> (jsnum \<Rightarrow> jsnum) \<Rightarrow> string \<Rightarrow> string \<Rightarrow> AlgorithmPresetInput list \<Rightarrow> VotingFiles
    \<Rightarrow> string + (string \<times> voting_object) list" where
  "computeVotingEngagement lc log2 snapshotId key inputs files =
     (case extractInputKeys inputs of
        Inl e \<Rightarrow> Inl e
      | Inr keys \<Rightarrow>
          (case vf_dids files (vk_didsKey keys) of
             Inl e \<Rightarrow> Inl e
           | Inr didFile \<Rightarrow>
               (case vf_walletCollections files (vk_walletCollectionsKey keys) of
                  Inl e \<Rightarrow> Inl e
                | Inr collectionRows \<Rightarrow>
                    (let m = parseDidInputRecord didFile;
                         byDid = resolveCollectionIdsByDid m (loadWalletCollectionIndex collectionRows)
                     in case vf_votes files (vk_votesKey keys) of
                          Inl e \<Rightarrow> Inl e
                        | Inr votes \<Rightarrow>
                            map_sum id (\<lambda>(votesByVoter, stats). voting_outputs lc log2 snapshotId key (getDids lc m) byDid votesByVoter stats)
                              (groupVotesByVoter votes (Some (targeted_ids byDid)))))))"

section \<open>Scores from the tables\<close>

subsection \<open>Collections of a DID\<close>

lemma lookup_update: "lookup_list (AList.update k v m) k' = (if k' = k then v else lookup_list m k')"
  by (simp add: lookup_list_def update_conv')

text \<open>A row of the wallet file that links an address to a collection.\<close>

definition links :: "string \<Rightarrow> string \<Rightarrow> WalletCollectionRow \<Rightarrow> bool" where
  "links wallet c row \<longleftrightarrow> trimmed (wc_collection_id row) = c \<and> c \<noteq> [] \<and> js_lower (trimmed (wc_address row)) = wallet \<and> wallet \<noteq> []"

lemma collections_fold:
  "c \<in> set (lookup_list (fold add_collection rows idx) w) \<longleftrightarrow> c \<in> set (lookup_list idx w) \<or> list_ex (links w c) rows"
proof (induction rows arbitrary: idx)
  case (Cons row rows)
  have "c \<in> set (lookup_list (add_collection row idx) w) \<longleftrightarrow> c \<in> set (lookup_list idx w) \<or> links w c row"
    unfolding add_collection_def Let_def links_def by (auto simp: lookup_update)
  then show ?case using Cons.IH by simp
qed simp

definition linked :: "WalletCollectionRow list \<Rightarrow> DidWallet list \<Rightarrow> string \<Rightarrow> bool" where
  "linked rows wallets c \<longleftrightarrow> list_ex (\<lambda>w. list_ex (links (js_lower (dw_address w)) c) rows) wallets"

lemma wallets_fold:
  "c \<in> set (fold (\<lambda>w. fold set_add (f w)) ws acc) \<longleftrightarrow> c \<in> set acc \<or> list_ex (\<lambda>w. c \<in> set (f w)) ws"
  by (induction ws arbitrary: acc) simp_all

lemma collection_ids_set: "c \<in> set (collection_ids (loadWalletCollectionIndex rows) wallets) \<longleftrightarrow> linked rows wallets c"
  unfolding collection_ids_def wallets_fold loadWalletCollectionIndex_def collections_fold linked_def by (simp add: lookup_list_def)

lemma distinct_fold_set_add: "distinct acc \<Longrightarrow> distinct (fold set_add xs acc)"
  by (induction xs arbitrary: acc) simp_all

lemma distinct_collection_ids: "distinct (collection_ids idx wallets)"
proof -
  have "distinct acc \<Longrightarrow> distinct (fold (\<lambda>w. fold set_add (lookup_list idx (js_lower (dw_address w)))) wallets acc)" for acc
    by (induction wallets arbitrary: acc) (simp_all add: distinct_fold_set_add)
  then show ?thesis by (simp add: collection_ids_def)
qed

lemma resolve_fold:
  "resolveCollectionIdsByDid m idx = fold (\<lambda>x. AList.update (fst x) (collection_ids idx (snd x))) m []"
  unfolding resolveCollectionIdsByDid_def by (rule fold_cong) auto

lemma collections_of_did:
  assumes "distinct (map fst m)" "(did, wallets) \<in> set m"
  shows "lookup_list (resolveCollectionIdsByDid m idx) did = collection_ids idx wallets"
proof -
  have "map_of (resolveCollectionIdsByDid m idx) did = Some (collection_ids idx wallets)"
    unfolding resolve_fold fold_update_Some[OF assms(1)] using assms(2) by force
  then show ?thesis by (simp add: lookup_list_def)
qed

lemma collections_targeted: "c \<in> set (lookup_list byDid did) \<Longrightarrow> c \<in> set (targeted_ids byDid)"
proof -
  assume c: "c \<in> set (lookup_list byDid did)"
  then obtain cs where "map_of byDid did = Some cs" "c \<in> set cs" by (cases "map_of byDid did") (auto simp: lookup_list_def)
  then show ?thesis using map_of_SomeD[of byDid did cs] by (auto simp: targeted_ids_def intro!: bexI[of _ "(did, cs)"])
qed

subsection \<open>Votes of a collection\<close>

definition has_columns :: "VoteRecord \<Rightarrow> bool" where
  "has_columns r \<longleftrightarrow> vr_collection_id r \<noteq> None \<and> vr_question_id r \<noteq> None \<and> vr_answer r \<noteq> None"

text \<open>The collection and the answer of a row that counts.\<close>

definition valid_row :: "VoteRecord \<Rightarrow> (string \<times> string) option" where
  "valid_row r =
     (let c = trimmed (vr_collection_id r); a = js_lower (trimmed (vr_answer r))
      in if c = [] \<or> trimmed (vr_question_id r) = [] \<or> a \<notin> set VALID_VOTES then None else Some (c, a))"

lemma blank_not_valid: "[] \<notin> set VALID_VOTES"
  by (simp add: VALID_VOTES_def)

lemma group_votes_lookup:
  assumes "\<forall>r \<in> set votes. has_columns r"
  shows "\<exists>g'. group_votes (Some ids) votes g = Inr g' \<and> (\<forall>c \<in> set ids. lookup_list (vg_votesByVoter g') c =
     lookup_list (vg_votesByVoter g) c @ map snd (filter (\<lambda>p. fst p = c) (List.map_filter valid_row votes)))"
  using assms
proof (induction votes arbitrary: g)
  case (Cons r votes)
  obtain c q a where r: "vr_collection_id r = Some c" "vr_question_id r = Some q" "vr_answer r = Some a"
    using Cons.prems by (auto simp: has_columns_def)
  let ?g = "group_vote (Some ids) (js_trim c) (js_trim q) (js_lower (js_trim a)) g"
  obtain g' where g': "group_votes (Some ids) votes ?g = Inr g'" "\<forall>d \<in> set ids. lookup_list (vg_votesByVoter g') d =
      lookup_list (vg_votesByVoter ?g) d @ map snd (filter (\<lambda>p. fst p = d) (List.map_filter valid_row votes))"
    using Cons by fastforce
  have "lookup_list (vg_votesByVoter ?g) d = lookup_list (vg_votesByVoter g) d @ map snd (filter (\<lambda>p. fst p = d) (List.map_filter valid_row [r]))"
    if "d \<in> set ids" for d
  proof (cases "js_trim c = [] \<or> js_trim q = [] \<or> js_lower (js_trim a) \<notin> set VALID_VOTES")
    case True
    then have "valid_row r = None" "vg_votesByVoter ?g = vg_votesByVoter g" by (auto simp: valid_row_def trimmed_def r group_vote_def)
    then show ?thesis by (simp add: map_filter_def)
  next
    case False
    then have "valid_row r = Some (js_trim c, js_lower (js_trim a))" "js_lower (js_trim a) \<noteq> []"
      using blank_not_valid by (auto simp: valid_row_def trimmed_def r simp del: js_lower_Nil)
    then show ?thesis using False that by (auto simp: group_vote_def lookup_update map_filter_def)
  qed
  then show ?case using g' r map_filter_append[of valid_row "[r]" votes] by simp
qed (simp add: map_filter_def)

subsection \<open>Counting answers\<close>

lemma index_of_Some: "index_of xs v = Some i \<Longrightarrow> i < length xs \<and> xs ! i = v"
  by (induction xs arbitrary: i) (auto split: if_splits)

lemma index_of_None: "index_of xs v = None \<longleftrightarrow> v \<notin> set xs"
  by (induction xs) auto

lemma map_update_distinct:
  assumes "distinct xs" "i < length xs"
  shows "(map f xs)[i := y] = map (f(xs ! i := y)) xs"
  using assms by (intro nth_equalityI) (auto simp: nth_list_update nth_eq_iff_index_eq)

lemma VALID_VOTES_distinct: "distinct VALID_VOTES" "length VALID_VOTES = 11"
  by (simp_all add: VALID_VOTES_def)

lemma count_answer_map:
  assumes "v \<in> set VALID_VOTES"
  shows "count_answer v (map f VALID_VOTES) = map (f(v := f v + 1)) VALID_VOTES"
proof -
  obtain i where i: "index_of VALID_VOTES v = Some i" using assms by (metis index_of_None not_None_eq)
  then have "i < length VALID_VOTES" "VALID_VOTES ! i = v" using index_of_Some by metis+
  then show ?thesis using i map_update_distinct[OF VALID_VOTES_distinct(1), of i f] by (simp add: count_answer_def)
qed

lemma count_answers:
  "set votes \<subseteq> set VALID_VOTES \<Longrightarrow> fold count_answer votes (map f VALID_VOTES) = map (\<lambda>v. f v + int (count_list votes v)) VALID_VOTES"
proof (induction votes arbitrary: f)
  case (Cons v votes)
  have "(\<lambda>u. (f(v := f v + 1)) u + int (count_list votes u)) = (\<lambda>u. f u + int (count_list (v # votes) u))" by (rule ext) simp
  then show ?case using Cons by (simp add: count_answer_map)
qed simp

lemma sum_counts: "distinct ks \<Longrightarrow> set xs \<subseteq> set ks \<Longrightarrow> sum_list (map (\<lambda>k. int (count_list xs k)) ks) = int (length xs)"
proof (induction xs)
  case (Cons x xs)
  have "sum_list (map (\<lambda>k. int (count_list (x # xs) k)) ks) = sum_list (map (\<lambda>k. (if x = k then 1 else 0) + int (count_list xs k)) ks)"
    by (intro arg_cong[where f = sum_list] map_cong) auto
  also have "\<dots> = sum_list (map (\<lambda>k. if x = k then 1 else 0) ks) + sum_list (map (\<lambda>k. int (count_list xs k)) ks)"
    by (simp add: sum_list_addf)
  also have "sum_list (map (\<lambda>k. if x = k then 1 else (0 :: int)) ks) = 1"
    using Cons.prems by (simp add: sum_list_distinct_conv_sum_set)
  finally show ?case using Cons by simp
qed simp

text \<open>The score from how often each answer was given.\<close>

definition entropy_score :: "(jsnum \<Rightarrow> jsnum) \<Rightarrow> int list \<Rightarrow> jsnum" where
  "entropy_score log2 counts =
     (let n = sum_list counts
      in if n = 0 then Fin 0
         else round6 (jdiv (fold (entropy_term log2) (map (\<lambda>count. jdiv (jint count) (jint n)) counts) (Fin 0)) (log2 (jint 11))))"

lemma voting_score_counts:
  assumes "set votes \<subseteq> set VALID_VOTES"
  shows "voting_score log2 votes = entropy_score log2 (map (\<lambda>v. int (count_list votes v)) VALID_VOTES)"
proof -
  have r: "replicate 11 0 = map (\<lambda>_. 0 :: int) VALID_VOTES" by (simp add: VALID_VOTES_def eval_nat_numeral)
  show ?thesis unfolding voting_score_def calculateVotingEngagement_def entropy_score_def r count_answers[OF assms]
    by (simp add: sum_counts[OF VALID_VOTES_distinct(1) assms] MAX_VOTING_ENTROPY_def Let_def)
qed

lemma count_list_collections:
  "distinct ids \<Longrightarrow> int (count_list (concat (map (\<lambda>c. map snd (filter (\<lambda>p. fst p = c) ps)) ids)) v)
     = int (length (filter (\<lambda>p. fst p \<in> set ids \<and> snd p = v) ps))"
proof (induction ids)
  case (Cons c ids)
  have 1: "count_list (map snd (filter (\<lambda>p. fst p = c) ps)) v = length (filter (\<lambda>p. fst p = c \<and> snd p = v) ps)"
    by (induction ps) auto
  have "length (filter (\<lambda>p. fst p \<in> set (c # ids) \<and> snd p = v) ps) =
      length (filter (\<lambda>p. fst p = c \<and> snd p = v) ps) + length (filter (\<lambda>p. fst p \<in> set ids \<and> snd p = v) ps)"
    using Cons.prems by (induction ps) auto
  then show ?case using Cons 1 by simp
qed simp

text \<open>How often each answer was given, over the rows of every collection linked to one of the wallets.\<close>

definition answer_counts :: "WalletCollectionRow list \<Rightarrow> VoteRecord list \<Rightarrow> DidWallet list \<Rightarrow> int list" where
  "answer_counts rows votes wallets =
     map (\<lambda>v. int (length (filter (\<lambda>p. linked rows wallets (fst p) \<and> snd p = v) (List.map_filter valid_row votes)))) VALID_VOTES"

lemma valid_row_votes: "set (map snd (filter P (List.map_filter valid_row votes))) \<subseteq> set VALID_VOTES"
proof -
  have "valid_row r = Some x \<Longrightarrow> snd x \<in> set VALID_VOTES" for r x by (auto simp: valid_row_def Let_def split: if_splits)
  then show ?thesis by (auto simp: map_filter_def)
qed

lemma voter_votes_counts:
  assumes m: "distinct (map fst m)" "(did, wallets) \<in> set m"
    and byDid: "byDid = resolveCollectionIdsByDid m (loadWalletCollectionIndex rows)"
    and g: "\<forall>c \<in> set (targeted_ids byDid). lookup_list byVoter c = map snd (filter (\<lambda>p. fst p = c) (List.map_filter valid_row votes))"
  shows "voting_score log2 (voter_votes byDid byVoter did) = entropy_score log2 (answer_counts rows votes wallets)"
proof -
  let ?ids = "collection_ids (loadWalletCollectionIndex rows) wallets" let ?ps = "List.map_filter valid_row votes"
  have ids: "lookup_list byDid did = ?ids" unfolding byDid by (rule collections_of_did[OF m])
  have v: "voter_votes byDid byVoter did = concat (map (\<lambda>c. map snd (filter (\<lambda>p. fst p = c) ?ps)) ?ids)"
    unfolding voter_votes_def ids using g collections_targeted[of _ byDid did] by (intro arg_cong[where f = concat] map_cong) (auto simp: ids)
  have s: "set (voter_votes byDid byVoter did) \<subseteq> set VALID_VOTES" unfolding v using valid_row_votes by fastforce
  show ?thesis unfolding voting_score_counts[OF s] unfolding v answer_counts_def
    by (simp only: count_list_collections[OF distinct_collection_ids] collection_ids_set)
qed

text \<open>
  C33: When the files load and no row of the votes file lacks a column, a voting run returns and its CSV has one row for
  every DID of the DID file.  The score depends only on how often each of the eleven answers occurs among the rows of
  the collections linked to the DID's wallets: neither the order of the rows nor reaching a collection through several
  wallets changes it.
\<close>

theorem voting_scores_are_reference:
  assumes "extractInputKeys inputs = Inr keys" "vf_dids files (vk_didsKey keys) = Inr didFile"
    and "vf_walletCollections files (vk_walletCollectionsKey keys) = Inr collectionRows" "vf_votes files (vk_votesKey keys) = Inr votes"
    and "distinct (map fst (parseDidInputRecord didFile))" "\<forall>r \<in> set votes. has_columns r"
  shows "\<exists>rows details. computeVotingEngagement lc log2 snapshotId key inputs files =
      Inr [(generateKey snapshot snapshotId (key @ ''.csv''), VotingCsv rows),
           (generateKey snapshot snapshotId ''voting_engagement_details.json'', VotingDetails details)]
    \<and> distinct (map sr_did rows) \<and> set (map sr_did rows) = fst ` set (parseDidInputRecord didFile)
    \<and> (\<forall>(did, wallets) \<in> set (parseDidInputRecord didFile).
         \<lparr>sr_did = did, sr_score = entropy_score log2 (answer_counts collectionRows votes wallets)\<rparr> \<in> set rows)"
proof -
  let ?m = "parseDidInputRecord didFile"
  let ?byDid = "resolveCollectionIdsByDid ?m (loadWalletCollectionIndex collectionRows)"
  obtain g where g: "group_votes (Some (targeted_ids ?byDid)) votes \<lparr>vg_votesByVoter = [], vg_valid = 0, vg_invalid = 0\<rparr> = Inr g"
    "\<forall>c \<in> set (targeted_ids ?byDid). lookup_list (vg_votesByVoter g) c = map snd (filter (\<lambda>p. fst p = c) (List.map_filter valid_row votes))"
    using group_votes_lookup[OF assms(6), of "targeted_ids ?byDid" "\<lparr>vg_votesByVoter = [], vg_valid = 0, vg_invalid = 0\<rparr>"]
    by (auto simp: lookup_list_def)
  let ?row = "\<lambda>did. \<lparr>sr_did = did, sr_score = voting_score log2 (voter_votes ?byDid (vg_votesByVoter g) did)\<rparr>"
  let ?rows = "sort_rows lc (map ?row (getDids lc ?m))"
  have d: "map sr_did ?rows = sort_by lc (getDids lc ?m)" unfolding sort_rows_def map_sort_by by (simp add: comp_def)
  have "\<lparr>sr_did = did, sr_score = entropy_score log2 (answer_counts collectionRows votes wallets)\<rparr> \<in> set ?rows" if "(did, wallets) \<in> set ?m" for did wallets
    using that voter_votes_counts[OF assms(5) that refl g(2)] by (force simp: sort_rows_def getDids_def)
  moreover have "distinct (map sr_did ?rows)" "set (map sr_did ?rows) = fst ` set ?m"
    unfolding d using assms(5) by (simp_all add: getDids_def)
  moreover have "\<exists>details. computeVotingEngagement lc log2 snapshotId key inputs files =
      Inr [(generateKey snapshot snapshotId (key @ ''.csv''), VotingCsv ?rows),
           (generateKey snapshot snapshotId ''voting_engagement_details.json'', VotingDetails details)]"
    using assms(1-4) g(1) by (simp add: computeVotingEngagement_def groupVotesByVoter_def voting_outputs_def Let_def)
  ultimately show ?thesis by (intro exI[of _ ?rows]) auto
qed

definition demo_voting_inputs :: "AlgorithmPresetInput list" where
  "demo_voting_inputs = [(''votes'', JStr ''v''), (''wallet_collections'', JStr ''w''), (''dids'', JStr ''d'')]"

definition demo_wallets :: "WalletCollectionRow list" where
  "demo_wallets = [\<lparr>wc_collection_id = Some ''c1'', wc_address = Some ''0xA''\<rparr>]"

definition demo_votes :: "VoteRecord list" where
  "demo_votes = [\<lparr>vr_collection_id = Some ''c1'', vr_question_id = Some ''q'', vr_answer = Some '' Skip ''\<rparr>]"

definition demo_did_file :: json where
  "demo_did_file = JObj [(''did:1'', JObj [(''userWallets'', JArr [JObj [(''chain'', JStr ''ethereum''), (''address'', JStr ''0xa'')]])])]"

definition demo_files :: VotingFiles where
  "demo_files = \<lparr>vf_dids = (\<lambda>_. Inr demo_did_file), vf_walletCollections = (\<lambda>_. Inr demo_wallets), vf_votes = (\<lambda>_. Inr demo_votes)\<rparr>"

definition demo_did_wallets :: "DidWallet list" where
  "demo_did_wallets = [\<lparr>dw_address = ''0xa'', dw_chain = ''ethereum''\<rparr>]"

lemma demo_did_map: "parseDidInputRecord demo_did_file = [(''did:1'', demo_did_wallets)]"
  by code_simp

lemma demo_counts: "answer_counts demo_wallets demo_votes demo_did_wallets = 1 # replicate 10 0"
  by code_simp

theorem voting_scores_are_reference_witness:
  "\<exists>rows details. computeVotingEngagement (\<lambda>_ _. True) (\<lambda>_. Fin 1) ''s'' ''voting_engagement'' demo_voting_inputs demo_files =
      Inr [(generateKey snapshot ''s'' ''voting_engagement.csv'', VotingCsv rows),
           (generateKey snapshot ''s'' ''voting_engagement_details.json'', VotingDetails details)]
    \<and> \<lparr>sr_did = ''did:1'', sr_score = entropy_score (\<lambda>_. Fin 1) (1 # replicate 10 0)\<rparr> \<in> set rows"
proof -
  have k: "extractInputKeys demo_voting_inputs = Inr \<lparr>vk_didsKey = ''d'', vk_votesKey = ''v'', vk_walletCollectionsKey = ''w''\<rparr>"
    by (simp add: extractInputKeys_def demo_voting_inputs_def input_value_def extractDidsKey_def)
  have "\<forall>r \<in> set demo_votes. has_columns r" by (simp add: demo_votes_def has_columns_def)
  then show ?thesis
    using voting_scores_are_reference[OF k, of demo_files demo_did_file demo_wallets demo_votes "\<lambda>_ _. True" "\<lambda>_. Fin 1" "''s''" "''voting_engagement''"]
    by (auto simp: demo_files_def demo_did_map demo_counts)
qed

text \<open>Every row of the file is valid, invalid or not targeted.\<close>

lemma group_vote_stats: "vg_valid (group_vote allowed c q a g) + vg_invalid (group_vote allowed c q a g) \<le> Suc (vg_valid g + vg_invalid g)"
  by (simp add: group_vote_def)

lemma group_votes_stats: "group_votes allowed votes g = Inr g' \<Longrightarrow> vg_valid g' + vg_invalid g' \<le> vg_valid g + vg_invalid g + length votes"
proof (induction votes arbitrary: g)
  case (Cons r votes)
  then obtain c q a where "group_votes allowed votes (group_vote allowed c q a g) = Inr g'" by (auto split: option.splits)
  then show ?case using Cons.IH[of "group_vote allowed c q a g"] group_vote_stats[of allowed c q a g] by simp
qed simp

lemma grouping_stats_bounded:
  assumes "groupVotesByVoter votes allowed = Inr (byVoter, stats)"
  shows "gs_validVotes stats + gs_invalidVotes stats \<le> gs_totalVotes stats"
proof -
  let ?g0 = "\<lparr>vg_votesByVoter = [], vg_valid = 0, vg_invalid = 0\<rparr>"
  obtain g where g: "group_votes allowed votes ?g0 = Inr g" using assms by (cases "group_votes allowed votes ?g0") (auto simp: groupVotesByVoter_def)
  then show ?thesis using assms group_votes_stats[OF g] by (auto simp: groupVotesByVoter_def)
qed

end
