(* ===== verification/Evaluation_Plan.thy ===== *)
theory Evaluation_Plan
  imports Orchestrator_Inputs Did_Input Object_Storage Result_State
begin

text \<open>
  The custom score.  The first part is the compute activity, which runs every selected child and keeps its CSV
  (\<^verbatim>\<open>custom-score/compute.ts\<close>, \<^verbatim>\<open>custom-score.utils.ts\<close>).  The second is the plan of the encrypted evaluation: how the
  observed bounds and the weights of the children fold into one coefficient and one shift per child
  (\<^verbatim>\<open>encrypted-evaluator/strategies.ts\<close>, \<^verbatim>\<open>plan.ts\<close>).  An accepted plan has positive finite coefficients, and the score
  it describes is nought at the observed minima and grows with every child.
\<close>

fun map_result :: "('a \<Rightarrow> 'e + 'b) \<Rightarrow> 'a list \<Rightarrow> 'e + 'b list" where
  "map_result f [] = Inr []"
| "map_result f (x # xs) =
     (case f x of Inl e \<Rightarrow> Inl e | Inr y \<Rightarrow> (case map_result f xs of Inl e \<Rightarrow> Inl e | Inr ys \<Rightarrow> Inr (y # ys)))"

lemma map_result_Inr: "map_result f xs = Inr ys \<Longrightarrow> list_all2 (\<lambda>x y. f x = Inr y) xs ys"
  by (induction xs arbitrary: ys) (auto simp: list_all2_Cons1 split: sum.splits)

lemma map_result_Inl: "map_result f xs = Inl e \<Longrightarrow> \<exists>x \<in> set xs. f x = Inl e"
  by (induction xs) (auto split: sum.splits)

section \<open>Running the children\<close>

text \<open>The parts of a definition and of a snapshot that the activity reads.\<close>

record CsvOutput =
  co_key :: string
  co_columns :: "string list"

record ScoreDefinition =
  sd_key :: string
  sd_combined :: bool
  sd_runtime :: string
  sd_csvOutputs :: "CsvOutput list"
  sd_normalization :: "string option"

record PrimaryCsv =
  pc_outputKey :: string
  pc_scoreColumnKey :: string

definition quoted :: "string \<Rightarrow> string" where
  "quoted s = ''\"'' @ s @ ''\"''"

definition getPrimaryCsvOutput :: "ScoreDefinition \<Rightarrow> string + PrimaryCsv" where
  "getPrimaryCsvOutput definition =
     (case sd_csvOutputs definition of
        [] \<Rightarrow> Inl (''Algorithm '' @ quoted (sd_key definition) @ '' does not define a CSV output'')
      | csv # _ \<Rightarrow>
          if ''did'' \<notin> set (co_columns csv)
          then Inl (''Algorithm '' @ quoted (sd_key definition) @ '' CSV output must contain a '' @ quoted ''did'' @ '' column'')
          else
            (case find (\<lambda>column. column \<noteq> ''did'') (co_columns csv) of
               None \<Rightarrow> Inl (''Algorithm '' @ quoted (sd_key definition) @ '' CSV output must contain a score column'')
             | Some column \<Rightarrow> Inr \<lparr>pc_outputKey = co_key csv, pc_scoreColumnKey = column\<rparr>))"

record ScoreSnapshot =
  sn_id :: string
  sn_key :: string
  sn_version :: string
  sn_inputs :: "AlgorithmPresetInput list"

definition buildChildSnapshot :: "ScoreSnapshot \<Rightarrow> CustomScoreChild \<Rightarrow> string option \<Rightarrow> ScoreSnapshot" where
  "buildChildSnapshot snap child didsKey =
     (let inputs = filter (\<lambda>(k, _). k \<noteq> ''dids'') (cs_inputs child)
      in snap\<lparr>sn_key := cs_key child, sn_version := cs_version child,
           sn_inputs := (case didsKey of None \<Rightarrow> inputs | Some k \<Rightarrow> inputs @ [(''dids'', JStr k)])\<rparr>)"

definition STANDALONE_KEYS :: "string list" where
  "STANDALONE_KEYS =
     [''voting_engagement'', ''contribution_score'', ''proposal_engagement'', ''token_value_over_time'', ''discord_engagement'',
      ''github_engagement'', ''mattermost_engagement'']"

text \<open>
  The registry of definitions and the child algorithms are arguments; an algorithm changes the state \<open>'w\<close>, the objects it
  stores, and returns the keys of its outputs.
\<close>

record 'w CustomScoreEnv =
  ce_definition :: "string \<Rightarrow> string \<Rightarrow> string + ScoreDefinition"
  ce_compute :: "string \<Rightarrow> ScoreSnapshot \<Rightarrow> ('w, string, (string \<times> string) list) rs"
  ce_putDetails :: "string \<Rightarrow> (string \<times> string \<times> jsnum) list \<Rightarrow> jsnum \<Rightarrow> ('w, string, unit) rs"

definition child_output :: "CustomScoreChild \<Rightarrow> ScoreDefinition \<Rightarrow> (string \<times> string) list \<Rightarrow> string + string" where
  "child_output child definition outputs =
     (case getPrimaryCsvOutput definition of
        Inl e \<Rightarrow> Inl e
      | Inr p \<Rightarrow>
          (let missing = Inl (''Child algorithm '' @ quoted (cs_key child) @ '' did not return output '' @ quoted (pc_outputKey p))
           in case map_of outputs (pc_outputKey p) of
                None \<Rightarrow> missing
              | Some k \<Rightarrow> if js_trim k = [] then missing else Inr k))"

definition runChildAlgorithm ::
  "'w CustomScoreEnv \<Rightarrow> ScoreSnapshot \<Rightarrow> string option \<Rightarrow> CustomScoreChild \<Rightarrow> ('w, string, string) rs" where
  "runChildAlgorithm env snap didsKey child =
     (case ce_definition env (cs_key child) (cs_version child) of
        Inl e \<Rightarrow> rs_throw e
      | Inr definition \<Rightarrow>
          if sd_combined definition then rs_throw (''Nested combined child algorithm is not supported: '' @ cs_key child)
          else if sd_runtime definition \<noteq> ''typescript''
          then rs_throw (''Unsupported child algorithm runtime: '' @ cs_key child @ ''@'' @ cs_version child)
          else if cs_key child \<notin> set STANDALONE_KEYS then rs_throw (''Unsupported child algorithm: '' @ cs_key child)
          else rs_bind (ce_compute env (cs_key child) (buildChildSnapshot snap child didsKey))
                 (\<lambda>outputs. rs_lift (child_output child definition outputs)))"

fun run_children ::
  "'w CustomScoreEnv \<Rightarrow> ScoreSnapshot \<Rightarrow> string option \<Rightarrow> CustomScoreChild list \<Rightarrow> (string \<times> string) list \<Rightarrow> ('w, string, (string \<times> string) list) rs" where
  "run_children env snap didsKey [] outputs = rs_ret outputs"
| "run_children env snap didsKey (child # children) outputs =
     rs_bind (runChildAlgorithm env snap didsKey child)
       (\<lambda>k. run_children env snap didsKey children (AList.update (cs_key child) k outputs))"

definition roundWeight :: "jsnum \<Rightarrow> jsnum" where
  "roundWeight weight = jdiv (jround (jmul weight (jint 1000000))) (jint 1000000)"

definition DETAILS_OUTPUT_KEY :: string where "DETAILS_OUTPUT_KEY = ''custom_score_details''"

definition computeCustomScore :: "'w CustomScoreEnv \<Rightarrow> ScoreSnapshot \<Rightarrow> ('w, string, (string \<times> string) list) rs" where
  "computeCustomScore env snap =
     (let didsKey = extractOptionalDidsKey (sn_inputs snap)
      in case parseCustomScoreChildren (sn_inputs snap) of
           Inl e \<Rightarrow> rs_throw e
         | Inr children \<Rightarrow>
             rs_bind (run_children env snap didsKey children [])
               (\<lambda>outputs.
                  let detailsKey = generateKey snapshot (sn_id snap) ''custom_score_details.json''
                  in rs_bind (ce_putDetails env detailsKey (map (\<lambda>child. (cs_key child, cs_version child, cs_weight child)) children)
                                (roundWeight (total_weight children)))
                       (\<lambda>_. rs_ret (AList.update DETAILS_OUTPUT_KEY detailsKey outputs))))"

section \<open>The plan\<close>

datatype EncryptedCustomScoreErrorCode =
    UNSUPPORTED_NORMALIZATION_METHOD | INVALID_NORMALIZATION_INPUT | INVALID_WEIGHT | ALL_ZERO_WEIGHTS | INVALID_CHILDREN
  | INCOMPATIBLE_METADATA | UNREGISTERED_KEY | INCOMPLETE_CIPHERTEXT_SET | INCOMPATIBLE_CIPHERTEXT | IMPOSSIBLE_ALIGNMENT
  | CAPACITY_EXCEEDED | BATCH_LIMIT_EXCEEDED | EVALUATOR_DISPOSED | EVALUATION_FAILED

text \<open>An error with its code and its message; the diagnostic context is left out.\<close>

datatype EncryptedCustomScoreError = EncryptedError (error_code: EncryptedCustomScoreErrorCode) (error_text: string)

record NormalizationObservation =
  no_method :: string
  no_min :: jsnum
  no_max :: jsnum

record EncryptedCustomScoreChild =
  ec_key :: string
  ec_weight :: jsnum
  ec_observation :: NormalizationObservation

datatype ChildNormalization = NormAffine jsnum jsnum | ConstantZero

datatype ChildWeighting = WeightAffine jsnum jsnum | WeightZero

datatype ChildContribution = ContribAffine jsnum jsnum | ContribZero

record PlannedChild =
  pl_key :: string
  pl_weight :: jsnum
  pl_observation :: NormalizationObservation
  pl_contribution :: ChildContribution

record ZeroFallback =
  zf_childKey :: string
  zf_knownValue :: jsnum

record EncryptedEvaluationPlan =
  ep_method :: string
  ep_totalWeight :: jsnum
  ep_children :: "PlannedChild list"
  ep_zeroFallback :: "ZeroFallback option"

text \<open>\<^verbatim>\<open>CUSTOM_SCORE_TARGET_RANGE\<close>.\<close>

definition TARGET_MIN :: jsnum where "TARGET_MIN = jint 0"

definition TARGET_MAX :: jsnum where "TARGET_MAX = jint 100"

definition OBSERVED_MIN_MAX :: string where "OBSERVED_MIN_MAX = ''observed_min_max''"

definition about_child :: "string \<Rightarrow> string \<Rightarrow> string" where
  "about_child key rest = ''Child '' @ quoted key @ rest"

definition buildChildNormalization :: "EncryptedCustomScoreChild \<Rightarrow> EncryptedCustomScoreError + ChildNormalization" where
  "buildChildNormalization child =
     (let obs = ec_observation child; mn = no_min obs; mx = no_max obs
      in if no_method obs \<noteq> OBSERVED_MIN_MAX
         then Inl (EncryptedError INVALID_NORMALIZATION_INPUT
           (about_child (ec_key child) ('' carries a '' @ quoted (no_method obs) @ '' observation for the observed_min_max strategy'')))
         else if \<not> jis_finite mn \<or> \<not> jis_finite mx
         then Inl (EncryptedError INVALID_NORMALIZATION_INPUT (about_child (ec_key child) '' has non-finite observed bounds''))
         else if jless mx mn
         then Inl (EncryptedError INVALID_NORMALIZATION_INPUT (about_child (ec_key child) '' has observed minimum greater than its maximum''))
         else if jeq mn mx then Inr ConstantZero
         else
           (let factor = jdiv (jsub TARGET_MAX TARGET_MIN) (jsub mx mn)
            in if \<not> jis_finite factor
               then Inl (EncryptedError CAPACITY_EXCEEDED
                 (about_child (ec_key child) '' has an observed span too small to normalize at double precision''))
               else Inr (NormAffine factor mn)))"

text \<open>
  A strategy is its method and the normalization of a child.  The lookup is by the registered names; a definition whose
  method is the name of a property every object inherits does not pass the registry's check.
\<close>

record EncryptedNormalizationStrategy =
  st_method :: string
  st_build :: "EncryptedCustomScoreChild \<Rightarrow> EncryptedCustomScoreError + ChildNormalization"

definition resolveNormalizationStrategy :: "string \<Rightarrow> EncryptedCustomScoreError + EncryptedNormalizationStrategy" where
  "resolveNormalizationStrategy method =
     (if method = OBSERVED_MIN_MAX then Inr \<lparr>st_method = OBSERVED_MIN_MAX, st_build = buildChildNormalization\<rparr>
      else Inl (EncryptedError UNSUPPORTED_NORMALIZATION_METHOD
        (''Unsupported normalization method '' @ quoted method @ '' for encrypted evaluation'')))"

fun check_keys :: "string list \<Rightarrow> EncryptedCustomScoreChild list \<Rightarrow> EncryptedCustomScoreError + unit" where
  "check_keys seen [] = Inr ()"
| "check_keys seen (child # children) =
     (if js_trim (ec_key child) = [] then Inl (EncryptedError INVALID_CHILDREN ''A selected child has an empty key'')
      else if ec_key child \<in> set seen then Inl (EncryptedError INVALID_CHILDREN (''Duplicate selected child '' @ quoted (ec_key child)))
      else check_keys (set_add (ec_key child) seen) children)"

definition validateChildren :: "EncryptedCustomScoreChild list \<Rightarrow> EncryptedCustomScoreError + unit" where
  "validateChildren children =
     (if children = [] then Inl (EncryptedError INVALID_CHILDREN ''At least one selected child is required'')
      else check_keys [] children)"

definition buildNormalizationPlan :: "string \<Rightarrow> EncryptedCustomScoreChild list \<Rightarrow> EncryptedCustomScoreError + ChildNormalization list" where
  "buildNormalizationPlan method children =
     (case validateChildren children of
        Inl e \<Rightarrow> Inl e
      | Inr _ \<Rightarrow>
          (case resolveNormalizationStrategy method of
             Inl e \<Rightarrow> Inl e
           | Inr strategy \<Rightarrow> map_result (st_build strategy) children))"

definition weigh :: "EncryptedCustomScoreChild \<times> ChildNormalization \<Rightarrow> EncryptedCustomScoreError + ChildWeighting" where
  "weigh = (\<lambda>(child, normalization).
     if \<not> jis_finite (ec_weight child) \<or> jle (ec_weight child) (Fin 0)
     then Inl (EncryptedError INVALID_WEIGHT
       (about_child (ec_key child) '' has an invalid weight: weights must be finite and greater than zero''))
     else
       (case normalization of
          ConstantZero \<Rightarrow> Inr WeightZero
        | NormAffine factor shift \<Rightarrow> Inr (WeightAffine (jmul factor (ec_weight child)) shift)))"

definition applyChildWeights ::
  "EncryptedCustomScoreChild list \<Rightarrow> ChildNormalization list \<Rightarrow> EncryptedCustomScoreError + ChildWeighting list" where
  "applyChildWeights children normalizations = map_result weigh (zip children normalizations)"

definition plan_weight :: "EncryptedCustomScoreChild list \<Rightarrow> jsnum" where
  "plan_weight children = foldl (\<lambda>sum child. jadd sum (ec_weight child)) (Fin 0) children"

definition contribute :: "jsnum \<Rightarrow> EncryptedCustomScoreChild \<times> ChildWeighting \<Rightarrow> EncryptedCustomScoreError + ChildContribution" where
  "contribute totalWeight = (\<lambda>(child, weighting).
     case weighting of
       WeightZero \<Rightarrow> Inr ContribZero
     | WeightAffine factor shift \<Rightarrow>
         (let coefficient = jdiv factor totalWeight
          in if \<not> jis_finite coefficient \<or> jeq coefficient (Fin 0)
             then Inl (EncryptedError CAPACITY_EXCEEDED
               (about_child (ec_key child) '' has a contribution coefficient outside double precision''))
             else Inr (ContribAffine coefficient shift)))"

definition buildAggregationPlan ::
  "EncryptedCustomScoreChild list \<Rightarrow> ChildWeighting list \<Rightarrow> EncryptedCustomScoreError + (jsnum \<times> ChildContribution list)" where
  "buildAggregationPlan children weightings =
     (let totalWeight = plan_weight children
      in if \<not> jis_finite totalWeight then Inl (EncryptedError INVALID_WEIGHT ''The total configured child weight must be finite'')
         else if jle totalWeight (Fin 0)
         then Inl (EncryptedError ALL_ZERO_WEIGHTS ''At least one configured child weight must be greater than zero'')
         else map_sum id (\<lambda>contributions. (totalWeight, contributions)) (map_result (contribute totalWeight) (zip children weightings)))"

fun selectZeroFallback :: "EncryptedCustomScoreChild list \<Rightarrow> ChildNormalization list \<Rightarrow> ZeroFallback option" where
  "selectZeroFallback (child # children) (ConstantZero # _) =
     Some \<lparr>zf_childKey = ec_key child, zf_knownValue = no_min (ec_observation child)\<rparr>"
| "selectZeroFallback (_ # children) (_ # normalizations) = selectZeroFallback children normalizations"
| "selectZeroFallback _ _ = None"

definition planned :: "EncryptedCustomScoreChild \<Rightarrow> ChildContribution \<Rightarrow> PlannedChild" where
  "planned child contribution =
     \<lparr>pl_key = ec_key child, pl_weight = ec_weight child, pl_observation = ec_observation child, pl_contribution = contribution\<rparr>"

definition buildEncryptedEvaluationPlan ::
  "string \<Rightarrow> EncryptedCustomScoreChild list \<Rightarrow> EncryptedCustomScoreError + EncryptedEvaluationPlan" where
  "buildEncryptedEvaluationPlan method children =
     (case buildNormalizationPlan method children of
        Inl e \<Rightarrow> Inl e
      | Inr normalizations \<Rightarrow>
          (case resolveNormalizationStrategy method of
             Inl e \<Rightarrow> Inl e
           | Inr strategy \<Rightarrow>
               (case applyChildWeights children normalizations of
                  Inl e \<Rightarrow> Inl e
                | Inr weightings \<Rightarrow>
                    (case buildAggregationPlan children weightings of
                       Inl e \<Rightarrow> Inl e
                     | Inr (totalWeight, contributions) \<Rightarrow>
                         (let zeroFallback = selectZeroFallback children normalizations
                          in if list_all (\<lambda>contribution. contribution = ContribZero) contributions \<and> zeroFallback = None
                             then Inl (EncryptedError EVALUATION_FAILED
                               ''Every contribution is zero but no equal-bounds child exists to derive an encrypted zero from'')
                             else Inr \<lparr>ep_method = st_method strategy, ep_totalWeight = totalWeight,
                                       ep_children = map2 planned children contributions, ep_zeroFallback = zeroFallback\<rparr>)))))"

section \<open>What a plan promises\<close>

lemma to_double_round:
  assumes "0 \<le> x"
  shows "to_double x = PInf \<or> to_double x = Fin (round53 x)"
proof -
  have "0 \<le> round53 x" using assms by (rule round53_nonneg)
  moreover have "- (2 ^ 1024) < (0 :: rat)" unfolding neg_less_0_iff_less by (rule zero_less_power) simp
  ultimately have "\<not> round53 x \<le> - (2 ^ 1024)" by (meson order_less_le_trans not_le)
  then show ?thesis unfolding to_double_def Let_def by auto
qed

lemma to_double_nonneg: "0 \<le> x \<Longrightarrow> to_double x = PInf \<or> (\<exists>r \<ge> 0. to_double x = Fin r)"
  using to_double_round round53_nonneg by blast

lemma finite_Fin: "jis_finite x \<longleftrightarrow> (\<exists>r. x = Fin r)"
  by (cases x) (simp_all add: jis_finite_def)

text \<open>The bounds a child was observed with, and that its normalization belongs to them.\<close>

definition bounds_of :: "NormalizationObservation \<Rightarrow> rat \<Rightarrow> rat \<Rightarrow> bool" where
  "bounds_of obs m M \<longleftrightarrow> no_method obs = OBSERVED_MIN_MAX \<and> no_min obs = Fin m \<and> no_max obs = Fin M \<and> m \<le> M"

lemma target_span: "jsub TARGET_MAX TARGET_MIN = Fin 100"
  using jsub_int[of 100 0] by (simp add: TARGET_MAX_def TARGET_MIN_def jint_def)

lemma factor_nonneg:
  assumes "m < M" "jis_finite (jdiv (Fin 100) (jsub (Fin M) (Fin m)))"
  shows "\<exists>f \<ge> 0. jdiv (Fin 100) (jsub (Fin M) (Fin m)) = Fin f"
proof -
  consider "to_double (M - m) = PInf" | r where "0 \<le> r" "to_double (M - m) = Fin r"
    using to_double_nonneg[of "M - m"] assms(1) by auto
  then show ?thesis
  proof cases
    case 2
    then have d: "jdiv (Fin 100) (jsub (Fin M) (Fin m)) = (if r = 0 then PInf else to_double (100 / r))"
      by (simp add: jsub_def jinf_of_sign_def)
    then show ?thesis using assms(2) 2(1) to_double_nonneg[of "100 / r"] by (auto simp: finite_Fin)
  qed (simp add: jsub_def)
qed

lemma normalization_cases:
  assumes "buildChildNormalization child = Inr n"
  obtains m M where "bounds_of (ec_observation child) m M" "n = ConstantZero" "m = M"
  | m M f where "bounds_of (ec_observation child) m M" "n = NormAffine (Fin f) (Fin m)" "m < M" "0 \<le> f"
proof -
  obtain m M where b: "no_method (ec_observation child) = OBSERVED_MIN_MAX" "no_min (ec_observation child) = Fin m" "no_max (ec_observation child) = Fin M"
    using assms by (auto simp: buildChildNormalization_def finite_Fin Let_def split: if_splits)
  have le: "m \<le> M" using assms b by (auto simp: buildChildNormalization_def Let_def jis_finite_def split: if_splits)
  show thesis
  proof (cases "m = M")
    case True
    then show ?thesis using assms b that(1)[of m M] by (simp add: buildChildNormalization_def Let_def jis_finite_def jeq_def bounds_of_def)
  next
    case False
    let ?f = "jdiv (Fin 100) (jsub (Fin M) (Fin m))"
    have n: "jis_finite ?f" "n = NormAffine ?f (Fin m)"
      using assms b False le by (auto simp: buildChildNormalization_def Let_def jeq_def target_span split: if_splits)
    then show ?thesis using factor_nonneg[of m M] False le b that(2)[of m M] by (auto simp: bounds_of_def)
  qed
qed

text \<open>A child of an accepted plan: its weight is positive; it contributes nought exactly when its bounds are equal.\<close>

definition sound_contribution :: "EncryptedCustomScoreChild \<Rightarrow> ChildContribution \<Rightarrow> bool" where
  "sound_contribution child c \<longleftrightarrow> (\<exists>m M w. bounds_of (ec_observation child) m M \<and> ec_weight child = Fin w \<and> 0 < w
     \<and> (case c of ContribZero \<Rightarrow> m = M | ContribAffine q s \<Rightarrow> m < M \<and> s = Fin m \<and> (\<exists>r > 0. q = Fin r)))"

lemma coefficient_pos:
  assumes "0 \<le> f" "0 < w" "0 < t" "jis_finite (jdiv (jmul (Fin f) (Fin w)) (Fin t))" "\<not> jeq (jdiv (jmul (Fin f) (Fin w)) (Fin t)) (Fin 0)"
  shows "\<exists>r > 0. jdiv (jmul (Fin f) (Fin w)) (Fin t) = Fin r"
proof -
  consider "to_double (f * w) = PInf" | g where "0 \<le> g" "to_double (f * w) = Fin g"
    using to_double_nonneg[of "f * w"] assms by auto
  then show ?thesis
  proof cases
    case 1
    then show ?thesis using assms by (simp add: jis_finite_def)
  next
    case (2 g)
    then have d: "jdiv (jmul (Fin f) (Fin w)) (Fin t) = to_double (g / t)" using assms(3) by simp
    then obtain r where "to_double (g / t) = Fin r" "0 \<le> r"
      using to_double_nonneg[of "g / t"] 2 assms(3,4) by (auto simp: finite_Fin)
    then show ?thesis using assms(5) d by (auto simp: jeq_def order_less_le)
  qed
qed

lemma contribution_sound:
  assumes "buildChildNormalization child = Inr n" "weigh (child, n) = Inr v" "contribute (Fin t) (child, v) = Inr c" "0 < t"
  shows "sound_contribution child c" "c = ContribZero \<longleftrightarrow> n = ConstantZero"
proof -
  obtain w where w: "ec_weight child = Fin w" "0 < w"
    using assms(2) by (auto simp: weigh_def finite_Fin jle_def jeq_def split: if_splits)
  note b = assms(1)
  show "sound_contribution child c"
    using b
  proof (cases rule: normalization_cases)
    case (1 m M)
    then show ?thesis using assms(2,3) w by (auto simp: weigh_def contribute_def sound_contribution_def split: if_splits)
  next
    case (2 m M f)
    have v: "v = WeightAffine (jmul (Fin f) (Fin w)) (Fin m)"
      using assms(2) 2(2) w by (auto simp: weigh_def jis_finite_def jle_def jeq_def simp del: jmul.simps)
    show ?thesis using assms(3) coefficient_pos[OF 2(4) w(2) assms(4)] 2(1,3) w
      by (auto simp: v contribute_def Let_def sound_contribution_def simp del: jmul.simps split: if_splits)
  qed
  show "c = ContribZero \<longleftrightarrow> n = ConstantZero"
    using assms(2,3) by (cases n) (auto simp: weigh_def contribute_def Let_def split: if_splits)
qed

lemma check_keys_Inr: "check_keys seen children = Inr u \<Longrightarrow> distinct (map ec_key children) \<and> set (map ec_key children) \<inter> set seen = {}"
proof (induction children arbitrary: seen)
  case (Cons child children)
  then have "check_keys (set_add (ec_key child) seen) children = Inr u" "ec_key child \<notin> set seen" by (auto split: if_splits)
  then show ?case using Cons.IH[of "set_add (ec_key child) seen"] by auto
qed simp

lemma list_all2_zip_chain:
  assumes "list_all2 P xs ys" "list_all2 Q (zip xs ys) zs" "list_all2 R (zip xs zs) us"
  shows "list_all2 (\<lambda>x u. \<exists>y z. P x y \<and> Q (x, y) z \<and> R (x, z) u) xs us"
  using assms
proof (induction xs ys arbitrary: zs us rule: list_all2_induct)
  case (Cons x xs y ys)
  then obtain z zs' where z: "zs = z # zs'" "Q (x, y) z" "list_all2 Q (zip xs ys) zs'" by (auto simp: list_all2_Cons1)
  then obtain u us' where "us = u # us'" "R (x, z) u" "list_all2 R (zip xs zs') us'" using Cons.prems by (auto simp: list_all2_Cons1)
  then show ?case using z Cons.hyps(1) Cons.IH by auto
qed simp

lemma list_all2_member: "list_all2 P xs ys \<Longrightarrow> y \<in> set ys \<Longrightarrow> \<exists>x \<in> set xs. P x y"
  by (induction rule: list_all2_induct) auto

text \<open>The steps an accepted plan went through.\<close>

lemma plan_Inr:
  assumes "buildEncryptedEvaluationPlan method children = Inr plan"
  obtains ns vs cs t where "method = OBSERVED_MIN_MAX" "children \<noteq> []" "distinct (map ec_key children)"
    "map_result buildChildNormalization children = Inr ns" "map_result weigh (zip children ns) = Inr vs"
    "map_result (contribute (Fin t)) (zip children vs) = Inr cs" "plan_weight children = Fin t" "0 < t"
    "plan = \<lparr>ep_method = OBSERVED_MIN_MAX, ep_totalWeight = Fin t, ep_children = map2 planned children cs,
             ep_zeroFallback = selectZeroFallback children ns\<rparr>"
proof -
  obtain ns strategy vs t cs where
    a: "buildNormalizationPlan method children = Inr ns" "resolveNormalizationStrategy method = Inr strategy"
      "applyChildWeights children ns = Inr vs" "buildAggregationPlan children vs = Inr (t, cs)"
    and p: "plan = \<lparr>ep_method = st_method strategy, ep_totalWeight = t, ep_children = map2 planned children cs,
             ep_zeroFallback = selectZeroFallback children ns\<rparr>"
    using assms by (auto simp: buildEncryptedEvaluationPlan_def Let_def split: sum.splits prod.splits if_splits)
  have m: "method = OBSERVED_MIN_MAX" "strategy = \<lparr>st_method = OBSERVED_MIN_MAX, st_build = buildChildNormalization\<rparr>"
    using a(2) by (auto simp: resolveNormalizationStrategy_def split: if_splits)
  have v: "validateChildren children = Inr ()" "map_result buildChildNormalization children = Inr ns"
    using a(1,2) m by (auto simp: buildNormalizationPlan_def split: sum.splits)
  have d: "children \<noteq> []" "distinct (map ec_key children)"
    using v(1) check_keys_Inr[of "[]" children "()"] by (auto simp: validateChildren_def split: if_splits)
  have q: "jis_finite (plan_weight children)" "\<not> jle (plan_weight children) (Fin 0)" "t = plan_weight children"
    "map_result (contribute t) (zip children vs) = Inr cs"
    using a(4) by (cases "map_result (contribute (plan_weight children)) (zip children vs)"; simp add: buildAggregationPlan_def Let_def split: if_splits)+
  then obtain r where "plan_weight children = Fin r" by (auto simp: finite_Fin)
  then have r: "t = Fin r" "0 < r" "plan_weight children = Fin r" using q by (auto simp: jle_def jeq_def)
  show thesis by (rule that[of ns vs r cs]) (use m d v(2) a(3) r q(4) p in \<open>simp_all add: applyChildWeights_def\<close>)
qed

text \<open>The score of a user by the plan, when \<open>x\<close> gives the value of each child.\<close>

definition contribution_value :: "(string \<Rightarrow> rat) \<Rightarrow> PlannedChild \<Rightarrow> rat" where
  "contribution_value x p = (case pl_contribution p of ContribAffine (Fin c) (Fin s) \<Rightarrow> c * (x (pl_key p) - s) | _ \<Rightarrow> 0)"

definition plan_score :: "EncryptedEvaluationPlan \<Rightarrow> (string \<Rightarrow> rat) \<Rightarrow> rat" where
  "plan_score plan x = sum_list (map (contribution_value x) (ep_children plan))"

lemma plan_children_sound:
  assumes "buildEncryptedEvaluationPlan method children = Inr plan"
  shows "list_all2 (\<lambda>child p. p = planned child (pl_contribution p) \<and> sound_contribution child (pl_contribution p)) children (ep_children plan)"
proof -
  obtain ns vs cs t where a: "map_result buildChildNormalization children = Inr ns" "map_result weigh (zip children ns) = Inr vs"
    "map_result (contribute (Fin t)) (zip children vs) = Inr cs" "0 < t" "ep_children plan = map2 planned children cs"
    using plan_Inr[OF assms] by (metis EncryptedEvaluationPlan.select_convs(3))
  have c: "list_all2 (\<lambda>child c. sound_contribution child c) children cs"
    using list_all2_zip_chain[OF map_result_Inr[OF a(1)] map_result_Inr[OF a(2)] map_result_Inr[OF a(3)]]
    by (rule list_all2_mono) (use contribution_sound(1) a(4) in blast)
  then have "list_all2 (\<lambda>child p. p = planned child (pl_contribution p) \<and> sound_contribution child (pl_contribution p)) children (map2 planned children cs)"
    by (induction rule: list_all2_induct) (simp_all add: planned_def)
  then show ?thesis by (simp add: a(5))
qed

lemma fallback_cases:
  assumes "list_all2 (\<lambda>child n. buildChildNormalization child = Inr n) children ns"
  shows "selectZeroFallback children ns = None \<longleftrightarrow> ConstantZero \<notin> set ns"
    and "selectZeroFallback children ns = Some z \<Longrightarrow>
      \<exists>child \<in> set children. buildChildNormalization child = Inr ConstantZero \<and> z = \<lparr>zf_childKey = ec_key child, zf_knownValue = no_min (ec_observation child)\<rparr>"
proof -
  show "selectZeroFallback children ns = None \<longleftrightarrow> ConstantZero \<notin> set ns"
    using assms
  proof (induction rule: list_all2_induct)
    case (Cons child children n ns)
    then show ?case by (cases n) simp_all
  qed simp
  show "selectZeroFallback children ns = Some z \<Longrightarrow>
      \<exists>child \<in> set children. buildChildNormalization child = Inr ConstantZero \<and> z = \<lparr>zf_childKey = ec_key child, zf_knownValue = no_min (ec_observation child)\<rparr>"
    using assms
  proof (induction rule: list_all2_induct)
    case (Cons child children n ns)
    then show ?case by (cases n) auto
  qed simp
qed

lemma no_contribution_fallback:
  assumes "children \<noteq> []" "list_all2 (\<lambda>child n. buildChildNormalization child = Inr n) children ns"
    and "list_all2 (\<lambda>x v. weigh x = Inr v) (zip children ns) vs" "list_all2 (\<lambda>x c. contribute (Fin t) x = Inr c) (zip children vs) cs"
    and "0 < t" "list_all (\<lambda>c. c = ContribZero) cs"
  shows "selectZeroFallback children ns \<noteq> None"
proof -
  have z: "list_all2 (\<lambda>child c. c = ContribZero \<longrightarrow> buildChildNormalization child = Inr ConstantZero) children cs"
    using list_all2_zip_chain[OF assms(2-4)] by (rule list_all2_mono) (use contribution_sound(2) assms(5) in blast)
  obtain child children' where e: "children = child # children'" using assms(1) by (cases children) auto
  then have "buildChildNormalization child = Inr ConstantZero" using z assms(6) by (auto simp: list_all2_Cons1)
  then have "ConstantZero \<in> set ns" using assms(2) e by (auto simp: list_all2_Cons1)
  then show ?thesis using fallback_cases(1)[OF assms(2)] by simp
qed

text \<open>When every contribution is nought, the plan names a child whose ciphertext is known to encrypt its bound.\<close>

lemma plan_fallback:
  assumes "buildEncryptedEvaluationPlan method children = Inr plan"
  shows "list_all (\<lambda>p. pl_contribution p = ContribZero) (ep_children plan) \<Longrightarrow> ep_zeroFallback plan \<noteq> None"
    and "ep_zeroFallback plan = Some z \<Longrightarrow>
      \<exists>child \<in> set children. \<exists>m. bounds_of (ec_observation child) m m \<and> z = \<lparr>zf_childKey = ec_key child, zf_knownValue = Fin m\<rparr>"
proof -
  obtain ns vs cs t where a: "children \<noteq> []" "map_result buildChildNormalization children = Inr ns" "map_result weigh (zip children ns) = Inr vs"
    "map_result (contribute (Fin t)) (zip children vs) = Inr cs" "0 < t" "ep_children plan = map2 planned children cs"
    "ep_zeroFallback plan = selectZeroFallback children ns"
    using plan_Inr[OF assms] by (metis EncryptedEvaluationPlan.select_convs(3,4))
  note n = map_result_Inr[OF a(2)]
  have all: "list_all (\<lambda>p. pl_contribution p = ContribZero) (map2 planned children cs) \<longleftrightarrow> list_all (\<lambda>c. c = ContribZero) cs"
    using list_all2_zip_chain[OF n map_result_Inr[OF a(3)] map_result_Inr[OF a(4)]]
    by (induction rule: list_all2_induct) (simp_all add: planned_def)
  show "list_all (\<lambda>p. pl_contribution p = ContribZero) (ep_children plan) \<Longrightarrow> ep_zeroFallback plan \<noteq> None"
    using no_contribution_fallback[OF a(1) n map_result_Inr[OF a(3)] map_result_Inr[OF a(4)] a(5)] a(6,7) all by simp
  show "\<exists>child \<in> set children. \<exists>m. bounds_of (ec_observation child) m m \<and> z = \<lparr>zf_childKey = ec_key child, zf_knownValue = Fin m\<rparr>"
    if some: "ep_zeroFallback plan = Some z"
  proof -
    obtain child where c: "child \<in> set children" "buildChildNormalization child = Inr ConstantZero"
      "z = \<lparr>zf_childKey = ec_key child, zf_knownValue = no_min (ec_observation child)\<rparr>"
      using fallback_cases(2)[OF n, of z] some a(7) by auto
    then show ?thesis by (auto elim!: normalization_cases simp: bounds_of_def)
  qed
qed

lemma contribution_form:
  assumes "p = planned child (pl_contribution p)" "sound_contribution child (pl_contribution p)"
  shows "\<exists>m M q. bounds_of (pl_observation p) m M \<and> 0 \<le> q \<and> (\<forall>x. contribution_value x p = q * (x (pl_key p) - m))"
proof -
  obtain m M where b: "bounds_of (ec_observation child) m M"
    "case pl_contribution p of ContribZero \<Rightarrow> m = M | ContribAffine q s \<Rightarrow> m < M \<and> s = Fin m \<and> (\<exists>r > 0. q = Fin r)"
    using assms(2) by (auto simp: sound_contribution_def)
  have obs: "pl_observation p = ec_observation child" using arg_cong[OF assms(1), of pl_observation] by (simp add: planned_def)
  show ?thesis
  proof (cases "pl_contribution p")
    case ContribZero
    then show ?thesis using b(1) obs by (intro exI[of _ m] exI[of _ M] exI[of _ 0]) (simp add: contribution_value_def)
  next
    case (ContribAffine q s)
    then obtain r where "0 < r" "q = Fin r" "s = Fin m" using b by auto
    then show ?thesis using b(1) obs ContribAffine by (intro exI[of _ m] exI[of _ M] exI[of _ r]) (simp add: contribution_value_def)
  qed
qed

text \<open>The values \<open>x\<close> are not below the observed minima.\<close>

definition above_minima :: "EncryptedEvaluationPlan \<Rightarrow> (string \<Rightarrow> rat) \<Rightarrow> bool" where
  "above_minima plan x \<longleftrightarrow> list_all (\<lambda>p. jle (no_min (pl_observation p)) (Fin (x (pl_key p)))) (ep_children plan)"

lemma plan_score_mono:
  assumes "list_all2 (\<lambda>child p. p = planned child (pl_contribution p) \<and> sound_contribution child (pl_contribution p)) children ps"
    and "list_all (\<lambda>p. jle (no_min (pl_observation p)) (Fin (x (pl_key p)))) ps" "\<And>p. p \<in> set ps \<Longrightarrow> x (pl_key p) \<le> y (pl_key p)"
  shows "0 \<le> sum_list (map (contribution_value x) ps) \<and> sum_list (map (contribution_value x) ps) \<le> sum_list (map (contribution_value y) ps)"
  using assms
proof (induction rule: list_all2_induct)
  case (Cons child children p ps)
  then obtain m M q where q: "bounds_of (pl_observation p) m M" "0 \<le> q" "\<And>x. contribution_value x p = q * (x (pl_key p) - m)"
    using contribution_form[of p child] by blast
  have "m \<le> x (pl_key p)" "x (pl_key p) \<le> y (pl_key p)" using Cons.prems q(1) by (auto simp: bounds_of_def jle_def jeq_def)
  then have "0 \<le> contribution_value x p" "contribution_value x p \<le> contribution_value y p"
    using q(2) by (simp_all add: q(3) mult_left_mono)
  moreover have "0 \<le> sum_list (map (contribution_value x) ps) \<and> sum_list (map (contribution_value x) ps) \<le> sum_list (map (contribution_value y) ps)"
    using Cons.prems by (intro Cons.IH) auto
  ultimately show ?case by simp
qed simp


definition demo_child :: "string \<Rightarrow> rat \<Rightarrow> rat \<Rightarrow> EncryptedCustomScoreChild" where
  "demo_child k m M = \<lparr>ec_key = k, ec_weight = Fin 1, ec_observation = \<lparr>no_method = OBSERVED_MIN_MAX, no_min = Fin m, no_max = Fin M\<rparr>\<rparr>"

definition demo_plan :: EncryptedEvaluationPlan where
  "demo_plan = \<lparr>ep_method = OBSERVED_MIN_MAX, ep_totalWeight = Fin 1,
     ep_children = [planned (demo_child ''voting_engagement'' 0 100) (ContribAffine (Fin 1) (Fin 0))], ep_zeroFallback = None\<rparr>"

lemma demo_plan_built: "buildEncryptedEvaluationPlan OBSERVED_MIN_MAX [demo_child ''voting_engagement'' 0 100] = Inr demo_plan"
proof -
  have one: "to_double 1 = Fin 1" "to_double 100 = Fin 100" using to_double_int[of 1] to_double_int[of 100] by simp_all
  have span: "jsub (Fin 100) (Fin 0) = Fin 100" by (simp add: jsub_def one)
  have n: "buildChildNormalization (demo_child ''voting_engagement'' 0 100) = Inr (NormAffine (Fin 1) (Fin 0))"
    by (simp add: buildChildNormalization_def Let_def target_span demo_child_def span jis_finite_def jeq_def one)
  have w: "weigh (demo_child ''voting_engagement'' 0 100, NormAffine (Fin 1) (Fin 0)) = Inr (WeightAffine (Fin 1) (Fin 0))"
    by (simp add: weigh_def demo_child_def jis_finite_def jle_def jeq_def one)
  have c: "contribute (Fin 1) (demo_child ''voting_engagement'' 0 100, WeightAffine (Fin 1) (Fin 0)) = Inr (ContribAffine (Fin 1) (Fin 0))"
    by (simp add: contribute_def Let_def one jis_finite_def jeq_def)
  have t: "plan_weight [demo_child ''voting_engagement'' 0 100] = Fin 1" by (simp add: plan_weight_def demo_child_def one)
  have v: "validateChildren [demo_child ''voting_engagement'' 0 100] = Inr ()" by (simp add: validateChildren_def demo_child_def js_trim_def js_is_space_def)
  show ?thesis
    by (simp add: buildEncryptedEvaluationPlan_def buildNormalizationPlan_def v resolveNormalizationStrategy_def n applyChildWeights_def w
      buildAggregationPlan_def Let_def t c jis_finite_def jle_def jeq_def demo_plan_def)
qed


text \<open>
  The check for a plan without contributions and without a fallback never fires, so the only reasons to refuse children
  with distinct keys, positive weights and ordered bounds are an unknown method and the range of doubles.
\<close>

definition child_wf :: "EncryptedCustomScoreChild \<Rightarrow> bool" where
  "child_wf child \<longleftrightarrow> js_trim (ec_key child) \<noteq> [] \<and> is_double (ec_weight child) \<and> (\<exists>w > 0. ec_weight child = Fin w)
     \<and> (\<exists>m M. bounds_of (ec_observation child) m M)"

lemma check_keys_accepts:
  "list_all child_wf children \<Longrightarrow> distinct (map ec_key children) \<Longrightarrow> set (map ec_key children) \<inter> set seen = {} \<Longrightarrow> check_keys seen children = Inr ()"
  by (induction children arbitrary: seen) (auto simp: child_wf_def)

lemma weight_positive:
  assumes "list_all child_wf children" "0 \<le> s" "round53 s = s" "foldl (\<lambda>sum child. jadd sum (ec_weight child)) (Fin s) children = Fin t"
  shows "s \<le> t \<and> (children \<noteq> [] \<longrightarrow> 0 < t)"
  using assms
proof (induction children arbitrary: s)
  case (Cons child children)
  obtain w where w: "0 < w" "ec_weight child = Fin w" "round53 w = w" using Cons.prems(1) by (auto simp: child_wf_def)
  have le: "s \<le> round53 (s + w)" "w \<le> round53 (s + w)"
    using round53_mono[of s "s + w"] round53_mono[of w "s + w"] Cons.prems(2,3) w by simp_all
  have neq: "foldl (\<lambda>sum child. jadd sum (ec_weight child)) PInf children \<noteq> Fin t"
    using Cons.prems(1) by (induction children) (auto simp: child_wf_def)
  consider "to_double (s + w) = PInf" | "to_double (s + w) = Fin (round53 (s + w))"
    using to_double_round[of "s + w"] Cons.prems(2) w(1) by auto
  then have "foldl (\<lambda>sum child. jadd sum (ec_weight child)) (Fin (round53 (s + w))) children = Fin t"
    using Cons.prems(4) neq w(2) by cases simp_all
  then have "round53 (s + w) \<le> t" using Cons.IH[of "round53 (s + w)"] Cons.prems(1,2) le w(1) round53_idem[of "s + w"] by simp
  then show ?case using le w(1) by simp
qed simp

lemma map_result_code: "map_result f xs = Inl e \<Longrightarrow> (\<And>x e. x \<in> set xs \<Longrightarrow> f x = Inl e \<Longrightarrow> error_code e = c) \<Longrightarrow> error_code e = c"
  using map_result_Inl by metis

lemma plan_refused_for_capacity:
  assumes "children \<noteq> []" "list_all child_wf children" "distinct (map ec_key children)" "jis_finite (plan_weight children)"
    and "buildEncryptedEvaluationPlan OBSERVED_MIN_MAX children = Inl e"
  shows "error_code e = CAPACITY_EXCEEDED"
proof -
  have wf: "child_wf child" if "child \<in> set children" for child using assms(2) that by (simp add: list_all_iff)
  have v: "validateChildren children = Inr ()" using check_keys_accepts[OF assms(2,3), of "[]"] assms(1) by (simp add: validateChildren_def)
  have n: "error_code e = CAPACITY_EXCEEDED" if "child \<in> set children" "buildChildNormalization child = Inl e" for child e
    using wf[OF that(1)] that(2) by (auto simp: buildChildNormalization_def child_wf_def bounds_of_def Let_def jis_finite_def split: if_splits)
  have w: "weigh (child, n) \<noteq> Inl e" if "child \<in> set children" for child n e
    using wf[OF that] by (auto simp: weigh_def child_wf_def jis_finite_def jle_def jeq_def split: ChildNormalization.splits)
  have c: "error_code e = CAPACITY_EXCEEDED" if "contribute t x = Inl e" for t x e
    using that by (auto simp: contribute_def Let_def split: prod.splits ChildWeighting.splits if_splits)
  obtain t where t: "plan_weight children = Fin t" using assms(4) by (auto simp: finite_Fin)
  then have t0: "0 < t" using weight_positive[OF assms(2), of 0 t] assms(1) by (simp add: plan_weight_def)
  show ?thesis
  proof (cases "map_result buildChildNormalization children")
    case (Inl e')
    then have "e' = e" using assms(5) v by (simp add: buildEncryptedEvaluationPlan_def buildNormalizationPlan_def resolveNormalizationStrategy_def)
    then show ?thesis using Inl n by (auto dest: map_result_Inl)
  next
    case ns: (Inr ns)
    obtain vs where vs: "map_result weigh (zip children ns) = Inr vs"
      using w by (cases "map_result weigh (zip children ns)") (auto dest!: map_result_Inl set_zip_leftD)
    have agg: "buildAggregationPlan children vs = map_sum id (Pair (Fin t)) (map_result (contribute (Fin t)) (zip children vs))"
      using t t0 by (simp add: buildAggregationPlan_def Let_def jis_finite_def jle_def jeq_def)
    show ?thesis
    proof (cases "map_result (contribute (Fin t)) (zip children vs)")
      case (Inl e')
      then have "e' = e" using assms(5) v ns vs agg
        by (simp add: buildEncryptedEvaluationPlan_def buildNormalizationPlan_def resolveNormalizationStrategy_def applyChildWeights_def)
      then show ?thesis using Inl c by (auto dest: map_result_Inl)
    next
      case (Inr cs)
      have "list_all (\<lambda>c. c = ContribZero) cs \<Longrightarrow> selectZeroFallback children ns \<noteq> None"
        using no_contribution_fallback[OF assms(1) map_result_Inr[OF ns] map_result_Inr[OF vs] map_result_Inr[OF Inr] t0] by simp
      then show ?thesis using assms(5) v ns vs agg Inr
        by (auto simp: buildEncryptedEvaluationPlan_def buildNormalizationPlan_def resolveNormalizationStrategy_def applyChildWeights_def Let_def split: if_splits)
    qed
  qed
qed

section \<open>Outputs of a custom score\<close>

lemma child_output_Inr: "child_output child d outputs = Inr k \<Longrightarrow> js_trim k \<noteq> []"
  by (auto simp: child_output_def Let_def split: sum.splits option.splits if_splits)

lemma run_child_Inr:
  assumes "runChildAlgorithm env snap didsKey child w = (Inr k, w')"
  shows "cs_key child \<in> set STANDALONE_KEYS" "js_trim k \<noteq> []"
  using assms child_output_Inr by (auto simp: runChildAlgorithm_def rs_bind_Inr rs_lift_def rs_throw_def split: sum.splits if_splits)

lemma update_new: "k \<notin> fst ` set m \<Longrightarrow> AList.update k v m = m @ [(k, v)]"
  by (induction m) auto

lemma run_children_Inr:
  assumes "run_children env snap didsKey children outputs w = (Inr outputs', w')" "distinct (map cs_key children)"
    and "set (map cs_key children) \<inter> fst ` set outputs = {}"
  shows "map fst outputs' = map fst outputs @ map cs_key children \<and> set (map cs_key children) \<subseteq> set STANDALONE_KEYS
    \<and> (\<forall>(_, k) \<in> set outputs' - set outputs. js_trim k \<noteq> [])"
  using assms
proof (induction children arbitrary: outputs w)
  case (Cons child children)
  obtain k w1 where k: "runChildAlgorithm env snap didsKey child w = (Inr k, w1)"
    and r: "run_children env snap didsKey children (AList.update (cs_key child) k outputs) w1 = (Inr outputs', w')"
    using Cons.prems(1) by (auto simp: rs_bind_Inr)
  have u: "AList.update (cs_key child) k outputs = outputs @ [(cs_key child, k)]"
    using Cons.prems(3) by (intro update_new) auto
  have "map fst outputs' = map fst (outputs @ [(cs_key child, k)]) @ map cs_key children \<and> set (map cs_key children) \<subseteq> set STANDALONE_KEYS
      \<and> (\<forall>(_, k) \<in> set outputs' - set (outputs @ [(cs_key child, k)]). js_trim k \<noteq> [])"
    using Cons.prems(2,3) r u by (intro Cons.IH) auto
  then show ?case using run_child_Inr[OF k] by auto
qed (simp add: rs_ret_def)

text \<open>A custom score that succeeds lists one CSV per selected child, in order, and its details.\<close>

lemma parsed_children_distinct: "parseCustomScoreChildren inputs = Inr children \<Longrightarrow> distinct (map cs_key children)"
  by (auto simp: parseCustomScoreChildren_def split: json.splits if_splits sum.splits)

lemma custom_score_outputs:
  assumes "parseCustomScoreChildren (sn_inputs snap) = Inr children" "computeCustomScore env snap w = (Inr outputs, w')"
  shows "map fst outputs = map cs_key children @ [DETAILS_OUTPUT_KEY]"
proof -
  obtain out w1 k where r: "run_children env snap (extractOptionalDidsKey (sn_inputs snap)) children [] w = (Inr out, w1)"
    and o: "outputs = AList.update DETAILS_OUTPUT_KEY k out"
    using assms by (auto simp: computeCustomScore_def Let_def rs_bind_Inr rs_ret_def)
  have m: "map fst out = map cs_key children" "set (map cs_key children) \<subseteq> set STANDALONE_KEYS"
    using run_children_Inr[OF r parsed_children_distinct[OF assms(1)]] by simp_all
  have "DETAILS_OUTPUT_KEY \<notin> set STANDALONE_KEYS" by (simp add: DETAILS_OUTPUT_KEY_def STANDALONE_KEYS_def)
  then have "DETAILS_OUTPUT_KEY \<notin> fst ` set out" using m by (metis in_mono list.set_map)
  then show ?thesis by (simp add: o update_new m(1))
qed

end
