(* ===== verification/Encrypted_Evaluator.thy ===== *)
theory Encrypted_Evaluator
  imports Evaluation_Plan "HOL-Library.Multiset"
begin

text \<open>
  The homomorphic evaluator of the custom score (\<^verbatim>\<open>encrypted-evaluator/seal-runtime.ts\<close>, \<^verbatim>\<open>seal-context.ts\<close>, \<^verbatim>\<open>evaluator.ts\<close>).

  The SEAL package is an argument: its operations on parameters \<open>'e\<close>, contexts \<open>'k\<close>, parameter identifiers \<open>'l\<close>, ciphertexts
  \<open>'c\<close> and plaintexts \<open>'p\<close>, an operation in place being a function to the new value, and an exception the text of its
  message.  What the code adds is the ledger of WASM objects: every object has a handle, and the state holds the handles
  that exist, the counters, and the handles of the scope in use.  The constructors of empty objects do not throw.
\<close>

section \<open>Handles\<close>

record seal_state =
  sl_next :: nat
  sl_live :: "nat list"
  sl_created :: nat
  sl_released :: nat
  sl_scope :: "nat list"

definition createSealHandleLedger :: seal_state where
  "createSealHandleLedger = \<lparr>sl_next = 0, sl_live = [], sl_created = 0, sl_released = 0, sl_scope = []\<rparr>"

datatype eval_error = Typed EncryptedCustomScoreError | SealFailure string

type_synonym 'a sealed = "(seal_state, eval_error, 'a) rs"

text \<open>An object that is created and tracked at once, \<^verbatim>\<open>scope.track(new \<dots>)\<close>.\<close>

definition track :: "nat sealed" where
  "track s = (Inr (sl_next s), s\<lparr>sl_next := sl_next s + 1, sl_live := sl_live s @ [sl_next s], sl_created := sl_created s + 1,
     sl_scope := sl_scope s @ [sl_next s]\<rparr>)"

definition delete_handle :: "nat \<Rightarrow> seal_state \<Rightarrow> seal_state" where
  "delete_handle h s = (if h \<in> set (sl_live s) then s\<lparr>sl_live := remove1 h (sl_live s)\<rparr> else s)"

definition release :: "nat \<Rightarrow> unit sealed" where
  "release h s =
     (if h \<notin> set (sl_scope s) then (Inr (), s)
      else
        (let s' = delete_handle h (s\<lparr>sl_scope := remove1 h (sl_scope s)\<rparr>)
         in (Inr (), s'\<lparr>sl_released := sl_released s' + 1\<rparr>)))"

definition free_handle :: "nat \<Rightarrow> seal_state \<Rightarrow> seal_state" where
  "free_handle h s = (let s' = delete_handle h s in s'\<lparr>sl_released := sl_released s' + 1\<rparr>)"

definition dispose_handles :: "nat list \<Rightarrow> seal_state \<Rightarrow> seal_state" where
  "dispose_handles handles s = fold free_handle (rev handles) s"

definition dispose_scope :: "seal_state \<Rightarrow> seal_state" where
  "dispose_scope s = (dispose_handles (sl_scope s) s)\<lparr>sl_scope := []\<rparr>"

section \<open>SEAL\<close>

record ('e, 'k, 'l, 'c, 'p) Seal =
  se_parms :: "string \<Rightarrow> string + 'e"
  se_isCkks :: "'e \<Rightarrow> bool"
  se_polyModulusDegree :: "'e \<Rightarrow> int"
  se_bitSizes :: "'e \<Rightarrow> int list"
  se_context :: "'e \<Rightarrow> int \<Rightarrow> string + 'k"
  se_parametersSet :: "'k \<Rightarrow> bool"
  se_firstData :: "'k \<Rightarrow> string + (int \<times> int)"
  se_slotCount :: "'k \<Rightarrow> nat"
  se_log2 :: "jsnum \<Rightarrow> jsnum"
  se_pow2 :: "jsnum \<Rightarrow> jsnum"
  se_load :: "'k \<Rightarrow> string \<Rightarrow> string + 'c"
  se_scale :: "'c \<Rightarrow> jsnum"
  se_parmsId :: "'c \<Rightarrow> 'l"
  se_chainIndex :: "'k \<Rightarrow> 'l \<Rightarrow> string + nat"
  se_modSwitch :: "'k \<Rightarrow> 'c \<Rightarrow> 'l \<Rightarrow> string + 'c"
  se_encode :: "'k \<Rightarrow> jsnum list \<Rightarrow> jsnum \<Rightarrow> string + 'p"
  se_isZero :: "'p \<Rightarrow> bool"
  se_plainModSwitch :: "'k \<Rightarrow> 'p \<Rightarrow> 'l \<Rightarrow> string + 'p"
  se_subPlain :: "'k \<Rightarrow> 'c \<Rightarrow> 'p \<Rightarrow> string + 'c"
  se_multiplyPlain :: "'k \<Rightarrow> 'c \<Rightarrow> 'p \<Rightarrow> string + 'c"
  se_rescale :: "'k \<Rightarrow> 'c \<Rightarrow> string + 'c"
  se_setScale :: "'c \<Rightarrow> jsnum \<Rightarrow> 'c"
  se_add :: "'k \<Rightarrow> 'c \<Rightarrow> 'c \<Rightarrow> string + 'c"
  se_isTransparent :: "'c \<Rightarrow> bool"
  se_save :: "'c \<Rightarrow> string + string"

definition seal_op :: "string + 'a \<Rightarrow> 'a sealed" where
  "seal_op r = rs_lift (map_sum SealFailure id r)"

definition typed :: "EncryptedCustomScoreErrorCode \<Rightarrow> string \<Rightarrow> 'a sealed" where
  "typed code message = rs_throw (Typed (EncryptedError code message))"

record SealMetadata =
  sm_id :: string
  sm_securityLevel :: int
  sm_polyModulusDegree :: int
  sm_coeffModulusBitSizes :: "int list"
  sm_scale :: jsnum
  sm_encryptionParameters :: string

record 'k SealKeyContext =
  kc_keyId :: string
  kc_scale :: jsnum
  kc_context :: 'k
  kc_slotCount :: nat
  kc_magnitudeLimit :: jsnum

definition CAPACITY_MARGIN_BITS :: jsnum where "CAPACITY_MARGIN_BITS = jint 5"

definition SCALE_RELATIVE_TOLERANCE :: jsnum where "SCALE_RELATIVE_TOLERANCE = Fin (1 / 2 ^ 20)"

subsection \<open>The context of a key\<close>

definition incompatible :: "SealMetadata \<Rightarrow> string \<Rightarrow> 'a sealed" where
  "incompatible metadata reason =
     typed INCOMPATIBLE_METADATA (''SEAL metadata '' @ quoted (sm_id metadata) @ '' is incompatible: '' @ reason)"

definition signed_text :: "int \<Rightarrow> string" where
  "signed_text n = (if 0 \<le> n then js_nat (nat n) else ''-'' @ js_nat (nat (- n)))"

definition resolveSecurityLevel :: "SealMetadata \<Rightarrow> int sealed" where
  "resolveSecurityLevel metadata =
     (if sm_securityLevel metadata \<in> {128, 192, 256} then rs_ret (sm_securityLevel metadata)
      else incompatible metadata (''unsupported security level '' @ signed_text (sm_securityLevel metadata)))"

fun check_capacity :: "string \<Rightarrow> jsnum \<Rightarrow> PlannedChild list \<Rightarrow> unit sealed" where
  "check_capacity keyId limit [] = rs_ret ()"
| "check_capacity keyId limit (child # children) =
     (let bound = jmax (jabs (no_min (pl_observation child))) (jabs (no_max (pl_observation child)))
      in if jless limit bound
         then typed CAPACITY_EXCEEDED (about_child (pl_key child) ('' observed bounds exceed what key '' @ quoted keyId @ '' can represent at its scale''))
         else check_capacity keyId limit children)"

definition guard :: "bool \<Rightarrow> unit sealed \<Rightarrow> unit sealed" where
  "guard ok failure = (if ok then rs_ret () else failure)"

definition load_parms :: "('e, 'k, 'l, 'c, 'p) Seal \<Rightarrow> SealMetadata \<Rightarrow> 'e sealed" where
  "load_parms seal metadata =
     (case se_parms seal (sm_encryptionParameters metadata) of
        Inr parms \<Rightarrow> rs_ret parms
      | Inl m \<Rightarrow> incompatible metadata (''encryption parameters cannot be deserialized ('' @ m @ '')''))"

definition make_context :: "('e, 'k, 'l, 'c, 'p) Seal \<Rightarrow> SealMetadata \<Rightarrow> 'e \<Rightarrow> int \<Rightarrow> 'k sealed" where
  "make_context seal metadata parms securityLevel =
     (case se_context seal parms securityLevel of
        Inr context \<Rightarrow> rs_bind track (\<lambda>_. rs_ret context)
      | Inl m \<Rightarrow> incompatible metadata (''an evaluation context cannot be built ('' @ m @ '')''))"

definition check_levels :: "('e, 'k, 'l, 'c, 'p) Seal \<Rightarrow> SealMetadata \<Rightarrow> EncryptedEvaluationPlan \<Rightarrow> int \<Rightarrow> int \<Rightarrow> jsnum sealed" where
  "check_levels seal metadata plan totalDataBits rescaleLevels =
     (let scaleBits = se_log2 seal (sm_scale metadata);
          magnitudeBits = jsub (jsub (jsub (jint totalDataBits) (jint 1)) scaleBits) CAPACITY_MARGIN_BITS;
          magnitudeLimit = (if jless (Fin 0) magnitudeBits then se_pow2 seal magnitudeBits else Fin 0)
      in rs_bind (guard (1 \<le> rescaleLevels)
                   (incompatible metadata ''no modulus level is left for rescaling after a ciphertext-plaintext multiplication'')) (\<lambda>_.
         rs_bind (guard (\<not> jle (jint totalDataBits) scaleBits)
                   (incompatible metadata ''scale exceeds the total coefficient modulus'')) (\<lambda>_.
         rs_bind (check_capacity (sm_id metadata) magnitudeLimit (ep_children plan)) (\<lambda>_.
         rs_ret magnitudeLimit))))"

definition buildSealKeyContext :: "('e, 'k, 'l, 'c, 'p) Seal \<Rightarrow> SealMetadata \<Rightarrow> EncryptedEvaluationPlan \<Rightarrow> 'k SealKeyContext sealed" where
  "buildSealKeyContext seal metadata plan =
     rs_bind (guard (jis_finite (sm_scale metadata) \<and> \<not> jle (sm_scale metadata) (Fin 1))
               (incompatible metadata ''scale must be a finite number greater than 1'')) (\<lambda>_.
     rs_bind (resolveSecurityLevel metadata) (\<lambda>securityLevel.
     rs_bind track (\<lambda>_.
     rs_bind (load_parms seal metadata) (\<lambda>parms.
     rs_bind (guard (se_isCkks seal parms) (incompatible metadata ''encryption parameters are not CKKS'')) (\<lambda>_.
     rs_bind (guard (se_polyModulusDegree seal parms = sm_polyModulusDegree metadata)
               (incompatible metadata ''declared polyModulusDegree does not match the encryption parameters'')) (\<lambda>_.
     rs_bind track (\<lambda>modulus.
     rs_bind (release modulus) (\<lambda>_.
     rs_bind (guard (sm_coeffModulusBitSizes metadata = se_bitSizes seal parms)
               (incompatible metadata ''declared coeffModulusBitSizes do not match the encryption parameters'')) (\<lambda>_.
     rs_bind (make_context seal metadata parms securityLevel) (\<lambda>context.
     rs_bind (guard (se_parametersSet seal context)
               (incompatible metadata ''the parameters do not satisfy the declared security level'')) (\<lambda>_.
     rs_bind (seal_op (se_firstData seal context)) (\<lambda>(totalDataBits, rescaleLevels).
     rs_bind track (\<lambda>firstContextData.
     rs_bind (release firstContextData) (\<lambda>_.
     rs_bind (check_levels seal metadata plan totalDataBits rescaleLevels) (\<lambda>magnitudeLimit.
     rs_bind track (\<lambda>_.
     rs_bind track (\<lambda>_.
     rs_ret \<lparr>kc_keyId = sm_id metadata, kc_scale = sm_scale metadata, kc_context = context, kc_slotCount = se_slotCount seal context,
             kc_magnitudeLimit = magnitudeLimit\<rparr>)))))))))))))))))"

section \<open>Evaluating a user\<close>

record EncryptedCustomScoreUser =
  eu_did :: string
  eu_keyId :: string
  eu_ciphertexts :: "(string \<times> string) list"

record EncryptedCustomScoreResult =
  er_did :: string
  er_keyId :: string
  er_ciphertext :: string

definition relativeDifference :: "jsnum \<Rightarrow> jsnum \<Rightarrow> jsnum" where
  "relativeDifference a b =
     (let magnitude = jmax (jabs a) (jabs b)
      in if jeq magnitude (Fin 0) then Fin 0 else jdiv (jabs (jsub a b)) magnitude)"

definition about_user :: "EncryptedCustomScoreUser \<Rightarrow> string" where
  "about_user user = ''user '' @ quoted (eu_did user)"

definition unselected_key :: "EncryptedEvaluationPlan \<Rightarrow> EncryptedCustomScoreUser \<Rightarrow> string option" where
  "unselected_key plan user = find (\<lambda>k. k \<notin> set (map pl_key (ep_children plan))) (map fst (eu_ciphertexts user))"

definition missing_key :: "EncryptedEvaluationPlan \<Rightarrow> EncryptedCustomScoreUser \<Rightarrow> string option" where
  "missing_key plan user =
     find (\<lambda>k. case map_of (eu_ciphertexts user) k of None \<Rightarrow> True | Some serialized \<Rightarrow> serialized = []) (map pl_key (ep_children plan))"

definition validateCiphertextSet :: "EncryptedEvaluationPlan \<Rightarrow> EncryptedCustomScoreUser \<Rightarrow> unit sealed" where
  "validateCiphertextSet plan user =
     (case unselected_key plan user of
        Some k \<Rightarrow> typed INCOMPLETE_CIPHERTEXT_SET (''User '' @ quoted (eu_did user) @ '' carries a ciphertext for unselected child '' @ quoted k)
      | None \<Rightarrow>
          (case missing_key plan user of
             Some k \<Rightarrow> typed INCOMPLETE_CIPHERTEXT_SET (''User '' @ quoted (eu_did user) @ '' is missing the selected ciphertext for child '' @ quoted k)
           | None \<Rightarrow> rs_ret ()))"

text \<open>A ciphertext object: its handle and its present value.\<close>

type_synonym 'c obj = "nat \<times> 'c"

definition deserialize_one ::
  "('e, 'k, 'l, 'c, 'p) Seal \<Rightarrow> 'k SealKeyContext \<Rightarrow> EncryptedCustomScoreUser \<Rightarrow> PlannedChild \<Rightarrow> (string \<times> 'c obj) sealed" where
  "deserialize_one seal key user child =
     rs_bind track (\<lambda>h.
       case se_load seal (kc_context key) (case map_of (eu_ciphertexts user) (pl_key child) of Some serialized \<Rightarrow> serialized | None \<Rightarrow> []) of
         Inl m \<Rightarrow> typed INCOMPATIBLE_CIPHERTEXT (''Ciphertext of child '' @ quoted (pl_key child) @ '' for '' @ about_user user
                    @ '' cannot be used under key '' @ quoted (kc_keyId key) @ '': '' @ m)
       | Inr c \<Rightarrow>
           if jless SCALE_RELATIVE_TOLERANCE (relativeDifference (se_scale seal c) (kc_scale key))
           then typed INCOMPATIBLE_CIPHERTEXT (''Ciphertext of child '' @ quoted (pl_key child) @ '' for '' @ about_user user @ '' is not at the metadata scale'')
           else rs_ret (pl_key child, (h, c)))"

fun deserialize_loop ::
  "('e, 'k, 'l, 'c, 'p) Seal \<Rightarrow> 'k SealKeyContext \<Rightarrow> EncryptedCustomScoreUser \<Rightarrow> PlannedChild list \<Rightarrow> (string \<times> 'c obj) list sealed" where
  "deserialize_loop seal key user [] = rs_ret []"
| "deserialize_loop seal key user (child # children) =
     rs_bind (deserialize_one seal key user child) (\<lambda>entry.
       rs_bind (deserialize_loop seal key user children) (\<lambda>entries. rs_ret (entry # entries)))"

definition deserializeCiphertexts ::
  "('e, 'k, 'l, 'c, 'p) Seal \<Rightarrow> 'k SealKeyContext \<Rightarrow> EncryptedEvaluationPlan \<Rightarrow> EncryptedCustomScoreUser \<Rightarrow> (string \<times> 'c obj) list sealed" where
  "deserializeCiphertexts seal key plan user = deserialize_loop seal key user (ep_children plan)"

definition encodeScalar :: "('e, 'k, 'l, 'c, 'p) Seal \<Rightarrow> 'k SealKeyContext \<Rightarrow> jsnum \<Rightarrow> jsnum \<Rightarrow> 'p obj sealed" where
  "encodeScalar seal key v scale =
     rs_bind track (\<lambda>h. rs_bind (seal_op (se_encode seal (kc_context key) (replicate (kc_slotCount key) v) scale)) (\<lambda>p. rs_ret (h, p)))"

subsection \<open>Alignment\<close>

text \<open>The loop over the ciphertexts; the deepest level so far with the handle of its identifier.\<close>

fun deepest_level ::
  "('e, 'k, 'l, 'c, 'p) Seal \<Rightarrow> 'k SealKeyContext \<Rightarrow> 'c list \<Rightarrow> (nat \<times> nat \<times> 'l) option \<Rightarrow> (nat \<times> nat \<times> 'l) option sealed" where
  "deepest_level seal key [] best = rs_ret best"
| "deepest_level seal key (c # cs) best =
     rs_bind track (\<lambda>parmsId.
     rs_bind (seal_op (se_chainIndex seal (kc_context key) (se_parmsId seal c))) (\<lambda>chainIndex.
     rs_bind track (\<lambda>contextData.
     rs_bind (release contextData) (\<lambda>_.
       case best of
         None \<Rightarrow> deepest_level seal key cs (Some (chainIndex, parmsId, se_parmsId seal c))
       | Some (minChainIndex, target, l) \<Rightarrow>
           if chainIndex < minChainIndex
           then rs_bind (release target) (\<lambda>_. deepest_level seal key cs (Some (chainIndex, parmsId, se_parmsId seal c)))
           else rs_bind (release parmsId) (\<lambda>_. deepest_level seal key cs best)))))"

fun switch_all :: "('e, 'k, 'l, 'c, 'p) Seal \<Rightarrow> 'k SealKeyContext \<Rightarrow> 'l \<Rightarrow> 'c list \<Rightarrow> 'c list sealed" where
  "switch_all seal key target [] = rs_ret []"
| "switch_all seal key target (c # cs) =
     rs_bind (seal_op (se_modSwitch seal (kc_context key) c target)) (\<lambda>c'.
       rs_bind (switch_all seal key target cs) (\<lambda>cs'. rs_ret (c' # cs')))"

definition alignToCommonLevel ::
  "('e, 'k, 'l, 'c, 'p) Seal \<Rightarrow> 'k SealKeyContext \<Rightarrow> EncryptedCustomScoreUser \<Rightarrow> 'c list \<Rightarrow> ('l \<times> 'c list) sealed" where
  "alignToCommonLevel seal key user cs =
     rs_bind (deepest_level seal key cs None) (\<lambda>best.
       let failure = typed IMPOSSIBLE_ALIGNMENT (''Ciphertexts for '' @ about_user user @ '' leave no modulus level for rescaling after multiplication'')
       in case best of
            None \<Rightarrow> failure
          | Some (minChainIndex, _, target) \<Rightarrow>
              if minChainIndex < 1 then failure
              else rs_bind (switch_all seal key target cs) (\<lambda>cs'. rs_ret (target, cs')))"

subsection \<open>The sum of the children\<close>

definition subtract_shift ::
  "('e, 'k, 'l, 'c, 'p) Seal \<Rightarrow> 'k SealKeyContext \<Rightarrow> 'l \<Rightarrow> jsnum \<Rightarrow> 'c \<Rightarrow> 'c sealed" where
  "subtract_shift seal key level shift c =
     (if jeq shift (Fin 0) then rs_ret c
      else
        rs_bind (encodeScalar seal key shift (se_scale seal c)) (\<lambda>(h, p).
        rs_bind (if se_isZero seal p then rs_ret c
                 else rs_bind (seal_op (se_plainModSwitch seal (kc_context key) p level)) (\<lambda>p'. seal_op (se_subPlain seal (kc_context key) c p'))) (\<lambda>c'.
        rs_bind (release h) (\<lambda>_. rs_ret c'))))"

definition multiply_coefficient ::
  "('e, 'k, 'l, 'c, 'p) Seal \<Rightarrow> 'k SealKeyContext \<Rightarrow> 'l \<Rightarrow> string \<Rightarrow> jsnum \<Rightarrow> 'c \<Rightarrow> 'c sealed" where
  "multiply_coefficient seal key level childKey coefficient c =
     rs_bind (encodeScalar seal key coefficient (kc_scale key)) (\<lambda>(h, p).
       if se_isZero seal p
       then typed CAPACITY_EXCEEDED (''Contribution coefficient of child '' @ quoted childKey @ '' underflows the CKKS scale of key '' @ quoted (kc_keyId key))
       else
         rs_bind (seal_op (se_plainModSwitch seal (kc_context key) p level)) (\<lambda>p'.
         rs_bind (seal_op (se_multiplyPlain seal (kc_context key) c p')) (\<lambda>c'.
         rs_bind (release h) (\<lambda>_. seal_op (se_rescale seal (kc_context key) c')))))"

definition accumulate ::
  "('e, 'k, 'l, 'c, 'p) Seal \<Rightarrow> 'k SealKeyContext \<Rightarrow> EncryptedCustomScoreUser \<Rightarrow> 'c \<Rightarrow> (jsnum \<times> 'c) option \<Rightarrow> (jsnum \<times> 'c) sealed" where
  "accumulate seal key user c acc =
     (case acc of
        None \<Rightarrow> rs_ret (se_scale seal c, c)
      | Some (canonicalScale, a) \<Rightarrow>
          if jless SCALE_RELATIVE_TOLERANCE (relativeDifference (se_scale seal c) canonicalScale)
          then typed IMPOSSIBLE_ALIGNMENT (''Rescaled contributions for '' @ about_user user @ '' have unalignable scales'')
          else rs_bind (seal_op (se_add seal (kc_context key) a (se_setScale seal c canonicalScale))) (\<lambda>a'. rs_ret (canonicalScale, a')))"

fun affine_loop ::
  "('e, 'k, 'l, 'c, 'p) Seal \<Rightarrow> 'k SealKeyContext \<Rightarrow> EncryptedCustomScoreUser \<Rightarrow> 'l \<Rightarrow> (string \<times> jsnum \<times> jsnum \<times> 'c) list
    \<Rightarrow> (jsnum \<times> 'c) option \<Rightarrow> (jsnum \<times> 'c) option sealed" where
  "affine_loop seal key user level [] acc = rs_ret acc"
| "affine_loop seal key user level ((childKey, coefficient, shift, c) # rest) acc =
     rs_bind (subtract_shift seal key level shift c) (\<lambda>c1.
     rs_bind (multiply_coefficient seal key level childKey coefficient c1) (\<lambda>c2.
     rs_bind (accumulate seal key user c2 acc) (\<lambda>acc'. affine_loop seal key user level rest (Some acc'))))"

text \<open>The children that contribute, with the folded coefficient and shift and the value of their ciphertext.\<close>

definition active_child :: "PlannedChild \<Rightarrow> (string \<times> jsnum \<times> jsnum) option" where
  "active_child child =
     (case pl_contribution child of ContribAffine coefficient shift \<Rightarrow> Some (pl_key child, coefficient, shift) | ContribZero \<Rightarrow> None)"

definition active_children :: "EncryptedEvaluationPlan \<Rightarrow> (string \<times> jsnum \<times> jsnum) list" where
  "active_children plan = List.map_filter active_child (ep_children plan)"

definition evaluateAffineChildren ::
  "('e, 'k, 'l, 'c, 'p) Seal \<Rightarrow> 'k SealKeyContext \<Rightarrow> EncryptedCustomScoreUser \<Rightarrow> (string \<times> jsnum \<times> jsnum) list \<Rightarrow> (string \<times> 'c obj) list \<Rightarrow> 'c sealed" where
  "evaluateAffineChildren seal key user active ciphertexts =
     rs_bind (alignToCommonLevel seal key user (map (\<lambda>(k, _). snd (the (map_of ciphertexts k))) active)) (\<lambda>(level, cs).
     rs_bind (affine_loop seal key user level (map2 (\<lambda>(k, q, s) c. (k, q, s, c)) active cs) None) (\<lambda>acc.
       case acc of
         None \<Rightarrow> typed EVALUATION_FAILED (''No contribution was accumulated for '' @ about_user user)
       | Some (_, c) \<Rightarrow> rs_ret c))"

definition deriveEncryptedZero ::
  "('e, 'k, 'l, 'c, 'p) Seal \<Rightarrow> 'k SealKeyContext \<Rightarrow> EncryptedCustomScoreUser \<Rightarrow> ZeroFallback option \<Rightarrow> (string \<times> 'c obj) list \<Rightarrow> 'c sealed" where
  "deriveEncryptedZero seal key user fallback ciphertexts =
     (case Option.bind fallback (\<lambda>f. map_option (Pair f) (map_of ciphertexts (zf_childKey f))) of
        None \<Rightarrow> typed EVALUATION_FAILED (''No equal-bounds child ciphertext is available to derive an encrypted zero for '' @ about_user user)
      | Some (f, (_, c)) \<Rightarrow>
          rs_bind (encodeScalar seal key (zf_knownValue f) (se_scale seal c)) (\<lambda>(h, p).
          rs_bind (if se_isZero seal p then rs_ret c
                   else
                     rs_bind track (\<lambda>parmsId.
                     rs_bind (seal_op (se_plainModSwitch seal (kc_context key) p (se_parmsId seal c))) (\<lambda>p'.
                     rs_bind (release parmsId) (\<lambda>_. seal_op (se_subPlain seal (kc_context key) c p'))))) (\<lambda>c'.
          rs_bind (release h) (\<lambda>_. rs_ret c'))))"

definition evaluate_ciphertexts ::
  "('e, 'k, 'l, 'c, 'p) Seal \<Rightarrow> 'k SealKeyContext \<Rightarrow> EncryptedEvaluationPlan \<Rightarrow> EncryptedCustomScoreUser \<Rightarrow> EncryptedCustomScoreResult sealed" where
  "evaluate_ciphertexts seal key plan user =
     rs_bind (deserializeCiphertexts seal key plan user) (\<lambda>ciphertexts.
     rs_bind (if active_children plan \<noteq> [] then evaluateAffineChildren seal key user (active_children plan) ciphertexts
              else deriveEncryptedZero seal key user (ep_zeroFallback plan) ciphertexts) (\<lambda>result.
       if se_isTransparent seal result
       then typed EVALUATION_FAILED (''Evaluation for '' @ about_user user @ '' produced a transparent ciphertext'')
       else rs_bind (seal_op (se_save seal result)) (\<lambda>serialized.
              rs_ret \<lparr>er_did = eu_did user, er_keyId = eu_keyId user, er_ciphertext = serialized\<rparr>)))"

text \<open>The \<^verbatim>\<open>catch\<close> of \<^verbatim>\<open>evaluateUser\<close>: what is no typed error becomes one.\<close>

definition wrap_failure :: "EncryptedCustomScoreUser \<Rightarrow> eval_error \<Rightarrow> eval_error" where
  "wrap_failure user e =
     (case e of
        Typed _ \<Rightarrow> e
      | SealFailure m \<Rightarrow> Typed (EncryptedError EVALUATION_FAILED (''Encrypted evaluation failed for '' @ about_user user @ '': '' @ m)))"

section \<open>The evaluator\<close>

record 'k evaluator =
  ev_seal :: seal_state
  ev_keys :: "(string \<times> 'k SealKeyContext \<times> nat list) list"
  ev_disposed :: bool

type_synonym ('k, 'a) ev = "('k evaluator, eval_error, 'a) rs"

definition new_evaluator :: "'k evaluator" where
  "new_evaluator = \<lparr>ev_seal = createSealHandleLedger, ev_keys = [], ev_disposed = False\<rparr>"

definition createEncryptedCustomScoreEvaluator ::
  "string \<Rightarrow> EncryptedCustomScoreChild list \<Rightarrow> EncryptedCustomScoreError + (EncryptedEvaluationPlan \<times> 'k evaluator)" where
  "createEncryptedCustomScoreEvaluator method children =
     map_sum id (\<lambda>plan. (plan, new_evaluator)) (buildEncryptedEvaluationPlan method children)"

definition ensureUsable :: "('k, unit) ev" where
  "ensureUsable e =
     (if ev_disposed e then (Inl (Typed (EncryptedError EVALUATOR_DISPOSED ''The encrypted evaluator was already disposed'')), e)
      else (Inr (), e))"

definition registerSealMetadata :: "('e, 'k, 'l, 'c, 'p) Seal \<Rightarrow> EncryptedEvaluationPlan \<Rightarrow> SealMetadata \<Rightarrow> ('k, unit) ev" where
  "registerSealMetadata seal plan metadata =
     rs_bind ensureUsable (\<lambda>_ e.
       if map_of (ev_keys e) (sm_id metadata) \<noteq> None then (Inr (), e)
       else
         (case buildSealKeyContext seal metadata plan (ev_seal e) of
            (Inr key, s) \<Rightarrow> (Inr (), e\<lparr>ev_seal := s\<lparr>sl_scope := []\<rparr>, ev_keys := ev_keys e @ [(sm_id metadata, key, sl_scope s)]\<rparr>)
          | (Inl err, s) \<Rightarrow> (Inl err, e\<lparr>ev_seal := dispose_scope s\<rparr>)))"

definition evaluateUser :: "('e, 'k, 'l, 'c, 'p) Seal \<Rightarrow> EncryptedEvaluationPlan \<Rightarrow> EncryptedCustomScoreUser \<Rightarrow> ('k, EncryptedCustomScoreResult) ev" where
  "evaluateUser seal plan user =
     rs_bind ensureUsable (\<lambda>_ e.
       case map_of (ev_keys e) (eu_keyId user) of
         None \<Rightarrow> (Inl (Typed (EncryptedError UNREGISTERED_KEY (''User '' @ quoted (eu_did user) @ '' references metadata key ''
                    @ quoted (eu_keyId user) @ '', which is not registered''))), e)
       | Some (key, _) \<Rightarrow>
           (case validateCiphertextSet plan user (ev_seal e) of
              (Inl err, s) \<Rightarrow> (Inl err, e\<lparr>ev_seal := s\<rparr>)
            | (Inr _, s) \<Rightarrow>
                (case evaluate_ciphertexts seal key plan user s of
                   (r, s') \<Rightarrow> (map_sum (wrap_failure user) id r, e\<lparr>ev_seal := dispose_scope s'\<rparr>))))"

definition CUSTOM_SCORE_EVALUATION_BATCH_LIMIT :: nat where "CUSTOM_SCORE_EVALUATION_BATCH_LIMIT = 1000"

fun evaluate_all :: "('e, 'k, 'l, 'c, 'p) Seal \<Rightarrow> EncryptedEvaluationPlan \<Rightarrow> EncryptedCustomScoreUser list \<Rightarrow> ('k, EncryptedCustomScoreResult list) ev" where
  "evaluate_all seal plan [] = rs_ret []"
| "evaluate_all seal plan (user # users) =
     rs_bind (evaluateUser seal plan user) (\<lambda>result. rs_bind (evaluate_all seal plan users) (\<lambda>results. rs_ret (result # results)))"

definition evaluateBatch :: "('e, 'k, 'l, 'c, 'p) Seal \<Rightarrow> EncryptedEvaluationPlan \<Rightarrow> EncryptedCustomScoreUser list \<Rightarrow> ('k, EncryptedCustomScoreResult list) ev" where
  "evaluateBatch seal plan users =
     rs_bind ensureUsable (\<lambda>_.
       if CUSTOM_SCORE_EVALUATION_BATCH_LIMIT < length users
       then rs_throw (Typed (EncryptedError BATCH_LIMIT_EXCEEDED (''Evaluation batch of '' @ js_nat (length users) @ '' users exceeds the limit of ''
              @ js_nat CUSTOM_SCORE_EVALUATION_BATCH_LIMIT)))
       else evaluate_all seal plan users)"

definition hasKey :: "'k evaluator \<Rightarrow> string \<Rightarrow> bool" where
  "hasKey e keyId \<longleftrightarrow> map_of (ev_keys e) keyId \<noteq> None"

definition stats :: "'k evaluator \<Rightarrow> nat \<times> int" where
  "stats e = (length (ev_keys e), int (sl_created (ev_seal e)) - int (sl_released (ev_seal e)))"

definition dispose :: "'k evaluator \<Rightarrow> 'k evaluator" where
  "dispose e =
     (if ev_disposed e then e
      else \<lparr>ev_seal = fold (\<lambda>(_, _, handles). dispose_handles handles) (ev_keys e) (ev_seal e), ev_keys = [], ev_disposed = True\<rparr>)"

section \<open>No object is leaked\<close>

text \<open>
  The objects that exist are the multiset \<open>B\<close> of the other scopes and those of the scope in use; the counters agree.
\<close>

definition scope_inv :: "nat multiset \<Rightarrow> seal_state \<Rightarrow> bool" where
  "scope_inv B s \<longleftrightarrow> mset (sl_live s) = B + mset (sl_scope s) \<and> distinct (sl_live s) \<and> (\<forall>h \<in> set (sl_live s). h < sl_next s)
     \<and> sl_created s = sl_released s + size B + length (sl_scope s)"

lemma keeps_track [keeps_rules]: "keeps_inv (scope_inv B) track"
  by (auto simp: keeps_inv_def track_def scope_inv_def less_Suc_eq)

lemma scope_in_live: "scope_inv B s \<Longrightarrow> set (sl_scope s) \<subseteq> set (sl_live s)"
  by (metis mset_subset_eq_add_right scope_inv_def set_mset_mono set_mset_mset)

lemma keeps_release [keeps_rules]: "keeps_inv (scope_inv B) (release h)"
proof -
  have "scope_inv B (snd (release h s))" if "scope_inv B s" "h \<in> set (sl_scope s)" for s
  proof -
    have l: "h \<in> set (sl_live s)" using scope_in_live[OF that(1)] that(2) by auto
    then have "mset (remove1 h (sl_live s)) = B + mset (remove1 h (sl_scope s))" "length (sl_scope s) = Suc (length (remove1 h (sl_scope s)))"
      using that by (auto simp: scope_inv_def length_remove1 dest: length_pos_if_in_set)
    then show ?thesis using that l set_remove1_subset[of h "sl_live s"]
      by (auto simp: scope_inv_def release_def delete_handle_def Let_def)
  qed
  then show ?thesis unfolding keeps_inv_def by (auto simp: release_def)
qed

lemma keeps_seal_op [keeps_rules]: "keeps_inv I (seal_op r)"
  by (simp add: seal_op_def keeps_lift)

lemma keeps_typed [keeps_rules]: "keeps_inv I (typed c m)"
  by (simp add: typed_def keeps_throw)

lemma keeps_guard [keeps_rules]: "keeps_inv I m \<Longrightarrow> keeps_inv I (guard b m)"
  by (simp add: guard_def keeps_ret)

lemma keeps_seal_sum [keeps_rules]:
  "(\<And>a. x = Inl a \<Longrightarrow> keeps_inv I (f a)) \<Longrightarrow> (\<And>b. x = Inr b \<Longrightarrow> keeps_inv I (g b)) \<Longrightarrow> keeps_inv I (case x of Inl a \<Rightarrow> f a | Inr b \<Rightarrow> g b)"
  by (cases x) simp_all

lemma keeps_Let [keeps_rules]: "(\<And>x. keeps_inv I (f x)) \<Longrightarrow> keeps_inv I (let x = v in f x)"
  by simp

lemma keeps_build [keeps_rules]: "keeps_inv (scope_inv B) (buildSealKeyContext seal metadata plan)"
proof -
  have "keeps_inv (scope_inv B) (check_capacity k l cs)" for k l cs
    by (induction cs) (auto intro!: keeps_rules simp: Let_def)
  then show ?thesis
    unfolding buildSealKeyContext_def check_levels_def resolveSecurityLevel_def load_parms_def make_context_def incompatible_def
    by (intro keeps_rules)
qed

lemma keeps_encode [keeps_rules]: "keeps_inv (scope_inv B) (encodeScalar seal key v scale)"
  unfolding encodeScalar_def by (intro keeps_rules)

lemma keeps_deserialize [keeps_rules]: "keeps_inv (scope_inv B) (deserialize_loop seal key user children)"
  by (induction children) (auto intro!: keeps_rules simp: deserialize_one_def)

lemma keeps_deepest [keeps_rules]: "keeps_inv (scope_inv B) (deepest_level seal key cs best)"
proof (induction cs arbitrary: best)
  case (Cons c cs)
  show ?case unfolding deepest_level.simps by (intro keeps_rules Cons.IH)
qed (simp add: keeps_ret)

lemma keeps_switch [keeps_rules]: "keeps_inv (scope_inv B) (switch_all seal key target cs)"
  by (induction cs) (auto intro!: keeps_rules)

lemma keeps_affine [keeps_rules]: "keeps_inv (scope_inv B) (affine_loop seal key user level rest acc)"
proof (induction rest arbitrary: acc)
  case (Cons x rest)
  obtain k q sh c where x: "x = (k, q, sh, c)" by (cases x)
  show ?case unfolding x affine_loop.simps subtract_shift_def multiply_coefficient_def accumulate_def by (intro keeps_rules Cons.IH)
qed (simp add: keeps_ret)

lemma keeps_evaluate [keeps_rules]: "keeps_inv (scope_inv B) (evaluate_ciphertexts seal key plan user)"
  unfolding evaluate_ciphertexts_def deserializeCiphertexts_def evaluateAffineChildren_def alignToCommonLevel_def deriveEncryptedZero_def Let_def
  by (intro keeps_rules)

lemma keeps_ciphertext_check [keeps_rules]: "keeps_inv I (validateCiphertextSet plan user)"
  unfolding validateCiphertextSet_def by (intro keeps_rules)

text \<open>Disposing the handles \<open>hs\<close> of a scope removes exactly them.\<close>

lemma free_handle_fields [simp]:
  "sl_next (free_handle h s) = sl_next s" "sl_created (free_handle h s) = sl_created s" "sl_scope (free_handle h s) = sl_scope s"
  "sl_released (free_handle h s) = sl_released s + 1" "sl_live (free_handle h s) = remove1 h (sl_live s)"
  by (simp_all add: free_handle_def delete_handle_def Let_def remove1_idem)

lemma fold_free:
  "sl_next (fold free_handle hs s) = sl_next s \<and> sl_created (fold free_handle hs s) = sl_created s \<and> sl_scope (fold free_handle hs s) = sl_scope s
    \<and> sl_released (fold free_handle hs s) = sl_released s + length hs
    \<and> mset (sl_live (fold free_handle hs s)) = mset (sl_live s) - mset hs
    \<and> (distinct (sl_live s) \<longrightarrow> distinct (sl_live (fold free_handle hs s)))
    \<and> set (sl_live (fold free_handle hs s)) \<subseteq> set (sl_live s)"
proof (induction hs arbitrary: s)
  case (Cons h hs)
  show ?case using Cons.IH[of "free_handle h s"] set_remove1_subset[of h "sl_live s"] by auto
qed simp

lemma dispose_handles_inv:
  assumes "scope_inv (B + mset hs) s"
  shows "scope_inv B (dispose_handles hs s)"
  using assms fold_free[of "rev hs" s] unfolding scope_inv_def dispose_handles_def by auto

lemma dispose_scope_inv: "scope_inv B s \<Longrightarrow> scope_inv B (dispose_scope s) \<and> sl_scope (dispose_scope s) = []"
  using fold_free[of "rev (sl_scope s)" s] by (auto simp: scope_inv_def dispose_scope_def dispose_handles_def)

text \<open>The objects of an evaluator are those of its registered keys.\<close>

definition key_handles :: "(string \<times> 'k SealKeyContext \<times> nat list) list \<Rightarrow> nat list" where
  "key_handles keys = concat (map (\<lambda>(_, _, handles). handles) keys)"

definition evaluator_inv :: "'k evaluator \<Rightarrow> bool" where
  "evaluator_inv e \<longleftrightarrow> scope_inv (mset (key_handles (ev_keys e))) (ev_seal e) \<and> sl_scope (ev_seal e) = [] \<and> (ev_disposed e \<longrightarrow> ev_keys e = [])"

text \<open>An operation after \<^verbatim>\<open>ensureUsable\<close> starts in an evaluator that is not disposed.\<close>

lemma usable_keeps:
  assumes "\<And>e. evaluator_inv e \<Longrightarrow> \<not> ev_disposed e \<Longrightarrow> evaluator_inv (snd (f () e))"
  shows "keeps_inv evaluator_inv (rs_bind ensureUsable f)"
  using assms by (simp add: keeps_inv_def rs_bind_def ensureUsable_def)

lemma register_keeps: "keeps_inv evaluator_inv (registerSealMetadata seal plan metadata)"
  unfolding registerSealMetadata_def
proof (rule usable_keeps, goal_cases)
  case (1 e)
  let ?m = "buildSealKeyContext seal metadata plan"
  obtain r s where m: "?m (ev_seal e) = (r, s)" by (cases "?m (ev_seal e)")
  have s: "scope_inv (mset (key_handles (ev_keys e))) s" using keeps_invD[OF keeps_build _ m] 1 by (auto simp: evaluator_inv_def)
  show ?case
  proof (cases r)
    case (Inl err)
    then show ?thesis using 1 dispose_scope_inv[OF s] m by (auto simp: evaluator_inv_def)
  next
    case (Inr key)
    then show ?thesis using 1 s m by (auto simp: evaluator_inv_def scope_inv_def key_handles_def)
  qed
qed

lemma evaluateUser_keeps: "keeps_inv evaluator_inv (evaluateUser seal plan user)"
  unfolding evaluateUser_def
proof (rule usable_keeps, goal_cases)
  case (1 e)
  let ?B = "mset (key_handles (ev_keys e))"
  obtain v s where v: "validateCiphertextSet plan user (ev_seal e) = (v, s)" by (cases "validateCiphertextSet plan user (ev_seal e)")
  have s: "s = ev_seal e" using v by (auto simp: validateCiphertextSet_def typed_def rs_throw_def rs_ret_def split: option.splits)
  have "evaluator_inv (e\<lparr>ev_seal := dispose_scope s'\<rparr>)" if "evaluate_ciphertexts seal key plan user (ev_seal e) = (r, s')" for key r s'
    using keeps_invD[OF keeps_evaluate _ that, of ?B] 1 dispose_scope_inv[of ?B s'] by (auto simp: evaluator_inv_def)
  then show ?case using 1 by (auto simp: v s split: option.splits prod.splits sum.splits)
qed

lemma evaluateBatch_keeps: "keeps_inv evaluator_inv (evaluateBatch seal plan users)"
proof -
  have "keeps_inv evaluator_inv (evaluate_all seal plan users)"
    by (induction users) (auto intro!: keeps_rules evaluateUser_keeps)
  then show ?thesis unfolding evaluateBatch_def
    by (intro usable_keeps) (auto simp: keeps_inv_def rs_throw_def)
qed

lemma dispose_keys:
  "scope_inv (mset (key_handles keys)) s \<Longrightarrow> scope_inv {#} (fold (\<lambda>(_, _, handles). dispose_handles handles) keys s)
    \<and> sl_scope (fold (\<lambda>(_, _, handles). dispose_handles handles) keys s) = sl_scope s"
proof (induction keys arbitrary: s)
  case (Cons k keys)
  obtain i c hs where k: "k = (i, c, hs)" by (cases k)
  have "scope_inv (mset (key_handles keys)) (dispose_handles hs s)"
    using Cons.prems by (intro dispose_handles_inv) (simp add: k key_handles_def add.commute)
  then show ?case using Cons.IH[of "dispose_handles hs s"] fold_free[of "rev hs" s] by (simp add: k dispose_handles_def)
qed (simp add: key_handles_def)

lemma dispose_inv: "evaluator_inv e \<Longrightarrow> evaluator_inv (dispose e)"
  using dispose_keys[of "ev_keys e" "ev_seal e"] by (auto simp: evaluator_inv_def dispose_def key_handles_def)

text \<open>What a caller can do with an evaluator, in any order, whether a call succeeds or not.\<close>

inductive evaluator_reachable :: "('e, 'k, 'l, 'c, 'p) Seal \<Rightarrow> EncryptedEvaluationPlan \<Rightarrow> 'k evaluator \<Rightarrow> bool" for seal plan where
  fresh: "evaluator_reachable seal plan new_evaluator"
| registered: "evaluator_reachable seal plan e \<Longrightarrow> evaluator_reachable seal plan (snd (registerSealMetadata seal plan metadata e))"
| evaluated: "evaluator_reachable seal plan e \<Longrightarrow> evaluator_reachable seal plan (snd (evaluateUser seal plan user e))"
| batch: "evaluator_reachable seal plan e \<Longrightarrow> evaluator_reachable seal plan (snd (evaluateBatch seal plan users e))"
| disposed: "evaluator_reachable seal plan e \<Longrightarrow> evaluator_reachable seal plan (dispose e)"

lemma reachable_inv: "evaluator_reachable seal plan e \<Longrightarrow> evaluator_inv e"
proof (induction rule: evaluator_reachable.induct)
  case fresh
  then show ?case by (simp add: evaluator_inv_def new_evaluator_def createSealHandleLedger_def scope_inv_def key_handles_def)
next
  case (registered e metadata)
  then show ?case using register_keeps[of seal plan metadata] by (simp add: keeps_inv_def)
next
  case (evaluated e user)
  then show ?case using evaluateUser_keeps[of seal plan user] by (simp add: keeps_inv_def)
next
  case (batch e users)
  then show ?case using evaluateBatch_keeps[of seal plan users] by (simp add: keeps_inv_def)
qed (rule dispose_inv)

text \<open>
  C4: Whatever an evaluator is asked, and whether SEAL throws or not, the objects it leaves in the WASM heap are exactly those
  of its registered keys, the number of live handles it reports is their number, and a disposed evaluator has none.
\<close>

theorem evaluator_never_leaks:
  assumes "evaluator_reachable seal plan e"
  shows "set (sl_live (ev_seal e)) = set (key_handles (ev_keys e)) \<and> distinct (sl_live (ev_seal e))
    \<and> snd (stats e) = int (length (sl_live (ev_seal e)))
    \<and> sl_live (ev_seal (dispose e)) = [] \<and> snd (stats (dispose e)) = 0"
proof -
  have i: "evaluator_inv e" using reachable_inv[OF assms] .
  have d: "evaluator_inv (dispose e)" "ev_keys (dispose e) = []" using dispose_inv[OF i] i by (auto simp: dispose_def evaluator_inv_def)
  have live: "mset (sl_live (ev_seal x)) = mset (key_handles (ev_keys x)) \<and> snd (stats x) = int (length (sl_live (ev_seal x)))" if "evaluator_inv x" for x :: "'b evaluator"
    using that mset_eq_length[of "sl_live (ev_seal x)" "key_handles (ev_keys x)"] by (auto simp: evaluator_inv_def scope_inv_def stats_def)
  show ?thesis using live[OF i] live[OF d(1)] d(2) i mset_eq_setD[of "sl_live (ev_seal e)"] by (auto simp: key_handles_def evaluator_inv_def scope_inv_def)
qed

section \<open>What the result encrypts\<close>

text \<open>
  The documented behaviour of CKKS: a ciphertext and a plaintext stand for a number, and each operation computes on it with
  an error of at most \<open>eps\<close>.  Setting a scale is such an operation when the new scale is within the tolerance.
\<close>

definition ckks_approximates ::
  "('e, 'k, 'l, 'c, 'p) Seal \<Rightarrow> 'k SealKeyContext \<Rightarrow> ('c \<Rightarrow> rat) \<Rightarrow> ('p \<Rightarrow> rat) \<Rightarrow> rat \<Rightarrow> bool" where
  "ckks_approximates seal key val pval eps \<longleftrightarrow> 0 \<le> eps
     \<and> (\<forall>c l c'. se_modSwitch seal (kc_context key) c l = Inr c' \<longrightarrow> \<bar>val c' - val c\<bar> \<le> eps)
     \<and> (\<forall>v sc p. se_encode seal (kc_context key) (replicate (kc_slotCount key) (Fin v)) sc = Inr p \<longrightarrow> \<bar>pval p - v\<bar> \<le> eps)
     \<and> (\<forall>p. se_isZero seal p \<longrightarrow> pval p = 0)
     \<and> (\<forall>p l p'. se_plainModSwitch seal (kc_context key) p l = Inr p' \<longrightarrow> \<bar>pval p' - pval p\<bar> \<le> eps)
     \<and> (\<forall>c p c'. se_subPlain seal (kc_context key) c p = Inr c' \<longrightarrow> \<bar>val c' - (val c - pval p)\<bar> \<le> eps)
     \<and> (\<forall>c p c'. se_multiplyPlain seal (kc_context key) c p = Inr c' \<longrightarrow> \<bar>val c' - val c * pval p\<bar> \<le> eps)
     \<and> (\<forall>c c'. se_rescale seal (kc_context key) c = Inr c' \<longrightarrow> \<bar>val c' - val c\<bar> \<le> eps)
     \<and> (\<forall>c sc. \<not> jless SCALE_RELATIVE_TOLERANCE (relativeDifference (se_scale seal c) sc) \<longrightarrow> \<bar>val (se_setScale seal c sc) - val c\<bar> \<le> eps)
     \<and> (\<forall>a c a'. se_add seal (kc_context key) a c = Inr a' \<longrightarrow> \<bar>val a' - (val a + val c)\<bar> \<le> eps)"

lemma seal_op_Inr [simp]: "seal_op r s = (Inr x, s') \<longleftrightarrow> r = Inr x \<and> s' = s"
  by (cases r) (auto simp: seal_op_def rs_lift_def)

lemma typed_Inr [simp]: "typed c m s \<noteq> (Inr x, s')"
  by (simp add: typed_def rs_throw_def)

lemma release_Inr: "release h s = (Inr u, s') \<longleftrightarrow> s' = snd (release h s)"
  by (auto simp: release_def Let_def)

lemma rs_ret_Inr [simp]: "rs_ret x s = (Inr y, s') \<longleftrightarrow> y = x \<and> s' = s"
  by (auto simp: rs_ret_def)

lemmas seal_runs = rs_bind_Inr release_Inr

lemma encode_Inr:
  "encodeScalar seal key v sc s = (Inr (h, p), s') \<Longrightarrow> se_encode seal (kc_context key) (replicate (kc_slotCount key) v) sc = Inr p"
  by (auto simp: encodeScalar_def rs_bind_Inr)

lemma plain_difference:
  assumes "ckks_approximates seal key val pval eps" "encodeScalar seal key (Fin sh) sc s = (Inr (h, p), s1)"
    and "se_isZero seal p \<and> c' = c \<or>
      (\<exists>l p'. se_plainModSwitch seal (kc_context key) p l = Inr p' \<and> se_subPlain seal (kc_context key) c p' = Inr c')"
  shows "\<bar>val c' - (val c - sh)\<bar> \<le> 3 * eps"
proof -
  have e: "\<bar>pval p - sh\<bar> \<le> eps" "0 \<le> eps" using assms(1) encode_Inr[OF assms(2)] by (simp_all add: ckks_approximates_def)
  show ?thesis using assms(3)
  proof (elim disjE exE conjE)
    assume "se_isZero seal p" "c' = c"
    then show ?thesis using assms(1) e by (simp add: ckks_approximates_def)
  next
    fix l p' assume "se_plainModSwitch seal (kc_context key) p l = Inr p'" "se_subPlain seal (kc_context key) c p' = Inr c'"
    then have "\<bar>pval p' - pval p\<bar> \<le> eps" "\<bar>val c' - (val c - pval p')\<bar> \<le> eps" using assms(1) by (auto simp: ckks_approximates_def)
    then show ?thesis using e by linarith
  qed
qed

lemma shift_value:
  assumes "ckks_approximates seal key val pval eps" "subtract_shift seal key l (Fin sh) c s = (Inr c', s')"
  shows "\<bar>val c' - (val c - sh)\<bar> \<le> 3 * eps"
proof (cases "sh = 0")
  case True
  then show ?thesis using assms by (simp add: subtract_shift_def jeq_def ckks_approximates_def)
next
  case False
  then obtain h p s1 where p: "encodeScalar seal key (Fin sh) (se_scale seal c) s = (Inr (h, p), s1)"
    and c: "se_isZero seal p \<and> c' = c \<or> (\<exists>p'. se_plainModSwitch seal (kc_context key) p l = Inr p' \<and> se_subPlain seal (kc_context key) c p' = Inr c')"
    using assms(2) by (auto simp: subtract_shift_def jeq_def seal_runs split: if_splits)
  show ?thesis by (rule plain_difference[OF assms(1) p]) (use c in blast)
qed

lemma coefficient_value:
  assumes "ckks_approximates seal key val pval eps" "multiply_coefficient seal key l k (Fin q) c s = (Inr c', s')"
  shows "\<bar>val c' - val c * q\<bar> \<le> 2 * eps * \<bar>val c\<bar> + 2 * eps"
proof -
  obtain h p s1 p' c1 where p: "encodeScalar seal key (Fin q) (kc_scale key) s = (Inr (h, p), s1)"
    and o: "se_plainModSwitch seal (kc_context key) p l = Inr p'" "se_multiplyPlain seal (kc_context key) c p' = Inr c1"
      "se_rescale seal (kc_context key) c1 = Inr c'"
    using assms(2) by (auto simp: multiply_coefficient_def seal_runs split: if_splits)
  have e: "\<bar>pval p - q\<bar> \<le> eps" "\<bar>pval p' - pval p\<bar> \<le> eps" "\<bar>val c1 - val c * pval p'\<bar> \<le> eps" "\<bar>val c' - val c1\<bar> \<le> eps"
    using assms(1) encode_Inr[OF p] o by (auto simp: ckks_approximates_def)
  have "\<bar>val c * pval p' - val c * q\<bar> = \<bar>val c\<bar> * \<bar>pval p' - q\<bar>" by (simp add: abs_mult flip: right_diff_distrib)
  also have "\<dots> \<le> \<bar>val c\<bar> * (2 * eps)" using e(1,2) by (intro mult_left_mono) linarith+
  finally have "\<bar>val c * pval p' - val c * q\<bar> \<le> 2 * eps * \<bar>val c\<bar>" by (simp add: mult.commute)
  then show ?thesis using e(3,4) by linarith
qed

definition acc_value :: "('c \<Rightarrow> rat) \<Rightarrow> (jsnum \<times> 'c) option \<Rightarrow> rat" where
  "acc_value val acc = (case acc of None \<Rightarrow> 0 | Some (_, a) \<Rightarrow> val a)"

lemma accumulate_value:
  assumes "ckks_approximates seal key val pval eps" "accumulate seal key user c acc s = (Inr a, s')"
  shows "\<bar>acc_value val (Some a) - (acc_value val acc + val c)\<bar> \<le> 2 * eps"
proof (cases acc)
  case None
  then show ?thesis using assms by (auto simp: accumulate_def acc_value_def ckks_approximates_def)
next
  case (Some y)
  obtain sc b where y: "y = (sc, b)" by (cases y)
  obtain r where r: "\<not> jless SCALE_RELATIVE_TOLERANCE (relativeDifference (se_scale seal c) sc)"
    "se_add seal (kc_context key) b (se_setScale seal c sc) = Inr r" "a = (sc, r)"
    using assms(2) Some y by (auto simp: accumulate_def rs_bind_Inr split: if_splits)
  then have "\<bar>val (se_setScale seal c sc) - val c\<bar> \<le> eps" "\<bar>val r - (val b + val (se_setScale seal c sc))\<bar> \<le> eps"
    using assms(1) unfolding ckks_approximates_def by blast+
  then have "\<bar>val r - (val b + val c)\<bar> \<le> 2 * eps" by linarith
  then show ?thesis using Some y r(3) by (simp add: acc_value_def)
qed

text \<open>The error of one contribution: the ciphertext is off by \<open>e\<close>, \<open>d\<close> is the distance from the shift, \<open>q\<close> the coefficient.\<close>

definition contribution_error :: "rat \<Rightarrow> rat \<Rightarrow> rat \<Rightarrow> rat \<Rightarrow> rat" where
  "contribution_error e eps q d = \<bar>q\<bar> * (e + 3 * eps) + 2 * eps * (\<bar>d\<bar> + e + 3 * eps) + 4 * eps"

lemma contribution_step:
  assumes "ckks_approximates seal key val pval eps" "\<bar>val c - x\<bar> \<le> e"
    and "subtract_shift seal key l (Fin sh) c s = (Inr c1, s1)" "multiply_coefficient seal key l k (Fin q) c1 s1 = (Inr c2, s2)"
    and "accumulate seal key user c2 acc s2 = (Inr a, s3)"
  shows "\<bar>acc_value val (Some a) - (acc_value val acc + q * (x - sh))\<bar> \<le> contribution_error e eps q (x - sh)"
proof -
  have eps: "0 \<le> eps" using assms(1) by (simp add: ckks_approximates_def)
  have c1: "\<bar>val c1 - (x - sh)\<bar> \<le> e + 3 * eps" using shift_value[OF assms(1,3)] assms(2) by linarith
  then have "\<bar>val c1\<bar> \<le> \<bar>x - sh\<bar> + e + 3 * eps" by linarith
  then have m: "2 * eps * \<bar>val c1\<bar> \<le> 2 * eps * (\<bar>x - sh\<bar> + e + 3 * eps)" using eps by (intro mult_left_mono) simp_all
  have "\<bar>val c1 * q - (x - sh) * q\<bar> = \<bar>q\<bar> * \<bar>val c1 - (x - sh)\<bar>" unfolding left_diff_distrib[symmetric] abs_mult by (rule mult.commute)
  also have "\<dots> \<le> \<bar>q\<bar> * (e + 3 * eps)" using c1 by (intro mult_left_mono) simp_all
  finally have "\<bar>val c1 * q - q * (x - sh)\<bar> \<le> \<bar>q\<bar> * (e + 3 * eps)" by (simp add: mult.commute)
  then show ?thesis
    using coefficient_value[OF assms(1,4)] accumulate_value[OF assms(1,5)] m unfolding contribution_error_def by linarith
qed

definition weighted_sum :: "(string \<Rightarrow> rat) \<Rightarrow> (string \<times> rat \<times> rat) list \<Rightarrow> rat" where
  "weighted_sum x ts = sum_list (map (\<lambda>(k, q, sh). q * (x k - sh)) ts)"

definition error_sum :: "rat \<Rightarrow> rat \<Rightarrow> (string \<Rightarrow> rat) \<Rightarrow> (string \<times> rat \<times> rat) list \<Rightarrow> rat" where
  "error_sum e eps x ts = sum_list (map (\<lambda>(k, q, sh). contribution_error e eps q (x k - sh)) ts)"

lemma affine_loop_value:
  assumes "ckks_approximates seal key val pval eps" "list_all2 (\<lambda>(k, _, _) c. \<bar>val c - x k\<bar> \<le> e) ts cs"
    and "affine_loop seal key user l (map2 (\<lambda>(k, q, sh) c. (k, Fin q, Fin sh, c)) ts cs) acc s = (Inr (Some r), s')"
  shows "\<bar>acc_value val (Some r) - (acc_value val acc + weighted_sum x ts)\<bar> \<le> error_sum e eps x ts"
  using assms(2,3)
proof (induction ts cs arbitrary: acc s rule: list_all2_induct)
  case Nil
  then show ?case by (simp add: weighted_sum_def error_sum_def)
next
  case (Cons t ts c cs)
  obtain k q sh where t: "t = (k, q, sh)" by (cases t)
  obtain c1 s1 c2 s2 a s3 where r: "subtract_shift seal key l (Fin sh) c s = (Inr c1, s1)"
      "multiply_coefficient seal key l k (Fin q) c1 s1 = (Inr c2, s2)" "accumulate seal key user c2 acc s2 = (Inr a, s3)"
    and rest: "affine_loop seal key user l (map2 (\<lambda>(k, q, sh) c. (k, Fin q, Fin sh, c)) ts cs) (Some a) s3 = (Inr (Some r), s')"
    using Cons.prems by (auto simp: t rs_bind_Inr)
  have "\<bar>val c - x k\<bar> \<le> e" using Cons.hyps(1) by (simp add: t)
  note step = contribution_step[OF assms(1) this r]
  show ?case using step Cons.IH[OF rest] unfolding t weighted_sum_def error_sum_def list.map sum_list.Cons prod.case by linarith
qed

lemma switch_all_value:
  assumes "ckks_approximates seal key val pval eps" "switch_all seal key l cs s = (Inr cs', s')"
  shows "list_all2 (\<lambda>c c'. \<bar>val c' - val c\<bar> \<le> eps) cs cs'"
  using assms(2)
proof (induction cs arbitrary: s cs')
  case (Cons c cs)
  then show ?case using assms(1) by (auto simp: rs_bind_Inr ckks_approximates_def)
qed simp

lemma switched_close:
  "list_all2 (\<lambda>c c'. \<bar>val c' - val c\<bar> \<le> eps) (map f ts) cs \<Longrightarrow> (\<And>t. t \<in> set ts \<Longrightarrow> \<bar>val (f t) - g t\<bar> \<le> e0)
    \<Longrightarrow> list_all2 (\<lambda>t c. \<bar>val c - (g t :: rat)\<bar> \<le> e0 + eps) ts cs"
proof (induction ts arbitrary: cs)
  case (Cons t ts)
  then obtain c cs' where c: "cs = c # cs'" "\<bar>val c - val (f t)\<bar> \<le> eps" "list_all2 (\<lambda>c c'. \<bar>val c' - val c\<bar> \<le> eps) (map f ts) cs'"
    by (auto simp: list_all2_Cons1)
  have "\<bar>val (f t) - g t\<bar> \<le> e0" using Cons.prems(2) by simp
  then have "\<bar>val c - g t\<bar> \<le> e0 + eps" using c(2) by linarith
  then show ?case using c(1) Cons.IH[OF c(3)] Cons.prems(2) by simp
qed simp

lemma affine_children_value:
  assumes "ckks_approximates seal key val pval eps" "active = map (\<lambda>(k, q, sh). (k, Fin q, Fin sh)) ts"
    and "\<And>k q sh. (k, q, sh) \<in> set ts \<Longrightarrow> \<bar>val (snd (the (map_of ciphertexts k))) - x k\<bar> \<le> e0"
    and "evaluateAffineChildren seal key user active ciphertexts s = (Inr c, s')"
  shows "\<bar>val c - weighted_sum x ts\<bar> \<le> error_sum (e0 + eps) eps x ts"
proof -
  let ?cs = "map (\<lambda>(k, _). snd (the (map_of ciphertexts k))) active"
  obtain l cs s1 sc s2 where a: "switch_all seal key l ?cs s1 = (Inr cs, s2)"
    and r: "affine_loop seal key user l (map2 (\<lambda>(k, q, s) c. (k, q, s, c)) active cs) None s2 = (Inr (Some (sc, c)), s')"
    using assms(4) by (fastforce simp: evaluateAffineChildren_def alignToCommonLevel_def Let_def rs_bind_Inr split: option.splits if_splits prod.splits)
  have m: "map2 (\<lambda>(k, q, s) c. (k, q, s, c)) active cs = map2 (\<lambda>(k, q, sh) c. (k, Fin q, Fin sh, c)) ts cs" for cs
    unfolding assms(2) by (induction ts arbitrary: cs) (auto simp: zip_Cons1 split: list.splits prod.splits)
  have f: "?cs = map (\<lambda>t. snd (the (map_of ciphertexts (fst t)))) ts" unfolding assms(2) by (auto split: prod.splits)
  have "list_all2 (\<lambda>t c. \<bar>val c - x (fst t)\<bar> \<le> e0 + eps) ts cs"
    using switch_all_value[OF assms(1) a] unfolding f by (rule switched_close) (use assms(3) in auto)
  then have "list_all2 (\<lambda>(k, _, _) c. \<bar>val c - x k\<bar> \<le> e0 + eps) ts cs" by (rule list_all2_mono) auto
  then show ?thesis using affine_loop_value[OF assms(1) _ r[unfolded m]] by (simp add: acc_value_def)
qed

lemma zero_value:
  assumes "ckks_approximates seal key val pval eps" "map_of ciphertexts k = Some (h, c)"
    and "deriveEncryptedZero seal key user (Some \<lparr>zf_childKey = k, zf_knownValue = Fin m\<rparr>) ciphertexts s = (Inr c', s')"
  shows "\<bar>val c' - (val c - m)\<bar> \<le> 3 * eps"
proof -
  obtain g p s1 where p: "encodeScalar seal key (Fin m) (se_scale seal c) s = (Inr (g, p), s1)"
    and c: "se_isZero seal p \<and> c' = c \<or>
      (\<exists>p'. se_plainModSwitch seal (kc_context key) p (se_parmsId seal c) = Inr p' \<and> se_subPlain seal (kc_context key) c p' = Inr c')"
    using assms(2,3) by (auto simp: deriveEncryptedZero_def seal_runs split: if_splits)
  show ?thesis by (rule plain_difference[OF assms(1) p]) (use c in blast)
qed

text \<open>The ciphertexts of a user, as far as they open under the key, stand for \<open>x\<close> up to \<open>e0\<close>.\<close>

definition user_text :: "EncryptedCustomScoreUser \<Rightarrow> string \<Rightarrow> string" where
  "user_text user k = (case map_of (eu_ciphertexts user) k of Some serialized \<Rightarrow> serialized | None \<Rightarrow> [])"

definition encrypts ::
  "('e, 'k, 'l, 'c, 'p) Seal \<Rightarrow> 'k SealKeyContext \<Rightarrow> ('c \<Rightarrow> rat) \<Rightarrow> EncryptedEvaluationPlan \<Rightarrow> EncryptedCustomScoreUser \<Rightarrow> (string \<Rightarrow> rat) \<Rightarrow> rat \<Rightarrow> bool" where
  "encrypts seal key val plan user x e0 \<longleftrightarrow>
     (\<forall>p \<in> set (ep_children plan). \<forall>c. se_load seal (kc_context key) (user_text user (pl_key p)) = Inr c \<longrightarrow> \<bar>val c - x (pl_key p)\<bar> \<le> e0)"

lemma deserialize_Inr:
  "deserialize_loop seal key user children s = (Inr entries, s') \<Longrightarrow>
   list_all2 (\<lambda>p (k, _, c). k = pl_key p \<and> se_load seal (kc_context key) (user_text user k) = Inr c) children entries"
proof (induction children arbitrary: s entries)
  case (Cons p ps)
  then obtain en s1 es where r: "deserialize_one seal key user p s = (Inr en, s1)" "deserialize_loop seal key user ps s1 = (Inr es, s')" "entries = en # es"
    by (auto simp: rs_bind_Inr)
  have "case en of (k, _, c) \<Rightarrow> k = pl_key p \<and> se_load seal (kc_context key) (user_text user k) = Inr c"
    using r(1) by (cases "se_load seal (kc_context key) (user_text user (pl_key p))")
      (auto simp: deserialize_one_def rs_bind_Inr user_text_def[symmetric] split: if_splits)
  then show ?case using r Cons.IH by simp
qed simp

lemma deserialized_entry:
  assumes "deserialize_loop seal key user (ep_children plan) s = (Inr entries, s')" "distinct (map pl_key (ep_children plan))"
    and "p \<in> set (ep_children plan)" "encrypts seal key val plan user x e0"
  shows "\<exists>h c. map_of entries (pl_key p) = Some (h, c) \<and> \<bar>val c - x (pl_key p)\<bar> \<le> e0"
proof -
  note l = deserialize_Inr[OF assms(1)]
  have keys: "map fst entries = map pl_key (ep_children plan)" using l by (induction rule: list_all2_induct) auto
  obtain i where i: "i < length (ep_children plan)" "ep_children plan ! i = p" using assms(3) by (auto simp: in_set_conv_nth)
  obtain k h c where e: "entries ! i = (k, h, c)" by (cases "entries ! i")
  have "k = pl_key p" "se_load seal (kc_context key) (user_text user (pl_key p)) = Inr c"
    using list_all2_nthD[OF l i(1)] by (auto simp: e i(2))
  moreover have "(k, h, c) \<in> set entries" using e i(1) list_all2_lengthD[OF l] nth_mem[of i entries] by simp
  ultimately show ?thesis using assms(2-4) keys by (intro exI[of _ h] exI[of _ c]) (auto simp: encrypts_def)
qed

definition finite_contribution :: "PlannedChild \<Rightarrow> bool" where
  "finite_contribution p \<longleftrightarrow> pl_contribution p = ContribZero \<or> (\<exists>q sh. pl_contribution p = ContribAffine (Fin q) (Fin sh))"

definition planned_error :: "rat \<Rightarrow> rat \<Rightarrow> (string \<Rightarrow> rat) \<Rightarrow> PlannedChild \<Rightarrow> rat" where
  "planned_error e eps x p =
     (case pl_contribution p of ContribAffine (Fin q) (Fin sh) \<Rightarrow> contribution_error e eps q (x (pl_key p) - sh) | _ \<Rightarrow> 0)"

lemma active_terms:
  assumes "list_all finite_contribution ps"
  shows "\<exists>ts. List.map_filter active_child ps
      = map (\<lambda>(k, q, sh). (k, Fin q, Fin sh)) ts \<and> weighted_sum x ts = sum_list (map (contribution_value x) ps)
    \<and> error_sum e eps x ts = sum_list (map (planned_error e eps x) ps) \<and> fst ` set ts \<subseteq> pl_key ` set ps"
  using assms
proof (induction ps)
  case Nil
  show ?case by (intro exI[of _ "[]"]) (simp add: active_child_def map_filter_simps weighted_sum_def error_sum_def)
next
  case (Cons p ps)
  then obtain ts where ts: "List.map_filter active_child ps
      = map (\<lambda>(k, q, sh). (k, Fin q, Fin sh)) ts" "weighted_sum x ts = sum_list (map (contribution_value x) ps)"
    "error_sum e eps x ts = sum_list (map (planned_error e eps x) ps)" "fst ` set ts \<subseteq> pl_key ` set ps"
    by auto
  consider "pl_contribution p = ContribZero" | q sh where "pl_contribution p = ContribAffine (Fin q) (Fin sh)"
    using Cons.prems by (auto simp: finite_contribution_def)
  then show ?case
  proof cases
    case 1
    then have "active_child p = None" "contribution_value x p = 0" "planned_error e eps x p = 0"
      by (simp_all add: active_child_def contribution_value_def planned_error_def)
    then show ?thesis using ts by (intro exI[of _ ts]) (auto simp: map_filter_simps)
  next
    case (2 q sh)
    then have "active_child p = Some (pl_key p, Fin q, Fin sh)" "contribution_value x p = q * (x (pl_key p) - sh)"
      "planned_error e eps x p = contribution_error e eps q (x (pl_key p) - sh)"
      by (simp_all add: active_child_def contribution_value_def planned_error_def)
    then show ?thesis using ts
      by (intro exI[of _ "(pl_key p, q, sh) # ts"]) (auto simp: map_filter_simps weighted_sum_def error_sum_def)
  qed
qed

lemma plan_finite:
  assumes "buildEncryptedEvaluationPlan method children = Inr plan"
  shows "list_all finite_contribution (ep_children plan)" "distinct (map pl_key (ep_children plan))"
    and "map pl_key (ep_children plan) = map ec_key children" "map pl_observation (ep_children plan) = map ec_observation children"
    and "child \<in> set children \<Longrightarrow> \<exists>p \<in> set (ep_children plan). pl_key p = ec_key child \<and> pl_observation p = ec_observation child"
proof -
  note s = plan_children_sound[OF assms]
  show "list_all finite_contribution (ep_children plan)" unfolding list_all_iff
  proof
    fix p assume "p \<in> set (ep_children plan)"
    then obtain child where "sound_contribution child (pl_contribution p)" using list_all2_member[OF s] by blast
    then show "finite_contribution p"
      by (cases "pl_contribution p") (auto simp: sound_contribution_def finite_contribution_def)
  qed
  have p: "list_all2 (\<lambda>child p. pl_key p = ec_key child \<and> pl_observation p = ec_observation child) children (ep_children plan)"
    using s by (rule list_all2_mono) (metis PlannedChild.select_convs(1,3) planned_def)
  then show k: "map pl_key (ep_children plan) = map ec_key children" "map pl_observation (ep_children plan) = map ec_observation children"
    by (induction rule: list_all2_induct) auto
  show "distinct (map pl_key (ep_children plan))" using plan_Inr[OF assms] unfolding k by metis
  show "child \<in> set children \<Longrightarrow> \<exists>p \<in> set (ep_children plan). pl_key p = ec_key child \<and> pl_observation p = ec_observation child"
    using p by (induction rule: list_all2_induct) auto
qed

text \<open>The values \<open>x\<close> lie between the bounds that were observed.\<close>

definition within_bounds :: "EncryptedEvaluationPlan \<Rightarrow> (string \<Rightarrow> rat) \<Rightarrow> bool" where
  "within_bounds plan x \<longleftrightarrow>
     list_all (\<lambda>p. jle (no_min (pl_observation p)) (Fin (x (pl_key p))) \<and> jle (Fin (x (pl_key p))) (no_max (pl_observation p))) (ep_children plan)"

definition plan_error :: "rat \<Rightarrow> rat \<Rightarrow> EncryptedEvaluationPlan \<Rightarrow> (string \<Rightarrow> rat) \<Rightarrow> rat" where
  "plan_error e0 eps plan x = e0 + 3 * eps + sum_list (map (planned_error (e0 + eps) eps x) (ep_children plan))"

lemma planned_error_nonneg: "0 \<le> e \<Longrightarrow> 0 \<le> eps \<Longrightarrow> 0 \<le> planned_error e eps x p"
  by (auto simp: planned_error_def contribution_error_def split: ChildContribution.splits jsnum.splits)

lemma evaluated_value:
  assumes plan: "buildEncryptedEvaluationPlan method children = Inr plan"
    and approx: "ckks_approximates seal key val pval eps" "encrypts seal key val plan user x e0" "within_bounds plan x" "0 \<le> e0"
    and run: "deserializeCiphertexts seal key plan user s = (Inr ciphertexts, s1)"
      "(if active_children plan \<noteq> [] then evaluateAffineChildren seal key user (active_children plan) ciphertexts
        else deriveEncryptedZero seal key user (ep_zeroFallback plan) ciphertexts) s1 = (Inr c, s2)"
  shows "\<bar>val c - plan_score plan x\<bar> \<le> plan_error e0 eps plan x"
proof -
  have eps: "0 \<le> eps" using approx(1) by (simp add: ckks_approximates_def)
  obtain ts where ts: "active_children plan = map (\<lambda>(k, q, sh). (k, Fin q, Fin sh)) ts" "weighted_sum x ts = plan_score plan x"
      "error_sum (e0 + eps) eps x ts = sum_list (map (planned_error (e0 + eps) eps x) (ep_children plan))"
      "fst ` set ts \<subseteq> pl_key ` set (ep_children plan)"
    using active_terms[OF plan_finite(1)[OF plan], of x "e0 + eps" eps] unfolding active_children_def plan_score_def by blast
  have entry: "\<exists>h c. map_of ciphertexts (pl_key p) = Some (h, c) \<and> \<bar>val c - x (pl_key p)\<bar> \<le> e0" if "p \<in> set (ep_children plan)" for p
    using deserialized_entry[OF run(1)[unfolded deserializeCiphertexts_def] plan_finite(2)[OF plan] that approx(2)] .
  show ?thesis
  proof (cases "ts = []")
    case False
    then have "evaluateAffineChildren seal key user (active_children plan) ciphertexts s1 = (Inr c, s2)" using run(2) ts(1) by simp
    moreover have "\<bar>val (snd (the (map_of ciphertexts k))) - x k\<bar> \<le> e0" if "(k, q, sh) \<in> set ts" for k q sh
      using that ts(4) entry by force
    ultimately have "\<bar>val c - weighted_sum x ts\<bar> \<le> error_sum (e0 + eps) eps x ts" using affine_children_value[OF approx(1) ts(1)] by blast
    then show ?thesis using ts(2,3) eps approx(4) by (simp add: plan_error_def)
  next
    case True
    then have none: "plan_score plan x = 0" "active_children plan = []" using ts(1,2) by (simp_all add: weighted_sum_def)
    have "pl_contribution p = ContribZero" if "p \<in> set (ep_children plan)" for p
      using none(2) that by (cases "pl_contribution p") (auto simp: active_children_def map_filter_def filter_empty_conv active_child_def)
    then have "list_all (\<lambda>p. pl_contribution p = ContribZero) (ep_children plan)" by (simp add: list_all_iff)
    then obtain child m where ch: "child \<in> set children" "bounds_of (ec_observation child) m m"
      "ep_zeroFallback plan = Some \<lparr>zf_childKey = ec_key child, zf_knownValue = Fin m\<rparr>"
      using plan_fallback[OF plan] by blast
    then obtain p where p: "p \<in> set (ep_children plan)" "pl_key p = ec_key child" "pl_observation p = ec_observation child"
      using plan_finite(5)[OF plan] by blast
    have "jle (no_min (pl_observation p)) (Fin (x (pl_key p))) \<and> jle (Fin (x (pl_key p))) (no_max (pl_observation p))"
      using approx(3) p(1) unfolding within_bounds_def list_all_iff by blast
    then have xm: "x (ec_key child) = m" using p(2,3) ch(2) by (auto simp: bounds_of_def jle_def jeq_def)
    obtain h c0 where c0: "map_of ciphertexts (ec_key child) = Some (h, c0)" "\<bar>val c0 - m\<bar> \<le> e0" using entry[OF p(1)] p(2) xm by auto
    have "\<bar>val c - (val c0 - m)\<bar> \<le> 3 * eps" using zero_value[OF approx(1) c0(1)] run(2) none(2) ch(3) by simp
    moreover have "0 \<le> sum_list (map (planned_error (e0 + eps) eps x) (ep_children plan))"
      using planned_error_nonneg eps approx(4) by (intro sum_list_nonneg) auto
    ultimately show ?thesis using c0(2) none(1) unfolding plan_error_def by linarith
  qed
qed

text \<open>
  C2: When every SEAL operation is off by at most \<open>eps\<close> and the user's ciphertexts stand for \<open>x\<close> up to \<open>e0\<close>, the ciphertext that
  the evaluator returns for the user stands for the planned score of \<open>x\<close>, up to an error that the plan, \<open>x\<close>, \<open>e0\<close> and \<open>eps\<close> bound;
  it is never transparent.  This includes the case in which no child contributes.
\<close>

theorem evaluated_score_is_planned:
  assumes "buildEncryptedEvaluationPlan method children = Inr plan"
    and "ckks_approximates seal key val pval eps" "encrypts seal key val plan user x e0" "within_bounds plan x" "0 \<le> e0"
    and "map_of (ev_keys e) (eu_keyId user) = Some (key, handles)" "evaluateUser seal plan user e = (Inr result, e')"
  shows "er_did result = eu_did user \<and> er_keyId result = eu_keyId user
    \<and> (\<exists>c. se_save seal c = Inr (er_ciphertext result) \<and> \<not> se_isTransparent seal c \<and> \<bar>val c - plan_score plan x\<bar> \<le> plan_error e0 eps plan x)"
proof -
  obtain v s where v: "validateCiphertextSet plan user (ev_seal e) = (v, s)" by (cases "validateCiphertextSet plan user (ev_seal e)")
  obtain q s' where q: "evaluate_ciphertexts seal key plan user s = (q, s')" by (cases "evaluate_ciphertexts seal key plan user s")
  have "map_sum (wrap_failure user) id q = Inr result"
    using assms(6,7) by (auto simp: evaluateUser_def rs_bind_def ensureUsable_def v q split: if_splits sum.splits)
  then have r: "evaluate_ciphertexts seal key plan user s = (Inr result, s')" using q by (cases q) simp_all
  let ?m = "\<lambda>cs. if active_children plan \<noteq> [] then evaluateAffineChildren seal key user (active_children plan) cs
        else deriveEncryptedZero seal key user (ep_zeroFallback plan) cs"
  obtain cs s1 c s2 where c: "deserializeCiphertexts seal key plan user s = (Inr cs, s1)" "?m cs s1 = (Inr c, s2)"
    and f: "(if se_isTransparent seal c
       then typed EVALUATION_FAILED (''Evaluation for '' @ about_user user @ '' produced a transparent ciphertext'')
       else rs_bind (seal_op (se_save seal c)) (\<lambda>serialized.
              rs_ret \<lparr>er_did = eu_did user, er_keyId = eu_keyId user, er_ciphertext = serialized\<rparr>)) s2 = (Inr result, s')"
    using r unfolding evaluate_ciphertexts_def rs_bind_Inr[of "deserializeCiphertexts seal key plan user"] rs_bind_Inr[of "?m _"] by blast
  have "\<not> se_isTransparent seal c" "se_save seal c = Inr (er_ciphertext result)" "er_did result = eu_did user" "er_keyId result = eu_keyId user"
    using f by (auto simp: rs_bind_Inr split: if_splits)
  then show ?thesis using evaluated_value[OF assms(1-5) c] by blast
qed

subsection \<open>An exact instance\<close>

definition demo_seal :: "(unit, unit, unit, rat, rat) Seal" where
  "demo_seal = \<lparr>se_parms = \<lambda>_. Inr (), se_isCkks = \<lambda>_. True, se_polyModulusDegree = \<lambda>_. 8192, se_bitSizes = \<lambda>_. [60, 40, 60],
     se_context = \<lambda>_ _. Inr (), se_parametersSet = \<lambda>_. True, se_firstData = \<lambda>_. Inr (100, 1), se_slotCount = \<lambda>_. 1,
     se_log2 = \<lambda>_. Fin 40, se_pow2 = \<lambda>_. Fin 1000, se_load = \<lambda>_ t. if t = ''five'' then Inr 5 else Inl ''bad'', se_scale = \<lambda>_. Fin 2,
     se_parmsId = \<lambda>_. (), se_chainIndex = \<lambda>_ _. Inr 1, se_modSwitch = \<lambda>_ c _. Inr c,
     se_encode = \<lambda>_ vs _. case vs of Fin v # _ \<Rightarrow> Inr v | _ \<Rightarrow> Inl ''bad'', se_isZero = \<lambda>p. p = 0, se_plainModSwitch = \<lambda>_ p _. Inr p,
     se_subPlain = \<lambda>_ c p. Inr (c - p), se_multiplyPlain = \<lambda>_ c p. Inr (c * p), se_rescale = \<lambda>_ c. Inr c, se_setScale = \<lambda>c _. c,
     se_add = \<lambda>_ a c. Inr (a + c), se_isTransparent = \<lambda>_. False, se_save = \<lambda>c. Inr (if c = 5 then ''5'' else ''other'')\<rparr>"

definition demo_key :: "unit SealKeyContext" where
  "demo_key = \<lparr>kc_keyId = ''k'', kc_scale = Fin 2, kc_context = (), kc_slotCount = 1, kc_magnitudeLimit = Fin 1000\<rparr>"

definition demo_evaluator :: "unit evaluator" where
  "demo_evaluator = \<lparr>ev_seal = \<lparr>sl_next = 6, sl_live = [0, 2, 4, 5], sl_created = 6, sl_released = 2, sl_scope = []\<rparr>,
     ev_keys = [(''k'', demo_key, [0, 2, 4, 5])], ev_disposed = False\<rparr>"

definition demo_user :: EncryptedCustomScoreUser where
  "demo_user = \<lparr>eu_did = ''did'', eu_keyId = ''k'', eu_ciphertexts = [(''voting_engagement'', ''five'')]\<rparr>"

definition demo_metadata :: SealMetadata where
  "demo_metadata = \<lparr>sm_id = ''k'', sm_securityLevel = 128, sm_polyModulusDegree = 8192, sm_coeffModulusBitSizes = [60, 40, 60],
     sm_scale = Fin 2, sm_encryptionParameters = ''p''\<rparr>"

lemmas demo_run_defs = demo_seal_def demo_key_def demo_evaluator_def demo_user_def demo_metadata_def demo_plan_def demo_child_def planned_def
lemmas run_defs = rs_bind_def rs_ret_def rs_lift_def seal_op_def track_def release_def delete_handle_def Let_def

lemma demo_fields:
  "se_parms demo_seal t = Inr ()" "se_isCkks demo_seal e" "se_polyModulusDegree demo_seal e = 8192" "se_bitSizes demo_seal e = [60, 40, 60]"
  "se_context demo_seal e n = Inr ()" "se_parametersSet demo_seal k" "se_firstData demo_seal k = Inr (100, 1)" "se_slotCount demo_seal k = 1"
  "se_log2 demo_seal d = Fin 40" "se_pow2 demo_seal d = Fin 1000" "se_load demo_seal k ''five'' = Inr 5" "se_scale demo_seal c = Fin 2"
  "se_parmsId demo_seal c = ()" "se_chainIndex demo_seal k l = Inr 1" "se_modSwitch demo_seal k c l = Inr c"
  "se_encode demo_seal k [Fin v] sc = Inr v" "se_isZero demo_seal p = (p = 0)" "se_plainModSwitch demo_seal k p l = Inr p"
  "se_multiplyPlain demo_seal k c p = Inr (c * p)" "se_rescale demo_seal k c = Inr c" "\<not> se_isTransparent demo_seal c"
  "se_save demo_seal c = Inr (if c = 5 then ''5'' else ''other'')"
  by (simp_all add: demo_seal_def)

lemma demo_levels: "check_levels demo_seal demo_metadata demo_plan 100 1 = rs_ret (Fin 1000)"
proof -
  have d: "to_double 100 = Fin 100" "to_double 99 = Fin 99" "to_double 1 = Fin 1" "to_double 5 = Fin 5" "to_double 59 = Fin 59" "to_double 54 = Fin 54"
    using to_double_int[of 100] to_double_int[of 99] to_double_int[of 1] to_double_int[of 5] to_double_int[of 59] to_double_int[of 54] by simp_all
  show ?thesis
    by (simp add: check_levels_def demo_run_defs guard_def Let_def rs_bind_def rs_ret_def CAPACITY_MARGIN_BITS_def jint_def d jsub_def jle_def jeq_def
        jmax_def fun_eq_iff)
qed

lemma demo_registers: "registerSealMetadata demo_seal demo_plan demo_metadata new_evaluator = (Inr (), demo_evaluator)"
proof -
  have f: "jis_finite (Fin 2) \<and> \<not> jle (Fin 2) (Fin 1)" by (simp add: jis_finite_def jle_def jeq_def)
  have m: "sm_scale demo_metadata = Fin 2" by (simp add: demo_metadata_def)
  have "buildSealKeyContext demo_seal demo_metadata demo_plan createSealHandleLedger
     = (Inr demo_key, \<lparr>sl_next = 6, sl_live = [0, 2, 4, 5], sl_created = 6, sl_released = 2, sl_scope = [0, 2, 4, 5]\<rparr>)"
    unfolding buildSealKeyContext_def m
    by (simp add: f resolveSecurityLevel_def load_parms_def make_context_def guard_def run_defs createSealHandleLedger_def demo_levels demo_fields) (simp add: demo_metadata_def demo_key_def)
  then show ?thesis by (simp add: registerSealMetadata_def rs_bind_def ensureUsable_def new_evaluator_def demo_evaluator_def demo_metadata_def)
qed

theorem evaluator_never_leaks_witness:
  "evaluator_reachable demo_seal demo_plan demo_evaluator \<and> set (sl_live (ev_seal demo_evaluator)) = {0, 2, 4, 5}
    \<and> sl_live (ev_seal (dispose demo_evaluator)) = []"
proof -
  have "evaluator_reachable demo_seal demo_plan demo_evaluator"
    using registered[OF fresh, of demo_seal demo_plan demo_metadata] by (simp add: demo_registers)
  then show ?thesis using evaluator_never_leaks[of demo_seal demo_plan demo_evaluator] by (simp add: demo_evaluator_def key_handles_def)
qed

lemma demo_evaluates:
  "\<exists>e'. evaluateUser demo_seal demo_plan demo_user demo_evaluator = (Inr \<lparr>er_did = ''did'', er_keyId = ''k'', er_ciphertext = ''5''\<rparr>, e')"
proof -
  have v: "validateCiphertextSet demo_plan demo_user = rs_ret ()"
    by (simp add: validateCiphertextSet_def unselected_key_def missing_key_def demo_plan_def planned_def demo_child_def demo_user_def)
  have a: "active_children demo_plan = [(''voting_engagement'', Fin 1, Fin 0)]"
    by (simp add: active_children_def active_child_def map_filter_simps demo_plan_def planned_def demo_child_def)
  have same: "relativeDifference (Fin 2) (Fin 2) = Fin 0"
    using to_double_int[of 0] by (simp add: relativeDifference_def jmax_def jeq_def jsub_def Let_def)
  have tol: "\<not> jless SCALE_RELATIVE_TOLERANCE (Fin 0)" by (simp add: SCALE_RELATIVE_TOLERANCE_def)
  have key: "kc_context demo_key = ()" "kc_scale demo_key = Fin 2" "kc_slotCount demo_key = 1" by (simp_all add: demo_key_def)
  have kids: "ep_children demo_plan = [planned (demo_child ''voting_engagement'' 0 100) (ContribAffine (Fin 1) (Fin 0))]" by (simp add: demo_plan_def)
  have user: "map_of (eu_ciphertexts demo_user) ''voting_engagement'' = Some ''five''" "eu_keyId demo_user = ''k''" "eu_did demo_user = ''did''"
    by (simp_all add: demo_user_def)
  have p: "pl_key (planned (demo_child ''voting_engagement'' 0 100) c) = ''voting_engagement''" for c by (simp add: planned_def demo_child_def)
  have d: "deserializeCiphertexts demo_seal demo_key demo_plan demo_user s = (Inr [(''voting_engagement'', sl_next s, 5)], snd (track s))" for s
    by (simp add: deserializeCiphertexts_def kids deserialize_one_def rs_bind_def rs_ret_def track_def p user demo_fields key same tol)
  have "\<exists>s'. evaluateAffineChildren demo_seal demo_key demo_user [(''voting_engagement'', Fin 1, Fin 0)] [(''voting_engagement'', h, 5)] s = (Inr 5, s')" for h s
    by (simp add: evaluateAffineChildren_def alignToCommonLevel_def subtract_shift_def multiply_coefficient_def accumulate_def
        encodeScalar_def run_defs demo_fields key jeq_def)
  then obtain s' where "evaluateAffineChildren demo_seal demo_key demo_user [(''voting_engagement'', Fin 1, Fin 0)] [(''voting_engagement'', sl_next (ev_seal demo_evaluator), 5)]
      (snd (track (ev_seal demo_evaluator))) = (Inr 5, s')" by blast
  then have "evaluate_ciphertexts demo_seal demo_key demo_plan demo_user (ev_seal demo_evaluator)
      = (Inr \<lparr>er_did = ''did'', er_keyId = ''k'', er_ciphertext = ''5''\<rparr>, s')"
    by (simp add: evaluate_ciphertexts_def rs_bind_def d a demo_fields seal_op_def rs_lift_def rs_ret_def user)
  moreover have "map_of (ev_keys demo_evaluator) ''k'' = Some (demo_key, [0, 2, 4, 5])" "\<not> ev_disposed demo_evaluator"
    by (simp_all add: demo_evaluator_def)
  ultimately show ?thesis by (simp add: evaluateUser_def rs_bind_def ensureUsable_def v rs_ret_def user)
qed

theorem evaluated_score_is_planned_witness:
  "buildEncryptedEvaluationPlan OBSERVED_MIN_MAX [demo_child ''voting_engagement'' 0 100] = Inr demo_plan
    \<and> ckks_approximates demo_seal demo_key id id 0
    \<and> (\<exists>c. se_save demo_seal c = Inr ''5'' \<and> \<bar>c - plan_score demo_plan (\<lambda>_. 5)\<bar> \<le> plan_error 0 0 demo_plan (\<lambda>_. 5))"
proof -
  have approx: "ckks_approximates demo_seal demo_key id id 0"
    by (simp add: ckks_approximates_def demo_seal_def demo_key_def)
  have enc: "encrypts demo_seal demo_key id demo_plan demo_user (\<lambda>_. 5) 0"
    by (simp add: encrypts_def user_text_def demo_plan_def planned_def demo_child_def demo_user_def demo_seal_def)
  have bounds: "within_bounds demo_plan (\<lambda>_. 5)"
    by (simp add: within_bounds_def demo_plan_def planned_def demo_child_def jle_def jeq_def)
  have k: "map_of (ev_keys demo_evaluator) (eu_keyId demo_user) = Some (demo_key, [0, 2, 4, 5])" by (simp add: demo_evaluator_def demo_user_def)
  obtain e' where e: "evaluateUser demo_seal demo_plan demo_user demo_evaluator = (Inr \<lparr>er_did = ''did'', er_keyId = ''k'', er_ciphertext = ''5''\<rparr>, e')"
    using demo_evaluates by blast
  show ?thesis using evaluated_score_is_planned[OF demo_plan_built approx enc bounds _ k e] demo_plan_built approx by auto
qed

end
