(* ===== verification/Deep_Id_Client.thy ===== *)
theory Deep_Id_Client
  imports Portal_Scores Encrypted_Evaluator
begin

text \<open>
  The client of the DeepID service (\<^verbatim>\<open>packages/deep-id-api\<close>): requests with their retries, the machine token, the
  pages of users, the metadata of keys and the posting of scores.

  The network is an argument: what a request returns, the clock, the random number of a pause, and the functions of the
  platform on texts (JSON, URLs, the ISO form of instants).  The pool that limits concurrent requests is not modelled,
  since every caller here waits for one request before the next; so no two callers share a token request.  A broken
  contract is described by the paths of its issues.  \<open>di_posts\<close> records the calls of \<^verbatim>\<open>postScores\<close> that returned; the
  code keeps no such list.
\<close>

section \<open>Errors\<close>

datatype deep_error =
    HttpErr nat string string
  | ContractError string "string list"
  | OtherError string

definition BODY_SNIPPET_LENGTH :: nat where "BODY_SNIPPET_LENGTH = 200"

definition em_dash :: string where "em_dash = [char_of (226 :: nat), char_of (128 :: nat), char_of (148 :: nat)]"

definition body_snippet :: "string \<Rightarrow> string" where
  "body_snippet body = (if js_trim body = [] then [] else '' '' @ em_dash @ '' '' @ take BODY_SNIPPET_LENGTH (js_trim body))"

fun deep_message :: "deep_error \<Rightarrow> string" where
  "deep_message (HttpErr statusCode statusText body) = ''HTTP '' @ js_nat statusCode @ '': '' @ statusText @ body_snippet body"
| "deep_message (ContractError message _) = message"
| "deep_message (OtherError message) = message"

definition deep_isRetryableError :: "deep_error \<Rightarrow> bool" where
  "deep_isRetryableError err =
     (let message = js_lower (deep_message err)
      in if js_includes message ''timeout'' \<or> js_includes message ''econnreset'' \<or> js_includes message ''econnrefused''
            \<or> js_includes message ''socket hang up'' \<or> js_includes message ''network''
         then True
         else (case err of HttpErr statusCode _ _ \<Rightarrow> statusCode = 429 \<or> 500 \<le> statusCode | _ \<Rightarrow> False))"

definition deep_isNonRetryableError :: "deep_error \<Rightarrow> bool" where
  "deep_isNonRetryableError err =
     (case err of HttpErr statusCode _ _ \<Rightarrow> 400 \<le> statusCode \<and> statusCode < 500 \<and> statusCode \<noteq> 429 | _ \<Rightarrow> False)"

section \<open>Scores\<close>

definition SCORE_TYPES :: "string list" where
  "SCORE_TYPES = [''voting_engagement'', ''contribution_score'', ''proposal_engagement'', ''token_value_over_time'', ''custom_score'',
     ''github_engagement'', ''discord_engagement'', ''mattermost_engagement'']"

datatype ScoreEntry =
    PlainScoreEntry jsnum string string
  | EncryptedScoreEntry string string string

type_synonym PostScoresRequest = "(string \<times> ScoreEntry) list"

record PostScoresResponse =
  pr_ok :: int
  pr_failed :: int
  pr_results :: "(string \<times> string) list"
  pr_requestId :: "string option"

section \<open>Network\<close>

datatype auth = BasicAuth string string | BearerAuth json

datatype payload = TokenForm string | ScoresBody PostScoresRequest

record http_request =
  hq_method :: string
  hq_url :: string
  hq_auth :: auth
  hq_contentType :: "string option"
  hq_body :: "payload option"

text \<open>A header is the list of its values.\<close>

record raw_response =
  rp_status :: nat
  rp_statusText :: string
  rp_headers :: "(string \<times> string list) list"
  rp_text :: string

record HttpResponse =
  hr_statusCode :: nat
  hr_headers :: "(string \<times> string list) list"
  hr_data :: json

record 'w Net =
  net_send :: "http_request \<Rightarrow> 'w \<Rightarrow> (string + raw_response) \<times> 'w"
  net_now :: "'w \<Rightarrow> int"
  net_random :: "'w \<Rightarrow> jsnum \<times> 'w"
  net_sleep :: "jsnum \<Rightarrow> 'w \<Rightarrow> 'w"
  net_parse :: "string \<Rightarrow> string + json"
  net_resolve :: "string \<Rightarrow> string \<Rightarrow> string option"
  net_origin :: "string \<Rightarrow> string"
  net_query :: "string \<Rightarrow> (string \<times> string) list \<Rightarrow> string"
  net_isIso :: "string \<Rightarrow> bool"

definition calculateDelay :: "jsnum \<Rightarrow> nat \<Rightarrow> int \<Rightarrow> int \<Rightarrow> jsnum" where
  "calculateDelay random attempt baseDelayMs maxDelayMs =
     (let exponentialDelay = jmul (jint baseDelayMs) (jint (2 ^ attempt));
          cappedDelay = jmin exponentialDelay (jint maxDelayMs);
          jitter = jmul (jmul random cappedDelay) (Fin (1 / 2))
      in jadd cappedDelay jitter)"

definition send_once :: "'w Net \<Rightarrow> http_request \<Rightarrow> 'w \<Rightarrow> (deep_error + HttpResponse) \<times> 'w" where
  "send_once net req w =
     (case net_send net req w of
        (Inl message, w') \<Rightarrow> (Inl (OtherError message), w')
      | (Inr r, w') \<Rightarrow>
          (if 400 \<le> rp_status r
           then Inl (HttpErr (rp_status r) (if rp_statusText r = [] then ''Error'' else rp_statusText r) (rp_text r))
           else if rp_text r = [] then Inr \<lparr>hr_statusCode = rp_status r, hr_headers = rp_headers r, hr_data = JUndefined\<rparr>
           else map_sum OtherError (\<lambda>data. \<lparr>hr_statusCode = rp_status r, hr_headers = rp_headers r, hr_data = data\<rparr>) (net_parse net (rp_text r)), w'))"

text \<open>The loop over the attempts; \<open>left\<close> is the number of attempts that remain.\<close>

fun deep_attempts ::
  "'w Net \<Rightarrow> RetryConfig \<Rightarrow> http_request \<Rightarrow> nat \<Rightarrow> nat \<Rightarrow> deep_error option \<Rightarrow> 'w \<Rightarrow> (deep_error + HttpResponse) \<times> 'w" where
  "deep_attempts net retry req attempt 0 lastError w =
     (Inl (case lastError of Some e \<Rightarrow> e | None \<Rightarrow> OtherError ''Request failed after all retries''), w)"
| "deep_attempts net retry req attempt (Suc left) lastError w =
     (case send_once net req w of
        (Inr response, w') \<Rightarrow> (Inr response, w')
      | (Inl err, w') \<Rightarrow>
          if deep_isNonRetryableError err \<or> \<not> deep_isRetryableError err then (Inl err, w')
          else if left = 0 then deep_attempts net retry req (attempt + 1) left (Some err) w'
          else
            (let (random, w'') = net_random net w'
             in deep_attempts net retry req (attempt + 1) left (Some err)
                  (net_sleep net (calculateDelay random attempt (rt_baseDelayMs retry) (rt_maxDelayMs retry)) w'')))"

definition deep_executeRequest :: "'w Net \<Rightarrow> RetryConfig \<Rightarrow> http_request \<Rightarrow> 'w \<Rightarrow> (deep_error + HttpResponse) \<times> 'w" where
  "deep_executeRequest net retry req = deep_attempts net retry req 0 (rt_maxAttempts retry) None"

section \<open>Configuration\<close>

record DeepIdApiConfig =
  dc_identityBaseUrl :: string
  dc_appBaseUrl :: string
  dc_clientId :: string
  dc_clientSecret :: string
  dc_scopes :: string
  dc_retry :: RetryConfig
  dc_defaultPageSize :: int
  dc_tokenRefreshSkewMs :: int

record DeepIdApiConfigInput =
  di_identityBaseUrl :: string
  di_appBaseUrl :: string
  di_clientId :: string
  di_clientSecret :: string
  di_scopes :: "string option"
  di_maxAttempts :: "nat option"
  di_baseDelayMs :: "int option"
  di_maxDelayMs :: "int option"
  di_defaultPageSize :: "int option"
  di_tokenRefreshSkewMs :: "int option"

definition or_default :: "'a option \<Rightarrow> 'a \<Rightarrow> 'a" where
  "or_default v d = (case v of Some x \<Rightarrow> x | None \<Rightarrow> d)"

text \<open>\<^verbatim>\<open>resolveConfig\<close> with the values of \<^verbatim>\<open>DEFAULT_CONFIG\<close>.\<close>

definition DEFAULT_DEEP_RETRY :: RetryConfig where
  "DEFAULT_DEEP_RETRY = \<lparr>rt_maxAttempts = 5, rt_baseDelayMs = 500, rt_maxDelayMs = 20000\<rparr>"

definition resolveConfig :: "DeepIdApiConfigInput \<Rightarrow> DeepIdApiConfig" where
  "resolveConfig input =
     \<lparr>dc_identityBaseUrl = di_identityBaseUrl input, dc_appBaseUrl = di_appBaseUrl input, dc_clientId = di_clientId input,
      dc_clientSecret = di_clientSecret input, dc_scopes = or_default (di_scopes input) ''api wallets post_scores'',
      dc_retry = \<lparr>rt_maxAttempts = or_default (di_maxAttempts input) (rt_maxAttempts DEFAULT_DEEP_RETRY),
                  rt_baseDelayMs = or_default (di_baseDelayMs input) (rt_baseDelayMs DEFAULT_DEEP_RETRY),
                  rt_maxDelayMs = or_default (di_maxDelayMs input) (rt_maxDelayMs DEFAULT_DEEP_RETRY)\<rparr>,
      dc_defaultPageSize = or_default (di_defaultPageSize input) 100,
      dc_tokenRefreshSkewMs = or_default (di_tokenRefreshSkewMs input) 60000\<rparr>"

definition trimTrailingSlash :: "string \<Rightarrow> string" where
  "trimTrailingSlash url = (if url \<noteq> [] \<and> last url = CHR ''/'' then butlast url else url)"

section \<open>Token and transport\<close>

record 'w deep_id =
  di_world :: 'w
  di_cached :: "(json \<times> jsnum) option"
  di_posts :: "(PostScoresRequest \<times> (string \<times> string) list) list"

type_synonym ('w, 'a) deep = "('w deep_id, deep_error, 'a) rs"

definition on_world :: "('w \<Rightarrow> (deep_error + 'a) \<times> 'w) \<Rightarrow> ('w, 'a) deep" where
  "on_world f s = (case f (di_world s) of (r, w) \<Rightarrow> (r, s\<lparr>di_world := w\<rparr>))"

definition token_request :: "DeepIdApiConfig \<Rightarrow> http_request" where
  "token_request cfg =
     \<lparr>hq_method = ''POST'', hq_url = trimTrailingSlash (dc_identityBaseUrl cfg) @ ''/oauth2/token'',
      hq_auth = BasicAuth (dc_clientId cfg) (dc_clientSecret cfg), hq_contentType = Some ''application/x-www-form-urlencoded'',
      hq_body = Some (TokenForm (dc_scopes cfg))\<rparr>"

definition fetchToken :: "'w Net \<Rightarrow> DeepIdApiConfig \<Rightarrow> ('w, json) deep" where
  "fetchToken net cfg =
     rs_bind (on_world (deep_executeRequest net (dc_retry cfg) (token_request cfg))) (\<lambda>response s.
       if hr_data response \<in> {JUndefined, JNull} then (Inl (OtherError ''Cannot destructure the token response''), s)
       else
         (let access_token = jfield ''access_token'' (hr_data response);
              expires_in = js_Number (jfield ''expires_in'' (hr_data response))
          in (Inr access_token,
              s\<lparr>di_cached := Some (access_token, jadd (jint (net_now net (di_world s))) (jmul expires_in (jint 1000)))\<rparr>)))"

definition isFresh :: "'w Net \<Rightarrow> DeepIdApiConfig \<Rightarrow> 'w deep_id \<Rightarrow> bool" where
  "isFresh net cfg s =
     (case di_cached s of
        None \<Rightarrow> False
      | Some (_, expiresAtMs) \<Rightarrow> jless (jint (net_now net (di_world s))) (jsub expiresAtMs (jint (dc_tokenRefreshSkewMs cfg))))"

definition getToken :: "'w Net \<Rightarrow> DeepIdApiConfig \<Rightarrow> bool \<Rightarrow> ('w, json) deep" where
  "getToken net cfg forceRefresh s =
     (if \<not> forceRefresh \<and> isFresh net cfg s then (Inr (fst (the (di_cached s))), s)
      else fetchToken net cfg (if forceRefresh then s\<lparr>di_cached := None\<rparr> else s))"

definition buildUrl :: "'w Net \<Rightarrow> string \<Rightarrow> string \<Rightarrow> (string \<times> string) list \<Rightarrow> deep_error + string" where
  "buildUrl net baseUrl path params =
     (let cleanPath = (if js_startsWith path ''/'' then tl path else path)
      in case net_resolve net cleanPath (baseUrl @ ''/'') of
           None \<Rightarrow> Inl (OtherError ''Invalid URL'')
         | Some url \<Rightarrow> Inr (net_query net url params))"

definition send_authed :: "'w Net \<Rightarrow> DeepIdApiConfig \<Rightarrow> string \<Rightarrow> string \<Rightarrow> payload option \<Rightarrow> json \<Rightarrow> ('w, HttpResponse) deep" where
  "send_authed net cfg httpMethod url body token =
     on_world (deep_executeRequest net (dc_retry cfg)
       \<lparr>hq_method = httpMethod, hq_url = url, hq_auth = BearerAuth token,
        hq_contentType = map_option (\<lambda>_. ''application/json'') body, hq_body = body\<rparr>)"

definition is_unauthorized :: "deep_error \<Rightarrow> bool" where
  "is_unauthorized e = (case e of HttpErr statusCode _ _ \<Rightarrow> statusCode = 401 | _ \<Rightarrow> False)"

definition authedRequest ::
  "'w Net \<Rightarrow> DeepIdApiConfig \<Rightarrow> string \<Rightarrow> string \<Rightarrow> (string \<times> string) list \<Rightarrow> payload option \<Rightarrow> ('w, HttpResponse) deep" where
  "authedRequest net cfg httpMethod path params body =
     rs_bind (rs_lift (buildUrl net (trimTrailingSlash (dc_appBaseUrl cfg)) path params)) (\<lambda>url.
     rs_bind (getToken net cfg False) (\<lambda>token.
     rs_catch (send_authed net cfg httpMethod url body token) (\<lambda>e.
       if is_unauthorized e then rs_bind (getToken net cfg True) (\<lambda>refreshed. send_authed net cfg httpMethod url body refreshed)
       else rs_throw e)))"

section \<open>Contracts\<close>

text \<open>\<^verbatim>\<open>parseWithContract\<close>: a schema gives the paths of its issues and, when there are none, the value.\<close>

definition parseWithContract :: "string list \<times> 'a \<Rightarrow> string \<Rightarrow> deep_error + 'a" where
  "parseWithContract = (\<lambda>(issues, v) message. if issues = [] then Inr v else Inl (ContractError message issues))"

definition dotted :: "string \<Rightarrow> string \<Rightarrow> string" where
  "dotted p f = p @ ''.'' @ f"

fun entry_issues :: "(string \<Rightarrow> bool) \<Rightarrow> string \<times> ScoreEntry \<Rightarrow> string list" where
  "entry_issues isIso (did, PlainScoreEntry score scoreType timestamp) =
     (if scoreType \<notin> set SCORE_TYPES then [dotted did ''type'']
      else (if jis_finite score then [] else [dotted did ''score'']) @ (if isIso timestamp then [] else [dotted did ''timestamp'']))"
| "entry_issues isIso (did, EncryptedScoreEntry ciphertext keyId timestamp) =
     (if ciphertext = [] then [dotted did ''ciphertext''] else []) @ (if keyId = [] then [dotted did ''keyId''] else [])
       @ (if isIso timestamp then [] else [dotted did ''timestamp''])"

definition postScoresRequestSchema :: "(string \<Rightarrow> bool) \<Rightarrow> PostScoresRequest \<Rightarrow> string list \<times> PostScoresRequest" where
  "postScoresRequestSchema isIso scores = (concat (map (entry_issues isIso) scores), scores)"

text \<open>\<^verbatim>\<open>z.number().int()\<close> accepts the integers a double holds exactly.\<close>

fun zod_int :: "json \<Rightarrow> int option" where
  "zod_int (JNum (Fin x)) = (if of_int \<lfloor>x\<rfloor> = x \<and> \<bar>x\<bar> < 2 ^ 53 then Some \<lfloor>x\<rfloor> else None)"
| "zod_int _ = None"

definition nonnegative_issue :: "string \<Rightarrow> json \<Rightarrow> string list" where
  "nonnegative_issue p v = (case zod_int v of Some n \<Rightarrow> if 0 \<le> n then [] else [p] | None \<Rightarrow> [p])"

text \<open>The own entries of an object; a key that occurs twice has the value that a lookup finds.\<close>

fun js_entries :: "json \<Rightarrow> (string \<times> json) list" where
  "js_entries (JObj kvs) = AList.clearjunk kvs"
| "js_entries (JArr vs) = map2 (\<lambda>i v. (js_nat i, v)) [0..<length vs] vs"
| "js_entries (JStr s) = map2 (\<lambda>i c. (js_nat i, JStr [c])) [0..<length s] s"
| "js_entries _ = []"

definition result_issue :: "string \<times> json \<Rightarrow> string list" where
  "result_issue = (\<lambda>(did, v). if \<not> isRecord v then [dotted ''results'' did]
     else if is_jstr (jfield ''message'' v) then [] else [dotted (dotted ''results'' did) ''message''])"

definition postScoresResponseSchema :: "json \<Rightarrow> string list \<times> PostScoresResponse" where
  "postScoresResponseSchema v =
     (let status = jfield ''status'' v; results = jfield ''results'' v
      in (if \<not> isRecord v then [''(root)'']
          else (if \<not> isRecord status then [''status'']
                else nonnegative_issue ''status.ok'' (jfield ''ok'' status) @ nonnegative_issue ''status.failed'' (jfield ''failed'' status))
             @ (if \<not> isRecord results then [''results''] else concat (map result_issue (js_entries results))),
          \<lparr>pr_ok = or_default (zod_int (jfield ''ok'' status)) 0, pr_failed = or_default (zod_int (jfield ''failed'' status)) 0,
           pr_results = map (\<lambda>(did, r). (did, jstr (jfield ''message'' r))) (js_entries results), pr_requestId = None\<rparr>))"

section \<open>Resources\<close>

definition readHeader :: "(string \<times> string list) list \<Rightarrow> string \<Rightarrow> string option" where
  "readHeader headers name = (case map_of headers name of Some (v # _) \<Rightarrow> if v = [] then None else Some v | _ \<Rightarrow> None)"

definition postScores :: "'w Net \<Rightarrow> DeepIdApiConfig \<Rightarrow> PostScoresRequest \<Rightarrow> ('w, PostScoresResponse) deep" where
  "postScores net cfg scores =
     rs_bind (rs_lift (parseWithContract (postScoresRequestSchema (net_isIso net) scores) ''invalid POST /v1/clients/scores payload'')) (\<lambda>_.
     rs_bind (authedRequest net cfg ''POST'' ''/v1/clients/scores'' [] (Some (ScoresBody scores))) (\<lambda>response.
     rs_bind (rs_lift (parseWithContract (postScoresResponseSchema (hr_data response)) ''malformed POST /v1/clients/scores response'')) (\<lambda>parsed.
     rs_bind (rs_modify (\<lambda>s. s\<lparr>di_posts := di_posts s @ [(scores, pr_results parsed)]\<rparr>)) (\<lambda>_.
       rs_ret (parsed\<lparr>pr_requestId := readHeader (hr_headers response) ''x-request-id''\<rparr>)))))"

record UsersPage =
  up_users :: "(string \<times> json) list"
  up_next :: "string option"
  up_requestId :: "string option"

text \<open>One turn of the generator \<^verbatim>\<open>iterateUsers\<close>, with the cursor of the page before.\<close>

definition users_page :: "'w Net \<Rightarrow> DeepIdApiConfig \<Rightarrow> int option \<Rightarrow> string \<Rightarrow> string option \<Rightarrow> ('w, UsersPage) deep" where
  "users_page net cfg pageSize filteredTokenScopes cursor =
     rs_bind (authedRequest net cfg ''GET'' ''/v1/users''
        ([(''pageSize'', signed_text (or_default pageSize (dc_defaultPageSize cfg)))]
           @ (case cursor of Some c \<Rightarrow> [(''next'', c)] | None \<Rightarrow> [])
           @ (if filteredTokenScopes = [] then [] else [(''filteredTokenScopes'', filteredTokenScopes)])) None) (\<lambda>response.
       rs_ret \<lparr>up_users = js_entries (hr_data response), up_next = readHeader (hr_headers response) ''x-next'',
               up_requestId = readHeader (hr_headers response) ''x-request-id''\<rparr>)"

text \<open>The loop of a caller over the pages; it does not end while the service names a next page.\<close>

partial_function (option) iterateUsers ::
  "(string option \<Rightarrow> ('s, 'e, UsersPage) rs) \<Rightarrow> (UsersPage \<Rightarrow> ('s, 'e, unit) rs) \<Rightarrow> string option \<Rightarrow> 's \<Rightarrow> (('e + unit) \<times> 's) option" where
  "iterateUsers fetch body cursor s =
     (case fetch cursor s of
        (Inl e, s') \<Rightarrow> Some (Inl e, s')
      | (Inr page, s') \<Rightarrow>
          (case body page s' of
             (Inl e, s'') \<Rightarrow> Some (Inl e, s'')
           | (Inr _, s'') \<Rightarrow>
               (case up_next page of None \<Rightarrow> Some (Inr (), s'') | Some c \<Rightarrow> iterateUsers fetch body (Some c) s'')))"

definition merge_page :: "UsersPage \<Rightarrow> ('w deep_id \<times> (string \<times> json) list, deep_error, unit) rs" where
  "merge_page page = rs_modify (\<lambda>(s, all). (s, fold (\<lambda>(k, v). AList.update k v) (up_users page) all))"

definition getUsers ::
  "'w Net \<Rightarrow> DeepIdApiConfig \<Rightarrow> int option \<Rightarrow> string \<Rightarrow> 'w deep_id \<Rightarrow> ((deep_error + (string \<times> json) list) \<times> 'w deep_id) option" where
  "getUsers net cfg pageSize filteredTokenScopes s =
     map_option (\<lambda>(r, s', all). (map_sum id (\<lambda>_. all) r, s'))
       (iterateUsers (\<lambda>cursor (s, all). case users_page net cfg pageSize filteredTokenScopes cursor s of (r, s') \<Rightarrow> (r, s', all)) merge_page None (s, []))"

subsection \<open>Metadata of a key\<close>

definition all_digits :: "string \<Rightarrow> bool" where
  "all_digits s \<longleftrightarrow> list_all is_digit s"

definition mantissa_ok :: "string \<Rightarrow> bool" where
  "mantissa_ok s =
     (let a = takeWhile is_digit s; rest = dropWhile is_digit s
      in if a \<noteq> [] then rest = [] \<or> hd rest = CHR ''.'' \<and> all_digits (tl rest)
         else rest \<noteq> [] \<and> hd rest = CHR ''.'' \<and> tl rest \<noteq> [] \<and> all_digits (tl rest))"

definition exponent_ok :: "string \<Rightarrow> bool" where
  "exponent_ok s =
     (let ds = (if s \<noteq> [] \<and> hd s \<in> {CHR ''+'', CHR ''-''} then tl s else s) in ds \<noteq> [] \<and> all_digits ds)"

text \<open>The pattern \<^verbatim>\<open>DECIMAL_STRING\<close>.\<close>

definition DECIMAL_STRING :: "string \<Rightarrow> bool" where
  "DECIMAL_STRING s =
     (let t = (if s \<noteq> [] \<and> hd s = CHR ''-'' then tl s else s);
          m = takeWhile (\<lambda>c. c \<noteq> CHR ''e'' \<and> c \<noteq> CHR ''E'') t; rest = dropWhile (\<lambda>c. c \<noteq> CHR ''e'' \<and> c \<noteq> CHR ''E'') t
      in mantissa_ok m \<and> (rest = [] \<or> exponent_ok (tl rest)))"

definition jsonNumber :: "json \<Rightarrow> json" where
  "jsonNumber v = (case v of JStr s \<Rightarrow> if DECIMAL_STRING s then JNum (js_to_number s) else v | _ \<Rightarrow> v)"

definition SEC_LEVEL_BITS :: "(string \<times> int) list" where
  "SEC_LEVEL_BITS = [(''tc128'', 128), (''tc192'', 192), (''tc256'', 256)]"

definition securityLevel_value :: "json \<Rightarrow> json" where
  "securityLevel_value v =
     (case v of JStr s \<Rightarrow> (case map_of SEC_LEVEL_BITS (js_lower s) of Some n \<Rightarrow> JNum (jint n) | None \<Rightarrow> v) | _ \<Rightarrow> v)"

definition positive_int :: "json \<Rightarrow> bool" where
  "positive_int v = (case zod_int v of Some n \<Rightarrow> 0 < n | None \<Rightarrow> False)"

definition positive_number :: "json \<Rightarrow> bool" where
  "positive_number v = (case v of JNum (Fin x) \<Rightarrow> 0 < x | _ \<Rightarrow> False)"

definition bit_size_issues :: "json list \<Rightarrow> string list" where
  "bit_size_issues vs =
     concat (map2 (\<lambda>i v. if positive_int (jsonNumber v) then [] else [dotted ''coeffModulusBitSizes'' (js_nat i)]) [0..<length vs] vs)"

definition bit_sizes :: "json \<Rightarrow> json list" where
  "bit_sizes v = (case v of JArr vs \<Rightarrow> vs | _ \<Rightarrow> [])"

definition int_of :: "json \<Rightarrow> int" where
  "int_of v = or_default (zod_int v) 0"

definition sealMetadataSchema :: "json \<Rightarrow> string list \<times> SealMetadata" where
  "sealMetadataSchema v =
     (let f = (\<lambda>k. jfield k v);
          level = jsonNumber (securityLevel_value (f ''securityLevel'')); degree = jsonNumber (f ''polyModulusDegree'');
          sizes = bit_sizes (f ''coeffModulusBitSizes''); scale = jsonNumber (f ''scale'');
          issue = (\<lambda>ok k. if ok then [] else [k])
      in (if \<not> isRecord v then [''(root)'']
          else issue (jstr (f ''id'') \<noteq> []) ''id'' @ issue (f ''schemeType'' = JStr ''ckks'') ''schemeType''
            @ issue (positive_int level) ''securityLevel'' @ issue (positive_int degree) ''polyModulusDegree''
            @ (if sizes = [] then [''coeffModulusBitSizes''] else bit_size_issues sizes)
            @ issue (positive_number scale) ''scale'' @ issue (jstr (f ''encryptionParameters'') \<noteq> []) ''encryptionParameters'',
          \<lparr>sm_id = jstr (f ''id''), sm_securityLevel = int_of level, sm_polyModulusDegree = int_of degree,
           sm_coeffModulusBitSizes = map (\<lambda>s. int_of (jsonNumber s)) sizes,
           sm_scale = (case scale of JNum n \<Rightarrow> n | _ \<Rightarrow> Fin 0), sm_encryptionParameters = jstr (f ''encryptionParameters'')\<rparr>))"

definition contract_violation :: "string \<Rightarrow> deep_error" where
  "contract_violation message = ContractError message []"

definition resolveSealMetadataUrl :: "'w Net \<Rightarrow> string \<Rightarrow> string \<Rightarrow> deep_error + string" where
  "resolveSealMetadataUrl net appBaseUrl metadataUrl =
     (if js_trim metadataUrl = [] then Inl (contract_violation ''seal metadata URL is missing or empty'')
      else
        (let origin = net_origin net appBaseUrl
         in case net_resolve net metadataUrl (origin @ ''/'') of
              None \<Rightarrow> Inl (contract_violation ''seal metadata URL cannot be resolved against the DeepID application origin'')
            | Some resolved \<Rightarrow>
                if net_origin net resolved \<noteq> origin
                then Inl (contract_violation (''seal metadata URL resolves to '' @ net_origin net resolved @ '', outside the DeepID application origin '' @ origin))
                else Inr resolved))"

definition getSealMetadata :: "'w Net \<Rightarrow> DeepIdApiConfig \<Rightarrow> string \<Rightarrow> ('w, SealMetadata) deep" where
  "getSealMetadata net cfg metadataUrl =
     rs_bind (rs_lift (resolveSealMetadataUrl net (dc_appBaseUrl cfg) metadataUrl)) (\<lambda>resolved.
     rs_bind (authedRequest net cfg ''GET'' resolved [] None) (\<lambda>response.
       if 300 \<le> hr_statusCode response \<and> hr_statusCode response < 400
       then rs_throw (contract_violation (''seal metadata request was redirected (HTTP '' @ js_nat (hr_statusCode response) @ ''); redirects are not followed''))
       else if hr_statusCode response \<noteq> 200
       then rs_throw (contract_violation (''seal metadata request returned unexpected HTTP '' @ js_nat (hr_statusCode response)))
       else rs_lift (parseWithContract (sealMetadataSchema (hr_data response)) ''malformed seal metadata response'')))"

section \<open>The client\<close>

record 's DeepIdClient =
  cl_usersPage :: "int option \<Rightarrow> string \<Rightarrow> string option \<Rightarrow> ('s, deep_error, UsersPage) rs"
  cl_postScores :: "PostScoresRequest \<Rightarrow> ('s, deep_error, PostScoresResponse) rs"
  cl_getSealMetadata :: "string \<Rightarrow> ('s, deep_error, SealMetadata) rs"

definition createDeepIdClient :: "'w Net \<Rightarrow> DeepIdApiConfigInput \<Rightarrow> 'w deep_id DeepIdClient" where
  "createDeepIdClient net input =
     (let cfg = resolveConfig input
      in \<lparr>cl_usersPage = users_page net cfg, cl_postScores = postScores net cfg, cl_getSealMetadata = getSealMetadata net cfg\<rparr>)"

section \<open>What callers rely on\<close>

text \<open>
  A call that reads leaves the accepted posts alone, a post that returns is on record with its results, and the users of a
  page are listed once.
\<close>

locale deep_client =
  fixes client :: "'s DeepIdClient" and posts :: "'s \<Rightarrow> (PostScoresRequest \<times> (string \<times> string) list) list"
  assumes page_keeps: "posts (snd (cl_usersPage client pageSize scopes cursor s)) = posts s"
    and metadata_keeps: "posts (snd (cl_getSealMetadata client url s)) = posts s"
    and post_fails: "cl_postScores client scores s = (Inl e, s') \<Longrightarrow> posts s' = posts s"
    and post_logs: "cl_postScores client scores s = (Inr r, s') \<Longrightarrow> posts s' = posts s @ [(scores, pr_results r)]"
    and page_distinct: "cl_usersPage client pageSize scopes cursor s = (Inr page, s') \<Longrightarrow> distinct (map fst (up_users page))"

abbreviation posts_are :: "(PostScoresRequest \<times> (string \<times> string) list) list \<Rightarrow> ('w, 'a) deep \<Rightarrow> bool" where
  "posts_are P m \<equiv> keeps_inv (\<lambda>s. di_posts s = P) m"

lemma posts_on_world [keeps_rules]: "posts_are P (on_world f)"
  by (auto simp: keeps_inv_def on_world_def split: prod.splits)

lemma posts_getToken [keeps_rules]: "posts_are P (getToken net cfg b)"
proof -
  have "posts_are P (fetchToken net cfg)"
    unfolding fetchToken_def by (intro keeps_rules) (auto simp: keeps_inv_def Let_def)
  then show ?thesis by (simp add: keeps_inv_def getToken_def)
qed

lemma posts_authed [keeps_rules]: "posts_are P (authedRequest net cfg httpMethod path params body)"
  unfolding authedRequest_def send_authed_def by (intro keeps_rules)

lemma keepsD_posts: "(\<And>P. posts_are P m) \<Longrightarrow> di_posts (snd (m s)) = di_posts s"
  by (simp add: keeps_inv_def)

lemma posts_users_page: "posts_are P (users_page net cfg pageSize scopes cursor)"
  unfolding users_page_def by (intro keeps_rules)

lemma posts_metadata: "posts_are P (getSealMetadata net cfg url)"
  unfolding getSealMetadata_def by (intro keeps_rules)

lemma posts_post:
  "postScores net cfg scores s = (r, s') \<Longrightarrow>
   di_posts s' = di_posts s @ (case r of Inl _ \<Rightarrow> [] | Inr response \<Rightarrow> [(scores, pr_results response)])"
proof -
  let ?m = "authedRequest net cfg ''POST'' ''/v1/clients/scores'' [] (Some (ScoresBody scores))"
  assume run: "postScores net cfg scores s = (r, s')"
  obtain q s1 where q: "?m s = (q, s1)" by (cases "?m s")
  have "di_posts s1 = di_posts s" using keeps_invD[OF posts_authed _ q, of "di_posts s"] by simp
  then show ?thesis using run q
    by (auto simp: postScores_def rs_bind_def rs_lift_def rs_modify_def rs_ret_def split: sum.splits)
qed

text \<open>Different numbers have different texts.\<close>

lemma js_nat_inj: "js_nat m = js_nat n \<Longrightarrow> m = n"
proof (induction m arbitrary: n rule: js_nat.induct)
  case (1 m)
  have digit: "char_of (48 + a) = (char_of (48 + b) :: char) \<Longrightarrow> a = b" if "a < 10" "b < 10" for a b :: nat
    using that arg_cong[of "char_of (48 + a)" "char_of (48 + b)" "of_char :: char \<Rightarrow> nat"] by (simp add: of_char_of)
  have ne: "js_nat k \<noteq> []" for k by (subst js_nat.simps) simp
  show ?case
  proof (cases "m < 10"; cases "n < 10")
    assume "m < 10" "n < 10"
    then show ?thesis using "1.prems" digit by (simp add: js_nat.simps[of m] js_nat.simps[of n])
  next
    assume "m < 10" "\<not> n < 10"
    then show ?thesis using "1.prems" ne[of "n div 10"] by (auto simp: js_nat.simps[of m] js_nat.simps[of n] Cons_eq_append_conv)
  next
    assume "\<not> m < 10" "n < 10"
    then show ?thesis using "1.prems" ne[of "m div 10"] by (auto simp: js_nat.simps[of m] js_nat.simps[of n] append_eq_Cons_conv)
  next
    assume big: "\<not> m < 10" "\<not> n < 10"
    then have "js_nat (m div 10) = js_nat (n div 10)" "char_of (48 + m mod 10) = (char_of (48 + n mod 10) :: char)"
      using "1.prems" by (simp_all add: js_nat.simps[of m] js_nat.simps[of n])
    then have "m div 10 = n div 10" "m mod 10 = n mod 10" using "1.IH" big digit[of "m mod 10" "n mod 10"] by simp_all
    then show ?thesis by (metis div_mult_mod_eq)
  qed
qed

lemma distinct_entries: "distinct (map fst (js_entries v))"
proof -
  have m: "map fst (map2 (\<lambda>i v. (js_nat i, f v)) [0..<length vs] vs) = map js_nat [0..<length vs]" for f :: "'a \<Rightarrow> json" and vs
    by (rule nth_equalityI) auto
  have d: "distinct (map js_nat [0..<n])" for n by (auto simp: distinct_map inj_on_def dest: js_nat_inj)
  show ?thesis using m[of "\<lambda>v. v"] m[of "\<lambda>c. JStr [c]"] d by (cases v) (simp_all add: distinct_clearjunk)
qed

interpretation dc: deep_client "createDeepIdClient net input" di_posts for net :: "'w Net" and input
proof (unfold_locales, goal_cases)
  case (1 pageSize scopes cursor s)
  then show ?case using keepsD_posts[OF posts_users_page] by (simp add: createDeepIdClient_def Let_def)
next
  case (2 url s)
  then show ?case using keepsD_posts[OF posts_metadata] by (simp add: createDeepIdClient_def Let_def)
next
  case (3 scores s e s')
  then show ?case using posts_post[of net "resolveConfig input" scores s "Inl e" s'] by (simp add: createDeepIdClient_def Let_def)
next
  case (4 scores s r s')
  then show ?case using posts_post[of net "resolveConfig input" scores s "Inr r" s'] by (simp add: createDeepIdClient_def Let_def)
next
  case (5 pageSize scopes cursor s page s')
  then show ?case using distinct_entries by (auto simp: createDeepIdClient_def Let_def users_page_def rs_bind_Inr)
qed

end
