(* ===== verification/Deep_Id_Scores.thy ===== *)
theory Deep_Id_Scores
  imports Deep_Id_Client
begin

text \<open>
  The encrypted half of a custom score: which users of DeepID are complete (\<^verbatim>\<open>deep-id-encrypted-cohort.ts\<close>), the pass
  that checks whether their scores are encrypted (\<^verbatim>\<open>deep-id-encryption-readiness.activities.ts\<close>) and the one that
  evaluates and submits them (\<^verbatim>\<open>deep-id-submit-encrypted-scores.activities.ts\<close>).

  An activity takes its client and the SEAL package as arguments; heartbeats, logging and the details of failures are
  left out.  A loop over pages need not end; the passes of one activity are at most four.  \<open>pg_users\<close> lists the users of
  the pages of a pass, which the code does not keep.
\<close>

section \<open>Cohort\<close>

datatype score_error =
    ClientFailure deep_error
  | CohortViolation string
  | EvaluationFailure EncryptedCustomScoreError
  | Fatal string
  | PlainError string
  | CursorExpired nat
  | PendingFound

definition ENCRYPTED_SCORE_SCOPES :: "string list" where
  "ENCRYPTED_SCORE_SCOPES = [''voting_engagement_encr'', ''contribution_score_encr'', ''proposal_engagement_encr'',
     ''token_value_over_time_encr'', ''github_engagement_encr'', ''discord_engagement_encr'', ''mattermost_engagement_encr'']"

datatype EncryptedScoreField = EncryptedScoreReady string | EncryptedScorePending "string option"

text \<open>\<open>es_fields\<close> holds the fields that are present and not \<^verbatim>\<open>null\<close>.\<close>

record DeepIdEncryptedScores =
  es_sealMetadata :: "string option"
  es_fields :: "(string \<times> EncryptedScoreField) list"

definition field_issues :: "string \<Rightarrow> json \<Rightarrow> string list" where
  "field_issues p v =
     (let ciphertext = jfield ''ciphertext'' v
      in if \<not> isRecord v then [p]
         else if jfield ''status'' v = JStr ''encrypted'' then (if jstr ciphertext \<noteq> [] then [] else [dotted p ''ciphertext''])
         else if jfield ''status'' v = JStr ''pending_encryption''
         then (if is_jstr ciphertext \<or> ciphertext = JNull then [] else [dotted p ''ciphertext''])
         else [dotted p ''status''])"

definition field_value :: "json \<Rightarrow> EncryptedScoreField" where
  "field_value v =
     (let ciphertext = jfield ''ciphertext'' v
      in if jfield ''status'' v = JStr ''encrypted'' then EncryptedScoreReady (jstr ciphertext)
         else EncryptedScorePending (case ciphertext of JStr c \<Rightarrow> Some c | _ \<Rightarrow> None))"

definition present_scopes :: "json \<Rightarrow> string list" where
  "present_scopes v = filter (\<lambda>scope. jfield scope v \<notin> {JUndefined, JNull}) ENCRYPTED_SCORE_SCOPES"

definition encryptedScoresSchema :: "json \<Rightarrow> string list \<times> DeepIdEncryptedScores" where
  "encryptedScoresSchema v =
     (let url = jfield ''seal-metadata'' v
      in (if \<not> isRecord v then [''(root)'']
          else (if is_jstr url \<or> url = JNull then [] else [''seal-metadata''])
             @ concat (map (\<lambda>scope. field_issues scope (jfield scope v)) (present_scopes v)),
          \<lparr>es_sealMetadata = (case url of JStr u \<Rightarrow> Some u | _ \<Rightarrow> None),
           es_fields = map (\<lambda>scope. (scope, field_value (jfield scope v))) (present_scopes v)\<rparr>))"

definition parseEncryptedScores :: "json \<Rightarrow> deep_error + DeepIdEncryptedScores option" where
  "parseEncryptedScores v =
     (if v = JUndefined then Inr None
      else map_sum id Some (parseWithContract (encryptedScoresSchema v) ''invalid scores_encr in DeepID user''))"

record SelectedEncryptedChild =
  sel_key :: string
  sel_scope :: string

definition resolveSelectedEncryptedChildren :: "CustomScoreChild list \<Rightarrow> score_error + SelectedEncryptedChild list" where
  "resolveSelectedEncryptedChildren children =
     map_result (\<lambda>child.
        let scope = cs_key child @ ''_encr''
        in if scope \<notin> set ENCRYPTED_SCORE_SCOPES
           then Inl (CohortViolation (''Child algorithm '' @ quoted (cs_key child) @ '' has no DeepID encrypted score scope''))
           else Inr \<lparr>sel_key = cs_key child, sel_scope = scope\<rparr>) children"

datatype EncryptedUserClassification =
    UserIncomplete
  | UserPotentiallyComplete
  | UserComplete string "(string \<times> string) list"

text \<open>The loop over the selected children; \<^const>\<open>None\<close> is its early return.\<close>

fun classify_fields ::
  "(string \<times> EncryptedScoreField) list \<Rightarrow> SelectedEncryptedChild list \<Rightarrow> nat \<Rightarrow> (string \<times> string) list \<Rightarrow> (nat \<times> (string \<times> string) list) option" where
  "classify_fields fs [] pending ciphertexts = Some (pending, ciphertexts)"
| "classify_fields fs (child # children) pending ciphertexts =
     (case map_of fs (sel_scope child) of
        None \<Rightarrow> None
      | Some (EncryptedScorePending _) \<Rightarrow> classify_fields fs children (pending + 1) ciphertexts
      | Some (EncryptedScoreReady c) \<Rightarrow> classify_fields fs children pending (AList.update (sel_key child) c ciphertexts))"

definition classifyEncryptedUser ::
  "string \<Rightarrow> json \<Rightarrow> SelectedEncryptedChild list \<Rightarrow> score_error + EncryptedUserClassification" where
  "classifyEncryptedUser did scoresEncrValue selectedChildren =
     (case parseEncryptedScores scoresEncrValue of
        Inl e \<Rightarrow> Inl (CohortViolation (''DeepID user '' @ quoted did @ '' has malformed scores_encr: '' @ deep_message e))
      | Inr None \<Rightarrow> Inr UserIncomplete
      | Inr (Some scoresEncr) \<Rightarrow>
          (case classify_fields (es_fields scoresEncr) selectedChildren 0 [] of
             None \<Rightarrow> Inr UserIncomplete
           | Some (pending, ciphertexts) \<Rightarrow>
               if 0 < pending then Inr UserPotentiallyComplete
               else
                 (case es_sealMetadata scoresEncr of
                    None \<Rightarrow> Inl (CohortViolation (''DeepID user '' @ quoted did @ '' has every selected child encrypted but no seal-metadata reference''))
                  | Some metadataUrl \<Rightarrow> Inr (UserComplete metadataUrl ciphertexts))))"

text \<open>\<^verbatim>\<open>user.scores_encr\<close> of an entry of a page.\<close>

definition scores_encr :: "json \<Rightarrow> score_error + json" where
  "scores_encr user =
     (if user \<in> {JUndefined, JNull} then Inl (PlainError ''Cannot read properties of null'') else Inr (jfield ''scores_encr'' user))"

definition classify_user :: "SelectedEncryptedChild list \<Rightarrow> string \<times> json \<Rightarrow> score_error + EncryptedUserClassification" where
  "classify_user selectedChildren = (\<lambda>(did, user).
     case scores_encr user of Inl e \<Rightarrow> Inl e | Inr v \<Rightarrow> classifyEncryptedUser did v selectedChildren)"

definition fatal_cohort :: "score_error + 'a \<Rightarrow> score_error + 'a" where
  "fatal_cohort r = (case r of Inl (CohortViolation m) \<Rightarrow> Inl (Fatal m) | _ \<Rightarrow> r)"

definition scope_text :: "SelectedEncryptedChild list \<Rightarrow> string" where
  "scope_text selected = js_join (CHR '' '') (''api'' # map sel_scope selected)"

definition CURSOR_RESTART_LIMIT :: nat where "CURSOR_RESTART_LIMIT = 3"

definition cursor_expired :: "nat \<Rightarrow> deep_error \<Rightarrow> score_error" where
  "cursor_expired pages e = (case e of HttpErr statusCode _ _ \<Rightarrow> if statusCode = 400 \<and> 0 < pages then CursorExpired pages else ClientFailure e | _ \<Rightarrow> ClientFailure e)"

section \<open>Readiness\<close>

record EncryptionReadinessPass =
  rp_complete :: nat
  rp_potentiallyComplete :: nat
  rp_incomplete :: nat
  rp_scannedUsers :: nat
  rp_pages :: nat

record 's readiness =
  rd_client :: 's
  rd_pass :: EncryptionReadinessPass
  rd_lastRequestId :: "string option"

type_synonym ('s, 'a) check = "('s readiness, score_error, 'a) rs"

definition empty_readiness :: EncryptionReadinessPass where
  "empty_readiness = \<lparr>rp_complete = 0, rp_potentiallyComplete = 0, rp_incomplete = 0, rp_scannedUsers = 0, rp_pages = 0\<rparr>"

fun add_class :: "EncryptedUserClassification \<Rightarrow> EncryptionReadinessPass \<Rightarrow> EncryptionReadinessPass" where
  "add_class UserIncomplete p = p\<lparr>rp_incomplete := rp_incomplete p + 1\<rparr>"
| "add_class UserPotentiallyComplete p = p\<lparr>rp_potentiallyComplete := rp_potentiallyComplete p + 1\<rparr>"
| "add_class (UserComplete _ _) p = p\<lparr>rp_complete := rp_complete p + 1\<rparr>"

fun scan_page :: "SelectedEncryptedChild list \<Rightarrow> (string \<times> json) list \<Rightarrow> ('s, unit) check" where
  "scan_page selected [] = rs_ret ()"
| "scan_page selected (entry # entries) =
     rs_bind (rs_lift (classify_user selected entry)) (\<lambda>c.
     rs_bind (rs_modify (\<lambda>s. s\<lparr>rd_pass := (add_class c (rd_pass s))\<lparr>rp_scannedUsers := rp_scannedUsers (rd_pass s) + 1\<rparr>\<rparr>)) (\<lambda>_.
       scan_page selected entries))"

definition readiness_page :: "'s DeepIdClient \<Rightarrow> string \<Rightarrow> string option \<Rightarrow> ('s, UsersPage) check" where
  "readiness_page client tokenScopes cursor s =
     (case cl_usersPage client (Some 100) tokenScopes cursor (rd_client s) of
        (Inl e, c) \<Rightarrow> (Inl (cursor_expired (rp_pages (rd_pass s)) e), s\<lparr>rd_client := c\<rparr>)
      | (Inr page, c) \<Rightarrow> (Inr page, s\<lparr>rd_client := c\<rparr>))"

definition scan_body :: "SelectedEncryptedChild list \<Rightarrow> UsersPage \<Rightarrow> ('s, unit) check" where
  "scan_body selected page =
     rs_bind (rs_modify (\<lambda>s. s\<lparr>rd_pass := (rd_pass s)\<lparr>rp_pages := rp_pages (rd_pass s) + 1\<rparr>,
        rd_lastRequestId := (case up_requestId page of Some i \<Rightarrow> Some i | None \<Rightarrow> rd_lastRequestId s)\<rparr>)) (\<lambda>_.
       scan_page selected (up_users page))"

definition scanUsers :: "'s DeepIdClient \<Rightarrow> SelectedEncryptedChild list \<Rightarrow> string \<Rightarrow> 's readiness \<Rightarrow> ((score_error + unit) \<times> 's readiness) option" where
  "scanUsers client selected tokenScopes s =
     iterateUsers (readiness_page client tokenScopes) (scan_body selected) None (s\<lparr>rd_pass := empty_readiness\<rparr>)"

definition http_failure_of :: "string \<Rightarrow> string \<Rightarrow> deep_error \<Rightarrow> score_error" where
  "http_failure_of authMessage rejectMessage e =
     (case e of
        HttpErr statusCode _ _ \<Rightarrow>
          if statusCode = 401 then Fatal authMessage
          else if 400 \<le> statusCode \<and> statusCode < 500 \<and> statusCode \<noteq> 429 then Fatal (rejectMessage @ js_nat statusCode)
          else ClientFailure e
      | _ \<Rightarrow> ClientFailure e)"

definition toReadinessFailure :: "score_error \<Rightarrow> score_error" where
  "toReadinessFailure e =
     (case e of
        CohortViolation m \<Rightarrow> Fatal m
      | ClientFailure (ContractError m issues) \<Rightarrow> Fatal (''DeepID readiness response broke the contract: '' @ m)
      | ClientFailure err \<Rightarrow> http_failure_of ''DeepID authentication failed during the encryption readiness poll''
          ''DeepID rejected the encryption readiness read: HTTP '' err
      | _ \<Rightarrow> e)"

record CheckEncryptionReadiness =
  ck_ready :: bool
  ck_pass :: EncryptionReadinessPass
  ck_cursorRestarts :: nat
  ck_lastRequestId :: "string option"

definition expired_message :: "string \<Rightarrow> string" where
  "expired_message pass = ''DeepID users cursor expired on '' @ js_nat (CURSOR_RESTART_LIMIT + 1) @ '' consecutive passes: a full ''
     @ pass @ '' pass cannot finish within the cursor lifetime''"

text \<open>The loop over the restarts; \<open>left\<close> of them remain.\<close>

fun readiness_passes ::
  "'s DeepIdClient \<Rightarrow> SelectedEncryptedChild list \<Rightarrow> string \<Rightarrow> nat \<Rightarrow> nat \<Rightarrow> 's readiness \<Rightarrow> ((score_error + CheckEncryptionReadiness) \<times> 's readiness) option" where
  "readiness_passes client selected tokenScopes cursorRestarts left s =
     (case scanUsers client selected tokenScopes s of
        None \<Rightarrow> None
      | Some (Inr _, s') \<Rightarrow>
          Some (Inr \<lparr>ck_ready = (rp_potentiallyComplete (rd_pass s') = 0), ck_pass = rd_pass s', ck_cursorRestarts = cursorRestarts,
                     ck_lastRequestId = rd_lastRequestId s'\<rparr>, s')
      | Some (Inl (CursorExpired _), s') \<Rightarrow>
          (case left of
             0 \<Rightarrow> Some (Inl (Fatal (expired_message ''readiness'')), s')
           | Suc left' \<Rightarrow> readiness_passes client selected tokenScopes (cursorRestarts + 1) left' s')
      | Some (Inl e, s') \<Rightarrow> Some (Inl (toReadinessFailure e), s'))"

definition check_encryption_readiness ::
  "(string \<Rightarrow> 's DeepIdClient) \<Rightarrow> AlgorithmPresetInput list \<Rightarrow> 's \<Rightarrow> ((score_error + CheckEncryptionReadiness) \<times> 's readiness) option" where
  "check_encryption_readiness clientOf inputs c =
     (let s = \<lparr>rd_client = c, rd_pass = empty_readiness, rd_lastRequestId = None\<rparr>
      in case parseCustomScoreChildren inputs of
           Inl m \<Rightarrow> Some (Inl (PlainError m), s)
         | Inr children \<Rightarrow>
             (case fatal_cohort (resolveSelectedEncryptedChildren children) of
                Inl e \<Rightarrow> Some (Inl e, s)
              | Inr selected \<Rightarrow>
                  (let tokenScopes = scope_text selected
                   in readiness_passes (clientOf tokenScopes) selected tokenScopes 0 CURSOR_RESTART_LIMIT s)))"

section \<open>Submission\<close>

fun collect_observations ::
  "(string \<times> NormalizationObservation) list \<Rightarrow> (string \<times> NormalizationObservation) list \<Rightarrow> score_error + (string \<times> NormalizationObservation) list" where
  "collect_observations [] byScoreType = Inr byScoreType"
| "collect_observations ((scoreType, observation) # rest) byScoreType =
     (if map_of byScoreType scoreType \<noteq> None then Inl (Fatal (''Duplicate normalization observation for child '' @ quoted scoreType))
      else collect_observations rest (byScoreType @ [(scoreType, observation)]))"

definition resolveObservations ::
  "SelectedEncryptedChild list \<Rightarrow> (string \<times> NormalizationObservation) list \<Rightarrow> score_error + (string \<times> NormalizationObservation) list" where
  "resolveObservations selected observations =
     (case collect_observations observations [] of
        Inl e \<Rightarrow> Inl e
      | Inr byScoreType \<Rightarrow>
          (case find (\<lambda>child. map_of byScoreType (sel_key child) = None) selected of
             Some child \<Rightarrow> Inl (Fatal (''Child algorithm '' @ quoted (sel_key child) @ '' has no normalization observation from the raw submission''))
           | None \<Rightarrow> Inr byScoreType))"

record ProcessingPassState =
  pg_complete :: nat
  pg_incomplete :: nat
  pg_scannedUsers :: nat
  pg_pages :: nat
  pg_submitted :: nat
  pg_batches :: nat
  pg_users :: "(string \<times> json) list"

definition empty_pass :: ProcessingPassState where
  "empty_pass = \<lparr>pg_complete = 0, pg_incomplete = 0, pg_scannedUsers = 0, pg_pages = 0, pg_submitted = 0, pg_batches = 0, pg_users = []\<rparr>"

record ('s, 'e, 'k, 'l, 'c, 'p) ProcessingContext =
  cx_client :: "'s DeepIdClient"
  cx_seal :: "('e, 'k, 'l, 'c, 'p) Seal"
  cx_plan :: EncryptedEvaluationPlan
  cx_selectedChildren :: "SelectedEncryptedChild list"
  cx_readScopes :: string
  cx_timestamp :: string

record ('s, 'k) processing =
  pc_client :: 's
  pc_evaluator :: "'k evaluator"
  pc_metadataByUrl :: "(string \<times> SealMetadata) list"
  pc_lastRequestId :: "string option"
  pc_pass :: ProcessingPassState

type_synonym ('s, 'k, 'a) proc = "(('s, 'k) processing, score_error, 'a) rs"

definition on_client :: "('s, deep_error, 'a) rs \<Rightarrow> ('s, 'k, 'a) proc" where
  "on_client m s = (case m (pc_client s) of (r, c) \<Rightarrow> (map_sum ClientFailure id r, s\<lparr>pc_client := c\<rparr>))"

definition evaluation_error :: "eval_error \<Rightarrow> score_error" where
  "evaluation_error e = (case e of Typed err \<Rightarrow> EvaluationFailure err | SealFailure m \<Rightarrow> PlainError m)"

definition on_evaluator :: "('k, 'a) ev \<Rightarrow> ('s, 'k, 'a) proc" where
  "on_evaluator m s = (case m (pc_evaluator s) of (r, e) \<Rightarrow> (map_sum evaluation_error id r, s\<lparr>pc_evaluator := e\<rparr>))"

definition on_pass :: "(ProcessingPassState \<Rightarrow> ProcessingPassState) \<Rightarrow> ('s, 'k, unit) proc" where
  "on_pass f = rs_modify (\<lambda>s. s\<lparr>pc_pass := f (pc_pass s)\<rparr>)"

definition keep_requestId :: "string option \<Rightarrow> ('s, 'k, unit) proc" where
  "keep_requestId i = rs_modify (\<lambda>s. s\<lparr>pc_lastRequestId := (case i of Some _ \<Rightarrow> i | None \<Rightarrow> pc_lastRequestId s)\<rparr>)"

definition resolveUserKeyId :: "('s, 'e, 'k, 'l, 'c, 'p) ProcessingContext \<Rightarrow> string \<Rightarrow> ('s, 'k, string) proc" where
  "resolveUserKeyId ctx metadataUrl =
     rs_bind (rs_get (\<lambda>s. map_of (pc_metadataByUrl s) metadataUrl)) (\<lambda>cached.
       case cached of
         Some metadata \<Rightarrow> rs_ret (sm_id metadata)
       | None \<Rightarrow>
           rs_bind (on_client (cl_getSealMetadata (cx_client ctx) metadataUrl)) (\<lambda>metadata.
           rs_bind (on_evaluator (registerSealMetadata (cx_seal ctx) (cx_plan ctx) metadata)) (\<lambda>_.
           rs_bind (rs_modify (\<lambda>s. s\<lparr>pc_metadataByUrl := pc_metadataByUrl s @ [(metadataUrl, metadata)]\<rparr>)) (\<lambda>_.
             rs_ret (sm_id metadata)))))"

function chunks :: "nat \<Rightarrow> 'a list \<Rightarrow> 'a list list" where
  "chunks n items = (if items = [] \<or> n = 0 then [] else take n items # chunks n (drop n items))"
  by pat_completeness auto
termination by (relation "measure (\<lambda>(n, items). length items)") auto

declare chunks.simps [simp del]

definition ENCRYPTED_POST_CHUNK_SIZE :: nat where "ENCRYPTED_POST_CHUNK_SIZE = 25"

definition encrypted_entry :: "string \<Rightarrow> EncryptedCustomScoreResult \<Rightarrow> string \<times> ScoreEntry" where
  "encrypted_entry timestamp result = (er_did result, EncryptedScoreEntry (er_ciphertext result) (er_keyId result) timestamp)"

text \<open>\<^verbatim>\<open>Object.fromEntries\<close>.\<close>

definition from_entries :: "('k \<times> 'v) list \<Rightarrow> ('k \<times> 'v) list" where
  "from_entries entries = fold (\<lambda>(k, v). AList.update k v) entries []"

fun check_batch :: "(string \<times> string) list \<Rightarrow> EncryptedCustomScoreResult list \<Rightarrow> ('s, 'k, unit) proc" where
  "check_batch results [] = rs_ret ()"
| "check_batch results (result # rest) =
     (let m = map_of results (er_did result)
      in if m = Some ''OK'' then check_batch results rest
         else rs_throw (Fatal (''DeepID rejected the final custom_score_encr entry for a complete user: ''
                @ or_default m ''no per-user result returned'')))"

definition post_batch :: "('s, 'e, 'k, 'l, 'c, 'p) ProcessingContext \<Rightarrow> EncryptedCustomScoreResult list \<Rightarrow> ('s, 'k, unit) proc" where
  "post_batch ctx batch =
     rs_bind (on_client (cl_postScores (cx_client ctx) (from_entries (map (encrypted_entry (cx_timestamp ctx)) batch)))) (\<lambda>response.
     rs_bind (keep_requestId (pr_requestId response)) (\<lambda>_.
     rs_bind (check_batch (pr_results response) batch) (\<lambda>_.
       on_pass (\<lambda>p. p\<lparr>pg_submitted := pg_submitted p + length batch, pg_batches := pg_batches p + 1\<rparr>))))"

fun post_batches :: "('s, 'e, 'k, 'l, 'c, 'p) ProcessingContext \<Rightarrow> EncryptedCustomScoreResult list list \<Rightarrow> ('s, 'k, unit) proc" where
  "post_batches ctx [] = rs_ret ()"
| "post_batches ctx (batch # batches) = rs_bind (post_batch ctx batch) (\<lambda>_. post_batches ctx batches)"

definition submitPage :: "('s, 'e, 'k, 'l, 'c, 'p) ProcessingContext \<Rightarrow> EncryptedCustomScoreUser list \<Rightarrow> ('s, 'k, unit) proc" where
  "submitPage ctx pageUsers =
     rs_bind (on_evaluator (evaluateBatch (cx_seal ctx) (cx_plan ctx) pageUsers)) (\<lambda>results.
       post_batches ctx (chunks ENCRYPTED_POST_CHUNK_SIZE results))"

fun classify_page :: "('s, 'e, 'k, 'l, 'c, 'p) ProcessingContext \<Rightarrow> (string \<times> json) list \<Rightarrow> ('s, 'k, EncryptedCustomScoreUser list) proc" where
  "classify_page ctx [] = rs_ret []"
| "classify_page ctx (entry # entries) =
     rs_bind (on_pass (\<lambda>p. p\<lparr>pg_scannedUsers := pg_scannedUsers p + 1, pg_users := pg_users p @ [entry]\<rparr>)) (\<lambda>_.
     rs_bind (rs_lift (classify_user (cx_selectedChildren ctx) entry)) (\<lambda>classification.
       case classification of
         UserIncomplete \<Rightarrow>
           rs_bind (on_pass (\<lambda>p. p\<lparr>pg_incomplete := pg_incomplete p + 1\<rparr>)) (\<lambda>_. classify_page ctx entries)
       | UserPotentiallyComplete \<Rightarrow> rs_throw PendingFound
       | UserComplete metadataUrl ciphertexts \<Rightarrow>
           rs_bind (on_pass (\<lambda>p. p\<lparr>pg_complete := pg_complete p + 1\<rparr>)) (\<lambda>_.
           rs_bind (resolveUserKeyId ctx metadataUrl) (\<lambda>keyId.
           rs_bind (classify_page ctx entries) (\<lambda>users.
             rs_ret (\<lparr>eu_did = fst entry, eu_keyId = keyId, eu_ciphertexts = ciphertexts\<rparr> # users))))))"

definition processing_page :: "('s, 'e, 'k, 'l, 'c, 'p) ProcessingContext \<Rightarrow> string option \<Rightarrow> ('s, 'k, UsersPage) proc" where
  "processing_page ctx cursor s =
     (case cl_usersPage (cx_client ctx) (Some 100) (cx_readScopes ctx) cursor (pc_client s) of
        (Inl e, c) \<Rightarrow> (Inl (cursor_expired (pg_pages (pc_pass s)) e), s\<lparr>pc_client := c\<rparr>)
      | (Inr page, c) \<Rightarrow> (Inr page, s\<lparr>pc_client := c\<rparr>))"

definition processing_body :: "('s, 'e, 'k, 'l, 'c, 'p) ProcessingContext \<Rightarrow> UsersPage \<Rightarrow> ('s, 'k, unit) proc" where
  "processing_body ctx page =
     rs_bind (on_pass (\<lambda>p. p\<lparr>pg_pages := pg_pages p + 1\<rparr>)) (\<lambda>_.
     rs_bind (keep_requestId (up_requestId page)) (\<lambda>_.
     rs_bind (classify_page ctx (up_users page)) (\<lambda>pageUsers.
       if pageUsers = [] then rs_ret () else submitPage ctx pageUsers)))"

definition runProcessingPass :: "('s, 'e, 'k, 'l, 'c, 'p) ProcessingContext \<Rightarrow> ('s, 'k) processing \<Rightarrow> ((score_error + unit) \<times> ('s, 'k) processing) option" where
  "runProcessingPass ctx s = iterateUsers (processing_page ctx) (processing_body ctx) None (s\<lparr>pc_pass := empty_pass\<rparr>)"

definition toSubmissionFailure :: "score_error \<Rightarrow> score_error" where
  "toSubmissionFailure e =
     (case e of
        CohortViolation m \<Rightarrow> Fatal m
      | EvaluationFailure (EncryptedError _ m) \<Rightarrow> Fatal (''Encrypted custom_score evaluation failed: '' @ m)
      | ClientFailure (ContractError m _) \<Rightarrow> Fatal (''DeepID encrypted submission response broke the contract: '' @ m)
      | ClientFailure err \<Rightarrow> http_failure_of ''DeepID authentication failed during the encrypted submission pass''
          ''DeepID rejected an encrypted submission request: HTTP '' err
      | _ \<Rightarrow> e)"

record EncryptedSubmissionDiagnostics =
  sd_complete :: nat
  sd_incomplete :: nat
  sd_scannedUsers :: nat
  sd_pages :: nat
  sd_cursorRestarts :: nat
  sd_lastRequestId :: "string option"

datatype SubmitCustomEncryptedScoresResult =
    EncryptedScoresSubmitted EncryptedSubmissionDiagnostics nat nat nat
  | EncryptedScoresPending EncryptedSubmissionDiagnostics

definition diagnostics_of :: "nat \<Rightarrow> ('s, 'k) processing \<Rightarrow> EncryptedSubmissionDiagnostics" where
  "diagnostics_of cursorRestarts s =
     \<lparr>sd_complete = pg_complete (pc_pass s), sd_incomplete = pg_incomplete (pc_pass s), sd_scannedUsers = pg_scannedUsers (pc_pass s),
      sd_pages = pg_pages (pc_pass s), sd_cursorRestarts = cursorRestarts, sd_lastRequestId = pc_lastRequestId s\<rparr>"

fun submission_passes ::
  "('s, 'e, 'k, 'l, 'c, 'p) ProcessingContext \<Rightarrow> nat \<Rightarrow> nat \<Rightarrow> ('s, 'k) processing
    \<Rightarrow> ((score_error + SubmitCustomEncryptedScoresResult) \<times> ('s, 'k) processing) option" where
  "submission_passes ctx cursorRestarts left s =
     (case runProcessingPass ctx s of
        None \<Rightarrow> None
      | Some (Inr _, s') \<Rightarrow>
          Some (Inr (EncryptedScoresSubmitted (diagnostics_of cursorRestarts s') (pg_submitted (pc_pass s')) (pg_batches (pc_pass s'))
                 (fst (stats (pc_evaluator s')))), s')
      | Some (Inl PendingFound, s') \<Rightarrow> Some (Inr (EncryptedScoresPending (diagnostics_of cursorRestarts s')), s')
      | Some (Inl (CursorExpired _), s') \<Rightarrow>
          (case left of
             0 \<Rightarrow> Some (Inl (Fatal (expired_message ''processing'')), s')
           | Suc left' \<Rightarrow> submission_passes ctx (cursorRestarts + 1) left' s')
      | Some (Inl e, s') \<Rightarrow> Some (Inl (toSubmissionFailure e), s'))"

record EncryptedSubmissionInput =
  ei_key :: string
  ei_version :: string
  ei_inputs :: "AlgorithmPresetInput list"
  ei_observations :: "(string \<times> NormalizationObservation) list"
  ei_timestamp :: string

text \<open>What the activity reads from its input before it contacts anyone.\<close>

definition submission_context ::
  "('e, 'k, 'l, 'c, 'p) Seal \<Rightarrow> (string \<Rightarrow> string \<Rightarrow> string + ScoreDefinition) \<Rightarrow> (string \<Rightarrow> 's DeepIdClient) \<Rightarrow> EncryptedSubmissionInput
    \<Rightarrow> score_error + ('s, 'e, 'k, 'l, 'c, 'p) ProcessingContext" where
  "submission_context seal definitions clientOf input =
     (case definitions (ei_key input) (ei_version input) of
        Inl m \<Rightarrow> Inl (PlainError m)
      | Inr d \<Rightarrow>
          if \<not> sd_combined d then Inl (Fatal (''submitCustomEncryptedScores supports only combined snapshots, got '' @ quoted (sd_key d)))
          else
            (case parseCustomScoreChildren (ei_inputs input) of
               Inl m \<Rightarrow> Inl (PlainError m)
             | Inr children \<Rightarrow>
                 (case fatal_cohort (resolveSelectedEncryptedChildren children) of
                    Inl e \<Rightarrow> Inl e
                  | Inr selected \<Rightarrow>
                      (case resolveObservations selected (ei_observations input) of
                         Inl e \<Rightarrow> Inl e
                       | Inr byChild \<Rightarrow>
                           (case createEncryptedCustomScoreEvaluator (or_default (sd_normalization d) OBSERVED_MIN_MAX)
                                   (map (\<lambda>child. \<lparr>ec_key = cs_key child, ec_weight = cs_weight child,
                                                  ec_observation = the (map_of byChild (cs_key child))\<rparr>) children) of
                              Inl e \<Rightarrow> Inl (toSubmissionFailure (EvaluationFailure e))
                            | Inr (plan, _ :: 'k evaluator) \<Rightarrow>
                                Inr \<lparr>cx_client = clientOf (scope_text selected @ '' post_scores''), cx_seal = seal, cx_plan = plan,
                                     cx_selectedChildren = selected, cx_readScopes = scope_text selected, cx_timestamp = ei_timestamp input\<rparr>)))))"

definition submit_custom_encrypted_scores ::
  "('e, 'k, 'l, 'c, 'p) Seal \<Rightarrow> (string \<Rightarrow> string \<Rightarrow> string + ScoreDefinition) \<Rightarrow> (string \<Rightarrow> 's DeepIdClient) \<Rightarrow> EncryptedSubmissionInput \<Rightarrow> 's
    \<Rightarrow> ((score_error + SubmitCustomEncryptedScoresResult) \<times> ('s, 'k) processing) option" where
  "submit_custom_encrypted_scores seal definitions clientOf input c =
     (let s = \<lparr>pc_client = c, pc_evaluator = new_evaluator, pc_metadataByUrl = [], pc_lastRequestId = None, pc_pass = empty_pass\<rparr>
      in case submission_context seal definitions clientOf input of
           Inl e \<Rightarrow> Some (Inl e, s)
         | Inr ctx \<Rightarrow>
             map_option (\<lambda>(r, s'). (r, s'\<lparr>pc_evaluator := dispose (pc_evaluator s')\<rparr>)) (submission_passes ctx 0 CURSOR_RESTART_LIMIT s))"

section \<open>What a finished pass did\<close>

lemma on_client_Inr: "on_client m s = (Inr x, s') \<longleftrightarrow> (\<exists>c. m (pc_client s) = (Inr x, c) \<and> s' = s\<lparr>pc_client := c\<rparr>)"
  by (auto simp: on_client_def split: prod.splits) (case_tac x1; simp)+

lemma on_evaluator_Inr: "on_evaluator m s = (Inr x, s') \<longleftrightarrow> (\<exists>e. m (pc_evaluator s) = (Inr x, e) \<and> s' = s\<lparr>pc_evaluator := e\<rparr>)"
  by (auto simp: on_evaluator_def split: prod.splits) (case_tac x1; simp)+

lemma on_pass_Inr [simp]: "on_pass f s = (Inr x, s') \<longleftrightarrow> s' = s\<lparr>pc_pass := f (pc_pass s)\<rparr>"
  by (auto simp: on_pass_def rs_modify_def)

lemma rs_modify_Inr [simp]: "rs_modify f s = (Inr x, s') \<longleftrightarrow> s' = f s"
  by (auto simp: rs_modify_def)

lemma rs_lift_Inr [simp]: "rs_lift r s = (Inr x, s') \<longleftrightarrow> r = Inr x \<and> s' = s"
  by (auto simp: rs_lift_def)

lemma rs_get_Inr [simp]: "rs_get f s = (Inr x, s') \<longleftrightarrow> x = f s \<and> s' = s"
  by (auto simp: rs_get_def)

lemmas proc_Inr = rs_bind_Inr on_client_Inr on_evaluator_Inr keep_requestId_def

lemma concat_chunks: "n \<noteq> 0 \<Longrightarrow> concat (chunks n items) = items"
  by (induction n items rule: chunks.induct) (simp add: chunks.simps[of n items for n items])

lemma from_entries_map: "map_of (fold (\<lambda>(k, v). AList.update k v) es m) = map_of m ++ map_of (rev es)"
  by (induction es arbitrary: m) (auto simp: update_conv' fun_eq_iff map_add_def split: option.splits)

lemma from_entries_lookup:
  assumes "distinct (map fst es)" "(k, v) \<in> set es"
  shows "map_of (from_entries es) k = Some v"
proof -
  have "map_of (rev es) k = Some v" using assms by (intro map_of_is_SomeI) (simp_all add: rev_map[symmetric])
  then show ?thesis by (simp add: from_entries_def from_entries_map map_add_def)
qed

lemma evaluateUser_ids:
  assumes "evaluateUser seal plan user e = (Inr result, e')"
  shows "er_did result = eu_did user" "er_keyId result = eu_keyId user"
proof -
  have q: "er_did result = eu_did user \<and> er_keyId result = eu_keyId user" if "evaluate_ciphertexts seal key plan user s = (Inr result, s')" for key s s'
    using that unfolding evaluate_ciphertexts_def by (auto simp: rs_bind_Inr split: if_splits)
  obtain v s where v: "validateCiphertextSet plan user (ev_seal e) = (v, s)" by (cases "validateCiphertextSet plan user (ev_seal e)")
  obtain key handles where key: "map_of (ev_keys e) (eu_keyId user) = Some (key, handles)" "\<not> ev_disposed e"
    using assms by (auto simp: evaluateUser_def rs_bind_def ensureUsable_def split: if_splits option.splits)
  obtain r s' where r: "evaluate_ciphertexts seal key plan user s = (r, s')" by (cases "evaluate_ciphertexts seal key plan user s")
  have "map_sum (wrap_failure user) id r = Inr result"
    using assms key by (auto simp: evaluateUser_def rs_bind_def ensureUsable_def v r split: if_splits sum.splits)
  then have "r = Inr result" by (cases r) simp_all
  then show "er_did result = eu_did user" "er_keyId result = eu_keyId user" using q r by blast+
qed

text \<open>A result that was accepted under a timestamp in one of the posts \<open>ps\<close>; a user with such a result.\<close>

definition accepted_result :: "string \<Rightarrow> (PostScoresRequest \<times> (string \<times> string) list) list \<Rightarrow> EncryptedCustomScoreResult \<Rightarrow> bool" where
  "accepted_result timestamp ps r \<longleftrightarrow>
     (\<exists>request results. (request, results) \<in> set ps \<and> map_of request (er_did r) = Some (EncryptedScoreEntry (er_ciphertext r) (er_keyId r) timestamp)
        \<and> map_of results (er_did r) = Some ''OK'')"

definition accepted_user ::
  "('e, 'k, 'l, 'c, 'p) Seal \<Rightarrow> EncryptedEvaluationPlan \<Rightarrow> string \<Rightarrow> (PostScoresRequest \<times> (string \<times> string) list) list \<Rightarrow> EncryptedCustomScoreUser \<Rightarrow> bool" where
  "accepted_user seal plan timestamp ps user \<longleftrightarrow>
     (\<exists>e e' result. evaluateUser seal plan user e = (Inr result, e') \<and> accepted_result timestamp ps result)"

lemma accepted_mono: "accepted_user seal plan ts ps user \<Longrightarrow> set ps \<subseteq> set ps' \<Longrightarrow> accepted_user seal plan ts ps' user"
  unfolding accepted_user_def accepted_result_def by blast

lemma evaluate_all_Inr:
  "evaluate_all seal plan users e = (Inr results, e') \<Longrightarrow>
   list_all2 (\<lambda>user result. \<exists>e e'. evaluateUser seal plan user e = (Inr result, e')) users results"
  by (induction users arbitrary: e results) (auto simp: rs_bind_Inr)

lemma evaluateBatch_Inr:
  "evaluateBatch seal plan users e = (Inr results, e') \<Longrightarrow>
   list_all2 (\<lambda>user result. \<exists>e e'. evaluateUser seal plan user e = (Inr result, e')) users results"
  by (auto simp: evaluateBatch_def rs_bind_Inr rs_throw_def split: if_splits dest: evaluate_all_Inr)

lemma check_batch_Inr:
  "check_batch results batch s = (Inr u, s') \<Longrightarrow> s' = s \<and> list_all (\<lambda>r. map_of results (er_did r) = Some ''OK'') batch"
  by (induction batch) (auto simp: Let_def rs_throw_def split: if_splits)

text \<open>What the code between two posts leaves alone.\<close>

definition same_run :: "('s, 'k) processing \<Rightarrow> ('s, 'k) processing \<Rightarrow> bool" where
  "same_run s s' \<longleftrightarrow> pc_evaluator s' = pc_evaluator s \<and> pc_metadataByUrl s' = pc_metadataByUrl s
     \<and> pg_users (pc_pass s') = pg_users (pc_pass s) \<and> pg_complete (pc_pass s') = pg_complete (pc_pass s)
     \<and> pg_incomplete (pc_pass s') = pg_incomplete (pc_pass s) \<and> pg_scannedUsers (pc_pass s') = pg_scannedUsers (pc_pass s)"

context deep_client
begin

lemma post_batch_Inr:
  assumes "cx_client ctx = client" "post_batch ctx batch s = (Inr u, s')" "distinct (map er_did batch)"
  shows "same_run s s' \<and> pg_submitted (pc_pass s') = pg_submitted (pc_pass s) + length batch
    \<and> (\<exists>p. posts (pc_client s') = posts (pc_client s) @ [p] \<and> list_all (accepted_result (cx_timestamp ctx) [p]) batch)"
proof -
  let ?req = "from_entries (map (encrypted_entry (cx_timestamp ctx)) batch)"
  obtain response c where c: "cl_postScores client ?req (pc_client s) = (Inr response, c)"
    and ok: "list_all (\<lambda>r. map_of (pr_results response) (er_did r) = Some ''OK'') batch"
    and s': "pc_client s' = c" "same_run s s'" "pg_submitted (pc_pass s') = pg_submitted (pc_pass s) + length batch"
    using assms(1,2) unfolding post_batch_def same_run_def by (auto simp: proc_Inr dest!: check_batch_Inr)
  have "distinct (map fst (map (encrypted_entry (cx_timestamp ctx)) batch))" using assms(3) by (simp add: encrypted_entry_def comp_def)
  then have "map_of ?req (er_did r) = Some (EncryptedScoreEntry (er_ciphertext r) (er_keyId r) (cx_timestamp ctx))" if "r \<in> set batch" for r
    using that by (intro from_entries_lookup) (auto simp: encrypted_entry_def image_iff intro!: bexI[of _ r])
  then have "list_all (accepted_result (cx_timestamp ctx) [(?req, pr_results response)]) batch"
    using ok by (auto simp: list_all_iff accepted_result_def)
  then show ?thesis using post_logs[OF c] s' by blast
qed

lemma post_batches_Inr:
  assumes "cx_client ctx = client" "post_batches ctx batches s = (Inr u, s')" "distinct (map er_did (concat batches))"
  shows "same_run s s' \<and> pg_submitted (pc_pass s') = pg_submitted (pc_pass s) + length (concat batches)
    \<and> (\<exists>ps. posts (pc_client s') = posts (pc_client s) @ ps \<and> list_all (accepted_result (cx_timestamp ctx) ps) (concat batches))"
  using assms(2,3)
proof (induction batches arbitrary: s)
  case Nil
  then show ?case by (simp add: same_run_def)
next
  case (Cons batch batches)
  then obtain s1 v where s1: "post_batch ctx batch s = (Inr v, s1)" "post_batches ctx batches s1 = (Inr u, s')" by (auto simp: rs_bind_Inr)
  have d: "distinct (map er_did batch)" "distinct (map er_did (concat batches))" using Cons.prems(2) by simp_all
  obtain p where b: "same_run s s1" "pg_submitted (pc_pass s1) = pg_submitted (pc_pass s) + length batch"
    "posts (pc_client s1) = posts (pc_client s) @ [p]" "list_all (accepted_result (cx_timestamp ctx) [p]) batch"
    using post_batch_Inr[OF assms(1) s1(1) d(1)] by blast
  obtain ps where r: "same_run s1 s'" "pg_submitted (pc_pass s') = pg_submitted (pc_pass s1) + length (concat batches)"
    "posts (pc_client s') = posts (pc_client s1) @ ps" "list_all (accepted_result (cx_timestamp ctx) ps) (concat batches)"
    using Cons.IH[OF s1(2) d(2)] by blast
  have "list_all (accepted_result (cx_timestamp ctx) (p # ps)) (concat (batch # batches))"
    using b(4) r(4) by (auto simp: list_all_iff accepted_result_def) blast+
  then show ?case using b r(1-3) by (intro conjI exI[of _ "p # ps"]) (auto simp: same_run_def)
qed

lemma submitPage_Inr:
  assumes "cx_client ctx = client" "submitPage ctx users s = (Inr u, s')" "distinct (map eu_did users)"
  shows "pc_evaluator s' = snd (evaluateBatch (cx_seal ctx) (cx_plan ctx) users (pc_evaluator s))
    \<and> same_run (s\<lparr>pc_evaluator := pc_evaluator s'\<rparr>) s' \<and> pg_submitted (pc_pass s') = pg_submitted (pc_pass s) + length users
    \<and> (\<exists>ps. posts (pc_client s') = posts (pc_client s) @ ps \<and> list_all (accepted_user (cx_seal ctx) (cx_plan ctx) (cx_timestamp ctx) ps) users)"
proof -
  obtain results e where ev: "evaluateBatch (cx_seal ctx) (cx_plan ctx) users (pc_evaluator s) = (Inr results, e)"
    and post: "post_batches ctx (chunks ENCRYPTED_POST_CHUNK_SIZE results) (s\<lparr>pc_evaluator := e\<rparr>) = (Inr u, s')"
    using assms(2) by (auto simp: submitPage_def proc_Inr)
  note each = evaluateBatch_Inr[OF ev]
  have flat: "concat (chunks ENCRYPTED_POST_CHUNK_SIZE results) = results" by (simp add: concat_chunks ENCRYPTED_POST_CHUNK_SIZE_def)
  have "map er_did results = map eu_did users" using each
    by (induction rule: list_all2_induct) (auto simp: evaluateUser_ids)
  then obtain ps where ps: "same_run (s\<lparr>pc_evaluator := e\<rparr>) s'" "pg_submitted (pc_pass s') = pg_submitted (pc_pass s) + length results"
    "posts (pc_client s') = posts (pc_client s) @ ps" "list_all (accepted_result (cx_timestamp ctx) ps) results"
    using post_batches_Inr[OF assms(1) post] assms(3) unfolding flat by auto
  have "list_all (accepted_user (cx_seal ctx) (cx_plan ctx) (cx_timestamp ctx) ps) users"
    using each ps(4) by (induction rule: list_all2_induct) (auto simp: accepted_user_def)
  then show ?thesis using ps(1-3) ev list_all2_lengthD[OF each] by (auto simp: same_run_def)
qed

end

definition is_complete :: "SelectedEncryptedChild list \<Rightarrow> string \<times> json \<Rightarrow> bool" where
  "is_complete selected entry = (case classify_user selected entry of Inr (UserComplete _ _) \<Rightarrow> True | _ \<Rightarrow> False)"

definition is_incomplete :: "SelectedEncryptedChild list \<Rightarrow> string \<times> json \<Rightarrow> bool" where
  "is_incomplete selected entry = (classify_user selected entry = Inr UserIncomplete)"

text \<open>The user that the evaluator gets for an entry of a page.\<close>

definition page_user :: "SelectedEncryptedChild list \<Rightarrow> (string \<times> SealMetadata) list \<Rightarrow> string \<times> json \<Rightarrow> EncryptedCustomScoreUser \<Rightarrow> bool" where
  "page_user selected md entry user \<longleftrightarrow>
     (\<exists>url ciphertexts m. classify_user selected entry = Inr (UserComplete url ciphertexts) \<and> map_of md url = Some m
        \<and> user = \<lparr>eu_did = fst entry, eu_keyId = sm_id m, eu_ciphertexts = ciphertexts\<rparr>)"

lemma page_user_mono: "page_user selected md entry user \<Longrightarrow> map_of md \<subseteq>\<^sub>m map_of md' \<Longrightarrow> page_user selected md' entry user"
  unfolding page_user_def by (metis map_le_def domI)

lemma map_of_append_new: "map_of md \<subseteq>\<^sub>m map_of (md @ xs)"
  by (auto simp: map_le_def map_add_def split: option.splits)

definition evaluator_ok :: "('s, 'e, 'k, 'l, 'c, 'p) ProcessingContext \<Rightarrow> ('s, 'k) processing \<Rightarrow> bool" where
  "evaluator_ok ctx s \<longleftrightarrow> evaluator_reachable (cx_seal ctx) (cx_plan ctx) (pc_evaluator s)"

context deep_client
begin

lemma resolveUserKeyId_Inr:
  assumes "cx_client ctx = client" "resolveUserKeyId ctx url s = (Inr keyId, s')"
  shows "posts (pc_client s') = posts (pc_client s) \<and> map_of (pc_metadataByUrl s) \<subseteq>\<^sub>m map_of (pc_metadataByUrl s')
    \<and> pc_pass s' = pc_pass s \<and> (\<exists>m. map_of (pc_metadataByUrl s') url = Some m \<and> sm_id m = keyId) \<and> (evaluator_ok ctx s \<longrightarrow> evaluator_ok ctx s')"
proof (cases "map_of (pc_metadataByUrl s) url")
  case (Some m)
  then show ?thesis using assms(2) by (auto simp: resolveUserKeyId_def rs_bind_Inr)
next
  case None
  obtain m c e where m: "cl_getSealMetadata client url (pc_client s) = (Inr m, c)"
    "registerSealMetadata (cx_seal ctx) (cx_plan ctx) m (pc_evaluator s) = (Inr (), e)" "keyId = sm_id m"
    "s' = s\<lparr>pc_client := c, pc_evaluator := e, pc_metadataByUrl := pc_metadataByUrl s @ [(url, m)]\<rparr>"
    using assms None by (auto simp: resolveUserKeyId_def proc_Inr)
  have "evaluator_ok ctx s'" if "evaluator_ok ctx s"
    using registered[OF that[unfolded evaluator_ok_def], of m] m(2,4) by (simp add: evaluator_ok_def)
  moreover have "map_of (pc_metadataByUrl s @ [(url, m)]) url = Some m" using None by (simp add: map_add_def)
  ultimately show ?thesis using m metadata_keeps[of url "pc_client s"] map_of_append_new[of "pc_metadataByUrl s" "[(url, m)]"] by auto
qed

lemma classify_page_Inr:
  assumes "cx_client ctx = client" "classify_page ctx entries s = (Inr users, s')"
  shows "posts (pc_client s') = posts (pc_client s) \<and> map_of (pc_metadataByUrl s) \<subseteq>\<^sub>m map_of (pc_metadataByUrl s')
    \<and> pc_pass s' = (pc_pass s)\<lparr>pg_complete := pg_complete (pc_pass s) + length users,
         pg_incomplete := pg_incomplete (pc_pass s) + length (filter (is_incomplete (cx_selectedChildren ctx)) entries),
         pg_scannedUsers := pg_scannedUsers (pc_pass s) + length entries, pg_users := pg_users (pc_pass s) @ entries\<rparr>
    \<and> list_all2 (page_user (cx_selectedChildren ctx) (pc_metadataByUrl s')) (filter (is_complete (cx_selectedChildren ctx)) entries) users
    \<and> list_all (\<lambda>entry. is_complete (cx_selectedChildren ctx) entry \<or> is_incomplete (cx_selectedChildren ctx) entry) entries
    \<and> (evaluator_ok ctx s \<longrightarrow> evaluator_ok ctx s')"
  using assms(2)
proof (induction entries arbitrary: s users)
  case Nil
  then show ?case by simp
next
  case (Cons entry entries)
  let ?sel = "cx_selectedChildren ctx"
  let ?s0 = "s\<lparr>pc_pass := (pc_pass s)\<lparr>pg_scannedUsers := pg_scannedUsers (pc_pass s) + 1, pg_users := pg_users (pc_pass s) @ [entry]\<rparr>\<rparr>"
  obtain c where c: "classify_user ?sel entry = Inr c" using Cons.prems by (auto simp: rs_bind_Inr)
  show ?case
  proof (cases c)
    case UserIncomplete
    let ?s1 = "?s0\<lparr>pc_pass := (pc_pass ?s0)\<lparr>pg_incomplete := pg_incomplete (pc_pass s) + 1\<rparr>\<rparr>"
    have "classify_page ctx entries ?s1 = (Inr users, s')" using Cons.prems c UserIncomplete by (simp add: rs_bind_Inr)
    note ih = Cons.IH[OF this]
    show ?thesis using ih c UserIncomplete by (simp add: is_incomplete_def is_complete_def evaluator_ok_def)
  next
    case UserPotentiallyComplete
    then show ?thesis using Cons.prems c by (simp add: rs_bind_Inr rs_throw_def)
  next
    case (UserComplete url ciphertexts)
    let ?s1 = "?s0\<lparr>pc_pass := (pc_pass ?s0)\<lparr>pg_complete := pg_complete (pc_pass s) + 1\<rparr>\<rparr>"
    obtain keyId s2 us where r: "resolveUserKeyId ctx url ?s1 = (Inr keyId, s2)" "classify_page ctx entries s2 = (Inr us, s')"
      "users = \<lparr>eu_did = fst entry, eu_keyId = keyId, eu_ciphertexts = ciphertexts\<rparr> # us"
      using Cons.prems c UserComplete by (auto simp: rs_bind_Inr)
    note k = resolveUserKeyId_Inr[OF assms(1) r(1)] and ih = Cons.IH[OF r(2)]
    have le: "map_of (pc_metadataByUrl s) \<subseteq>\<^sub>m map_of (pc_metadataByUrl s')" using k ih map_le_trans by auto
    have "page_user ?sel (pc_metadataByUrl s2) entry (hd users)" using k r(3) c UserComplete by (auto simp: page_user_def)
    then have u: "page_user ?sel (pc_metadataByUrl s') entry (hd users)" using page_user_mono ih by blast
    have e: "evaluator_ok ctx s \<longrightarrow> evaluator_ok ctx s'" using k ih by (simp add: evaluator_ok_def)
    show ?thesis using k ih le u e r(3) c UserComplete by (simp add: is_incomplete_def is_complete_def)
  qed
qed

end

text \<open>The state between two pages; \<open>P\<close> are the posts before the pass.\<close>

definition settled ::
  "('s, 'e, 'k, 'l, 'c, 'p) ProcessingContext \<Rightarrow> (string \<times> SealMetadata) list \<Rightarrow> (PostScoresRequest \<times> (string \<times> string) list) list \<Rightarrow> string \<times> json \<Rightarrow> bool" where
  "settled ctx md ps entry \<longleftrightarrow> is_incomplete (cx_selectedChildren ctx) entry
     \<or> (\<exists>user. page_user (cx_selectedChildren ctx) md entry user \<and> accepted_user (cx_seal ctx) (cx_plan ctx) (cx_timestamp ctx) ps user)"

lemma settled_mono:
  "settled ctx md ps entry \<Longrightarrow> map_of md \<subseteq>\<^sub>m map_of md' \<Longrightarrow> set ps \<subseteq> set ps' \<Longrightarrow> settled ctx md' ps' entry"
  unfolding settled_def by (meson page_user_mono accepted_mono)

definition pass_ok ::
  "('s, 'e, 'k, 'l, 'c, 'p) ProcessingContext \<Rightarrow> ('s \<Rightarrow> (PostScoresRequest \<times> (string \<times> string) list) list)
    \<Rightarrow> (PostScoresRequest \<times> (string \<times> string) list) list \<Rightarrow> ('s, 'k) processing \<Rightarrow> bool" where
  "pass_ok ctx posts P s \<longleftrightarrow> evaluator_ok ctx s
     \<and> (\<exists>ps. posts (pc_client s) = P @ ps \<and> list_all (settled ctx (pc_metadataByUrl s) ps) (pg_users (pc_pass s)))
     \<and> pg_complete (pc_pass s) = length (filter (is_complete (cx_selectedChildren ctx)) (pg_users (pc_pass s)))
     \<and> pg_incomplete (pc_pass s) = length (filter (is_incomplete (cx_selectedChildren ctx)) (pg_users (pc_pass s)))
     \<and> pg_scannedUsers (pc_pass s) = length (pg_users (pc_pass s)) \<and> pg_submitted (pc_pass s) = pg_complete (pc_pass s)"

text \<open>An invariant of the loop over the pages.\<close>

lemma iterate_invariant:
  assumes run: "iterateUsers fetch body cursor s = Some (Inr u, s')" and "I s"
    and step: "\<And>cursor s page s1 u s2. I s \<Longrightarrow> fetch cursor s = (Inr page, s1) \<Longrightarrow> body page s1 = (Inr u, s2) \<Longrightarrow> I s2"
  shows "I s'"
proof -
  have "fetch' = fetch \<longrightarrow> body' = body \<longrightarrow> isl (fst r) \<or> (I s \<longrightarrow> I (snd r))" if "iterateUsers fetch' body' cursor s = Some r" for fetch' body' cursor s r
  proof (rule iterateUsers.raw_induct[OF _ that], intro impI)
    fix loop cursor s r and fetch' :: "string option \<Rightarrow> ('b, 'a, UsersPage) rs" and body'
    assume IH: "\<And>fetch' body' cursor s r. loop fetch' body' cursor s = Some r \<Longrightarrow> fetch' = fetch \<longrightarrow> body' = body \<longrightarrow> isl (fst r) \<or> (I s \<longrightarrow> I (snd r))"
      and eq: "fetch' = fetch" "body' = body"
      and r: "(case fetch' cursor s of (Inl e, s') \<Rightarrow> Some (Inl e, s')
        | (Inr page, s') \<Rightarrow> (case body' page s' of (Inl e, s'') \<Rightarrow> Some (Inl e, s'')
          | (Inr _, s'') \<Rightarrow> (case up_next page of None \<Rightarrow> Some (Inr (), s'') | Some c \<Rightarrow> loop fetch' body' (Some c) s''))) = Some r"
    obtain f s1 where f: "fetch cursor s = (f, s1)" by (cases "fetch cursor s")
    show "isl (fst r) \<or> (I s \<longrightarrow> I (snd r))"
    proof (cases f)
      case (Inl e)
      then show ?thesis using r eq f by auto
    next
      case (Inr page)
      obtain b s2 where b: "body page s1 = (b, s2)" by (cases "body page s1")
      show ?thesis
      proof (cases b)
        case (Inl e)
        then show ?thesis using r eq f b Inr by auto
      next
        case (Inr u)
        have "I s \<longrightarrow> I s2" using step f \<open>f = Inr page\<close> b Inr by blast
        moreover have "(case up_next page of None \<Rightarrow> Some (Inr (), s2) | Some c \<Rightarrow> loop fetch body (Some c) s2) = Some r"
          using r[unfolded eq] f \<open>f = Inr page\<close> b Inr by simp
        ultimately show ?thesis using IH[of fetch body _ s2 r] by (cases "up_next page") auto
      qed
    qed
  qed
  then show ?thesis using run \<open>I s\<close> by force
qed

lemma rs_bind_modify: "rs_bind (rs_modify f) g s = g () (f s)"
  by (simp add: rs_bind_def rs_modify_def)

lemma page_user_dids: "list_all2 (page_user selected md) entries users \<Longrightarrow> map eu_did users = map fst entries"
  by (induction rule: list_all2_induct) (auto simp: page_user_def)

lemma list_all2_left: "list_all2 R xs ys \<Longrightarrow> x \<in> set xs \<Longrightarrow> \<exists>y \<in> set ys. R x y"
  by (induction rule: list_all2_induct) auto

lemma page_settled:
  assumes "list_all2 (page_user (cx_selectedChildren ctx) md) (filter (is_complete (cx_selectedChildren ctx)) entries) users"
    and "list_all (\<lambda>entry. is_complete (cx_selectedChildren ctx) entry \<or> is_incomplete (cx_selectedChildren ctx) entry) entries"
    and "list_all (accepted_user (cx_seal ctx) (cx_plan ctx) (cx_timestamp ctx) ps) users"
  shows "list_all (settled ctx md ps) entries"
  unfolding list_all_iff
proof
  fix entry assume e: "entry \<in> set entries"
  show "settled ctx md ps entry"
  proof (cases "is_complete (cx_selectedChildren ctx) entry")
    case True
    then obtain user where "user \<in> set users" "page_user (cx_selectedChildren ctx) md entry user"
      using list_all2_left[OF assms(1), of entry] e by auto
    then show ?thesis using assms(3) by (auto simp: settled_def list_all_iff)
  next
    case False
    then show ?thesis using assms(2) e by (auto simp: settled_def list_all_iff)
  qed
qed

context deep_client
begin

lemma submit_users:
  assumes "cx_client ctx = client" "(if users = [] then rs_ret () else submitPage ctx users) s = (Inr u, s')" "distinct (map eu_did users)" "evaluator_ok ctx s"
  shows "evaluator_ok ctx s' \<and> same_run (s\<lparr>pc_evaluator := pc_evaluator s'\<rparr>) s' \<and> pg_submitted (pc_pass s') = pg_submitted (pc_pass s) + length users
    \<and> (\<exists>ps. posts (pc_client s') = posts (pc_client s) @ ps \<and> list_all (accepted_user (cx_seal ctx) (cx_plan ctx) (cx_timestamp ctx) ps) users)"
proof (cases "users = []")
  case True
  then show ?thesis using assms by (simp add: same_run_def)
next
  case False
  then have "submitPage ctx users s = (Inr u, s')" using assms(2) by simp
  note p = submitPage_Inr[OF assms(1) this assms(3)]
  have "evaluator_ok ctx s'" using batch[OF assms(4)[unfolded evaluator_ok_def], of users] p by (simp add: evaluator_ok_def)
  then show ?thesis using p by blast
qed

lemma pass_step:
  assumes c: "cx_client ctx = client" and ok: "pass_ok ctx posts P s"
    and f: "processing_page ctx cursor s = (Inr page, s1)" and b: "processing_body ctx page s1 = (Inr u, s2)"
  shows "pass_ok ctx posts P s2"
proof -
  let ?sel = "cx_selectedChildren ctx"
  obtain cl where cl: "cl_usersPage client (Some 100) (cx_readScopes ctx) cursor (pc_client s) = (Inr page, cl)" "s1 = s\<lparr>pc_client := cl\<rparr>"
    using f c by (auto simp: processing_page_def split: prod.splits sum.splits)
  have pp: "posts cl = posts (pc_client s)" "distinct (map fst (up_users page))"
    using page_keeps[of "Some 100" "cx_readScopes ctx" cursor "pc_client s"] page_distinct[OF cl(1)] cl(1) by auto
  let ?sa = "s\<lparr>pc_client := cl, pc_pass := (pc_pass s)\<lparr>pg_pages := pg_pages (pc_pass s) + 1\<rparr>,
    pc_lastRequestId := (case up_requestId page of Some _ \<Rightarrow> up_requestId page | None \<Rightarrow> pc_lastRequestId s)\<rparr>"
  have eq: "processing_body ctx page s1 = rs_bind (classify_page ctx (up_users page)) (\<lambda>users. if users = [] then rs_ret () else submitPage ctx users) ?sa"
    by (cases "up_requestId page") (simp_all add: processing_body_def keep_requestId_def on_pass_def rs_bind_modify cl(2))
  obtain users s3 where cp: "classify_page ctx (up_users page) ?sa = (Inr users, s3)"
    and sp: "(if users = [] then rs_ret () else submitPage ctx users) s3 = (Inr u, s2)"
    using b[unfolded eq rs_bind_Inr] by blast
  note k = classify_page_Inr[OF c cp]
  have "map eu_did users = map fst (filter (is_complete ?sel) (up_users page))" using page_user_dids k by blast
  then have d: "distinct (map eu_did users)" using pp(2) by (simp add: distinct_map_filter)
  have e3: "evaluator_ok ctx s3" using k ok by (simp add: pass_ok_def evaluator_ok_def)
  note sub = submit_users[OF c sp d e3]
  have md: "pc_metadataByUrl s2 = pc_metadataByUrl s3" using sub by (simp add: same_run_def)
  obtain ps where ps: "posts (pc_client s2) = posts (pc_client s3) @ ps"
    "list_all (accepted_user (cx_seal ctx) (cx_plan ctx) (cx_timestamp ctx) ps) users" using sub by blast
  obtain qs where qs: "posts (pc_client s) = P @ qs" "list_all (settled ctx (pc_metadataByUrl s) qs) (pg_users (pc_pass s))"
    using ok by (auto simp: pass_ok_def)
  have len: "length users = length (filter (is_complete ?sel) (up_users page))" using k list_all2_lengthD by metis
  have le: "map_of (pc_metadataByUrl s) \<subseteq>\<^sub>m map_of (pc_metadataByUrl s2)" using k md by simp
  have "list_all (settled ctx (pc_metadataByUrl s2) ps) (up_users page)" using page_settled[OF _ _ ps(2)] k md by simp
  then have "list_all (settled ctx (pc_metadataByUrl s2) (qs @ ps)) (pg_users (pc_pass s) @ up_users page)"
    using qs(2) settled_mono[OF _ le, of ctx qs _ "qs @ ps"] settled_mono[OF _ map_le_refl, of ctx "pc_metadataByUrl s2" ps _ "qs @ ps"]
    by (auto simp: list_all_iff)
  then show ?thesis using sub ps(1) qs(1) k pp(1) ok len by (auto simp: pass_ok_def same_run_def)
qed

lemma finished_pass:
  assumes "cx_client ctx = client" "runProcessingPass ctx s = Some (Inr u, s')" "evaluator_ok ctx s" "posts (pc_client s) = P @ ps"
  shows "pass_ok ctx posts P s'"
proof (rule iterate_invariant[OF assms(2)[unfolded runProcessingPass_def]])
  show "pass_ok ctx posts P (s\<lparr>pc_pass := empty_pass\<rparr>)" using assms(3,4) by (simp add: pass_ok_def empty_pass_def evaluator_ok_def)
qed (rule pass_step[OF assms(1)])

end

lemma iterate_keeps:
  assumes run: "iterateUsers fetch body cursor s = Some (r, s')" and "I s"
    and fetch: "\<And>cursor. keeps_inv I (fetch cursor)" and body: "\<And>page. keeps_inv I (body page)"
  shows "I s'"
proof -
  have "fetch' = fetch \<longrightarrow> body' = body \<longrightarrow> I s \<longrightarrow> I (snd r)" if "iterateUsers fetch' body' cursor s = Some r" for fetch' body' cursor s r
  proof (rule iterateUsers.raw_induct[OF _ that], intro impI)
    fix loop cursor s r and fetch' :: "string option \<Rightarrow> ('b, 'a, UsersPage) rs" and body'
    assume IH: "\<And>fetch' body' cursor s r. loop fetch' body' cursor s = Some r \<Longrightarrow> fetch' = fetch \<longrightarrow> body' = body \<longrightarrow> I s \<longrightarrow> I (snd r)"
      and eq: "fetch' = fetch" "body' = body" and i: "I s"
      and r: "(case fetch' cursor s of (Inl e, s') \<Rightarrow> Some (Inl e, s')
        | (Inr page, s') \<Rightarrow> (case body' page s' of (Inl e, s'') \<Rightarrow> Some (Inl e, s'')
          | (Inr _, s'') \<Rightarrow> (case up_next page of None \<Rightarrow> Some (Inr (), s'') | Some c \<Rightarrow> loop fetch' body' (Some c) s''))) = Some r"
    obtain f s1 where f: "fetch cursor s = (f, s1)" by (cases "fetch cursor s")
    have s1: "I s1" using keeps_invD[OF fetch i f] .
    show "I (snd r)"
    proof (cases f)
      case (Inl e)
      then show ?thesis using r eq f s1 by auto
    next
      case page: (Inr page)
      obtain b s2 where b: "body page s1 = (b, s2)" by (cases "body page s1")
      have s2: "I s2" using keeps_invD[OF body s1 b] .
      have "(case b of Inl e \<Rightarrow> Some (Inl e, s2) | Inr _ \<Rightarrow> (case up_next page of None \<Rightarrow> Some (Inr (), s2) | Some c \<Rightarrow> loop fetch body (Some c) s2)) = Some r"
        using r[unfolded eq] f page b by simp
      then show ?thesis using s2 IH[of fetch body _ s2 r] by (cases b; cases "up_next page") auto
    qed
  qed
  then show ?thesis using run \<open>I s\<close> by force
qed

text \<open>What holds between passes, also after one that failed.\<close>

definition run_ok :: "('s, 'e, 'k, 'l, 'c, 'p) ProcessingContext \<Rightarrow> ('s \<Rightarrow> (PostScoresRequest \<times> (string \<times> string) list) list) \<Rightarrow> (PostScoresRequest \<times> (string \<times> string) list) list \<Rightarrow> ('s, 'k) processing \<Rightarrow> bool" where
  "run_ok ctx posts P s \<longleftrightarrow> evaluator_ok ctx s \<and> prefix P (posts (pc_client s))"

context deep_client
begin

lemma keeps_on_evaluator:
  "(\<And>e. evaluator_reachable (cx_seal ctx) (cx_plan ctx) e \<Longrightarrow> evaluator_reachable (cx_seal ctx) (cx_plan ctx) (snd (m e))) \<Longrightarrow> keeps_inv (run_ok ctx posts P) (on_evaluator m)"
  by (auto simp: keeps_inv_def run_ok_def evaluator_ok_def on_evaluator_def split: prod.splits) (metis snd_conv)

lemma keeps_on_client: "(\<And>c. prefix (posts c) (posts (snd (m c)))) \<Longrightarrow> keeps_inv (run_ok ctx posts P) (on_client m)"
  by (auto simp: keeps_inv_def run_ok_def evaluator_ok_def on_client_def split: prod.splits) (metis prefix_order.trans snd_conv)

lemma keeps_on_pass [keeps_rules]: "keeps_inv (run_ok ctx posts P) (on_pass f)"
  by (simp add: keeps_inv_def run_ok_def evaluator_ok_def on_pass_def rs_modify_def)

lemma keeps_requestId [keeps_rules]: "keeps_inv (run_ok ctx posts P) (keep_requestId i)"
  by (simp add: keeps_inv_def run_ok_def evaluator_ok_def keep_requestId_def rs_modify_def)

lemma post_grows: "prefix (posts c) (posts (snd (cl_postScores client scores c)))"
proof -
  obtain r c' where "cl_postScores client scores c = (r, c')" by (cases "cl_postScores client scores c")
  then show ?thesis using post_fails post_logs by (cases r) auto
qed

lemma keeps_check_batch [keeps_rules]: "keeps_inv I (check_batch results batch)"
  by (induction batch) (auto intro!: keeps_rules simp: Let_def)

lemma keeps_resolve:
  assumes "cx_client ctx = client"
  shows "keeps_inv (run_ok ctx posts P) (resolveUserKeyId ctx url)"
proof -
  have reg: "keeps_inv (run_ok ctx posts P) (on_evaluator (registerSealMetadata (cx_seal ctx) (cx_plan ctx) m))" for m by (rule keeps_on_evaluator) (rule registered)
  have get: "keeps_inv (run_ok ctx posts P) (on_client (cl_getSealMetadata (cx_client ctx) url))" by (rule keeps_on_client) (simp add: metadata_keeps assms)
  have md: "keeps_inv (run_ok ctx posts P) (rs_modify (\<lambda>s. s\<lparr>pc_metadataByUrl := f s\<rparr>))" for f
    by (simp add: keeps_inv_def run_ok_def evaluator_ok_def rs_modify_def)
  have "keeps_inv (run_ok ctx posts P) (case cached of Some m \<Rightarrow> rs_ret (sm_id m) | None \<Rightarrow> rs_bind (on_client (cl_getSealMetadata (cx_client ctx) url)) (\<lambda>metadata.
           rs_bind (on_evaluator (registerSealMetadata (cx_seal ctx) (cx_plan ctx) metadata)) (\<lambda>_.
           rs_bind (rs_modify (\<lambda>s. s\<lparr>pc_metadataByUrl := pc_metadataByUrl s @ [(url, metadata)]\<rparr>)) (\<lambda>_.
             rs_ret (sm_id metadata)))))" for cached
    by (cases cached) (auto intro!: keeps_rules reg get md)
  then show ?thesis unfolding resolveUserKeyId_def by (intro keeps_bind keeps_get)
qed

lemma keeps_classify_page:
  assumes "cx_client ctx = client"
  shows "keeps_inv (run_ok ctx posts P) (classify_page ctx entries)"
proof (induction entries)
  case (Cons entry entries)
  note ih = Cons
  show ?case unfolding classify_page.simps
  proof (intro keeps_rules, goal_cases)
    case (1 _ c)
    then show ?case by (cases c) (auto intro!: keeps_rules keeps_resolve assms ih)
  qed
qed (simp add: keeps_ret)

lemma keeps_post_batches:
  assumes "cx_client ctx = client"
  shows "keeps_inv (run_ok ctx posts P) (post_batches ctx batches)"
proof (induction batches)
  case (Cons b bs)
  have "keeps_inv (run_ok ctx posts P) (post_batch ctx b)"
    unfolding post_batch_def assms by (intro keeps_rules keeps_on_client post_grows)
  then show ?case using Cons by (auto intro!: keeps_rules)
qed (simp add: keeps_ret)

lemma keeps_body:
  assumes "cx_client ctx = client"
  shows "keeps_inv (run_ok ctx posts P) (processing_body ctx page)"
  unfolding processing_body_def submitPage_def
  by (intro keeps_rules keeps_classify_page keeps_post_batches keeps_on_evaluator batch assms)

lemma keeps_page:
  assumes "cx_client ctx = client"
  shows "keeps_inv (run_ok ctx posts P) (processing_page ctx cursor)"
proof -
  have "prefix P (posts (snd (cl_usersPage client (Some 100) (cx_readScopes ctx) cursor c)))" if "prefix P (posts c)" for c
    using that by (simp add: page_keeps)
  then show ?thesis unfolding keeps_inv_def processing_page_def run_ok_def evaluator_ok_def assms
    by (auto split: prod.splits sum.splits) (metis snd_conv)+
qed

lemma keeps_pass:
  assumes "cx_client ctx = client" "run_ok ctx posts P s" "runProcessingPass ctx s = Some (r, s')"
  shows "run_ok ctx posts P s'"
proof (rule iterate_keeps[OF assms(3)[unfolded runProcessingPass_def]])
  show "run_ok ctx posts P (s\<lparr>pc_pass := empty_pass\<rparr>)" using assms(2) by (simp add: run_ok_def evaluator_ok_def)
qed (rule keeps_page[OF assms(1)] keeps_body[OF assms(1)])+

lemma submitted_passes:
  assumes "cx_client ctx = client" "run_ok ctx posts P s"
    and "submission_passes ctx restarts left s = Some (Inr (EncryptedScoresSubmitted diag n batches keys), s')"
  shows "pass_ok ctx posts P s' \<and> (\<exists>restarts'. diag = diagnostics_of restarts' s') \<and> n = pg_submitted (pc_pass s')"
  using assms(2,3)
proof (induction left arbitrary: restarts s)
  case 0
  obtain r s1 where r: "runProcessingPass ctx s = Some (r, s1)" using 0 by (cases "runProcessingPass ctx s") auto
  show ?case
  proof (cases r)
    case (Inr u)
    then show ?thesis using 0 r finished_pass[OF assms(1)] by (auto simp: run_ok_def prefix_def)
  next
    case (Inl e)
    then show ?thesis using 0 r by (cases e) simp_all
  qed
next
  case (Suc left)
  obtain r s1 where r: "runProcessingPass ctx s = Some (r, s1)" using Suc.prems by (cases "runProcessingPass ctx s") auto
  have s1: "run_ok ctx posts P s1" using keeps_pass[OF assms(1) Suc.prems(1) r] .
  show ?case
  proof (cases r)
    case (Inr u)
    then show ?thesis using Suc.prems r finished_pass[OF assms(1)] by (auto simp: run_ok_def prefix_def)
  next
    case (Inl e)
    then show ?thesis using Suc.prems r Suc.IH[OF s1] by (cases e) (simp_all del: submission_passes.simps add: submission_passes.simps[of ctx restarts "Suc left"])
  qed
qed

end

lemma settled_classified: "settled ctx md ps entry \<Longrightarrow> is_complete (cx_selectedChildren ctx) entry \<or> is_incomplete (cx_selectedChildren ctx) entry"
  by (auto simp: settled_def page_user_def is_complete_def)

lemma classes_disjoint: "is_complete selected entry \<Longrightarrow> \<not> is_incomplete selected entry"
  by (auto simp: is_complete_def is_incomplete_def)

lemma counted_users:
  assumes "list_all (settled ctx md ps) entries"
  shows "length entries = length (filter (is_complete (cx_selectedChildren ctx)) entries) + length (filter (is_incomplete (cx_selectedChildren ctx)) entries)"
  using assms by (induction entries) (auto dest: settled_classified classes_disjoint)

lemma disposed_is_empty: "evaluator_inv e \<Longrightarrow> sl_live (ev_seal (dispose e)) = []"
  using dispose_inv[of e] by (auto simp: evaluator_inv_def scope_inv_def dispose_def key_handles_def split: if_splits)

text \<open>The clients the activity creates: the configuration of the process and the scopes of the run.\<close>

definition deep_id_clients :: "'w Net \<Rightarrow> DeepIdApiConfigInput \<Rightarrow> string \<Rightarrow> 'w deep_id DeepIdClient" where
  "deep_id_clients net config scopes = createDeepIdClient net (config\<lparr>di_scopes := Some scopes\<rparr>)"

lemma context_fields:
  "submission_context seal definitions clientOf input = Inr ctx \<Longrightarrow>
   cx_seal ctx = seal \<and> cx_timestamp ctx = ei_timestamp input \<and> (\<exists>scopes. cx_client ctx = clientOf scopes)"
  by (auto simp: submission_context_def split: sum.splits if_splits)

text \<open>
  C1: When the submission activity reports that the encrypted scores were submitted, then every user on the pages of its last
  pass either lacks a selected score or is complete, and for every complete one DeepID answered OK to a post of this
  run that holds the user's evaluated score under the key of the user's metadata and the run's timestamp.  No user was
  pending, the reported counts are those of the users, as many entries were submitted as users are complete, and no SEAL object is left.
\<close>

theorem submitted_run_posted_everyone:
  assumes "submit_custom_encrypted_scores seal definitions (deep_id_clients net config) input c
     = Some (Inr (EncryptedScoresSubmitted diagnostics submitted batches keys), s)"
  shows "\<exists>ctx posted. submission_context seal definitions (deep_id_clients net config) input = Inr ctx
    \<and> di_posts (pc_client s) = di_posts c @ posted
    \<and> (\<forall>entry \<in> set (pg_users (pc_pass s)). classify_user (cx_selectedChildren ctx) entry = Inr UserIncomplete
        \<or> (\<exists>user. page_user (cx_selectedChildren ctx) (pc_metadataByUrl s) entry user
              \<and> accepted_user seal (cx_plan ctx) (ei_timestamp input) posted user))
    \<and> sd_complete diagnostics = length (filter (is_complete (cx_selectedChildren ctx)) (pg_users (pc_pass s)))
    \<and> sd_scannedUsers diagnostics = sd_complete diagnostics + sd_incomplete diagnostics
    \<and> submitted = sd_complete diagnostics \<and> sl_live (ev_seal (pc_evaluator s)) = []"
proof -
  let ?s0 = "\<lparr>pc_client = c, pc_evaluator = new_evaluator, pc_metadataByUrl = [], pc_lastRequestId = None, pc_pass = empty_pass\<rparr>"
  obtain ctx s1 where ctx: "submission_context seal definitions (deep_id_clients net config) input = Inr ctx"
    and run: "submission_passes ctx 0 CURSOR_RESTART_LIMIT ?s0 = Some (Inr (EncryptedScoresSubmitted diagnostics submitted batches keys), s1)"
    and s: "s = s1\<lparr>pc_evaluator := dispose (pc_evaluator s1)\<rparr>"
    using assms by (auto simp: submit_custom_encrypted_scores_def Let_def simp del: submission_passes.simps split: sum.splits)
  note fields = context_fields[OF ctx]
  obtain scopes where client: "cx_client ctx = createDeepIdClient net (config\<lparr>di_scopes := Some scopes\<rparr>)"
    using fields by (auto simp: deep_id_clients_def)
  have start: "run_ok ctx di_posts (di_posts c) ?s0" by (simp add: run_ok_def evaluator_ok_def evaluator_reachable.fresh)
  obtain restarts where ok: "pass_ok ctx di_posts (di_posts c) s1" "diagnostics = diagnostics_of restarts s1" "submitted = pg_submitted (pc_pass s1)"
    using dc.submitted_passes[OF client start run] by blast
  obtain posted where posted: "di_posts (pc_client s1) = di_posts c @ posted"
    "list_all (settled ctx (pc_metadataByUrl s1) posted) (pg_users (pc_pass s1))" using ok(1) by (auto simp: pass_ok_def)
  have "evaluator_inv (pc_evaluator s1)" using ok(1) reachable_inv by (auto simp: pass_ok_def evaluator_ok_def)
  then have live: "sl_live (ev_seal (pc_evaluator s)) = []" using disposed_is_empty s by simp
  have each: "classify_user (cx_selectedChildren ctx) entry = Inr UserIncomplete \<or> (\<exists>user. page_user (cx_selectedChildren ctx) (pc_metadataByUrl s) entry user
      \<and> accepted_user seal (cx_plan ctx) (ei_timestamp input) posted user)" if "entry \<in> set (pg_users (pc_pass s))" for entry
    using posted(2) that s fields by (auto simp: list_all_iff settled_def is_incomplete_def)
  show ?thesis
    using ctx posted(1) each live s ok counted_users[OF posted(2)]
    by (intro exI[of _ ctx] exI[of _ posted]) (auto simp: pass_ok_def diagnostics_of_def)
qed

subsection \<open>A run with one complete user\<close>

definition demo_users :: json where
  "demo_users = JObj [(''did'', JObj [(''scores_encr'', JObj [(''seal-metadata'', JStr ''/m''),
     (''voting_engagement_encr'', JObj [(''status'', JStr ''encrypted''), (''ciphertext'', JStr ''five'')])])])]"

definition demo_document :: json where
  "demo_document = JObj [(''id'', JStr ''k''), (''schemeType'', JStr ''ckks''), (''securityLevel'', JNum (Fin 128)), (''polyModulusDegree'', JNum (Fin 8192)),
     (''coeffModulusBitSizes'', JArr [JNum (Fin 60), JNum (Fin 40), JNum (Fin 60)]), (''scale'', JNum (Fin 2)), (''encryptionParameters'', JStr ''p'')]"

definition demo_reply :: json where
  "demo_reply = JObj [(''status'', JObj [(''ok'', JNum (Fin 1)), (''failed'', JNum (Fin 0))]), (''results'', JObj [(''did'', JObj [(''message'', JStr ''OK'')])])]"

definition demo_data :: "string \<Rightarrow> json" where
  "demo_data t = (if t = ''v1/users'' then demo_users else if t = ''v1/clients/scores'' then demo_reply else demo_document)"

definition demo_net :: "unit Net" where
  "demo_net = \<lparr>net_send = \<lambda>req w. (Inr \<lparr>rp_status = 200, rp_statusText = [], rp_headers = [], rp_text = hq_url req\<rparr>, w), net_now = \<lambda>_. 0,
     net_random = \<lambda>w. (Fin 0, w), net_sleep = \<lambda>_ w. w,
     net_parse = \<lambda>t. Inr (demo_data t),
     net_resolve = \<lambda>path _. Some path, net_origin = \<lambda>_. ''o'', net_query = \<lambda>url _. url, net_isIso = \<lambda>_. True\<rparr>"

definition demo_config :: DeepIdApiConfigInput where
  "demo_config = \<lparr>di_identityBaseUrl = ''i'', di_appBaseUrl = ''o'', di_clientId = ''c'', di_clientSecret = ''s'', di_scopes = None, di_maxAttempts = None,
     di_baseDelayMs = None, di_maxDelayMs = None, di_defaultPageSize = None, di_tokenRefreshSkewMs = None\<rparr>"

definition demo_session :: "(PostScoresRequest \<times> (string \<times> string) list) list \<Rightarrow> unit deep_id" where
  "demo_session ps = \<lparr>di_world = (), di_cached = Some (JStr ''t'', PInf), di_posts = ps\<rparr>"

definition demo_submission :: EncryptedSubmissionInput where
  "demo_submission = \<lparr>ei_key = ''custom_score'', ei_version = ''1'',
     ei_inputs = [(''sub_algorithms'', JArr [JObj [(''algorithm_key'', JStr ''voting_engagement''), (''algorithm_version'', JStr ''1''),
        (''weight'', JNum (Fin 1)), (''inputs'', JArr [])]])],
     ei_observations = [(''voting_engagement'', ec_observation (demo_child ''voting_engagement'' 0 100))], ei_timestamp = ''ts''\<rparr>"

definition demo_definitions :: "string \<Rightarrow> string \<Rightarrow> string + ScoreDefinition" where
  "demo_definitions k v = Inr \<lparr>sd_key = k, sd_combined = True, sd_runtime = ''typescript'', sd_csvOutputs = [], sd_normalization = None\<rparr>"

definition demo_selected :: "SelectedEncryptedChild list" where
  "demo_selected = [\<lparr>sel_key = ''voting_engagement'', sel_scope = ''voting_engagement_encr''\<rparr>]"

definition demo_context :: "(unit deep_id, unit, unit, unit, rat, rat) ProcessingContext" where
  "demo_context = \<lparr>cx_client = deep_id_clients demo_net demo_config (scope_text demo_selected @ '' post_scores''), cx_seal = demo_seal, cx_plan = demo_plan,
     cx_selectedChildren = demo_selected, cx_readScopes = scope_text demo_selected, cx_timestamp = ''ts''\<rparr>"

lemma demo_request:
  assumes "clean = (if js_startsWith path ''/'' then tl path else path)" "clean \<noteq> []"
  shows "authedRequest demo_net (resolveConfig (demo_config\<lparr>di_scopes := Some scopes\<rparr>)) httpMethod path params body (demo_session ps)
    = (Inr \<lparr>hr_statusCode = 200, hr_headers = [], hr_data = demo_data clean\<rparr>, demo_session ps)"
proof -
  have net: "net_send demo_net req w = (Inr \<lparr>rp_status = 200, rp_statusText = [], rp_headers = [], rp_text = hq_url req\<rparr>, w)"
    "net_parse demo_net t = Inr (demo_data t)" "net_resolve demo_net p b = Some p" "net_query demo_net u ps = u" for req w t p b u ps
    by (simp_all add: demo_net_def)
  have url: "buildUrl demo_net base path params = Inr clean" for base using assms by (simp add: buildUrl_def Let_def net)
  have token: "getToken demo_net cfg False (demo_session ps) = (Inr (JStr ''t''), demo_session ps)" for cfg
    by (simp add: getToken_def isFresh_def demo_session_def jint_def jsub_def)
  have send: "send_authed demo_net (resolveConfig (demo_config\<lparr>di_scopes := Some scopes\<rparr>)) httpMethod clean body t (demo_session ps)
      = (Inr \<lparr>hr_statusCode = 200, hr_headers = [], hr_data = demo_data clean\<rparr>, demo_session ps)" for t
    using assms(2)
    by (simp add: send_authed_def on_world_def deep_executeRequest_def send_once_def net demo_session_def resolveConfig_def demo_config_def
        or_default_def DEFAULT_DEEP_RETRY_def eval_nat_numeral)
  show ?thesis by (simp add: authedRequest_def rs_bind_def rs_lift_def rs_catch_def url token send)
qed

abbreviation demo_deep_client :: "string \<Rightarrow> unit deep_id DeepIdClient" where
  "demo_deep_client scopes \<equiv> createDeepIdClient demo_net (demo_config\<lparr>di_scopes := Some scopes\<rparr>)"

lemma demo_page:
  "cl_usersPage (demo_deep_client scopes) n sc None (demo_session ps) = (Inr \<lparr>up_users = js_entries demo_users, up_next = None, up_requestId = None\<rparr>, demo_session ps)"
  using demo_request[of "''v1/users''" "''/v1/users''"]
  by (simp add: createDeepIdClient_def Let_def users_page_def rs_bind_def rs_ret_def js_startsWith_def demo_data_def readHeader_def)

lemma demo_fetch: "cl_getSealMetadata (demo_deep_client scopes) ''/m'' (demo_session ps) = (Inr demo_metadata, demo_session ps)"
proof -
  have "resolveSealMetadataUrl demo_net base ''/m'' = Inr ''/m''" for base
    by (simp add: resolveSealMetadataUrl_def demo_net_def js_trim_def js_is_space_def Let_def)
  moreover have "sealMetadataSchema demo_document = ([], demo_metadata)"
    by (simp add: sealMetadataSchema_def demo_document_def demo_metadata_def jsonNumber_def securityLevel_value_def positive_int_def positive_number_def
        bit_sizes_def bit_size_issues_def int_of_def or_default_def Let_def upt_rec)
  moreover have "demo_data ''m'' = demo_document" by (simp add: demo_data_def)
  ultimately show ?thesis using demo_request[of "''m''" "''/m''"]
    by (simp add: createDeepIdClient_def Let_def getSealMetadata_def rs_bind_def rs_lift_def js_startsWith_def parseWithContract_def)
qed

lemma demo_post:
  assumes "concat (map (entry_issues (\<lambda>_. True)) scores) = []"
  shows "cl_postScores (demo_deep_client scopes) scores (demo_session ps)
    = (Inr \<lparr>pr_ok = 1, pr_failed = 0, pr_results = [(''did'', ''OK'')], pr_requestId = None\<rparr>, demo_session (ps @ [(scores, [(''did'', ''OK'')])]))"
proof -
  have "postScoresResponseSchema demo_reply = ([], \<lparr>pr_ok = 1, pr_failed = 0, pr_results = [(''did'', ''OK'')], pr_requestId = None\<rparr>)"
    by (simp add: postScoresResponseSchema_def demo_reply_def nonnegative_issue_def or_default_def result_issue_def Let_def)
  moreover have "demo_data ''v1/clients/scores'' = demo_reply" by (simp add: demo_data_def)
  moreover have "net_isIso demo_net = (\<lambda>_. True)" by (simp add: demo_net_def)
  ultimately show ?thesis using demo_request[of "''v1/clients/scores''" "''/v1/clients/scores''"] assms
    by (simp add: createDeepIdClient_def Let_def postScores_def rs_bind_def rs_lift_def rs_ret_def rs_modify_def js_startsWith_def parseWithContract_def
        postScoresRequestSchema_def readHeader_def) (simp add: demo_session_def)
qed

lemma demo_children:
  "parseCustomScoreChildren (ei_inputs demo_submission) = Inr [\<lparr>cs_key = ''voting_engagement'', cs_version = ''1'', cs_weight = Fin 1, cs_inputs = []\<rparr>]"
proof -
  have one: "to_double 1 = Fin 1" using to_double_int[of 1] by simp
  show ?thesis
    by (simp add: demo_submission_def parseCustomScoreChildren_def input_value_def parseChildEntry_def blank_string_def js_trim_def
        js_is_space_def jis_finite_def jle_def jeq_def total_weight_def one entry_inputs_def)
qed

lemma demo_context_built: "submission_context demo_seal demo_definitions (deep_id_clients demo_net demo_config) demo_submission = Inr demo_context"
proof -
  note parse = demo_children
  have sel: "resolveSelectedEncryptedChildren [\<lparr>cs_key = ''voting_engagement'', cs_version = ''1'', cs_weight = Fin 1, cs_inputs = []\<rparr>] = Inr demo_selected"
    by (simp add: resolveSelectedEncryptedChildren_def ENCRYPTED_SCORE_SCOPES_def demo_selected_def)
  have obs: "resolveObservations demo_selected (ei_observations demo_submission) = Inr (ei_observations demo_submission)"
    by (simp add: resolveObservations_def demo_submission_def demo_selected_def)
  have child: "\<lparr>ec_key = ''voting_engagement'', ec_weight = Fin 1, ec_observation = the (map_of (ei_observations demo_submission) ''voting_engagement'')\<rparr>
      = demo_child ''voting_engagement'' 0 100" by (simp add: demo_submission_def demo_child_def)
  show ?thesis
    by (simp add: submission_context_def demo_definitions_def parse sel obs fatal_cohort_def or_default_def child
        createEncryptedCustomScoreEvaluator_def demo_plan_built demo_context_def) (simp add: demo_submission_def)
qed

definition demo_result :: EncryptedCustomScoreResult where
  "demo_result = \<lparr>er_did = ''did'', er_keyId = ''k'', er_ciphertext = ''5''\<rparr>"

definition demo_posted :: "(PostScoresRequest \<times> (string \<times> string) list) list" where
  "demo_posted = [([(''did'', EncryptedScoreEntry ''5'' ''k'' ''ts'')], [(''did'', ''OK'')])]"

definition demo_pass :: ProcessingPassState where
  "demo_pass = \<lparr>pg_complete = 1, pg_incomplete = 0, pg_scannedUsers = 1, pg_pages = 1, pg_submitted = 1, pg_batches = 1, pg_users = js_entries demo_users\<rparr>"

lemma demo_entry: "js_entries demo_users = [(''did'', snd (hd (js_entries demo_users)))]"
  by (simp add: demo_users_def)

lemma demo_classified:
  "classify_user demo_selected (''did'', snd (hd (js_entries demo_users))) = Inr (UserComplete ''/m'' [(''voting_engagement'', ''five'')])"
proof -
  let ?scores = "JObj [(''seal-metadata'', JStr ''/m''), (''voting_engagement_encr'', JObj [(''status'', JStr ''encrypted''), (''ciphertext'', JStr ''five'')])]"
  have p: "present_scopes ?scores = [''voting_engagement_encr'']" by (simp add: present_scopes_def ENCRYPTED_SCORE_SCOPES_def)
  have "encryptedScoresSchema ?scores = ([], \<lparr>es_sealMetadata = Some ''/m'', es_fields = [(''voting_engagement_encr'', EncryptedScoreReady ''five'')]\<rparr>)"
    by (simp add: encryptedScoresSchema_def p field_issues_def field_value_def Let_def)
  then show ?thesis
    by (simp add: classify_user_def scores_encr_def demo_users_def classifyEncryptedUser_def parseEncryptedScores_def parseWithContract_def demo_selected_def)
qed

lemma demo_batch: "\<exists>e'. evaluateBatch demo_seal demo_plan [demo_user] demo_evaluator = (Inr [demo_result], e')"
proof -
  obtain e' where "evaluateUser demo_seal demo_plan demo_user demo_evaluator = (Inr demo_result, e')" using demo_evaluates by (auto simp: demo_result_def)
  moreover have "\<not> ev_disposed demo_evaluator" by (simp add: demo_evaluator_def)
  ultimately show ?thesis by (simp add: evaluateBatch_def rs_bind_def ensureUsable_def rs_ret_def CUSTOM_SCORE_EVALUATION_BATCH_LIMIT_def)
qed

lemma demo_resolved:
  "resolveUserKeyId demo_context ''/m'' \<lparr>pc_client = demo_session ps, pc_evaluator = new_evaluator, pc_metadataByUrl = [], pc_lastRequestId = i, pc_pass = p\<rparr>
   = (Inr ''k'', \<lparr>pc_client = demo_session ps, pc_evaluator = demo_evaluator, pc_metadataByUrl = [(''/m'', demo_metadata)], pc_lastRequestId = i, pc_pass = p\<rparr>)"
proof -
  have ctx: "cx_client demo_context = demo_deep_client (scope_text demo_selected @ '' post_scores'')" "cx_seal demo_context = demo_seal" "cx_plan demo_context = demo_plan"
    by (simp_all add: demo_context_def deep_id_clients_def)
  have "sm_id demo_metadata = ''k''" by (simp add: demo_metadata_def)
  then show ?thesis
    by (simp add: resolveUserKeyId_def rs_bind_def rs_get_def on_client_def on_evaluator_def rs_modify_def rs_ret_def ctx demo_fetch demo_registers)
qed

lemma demo_submitted:
  "\<exists>s. submitPage demo_context [demo_user] \<lparr>pc_client = demo_session [], pc_evaluator = demo_evaluator, pc_metadataByUrl = md, pc_lastRequestId = None, pc_pass = p\<rparr>
   = (Inr (), s) \<and> pc_client s = demo_session demo_posted \<and> pc_metadataByUrl s = md
     \<and> pc_pass s = p\<lparr>pg_submitted := pg_submitted p + 1, pg_batches := pg_batches p + 1\<rparr> \<and> pc_lastRequestId s = None"
proof -
  have ctx: "cx_client demo_context = demo_deep_client (scope_text demo_selected @ '' post_scores'')" "cx_seal demo_context = demo_seal" "cx_plan demo_context = demo_plan"
    "cx_timestamp demo_context = ''ts''" by (simp_all add: demo_context_def deep_id_clients_def)
  have req: "from_entries (map (encrypted_entry ''ts'') [demo_result]) = [(''did'', EncryptedScoreEntry ''5'' ''k'' ''ts'')]"
    by (simp add: from_entries_def encrypted_entry_def demo_result_def)
  have ch: "chunks ENCRYPTED_POST_CHUNK_SIZE [demo_result] = [[demo_result]]"
    by (subst chunks.simps) (subst chunks.simps, simp add: ENCRYPTED_POST_CHUNK_SIZE_def)
  have did: "er_did demo_result = ''did''" by (simp add: demo_result_def)
  have ok: "check_batch [(''did'', ''OK'')] [demo_result] = rs_ret ()" by (simp add: demo_result_def Let_def)
  obtain e' where e: "evaluateBatch demo_seal demo_plan [demo_user] demo_evaluator = (Inr [demo_result], e')" using demo_batch by blast
  have post: "cl_postScores (demo_deep_client sc) [(''did'', EncryptedScoreEntry ''5'' ''k'' ''ts'')] (demo_session [])
    = (Inr \<lparr>pr_ok = 1, pr_failed = 0, pr_results = [(''did'', ''OK'')], pr_requestId = None\<rparr>, demo_session demo_posted)" for sc
    using demo_post[of "[(''did'', EncryptedScoreEntry ''5'' ''k'' ''ts'')]" sc "[]"] by (simp add: demo_posted_def)
  show ?thesis
    by (simp add: submitPage_def rs_bind_def on_evaluator_def ctx e ch post_batch_def on_client_def req[simplified] post keep_requestId_def rs_modify_def ok did
        rs_ret_def on_pass_def)
qed

lemma demo_body:
  "\<exists>s. processing_body demo_context \<lparr>up_users = js_entries demo_users, up_next = None, up_requestId = None\<rparr>
      \<lparr>pc_client = demo_session [], pc_evaluator = new_evaluator, pc_metadataByUrl = [], pc_lastRequestId = None, pc_pass = empty_pass\<rparr> = (Inr (), s)
    \<and> pc_client s = demo_session demo_posted \<and> pc_pass s = demo_pass \<and> pc_lastRequestId s = None"
proof -
  have sel: "cx_selectedChildren demo_context = demo_selected" by (simp add: demo_context_def)
  let ?p = "\<lparr>pg_complete = 1, pg_incomplete = 0, pg_scannedUsers = 1, pg_pages = 1, pg_submitted = 0, pg_batches = 0, pg_users = js_entries demo_users\<rparr>"
  let ?s = "\<lparr>pc_client = demo_session [], pc_evaluator = demo_evaluator, pc_metadataByUrl = [(''/m'', demo_metadata)], pc_lastRequestId = None, pc_pass = ?p\<rparr>"
  obtain v where v: "js_entries demo_users = [(''did'', v)]" "classify_user demo_selected (''did'', v) = Inr (UserComplete ''/m'' [(''voting_engagement'', ''five'')])"
    using demo_entry demo_classified by blast
  have user: "\<lparr>eu_did = ''did'', eu_keyId = ''k'', eu_ciphertexts = [(''voting_engagement'', ''five'')]\<rparr> = demo_user" by (simp add: demo_user_def)
  have "classify_page demo_context (js_entries demo_users) \<lparr>pc_client = demo_session [], pc_evaluator = new_evaluator, pc_metadataByUrl = [],
      pc_lastRequestId = None, pc_pass = empty_pass\<lparr>pg_pages := 1\<rparr>\<rparr> = (Inr [demo_user], ?s)"
    by (simp add: v rs_bind_def on_pass_def rs_modify_def rs_lift_def sel demo_resolved rs_ret_def user empty_pass_def)
  moreover obtain s where "submitPage demo_context [demo_user] ?s = (Inr (), s)" "pc_client s = demo_session demo_posted"
    "pc_pass s = ?p\<lparr>pg_submitted := 1, pg_batches := 1\<rparr>" "pc_lastRequestId s = None"
    using demo_submitted[of "[(''/m'', demo_metadata)]" ?p] by auto
  ultimately show ?thesis
    by (intro exI[of _ s]) (simp add: processing_body_def rs_bind_def on_pass_def rs_modify_def keep_requestId_def empty_pass_def demo_pass_def)
qed

lemma demo_run:
  "\<exists>s. submit_custom_encrypted_scores demo_seal demo_definitions (deep_id_clients demo_net demo_config) demo_submission (demo_session [])
     = Some (Inr (EncryptedScoresSubmitted \<lparr>sd_complete = 1, sd_incomplete = 0, sd_scannedUsers = 1, sd_pages = 1, sd_cursorRestarts = 0, sd_lastRequestId = None\<rparr>
         1 1 (fst (stats (pc_evaluator s)))), s\<lparr>pc_evaluator := dispose (pc_evaluator s)\<rparr>)
     \<and> pc_client s = demo_session demo_posted \<and> pc_pass s = demo_pass"
proof -
  let ?s0 = "\<lparr>pc_client = demo_session [], pc_evaluator = new_evaluator, pc_metadataByUrl = [], pc_lastRequestId = None, pc_pass = empty_pass\<rparr>"
  let ?page = "\<lparr>up_users = js_entries demo_users, up_next = None, up_requestId = None\<rparr>"
  have "cx_client demo_context = demo_deep_client (scope_text demo_selected @ '' post_scores'')" by (simp add: demo_context_def deep_id_clients_def)
  then have page: "processing_page demo_context None ?s0 = (Inr ?page, ?s0)" by (simp add: processing_page_def demo_page)
  obtain s where s: "processing_body demo_context ?page ?s0 = (Inr (), s)" "pc_client s = demo_session demo_posted" "pc_pass s = demo_pass" "pc_lastRequestId s = None"
    using demo_body by blast
  have "runProcessingPass demo_context ?s0 = Some (Inr (), s)" by (simp add: runProcessingPass_def iterateUsers.simps page s(1))
  then have "submission_passes demo_context 0 CURSOR_RESTART_LIMIT ?s0 = Some (Inr (EncryptedScoresSubmitted (diagnostics_of 0 s) 1 1 (fst (stats (pc_evaluator s)))), s)"
    using s(3) by (subst submission_passes.simps) (simp add: demo_pass_def)
  moreover have "diagnostics_of 0 s = \<lparr>sd_complete = 1, sd_incomplete = 0, sd_scannedUsers = 1, sd_pages = 1, sd_cursorRestarts = 0, sd_lastRequestId = None\<rparr>"
    using s(3,4) by (simp add: diagnostics_of_def demo_pass_def)
  ultimately show ?thesis using s(2,3)
    by (intro exI[of _ s]) (simp add: submit_custom_encrypted_scores_def demo_context_built Let_def del: submission_passes.simps)
qed

theorem submitted_run_posted_everyone_witness:
  "\<exists>diagnostics keys s posted user. submit_custom_encrypted_scores demo_seal demo_definitions (deep_id_clients demo_net demo_config) demo_submission (demo_session [])
       = Some (Inr (EncryptedScoresSubmitted diagnostics 1 1 keys), s)
     \<and> sd_complete diagnostics = 1 \<and> di_posts (pc_client s) = posted \<and> length posted = 1
     \<and> accepted_user demo_seal demo_plan ''ts'' posted user \<and> sl_live (ev_seal (pc_evaluator s)) = []"
proof -
  let ?d = "\<lparr>sd_complete = 1, sd_incomplete = 0, sd_scannedUsers = 1, sd_pages = 1, sd_cursorRestarts = 0, sd_lastRequestId = None\<rparr>"
  obtain s where run: "submit_custom_encrypted_scores demo_seal demo_definitions (deep_id_clients demo_net demo_config) demo_submission (demo_session [])
     = Some (Inr (EncryptedScoresSubmitted ?d 1 1 (fst (stats (pc_evaluator s)))), s\<lparr>pc_evaluator := dispose (pc_evaluator s)\<rparr>)"
    and s: "pc_client s = demo_session demo_posted" "pc_pass s = demo_pass" using demo_run by blast
  have ctx: "cx_plan demo_context = demo_plan" "cx_selectedChildren demo_context = demo_selected" "ei_timestamp demo_submission = ''ts''" by (simp_all add: demo_context_def demo_submission_def)
  obtain v where v: "js_entries demo_users = [(''did'', v)]" "classify_user demo_selected (''did'', v) = Inr (UserComplete ''/m'' [(''voting_engagement'', ''five'')])"
    using demo_entry demo_classified by blast
  let ?s = "s\<lparr>pc_evaluator := dispose (pc_evaluator s)\<rparr>"
  obtain ctx posted where c: "submission_context demo_seal demo_definitions (deep_id_clients demo_net demo_config) demo_submission = Inr ctx"
    and p: "di_posts (pc_client ?s) = di_posts (demo_session []) @ posted" and live: "sl_live (ev_seal (pc_evaluator ?s)) = []"
    and each: "\<forall>entry \<in> set (pg_users (pc_pass ?s)). classify_user (cx_selectedChildren ctx) entry = Inr UserIncomplete
        \<or> (\<exists>user. page_user (cx_selectedChildren ctx) (pc_metadataByUrl ?s) entry user
              \<and> accepted_user demo_seal (cx_plan ctx) (ei_timestamp demo_submission) posted user)"
    using submitted_run_posted_everyone[OF run] by blast
  have "ctx = demo_context" using c demo_context_built by simp
  moreover have "(''did'', v) \<in> set (pg_users (pc_pass ?s))" using s(2) v(1) by (simp add: demo_pass_def)
  ultimately obtain user where "accepted_user demo_seal demo_plan ''ts'' posted user" using each v(2) ctx by fastforce
  moreover have "posted = demo_posted" using p s(1) by (simp add: demo_session_def)
  ultimately show ?thesis using run live s(1)
    by (intro exI[of _ ?d] exI[of _ "fst (stats (pc_evaluator s))"] exI[of _ ?s] exI[of _ demo_posted] exI[of _ user])
      (simp add: demo_session_def demo_posted_def)
qed

end
