(* ===== verification/Deep_Id_Posting.thy ===== *)
theory Deep_Id_Posting
  imports Deep_Id_Scores
begin

text \<open>
  The raw scores that are posted to DeepID: those of the children of a custom score before its encrypted half
  (\<^verbatim>\<open>deep-id-submit-custom-scores.activities.ts\<close>) and those of a standalone snapshot after it is completed
  (\<^verbatim>\<open>deep-id-post-scores.activities.ts\<close>).

  Object storage and the CSV package are arguments: the text of an object, and the rows of a text.  Logging and heartbeats are left out.
\<close>

section \<open>Raw scores of the children\<close>

datatype posting_error = ClientError deep_error | StorageFailed string | ErrorText string

record ScoreFiles =
  sf_getObject :: "string \<Rightarrow> string + string"
  sf_parse :: "string \<Rightarrow> string + (string \<times> string) list list"

definition CHILD_SCORE_TYPES :: "string list" where
  "CHILD_SCORE_TYPES = [''voting_engagement'', ''contribution_score'', ''proposal_engagement'', ''token_value_over_time'',
     ''github_engagement'', ''discord_engagement'', ''mattermost_engagement'']"

definition POST_CHUNK_SIZE :: nat where "POST_CHUNK_SIZE = 500"

definition EXPECTED_DROP_MESSAGE :: string where "EXPECTED_DROP_MESSAGE = ''User not found''"

record RawScoreRow =
  rw_did :: string
  rw_score :: jsnum

record ResolvedChild =
  rc_scoreType :: string
  rc_csvKey :: string
  rc_scoreColumnKey :: string

text \<open>The two variables of \<^verbatim>\<open>createObservedMinMaxObserver\<close>; \<^const>\<open>None\<close> is \<^verbatim>\<open>null\<close> in both.\<close>

type_synonym observer = "(jsnum \<times> jsnum) option"

definition observer_accept :: "jsnum \<Rightarrow> observer \<Rightarrow> observer" where
  "observer_accept score obs =
     (case obs of
        None \<Rightarrow> Some (score, score)
      | Some (mn, mx) \<Rightarrow> Some (if jless score mn then score else mn, if jless mx score then score else mx))"

definition observer_finish :: "observer \<Rightarrow> NormalizationObservation option" where
  "observer_finish obs = map_option (\<lambda>(mn, mx). \<lparr>no_method = OBSERVED_MIN_MAX, no_min = mn, no_max = mx\<rparr>) obs"

definition resolveNormalizationMethod :: "ScoreDefinition \<Rightarrow> posting_error + string" where
  "resolveNormalizationMethod d =
     (let normMethod = or_default (sd_normalization d) OBSERVED_MIN_MAX
      in if normMethod \<noteq> OBSERVED_MIN_MAX then Inl (ErrorText (''Unsupported normalization method: '' @ normMethod)) else Inr normMethod)"

definition resolveChild ::
  "(string \<Rightarrow> string \<Rightarrow> string + ScoreDefinition) \<Rightarrow> (string \<times> string) list \<Rightarrow> CustomScoreChild \<Rightarrow> posting_error + ResolvedChild" where
  "resolveChild definitions outputs child =
     (if cs_key child \<notin> set CHILD_SCORE_TYPES then Inl (ErrorText (''Child algorithm '' @ quoted (cs_key child) @ '' is not a DeepID score type''))
      else
        (case definitions (cs_key child) (cs_version child) of
           Inl m \<Rightarrow> Inl (ErrorText m)
         | Inr d \<Rightarrow>
             (case getPrimaryCsvOutput d of
                Inl m \<Rightarrow> Inl (ErrorText m)
              | Inr p \<Rightarrow>
                  (let missing = Inl (ErrorText (''Child algorithm '' @ quoted (cs_key child) @ '' has no native CSV output to submit''))
                   in case map_of outputs (cs_key child) of
                        None \<Rightarrow> missing
                      | Some csvKey \<Rightarrow>
                          if js_trim csvKey = [] then missing
                          else Inr \<lparr>rc_scoreType = cs_key child, rc_csvKey = csvKey, rc_scoreColumnKey = pc_scoreColumnKey p\<rparr>))))"

definition resolveChildren ::
  "(string \<Rightarrow> string \<Rightarrow> string + ScoreDefinition) \<Rightarrow> (string \<times> string) list \<Rightarrow> CustomScoreChild list \<Rightarrow> posting_error + ResolvedChild list" where
  "resolveChildren definitions outputs children = map_result (resolveChild definitions outputs) children"

definition row_score :: "string \<Rightarrow> (string \<times> string) list \<Rightarrow> jsnum" where
  "row_score column row = (case map_of row column of None \<Rightarrow> NaN | Some raw \<Rightarrow> if raw = [] then NaN else js_to_number raw)"

definition row_did :: "(string \<times> string) list \<Rightarrow> string" where
  "row_did row = (case map_of row ''did'' of None \<Rightarrow> [] | Some d \<Rightarrow> js_trim d)"

fun native_rows :: "string \<Rightarrow> string \<Rightarrow> string list \<Rightarrow> (string \<times> string) list list \<Rightarrow> posting_error + RawScoreRow list" where
  "native_rows childKey column seen [] = Inr []"
| "native_rows childKey column seen (row # rows) =
     (let did = row_did row; score = row_score column row
      in if did = [] then Inl (ErrorText (''Child algorithm '' @ quoted childKey @ '' result is missing a did value''))
         else if did \<in> set seen then Inl (ErrorText (''Child algorithm '' @ quoted childKey @ '' result contains duplicate did '' @ quoted did))
         else if \<not> jis_finite score then Inl (ErrorText (''Child algorithm '' @ quoted childKey @ '' result contains a non-finite score for '' @ quoted did))
         else map_sum id (\<lambda>parsed. \<lparr>rw_did = did, rw_score = score\<rparr> # parsed) (native_rows childKey column (did # seen) rows))"

definition parseNativeScoreRows :: "ScoreFiles \<Rightarrow> string \<Rightarrow> string \<Rightarrow> string \<Rightarrow> posting_error + RawScoreRow list" where
  "parseNativeScoreRows files csvText childKey scoreColumnKey =
     (case sf_parse files csvText of Inl m \<Rightarrow> Inl (ErrorText m) | Inr rows \<Rightarrow> native_rows childKey scoreColumnKey [] rows)"

record child_counts =
  cc_observer :: observer
  cc_ok :: nat
  cc_dropped :: nat
  cc_rejected :: nat
  cc_lastRequestId :: "string option"

definition no_counts :: child_counts where
  "no_counts = \<lparr>cc_observer = None, cc_ok = 0, cc_dropped = 0, cc_rejected = 0, cc_lastRequestId = None\<rparr>"

definition count_row :: "(string \<times> string) list \<Rightarrow> child_counts \<Rightarrow> RawScoreRow \<Rightarrow> child_counts" where
  "count_row results n row =
     (let message = map_of results (rw_did row)
      in if message = Some ''OK'' then n\<lparr>cc_observer := observer_accept (rw_score row) (cc_observer n), cc_ok := cc_ok n + 1\<rparr>
         else if message = Some EXPECTED_DROP_MESSAGE then n\<lparr>cc_dropped := cc_dropped n + 1\<rparr>
         else n\<lparr>cc_rejected := cc_rejected n + 1\<rparr>)"

definition raw_request :: "string \<Rightarrow> string \<Rightarrow> RawScoreRow list \<Rightarrow> PostScoresRequest" where
  "raw_request scoreType timestamp batch = from_entries (map (\<lambda>row. (rw_did row, PlainScoreEntry (rw_score row) scoreType timestamp)) batch)"

type_synonym ('s, 'a) posting = "('s, posting_error, 'a) rs"

definition post_or_fail :: "'s DeepIdClient \<Rightarrow> PostScoresRequest \<Rightarrow> ('s, PostScoresResponse) posting" where
  "post_or_fail client scores s = (case cl_postScores client scores s of (r, s') \<Rightarrow> (map_sum ClientError id r, s'))"

fun post_raw_batches :: "'s DeepIdClient \<Rightarrow> string \<Rightarrow> string \<Rightarrow> RawScoreRow list list \<Rightarrow> child_counts \<Rightarrow> ('s, child_counts) posting" where
  "post_raw_batches client scoreType timestamp [] n = rs_ret n"
| "post_raw_batches client scoreType timestamp (batch # batches) n =
     rs_bind (post_or_fail client (raw_request scoreType timestamp batch)) (\<lambda>response.
       post_raw_batches client scoreType timestamp batches
         ((foldl (count_row (pr_results response)) n batch)\<lparr>cc_lastRequestId :=
            (case pr_requestId response of Some i \<Rightarrow> Some i | None \<Rightarrow> cc_lastRequestId n)\<rparr>))"

record CustomRawScoresChildResult =
  cr_scoreType :: string
  cr_csvKey :: string
  cr_observation :: NormalizationObservation
  cr_posted :: nat
  cr_ok :: nat
  cr_dropped :: nat
  cr_rejected :: nat
  cr_lastRequestId :: "string option"

definition read_rows :: "ScoreFiles \<Rightarrow> ResolvedChild \<Rightarrow> posting_error + RawScoreRow list" where
  "read_rows files child =
     (case sf_getObject files (rc_csvKey child) of
        Inl m \<Rightarrow> Inl (StorageFailed m)
      | Inr csvText \<Rightarrow> parseNativeScoreRows files csvText (rc_scoreType child) (rc_scoreColumnKey child))"

definition submit_child :: "'s DeepIdClient \<Rightarrow> ScoreFiles \<Rightarrow> string \<Rightarrow> ResolvedChild \<Rightarrow> ('s, CustomRawScoresChildResult) posting" where
  "submit_child client files timestamp child =
     rs_bind (rs_lift (read_rows files child)) (\<lambda>rows.
     rs_bind (post_raw_batches client (rc_scoreType child) timestamp (chunks POST_CHUNK_SIZE rows) no_counts) (\<lambda>n.
       case observer_finish (cc_observer n) of
         None \<Rightarrow> rs_throw (ErrorText (''Child algorithm '' @ quoted (rc_scoreType child) @ '' has no accepted raw scores: '' @ OBSERVED_MIN_MAX
                   @ '' needs at least one OK entry''))
       | Some observation \<Rightarrow>
           rs_ret \<lparr>cr_scoreType = rc_scoreType child, cr_csvKey = rc_csvKey child, cr_observation = observation, cr_posted = length rows,
                   cr_ok = cc_ok n, cr_dropped = cc_dropped n, cr_rejected = cc_rejected n, cr_lastRequestId = cc_lastRequestId n\<rparr>))"

fun submit_children :: "'s DeepIdClient \<Rightarrow> ScoreFiles \<Rightarrow> string \<Rightarrow> ResolvedChild list \<Rightarrow> ('s, CustomRawScoresChildResult list) posting" where
  "submit_children client files timestamp [] = rs_ret []"
| "submit_children client files timestamp (child # children) =
     rs_bind (submit_child client files timestamp child) (\<lambda>result.
     rs_bind (submit_children client files timestamp children) (\<lambda>results. rs_ret (result # results)))"

record RawSubmissionInput =
  ri_key :: string
  ri_version :: string
  ri_inputs :: "AlgorithmPresetInput list"
  ri_outputs :: "(string \<times> string) list"
  ri_timestamp :: string

definition submit_custom_raw_scores ::
  "(string \<Rightarrow> string \<Rightarrow> string + ScoreDefinition) \<Rightarrow> 's DeepIdClient \<Rightarrow> ScoreFiles \<Rightarrow> RawSubmissionInput \<Rightarrow> ('s, CustomRawScoresChildResult list) posting" where
  "submit_custom_raw_scores definitions client files input =
     (case definitions (ri_key input) (ri_version input) of
        Inl m \<Rightarrow> rs_throw (ErrorText m)
      | Inr d \<Rightarrow>
          if \<not> sd_combined d then rs_throw (ErrorText (''submitCustomRawScores supports only combined snapshots, got '' @ quoted (sd_key d)))
          else
            rs_bind (rs_lift (resolveNormalizationMethod d)) (\<lambda>_.
            rs_bind (rs_lift (map_sum ErrorText id (parseCustomScoreChildren (ri_inputs input)))) (\<lambda>children.
            rs_bind (rs_lift (resolveChildren definitions (ri_outputs input) children)) (\<lambda>resolved.
              submit_children client files (ri_timestamp input) resolved))))"

section \<open>Scores of a standalone snapshot\<close>

record PostedScores =
  po_attempted :: bool
  po_posted :: nat
  po_ok :: int
  po_failed :: nat
  po_dropped :: nat
  po_skipped :: nat

definition EMPTY_RESULT :: PostedScores where
  "EMPTY_RESULT = \<lparr>po_attempted = False, po_posted = 0, po_ok = 0, po_failed = 0, po_dropped = 0, po_skipped = 0\<rparr>"

definition http_category :: "nat \<Rightarrow> string" where
  "http_category statusCode =
     (if statusCode = 401 \<or> statusCode = 403 then ''auth_failed'' else if statusCode = 429 then ''rate_limited''
      else if 500 \<le> statusCode then ''upstream_error'' else ''rejected'')"

definition toFailureCategory :: "posting_error \<Rightarrow> string" where
  "toFailureCategory e =
     (case e of
        ClientError (HttpErr statusCode _ _) \<Rightarrow> http_category statusCode
      | ClientError (ContractError _ _) \<Rightarrow> ''contract_violation''
      | StorageFailed _ \<Rightarrow> ''output_unreadable''
      | _ \<Rightarrow> ''unknown'')"

definition toSafeFailure :: "posting_error \<Rightarrow> string" where
  "toSafeFailure e = ''DeepID score posting failed: '' @ toFailureCategory e"

text \<open>The primary output as this activity looks it up; a definition without one is skips.\<close>

definition primary_csv :: "ScoreDefinition \<Rightarrow> PrimaryCsv option" where
  "primary_csv d =
     (case sd_csvOutputs d of
        [] \<Rightarrow> None
      | csv # _ \<Rightarrow> map_option (\<lambda>column. \<lparr>pc_outputKey = co_key csv, pc_scoreColumnKey = column\<rparr>) (find (\<lambda>column. column \<noteq> ''did'') (co_columns csv)))"

definition collectStandaloneSource :: "string \<Rightarrow> (string \<times> string) list \<Rightarrow> ScoreDefinition \<Rightarrow> ResolvedChild list" where
  "collectStandaloneSource algorithmKey outputs d =
     (if algorithmKey \<notin> set CHILD_SCORE_TYPES then []
      else
        (case primary_csv d of
           None \<Rightarrow> []
         | Some p \<Rightarrow>
             (case map_of outputs (pc_outputKey p) of
                None \<Rightarrow> []
              | Some csvKey \<Rightarrow>
                  if js_trim csvKey = [] then []
                  else [\<lparr>rc_scoreType = algorithmKey, rc_csvKey = csvKey, rc_scoreColumnKey = pc_scoreColumnKey p\<rparr>])))"

definition did_char :: "char \<Rightarrow> bool" where
  "did_char c \<longleftrightarrow> is_digit c \<or> char_between (CHR ''a'') (CHR ''z'') c \<or> char_between (CHR ''A'') (CHR ''Z'') c"

text \<open>The pattern \<^verbatim>\<open>did:(plc|sub):[a-zA-Z0-9]{24}\<close>.\<close>

definition isValidDid :: "string \<Rightarrow> bool" where
  "isValidDid s \<longleftrightarrow> (take 8 s = ''did:plc:'' \<or> take 8 s = ''did:sub:'') \<and> length s = 32 \<and> list_all did_char (drop 8 s)"

fun postable_scores :: "string \<Rightarrow> string \<Rightarrow> string \<Rightarrow> (string \<times> string) list list \<Rightarrow> PostScoresRequest \<times> nat \<Rightarrow> PostScoresRequest \<times> nat" where
  "postable_scores scoreType column timestamp [] acc = acc"
| "postable_scores scoreType column timestamp (row # rows) (scores, skips) =
     (let did = row_did row; score = row_score column row
      in if \<not> isValidDid did \<or> \<not> jis_finite score then postable_scores scoreType column timestamp rows (scores, skips + 1)
         else postable_scores scoreType column timestamp rows (AList.update did (PlainScoreEntry score scoreType timestamp) scores, skips))"

definition unexpected :: "string \<times> string \<Rightarrow> bool" where
  "unexpected = (\<lambda>(_, message). message \<noteq> ''OK'' \<and> message \<noteq> EXPECTED_DROP_MESSAGE)"

fun post_score_batches :: "'s DeepIdClient \<Rightarrow> PostScoresRequest list \<Rightarrow> PostedScores \<Rightarrow> ('s, PostedScores) posting" where
  "post_score_batches client [] n = rs_ret n"
| "post_score_batches client (batch # batches) n =
     rs_bind (post_or_fail client (from_entries batch)) (\<lambda>response.
       post_score_batches client batches
         (n\<lparr>po_ok := po_ok n + pr_ok response,
            po_failed := po_failed n + length (filter unexpected (pr_results response)),
            po_dropped := po_dropped n + length (filter (\<lambda>(_, message). message = EXPECTED_DROP_MESSAGE) (pr_results response))\<rparr>))"

definition post_source :: "'s DeepIdClient \<Rightarrow> ScoreFiles \<Rightarrow> string \<Rightarrow> ResolvedChild \<Rightarrow> PostedScores \<Rightarrow> ('s, PostedScores) posting" where
  "post_source client files timestamp src n =
     (case sf_getObject files (rc_csvKey src) of
        Inl m \<Rightarrow> rs_throw (StorageFailed m)
      | Inr csvText \<Rightarrow>
          (case sf_parse files csvText of
             Inl m \<Rightarrow> rs_throw (ErrorText m)
           | Inr rows \<Rightarrow>
               (case postable_scores (rc_scoreType src) (rc_scoreColumnKey src) timestamp rows ([], 0) of
                  (scores, skips) \<Rightarrow>
                    (let n' = n\<lparr>po_skipped := po_skipped n + skips\<rparr>
                     in if scores = [] then rs_ret n'
                        else post_score_batches client (chunks POST_CHUNK_SIZE scores) (n'\<lparr>po_posted := po_posted n + length scores\<rparr>)))))"

fun post_sources :: "'s DeepIdClient \<Rightarrow> ScoreFiles \<Rightarrow> string \<Rightarrow> ResolvedChild list \<Rightarrow> PostedScores \<Rightarrow> ('s, PostedScores) posting" where
  "post_sources client files timestamp [] n = rs_ret n"
| "post_sources client files timestamp (src # srcs) n = rs_bind (post_source client files timestamp src n) (post_sources client files timestamp srcs)"

record SnapshotToPost =
  sp_key :: string
  sp_version :: string
  sp_outputs :: "(string \<times> string) list"
  sp_completedAt :: "string option"

definition post_scores ::
  "(string \<Rightarrow> string \<Rightarrow> string + ScoreDefinition) \<Rightarrow> 's DeepIdClient \<Rightarrow> ScoreFiles \<Rightarrow> string \<Rightarrow> SnapshotToPost \<Rightarrow> string option \<Rightarrow> ('s, PostedScores) posting" where
  "post_scores definitions client files now snap timestamp =
     (case definitions (sp_key snap) (sp_version snap) of
        Inl m \<Rightarrow> rs_throw (ErrorText m)
      | Inr d \<Rightarrow>
          if sd_combined d then rs_ret EMPTY_RESULT
          else
            (let sources = collectStandaloneSource (sp_key snap) (sp_outputs snap) d
             in if sources = [] then rs_ret EMPTY_RESULT
                else post_sources client files (or_default timestamp (or_default (sp_completedAt snap) now)) sources (EMPTY_RESULT\<lparr>po_attempted := True\<rparr>)))"

definition post_snapshot_scores ::
  "(string \<Rightarrow> string \<Rightarrow> string + ScoreDefinition) \<Rightarrow> 's DeepIdClient \<Rightarrow> ScoreFiles \<Rightarrow> string \<Rightarrow> SnapshotToPost \<Rightarrow> string option \<Rightarrow> 's
    \<Rightarrow> (string + PostedScores) \<times> 's" where
  "post_snapshot_scores definitions client files now snap timestamp s =
     (case post_scores definitions client files now snap timestamp s of (r, s') \<Rightarrow> (map_sum toSafeFailure id r, s'))"

section \<open>What the raw submission observed\<close>

lemma post_or_fail_Inr: "post_or_fail client scores s = (Inr r, s') \<longleftrightarrow> cl_postScores client scores s = (Inr r, s')"
  by (auto simp: post_or_fail_def split: prod.splits) (case_tac x1; simp)+

text \<open>The rows of a batch that its answer accepts, and of all batches of a child.\<close>

definition accepted_rows :: "(string \<times> string) list \<Rightarrow> RawScoreRow list \<Rightarrow> RawScoreRow list" where
  "accepted_rows results batch = filter (\<lambda>row. map_of results (rw_did row) = Some ''OK'') batch"

fun all_accepted :: "RawScoreRow list list \<Rightarrow> (PostScoresRequest \<times> (string \<times> string) list) list \<Rightarrow> RawScoreRow list" where
  "all_accepted (batch # batches) ((_, results) # ps) = accepted_rows results batch @ all_accepted batches ps"
| "all_accepted _ _ = []"

definition observes :: "observer \<Rightarrow> jsnum list \<Rightarrow> bool" where
  "observes obs scores \<longleftrightarrow>
     (case obs of
        None \<Rightarrow> scores = []
      | Some (mn, mx) \<Rightarrow> mn \<in> set scores \<and> mx \<in> set scores \<and> list_all (\<lambda>x. jle mn x \<and> jle x mx) scores)"

lemma jle_Fin [simp]: "jle (Fin a) (Fin b) \<longleftrightarrow> a \<le> b"
  by (auto simp: jle_def jeq_def)

lemma observes_accept:
  assumes "observes obs scores" "list_all jis_finite (score # scores)"
  shows "observes (observer_accept score obs) (scores @ [score])"
proof (cases obs)
  case None
  obtain r where "score = Fin r" using assms(2) by (auto simp: finite_Fin)
  then show ?thesis using assms(1) None by (simp add: observes_def observer_accept_def)
next
  case (Some b)
  obtain mn mx where b: "b = (mn, mx)" by (cases b)
  have fin: "\<exists>q. x = Fin q" if "x \<in> set (score # scores)" for x using that assms(2) by (auto simp: list_all_iff finite_Fin)
  have o: "mn \<in> set scores" "mx \<in> set scores" "\<And>x. x \<in> set scores \<Longrightarrow> jle mn x \<and> jle x mx"
    using assms(1) Some b by (auto simp: observes_def list_all_iff)
  obtain p q r where v: "mn = Fin p" "mx = Fin q" "score = Fin r" using fin o(1,2) by (metis list.set_intros)
  have "jle (Fin (min r p)) x \<and> jle x (Fin (max q r))" if x: "x \<in> set (scores @ [score])" for x
  proof -
    obtain z where z: "x = Fin z" using fin x by auto
    show ?thesis using x o(3)[of x] v z by auto
  qed
  moreover have "observer_accept score obs = Some (Fin (min r p), Fin (max q r))" using Some b v by (simp add: observer_accept_def min_def max_def)
  ultimately show ?thesis using o(1,2) v by (simp add: observes_def list_all_iff min_def max_def)
qed

definition counted :: "child_counts \<Rightarrow> nat" where
  "counted n = cc_ok n + cc_dropped n + cc_rejected n"

lemma count_rows:
  "cc_ok (foldl (count_row results) n batch) = cc_ok n + length (accepted_rows results batch)"
  "counted (foldl (count_row results) n batch) = counted n + length batch"
  by (induction batch arbitrary: n) (auto simp: count_row_def accepted_rows_def counted_def Let_def)

lemma observe_rows:
  assumes "observes (cc_observer n) scores" "list_all jis_finite scores" "list_all (\<lambda>row. jis_finite (rw_score row)) batch"
  shows "observes (cc_observer (foldl (count_row results) n batch)) (scores @ map rw_score (accepted_rows results batch))"
  using assms
proof (induction batch arbitrary: n scores)
  case (Cons row batch)
  show ?case
  proof (cases "map_of results (rw_did row) = Some ''OK''")
    case True
    have "observes (cc_observer (count_row results n row)) (scores @ [rw_score row])"
      using observes_accept[OF Cons.prems(1)] Cons.prems(2,3) True by (simp add: count_row_def)
    then show ?thesis using Cons.IH[of "count_row results n row" "scores @ [rw_score row]"] Cons.prems True by (simp add: accepted_rows_def)
  next
    case False
    then have "cc_observer (count_row results n row) = cc_observer n" by (simp add: count_row_def Let_def)
    then show ?thesis using Cons.IH[of "count_row results n row" scores] Cons.prems False by (simp add: accepted_rows_def)
  qed
qed (simp add: accepted_rows_def)

lemma accepted_subset: "set (accepted_rows results batch) \<subseteq> set batch"
  by (auto simp: accepted_rows_def)

context deep_client
begin

lemma raw_batches_Inr:
  assumes "post_raw_batches client scoreType timestamp batches n s = (Inr n', s')"
    and "observes (cc_observer n) scores" "list_all jis_finite scores" "list_all (\<lambda>row. jis_finite (rw_score row)) (concat batches)"
  shows "\<exists>ps. posts s' = posts s @ ps \<and> map fst ps = map (raw_request scoreType timestamp) batches
    \<and> cc_ok n' = cc_ok n + length (all_accepted batches ps) \<and> counted n' = counted n + length (concat batches)
    \<and> observes (cc_observer n') (scores @ map rw_score (all_accepted batches ps))"
  using assms
proof (induction batches arbitrary: n s scores)
  case Nil
  then show ?case by simp
next
  case (Cons batch batches)
  obtain r s1 where r: "cl_postScores client (raw_request scoreType timestamp batch) s = (Inr r, s1)"
    and rest: "post_raw_batches client scoreType timestamp batches ((foldl (count_row (pr_results r)) n batch)\<lparr>cc_lastRequestId :=
            (case pr_requestId r of Some i \<Rightarrow> Some i | None \<Rightarrow> cc_lastRequestId n)\<rparr>) s1 = (Inr n', s')"
    using Cons.prems(1) by (auto simp: rs_bind_Inr post_or_fail_Inr)
  let ?acc = "accepted_rows (pr_results r) batch"
  have obs: "observes (cc_observer (foldl (count_row (pr_results r)) n batch)) (scores @ map rw_score ?acc)"
    using observe_rows[OF Cons.prems(2,3)] Cons.prems(4) by simp
  have fin: "list_all jis_finite (scores @ map rw_score ?acc)" using Cons.prems(3,4) accepted_subset by (fastforce simp: list_all_iff)
  obtain ps where ps: "posts s' = posts s1 @ ps" "map fst ps = map (raw_request scoreType timestamp) batches"
    "cc_ok n' = cc_ok n + length ?acc + length (all_accepted batches ps)" "counted n' = counted n + length batch + length (concat batches)"
    "observes (cc_observer n') ((scores @ map rw_score ?acc) @ map rw_score (all_accepted batches ps))"
    using Cons.IH[OF rest _ fin] obs Cons.prems(4) count_rows[of "pr_results r" n batch] by (auto simp: counted_def)
  then show ?case using post_logs[OF r]
    by (intro exI[of _ "(raw_request scoreType timestamp batch, pr_results r) # ps"]) (simp add: append.assoc)
qed

end

lemma native_rows_Inr:
  "native_rows childKey column seen rows = Inr parsed \<Longrightarrow>
   distinct (map rw_did parsed) \<and> set (map rw_did parsed) \<inter> set seen = {} \<and> list_all (\<lambda>row. jis_finite (rw_score row)) parsed \<and> length parsed = length rows"
proof (induction rows arbitrary: seen parsed)
  case (Cons row rows)
  obtain ps where ps: "native_rows childKey column (row_did row # seen) rows = Inr ps" "parsed = \<lparr>rw_did = row_did row, rw_score = row_score column row\<rparr> # ps"
    and ok: "row_did row \<notin> set seen" "jis_finite (row_score column row)"
    using Cons.prems by (auto simp: Let_def split: if_splits) (cases "native_rows childKey column (row_did row # seen) rows"; simp)+
  show ?case using Cons.IH[OF ps(1)] ps(2) ok by auto
qed simp

lemma read_rows_Inr:
  assumes "read_rows files child = Inr rows"
  shows "distinct (map rw_did rows)" "list_all (\<lambda>row. jis_finite (rw_score row)) rows"
  using assms native_rows_Inr by (auto simp: read_rows_def parseNativeScoreRows_def split: sum.splits)

text \<open>What a child's result says about the answers \<open>ps\<close> to its batches.\<close>

definition result_of_posts ::
  "ScoreFiles \<Rightarrow> string \<Rightarrow> (PostScoresRequest \<times> (string \<times> string) list) list \<Rightarrow> ResolvedChild \<Rightarrow> CustomRawScoresChildResult \<Rightarrow> bool" where
  "result_of_posts files timestamp ps child r \<longleftrightarrow>
     (\<exists>rows. read_rows files child = Inr rows \<and> map fst ps = map (raw_request (rc_scoreType child) timestamp) (chunks POST_CHUNK_SIZE rows)
        \<and> cr_scoreType r = rc_scoreType child \<and> cr_posted r = length rows \<and> cr_ok r + cr_dropped r + cr_rejected r = cr_posted r
        \<and> cr_ok r = length (all_accepted (chunks POST_CHUNK_SIZE rows) ps)
        \<and> no_method (cr_observation r) = OBSERVED_MIN_MAX
        \<and> observes (Some (no_min (cr_observation r), no_max (cr_observation r))) (map rw_score (all_accepted (chunks POST_CHUNK_SIZE rows) ps)))"

context deep_client
begin

lemma submit_child_Inr:
  assumes "submit_child client files timestamp child s = (Inr r, s')"
  shows "\<exists>ps. posts s' = posts s @ ps \<and> result_of_posts files timestamp ps child r"
proof -
  obtain rows n where rows: "read_rows files child = Inr rows"
    and n: "post_raw_batches client (rc_scoreType child) timestamp (chunks POST_CHUNK_SIZE rows) no_counts s = (Inr n, s')"
    and fin: "observer_finish (cc_observer n) = Some (cr_observation r)" "cr_scoreType r = rc_scoreType child" "cr_posted r = length rows"
      "cr_ok r = cc_ok n" "cr_dropped r = cc_dropped n" "cr_rejected r = cc_rejected n"
    using assms by (auto simp: submit_child_def rs_bind_Inr rs_throw_def split: option.splits)
  have flat: "concat (chunks POST_CHUNK_SIZE rows) = rows" by (simp add: concat_chunks POST_CHUNK_SIZE_def)
  obtain ps where ps: "posts s' = posts s @ ps" "map fst ps = map (raw_request (rc_scoreType child) timestamp) (chunks POST_CHUNK_SIZE rows)"
    "cc_ok n = length (all_accepted (chunks POST_CHUNK_SIZE rows) ps)" "counted n = length rows"
    "observes (cc_observer n) (map rw_score (all_accepted (chunks POST_CHUNK_SIZE rows) ps))"
    using raw_batches_Inr[OF n, of "[]"] read_rows_Inr(2)[OF rows] flat by (auto simp: no_counts_def observes_def counted_def)
  have "cc_observer n = Some (no_min (cr_observation r), no_max (cr_observation r)) \<and> no_method (cr_observation r) = OBSERVED_MIN_MAX"
    using fin(1) by (cases "cc_observer n") (auto simp: observer_finish_def dest!: sym[of _ "cr_observation r"])
  then show ?thesis using ps rows fin by (auto simp: result_of_posts_def counted_def)
qed

lemma submit_children_Inr:
  assumes "submit_children client files timestamp children s = (Inr results, s')"
  shows "\<exists>pss. posts s' = posts s @ concat pss \<and> length pss = length children
    \<and> list_all2 (\<lambda>(child, ps) r. result_of_posts files timestamp ps child r) (zip children pss) results"
  using assms
proof (induction children arbitrary: s results)
  case Nil
  then show ?case by simp
next
  case (Cons child children)
  obtain r s1 rs where r: "submit_child client files timestamp child s = (Inr r, s1)" "submit_children client files timestamp children s1 = (Inr rs, s')" "results = r # rs"
    using Cons.prems by (auto simp: rs_bind_Inr)
  obtain ps where ps: "posts s1 = posts s @ ps" "result_of_posts files timestamp ps child r" using submit_child_Inr[OF r(1)] by blast
  obtain pss where "posts s' = posts s1 @ concat pss" "length pss = length children"
    "list_all2 (\<lambda>(child, ps) r. result_of_posts files timestamp ps child r) (zip children pss) rs" using Cons.IH[OF r(2)] by blast
  then show ?case using ps r(3) by (intro exI[of _ "ps # pss"]) simp
qed

end

section \<open>From the raw scores to the plan\<close>

lemma all_accepted_subset: "set (all_accepted batches ps) \<subseteq> set (concat batches)"
  by (induction batches ps rule: all_accepted.induct) (auto simp: accepted_rows_def)

lemma observed_bounds:
  assumes "result_of_posts files timestamp ps child r"
  shows "\<exists>m M. bounds_of (cr_observation r) m M"
proof -
  obtain rows where rows: "read_rows files child = Inr rows" "no_method (cr_observation r) = OBSERVED_MIN_MAX"
    and obs: "observes (Some (no_min (cr_observation r), no_max (cr_observation r))) (map rw_score (all_accepted (chunks POST_CHUNK_SIZE rows) ps))"
    using assms by (auto simp: result_of_posts_def)
  have fin: "\<exists>q. rw_score row = Fin q" if "row \<in> set (all_accepted (chunks POST_CHUNK_SIZE rows) ps)" for row
  proof -
    have "concat (chunks POST_CHUNK_SIZE rows) = rows" by (simp add: concat_chunks POST_CHUNK_SIZE_def)
    then have "set (all_accepted (chunks POST_CHUNK_SIZE rows) ps) \<subseteq> set rows"
      using all_accepted_subset[of "chunks POST_CHUNK_SIZE rows" ps] by (simp only:)
    then have "row \<in> set rows" using that by blast
    then show ?thesis using read_rows_Inr(2)[OF rows(1)] by (simp add: list_all_iff finite_Fin)
  qed
  have "no_min (cr_observation r) \<in> rw_score ` set (all_accepted (chunks POST_CHUNK_SIZE rows) ps)"
    "no_max (cr_observation r) \<in> rw_score ` set (all_accepted (chunks POST_CHUNK_SIZE rows) ps)"
    "jle (no_min (cr_observation r)) (no_max (cr_observation r))"
    using obs by (auto simp: observes_def list_all_iff)
  moreover from this(1,2) obtain m M where "no_min (cr_observation r) = Fin m" "no_max (cr_observation r) = Fin M" using fin by (metis imageE)
  ultimately show ?thesis using rows(2) by (intro exI[of _ m] exI[of _ M]) (auto simp: bounds_of_def jle_def jeq_def)
qed

lemma child_type_scope:
  "k \<in> set CHILD_SCORE_TYPES \<Longrightarrow> k @ ''_encr'' \<in> set ENCRYPTED_SCORE_SCOPES \<and> js_trim k \<noteq> []"
  by (auto simp: CHILD_SCORE_TYPES_def ENCRYPTED_SCORE_SCOPES_def js_trim_def js_is_space_def)

lemma collect_distinct:
  "distinct (map fst (acc @ obs)) \<Longrightarrow> collect_observations obs acc = Inr (acc @ obs)"
proof (induction obs arbitrary: acc)
  case (Cons ob obs)
  then show ?case by (cases ob) (auto simp: map_of_eq_None_iff)
qed simp

lemma map_result_total: "(\<And>x. x \<in> set xs \<Longrightarrow> f x = Inr (g x)) \<Longrightarrow> map_result f xs = Inr (map g xs)"
  by (induction xs) auto

lemma resolved_types:
  assumes "resolveChildren definitions outputs children = Inr resolved"
  shows "map rc_scoreType resolved = map cs_key children" "list_all (\<lambda>child. cs_key child \<in> set CHILD_SCORE_TYPES) children"
proof -
  have "list_all2 (\<lambda>child r. resolveChild definitions outputs child = Inr r) children resolved"
    using map_result_Inr assms by (auto simp: resolveChildren_def)
  then have "list_all2 (\<lambda>child r. rc_scoreType r = cs_key child \<and> cs_key child \<in> set CHILD_SCORE_TYPES) children resolved"
    by (rule list_all2_mono) (auto simp: resolveChild_def Let_def split: if_splits sum.splits option.splits)
  then show "map rc_scoreType resolved = map cs_key children" "list_all (\<lambda>child. cs_key child \<in> set CHILD_SCORE_TYPES) children"
    by (induction rule: list_all2_induct) auto
qed

text \<open>The input of the encrypted half, as the workflow builds it from the result of the raw half.\<close>

definition encrypted_input :: "RawSubmissionInput \<Rightarrow> CustomRawScoresChildResult list \<Rightarrow> EncryptedSubmissionInput" where
  "encrypted_input input results =
     \<lparr>ei_key = ri_key input, ei_version = ri_version input, ei_inputs = ri_inputs input,
      ei_observations = map (\<lambda>r. (cr_scoreType r, cr_observation r)) results, ei_timestamp = ri_timestamp input\<rparr>"

lemma observed_plan:
  assumes "parseCustomScoreChildren inputs = Inr children" "list_all (\<lambda>child. is_double (cs_weight child)) children"
    and "list_all (\<lambda>child. cs_key child \<in> set CHILD_SCORE_TYPES) children"
    and "\<And>child. child \<in> set children \<Longrightarrow> \<exists>m M. bounds_of (obs (cs_key child)) m M"
    and "buildEncryptedEvaluationPlan OBSERVED_MIN_MAX
      (map (\<lambda>child. \<lparr>ec_key = cs_key child, ec_weight = cs_weight child, ec_observation = obs (cs_key child)\<rparr>) children) = Inl e"
  shows "error_code e = CAPACITY_EXCEEDED"
proof -
  let ?cs = "map (\<lambda>child. \<lparr>ec_key = cs_key child, ec_weight = cs_weight child, ec_observation = obs (cs_key child)\<rparr>) children"
  note valid = parseCustomScoreChildren_valid[OF assms(1)]
  have wf: "list_all child_wf ?cs"
    using assms(2-4) valid child_type_scope by (fastforce simp: child_wf_def list_all_iff finite_Fin)
  have "map ec_key ?cs = map cs_key children" by simp
  moreover have "plan_weight ?cs = total_weight children" by (simp add: plan_weight_def total_weight_def foldl_map)
  ultimately show ?thesis using assms(5) plan_refused_for_capacity[OF _ wf, of e] valid by (simp add: comp_def)
qed

text \<open>
  C5: When the raw half of a custom score succeeds, each child's result describes the answers of DeepID to its own batches: every
  row was posted once, the counts add up to the rows, and the observed bounds are the least and the greatest score among
  exactly the rows that were accepted.  Given that, the encrypted half accepts what the raw half reports: before it contacts anyone
  it can only refuse because a coefficient or a bound leaves double precision.
\<close>

theorem raw_submission_fits_plan:
  assumes "submit_custom_raw_scores definitions (createDeepIdClient net config) files input c = (Inr results, s)"
    and "parseCustomScoreChildren (ri_inputs input) = Inr children" "list_all (\<lambda>child. is_double (cs_weight child)) children"
  shows "(\<exists>resolved posted. resolveChildren definitions (ri_outputs input) children = Inr resolved \<and> di_posts s = di_posts c @ concat posted
        \<and> length posted = length resolved
        \<and> list_all2 (\<lambda>(child, ps) r. result_of_posts files (ri_timestamp input) ps child r) (zip resolved posted) results)
    \<and> (\<forall>e. submission_context seal definitions clientOf (encrypted_input input results) = Inl e
          \<longrightarrow> (\<exists>m. e = toSubmissionFailure (EvaluationFailure (EncryptedError CAPACITY_EXCEEDED m))))"
proof -
  obtain d resolved where d: "definitions (ri_key input) (ri_version input) = Inr d" "sd_combined d" "resolveNormalizationMethod d = Inr OBSERVED_MIN_MAX"
    and res: "resolveChildren definitions (ri_outputs input) children = Inr resolved"
    and run: "submit_children (createDeepIdClient net config) files (ri_timestamp input) resolved c = (Inr results, s)"
    using assms(1,2) by (auto simp: submit_custom_raw_scores_def rs_bind_Inr rs_throw_def resolveNormalizationMethod_def Let_def split: sum.splits if_splits)
  obtain posted where posted: "di_posts s = di_posts c @ concat posted" "length posted = length resolved"
    and each: "list_all2 (\<lambda>(child, ps) r. result_of_posts files (ri_timestamp input) ps child r) (zip resolved posted) results"
    using dc.submit_children_Inr[OF run] by blast
  have types: "map cr_scoreType results = map cs_key children"
  proof -
    have "list_all2 (\<lambda>x r. cr_scoreType r = rc_scoreType (fst x)) (zip resolved posted) results"
      using each by (rule list_all2_mono) (auto simp: result_of_posts_def)
    then have "map cr_scoreType results = map (rc_scoreType \<circ> fst) (zip resolved posted)" by (induction rule: list_all2_induct) auto
    also have "\<dots> = map rc_scoreType resolved" using posted(2) by (simp add: map_fst_zip flip: map_map)
    finally show ?thesis using resolved_types(1)[OF res] by simp
  qed
  have bounds: "\<exists>m M. bounds_of (cr_observation r) m M" if "r \<in> set results" for r
    using list_all2_member[OF each that] observed_bounds by auto
  let ?obs = "map (\<lambda>r. (cr_scoreType r, cr_observation r)) results"
  have keys: "map fst ?obs = map cs_key children" using types by (simp add: comp_def)
  have observed: "\<exists>m M. bounds_of (the (map_of ?obs (cs_key child))) m M" "map_of ?obs (cs_key child) \<noteq> None" if "child \<in> set children" for child
  proof -
    have "cs_key child \<in> fst ` set ?obs" using that keys by (metis image_eqI list.set_map)
    then obtain ob where ob: "map_of ?obs (cs_key child) = Some ob" using map_of_eq_None_iff[of ?obs "cs_key child"] by auto
    then show "map_of ?obs (cs_key child) \<noteq> None" by simp
    show "\<exists>m M. bounds_of (the (map_of ?obs (cs_key child))) m M" using map_of_SomeD[OF ob] bounds ob by auto
  qed
  define sel where "sel = map (\<lambda>child. \<lparr>sel_key = cs_key child, sel_scope = cs_key child @ ''_encr''\<rparr>) children"
  have "resolveSelectedEncryptedChildren children = Inr sel"
    unfolding resolveSelectedEncryptedChildren_def sel_def
    using resolved_types(2)[OF res] child_type_scope by (intro map_result_total) (auto simp: list_all_iff Let_def)
  then have selected: "fatal_cohort (resolveSelectedEncryptedChildren children) = Inr sel" by (simp add: fatal_cohort_def)
  have "distinct (map fst ?obs)" using parseCustomScoreChildren_valid[OF assms(2)] keys by simp
  moreover have "find (\<lambda>child. map_of ?obs (sel_key child) = None) sel = None"
    using observed(2) by (auto simp: sel_def find_None_iff)
  ultimately have obs: "resolveObservations sel ?obs = Inr ?obs"
    using collect_distinct[of "[]" ?obs] by (simp add: resolveObservations_def)
  have norm: "or_default (sd_normalization d) OBSERVED_MIN_MAX = OBSERVED_MIN_MAX"
    using d(3) by (simp add: resolveNormalizationMethod_def Let_def split: if_splits)
  have "\<exists>m. e = toSubmissionFailure (EvaluationFailure (EncryptedError CAPACITY_EXCEEDED m))"
    if e: "submission_context seal definitions clientOf (encrypted_input input results) = Inl e" for e
  proof -
    let ?cs = "map (\<lambda>child. \<lparr>ec_key = cs_key child, ec_weight = cs_weight child, ec_observation = the (map_of ?obs (cs_key child))\<rparr>) children"
    obtain e' where e': "buildEncryptedEvaluationPlan OBSERVED_MIN_MAX ?cs = Inl e'" "e = toSubmissionFailure (EvaluationFailure e')"
      using e d(1,2) assms(2) selected obs norm
      by (cases "buildEncryptedEvaluationPlan OBSERVED_MIN_MAX ?cs") (simp_all add: submission_context_def encrypted_input_def createEncryptedCustomScoreEvaluator_def)
    have "error_code e' = CAPACITY_EXCEEDED"
      using observed_plan[OF assms(2,3) resolved_types(2)[OF res] observed(1) e'(1)] by simp
    then show ?thesis using e'(2) by (cases e') auto
  qed
  then show ?thesis using res posted each by blast
qed

definition demo_raw_definitions :: "string \<Rightarrow> string \<Rightarrow> string + ScoreDefinition" where
  "demo_raw_definitions k v = Inr \<lparr>sd_key = k, sd_combined = (k = ''custom_score''), sd_runtime = ''typescript'',
     sd_csvOutputs = [\<lparr>co_key = ''out'', co_columns = [''did'', ''score'']\<rparr>], sd_normalization = None\<rparr>"

definition demo_raw_input :: RawSubmissionInput where
  "demo_raw_input = \<lparr>ri_key = ''custom_score'', ri_version = ''1'', ri_inputs = ei_inputs demo_submission, ri_outputs = [(''voting_engagement'', ''csv'')], ri_timestamp = ''ts''\<rparr>"

definition demo_score_files :: ScoreFiles where
  "demo_score_files = \<lparr>sf_getObject = \<lambda>k. Inr k, sf_parse = \<lambda>_. Inr [[(''did'', ''did''), (''score'', ''5'')]]\<rparr>"

definition demo_raw_result :: CustomRawScoresChildResult where
  "demo_raw_result = \<lparr>cr_scoreType = ''voting_engagement'', cr_csvKey = ''csv'', cr_observation = \<lparr>no_method = OBSERVED_MIN_MAX, no_min = Fin 5, no_max = Fin 5\<rparr>,
     cr_posted = 1, cr_ok = 1, cr_dropped = 0, cr_rejected = 0, cr_lastRequestId = None\<rparr>"

lemma demo_raw_run:
  "submit_custom_raw_scores demo_raw_definitions (demo_deep_client ''s'') demo_score_files demo_raw_input (demo_session [])
   = (Inr [demo_raw_result], demo_session [([(''did'', PlainScoreEntry (Fin 5) ''voting_engagement'' ''ts'')], [(''did'', ''OK'')])])"
proof -
  let ?child = "\<lparr>cs_key = ''voting_engagement'', cs_version = ''1'', cs_weight = Fin 1, cs_inputs = []\<rparr>"
  let ?res = "\<lparr>rc_scoreType = ''voting_engagement'', rc_csvKey = ''csv'', rc_scoreColumnKey = ''score''\<rparr>"
  have five: "js_to_number ''5'' = Fin 5" using to_double_int[of 5]
    by (simp add: js_to_number_def js_trim_def js_is_space_def scan_decimal_def scan_unsigned_def js_startsWith_def char_between_def
        digits_value_def scan_exponent_def js_lower_char_def Let_def)
  have parse: "parseCustomScoreChildren (ri_inputs demo_raw_input) = Inr [?child]" using demo_children by (simp add: demo_raw_input_def)
  have res: "resolveChildren demo_raw_definitions (ri_outputs demo_raw_input) [?child] = Inr [?res]"
    by (simp add: resolveChildren_def resolveChild_def demo_raw_definitions_def demo_raw_input_def CHILD_SCORE_TYPES_def getPrimaryCsvOutput_def js_trim_def js_is_space_def Let_def)
  have rows: "read_rows demo_score_files ?res = Inr [\<lparr>rw_did = ''did'', rw_score = Fin 5\<rparr>]"
    by (simp add: read_rows_def demo_score_files_def parseNativeScoreRows_def row_did_def row_score_def five js_trim_def js_is_space_def jis_finite_def Let_def)
  have ch: "chunks POST_CHUNK_SIZE [\<lparr>rw_did = ''did'', rw_score = Fin 5\<rparr>] = [[\<lparr>rw_did = ''did'', rw_score = Fin 5\<rparr>]]"
    by (subst chunks.simps) (subst chunks.simps, simp add: POST_CHUNK_SIZE_def)
  have req: "raw_request ''voting_engagement'' ''ts'' [\<lparr>rw_did = ''did'', rw_score = Fin 5\<rparr>] = [(''did'', PlainScoreEntry (Fin 5) ''voting_engagement'' ''ts'')]"
    by (simp add: raw_request_def from_entries_def)
  have post: "post_or_fail (demo_deep_client ''s'') [(''did'', PlainScoreEntry (Fin 5) ''voting_engagement'' ''ts'')] (demo_session [])
    = (Inr \<lparr>pr_ok = 1, pr_failed = 0, pr_results = [(''did'', ''OK'')], pr_requestId = None\<rparr>,
       demo_session [([(''did'', PlainScoreEntry (Fin 5) ''voting_engagement'' ''ts'')], [(''did'', ''OK'')])])"
    using demo_post[of "[(''did'', PlainScoreEntry (Fin 5) ''voting_engagement'' ''ts'')]" "''s''" "[]"]
    by (simp add: post_or_fail_def SCORE_TYPES_def jis_finite_def)
  have "submit_child (demo_deep_client ''s'') demo_score_files ''ts'' ?res (demo_session [])
    = (Inr demo_raw_result, demo_session [([(''did'', PlainScoreEntry (Fin 5) ''voting_engagement'' ''ts'')], [(''did'', ''OK'')])])"
    by (simp add: submit_child_def rs_bind_def rs_lift_def rows ch req post rs_ret_def no_counts_def count_row_def Let_def observer_accept_def observer_finish_def demo_raw_result_def)
  moreover have "resolveNormalizationMethod \<lparr>sd_key = ''custom_score'', sd_combined = True, sd_runtime = ''typescript'',
      sd_csvOutputs = [\<lparr>co_key = ''out'', co_columns = [''did'', ''score'']\<rparr>], sd_normalization = None\<rparr> = Inr OBSERVED_MIN_MAX"
    by (simp add: resolveNormalizationMethod_def or_default_def)
  moreover have "demo_raw_definitions (ri_key demo_raw_input) (ri_version demo_raw_input) = Inr \<lparr>sd_key = ''custom_score'', sd_combined = True, sd_runtime = ''typescript'',
      sd_csvOutputs = [\<lparr>co_key = ''out'', co_columns = [''did'', ''score'']\<rparr>], sd_normalization = None\<rparr>" "ri_timestamp demo_raw_input = ''ts''"
    by (simp_all add: demo_raw_definitions_def demo_raw_input_def)
  ultimately show ?thesis by (simp add: submit_custom_raw_scores_def rs_bind_def rs_lift_def parse res rs_ret_def)
qed

theorem raw_submission_fits_plan_witness:
  "submit_custom_raw_scores demo_raw_definitions (demo_deep_client ''s'') demo_score_files demo_raw_input (demo_session [])
     = (Inr [demo_raw_result], demo_session [([(''did'', PlainScoreEntry (Fin 5) ''voting_engagement'' ''ts'')], [(''did'', ''OK'')])])
   \<and> (\<exists>resolved posted. di_posts (demo_session [([(''did'', PlainScoreEntry (Fin 5) ''voting_engagement'' ''ts'')], [(''did'', ''OK'')])]) = concat posted
        \<and> list_all2 (\<lambda>(child, ps) r. result_of_posts demo_score_files ''ts'' ps child r) (zip resolved posted) [demo_raw_result])"
proof -
  have w: "list_all (\<lambda>child. is_double (cs_weight child)) [\<lparr>cs_key = ''voting_engagement'', cs_version = ''1'', cs_weight = Fin 1, cs_inputs = []\<rparr>]"
    using is_double_int[of 1] by simp
  have parse: "parseCustomScoreChildren (ri_inputs demo_raw_input) = Inr [\<lparr>cs_key = ''voting_engagement'', cs_version = ''1'', cs_weight = Fin 1, cs_inputs = []\<rparr>]"
    using demo_children by (simp add: demo_raw_input_def)
  have "ri_timestamp demo_raw_input = ''ts''" "di_posts (demo_session []) = []" by (simp_all add: demo_raw_input_def demo_session_def)
  then show ?thesis using raw_submission_fits_plan[OF demo_raw_run parse w, of demo_seal "deep_id_clients demo_net demo_config"] demo_raw_run by auto
qed

section \<open>Standalone posting\<close>

text \<open>A failed posting shows its category and nothing of the reply.\<close>

lemma posting_failure_is_a_category:
  "post_snapshot_scores definitions client files now snap timestamp s = (Inl m, s') \<Longrightarrow>
   m \<in> (@) ''DeepID score posting failed: '' ` {''auth_failed'', ''rate_limited'', ''upstream_error'', ''rejected'', ''contract_violation'', ''output_unreadable'', ''unknown''}"
proof -
  assume "post_snapshot_scores definitions client files now snap timestamp s = (Inl m, s')"
  then obtain e where "m = toSafeFailure e"
    by (cases "post_scores definitions client files now snap timestamp s"; cases "fst (post_scores definitions client files now snap timestamp s)")
      (auto simp: post_snapshot_scores_def)
  then show ?thesis by (auto simp: toSafeFailure_def toFailureCategory_def http_category_def split: posting_error.splits deep_error.splits)
qed

text \<open>What is posted has one entry for each valid identifier, each with a finite score, and a row without one is skipped.\<close>

lemma list_all_update: "P (k, v) \<Longrightarrow> list_all P m \<Longrightarrow> list_all P (AList.update k v m)"
  by (induction m) auto

lemma postable_scores_ok:
  assumes "postable_scores scoreType column timestamp rows (scores, n) = (scores', n')" "distinct (map fst scores)"
    and "list_all (\<lambda>(did, e). isValidDid did \<and> (\<exists>x. e = PlainScoreEntry x scoreType timestamp \<and> jis_finite x)) scores"
  shows "distinct (map fst scores') \<and> n' + length (filter (\<lambda>row. isValidDid (row_did row) \<and> jis_finite (row_score column row)) rows) = n + length rows
    \<and> list_all (\<lambda>(did, e). isValidDid did \<and> (\<exists>x. e = PlainScoreEntry x scoreType timestamp \<and> jis_finite x)) scores'"
  using assms
proof (induction rows arbitrary: scores n)
  case (Cons row rows)
  show ?case
  proof (cases "isValidDid (row_did row) \<and> jis_finite (row_score column row)")
    case True
    let ?scores = "AList.update (row_did row) (PlainScoreEntry (row_score column row) scoreType timestamp) scores"
    have "list_all (\<lambda>(did, e). isValidDid did \<and> (\<exists>x. e = PlainScoreEntry x scoreType timestamp \<and> jis_finite x)) ?scores"
      using Cons.prems(3) True by (intro list_all_update) auto
    then show ?thesis using Cons.IH[of ?scores n] Cons.prems True by (simp add: Let_def distinct_update)
  next
    case False
    then show ?thesis using Cons.IH[of scores "n + 1"] Cons.prems by (auto simp: Let_def)
  qed
qed simp

end
