(* ===== verification/Spec2Isabelle.thy ===== *)
theory Spec2Isabelle
  imports Orchestrator Token_Run Auth_Service Community_Engagement Community_Connections Preset_Validation Voting_Engagement Deep_Id_Posting
begin

text \<open>
  \<^bold>\<open>Reputo.\<close> Reputo computes reputation scores. A NestJS API stores algorithm presets and
  snapshots in Postgres; creating a snapshot starts a Temporal workflow, the orchestrator, which
  resolves the data the algorithm depends on, runs the algorithm as an activity on another task queue,
  records its outputs and posts the scores to a DeepID service. The on-chain workers copy the token
  transfers of Ethereum and Cardano into Postgres, and the algorithm of the value of tokens over time
  replays them; the portal worker copies the proposals, comments, votes and reviews of the funding portal, which two
  more algorithms score; the community workers freeze the activity of chat and code platforms as a dataset in
  object storage, and the engagement algorithm scores it. Requests reach the API through sessions whose role an allowlist decides. The theories below
  translate the check of a preset, the path from the request that creates a snapshot down to the lots of a wallet, the sessions
  and the allowlist, object storage, the connections to communities, and the freeze and scoring of a dataset,
  each in the order of its sources.

  \<^bold>\<open>Conventions.\<close> A TypeScript object is a record, a union a datatype. A table is a list of rows in
  insertion order, an exception is the left side of a sum, and a transaction is a function that returns
  the new tables only on success, so a rollback is the old value. What other programs decide (the Temporal
  server, S3, the JSON RPC provider, Blockfrost, the HTTP services) is an argument of the definition that
  uses it: a list of scripted replies or a function from requests to replies. A number of JavaScript is
  a rational with the two roundings that matter, written out in Js_Number; ids, block numbers and
  amounts stay strings where the code keeps strings. 

  \<^bold>\<open>Foundations.\<close>
  \<^item> \<open>Js_Number\<close>: the double precision numbers the scores use: rounding, comparison, monotonicity.
  \<^item> \<open>Prelude\<close>: collections of simplification rules, lists, association lists and JSON values.
  \<^item> \<open>Result_State\<close>: computations that change a state and return or fail, with a program logic and the
    rules for invariants that the connection service uses.

  \<^bold>\<open>API\<close> (src/apps/api, src/packages/database).
  \<^item> \<open>Snapshot_Store\<close>: the snapshot repository: rows, the state machine of the status, atomic external
    updates, outputs and the publication ledger. A settled status is final under every sequence of
    repository operations; the invariant of the store holds in every reachable state; a refused update
    changes nothing and a repeated one changes nothing more.
  \<^item> \<open>Temporal_Client\<close>: starting, describing, cancelling and terminating a workflow, and which errors
    mean that it already ended.
  \<^item> \<open>Preset_Store\<close>: the preset repository with its input rows, and the round trip through them.
  \<^item> \<open>Snapshot_Service\<close>: create, delete and list of snapshots and presets, the activities the
    workflow calls back, and the reconciler. The locale of an external update gives the reconciler its
    laws; creation either returns a running workflow or leaves a failed row; deletion touches storage only
    after the row is gone; reconciliation brings every row to the state of its workflow.

  \<^item> \<open>Object_Storage\<close> (src/packages/storage, src/apps/api/src/storage): keys, the calls on a bucket and the upload
    policy. A key parses to what it was built from; a verified upload meets the size and type the policy sets.
  \<^item> \<open>Community_Connections\<close> (src/apps/api/src/community): connecting, checking and disconnecting a community, with the
    platforms and the other requests as arguments. The locale \<open>comm_invariant\<close> carries an invariant through every
    handler and is interpreted three times: for the consistency of the tables, for the audit that only grows,
    and for the number of entries of a person. A check that overlaps a disconnect brings the row back.

  \<^item> \<open>Payload_Schema\<close> (src/packages/algorithm-validator): the definitions of algorithms and the schema their payloads are
    checked against. What the schema package does with a schema is an argument with its documented behaviour; an
    accepted payload has the declared types, and a second check returns it unchanged.
  \<^item> \<open>Preset_Validation\<close> (the same package and src/apps/api/src/shared/utils): the check of a preset with its CSV and
    JSON files, the rules of a definition and the presets of sub-algorithms, and the admission of inputs by the API. The
    locale \<open>file_opener\<close> states what the check needs of the function that opens files; it is interpreted
    for the cached reads of the API. The depth argument bounds the nesting; two levels are enough.

  \<^bold>\<open>Access\<close> (src/apps/api/src/admin, src/apps/api/src/auth, src/packages/database).
  \<^item> \<open>Access_Store\<close>: the allowlist, the users and the sessions as tables; the locale \<open>role_table\<close> states what
    an allowlist promises and is interpreted for the repository.
  \<^item> \<open>Admin_Service\<close>: adding, removing and changing administrators. One request at a time never loses the
    last owner; two concurrent removals can, because the count and the revocation are separate statements.
  \<^item> \<open>Auth_Service\<close>: the OAuth client, the callback, sessions with their refresh, and logout. The locales
    \<open>client_keeps\<close> and \<open>handler_keeps\<close> carry an invariant through the calls of a handler. A request is
    authenticated only with an active session of an address on the allowlist; a login is bound to the flow
    of its browser; sessions stay within their lifetime and a revoked one stays revoked.

  \<^bold>\<open>Workflow\<close> (src/apps/workflows).
  \<^item> \<open>Orchestrator_Inputs\<close>: parsing of the inputs of a custom score and the on-chain targets.
  \<^item> \<open>Workflow_Monad\<close>: the activities as a state monad with a trace, a clock and scripted replies.
  \<^item> \<open>Encrypted_Lifecycle\<close>: the encrypted custom score: prepare, submit, poll for readiness.
  \<^item> \<open>Orchestrator\<close>: the whole orchestrator workflow with its phases and failure handling. A failed run
    is recorded as failed, scores are posted only after the snapshot is completed, and a combined
    encrypted run completes only after DeepID accepted it.

  \<^bold>\<open>On-chain data\<close> (src/packages/onchain-data, src/apps/workflows).
  \<^item> \<open>Onchain_Table\<close>: the insert that ignores conflicts and the pages over an ordered table, as the
    locale \<open>ignore_table\<close> interpreted for both chains.
  \<^item> \<open>Onchain_Evm\<close>: hexadecimal block numbers, the provider with its retries, the sync of EVM transfers
    and the repository that reads them back. The cursor never passes a transfer that is not stored.
  \<^item> \<open>Onchain_Cardano\<close>: the sync of Cardano transactions and UTXOs. What is stored is always a prefix
    of the history of the asset; the pool of concurrent fetches returns its results in order
    under every interleaving, a step relation.
  \<^item> \<open>Onchain_Sync\<close>: the activity that syncs every target of a run. When it succeeds, every target
    is stored up to its confirmed head.

  \<^bold>\<open>Community data\<close> (src/apps/workflows/src/activities/community, src/packages/community-api).
  \<^item> \<open>Community_Dataset\<close>: the crawl of the selected resources into staging segments, the export and
    the commit. Attempts, crashes between any two uploads and heartbeats that arrive or not are a step relation;
    a committed dataset is the one of an uninterrupted crawl and never changes again.
  \<^item> \<open>Community_Engagement\<close>: the cohort of consented users, the download of a committed dataset, its credits and
    the scores of members. What is scored is the committed dataset; credits stay between their bounds.

  \<^bold>\<open>Value of tokens over time\<close> (src/apps/workflows, algorithms).
  \<^item> \<open>Token_Value\<close>: first-in first-out lots and their weights. The replay refines a plain ledger of
    balances.
  \<^item> \<open>Did_Input\<close>: the map from decentralised identifiers to wallets and its inverse.
  \<^item> \<open>Token_Run\<close>: the whole algorithm: resources, normalisation, the loop over pages and the result.
    Reading by pages gives the replay of one ordered stream; the loop ends; the result has one score
    for every identifier of the cohort.

  \<^bold>\<open>Portal data and scores\<close> (src/packages/deepfunding-portal-api, src/apps/workflows).
  \<^item> \<open>Portal_Data\<close>: the client of the funding portal with its retries, the records and repositories of the
    eight resources, and the activity that copies the portal into one database object per snapshot. The locale
    \<open>bulk_insert\<close> states what an insert promises and \<open>portal_table\<close> what a repository adds in chunks; both are
    interpreted for every table. A sync stores every item of every page; a failed one leaves no database, unless
    only the manifest is missing, and then no later attempt writes it.
  \<^item> \<open>Portal_Scores\<close>: the contribution score of comments and the engagement of proposals, from the database object to
    the outputs. Both agree with reference definitions that count in the tables; weights decay with age.
  \<^item> \<open>Voting_Engagement\<close>: the entropy of the votes of the collections linked to an identifier.

  \<^bold>\<open>Custom score\<close> (src/apps/workflows, algorithms/custom-score).
  \<^item> \<open>Evaluation_Plan\<close>: the custom score runs its children and keeps their outputs; the observed bounds and the weights of
    the children fold into one coefficient and one shift per child. An accepted plan is monotone in every child.
  \<^item> \<open>Encrypted_Evaluator\<close>: the handles of SEAL objects, the context of a key, the evaluation of users. The SEAL package is an
    argument with the documented error of its operations as a hypothesis. What is returned stands for the planned score;
    no object is leaked on any path.

  \<^bold>\<open>DeepID\<close> (src/packages/deep-id-api, src/apps/workflows/src/activities/orchestrator).
  \<^item> \<open>Deep_Id_Client\<close>: tokens with their renewal, requests with their retries, the check of responses, the pages of users,
    the posting of scores and the metadata of a key. The locale \<open>deep_client\<close> states what the activities
    need of a client (reads post nothing, the users of a page are distinct) and is interpreted for the HTTP client.
  \<^item> \<open>Deep_Id_Scores\<close>: the classification of users, the readiness pass and the submission of encrypted scores, which
    uses the evaluator. When the submission reports success, every complete user of its last pass has an accepted post.
  \<^item> \<open>Deep_Id_Posting\<close>: the raw scores of the children of a custom score and the scores of a standalone snapshot. The
    bounds a raw submission observes are those of its accepted rows, and the encrypted half can plan with them.

  \<^bold>\<open>Fuel and bounds.\<close> The polling of the encrypted lifecycle has no fuel: its recursion is on the time
  left, and \<open>poll_ends_within_26\<close> bounds the polls of a run. The page loop of \<open>Token_Run\<close> takes
  as fuel the number of rows of the table and one, since each further page moves the cursor; that this is
  enough is \<open>computeTokenValueOverTime_ends\<close>. A provider call is retried at most five times. The loops over
  chunks and pages of \<open>Portal_Data\<close> need not end (a chunk size of zero, a portal that always names a next page): they are
  partial functions into option, and \<open>portal_sync_stores_everything\<close> proves that a sync returns. The loops over the
  pages of users are partial functions too, since DeepID may always name a next page; an activity passes over them at most four times.

  \<^bold>\<open>Not modelled.\<close> The web interface and the HTTP controllers hold no state of their own. HTTP
  replies, encryption and random tokens are parameters of the access theories. The lattice arithmetic of SEAL is a
  package; the evaluator sees its operations.
  Process start, environment schemas and dependency injection are wiring. 
\<close>

end
